(* ===== verification/Prelude.thy ===== *)
theory Prelude
imports Main "HOL-Library.Word"
begin

text \<open>
  What every component theory of the development shares: the names of the model's basic types,
  the collections of rewrite rules the component proofs are carried by, the reading of a C++
  pointer to a data pin as a pair of a reader and a writer, and the generic facts on lists,
  options and machine words that the components use.
\<close>

section \<open>Types\<close>

text \<open>
  \<open>TPortId\<close> and \<open>TEventID\<close> are \<open>size_t\<close> port numbers; they are only ever compared and used as
  indices, so they are natural numbers here, with the code's marker constants.
  A \<open>StringId\<close> is an interned string or the null id; theory \<open>String_Id\<close> shows that comparing the
  interned addresses is comparing the strings.  A data pin of an elementary type holds the 64-bit
  union \<open>UAnyData\<close> of its base class.
\<close>

type_synonym TPortId = nat
type_synonym TEventID = nat
type_synonym StringId = "string option"
type_synonym cell = "64 word"

abbreviation null_id :: StringId where
  "null_id \<equiv> None"

definition cgInvalidPortId :: nat where
  "cgInvalidPortId = 65535"

definition cgInvalidEventID :: nat where
  "cgInvalidEventID = cgInvalidPortId"

definition cgExternalEventID :: nat where
  "cgExternalEventID = cgInvalidEventID - 1"

definition cgInternal2InterfaceMarker :: nat where
  "cgInternal2InterfaceMarker = cgInvalidPortId + 1"

section \<open>Collections\<close>

named_theorems ring_simps \<open>abstraction equations of the ring buffer\<close>
named_theorems fb_steps \<open>what the pieces of a block's code may change, as rewrite rules\<close>
named_theorems fb_fields \<open>members that sending an event leaves alone\<close>

section \<open>Pins as references\<close>

text \<open>
  The virtual accessors \<open>getDI\<close>, \<open>getDO\<close>, \<dots> return a pointer to a member of the block.  A
  pointer to a member is the pair of the functions that read and write it; the null pointer is
  \<open>None\<close>.
\<close>

datatype ('s, 'v) ref = Ref (rd: "'s \<Rightarrow> 'v") (wr: "'v \<Rightarrow> 's \<Rightarrow> 's")

section \<open>Lists\<close>

lemma foldl_append_cong:
  "(\<And>s x. f s x = s @ g x) \<Longrightarrow> foldl f s xs = s @ concat (map g xs)"
  by (induction xs arbitrary: s) auto

section \<open>Words\<close>

unbundle bit_operations_syntax

lemma unat_and_mask_mod:
  fixes w :: "'a::len word"
  shows "unat (w AND mask k) = unat w mod 2 ^ k"
  by (simp add: unsigned_take_bit_eq take_bit_nat_def flip: take_bit_eq_mask)

lemma mask_mod_pow:
  fixes k n :: nat
  assumes "k \<le> n"
  shows "(2 ^ n - 1) mod 2 ^ k = (2 ^ k - 1 :: nat)"
  using assms by (metis take_bit_eq_mod mask_eq_exp_minus_1 take_bit_of_mask min_absorb1)

lemma unat_add_of_nat_mod:
  fixes w :: "'a::len word"
  assumes "k \<le> LENGTH('a)"
  shows "unat (w + of_nat n) mod 2 ^ k = (unat w + n) mod 2 ^ k"
proof -
  have "(2::nat) ^ k dvd 2 ^ LENGTH('a)"
    using assms by (simp add: le_imp_power_dvd)
  then show ?thesis
    by (simp add: unat_word_ariths unsigned_of_nat take_bit_eq_mod mod_mod_cancel mod_add_right_eq
        del: of_nat_add)
qed

lemma of_nat_unat_diff_add:
  fixes a b :: "'a::len word"
  shows "a + of_nat (unat (b - a)) = b"
  by simp

section \<open>Characters\<close>

definition isDigit :: "char \<Rightarrow> bool" where
  "isDigit ch = (48 \<le> (of_char ch :: nat) \<and> of_char ch \<le> (57 :: nat))"

end
