(* ===== verification/Mgm_Cmd.thy ===== *)
theory Mgm_Cmd
imports Prelude
begin

text \<open>
  The management commands and responses of \<open>core/include/forte/mgmcmd.h\<close>, \<open>mgmcmd.cpp\<close> and
  \<open>mgmcmdstruct.*\<close>: the command enumeration with the bytes it is encoded by, the response
  enumeration with its wire texts, and the command structure the parser fills and the resource
  executes.
\<close>

unbundle bit_operations_syntax

datatype EMGMCommandType =
    CreateGroup | CreateDataType | CreateFBType | CreateAdapterType | CreateFBInstance
  | CreateConnection
  | DeleteGroup | DeleteDataType | DeleteFBType | DeleteFBInstance | DeleteConnection
  | DeleteAllFBInstances
  | Start | Stop | Read | Write | Kill
  | QueryGroup | QueryFB | QueryConnection | QueryFBTypes | QueryDTTypes | QueryAdapterTypes
  | QueryTypeVers | QueryFBType | QueryAdapterType | QueryDataType | QueryGlobalConstType
  | QueryGlobalConstTypes
  | Reset
  | MonitoringGroup | MonitoringAddWatch | MonitoringRemoveWatch | MonitoringReadWatches
  | MonitoringForce | MonitoringClearForce | MonitoringTriggerEvent | MonitoringResetEventCount
  | INVALID

fun cmd_byte :: "EMGMCommandType \<Rightarrow> 8 word" where
  "cmd_byte CreateGroup = 0x00"
| "cmd_byte CreateDataType = 0x10"
| "cmd_byte CreateFBType = 0x20"
| "cmd_byte CreateAdapterType = 0x50"
| "cmd_byte CreateFBInstance = 0x30"
| "cmd_byte CreateConnection = 0x40"
| "cmd_byte DeleteGroup = 0x01"
| "cmd_byte DeleteDataType = 0x11"
| "cmd_byte DeleteFBType = 0x21"
| "cmd_byte DeleteFBInstance = 0x31"
| "cmd_byte DeleteConnection = 0x41"
| "cmd_byte DeleteAllFBInstances = 0x61"
| "cmd_byte Start = 0x02"
| "cmd_byte Stop = 0x03"
| "cmd_byte Read = 0x04"
| "cmd_byte Write = 0x05"
| "cmd_byte Kill = 0x06"
| "cmd_byte QueryGroup = 0x07"
| "cmd_byte QueryFB = 0x17"
| "cmd_byte QueryConnection = 0x27"
| "cmd_byte QueryFBTypes = 0x37"
| "cmd_byte QueryDTTypes = 0x47"
| "cmd_byte QueryAdapterTypes = 0x57"
| "cmd_byte QueryTypeVers = 0x67"
| "cmd_byte QueryFBType = 0x77"
| "cmd_byte QueryAdapterType = 0x87"
| "cmd_byte QueryDataType = 0x97"
| "cmd_byte QueryGlobalConstType = 0xA7"
| "cmd_byte QueryGlobalConstTypes = 0xB7"
| "cmd_byte Reset = 0x08"
| "cmd_byte MonitoringGroup = 0x0A"
| "cmd_byte MonitoringAddWatch = 0x1A"
| "cmd_byte MonitoringRemoveWatch = 0x2A"
| "cmd_byte MonitoringReadWatches = 0x3A"
| "cmd_byte MonitoringForce = 0x5A"
| "cmd_byte MonitoringClearForce = 0x6A"
| "cmd_byte MonitoringTriggerEvent = 0x7A"
| "cmd_byte MonitoringResetEventCount = 0x8A"
| "cmd_byte INVALID = 0xFF"

datatype EMGMResponse =
    Ready | BadParams | LocalTermination | SystemTermination | NotReady | UnsupportedCmd
  | UnsupportedType | NoSuchObject | InvalidObject | InvalidOperation | InvalidState | Overflow
  | InvalidDst

text \<open>The enumerator's value, the index into the table of texts.\<close>

fun response_index :: "EMGMResponse \<Rightarrow> nat" where
  "response_index Ready = 0"
| "response_index BadParams = 1"
| "response_index LocalTermination = 2"
| "response_index SystemTermination = 3"
| "response_index NotReady = 4"
| "response_index UnsupportedCmd = 5"
| "response_index UnsupportedType = 6"
| "response_index NoSuchObject = 7"
| "response_index InvalidObject = 8"
| "response_index InvalidOperation = 9"
| "response_index InvalidState = 10"
| "response_index Overflow = 11"
| "response_index InvalidDst = 12"

definition scmMGMResponseTexts :: "string list" where
  "scmMGMResponseTexts =
     [''RDY'', ''BAD_PARAMS'', ''LOCAL_TERMINATION'', ''SYSTEM_TERMINATION'', ''NOT_READY'',
      ''UNSUPPORTED_CMD'', ''UNSUPPORTED_TYPE'', ''NO_SUCH_OBJECT'', ''INVALID_OBJECT'',
      ''INVALID_OPERATION'', ''INVALID_STATE'', ''OVERFLOW'', ''INVALID_DST'']"

definition getResponseText :: "EMGMResponse \<Rightarrow> string" where
  "getResponseText r = scmMGMResponseTexts ! response_index r"

type_synonym TNameIdentifier = "StringId list"

record SManagementCMD =
  mCMD :: EMGMCommandType
  mDestination :: StringId
  mFirstParam :: TNameIdentifier
  mSecondParam :: TNameIdentifier
  mAdditionalParams :: string
  mID :: string
  mMonitorResponse :: string

definition SManagementCMD_clear :: "SManagementCMD \<Rightarrow> SManagementCMD" where
  "SManagementCMD_clear c =
     c\<lparr>mCMD := INVALID, mDestination := null_id, mFirstParam := [], mSecondParam := [],
       mAdditionalParams := [], mID := [], mMonitorResponse := []\<rparr>"

definition all_commands :: "EMGMCommandType list" where
  "all_commands =
     [CreateGroup, CreateDataType, CreateFBType, CreateAdapterType, CreateFBInstance,
      CreateConnection, DeleteGroup, DeleteDataType, DeleteFBType, DeleteFBInstance,
      DeleteConnection, DeleteAllFBInstances, Start, Stop, Read, Write, Kill, QueryGroup, QueryFB,
      QueryConnection, QueryFBTypes, QueryDTTypes, QueryAdapterTypes, QueryTypeVers, QueryFBType,
      QueryAdapterType, QueryDataType, QueryGlobalConstType, QueryGlobalConstTypes, Reset,
      MonitoringGroup, MonitoringAddWatch, MonitoringRemoveWatch, MonitoringReadWatches,
      MonitoringForce, MonitoringClearForce, MonitoringTriggerEvent, MonitoringResetEventCount,
      INVALID]"

lemma all_commands_UNIV: "set all_commands = UNIV"
proof -
  have "c \<in> set all_commands" for c
    by (cases c) (simp_all add: all_commands_def)
  then show ?thesis by auto
qed

lemma cmd_byte_distinct: "distinct (map cmd_byte all_commands)"
  by (simp add: all_commands_def)

section \<open>Properties\<close>

text \<open>No two management commands share an encoding byte, and no two responses share a wire
  text, so both can be decoded unambiguously.\<close>

theorem codes_injective: "inj cmd_byte \<and> inj getResponseText"
proof
  show "inj cmd_byte"
    using cmd_byte_distinct by (simp add: distinct_map all_commands_UNIV)
  show "inj getResponseText"
  proof (rule injI)
    fix a b show "getResponseText a = getResponseText b \<Longrightarrow> a = b"
      by (cases a; cases b) (simp_all add: getResponseText_def scmMGMResponseTexts_def)
  qed
qed

end
