(* ===== verification/String_Id.thy ===== *)
theory String_Id
imports Prelude
begin

text \<open>
  The interned strings of \<open>core/src/stringid.cpp\<close>: an id carries the address of the text's one
  copy, and two ids are compared by address.  The table is a list of addressed texts; the addresses
  a static text or the run-time \<open>deque\<close> element gets are the caller's argument, and what the code
  relies on is that a new object does not share the address of a live one.  The theory justifies
  the reading of a \<open>StringId\<close> as a \<open>string option\<close> in the other theories.
\<close>

text \<open>A \<open>std::string_view\<close>: the address of its first character (0 for the null view) and its
  text.\<close>

record string_view =
  sv_data :: nat
  sv_text :: string

record intern_state =
  internSet :: "string_view list"
  runtimeDeque :: "string_view list"

definition null_view :: string_view where
  "null_view = \<lparr>sv_data = 0, sv_text = []\<rparr>"

text \<open>\<open>internSet().find\<close> and \<open>internSet().insert\<close>, which compare texts.\<close>

definition set_find :: "string \<Rightarrow> string_view list \<Rightarrow> string_view option" where
  "set_find t S = find (\<lambda>v. sv_text v = t) S"

definition set_insert :: "string_view \<Rightarrow> string_view list \<Rightarrow> string_view \<times> string_view list" where
  "set_insert v S = (case set_find (sv_text v) S of None \<Rightarrow> (v, v # S) | Some w \<Rightarrow> (w, S))"

text \<open>\<open>intern\<close> registers a static text under its own address.\<close>

definition StringId_intern :: "string_view \<Rightarrow> intern_state \<Rightarrow> string_view \<times> intern_state" where
  "StringId_intern v \<sigma> = (let (w, S) = set_insert v (internSet \<sigma>) in (w, \<sigma>\<lparr>internSet := S\<rparr>))"

definition StringId_lookup :: "string \<Rightarrow> intern_state \<Rightarrow> string_view" where
  "StringId_lookup t \<sigma> = (case set_find t (internSet \<sigma>) of None \<Rightarrow> null_view | Some v \<Rightarrow> v)"

text \<open>\<open>addr\<close> is the address at which \<open>emplace_back\<close> builds the copy.\<close>

definition StringId_insert :: "nat \<Rightarrow> string \<Rightarrow> intern_state \<Rightarrow> string_view \<times> intern_state" where
  "StringId_insert addr t \<sigma> =
     (case set_find t (internSet \<sigma>) of
        Some v \<Rightarrow> (v, \<sigma>)
      | None \<Rightarrow>
          let c = \<lparr>sv_data = addr, sv_text = t\<rparr>;
              (w, S) = set_insert c (internSet \<sigma>)
          in (w, \<sigma>\<lparr>internSet := S, runtimeDeque := runtimeDeque \<sigma> @ [c]\<rparr>))"

definition StringId_eq :: "string_view \<Rightarrow> string_view \<Rightarrow> bool" where
  "StringId_eq a b = (sv_data a = sv_data b)"

definition StringId_bool :: "string_view \<Rightarrow> bool" where
  "StringId_bool a = (sv_data a \<noteq> 0)"

section \<open>The table stays an injection between addresses and texts\<close>

definition intern_ok :: "intern_state \<Rightarrow> bool" where
  "intern_ok \<sigma> =
     (distinct (map sv_data (internSet \<sigma>)) \<and> distinct (map sv_text (internSet \<sigma>)) \<and>
      0 \<notin> sv_data ` set (internSet \<sigma>))"

definition fresh_addr :: "nat \<Rightarrow> intern_state \<Rightarrow> bool" where
  "fresh_addr a \<sigma> = (a \<noteq> 0 \<and> a \<notin> sv_data ` set (internSet \<sigma>))"

text \<open>The view that the table holds for a text, the meaning of a \<open>StringId\<close>.\<close>

definition id_of :: "string_view \<Rightarrow> StringId" where
  "id_of v = (if sv_data v = 0 then None else Some (sv_text v))"

lemma set_find_SomeD: "set_find t S = Some v \<Longrightarrow> v \<in> set S \<and> sv_text v = t"
  by (auto simp: set_find_def find_Some_iff)

lemma set_find_NoneD: "set_find t S = None \<Longrightarrow> t \<notin> sv_text ` set S"
  by (auto simp: set_find_def find_None_iff)

lemma distinct_map_eq:
  "distinct (map f xs) \<Longrightarrow> x \<in> set xs \<Longrightarrow> y \<in> set xs \<Longrightarrow> f x = f y \<Longrightarrow> x = y"
  by (auto simp: distinct_map dest: inj_onD)

lemma set_find_self:
  "distinct (map sv_text S) \<Longrightarrow> v \<in> set S \<Longrightarrow> set_find (sv_text v) S = Some v"
  by (cases "set_find (sv_text v) S") (auto dest: set_find_SomeD set_find_NoneD distinct_map_eq)

lemma insert_ok:
  assumes "intern_ok \<sigma>" "fresh_addr a \<sigma>"
  shows "intern_ok (snd (StringId_insert a t \<sigma>))"
    and "fst (StringId_insert a t \<sigma>) \<in> set (internSet (snd (StringId_insert a t \<sigma>)))"
    and "sv_text (fst (StringId_insert a t \<sigma>)) = t"
    and "set (internSet \<sigma>) \<subseteq> set (internSet (snd (StringId_insert a t \<sigma>)))"
  using assms
  by (auto simp: StringId_insert_def set_insert_def intern_ok_def fresh_addr_def image_iff Let_def
      dest: set_find_SomeD set_find_NoneD split: option.splits)

lemma member_addr_text:
  assumes "intern_ok \<sigma>" "v \<in> set (internSet \<sigma>)" "w \<in> set (internSet \<sigma>)"
  shows "(sv_data v = sv_data w) = (sv_text v = sv_text w)"
  using assms by (auto simp: intern_ok_def dest: distinct_map_eq)

section \<open>Properties\<close>

text \<open>C35: Interning keeps the table a bijection between live addresses and texts, and it yields an
  id that is not null, that later look-ups of the same text return, and that equals the id of
  any registered text exactly when the texts are equal, so comparing addresses compares strings.\<close>

theorem StringId_insert_correct:
  assumes "intern_ok \<sigma>" "fresh_addr a \<sigma>" "v \<in> set (internSet \<sigma>)"
    and "StringId_insert a t \<sigma> = (w, \<sigma>')"
  shows "intern_ok \<sigma>' \<and> StringId_bool w \<and> StringId_lookup t \<sigma>' = w \<and>
    StringId_lookup (sv_text v) \<sigma>' = v \<and> StringId_eq v w = (sv_text v = t)"
proof -
  have ok: "intern_ok \<sigma>'" and w: "w \<in> set (internSet \<sigma>')" "sv_text w = t"
    and v: "v \<in> set (internSet \<sigma>')"
    using insert_ok [OF assms(1,2), of t] assms(3,4) by auto
  then have "StringId_lookup t \<sigma>' = w" "StringId_lookup (sv_text v) \<sigma>' = v"
    using set_find_self [of "internSet \<sigma>'"] by (auto simp: StringId_lookup_def intern_ok_def)
  then show ?thesis
    using ok w v member_addr_text [OF ok v w(1)]
    by (auto simp: StringId_bool_def StringId_eq_def intern_ok_def image_iff)
qed

lemma StringId_insert_correct_witness:
  "StringId_eq \<lparr>sv_data = 8, sv_text = ''CU''\<rparr>
     (fst (StringId_insert 16 ''R'' \<lparr>internSet = [\<lparr>sv_data = 8, sv_text = ''CU''\<rparr>],
       runtimeDeque = []\<rparr>)) = False"
  using StringId_insert_correct
      [of "\<lparr>internSet = [\<lparr>sv_data = 8, sv_text = ''CU''\<rparr>], runtimeDeque = []\<rparr>" 16
        "\<lparr>sv_data = 8, sv_text = ''CU''\<rparr>" "''R''", OF _ _ _ prod.collapse [symmetric]]
  by (simp add: intern_ok_def fresh_addr_def)

end
