(* ===== verification/Interface_Spec.thy ===== *)
theory Interface_Spec
imports Prelude
begin

text \<open>
  The interface specification of a function block, \<open>core/include/forte/interfacespec.h\<close> and
  \<open>core/src/interfacespec.cpp\<close>: the name lists of its ports and the look-ups between port names
  and port numbers.
\<close>

record SFBInterfaceSpec =
  mEINames :: "StringId list"
  mEITypeNames :: "StringId list"
  mEONames :: "StringId list"
  mEOTypeNames :: "StringId list"
  mDINames :: "StringId list"
  mDONames :: "StringId list"
  mDIONames :: "StringId list"
  mSocketNames :: "StringId list"
  mPlugNames :: "StringId list"

definition getNumEIs :: "SFBInterfaceSpec \<Rightarrow> nat" where [simp]:
  "getNumEIs sp = length (mEINames sp)"

definition getNumEOs :: "SFBInterfaceSpec \<Rightarrow> nat" where [simp]:
  "getNumEOs sp = length (mEONames sp)"

definition getNumDIs :: "SFBInterfaceSpec \<Rightarrow> nat" where [simp]:
  "getNumDIs sp = length (mDINames sp)"

definition getNumDOs :: "SFBInterfaceSpec \<Rightarrow> nat" where [simp]:
  "getNumDOs sp = length (mDONames sp)"

definition getNumDIOs :: "SFBInterfaceSpec \<Rightarrow> nat" where [simp]:
  "getNumDIOs sp = length (mDIONames sp)"

section \<open>From names to numbers and back\<close>

text \<open>\<open>std::find\<close> over the span: the position of the first entry equal to the name, the length of the
  list when there is none.\<close>

fun find_pos :: "StringId \<Rightarrow> StringId list \<Rightarrow> nat" where
  "find_pos n [] = 0"
| "find_pos n (x # xs) = (if x = n then 0 else Suc (find_pos n xs))"

definition getPortId :: "StringId \<Rightarrow> StringId list \<Rightarrow> TPortId" where
  "getPortId n ns = (let it = find_pos n ns in if it = length ns then cgInvalidPortId else it)"

definition getPortNameId :: "TPortId \<Rightarrow> StringId list \<Rightarrow> StringId" where
  "getPortNameId i ns = (if i \<ge> length ns then null_id else ns ! i)"

definition getEIID :: "SFBInterfaceSpec \<Rightarrow> StringId \<Rightarrow> TEventID" where
  "getEIID sp n = getPortId n (mEINames sp)"

definition getEOID :: "SFBInterfaceSpec \<Rightarrow> StringId \<Rightarrow> TEventID" where
  "getEOID sp n = getPortId n (mEONames sp)"

definition getEIType :: "SFBInterfaceSpec \<Rightarrow> TEventID \<Rightarrow> StringId" where
  "getEIType sp i = (if mEITypeNames sp \<noteq> [] then mEITypeNames sp ! i else Some ''Event'')"

definition getEOType :: "SFBInterfaceSpec \<Rightarrow> TEventID \<Rightarrow> StringId" where
  "getEOType sp i = (if mEOTypeNames sp \<noteq> [] then mEOTypeNames sp ! i else Some ''Event'')"

definition getDIID :: "SFBInterfaceSpec \<Rightarrow> StringId \<Rightarrow> TPortId" where
  "getDIID sp n = getPortId n (mDINames sp)"

definition getDOID :: "SFBInterfaceSpec \<Rightarrow> StringId \<Rightarrow> TPortId" where
  "getDOID sp n = getPortId n (mDONames sp)"

definition getDIOID :: "SFBInterfaceSpec \<Rightarrow> StringId \<Rightarrow> TPortId" where
  "getDIOID sp n = getPortId n (mDIONames sp)"

definition getPlugID :: "SFBInterfaceSpec \<Rightarrow> StringId \<Rightarrow> TPortId" where
  "getPlugID sp n = getPortId n (mPlugNames sp)"

definition getSocketID :: "SFBInterfaceSpec \<Rightarrow> StringId \<Rightarrow> TPortId" where
  "getSocketID sp n = getPortId n (mSocketNames sp)"

definition getEINameId :: "SFBInterfaceSpec \<Rightarrow> TPortId \<Rightarrow> StringId" where
  "getEINameId sp i = getPortNameId i (mEINames sp)"

definition getEONameId :: "SFBInterfaceSpec \<Rightarrow> TPortId \<Rightarrow> StringId" where
  "getEONameId sp i = getPortNameId i (mEONames sp)"

definition getDINameId :: "SFBInterfaceSpec \<Rightarrow> TPortId \<Rightarrow> StringId" where
  "getDINameId sp i = getPortNameId i (mDONames sp)"

definition getDONameId :: "SFBInterfaceSpec \<Rightarrow> TPortId \<Rightarrow> StringId" where
  "getDONameId sp i = getPortNameId i (mDONames sp)"

definition getDIONameId :: "SFBInterfaceSpec \<Rightarrow> TPortId \<Rightarrow> StringId" where
  "getDIONameId sp i = getPortNameId i (mDIONames sp)"

definition getSocketNameId :: "SFBInterfaceSpec \<Rightarrow> TPortId \<Rightarrow> StringId" where
  "getSocketNameId sp i = getPortNameId i (mSocketNames sp)"

definition getPlugNameId :: "SFBInterfaceSpec \<Rightarrow> TPortId \<Rightarrow> StringId" where
  "getPlugNameId sp i = getPortNameId i (mPlugNames sp)"

section \<open>Look-up lemmas\<close>

lemma find_pos_le: "find_pos n ns \<le> length ns"
  by (induction ns) auto

lemma find_pos_less_iff: "find_pos n ns < length ns \<longleftrightarrow> n \<in> set ns"
  by (induction ns) auto

lemma nth_find_pos: "n \<in> set ns \<Longrightarrow> ns ! find_pos n ns = n"
  by (induction ns) auto

lemma find_pos_first: "i < find_pos n ns \<Longrightarrow> ns ! i \<noteq> n"
  by (induction ns arbitrary: i) (auto simp: nth_Cons split: nat.splits if_splits)

lemma find_pos_nth: "distinct ns \<Longrightarrow> i < length ns \<Longrightarrow> find_pos (ns ! i) ns = i"
  by (induction ns arbitrary: i) (auto simp: nth_Cons split: nat.splits)

lemma getPortId_cases:
  "getPortId n ns = (if n \<in> set ns then find_pos n ns else cgInvalidPortId)"
  using find_pos_less_iff [of n ns] find_pos_le [of n ns]
  by (auto simp: getPortId_def Let_def)

lemma getPortId_valid:
  assumes "getPortId n ns \<noteq> cgInvalidPortId"
  shows "getPortId n ns < length ns \<and> ns ! getPortId n ns = n"
  using assms find_pos_less_iff [of n ns] nth_find_pos [of n ns]
  by (auto simp: getPortId_cases split: if_splits)

lemma getPortId_nth:
  "distinct ns \<Longrightarrow> i < length ns \<Longrightarrow> getPortId (ns ! i) ns = i"
  by (simp add: getPortId_cases find_pos_nth)

lemma getPortId_invalid:
  "length ns \<le> cgInvalidPortId \<Longrightarrow> getPortId n ns = cgInvalidPortId \<longleftrightarrow> n \<notin> set ns"
  using find_pos_less_iff [of n ns] by (auto simp: getPortId_cases)

section \<open>Properties\<close>

text \<open>In a port list of distinct names that has no port with the number of the invalid-port marker,
  the look-up by name returns the marker exactly for unknown names, and otherwise the one number
  at which the name-by-number look-up gives the name back.\<close>

theorem port_lookup_roundtrip:
  assumes "distinct ns" "length ns \<le> cgInvalidPortId" "null_id \<notin> set ns" "n \<noteq> null_id"
  shows "(getPortId n ns = cgInvalidPortId \<longleftrightarrow> n \<notin> set ns) \<and>
    (getPortNameId (getPortId n ns) ns = (if n \<in> set ns then n else null_id)) \<and>
    (\<forall>i. getPortNameId i ns = n \<longleftrightarrow> n \<in> set ns \<and> i = getPortId n ns)"
proof (intro conjI allI)
  show inv: "getPortId n ns = cgInvalidPortId \<longleftrightarrow> n \<notin> set ns"
    using assms(2) by (rule getPortId_invalid)
  show "getPortNameId (getPortId n ns) ns = (if n \<in> set ns then n else null_id)"
    using inv getPortId_valid [of n ns] assms(2) by (auto simp: getPortNameId_def)
  show "getPortNameId i ns = n \<longleftrightarrow> n \<in> set ns \<and> i = getPortId n ns" for i
    using inv getPortId_valid [of n ns] getPortId_nth [OF assms(1), of i] assms(2,4)
    by (auto simp: getPortNameId_def)
qed

lemma port_lookup_roundtrip_witness:
  "getPortNameId (getPortId (Some ''R'') [Some ''CU'', Some ''R'']) [Some ''CU'', Some ''R'']
     = Some ''R''"
  using port_lookup_roundtrip [of "[Some ''CU'', Some ''R'']" "Some ''R''"]
  by (simp add: cgInvalidPortId_def)

text \<open>The name look-up for data inputs reads the list of data outputs, so a data input
  port's name does not come back from its number: there is an interface on which the round trip
  through \<open>getDIID\<close> and \<open>getDINameId\<close> yields the name of an output.\<close>

theorem getDINameId_yields_output_name:
  "(\<forall>sp i. getDINameId sp i = getDONameId sp i) \<and>
   (\<exists>sp. distinct (mDINames sp) \<and> Some ''PV'' \<in> set (mDINames sp) \<and>
      getDINameId sp (getDIID sp (Some ''PV'')) = Some ''Q'')"
proof
  show "\<forall>sp i. getDINameId sp i = getDONameId sp i"
    by (simp add: getDINameId_def getDONameId_def)
  have "getDINameId sp (getDIID sp (Some ''PV'')) = Some ''Q''"
    if "mDINames sp = [Some ''PV'']" "mDONames sp = [Some ''Q'', Some ''CV'']" for sp
    using that
    by (simp add: getDINameId_def getDIID_def getPortId_cases getPortNameId_def)
  from this [of "\<lparr>mEINames = [], mEITypeNames = [], mEONames = [], mEOTypeNames = [],
      mDINames = [Some ''PV''], mDONames = [Some ''Q'', Some ''CV''], mDIONames = [],
      mSocketNames = [], mPlugNames = []\<rparr>"]
  show "\<exists>sp. distinct (mDINames sp) \<and> Some ''PV'' \<in> set (mDINames sp) \<and>
      getDINameId sp (getDIID sp (Some ''PV'')) = Some ''Q''"
    by (intro exI [of _ "\<lparr>mEINames = [], mEITypeNames = [], mEONames = [], mEOTypeNames = [],
      mDINames = [Some ''PV''], mDONames = [Some ''Q'', Some ''CV''], mDIONames = [],
      mSocketNames = [], mPlugNames = []\<rparr>"]) simp
qed

end
