(* ===== verification/Ring_Buffer.thy ===== *)
theory Ring_Buffer
imports Prelude
begin

text \<open>
  The fixed-size queue \<open>CRingBuffer\<close> of \<open>core/include/forte/util/ringbuf.h\<close>: two free-running
  64-bit indices into an array whose length is a power of two.  The operations are the code's; the
  abstraction \<open>ring_list\<close> reads the buffer as the list of its elements, oldest first, and
  the locale \<open>queue\<close> states what a client of a bounded queue relies on.  The buffer of
  \<open>size\<close> slots holds at most \<open>size - 1\<close> elements.
\<close>

unbundle bit_operations_syntax

section \<open>The buffer and its operations\<close>

record 'a CRingBuffer =
  mPopIndex :: "64 word"
  mPushIndex :: "64 word"
  mData :: "'a list"

definition cmIndexMask :: "'a CRingBuffer \<Rightarrow> 64 word" where
  "cmIndexMask rb = of_nat (length (mData rb)) - 1"

definition isEmpty :: "'a CRingBuffer \<Rightarrow> bool" where
  "isEmpty rb = (mPopIndex rb = mPushIndex rb)"

definition isFull :: "'a CRingBuffer \<Rightarrow> bool" where
  "isFull rb = (mPushIndex rb = mPopIndex rb + cmIndexMask rb)"

definition push :: "'a \<Rightarrow> 'a CRingBuffer \<Rightarrow> bool \<times> 'a CRingBuffer" where
  "push elem rb =
     (if isFull rb then (False, rb)
      else (True, rb\<lparr>mData := (mData rb)[unat (mPushIndex rb AND cmIndexMask rb) := elem],
                     mPushIndex := mPushIndex rb + 1\<rparr>))"

definition pop :: "'a CRingBuffer \<Rightarrow> 'a option \<times> 'a CRingBuffer" where
  "pop rb =
     (if isEmpty rb then (None, rb)
      else (Some (mData rb ! unat (mPopIndex rb AND cmIndexMask rb)),
            rb\<lparr>mPopIndex := mPopIndex rb + 1\<rparr>))"

definition clear :: "'a CRingBuffer \<Rightarrow> 'a CRingBuffer" where
  "clear rb = rb\<lparr>mPopIndex := 0, mPushIndex := 0\<rparr>"

text \<open>A fresh buffer over an array of default elements.\<close>

definition CRingBuffer :: "nat \<Rightarrow> 'a \<Rightarrow> 'a CRingBuffer" where
  "CRingBuffer n dflt = \<lparr>mPopIndex = 0, mPushIndex = 0, mData = replicate n dflt\<rparr>"

section \<open>Abstraction and invariant\<close>

definition ring_len :: "'a CRingBuffer \<Rightarrow> nat" where
  "ring_len rb = unat (mPushIndex rb - mPopIndex rb)"

definition ring_list :: "'a CRingBuffer \<Rightarrow> 'a list" where
  "ring_list rb =
     map (\<lambda>i. mData rb ! ((unat (mPopIndex rb) + i) mod length (mData rb))) [0..<ring_len rb]"

text \<open>The array length is a power of two (the code's \<open>static_assert\<close>) below \<open>2 ^ 64\<close>, and the
  indices are at most \<open>size - 1\<close> apart.\<close>

definition ring_ok :: "'a CRingBuffer \<Rightarrow> bool" where
  "ring_ok rb = ((\<exists>k<64. length (mData rb) = 2 ^ k) \<and> ring_len rb < length (mData rb))"

definition ring_cap :: "'a CRingBuffer \<Rightarrow> nat" where
  "ring_cap rb = length (mData rb) - 1"

lemma ring_okE:
  assumes "ring_ok rb"
  obtains k where "k < 64" "length (mData rb) = 2 ^ k" "ring_len rb < 2 ^ k"
  using assms by (auto simp: ring_ok_def)

lemma cmIndexMask_mask:
  assumes "length (mData rb) = 2 ^ k"
  shows "cmIndexMask rb = mask k"
  using assms by (simp add: cmIndexMask_def mask_eq_exp_minus_1)

lemma unat_and_cmIndexMask:
  assumes "ring_ok rb"
  shows "unat (w AND cmIndexMask rb) = unat w mod length (mData rb)"
  using assms by (elim ring_okE) (simp add: cmIndexMask_mask unat_and_mask_mod)

lemma unat_cmIndexMask:
  assumes "ring_ok rb"
  shows "unat (cmIndexMask rb) = length (mData rb) - 1"
proof -
  from assms obtain k where k: "k < 64" "length (mData rb) = 2 ^ k" "ring_len rb < 2 ^ k"
    by (rule ring_okE)
  have "unat (mask k :: 64 word) = unat (- 1 AND mask k :: 64 word)"
    by simp
  also have "\<dots> = 2 ^ k - 1"
    using k(1) unat_and_mask_mod [of "- 1 :: 64 word" k] mask_mod_pow [of k 64]
    by (simp add: unsigned_minus_1_eq_mask mask_eq_exp_minus_1 [of 64, where 'a=nat])
  finally show ?thesis
    using k by (simp add: cmIndexMask_mask)
qed

lemma isEmpty_len [ring_simps]: "isEmpty rb = (ring_len rb = 0)"
  by (auto simp: isEmpty_def ring_len_def unat_eq_0)

lemma isFull_len [ring_simps]:
  assumes "ring_ok rb"
  shows "isFull rb = (ring_len rb = length (mData rb) - 1)"
proof -
  have "isFull rb = (mPushIndex rb - mPopIndex rb = cmIndexMask rb)"
    by (auto simp: isFull_def algebra_simps)
  also have "\<dots> = (unat (mPushIndex rb - mPopIndex rb) = unat (cmIndexMask rb))"
    by (rule word_unat_eq_iff)
  finally show ?thesis
    by (simp add: ring_len_def unat_cmIndexMask [OF assms])
qed

lemma length_ring_list [simp]: "length (ring_list rb) = ring_len rb"
  by (simp add: ring_list_def)

lemma isEmpty_list: "isEmpty rb = (ring_list rb = [])"
  by (simp add: isEmpty_len ring_list_def)

lemma mPushIndex_eq: "mPushIndex rb = mPopIndex rb + of_nat (ring_len rb)"
  by (simp add: ring_len_def)

lemma push_slot:
  assumes "ring_ok rb"
  shows "unat (mPushIndex rb AND cmIndexMask rb) =
         (unat (mPopIndex rb) + ring_len rb) mod length (mData rb)"
proof -
  from assms obtain k where k: "k < 64" "length (mData rb) = 2 ^ k"
    by (auto elim: ring_okE)
  have "unat (mPushIndex rb AND cmIndexMask rb) = unat (mPushIndex rb) mod 2 ^ k"
    using k assms by (simp add: unat_and_cmIndexMask)
  also have "\<dots> = unat (mPopIndex rb + of_nat (ring_len rb)) mod 2 ^ k"
    by (simp flip: mPushIndex_eq)
  also have "\<dots> = (unat (mPopIndex rb) + ring_len rb) mod 2 ^ k"
    using k by (intro unat_add_of_nat_mod) simp
  finally show ?thesis
    using k by simp
qed

lemma slots_distinct:
  fixes n :: nat
  assumes "i < l" "l < n"
  shows "(p + l) mod n \<noteq> (p + i) mod n"
proof
  assume "(p + l) mod n = (p + i) mod n"
  then have "n dvd (p + l) - (p + i)"
    by (metis mod_eq_dvd_iff_nat assms(1) less_imp_le_nat nat_add_left_cancel_le)
  then show False
    using assms by (auto dest: dvd_imp_le)
qed

section \<open>The operations on the abstraction\<close>

lemma ring_len_push:
  assumes "ring_ok rb" "\<not> isFull rb"
  shows "ring_len (snd (push e rb)) = Suc (ring_len rb)"
proof -
  from assms(1) obtain k where k: "k < 64" "length (mData rb) = 2 ^ k" "ring_len rb < 2 ^ k"
    by (rule ring_okE)
  have "(2::nat) ^ k < 2 ^ 64"
    using k(1) by (rule power_strict_increasing) simp
  then have "Suc (ring_len rb) < 2 ^ 64"
    using k(3) by linarith
  moreover have "mPushIndex rb + 1 - mPopIndex rb = of_nat (Suc (ring_len rb))"
    by (subst mPushIndex_eq) simp
  ultimately show ?thesis
    using assms(2) by (simp add: push_def ring_len_def unsigned_of_nat take_bit_nat_eq_self del: of_nat_Suc)
qed

lemma ring_len_pop:
  assumes "\<not> isEmpty rb"
  shows "ring_len rb = Suc (ring_len (snd (pop rb)))"
proof -
  define d where "d = mPushIndex rb - mPopIndex rb"
  have "d \<noteq> 0"
    using assms by (simp add: d_def isEmpty_def)
  then have "unat d = Suc (unat (d - 1))"
    by (simp add: unat_minus_one unat_gt_0)
  moreover have "ring_len (snd (pop rb)) = unat (mPushIndex rb - (mPopIndex rb + 1))"
    using assms by (simp add: pop_def ring_len_def)
  ultimately show ?thesis
    by (simp add: ring_len_def d_def algebra_simps)
qed

lemma push_full [simp]: "isFull rb \<Longrightarrow> push e rb = (False, rb)"
  by (simp add: push_def)

lemma pop_empty [simp]: "isEmpty rb \<Longrightarrow> pop rb = (None, rb)"
  by (simp add: pop_def)

lemma ring_list_push:
  assumes "ring_ok rb" "\<not> isFull rb"
  shows "ring_list (snd (push e rb)) = ring_list rb @ [e]"
proof (rule nth_equalityI)
  show "length (ring_list (snd (push e rb))) = length (ring_list rb @ [e])"
    using assms by (simp add: ring_len_push)
next
  have sz: "ring_len rb < length (mData rb)"
    using assms(1) by (simp add: ring_ok_def)
  fix i assume "i < length (ring_list (snd (push e rb)))"
  then have i: "i \<le> ring_len rb"
    using assms by (simp add: ring_len_push)
  have "ring_list (snd (push e rb)) ! i =
      (mData rb)[(unat (mPopIndex rb) + ring_len rb) mod length (mData rb) := e] !
        ((unat (mPopIndex rb) + i) mod length (mData rb))"
    using i assms ring_len_push [OF assms, of e]
    by (simp add: ring_list_def push_slot push_def del: upt_Suc)
  also have "\<dots> = (ring_list rb @ [e]) ! i"
  proof (cases "i = ring_len rb")
    case True
    have "(unat (mPopIndex rb) + ring_len rb) mod length (mData rb) < length (mData rb)"
      using sz by (intro mod_less_divisor) linarith
    then show ?thesis
      using True by (simp add: nth_append)
  next
    case False
    then show ?thesis
      using i slots_distinct [OF _ sz] by (simp add: nth_append ring_list_def)
  qed
  finally show "ring_list (snd (push e rb)) ! i = (ring_list rb @ [e]) ! i" .
qed

lemma ring_list_pop:
  assumes "ring_ok rb" "\<not> isEmpty rb"
  shows "ring_list rb = the (fst (pop rb)) # ring_list (snd (pop rb))"
proof (rule nth_equalityI)
  show "length (ring_list rb) = length (the (fst (pop rb)) # ring_list (snd (pop rb)))"
    using ring_len_pop [OF assms(2)] by simp
next
  from assms(1) obtain k where k: "k < 64" "length (mData rb) = 2 ^ k"
    by (auto elim: ring_okE)
  fix i assume "i < length (ring_list rb)"
  then have i: "i < ring_len rb" by simp
  have next_slot: "(unat (mPopIndex rb + 1) + j) mod 2 ^ k = (unat (mPopIndex rb) + Suc j) mod 2 ^ k" for j
    using unat_add_of_nat_mod [of k "mPopIndex rb" 1] k by simp (metis add_Suc mod_add_left_eq)
  show "ring_list rb ! i = (the (fst (pop rb)) # ring_list (snd (pop rb))) ! i"
  proof (cases i)
    case 0
    then show ?thesis
      using assms i by (simp add: pop_def ring_list_def unat_and_cmIndexMask)
  next
    case (Suc j)
    then have "j < ring_len (snd (pop rb))"
      using i ring_len_pop [OF assms(2)] by simp
    then show ?thesis
      using assms i Suc k by (simp add: pop_def ring_list_def next_slot)
  qed
qed

lemma mData_push: "length (mData (snd (push e rb))) = length (mData rb)"
  by (simp add: push_def)

lemma mData_pop: "mData (snd (pop rb)) = mData rb"
  by (simp add: pop_def)

lemma ring_ok_push: "ring_ok rb \<Longrightarrow> ring_ok (snd (push e rb))"
  by (cases "isFull rb") (auto simp: ring_ok_def mData_push ring_len_push isFull_len)

lemma ring_ok_pop: "ring_ok rb \<Longrightarrow> ring_ok (snd (pop rb))"
  using ring_len_pop [of rb] by (cases "isEmpty rb") (auto simp: ring_ok_def mData_pop)

lemma ring_ok_clear: "ring_ok rb \<Longrightarrow> ring_ok (clear rb)"
  by (auto simp: ring_ok_def clear_def ring_len_def)

lemma ring_list_clear [simp]: "ring_list (clear rb) = []"
  by (simp add: ring_list_def clear_def ring_len_def)

lemma ring_ok_CRingBuffer: "k < 64 \<Longrightarrow> ring_ok (CRingBuffer (2 ^ k) d)"
  by (auto simp: ring_ok_def CRingBuffer_def ring_len_def)

lemma ring_list_CRingBuffer [simp]: "ring_list (CRingBuffer n d) = []"
  by (simp add: ring_list_def CRingBuffer_def ring_len_def)

lemma ring_len_CRingBuffer [simp]: "ring_len (CRingBuffer n d) = 0"
  by (simp add: CRingBuffer_def ring_len_def)

lemma ring_cap_push [simp]: "ring_cap (snd (push e rb)) = ring_cap rb"
  by (simp add: ring_cap_def mData_push)

lemma ring_cap_pop [simp]: "ring_cap (snd (pop rb)) = ring_cap rb"
  by (simp add: ring_cap_def mData_pop)

lemma ring_cap_clear [simp]: "ring_cap (clear rb) = ring_cap rb"
  by (simp add: ring_cap_def clear_def)

lemma ring_cap_CRingBuffer [simp]: "ring_cap (CRingBuffer n d) = n - 1"
  by (simp add: ring_cap_def CRingBuffer_def)

lemma ring_len_le_cap: "ring_ok rb \<Longrightarrow> ring_len rb \<le> ring_cap rb"
  unfolding ring_ok_def ring_cap_def by linarith

section \<open>The interface of a bounded queue\<close>

text \<open>
  What a client may rely on: a queue that is not full takes the element at its end, a full one
  refuses it and is unchanged, taking yields the oldest element, and both keep the invariant and
  the capacity.
\<close>

locale queue =
  fixes enq :: "'a \<Rightarrow> 'q \<Rightarrow> bool \<times> 'q"
    and deq :: "'q \<Rightarrow> 'a option \<times> 'q"
    and reset :: "'q \<Rightarrow> 'q"
    and content :: "'q \<Rightarrow> 'a list"
    and ok :: "'q \<Rightarrow> bool"
    and cap :: "'q \<Rightarrow> nat"
  assumes enq_ok: "ok q \<Longrightarrow> ok (snd (enq x q))"
    and deq_ok: "ok q \<Longrightarrow> ok (snd (deq q))"
    and reset_ok: "ok q \<Longrightarrow> ok (reset q)"
    and content_le: "ok q \<Longrightarrow> length (content q) \<le> cap q"
    and enq_accepts: "ok q \<Longrightarrow> fst (enq x q) = (length (content q) < cap q)"
    and enq_content: "ok q \<Longrightarrow>
      content (snd (enq x q)) = (if length (content q) < cap q then content q @ [x] else content q)"
    and deq_Nil: "ok q \<Longrightarrow> content q = [] \<Longrightarrow> deq q = (None, q)"
    and deq_Cons: "ok q \<Longrightarrow> content q = x # xs \<Longrightarrow>
      fst (deq q) = Some x \<and> content (snd (deq q)) = xs"
    and reset_content: "content (reset q) = []"
    and enq_cap: "cap (snd (enq x q)) = cap q"
    and deq_cap: "cap (snd (deq q)) = cap q"
begin

definition enq_all :: "'a list \<Rightarrow> 'q \<Rightarrow> 'q" where
  "enq_all xs q = fold (\<lambda>x q. snd (enq x q)) xs q"

lemma enq_all_simps [simp]:
  "enq_all [] q = q"
  "enq_all (x # xs) q = enq_all xs (snd (enq x q))"
  by (simp_all add: enq_all_def)

lemma enq_all_ok: "ok q \<Longrightarrow> ok (enq_all xs q)"
  by (induction xs arbitrary: q) (simp_all add: enq_ok)

lemma enq_all_cap: "cap (enq_all xs q) = cap q"
  by (induction xs arbitrary: q) (simp_all add: enq_cap)

lemma enq_all_content:
  "ok q \<Longrightarrow> content (enq_all xs q) = content q @ take (cap q - length (content q)) xs"
proof (induction xs arbitrary: q)
  case (Cons x xs)
  then show ?case
    by (simp add: enq_ok enq_content enq_cap take_Cons' Suc_diff_Suc)
qed simp

lemma deq_Some_iff: "ok q \<Longrightarrow> (fst (deq q) = Some x) = (content q \<noteq> [] \<and> x = hd (content q))"
  by (cases "content q") (auto simp: deq_Nil deq_Cons)

lemma deq_content: "ok q \<Longrightarrow> content (snd (deq q)) = tl (content q)"
  by (cases "content q") (auto simp: deq_Nil deq_Cons)

lemma enq_deq_empty: "ok q \<Longrightarrow> content q = [] \<Longrightarrow> 0 < cap q \<Longrightarrow> fst (deq (snd (enq x q))) = Some x"
  by (simp add: deq_Some_iff enq_ok enq_content)

end

interpretation ringq: queue push pop clear ring_list ring_ok ring_cap
proof (unfold_locales, goal_cases)
  case (5 q x)
  then show ?case
    by (auto simp: push_def isFull_len ring_cap_def ring_ok_def)
next
  case (6 q x)
  then show ?case
    by (cases "isFull q") (auto simp: ring_list_push isFull_len ring_cap_def ring_ok_def)
next
  case (7 q)
  then show ?case
    by (simp add: isEmpty_list)
next
  case (8 q x xs)
  then show ?case
    using ring_list_pop [of q] by (auto simp: isEmpty_list pop_def split: if_splits)
qed (simp_all add: ring_ok_push ring_ok_pop ring_ok_clear ring_len_le_cap)

section \<open>Properties\<close>

text \<open>C26: Pushing onto the ring buffer returns true exactly when it holds fewer than size - 1
  elements; it then appends the element behind all others, and otherwise it changes nothing.\<close>

theorem push_correct:
  assumes "ring_ok rb"
  shows "fst (push e rb) = (length (ring_list rb) < length (mData rb) - 1) \<and>
    (fst (push e rb) \<longrightarrow> ring_list (snd (push e rb)) = ring_list rb @ [e]) \<and>
    (\<not> fst (push e rb) \<longrightarrow> snd (push e rb) = rb) \<and> ring_ok (snd (push e rb))"
  using assms ringq.enq_accepts [OF assms, of e] ringq.enq_content [OF assms, of e]
  by (auto simp: ring_cap_def ring_ok_push) (simp add: push_def split: if_splits)

lemma push_correct_witness:
  "ring_list (snd (push (3::nat) (CRingBuffer 4 0))) = [3]"
  using push_correct [of "CRingBuffer 4 0" "3::nat"] ring_ok_CRingBuffer [of 2 "0::nat"]
  by (simp add: CRingBuffer_def push_def isFull_def cmIndexMask_def ring_list_def ring_len_def)

end
