(* ===== verification/Event_Chain.thy ===== *)
theory Event_Chain
imports Ring_Buffer Mgm_Cmd
begin

text \<open>
  The event chain execution thread, \<open>core/src/ecet.cpp\<close> and \<open>core/include/forte/ecet.h\<close>.  Events
  raised inside the chain go to the main list, events from other threads to the external list, which
  the thread moves into the main list before it takes the next event.  Delivery of an event to
  its function block is an argument of \<open>mainRun\<close>, so the theory serves every network of blocks.
  The second half is the thread as a state machine with the interleavings of other threads.
\<close>

section \<open>State\<close>

text \<open>A destination or source of a connection: the address of a block and a port number.  It is also
  the entry of the event lists.\<close>

record CConnectionPoint =
  mFB :: nat
  mPortId :: TPortId

type_synonym TEventEntry = CConnectionPoint

text \<open>A pointer to a data connection object is named by the output the object belongs to.\<close>

type_synonym conn_id = CConnectionPoint

definition cgEventChainEventListSize :: nat where
  "cgEventChainEventListSize = 256"

definition cgEventChainExternalEventListSize :: nat where
  "cgEventChainExternalEventListSize = 16"

text \<open>The semaphore is the binary one of the pthread port: \<open>inc\<close> posts it, a wait takes the post.\<close>

record CEventChainExecutionThread =
  mEventList :: "TEventEntry CRingBuffer"
  mExternalEventList :: "TEventEntry CRingBuffer"
  mProcessingEvents :: bool
  mSuspendSemaphore :: bool
  mAlive :: bool
  mThreadHandle :: bool

type_synonym ecet = CEventChainExecutionThread

definition new_ecet :: ecet where
  "new_ecet =
     \<lparr>mEventList = CRingBuffer cgEventChainEventListSize \<lparr>mFB = 0, mPortId = 0\<rparr>,
      mExternalEventList = CRingBuffer cgEventChainExternalEventListSize \<lparr>mFB = 0, mPortId = 0\<rparr>,
      mProcessingEvents = False, mSuspendSemaphore = False, mAlive = False,
      mThreadHandle = False\<rparr>"

section \<open>Operations\<close>

definition addEventEntry :: "TEventEntry \<Rightarrow> ecet \<Rightarrow> ecet" where
  "addEventEntry e t = t\<lparr>mEventList := snd (push e (mEventList t))\<rparr>"

definition externalEventOccured :: "ecet \<Rightarrow> bool" where
  "externalEventOccured t = (\<not> isEmpty (mExternalEventList t))"

text \<open>The loop pops until the external list is empty; each round shortens it.\<close>

function transferExternalEvents :: "ecet \<Rightarrow> ecet" where
  "transferExternalEvents t =
     (if isEmpty (mExternalEventList t) then t
      else case pop (mExternalEventList t) of
        (e, x) \<Rightarrow> transferExternalEvents (addEventEntry (the e) (t\<lparr>mExternalEventList := x\<rparr>)))"
  by pat_completeness auto

lemma pop_shortens:
  "(e, x) = pop rb \<Longrightarrow> \<not> isEmpty rb \<Longrightarrow> ring_len x < ring_len rb"
  using ring_len_pop [of rb] by (simp add: prod_eq_iff)

termination transferExternalEvents
  by (relation "measure (\<lambda>t. ring_len (mExternalEventList t))")
    (auto simp: addEventEntry_def pop_shortens)

declare transferExternalEvents.simps [simp del]

definition ecet_clear :: "ecet \<Rightarrow> ecet" where
  "ecet_clear t =
     t\<lparr>mEventList := clear (mEventList t), mExternalEventList := clear (mExternalEventList t)\<rparr>"

definition resumeSelfSuspend :: "ecet \<Rightarrow> ecet" where
  "resumeSelfSuspend t = t\<lparr>mSuspendSemaphore := True\<rparr>"

text \<open>\<open>startEventChain\<close> in its two steps: the push in the critical region, and the wake-up after it.\<close>

definition startEventChain_push :: "TEventEntry \<Rightarrow> ecet \<Rightarrow> bool \<times> ecet" where
  "startEventChain_push e t =
     (case push e (mExternalEventList t) of (b, x) \<Rightarrow> (b, t\<lparr>mExternalEventList := x\<rparr>))"

definition startEventChain :: "TEventEntry \<Rightarrow> ecet \<Rightarrow> ecet" where
  "startEventChain e t =
     (case startEventChain_push e t of
        (inserted, t') \<Rightarrow>
          if inserted then resumeSelfSuspend (t'\<lparr>mProcessingEvents := True\<rparr>) else t')"

text \<open>\<open>CThreadBase::start\<close>, \<open>stop\<close> and \<open>setAlive\<close> with the thread's \<open>onAliveChanged\<close>.\<close>

definition setAlive :: "bool \<Rightarrow> ecet \<Rightarrow> ecet" where
  "setAlive v t =
     (let old = mAlive t; t' = t\<lparr>mAlive := v\<rparr>
      in if old \<noteq> v \<and> \<not> v then resumeSelfSuspend t' else t')"

definition thread_start :: "ecet \<Rightarrow> ecet" where
  "thread_start t = (if \<not> mThreadHandle t then t\<lparr>mThreadHandle := True\<rparr> else t)"

definition thread_stop :: "ecet \<Rightarrow> ecet" where
  "thread_stop t = (if mThreadHandle t then setAlive False t else t)"

definition ecet_changeExecutionState :: "EMGMCommandType \<Rightarrow> ecet \<Rightarrow> ecet" where
  "ecet_changeExecutionState c t =
     (case c of
        Start \<Rightarrow> (if \<not> mAlive t then thread_start t else t)
      | Kill \<Rightarrow> thread_stop (ecet_clear t)
      | Stop \<Rightarrow> thread_stop t
      | _ \<Rightarrow> t)"

text \<open>One round of \<open>mainRun\<close>.  The result says which event was delivered; \<open>None\<close> is the branch
  that suspends the thread.\<close>

definition mainRun ::
  "(TEventEntry \<Rightarrow> 'w \<times> ecet \<Rightarrow> 'w \<times> ecet) \<Rightarrow> 'w \<times> ecet \<Rightarrow> TEventEntry option \<times> 'w \<times> ecet" where
  "mainRun receive wt =
     (case wt of (w, t) \<Rightarrow>
       let t1 = if externalEventOccured t then transferExternalEvents t else t
       in case pop (mEventList t1) of
            (None, q) \<Rightarrow> (None, w, t1\<lparr>mEventList := q, mProcessingEvents := False\<rparr>)
          | (Some e, q) \<Rightarrow> (Some e, receive e (w, t1\<lparr>mEventList := q\<rparr>)))"

section \<open>Well-formed threads and the list view\<close>

definition ecet_ok :: "ecet \<Rightarrow> bool" where
  "ecet_ok t = (ring_ok (mEventList t) \<and> ring_ok (mExternalEventList t))"

abbreviation main_events :: "ecet \<Rightarrow> TEventEntry list" where
  "main_events t \<equiv> ring_list (mEventList t)"

abbreviation ext_events :: "ecet \<Rightarrow> TEventEntry list" where
  "ext_events t \<equiv> ring_list (mExternalEventList t)"

abbreviation main_cap :: "ecet \<Rightarrow> nat" where
  "main_cap t \<equiv> ring_cap (mEventList t)"

lemma ecet_ok_new: "ecet_ok new_ecet"
  using ring_ok_CRingBuffer [of 8 "\<lparr>mFB = 0, mPortId = 0\<rparr>"]
    ring_ok_CRingBuffer [of 4 "\<lparr>mFB = 0, mPortId = 0\<rparr>"]
  by (simp add: ecet_ok_def new_ecet_def cgEventChainEventListSize_def
      cgEventChainExternalEventListSize_def)

lemma addEventEntry_ok: "ecet_ok t \<Longrightarrow> ecet_ok (addEventEntry e t)"
  by (simp add: ecet_ok_def addEventEntry_def ring_ok_push)

lemma main_events_addEventEntry:
  "ecet_ok t \<Longrightarrow> main_events (addEventEntry e t) =
     (if length (main_events t) < main_cap t then main_events t @ [e] else main_events t)"
  using ringq.enq_content [of "mEventList t" e] by (simp add: ecet_ok_def addEventEntry_def)

lemma addEventEntry_frame [simp]:
  "mExternalEventList (addEventEntry e t) = mExternalEventList t"
  "mProcessingEvents (addEventEntry e t) = mProcessingEvents t"
  "mSuspendSemaphore (addEventEntry e t) = mSuspendSemaphore t"
  "mAlive (addEventEntry e t) = mAlive t"
  "mThreadHandle (addEventEntry e t) = mThreadHandle t"
  "ring_cap (mEventList (addEventEntry e t)) = main_cap t"
  by (simp_all add: addEventEntry_def)

lemma startEventChain_frame [simp]:
  "mEventList (startEventChain e t) = mEventList t"
  "mExternalEventList (startEventChain e t) = snd (push e (mExternalEventList t))"
  by (auto simp: startEventChain_def startEventChain_push_def resumeSelfSuspend_def
      split: prod.splits)

text \<open>The transfer is the queue interface's bulk insertion of the external list, which it empties.\<close>

lemma transfer_lists:
  assumes "ecet_ok t"
  shows "mEventList (transferExternalEvents t) = ringq.enq_all (ext_events t) (mEventList t) \<and>
    ext_events (transferExternalEvents t) = [] \<and> ecet_ok (transferExternalEvents t) \<and>
    mAlive (transferExternalEvents t) = mAlive t \<and>
    mThreadHandle (transferExternalEvents t) = mThreadHandle t \<and>
    mSuspendSemaphore (transferExternalEvents t) = mSuspendSemaphore t \<and>
    mProcessingEvents (transferExternalEvents t) = mProcessingEvents t"
  using assms
proof (induction t rule: transferExternalEvents.induct)
  case (1 t)
  show ?case
  proof (cases "isEmpty (mExternalEventList t)")
    case True
    then show ?thesis
      using 1(2) by (simp add: transferExternalEvents.simps [of t] isEmpty_list)
  next
    case False
    have q: "ring_ok (mExternalEventList t)"
      using 1(2) by (simp add: ecet_ok_def)
    obtain e x where p: "pop (mExternalEventList t) = (Some e, x)"
      using False by (auto simp: pop_def)
    then have l: "ext_events t = e # ring_list x" and x: "ring_ok x"
      using ring_list_pop [OF q False] ring_ok_pop [OF q] by simp_all
    let ?t = "addEventEntry e (t\<lparr>mExternalEventList := x\<rparr>)"
    have "ecet_ok ?t"
      using 1(2) x by (simp add: ecet_ok_def addEventEntry_def ring_ok_push)
    then show ?thesis
      using False p l 1(1) [OF False p [symmetric]]
      by (simp add: transferExternalEvents.simps [of t]) (simp add: addEventEntry_def)
  qed
qed

lemma main_events_transfer:
  assumes "ecet_ok t"
  shows "main_events (transferExternalEvents t) =
    take (main_cap t) (main_events t @ ext_events t)"
proof -
  have q: "ring_ok (mEventList t)"
    using assms by (simp add: ecet_ok_def)
  show ?thesis
    using transfer_lists [OF assms] ringq.enq_all_content [OF q] ringq.content_le [OF q]
    by simp
qed

lemma transfer_cap [simp]: "ecet_ok t \<Longrightarrow> main_cap (transferExternalEvents t) = main_cap t"
  using transfer_lists [of t] by (simp add: ringq.enq_all_cap)

text \<open>The queue that the next event is taken from.\<close>

definition pending :: "ecet \<Rightarrow> TEventEntry list" where
  "pending t = take (main_cap t) (main_events t @ ext_events t)"

lemma poll_lists:
  assumes "ecet_ok t"
  shows "main_events (if externalEventOccured t then transferExternalEvents t else t) = pending t"
    and "ext_events (if externalEventOccured t then transferExternalEvents t else t) = []"
    and "ecet_ok (if externalEventOccured t then transferExternalEvents t else t)"
  using assms transfer_lists [OF assms] main_events_transfer [OF assms]
    ringq.content_le [of "mEventList t"]
  by (auto simp: externalEventOccured_def isEmpty_list pending_def ecet_ok_def)

section \<open>Properties of single operations\<close>

text \<open>Moving the external events into the main list loses and reorders nothing while the main
  list has room: the main list then holds its old events followed by the external ones in the
  order they arrived, cut off at the capacity, and the external list is empty.\<close>

theorem transferExternalEvents_correct:
  assumes "ecet_ok t"
  shows "main_events (transferExternalEvents t) =
      take (main_cap t) (main_events t @ ext_events t) \<and>
    ext_events (transferExternalEvents t) = [] \<and> ecet_ok (transferExternalEvents t)"
  using main_events_transfer [OF assms] transfer_lists [OF assms] by simp

lemma transferExternalEvents_correct_witness:
  "main_events (transferExternalEvents (startEventChain \<lparr>mFB = 8, mPortId = 1\<rparr> new_ecet)) =
     [\<lparr>mFB = 8, mPortId = 1\<rparr>]"
proof -
  let ?t = "startEventChain \<lparr>mFB = 8, mPortId = 1\<rparr> new_ecet"
  have q: "ring_ok (mExternalEventList new_ecet)" and m: "ring_ok (mEventList new_ecet)"
    using ecet_ok_new by (simp_all add: ecet_ok_def)
  have n: "length (ext_events new_ecet) < ring_cap (mExternalEventList new_ecet)"
    by (simp add: new_ecet_def cgEventChainExternalEventListSize_def)
  have ok: "ecet_ok ?t"
    using q m by (simp add: ecet_ok_def ring_ok_push)
  have "ext_events ?t = [\<lparr>mFB = 8, mPortId = 1\<rparr>]" "main_events ?t = []" "main_cap ?t = 255"
    using n ringq.enq_content [OF q]
    by (simp_all add: new_ecet_def cgEventChainEventListSize_def)
  then show ?thesis
    using transferExternalEvents_correct [OF ok] by simp
qed

text \<open>C11: One round of the thread delivers the oldest pending event - a main-list event before the
  external ones, each list in order of arrival - and hands the block a thread whose main list holds
  exactly the rest; it suspends exactly when nothing is pending.\<close>

theorem mainRun_fifo:
  assumes "ecet_ok t"
  shows "(pending t = [] \<longrightarrow> fst (mainRun receive (w, t)) = None) \<and>
    (\<forall>e es. pending t = e # es \<longrightarrow>
       (\<exists>t'. mainRun receive (w, t) = (Some e, receive e (w, t')) \<and> ecet_ok t' \<and>
         main_events t' = es \<and> ext_events t' = []))"
proof -
  define t1 where "t1 = (if externalEventOccured t then transferExternalEvents t else t)"
  have l: "main_events t1 = pending t" "ext_events t1 = []" "ecet_ok t1"
    using poll_lists [OF assms] by (simp_all add: t1_def)
  then have q: "ring_ok (mEventList t1)" by (simp add: ecet_ok_def)
  have r: "mainRun receive (w, t) = (case pop (mEventList t1) of
      (None, q) \<Rightarrow> (None, w, t1\<lparr>mEventList := q, mProcessingEvents := False\<rparr>)
    | (Some e, q) \<Rightarrow> (Some e, receive e (w, t1\<lparr>mEventList := q\<rparr>)))"
    by (simp only: mainRun_def t1_def Let_def prod.case)
  show ?thesis
  proof (cases "pending t")
    case Nil
    then show ?thesis
      using ringq.deq_Nil [OF q] l r by simp
  next
    case (Cons e es)
    then obtain x where "pop (mEventList t1) = (Some e, x)" "ring_list x = es" "ring_ok x"
      using ringq.deq_Cons [OF q] ringq.deq_ok [OF q] l by (metis prod.collapse)
    then show ?thesis
      using r l Cons by (auto simp: ecet_ok_def)
  qed
qed

lemma mainRun_fifo_witness:
  "fst (mainRun (\<lambda>e s. s) ((), addEventEntry \<lparr>mFB = 8, mPortId = 1\<rparr> new_ecet)) =
     Some \<lparr>mFB = 8, mPortId = 1\<rparr>"
proof -
  have "pending (addEventEntry \<lparr>mFB = 8, mPortId = 1\<rparr> new_ecet) = [\<lparr>mFB = 8, mPortId = 1\<rparr>]"
    using ecet_ok_new
    by (simp add: pending_def main_events_addEventEntry)
      (simp add: new_ecet_def cgEventChainEventListSize_def)
  then show ?thesis
    using mainRun_fifo [OF addEventEntry_ok [OF ecet_ok_new], of "\<lparr>mFB = 8, mPortId = 1\<rparr>"
        "\<lambda>e s. s" "()"] by auto
qed

section \<open>The thread among other threads\<close>

text \<open>
  Where the thread is in \<open>run\<close>: not yet started by the scheduler, about to look at the external
  list, about to take an event, or in the semaphore wait.  \<open>ts_pending\<close> counts the callers of
  \<open>startEventChain\<close> that have pushed their event and not yet posted the semaphore.  \<open>Kill\<close>, which
  clears the main list from another thread, is not a step.
\<close>

datatype run_pc = PNone | PCreated | PPoll | PTake | PWait

record 'w thread_state =
  ts_pc :: run_pc
  ts_pending :: nat
  ts_ecet :: ecet
  ts_world :: 'w

text \<open>One step of some thread.  The wait returns only when the semaphore is posted, and the
  event that is taken is delivered in the step that takes it.\<close>

inductive thread_step ::
  "(TEventEntry \<Rightarrow> 'w \<times> ecet \<Rightarrow> 'w \<times> ecet) \<Rightarrow> 'w thread_state \<Rightarrow> 'w thread_state \<Rightarrow> bool"
  for receive where
  begin_run: "ts_pc s = PCreated \<Longrightarrow>
     thread_step receive s (s\<lparr>ts_pc := PPoll, ts_ecet := setAlive True (ts_ecet s)\<rparr>)"
| poll: "ts_pc s = PPoll \<Longrightarrow> mAlive (ts_ecet s) \<Longrightarrow>
     thread_step receive s
       (s\<lparr>ts_pc := PTake,
          ts_ecet := (if externalEventOccured (ts_ecet s) then transferExternalEvents (ts_ecet s)
                      else ts_ecet s)\<rparr>)"
| leave: "ts_pc s = PPoll \<Longrightarrow> \<not> mAlive (ts_ecet s) \<Longrightarrow>
     thread_step receive s (s\<lparr>ts_pc := PNone, ts_ecet := (ts_ecet s)\<lparr>mThreadHandle := False\<rparr>\<rparr>)"
| deliver: "ts_pc s = PTake \<Longrightarrow> pop (mEventList (ts_ecet s)) = (Some e, q) \<Longrightarrow>
     receive e (ts_world s, (ts_ecet s)\<lparr>mEventList := q\<rparr>) = (w', t') \<Longrightarrow>
     thread_step receive s (s\<lparr>ts_pc := PPoll, ts_ecet := t', ts_world := w'\<rparr>)"
| suspend: "ts_pc s = PTake \<Longrightarrow> pop (mEventList (ts_ecet s)) = (None, q) \<Longrightarrow>
     thread_step receive s
       (s\<lparr>ts_pc := PWait,
          ts_ecet := (ts_ecet s)\<lparr>mEventList := q, mProcessingEvents := False\<rparr>\<rparr>)"
| wake: "ts_pc s = PWait \<Longrightarrow> mSuspendSemaphore (ts_ecet s) \<Longrightarrow>
     thread_step receive s
       (s\<lparr>ts_pc := PPoll,
          ts_ecet := (ts_ecet s)\<lparr>mSuspendSemaphore := False, mProcessingEvents := True\<rparr>\<rparr>)"
| ext_push: "startEventChain_push e (ts_ecet s) = (True, t') \<Longrightarrow>
     thread_step receive s (s\<lparr>ts_pending := Suc (ts_pending s), ts_ecet := t'\<rparr>)"
| ext_drop: "startEventChain_push e (ts_ecet s) = (False, t') \<Longrightarrow>
     thread_step receive s (s\<lparr>ts_ecet := t'\<rparr>)"
| ext_resume: "ts_pending s = Suc n \<Longrightarrow>
     thread_step receive s
       (s\<lparr>ts_pending := n,
          ts_ecet := resumeSelfSuspend ((ts_ecet s)\<lparr>mProcessingEvents := True\<rparr>)\<rparr>)"
| cmd_start: "\<not> mAlive (ts_ecet s) \<Longrightarrow> ts_pc s = PNone \<Longrightarrow>
     thread_step receive s
       (s\<lparr>ts_pc := PCreated, ts_ecet := ecet_changeExecutionState Start (ts_ecet s)\<rparr>)"
| cmd_stop: "thread_step receive s (s\<lparr>ts_ecet := ecet_changeExecutionState Stop (ts_ecet s)\<rparr>)"

inductive_cases thread_stepE: "thread_step receive s s'"

inductive reachable ::
  "(TEventEntry \<Rightarrow> 'w \<times> ecet \<Rightarrow> 'w \<times> ecet) \<Rightarrow> 'w \<Rightarrow> 'w thread_state \<Rightarrow> bool"
  for receive w0 where
  init: "reachable receive w0 \<lparr>ts_pc = PNone, ts_pending = 0, ts_ecet = new_ecet, ts_world = w0\<rparr>"
| more: "reachable receive w0 s \<Longrightarrow> thread_step receive s s' \<Longrightarrow> reachable receive w0 s'"

lemma fold_addEventEntry_frame [simp]:
  "mExternalEventList (fold addEventEntry es t) = mExternalEventList t"
  "mSuspendSemaphore (fold addEventEntry es t) = mSuspendSemaphore t"
  "mProcessingEvents (fold addEventEntry es t) = mProcessingEvents t"
  "mAlive (fold addEventEntry es t) = mAlive t"
  "mThreadHandle (fold addEventEntry es t) = mThreadHandle t"
  "main_cap (fold addEventEntry es t) = main_cap t"
  by (induction es arbitrary: t) simp_all

lemma fold_addEventEntry_ok: "ecet_ok t \<Longrightarrow> ecet_ok (fold addEventEntry es t)"
  by (induction es arbitrary: t) (simp_all add: addEventEntry_ok)

lemma main_events_fold_addEventEntry:
  assumes "ecet_ok t"
  shows "main_events (fold addEventEntry es t) = take (main_cap t) (main_events t @ es)"
proof -
  have q: "ring_ok (mEventList t)"
    using assms by (simp add: ecet_ok_def)
  have "mEventList (fold addEventEntry es t) = ringq.enq_all es (mEventList t)"
    by (induction es arbitrary: t) (simp_all add: addEventEntry_def)
  then show ?thesis
    using ringq.enq_all_content [OF q] ringq.content_le [OF q] by simp
qed

text \<open>The invariant: a thread that has looked at the external list since the last event came in
  will look again, or its semaphore is posted, or a caller is about to post it.\<close>

definition wakeup_inv :: "'w thread_state \<Rightarrow> bool" where
  "wakeup_inv s =
     (ecet_ok (ts_ecet s) \<and>
      (ts_pc s \<in> {PTake, PWait} \<longrightarrow> ext_events (ts_ecet s) \<noteq> [] \<longrightarrow>
         mSuspendSemaphore (ts_ecet s) \<or> 0 < ts_pending s) \<and>
      (ts_pc s = PWait \<longrightarrow> main_events (ts_ecet s) = []))"

lemma setAlive_frame [simp]:
  "mEventList (setAlive b t) = mEventList t"
  "mExternalEventList (setAlive b t) = mExternalEventList t"
  "mAlive (setAlive b t) = b"
  "mSuspendSemaphore t \<Longrightarrow> mSuspendSemaphore (setAlive b t)"
  by (simp_all add: setAlive_def resumeSelfSuspend_def Let_def)

lemma changeExecutionState_frame [simp]:
  "mEventList (ecet_changeExecutionState Start t) = mEventList t"
  "mEventList (ecet_changeExecutionState Stop t) = mEventList t"
  "mExternalEventList (ecet_changeExecutionState Start t) = mExternalEventList t"
  "mExternalEventList (ecet_changeExecutionState Stop t) = mExternalEventList t"
  "mSuspendSemaphore t \<Longrightarrow> mSuspendSemaphore (ecet_changeExecutionState c t)"
  by (auto simp: ecet_changeExecutionState_def thread_start_def thread_stop_def ecet_clear_def
      split: EMGMCommandType.splits)

lemma startEventChain_push_Some:
  assumes "startEventChain_push e t = (b, t')"
  shows "t' = t\<lparr>mExternalEventList := snd (push e (mExternalEventList t))\<rparr>"
    and "ecet_ok t \<Longrightarrow> ecet_ok t'"
    and "\<not> b \<Longrightarrow> t' = t"
proof -
  have b: "b = fst (push e (mExternalEventList t))"
    using assms by (auto simp: startEventChain_push_def split: prod.splits)
  show eq: "t' = t\<lparr>mExternalEventList := snd (push e (mExternalEventList t))\<rparr>"
    using assms by (auto simp: startEventChain_push_def split: prod.splits)
  show "ecet_ok t \<Longrightarrow> ecet_ok t'"
    by (simp add: eq ecet_ok_def ring_ok_push)
  show "\<not> b \<Longrightarrow> t' = t"
    using b eq by (simp add: push_def split: if_splits)
qed

text \<open>What the thread relies on: delivery to a block keeps the network of blocks well-formed and
  does nothing to the thread but append to its main list.\<close>

locale event_receiver =
  fixes receive :: "TEventEntry \<Rightarrow> 'w \<times> ecet \<Rightarrow> 'w \<times> ecet"
    and world_ok :: "'w \<Rightarrow> bool"
  assumes receive_ok: "world_ok w \<Longrightarrow> world_ok (fst (receive e (w, t)))"
    and receive_appends: "world_ok w \<Longrightarrow> \<exists>es. snd (receive e (w, t)) = fold addEventEntry es t"
begin

lemma thread_step_inv:
  assumes "thread_step receive s s'" "wakeup_inv s" "world_ok (ts_world s)"
  shows "wakeup_inv s' \<and> world_ok (ts_world s')"
  using assms(1)
proof cases
  case poll
  then show ?thesis
    using assms(2,3) poll_lists [of "ts_ecet s"] by (simp add: wakeup_inv_def)
next
  case (deliver e q w' t')
  have "ecet_ok ((ts_ecet s)\<lparr>mEventList := q\<rparr>)"
    using deliver(3) assms(2) ring_ok_pop [of "mEventList (ts_ecet s)"]
    by (simp add: wakeup_inv_def ecet_ok_def)
  moreover have "\<exists>es. t' = fold addEventEntry es ((ts_ecet s)\<lparr>mEventList := q\<rparr>)"
    using receive_appends [OF assms(3)] deliver(4) by (metis snd_conv)
  moreover have "world_ok w'"
    using receive_ok [OF assms(3)] deliver(4) by (metis fst_conv)
  ultimately show ?thesis
    using deliver(1) by (auto simp: wakeup_inv_def fold_addEventEntry_ok)
next
  case (suspend q)
  then have "q = mEventList (ts_ecet s)" "main_events (ts_ecet s) = []"
    using isEmpty_list [of "mEventList (ts_ecet s)"] by (auto simp: pop_def split: if_splits)
  then show ?thesis
    using suspend assms(2,3) by (auto simp: wakeup_inv_def ecet_ok_def)
next
  case (ext_drop e t')
  then show ?thesis
    using assms(2,3) startEventChain_push_Some(3) [of e "ts_ecet s" False t'] by (simp add: wakeup_inv_def)
next
  case (ext_push e t')
  then show ?thesis
    using assms(2,3) startEventChain_push_Some(1,2) [OF ext_push(2)] by (simp add: wakeup_inv_def)
qed (use assms(2,3) in \<open>auto simp: wakeup_inv_def ecet_ok_def resumeSelfSuspend_def\<close>)

lemma reachable_inv:
  "reachable receive w0 s \<Longrightarrow> world_ok w0 \<Longrightarrow> wakeup_inv s \<and> world_ok (ts_world s)"
proof (induction rule: reachable.induct)
  case init
  then show ?case by (simp add: wakeup_inv_def ecet_ok_new)
next
  case (more s s')
  then show ?case using thread_step_inv by blast
qed

text \<open>No wake-up is lost.\<close>

lemma waiting_resumes:
  assumes "reachable receive w0 s" "world_ok w0"
    and "ts_pc s = PWait" "main_events (ts_ecet s) @ ext_events (ts_ecet s) \<noteq> []"
  shows "(\<exists>s'. thread_step receive s s' \<and> ts_pc s' = PPoll \<and>
            pending (ts_ecet s') = pending (ts_ecet s)) \<or> 0 < ts_pending s"
proof -
  have i: "wakeup_inv s"
    using reachable_inv [OF assms(1,2)] by simp
  show ?thesis
  proof (cases "mSuspendSemaphore (ts_ecet s)")
    case True
    then show ?thesis
      using thread_step.wake [OF assms(3) True, of receive]
      by (intro disjI1 exI conjI) (assumption, simp_all add: pending_def)
  next
    case False
    then show ?thesis
      using i assms(3,4) by (auto simp: wakeup_inv_def)
  qed
qed

end

end
