(* ===== verification/Iec_Any.thy ===== *)
theory Iec_Any
imports Prelude
begin

text \<open>
  The elementary data of \<open>core/include/forte/datatypes/forte_any.h\<close>: every value is a 64-bit union
  that a type reads at its own width (the branches for little-endian machines and for big-endian
  ones read the same low bits), the cast table of \<open>core/src/datatypes/forte_any.cpp\<close>, and the
  arithmetic and comparison functions of \<open>core/include/forte/iec61131_functions\<close> at the types the
  modelled blocks use.
\<close>

unbundle bit_operations_syntax

section \<open>Type identifiers\<close>

datatype EDataTypeID =
    e_ANY
  | e_BOOL
  | e_SINT
  | e_INT
  | e_DINT
  | e_LINT
  | e_USINT
  | e_UINT
  | e_UDINT
  | e_ULINT
  | e_BYTE
  | e_WORD
  | e_DWORD
  | e_LWORD
  | e_DATE
  | e_TIME_OF_DAY
  | e_DATE_AND_TIME
  | e_TIME
  | e_CHAR
  | e_WCHAR
  | e_LDATE
  | e_LTIME_OF_DAY
  | e_LDATE_AND_TIME
  | e_LTIME
  | e_REAL
  | e_LREAL
  | e_STRING
  | e_WSTRING
  | e_DerivedData
  | e_DirectlyDerivedData
  | e_EnumeratedData
  | e_SubrangeData
  | e_ARRAY
  | e_STRUCT

fun type_id :: "EDataTypeID \<Rightarrow> nat" where
  "type_id e_ANY = 0"
| "type_id e_BOOL = 1"
| "type_id e_SINT = 2"
| "type_id e_INT = 3"
| "type_id e_DINT = 4"
| "type_id e_LINT = 5"
| "type_id e_USINT = 6"
| "type_id e_UINT = 7"
| "type_id e_UDINT = 8"
| "type_id e_ULINT = 9"
| "type_id e_BYTE = 10"
| "type_id e_WORD = 11"
| "type_id e_DWORD = 12"
| "type_id e_LWORD = 13"
| "type_id e_DATE = 14"
| "type_id e_TIME_OF_DAY = 15"
| "type_id e_DATE_AND_TIME = 16"
| "type_id e_TIME = 17"
| "type_id e_CHAR = 18"
| "type_id e_WCHAR = 19"
| "type_id e_LDATE = 20"
| "type_id e_LTIME_OF_DAY = 21"
| "type_id e_LDATE_AND_TIME = 22"
| "type_id e_LTIME = 23"
| "type_id e_REAL = 24"
| "type_id e_LREAL = 25"
| "type_id e_STRING = 26"
| "type_id e_WSTRING = 27"
| "type_id e_DerivedData = 28"
| "type_id e_DirectlyDerivedData = 29"
| "type_id e_EnumeratedData = 30"
| "type_id e_SubrangeData = 31"
| "type_id e_ARRAY = 32"
| "type_id e_STRUCT = 33"

section \<open>Reading and writing the union\<close>

definition setTBOOL8 :: "bool \<Rightarrow> cell" where
  "setTBOOL8 b = (if b then 1 else 0)"

definition setTUINT8 :: "8 word \<Rightarrow> cell" where "setTUINT8 v = ucast v"
definition setTUINT16 :: "16 word \<Rightarrow> cell" where "setTUINT16 v = ucast v"
definition setTUINT32 :: "32 word \<Rightarrow> cell" where "setTUINT32 v = ucast v"
definition setTINT8 :: "8 word \<Rightarrow> cell" where "setTINT8 v = scast v"
definition setTINT16 :: "16 word \<Rightarrow> cell" where "setTINT16 v = scast v"
definition setTINT32 :: "32 word \<Rightarrow> cell" where "setTINT32 v = scast v"

definition getTUINT8 :: "cell \<Rightarrow> 8 word" where "getTUINT8 c = ucast c"
definition getTUINT16 :: "cell \<Rightarrow> 16 word" where "getTUINT16 c = ucast c"
definition getTUINT32 :: "cell \<Rightarrow> 32 word" where "getTUINT32 c = ucast c"
definition getTINT8 :: "cell \<Rightarrow> 8 word" where "getTINT8 c = ucast c"
definition getTINT16 :: "cell \<Rightarrow> 16 word" where "getTINT16 c = ucast c"
definition getTINT32 :: "cell \<Rightarrow> 32 word" where "getTINT32 c = ucast c"

text \<open>\<open>CIEC_BOOL::operator bool\<close> tests the whole union.\<close>

definition BOOL_value :: "cell \<Rightarrow> bool" where
  "BOOL_value c = (c \<noteq> 0)"

text \<open>\<open>setValue\<close> of the elementary types copies the union whatever the source type is.\<close>

definition setValueSimple :: "cell \<Rightarrow> cell \<Rightarrow> cell" where
  "setValueSimple src old = src"

definition equals_any :: "EDataTypeID \<Rightarrow> cell \<Rightarrow> EDataTypeID \<Rightarrow> cell \<Rightarrow> bool" where
  "equals_any t1 c1 t2 c2 = (if t1 = t2 then c1 = c2 else False)"

lemma BOOL_value_setTBOOL8 [simp]: "BOOL_value (setTBOOL8 b) = b"
  by (simp add: BOOL_value_def setTBOOL8_def)

lemma BOOL_value_0 [simp]: "BOOL_value 0 = False"
  by (simp add: BOOL_value_def)

lemma getTUINT_setTUINT [simp]:
  "getTUINT8 (setTUINT8 v8) = v8"
  "getTUINT16 (setTUINT16 v16) = v16"
  "getTUINT32 (setTUINT32 v32) = v32"
  by (simp_all add: getTUINT8_def setTUINT8_def getTUINT16_def setTUINT16_def getTUINT32_def
      setTUINT32_def, (rule bit_word_eqI; simp add: bit_ucast_iff)+)

lemma getTUINT_0 [simp]: "getTUINT8 0 = 0" "getTUINT16 0 = 0" "getTUINT32 0 = 0"
  by (simp_all add: getTUINT8_def getTUINT16_def getTUINT32_def)

section \<open>Functions at the types of the modelled blocks\<close>

text \<open>\<open>resultType(T::TValueType + U::TValueType)\<close>: the sum is cut to the value type's width.\<close>

definition func_ADD_UINT :: "cell \<Rightarrow> cell \<Rightarrow> cell" where
  "func_ADD_UINT a b = setTUINT16 (getTUINT16 a + getTUINT16 b)"

definition func_SUB_UINT :: "cell \<Rightarrow> cell \<Rightarrow> cell" where
  "func_SUB_UINT a b = setTUINT16 (getTUINT16 a - getTUINT16 b)"

definition func_GE_UINT :: "cell \<Rightarrow> cell \<Rightarrow> bool" where
  "func_GE_UINT a b = (getTUINT16 a \<ge> getTUINT16 b)"

definition func_GT_UINT :: "cell \<Rightarrow> cell \<Rightarrow> bool" where
  "func_GT_UINT a b = (getTUINT16 a > getTUINT16 b)"

definition func_LT_UINT :: "cell \<Rightarrow> cell \<Rightarrow> bool" where
  "func_LT_UINT a b = (getTUINT16 a < getTUINT16 b)"

definition func_LE_UINT :: "cell \<Rightarrow> cell \<Rightarrow> bool" where
  "func_LE_UINT a b = (getTUINT16 a \<le> getTUINT16 b)"

definition func_EQ_UINT :: "cell \<Rightarrow> cell \<Rightarrow> bool" where
  "func_EQ_UINT a b = (getTUINT16 a = getTUINT16 b)"

definition func_ADD_UDINT :: "cell \<Rightarrow> cell \<Rightarrow> cell" where
  "func_ADD_UDINT a b = setTUINT32 (getTUINT32 a + getTUINT32 b)"

definition func_SUB_UDINT :: "cell \<Rightarrow> cell \<Rightarrow> cell" where
  "func_SUB_UDINT a b = setTUINT32 (getTUINT32 a - getTUINT32 b)"

definition func_GE_UDINT :: "cell \<Rightarrow> cell \<Rightarrow> bool" where
  "func_GE_UDINT a b = (getTUINT32 a \<ge> getTUINT32 b)"

definition func_GT_UDINT :: "cell \<Rightarrow> cell \<Rightarrow> bool" where
  "func_GT_UDINT a b = (getTUINT32 a > getTUINT32 b)"

definition func_LT_UDINT :: "cell \<Rightarrow> cell \<Rightarrow> bool" where
  "func_LT_UDINT a b = (getTUINT32 a < getTUINT32 b)"

definition func_LE_UDINT :: "cell \<Rightarrow> cell \<Rightarrow> bool" where
  "func_LE_UDINT a b = (getTUINT32 a \<le> getTUINT32 b)"

definition func_EQ_UDINT :: "cell \<Rightarrow> cell \<Rightarrow> bool" where
  "func_EQ_UDINT a b = (getTUINT32 a = getTUINT32 b)"

definition func_NOT_BOOL :: "cell \<Rightarrow> cell" where
  "func_NOT_BOOL a = setTBOOL8 (\<not> BOOL_value a)"

definition func_EQ_BOOL :: "cell \<Rightarrow> cell \<Rightarrow> bool" where
  "func_EQ_BOOL a b = (BOOL_value a = BOOL_value b)"

lemma getTUINT_func [simp]:
  "getTUINT16 (func_ADD_UINT a b) = getTUINT16 a + getTUINT16 b"
  "getTUINT16 (func_SUB_UINT a b) = getTUINT16 a - getTUINT16 b"
  "getTUINT32 (func_ADD_UDINT a b) = getTUINT32 a + getTUINT32 b"
  "getTUINT32 (func_SUB_UDINT a b) = getTUINT32 a - getTUINT32 b"
  by (simp_all add: func_ADD_UINT_def func_SUB_UINT_def func_ADD_UDINT_def func_SUB_UDINT_def)

section \<open>The cast table\<close>

definition UpCast :: "8 word list list" where
  "UpCast =
     [[0xff, 0xf8, 0x1, 0x80],
      [0x78, 0x78, 0x1, 0x80],
      [0x38, 0x38, 0x1, 0x80],
      [0x18, 0x18, 0x0, 0x80],
      [0x8, 0x8, 0x0, 0x0],
      [0x3f, 0xf8, 0x1, 0x80],
      [0x1b, 0xb8, 0x1, 0x80],
      [0x9, 0x98, 0x0, 0x80],
      [0x0, 0x88, 0x0, 0x0],
      [0x7f, 0xf8, 0x0, 0x0],
      [0x3b, 0xb8, 0x0, 0x0],
      [0x19, 0x98, 0x1, 0x0],
      [0x8, 0x88, 0x1, 0x80],
      [0x0, 0x4, 0x10, 0x10],
      [0x0, 0x2, 0x8, 0x0],
      [0x0, 0x1, 0x4, 0x0],
      [0x0, 0x0, 0x82, 0x0],
      [0x0, 0x0, 0x40, 0x40],
      [0x0, 0x0, 0x20, 0x20],
      [0x0, 0x0, 0x10, 0x10],
      [0x0, 0x0, 0x8, 0x0],
      [0x0, 0x0, 0x4, 0x0],
      [0x0, 0x0, 0x2, 0x0],
      [0x0, 0x18, 0x1, 0x80],
      [0x0, 0x8, 0x0, 0x80],
      [0x0, 0x0, 0x0, 0x40],
      [0x0, 0x0, 0x0, 0x20]]"

definition DownCast :: "8 word list list" where
  "DownCast =
     [[0x0, 0x0, 0x0, 0x0],
      [0x87, 0x80, 0x0, 0x0],
      [0xc7, 0xc0, 0x0, 0x0],
      [0xe7, 0xe0, 0x1, 0x0],
      [0xf7, 0xf0, 0x1, 0x80],
      [0xc0, 0x0, 0x0, 0x0],
      [0xe4, 0x40, 0x0, 0x0],
      [0xf6, 0x60, 0x1, 0x0],
      [0xff, 0x70, 0x1, 0x80],
      [0x80, 0x0, 0x1, 0x80],
      [0xc4, 0x40, 0x1, 0x80],
      [0xe6, 0x60, 0x0, 0x80],
      [0xf7, 0x70, 0x0, 0x0],
      [0x0, 0x0, 0x0, 0x0],
      [0x0, 0x0, 0x0, 0x0],
      [0x0, 0x0, 0x0, 0x0],
      [0x0, 0x0, 0x0, 0x0],
      [0x0, 0x0, 0x0, 0x0],
      [0x0, 0x0, 0x0, 0x0],
      [0x0, 0x0, 0x0, 0x0],
      [0x0, 0x0, 0x0, 0x0],
      [0x0, 0x0, 0x0, 0x0],
      [0x0, 0x0, 0x0, 0x0],
      [0xff, 0xe0, 0x0, 0x0],
      [0xff, 0xf0, 0x1, 0x0],
      [0x0, 0x0, 0x0, 0x0],
      [0x0, 0x0, 0x0, 0x0]]"

definition cast_bit :: "8 word list list \<Rightarrow> nat \<Rightarrow> nat \<Rightarrow> bool" where
  "cast_bit M s d =
     (M ! (s - type_id e_BOOL) ! ((d - type_id e_BOOL) div 8) AND
        drop_bit ((d - type_id e_BOOL) mod 8) 0x80 \<noteq> 0)"

text \<open>The result and the two output parameters \<open>paUpCast\<close>, \<open>paDownCast\<close>.\<close>

definition isCastable :: "EDataTypeID \<Rightarrow> EDataTypeID \<Rightarrow> bool \<times> bool \<times> bool" where
  "isCastable src dst =
     (let s = type_id src; d = type_id dst in
      if s < type_id e_BOOL \<or> s > type_id e_WSTRING \<or> d < type_id e_BOOL \<or> d > type_id e_WSTRING
      then (False, False, False)
      else let up = cast_bit UpCast s d; down = cast_bit DownCast s d
           in (up \<or> down, up, down))"

definition canBeConnected :: "EDataTypeID \<Rightarrow> EDataTypeID \<Rightarrow> bool" where
  "canBeConnected s d =
     (if s = d then True
      else if (s = e_ANY \<and> d \<noteq> e_ANY) \<or> (s \<noteq> e_ANY \<and> d = e_ANY) then True
      else fst (isCastable s d))"

section \<open>The integer an integer type reads\<close>

fun int_value :: "EDataTypeID \<Rightarrow> cell \<Rightarrow> int option" where
  "int_value e_SINT c = Some (sint (getTINT8 c))"
| "int_value e_INT c = Some (sint (getTINT16 c))"
| "int_value e_DINT c = Some (sint (getTINT32 c))"
| "int_value e_LINT c = Some (sint c)"
| "int_value e_USINT c = Some (uint (getTUINT8 c))"
| "int_value e_UINT c = Some (uint (getTUINT16 c))"
| "int_value e_UDINT c = Some (uint (getTUINT32 c))"
| "int_value e_ULINT c = Some (uint c)"
| "int_value _ c = None"

text \<open>A union as the type's own setter leaves it: extended by the sign or by zeros.\<close>

fun canonical :: "EDataTypeID \<Rightarrow> cell \<Rightarrow> bool" where
  "canonical e_SINT c = (c = setTINT8 (getTINT8 c))"
| "canonical e_INT c = (c = setTINT16 (getTINT16 c))"
| "canonical e_DINT c = (c = setTINT32 (getTINT32 c))"
| "canonical e_USINT c = (c = setTUINT8 (getTUINT8 c))"
| "canonical e_UINT c = (c = setTUINT16 (getTUINT16 c))"
| "canonical e_UDINT c = (c = setTUINT32 (getTUINT32 c))"
| "canonical _ c = True"

fun is_int :: "EDataTypeID \<Rightarrow> bool" where
  "is_int t = (t \<in> {e_SINT, e_INT, e_DINT, e_LINT, e_USINT, e_UINT, e_UDINT, e_ULINT})"

lemma uint_getTUINT:
  "uint (getTUINT8 c) = take_bit 8 (uint c)"
  "uint (getTUINT16 c) = take_bit 16 (uint c)"
  "uint (getTUINT32 c) = take_bit 32 (uint c)"
  by (simp_all add: getTUINT8_def getTUINT16_def getTUINT32_def unsigned_ucast_eq)

lemma sint_getTINT:
  "sint (getTINT8 c) = signed_take_bit 7 (uint c)"
  "sint (getTINT16 c) = signed_take_bit 15 (uint c)"
  "sint (getTINT32 c) = signed_take_bit 31 (uint c)"
  "sint c = signed_take_bit 63 (uint c)"
  by (simp_all add: getTINT8_def getTINT16_def getTINT32_def sint_uint unsigned_ucast_eq
      signed_take_bit_take_bit)

lemma uint_scast: "uint (scast w :: 64 word) = take_bit 64 (sint w)"
  by (simp only: scast_eq unsigned_of_int) simp

text \<open>A canonical union is the sign or zero extension of what its type reads.\<close>

lemma uint_canonical:
  "canonical e_SINT c \<Longrightarrow> uint c = take_bit 64 (signed_take_bit 7 (uint c))"
  "canonical e_INT c \<Longrightarrow> uint c = take_bit 64 (signed_take_bit 15 (uint c))"
  "canonical e_DINT c \<Longrightarrow> uint c = take_bit 64 (signed_take_bit 31 (uint c))"
  "canonical e_USINT c \<Longrightarrow> uint c = take_bit 8 (uint c)"
  "canonical e_UINT c \<Longrightarrow> uint c = take_bit 16 (uint c)"
  "canonical e_UDINT c \<Longrightarrow> uint c = take_bit 32 (uint c)"
proof -
  assume "canonical e_SINT c"
  then have "uint c = uint (setTINT8 (getTINT8 c))" by simp
  then show "uint c = take_bit 64 (signed_take_bit 7 (uint c))"
    by (simp add: setTINT8_def uint_scast sint_getTINT)
next
  assume "canonical e_INT c"
  then have "uint c = uint (setTINT16 (getTINT16 c))" by simp
  then show "uint c = take_bit 64 (signed_take_bit 15 (uint c))"
    by (simp add: setTINT16_def uint_scast sint_getTINT)
next
  assume "canonical e_DINT c"
  then have "uint c = uint (setTINT32 (getTINT32 c))" by simp
  then show "uint c = take_bit 64 (signed_take_bit 31 (uint c))"
    by (simp add: setTINT32_def uint_scast sint_getTINT)
next
  assume "canonical e_USINT c"
  then have "uint c = uint (setTUINT8 (getTUINT8 c))" by simp
  then show "uint c = take_bit 8 (uint c)"
    by (simp add: setTUINT8_def unsigned_ucast_eq uint_getTUINT)
next
  assume "canonical e_UINT c"
  then have "uint c = uint (setTUINT16 (getTUINT16 c))" by simp
  then show "uint c = take_bit 16 (uint c)"
    by (simp add: setTUINT16_def unsigned_ucast_eq uint_getTUINT)
next
  assume "canonical e_UDINT c"
  then have "uint c = uint (setTUINT32 (getTUINT32 c))" by simp
  then show "uint c = take_bit 32 (uint c)"
    by (simp add: setTUINT32_def unsigned_ucast_eq uint_getTUINT)
qed

text \<open>Sign-extending from further up does not change a value that already fits.\<close>

lemma signed_take_bit_ext:
  fixes u :: int
  shows "m \<le> n \<Longrightarrow> n < k \<Longrightarrow> u = take_bit k (signed_take_bit m v) \<Longrightarrow>
     signed_take_bit n u = signed_take_bit m v"
  by (simp add: signed_take_bit_take_bit signed_take_bit_signed_take_bit min_def)

lemma signed_take_bit_small:
  fixes u :: int
  assumes "u = take_bit k u" "k \<le> n"
  shows "signed_take_bit n u = u"
proof -
  have "\<not> bit u n"
    using assms by (metis bit_take_bit_iff linorder_not_less)
  moreover have "take_bit n u = u"
    using assms by (metis min.absorb2 take_bit_take_bit)
  ultimately show ?thesis
    by (simp add: signed_take_bit_eq_if_positive)
qed

lemma take_bit_small:
  fixes u :: int
  assumes "u = take_bit k u" "k \<le> n"
  shows "take_bit n u = u"
  using assms by (metis min.absorb2 take_bit_take_bit)

lemma upcast_int_types:
  "is_int s \<Longrightarrow> is_int d \<Longrightarrow> s \<noteq> d \<Longrightarrow> fst (snd (isCastable s d)) \<Longrightarrow>
   (s, d) \<in> {(e_SINT, e_INT), (e_SINT, e_DINT), (e_SINT, e_LINT), (e_INT, e_DINT), (e_INT, e_LINT),
     (e_DINT, e_LINT), (e_USINT, e_INT), (e_USINT, e_DINT), (e_USINT, e_LINT), (e_USINT, e_UINT),
     (e_USINT, e_UDINT), (e_USINT, e_ULINT), (e_UINT, e_DINT), (e_UINT, e_LINT),
     (e_UINT, e_UDINT), (e_UINT, e_ULINT), (e_UDINT, e_LINT), (e_UDINT, e_ULINT)}"
  by (cases s; simp; cases d; simp add: isCastable_def cast_bit_def UpCast_def DownCast_def)

section \<open>Properties\<close>

text \<open>A connection between two integer types that the cast table marks as a lossless up-cast
  really is one: copying the 64-bit union, as connections do, leaves the number that the
  destination type reads equal to the one the source type wrote.\<close>

theorem integer_upcast_exact:
  assumes "is_int s" "is_int d" "fst (snd (isCastable s d))" "canonical s c"
  shows "int_value d (setValueSimple c old) = int_value s c"
proof (cases "s = d")
  case False
  note u = uint_canonical [of c]
  note x =
    signed_take_bit_ext [of 7 15 64, OF _ _ u(1)] signed_take_bit_ext [of 7 31 64, OF _ _ u(1)]
    signed_take_bit_ext [of 7 63 64, OF _ _ u(1)] signed_take_bit_ext [of 15 31 64, OF _ _ u(2)]
    signed_take_bit_ext [of 15 63 64, OF _ _ u(2)] signed_take_bit_ext [of 31 63 64, OF _ _ u(3)]
    signed_take_bit_small [OF u(4)] signed_take_bit_small [OF u(5)] signed_take_bit_small [OF u(6)]
    take_bit_small [OF u(4)] take_bit_small [OF u(5)] take_bit_small [OF u(6)]
  show ?thesis
    using upcast_int_types [OF assms(1,2) False assms(3)] assms(4)
    by (auto simp: setValueSimple_def sint_getTINT uint_getTUINT x simp del: canonical.simps)
qed (simp add: setValueSimple_def)

lemma integer_upcast_exact_witness:
  "int_value e_DINT (setValueSimple (setTINT16 (- 2)) 0) = Some (- 2)"
  using integer_upcast_exact [of e_INT e_DINT "setTINT16 (- 2)" 0]
  by (simp add: isCastable_def cast_bit_def UpCast_def DownCast_def setTINT16_def getTINT16_def)

end
