(* ===== verification/Function_Block.thy ===== *)
theory Function_Block
imports Interface_Spec Event_Chain Iec_Any
begin

text \<open>
  The function block base class: \<open>core/include/forte/funcbloc.h\<close>, \<open>core/src/funcbloc.cpp\<close>,
  \<open>basicfb.*\<close>, and the event connection, \<open>core/src/eventconn.cpp\<close>.  A concrete block is a record
  that extends \<open>CFunctionBlock\<close>; its virtual functions are the components of a \<open>vtable\<close>, which the base
  class operations take as an argument.  Data arriving over connections is the argument
  \<open>env\<close>, the value each connection currently holds.
\<close>

section \<open>State\<close>

datatype E_FBStates = Running | Idle | Stopped | Killed

definition cgMaxSupportedForceIndex :: nat where
  "cgMaxSupportedForceIndex = 64"

record CFunctionBlock =
  mInterfaceSpec :: SFBInterfaceSpec
  mEventMonitorCount :: "32 word list"
  mForces :: "bool list"
  mFBState :: E_FBStates
  mInputEventConnectionCount :: "64 word list option"
  mConnRefCount :: "64 word"
  mDeletable :: bool

record CEventConnection =
  mSourceId :: CConnectionPoint
  mDestinationIds :: "CConnectionPoint list"

record COutDataConnection =
  dc_mSourceId :: CConnectionPoint
  mValue :: cell

text \<open>The virtual functions.  \<open>executeEvent\<close> works on the block and the thread it runs in (none for a
  direct call); its result is \<open>None\<close> if it does not return.  \<open>vt_DItype\<close> and \<open>vt_DOtype\<close> are
  \<open>getDataTypeID\<close> of the pins.\<close>

record 's vtable =
  vt_getDI :: "TPortId \<Rightarrow> ('s, cell) ref option"
  vt_getDO :: "TPortId \<Rightarrow> ('s, cell) ref option"
  vt_getDIO :: "TPortId \<Rightarrow> ('s, cell) ref option"
  vt_DItype :: "TPortId \<Rightarrow> EDataTypeID"
  vt_DOtype :: "TPortId \<Rightarrow> EDataTypeID"
  vt_getEOConUnchecked :: "TPortId \<Rightarrow> ('s, CEventConnection) ref option"
  vt_getDIConUnchecked :: "TPortId \<Rightarrow> ('s, conn_id option) ref option"
  vt_getDOConUnchecked :: "TPortId \<Rightarrow> ('s, COutDataConnection) ref option"
  vt_executeEvent :: "TEventID \<Rightarrow> 's \<times> ecet option \<Rightarrow> ('s \<times> ecet option) option"
  vt_readInputData :: "(conn_id \<Rightarrow> cell) \<Rightarrow> TEventID \<Rightarrow> 's \<Rightarrow> 's"
  vt_writeOutputData :: "TEventID \<Rightarrow> 's \<Rightarrow> 's"
  vt_setInitialValues :: "'s \<Rightarrow> 's"

definition new_CFunctionBlock :: "SFBInterfaceSpec \<Rightarrow> CFunctionBlock" where
  "new_CFunctionBlock sp =
     \<lparr>mInterfaceSpec = sp, mEventMonitorCount = [],
      mForces = replicate cgMaxSupportedForceIndex False, mFBState = Idle,
      mInputEventConnectionCount = None, mConnRefCount = 0, mDeletable = True\<rparr>"

definition freeEventMonitoringData :: "'a CFunctionBlock_scheme \<Rightarrow> 'a CFunctionBlock_scheme" where
  "freeEventMonitoringData s = s\<lparr>mEventMonitorCount := []\<rparr>"

definition setupEventMonitoringData :: "'a CFunctionBlock_scheme \<Rightarrow> 'a CFunctionBlock_scheme" where
  "setupEventMonitoringData s =
     (let s' = freeEventMonitoringData s
      in s'\<lparr>mEventMonitorCount :=
           replicate (getNumEIs (mInterfaceSpec s') + getNumEOs (mInterfaceSpec s')) 0\<rparr>)"

definition setupInputConnectionTrackingData ::
    "'a CFunctionBlock_scheme \<Rightarrow> 'a CFunctionBlock_scheme" where
  "setupInputConnectionTrackingData s =
     (if mEITypeNames (mInterfaceSpec s) \<noteq> []
      then s\<lparr>mInputEventConnectionCount := Some (replicate (getNumEIs (mInterfaceSpec s)) 0)\<rparr>
      else s)"

text \<open>\<open>CFBContainer::initialize\<close> of a block that has no children succeeds.\<close>

definition CFunctionBlock_initialize :: "'a CFunctionBlock_scheme \<Rightarrow> 'a CFunctionBlock_scheme" where
  "CFunctionBlock_initialize s = setupInputConnectionTrackingData (setupEventMonitoringData s)"

section \<open>Reference counting\<close>

definition incConnRefCount :: "'a CFunctionBlock_scheme \<Rightarrow> 'a CFunctionBlock_scheme" where
  "incConnRefCount s = s\<lparr>mConnRefCount := mConnRefCount s + 1\<rparr>"

definition decConnRefCount :: "'a CFunctionBlock_scheme \<Rightarrow> 'a CFunctionBlock_scheme" where
  "decConnRefCount s = s\<lparr>mConnRefCount := mConnRefCount s - 1\<rparr>"

definition addInputEventConnection ::
    "TEventID \<Rightarrow> 'a CFunctionBlock_scheme \<Rightarrow> 'a CFunctionBlock_scheme" where
  "addInputEventConnection ei s =
     incConnRefCount
       (if mEITypeNames (mInterfaceSpec s) \<noteq> []
        then s\<lparr>mInputEventConnectionCount :=
                map_option (\<lambda>c. c[ei := c ! ei + 1]) (mInputEventConnectionCount s)\<rparr>
        else s)"

definition removeInputEventConnection ::
    "TEventID \<Rightarrow> 'a CFunctionBlock_scheme \<Rightarrow> 'a CFunctionBlock_scheme" where
  "removeInputEventConnection ei s =
     decConnRefCount
       (case mInputEventConnectionCount s of
          Some c \<Rightarrow> if c ! ei > 0 then s\<lparr>mInputEventConnectionCount := Some (c[ei := c ! ei - 1])\<rparr>
                    else s
        | None \<Rightarrow> s)"

definition isInputEventConnected :: "TEventID \<Rightarrow> 'a CFunctionBlock_scheme \<Rightarrow> bool" where
  "isInputEventConnected ei s =
     (case mInputEventConnectionCount s of Some c \<Rightarrow> c ! ei > 0 | None \<Rightarrow> False)"

definition isCurrentlyDeleteable :: "'a CFunctionBlock_scheme \<Rightarrow> bool" where
  "isCurrentlyDeleteable s = (mDeletable s \<and> mFBState s \<noteq> Running \<and> mConnRefCount s = 0)"

section \<open>Event connections\<close>

definition addDestination ::
    "CConnectionPoint \<Rightarrow> CEventConnection \<Rightarrow> EMGMResponse \<times> CEventConnection" where
  "addDestination p c =
     (if p \<in> set (mDestinationIds c) then (InvalidState, c)
      else (Ready, c\<lparr>mDestinationIds := mDestinationIds c @ [p]\<rparr>))"

text \<open>\<open>std::remove\<close> moves every equal entry out; nothing removed is \<open>it == end\<close>.\<close>

definition removeDestination ::
    "CConnectionPoint \<Rightarrow> CEventConnection \<Rightarrow> EMGMResponse \<times> CEventConnection" where
  "removeDestination p c =
     (let ds = filter (\<lambda>q. q \<noteq> p) (mDestinationIds c)
      in if length ds = length (mDestinationIds c) then (InvalidState, c)
         else (Ready, c\<lparr>mDestinationIds := ds\<rparr>))"

text \<open>The destination block is given by its address and its state, which the operation changes.\<close>

definition CEventConnection_connect ::
    "nat \<Rightarrow> StringId list \<Rightarrow> CEventConnection \<Rightarrow> 'a CFunctionBlock_scheme \<Rightarrow>
     EMGMResponse \<times> CEventConnection \<times> 'a CFunctionBlock_scheme" where
  "CEventConnection_connect fb names c dst =
     (if length names \<noteq> 1 then (NoSuchObject, c, dst)
      else let dstPortId = getEIID (mInterfaceSpec dst) (hd names)
           in if dstPortId = cgInvalidEventID then (NoSuchObject, c, dst)
              else case addDestination \<lparr>mFB = fb, mPortId = dstPortId\<rparr> c of
                     (retVal, c') \<Rightarrow> (retVal, c', addInputEventConnection dstPortId dst))"

definition CEventConnection_connectToCFBInterface ::
    "nat \<Rightarrow> StringId list \<Rightarrow> CEventConnection \<Rightarrow> 'a CFunctionBlock_scheme \<Rightarrow>
     EMGMResponse \<times> CEventConnection" where
  "CEventConnection_connectToCFBInterface fb names c dst =
     (if length names \<noteq> 1 then (NoSuchObject, c)
      else let dstPortId = getEOID (mInterfaceSpec dst) (hd names)
           in if dstPortId = cgInvalidEventID then (NoSuchObject, c)
              else addDestination
                     \<lparr>mFB = fb, mPortId = or dstPortId cgInternal2InterfaceMarker\<rparr> c)"

definition CEventConnection_disconnect ::
    "nat \<Rightarrow> StringId list \<Rightarrow> CEventConnection \<Rightarrow> 'a CFunctionBlock_scheme \<Rightarrow>
     EMGMResponse \<times> CEventConnection \<times> 'a CFunctionBlock_scheme" where
  "CEventConnection_disconnect fb names c dst =
     (if length names \<noteq> 1 then (NoSuchObject, c, dst)
      else let dstPortId = getEIID (mInterfaceSpec dst) (hd names)
           in if dstPortId = cgInvalidEventID then (NoSuchObject, c, dst)
              else case removeDestination \<lparr>mFB = fb, mPortId = dstPortId\<rparr> c of
                     (retVal, c') \<Rightarrow> (retVal, c', removeInputEventConnection dstPortId dst))"

definition triggerEvent :: "CEventConnection \<Rightarrow> ecet option \<Rightarrow> ecet option" where
  "triggerEvent c ex =
     (case ex of None \<Rightarrow> None | Some t \<Rightarrow> Some (fold addEventEntry (mDestinationIds c) t))"

definition isConnected :: "CEventConnection \<Rightarrow> bool" where
  "isConnected c = (mDestinationIds c \<noteq> [])"

section \<open>Data transfer and forcing\<close>

definition isForced :: "nat \<Rightarrow> 'a CFunctionBlock_scheme \<Rightarrow> bool" where
  "isForced n s = (n < length (mForces s) \<and> mForces s ! n)"

text \<open>\<open>readData\<close> with the variable as a reference and the connection pointer's value;
  \<open>writeData\<close> with the variable's value and the connection as a reference.\<close>

definition readData ::
    "(conn_id \<Rightarrow> cell) \<Rightarrow> nat \<Rightarrow> ('a CFunctionBlock_scheme, cell) ref \<Rightarrow> conn_id option \<Rightarrow>
     'a CFunctionBlock_scheme \<Rightarrow> 'a CFunctionBlock_scheme" where
  "readData env n var conn s =
     (case conn of None \<Rightarrow> s
      | Some c \<Rightarrow> if \<not> isForced n s then wr var (setValueSimple (env c) (rd var s)) s else s)"

definition DataConnection_writeData :: "cell \<Rightarrow> COutDataConnection \<Rightarrow> COutDataConnection" where
  "DataConnection_writeData v c = c\<lparr>mValue := setValueSimple v (mValue c)\<rparr>"

definition writeData ::
    "nat \<Rightarrow> cell \<Rightarrow> ('a CFunctionBlock_scheme, COutDataConnection) ref \<Rightarrow>
     'a CFunctionBlock_scheme \<Rightarrow> 'a CFunctionBlock_scheme" where
  "writeData n v conn s =
     (if \<not> isForced n s then wr conn (DataConnection_writeData v (rd conn s)) s else s)"

definition INVALID_ABS_DATA_PORT_ID :: nat where
  "INVALID_ABS_DATA_PORT_ID = 2 ^ 64 - 1"

definition getAbsDataPortNum :: "StringId \<Rightarrow> 'a CFunctionBlock_scheme \<Rightarrow> nat" where
  "getAbsDataPortNum n s =
     (let sp = mInterfaceSpec s in
      if getDIID sp n \<noteq> cgInvalidPortId then getDIID sp n
      else if getDOID sp n \<noteq> cgInvalidPortId then getNumDIs sp + getDOID sp n
      else if getDIOID sp n \<noteq> cgInvalidPortId then getNumDIs sp + getNumDOs sp + getDIOID sp n
      else INVALID_ABS_DATA_PORT_ID)"

definition setForced_abs ::
    "'a CFunctionBlock_scheme vtable \<Rightarrow> nat \<Rightarrow> bool \<Rightarrow> 'a CFunctionBlock_scheme \<Rightarrow>
     bool \<times> 'a CFunctionBlock_scheme" where
  "setForced_abs vt n force s =
     (if n \<ge> length (mForces s) then (False, s)
      else let s1 = s\<lparr>mForces := (mForces s)[n := force]\<rparr>; sp = mInterfaceSpec s in
           if force \<and> getNumDIs sp \<le> n \<and> n < getNumDIs sp + getNumDOs sp
           then let doPortId = n - getNumDIs sp; con = the (vt_getDOConUnchecked vt doPortId)
                in (True, wr con (DataConnection_writeData
                     (rd (the (vt_getDO vt doPortId)) s1) (rd con s1)) s1)
           else (True, s1))"

text \<open>\<open>setForced\<close> with a name list; the part that \<open>CFBContainer\<close> handles is the argument.\<close>

definition setForced ::
    "'a CFunctionBlock_scheme vtable \<Rightarrow> (StringId list \<Rightarrow> bool \<Rightarrow> bool) \<Rightarrow> StringId list \<Rightarrow> bool \<Rightarrow>
     'a CFunctionBlock_scheme \<Rightarrow> bool \<times> 'a CFunctionBlock_scheme" where
  "setForced vt container names force s =
     (case names of [] \<Rightarrow> (False, s)
      | name # rest \<Rightarrow>
          let n = getAbsDataPortNum name s in
          if n \<noteq> INVALID_ABS_DATA_PORT_ID \<and> length names = 1
          then (True, snd (setForced_abs vt n force s))
          else (container names force, s))"

definition resetForcedOutput ::
    "'a CFunctionBlock_scheme vtable \<Rightarrow> nat \<Rightarrow> 'a CFunctionBlock_scheme \<Rightarrow> 'a CFunctionBlock_scheme" where
  "resetForcedOutput vt i s =
     (if isForced (getNumDIs (mInterfaceSpec s) + i) s
      then let out = the (vt_getDO vt i)
           in wr out (setValueSimple (mValue (rd (the (vt_getDOConUnchecked vt i)) s)) (rd out s)) s
      else s)"

definition resetForcedOutputs ::
    "'a CFunctionBlock_scheme vtable \<Rightarrow> 'a CFunctionBlock_scheme \<Rightarrow> 'a CFunctionBlock_scheme" where
  "resetForcedOutputs vt s =
     fold (resetForcedOutput vt) [0..<getNumDOs (mInterfaceSpec s)] s"

section \<open>Events\<close>

definition count_event :: "nat \<Rightarrow> 'a CFunctionBlock_scheme \<Rightarrow> 'a CFunctionBlock_scheme" where
  "count_event i s = s\<lparr>mEventMonitorCount := (mEventMonitorCount s)[i := mEventMonitorCount s ! i + 1]\<rparr>"

definition sendOutputEvent ::
    "(TEventID \<Rightarrow> 'a CFunctionBlock_scheme \<Rightarrow> 'a CFunctionBlock_scheme) \<Rightarrow>
     (TPortId \<Rightarrow> ('a CFunctionBlock_scheme, CEventConnection) ref option) \<Rightarrow> TEventID \<Rightarrow>
     'a CFunctionBlock_scheme \<times> ecet option \<Rightarrow> 'a CFunctionBlock_scheme \<times> ecet option" where
  "sendOutputEvent writeOutput eoCon eo st =
     (case st of (s, ex) \<Rightarrow>
        let numEOs = getNumEOs (mInterfaceSpec s) in
        if eo < numEOs
        then let s1 = writeOutput eo s;
                 ex1 = triggerEvent (rd (the (eoCon eo)) s1) ex
             in (count_event (length (mEventMonitorCount s1) - numEOs + eo) s1, ex1)
        else (s, ex))"

definition receiveInputEvent ::
    "'a CFunctionBlock_scheme vtable \<Rightarrow> (conn_id \<Rightarrow> cell) \<Rightarrow> TEventID \<Rightarrow>
     'a CFunctionBlock_scheme \<times> ecet option \<Rightarrow> ('a CFunctionBlock_scheme \<times> ecet option) option" where
  "receiveInputEvent vt env ei st =
     (case st of (s, ex) \<Rightarrow>
        if mFBState s = Running
        then let s1 = (if ei < getNumEIs (mInterfaceSpec s)
                       then count_event ei (vt_readInputData vt env ei s) else s)
             in case vt_executeEvent vt ei (s1, ex) of
                  None \<Rightarrow> None
                | Some (s2, ex2) \<Rightarrow>
                    Some (if True \<in> set (mForces s2) then resetForcedOutputs vt s2 else s2, ex2)
        else Some (s, ex))"

section \<open>Execution state\<close>

text \<open>\<open>children\<close> is \<open>CFBContainer::changeExecutionState\<close> of the block's contained blocks.\<close>

definition CFunctionBlock_changeExecutionState ::
    "('a CFunctionBlock_scheme \<Rightarrow> 'a CFunctionBlock_scheme) \<Rightarrow>
     (EMGMCommandType \<Rightarrow> 'a CFunctionBlock_scheme \<Rightarrow> EMGMResponse \<times> 'a CFunctionBlock_scheme) \<Rightarrow>
     EMGMCommandType \<Rightarrow> 'a CFunctionBlock_scheme \<Rightarrow> EMGMResponse \<times> 'a CFunctionBlock_scheme" where
  "CFunctionBlock_changeExecutionState setInit children cmd s =
     (let (r, s1) =
        (case cmd of
           Start \<Rightarrow> if mFBState s = Idle \<or> mFBState s = Stopped
                    then (Ready, s\<lparr>mFBState := Running\<rparr>) else (InvalidState, s)
         | Stop \<Rightarrow> if mFBState s = Running then (Ready, s\<lparr>mFBState := Stopped\<rparr>)
                   else (InvalidState, s)
         | Kill \<Rightarrow> if mFBState s = Running then (Ready, s\<lparr>mFBState := Killed\<rparr>)
                   else (InvalidState, s)
         | Reset \<Rightarrow> if mFBState s = Stopped \<or> mFBState s = Killed
                    then (Ready, setInit (s\<lparr>mFBState := Idle\<rparr>)) else (InvalidState, s)
         | _ \<Rightarrow> (InvalidOperation, s))
      in if r = Ready then children cmd s1 else (r, s1))"

section \<open>Look-ups by name and data connections\<close>

definition getEOConnection ::
    "'a CFunctionBlock_scheme vtable \<Rightarrow> StringId \<Rightarrow> 'a CFunctionBlock_scheme \<Rightarrow>
     ('a CFunctionBlock_scheme, CEventConnection) ref option" where
  "getEOConnection vt n s =
     (let portId = getEOID (mInterfaceSpec s) n
      in if cgInvalidPortId \<noteq> portId then vt_getEOConUnchecked vt portId else None)"

definition getDIConnection ::
    "'a CFunctionBlock_scheme vtable \<Rightarrow> StringId \<Rightarrow> 'a CFunctionBlock_scheme \<Rightarrow> conn_id option" where
  "getDIConnection vt n s =
     (let portId = getDIID (mInterfaceSpec s) n
      in if portId \<noteq> cgInvalidPortId then rd (the (vt_getDIConUnchecked vt portId)) s else None)"

definition getDOConnection ::
    "'a CFunctionBlock_scheme vtable \<Rightarrow> StringId \<Rightarrow> 'a CFunctionBlock_scheme \<Rightarrow>
     ('a CFunctionBlock_scheme, COutDataConnection) ref option" where
  "getDOConnection vt n s =
     (let portId = getDOID (mInterfaceSpec s) n
      in if portId \<noteq> cgInvalidPortId then vt_getDOConUnchecked vt portId else None)"

definition getDataInput ::
    "'a CFunctionBlock_scheme vtable \<Rightarrow> StringId \<Rightarrow> 'a CFunctionBlock_scheme \<Rightarrow>
     ('a CFunctionBlock_scheme, cell) ref option" where
  "getDataInput vt n s =
     (let portId = getDIID (mInterfaceSpec s) n
      in if portId \<noteq> cgInvalidPortId then vt_getDI vt portId else None)"

definition getDataOutput ::
    "'a CFunctionBlock_scheme vtable \<Rightarrow> StringId \<Rightarrow> 'a CFunctionBlock_scheme \<Rightarrow>
     ('a CFunctionBlock_scheme, cell) ref option" where
  "getDataOutput vt n s =
     (let portId = getDOID (mInterfaceSpec s) n
      in if portId \<noteq> cgInvalidPortId then vt_getDO vt portId else None)"

definition getDataInOut ::
    "'a CFunctionBlock_scheme vtable \<Rightarrow> StringId \<Rightarrow> 'a CFunctionBlock_scheme \<Rightarrow>
     ('a CFunctionBlock_scheme, cell) ref option" where
  "getDataInOut vt n s =
     (let portId = getDIOID (mInterfaceSpec s) n
      in if portId \<noteq> cgInvalidPortId then vt_getDIO vt portId else None)"

definition getDIFromPortId ::
    "'a CFunctionBlock_scheme vtable \<Rightarrow> TPortId \<Rightarrow> 'a CFunctionBlock_scheme \<Rightarrow>
     ('a CFunctionBlock_scheme, cell) ref option" where
  "getDIFromPortId vt i s = (if i < getNumDIs (mInterfaceSpec s) then vt_getDI vt i else None)"

definition getDOFromPortId ::
    "'a CFunctionBlock_scheme vtable \<Rightarrow> TPortId \<Rightarrow> 'a CFunctionBlock_scheme \<Rightarrow>
     ('a CFunctionBlock_scheme, cell) ref option" where
  "getDOFromPortId vt i s = (if i < getNumDOs (mInterfaceSpec s) then vt_getDO vt i else None)"

definition getDIOFromPortId ::
    "'a CFunctionBlock_scheme vtable \<Rightarrow> TPortId \<Rightarrow> 'a CFunctionBlock_scheme \<Rightarrow>
     ('a CFunctionBlock_scheme, cell) ref option" where
  "getDIOFromPortId vt i s = (if i < getNumDIOs (mInterfaceSpec s) then vt_getDIO vt i else None)"

text \<open>\<open>getVar\<close> of an elementary value answers only the empty remainder of the name list; what
  \<open>CFBContainer\<close> finds among contained blocks is the argument.\<close>

definition CFunctionBlock_getVar ::
    "'a CFunctionBlock_scheme vtable \<Rightarrow> (StringId list \<Rightarrow> ('a CFunctionBlock_scheme, cell) ref option) \<Rightarrow>
     StringId list \<Rightarrow> 'a CFunctionBlock_scheme \<Rightarrow> ('a CFunctionBlock_scheme, cell) ref option" where
  "CFunctionBlock_getVar vt container names s =
     (case names of [] \<Rightarrow> None
      | name # rest \<Rightarrow>
         (case getDataInput vt name s of
            Some v \<Rightarrow> if rest = [] then Some v else None
          | None \<Rightarrow>
         (case getDataOutput vt name s of
            Some v \<Rightarrow> if rest = [] then Some v else None
          | None \<Rightarrow>
         (case getDataInOut vt name s of
            Some v \<Rightarrow> if rest = [] then Some v else None
          | None \<Rightarrow> container names))))"

definition configureGenericDI ::
    "'a CFunctionBlock_scheme vtable \<Rightarrow> TPortId \<Rightarrow> cell \<Rightarrow> 'a CFunctionBlock_scheme \<Rightarrow>
     bool \<times> 'a CFunctionBlock_scheme" where
  "configureGenericDI vt i refValue s =
     (if vt_DItype vt i = e_ANY
      then (True, wr (the (vt_getDI vt i)) refValue s) else (True, s))"

definition connectDI ::
    "'a CFunctionBlock_scheme vtable \<Rightarrow> TPortId \<Rightarrow> (conn_id \<times> cell) option \<Rightarrow>
     'a CFunctionBlock_scheme \<Rightarrow> bool \<times> 'a CFunctionBlock_scheme" where
  "connectDI vt i con s =
     (if i \<ge> getNumDIs (mInterfaceSpec s) then (False, s)
      else let conn = the (vt_getDIConUnchecked vt i) in
        case con of
          None \<Rightarrow> (True, wr conn None s)
        | Some (c, val) \<Rightarrow>
            if rd conn s \<noteq> None \<and> rd conn s \<noteq> Some c then (False, s)
            else configureGenericDI vt i val (wr conn (Some c) s))"

text \<open>\<open>CDataConnection::connect\<close> from an output of the source block whose type is not ANY to an
  elementary input of another block.  A name list that goes into a member of a structure fails
  on such a pin.  The result is the response, the source block and the destination block.\<close>

definition establishDataConnection ::
    "'b CFunctionBlock_scheme vtable \<Rightarrow> conn_id \<Rightarrow> EDataTypeID \<Rightarrow> cell \<Rightarrow> TPortId \<Rightarrow>
     'b CFunctionBlock_scheme \<Rightarrow> EMGMResponse \<times> 'b CFunctionBlock_scheme" where
  "establishDataConnection vt con srcType val dstPortId dst =
     (if \<not> canBeConnected srcType (vt_DItype vt dstPortId) then (InvalidOperation, dst)
      else case connectDI vt dstPortId (Some (con, val)) dst of
             (ok, dst') \<Rightarrow> (if ok then Ready else InvalidState, dst'))"

definition CDataConnection_connect ::
    "'b CFunctionBlock_scheme vtable \<Rightarrow> StringId list \<Rightarrow> conn_id \<Rightarrow> EDataTypeID \<Rightarrow> cell \<Rightarrow>
     'a CFunctionBlock_scheme \<Rightarrow> 'b CFunctionBlock_scheme \<Rightarrow>
     EMGMResponse \<times> 'a CFunctionBlock_scheme \<times> 'b CFunctionBlock_scheme" where
  "CDataConnection_connect vt names con srcType val src dst =
     (case names of [] \<Rightarrow> (NoSuchObject, src, dst)
      | name # rest \<Rightarrow>
          let dstPortId = getDIID (mInterfaceSpec dst) name in
          if dstPortId = cgInvalidPortId \<or> rest \<noteq> [] then (NoSuchObject, src, dst)
          else case establishDataConnection vt con srcType val dstPortId dst of
                 (r, dst') \<Rightarrow> if r \<noteq> Ready then (r, src, dst')
                              else (Ready, incConnRefCount src, dst'))"

definition CDataConnection_disconnect ::
    "'b CFunctionBlock_scheme vtable \<Rightarrow> StringId list \<Rightarrow> conn_id \<Rightarrow>
     'a CFunctionBlock_scheme \<Rightarrow> 'b CFunctionBlock_scheme \<Rightarrow>
     EMGMResponse \<times> 'a CFunctionBlock_scheme \<times> 'b CFunctionBlock_scheme" where
  "CDataConnection_disconnect vt names con src dst =
     (case names of [] \<Rightarrow> (NoSuchObject, src, dst)
      | name # rest \<Rightarrow>
          let dstPortId = getDIID (mInterfaceSpec dst) name in
          if dstPortId = cgInvalidPortId then (NoSuchObject, src, dst)
          else case getDIConnection vt name dst of
                 None \<Rightarrow> (NoSuchObject, src, dst)
               | Some c \<Rightarrow>
                   if rest \<noteq> [] \<or> c \<noteq> con then (NoSuchObject, src, dst)
                   else (Ready, decConnRefCount src, snd (connectDI vt dstPortId None dst)))"

section \<open>Basic function blocks\<close>

record CBasicFB = CFunctionBlock +
  mECCState :: "16 word"

definition CBasicFB_setInitialValues :: "'a CBasicFB_scheme \<Rightarrow> 'a CBasicFB_scheme" where
  "CBasicFB_setInitialValues s = s\<lparr>mECCState := 0\<rparr>"

text \<open>One pass through the loop body of a generated \<open>executeEvent\<close>: it returns, or the state was
  changed and the loop goes on with the event cleared.\<close>

datatype 'st ecc = Return 'st | Again 'st

partial_function (option) ecc_loop ::
    "(TEventID \<Rightarrow> 'st \<Rightarrow> 'st ecc) \<Rightarrow> TEventID \<Rightarrow> 'st \<Rightarrow> 'st option" where
  "ecc_loop body paEIID st =
     (case body paEIID st of
        Return st' \<Rightarrow> Some st'
      | Again st' \<Rightarrow> ecc_loop body cgInvalidEventID st')"

lemma ecc_loop_Return: "body e st = Return st' \<Longrightarrow> ecc_loop body e st = Some st'"
  by (simp add: ecc_loop.simps)

lemma ecc_loop_Again:
  "body e st = Again st' \<Longrightarrow> ecc_loop body e st = ecc_loop body cgInvalidEventID st'"
  by (simp add: ecc_loop.simps)

section \<open>Properties\<close>

text \<open>A small interface for the examples.\<close>

definition example_spec :: SFBInterfaceSpec where
  "example_spec =
     \<lparr>mEINames = [Some ''CU'', Some ''R''], mEITypeNames = [Some ''Event'', Some ''Event''],
      mEONames = [], mEOTypeNames = [], mDINames = [], mDONames = [], mDIONames = [],
      mSocketNames = [], mPlugNames = []\<rparr>"

text \<open>The life cycle of a block.\<close>

definition life_cycle :: "(EMGMCommandType \<times> E_FBStates \<times> E_FBStates) set" where
  "life_cycle =
     {(Start, Idle, Running), (Start, Stopped, Running), (Stop, Running, Stopped), (Kill, Running, Killed),
      (Reset, Stopped, Idle), (Reset, Killed, Idle)}"

text \<open>C30: The execution state of a block changes only along the arrows of the life cycle - start from Idle or Stopped,
  stop and kill from Running, reset from Stopped or Killed - and then the command goes on to the blocks it contains,
  whose answer is the answer, also when one of them refuses and the block itself has already changed; every other
  command leaves the block untouched and does not reach them, and is answered with InvalidState, or with
  InvalidOperation when it is none of start, stop, kill and reset; only a reset runs the initial values.  What the
  contained blocks do is an argument that leaves the state of the block itself alone.\<close>

theorem changeExecutionState_lifecycle:
  assumes "\<And>x. mFBState (setInit x) = mFBState x" "\<And>x. mFBState (snd (children cmd x)) = mFBState x"
  shows "let (r, s') = CFunctionBlock_changeExecutionState setInit children cmd s;
             allowed = (\<exists>t. (cmd, mFBState s, t) \<in> life_cycle) in
    (allowed \<longrightarrow> (cmd, mFBState s, mFBState s') \<in> life_cycle \<and>
       (r, s') = children cmd (if cmd = Reset then setInit (s\<lparr>mFBState := Idle\<rparr>) else s\<lparr>mFBState := mFBState s'\<rparr>)) \<and>
    (\<not> allowed \<longrightarrow> s' = s \<and> r = (if cmd \<in> {Start, Stop, Kill, Reset} then InvalidState else InvalidOperation))"
  using assms
  by (cases cmd; cases "mFBState s")
    (simp_all add: CFunctionBlock_changeExecutionState_def life_cycle_def split_beta)

lemma changeExecutionState_lifecycle_witness:
  "fst (CFunctionBlock_changeExecutionState (\<lambda>x. x) (\<lambda>_ x. (Ready, x)) Stop
     ((new_CFunctionBlock example_spec)\<lparr>mFBState := Killed\<rparr>)) = InvalidState \<and>
   CFunctionBlock_changeExecutionState (\<lambda>x. x) (\<lambda>_ x. (InvalidState, x)) Stop
     ((new_CFunctionBlock example_spec)\<lparr>mFBState := Running\<rparr>) =
     (InvalidState, (new_CFunctionBlock example_spec)\<lparr>mFBState := Stopped\<rparr>)"
  using changeExecutionState_lifecycle [of "\<lambda>x. x" "\<lambda>_ x. (Ready, x)" Stop
      "(new_CFunctionBlock example_spec)\<lparr>mFBState := Killed\<rparr>"]
    changeExecutionState_lifecycle [of "\<lambda>x. x" "\<lambda>_ x. (InvalidState, x)" Stop
      "(new_CFunctionBlock example_spec)\<lparr>mFBState := Running\<rparr>"]
  by (auto simp: split_beta Let_def life_cycle_def prod_eq_iff)

text \<open>An input event list as set up by \<open>initialize\<close>, with room for every event input.\<close>

definition tracking_ok :: "'a CFunctionBlock_scheme \<Rightarrow> bool" where
  "tracking_ok s =
     (case mInputEventConnectionCount s of
        None \<Rightarrow> mEITypeNames (mInterfaceSpec s) = []
      | Some c \<Rightarrow> mEITypeNames (mInterfaceSpec s) \<noteq> [] \<and>
                  length c = getNumEIs (mInterfaceSpec s))"

lemma remove_add_InputEventConnection:
  assumes "tracking_ok s" "ei < getNumEIs (mInterfaceSpec s)"
    and "\<forall>c. mInputEventConnectionCount s = Some c \<longrightarrow> c ! ei + 1 \<noteq> 0"
  shows "removeInputEventConnection ei (addInputEventConnection ei s) = s"
  using assms
  by (cases "mInputEventConnectionCount s")
    (auto simp: removeInputEventConnection_def addInputEventConnection_def incConnRefCount_def
      decConnRefCount_def tracking_ok_def word_gt_0 simp del: getNumEIs_def)

lemma addDestination_fst: "fst (addDestination p c) = (if p \<in> set (mDestinationIds c) then InvalidState else Ready)"
  by (simp add: addDestination_def)

lemma remove_add_Destination:
  "p \<notin> set (mDestinationIds c) \<Longrightarrow> removeDestination p (snd (addDestination p c)) = (Ready, c)"
proof -
  assume p: "p \<notin> set (mDestinationIds c)"
  then have "filter (\<lambda>q. q \<noteq> p) (mDestinationIds c) = mDestinationIds c"
    by (auto intro: filter_True)
  then show ?thesis
    using p by (simp add: addDestination_def removeDestination_def Let_def)
qed

text \<open>Disconnecting an event connection right after it was made undoes it completely: the
  fan-out list, the per-pin counter and the reference counter of the destination are what they were.
  A connection to an unknown event input is refused and changes nothing.\<close>

theorem connect_disconnect_roundtrip:
  assumes "tracking_ok dst" "getNumEIs (mInterfaceSpec dst) \<le> cgInvalidEventID"
    and "\<forall>c. mInputEventConnectionCount dst = Some c \<longrightarrow> - 1 \<notin> set c"
    and "\<lparr>mFB = fb, mPortId = getEIID (mInterfaceSpec dst) n\<rparr> \<notin> set (mDestinationIds c)"
  shows "if n \<in> set (mEINames (mInterfaceSpec dst))
    then \<exists>c' dst'. CEventConnection_connect fb [n] c dst = (Ready, c', dst') \<and>
        mDestinationIds c' = mDestinationIds c @
          [\<lparr>mFB = fb, mPortId = getEIID (mInterfaceSpec dst) n\<rparr>] \<and>
        mConnRefCount dst' = mConnRefCount dst + 1 \<and>
        CEventConnection_disconnect fb [n] c' dst' = (Ready, c, dst)
    else CEventConnection_connect fb [n] c dst = (NoSuchObject, c, dst)"
proof (cases "n \<in> set (mEINames (mInterfaceSpec dst))")
  case True
  let ?i = "getEIID (mInterfaceSpec dst) n"
  have i: "?i \<noteq> cgInvalidEventID" "?i < getNumEIs (mInterfaceSpec dst)"
    using True getPortId_invalid [of "mEINames (mInterfaceSpec dst)" n] assms(2)
      getPortId_valid [of n "mEINames (mInterfaceSpec dst)"]
    by (auto simp: getEIID_def cgInvalidEventID_def)
  have sp: "mInterfaceSpec (addInputEventConnection ?i dst) = mInterfaceSpec dst"
    "mConnRefCount (addInputEventConnection ?i dst) = mConnRefCount dst + 1"
    by (simp_all add: addInputEventConnection_def incConnRefCount_def)
  have "removeInputEventConnection ?i (addInputEventConnection ?i dst) = dst"
  proof (rule remove_add_InputEventConnection [OF assms(1) i(2)], intro allI impI)
    fix c assume "mInputEventConnectionCount dst = Some c"
    then have "c ! ?i \<in> set c" "- 1 \<notin> set c"
      using assms(1,3) i(2) by (simp_all add: tracking_ok_def)
    then show "c ! ?i + 1 \<noteq> 0"
      by (metis add.inverse_inverse add_eq_0_iff)
  qed
  then show ?thesis
    using True i(1) assms(4) remove_add_Destination [OF assms(4)] sp
    by (simp add: CEventConnection_connect_def CEventConnection_disconnect_def addDestination_def
        Let_def)
next
  case False
  then show ?thesis
    by (simp add: CEventConnection_connect_def getEIID_def getPortId_cases cgInvalidEventID_def)
qed

lemma connect_disconnect_roundtrip_witness:
  "\<exists>c' dst'. CEventConnection_connect 8 [Some ''R'']
       \<lparr>mSourceId = \<lparr>mFB = 16, mPortId = 0\<rparr>, mDestinationIds = []\<rparr>
       (CFunctionBlock_initialize (new_CFunctionBlock example_spec)) = (Ready, c', dst') \<and>
     mConnRefCount dst' = 1"
  using connect_disconnect_roundtrip
      [of "CFunctionBlock_initialize (new_CFunctionBlock example_spec)" 8 "Some ''R''"
        "\<lparr>mSourceId = \<lparr>mFB = 16, mPortId = 0\<rparr>, mDestinationIds = []\<rparr>"]
  by (auto simp: CFunctionBlock_initialize_def new_CFunctionBlock_def example_spec_def
      setupInputConnectionTrackingData_def setupEventMonitoringData_def
      freeEventMonitoringData_def tracking_ok_def Let_def cgInvalidEventID_def
      cgInvalidPortId_def)

text \<open>Making an event connection that already exists is answered with InvalidState and leaves
  the fan-out list alone, but still counts a reference on the destination; so after one disconnect the
  connection is gone and the block that had no other connection can no longer be deleted.\<close>

theorem duplicate_connect_leaks_reference:
  assumes "i = getEIID (mInterfaceSpec dst) n" "i \<noteq> cgInvalidEventID"
    and "\<lparr>mFB = fb, mPortId = i\<rparr> \<notin> set (mDestinationIds c)" "mConnRefCount dst = 0"
    and "CEventConnection_connect fb [n] c dst = (r1, c1, dst1)"
    and "CEventConnection_connect fb [n] c1 dst1 = (r2, c2, dst2)"
    and "CEventConnection_disconnect fb [n] c2 dst2 = (r3, c3, dst3)"
  shows "r1 = Ready \<and> r2 = InvalidState \<and> r3 = Ready \<and> c2 = c1 \<and>
    \<lparr>mFB = fb, mPortId = i\<rparr> \<notin> set (mDestinationIds c3) \<and>
    mConnRefCount dst3 = 1 \<and> \<not> isCurrentlyDeleteable dst3"
proof -
  let ?p = "\<lparr>mFB = fb, mPortId = i\<rparr>"
  have frame: "mInterfaceSpec (addInputEventConnection i x) = mInterfaceSpec x"
    "mConnRefCount (addInputEventConnection i x) = mConnRefCount x + 1"
    "mConnRefCount (removeInputEventConnection i x) = mConnRefCount x - 1"
    for x :: "'a CFunctionBlock_scheme"
    by (auto simp: addInputEventConnection_def incConnRefCount_def removeInputEventConnection_def
        decConnRefCount_def split: option.splits)
  have 1: "r1 = Ready" "c1 = c\<lparr>mDestinationIds := mDestinationIds c @ [?p]\<rparr>"
      "dst1 = addInputEventConnection i dst"
    using assms(1-3,5) by (auto simp: CEventConnection_connect_def addDestination_def Let_def)
  then have 2: "r2 = InvalidState" "c2 = c1" "dst2 = addInputEventConnection i dst1"
    using assms(1,2,6) frame by (auto simp: CEventConnection_connect_def addDestination_def Let_def)
  have 3: "r3 = Ready" "c3 = c" "dst3 = removeInputEventConnection i dst2"
    using assms(1-3,7) 1 2 frame remove_add_Destination [OF assms(3)]
    by (auto simp: CEventConnection_disconnect_def addDestination_def Let_def)
  then show ?thesis
    using 1 2 assms(3,4) frame by (auto simp: isCurrentlyDeleteable_def)
qed

lemma duplicate_connect_leaks_reference_witness:
  "\<exists>dst3. snd (snd (CEventConnection_disconnect 8 [Some ''R'']
       \<lparr>mSourceId = \<lparr>mFB = 16, mPortId = 0\<rparr>, mDestinationIds = [\<lparr>mFB = 8, mPortId = 1\<rparr>]\<rparr>
       (addInputEventConnection 1 (addInputEventConnection 1
          (CFunctionBlock_initialize (new_CFunctionBlock example_spec)))))) = dst3 \<and>
     \<not> isCurrentlyDeleteable dst3"
proof -
  let ?d = "CFunctionBlock_initialize (new_CFunctionBlock example_spec)"
  let ?c = "\<lparr>mSourceId = \<lparr>mFB = 16, mPortId = 0\<rparr>, mDestinationIds = []\<rparr>"
  let ?c1 = "\<lparr>mSourceId = \<lparr>mFB = 16, mPortId = 0\<rparr>, mDestinationIds = [\<lparr>mFB = 8, mPortId = 1\<rparr>]\<rparr>"
  note defs = CFunctionBlock_initialize_def new_CFunctionBlock_def example_spec_def
    setupInputConnectionTrackingData_def setupEventMonitoringData_def
    freeEventMonitoringData_def cgInvalidEventID_def cgInvalidPortId_def getEIID_def getPortId_def
  have i: "1 = getEIID (mInterfaceSpec ?d) (Some ''R'')" "(1::nat) \<noteq> cgInvalidEventID"
    by (simp_all add: defs)
  have c1: "CEventConnection_connect 8 [Some ''R''] ?c ?d =
      (Ready, ?c1, addInputEventConnection 1 ?d)"
    using i by (simp add: CEventConnection_connect_def addDestination_def Let_def)
  have c2: "CEventConnection_connect 8 [Some ''R''] ?c1 (addInputEventConnection 1 ?d) =
      (InvalidState, ?c1, addInputEventConnection 1 (addInputEventConnection 1 ?d))"
    using i by (simp add: CEventConnection_connect_def addDestination_def
        addInputEventConnection_def incConnRefCount_def Let_def)
  have "mConnRefCount ?d = 0" by (simp add: defs)
  moreover obtain r3 c3 dst3 where "CEventConnection_disconnect 8 [Some ''R''] ?c1
      (addInputEventConnection 1 (addInputEventConnection 1 ?d)) = (r3, c3, dst3)"
    by (cases "CEventConnection_disconnect 8 [Some ''R''] ?c1
      (addInputEventConnection 1 (addInputEventConnection 1 ?d))")
  ultimately show ?thesis
    using duplicate_connect_leaks_reference [OF i _ _ c1 c2] by simp
qed

end
