(* ===== verification/FB_Class.thy ===== *)
theory FB_Class
imports Function_Block
begin

text \<open>
  The contract between the base class and the concrete blocks.  \<open>fb_step\<close> is what any piece of a
  block's own code may do: it leaves the base class state alone except for the event output
  counters, appends events to the thread's list, and does not touch the connection of a forced
  output.  The locale \<open>fb_class\<close> states this of a block's virtual functions; in it the base class
  operations \<open>receiveInputEvent\<close> and \<open>resetForcedOutputs\<close> are verified once for all blocks.  The
  locale \<open>ecc_machine\<close> does the same for the generated state machine loop.
\<close>

section \<open>Frames\<close>

definition base ::
    "'a CFunctionBlock_scheme \<Rightarrow> SFBInterfaceSpec \<times> bool list \<times> E_FBStates \<times>
       64 word list option \<times> 64 word \<times> bool" where
  "base s = (mInterfaceSpec s, mForces s, mFBState s, mInputEventConnectionCount s,
             mConnRefCount s, mDeletable s)"

definition counts_ok :: "'a CFunctionBlock_scheme \<Rightarrow> bool" where
  "counts_ok s = (length (mEventMonitorCount s) =
     getNumEIs (mInterfaceSpec s) + getNumEOs (mInterfaceSpec s))"

definition ei_counts :: "'a CFunctionBlock_scheme \<Rightarrow> 32 word list" where
  "ei_counts s = take (getNumEIs (mInterfaceSpec s)) (mEventMonitorCount s)"

abbreviation con_value ::
    "(TPortId \<Rightarrow> ('s, COutDataConnection) ref option) \<Rightarrow> TPortId \<Rightarrow> 's \<Rightarrow> COutDataConnection" where
  "con_value docon n s \<equiv> rd (the (docon n)) s"

definition forced_kept ::
    "(TPortId \<Rightarrow> ('a CFunctionBlock_scheme, COutDataConnection) ref option) \<Rightarrow>
     'a CFunctionBlock_scheme \<Rightarrow> 'a CFunctionBlock_scheme \<Rightarrow> bool" where
  "forced_kept docon s s' =
     (\<forall>n < getNumDOs (mInterfaceSpec s).
        isForced (getNumDIs (mInterfaceSpec s) + n) s \<longrightarrow> con_value docon n s' = con_value docon n s)"

definition fb_step ::
    "(TPortId \<Rightarrow> ('a CFunctionBlock_scheme, COutDataConnection) ref option) \<Rightarrow>
     'a CFunctionBlock_scheme \<times> ecet option \<Rightarrow> 'a CFunctionBlock_scheme \<times> ecet option \<Rightarrow> bool" where
  "fb_step docon st st' =
     (base (fst st') = base (fst st) \<and> forced_kept docon (fst st) (fst st') \<and>
      (counts_ok (fst st) \<longrightarrow> counts_ok (fst st') \<and> ei_counts (fst st') = ei_counts (fst st)) \<and>
      (\<exists>es. snd st' = map_option (fold addEventEntry es) (snd st)))"

lemma base_eqD:
  assumes "base s' = base s"
  shows "mInterfaceSpec s' = mInterfaceSpec s" "mForces s' = mForces s" "mFBState s' = mFBState s"
    "mInputEventConnectionCount s' = mInputEventConnectionCount s"
    "mConnRefCount s' = mConnRefCount s" "mDeletable s' = mDeletable s"
    "isForced n s' = isForced n s"
  using assms by (simp_all add: base_def isForced_def)

lemma base_count_event [simp]: "base (count_event i s) = base s"
  by (simp add: base_def count_event_def)

lemma mEventMonitorCount_count_event [simp]:
  "mEventMonitorCount (count_event i s) = (mEventMonitorCount s)[i := mEventMonitorCount s ! i + 1]"
  by (simp add: count_event_def)

lemma mInterfaceSpec_count_event [simp]: "mInterfaceSpec (count_event i s) = mInterfaceSpec s"
  by (simp add: count_event_def)

lemma forced_kept_refl [intro, simp]: "forced_kept docon s s"
  by (simp add: forced_kept_def)

lemma forced_kept_trans:
  "forced_kept docon s s' \<Longrightarrow> forced_kept docon s' s'' \<Longrightarrow> base s' = base s \<Longrightarrow>
   forced_kept docon s s''"
  unfolding forced_kept_def by (metis base_eqD(1,7))

lemma fb_step_refl [intro, simp]: "fb_step docon st st"
proof -
  have "snd st = map_option (fold addEventEntry []) (snd st)"
    by (cases "snd st") simp_all
  then show ?thesis
    unfolding fb_step_def by blast
qed

lemma fb_step_trans [trans]:
  assumes "fb_step docon st st'" "fb_step docon st' st''"
  shows "fb_step docon st st''"
proof -
  from assms obtain es es' where
    "snd st' = map_option (fold addEventEntry es) (snd st)"
    "snd st'' = map_option (fold addEventEntry es') (snd st')"
    unfolding fb_step_def by blast
  then have "snd st'' = map_option (fold addEventEntry (es @ es')) (snd st)"
    by (cases "snd st") simp_all
  then show ?thesis
    using assms unfolding fb_step_def
    by (metis forced_kept_trans)
qed

text \<open>A change of the block alone that keeps the base state and the counters.\<close>

lemma fb_step_localI:
  assumes "base s' = base s" "mEventMonitorCount s' = mEventMonitorCount s" "forced_kept docon s s'"
  shows "fb_step docon (s, ex) (s', ex)"
proof -
  have "ex = map_option (fold addEventEntry []) ex"
    by (cases ex) simp_all
  then show ?thesis
    using assms unfolding fb_step_def counts_ok_def ei_counts_def fst_conv snd_conv
    by (metis base_eqD(1))
qed

text \<open>Steps of a block with a given interface.  The rules below rewrite \<open>fb_step_in\<close> over a
  sequence of statements, last statement first.\<close>

definition fb_step_in ::
    "SFBInterfaceSpec \<Rightarrow> (TPortId \<Rightarrow> ('a CFunctionBlock_scheme, COutDataConnection) ref option) \<Rightarrow>
     'a CFunctionBlock_scheme \<times> ecet option \<Rightarrow> 'a CFunctionBlock_scheme \<times> ecet option \<Rightarrow> bool" where
  "fb_step_in sp docon st st' = (mInterfaceSpec (fst st) = sp \<longrightarrow> fb_step docon st st')"

lemma fb_step_in_refl [simp]: "fb_step_in sp docon st st"
  by (simp add: fb_step_in_def)

lemma fb_step_spec: "fb_step docon st st' \<Longrightarrow> mInterfaceSpec (fst st') = mInterfaceSpec (fst st)"
  unfolding fb_step_def by (rule base_eqD(1)) simp

lemma fb_step_in_trans:
  "fb_step_in sp docon st st' \<Longrightarrow> fb_step_in sp docon st' st'' \<Longrightarrow> fb_step_in sp docon st st''"
  unfolding fb_step_in_def by (metis fb_step_trans fb_step_spec)

text \<open>A statement that changes members of the block other than those of the base class and the output
  connections.\<close>

lemma fb_step_in_local:
  assumes "\<And>s. base (f s) = base s" "\<And>s. mEventMonitorCount (f s) = mEventMonitorCount s"
    and "\<And>n s. n < getNumDOs sp \<Longrightarrow> con_value docon n (f s) = con_value docon n s"
    and "fb_step_in sp docon st st'"
  shows "fb_step_in sp docon st (apfst f st')"
proof (rule fb_step_in_trans [OF assms(4)], unfold fb_step_in_def, intro impI)
  assume "mInterfaceSpec (fst st') = sp"
  then have "forced_kept docon (fst st') (f (fst st'))"
    using assms(3) by (simp add: forced_kept_def)
  then show "fb_step docon st' (apfst f st')"
    using assms(1,2) fb_step_localI [of "f (fst st')" "fst st'" docon "snd st'"] by (cases st') simp
qed

text \<open>Sending an output event, for a block whose \<open>writeOutputData\<close> honours the forces.\<close>

lemma fb_step_in_send:
  assumes "\<And>eo x. base (wo eo x) = base x"
    and "\<And>eo x. mEventMonitorCount (wo eo x) = mEventMonitorCount x"
    and "\<And>eo x. mInterfaceSpec x = sp \<Longrightarrow> forced_kept docon x (wo eo x)"
    and "\<And>n i x. n < getNumDOs sp \<Longrightarrow> con_value docon n (count_event i x) = con_value docon n x"
    and "fb_step_in sp docon st0 st"
  shows "fb_step_in sp docon st0 (sendOutputEvent wo geo eo st)"
proof (rule fb_step_in_trans [OF assms(5)], unfold fb_step_in_def, intro impI, cases st)
  case (Pair s ex)
  assume sp: "mInterfaceSpec (fst st) = sp"
  let ?n = "getNumEOs sp"
  show "fb_step docon st (sendOutputEvent wo geo eo st)"
  proof (cases "eo < ?n")
    case True
    define s1 where "s1 = wo eo s"
    define i where "i = length (mEventMonitorCount s1) - ?n + eo"
    have b: "base s1 = base s" "mEventMonitorCount s1 = mEventMonitorCount s"
      "forced_kept docon s s1"
      using assms(1-3) sp Pair by (simp_all add: s1_def)
    have "sendOutputEvent wo geo eo st =
        (count_event i s1, triggerEvent (rd (the (geo eo)) s1) ex)"
      using True Pair sp by (simp add: sendOutputEvent_def s1_def i_def Let_def)
    moreover have "forced_kept docon s (count_event i s1)"
      using b(3) assms(4) [of _ i s1] sp Pair by (simp add: forced_kept_def)
    moreover have "counts_ok s \<longrightarrow> counts_ok (count_event i s1) \<and>
        ei_counts (count_event i s1) = ei_counts s"
      using b base_eqD(1) [OF b(1)] sp Pair by (auto simp: counts_ok_def ei_counts_def i_def)
    moreover have "\<exists>es. triggerEvent c ex = map_option (fold addEventEntry es) ex" for c
      by (cases ex) (auto simp: triggerEvent_def)
    ultimately show ?thesis
      using b Pair by (simp add: fb_step_def)
  next
    case False
    then show ?thesis
      using Pair sp by (simp add: sendOutputEvent_def)
  qed
qed

text \<open>Writing the output connections, one \<open>writeData\<close> after the other.\<close>

definition forced_in ::
    "SFBInterfaceSpec \<Rightarrow> (TPortId \<Rightarrow> ('a CFunctionBlock_scheme, COutDataConnection) ref option) \<Rightarrow>
     'a CFunctionBlock_scheme \<Rightarrow> 'a CFunctionBlock_scheme \<Rightarrow> bool" where
  "forced_in sp docon s s' =
     (mInterfaceSpec s = sp \<longrightarrow> forced_kept docon s s' \<and> base s' = base s)"

lemma forced_in_refl: "forced_in sp docon s s"
  by (simp add: forced_in_def)

lemma forced_in_if:
  "(c \<Longrightarrow> forced_in sp docon s a) \<Longrightarrow> (\<not> c \<Longrightarrow> forced_in sp docon s b) \<Longrightarrow>
   forced_in sp docon s (if c then a else b)"
  by simp

lemma forced_in_writeData:
  assumes "docon k = Some r"
    and "\<And>n v s. n < getNumDOs sp \<Longrightarrow> n \<noteq> k \<Longrightarrow> con_value docon n (wr r v s) = con_value docon n s"
    and "\<And>v s. base (wr r v s) = base s"
    and "forced_in sp docon s s'"
  shows "forced_in sp docon s (writeData (getNumDIs sp + k) v r s')"
  unfolding forced_in_def
proof
  assume sp: "mInterfaceSpec s = sp"
  then have k: "forced_kept docon s s'" and b: "base s' = base s"
    using assms(4) by (simp_all add: forced_in_def)
  have sp': "mInterfaceSpec s' = sp"
    using base_eqD(1) [OF b] sp by simp
  then have "forced_kept docon s' (writeData (getNumDIs sp + k) v r s')"
    using assms(2) by (auto simp: forced_kept_def writeData_def simp del: getNumDIs_def getNumDOs_def)
  moreover have "base (writeData (getNumDIs sp + k) v r s') = base s"
    using assms(3) b by (simp add: writeData_def)
  ultimately show "forced_kept docon s (writeData (getNumDIs sp + k) v r s') \<and>
      base (writeData (getNumDIs sp + k) v r s') = base s"
    using forced_kept_trans [OF k _ b] by simp
qed

lemma forced_inD: "forced_in sp docon s s' \<Longrightarrow> mInterfaceSpec s = sp \<Longrightarrow> forced_kept docon s s'"
  by (simp add: forced_in_def)

lemma sendOutputEvent_field:
  assumes "\<And>i x. F (count_event i x) = F x" "\<And>eo x. F (wo eo x) = F x"
  shows "F (fst (sendOutputEvent wo geo eo st)) = F (fst st)"
  using assms by (cases st) (simp add: sendOutputEvent_def Let_def)

lemma snd_sendOutputEvent:
  "eo < getNumEOs (mInterfaceSpec (fst st)) \<Longrightarrow>
   snd (sendOutputEvent wo geo eo st) = triggerEvent (rd (the (geo eo)) (wo eo (fst st))) (snd st)"
  by (cases st) (simp add: sendOutputEvent_def Let_def)

lemma send_spec:
  "(\<And>eo x. base (wo eo x) = base x) \<Longrightarrow>
   mInterfaceSpec (fst (sendOutputEvent wo geo eo st)) = mInterfaceSpec (fst st)"
  using base_eqD(1) by (intro sendOutputEvent_field) (simp_all add: base_def)

lemmas ecc_simps = Let_def cgInvalidEventID_def cgInvalidPortId_def

section \<open>The loop of a generated state machine\<close>

locale ecc_machine =
  fixes body :: "TEventID \<Rightarrow> 'st \<Rightarrow> 'st ecc"
    and step :: "'st \<Rightarrow> 'st \<Rightarrow> bool"
    and rank :: "TEventID \<Rightarrow> 'st \<Rightarrow> nat"
  assumes step_refl: "step st st"
    and step_trans: "step st st' \<Longrightarrow> step st' st'' \<Longrightarrow> step st st''"
    and return_step: "body e st = Return st' \<Longrightarrow> step st st'"
    and again_step: "body e st = Again st' \<Longrightarrow> step st st'"
    and again_rank: "body e st = Again st' \<Longrightarrow> rank cgInvalidEventID st' < rank e st"
begin

lemma ecc_loop_total: "\<exists>st'. ecc_loop body e st = Some st' \<and> step st st'"
proof (induction "rank e st" arbitrary: e st rule: less_induct)
  case less
  show ?case
  proof (cases "body e st")
    case (Return st')
    then show ?thesis
      using return_step ecc_loop_Return by metis
  next
    case (Again st')
    then obtain st'' where "ecc_loop body cgInvalidEventID st' = Some st''" "step st' st''"
      using less again_rank by blast
    then show ?thesis
      using Again again_step step_trans ecc_loop_Again by metis
  qed
qed

end

text \<open>A sequence of events handled one after the other.\<close>

fun exec_all :: "(TEventID \<Rightarrow> 'st \<Rightarrow> 'st option) \<Rightarrow> TEventID list \<Rightarrow> 'st \<Rightarrow> 'st option" where
  "exec_all exec [] st = Some st"
| "exec_all exec (e # es) st =
     (case exec e st of None \<Rightarrow> None | Some st' \<Rightarrow> exec_all exec es st')"

section \<open>The contract of a block\<close>

locale fb_class =
  fixes vt :: "'a CFunctionBlock_scheme vtable"
    and sp :: SFBInterfaceSpec
  assumes read_base: "base (vt_readInputData vt env ei s) = base s"
    and read_counts: "mEventMonitorCount (vt_readInputData vt env ei s) = mEventMonitorCount s"
    and read_con: "n < getNumDOs sp \<Longrightarrow>
      con_value (vt_getDOConUnchecked vt) n (vt_readInputData vt env ei s) =
      con_value (vt_getDOConUnchecked vt) n s"
    and count_con: "n < getNumDOs sp \<Longrightarrow>
      con_value (vt_getDOConUnchecked vt) n (count_event i s) =
      con_value (vt_getDOConUnchecked vt) n s"
    and exec: "mInterfaceSpec s = sp \<Longrightarrow>
      \<exists>st'. vt_executeEvent vt ei (s, ex) = Some st' \<and>
        fb_step (vt_getDOConUnchecked vt) (s, ex) st'"
    and out_base: "n < getNumDOs sp \<Longrightarrow> base (wr (the (vt_getDO vt n)) v s) = base s"
    and out_counts: "n < getNumDOs sp \<Longrightarrow>
      mEventMonitorCount (wr (the (vt_getDO vt n)) v s) = mEventMonitorCount s"
    and out_con: "n < getNumDOs sp \<Longrightarrow> m < getNumDOs sp \<Longrightarrow>
      con_value (vt_getDOConUnchecked vt) m (wr (the (vt_getDO vt n)) v s) =
      con_value (vt_getDOConUnchecked vt) m s"
    and out_get: "n < getNumDOs sp \<Longrightarrow> m < getNumDOs sp \<Longrightarrow>
      rd (the (vt_getDO vt m)) (wr (the (vt_getDO vt n)) v s) =
      (if m = n then v else rd (the (vt_getDO vt m)) s)"
begin

lemma reset_step:
  assumes "mInterfaceSpec s = sp" "k \<le> getNumDOs sp"
  defines "s' \<equiv> fold (resetForcedOutput vt) [0..<k] s"
  shows "base s' = base s \<and> mEventMonitorCount s' = mEventMonitorCount s \<and>
    (\<forall>m < getNumDOs sp. con_value (vt_getDOConUnchecked vt) m s' =
                        con_value (vt_getDOConUnchecked vt) m s) \<and>
    (\<forall>m < k. isForced (getNumDIs sp + m) s \<longrightarrow>
       rd (the (vt_getDO vt m)) s' = mValue (con_value (vt_getDOConUnchecked vt) m s))"
  unfolding s'_def using assms(2)
proof (induction k)
  case (Suc k)
  define t where "t = fold (resetForcedOutput vt) [0..<k] s"
  have t: "base t = base s" "mEventMonitorCount t = mEventMonitorCount s"
    "m < getNumDOs sp \<Longrightarrow> con_value (vt_getDOConUnchecked vt) m t =
       con_value (vt_getDOConUnchecked vt) m s"
    "m < k \<Longrightarrow> isForced (getNumDIs sp + m) s \<Longrightarrow>
       rd (the (vt_getDO vt m)) t = mValue (con_value (vt_getDOConUnchecked vt) m s)" for m
    using Suc by (simp_all add: t_def)
  have k: "k < getNumDOs sp" using Suc.prems by simp
  have sp_t: "mInterfaceSpec t = sp"
    using base_eqD(1) [OF t(1)] assms(1) by simp
  have f: "isForced n t = isForced n s" for n
    using base_eqD(7) [OF t(1)] .
  have u: "fold (resetForcedOutput vt) [0..<Suc k] s = resetForcedOutput vt k t"
    by (simp add: t_def)
  show ?case
    unfolding u
    using t k sp_t f
    by (auto simp: resetForcedOutput_def setValueSimple_def out_base out_counts out_con out_get
        Let_def less_Suc_eq)
qed simp

lemma resetForcedOutputs_keeps:
  assumes "mInterfaceSpec s = sp"
  shows "base (resetForcedOutputs vt s) = base s"
    and "mEventMonitorCount (resetForcedOutputs vt s) = mEventMonitorCount s"
    and "m < getNumDOs sp \<Longrightarrow> con_value (vt_getDOConUnchecked vt) m (resetForcedOutputs vt s) =
      con_value (vt_getDOConUnchecked vt) m s"
    and "m < getNumDOs sp \<Longrightarrow> isForced (getNumDIs sp + m) s \<Longrightarrow>
      rd (the (vt_getDO vt m)) (resetForcedOutputs vt s) =
      mValue (con_value (vt_getDOConUnchecked vt) m s)"
  using reset_step [OF assms order.refl] assms by (simp_all add: resetForcedOutputs_def)

text \<open>Every event is handled: the call returns, with the base state kept, the thread's list only
  extended, the event counted, and forced outputs frozen.\<close>

lemma receive_total:
  assumes "mInterfaceSpec s = sp" "counts_ok s"
  shows "\<exists>s' es. receiveInputEvent vt env ei (s, ex) =
      Some (s', map_option (fold addEventEntry es) ex) \<and>
    base s' = base s \<and> counts_ok s' \<and>
    (mFBState s \<noteq> Running \<longrightarrow> s' = s \<and> es = []) \<and>
    (mFBState s = Running \<longrightarrow> ei < getNumEIs sp \<longrightarrow>
       ei_counts s' = (ei_counts s)[ei := ei_counts s ! ei + 1]) \<and>
    (mFBState s = Running \<longrightarrow> \<not> ei < getNumEIs sp \<longrightarrow> ei_counts s' = ei_counts s) \<and>
    (\<forall>n < getNumDOs sp. isForced (getNumDIs sp + n) s \<longrightarrow>
       con_value (vt_getDOConUnchecked vt) n s' = con_value (vt_getDOConUnchecked vt) n s \<and>
       (mFBState s = Running \<longrightarrow>
         rd (the (vt_getDO vt n)) s' = mValue (con_value (vt_getDOConUnchecked vt) n s)))"
proof (cases "mFBState s = Running")
  case False
  have "receiveInputEvent vt env ei (s, ex) = Some (s, map_option (fold addEventEntry []) ex)"
    using False by (cases ex) (simp_all add: receiveInputEvent_def)
  then show ?thesis
    using False assms by (intro exI [of _ s] exI [of _ "[]"]) simp
next
  case True
  define s1 where "s1 = (if ei < getNumEIs sp then count_event ei (vt_readInputData vt env ei s) else s)"
  have b1: "base s1 = base s"
    by (simp add: s1_def read_base)
  have s1: "mInterfaceSpec s1 = sp" "counts_ok s1" "isForced n s1 = isForced n s" for n
    using base_eqD(1,7) [OF b1] assms
    by (auto simp: s1_def counts_ok_def read_counts base_eqD(1) [OF read_base] split: if_splits)
  have c1: "ei_counts s1 = (if ei < getNumEIs sp then (ei_counts s)[ei := ei_counts s ! ei + 1]
      else ei_counts s)"
    using assms by (simp add: s1_def ei_counts_def read_counts base_eqD(1) [OF read_base]
        take_update_swap)
  have k1: "n < getNumDOs sp \<Longrightarrow> con_value (vt_getDOConUnchecked vt) n s1 =
      con_value (vt_getDOConUnchecked vt) n s" for n
    by (simp add: s1_def count_con read_con)
  obtain s2 ex2 where e: "vt_executeEvent vt ei (s1, ex) = Some (s2, ex2)"
    and st: "fb_step (vt_getDOConUnchecked vt) (s1, ex) (s2, ex2)"
    using exec [OF s1(1)] by (metis surj_pair)
  then obtain es where es: "ex2 = map_option (fold addEventEntry es) ex" and b2: "base s2 = base s1"
    and f2: "forced_kept (vt_getDOConUnchecked vt) s1 s2"
    and c2: "counts_ok s2" "ei_counts s2 = ei_counts s1"
    using s1(2) by (auto simp: fb_step_def)
  have s2: "mInterfaceSpec s2 = sp" "isForced n s2 = isForced n s" for n
    using base_eqD(1,7) [OF b2] s1 by simp_all
  have k2: "n < getNumDOs sp \<Longrightarrow> isForced (getNumDIs sp + n) s \<Longrightarrow>
      con_value (vt_getDOConUnchecked vt) n s2 = con_value (vt_getDOConUnchecked vt) n s" for n
    using f2 k1 s1 by (simp add: forced_kept_def)
  define s3 where "s3 = (if True \<in> set (mForces s2) then resetForcedOutputs vt s2 else s2)"
  note keep = resetForcedOutputs_keeps [OF s2(1)]
  have any: "isForced n s \<Longrightarrow> True \<in> set (mForces s2)" for n
    using base_eqD(2) [OF b2] base_eqD(2) [OF b1] nth_mem [of n "mForces s"]
    by (auto simp: isForced_def)
  have b3: "base s3 = base s" and c3: "counts_ok s3" "ei_counts s3 = ei_counts s1"
    using keep(1,2) b1 b2 c2 base_eqD(1) [OF keep(1)]
    by (auto simp: s3_def counts_ok_def ei_counts_def)
  have "receiveInputEvent vt env ei (s, ex) = Some (s3, map_option (fold addEventEntry es) ex)"
    using True e es assms by (simp add: receiveInputEvent_def s1_def s3_def Let_def)
  moreover have "\<forall>n < getNumDOs sp. isForced (getNumDIs sp + n) s \<longrightarrow>
      con_value (vt_getDOConUnchecked vt) n s3 = con_value (vt_getDOConUnchecked vt) n s \<and>
      rd (the (vt_getDO vt n)) s3 = mValue (con_value (vt_getDOConUnchecked vt) n s)"
    using any keep(3,4) k2 s2 by (auto simp: s3_def)
  ultimately show ?thesis
    using True b3 c3 c1 by (intro exI [of _ s3] exI [of _ es]) simp
qed

end

end
