(* ===== verification/FB_Counters.thy ===== *)
theory FB_Counters
imports FB_Class
begin

text \<open>
  The event driven counters of the standard library, \<open>stdfblib/events\<close>: up, down and up-down counters
  over UINT and UDINT.  The definitions of a block are its interface, its members, its
  constructor, one definition per method, and the loop body of its state machine; the lemmas
  establish the block's contract with the base class, which the interpretations \<open>..._class\<close>
  discharge.
\<close>

section \<open>E CTU\<close>

text \<open>\<open>stdfblib/events/src/E_CTU_fbt.cpp\<close>\<close>

abbreviation (input) E_CTU_scmStateSTART :: "16 word" where "E_CTU_scmStateSTART \<equiv> 0"
abbreviation (input) E_CTU_scmStateCU :: "16 word" where "E_CTU_scmStateCU \<equiv> 1"
abbreviation (input) E_CTU_scmStateR :: "16 word" where "E_CTU_scmStateR \<equiv> 2"
abbreviation (input) E_CTU_scmEventCUID :: TEventID where "E_CTU_scmEventCUID \<equiv> 0"
abbreviation (input) E_CTU_scmEventRID :: TEventID where "E_CTU_scmEventRID \<equiv> 1"
abbreviation (input) E_CTU_scmEventCUOID :: TEventID where "E_CTU_scmEventCUOID \<equiv> 0"
abbreviation (input) E_CTU_scmEventROID :: TEventID where "E_CTU_scmEventROID \<equiv> 1"

definition E_CTU_cFBInterfaceSpec :: "SFBInterfaceSpec" where
  "E_CTU_cFBInterfaceSpec =
     \<lparr>mEINames = [Some ''CU'', Some ''R''],
      mEITypeNames = [Some ''Event'', Some ''Event''],
      mEONames = [Some ''CUO'', Some ''RO''],
      mEOTypeNames = [Some ''Event'', Some ''Event''],
      mDINames = [Some ''PV''],
      mDONames = [Some ''Q'', Some ''CV''],
      mDIONames = [],
      mSocketNames = [],
      mPlugNames = []\<rparr>"

record E_CTU = CBasicFB +
  E_CTU_var_PV :: cell
  E_CTU_var_Q :: cell
  E_CTU_var_CV :: cell
  E_CTU_conn_CUO :: CEventConnection
  E_CTU_conn_RO :: CEventConnection
  E_CTU_conn_PV :: "conn_id option"
  E_CTU_conn_Q :: COutDataConnection
  E_CTU_conn_CV :: COutDataConnection

definition FORTE_E_CTU :: "nat \<Rightarrow> E_CTU" where
  "FORTE_E_CTU this =
     \<lparr>mInterfaceSpec = E_CTU_cFBInterfaceSpec, mEventMonitorCount = [],
      mForces = replicate cgMaxSupportedForceIndex False, mFBState = Idle,
      mInputEventConnectionCount = None, mConnRefCount = 0, mDeletable = True, mECCState = 0,
      E_CTU_var_PV = 0,
      E_CTU_var_Q = 0,
      E_CTU_var_CV = 0,
      E_CTU_conn_CUO = \<lparr>mSourceId = \<lparr>mFB = this, mPortId = 0\<rparr>, mDestinationIds = []\<rparr>,
      E_CTU_conn_RO = \<lparr>mSourceId = \<lparr>mFB = this, mPortId = 1\<rparr>, mDestinationIds = []\<rparr>,
      E_CTU_conn_PV = None,
      E_CTU_conn_Q = \<lparr>dc_mSourceId = \<lparr>mFB = this, mPortId = 0\<rparr>, mValue = 0\<rparr>,
      E_CTU_conn_CV = \<lparr>dc_mSourceId = \<lparr>mFB = this, mPortId = 1\<rparr>, mValue = 0\<rparr>\<rparr>"

definition E_CTU_setInitialValues :: "E_CTU \<Rightarrow> E_CTU" where
  "E_CTU_setInitialValues s =
     (CBasicFB_setInitialValues s)
       \<lparr>E_CTU_var_PV := setTUINT16 0, E_CTU_var_Q := setTBOOL8 False, E_CTU_var_CV := setTUINT16 0\<rparr>"

definition E_CTU_getDI :: "TPortId \<Rightarrow> (E_CTU, cell) ref option" where
  "E_CTU_getDI i =
     (if i = 0 then Some (Ref E_CTU_var_PV (\<lambda>v. E_CTU_var_PV_update (\<lambda>_. v)))
      else None)"

definition E_CTU_getDO :: "TPortId \<Rightarrow> (E_CTU, cell) ref option" where
  "E_CTU_getDO i =
     (if i = 0 then Some (Ref E_CTU_var_Q (\<lambda>v. E_CTU_var_Q_update (\<lambda>_. v)))
      else if i = 1 then Some (Ref E_CTU_var_CV (\<lambda>v. E_CTU_var_CV_update (\<lambda>_. v)))
      else None)"

definition E_CTU_getEOConUnchecked :: "TPortId \<Rightarrow> (E_CTU, CEventConnection) ref option" where
  "E_CTU_getEOConUnchecked i =
     (if i = 0 then Some (Ref E_CTU_conn_CUO (\<lambda>v. E_CTU_conn_CUO_update (\<lambda>_. v)))
      else if i = 1 then Some (Ref E_CTU_conn_RO (\<lambda>v. E_CTU_conn_RO_update (\<lambda>_. v)))
      else None)"

definition E_CTU_getDIConUnchecked :: "TPortId \<Rightarrow> (E_CTU, conn_id option) ref option" where
  "E_CTU_getDIConUnchecked i =
     (if i = 0 then Some (Ref E_CTU_conn_PV (\<lambda>v. E_CTU_conn_PV_update (\<lambda>_. v)))
      else None)"

definition E_CTU_getDOConUnchecked :: "TPortId \<Rightarrow> (E_CTU, COutDataConnection) ref option" where
  "E_CTU_getDOConUnchecked i =
     (if i = 0 then Some (Ref E_CTU_conn_Q (\<lambda>v. E_CTU_conn_Q_update (\<lambda>_. v)))
      else if i = 1 then Some (Ref E_CTU_conn_CV (\<lambda>v. E_CTU_conn_CV_update (\<lambda>_. v)))
      else None)"

definition E_CTU_readInputData :: "(conn_id \<Rightarrow> cell) \<Rightarrow> TEventID \<Rightarrow> E_CTU \<Rightarrow> E_CTU" where
  "E_CTU_readInputData env paEIID s =
     (if paEIID = E_CTU_scmEventCUID then
        (let s = readData env 0 (Ref E_CTU_var_PV (\<lambda>v. E_CTU_var_PV_update (\<lambda>_. v))) (E_CTU_conn_PV s) s in s)
      else s)"

definition E_CTU_writeOutputData :: "TEventID \<Rightarrow> E_CTU \<Rightarrow> E_CTU" where
  "E_CTU_writeOutputData paEO s =
     (if paEO = E_CTU_scmEventCUOID then
        (let s = writeData (getNumDIs E_CTU_cFBInterfaceSpec + 0) (E_CTU_var_Q s)
            (Ref E_CTU_conn_Q (\<lambda>v. E_CTU_conn_Q_update (\<lambda>_. v))) s in 
         let s = writeData (getNumDIs E_CTU_cFBInterfaceSpec + 1) (E_CTU_var_CV s)
            (Ref E_CTU_conn_CV (\<lambda>v. E_CTU_conn_CV_update (\<lambda>_. v))) s in s)
      else if paEO = E_CTU_scmEventROID then
        (let s = writeData (getNumDIs E_CTU_cFBInterfaceSpec + 0) (E_CTU_var_Q s)
            (Ref E_CTU_conn_Q (\<lambda>v. E_CTU_conn_Q_update (\<lambda>_. v))) s in 
         let s = writeData (getNumDIs E_CTU_cFBInterfaceSpec + 1) (E_CTU_var_CV s)
            (Ref E_CTU_conn_CV (\<lambda>v. E_CTU_conn_CV_update (\<lambda>_. v))) s in s)
      else s)"

definition E_CTU_alg_R :: "E_CTU \<Rightarrow> E_CTU" where
  "E_CTU_alg_R s =
     (let s = s\<lparr>E_CTU_var_CV := setTUINT16 0\<rparr> in
      let s = s\<lparr>E_CTU_var_Q := setTBOOL8 False\<rparr> in
      s)"

definition E_CTU_alg_CU :: "E_CTU \<Rightarrow> E_CTU" where
  "E_CTU_alg_CU s =
     (let s = s\<lparr>E_CTU_var_CV := func_ADD_UINT (E_CTU_var_CV s) (setTUINT16 1)\<rparr> in
      let s = s\<lparr>E_CTU_var_Q := setTBOOL8 (func_GE_UINT (E_CTU_var_CV s) (E_CTU_var_PV s))\<rparr> in
      s)"

definition E_CTU_enterStateSTART :: "E_CTU \<times> ecet option \<Rightarrow> E_CTU \<times> ecet option" where
  "E_CTU_enterStateSTART st =
     (let st = apfst (mECCState_update (\<lambda>_. E_CTU_scmStateSTART)) st in
      st)"

definition E_CTU_enterStateCU :: "E_CTU \<times> ecet option \<Rightarrow> E_CTU \<times> ecet option" where
  "E_CTU_enterStateCU st =
     (let st = apfst (mECCState_update (\<lambda>_. E_CTU_scmStateCU)) st in
      let st = apfst E_CTU_alg_CU st in
      let st = sendOutputEvent E_CTU_writeOutputData E_CTU_getEOConUnchecked E_CTU_scmEventCUOID st in
      st)"

definition E_CTU_enterStateR :: "E_CTU \<times> ecet option \<Rightarrow> E_CTU \<times> ecet option" where
  "E_CTU_enterStateR st =
     (let st = apfst (mECCState_update (\<lambda>_. E_CTU_scmStateR)) st in
      let st = apfst E_CTU_alg_R st in
      let st = sendOutputEvent E_CTU_writeOutputData E_CTU_getEOConUnchecked E_CTU_scmEventROID st in
      st)"

definition E_CTU_ecc :: "TEventID \<Rightarrow> E_CTU \<times> ecet option \<Rightarrow> (E_CTU \<times> ecet option) ecc" where
  "E_CTU_ecc paEIID st =
     (let s = fst st in
       if mECCState s = E_CTU_scmStateSTART then
         (if paEIID = E_CTU_scmEventCUID \<and> func_LT_UINT (E_CTU_var_CV s) (setTUINT16 65535)
          then Again (E_CTU_enterStateCU st)
          else if paEIID = E_CTU_scmEventRID
          then Again (E_CTU_enterStateR st)
          else Return st)
       else if mECCState s = E_CTU_scmStateCU then
         (Again (E_CTU_enterStateSTART st))
       else if mECCState s = E_CTU_scmStateR then
         (Again (E_CTU_enterStateSTART st))
       else Return (apfst (mECCState_update (\<lambda>_. 0)) st))"

definition E_CTU_executeEvent :: "TEventID \<Rightarrow> E_CTU \<times> ecet option \<Rightarrow> (E_CTU \<times> ecet option) option" where
  "E_CTU_executeEvent = ecc_loop E_CTU_ecc"

definition E_CTU_vtable :: "E_CTU vtable" where
  "E_CTU_vtable =
     \<lparr>vt_getDI = E_CTU_getDI, vt_getDO = E_CTU_getDO, vt_getDIO = (\<lambda>_. None),
      vt_DItype = (\<lambda>i. if i = 0 then e_UINT else e_ANY),
      vt_DOtype = (\<lambda>i. if i = 0 then e_BOOL else if i = 1 then e_UINT else e_ANY),
      vt_getEOConUnchecked = E_CTU_getEOConUnchecked,
      vt_getDIConUnchecked = E_CTU_getDIConUnchecked, vt_getDOConUnchecked = E_CTU_getDOConUnchecked,
      vt_executeEvent = E_CTU_executeEvent, vt_readInputData = E_CTU_readInputData,
      vt_writeOutputData = E_CTU_writeOutputData, vt_setInitialValues = E_CTU_setInitialValues\<rparr>"

definition E_CTU_evt_CU :: "(conn_id \<Rightarrow> cell) \<Rightarrow> cell \<Rightarrow> E_CTU \<Rightarrow> (E_CTU \<times> cell \<times> cell) option" where
  "E_CTU_evt_CU env paPV s =
     map_option (\<lambda>(s, _). (s, E_CTU_var_Q s, E_CTU_var_CV s))
       (receiveInputEvent E_CTU_vtable env E_CTU_scmEventCUID (s\<lparr>E_CTU_var_PV := paPV\<rparr>, None))"

definition E_CTU_evt_R :: "(conn_id \<Rightarrow> cell) \<Rightarrow> cell \<Rightarrow> E_CTU \<Rightarrow> (E_CTU \<times> cell \<times> cell) option" where
  "E_CTU_evt_R env paPV s =
     map_option (\<lambda>(s, _). (s, E_CTU_var_Q s, E_CTU_var_CV s))
       (receiveInputEvent E_CTU_vtable env E_CTU_scmEventRID (s\<lparr>E_CTU_var_PV := paPV\<rparr>, None))"

lemmas E_CTU_pins = E_CTU_getDI_def E_CTU_getDO_def E_CTU_getEOConUnchecked_def E_CTU_getDIConUnchecked_def
  E_CTU_getDOConUnchecked_def

lemmas E_CTU_algs = E_CTU_alg_R_def E_CTU_alg_CU_def

lemmas E_CTU_states = E_CTU_enterStateSTART_def
  E_CTU_enterStateCU_def
  E_CTU_enterStateR_def

lemma E_CTU_con_count:
  "con_value E_CTU_getDOConUnchecked n (count_event i s) = con_value E_CTU_getDOConUnchecked n s" if "n < getNumDOs E_CTU_cFBInterfaceSpec"
  using that by (auto simp: E_CTU_getDOConUnchecked_def E_CTU_cFBInterfaceSpec_def count_event_def)

lemma E_CTU_write_frame:
  "base (E_CTU_writeOutputData eo s) = base s"
  "mEventMonitorCount (E_CTU_writeOutputData eo s) = mEventMonitorCount s"
  "mECCState (E_CTU_writeOutputData eo s) = mECCState s"
  "E_CTU_var_PV (E_CTU_writeOutputData eo s) = E_CTU_var_PV s"
  "E_CTU_var_Q (E_CTU_writeOutputData eo s) = E_CTU_var_Q s"
  "E_CTU_var_CV (E_CTU_writeOutputData eo s) = E_CTU_var_CV s"
  "E_CTU_conn_CUO (E_CTU_writeOutputData eo s) = E_CTU_conn_CUO s"
  "E_CTU_conn_RO (E_CTU_writeOutputData eo s) = E_CTU_conn_RO s"
  "E_CTU_conn_PV (E_CTU_writeOutputData eo s) = E_CTU_conn_PV s"
  by (simp_all add: E_CTU_writeOutputData_def writeData_def base_def isForced_def Let_def)

lemma E_CTU_writeData_forced:
  "forced_in E_CTU_cFBInterfaceSpec E_CTU_getDOConUnchecked s s' \<Longrightarrow>
   forced_in E_CTU_cFBInterfaceSpec E_CTU_getDOConUnchecked s
     (writeData (getNumDIs E_CTU_cFBInterfaceSpec + 0) v
       (Ref E_CTU_conn_Q (\<lambda>v. E_CTU_conn_Q_update (\<lambda>_. v))) s')"
  "forced_in E_CTU_cFBInterfaceSpec E_CTU_getDOConUnchecked s s' \<Longrightarrow>
   forced_in E_CTU_cFBInterfaceSpec E_CTU_getDOConUnchecked s
     (writeData (getNumDIs E_CTU_cFBInterfaceSpec + 1) v
       (Ref E_CTU_conn_CV (\<lambda>v. E_CTU_conn_CV_update (\<lambda>_. v))) s')"
  by (rule forced_in_writeData;
      auto simp: E_CTU_getDOConUnchecked_def E_CTU_cFBInterfaceSpec_def base_def less_Suc_eq)+

lemma E_CTU_write_forced:
  "mInterfaceSpec s = E_CTU_cFBInterfaceSpec \<Longrightarrow>
   forced_kept E_CTU_getDOConUnchecked s (E_CTU_writeOutputData eo s)"
  unfolding E_CTU_writeOutputData_def Let_def
  by (intro forced_inD [of E_CTU_cFBInterfaceSpec] forced_in_if E_CTU_writeData_forced forced_in_refl)

lemma E_CTU_send_step [fb_steps]:
  "fb_step_in E_CTU_cFBInterfaceSpec E_CTU_getDOConUnchecked st st' \<Longrightarrow>
   fb_step_in E_CTU_cFBInterfaceSpec E_CTU_getDOConUnchecked st (sendOutputEvent E_CTU_writeOutputData geo eo st')"
  by (rule fb_step_in_send [OF E_CTU_write_frame(1,2) E_CTU_write_forced E_CTU_con_count]) assumption+

lemma E_CTU_send_fields [fb_fields]:
  "mECCState (fst (sendOutputEvent E_CTU_writeOutputData geo eo st)) = mECCState (fst st)"
  "E_CTU_var_PV (fst (sendOutputEvent E_CTU_writeOutputData geo eo st)) = E_CTU_var_PV (fst st)"
  "E_CTU_var_Q (fst (sendOutputEvent E_CTU_writeOutputData geo eo st)) = E_CTU_var_Q (fst st)"
  "E_CTU_var_CV (fst (sendOutputEvent E_CTU_writeOutputData geo eo st)) = E_CTU_var_CV (fst st)"
  "E_CTU_conn_CUO (fst (sendOutputEvent E_CTU_writeOutputData geo eo st)) = E_CTU_conn_CUO (fst st)"
  "E_CTU_conn_RO (fst (sendOutputEvent E_CTU_writeOutputData geo eo st)) = E_CTU_conn_RO (fst st)"
  "E_CTU_conn_PV (fst (sendOutputEvent E_CTU_writeOutputData geo eo st)) = E_CTU_conn_PV (fst st)"
  by (rule sendOutputEvent_field; simp add: E_CTU_write_frame count_event_def)+

lemma E_CTU_local_step [fb_steps]:
  "fb_step_in E_CTU_cFBInterfaceSpec E_CTU_getDOConUnchecked st st' \<Longrightarrow>
   fb_step_in E_CTU_cFBInterfaceSpec E_CTU_getDOConUnchecked st (apfst (mECCState_update (\<lambda>_. v)) st')"
  "fb_step_in E_CTU_cFBInterfaceSpec E_CTU_getDOConUnchecked st st' \<Longrightarrow>
   fb_step_in E_CTU_cFBInterfaceSpec E_CTU_getDOConUnchecked st (apfst (E_CTU_alg_R) st')"
  "fb_step_in E_CTU_cFBInterfaceSpec E_CTU_getDOConUnchecked st st' \<Longrightarrow>
   fb_step_in E_CTU_cFBInterfaceSpec E_CTU_getDOConUnchecked st (apfst (E_CTU_alg_CU) st')"
  by (rule fb_step_in_local;
      simp add: base_def E_CTU_cFBInterfaceSpec_def E_CTU_getDOConUnchecked_def E_CTU_algs Let_def)+

lemma E_CTU_enter_ECC [fb_fields]:
  "mECCState (fst (E_CTU_enterStateSTART st)) = E_CTU_scmStateSTART"
  "mECCState (fst (E_CTU_enterStateCU st)) = E_CTU_scmStateCU"
  "mECCState (fst (E_CTU_enterStateR st)) = E_CTU_scmStateR"
  by (simp_all add: E_CTU_states fb_fields E_CTU_algs Let_def)

lemma E_CTU_sizes [simp]:
  "length (mEINames E_CTU_cFBInterfaceSpec) = 2" "length (mEONames E_CTU_cFBInterfaceSpec) = 2"
  "length (mDINames E_CTU_cFBInterfaceSpec) = 1" "length (mDONames E_CTU_cFBInterfaceSpec) = 2"
  by (simp_all add: E_CTU_cFBInterfaceSpec_def)

lemma E_CTU_ecc_step:
  "E_CTU_ecc e st = Return st' \<or> E_CTU_ecc e st = Again st' \<Longrightarrow>
   fb_step_in E_CTU_cFBInterfaceSpec E_CTU_getDOConUnchecked st st'"
  by (auto simp: E_CTU_ecc_def E_CTU_states Let_def fb_steps split: if_splits)

text \<open>Passes left before the loop of \<open>E-CTU\<close> returns.\<close>

definition E_CTU_rank :: "TEventID \<Rightarrow> E_CTU \<times> ecet option \<Rightarrow> nat" where
  "E_CTU_rank e st =
     (if e \<noteq> cgInvalidEventID then 2
      else if mECCState (fst st) = E_CTU_scmStateCU then 1
      else if mECCState (fst st) = E_CTU_scmStateR then 1
      else 0)"

lemma E_CTU_ecc_rank:
  "E_CTU_ecc e st = Again st' \<Longrightarrow> E_CTU_rank cgInvalidEventID st' < E_CTU_rank e st"
  by (auto simp: E_CTU_ecc_def E_CTU_rank_def cgInvalidEventID_def cgInvalidPortId_def
      Let_def fb_fields split: if_splits)

interpretation E_CTU_loop: ecc_machine E_CTU_ecc
  "fb_step_in E_CTU_cFBInterfaceSpec E_CTU_getDOConUnchecked" E_CTU_rank
  by unfold_locales (simp | blast intro: fb_step_in_trans E_CTU_ecc_step E_CTU_ecc_rank)+

interpretation E_CTU_class: fb_class E_CTU_vtable E_CTU_cFBInterfaceSpec
proof (unfold_locales, goal_cases)
  case (5 s ei ex)
  then show ?case
    using E_CTU_loop.ecc_loop_total [of ei "(s, ex)"]
    by (auto simp: E_CTU_vtable_def E_CTU_executeEvent_def fb_step_in_def)
qed (auto simp: E_CTU_vtable_def E_CTU_readInputData_def readData_def E_CTU_getDO_def
    E_CTU_getDOConUnchecked_def E_CTU_cFBInterfaceSpec_def base_def isForced_def count_event_def Let_def
    split: option.splits)

section \<open>E CTD\<close>

text \<open>\<open>stdfblib/events/src/E_CTD_fbt.cpp\<close>\<close>

abbreviation (input) E_CTD_scmStateSTART :: "16 word" where "E_CTD_scmStateSTART \<equiv> 0"
abbreviation (input) E_CTD_scmStateCD :: "16 word" where "E_CTD_scmStateCD \<equiv> 1"
abbreviation (input) E_CTD_scmStateLD :: "16 word" where "E_CTD_scmStateLD \<equiv> 2"
abbreviation (input) E_CTD_scmEventCDID :: TEventID where "E_CTD_scmEventCDID \<equiv> 0"
abbreviation (input) E_CTD_scmEventLDID :: TEventID where "E_CTD_scmEventLDID \<equiv> 1"
abbreviation (input) E_CTD_scmEventCDOID :: TEventID where "E_CTD_scmEventCDOID \<equiv> 0"
abbreviation (input) E_CTD_scmEventLDOID :: TEventID where "E_CTD_scmEventLDOID \<equiv> 1"

definition E_CTD_cFBInterfaceSpec :: "SFBInterfaceSpec" where
  "E_CTD_cFBInterfaceSpec =
     \<lparr>mEINames = [Some ''CD'', Some ''LD''],
      mEITypeNames = [Some ''Event'', Some ''Event''],
      mEONames = [Some ''CDO'', Some ''LDO''],
      mEOTypeNames = [Some ''Event'', Some ''Event''],
      mDINames = [Some ''PV''],
      mDONames = [Some ''Q'', Some ''CV''],
      mDIONames = [],
      mSocketNames = [],
      mPlugNames = []\<rparr>"

record E_CTD = CBasicFB +
  E_CTD_var_PV :: cell
  E_CTD_var_Q :: cell
  E_CTD_var_CV :: cell
  E_CTD_conn_CDO :: CEventConnection
  E_CTD_conn_LDO :: CEventConnection
  E_CTD_conn_PV :: "conn_id option"
  E_CTD_conn_Q :: COutDataConnection
  E_CTD_conn_CV :: COutDataConnection

definition FORTE_E_CTD :: "nat \<Rightarrow> E_CTD" where
  "FORTE_E_CTD this =
     \<lparr>mInterfaceSpec = E_CTD_cFBInterfaceSpec, mEventMonitorCount = [],
      mForces = replicate cgMaxSupportedForceIndex False, mFBState = Idle,
      mInputEventConnectionCount = None, mConnRefCount = 0, mDeletable = True, mECCState = 0,
      E_CTD_var_PV = 0,
      E_CTD_var_Q = 0,
      E_CTD_var_CV = 0,
      E_CTD_conn_CDO = \<lparr>mSourceId = \<lparr>mFB = this, mPortId = 0\<rparr>, mDestinationIds = []\<rparr>,
      E_CTD_conn_LDO = \<lparr>mSourceId = \<lparr>mFB = this, mPortId = 1\<rparr>, mDestinationIds = []\<rparr>,
      E_CTD_conn_PV = None,
      E_CTD_conn_Q = \<lparr>dc_mSourceId = \<lparr>mFB = this, mPortId = 0\<rparr>, mValue = 0\<rparr>,
      E_CTD_conn_CV = \<lparr>dc_mSourceId = \<lparr>mFB = this, mPortId = 1\<rparr>, mValue = 0\<rparr>\<rparr>"

definition E_CTD_setInitialValues :: "E_CTD \<Rightarrow> E_CTD" where
  "E_CTD_setInitialValues s =
     (CBasicFB_setInitialValues s)
       \<lparr>E_CTD_var_PV := setTUINT16 0, E_CTD_var_Q := setTBOOL8 False, E_CTD_var_CV := setTUINT16 0\<rparr>"

definition E_CTD_getDI :: "TPortId \<Rightarrow> (E_CTD, cell) ref option" where
  "E_CTD_getDI i =
     (if i = 0 then Some (Ref E_CTD_var_PV (\<lambda>v. E_CTD_var_PV_update (\<lambda>_. v)))
      else None)"

definition E_CTD_getDO :: "TPortId \<Rightarrow> (E_CTD, cell) ref option" where
  "E_CTD_getDO i =
     (if i = 0 then Some (Ref E_CTD_var_Q (\<lambda>v. E_CTD_var_Q_update (\<lambda>_. v)))
      else if i = 1 then Some (Ref E_CTD_var_CV (\<lambda>v. E_CTD_var_CV_update (\<lambda>_. v)))
      else None)"

definition E_CTD_getEOConUnchecked :: "TPortId \<Rightarrow> (E_CTD, CEventConnection) ref option" where
  "E_CTD_getEOConUnchecked i =
     (if i = 0 then Some (Ref E_CTD_conn_CDO (\<lambda>v. E_CTD_conn_CDO_update (\<lambda>_. v)))
      else if i = 1 then Some (Ref E_CTD_conn_LDO (\<lambda>v. E_CTD_conn_LDO_update (\<lambda>_. v)))
      else None)"

definition E_CTD_getDIConUnchecked :: "TPortId \<Rightarrow> (E_CTD, conn_id option) ref option" where
  "E_CTD_getDIConUnchecked i =
     (if i = 0 then Some (Ref E_CTD_conn_PV (\<lambda>v. E_CTD_conn_PV_update (\<lambda>_. v)))
      else None)"

definition E_CTD_getDOConUnchecked :: "TPortId \<Rightarrow> (E_CTD, COutDataConnection) ref option" where
  "E_CTD_getDOConUnchecked i =
     (if i = 0 then Some (Ref E_CTD_conn_Q (\<lambda>v. E_CTD_conn_Q_update (\<lambda>_. v)))
      else if i = 1 then Some (Ref E_CTD_conn_CV (\<lambda>v. E_CTD_conn_CV_update (\<lambda>_. v)))
      else None)"

definition E_CTD_readInputData :: "(conn_id \<Rightarrow> cell) \<Rightarrow> TEventID \<Rightarrow> E_CTD \<Rightarrow> E_CTD" where
  "E_CTD_readInputData env paEIID s =
     (if paEIID = E_CTD_scmEventLDID then
        (let s = readData env 0 (Ref E_CTD_var_PV (\<lambda>v. E_CTD_var_PV_update (\<lambda>_. v))) (E_CTD_conn_PV s) s in s)
      else s)"

definition E_CTD_writeOutputData :: "TEventID \<Rightarrow> E_CTD \<Rightarrow> E_CTD" where
  "E_CTD_writeOutputData paEO s =
     (if paEO = E_CTD_scmEventCDOID then
        (let s = writeData (getNumDIs E_CTD_cFBInterfaceSpec + 0) (E_CTD_var_Q s)
            (Ref E_CTD_conn_Q (\<lambda>v. E_CTD_conn_Q_update (\<lambda>_. v))) s in 
         let s = writeData (getNumDIs E_CTD_cFBInterfaceSpec + 1) (E_CTD_var_CV s)
            (Ref E_CTD_conn_CV (\<lambda>v. E_CTD_conn_CV_update (\<lambda>_. v))) s in s)
      else if paEO = E_CTD_scmEventLDOID then
        (let s = writeData (getNumDIs E_CTD_cFBInterfaceSpec + 0) (E_CTD_var_Q s)
            (Ref E_CTD_conn_Q (\<lambda>v. E_CTD_conn_Q_update (\<lambda>_. v))) s in 
         let s = writeData (getNumDIs E_CTD_cFBInterfaceSpec + 1) (E_CTD_var_CV s)
            (Ref E_CTD_conn_CV (\<lambda>v. E_CTD_conn_CV_update (\<lambda>_. v))) s in s)
      else s)"

definition E_CTD_alg_CD :: "E_CTD \<Rightarrow> E_CTD" where
  "E_CTD_alg_CD s =
     (let s = s\<lparr>E_CTD_var_CV := func_SUB_UINT (E_CTD_var_CV s) (setTUINT16 1)\<rparr> in
      let s = s\<lparr>E_CTD_var_Q := setTBOOL8 (func_EQ_UINT (E_CTD_var_CV s) (setTUINT16 0))\<rparr> in
      s)"

definition E_CTD_alg_LOAD :: "E_CTD \<Rightarrow> E_CTD" where
  "E_CTD_alg_LOAD s =
     (let s = s\<lparr>E_CTD_var_CV := E_CTD_var_PV s\<rparr> in
      let s = s\<lparr>E_CTD_var_Q := setTBOOL8 (func_EQ_UINT (E_CTD_var_CV s) (setTUINT16 0))\<rparr> in
      s)"

definition E_CTD_enterStateSTART :: "E_CTD \<times> ecet option \<Rightarrow> E_CTD \<times> ecet option" where
  "E_CTD_enterStateSTART st =
     (let st = apfst (mECCState_update (\<lambda>_. E_CTD_scmStateSTART)) st in
      st)"

definition E_CTD_enterStateCD :: "E_CTD \<times> ecet option \<Rightarrow> E_CTD \<times> ecet option" where
  "E_CTD_enterStateCD st =
     (let st = apfst (mECCState_update (\<lambda>_. E_CTD_scmStateCD)) st in
      let st = apfst E_CTD_alg_CD st in
      let st = sendOutputEvent E_CTD_writeOutputData E_CTD_getEOConUnchecked E_CTD_scmEventCDOID st in
      st)"

definition E_CTD_enterStateLD :: "E_CTD \<times> ecet option \<Rightarrow> E_CTD \<times> ecet option" where
  "E_CTD_enterStateLD st =
     (let st = apfst (mECCState_update (\<lambda>_. E_CTD_scmStateLD)) st in
      let st = apfst E_CTD_alg_LOAD st in
      let st = sendOutputEvent E_CTD_writeOutputData E_CTD_getEOConUnchecked E_CTD_scmEventLDOID st in
      st)"

definition E_CTD_ecc :: "TEventID \<Rightarrow> E_CTD \<times> ecet option \<Rightarrow> (E_CTD \<times> ecet option) ecc" where
  "E_CTD_ecc paEIID st =
     (let s = fst st in
       if mECCState s = E_CTD_scmStateSTART then
         (if paEIID = E_CTD_scmEventCDID \<and> func_GT_UINT (E_CTD_var_CV s) (setTUINT16 0)
          then Again (E_CTD_enterStateCD st)
          else if paEIID = E_CTD_scmEventLDID
          then Again (E_CTD_enterStateLD st)
          else Return st)
       else if mECCState s = E_CTD_scmStateCD then
         (Again (E_CTD_enterStateSTART st))
       else if mECCState s = E_CTD_scmStateLD then
         (Again (E_CTD_enterStateSTART st))
       else Return (apfst (mECCState_update (\<lambda>_. 0)) st))"

definition E_CTD_executeEvent :: "TEventID \<Rightarrow> E_CTD \<times> ecet option \<Rightarrow> (E_CTD \<times> ecet option) option" where
  "E_CTD_executeEvent = ecc_loop E_CTD_ecc"

definition E_CTD_vtable :: "E_CTD vtable" where
  "E_CTD_vtable =
     \<lparr>vt_getDI = E_CTD_getDI, vt_getDO = E_CTD_getDO, vt_getDIO = (\<lambda>_. None),
      vt_DItype = (\<lambda>i. if i = 0 then e_UINT else e_ANY),
      vt_DOtype = (\<lambda>i. if i = 0 then e_BOOL else if i = 1 then e_UINT else e_ANY),
      vt_getEOConUnchecked = E_CTD_getEOConUnchecked,
      vt_getDIConUnchecked = E_CTD_getDIConUnchecked, vt_getDOConUnchecked = E_CTD_getDOConUnchecked,
      vt_executeEvent = E_CTD_executeEvent, vt_readInputData = E_CTD_readInputData,
      vt_writeOutputData = E_CTD_writeOutputData, vt_setInitialValues = E_CTD_setInitialValues\<rparr>"

definition E_CTD_evt_CD :: "(conn_id \<Rightarrow> cell) \<Rightarrow> cell \<Rightarrow> E_CTD \<Rightarrow> (E_CTD \<times> cell \<times> cell) option" where
  "E_CTD_evt_CD env paPV s =
     map_option (\<lambda>(s, _). (s, E_CTD_var_Q s, E_CTD_var_CV s))
       (receiveInputEvent E_CTD_vtable env E_CTD_scmEventCDID (s\<lparr>E_CTD_var_PV := paPV\<rparr>, None))"

definition E_CTD_evt_LD :: "(conn_id \<Rightarrow> cell) \<Rightarrow> cell \<Rightarrow> E_CTD \<Rightarrow> (E_CTD \<times> cell \<times> cell) option" where
  "E_CTD_evt_LD env paPV s =
     map_option (\<lambda>(s, _). (s, E_CTD_var_Q s, E_CTD_var_CV s))
       (receiveInputEvent E_CTD_vtable env E_CTD_scmEventLDID (s\<lparr>E_CTD_var_PV := paPV\<rparr>, None))"

lemmas E_CTD_pins = E_CTD_getDI_def E_CTD_getDO_def E_CTD_getEOConUnchecked_def E_CTD_getDIConUnchecked_def
  E_CTD_getDOConUnchecked_def

lemmas E_CTD_algs = E_CTD_alg_CD_def E_CTD_alg_LOAD_def

lemmas E_CTD_states = E_CTD_enterStateSTART_def
  E_CTD_enterStateCD_def
  E_CTD_enterStateLD_def

lemma E_CTD_con_count:
  "con_value E_CTD_getDOConUnchecked n (count_event i s) = con_value E_CTD_getDOConUnchecked n s" if "n < getNumDOs E_CTD_cFBInterfaceSpec"
  using that by (auto simp: E_CTD_getDOConUnchecked_def E_CTD_cFBInterfaceSpec_def count_event_def)

lemma E_CTD_write_frame:
  "base (E_CTD_writeOutputData eo s) = base s"
  "mEventMonitorCount (E_CTD_writeOutputData eo s) = mEventMonitorCount s"
  "mECCState (E_CTD_writeOutputData eo s) = mECCState s"
  "E_CTD_var_PV (E_CTD_writeOutputData eo s) = E_CTD_var_PV s"
  "E_CTD_var_Q (E_CTD_writeOutputData eo s) = E_CTD_var_Q s"
  "E_CTD_var_CV (E_CTD_writeOutputData eo s) = E_CTD_var_CV s"
  "E_CTD_conn_CDO (E_CTD_writeOutputData eo s) = E_CTD_conn_CDO s"
  "E_CTD_conn_LDO (E_CTD_writeOutputData eo s) = E_CTD_conn_LDO s"
  "E_CTD_conn_PV (E_CTD_writeOutputData eo s) = E_CTD_conn_PV s"
  by (simp_all add: E_CTD_writeOutputData_def writeData_def base_def isForced_def Let_def)

lemma E_CTD_writeData_forced:
  "forced_in E_CTD_cFBInterfaceSpec E_CTD_getDOConUnchecked s s' \<Longrightarrow>
   forced_in E_CTD_cFBInterfaceSpec E_CTD_getDOConUnchecked s
     (writeData (getNumDIs E_CTD_cFBInterfaceSpec + 0) v
       (Ref E_CTD_conn_Q (\<lambda>v. E_CTD_conn_Q_update (\<lambda>_. v))) s')"
  "forced_in E_CTD_cFBInterfaceSpec E_CTD_getDOConUnchecked s s' \<Longrightarrow>
   forced_in E_CTD_cFBInterfaceSpec E_CTD_getDOConUnchecked s
     (writeData (getNumDIs E_CTD_cFBInterfaceSpec + 1) v
       (Ref E_CTD_conn_CV (\<lambda>v. E_CTD_conn_CV_update (\<lambda>_. v))) s')"
  by (rule forced_in_writeData;
      auto simp: E_CTD_getDOConUnchecked_def E_CTD_cFBInterfaceSpec_def base_def less_Suc_eq)+

lemma E_CTD_write_forced:
  "mInterfaceSpec s = E_CTD_cFBInterfaceSpec \<Longrightarrow>
   forced_kept E_CTD_getDOConUnchecked s (E_CTD_writeOutputData eo s)"
  unfolding E_CTD_writeOutputData_def Let_def
  by (intro forced_inD [of E_CTD_cFBInterfaceSpec] forced_in_if E_CTD_writeData_forced forced_in_refl)

lemma E_CTD_send_step [fb_steps]:
  "fb_step_in E_CTD_cFBInterfaceSpec E_CTD_getDOConUnchecked st st' \<Longrightarrow>
   fb_step_in E_CTD_cFBInterfaceSpec E_CTD_getDOConUnchecked st (sendOutputEvent E_CTD_writeOutputData geo eo st')"
  by (rule fb_step_in_send [OF E_CTD_write_frame(1,2) E_CTD_write_forced E_CTD_con_count]) assumption+

lemma E_CTD_send_fields [fb_fields]:
  "mECCState (fst (sendOutputEvent E_CTD_writeOutputData geo eo st)) = mECCState (fst st)"
  "E_CTD_var_PV (fst (sendOutputEvent E_CTD_writeOutputData geo eo st)) = E_CTD_var_PV (fst st)"
  "E_CTD_var_Q (fst (sendOutputEvent E_CTD_writeOutputData geo eo st)) = E_CTD_var_Q (fst st)"
  "E_CTD_var_CV (fst (sendOutputEvent E_CTD_writeOutputData geo eo st)) = E_CTD_var_CV (fst st)"
  "E_CTD_conn_CDO (fst (sendOutputEvent E_CTD_writeOutputData geo eo st)) = E_CTD_conn_CDO (fst st)"
  "E_CTD_conn_LDO (fst (sendOutputEvent E_CTD_writeOutputData geo eo st)) = E_CTD_conn_LDO (fst st)"
  "E_CTD_conn_PV (fst (sendOutputEvent E_CTD_writeOutputData geo eo st)) = E_CTD_conn_PV (fst st)"
  by (rule sendOutputEvent_field; simp add: E_CTD_write_frame count_event_def)+

lemma E_CTD_local_step [fb_steps]:
  "fb_step_in E_CTD_cFBInterfaceSpec E_CTD_getDOConUnchecked st st' \<Longrightarrow>
   fb_step_in E_CTD_cFBInterfaceSpec E_CTD_getDOConUnchecked st (apfst (mECCState_update (\<lambda>_. v)) st')"
  "fb_step_in E_CTD_cFBInterfaceSpec E_CTD_getDOConUnchecked st st' \<Longrightarrow>
   fb_step_in E_CTD_cFBInterfaceSpec E_CTD_getDOConUnchecked st (apfst (E_CTD_alg_CD) st')"
  "fb_step_in E_CTD_cFBInterfaceSpec E_CTD_getDOConUnchecked st st' \<Longrightarrow>
   fb_step_in E_CTD_cFBInterfaceSpec E_CTD_getDOConUnchecked st (apfst (E_CTD_alg_LOAD) st')"
  by (rule fb_step_in_local;
      simp add: base_def E_CTD_cFBInterfaceSpec_def E_CTD_getDOConUnchecked_def E_CTD_algs Let_def)+

lemma E_CTD_enter_ECC [fb_fields]:
  "mECCState (fst (E_CTD_enterStateSTART st)) = E_CTD_scmStateSTART"
  "mECCState (fst (E_CTD_enterStateCD st)) = E_CTD_scmStateCD"
  "mECCState (fst (E_CTD_enterStateLD st)) = E_CTD_scmStateLD"
  by (simp_all add: E_CTD_states fb_fields E_CTD_algs Let_def)

lemma E_CTD_sizes [simp]:
  "length (mEINames E_CTD_cFBInterfaceSpec) = 2" "length (mEONames E_CTD_cFBInterfaceSpec) = 2"
  "length (mDINames E_CTD_cFBInterfaceSpec) = 1" "length (mDONames E_CTD_cFBInterfaceSpec) = 2"
  by (simp_all add: E_CTD_cFBInterfaceSpec_def)

lemma E_CTD_ecc_step:
  "E_CTD_ecc e st = Return st' \<or> E_CTD_ecc e st = Again st' \<Longrightarrow>
   fb_step_in E_CTD_cFBInterfaceSpec E_CTD_getDOConUnchecked st st'"
  by (auto simp: E_CTD_ecc_def E_CTD_states Let_def fb_steps split: if_splits)

text \<open>Passes left before the loop of \<open>E-CTD\<close> returns.\<close>

definition E_CTD_rank :: "TEventID \<Rightarrow> E_CTD \<times> ecet option \<Rightarrow> nat" where
  "E_CTD_rank e st =
     (if e \<noteq> cgInvalidEventID then 2
      else if mECCState (fst st) = E_CTD_scmStateCD then 1
      else if mECCState (fst st) = E_CTD_scmStateLD then 1
      else 0)"

lemma E_CTD_ecc_rank:
  "E_CTD_ecc e st = Again st' \<Longrightarrow> E_CTD_rank cgInvalidEventID st' < E_CTD_rank e st"
  by (auto simp: E_CTD_ecc_def E_CTD_rank_def cgInvalidEventID_def cgInvalidPortId_def
      Let_def fb_fields split: if_splits)

interpretation E_CTD_loop: ecc_machine E_CTD_ecc
  "fb_step_in E_CTD_cFBInterfaceSpec E_CTD_getDOConUnchecked" E_CTD_rank
  by unfold_locales (simp | blast intro: fb_step_in_trans E_CTD_ecc_step E_CTD_ecc_rank)+

interpretation E_CTD_class: fb_class E_CTD_vtable E_CTD_cFBInterfaceSpec
proof (unfold_locales, goal_cases)
  case (5 s ei ex)
  then show ?case
    using E_CTD_loop.ecc_loop_total [of ei "(s, ex)"]
    by (auto simp: E_CTD_vtable_def E_CTD_executeEvent_def fb_step_in_def)
qed (auto simp: E_CTD_vtable_def E_CTD_readInputData_def readData_def E_CTD_getDO_def
    E_CTD_getDOConUnchecked_def E_CTD_cFBInterfaceSpec_def base_def isForced_def count_event_def Let_def
    split: option.splits)

section \<open>E CTUD\<close>

text \<open>\<open>stdfblib/events/src/E_CTUD_fbt.cpp\<close>\<close>

abbreviation (input) E_CTUD_scmStateSTART :: "16 word" where "E_CTUD_scmStateSTART \<equiv> 0"
abbreviation (input) E_CTUD_scmStateCU :: "16 word" where "E_CTUD_scmStateCU \<equiv> 1"
abbreviation (input) E_CTUD_scmStateR :: "16 word" where "E_CTUD_scmStateR \<equiv> 2"
abbreviation (input) E_CTUD_scmStateCD :: "16 word" where "E_CTUD_scmStateCD \<equiv> 3"
abbreviation (input) E_CTUD_scmStateLD :: "16 word" where "E_CTUD_scmStateLD \<equiv> 4"
abbreviation (input) E_CTUD_scmEventCUID :: TEventID where "E_CTUD_scmEventCUID \<equiv> 0"
abbreviation (input) E_CTUD_scmEventCDID :: TEventID where "E_CTUD_scmEventCDID \<equiv> 1"
abbreviation (input) E_CTUD_scmEventRID :: TEventID where "E_CTUD_scmEventRID \<equiv> 2"
abbreviation (input) E_CTUD_scmEventLDID :: TEventID where "E_CTUD_scmEventLDID \<equiv> 3"
abbreviation (input) E_CTUD_scmEventCOID :: TEventID where "E_CTUD_scmEventCOID \<equiv> 0"
abbreviation (input) E_CTUD_scmEventROID :: TEventID where "E_CTUD_scmEventROID \<equiv> 1"
abbreviation (input) E_CTUD_scmEventLDOID :: TEventID where "E_CTUD_scmEventLDOID \<equiv> 2"

definition E_CTUD_cFBInterfaceSpec :: "SFBInterfaceSpec" where
  "E_CTUD_cFBInterfaceSpec =
     \<lparr>mEINames = [Some ''CU'', Some ''CD'', Some ''R'', Some ''LD''],
      mEITypeNames = [Some ''Event'', Some ''Event'', Some ''Event'', Some ''Event''],
      mEONames = [Some ''CO'', Some ''RO'', Some ''LDO''],
      mEOTypeNames = [Some ''Event'', Some ''Event'', Some ''Event''],
      mDINames = [Some ''PV''],
      mDONames = [Some ''QU'', Some ''QD'', Some ''CV''],
      mDIONames = [],
      mSocketNames = [],
      mPlugNames = []\<rparr>"

record E_CTUD = CBasicFB +
  E_CTUD_var_PV :: cell
  E_CTUD_var_QU :: cell
  E_CTUD_var_QD :: cell
  E_CTUD_var_CV :: cell
  E_CTUD_conn_CO :: CEventConnection
  E_CTUD_conn_RO :: CEventConnection
  E_CTUD_conn_LDO :: CEventConnection
  E_CTUD_conn_PV :: "conn_id option"
  E_CTUD_conn_QU :: COutDataConnection
  E_CTUD_conn_QD :: COutDataConnection
  E_CTUD_conn_CV :: COutDataConnection

definition FORTE_E_CTUD :: "nat \<Rightarrow> E_CTUD" where
  "FORTE_E_CTUD this =
     \<lparr>mInterfaceSpec = E_CTUD_cFBInterfaceSpec, mEventMonitorCount = [],
      mForces = replicate cgMaxSupportedForceIndex False, mFBState = Idle,
      mInputEventConnectionCount = None, mConnRefCount = 0, mDeletable = True, mECCState = 0,
      E_CTUD_var_PV = 0,
      E_CTUD_var_QU = 0,
      E_CTUD_var_QD = 0,
      E_CTUD_var_CV = 0,
      E_CTUD_conn_CO = \<lparr>mSourceId = \<lparr>mFB = this, mPortId = 0\<rparr>, mDestinationIds = []\<rparr>,
      E_CTUD_conn_RO = \<lparr>mSourceId = \<lparr>mFB = this, mPortId = 1\<rparr>, mDestinationIds = []\<rparr>,
      E_CTUD_conn_LDO = \<lparr>mSourceId = \<lparr>mFB = this, mPortId = 2\<rparr>, mDestinationIds = []\<rparr>,
      E_CTUD_conn_PV = None,
      E_CTUD_conn_QU = \<lparr>dc_mSourceId = \<lparr>mFB = this, mPortId = 0\<rparr>, mValue = 0\<rparr>,
      E_CTUD_conn_QD = \<lparr>dc_mSourceId = \<lparr>mFB = this, mPortId = 1\<rparr>, mValue = 0\<rparr>,
      E_CTUD_conn_CV = \<lparr>dc_mSourceId = \<lparr>mFB = this, mPortId = 2\<rparr>, mValue = 0\<rparr>\<rparr>"

definition E_CTUD_setInitialValues :: "E_CTUD \<Rightarrow> E_CTUD" where
  "E_CTUD_setInitialValues s =
     (CBasicFB_setInitialValues s)
       \<lparr>E_CTUD_var_PV := setTUINT16 0, E_CTUD_var_QU := setTBOOL8 False, E_CTUD_var_QD := setTBOOL8 False, E_CTUD_var_CV := setTUINT16 0\<rparr>"

definition E_CTUD_getDI :: "TPortId \<Rightarrow> (E_CTUD, cell) ref option" where
  "E_CTUD_getDI i =
     (if i = 0 then Some (Ref E_CTUD_var_PV (\<lambda>v. E_CTUD_var_PV_update (\<lambda>_. v)))
      else None)"

definition E_CTUD_getDO :: "TPortId \<Rightarrow> (E_CTUD, cell) ref option" where
  "E_CTUD_getDO i =
     (if i = 0 then Some (Ref E_CTUD_var_QU (\<lambda>v. E_CTUD_var_QU_update (\<lambda>_. v)))
      else if i = 1 then Some (Ref E_CTUD_var_QD (\<lambda>v. E_CTUD_var_QD_update (\<lambda>_. v)))
      else if i = 2 then Some (Ref E_CTUD_var_CV (\<lambda>v. E_CTUD_var_CV_update (\<lambda>_. v)))
      else None)"

definition E_CTUD_getEOConUnchecked :: "TPortId \<Rightarrow> (E_CTUD, CEventConnection) ref option" where
  "E_CTUD_getEOConUnchecked i =
     (if i = 0 then Some (Ref E_CTUD_conn_CO (\<lambda>v. E_CTUD_conn_CO_update (\<lambda>_. v)))
      else if i = 1 then Some (Ref E_CTUD_conn_RO (\<lambda>v. E_CTUD_conn_RO_update (\<lambda>_. v)))
      else if i = 2 then Some (Ref E_CTUD_conn_LDO (\<lambda>v. E_CTUD_conn_LDO_update (\<lambda>_. v)))
      else None)"

definition E_CTUD_getDIConUnchecked :: "TPortId \<Rightarrow> (E_CTUD, conn_id option) ref option" where
  "E_CTUD_getDIConUnchecked i =
     (if i = 0 then Some (Ref E_CTUD_conn_PV (\<lambda>v. E_CTUD_conn_PV_update (\<lambda>_. v)))
      else None)"

definition E_CTUD_getDOConUnchecked :: "TPortId \<Rightarrow> (E_CTUD, COutDataConnection) ref option" where
  "E_CTUD_getDOConUnchecked i =
     (if i = 0 then Some (Ref E_CTUD_conn_QU (\<lambda>v. E_CTUD_conn_QU_update (\<lambda>_. v)))
      else if i = 1 then Some (Ref E_CTUD_conn_QD (\<lambda>v. E_CTUD_conn_QD_update (\<lambda>_. v)))
      else if i = 2 then Some (Ref E_CTUD_conn_CV (\<lambda>v. E_CTUD_conn_CV_update (\<lambda>_. v)))
      else None)"

definition E_CTUD_readInputData :: "(conn_id \<Rightarrow> cell) \<Rightarrow> TEventID \<Rightarrow> E_CTUD \<Rightarrow> E_CTUD" where
  "E_CTUD_readInputData env paEIID s =
     (if paEIID = E_CTUD_scmEventCUID then
        (let s = readData env 0 (Ref E_CTUD_var_PV (\<lambda>v. E_CTUD_var_PV_update (\<lambda>_. v))) (E_CTUD_conn_PV s) s in s)
      else if paEIID = E_CTUD_scmEventLDID then
        (let s = readData env 0 (Ref E_CTUD_var_PV (\<lambda>v. E_CTUD_var_PV_update (\<lambda>_. v))) (E_CTUD_conn_PV s) s in s)
      else s)"

definition E_CTUD_writeOutputData :: "TEventID \<Rightarrow> E_CTUD \<Rightarrow> E_CTUD" where
  "E_CTUD_writeOutputData paEO s =
     (if paEO = E_CTUD_scmEventCOID then
        (let s = writeData (getNumDIs E_CTUD_cFBInterfaceSpec + 0) (E_CTUD_var_QU s)
            (Ref E_CTUD_conn_QU (\<lambda>v. E_CTUD_conn_QU_update (\<lambda>_. v))) s in 
         let s = writeData (getNumDIs E_CTUD_cFBInterfaceSpec + 2) (E_CTUD_var_CV s)
            (Ref E_CTUD_conn_CV (\<lambda>v. E_CTUD_conn_CV_update (\<lambda>_. v))) s in 
         let s = writeData (getNumDIs E_CTUD_cFBInterfaceSpec + 1) (E_CTUD_var_QD s)
            (Ref E_CTUD_conn_QD (\<lambda>v. E_CTUD_conn_QD_update (\<lambda>_. v))) s in s)
      else if paEO = E_CTUD_scmEventROID then
        (let s = writeData (getNumDIs E_CTUD_cFBInterfaceSpec + 0) (E_CTUD_var_QU s)
            (Ref E_CTUD_conn_QU (\<lambda>v. E_CTUD_conn_QU_update (\<lambda>_. v))) s in 
         let s = writeData (getNumDIs E_CTUD_cFBInterfaceSpec + 2) (E_CTUD_var_CV s)
            (Ref E_CTUD_conn_CV (\<lambda>v. E_CTUD_conn_CV_update (\<lambda>_. v))) s in 
         let s = writeData (getNumDIs E_CTUD_cFBInterfaceSpec + 1) (E_CTUD_var_QD s)
            (Ref E_CTUD_conn_QD (\<lambda>v. E_CTUD_conn_QD_update (\<lambda>_. v))) s in s)
      else if paEO = E_CTUD_scmEventLDOID then
        (let s = writeData (getNumDIs E_CTUD_cFBInterfaceSpec + 0) (E_CTUD_var_QU s)
            (Ref E_CTUD_conn_QU (\<lambda>v. E_CTUD_conn_QU_update (\<lambda>_. v))) s in 
         let s = writeData (getNumDIs E_CTUD_cFBInterfaceSpec + 1) (E_CTUD_var_QD s)
            (Ref E_CTUD_conn_QD (\<lambda>v. E_CTUD_conn_QD_update (\<lambda>_. v))) s in 
         let s = writeData (getNumDIs E_CTUD_cFBInterfaceSpec + 2) (E_CTUD_var_CV s)
            (Ref E_CTUD_conn_CV (\<lambda>v. E_CTUD_conn_CV_update (\<lambda>_. v))) s in s)
      else s)"

definition E_CTUD_alg_CountUp :: "E_CTUD \<Rightarrow> E_CTUD" where
  "E_CTUD_alg_CountUp s =
     (let s = s\<lparr>E_CTUD_var_CV := func_ADD_UINT (E_CTUD_var_CV s) (setTUINT16 1)\<rparr> in
      s)"

definition E_CTUD_alg_Reset :: "E_CTUD \<Rightarrow> E_CTUD" where
  "E_CTUD_alg_Reset s =
     (let s = s\<lparr>E_CTUD_var_CV := setTUINT16 0\<rparr> in
      s)"

definition E_CTUD_alg_Load :: "E_CTUD \<Rightarrow> E_CTUD" where
  "E_CTUD_alg_Load s =
     (let s = s\<lparr>E_CTUD_var_CV := E_CTUD_var_PV s\<rparr> in
      s)"

definition E_CTUD_alg_UpdateQUQD :: "E_CTUD \<Rightarrow> E_CTUD" where
  "E_CTUD_alg_UpdateQUQD s =
     (let s = s\<lparr>E_CTUD_var_QU := setTBOOL8 (func_GE_UINT (E_CTUD_var_CV s) (E_CTUD_var_PV s))\<rparr> in
      let s = s\<lparr>E_CTUD_var_QD := setTBOOL8 (func_EQ_UINT (E_CTUD_var_CV s) (setTUINT16 0))\<rparr> in
      s)"

definition E_CTUD_alg_CountDown :: "E_CTUD \<Rightarrow> E_CTUD" where
  "E_CTUD_alg_CountDown s =
     (let s = s\<lparr>E_CTUD_var_CV := func_SUB_UINT (E_CTUD_var_CV s) (setTUINT16 1)\<rparr> in
      s)"

definition E_CTUD_enterStateSTART :: "E_CTUD \<times> ecet option \<Rightarrow> E_CTUD \<times> ecet option" where
  "E_CTUD_enterStateSTART st =
     (let st = apfst (mECCState_update (\<lambda>_. E_CTUD_scmStateSTART)) st in
      st)"

definition E_CTUD_enterStateCU :: "E_CTUD \<times> ecet option \<Rightarrow> E_CTUD \<times> ecet option" where
  "E_CTUD_enterStateCU st =
     (let st = apfst (mECCState_update (\<lambda>_. E_CTUD_scmStateCU)) st in
      let st = apfst E_CTUD_alg_CountUp st in
      let st = apfst E_CTUD_alg_UpdateQUQD st in
      let st = sendOutputEvent E_CTUD_writeOutputData E_CTUD_getEOConUnchecked E_CTUD_scmEventCOID st in
      st)"

definition E_CTUD_enterStateR :: "E_CTUD \<times> ecet option \<Rightarrow> E_CTUD \<times> ecet option" where
  "E_CTUD_enterStateR st =
     (let st = apfst (mECCState_update (\<lambda>_. E_CTUD_scmStateR)) st in
      let st = apfst E_CTUD_alg_Reset st in
      let st = apfst E_CTUD_alg_UpdateQUQD st in
      let st = sendOutputEvent E_CTUD_writeOutputData E_CTUD_getEOConUnchecked E_CTUD_scmEventROID st in
      st)"

definition E_CTUD_enterStateCD :: "E_CTUD \<times> ecet option \<Rightarrow> E_CTUD \<times> ecet option" where
  "E_CTUD_enterStateCD st =
     (let st = apfst (mECCState_update (\<lambda>_. E_CTUD_scmStateCD)) st in
      let st = apfst E_CTUD_alg_CountDown st in
      let st = apfst E_CTUD_alg_UpdateQUQD st in
      let st = sendOutputEvent E_CTUD_writeOutputData E_CTUD_getEOConUnchecked E_CTUD_scmEventCOID st in
      st)"

definition E_CTUD_enterStateLD :: "E_CTUD \<times> ecet option \<Rightarrow> E_CTUD \<times> ecet option" where
  "E_CTUD_enterStateLD st =
     (let st = apfst (mECCState_update (\<lambda>_. E_CTUD_scmStateLD)) st in
      let st = apfst E_CTUD_alg_Load st in
      let st = apfst E_CTUD_alg_UpdateQUQD st in
      let st = sendOutputEvent E_CTUD_writeOutputData E_CTUD_getEOConUnchecked E_CTUD_scmEventLDOID st in
      st)"

definition E_CTUD_ecc :: "TEventID \<Rightarrow> E_CTUD \<times> ecet option \<Rightarrow> (E_CTUD \<times> ecet option) ecc" where
  "E_CTUD_ecc paEIID st =
     (let s = fst st in
       if mECCState s = E_CTUD_scmStateSTART then
         (if paEIID = E_CTUD_scmEventCUID \<and> func_LT_UINT (E_CTUD_var_CV s) (setTUINT16 65535)
          then Again (E_CTUD_enterStateCU st)
          else if paEIID = E_CTUD_scmEventRID
          then Again (E_CTUD_enterStateR st)
          else if paEIID = E_CTUD_scmEventCDID \<and> func_GT_UINT (E_CTUD_var_CV s) (setTUINT16 0)
          then Again (E_CTUD_enterStateCD st)
          else if paEIID = E_CTUD_scmEventLDID
          then Again (E_CTUD_enterStateLD st)
          else Return st)
       else if mECCState s = E_CTUD_scmStateCU then
         (Again (E_CTUD_enterStateSTART st))
       else if mECCState s = E_CTUD_scmStateR then
         (Again (E_CTUD_enterStateSTART st))
       else if mECCState s = E_CTUD_scmStateCD then
         (Again (E_CTUD_enterStateSTART st))
       else if mECCState s = E_CTUD_scmStateLD then
         (Again (E_CTUD_enterStateSTART st))
       else Return (apfst (mECCState_update (\<lambda>_. 0)) st))"

definition E_CTUD_executeEvent :: "TEventID \<Rightarrow> E_CTUD \<times> ecet option \<Rightarrow> (E_CTUD \<times> ecet option) option" where
  "E_CTUD_executeEvent = ecc_loop E_CTUD_ecc"

definition E_CTUD_vtable :: "E_CTUD vtable" where
  "E_CTUD_vtable =
     \<lparr>vt_getDI = E_CTUD_getDI, vt_getDO = E_CTUD_getDO, vt_getDIO = (\<lambda>_. None),
      vt_DItype = (\<lambda>i. if i = 0 then e_UINT else e_ANY),
      vt_DOtype = (\<lambda>i. if i = 0 then e_BOOL else if i = 1 then e_BOOL else if i = 2 then e_UINT else e_ANY),
      vt_getEOConUnchecked = E_CTUD_getEOConUnchecked,
      vt_getDIConUnchecked = E_CTUD_getDIConUnchecked, vt_getDOConUnchecked = E_CTUD_getDOConUnchecked,
      vt_executeEvent = E_CTUD_executeEvent, vt_readInputData = E_CTUD_readInputData,
      vt_writeOutputData = E_CTUD_writeOutputData, vt_setInitialValues = E_CTUD_setInitialValues\<rparr>"

definition E_CTUD_evt_CU :: "(conn_id \<Rightarrow> cell) \<Rightarrow> cell \<Rightarrow> E_CTUD \<Rightarrow> (E_CTUD \<times> cell \<times> cell \<times> cell) option" where
  "E_CTUD_evt_CU env paPV s =
     map_option (\<lambda>(s, _). (s, E_CTUD_var_QU s, E_CTUD_var_QD s, E_CTUD_var_CV s))
       (receiveInputEvent E_CTUD_vtable env E_CTUD_scmEventCUID (s\<lparr>E_CTUD_var_PV := paPV\<rparr>, None))"

definition E_CTUD_evt_CD :: "(conn_id \<Rightarrow> cell) \<Rightarrow> cell \<Rightarrow> E_CTUD \<Rightarrow> (E_CTUD \<times> cell \<times> cell \<times> cell) option" where
  "E_CTUD_evt_CD env paPV s =
     map_option (\<lambda>(s, _). (s, E_CTUD_var_QU s, E_CTUD_var_QD s, E_CTUD_var_CV s))
       (receiveInputEvent E_CTUD_vtable env E_CTUD_scmEventCDID (s\<lparr>E_CTUD_var_PV := paPV\<rparr>, None))"

definition E_CTUD_evt_R :: "(conn_id \<Rightarrow> cell) \<Rightarrow> cell \<Rightarrow> E_CTUD \<Rightarrow> (E_CTUD \<times> cell \<times> cell \<times> cell) option" where
  "E_CTUD_evt_R env paPV s =
     map_option (\<lambda>(s, _). (s, E_CTUD_var_QU s, E_CTUD_var_QD s, E_CTUD_var_CV s))
       (receiveInputEvent E_CTUD_vtable env E_CTUD_scmEventRID (s\<lparr>E_CTUD_var_PV := paPV\<rparr>, None))"

definition E_CTUD_evt_LD :: "(conn_id \<Rightarrow> cell) \<Rightarrow> cell \<Rightarrow> E_CTUD \<Rightarrow> (E_CTUD \<times> cell \<times> cell \<times> cell) option" where
  "E_CTUD_evt_LD env paPV s =
     map_option (\<lambda>(s, _). (s, E_CTUD_var_QU s, E_CTUD_var_QD s, E_CTUD_var_CV s))
       (receiveInputEvent E_CTUD_vtable env E_CTUD_scmEventLDID (s\<lparr>E_CTUD_var_PV := paPV\<rparr>, None))"

lemmas E_CTUD_pins = E_CTUD_getDI_def E_CTUD_getDO_def E_CTUD_getEOConUnchecked_def E_CTUD_getDIConUnchecked_def
  E_CTUD_getDOConUnchecked_def

lemmas E_CTUD_algs = E_CTUD_alg_CountUp_def E_CTUD_alg_Reset_def E_CTUD_alg_Load_def E_CTUD_alg_UpdateQUQD_def E_CTUD_alg_CountDown_def

lemmas E_CTUD_states = E_CTUD_enterStateSTART_def
  E_CTUD_enterStateCU_def
  E_CTUD_enterStateR_def
  E_CTUD_enterStateCD_def
  E_CTUD_enterStateLD_def

lemma E_CTUD_con_count:
  "con_value E_CTUD_getDOConUnchecked n (count_event i s) = con_value E_CTUD_getDOConUnchecked n s" if "n < getNumDOs E_CTUD_cFBInterfaceSpec"
  using that by (auto simp: E_CTUD_getDOConUnchecked_def E_CTUD_cFBInterfaceSpec_def count_event_def)

lemma E_CTUD_write_frame:
  "base (E_CTUD_writeOutputData eo s) = base s"
  "mEventMonitorCount (E_CTUD_writeOutputData eo s) = mEventMonitorCount s"
  "mECCState (E_CTUD_writeOutputData eo s) = mECCState s"
  "E_CTUD_var_PV (E_CTUD_writeOutputData eo s) = E_CTUD_var_PV s"
  "E_CTUD_var_QU (E_CTUD_writeOutputData eo s) = E_CTUD_var_QU s"
  "E_CTUD_var_QD (E_CTUD_writeOutputData eo s) = E_CTUD_var_QD s"
  "E_CTUD_var_CV (E_CTUD_writeOutputData eo s) = E_CTUD_var_CV s"
  "E_CTUD_conn_CO (E_CTUD_writeOutputData eo s) = E_CTUD_conn_CO s"
  "E_CTUD_conn_RO (E_CTUD_writeOutputData eo s) = E_CTUD_conn_RO s"
  "E_CTUD_conn_LDO (E_CTUD_writeOutputData eo s) = E_CTUD_conn_LDO s"
  "E_CTUD_conn_PV (E_CTUD_writeOutputData eo s) = E_CTUD_conn_PV s"
  by (simp_all add: E_CTUD_writeOutputData_def writeData_def base_def isForced_def Let_def)

lemma E_CTUD_writeData_forced:
  "forced_in E_CTUD_cFBInterfaceSpec E_CTUD_getDOConUnchecked s s' \<Longrightarrow>
   forced_in E_CTUD_cFBInterfaceSpec E_CTUD_getDOConUnchecked s
     (writeData (getNumDIs E_CTUD_cFBInterfaceSpec + 0) v
       (Ref E_CTUD_conn_QU (\<lambda>v. E_CTUD_conn_QU_update (\<lambda>_. v))) s')"
  "forced_in E_CTUD_cFBInterfaceSpec E_CTUD_getDOConUnchecked s s' \<Longrightarrow>
   forced_in E_CTUD_cFBInterfaceSpec E_CTUD_getDOConUnchecked s
     (writeData (getNumDIs E_CTUD_cFBInterfaceSpec + 1) v
       (Ref E_CTUD_conn_QD (\<lambda>v. E_CTUD_conn_QD_update (\<lambda>_. v))) s')"
  "forced_in E_CTUD_cFBInterfaceSpec E_CTUD_getDOConUnchecked s s' \<Longrightarrow>
   forced_in E_CTUD_cFBInterfaceSpec E_CTUD_getDOConUnchecked s
     (writeData (getNumDIs E_CTUD_cFBInterfaceSpec + 2) v
       (Ref E_CTUD_conn_CV (\<lambda>v. E_CTUD_conn_CV_update (\<lambda>_. v))) s')"
  by (rule forced_in_writeData;
      auto simp: E_CTUD_getDOConUnchecked_def E_CTUD_cFBInterfaceSpec_def base_def less_Suc_eq)+

lemma E_CTUD_write_forced:
  "mInterfaceSpec s = E_CTUD_cFBInterfaceSpec \<Longrightarrow>
   forced_kept E_CTUD_getDOConUnchecked s (E_CTUD_writeOutputData eo s)"
  unfolding E_CTUD_writeOutputData_def Let_def
  by (intro forced_inD [of E_CTUD_cFBInterfaceSpec] forced_in_if E_CTUD_writeData_forced forced_in_refl)

lemma E_CTUD_send_step [fb_steps]:
  "fb_step_in E_CTUD_cFBInterfaceSpec E_CTUD_getDOConUnchecked st st' \<Longrightarrow>
   fb_step_in E_CTUD_cFBInterfaceSpec E_CTUD_getDOConUnchecked st (sendOutputEvent E_CTUD_writeOutputData geo eo st')"
  by (rule fb_step_in_send [OF E_CTUD_write_frame(1,2) E_CTUD_write_forced E_CTUD_con_count]) assumption+

lemma E_CTUD_send_fields [fb_fields]:
  "mECCState (fst (sendOutputEvent E_CTUD_writeOutputData geo eo st)) = mECCState (fst st)"
  "E_CTUD_var_PV (fst (sendOutputEvent E_CTUD_writeOutputData geo eo st)) = E_CTUD_var_PV (fst st)"
  "E_CTUD_var_QU (fst (sendOutputEvent E_CTUD_writeOutputData geo eo st)) = E_CTUD_var_QU (fst st)"
  "E_CTUD_var_QD (fst (sendOutputEvent E_CTUD_writeOutputData geo eo st)) = E_CTUD_var_QD (fst st)"
  "E_CTUD_var_CV (fst (sendOutputEvent E_CTUD_writeOutputData geo eo st)) = E_CTUD_var_CV (fst st)"
  "E_CTUD_conn_CO (fst (sendOutputEvent E_CTUD_writeOutputData geo eo st)) = E_CTUD_conn_CO (fst st)"
  "E_CTUD_conn_RO (fst (sendOutputEvent E_CTUD_writeOutputData geo eo st)) = E_CTUD_conn_RO (fst st)"
  "E_CTUD_conn_LDO (fst (sendOutputEvent E_CTUD_writeOutputData geo eo st)) = E_CTUD_conn_LDO (fst st)"
  "E_CTUD_conn_PV (fst (sendOutputEvent E_CTUD_writeOutputData geo eo st)) = E_CTUD_conn_PV (fst st)"
  by (rule sendOutputEvent_field; simp add: E_CTUD_write_frame count_event_def)+

lemma E_CTUD_local_step [fb_steps]:
  "fb_step_in E_CTUD_cFBInterfaceSpec E_CTUD_getDOConUnchecked st st' \<Longrightarrow>
   fb_step_in E_CTUD_cFBInterfaceSpec E_CTUD_getDOConUnchecked st (apfst (mECCState_update (\<lambda>_. v)) st')"
  "fb_step_in E_CTUD_cFBInterfaceSpec E_CTUD_getDOConUnchecked st st' \<Longrightarrow>
   fb_step_in E_CTUD_cFBInterfaceSpec E_CTUD_getDOConUnchecked st (apfst (E_CTUD_alg_CountUp) st')"
  "fb_step_in E_CTUD_cFBInterfaceSpec E_CTUD_getDOConUnchecked st st' \<Longrightarrow>
   fb_step_in E_CTUD_cFBInterfaceSpec E_CTUD_getDOConUnchecked st (apfst (E_CTUD_alg_Reset) st')"
  "fb_step_in E_CTUD_cFBInterfaceSpec E_CTUD_getDOConUnchecked st st' \<Longrightarrow>
   fb_step_in E_CTUD_cFBInterfaceSpec E_CTUD_getDOConUnchecked st (apfst (E_CTUD_alg_Load) st')"
  "fb_step_in E_CTUD_cFBInterfaceSpec E_CTUD_getDOConUnchecked st st' \<Longrightarrow>
   fb_step_in E_CTUD_cFBInterfaceSpec E_CTUD_getDOConUnchecked st (apfst (E_CTUD_alg_UpdateQUQD) st')"
  "fb_step_in E_CTUD_cFBInterfaceSpec E_CTUD_getDOConUnchecked st st' \<Longrightarrow>
   fb_step_in E_CTUD_cFBInterfaceSpec E_CTUD_getDOConUnchecked st (apfst (E_CTUD_alg_CountDown) st')"
  by (rule fb_step_in_local;
      simp add: base_def E_CTUD_cFBInterfaceSpec_def E_CTUD_getDOConUnchecked_def E_CTUD_algs Let_def)+

lemma E_CTUD_enter_ECC [fb_fields]:
  "mECCState (fst (E_CTUD_enterStateSTART st)) = E_CTUD_scmStateSTART"
  "mECCState (fst (E_CTUD_enterStateCU st)) = E_CTUD_scmStateCU"
  "mECCState (fst (E_CTUD_enterStateR st)) = E_CTUD_scmStateR"
  "mECCState (fst (E_CTUD_enterStateCD st)) = E_CTUD_scmStateCD"
  "mECCState (fst (E_CTUD_enterStateLD st)) = E_CTUD_scmStateLD"
  by (simp_all add: E_CTUD_states fb_fields E_CTUD_algs Let_def)

lemma E_CTUD_sizes [simp]:
  "length (mEINames E_CTUD_cFBInterfaceSpec) = 4" "length (mEONames E_CTUD_cFBInterfaceSpec) = 3"
  "length (mDINames E_CTUD_cFBInterfaceSpec) = 1" "length (mDONames E_CTUD_cFBInterfaceSpec) = 3"
  by (simp_all add: E_CTUD_cFBInterfaceSpec_def)

lemma E_CTUD_ecc_step:
  "E_CTUD_ecc e st = Return st' \<or> E_CTUD_ecc e st = Again st' \<Longrightarrow>
   fb_step_in E_CTUD_cFBInterfaceSpec E_CTUD_getDOConUnchecked st st'"
  by (auto simp: E_CTUD_ecc_def E_CTUD_states Let_def fb_steps split: if_splits)

text \<open>Passes left before the loop of \<open>E-CTUD\<close> returns.\<close>

definition E_CTUD_rank :: "TEventID \<Rightarrow> E_CTUD \<times> ecet option \<Rightarrow> nat" where
  "E_CTUD_rank e st =
     (if e \<noteq> cgInvalidEventID then 2
      else if mECCState (fst st) = E_CTUD_scmStateCD then 1
      else if mECCState (fst st) = E_CTUD_scmStateCU then 1
      else if mECCState (fst st) = E_CTUD_scmStateLD then 1
      else if mECCState (fst st) = E_CTUD_scmStateR then 1
      else 0)"

lemma E_CTUD_ecc_rank:
  "E_CTUD_ecc e st = Again st' \<Longrightarrow> E_CTUD_rank cgInvalidEventID st' < E_CTUD_rank e st"
  by (auto simp: E_CTUD_ecc_def E_CTUD_rank_def cgInvalidEventID_def cgInvalidPortId_def
      Let_def fb_fields split: if_splits)

interpretation E_CTUD_loop: ecc_machine E_CTUD_ecc
  "fb_step_in E_CTUD_cFBInterfaceSpec E_CTUD_getDOConUnchecked" E_CTUD_rank
  by unfold_locales (simp | blast intro: fb_step_in_trans E_CTUD_ecc_step E_CTUD_ecc_rank)+

interpretation E_CTUD_class: fb_class E_CTUD_vtable E_CTUD_cFBInterfaceSpec
proof (unfold_locales, goal_cases)
  case (5 s ei ex)
  then show ?case
    using E_CTUD_loop.ecc_loop_total [of ei "(s, ex)"]
    by (auto simp: E_CTUD_vtable_def E_CTUD_executeEvent_def fb_step_in_def)
qed (auto simp: E_CTUD_vtable_def E_CTUD_readInputData_def readData_def E_CTUD_getDO_def
    E_CTUD_getDOConUnchecked_def E_CTUD_cFBInterfaceSpec_def base_def isForced_def count_event_def Let_def
    split: option.splits)

section \<open>E CTUD UDINT\<close>

text \<open>\<open>stdfblib/events/src/E_CTUD_UDINT_fbt.cpp\<close>\<close>

abbreviation (input) E_CTUD_UDINT_scmStateSTART :: "16 word" where "E_CTUD_UDINT_scmStateSTART \<equiv> 0"
abbreviation (input) E_CTUD_UDINT_scmStateCU :: "16 word" where "E_CTUD_UDINT_scmStateCU \<equiv> 1"
abbreviation (input) E_CTUD_UDINT_scmStateR :: "16 word" where "E_CTUD_UDINT_scmStateR \<equiv> 2"
abbreviation (input) E_CTUD_UDINT_scmStateCD :: "16 word" where "E_CTUD_UDINT_scmStateCD \<equiv> 3"
abbreviation (input) E_CTUD_UDINT_scmStateLD :: "16 word" where "E_CTUD_UDINT_scmStateLD \<equiv> 4"
abbreviation (input) E_CTUD_UDINT_scmEventCUID :: TEventID where "E_CTUD_UDINT_scmEventCUID \<equiv> 0"
abbreviation (input) E_CTUD_UDINT_scmEventCDID :: TEventID where "E_CTUD_UDINT_scmEventCDID \<equiv> 1"
abbreviation (input) E_CTUD_UDINT_scmEventRID :: TEventID where "E_CTUD_UDINT_scmEventRID \<equiv> 2"
abbreviation (input) E_CTUD_UDINT_scmEventLDID :: TEventID where "E_CTUD_UDINT_scmEventLDID \<equiv> 3"
abbreviation (input) E_CTUD_UDINT_scmEventCOID :: TEventID where "E_CTUD_UDINT_scmEventCOID \<equiv> 0"
abbreviation (input) E_CTUD_UDINT_scmEventROID :: TEventID where "E_CTUD_UDINT_scmEventROID \<equiv> 1"
abbreviation (input) E_CTUD_UDINT_scmEventLDOID :: TEventID where "E_CTUD_UDINT_scmEventLDOID \<equiv> 2"

definition E_CTUD_UDINT_cFBInterfaceSpec :: "SFBInterfaceSpec" where
  "E_CTUD_UDINT_cFBInterfaceSpec =
     \<lparr>mEINames = [Some ''CU'', Some ''CD'', Some ''R'', Some ''LD''],
      mEITypeNames = [Some ''Event'', Some ''Event'', Some ''Event'', Some ''Event''],
      mEONames = [Some ''CO'', Some ''RO'', Some ''LDO''],
      mEOTypeNames = [Some ''Event'', Some ''Event'', Some ''Event''],
      mDINames = [Some ''PV''],
      mDONames = [Some ''QU'', Some ''QD'', Some ''CV''],
      mDIONames = [],
      mSocketNames = [],
      mPlugNames = []\<rparr>"

record E_CTUD_UDINT = CBasicFB +
  E_CTUD_UDINT_var_PV :: cell
  E_CTUD_UDINT_var_QU :: cell
  E_CTUD_UDINT_var_QD :: cell
  E_CTUD_UDINT_var_CV :: cell
  E_CTUD_UDINT_conn_CO :: CEventConnection
  E_CTUD_UDINT_conn_RO :: CEventConnection
  E_CTUD_UDINT_conn_LDO :: CEventConnection
  E_CTUD_UDINT_conn_PV :: "conn_id option"
  E_CTUD_UDINT_conn_QU :: COutDataConnection
  E_CTUD_UDINT_conn_QD :: COutDataConnection
  E_CTUD_UDINT_conn_CV :: COutDataConnection

definition FORTE_E_CTUD_UDINT :: "nat \<Rightarrow> E_CTUD_UDINT" where
  "FORTE_E_CTUD_UDINT this =
     \<lparr>mInterfaceSpec = E_CTUD_UDINT_cFBInterfaceSpec, mEventMonitorCount = [],
      mForces = replicate cgMaxSupportedForceIndex False, mFBState = Idle,
      mInputEventConnectionCount = None, mConnRefCount = 0, mDeletable = True, mECCState = 0,
      E_CTUD_UDINT_var_PV = 0,
      E_CTUD_UDINT_var_QU = 0,
      E_CTUD_UDINT_var_QD = 0,
      E_CTUD_UDINT_var_CV = 0,
      E_CTUD_UDINT_conn_CO = \<lparr>mSourceId = \<lparr>mFB = this, mPortId = 0\<rparr>, mDestinationIds = []\<rparr>,
      E_CTUD_UDINT_conn_RO = \<lparr>mSourceId = \<lparr>mFB = this, mPortId = 1\<rparr>, mDestinationIds = []\<rparr>,
      E_CTUD_UDINT_conn_LDO = \<lparr>mSourceId = \<lparr>mFB = this, mPortId = 2\<rparr>, mDestinationIds = []\<rparr>,
      E_CTUD_UDINT_conn_PV = None,
      E_CTUD_UDINT_conn_QU = \<lparr>dc_mSourceId = \<lparr>mFB = this, mPortId = 0\<rparr>, mValue = 0\<rparr>,
      E_CTUD_UDINT_conn_QD = \<lparr>dc_mSourceId = \<lparr>mFB = this, mPortId = 1\<rparr>, mValue = 0\<rparr>,
      E_CTUD_UDINT_conn_CV = \<lparr>dc_mSourceId = \<lparr>mFB = this, mPortId = 2\<rparr>, mValue = 0\<rparr>\<rparr>"

definition E_CTUD_UDINT_setInitialValues :: "E_CTUD_UDINT \<Rightarrow> E_CTUD_UDINT" where
  "E_CTUD_UDINT_setInitialValues s =
     (CBasicFB_setInitialValues s)
       \<lparr>E_CTUD_UDINT_var_PV := setTUINT32 0, E_CTUD_UDINT_var_QU := setTBOOL8 False, E_CTUD_UDINT_var_QD := setTBOOL8 False, E_CTUD_UDINT_var_CV := setTUINT32 0\<rparr>"

definition E_CTUD_UDINT_getDI :: "TPortId \<Rightarrow> (E_CTUD_UDINT, cell) ref option" where
  "E_CTUD_UDINT_getDI i =
     (if i = 0 then Some (Ref E_CTUD_UDINT_var_PV (\<lambda>v. E_CTUD_UDINT_var_PV_update (\<lambda>_. v)))
      else None)"

definition E_CTUD_UDINT_getDO :: "TPortId \<Rightarrow> (E_CTUD_UDINT, cell) ref option" where
  "E_CTUD_UDINT_getDO i =
     (if i = 0 then Some (Ref E_CTUD_UDINT_var_QU (\<lambda>v. E_CTUD_UDINT_var_QU_update (\<lambda>_. v)))
      else if i = 1 then Some (Ref E_CTUD_UDINT_var_QD (\<lambda>v. E_CTUD_UDINT_var_QD_update (\<lambda>_. v)))
      else if i = 2 then Some (Ref E_CTUD_UDINT_var_CV (\<lambda>v. E_CTUD_UDINT_var_CV_update (\<lambda>_. v)))
      else None)"

definition E_CTUD_UDINT_getEOConUnchecked :: "TPortId \<Rightarrow> (E_CTUD_UDINT, CEventConnection) ref option" where
  "E_CTUD_UDINT_getEOConUnchecked i =
     (if i = 0 then Some (Ref E_CTUD_UDINT_conn_CO (\<lambda>v. E_CTUD_UDINT_conn_CO_update (\<lambda>_. v)))
      else if i = 1 then Some (Ref E_CTUD_UDINT_conn_RO (\<lambda>v. E_CTUD_UDINT_conn_RO_update (\<lambda>_. v)))
      else if i = 2 then Some (Ref E_CTUD_UDINT_conn_LDO (\<lambda>v. E_CTUD_UDINT_conn_LDO_update (\<lambda>_. v)))
      else None)"

definition E_CTUD_UDINT_getDIConUnchecked :: "TPortId \<Rightarrow> (E_CTUD_UDINT, conn_id option) ref option" where
  "E_CTUD_UDINT_getDIConUnchecked i =
     (if i = 0 then Some (Ref E_CTUD_UDINT_conn_PV (\<lambda>v. E_CTUD_UDINT_conn_PV_update (\<lambda>_. v)))
      else None)"

definition E_CTUD_UDINT_getDOConUnchecked :: "TPortId \<Rightarrow> (E_CTUD_UDINT, COutDataConnection) ref option" where
  "E_CTUD_UDINT_getDOConUnchecked i =
     (if i = 0 then Some (Ref E_CTUD_UDINT_conn_QU (\<lambda>v. E_CTUD_UDINT_conn_QU_update (\<lambda>_. v)))
      else if i = 1 then Some (Ref E_CTUD_UDINT_conn_QD (\<lambda>v. E_CTUD_UDINT_conn_QD_update (\<lambda>_. v)))
      else if i = 2 then Some (Ref E_CTUD_UDINT_conn_CV (\<lambda>v. E_CTUD_UDINT_conn_CV_update (\<lambda>_. v)))
      else None)"

definition E_CTUD_UDINT_readInputData :: "(conn_id \<Rightarrow> cell) \<Rightarrow> TEventID \<Rightarrow> E_CTUD_UDINT \<Rightarrow> E_CTUD_UDINT" where
  "E_CTUD_UDINT_readInputData env paEIID s =
     (if paEIID = E_CTUD_UDINT_scmEventCUID then
        (let s = readData env 0 (Ref E_CTUD_UDINT_var_PV (\<lambda>v. E_CTUD_UDINT_var_PV_update (\<lambda>_. v))) (E_CTUD_UDINT_conn_PV s) s in s)
      else if paEIID = E_CTUD_UDINT_scmEventLDID then
        (let s = readData env 0 (Ref E_CTUD_UDINT_var_PV (\<lambda>v. E_CTUD_UDINT_var_PV_update (\<lambda>_. v))) (E_CTUD_UDINT_conn_PV s) s in s)
      else s)"

definition E_CTUD_UDINT_writeOutputData :: "TEventID \<Rightarrow> E_CTUD_UDINT \<Rightarrow> E_CTUD_UDINT" where
  "E_CTUD_UDINT_writeOutputData paEO s =
     (if paEO = E_CTUD_UDINT_scmEventCOID then
        (let s = writeData (getNumDIs E_CTUD_UDINT_cFBInterfaceSpec + 0) (E_CTUD_UDINT_var_QU s)
            (Ref E_CTUD_UDINT_conn_QU (\<lambda>v. E_CTUD_UDINT_conn_QU_update (\<lambda>_. v))) s in 
         let s = writeData (getNumDIs E_CTUD_UDINT_cFBInterfaceSpec + 2) (E_CTUD_UDINT_var_CV s)
            (Ref E_CTUD_UDINT_conn_CV (\<lambda>v. E_CTUD_UDINT_conn_CV_update (\<lambda>_. v))) s in 
         let s = writeData (getNumDIs E_CTUD_UDINT_cFBInterfaceSpec + 1) (E_CTUD_UDINT_var_QD s)
            (Ref E_CTUD_UDINT_conn_QD (\<lambda>v. E_CTUD_UDINT_conn_QD_update (\<lambda>_. v))) s in s)
      else if paEO = E_CTUD_UDINT_scmEventROID then
        (let s = writeData (getNumDIs E_CTUD_UDINT_cFBInterfaceSpec + 0) (E_CTUD_UDINT_var_QU s)
            (Ref E_CTUD_UDINT_conn_QU (\<lambda>v. E_CTUD_UDINT_conn_QU_update (\<lambda>_. v))) s in 
         let s = writeData (getNumDIs E_CTUD_UDINT_cFBInterfaceSpec + 2) (E_CTUD_UDINT_var_CV s)
            (Ref E_CTUD_UDINT_conn_CV (\<lambda>v. E_CTUD_UDINT_conn_CV_update (\<lambda>_. v))) s in 
         let s = writeData (getNumDIs E_CTUD_UDINT_cFBInterfaceSpec + 1) (E_CTUD_UDINT_var_QD s)
            (Ref E_CTUD_UDINT_conn_QD (\<lambda>v. E_CTUD_UDINT_conn_QD_update (\<lambda>_. v))) s in s)
      else if paEO = E_CTUD_UDINT_scmEventLDOID then
        (let s = writeData (getNumDIs E_CTUD_UDINT_cFBInterfaceSpec + 0) (E_CTUD_UDINT_var_QU s)
            (Ref E_CTUD_UDINT_conn_QU (\<lambda>v. E_CTUD_UDINT_conn_QU_update (\<lambda>_. v))) s in 
         let s = writeData (getNumDIs E_CTUD_UDINT_cFBInterfaceSpec + 1) (E_CTUD_UDINT_var_QD s)
            (Ref E_CTUD_UDINT_conn_QD (\<lambda>v. E_CTUD_UDINT_conn_QD_update (\<lambda>_. v))) s in 
         let s = writeData (getNumDIs E_CTUD_UDINT_cFBInterfaceSpec + 2) (E_CTUD_UDINT_var_CV s)
            (Ref E_CTUD_UDINT_conn_CV (\<lambda>v. E_CTUD_UDINT_conn_CV_update (\<lambda>_. v))) s in s)
      else s)"

definition E_CTUD_UDINT_alg_CountUp :: "E_CTUD_UDINT \<Rightarrow> E_CTUD_UDINT" where
  "E_CTUD_UDINT_alg_CountUp s =
     (let s = s\<lparr>E_CTUD_UDINT_var_CV := func_ADD_UDINT (E_CTUD_UDINT_var_CV s) (setTUINT32 1)\<rparr> in
      s)"

definition E_CTUD_UDINT_alg_Reset :: "E_CTUD_UDINT \<Rightarrow> E_CTUD_UDINT" where
  "E_CTUD_UDINT_alg_Reset s =
     (let s = s\<lparr>E_CTUD_UDINT_var_CV := setTUINT32 0\<rparr> in
      s)"

definition E_CTUD_UDINT_alg_Load :: "E_CTUD_UDINT \<Rightarrow> E_CTUD_UDINT" where
  "E_CTUD_UDINT_alg_Load s =
     (let s = s\<lparr>E_CTUD_UDINT_var_CV := E_CTUD_UDINT_var_PV s\<rparr> in
      s)"

definition E_CTUD_UDINT_alg_UpdateQUQD :: "E_CTUD_UDINT \<Rightarrow> E_CTUD_UDINT" where
  "E_CTUD_UDINT_alg_UpdateQUQD s =
     (let s = s\<lparr>E_CTUD_UDINT_var_QU := setTBOOL8 (func_GE_UDINT (E_CTUD_UDINT_var_CV s) (E_CTUD_UDINT_var_PV s))\<rparr> in
      let s = s\<lparr>E_CTUD_UDINT_var_QD := setTBOOL8 (func_EQ_UDINT (E_CTUD_UDINT_var_CV s) (setTUINT32 0))\<rparr> in
      s)"

definition E_CTUD_UDINT_alg_CountDown :: "E_CTUD_UDINT \<Rightarrow> E_CTUD_UDINT" where
  "E_CTUD_UDINT_alg_CountDown s =
     (let s = s\<lparr>E_CTUD_UDINT_var_CV := func_SUB_UDINT (E_CTUD_UDINT_var_CV s) (setTUINT32 1)\<rparr> in
      s)"

definition E_CTUD_UDINT_enterStateSTART :: "E_CTUD_UDINT \<times> ecet option \<Rightarrow> E_CTUD_UDINT \<times> ecet option" where
  "E_CTUD_UDINT_enterStateSTART st =
     (let st = apfst (mECCState_update (\<lambda>_. E_CTUD_UDINT_scmStateSTART)) st in
      st)"

definition E_CTUD_UDINT_enterStateCU :: "E_CTUD_UDINT \<times> ecet option \<Rightarrow> E_CTUD_UDINT \<times> ecet option" where
  "E_CTUD_UDINT_enterStateCU st =
     (let st = apfst (mECCState_update (\<lambda>_. E_CTUD_UDINT_scmStateCU)) st in
      let st = apfst E_CTUD_UDINT_alg_CountUp st in
      let st = apfst E_CTUD_UDINT_alg_UpdateQUQD st in
      let st = sendOutputEvent E_CTUD_UDINT_writeOutputData E_CTUD_UDINT_getEOConUnchecked E_CTUD_UDINT_scmEventCOID st in
      st)"

definition E_CTUD_UDINT_enterStateR :: "E_CTUD_UDINT \<times> ecet option \<Rightarrow> E_CTUD_UDINT \<times> ecet option" where
  "E_CTUD_UDINT_enterStateR st =
     (let st = apfst (mECCState_update (\<lambda>_. E_CTUD_UDINT_scmStateR)) st in
      let st = apfst E_CTUD_UDINT_alg_Reset st in
      let st = apfst E_CTUD_UDINT_alg_UpdateQUQD st in
      let st = sendOutputEvent E_CTUD_UDINT_writeOutputData E_CTUD_UDINT_getEOConUnchecked E_CTUD_UDINT_scmEventROID st in
      st)"

definition E_CTUD_UDINT_enterStateCD :: "E_CTUD_UDINT \<times> ecet option \<Rightarrow> E_CTUD_UDINT \<times> ecet option" where
  "E_CTUD_UDINT_enterStateCD st =
     (let st = apfst (mECCState_update (\<lambda>_. E_CTUD_UDINT_scmStateCD)) st in
      let st = apfst E_CTUD_UDINT_alg_CountDown st in
      let st = apfst E_CTUD_UDINT_alg_UpdateQUQD st in
      let st = sendOutputEvent E_CTUD_UDINT_writeOutputData E_CTUD_UDINT_getEOConUnchecked E_CTUD_UDINT_scmEventCOID st in
      st)"

definition E_CTUD_UDINT_enterStateLD :: "E_CTUD_UDINT \<times> ecet option \<Rightarrow> E_CTUD_UDINT \<times> ecet option" where
  "E_CTUD_UDINT_enterStateLD st =
     (let st = apfst (mECCState_update (\<lambda>_. E_CTUD_UDINT_scmStateLD)) st in
      let st = apfst E_CTUD_UDINT_alg_Load st in
      let st = apfst E_CTUD_UDINT_alg_UpdateQUQD st in
      let st = sendOutputEvent E_CTUD_UDINT_writeOutputData E_CTUD_UDINT_getEOConUnchecked E_CTUD_UDINT_scmEventLDOID st in
      st)"

definition E_CTUD_UDINT_ecc :: "TEventID \<Rightarrow> E_CTUD_UDINT \<times> ecet option \<Rightarrow> (E_CTUD_UDINT \<times> ecet option) ecc" where
  "E_CTUD_UDINT_ecc paEIID st =
     (let s = fst st in
       if mECCState s = E_CTUD_UDINT_scmStateSTART then
         (if paEIID = E_CTUD_UDINT_scmEventCUID \<and> func_LT_UDINT (E_CTUD_UDINT_var_CV s) (setTUINT32 4294967295)
          then Again (E_CTUD_UDINT_enterStateCU st)
          else if paEIID = E_CTUD_UDINT_scmEventRID
          then Again (E_CTUD_UDINT_enterStateR st)
          else if paEIID = E_CTUD_UDINT_scmEventCDID \<and> func_GT_UDINT (E_CTUD_UDINT_var_CV s) (setTUINT32 0)
          then Again (E_CTUD_UDINT_enterStateCD st)
          else if paEIID = E_CTUD_UDINT_scmEventLDID
          then Again (E_CTUD_UDINT_enterStateLD st)
          else Return st)
       else if mECCState s = E_CTUD_UDINT_scmStateCU then
         (Again (E_CTUD_UDINT_enterStateSTART st))
       else if mECCState s = E_CTUD_UDINT_scmStateR then
         (Again (E_CTUD_UDINT_enterStateSTART st))
       else if mECCState s = E_CTUD_UDINT_scmStateCD then
         (Again (E_CTUD_UDINT_enterStateSTART st))
       else if mECCState s = E_CTUD_UDINT_scmStateLD then
         (Again (E_CTUD_UDINT_enterStateSTART st))
       else Return (apfst (mECCState_update (\<lambda>_. 0)) st))"

definition E_CTUD_UDINT_executeEvent :: "TEventID \<Rightarrow> E_CTUD_UDINT \<times> ecet option \<Rightarrow> (E_CTUD_UDINT \<times> ecet option) option" where
  "E_CTUD_UDINT_executeEvent = ecc_loop E_CTUD_UDINT_ecc"

definition E_CTUD_UDINT_vtable :: "E_CTUD_UDINT vtable" where
  "E_CTUD_UDINT_vtable =
     \<lparr>vt_getDI = E_CTUD_UDINT_getDI, vt_getDO = E_CTUD_UDINT_getDO, vt_getDIO = (\<lambda>_. None),
      vt_DItype = (\<lambda>i. if i = 0 then e_UDINT else e_ANY),
      vt_DOtype = (\<lambda>i. if i = 0 then e_BOOL else if i = 1 then e_BOOL else if i = 2 then e_UDINT else e_ANY),
      vt_getEOConUnchecked = E_CTUD_UDINT_getEOConUnchecked,
      vt_getDIConUnchecked = E_CTUD_UDINT_getDIConUnchecked, vt_getDOConUnchecked = E_CTUD_UDINT_getDOConUnchecked,
      vt_executeEvent = E_CTUD_UDINT_executeEvent, vt_readInputData = E_CTUD_UDINT_readInputData,
      vt_writeOutputData = E_CTUD_UDINT_writeOutputData, vt_setInitialValues = E_CTUD_UDINT_setInitialValues\<rparr>"

definition E_CTUD_UDINT_evt_CU :: "cell \<Rightarrow> E_CTUD_UDINT \<Rightarrow> (E_CTUD_UDINT \<times> cell \<times> cell \<times> cell) option" where
  "E_CTUD_UDINT_evt_CU paPV s =
     map_option (\<lambda>(s, _). (s, E_CTUD_UDINT_var_QU s, E_CTUD_UDINT_var_QD s, E_CTUD_UDINT_var_CV s))
       (E_CTUD_UDINT_executeEvent E_CTUD_UDINT_scmEventCUID (s\<lparr>E_CTUD_UDINT_var_PV := paPV\<rparr>, None))"

definition E_CTUD_UDINT_evt_CD :: "cell \<Rightarrow> E_CTUD_UDINT \<Rightarrow> (E_CTUD_UDINT \<times> cell \<times> cell \<times> cell) option" where
  "E_CTUD_UDINT_evt_CD paPV s =
     map_option (\<lambda>(s, _). (s, E_CTUD_UDINT_var_QU s, E_CTUD_UDINT_var_QD s, E_CTUD_UDINT_var_CV s))
       (E_CTUD_UDINT_executeEvent E_CTUD_UDINT_scmEventCDID (s\<lparr>E_CTUD_UDINT_var_PV := paPV\<rparr>, None))"

definition E_CTUD_UDINT_evt_R :: "cell \<Rightarrow> E_CTUD_UDINT \<Rightarrow> (E_CTUD_UDINT \<times> cell \<times> cell \<times> cell) option" where
  "E_CTUD_UDINT_evt_R paPV s =
     map_option (\<lambda>(s, _). (s, E_CTUD_UDINT_var_QU s, E_CTUD_UDINT_var_QD s, E_CTUD_UDINT_var_CV s))
       (E_CTUD_UDINT_executeEvent E_CTUD_UDINT_scmEventRID (s\<lparr>E_CTUD_UDINT_var_PV := paPV\<rparr>, None))"

definition E_CTUD_UDINT_evt_LD :: "cell \<Rightarrow> E_CTUD_UDINT \<Rightarrow> (E_CTUD_UDINT \<times> cell \<times> cell \<times> cell) option" where
  "E_CTUD_UDINT_evt_LD paPV s =
     map_option (\<lambda>(s, _). (s, E_CTUD_UDINT_var_QU s, E_CTUD_UDINT_var_QD s, E_CTUD_UDINT_var_CV s))
       (E_CTUD_UDINT_executeEvent E_CTUD_UDINT_scmEventLDID (s\<lparr>E_CTUD_UDINT_var_PV := paPV\<rparr>, None))"

lemmas E_CTUD_UDINT_pins = E_CTUD_UDINT_getDI_def E_CTUD_UDINT_getDO_def E_CTUD_UDINT_getEOConUnchecked_def E_CTUD_UDINT_getDIConUnchecked_def
  E_CTUD_UDINT_getDOConUnchecked_def

lemmas E_CTUD_UDINT_algs = E_CTUD_UDINT_alg_CountUp_def E_CTUD_UDINT_alg_Reset_def E_CTUD_UDINT_alg_Load_def E_CTUD_UDINT_alg_UpdateQUQD_def E_CTUD_UDINT_alg_CountDown_def

lemmas E_CTUD_UDINT_states = E_CTUD_UDINT_enterStateSTART_def
  E_CTUD_UDINT_enterStateCU_def
  E_CTUD_UDINT_enterStateR_def
  E_CTUD_UDINT_enterStateCD_def
  E_CTUD_UDINT_enterStateLD_def

lemma E_CTUD_UDINT_con_count:
  "con_value E_CTUD_UDINT_getDOConUnchecked n (count_event i s) = con_value E_CTUD_UDINT_getDOConUnchecked n s" if "n < getNumDOs E_CTUD_UDINT_cFBInterfaceSpec"
  using that by (auto simp: E_CTUD_UDINT_getDOConUnchecked_def E_CTUD_UDINT_cFBInterfaceSpec_def count_event_def)

lemma E_CTUD_UDINT_write_frame:
  "base (E_CTUD_UDINT_writeOutputData eo s) = base s"
  "mEventMonitorCount (E_CTUD_UDINT_writeOutputData eo s) = mEventMonitorCount s"
  "mECCState (E_CTUD_UDINT_writeOutputData eo s) = mECCState s"
  "E_CTUD_UDINT_var_PV (E_CTUD_UDINT_writeOutputData eo s) = E_CTUD_UDINT_var_PV s"
  "E_CTUD_UDINT_var_QU (E_CTUD_UDINT_writeOutputData eo s) = E_CTUD_UDINT_var_QU s"
  "E_CTUD_UDINT_var_QD (E_CTUD_UDINT_writeOutputData eo s) = E_CTUD_UDINT_var_QD s"
  "E_CTUD_UDINT_var_CV (E_CTUD_UDINT_writeOutputData eo s) = E_CTUD_UDINT_var_CV s"
  "E_CTUD_UDINT_conn_CO (E_CTUD_UDINT_writeOutputData eo s) = E_CTUD_UDINT_conn_CO s"
  "E_CTUD_UDINT_conn_RO (E_CTUD_UDINT_writeOutputData eo s) = E_CTUD_UDINT_conn_RO s"
  "E_CTUD_UDINT_conn_LDO (E_CTUD_UDINT_writeOutputData eo s) = E_CTUD_UDINT_conn_LDO s"
  "E_CTUD_UDINT_conn_PV (E_CTUD_UDINT_writeOutputData eo s) = E_CTUD_UDINT_conn_PV s"
  by (simp_all add: E_CTUD_UDINT_writeOutputData_def writeData_def base_def isForced_def Let_def)

lemma E_CTUD_UDINT_writeData_forced:
  "forced_in E_CTUD_UDINT_cFBInterfaceSpec E_CTUD_UDINT_getDOConUnchecked s s' \<Longrightarrow>
   forced_in E_CTUD_UDINT_cFBInterfaceSpec E_CTUD_UDINT_getDOConUnchecked s
     (writeData (getNumDIs E_CTUD_UDINT_cFBInterfaceSpec + 0) v
       (Ref E_CTUD_UDINT_conn_QU (\<lambda>v. E_CTUD_UDINT_conn_QU_update (\<lambda>_. v))) s')"
  "forced_in E_CTUD_UDINT_cFBInterfaceSpec E_CTUD_UDINT_getDOConUnchecked s s' \<Longrightarrow>
   forced_in E_CTUD_UDINT_cFBInterfaceSpec E_CTUD_UDINT_getDOConUnchecked s
     (writeData (getNumDIs E_CTUD_UDINT_cFBInterfaceSpec + 1) v
       (Ref E_CTUD_UDINT_conn_QD (\<lambda>v. E_CTUD_UDINT_conn_QD_update (\<lambda>_. v))) s')"
  "forced_in E_CTUD_UDINT_cFBInterfaceSpec E_CTUD_UDINT_getDOConUnchecked s s' \<Longrightarrow>
   forced_in E_CTUD_UDINT_cFBInterfaceSpec E_CTUD_UDINT_getDOConUnchecked s
     (writeData (getNumDIs E_CTUD_UDINT_cFBInterfaceSpec + 2) v
       (Ref E_CTUD_UDINT_conn_CV (\<lambda>v. E_CTUD_UDINT_conn_CV_update (\<lambda>_. v))) s')"
  by (rule forced_in_writeData;
      auto simp: E_CTUD_UDINT_getDOConUnchecked_def E_CTUD_UDINT_cFBInterfaceSpec_def base_def less_Suc_eq)+

lemma E_CTUD_UDINT_write_forced:
  "mInterfaceSpec s = E_CTUD_UDINT_cFBInterfaceSpec \<Longrightarrow>
   forced_kept E_CTUD_UDINT_getDOConUnchecked s (E_CTUD_UDINT_writeOutputData eo s)"
  unfolding E_CTUD_UDINT_writeOutputData_def Let_def
  by (intro forced_inD [of E_CTUD_UDINT_cFBInterfaceSpec] forced_in_if E_CTUD_UDINT_writeData_forced forced_in_refl)

lemma E_CTUD_UDINT_send_step [fb_steps]:
  "fb_step_in E_CTUD_UDINT_cFBInterfaceSpec E_CTUD_UDINT_getDOConUnchecked st st' \<Longrightarrow>
   fb_step_in E_CTUD_UDINT_cFBInterfaceSpec E_CTUD_UDINT_getDOConUnchecked st (sendOutputEvent E_CTUD_UDINT_writeOutputData geo eo st')"
  by (rule fb_step_in_send [OF E_CTUD_UDINT_write_frame(1,2) E_CTUD_UDINT_write_forced E_CTUD_UDINT_con_count]) assumption+

lemma E_CTUD_UDINT_send_fields [fb_fields]:
  "mECCState (fst (sendOutputEvent E_CTUD_UDINT_writeOutputData geo eo st)) = mECCState (fst st)"
  "E_CTUD_UDINT_var_PV (fst (sendOutputEvent E_CTUD_UDINT_writeOutputData geo eo st)) = E_CTUD_UDINT_var_PV (fst st)"
  "E_CTUD_UDINT_var_QU (fst (sendOutputEvent E_CTUD_UDINT_writeOutputData geo eo st)) = E_CTUD_UDINT_var_QU (fst st)"
  "E_CTUD_UDINT_var_QD (fst (sendOutputEvent E_CTUD_UDINT_writeOutputData geo eo st)) = E_CTUD_UDINT_var_QD (fst st)"
  "E_CTUD_UDINT_var_CV (fst (sendOutputEvent E_CTUD_UDINT_writeOutputData geo eo st)) = E_CTUD_UDINT_var_CV (fst st)"
  "E_CTUD_UDINT_conn_CO (fst (sendOutputEvent E_CTUD_UDINT_writeOutputData geo eo st)) = E_CTUD_UDINT_conn_CO (fst st)"
  "E_CTUD_UDINT_conn_RO (fst (sendOutputEvent E_CTUD_UDINT_writeOutputData geo eo st)) = E_CTUD_UDINT_conn_RO (fst st)"
  "E_CTUD_UDINT_conn_LDO (fst (sendOutputEvent E_CTUD_UDINT_writeOutputData geo eo st)) = E_CTUD_UDINT_conn_LDO (fst st)"
  "E_CTUD_UDINT_conn_PV (fst (sendOutputEvent E_CTUD_UDINT_writeOutputData geo eo st)) = E_CTUD_UDINT_conn_PV (fst st)"
  by (rule sendOutputEvent_field; simp add: E_CTUD_UDINT_write_frame count_event_def)+

lemma E_CTUD_UDINT_local_step [fb_steps]:
  "fb_step_in E_CTUD_UDINT_cFBInterfaceSpec E_CTUD_UDINT_getDOConUnchecked st st' \<Longrightarrow>
   fb_step_in E_CTUD_UDINT_cFBInterfaceSpec E_CTUD_UDINT_getDOConUnchecked st (apfst (mECCState_update (\<lambda>_. v)) st')"
  "fb_step_in E_CTUD_UDINT_cFBInterfaceSpec E_CTUD_UDINT_getDOConUnchecked st st' \<Longrightarrow>
   fb_step_in E_CTUD_UDINT_cFBInterfaceSpec E_CTUD_UDINT_getDOConUnchecked st (apfst (E_CTUD_UDINT_alg_CountUp) st')"
  "fb_step_in E_CTUD_UDINT_cFBInterfaceSpec E_CTUD_UDINT_getDOConUnchecked st st' \<Longrightarrow>
   fb_step_in E_CTUD_UDINT_cFBInterfaceSpec E_CTUD_UDINT_getDOConUnchecked st (apfst (E_CTUD_UDINT_alg_Reset) st')"
  "fb_step_in E_CTUD_UDINT_cFBInterfaceSpec E_CTUD_UDINT_getDOConUnchecked st st' \<Longrightarrow>
   fb_step_in E_CTUD_UDINT_cFBInterfaceSpec E_CTUD_UDINT_getDOConUnchecked st (apfst (E_CTUD_UDINT_alg_Load) st')"
  "fb_step_in E_CTUD_UDINT_cFBInterfaceSpec E_CTUD_UDINT_getDOConUnchecked st st' \<Longrightarrow>
   fb_step_in E_CTUD_UDINT_cFBInterfaceSpec E_CTUD_UDINT_getDOConUnchecked st (apfst (E_CTUD_UDINT_alg_UpdateQUQD) st')"
  "fb_step_in E_CTUD_UDINT_cFBInterfaceSpec E_CTUD_UDINT_getDOConUnchecked st st' \<Longrightarrow>
   fb_step_in E_CTUD_UDINT_cFBInterfaceSpec E_CTUD_UDINT_getDOConUnchecked st (apfst (E_CTUD_UDINT_alg_CountDown) st')"
  by (rule fb_step_in_local;
      simp add: base_def E_CTUD_UDINT_cFBInterfaceSpec_def E_CTUD_UDINT_getDOConUnchecked_def E_CTUD_UDINT_algs Let_def)+

lemma E_CTUD_UDINT_enter_ECC [fb_fields]:
  "mECCState (fst (E_CTUD_UDINT_enterStateSTART st)) = E_CTUD_UDINT_scmStateSTART"
  "mECCState (fst (E_CTUD_UDINT_enterStateCU st)) = E_CTUD_UDINT_scmStateCU"
  "mECCState (fst (E_CTUD_UDINT_enterStateR st)) = E_CTUD_UDINT_scmStateR"
  "mECCState (fst (E_CTUD_UDINT_enterStateCD st)) = E_CTUD_UDINT_scmStateCD"
  "mECCState (fst (E_CTUD_UDINT_enterStateLD st)) = E_CTUD_UDINT_scmStateLD"
  by (simp_all add: E_CTUD_UDINT_states fb_fields E_CTUD_UDINT_algs Let_def)

lemma E_CTUD_UDINT_sizes [simp]:
  "length (mEINames E_CTUD_UDINT_cFBInterfaceSpec) = 4" "length (mEONames E_CTUD_UDINT_cFBInterfaceSpec) = 3"
  "length (mDINames E_CTUD_UDINT_cFBInterfaceSpec) = 1" "length (mDONames E_CTUD_UDINT_cFBInterfaceSpec) = 3"
  by (simp_all add: E_CTUD_UDINT_cFBInterfaceSpec_def)

lemma E_CTUD_UDINT_ecc_step:
  "E_CTUD_UDINT_ecc e st = Return st' \<or> E_CTUD_UDINT_ecc e st = Again st' \<Longrightarrow>
   fb_step_in E_CTUD_UDINT_cFBInterfaceSpec E_CTUD_UDINT_getDOConUnchecked st st'"
  by (auto simp: E_CTUD_UDINT_ecc_def E_CTUD_UDINT_states Let_def fb_steps split: if_splits)

text \<open>Passes left before the loop of \<open>E-CTUD-UDINT\<close> returns.\<close>

definition E_CTUD_UDINT_rank :: "TEventID \<Rightarrow> E_CTUD_UDINT \<times> ecet option \<Rightarrow> nat" where
  "E_CTUD_UDINT_rank e st =
     (if e \<noteq> cgInvalidEventID then 2
      else if mECCState (fst st) = E_CTUD_UDINT_scmStateCD then 1
      else if mECCState (fst st) = E_CTUD_UDINT_scmStateCU then 1
      else if mECCState (fst st) = E_CTUD_UDINT_scmStateLD then 1
      else if mECCState (fst st) = E_CTUD_UDINT_scmStateR then 1
      else 0)"

lemma E_CTUD_UDINT_ecc_rank:
  "E_CTUD_UDINT_ecc e st = Again st' \<Longrightarrow> E_CTUD_UDINT_rank cgInvalidEventID st' < E_CTUD_UDINT_rank e st"
  by (auto simp: E_CTUD_UDINT_ecc_def E_CTUD_UDINT_rank_def cgInvalidEventID_def cgInvalidPortId_def
      Let_def fb_fields split: if_splits)

interpretation E_CTUD_UDINT_loop: ecc_machine E_CTUD_UDINT_ecc
  "fb_step_in E_CTUD_UDINT_cFBInterfaceSpec E_CTUD_UDINT_getDOConUnchecked" E_CTUD_UDINT_rank
  by unfold_locales (simp | blast intro: fb_step_in_trans E_CTUD_UDINT_ecc_step E_CTUD_UDINT_ecc_rank)+

interpretation E_CTUD_UDINT_class: fb_class E_CTUD_UDINT_vtable E_CTUD_UDINT_cFBInterfaceSpec
proof (unfold_locales, goal_cases)
  case (5 s ei ex)
  then show ?case
    using E_CTUD_UDINT_loop.ecc_loop_total [of ei "(s, ex)"]
    by (auto simp: E_CTUD_UDINT_vtable_def E_CTUD_UDINT_executeEvent_def fb_step_in_def)
qed (auto simp: E_CTUD_UDINT_vtable_def E_CTUD_UDINT_readInputData_def readData_def E_CTUD_UDINT_getDO_def
    E_CTUD_UDINT_getDOConUnchecked_def E_CTUD_UDINT_cFBInterfaceSpec_def base_def isForced_def count_event_def Let_def
    split: option.splits)

section \<open>Behaviour\<close>

text \<open>What each block does with an event in its initial state, the state it waits in.\<close>

lemma E_CTU_exec:
  assumes "mECCState s = 0"
  shows "E_CTU_executeEvent e (s, ex) = Some
    (if e = 0 \<and> func_LT_UINT (E_CTU_var_CV s) (setTUINT16 65535)
     then E_CTU_enterStateSTART (E_CTU_enterStateCU (s, ex))
     else if e = 1 then E_CTU_enterStateSTART (E_CTU_enterStateR (s, ex)) else (s, ex))"
  using assms
  by (simp add: E_CTU_executeEvent_def ecc_loop.simps [of E_CTU_ecc] E_CTU_ecc_def fb_fields Let_def
      cgInvalidEventID_def cgInvalidPortId_def)

lemma E_CTD_exec:
  assumes "mECCState s = 0"
  shows "E_CTD_executeEvent e (s, ex) = Some
    (if e = 0 \<and> func_GT_UINT (E_CTD_var_CV s) (setTUINT16 0)
     then E_CTD_enterStateSTART (E_CTD_enterStateCD (s, ex))
     else if e = 1 then E_CTD_enterStateSTART (E_CTD_enterStateLD (s, ex)) else (s, ex))"
  using assms
  by (simp add: E_CTD_executeEvent_def ecc_loop.simps [of E_CTD_ecc] E_CTD_ecc_def fb_fields Let_def
      cgInvalidEventID_def cgInvalidPortId_def)

lemma E_CTUD_exec:
  assumes "mECCState s = 0"
  shows "E_CTUD_executeEvent e (s, ex) = Some
    (if e = 0 \<and> func_LT_UINT (E_CTUD_var_CV s) (setTUINT16 65535)
     then E_CTUD_enterStateSTART (E_CTUD_enterStateCU (s, ex))
     else if e = 2 then E_CTUD_enterStateSTART (E_CTUD_enterStateR (s, ex))
     else if e = 1 \<and> func_GT_UINT (E_CTUD_var_CV s) (setTUINT16 0)
     then E_CTUD_enterStateSTART (E_CTUD_enterStateCD (s, ex))
     else if e = 3 then E_CTUD_enterStateSTART (E_CTUD_enterStateLD (s, ex)) else (s, ex))"
  using assms
  by (simp add: E_CTUD_executeEvent_def ecc_loop.simps [of E_CTUD_ecc] E_CTUD_ecc_def fb_fields Let_def
      cgInvalidEventID_def cgInvalidPortId_def)

lemma E_CTUD_UDINT_exec:
  assumes "mECCState s = 0"
  shows "E_CTUD_UDINT_executeEvent e (s, ex) = Some
    (if e = 0 \<and> func_LT_UDINT (E_CTUD_UDINT_var_CV s) (setTUINT32 4294967295)
     then E_CTUD_UDINT_enterStateSTART (E_CTUD_UDINT_enterStateCU (s, ex))
     else if e = 2 then E_CTUD_UDINT_enterStateSTART (E_CTUD_UDINT_enterStateR (s, ex))
     else if e = 1 \<and> func_GT_UDINT (E_CTUD_UDINT_var_CV s) (setTUINT32 0)
     then E_CTUD_UDINT_enterStateSTART (E_CTUD_UDINT_enterStateCD (s, ex))
     else if e = 3 then E_CTUD_UDINT_enterStateSTART (E_CTUD_UDINT_enterStateLD (s, ex))
     else (s, ex))"
  using assms
  by (simp add: E_CTUD_UDINT_executeEvent_def ecc_loop.simps [of E_CTUD_UDINT_ecc]
      E_CTUD_UDINT_ecc_def fb_fields Let_def cgInvalidEventID_def cgInvalidPortId_def)

text \<open>The counters as bounded natural numbers: the count, and the threshold outputs.  The events are
  numbered as in the block's interface.\<close>

definition ctu_step :: "nat \<Rightarrow> TEventID \<Rightarrow> nat \<times> bool \<Rightarrow> nat \<times> bool" where
  "ctu_step pv e c =
     (case c of (cv, q) \<Rightarrow>
       if e = 0 \<and> cv < 65535 then (cv + 1, pv \<le> cv + 1)
       else if e = 1 then (0, False) else (cv, q))"

definition ctd_step :: "nat \<Rightarrow> TEventID \<Rightarrow> nat \<times> bool \<Rightarrow> nat \<times> bool" where
  "ctd_step pv e c =
     (case c of (cv, q) \<Rightarrow>
       if e = 0 \<and> 0 < cv then (cv - 1, cv - 1 = 0)
       else if e = 1 then (pv, pv = 0) else (cv, q))"

definition ctud_step :: "nat \<Rightarrow> nat \<Rightarrow> TEventID \<Rightarrow> nat \<times> bool \<times> bool \<Rightarrow> nat \<times> bool \<times> bool" where
  "ctud_step m pv e c =
     (let upd = (\<lambda>v. (v, pv \<le> v, v = 0)) in
      case c of (cv, q) \<Rightarrow>
       if e = 0 \<and> cv < m then upd (cv + 1)
       else if e = 1 \<and> 0 < cv then upd (cv - 1)
       else if e = 2 then upd 0
       else if e = 3 then upd pv else (cv, q))"

definition E_CTU_abs :: "E_CTU \<Rightarrow> nat \<times> bool" where
  "E_CTU_abs s = (unat (getTUINT16 (E_CTU_var_CV s)), BOOL_value (E_CTU_var_Q s))"

definition E_CTD_abs :: "E_CTD \<Rightarrow> nat \<times> bool" where
  "E_CTD_abs s = (unat (getTUINT16 (E_CTD_var_CV s)), BOOL_value (E_CTD_var_Q s))"

definition E_CTUD_abs :: "E_CTUD \<Rightarrow> nat \<times> bool \<times> bool" where
  "E_CTUD_abs s = (unat (getTUINT16 (E_CTUD_var_CV s)), BOOL_value (E_CTUD_var_QU s),
     BOOL_value (E_CTUD_var_QD s))"

definition E_CTUD_UDINT_abs :: "E_CTUD_UDINT \<Rightarrow> nat \<times> bool \<times> bool" where
  "E_CTUD_UDINT_abs s = (unat (getTUINT32 (E_CTUD_UDINT_var_CV s)),
     BOOL_value (E_CTUD_UDINT_var_QU s), BOOL_value (E_CTUD_UDINT_var_QD s))"

lemma unat_incr32: "(w :: 32 word) < 4294967295 \<Longrightarrow> unat (w + 1) = unat w + 1"
  by (simp add: word_less_nat_alt unat_word_ariths)

lemma unat_decr32: "0 < (w :: 32 word) \<Longrightarrow> unat (w - 1) = unat w - 1"
  by (simp add: unat_minus_one word_gt_0)

lemma unat_incr: "(w :: 16 word) < 65535 \<Longrightarrow> unat (w + 1) = unat w + 1"
  by (simp add: word_less_nat_alt unat_word_ariths)

lemma unat_decr: "0 < (w :: 16 word) \<Longrightarrow> unat (w - 1) = unat w - 1"
  by (simp add: unat_minus_one word_gt_0)

lemma word_one_iff: "0 < unat w \<Longrightarrow> (w = (1 :: 16 word)) = (unat w \<le> Suc 0)"
  by (auto simp: word_unat_eq_iff)

lemmas counter_funcs = func_LT_UINT_def func_GT_UINT_def func_GE_UINT_def func_EQ_UINT_def
  func_LT_UDINT_def func_GT_UDINT_def func_GE_UDINT_def func_EQ_UDINT_def

text \<open>A sequence of events, each with the value of PV that is sampled before it.\<close>

definition E_CTU_event :: "cell \<times> TEventID \<Rightarrow> E_CTU \<times> ecet option \<Rightarrow> (E_CTU \<times> ecet option) option" where
  "E_CTU_event x st = E_CTU_executeEvent (snd x) (fst st\<lparr>E_CTU_var_PV := fst x\<rparr>, snd st)"

fun E_CTU_events ::
    "(cell \<times> TEventID) list \<Rightarrow> E_CTU \<times> ecet option \<Rightarrow> (E_CTU \<times> ecet option) option" where
  "E_CTU_events [] st = Some st"
| "E_CTU_events (x # xs) st = Option.bind (E_CTU_event x st) (E_CTU_events xs)"

lemma E_CTU_send_spec:
  "mInterfaceSpec (fst (sendOutputEvent E_CTU_writeOutputData geo eo st)) = mInterfaceSpec (fst st)"
  by (rule sendOutputEvent_field)
    (simp_all add: E_CTU_writeOutputData_def writeData_def count_event_def Let_def)

lemma E_CTU_executeEvent_step:
  assumes "mInterfaceSpec s = E_CTU_cFBInterfaceSpec" "mECCState s = 0"
  shows "\<exists>s' ex'. E_CTU_executeEvent e (s, ex) = Some (s', ex') \<and>
    E_CTU_abs s' = ctu_step (unat (getTUINT16 (E_CTU_var_PV s))) e (E_CTU_abs s) \<and>
    mECCState s' = 0 \<and> E_CTU_var_PV s' = E_CTU_var_PV s \<and> mInterfaceSpec s' = E_CTU_cFBInterfaceSpec \<and>
    ex' = (if e = 0 \<and> fst (E_CTU_abs s) < 65535 then triggerEvent (E_CTU_conn_CUO s) ex
           else if e = 1 then triggerEvent (E_CTU_conn_RO s) ex else ex)"
  using assms
  by (auto simp: E_CTU_exec E_CTU_states E_CTU_algs E_CTU_abs_def ctu_step_def counter_funcs
      fb_fields snd_sendOutputEvent E_CTU_send_spec E_CTU_write_frame E_CTU_getEOConUnchecked_def Let_def
      word_less_nat_alt word_le_nat_alt unat_incr prod_eq_iff [where 'a = E_CTU])

text \<open>C33: The up counter of the standard library refines a counter over the natural numbers, for one event and for
  every sequence of events with any values of PV between them: every event is handled, a count adds one, stops at 65535
  instead of wrapping round, and sets Q to whether the new count has reached the PV of that count, a reset gives the
  count 0 and Q false whatever PV is, and every other event, so also a change of PV, leaves both as they are.  The
  count and reset events are passed on to the destinations of CUO and RO exactly when the counter counts or
  resets.\<close>

theorem E_CTU_refines:
  assumes "mInterfaceSpec s = E_CTU_cFBInterfaceSpec" "mECCState s = 0"
  shows "(\<exists>s' ex'. E_CTU_executeEvent e (s, ex) = Some (s', ex') \<and>
      E_CTU_abs s' = ctu_step (unat (getTUINT16 (E_CTU_var_PV s))) e (E_CTU_abs s) \<and>
      mECCState s' = 0 \<and> E_CTU_var_PV s' = E_CTU_var_PV s \<and>
      ex' = (if e = 0 \<and> fst (E_CTU_abs s) < 65535 then triggerEvent (E_CTU_conn_CUO s) ex
             else if e = 1 then triggerEvent (E_CTU_conn_RO s) ex else ex)) \<and>
    (\<exists>s' ex'. E_CTU_events xs (s, ex) = Some (s', ex') \<and> mECCState s' = 0 \<and>
      E_CTU_abs s' = fold (\<lambda>(pv, e). ctu_step (unat (getTUINT16 pv)) e) xs (E_CTU_abs s))"
proof (rule conjI)
  show "\<exists>s' ex'. E_CTU_events xs (s, ex) = Some (s', ex') \<and> mECCState s' = 0 \<and>
      E_CTU_abs s' = fold (\<lambda>(pv, e). ctu_step (unat (getTUINT16 pv)) e) xs (E_CTU_abs s)"
    using assms
  proof (induction xs arbitrary: s ex)
    case (Cons x xs)
    let ?s = "s\<lparr>E_CTU_var_PV := fst x\<rparr>"
    have same: "E_CTU_abs ?s = E_CTU_abs s"
      by (simp add: E_CTU_abs_def)
    obtain s1 ex1 where step: "E_CTU_executeEvent (snd x) (?s, ex) = Some (s1, ex1)" "mECCState s1 = 0"
        "E_CTU_abs s1 = ctu_step (unat (getTUINT16 (fst x))) (snd x) (E_CTU_abs s)"
        "mInterfaceSpec s1 = E_CTU_cFBInterfaceSpec"
      using E_CTU_executeEvent_step [of ?s "snd x" ex] Cons.prems same by auto
    from Cons.IH [OF step(4,2), of ex1] step(1,3) show ?case
      by (simp add: E_CTU_event_def split_beta)
  qed simp
qed (use E_CTU_executeEvent_step [OF assms, of e ex] in blast)

lemma E_CTU_refines_witness:
  "(\<exists>s'. E_CTU_executeEvent 0 (FORTE_E_CTU 8, None) = Some (s', None) \<and> E_CTU_abs s' = (1, True)) \<and>
   (\<exists>s' ex'. E_CTU_events [(2, 0), (2, 0), (3, 1), (2, 0)] (FORTE_E_CTU 8, None) = Some (s', ex') \<and>
      E_CTU_abs s' = (1, False))"
  using E_CTU_refines [of "FORTE_E_CTU 8" 0 None "[(2, 0), (2, 0), (3, 1), (2, 0)]"]
  by (auto simp: FORTE_E_CTU_def E_CTU_abs_def ctu_step_def triggerEvent_def getTUINT16_def)

text \<open>The down counter refines a counter over the natural numbers: it stops at zero instead of
  wrapping round, loads PV on LD, says with Q whether the count is zero, and passes each
  count and each load on.\<close>

theorem E_CTD_refines:
  assumes "mInterfaceSpec s = E_CTD_cFBInterfaceSpec" "mECCState s = 0"
  shows "\<exists>s' ex'. E_CTD_executeEvent e (s, ex) = Some (s', ex') \<and>
    E_CTD_abs s' = ctd_step (unat (getTUINT16 (E_CTD_var_PV s))) e (E_CTD_abs s) \<and>
    mECCState s' = 0 \<and> E_CTD_var_PV s' = E_CTD_var_PV s \<and>
    ex' = (if e = 0 \<and> 0 < fst (E_CTD_abs s) then triggerEvent (E_CTD_conn_CDO s) ex
           else if e = 1 then triggerEvent (E_CTD_conn_LDO s) ex else ex)"
proof -
  note defs = E_CTD_exec [OF assms(2)] E_CTD_states E_CTD_algs E_CTD_abs_def ctd_step_def
    counter_funcs fb_fields snd_sendOutputEvent E_CTD_write_frame E_CTD_getEOConUnchecked_def
    Let_def word_less_nat_alt unat_decr prod_eq_iff [where 'a = E_CTD]
  have "getTUINT16 (E_CTD_var_CV s) = 0 \<or> 0 < getTUINT16 (E_CTD_var_CV s)"
    by (simp add: word_gt_0)
  moreover have "e = 0 \<or> e = 1 \<or> 1 < e"
    by linarith
  ultimately consider "e = 0" "getTUINT16 (E_CTD_var_CV s) = 0"
    | "e = 0" "0 < getTUINT16 (E_CTD_var_CV s)" | "e = 1" | "1 < e"
    by blast
  then show ?thesis
    by cases (use assms in \<open>auto simp: defs word_one_iff unat_eq_0\<close>)
qed

lemma E_CTD_refines_witness:
  "\<exists>s'. E_CTD_executeEvent 1 ((FORTE_E_CTD 8)\<lparr>E_CTD_var_PV := setTUINT16 7\<rparr>, None) = Some (s', None)
     \<and> E_CTD_abs s' = (7, False)"
  using E_CTD_refines [of "(FORTE_E_CTD 8)\<lparr>E_CTD_var_PV := setTUINT16 7\<rparr>" 1 None]
  by (auto simp: FORTE_E_CTD_def E_CTD_abs_def ctd_step_def triggerEvent_def)

lemma E_CTUD_step:
  assumes "mInterfaceSpec s = E_CTUD_cFBInterfaceSpec" "mECCState s = 0"
  shows "\<exists>s' ex'. E_CTUD_executeEvent e (s, ex) = Some (s', ex') \<and> mECCState s' = 0 \<and>
    E_CTUD_abs s' = ctud_step 65535 (unat (getTUINT16 (E_CTUD_var_PV s))) e (E_CTUD_abs s)"
proof -
  note defs = E_CTUD_exec [OF assms(2)] E_CTUD_states E_CTUD_algs E_CTUD_abs_def ctud_step_def
    counter_funcs fb_fields Let_def word_less_nat_alt word_le_nat_alt unat_incr unat_decr
    prod_eq_iff [where 'a = E_CTUD]
  consider "e = 0" | "e = 1" | "e = 2" | "e = 3" | "3 < e" by linarith
  then show ?thesis
    by cases (use assms(2) in \<open>auto simp: defs simp flip: unat_eq_0\<close>)
qed

lemma E_CTUD_UDINT_step:
  assumes "mInterfaceSpec s = E_CTUD_UDINT_cFBInterfaceSpec" "mECCState s = 0"
  shows "\<exists>s' ex'. E_CTUD_UDINT_executeEvent e (s, ex) = Some (s', ex') \<and> mECCState s' = 0 \<and>
    E_CTUD_UDINT_abs s' = ctud_step 4294967295 (unat (getTUINT32 (E_CTUD_UDINT_var_PV s))) e (E_CTUD_UDINT_abs s)"
proof -
  note defs = E_CTUD_UDINT_exec [OF assms(2)] E_CTUD_UDINT_states E_CTUD_UDINT_algs E_CTUD_UDINT_abs_def ctud_step_def
    counter_funcs fb_fields Let_def word_less_nat_alt word_le_nat_alt unat_incr32 unat_decr32
    prod_eq_iff [where 'a = E_CTUD_UDINT]
  consider "e = 0" | "e = 1" | "e = 2" | "e = 3" | "3 < e" by linarith
  then show ?thesis
    by cases (use assms(2) in \<open>auto simp: defs simp flip: unat_eq_0\<close>)
qed

text \<open>The up-down counters, over UINT and over UDINT, refine one bounded counter: neither
  direction ever wraps round, and after every count, reset or load QU and QD say whether the count
  has reached PV and whether it is zero.\<close>

theorem E_CTUD_refines:
  "(mInterfaceSpec s = E_CTUD_cFBInterfaceSpec \<longrightarrow> mECCState s = 0 \<longrightarrow>
     (\<exists>s' ex'. E_CTUD_executeEvent e (s, ex) = Some (s', ex') \<and> mECCState s' = 0 \<and>
       E_CTUD_abs s' =
         ctud_step 65535 (unat (getTUINT16 (E_CTUD_var_PV s))) e (E_CTUD_abs s))) \<and>
   (mInterfaceSpec u = E_CTUD_UDINT_cFBInterfaceSpec \<longrightarrow> mECCState u = 0 \<longrightarrow>
     (\<exists>u' ex'. E_CTUD_UDINT_executeEvent e (u, ex) = Some (u', ex') \<and> mECCState u' = 0 \<and>
       E_CTUD_UDINT_abs u' =
         ctud_step 4294967295 (unat (getTUINT32 (E_CTUD_UDINT_var_PV u))) e (E_CTUD_UDINT_abs u)))"
  by (intro conjI impI E_CTUD_step E_CTUD_UDINT_step)

lemma E_CTUD_refines_witness:
  "\<exists>s' ex'. E_CTUD_executeEvent 1 (FORTE_E_CTUD 8, None) = Some (s', ex') \<and>
     E_CTUD_abs s' = (0, False, False)"
  using E_CTUD_refines [THEN conjunct1, of "FORTE_E_CTUD 8" 1 None]
  by (auto simp: FORTE_E_CTUD_def E_CTUD_abs_def ctud_step_def Let_def)

end
