(* ===== verification/FB_Bistables.thy ===== *)
theory FB_Bistables
imports FB_Class
begin

text \<open>
  The event driven flip-flops of \<open>stdfblib/events\<close>: set/reset, reset/set, data latch, toggle.
\<close>

section \<open>E SR\<close>

text \<open>\<open>stdfblib/events/src/E_SR_fbt.cpp\<close>\<close>

abbreviation (input) E_SR_scmStateSTART :: "16 word" where "E_SR_scmStateSTART \<equiv> 0"
abbreviation (input) E_SR_scmStateSET :: "16 word" where "E_SR_scmStateSET \<equiv> 1"
abbreviation (input) E_SR_scmStateRESET :: "16 word" where "E_SR_scmStateRESET \<equiv> 2"
abbreviation (input) E_SR_scmEventSID :: TEventID where "E_SR_scmEventSID \<equiv> 0"
abbreviation (input) E_SR_scmEventRID :: TEventID where "E_SR_scmEventRID \<equiv> 1"
abbreviation (input) E_SR_scmEventEOID :: TEventID where "E_SR_scmEventEOID \<equiv> 0"

definition E_SR_cFBInterfaceSpec :: "SFBInterfaceSpec" where
  "E_SR_cFBInterfaceSpec =
     \<lparr>mEINames = [Some ''S'', Some ''R''],
      mEITypeNames = [Some ''Event'', Some ''Event''],
      mEONames = [Some ''EO''],
      mEOTypeNames = [Some ''Event''],
      mDINames = [],
      mDONames = [Some ''Q''],
      mDIONames = [],
      mSocketNames = [],
      mPlugNames = []\<rparr>"

record E_SR = CBasicFB +
  E_SR_var_Q :: cell
  E_SR_conn_EO :: CEventConnection
  E_SR_conn_Q :: COutDataConnection

definition FORTE_E_SR :: "nat \<Rightarrow> E_SR" where
  "FORTE_E_SR this =
     \<lparr>mInterfaceSpec = E_SR_cFBInterfaceSpec, mEventMonitorCount = [],
      mForces = replicate cgMaxSupportedForceIndex False, mFBState = Idle,
      mInputEventConnectionCount = None, mConnRefCount = 0, mDeletable = True, mECCState = 0,
      E_SR_var_Q = 0,
      E_SR_conn_EO = \<lparr>mSourceId = \<lparr>mFB = this, mPortId = 0\<rparr>, mDestinationIds = []\<rparr>,
      E_SR_conn_Q = \<lparr>dc_mSourceId = \<lparr>mFB = this, mPortId = 0\<rparr>, mValue = 0\<rparr>\<rparr>"

definition E_SR_setInitialValues :: "E_SR \<Rightarrow> E_SR" where
  "E_SR_setInitialValues s =
     (CBasicFB_setInitialValues s)
       \<lparr>E_SR_var_Q := setTBOOL8 False\<rparr>"

definition E_SR_getDI :: "TPortId \<Rightarrow> (E_SR, cell) ref option" where
  "E_SR_getDI i =
     (None)"

definition E_SR_getDO :: "TPortId \<Rightarrow> (E_SR, cell) ref option" where
  "E_SR_getDO i =
     (if i = 0 then Some (Ref E_SR_var_Q (\<lambda>v. E_SR_var_Q_update (\<lambda>_. v)))
      else None)"

definition E_SR_getEOConUnchecked :: "TPortId \<Rightarrow> (E_SR, CEventConnection) ref option" where
  "E_SR_getEOConUnchecked i =
     (if i = 0 then Some (Ref E_SR_conn_EO (\<lambda>v. E_SR_conn_EO_update (\<lambda>_. v)))
      else None)"

definition E_SR_getDIConUnchecked :: "TPortId \<Rightarrow> (E_SR, conn_id option) ref option" where
  "E_SR_getDIConUnchecked i =
     (None)"

definition E_SR_getDOConUnchecked :: "TPortId \<Rightarrow> (E_SR, COutDataConnection) ref option" where
  "E_SR_getDOConUnchecked i =
     (if i = 0 then Some (Ref E_SR_conn_Q (\<lambda>v. E_SR_conn_Q_update (\<lambda>_. v)))
      else None)"

definition E_SR_readInputData :: "(conn_id \<Rightarrow> cell) \<Rightarrow> TEventID \<Rightarrow> E_SR \<Rightarrow> E_SR" where
  "E_SR_readInputData env paEIID s =
     (s)"

definition E_SR_writeOutputData :: "TEventID \<Rightarrow> E_SR \<Rightarrow> E_SR" where
  "E_SR_writeOutputData paEO s =
     (if paEO = E_SR_scmEventEOID then
        (let s = writeData (getNumDIs E_SR_cFBInterfaceSpec + 0) (E_SR_var_Q s)
            (Ref E_SR_conn_Q (\<lambda>v. E_SR_conn_Q_update (\<lambda>_. v))) s in s)
      else s)"

definition E_SR_alg_SET :: "E_SR \<Rightarrow> E_SR" where
  "E_SR_alg_SET s =
     (let s = s\<lparr>E_SR_var_Q := setTBOOL8 True\<rparr> in
      s)"

definition E_SR_alg_RESET :: "E_SR \<Rightarrow> E_SR" where
  "E_SR_alg_RESET s =
     (let s = s\<lparr>E_SR_var_Q := setTBOOL8 False\<rparr> in
      s)"

definition E_SR_enterStateSTART :: "E_SR \<times> ecet option \<Rightarrow> E_SR \<times> ecet option" where
  "E_SR_enterStateSTART st =
     (let st = apfst (mECCState_update (\<lambda>_. E_SR_scmStateSTART)) st in
      st)"

definition E_SR_enterStateSET :: "E_SR \<times> ecet option \<Rightarrow> E_SR \<times> ecet option" where
  "E_SR_enterStateSET st =
     (let st = apfst (mECCState_update (\<lambda>_. E_SR_scmStateSET)) st in
      let st = apfst E_SR_alg_SET st in
      let st = sendOutputEvent E_SR_writeOutputData E_SR_getEOConUnchecked E_SR_scmEventEOID st in
      st)"

definition E_SR_enterStateRESET :: "E_SR \<times> ecet option \<Rightarrow> E_SR \<times> ecet option" where
  "E_SR_enterStateRESET st =
     (let st = apfst (mECCState_update (\<lambda>_. E_SR_scmStateRESET)) st in
      let st = apfst E_SR_alg_RESET st in
      let st = sendOutputEvent E_SR_writeOutputData E_SR_getEOConUnchecked E_SR_scmEventEOID st in
      st)"

definition E_SR_ecc :: "TEventID \<Rightarrow> E_SR \<times> ecet option \<Rightarrow> (E_SR \<times> ecet option) ecc" where
  "E_SR_ecc paEIID st =
     (let s = fst st in
       if mECCState s = E_SR_scmStateSTART then
         (if paEIID = E_SR_scmEventSID
          then Again (E_SR_enterStateSET st)
          else Return st)
       else if mECCState s = E_SR_scmStateSET then
         (if paEIID = E_SR_scmEventRID
          then Again (E_SR_enterStateRESET st)
          else Return st)
       else if mECCState s = E_SR_scmStateRESET then
         (if paEIID = E_SR_scmEventSID
          then Again (E_SR_enterStateSET st)
          else Return st)
       else Return (apfst (mECCState_update (\<lambda>_. 0)) st))"

definition E_SR_executeEvent :: "TEventID \<Rightarrow> E_SR \<times> ecet option \<Rightarrow> (E_SR \<times> ecet option) option" where
  "E_SR_executeEvent = ecc_loop E_SR_ecc"

definition E_SR_vtable :: "E_SR vtable" where
  "E_SR_vtable =
     \<lparr>vt_getDI = E_SR_getDI, vt_getDO = E_SR_getDO, vt_getDIO = (\<lambda>_. None),
      vt_DItype = (\<lambda>i. e_ANY),
      vt_DOtype = (\<lambda>i. if i = 0 then e_BOOL else e_ANY),
      vt_getEOConUnchecked = E_SR_getEOConUnchecked,
      vt_getDIConUnchecked = E_SR_getDIConUnchecked, vt_getDOConUnchecked = E_SR_getDOConUnchecked,
      vt_executeEvent = E_SR_executeEvent, vt_readInputData = E_SR_readInputData,
      vt_writeOutputData = E_SR_writeOutputData, vt_setInitialValues = E_SR_setInitialValues\<rparr>"

definition E_SR_evt_S :: "(conn_id \<Rightarrow> cell) \<Rightarrow> E_SR \<Rightarrow> (E_SR \<times> cell) option" where
  "E_SR_evt_S env s =
     map_option (\<lambda>(s, _). (s, E_SR_var_Q s))
       (receiveInputEvent E_SR_vtable env E_SR_scmEventSID (s, None))"

definition E_SR_evt_R :: "(conn_id \<Rightarrow> cell) \<Rightarrow> E_SR \<Rightarrow> (E_SR \<times> cell) option" where
  "E_SR_evt_R env s =
     map_option (\<lambda>(s, _). (s, E_SR_var_Q s))
       (receiveInputEvent E_SR_vtable env E_SR_scmEventRID (s, None))"

lemmas E_SR_pins = E_SR_getDI_def E_SR_getDO_def E_SR_getEOConUnchecked_def E_SR_getDIConUnchecked_def
  E_SR_getDOConUnchecked_def

lemmas E_SR_algs = E_SR_alg_SET_def E_SR_alg_RESET_def

lemmas E_SR_states = E_SR_enterStateSTART_def
  E_SR_enterStateSET_def
  E_SR_enterStateRESET_def

lemma E_SR_con_count:
  "con_value E_SR_getDOConUnchecked n (count_event i s) = con_value E_SR_getDOConUnchecked n s" if "n < getNumDOs E_SR_cFBInterfaceSpec"
  using that by (auto simp: E_SR_getDOConUnchecked_def E_SR_cFBInterfaceSpec_def count_event_def)

lemma E_SR_write_frame:
  "base (E_SR_writeOutputData eo s) = base s"
  "mEventMonitorCount (E_SR_writeOutputData eo s) = mEventMonitorCount s"
  "mECCState (E_SR_writeOutputData eo s) = mECCState s"
  "E_SR_var_Q (E_SR_writeOutputData eo s) = E_SR_var_Q s"
  "E_SR_conn_EO (E_SR_writeOutputData eo s) = E_SR_conn_EO s"
  by (simp_all add: E_SR_writeOutputData_def writeData_def base_def isForced_def Let_def)

lemma E_SR_writeData_forced:
  "forced_in E_SR_cFBInterfaceSpec E_SR_getDOConUnchecked s s' \<Longrightarrow>
   forced_in E_SR_cFBInterfaceSpec E_SR_getDOConUnchecked s
     (writeData (getNumDIs E_SR_cFBInterfaceSpec + 0) v
       (Ref E_SR_conn_Q (\<lambda>v. E_SR_conn_Q_update (\<lambda>_. v))) s')"
  by (rule forced_in_writeData;
      auto simp: E_SR_getDOConUnchecked_def E_SR_cFBInterfaceSpec_def base_def less_Suc_eq)+

lemma E_SR_write_forced:
  "mInterfaceSpec s = E_SR_cFBInterfaceSpec \<Longrightarrow>
   forced_kept E_SR_getDOConUnchecked s (E_SR_writeOutputData eo s)"
  unfolding E_SR_writeOutputData_def Let_def
  by (intro forced_inD [of E_SR_cFBInterfaceSpec] forced_in_if E_SR_writeData_forced forced_in_refl)

lemma E_SR_send_step [fb_steps]:
  "fb_step_in E_SR_cFBInterfaceSpec E_SR_getDOConUnchecked st st' \<Longrightarrow>
   fb_step_in E_SR_cFBInterfaceSpec E_SR_getDOConUnchecked st (sendOutputEvent E_SR_writeOutputData geo eo st')"
  by (rule fb_step_in_send [OF E_SR_write_frame(1,2) E_SR_write_forced E_SR_con_count]) assumption+

lemma E_SR_send_fields [fb_fields]:
  "mECCState (fst (sendOutputEvent E_SR_writeOutputData geo eo st)) = mECCState (fst st)"
  "E_SR_var_Q (fst (sendOutputEvent E_SR_writeOutputData geo eo st)) = E_SR_var_Q (fst st)"
  "E_SR_conn_EO (fst (sendOutputEvent E_SR_writeOutputData geo eo st)) = E_SR_conn_EO (fst st)"
  by (rule sendOutputEvent_field; simp add: E_SR_write_frame count_event_def)+

lemma E_SR_local_step [fb_steps]:
  "fb_step_in E_SR_cFBInterfaceSpec E_SR_getDOConUnchecked st st' \<Longrightarrow>
   fb_step_in E_SR_cFBInterfaceSpec E_SR_getDOConUnchecked st (apfst (mECCState_update (\<lambda>_. v)) st')"
  "fb_step_in E_SR_cFBInterfaceSpec E_SR_getDOConUnchecked st st' \<Longrightarrow>
   fb_step_in E_SR_cFBInterfaceSpec E_SR_getDOConUnchecked st (apfst (E_SR_alg_SET) st')"
  "fb_step_in E_SR_cFBInterfaceSpec E_SR_getDOConUnchecked st st' \<Longrightarrow>
   fb_step_in E_SR_cFBInterfaceSpec E_SR_getDOConUnchecked st (apfst (E_SR_alg_RESET) st')"
  by (rule fb_step_in_local;
      simp add: base_def E_SR_cFBInterfaceSpec_def E_SR_getDOConUnchecked_def E_SR_algs Let_def)+

lemma E_SR_enter_ECC [fb_fields]:
  "mECCState (fst (E_SR_enterStateSTART st)) = E_SR_scmStateSTART"
  "mECCState (fst (E_SR_enterStateSET st)) = E_SR_scmStateSET"
  "mECCState (fst (E_SR_enterStateRESET st)) = E_SR_scmStateRESET"
  by (simp_all add: E_SR_states fb_fields E_SR_algs Let_def)

lemma E_SR_sizes [simp]:
  "length (mEINames E_SR_cFBInterfaceSpec) = 2" "length (mEONames E_SR_cFBInterfaceSpec) = 1"
  "length (mDINames E_SR_cFBInterfaceSpec) = 0" "length (mDONames E_SR_cFBInterfaceSpec) = 1"
  by (simp_all add: E_SR_cFBInterfaceSpec_def)

lemma E_SR_ecc_step:
  "E_SR_ecc e st = Return st' \<or> E_SR_ecc e st = Again st' \<Longrightarrow>
   fb_step_in E_SR_cFBInterfaceSpec E_SR_getDOConUnchecked st st'"
  by (auto simp: E_SR_ecc_def E_SR_states Let_def fb_steps split: if_splits)

text \<open>Passes left before the loop of \<open>E-SR\<close> returns.\<close>

definition E_SR_rank :: "TEventID \<Rightarrow> E_SR \<times> ecet option \<Rightarrow> nat" where
  "E_SR_rank e st =
     (if e \<noteq> cgInvalidEventID then 1
      else 0)"

lemma E_SR_ecc_rank:
  "E_SR_ecc e st = Again st' \<Longrightarrow> E_SR_rank cgInvalidEventID st' < E_SR_rank e st"
  by (auto simp: E_SR_ecc_def E_SR_rank_def cgInvalidEventID_def cgInvalidPortId_def
      Let_def fb_fields split: if_splits)

interpretation E_SR_loop: ecc_machine E_SR_ecc
  "fb_step_in E_SR_cFBInterfaceSpec E_SR_getDOConUnchecked" E_SR_rank
  by unfold_locales (simp | blast intro: fb_step_in_trans E_SR_ecc_step E_SR_ecc_rank)+

interpretation E_SR_class: fb_class E_SR_vtable E_SR_cFBInterfaceSpec
proof (unfold_locales, goal_cases)
  case (5 s ei ex)
  then show ?case
    using E_SR_loop.ecc_loop_total [of ei "(s, ex)"]
    by (auto simp: E_SR_vtable_def E_SR_executeEvent_def fb_step_in_def)
qed (auto simp: E_SR_vtable_def E_SR_readInputData_def readData_def E_SR_getDO_def
    E_SR_getDOConUnchecked_def E_SR_cFBInterfaceSpec_def base_def isForced_def count_event_def Let_def
    split: option.splits)

section \<open>E RS\<close>

text \<open>\<open>stdfblib/events/src/E_RS_fbt.cpp\<close>\<close>

abbreviation (input) E_RS_scmStateSTART :: "16 word" where "E_RS_scmStateSTART \<equiv> 0"
abbreviation (input) E_RS_scmStateSET :: "16 word" where "E_RS_scmStateSET \<equiv> 1"
abbreviation (input) E_RS_scmStateRESET :: "16 word" where "E_RS_scmStateRESET \<equiv> 2"
abbreviation (input) E_RS_scmEventRID :: TEventID where "E_RS_scmEventRID \<equiv> 0"
abbreviation (input) E_RS_scmEventSID :: TEventID where "E_RS_scmEventSID \<equiv> 1"
abbreviation (input) E_RS_scmEventEOID :: TEventID where "E_RS_scmEventEOID \<equiv> 0"

definition E_RS_cFBInterfaceSpec :: "SFBInterfaceSpec" where
  "E_RS_cFBInterfaceSpec =
     \<lparr>mEINames = [Some ''R'', Some ''S''],
      mEITypeNames = [Some ''Event'', Some ''Event''],
      mEONames = [Some ''EO''],
      mEOTypeNames = [Some ''Event''],
      mDINames = [],
      mDONames = [Some ''Q''],
      mDIONames = [],
      mSocketNames = [],
      mPlugNames = []\<rparr>"

record E_RS = CBasicFB +
  E_RS_var_Q :: cell
  E_RS_conn_EO :: CEventConnection
  E_RS_conn_Q :: COutDataConnection

definition FORTE_E_RS :: "nat \<Rightarrow> E_RS" where
  "FORTE_E_RS this =
     \<lparr>mInterfaceSpec = E_RS_cFBInterfaceSpec, mEventMonitorCount = [],
      mForces = replicate cgMaxSupportedForceIndex False, mFBState = Idle,
      mInputEventConnectionCount = None, mConnRefCount = 0, mDeletable = True, mECCState = 0,
      E_RS_var_Q = 0,
      E_RS_conn_EO = \<lparr>mSourceId = \<lparr>mFB = this, mPortId = 0\<rparr>, mDestinationIds = []\<rparr>,
      E_RS_conn_Q = \<lparr>dc_mSourceId = \<lparr>mFB = this, mPortId = 0\<rparr>, mValue = 0\<rparr>\<rparr>"

definition E_RS_setInitialValues :: "E_RS \<Rightarrow> E_RS" where
  "E_RS_setInitialValues s =
     (CBasicFB_setInitialValues s)
       \<lparr>E_RS_var_Q := setTBOOL8 False\<rparr>"

definition E_RS_getDI :: "TPortId \<Rightarrow> (E_RS, cell) ref option" where
  "E_RS_getDI i =
     (None)"

definition E_RS_getDO :: "TPortId \<Rightarrow> (E_RS, cell) ref option" where
  "E_RS_getDO i =
     (if i = 0 then Some (Ref E_RS_var_Q (\<lambda>v. E_RS_var_Q_update (\<lambda>_. v)))
      else None)"

definition E_RS_getEOConUnchecked :: "TPortId \<Rightarrow> (E_RS, CEventConnection) ref option" where
  "E_RS_getEOConUnchecked i =
     (if i = 0 then Some (Ref E_RS_conn_EO (\<lambda>v. E_RS_conn_EO_update (\<lambda>_. v)))
      else None)"

definition E_RS_getDIConUnchecked :: "TPortId \<Rightarrow> (E_RS, conn_id option) ref option" where
  "E_RS_getDIConUnchecked i =
     (None)"

definition E_RS_getDOConUnchecked :: "TPortId \<Rightarrow> (E_RS, COutDataConnection) ref option" where
  "E_RS_getDOConUnchecked i =
     (if i = 0 then Some (Ref E_RS_conn_Q (\<lambda>v. E_RS_conn_Q_update (\<lambda>_. v)))
      else None)"

definition E_RS_readInputData :: "(conn_id \<Rightarrow> cell) \<Rightarrow> TEventID \<Rightarrow> E_RS \<Rightarrow> E_RS" where
  "E_RS_readInputData env paEIID s =
     (s)"

definition E_RS_writeOutputData :: "TEventID \<Rightarrow> E_RS \<Rightarrow> E_RS" where
  "E_RS_writeOutputData paEO s =
     (if paEO = E_RS_scmEventEOID then
        (let s = writeData (getNumDIs E_RS_cFBInterfaceSpec + 0) (E_RS_var_Q s)
            (Ref E_RS_conn_Q (\<lambda>v. E_RS_conn_Q_update (\<lambda>_. v))) s in s)
      else s)"

definition E_RS_alg_SET :: "E_RS \<Rightarrow> E_RS" where
  "E_RS_alg_SET s =
     (let s = s\<lparr>E_RS_var_Q := setTBOOL8 True\<rparr> in
      s)"

definition E_RS_alg_RESET :: "E_RS \<Rightarrow> E_RS" where
  "E_RS_alg_RESET s =
     (let s = s\<lparr>E_RS_var_Q := setTBOOL8 False\<rparr> in
      s)"

definition E_RS_enterStateSTART :: "E_RS \<times> ecet option \<Rightarrow> E_RS \<times> ecet option" where
  "E_RS_enterStateSTART st =
     (let st = apfst (mECCState_update (\<lambda>_. E_RS_scmStateSTART)) st in
      st)"

definition E_RS_enterStateSET :: "E_RS \<times> ecet option \<Rightarrow> E_RS \<times> ecet option" where
  "E_RS_enterStateSET st =
     (let st = apfst (mECCState_update (\<lambda>_. E_RS_scmStateSET)) st in
      let st = apfst E_RS_alg_SET st in
      let st = sendOutputEvent E_RS_writeOutputData E_RS_getEOConUnchecked E_RS_scmEventEOID st in
      st)"

definition E_RS_enterStateRESET :: "E_RS \<times> ecet option \<Rightarrow> E_RS \<times> ecet option" where
  "E_RS_enterStateRESET st =
     (let st = apfst (mECCState_update (\<lambda>_. E_RS_scmStateRESET)) st in
      let st = apfst E_RS_alg_RESET st in
      let st = sendOutputEvent E_RS_writeOutputData E_RS_getEOConUnchecked E_RS_scmEventEOID st in
      st)"

definition E_RS_ecc :: "TEventID \<Rightarrow> E_RS \<times> ecet option \<Rightarrow> (E_RS \<times> ecet option) ecc" where
  "E_RS_ecc paEIID st =
     (let s = fst st in
       if mECCState s = E_RS_scmStateSTART then
         (if paEIID = E_RS_scmEventSID
          then Again (E_RS_enterStateSET st)
          else Return st)
       else if mECCState s = E_RS_scmStateSET then
         (if paEIID = E_RS_scmEventRID
          then Again (E_RS_enterStateRESET st)
          else Return st)
       else if mECCState s = E_RS_scmStateRESET then
         (if paEIID = E_RS_scmEventSID
          then Again (E_RS_enterStateSET st)
          else Return st)
       else Return (apfst (mECCState_update (\<lambda>_. 0)) st))"

definition E_RS_executeEvent :: "TEventID \<Rightarrow> E_RS \<times> ecet option \<Rightarrow> (E_RS \<times> ecet option) option" where
  "E_RS_executeEvent = ecc_loop E_RS_ecc"

definition E_RS_vtable :: "E_RS vtable" where
  "E_RS_vtable =
     \<lparr>vt_getDI = E_RS_getDI, vt_getDO = E_RS_getDO, vt_getDIO = (\<lambda>_. None),
      vt_DItype = (\<lambda>i. e_ANY),
      vt_DOtype = (\<lambda>i. if i = 0 then e_BOOL else e_ANY),
      vt_getEOConUnchecked = E_RS_getEOConUnchecked,
      vt_getDIConUnchecked = E_RS_getDIConUnchecked, vt_getDOConUnchecked = E_RS_getDOConUnchecked,
      vt_executeEvent = E_RS_executeEvent, vt_readInputData = E_RS_readInputData,
      vt_writeOutputData = E_RS_writeOutputData, vt_setInitialValues = E_RS_setInitialValues\<rparr>"

definition E_RS_evt_R :: "(conn_id \<Rightarrow> cell) \<Rightarrow> E_RS \<Rightarrow> (E_RS \<times> cell) option" where
  "E_RS_evt_R env s =
     map_option (\<lambda>(s, _). (s, E_RS_var_Q s))
       (receiveInputEvent E_RS_vtable env E_RS_scmEventRID (s, None))"

definition E_RS_evt_S :: "(conn_id \<Rightarrow> cell) \<Rightarrow> E_RS \<Rightarrow> (E_RS \<times> cell) option" where
  "E_RS_evt_S env s =
     map_option (\<lambda>(s, _). (s, E_RS_var_Q s))
       (receiveInputEvent E_RS_vtable env E_RS_scmEventSID (s, None))"

lemmas E_RS_pins = E_RS_getDI_def E_RS_getDO_def E_RS_getEOConUnchecked_def E_RS_getDIConUnchecked_def
  E_RS_getDOConUnchecked_def

lemmas E_RS_algs = E_RS_alg_SET_def E_RS_alg_RESET_def

lemmas E_RS_states = E_RS_enterStateSTART_def
  E_RS_enterStateSET_def
  E_RS_enterStateRESET_def

lemma E_RS_con_count:
  "con_value E_RS_getDOConUnchecked n (count_event i s) = con_value E_RS_getDOConUnchecked n s" if "n < getNumDOs E_RS_cFBInterfaceSpec"
  using that by (auto simp: E_RS_getDOConUnchecked_def E_RS_cFBInterfaceSpec_def count_event_def)

lemma E_RS_write_frame:
  "base (E_RS_writeOutputData eo s) = base s"
  "mEventMonitorCount (E_RS_writeOutputData eo s) = mEventMonitorCount s"
  "mECCState (E_RS_writeOutputData eo s) = mECCState s"
  "E_RS_var_Q (E_RS_writeOutputData eo s) = E_RS_var_Q s"
  "E_RS_conn_EO (E_RS_writeOutputData eo s) = E_RS_conn_EO s"
  by (simp_all add: E_RS_writeOutputData_def writeData_def base_def isForced_def Let_def)

lemma E_RS_writeData_forced:
  "forced_in E_RS_cFBInterfaceSpec E_RS_getDOConUnchecked s s' \<Longrightarrow>
   forced_in E_RS_cFBInterfaceSpec E_RS_getDOConUnchecked s
     (writeData (getNumDIs E_RS_cFBInterfaceSpec + 0) v
       (Ref E_RS_conn_Q (\<lambda>v. E_RS_conn_Q_update (\<lambda>_. v))) s')"
  by (rule forced_in_writeData;
      auto simp: E_RS_getDOConUnchecked_def E_RS_cFBInterfaceSpec_def base_def less_Suc_eq)+

lemma E_RS_write_forced:
  "mInterfaceSpec s = E_RS_cFBInterfaceSpec \<Longrightarrow>
   forced_kept E_RS_getDOConUnchecked s (E_RS_writeOutputData eo s)"
  unfolding E_RS_writeOutputData_def Let_def
  by (intro forced_inD [of E_RS_cFBInterfaceSpec] forced_in_if E_RS_writeData_forced forced_in_refl)

lemma E_RS_send_step [fb_steps]:
  "fb_step_in E_RS_cFBInterfaceSpec E_RS_getDOConUnchecked st st' \<Longrightarrow>
   fb_step_in E_RS_cFBInterfaceSpec E_RS_getDOConUnchecked st (sendOutputEvent E_RS_writeOutputData geo eo st')"
  by (rule fb_step_in_send [OF E_RS_write_frame(1,2) E_RS_write_forced E_RS_con_count]) assumption+

lemma E_RS_send_fields [fb_fields]:
  "mECCState (fst (sendOutputEvent E_RS_writeOutputData geo eo st)) = mECCState (fst st)"
  "E_RS_var_Q (fst (sendOutputEvent E_RS_writeOutputData geo eo st)) = E_RS_var_Q (fst st)"
  "E_RS_conn_EO (fst (sendOutputEvent E_RS_writeOutputData geo eo st)) = E_RS_conn_EO (fst st)"
  by (rule sendOutputEvent_field; simp add: E_RS_write_frame count_event_def)+

lemma E_RS_local_step [fb_steps]:
  "fb_step_in E_RS_cFBInterfaceSpec E_RS_getDOConUnchecked st st' \<Longrightarrow>
   fb_step_in E_RS_cFBInterfaceSpec E_RS_getDOConUnchecked st (apfst (mECCState_update (\<lambda>_. v)) st')"
  "fb_step_in E_RS_cFBInterfaceSpec E_RS_getDOConUnchecked st st' \<Longrightarrow>
   fb_step_in E_RS_cFBInterfaceSpec E_RS_getDOConUnchecked st (apfst (E_RS_alg_SET) st')"
  "fb_step_in E_RS_cFBInterfaceSpec E_RS_getDOConUnchecked st st' \<Longrightarrow>
   fb_step_in E_RS_cFBInterfaceSpec E_RS_getDOConUnchecked st (apfst (E_RS_alg_RESET) st')"
  by (rule fb_step_in_local;
      simp add: base_def E_RS_cFBInterfaceSpec_def E_RS_getDOConUnchecked_def E_RS_algs Let_def)+

lemma E_RS_enter_ECC [fb_fields]:
  "mECCState (fst (E_RS_enterStateSTART st)) = E_RS_scmStateSTART"
  "mECCState (fst (E_RS_enterStateSET st)) = E_RS_scmStateSET"
  "mECCState (fst (E_RS_enterStateRESET st)) = E_RS_scmStateRESET"
  by (simp_all add: E_RS_states fb_fields E_RS_algs Let_def)

lemma E_RS_sizes [simp]:
  "length (mEINames E_RS_cFBInterfaceSpec) = 2" "length (mEONames E_RS_cFBInterfaceSpec) = 1"
  "length (mDINames E_RS_cFBInterfaceSpec) = 0" "length (mDONames E_RS_cFBInterfaceSpec) = 1"
  by (simp_all add: E_RS_cFBInterfaceSpec_def)

lemma E_RS_ecc_step:
  "E_RS_ecc e st = Return st' \<or> E_RS_ecc e st = Again st' \<Longrightarrow>
   fb_step_in E_RS_cFBInterfaceSpec E_RS_getDOConUnchecked st st'"
  by (auto simp: E_RS_ecc_def E_RS_states Let_def fb_steps split: if_splits)

text \<open>Passes left before the loop of \<open>E-RS\<close> returns.\<close>

definition E_RS_rank :: "TEventID \<Rightarrow> E_RS \<times> ecet option \<Rightarrow> nat" where
  "E_RS_rank e st =
     (if e \<noteq> cgInvalidEventID then 1
      else 0)"

lemma E_RS_ecc_rank:
  "E_RS_ecc e st = Again st' \<Longrightarrow> E_RS_rank cgInvalidEventID st' < E_RS_rank e st"
  by (auto simp: E_RS_ecc_def E_RS_rank_def cgInvalidEventID_def cgInvalidPortId_def
      Let_def fb_fields split: if_splits)

interpretation E_RS_loop: ecc_machine E_RS_ecc
  "fb_step_in E_RS_cFBInterfaceSpec E_RS_getDOConUnchecked" E_RS_rank
  by unfold_locales (simp | blast intro: fb_step_in_trans E_RS_ecc_step E_RS_ecc_rank)+

interpretation E_RS_class: fb_class E_RS_vtable E_RS_cFBInterfaceSpec
proof (unfold_locales, goal_cases)
  case (5 s ei ex)
  then show ?case
    using E_RS_loop.ecc_loop_total [of ei "(s, ex)"]
    by (auto simp: E_RS_vtable_def E_RS_executeEvent_def fb_step_in_def)
qed (auto simp: E_RS_vtable_def E_RS_readInputData_def readData_def E_RS_getDO_def
    E_RS_getDOConUnchecked_def E_RS_cFBInterfaceSpec_def base_def isForced_def count_event_def Let_def
    split: option.splits)

section \<open>E D FF\<close>

text \<open>\<open>stdfblib/events/src/E_D_FF_fbt.cpp\<close>\<close>

abbreviation (input) E_D_FF_scmStateSTART :: "16 word" where "E_D_FF_scmStateSTART \<equiv> 0"
abbreviation (input) E_D_FF_scmStateSET :: "16 word" where "E_D_FF_scmStateSET \<equiv> 1"
abbreviation (input) E_D_FF_scmStateRESET :: "16 word" where "E_D_FF_scmStateRESET \<equiv> 2"
abbreviation (input) E_D_FF_scmEventCLKID :: TEventID where "E_D_FF_scmEventCLKID \<equiv> 0"
abbreviation (input) E_D_FF_scmEventEOID :: TEventID where "E_D_FF_scmEventEOID \<equiv> 0"

definition E_D_FF_cFBInterfaceSpec :: "SFBInterfaceSpec" where
  "E_D_FF_cFBInterfaceSpec =
     \<lparr>mEINames = [Some ''CLK''],
      mEITypeNames = [Some ''Event''],
      mEONames = [Some ''EO''],
      mEOTypeNames = [Some ''Event''],
      mDINames = [Some ''D''],
      mDONames = [Some ''Q''],
      mDIONames = [],
      mSocketNames = [],
      mPlugNames = []\<rparr>"

record E_D_FF = CBasicFB +
  E_D_FF_var_D :: cell
  E_D_FF_var_Q :: cell
  E_D_FF_conn_EO :: CEventConnection
  E_D_FF_conn_D :: "conn_id option"
  E_D_FF_conn_Q :: COutDataConnection

definition FORTE_E_D_FF :: "nat \<Rightarrow> E_D_FF" where
  "FORTE_E_D_FF this =
     \<lparr>mInterfaceSpec = E_D_FF_cFBInterfaceSpec, mEventMonitorCount = [],
      mForces = replicate cgMaxSupportedForceIndex False, mFBState = Idle,
      mInputEventConnectionCount = None, mConnRefCount = 0, mDeletable = True, mECCState = 0,
      E_D_FF_var_D = 0,
      E_D_FF_var_Q = 0,
      E_D_FF_conn_EO = \<lparr>mSourceId = \<lparr>mFB = this, mPortId = 0\<rparr>, mDestinationIds = []\<rparr>,
      E_D_FF_conn_D = None,
      E_D_FF_conn_Q = \<lparr>dc_mSourceId = \<lparr>mFB = this, mPortId = 0\<rparr>, mValue = 0\<rparr>\<rparr>"

definition E_D_FF_setInitialValues :: "E_D_FF \<Rightarrow> E_D_FF" where
  "E_D_FF_setInitialValues s =
     (CBasicFB_setInitialValues s)
       \<lparr>E_D_FF_var_D := setTBOOL8 False, E_D_FF_var_Q := setTBOOL8 False\<rparr>"

definition E_D_FF_getDI :: "TPortId \<Rightarrow> (E_D_FF, cell) ref option" where
  "E_D_FF_getDI i =
     (if i = 0 then Some (Ref E_D_FF_var_D (\<lambda>v. E_D_FF_var_D_update (\<lambda>_. v)))
      else None)"

definition E_D_FF_getDO :: "TPortId \<Rightarrow> (E_D_FF, cell) ref option" where
  "E_D_FF_getDO i =
     (if i = 0 then Some (Ref E_D_FF_var_Q (\<lambda>v. E_D_FF_var_Q_update (\<lambda>_. v)))
      else None)"

definition E_D_FF_getEOConUnchecked :: "TPortId \<Rightarrow> (E_D_FF, CEventConnection) ref option" where
  "E_D_FF_getEOConUnchecked i =
     (if i = 0 then Some (Ref E_D_FF_conn_EO (\<lambda>v. E_D_FF_conn_EO_update (\<lambda>_. v)))
      else None)"

definition E_D_FF_getDIConUnchecked :: "TPortId \<Rightarrow> (E_D_FF, conn_id option) ref option" where
  "E_D_FF_getDIConUnchecked i =
     (if i = 0 then Some (Ref E_D_FF_conn_D (\<lambda>v. E_D_FF_conn_D_update (\<lambda>_. v)))
      else None)"

definition E_D_FF_getDOConUnchecked :: "TPortId \<Rightarrow> (E_D_FF, COutDataConnection) ref option" where
  "E_D_FF_getDOConUnchecked i =
     (if i = 0 then Some (Ref E_D_FF_conn_Q (\<lambda>v. E_D_FF_conn_Q_update (\<lambda>_. v)))
      else None)"

definition E_D_FF_readInputData :: "(conn_id \<Rightarrow> cell) \<Rightarrow> TEventID \<Rightarrow> E_D_FF \<Rightarrow> E_D_FF" where
  "E_D_FF_readInputData env paEIID s =
     (if paEIID = E_D_FF_scmEventCLKID then
        (let s = readData env 0 (Ref E_D_FF_var_D (\<lambda>v. E_D_FF_var_D_update (\<lambda>_. v))) (E_D_FF_conn_D s) s in s)
      else s)"

definition E_D_FF_writeOutputData :: "TEventID \<Rightarrow> E_D_FF \<Rightarrow> E_D_FF" where
  "E_D_FF_writeOutputData paEO s =
     (if paEO = E_D_FF_scmEventEOID then
        (let s = writeData (getNumDIs E_D_FF_cFBInterfaceSpec + 0) (E_D_FF_var_Q s)
            (Ref E_D_FF_conn_Q (\<lambda>v. E_D_FF_conn_Q_update (\<lambda>_. v))) s in s)
      else s)"

definition E_D_FF_alg_LATCH :: "E_D_FF \<Rightarrow> E_D_FF" where
  "E_D_FF_alg_LATCH s =
     (let s = s\<lparr>E_D_FF_var_Q := E_D_FF_var_D s\<rparr> in
      s)"

definition E_D_FF_enterStateSTART :: "E_D_FF \<times> ecet option \<Rightarrow> E_D_FF \<times> ecet option" where
  "E_D_FF_enterStateSTART st =
     (let st = apfst (mECCState_update (\<lambda>_. E_D_FF_scmStateSTART)) st in
      st)"

definition E_D_FF_enterStateSET :: "E_D_FF \<times> ecet option \<Rightarrow> E_D_FF \<times> ecet option" where
  "E_D_FF_enterStateSET st =
     (let st = apfst (mECCState_update (\<lambda>_. E_D_FF_scmStateSET)) st in
      let st = apfst E_D_FF_alg_LATCH st in
      let st = sendOutputEvent E_D_FF_writeOutputData E_D_FF_getEOConUnchecked E_D_FF_scmEventEOID st in
      st)"

definition E_D_FF_enterStateRESET :: "E_D_FF \<times> ecet option \<Rightarrow> E_D_FF \<times> ecet option" where
  "E_D_FF_enterStateRESET st =
     (let st = apfst (mECCState_update (\<lambda>_. E_D_FF_scmStateRESET)) st in
      let st = apfst E_D_FF_alg_LATCH st in
      let st = sendOutputEvent E_D_FF_writeOutputData E_D_FF_getEOConUnchecked E_D_FF_scmEventEOID st in
      st)"

definition E_D_FF_ecc :: "TEventID \<Rightarrow> E_D_FF \<times> ecet option \<Rightarrow> (E_D_FF \<times> ecet option) ecc" where
  "E_D_FF_ecc paEIID st =
     (let s = fst st in
       if mECCState s = E_D_FF_scmStateSTART then
         (if paEIID = E_D_FF_scmEventCLKID \<and> BOOL_value (E_D_FF_var_D s)
          then Again (E_D_FF_enterStateSET st)
          else Return st)
       else if mECCState s = E_D_FF_scmStateSET then
         (if paEIID = E_D_FF_scmEventCLKID \<and> BOOL_value (func_NOT_BOOL (E_D_FF_var_D s))
          then Again (E_D_FF_enterStateRESET st)
          else Return st)
       else if mECCState s = E_D_FF_scmStateRESET then
         (if paEIID = E_D_FF_scmEventCLKID \<and> BOOL_value (E_D_FF_var_D s)
          then Again (E_D_FF_enterStateSET st)
          else Return st)
       else Return (apfst (mECCState_update (\<lambda>_. 0)) st))"

definition E_D_FF_executeEvent :: "TEventID \<Rightarrow> E_D_FF \<times> ecet option \<Rightarrow> (E_D_FF \<times> ecet option) option" where
  "E_D_FF_executeEvent = ecc_loop E_D_FF_ecc"

definition E_D_FF_vtable :: "E_D_FF vtable" where
  "E_D_FF_vtable =
     \<lparr>vt_getDI = E_D_FF_getDI, vt_getDO = E_D_FF_getDO, vt_getDIO = (\<lambda>_. None),
      vt_DItype = (\<lambda>i. if i = 0 then e_BOOL else e_ANY),
      vt_DOtype = (\<lambda>i. if i = 0 then e_BOOL else e_ANY),
      vt_getEOConUnchecked = E_D_FF_getEOConUnchecked,
      vt_getDIConUnchecked = E_D_FF_getDIConUnchecked, vt_getDOConUnchecked = E_D_FF_getDOConUnchecked,
      vt_executeEvent = E_D_FF_executeEvent, vt_readInputData = E_D_FF_readInputData,
      vt_writeOutputData = E_D_FF_writeOutputData, vt_setInitialValues = E_D_FF_setInitialValues\<rparr>"

definition E_D_FF_evt_CLK :: "(conn_id \<Rightarrow> cell) \<Rightarrow> cell \<Rightarrow> E_D_FF \<Rightarrow> (E_D_FF \<times> cell) option" where
  "E_D_FF_evt_CLK env paD s =
     map_option (\<lambda>(s, _). (s, E_D_FF_var_Q s))
       (receiveInputEvent E_D_FF_vtable env E_D_FF_scmEventCLKID (s\<lparr>E_D_FF_var_D := paD\<rparr>, None))"

lemmas E_D_FF_pins = E_D_FF_getDI_def E_D_FF_getDO_def E_D_FF_getEOConUnchecked_def E_D_FF_getDIConUnchecked_def
  E_D_FF_getDOConUnchecked_def

lemmas E_D_FF_algs = E_D_FF_alg_LATCH_def

lemmas E_D_FF_states = E_D_FF_enterStateSTART_def
  E_D_FF_enterStateSET_def
  E_D_FF_enterStateRESET_def

lemma E_D_FF_con_count:
  "con_value E_D_FF_getDOConUnchecked n (count_event i s) = con_value E_D_FF_getDOConUnchecked n s" if "n < getNumDOs E_D_FF_cFBInterfaceSpec"
  using that by (auto simp: E_D_FF_getDOConUnchecked_def E_D_FF_cFBInterfaceSpec_def count_event_def)

lemma E_D_FF_write_frame:
  "base (E_D_FF_writeOutputData eo s) = base s"
  "mEventMonitorCount (E_D_FF_writeOutputData eo s) = mEventMonitorCount s"
  "mECCState (E_D_FF_writeOutputData eo s) = mECCState s"
  "E_D_FF_var_D (E_D_FF_writeOutputData eo s) = E_D_FF_var_D s"
  "E_D_FF_var_Q (E_D_FF_writeOutputData eo s) = E_D_FF_var_Q s"
  "E_D_FF_conn_EO (E_D_FF_writeOutputData eo s) = E_D_FF_conn_EO s"
  "E_D_FF_conn_D (E_D_FF_writeOutputData eo s) = E_D_FF_conn_D s"
  by (simp_all add: E_D_FF_writeOutputData_def writeData_def base_def isForced_def Let_def)

lemma E_D_FF_writeData_forced:
  "forced_in E_D_FF_cFBInterfaceSpec E_D_FF_getDOConUnchecked s s' \<Longrightarrow>
   forced_in E_D_FF_cFBInterfaceSpec E_D_FF_getDOConUnchecked s
     (writeData (getNumDIs E_D_FF_cFBInterfaceSpec + 0) v
       (Ref E_D_FF_conn_Q (\<lambda>v. E_D_FF_conn_Q_update (\<lambda>_. v))) s')"
  by (rule forced_in_writeData;
      auto simp: E_D_FF_getDOConUnchecked_def E_D_FF_cFBInterfaceSpec_def base_def less_Suc_eq)+

lemma E_D_FF_write_forced:
  "mInterfaceSpec s = E_D_FF_cFBInterfaceSpec \<Longrightarrow>
   forced_kept E_D_FF_getDOConUnchecked s (E_D_FF_writeOutputData eo s)"
  unfolding E_D_FF_writeOutputData_def Let_def
  by (intro forced_inD [of E_D_FF_cFBInterfaceSpec] forced_in_if E_D_FF_writeData_forced forced_in_refl)

lemma E_D_FF_send_step [fb_steps]:
  "fb_step_in E_D_FF_cFBInterfaceSpec E_D_FF_getDOConUnchecked st st' \<Longrightarrow>
   fb_step_in E_D_FF_cFBInterfaceSpec E_D_FF_getDOConUnchecked st (sendOutputEvent E_D_FF_writeOutputData geo eo st')"
  by (rule fb_step_in_send [OF E_D_FF_write_frame(1,2) E_D_FF_write_forced E_D_FF_con_count]) assumption+

lemma E_D_FF_send_fields [fb_fields]:
  "mECCState (fst (sendOutputEvent E_D_FF_writeOutputData geo eo st)) = mECCState (fst st)"
  "E_D_FF_var_D (fst (sendOutputEvent E_D_FF_writeOutputData geo eo st)) = E_D_FF_var_D (fst st)"
  "E_D_FF_var_Q (fst (sendOutputEvent E_D_FF_writeOutputData geo eo st)) = E_D_FF_var_Q (fst st)"
  "E_D_FF_conn_EO (fst (sendOutputEvent E_D_FF_writeOutputData geo eo st)) = E_D_FF_conn_EO (fst st)"
  "E_D_FF_conn_D (fst (sendOutputEvent E_D_FF_writeOutputData geo eo st)) = E_D_FF_conn_D (fst st)"
  by (rule sendOutputEvent_field; simp add: E_D_FF_write_frame count_event_def)+

lemma E_D_FF_local_step [fb_steps]:
  "fb_step_in E_D_FF_cFBInterfaceSpec E_D_FF_getDOConUnchecked st st' \<Longrightarrow>
   fb_step_in E_D_FF_cFBInterfaceSpec E_D_FF_getDOConUnchecked st (apfst (mECCState_update (\<lambda>_. v)) st')"
  "fb_step_in E_D_FF_cFBInterfaceSpec E_D_FF_getDOConUnchecked st st' \<Longrightarrow>
   fb_step_in E_D_FF_cFBInterfaceSpec E_D_FF_getDOConUnchecked st (apfst (E_D_FF_alg_LATCH) st')"
  by (rule fb_step_in_local;
      simp add: base_def E_D_FF_cFBInterfaceSpec_def E_D_FF_getDOConUnchecked_def E_D_FF_algs Let_def)+

lemma E_D_FF_enter_ECC [fb_fields]:
  "mECCState (fst (E_D_FF_enterStateSTART st)) = E_D_FF_scmStateSTART"
  "mECCState (fst (E_D_FF_enterStateSET st)) = E_D_FF_scmStateSET"
  "mECCState (fst (E_D_FF_enterStateRESET st)) = E_D_FF_scmStateRESET"
  by (simp_all add: E_D_FF_states fb_fields E_D_FF_algs Let_def)

lemma E_D_FF_sizes [simp]:
  "length (mEINames E_D_FF_cFBInterfaceSpec) = 1" "length (mEONames E_D_FF_cFBInterfaceSpec) = 1"
  "length (mDINames E_D_FF_cFBInterfaceSpec) = 1" "length (mDONames E_D_FF_cFBInterfaceSpec) = 1"
  by (simp_all add: E_D_FF_cFBInterfaceSpec_def)

lemma E_D_FF_ecc_step:
  "E_D_FF_ecc e st = Return st' \<or> E_D_FF_ecc e st = Again st' \<Longrightarrow>
   fb_step_in E_D_FF_cFBInterfaceSpec E_D_FF_getDOConUnchecked st st'"
  by (auto simp: E_D_FF_ecc_def E_D_FF_states Let_def fb_steps split: if_splits)

text \<open>Passes left before the loop of \<open>E-D-FF\<close> returns.\<close>

definition E_D_FF_rank :: "TEventID \<Rightarrow> E_D_FF \<times> ecet option \<Rightarrow> nat" where
  "E_D_FF_rank e st =
     (if e \<noteq> cgInvalidEventID then 1
      else 0)"

lemma E_D_FF_ecc_rank:
  "E_D_FF_ecc e st = Again st' \<Longrightarrow> E_D_FF_rank cgInvalidEventID st' < E_D_FF_rank e st"
  by (auto simp: E_D_FF_ecc_def E_D_FF_rank_def cgInvalidEventID_def cgInvalidPortId_def
      Let_def fb_fields split: if_splits)

interpretation E_D_FF_loop: ecc_machine E_D_FF_ecc
  "fb_step_in E_D_FF_cFBInterfaceSpec E_D_FF_getDOConUnchecked" E_D_FF_rank
  by unfold_locales (simp | blast intro: fb_step_in_trans E_D_FF_ecc_step E_D_FF_ecc_rank)+

interpretation E_D_FF_class: fb_class E_D_FF_vtable E_D_FF_cFBInterfaceSpec
proof (unfold_locales, goal_cases)
  case (5 s ei ex)
  then show ?case
    using E_D_FF_loop.ecc_loop_total [of ei "(s, ex)"]
    by (auto simp: E_D_FF_vtable_def E_D_FF_executeEvent_def fb_step_in_def)
qed (auto simp: E_D_FF_vtable_def E_D_FF_readInputData_def readData_def E_D_FF_getDO_def
    E_D_FF_getDOConUnchecked_def E_D_FF_cFBInterfaceSpec_def base_def isForced_def count_event_def Let_def
    split: option.splits)

section \<open>E T FF\<close>

text \<open>\<open>stdfblib/events/src/E_T_FF_fbt.cpp\<close>\<close>

abbreviation (input) E_T_FF_scmStateSTART :: "16 word" where "E_T_FF_scmStateSTART \<equiv> 0"
abbreviation (input) E_T_FF_scmStateSET :: "16 word" where "E_T_FF_scmStateSET \<equiv> 1"
abbreviation (input) E_T_FF_scmEventCLKID :: TEventID where "E_T_FF_scmEventCLKID \<equiv> 0"
abbreviation (input) E_T_FF_scmEventEOID :: TEventID where "E_T_FF_scmEventEOID \<equiv> 0"

definition E_T_FF_cFBInterfaceSpec :: "SFBInterfaceSpec" where
  "E_T_FF_cFBInterfaceSpec =
     \<lparr>mEINames = [Some ''CLK''],
      mEITypeNames = [],
      mEONames = [Some ''EO''],
      mEOTypeNames = [],
      mDINames = [],
      mDONames = [Some ''Q''],
      mDIONames = [],
      mSocketNames = [],
      mPlugNames = []\<rparr>"

record E_T_FF = CBasicFB +
  E_T_FF_var_Q :: cell
  E_T_FF_conn_EO :: CEventConnection
  E_T_FF_conn_Q :: COutDataConnection

definition FORTE_E_T_FF :: "nat \<Rightarrow> E_T_FF" where
  "FORTE_E_T_FF this =
     \<lparr>mInterfaceSpec = E_T_FF_cFBInterfaceSpec, mEventMonitorCount = [],
      mForces = replicate cgMaxSupportedForceIndex False, mFBState = Idle,
      mInputEventConnectionCount = None, mConnRefCount = 0, mDeletable = True, mECCState = 0,
      E_T_FF_var_Q = 0,
      E_T_FF_conn_EO = \<lparr>mSourceId = \<lparr>mFB = this, mPortId = 0\<rparr>, mDestinationIds = []\<rparr>,
      E_T_FF_conn_Q = \<lparr>dc_mSourceId = \<lparr>mFB = this, mPortId = 0\<rparr>, mValue = 0\<rparr>\<rparr>"

definition E_T_FF_setInitialValues :: "E_T_FF \<Rightarrow> E_T_FF" where
  "E_T_FF_setInitialValues s =
     (CBasicFB_setInitialValues s)
       \<lparr>E_T_FF_var_Q := setTBOOL8 False\<rparr>"

definition E_T_FF_getDI :: "TPortId \<Rightarrow> (E_T_FF, cell) ref option" where
  "E_T_FF_getDI i =
     (None)"

definition E_T_FF_getDO :: "TPortId \<Rightarrow> (E_T_FF, cell) ref option" where
  "E_T_FF_getDO i =
     (if i = 0 then Some (Ref E_T_FF_var_Q (\<lambda>v. E_T_FF_var_Q_update (\<lambda>_. v)))
      else None)"

definition E_T_FF_getEOConUnchecked :: "TPortId \<Rightarrow> (E_T_FF, CEventConnection) ref option" where
  "E_T_FF_getEOConUnchecked i =
     (if i = 0 then Some (Ref E_T_FF_conn_EO (\<lambda>v. E_T_FF_conn_EO_update (\<lambda>_. v)))
      else None)"

definition E_T_FF_getDIConUnchecked :: "TPortId \<Rightarrow> (E_T_FF, conn_id option) ref option" where
  "E_T_FF_getDIConUnchecked i =
     (None)"

definition E_T_FF_getDOConUnchecked :: "TPortId \<Rightarrow> (E_T_FF, COutDataConnection) ref option" where
  "E_T_FF_getDOConUnchecked i =
     (if i = 0 then Some (Ref E_T_FF_conn_Q (\<lambda>v. E_T_FF_conn_Q_update (\<lambda>_. v)))
      else None)"

definition E_T_FF_readInputData :: "(conn_id \<Rightarrow> cell) \<Rightarrow> TEventID \<Rightarrow> E_T_FF \<Rightarrow> E_T_FF" where
  "E_T_FF_readInputData env paEIID s =
     (s)"

definition E_T_FF_writeOutputData :: "TEventID \<Rightarrow> E_T_FF \<Rightarrow> E_T_FF" where
  "E_T_FF_writeOutputData paEO s =
     (if paEO = E_T_FF_scmEventEOID then
        (let s = writeData (getNumDIs E_T_FF_cFBInterfaceSpec + 0) (E_T_FF_var_Q s)
            (Ref E_T_FF_conn_Q (\<lambda>v. E_T_FF_conn_Q_update (\<lambda>_. v))) s in s)
      else s)"

definition E_T_FF_alg_TOGGLE :: "E_T_FF \<Rightarrow> E_T_FF" where
  "E_T_FF_alg_TOGGLE s =
     (let s = s\<lparr>E_T_FF_var_Q := func_NOT_BOOL (E_T_FF_var_Q s)\<rparr> in
      s)"

definition E_T_FF_enterStateSTART :: "E_T_FF \<times> ecet option \<Rightarrow> E_T_FF \<times> ecet option" where
  "E_T_FF_enterStateSTART st =
     (let st = apfst (mECCState_update (\<lambda>_. E_T_FF_scmStateSTART)) st in
      st)"

definition E_T_FF_enterStateSET :: "E_T_FF \<times> ecet option \<Rightarrow> E_T_FF \<times> ecet option" where
  "E_T_FF_enterStateSET st =
     (let st = apfst (mECCState_update (\<lambda>_. E_T_FF_scmStateSET)) st in
      let st = apfst E_T_FF_alg_TOGGLE st in
      let st = sendOutputEvent E_T_FF_writeOutputData E_T_FF_getEOConUnchecked E_T_FF_scmEventEOID st in
      st)"

definition E_T_FF_ecc :: "TEventID \<Rightarrow> E_T_FF \<times> ecet option \<Rightarrow> (E_T_FF \<times> ecet option) ecc" where
  "E_T_FF_ecc paEIID st =
     (let s = fst st in
       if mECCState s = E_T_FF_scmStateSTART then
         (if paEIID = E_T_FF_scmEventCLKID
          then Again (E_T_FF_enterStateSET st)
          else Return st)
       else if mECCState s = E_T_FF_scmStateSET then
         (Again (E_T_FF_enterStateSTART st))
       else Return (apfst (mECCState_update (\<lambda>_. 0)) st))"

definition E_T_FF_executeEvent :: "TEventID \<Rightarrow> E_T_FF \<times> ecet option \<Rightarrow> (E_T_FF \<times> ecet option) option" where
  "E_T_FF_executeEvent = ecc_loop E_T_FF_ecc"

definition E_T_FF_vtable :: "E_T_FF vtable" where
  "E_T_FF_vtable =
     \<lparr>vt_getDI = E_T_FF_getDI, vt_getDO = E_T_FF_getDO, vt_getDIO = (\<lambda>_. None),
      vt_DItype = (\<lambda>i. e_ANY),
      vt_DOtype = (\<lambda>i. if i = 0 then e_BOOL else e_ANY),
      vt_getEOConUnchecked = E_T_FF_getEOConUnchecked,
      vt_getDIConUnchecked = E_T_FF_getDIConUnchecked, vt_getDOConUnchecked = E_T_FF_getDOConUnchecked,
      vt_executeEvent = E_T_FF_executeEvent, vt_readInputData = E_T_FF_readInputData,
      vt_writeOutputData = E_T_FF_writeOutputData, vt_setInitialValues = E_T_FF_setInitialValues\<rparr>"

definition E_T_FF_evt_CLK :: "(conn_id \<Rightarrow> cell) \<Rightarrow> E_T_FF \<Rightarrow> (E_T_FF \<times> cell) option" where
  "E_T_FF_evt_CLK env s =
     map_option (\<lambda>(s, _). (s, E_T_FF_var_Q s))
       (receiveInputEvent E_T_FF_vtable env E_T_FF_scmEventCLKID (s, None))"

lemmas E_T_FF_pins = E_T_FF_getDI_def E_T_FF_getDO_def E_T_FF_getEOConUnchecked_def E_T_FF_getDIConUnchecked_def
  E_T_FF_getDOConUnchecked_def

lemmas E_T_FF_algs = E_T_FF_alg_TOGGLE_def

lemmas E_T_FF_states = E_T_FF_enterStateSTART_def
  E_T_FF_enterStateSET_def

lemma E_T_FF_con_count:
  "con_value E_T_FF_getDOConUnchecked n (count_event i s) = con_value E_T_FF_getDOConUnchecked n s" if "n < getNumDOs E_T_FF_cFBInterfaceSpec"
  using that by (auto simp: E_T_FF_getDOConUnchecked_def E_T_FF_cFBInterfaceSpec_def count_event_def)

lemma E_T_FF_write_frame:
  "base (E_T_FF_writeOutputData eo s) = base s"
  "mEventMonitorCount (E_T_FF_writeOutputData eo s) = mEventMonitorCount s"
  "mECCState (E_T_FF_writeOutputData eo s) = mECCState s"
  "E_T_FF_var_Q (E_T_FF_writeOutputData eo s) = E_T_FF_var_Q s"
  "E_T_FF_conn_EO (E_T_FF_writeOutputData eo s) = E_T_FF_conn_EO s"
  by (simp_all add: E_T_FF_writeOutputData_def writeData_def base_def isForced_def Let_def)

lemma E_T_FF_writeData_forced:
  "forced_in E_T_FF_cFBInterfaceSpec E_T_FF_getDOConUnchecked s s' \<Longrightarrow>
   forced_in E_T_FF_cFBInterfaceSpec E_T_FF_getDOConUnchecked s
     (writeData (getNumDIs E_T_FF_cFBInterfaceSpec + 0) v
       (Ref E_T_FF_conn_Q (\<lambda>v. E_T_FF_conn_Q_update (\<lambda>_. v))) s')"
  by (rule forced_in_writeData;
      auto simp: E_T_FF_getDOConUnchecked_def E_T_FF_cFBInterfaceSpec_def base_def less_Suc_eq)+

lemma E_T_FF_write_forced:
  "mInterfaceSpec s = E_T_FF_cFBInterfaceSpec \<Longrightarrow>
   forced_kept E_T_FF_getDOConUnchecked s (E_T_FF_writeOutputData eo s)"
  unfolding E_T_FF_writeOutputData_def Let_def
  by (intro forced_inD [of E_T_FF_cFBInterfaceSpec] forced_in_if E_T_FF_writeData_forced forced_in_refl)

lemma E_T_FF_send_step [fb_steps]:
  "fb_step_in E_T_FF_cFBInterfaceSpec E_T_FF_getDOConUnchecked st st' \<Longrightarrow>
   fb_step_in E_T_FF_cFBInterfaceSpec E_T_FF_getDOConUnchecked st (sendOutputEvent E_T_FF_writeOutputData geo eo st')"
  by (rule fb_step_in_send [OF E_T_FF_write_frame(1,2) E_T_FF_write_forced E_T_FF_con_count]) assumption+

lemma E_T_FF_send_fields [fb_fields]:
  "mECCState (fst (sendOutputEvent E_T_FF_writeOutputData geo eo st)) = mECCState (fst st)"
  "E_T_FF_var_Q (fst (sendOutputEvent E_T_FF_writeOutputData geo eo st)) = E_T_FF_var_Q (fst st)"
  "E_T_FF_conn_EO (fst (sendOutputEvent E_T_FF_writeOutputData geo eo st)) = E_T_FF_conn_EO (fst st)"
  by (rule sendOutputEvent_field; simp add: E_T_FF_write_frame count_event_def)+

lemma E_T_FF_local_step [fb_steps]:
  "fb_step_in E_T_FF_cFBInterfaceSpec E_T_FF_getDOConUnchecked st st' \<Longrightarrow>
   fb_step_in E_T_FF_cFBInterfaceSpec E_T_FF_getDOConUnchecked st (apfst (mECCState_update (\<lambda>_. v)) st')"
  "fb_step_in E_T_FF_cFBInterfaceSpec E_T_FF_getDOConUnchecked st st' \<Longrightarrow>
   fb_step_in E_T_FF_cFBInterfaceSpec E_T_FF_getDOConUnchecked st (apfst (E_T_FF_alg_TOGGLE) st')"
  by (rule fb_step_in_local;
      simp add: base_def E_T_FF_cFBInterfaceSpec_def E_T_FF_getDOConUnchecked_def E_T_FF_algs Let_def)+

lemma E_T_FF_enter_ECC [fb_fields]:
  "mECCState (fst (E_T_FF_enterStateSTART st)) = E_T_FF_scmStateSTART"
  "mECCState (fst (E_T_FF_enterStateSET st)) = E_T_FF_scmStateSET"
  by (simp_all add: E_T_FF_states fb_fields E_T_FF_algs Let_def)

lemma E_T_FF_sizes [simp]:
  "length (mEINames E_T_FF_cFBInterfaceSpec) = 1" "length (mEONames E_T_FF_cFBInterfaceSpec) = 1"
  "length (mDINames E_T_FF_cFBInterfaceSpec) = 0" "length (mDONames E_T_FF_cFBInterfaceSpec) = 1"
  by (simp_all add: E_T_FF_cFBInterfaceSpec_def)

lemma E_T_FF_ecc_step:
  "E_T_FF_ecc e st = Return st' \<or> E_T_FF_ecc e st = Again st' \<Longrightarrow>
   fb_step_in E_T_FF_cFBInterfaceSpec E_T_FF_getDOConUnchecked st st'"
  by (auto simp: E_T_FF_ecc_def E_T_FF_states Let_def fb_steps split: if_splits)

text \<open>Passes left before the loop of \<open>E-T-FF\<close> returns.\<close>

definition E_T_FF_rank :: "TEventID \<Rightarrow> E_T_FF \<times> ecet option \<Rightarrow> nat" where
  "E_T_FF_rank e st =
     (if e \<noteq> cgInvalidEventID then 2
      else if mECCState (fst st) = E_T_FF_scmStateSET then 1
      else 0)"

lemma E_T_FF_ecc_rank:
  "E_T_FF_ecc e st = Again st' \<Longrightarrow> E_T_FF_rank cgInvalidEventID st' < E_T_FF_rank e st"
  by (auto simp: E_T_FF_ecc_def E_T_FF_rank_def cgInvalidEventID_def cgInvalidPortId_def
      Let_def fb_fields split: if_splits)

interpretation E_T_FF_loop: ecc_machine E_T_FF_ecc
  "fb_step_in E_T_FF_cFBInterfaceSpec E_T_FF_getDOConUnchecked" E_T_FF_rank
  by unfold_locales (simp | blast intro: fb_step_in_trans E_T_FF_ecc_step E_T_FF_ecc_rank)+

interpretation E_T_FF_class: fb_class E_T_FF_vtable E_T_FF_cFBInterfaceSpec
proof (unfold_locales, goal_cases)
  case (5 s ei ex)
  then show ?case
    using E_T_FF_loop.ecc_loop_total [of ei "(s, ex)"]
    by (auto simp: E_T_FF_vtable_def E_T_FF_executeEvent_def fb_step_in_def)
qed (auto simp: E_T_FF_vtable_def E_T_FF_readInputData_def readData_def E_T_FF_getDO_def
    E_T_FF_getDOConUnchecked_def E_T_FF_cFBInterfaceSpec_def base_def isForced_def count_event_def Let_def
    split: option.splits)

section \<open>E T FF SR\<close>

text \<open>\<open>stdfblib/events/src/E_T_FF_SR_fbt.cpp\<close>\<close>

abbreviation (input) E_T_FF_SR_scmStateSTART :: "16 word" where "E_T_FF_SR_scmStateSTART \<equiv> 0"
abbreviation (input) E_T_FF_SR_scmStateSET :: "16 word" where "E_T_FF_SR_scmStateSET \<equiv> 1"
abbreviation (input) E_T_FF_SR_scmStateRESET :: "16 word" where "E_T_FF_SR_scmStateRESET \<equiv> 2"
abbreviation (input) E_T_FF_SR_scmEventSID :: TEventID where "E_T_FF_SR_scmEventSID \<equiv> 0"
abbreviation (input) E_T_FF_SR_scmEventRID :: TEventID where "E_T_FF_SR_scmEventRID \<equiv> 1"
abbreviation (input) E_T_FF_SR_scmEventCLKID :: TEventID where "E_T_FF_SR_scmEventCLKID \<equiv> 2"
abbreviation (input) E_T_FF_SR_scmEventEOID :: TEventID where "E_T_FF_SR_scmEventEOID \<equiv> 0"

definition E_T_FF_SR_cFBInterfaceSpec :: "SFBInterfaceSpec" where
  "E_T_FF_SR_cFBInterfaceSpec =
     \<lparr>mEINames = [Some ''S'', Some ''R'', Some ''CLK''],
      mEITypeNames = [],
      mEONames = [Some ''EO''],
      mEOTypeNames = [],
      mDINames = [],
      mDONames = [Some ''Q''],
      mDIONames = [],
      mSocketNames = [],
      mPlugNames = []\<rparr>"

record E_T_FF_SR = CBasicFB +
  E_T_FF_SR_var_Q :: cell
  E_T_FF_SR_conn_EO :: CEventConnection
  E_T_FF_SR_conn_Q :: COutDataConnection

definition FORTE_E_T_FF_SR :: "nat \<Rightarrow> E_T_FF_SR" where
  "FORTE_E_T_FF_SR this =
     \<lparr>mInterfaceSpec = E_T_FF_SR_cFBInterfaceSpec, mEventMonitorCount = [],
      mForces = replicate cgMaxSupportedForceIndex False, mFBState = Idle,
      mInputEventConnectionCount = None, mConnRefCount = 0, mDeletable = True, mECCState = 0,
      E_T_FF_SR_var_Q = 0,
      E_T_FF_SR_conn_EO = \<lparr>mSourceId = \<lparr>mFB = this, mPortId = 0\<rparr>, mDestinationIds = []\<rparr>,
      E_T_FF_SR_conn_Q = \<lparr>dc_mSourceId = \<lparr>mFB = this, mPortId = 0\<rparr>, mValue = 0\<rparr>\<rparr>"

definition E_T_FF_SR_setInitialValues :: "E_T_FF_SR \<Rightarrow> E_T_FF_SR" where
  "E_T_FF_SR_setInitialValues s =
     (CBasicFB_setInitialValues s)
       \<lparr>E_T_FF_SR_var_Q := setTBOOL8 False\<rparr>"

definition E_T_FF_SR_getDI :: "TPortId \<Rightarrow> (E_T_FF_SR, cell) ref option" where
  "E_T_FF_SR_getDI i =
     (None)"

definition E_T_FF_SR_getDO :: "TPortId \<Rightarrow> (E_T_FF_SR, cell) ref option" where
  "E_T_FF_SR_getDO i =
     (if i = 0 then Some (Ref E_T_FF_SR_var_Q (\<lambda>v. E_T_FF_SR_var_Q_update (\<lambda>_. v)))
      else None)"

definition E_T_FF_SR_getEOConUnchecked :: "TPortId \<Rightarrow> (E_T_FF_SR, CEventConnection) ref option" where
  "E_T_FF_SR_getEOConUnchecked i =
     (if i = 0 then Some (Ref E_T_FF_SR_conn_EO (\<lambda>v. E_T_FF_SR_conn_EO_update (\<lambda>_. v)))
      else None)"

definition E_T_FF_SR_getDIConUnchecked :: "TPortId \<Rightarrow> (E_T_FF_SR, conn_id option) ref option" where
  "E_T_FF_SR_getDIConUnchecked i =
     (None)"

definition E_T_FF_SR_getDOConUnchecked :: "TPortId \<Rightarrow> (E_T_FF_SR, COutDataConnection) ref option" where
  "E_T_FF_SR_getDOConUnchecked i =
     (if i = 0 then Some (Ref E_T_FF_SR_conn_Q (\<lambda>v. E_T_FF_SR_conn_Q_update (\<lambda>_. v)))
      else None)"

definition E_T_FF_SR_readInputData :: "(conn_id \<Rightarrow> cell) \<Rightarrow> TEventID \<Rightarrow> E_T_FF_SR \<Rightarrow> E_T_FF_SR" where
  "E_T_FF_SR_readInputData env paEIID s =
     (s)"

definition E_T_FF_SR_writeOutputData :: "TEventID \<Rightarrow> E_T_FF_SR \<Rightarrow> E_T_FF_SR" where
  "E_T_FF_SR_writeOutputData paEO s =
     (if paEO = E_T_FF_SR_scmEventEOID then
        (let s = writeData (getNumDIs E_T_FF_SR_cFBInterfaceSpec + 0) (E_T_FF_SR_var_Q s)
            (Ref E_T_FF_SR_conn_Q (\<lambda>v. E_T_FF_SR_conn_Q_update (\<lambda>_. v))) s in s)
      else s)"

definition E_T_FF_SR_alg_SET :: "E_T_FF_SR \<Rightarrow> E_T_FF_SR" where
  "E_T_FF_SR_alg_SET s =
     (let s = s\<lparr>E_T_FF_SR_var_Q := setTBOOL8 True\<rparr> in
      s)"

definition E_T_FF_SR_alg_RESET :: "E_T_FF_SR \<Rightarrow> E_T_FF_SR" where
  "E_T_FF_SR_alg_RESET s =
     (let s = s\<lparr>E_T_FF_SR_var_Q := setTBOOL8 False\<rparr> in
      s)"

definition E_T_FF_SR_enterStateSTART :: "E_T_FF_SR \<times> ecet option \<Rightarrow> E_T_FF_SR \<times> ecet option" where
  "E_T_FF_SR_enterStateSTART st =
     (let st = apfst (mECCState_update (\<lambda>_. E_T_FF_SR_scmStateSTART)) st in
      st)"

definition E_T_FF_SR_enterStateSET :: "E_T_FF_SR \<times> ecet option \<Rightarrow> E_T_FF_SR \<times> ecet option" where
  "E_T_FF_SR_enterStateSET st =
     (let st = apfst (mECCState_update (\<lambda>_. E_T_FF_SR_scmStateSET)) st in
      let st = apfst E_T_FF_SR_alg_SET st in
      let st = sendOutputEvent E_T_FF_SR_writeOutputData E_T_FF_SR_getEOConUnchecked E_T_FF_SR_scmEventEOID st in
      st)"

definition E_T_FF_SR_enterStateRESET :: "E_T_FF_SR \<times> ecet option \<Rightarrow> E_T_FF_SR \<times> ecet option" where
  "E_T_FF_SR_enterStateRESET st =
     (let st = apfst (mECCState_update (\<lambda>_. E_T_FF_SR_scmStateRESET)) st in
      let st = apfst E_T_FF_SR_alg_RESET st in
      let st = sendOutputEvent E_T_FF_SR_writeOutputData E_T_FF_SR_getEOConUnchecked E_T_FF_SR_scmEventEOID st in
      st)"

definition E_T_FF_SR_ecc :: "TEventID \<Rightarrow> E_T_FF_SR \<times> ecet option \<Rightarrow> (E_T_FF_SR \<times> ecet option) ecc" where
  "E_T_FF_SR_ecc paEIID st =
     (let s = fst st in
       if mECCState s = E_T_FF_SR_scmStateSTART then
         (if paEIID = E_T_FF_SR_scmEventSID
          then Again (E_T_FF_SR_enterStateSET st)
          else if paEIID = E_T_FF_SR_scmEventCLKID
          then Again (E_T_FF_SR_enterStateSET st)
          else Return st)
       else if mECCState s = E_T_FF_SR_scmStateSET then
         (if paEIID = E_T_FF_SR_scmEventRID
          then Again (E_T_FF_SR_enterStateRESET st)
          else if paEIID = E_T_FF_SR_scmEventCLKID
          then Again (E_T_FF_SR_enterStateRESET st)
          else Return st)
       else if mECCState s = E_T_FF_SR_scmStateRESET then
         (if paEIID = E_T_FF_SR_scmEventSID
          then Again (E_T_FF_SR_enterStateSET st)
          else if paEIID = E_T_FF_SR_scmEventCLKID
          then Again (E_T_FF_SR_enterStateSET st)
          else Return st)
       else Return (apfst (mECCState_update (\<lambda>_. 0)) st))"

definition E_T_FF_SR_executeEvent :: "TEventID \<Rightarrow> E_T_FF_SR \<times> ecet option \<Rightarrow> (E_T_FF_SR \<times> ecet option) option" where
  "E_T_FF_SR_executeEvent = ecc_loop E_T_FF_SR_ecc"

definition E_T_FF_SR_vtable :: "E_T_FF_SR vtable" where
  "E_T_FF_SR_vtable =
     \<lparr>vt_getDI = E_T_FF_SR_getDI, vt_getDO = E_T_FF_SR_getDO, vt_getDIO = (\<lambda>_. None),
      vt_DItype = (\<lambda>i. e_ANY),
      vt_DOtype = (\<lambda>i. if i = 0 then e_BOOL else e_ANY),
      vt_getEOConUnchecked = E_T_FF_SR_getEOConUnchecked,
      vt_getDIConUnchecked = E_T_FF_SR_getDIConUnchecked, vt_getDOConUnchecked = E_T_FF_SR_getDOConUnchecked,
      vt_executeEvent = E_T_FF_SR_executeEvent, vt_readInputData = E_T_FF_SR_readInputData,
      vt_writeOutputData = E_T_FF_SR_writeOutputData, vt_setInitialValues = E_T_FF_SR_setInitialValues\<rparr>"

definition E_T_FF_SR_evt_S :: "E_T_FF_SR \<Rightarrow> (E_T_FF_SR \<times> cell) option" where
  "E_T_FF_SR_evt_S s =
     map_option (\<lambda>(s, _). (s, E_T_FF_SR_var_Q s))
       (E_T_FF_SR_executeEvent E_T_FF_SR_scmEventSID (s, None))"

definition E_T_FF_SR_evt_R :: "E_T_FF_SR \<Rightarrow> (E_T_FF_SR \<times> cell) option" where
  "E_T_FF_SR_evt_R s =
     map_option (\<lambda>(s, _). (s, E_T_FF_SR_var_Q s))
       (E_T_FF_SR_executeEvent E_T_FF_SR_scmEventRID (s, None))"

definition E_T_FF_SR_evt_CLK :: "E_T_FF_SR \<Rightarrow> (E_T_FF_SR \<times> cell) option" where
  "E_T_FF_SR_evt_CLK s =
     map_option (\<lambda>(s, _). (s, E_T_FF_SR_var_Q s))
       (E_T_FF_SR_executeEvent E_T_FF_SR_scmEventCLKID (s, None))"

lemmas E_T_FF_SR_pins = E_T_FF_SR_getDI_def E_T_FF_SR_getDO_def E_T_FF_SR_getEOConUnchecked_def E_T_FF_SR_getDIConUnchecked_def
  E_T_FF_SR_getDOConUnchecked_def

lemmas E_T_FF_SR_algs = E_T_FF_SR_alg_SET_def E_T_FF_SR_alg_RESET_def

lemmas E_T_FF_SR_states = E_T_FF_SR_enterStateSTART_def
  E_T_FF_SR_enterStateSET_def
  E_T_FF_SR_enterStateRESET_def

lemma E_T_FF_SR_con_count:
  "con_value E_T_FF_SR_getDOConUnchecked n (count_event i s) = con_value E_T_FF_SR_getDOConUnchecked n s" if "n < getNumDOs E_T_FF_SR_cFBInterfaceSpec"
  using that by (auto simp: E_T_FF_SR_getDOConUnchecked_def E_T_FF_SR_cFBInterfaceSpec_def count_event_def)

lemma E_T_FF_SR_write_frame:
  "base (E_T_FF_SR_writeOutputData eo s) = base s"
  "mEventMonitorCount (E_T_FF_SR_writeOutputData eo s) = mEventMonitorCount s"
  "mECCState (E_T_FF_SR_writeOutputData eo s) = mECCState s"
  "E_T_FF_SR_var_Q (E_T_FF_SR_writeOutputData eo s) = E_T_FF_SR_var_Q s"
  "E_T_FF_SR_conn_EO (E_T_FF_SR_writeOutputData eo s) = E_T_FF_SR_conn_EO s"
  by (simp_all add: E_T_FF_SR_writeOutputData_def writeData_def base_def isForced_def Let_def)

lemma E_T_FF_SR_writeData_forced:
  "forced_in E_T_FF_SR_cFBInterfaceSpec E_T_FF_SR_getDOConUnchecked s s' \<Longrightarrow>
   forced_in E_T_FF_SR_cFBInterfaceSpec E_T_FF_SR_getDOConUnchecked s
     (writeData (getNumDIs E_T_FF_SR_cFBInterfaceSpec + 0) v
       (Ref E_T_FF_SR_conn_Q (\<lambda>v. E_T_FF_SR_conn_Q_update (\<lambda>_. v))) s')"
  by (rule forced_in_writeData;
      auto simp: E_T_FF_SR_getDOConUnchecked_def E_T_FF_SR_cFBInterfaceSpec_def base_def less_Suc_eq)+

lemma E_T_FF_SR_write_forced:
  "mInterfaceSpec s = E_T_FF_SR_cFBInterfaceSpec \<Longrightarrow>
   forced_kept E_T_FF_SR_getDOConUnchecked s (E_T_FF_SR_writeOutputData eo s)"
  unfolding E_T_FF_SR_writeOutputData_def Let_def
  by (intro forced_inD [of E_T_FF_SR_cFBInterfaceSpec] forced_in_if E_T_FF_SR_writeData_forced forced_in_refl)

lemma E_T_FF_SR_send_step [fb_steps]:
  "fb_step_in E_T_FF_SR_cFBInterfaceSpec E_T_FF_SR_getDOConUnchecked st st' \<Longrightarrow>
   fb_step_in E_T_FF_SR_cFBInterfaceSpec E_T_FF_SR_getDOConUnchecked st (sendOutputEvent E_T_FF_SR_writeOutputData geo eo st')"
  by (rule fb_step_in_send [OF E_T_FF_SR_write_frame(1,2) E_T_FF_SR_write_forced E_T_FF_SR_con_count]) assumption+

lemma E_T_FF_SR_send_fields [fb_fields]:
  "mECCState (fst (sendOutputEvent E_T_FF_SR_writeOutputData geo eo st)) = mECCState (fst st)"
  "E_T_FF_SR_var_Q (fst (sendOutputEvent E_T_FF_SR_writeOutputData geo eo st)) = E_T_FF_SR_var_Q (fst st)"
  "E_T_FF_SR_conn_EO (fst (sendOutputEvent E_T_FF_SR_writeOutputData geo eo st)) = E_T_FF_SR_conn_EO (fst st)"
  by (rule sendOutputEvent_field; simp add: E_T_FF_SR_write_frame count_event_def)+

lemma E_T_FF_SR_local_step [fb_steps]:
  "fb_step_in E_T_FF_SR_cFBInterfaceSpec E_T_FF_SR_getDOConUnchecked st st' \<Longrightarrow>
   fb_step_in E_T_FF_SR_cFBInterfaceSpec E_T_FF_SR_getDOConUnchecked st (apfst (mECCState_update (\<lambda>_. v)) st')"
  "fb_step_in E_T_FF_SR_cFBInterfaceSpec E_T_FF_SR_getDOConUnchecked st st' \<Longrightarrow>
   fb_step_in E_T_FF_SR_cFBInterfaceSpec E_T_FF_SR_getDOConUnchecked st (apfst (E_T_FF_SR_alg_SET) st')"
  "fb_step_in E_T_FF_SR_cFBInterfaceSpec E_T_FF_SR_getDOConUnchecked st st' \<Longrightarrow>
   fb_step_in E_T_FF_SR_cFBInterfaceSpec E_T_FF_SR_getDOConUnchecked st (apfst (E_T_FF_SR_alg_RESET) st')"
  by (rule fb_step_in_local;
      simp add: base_def E_T_FF_SR_cFBInterfaceSpec_def E_T_FF_SR_getDOConUnchecked_def E_T_FF_SR_algs Let_def)+

lemma E_T_FF_SR_enter_ECC [fb_fields]:
  "mECCState (fst (E_T_FF_SR_enterStateSTART st)) = E_T_FF_SR_scmStateSTART"
  "mECCState (fst (E_T_FF_SR_enterStateSET st)) = E_T_FF_SR_scmStateSET"
  "mECCState (fst (E_T_FF_SR_enterStateRESET st)) = E_T_FF_SR_scmStateRESET"
  by (simp_all add: E_T_FF_SR_states fb_fields E_T_FF_SR_algs Let_def)

lemma E_T_FF_SR_sizes [simp]:
  "length (mEINames E_T_FF_SR_cFBInterfaceSpec) = 3" "length (mEONames E_T_FF_SR_cFBInterfaceSpec) = 1"
  "length (mDINames E_T_FF_SR_cFBInterfaceSpec) = 0" "length (mDONames E_T_FF_SR_cFBInterfaceSpec) = 1"
  by (simp_all add: E_T_FF_SR_cFBInterfaceSpec_def)

lemma E_T_FF_SR_ecc_step:
  "E_T_FF_SR_ecc e st = Return st' \<or> E_T_FF_SR_ecc e st = Again st' \<Longrightarrow>
   fb_step_in E_T_FF_SR_cFBInterfaceSpec E_T_FF_SR_getDOConUnchecked st st'"
  by (auto simp: E_T_FF_SR_ecc_def E_T_FF_SR_states Let_def fb_steps split: if_splits)

text \<open>Passes left before the loop of \<open>E-T-FF-SR\<close> returns.\<close>

definition E_T_FF_SR_rank :: "TEventID \<Rightarrow> E_T_FF_SR \<times> ecet option \<Rightarrow> nat" where
  "E_T_FF_SR_rank e st =
     (if e \<noteq> cgInvalidEventID then 1
      else 0)"

lemma E_T_FF_SR_ecc_rank:
  "E_T_FF_SR_ecc e st = Again st' \<Longrightarrow> E_T_FF_SR_rank cgInvalidEventID st' < E_T_FF_SR_rank e st"
  by (auto simp: E_T_FF_SR_ecc_def E_T_FF_SR_rank_def cgInvalidEventID_def cgInvalidPortId_def
      Let_def fb_fields split: if_splits)

interpretation E_T_FF_SR_loop: ecc_machine E_T_FF_SR_ecc
  "fb_step_in E_T_FF_SR_cFBInterfaceSpec E_T_FF_SR_getDOConUnchecked" E_T_FF_SR_rank
  by unfold_locales (simp | blast intro: fb_step_in_trans E_T_FF_SR_ecc_step E_T_FF_SR_ecc_rank)+

interpretation E_T_FF_SR_class: fb_class E_T_FF_SR_vtable E_T_FF_SR_cFBInterfaceSpec
proof (unfold_locales, goal_cases)
  case (5 s ei ex)
  then show ?case
    using E_T_FF_SR_loop.ecc_loop_total [of ei "(s, ex)"]
    by (auto simp: E_T_FF_SR_vtable_def E_T_FF_SR_executeEvent_def fb_step_in_def)
qed (auto simp: E_T_FF_SR_vtable_def E_T_FF_SR_readInputData_def readData_def E_T_FF_SR_getDO_def
    E_T_FF_SR_getDOConUnchecked_def E_T_FF_SR_cFBInterfaceSpec_def base_def isForced_def count_event_def Let_def
    split: option.splits)

section \<open>Behaviour\<close>

lemma E_SR_exec:
  "E_SR_executeEvent e (s, ex) = Some
     (if mECCState s \<in> {0, 2} \<and> e = 0 then E_SR_enterStateSET (s, ex)
      else if mECCState s = 1 \<and> e = 1 then E_SR_enterStateRESET (s, ex)
      else if mECCState s \<in> {0, 1, 2} then (s, ex) else (s\<lparr>mECCState := 0\<rparr>, ex))"
  by (simp add: E_SR_executeEvent_def ecc_loop.simps [of E_SR_ecc] E_SR_ecc_def ecc_simps fb_fields)

lemma E_RS_exec:
  "E_RS_executeEvent e (s, ex) = Some
     (if mECCState s \<in> {0, 2} \<and> e = 1 then E_RS_enterStateSET (s, ex)
      else if mECCState s = 1 \<and> e = 0 then E_RS_enterStateRESET (s, ex)
      else if mECCState s \<in> {0, 1, 2} then (s, ex) else (s\<lparr>mECCState := 0\<rparr>, ex))"
  by (simp add: E_RS_executeEvent_def ecc_loop.simps [of E_RS_ecc] E_RS_ecc_def ecc_simps fb_fields)

lemma E_D_FF_exec:
  "E_D_FF_executeEvent e (s, ex) = Some
     (if mECCState s \<in> {0, 2} \<and> e = 0 \<and> BOOL_value (E_D_FF_var_D s) then E_D_FF_enterStateSET (s, ex)
      else if mECCState s = 1 \<and> e = 0 \<and> \<not> BOOL_value (E_D_FF_var_D s)
      then E_D_FF_enterStateRESET (s, ex)
      else if mECCState s \<in> {0, 1, 2} then (s, ex) else (s\<lparr>mECCState := 0\<rparr>, ex))"
  by (simp add: E_D_FF_executeEvent_def ecc_loop.simps [of E_D_FF_ecc] E_D_FF_ecc_def ecc_simps fb_fields
      func_NOT_BOOL_def)

lemma E_T_FF_exec:
  assumes "mECCState s = 0"
  shows "E_T_FF_executeEvent e (s, ex) = Some
     (if e = 0 then E_T_FF_enterStateSTART (E_T_FF_enterStateSET (s, ex)) else (s, ex))"
  using assms
  by (simp add: E_T_FF_executeEvent_def ecc_loop.simps [of E_T_FF_ecc] E_T_FF_ecc_def ecc_simps fb_fields)

lemma E_T_FF_SR_exec:
  "E_T_FF_SR_executeEvent e (s, ex) = Some
     (if mECCState s \<in> {0, 2} \<and> (e = 0 \<or> e = 2) then E_T_FF_SR_enterStateSET (s, ex)
      else if mECCState s = 1 \<and> (e = 1 \<or> e = 2) then E_T_FF_SR_enterStateRESET (s, ex)
      else if mECCState s \<in> {0, 1, 2} then (s, ex) else (s\<lparr>mECCState := 0\<rparr>, ex))"
  by (simp add: E_T_FF_SR_executeEvent_def ecc_loop.simps [of E_T_FF_SR_ecc] E_T_FF_SR_ecc_def
      ecc_simps fb_fields)

text \<open>The state of a latch agrees with its output: SET (1) with Q true, START (0) or RESET (2) with
  Q false.\<close>

definition latch_ok :: "16 word \<Rightarrow> cell \<Rightarrow> bool" where
  "latch_ok st q = (if st = 1 then BOOL_value q else st \<in> {0, 2} \<and> \<not> BOOL_value q)"

definition E_SR_ok :: "E_SR \<Rightarrow> bool" where
  "E_SR_ok s = (mInterfaceSpec s = E_SR_cFBInterfaceSpec \<and> latch_ok (mECCState s) (E_SR_var_Q s))"

definition E_RS_ok :: "E_RS \<Rightarrow> bool" where
  "E_RS_ok s = (mInterfaceSpec s = E_RS_cFBInterfaceSpec \<and> latch_ok (mECCState s) (E_RS_var_Q s))"

definition E_D_FF_ok :: "E_D_FF \<Rightarrow> bool" where
  "E_D_FF_ok s =
     (mInterfaceSpec s = E_D_FF_cFBInterfaceSpec \<and> latch_ok (mECCState s) (E_D_FF_var_Q s))"

definition E_T_FF_SR_ok :: "E_T_FF_SR \<Rightarrow> bool" where
  "E_T_FF_SR_ok s =
     (mInterfaceSpec s = E_T_FF_SR_cFBInterfaceSpec \<and>
      latch_ok (mECCState s) (E_T_FF_SR_var_Q s))"

lemmas latch_send_spec = send_spec [OF E_SR_write_frame(1)] send_spec [OF E_RS_write_frame(1)]
  send_spec [OF E_D_FF_write_frame(1)] send_spec [OF E_T_FF_SR_write_frame(1)]
  send_spec [OF E_T_FF_write_frame(1)]

lemmas latch_eval = latch_ok_def latch_send_spec snd_sendOutputEvent fb_fields Let_def

text \<open>C34: The event-driven latches all refine one bit: a set event makes Q true, a reset event makes
  it false, a toggle event inverts it, any other event keeps it, and EO is sent exactly when Q
  changes.  The agreement of the state machine with Q is an invariant.  In particular the
  set-dominant E_SR and the reset-dominant E_RS behave alike.\<close>

theorem latches_refine_bit:
  "(E_SR_ok s1 \<longrightarrow> (\<exists>s' ex'. E_SR_executeEvent e (s1, ex) = Some (s', ex') \<and> E_SR_ok s' \<and>
      BOOL_value (E_SR_var_Q s') =
        (if e = 0 then True else if e = 1 then False else BOOL_value (E_SR_var_Q s1)) \<and>
      ex' = (if BOOL_value (E_SR_var_Q s') = BOOL_value (E_SR_var_Q s1) then ex
             else triggerEvent (E_SR_conn_EO s1) ex))) \<and>
   (E_RS_ok s2 \<longrightarrow> (\<exists>s' ex'. E_RS_executeEvent e (s2, ex) = Some (s', ex') \<and> E_RS_ok s' \<and>
      BOOL_value (E_RS_var_Q s') =
        (if e = 1 then True else if e = 0 then False else BOOL_value (E_RS_var_Q s2)) \<and>
      ex' = (if BOOL_value (E_RS_var_Q s') = BOOL_value (E_RS_var_Q s2) then ex
             else triggerEvent (E_RS_conn_EO s2) ex))) \<and>
   (E_T_FF_SR_ok s3 \<longrightarrow> (\<exists>s' ex'. E_T_FF_SR_executeEvent e (s3, ex) = Some (s', ex') \<and>
      E_T_FF_SR_ok s' \<and>
      BOOL_value (E_T_FF_SR_var_Q s') =
        (if e = 0 then True else if e = 1 then False
         else if e = 2 then \<not> BOOL_value (E_T_FF_SR_var_Q s3) else BOOL_value (E_T_FF_SR_var_Q s3)) \<and>
      ex' = (if BOOL_value (E_T_FF_SR_var_Q s') = BOOL_value (E_T_FF_SR_var_Q s3) then ex
             else triggerEvent (E_T_FF_SR_conn_EO s3) ex)))"
  by (intro conjI; auto simp: E_SR_ok_def E_SR_exec E_SR_states E_SR_algs E_SR_write_frame
      E_SR_getEOConUnchecked_def E_RS_ok_def E_RS_exec E_RS_states E_RS_algs E_RS_write_frame
      E_RS_getEOConUnchecked_def E_T_FF_SR_ok_def E_T_FF_SR_exec E_T_FF_SR_states E_T_FF_SR_algs
      E_T_FF_SR_write_frame E_T_FF_SR_getEOConUnchecked_def latch_eval
      prod_eq_iff [where 'a = E_SR] prod_eq_iff [where 'a = E_RS]
      prod_eq_iff [where 'a = E_T_FF_SR] split: if_splits)

lemma latches_refine_bit_witness:
  "\<exists>s' ex'. E_SR_executeEvent 0 (FORTE_E_SR 8, None) = Some (s', ex') \<and> BOOL_value (E_SR_var_Q s')"
  using latches_refine_bit [THEN conjunct1, of "FORTE_E_SR 8" 0 None]
  by (auto simp: E_SR_ok_def latch_ok_def FORTE_E_SR_def)

text \<open>The data latch samples D on each CLK event and on no other, and sends EO exactly when the
  sampled value differs from the one held.\<close>

theorem E_D_FF_samples:
  assumes "E_D_FF_ok s"
  shows "\<exists>s' ex'. E_D_FF_executeEvent e (s, ex) = Some (s', ex') \<and> E_D_FF_ok s' \<and>
    BOOL_value (E_D_FF_var_Q s') =
      (if e = 0 then BOOL_value (E_D_FF_var_D s) else BOOL_value (E_D_FF_var_Q s)) \<and>
    ex' = (if BOOL_value (E_D_FF_var_Q s') = BOOL_value (E_D_FF_var_Q s) then ex
           else triggerEvent (E_D_FF_conn_EO s) ex)"
  using assms
  by (auto simp: E_D_FF_ok_def E_D_FF_exec E_D_FF_states E_D_FF_algs E_D_FF_write_frame
      E_D_FF_getEOConUnchecked_def latch_eval prod_eq_iff [where 'a = E_D_FF] split: if_splits)

lemma E_D_FF_samples_witness:
  "\<exists>s' ex'. E_D_FF_executeEvent 0 ((FORTE_E_D_FF 8)\<lparr>E_D_FF_var_D := 1\<rparr>, None) = Some (s', ex') \<and>
     BOOL_value (E_D_FF_var_Q s')"
  using E_D_FF_samples [of "(FORTE_E_D_FF 8)\<lparr>E_D_FF_var_D := 1\<rparr>" 0 None]
  by (auto simp: E_D_FF_ok_def latch_ok_def FORTE_E_D_FF_def BOOL_value_def)

lemma E_T_FF_step:
  assumes "mInterfaceSpec s = E_T_FF_cFBInterfaceSpec" "mECCState s = 0"
  shows "\<exists>s'. E_T_FF_executeEvent 0 (s, ex) = Some (s', triggerEvent (E_T_FF_conn_EO s) ex) \<and>
    mInterfaceSpec s' = E_T_FF_cFBInterfaceSpec \<and> mECCState s' = 0 \<and>
    BOOL_value (E_T_FF_var_Q s') = (\<not> BOOL_value (E_T_FF_var_Q s)) \<and>
    E_T_FF_conn_EO s' = E_T_FF_conn_EO s"
  using assms
  by (auto simp: E_T_FF_exec E_T_FF_states E_T_FF_algs E_T_FF_write_frame func_NOT_BOOL_def
      E_T_FF_getEOConUnchecked_def latch_eval prod_eq_iff [where 'a = E_T_FF])

text \<open>The toggle flip-flop divides its clock by two: after n clock events, each of which sends
  EO, the output is inverted exactly when n is odd.\<close>

theorem E_T_FF_parity:
  assumes "mInterfaceSpec s = E_T_FF_cFBInterfaceSpec" "mECCState s = 0"
  shows "\<exists>s'. exec_all E_T_FF_executeEvent (replicate n 0) (s, ex) =
      Some (s', (triggerEvent (E_T_FF_conn_EO s) ^^ n) ex) \<and>
    BOOL_value (E_T_FF_var_Q s') = (BOOL_value (E_T_FF_var_Q s) \<noteq> odd n)"
  using assms
proof (induction n arbitrary: s ex)
  case (Suc n)
  obtain s' where "E_T_FF_executeEvent 0 (s, ex) = Some (s', triggerEvent (E_T_FF_conn_EO s) ex)"
    "mInterfaceSpec s' = E_T_FF_cFBInterfaceSpec" "mECCState s' = 0"
    "BOOL_value (E_T_FF_var_Q s') = (\<not> BOOL_value (E_T_FF_var_Q s))"
    "E_T_FF_conn_EO s' = E_T_FF_conn_EO s"
    using E_T_FF_step [OF Suc.prems] by blast
  with Suc.IH [of s' "triggerEvent (E_T_FF_conn_EO s) ex"] show ?case
    by (auto simp: funpow_swap1)
qed simp

lemma E_T_FF_parity_witness:
  "\<exists>s'. exec_all E_T_FF_executeEvent (replicate 3 0) (FORTE_E_T_FF 8, None) = Some (s', None) \<and>
     BOOL_value (E_T_FF_var_Q s')"
  using E_T_FF_parity [of "FORTE_E_T_FF 8" 3 None]
  by (auto simp: FORTE_E_T_FF_def numeral_3_eq_3 triggerEvent_def)

end
