(* ===== verification/FB_Routing.thy ===== *)
theory FB_Routing
imports FB_Class
begin

text \<open>
  The blocks of \<open>stdfblib/events\<close> that pass, split, merge, select and join events.
\<close>

section \<open>E PERMIT\<close>

text \<open>\<open>stdfblib/events/src/E_PERMIT_fbt.cpp\<close>\<close>

abbreviation (input) E_PERMIT_scmStateSTART :: "16 word" where "E_PERMIT_scmStateSTART \<equiv> 0"
abbreviation (input) E_PERMIT_scmStateEO :: "16 word" where "E_PERMIT_scmStateEO \<equiv> 1"
abbreviation (input) E_PERMIT_scmEventEIID :: TEventID where "E_PERMIT_scmEventEIID \<equiv> 0"
abbreviation (input) E_PERMIT_scmEventEOID :: TEventID where "E_PERMIT_scmEventEOID \<equiv> 0"

definition E_PERMIT_cFBInterfaceSpec :: "SFBInterfaceSpec" where
  "E_PERMIT_cFBInterfaceSpec =
     \<lparr>mEINames = [Some ''EI''],
      mEITypeNames = [Some ''Event''],
      mEONames = [Some ''EO''],
      mEOTypeNames = [Some ''Event''],
      mDINames = [Some ''PERMIT''],
      mDONames = [],
      mDIONames = [],
      mSocketNames = [],
      mPlugNames = []\<rparr>"

record E_PERMIT = CBasicFB +
  E_PERMIT_var_PERMIT :: cell
  E_PERMIT_conn_EO :: CEventConnection
  E_PERMIT_conn_PERMIT :: "conn_id option"

definition FORTE_E_PERMIT :: "nat \<Rightarrow> E_PERMIT" where
  "FORTE_E_PERMIT this =
     \<lparr>mInterfaceSpec = E_PERMIT_cFBInterfaceSpec, mEventMonitorCount = [],
      mForces = replicate cgMaxSupportedForceIndex False, mFBState = Idle,
      mInputEventConnectionCount = None, mConnRefCount = 0, mDeletable = True, mECCState = 0,
      E_PERMIT_var_PERMIT = 0,
      E_PERMIT_conn_EO = \<lparr>mSourceId = \<lparr>mFB = this, mPortId = 0\<rparr>, mDestinationIds = []\<rparr>,
      E_PERMIT_conn_PERMIT = None\<rparr>"

definition E_PERMIT_setInitialValues :: "E_PERMIT \<Rightarrow> E_PERMIT" where
  "E_PERMIT_setInitialValues s =
     (CBasicFB_setInitialValues s)
       \<lparr>E_PERMIT_var_PERMIT := setTBOOL8 False\<rparr>"

definition E_PERMIT_getDI :: "TPortId \<Rightarrow> (E_PERMIT, cell) ref option" where
  "E_PERMIT_getDI i =
     (if i = 0 then Some (Ref E_PERMIT_var_PERMIT (\<lambda>v. E_PERMIT_var_PERMIT_update (\<lambda>_. v)))
      else None)"

definition E_PERMIT_getDO :: "TPortId \<Rightarrow> (E_PERMIT, cell) ref option" where
  "E_PERMIT_getDO i =
     (None)"

definition E_PERMIT_getEOConUnchecked :: "TPortId \<Rightarrow> (E_PERMIT, CEventConnection) ref option" where
  "E_PERMIT_getEOConUnchecked i =
     (if i = 0 then Some (Ref E_PERMIT_conn_EO (\<lambda>v. E_PERMIT_conn_EO_update (\<lambda>_. v)))
      else None)"

definition E_PERMIT_getDIConUnchecked :: "TPortId \<Rightarrow> (E_PERMIT, conn_id option) ref option" where
  "E_PERMIT_getDIConUnchecked i =
     (if i = 0 then Some (Ref E_PERMIT_conn_PERMIT (\<lambda>v. E_PERMIT_conn_PERMIT_update (\<lambda>_. v)))
      else None)"

definition E_PERMIT_getDOConUnchecked :: "TPortId \<Rightarrow> (E_PERMIT, COutDataConnection) ref option" where
  "E_PERMIT_getDOConUnchecked i =
     (None)"

definition E_PERMIT_readInputData :: "(conn_id \<Rightarrow> cell) \<Rightarrow> TEventID \<Rightarrow> E_PERMIT \<Rightarrow> E_PERMIT" where
  "E_PERMIT_readInputData env paEIID s =
     (if paEIID = E_PERMIT_scmEventEIID then
        (let s = readData env 0 (Ref E_PERMIT_var_PERMIT (\<lambda>v. E_PERMIT_var_PERMIT_update (\<lambda>_. v))) (E_PERMIT_conn_PERMIT s) s in s)
      else s)"

definition E_PERMIT_writeOutputData :: "TEventID \<Rightarrow> E_PERMIT \<Rightarrow> E_PERMIT" where
  "E_PERMIT_writeOutputData paEO s =
     (s)"

definition E_PERMIT_enterStateSTART :: "E_PERMIT \<times> ecet option \<Rightarrow> E_PERMIT \<times> ecet option" where
  "E_PERMIT_enterStateSTART st =
     (let st = apfst (mECCState_update (\<lambda>_. E_PERMIT_scmStateSTART)) st in
      st)"

definition E_PERMIT_enterStateEO :: "E_PERMIT \<times> ecet option \<Rightarrow> E_PERMIT \<times> ecet option" where
  "E_PERMIT_enterStateEO st =
     (let st = apfst (mECCState_update (\<lambda>_. E_PERMIT_scmStateEO)) st in
      let st = sendOutputEvent E_PERMIT_writeOutputData E_PERMIT_getEOConUnchecked E_PERMIT_scmEventEOID st in
      st)"

definition E_PERMIT_ecc :: "TEventID \<Rightarrow> E_PERMIT \<times> ecet option \<Rightarrow> (E_PERMIT \<times> ecet option) ecc" where
  "E_PERMIT_ecc paEIID st =
     (let s = fst st in
       if mECCState s = E_PERMIT_scmStateSTART then
         (if paEIID = E_PERMIT_scmEventEIID \<and> BOOL_value (E_PERMIT_var_PERMIT s)
          then Again (E_PERMIT_enterStateEO st)
          else Return st)
       else if mECCState s = E_PERMIT_scmStateEO then
         (Again (E_PERMIT_enterStateSTART st))
       else Return (apfst (mECCState_update (\<lambda>_. 0)) st))"

definition E_PERMIT_executeEvent :: "TEventID \<Rightarrow> E_PERMIT \<times> ecet option \<Rightarrow> (E_PERMIT \<times> ecet option) option" where
  "E_PERMIT_executeEvent = ecc_loop E_PERMIT_ecc"

definition E_PERMIT_vtable :: "E_PERMIT vtable" where
  "E_PERMIT_vtable =
     \<lparr>vt_getDI = E_PERMIT_getDI, vt_getDO = E_PERMIT_getDO, vt_getDIO = (\<lambda>_. None),
      vt_DItype = (\<lambda>i. if i = 0 then e_BOOL else e_ANY),
      vt_DOtype = (\<lambda>i. e_ANY),
      vt_getEOConUnchecked = E_PERMIT_getEOConUnchecked,
      vt_getDIConUnchecked = E_PERMIT_getDIConUnchecked, vt_getDOConUnchecked = E_PERMIT_getDOConUnchecked,
      vt_executeEvent = E_PERMIT_executeEvent, vt_readInputData = E_PERMIT_readInputData,
      vt_writeOutputData = E_PERMIT_writeOutputData, vt_setInitialValues = E_PERMIT_setInitialValues\<rparr>"

definition E_PERMIT_evt_EI :: "(conn_id \<Rightarrow> cell) \<Rightarrow> cell \<Rightarrow> E_PERMIT \<Rightarrow> (E_PERMIT) option" where
  "E_PERMIT_evt_EI env paPERMIT s =
     map_option (\<lambda>(s, _). (s))
       (receiveInputEvent E_PERMIT_vtable env E_PERMIT_scmEventEIID (s\<lparr>E_PERMIT_var_PERMIT := paPERMIT\<rparr>, None))"

lemmas E_PERMIT_pins = E_PERMIT_getDI_def E_PERMIT_getDO_def E_PERMIT_getEOConUnchecked_def E_PERMIT_getDIConUnchecked_def
  E_PERMIT_getDOConUnchecked_def

lemmas E_PERMIT_states = E_PERMIT_enterStateSTART_def
  E_PERMIT_enterStateEO_def

lemma E_PERMIT_con_count:
  "con_value E_PERMIT_getDOConUnchecked n (count_event i s) = con_value E_PERMIT_getDOConUnchecked n s" if "n < getNumDOs E_PERMIT_cFBInterfaceSpec"
  using that by (auto simp: E_PERMIT_getDOConUnchecked_def E_PERMIT_cFBInterfaceSpec_def count_event_def)

lemma E_PERMIT_write_frame:
  "base (E_PERMIT_writeOutputData eo s) = base s"
  "mEventMonitorCount (E_PERMIT_writeOutputData eo s) = mEventMonitorCount s"
  "mECCState (E_PERMIT_writeOutputData eo s) = mECCState s"
  "E_PERMIT_var_PERMIT (E_PERMIT_writeOutputData eo s) = E_PERMIT_var_PERMIT s"
  "E_PERMIT_conn_EO (E_PERMIT_writeOutputData eo s) = E_PERMIT_conn_EO s"
  "E_PERMIT_conn_PERMIT (E_PERMIT_writeOutputData eo s) = E_PERMIT_conn_PERMIT s"
  by (simp_all add: E_PERMIT_writeOutputData_def writeData_def base_def isForced_def Let_def)

lemma E_PERMIT_write_forced:
  "mInterfaceSpec s = E_PERMIT_cFBInterfaceSpec \<Longrightarrow>
   forced_kept E_PERMIT_getDOConUnchecked s (E_PERMIT_writeOutputData eo s)"
  unfolding E_PERMIT_writeOutputData_def Let_def
  by (intro forced_inD [of E_PERMIT_cFBInterfaceSpec] forced_in_if forced_in_refl)

lemma E_PERMIT_send_step [fb_steps]:
  "fb_step_in E_PERMIT_cFBInterfaceSpec E_PERMIT_getDOConUnchecked st st' \<Longrightarrow>
   fb_step_in E_PERMIT_cFBInterfaceSpec E_PERMIT_getDOConUnchecked st (sendOutputEvent E_PERMIT_writeOutputData geo eo st')"
  by (rule fb_step_in_send [OF E_PERMIT_write_frame(1,2) E_PERMIT_write_forced E_PERMIT_con_count]) assumption+

lemma E_PERMIT_send_fields [fb_fields]:
  "mECCState (fst (sendOutputEvent E_PERMIT_writeOutputData geo eo st)) = mECCState (fst st)"
  "E_PERMIT_var_PERMIT (fst (sendOutputEvent E_PERMIT_writeOutputData geo eo st)) = E_PERMIT_var_PERMIT (fst st)"
  "E_PERMIT_conn_EO (fst (sendOutputEvent E_PERMIT_writeOutputData geo eo st)) = E_PERMIT_conn_EO (fst st)"
  "E_PERMIT_conn_PERMIT (fst (sendOutputEvent E_PERMIT_writeOutputData geo eo st)) = E_PERMIT_conn_PERMIT (fst st)"
  by (rule sendOutputEvent_field; simp add: E_PERMIT_write_frame count_event_def)+

lemma E_PERMIT_local_step [fb_steps]:
  "fb_step_in E_PERMIT_cFBInterfaceSpec E_PERMIT_getDOConUnchecked st st' \<Longrightarrow>
   fb_step_in E_PERMIT_cFBInterfaceSpec E_PERMIT_getDOConUnchecked st (apfst (mECCState_update (\<lambda>_. v)) st')"
  by (rule fb_step_in_local;
      simp add: base_def E_PERMIT_cFBInterfaceSpec_def E_PERMIT_getDOConUnchecked_def Let_def)+

lemma E_PERMIT_enter_ECC [fb_fields]:
  "mECCState (fst (E_PERMIT_enterStateSTART st)) = E_PERMIT_scmStateSTART"
  "mECCState (fst (E_PERMIT_enterStateEO st)) = E_PERMIT_scmStateEO"
  by (simp_all add: E_PERMIT_states fb_fields Let_def)

lemma E_PERMIT_sizes [simp]:
  "length (mEINames E_PERMIT_cFBInterfaceSpec) = 1" "length (mEONames E_PERMIT_cFBInterfaceSpec) = 1"
  "length (mDINames E_PERMIT_cFBInterfaceSpec) = 1" "length (mDONames E_PERMIT_cFBInterfaceSpec) = 0"
  by (simp_all add: E_PERMIT_cFBInterfaceSpec_def)

lemma E_PERMIT_ecc_step:
  "E_PERMIT_ecc e st = Return st' \<or> E_PERMIT_ecc e st = Again st' \<Longrightarrow>
   fb_step_in E_PERMIT_cFBInterfaceSpec E_PERMIT_getDOConUnchecked st st'"
  by (auto simp: E_PERMIT_ecc_def E_PERMIT_states Let_def fb_steps split: if_splits)

text \<open>Passes left before the loop of \<open>E-PERMIT\<close> returns.\<close>

definition E_PERMIT_rank :: "TEventID \<Rightarrow> E_PERMIT \<times> ecet option \<Rightarrow> nat" where
  "E_PERMIT_rank e st =
     (if e \<noteq> cgInvalidEventID then 2
      else if mECCState (fst st) = E_PERMIT_scmStateEO then 1
      else 0)"

lemma E_PERMIT_ecc_rank:
  "E_PERMIT_ecc e st = Again st' \<Longrightarrow> E_PERMIT_rank cgInvalidEventID st' < E_PERMIT_rank e st"
  by (auto simp: E_PERMIT_ecc_def E_PERMIT_rank_def cgInvalidEventID_def cgInvalidPortId_def
      Let_def fb_fields split: if_splits)

interpretation E_PERMIT_loop: ecc_machine E_PERMIT_ecc
  "fb_step_in E_PERMIT_cFBInterfaceSpec E_PERMIT_getDOConUnchecked" E_PERMIT_rank
  by unfold_locales (simp | blast intro: fb_step_in_trans E_PERMIT_ecc_step E_PERMIT_ecc_rank)+

interpretation E_PERMIT_class: fb_class E_PERMIT_vtable E_PERMIT_cFBInterfaceSpec
proof (unfold_locales, goal_cases)
  case (5 s ei ex)
  then show ?case
    using E_PERMIT_loop.ecc_loop_total [of ei "(s, ex)"]
    by (auto simp: E_PERMIT_vtable_def E_PERMIT_executeEvent_def fb_step_in_def)
qed (auto simp: E_PERMIT_vtable_def E_PERMIT_readInputData_def readData_def E_PERMIT_getDO_def
    E_PERMIT_getDOConUnchecked_def E_PERMIT_cFBInterfaceSpec_def base_def isForced_def count_event_def Let_def
    split: option.splits)

section \<open>E SWITCH\<close>

text \<open>\<open>stdfblib/events/src/E_SWITCH_fbt.cpp\<close>\<close>

abbreviation (input) E_SWITCH_scmStateSTART :: "16 word" where "E_SWITCH_scmStateSTART \<equiv> 0"
abbreviation (input) E_SWITCH_scmStateG0 :: "16 word" where "E_SWITCH_scmStateG0 \<equiv> 1"
abbreviation (input) E_SWITCH_scmStateG1 :: "16 word" where "E_SWITCH_scmStateG1 \<equiv> 2"
abbreviation (input) E_SWITCH_scmEventEIID :: TEventID where "E_SWITCH_scmEventEIID \<equiv> 0"
abbreviation (input) E_SWITCH_scmEventEO0ID :: TEventID where "E_SWITCH_scmEventEO0ID \<equiv> 0"
abbreviation (input) E_SWITCH_scmEventEO1ID :: TEventID where "E_SWITCH_scmEventEO1ID \<equiv> 1"

definition E_SWITCH_cFBInterfaceSpec :: "SFBInterfaceSpec" where
  "E_SWITCH_cFBInterfaceSpec =
     \<lparr>mEINames = [Some ''EI''],
      mEITypeNames = [],
      mEONames = [Some ''EO0'', Some ''EO1''],
      mEOTypeNames = [],
      mDINames = [Some ''G''],
      mDONames = [],
      mDIONames = [],
      mSocketNames = [],
      mPlugNames = []\<rparr>"

record E_SWITCH = CBasicFB +
  E_SWITCH_var_G :: cell
  E_SWITCH_conn_EO0 :: CEventConnection
  E_SWITCH_conn_EO1 :: CEventConnection
  E_SWITCH_conn_G :: "conn_id option"

definition FORTE_E_SWITCH :: "nat \<Rightarrow> E_SWITCH" where
  "FORTE_E_SWITCH this =
     \<lparr>mInterfaceSpec = E_SWITCH_cFBInterfaceSpec, mEventMonitorCount = [],
      mForces = replicate cgMaxSupportedForceIndex False, mFBState = Idle,
      mInputEventConnectionCount = None, mConnRefCount = 0, mDeletable = True, mECCState = 0,
      E_SWITCH_var_G = 0,
      E_SWITCH_conn_EO0 = \<lparr>mSourceId = \<lparr>mFB = this, mPortId = 0\<rparr>, mDestinationIds = []\<rparr>,
      E_SWITCH_conn_EO1 = \<lparr>mSourceId = \<lparr>mFB = this, mPortId = 1\<rparr>, mDestinationIds = []\<rparr>,
      E_SWITCH_conn_G = None\<rparr>"

definition E_SWITCH_setInitialValues :: "E_SWITCH \<Rightarrow> E_SWITCH" where
  "E_SWITCH_setInitialValues s =
     (CBasicFB_setInitialValues s)
       \<lparr>E_SWITCH_var_G := setTBOOL8 False\<rparr>"

definition E_SWITCH_getDI :: "TPortId \<Rightarrow> (E_SWITCH, cell) ref option" where
  "E_SWITCH_getDI i =
     (if i = 0 then Some (Ref E_SWITCH_var_G (\<lambda>v. E_SWITCH_var_G_update (\<lambda>_. v)))
      else None)"

definition E_SWITCH_getDO :: "TPortId \<Rightarrow> (E_SWITCH, cell) ref option" where
  "E_SWITCH_getDO i =
     (None)"

definition E_SWITCH_getEOConUnchecked :: "TPortId \<Rightarrow> (E_SWITCH, CEventConnection) ref option" where
  "E_SWITCH_getEOConUnchecked i =
     (if i = 0 then Some (Ref E_SWITCH_conn_EO0 (\<lambda>v. E_SWITCH_conn_EO0_update (\<lambda>_. v)))
      else if i = 1 then Some (Ref E_SWITCH_conn_EO1 (\<lambda>v. E_SWITCH_conn_EO1_update (\<lambda>_. v)))
      else None)"

definition E_SWITCH_getDIConUnchecked :: "TPortId \<Rightarrow> (E_SWITCH, conn_id option) ref option" where
  "E_SWITCH_getDIConUnchecked i =
     (if i = 0 then Some (Ref E_SWITCH_conn_G (\<lambda>v. E_SWITCH_conn_G_update (\<lambda>_. v)))
      else None)"

definition E_SWITCH_getDOConUnchecked :: "TPortId \<Rightarrow> (E_SWITCH, COutDataConnection) ref option" where
  "E_SWITCH_getDOConUnchecked i =
     (None)"

definition E_SWITCH_readInputData :: "(conn_id \<Rightarrow> cell) \<Rightarrow> TEventID \<Rightarrow> E_SWITCH \<Rightarrow> E_SWITCH" where
  "E_SWITCH_readInputData env paEIID s =
     (if paEIID = E_SWITCH_scmEventEIID then
        (let s = readData env 0 (Ref E_SWITCH_var_G (\<lambda>v. E_SWITCH_var_G_update (\<lambda>_. v))) (E_SWITCH_conn_G s) s in s)
      else s)"

definition E_SWITCH_writeOutputData :: "TEventID \<Rightarrow> E_SWITCH \<Rightarrow> E_SWITCH" where
  "E_SWITCH_writeOutputData paEO s =
     (s)"

definition E_SWITCH_enterStateSTART :: "E_SWITCH \<times> ecet option \<Rightarrow> E_SWITCH \<times> ecet option" where
  "E_SWITCH_enterStateSTART st =
     (let st = apfst (mECCState_update (\<lambda>_. E_SWITCH_scmStateSTART)) st in
      st)"

definition E_SWITCH_enterStateG0 :: "E_SWITCH \<times> ecet option \<Rightarrow> E_SWITCH \<times> ecet option" where
  "E_SWITCH_enterStateG0 st =
     (let st = apfst (mECCState_update (\<lambda>_. E_SWITCH_scmStateG0)) st in
      let st = sendOutputEvent E_SWITCH_writeOutputData E_SWITCH_getEOConUnchecked E_SWITCH_scmEventEO0ID st in
      st)"

definition E_SWITCH_enterStateG1 :: "E_SWITCH \<times> ecet option \<Rightarrow> E_SWITCH \<times> ecet option" where
  "E_SWITCH_enterStateG1 st =
     (let st = apfst (mECCState_update (\<lambda>_. E_SWITCH_scmStateG1)) st in
      let st = sendOutputEvent E_SWITCH_writeOutputData E_SWITCH_getEOConUnchecked E_SWITCH_scmEventEO1ID st in
      st)"

definition E_SWITCH_ecc :: "TEventID \<Rightarrow> E_SWITCH \<times> ecet option \<Rightarrow> (E_SWITCH \<times> ecet option) ecc" where
  "E_SWITCH_ecc paEIID st =
     (let s = fst st in
       if mECCState s = E_SWITCH_scmStateSTART then
         (if paEIID = E_SWITCH_scmEventEIID \<and> BOOL_value (func_NOT_BOOL (E_SWITCH_var_G s))
          then Again (E_SWITCH_enterStateG0 st)
          else if paEIID = E_SWITCH_scmEventEIID \<and> BOOL_value (E_SWITCH_var_G s)
          then Again (E_SWITCH_enterStateG1 st)
          else Return st)
       else if mECCState s = E_SWITCH_scmStateG0 then
         (Again (E_SWITCH_enterStateSTART st))
       else if mECCState s = E_SWITCH_scmStateG1 then
         (Again (E_SWITCH_enterStateSTART st))
       else Return (apfst (mECCState_update (\<lambda>_. 0)) st))"

definition E_SWITCH_executeEvent :: "TEventID \<Rightarrow> E_SWITCH \<times> ecet option \<Rightarrow> (E_SWITCH \<times> ecet option) option" where
  "E_SWITCH_executeEvent = ecc_loop E_SWITCH_ecc"

definition E_SWITCH_vtable :: "E_SWITCH vtable" where
  "E_SWITCH_vtable =
     \<lparr>vt_getDI = E_SWITCH_getDI, vt_getDO = E_SWITCH_getDO, vt_getDIO = (\<lambda>_. None),
      vt_DItype = (\<lambda>i. if i = 0 then e_BOOL else e_ANY),
      vt_DOtype = (\<lambda>i. e_ANY),
      vt_getEOConUnchecked = E_SWITCH_getEOConUnchecked,
      vt_getDIConUnchecked = E_SWITCH_getDIConUnchecked, vt_getDOConUnchecked = E_SWITCH_getDOConUnchecked,
      vt_executeEvent = E_SWITCH_executeEvent, vt_readInputData = E_SWITCH_readInputData,
      vt_writeOutputData = E_SWITCH_writeOutputData, vt_setInitialValues = E_SWITCH_setInitialValues\<rparr>"

definition E_SWITCH_evt_EI :: "(conn_id \<Rightarrow> cell) \<Rightarrow> cell \<Rightarrow> E_SWITCH \<Rightarrow> (E_SWITCH) option" where
  "E_SWITCH_evt_EI env paG s =
     map_option (\<lambda>(s, _). (s))
       (receiveInputEvent E_SWITCH_vtable env E_SWITCH_scmEventEIID (s\<lparr>E_SWITCH_var_G := paG\<rparr>, None))"

lemmas E_SWITCH_pins = E_SWITCH_getDI_def E_SWITCH_getDO_def E_SWITCH_getEOConUnchecked_def E_SWITCH_getDIConUnchecked_def
  E_SWITCH_getDOConUnchecked_def

lemmas E_SWITCH_states = E_SWITCH_enterStateSTART_def
  E_SWITCH_enterStateG0_def
  E_SWITCH_enterStateG1_def

lemma E_SWITCH_con_count:
  "con_value E_SWITCH_getDOConUnchecked n (count_event i s) = con_value E_SWITCH_getDOConUnchecked n s" if "n < getNumDOs E_SWITCH_cFBInterfaceSpec"
  using that by (auto simp: E_SWITCH_getDOConUnchecked_def E_SWITCH_cFBInterfaceSpec_def count_event_def)

lemma E_SWITCH_write_frame:
  "base (E_SWITCH_writeOutputData eo s) = base s"
  "mEventMonitorCount (E_SWITCH_writeOutputData eo s) = mEventMonitorCount s"
  "mECCState (E_SWITCH_writeOutputData eo s) = mECCState s"
  "E_SWITCH_var_G (E_SWITCH_writeOutputData eo s) = E_SWITCH_var_G s"
  "E_SWITCH_conn_EO0 (E_SWITCH_writeOutputData eo s) = E_SWITCH_conn_EO0 s"
  "E_SWITCH_conn_EO1 (E_SWITCH_writeOutputData eo s) = E_SWITCH_conn_EO1 s"
  "E_SWITCH_conn_G (E_SWITCH_writeOutputData eo s) = E_SWITCH_conn_G s"
  by (simp_all add: E_SWITCH_writeOutputData_def writeData_def base_def isForced_def Let_def)

lemma E_SWITCH_write_forced:
  "mInterfaceSpec s = E_SWITCH_cFBInterfaceSpec \<Longrightarrow>
   forced_kept E_SWITCH_getDOConUnchecked s (E_SWITCH_writeOutputData eo s)"
  unfolding E_SWITCH_writeOutputData_def Let_def
  by (intro forced_inD [of E_SWITCH_cFBInterfaceSpec] forced_in_if forced_in_refl)

lemma E_SWITCH_send_step [fb_steps]:
  "fb_step_in E_SWITCH_cFBInterfaceSpec E_SWITCH_getDOConUnchecked st st' \<Longrightarrow>
   fb_step_in E_SWITCH_cFBInterfaceSpec E_SWITCH_getDOConUnchecked st (sendOutputEvent E_SWITCH_writeOutputData geo eo st')"
  by (rule fb_step_in_send [OF E_SWITCH_write_frame(1,2) E_SWITCH_write_forced E_SWITCH_con_count]) assumption+

lemma E_SWITCH_send_fields [fb_fields]:
  "mECCState (fst (sendOutputEvent E_SWITCH_writeOutputData geo eo st)) = mECCState (fst st)"
  "E_SWITCH_var_G (fst (sendOutputEvent E_SWITCH_writeOutputData geo eo st)) = E_SWITCH_var_G (fst st)"
  "E_SWITCH_conn_EO0 (fst (sendOutputEvent E_SWITCH_writeOutputData geo eo st)) = E_SWITCH_conn_EO0 (fst st)"
  "E_SWITCH_conn_EO1 (fst (sendOutputEvent E_SWITCH_writeOutputData geo eo st)) = E_SWITCH_conn_EO1 (fst st)"
  "E_SWITCH_conn_G (fst (sendOutputEvent E_SWITCH_writeOutputData geo eo st)) = E_SWITCH_conn_G (fst st)"
  by (rule sendOutputEvent_field; simp add: E_SWITCH_write_frame count_event_def)+

lemma E_SWITCH_local_step [fb_steps]:
  "fb_step_in E_SWITCH_cFBInterfaceSpec E_SWITCH_getDOConUnchecked st st' \<Longrightarrow>
   fb_step_in E_SWITCH_cFBInterfaceSpec E_SWITCH_getDOConUnchecked st (apfst (mECCState_update (\<lambda>_. v)) st')"
  by (rule fb_step_in_local;
      simp add: base_def E_SWITCH_cFBInterfaceSpec_def E_SWITCH_getDOConUnchecked_def Let_def)+

lemma E_SWITCH_enter_ECC [fb_fields]:
  "mECCState (fst (E_SWITCH_enterStateSTART st)) = E_SWITCH_scmStateSTART"
  "mECCState (fst (E_SWITCH_enterStateG0 st)) = E_SWITCH_scmStateG0"
  "mECCState (fst (E_SWITCH_enterStateG1 st)) = E_SWITCH_scmStateG1"
  by (simp_all add: E_SWITCH_states fb_fields Let_def)

lemma E_SWITCH_sizes [simp]:
  "length (mEINames E_SWITCH_cFBInterfaceSpec) = 1" "length (mEONames E_SWITCH_cFBInterfaceSpec) = 2"
  "length (mDINames E_SWITCH_cFBInterfaceSpec) = 1" "length (mDONames E_SWITCH_cFBInterfaceSpec) = 0"
  by (simp_all add: E_SWITCH_cFBInterfaceSpec_def)

lemma E_SWITCH_ecc_step:
  "E_SWITCH_ecc e st = Return st' \<or> E_SWITCH_ecc e st = Again st' \<Longrightarrow>
   fb_step_in E_SWITCH_cFBInterfaceSpec E_SWITCH_getDOConUnchecked st st'"
  by (auto simp: E_SWITCH_ecc_def E_SWITCH_states Let_def fb_steps split: if_splits)

text \<open>Passes left before the loop of \<open>E-SWITCH\<close> returns.\<close>

definition E_SWITCH_rank :: "TEventID \<Rightarrow> E_SWITCH \<times> ecet option \<Rightarrow> nat" where
  "E_SWITCH_rank e st =
     (if e \<noteq> cgInvalidEventID then 2
      else if mECCState (fst st) = E_SWITCH_scmStateG0 then 1
      else if mECCState (fst st) = E_SWITCH_scmStateG1 then 1
      else 0)"

lemma E_SWITCH_ecc_rank:
  "E_SWITCH_ecc e st = Again st' \<Longrightarrow> E_SWITCH_rank cgInvalidEventID st' < E_SWITCH_rank e st"
  by (auto simp: E_SWITCH_ecc_def E_SWITCH_rank_def cgInvalidEventID_def cgInvalidPortId_def
      Let_def fb_fields split: if_splits)

interpretation E_SWITCH_loop: ecc_machine E_SWITCH_ecc
  "fb_step_in E_SWITCH_cFBInterfaceSpec E_SWITCH_getDOConUnchecked" E_SWITCH_rank
  by unfold_locales (simp | blast intro: fb_step_in_trans E_SWITCH_ecc_step E_SWITCH_ecc_rank)+

interpretation E_SWITCH_class: fb_class E_SWITCH_vtable E_SWITCH_cFBInterfaceSpec
proof (unfold_locales, goal_cases)
  case (5 s ei ex)
  then show ?case
    using E_SWITCH_loop.ecc_loop_total [of ei "(s, ex)"]
    by (auto simp: E_SWITCH_vtable_def E_SWITCH_executeEvent_def fb_step_in_def)
qed (auto simp: E_SWITCH_vtable_def E_SWITCH_readInputData_def readData_def E_SWITCH_getDO_def
    E_SWITCH_getDOConUnchecked_def E_SWITCH_cFBInterfaceSpec_def base_def isForced_def count_event_def Let_def
    split: option.splits)

section \<open>E SELECT\<close>

text \<open>\<open>stdfblib/events/src/E_SELECT_fbt.cpp\<close>\<close>

abbreviation (input) E_SELECT_scmStateSTART :: "16 word" where "E_SELECT_scmStateSTART \<equiv> 0"
abbreviation (input) E_SELECT_scmStateEO :: "16 word" where "E_SELECT_scmStateEO \<equiv> 1"
abbreviation (input) E_SELECT_scmEventEI0ID :: TEventID where "E_SELECT_scmEventEI0ID \<equiv> 0"
abbreviation (input) E_SELECT_scmEventEI1ID :: TEventID where "E_SELECT_scmEventEI1ID \<equiv> 1"
abbreviation (input) E_SELECT_scmEventEOID :: TEventID where "E_SELECT_scmEventEOID \<equiv> 0"

definition E_SELECT_cFBInterfaceSpec :: "SFBInterfaceSpec" where
  "E_SELECT_cFBInterfaceSpec =
     \<lparr>mEINames = [Some ''EI0'', Some ''EI1''],
      mEITypeNames = [Some ''Event'', Some ''Event''],
      mEONames = [Some ''EO''],
      mEOTypeNames = [Some ''Event''],
      mDINames = [Some ''G''],
      mDONames = [],
      mDIONames = [],
      mSocketNames = [],
      mPlugNames = []\<rparr>"

record E_SELECT = CBasicFB +
  E_SELECT_var_G :: cell
  E_SELECT_conn_EO :: CEventConnection
  E_SELECT_conn_G :: "conn_id option"

definition FORTE_E_SELECT :: "nat \<Rightarrow> E_SELECT" where
  "FORTE_E_SELECT this =
     \<lparr>mInterfaceSpec = E_SELECT_cFBInterfaceSpec, mEventMonitorCount = [],
      mForces = replicate cgMaxSupportedForceIndex False, mFBState = Idle,
      mInputEventConnectionCount = None, mConnRefCount = 0, mDeletable = True, mECCState = 0,
      E_SELECT_var_G = 0,
      E_SELECT_conn_EO = \<lparr>mSourceId = \<lparr>mFB = this, mPortId = 0\<rparr>, mDestinationIds = []\<rparr>,
      E_SELECT_conn_G = None\<rparr>"

definition E_SELECT_setInitialValues :: "E_SELECT \<Rightarrow> E_SELECT" where
  "E_SELECT_setInitialValues s =
     (CBasicFB_setInitialValues s)
       \<lparr>E_SELECT_var_G := setTBOOL8 False\<rparr>"

definition E_SELECT_getDI :: "TPortId \<Rightarrow> (E_SELECT, cell) ref option" where
  "E_SELECT_getDI i =
     (if i = 0 then Some (Ref E_SELECT_var_G (\<lambda>v. E_SELECT_var_G_update (\<lambda>_. v)))
      else None)"

definition E_SELECT_getDO :: "TPortId \<Rightarrow> (E_SELECT, cell) ref option" where
  "E_SELECT_getDO i =
     (None)"

definition E_SELECT_getEOConUnchecked :: "TPortId \<Rightarrow> (E_SELECT, CEventConnection) ref option" where
  "E_SELECT_getEOConUnchecked i =
     (if i = 0 then Some (Ref E_SELECT_conn_EO (\<lambda>v. E_SELECT_conn_EO_update (\<lambda>_. v)))
      else None)"

definition E_SELECT_getDIConUnchecked :: "TPortId \<Rightarrow> (E_SELECT, conn_id option) ref option" where
  "E_SELECT_getDIConUnchecked i =
     (if i = 0 then Some (Ref E_SELECT_conn_G (\<lambda>v. E_SELECT_conn_G_update (\<lambda>_. v)))
      else None)"

definition E_SELECT_getDOConUnchecked :: "TPortId \<Rightarrow> (E_SELECT, COutDataConnection) ref option" where
  "E_SELECT_getDOConUnchecked i =
     (None)"

definition E_SELECT_readInputData :: "(conn_id \<Rightarrow> cell) \<Rightarrow> TEventID \<Rightarrow> E_SELECT \<Rightarrow> E_SELECT" where
  "E_SELECT_readInputData env paEIID s =
     (if paEIID = E_SELECT_scmEventEI0ID then
        (let s = readData env 0 (Ref E_SELECT_var_G (\<lambda>v. E_SELECT_var_G_update (\<lambda>_. v))) (E_SELECT_conn_G s) s in s)
      else if paEIID = E_SELECT_scmEventEI1ID then
        (let s = readData env 0 (Ref E_SELECT_var_G (\<lambda>v. E_SELECT_var_G_update (\<lambda>_. v))) (E_SELECT_conn_G s) s in s)
      else s)"

definition E_SELECT_writeOutputData :: "TEventID \<Rightarrow> E_SELECT \<Rightarrow> E_SELECT" where
  "E_SELECT_writeOutputData paEO s =
     (s)"

definition E_SELECT_enterStateSTART :: "E_SELECT \<times> ecet option \<Rightarrow> E_SELECT \<times> ecet option" where
  "E_SELECT_enterStateSTART st =
     (let st = apfst (mECCState_update (\<lambda>_. E_SELECT_scmStateSTART)) st in
      st)"

definition E_SELECT_enterStateEO :: "E_SELECT \<times> ecet option \<Rightarrow> E_SELECT \<times> ecet option" where
  "E_SELECT_enterStateEO st =
     (let st = apfst (mECCState_update (\<lambda>_. E_SELECT_scmStateEO)) st in
      let st = sendOutputEvent E_SELECT_writeOutputData E_SELECT_getEOConUnchecked E_SELECT_scmEventEOID st in
      st)"

definition E_SELECT_ecc :: "TEventID \<Rightarrow> E_SELECT \<times> ecet option \<Rightarrow> (E_SELECT \<times> ecet option) ecc" where
  "E_SELECT_ecc paEIID st =
     (let s = fst st in
       if mECCState s = E_SELECT_scmStateSTART then
         (if paEIID = E_SELECT_scmEventEI0ID \<and> BOOL_value (func_NOT_BOOL (E_SELECT_var_G s))
          then Again (E_SELECT_enterStateEO st)
          else if paEIID = E_SELECT_scmEventEI1ID \<and> BOOL_value (E_SELECT_var_G s)
          then Again (E_SELECT_enterStateEO st)
          else Return st)
       else if mECCState s = E_SELECT_scmStateEO then
         (Again (E_SELECT_enterStateSTART st))
       else Return (apfst (mECCState_update (\<lambda>_. 0)) st))"

definition E_SELECT_executeEvent :: "TEventID \<Rightarrow> E_SELECT \<times> ecet option \<Rightarrow> (E_SELECT \<times> ecet option) option" where
  "E_SELECT_executeEvent = ecc_loop E_SELECT_ecc"

definition E_SELECT_vtable :: "E_SELECT vtable" where
  "E_SELECT_vtable =
     \<lparr>vt_getDI = E_SELECT_getDI, vt_getDO = E_SELECT_getDO, vt_getDIO = (\<lambda>_. None),
      vt_DItype = (\<lambda>i. if i = 0 then e_BOOL else e_ANY),
      vt_DOtype = (\<lambda>i. e_ANY),
      vt_getEOConUnchecked = E_SELECT_getEOConUnchecked,
      vt_getDIConUnchecked = E_SELECT_getDIConUnchecked, vt_getDOConUnchecked = E_SELECT_getDOConUnchecked,
      vt_executeEvent = E_SELECT_executeEvent, vt_readInputData = E_SELECT_readInputData,
      vt_writeOutputData = E_SELECT_writeOutputData, vt_setInitialValues = E_SELECT_setInitialValues\<rparr>"

definition E_SELECT_evt_EI0 :: "(conn_id \<Rightarrow> cell) \<Rightarrow> cell \<Rightarrow> E_SELECT \<Rightarrow> (E_SELECT) option" where
  "E_SELECT_evt_EI0 env paG s =
     map_option (\<lambda>(s, _). (s))
       (receiveInputEvent E_SELECT_vtable env E_SELECT_scmEventEI0ID (s\<lparr>E_SELECT_var_G := paG\<rparr>, None))"

definition E_SELECT_evt_EI1 :: "(conn_id \<Rightarrow> cell) \<Rightarrow> cell \<Rightarrow> E_SELECT \<Rightarrow> (E_SELECT) option" where
  "E_SELECT_evt_EI1 env paG s =
     map_option (\<lambda>(s, _). (s))
       (receiveInputEvent E_SELECT_vtable env E_SELECT_scmEventEI1ID (s\<lparr>E_SELECT_var_G := paG\<rparr>, None))"

lemmas E_SELECT_pins = E_SELECT_getDI_def E_SELECT_getDO_def E_SELECT_getEOConUnchecked_def E_SELECT_getDIConUnchecked_def
  E_SELECT_getDOConUnchecked_def

lemmas E_SELECT_states = E_SELECT_enterStateSTART_def
  E_SELECT_enterStateEO_def

lemma E_SELECT_con_count:
  "con_value E_SELECT_getDOConUnchecked n (count_event i s) = con_value E_SELECT_getDOConUnchecked n s" if "n < getNumDOs E_SELECT_cFBInterfaceSpec"
  using that by (auto simp: E_SELECT_getDOConUnchecked_def E_SELECT_cFBInterfaceSpec_def count_event_def)

lemma E_SELECT_write_frame:
  "base (E_SELECT_writeOutputData eo s) = base s"
  "mEventMonitorCount (E_SELECT_writeOutputData eo s) = mEventMonitorCount s"
  "mECCState (E_SELECT_writeOutputData eo s) = mECCState s"
  "E_SELECT_var_G (E_SELECT_writeOutputData eo s) = E_SELECT_var_G s"
  "E_SELECT_conn_EO (E_SELECT_writeOutputData eo s) = E_SELECT_conn_EO s"
  "E_SELECT_conn_G (E_SELECT_writeOutputData eo s) = E_SELECT_conn_G s"
  by (simp_all add: E_SELECT_writeOutputData_def writeData_def base_def isForced_def Let_def)

lemma E_SELECT_write_forced:
  "mInterfaceSpec s = E_SELECT_cFBInterfaceSpec \<Longrightarrow>
   forced_kept E_SELECT_getDOConUnchecked s (E_SELECT_writeOutputData eo s)"
  unfolding E_SELECT_writeOutputData_def Let_def
  by (intro forced_inD [of E_SELECT_cFBInterfaceSpec] forced_in_if forced_in_refl)

lemma E_SELECT_send_step [fb_steps]:
  "fb_step_in E_SELECT_cFBInterfaceSpec E_SELECT_getDOConUnchecked st st' \<Longrightarrow>
   fb_step_in E_SELECT_cFBInterfaceSpec E_SELECT_getDOConUnchecked st (sendOutputEvent E_SELECT_writeOutputData geo eo st')"
  by (rule fb_step_in_send [OF E_SELECT_write_frame(1,2) E_SELECT_write_forced E_SELECT_con_count]) assumption+

lemma E_SELECT_send_fields [fb_fields]:
  "mECCState (fst (sendOutputEvent E_SELECT_writeOutputData geo eo st)) = mECCState (fst st)"
  "E_SELECT_var_G (fst (sendOutputEvent E_SELECT_writeOutputData geo eo st)) = E_SELECT_var_G (fst st)"
  "E_SELECT_conn_EO (fst (sendOutputEvent E_SELECT_writeOutputData geo eo st)) = E_SELECT_conn_EO (fst st)"
  "E_SELECT_conn_G (fst (sendOutputEvent E_SELECT_writeOutputData geo eo st)) = E_SELECT_conn_G (fst st)"
  by (rule sendOutputEvent_field; simp add: E_SELECT_write_frame count_event_def)+

lemma E_SELECT_local_step [fb_steps]:
  "fb_step_in E_SELECT_cFBInterfaceSpec E_SELECT_getDOConUnchecked st st' \<Longrightarrow>
   fb_step_in E_SELECT_cFBInterfaceSpec E_SELECT_getDOConUnchecked st (apfst (mECCState_update (\<lambda>_. v)) st')"
  by (rule fb_step_in_local;
      simp add: base_def E_SELECT_cFBInterfaceSpec_def E_SELECT_getDOConUnchecked_def Let_def)+

lemma E_SELECT_enter_ECC [fb_fields]:
  "mECCState (fst (E_SELECT_enterStateSTART st)) = E_SELECT_scmStateSTART"
  "mECCState (fst (E_SELECT_enterStateEO st)) = E_SELECT_scmStateEO"
  by (simp_all add: E_SELECT_states fb_fields Let_def)

lemma E_SELECT_sizes [simp]:
  "length (mEINames E_SELECT_cFBInterfaceSpec) = 2" "length (mEONames E_SELECT_cFBInterfaceSpec) = 1"
  "length (mDINames E_SELECT_cFBInterfaceSpec) = 1" "length (mDONames E_SELECT_cFBInterfaceSpec) = 0"
  by (simp_all add: E_SELECT_cFBInterfaceSpec_def)

lemma E_SELECT_ecc_step:
  "E_SELECT_ecc e st = Return st' \<or> E_SELECT_ecc e st = Again st' \<Longrightarrow>
   fb_step_in E_SELECT_cFBInterfaceSpec E_SELECT_getDOConUnchecked st st'"
  by (auto simp: E_SELECT_ecc_def E_SELECT_states Let_def fb_steps split: if_splits)

text \<open>Passes left before the loop of \<open>E-SELECT\<close> returns.\<close>

definition E_SELECT_rank :: "TEventID \<Rightarrow> E_SELECT \<times> ecet option \<Rightarrow> nat" where
  "E_SELECT_rank e st =
     (if e \<noteq> cgInvalidEventID then 2
      else if mECCState (fst st) = E_SELECT_scmStateEO then 1
      else 0)"

lemma E_SELECT_ecc_rank:
  "E_SELECT_ecc e st = Again st' \<Longrightarrow> E_SELECT_rank cgInvalidEventID st' < E_SELECT_rank e st"
  by (auto simp: E_SELECT_ecc_def E_SELECT_rank_def cgInvalidEventID_def cgInvalidPortId_def
      Let_def fb_fields split: if_splits)

interpretation E_SELECT_loop: ecc_machine E_SELECT_ecc
  "fb_step_in E_SELECT_cFBInterfaceSpec E_SELECT_getDOConUnchecked" E_SELECT_rank
  by unfold_locales (simp | blast intro: fb_step_in_trans E_SELECT_ecc_step E_SELECT_ecc_rank)+

interpretation E_SELECT_class: fb_class E_SELECT_vtable E_SELECT_cFBInterfaceSpec
proof (unfold_locales, goal_cases)
  case (5 s ei ex)
  then show ?case
    using E_SELECT_loop.ecc_loop_total [of ei "(s, ex)"]
    by (auto simp: E_SELECT_vtable_def E_SELECT_executeEvent_def fb_step_in_def)
qed (auto simp: E_SELECT_vtable_def E_SELECT_readInputData_def readData_def E_SELECT_getDO_def
    E_SELECT_getDOConUnchecked_def E_SELECT_cFBInterfaceSpec_def base_def isForced_def count_event_def Let_def
    split: option.splits)

section \<open>E DEMUX\<close>

text \<open>\<open>stdfblib/events/src/E_DEMUX_fbt.cpp\<close>\<close>

abbreviation (input) E_DEMUX_scmStateSTART :: "16 word" where "E_DEMUX_scmStateSTART \<equiv> 0"
abbreviation (input) E_DEMUX_scmStateState :: "16 word" where "E_DEMUX_scmStateState \<equiv> 1"
abbreviation (input) E_DEMUX_scmStateState_1 :: "16 word" where "E_DEMUX_scmStateState_1 \<equiv> 2"
abbreviation (input) E_DEMUX_scmStateState_2 :: "16 word" where "E_DEMUX_scmStateState_2 \<equiv> 3"
abbreviation (input) E_DEMUX_scmStateState_3 :: "16 word" where "E_DEMUX_scmStateState_3 \<equiv> 4"
abbreviation (input) E_DEMUX_scmStateState_4 :: "16 word" where "E_DEMUX_scmStateState_4 \<equiv> 5"
abbreviation (input) E_DEMUX_scmEventEIID :: TEventID where "E_DEMUX_scmEventEIID \<equiv> 0"
abbreviation (input) E_DEMUX_scmEventEO0ID :: TEventID where "E_DEMUX_scmEventEO0ID \<equiv> 0"
abbreviation (input) E_DEMUX_scmEventEO1ID :: TEventID where "E_DEMUX_scmEventEO1ID \<equiv> 1"
abbreviation (input) E_DEMUX_scmEventEO2ID :: TEventID where "E_DEMUX_scmEventEO2ID \<equiv> 2"
abbreviation (input) E_DEMUX_scmEventEO3ID :: TEventID where "E_DEMUX_scmEventEO3ID \<equiv> 3"

definition E_DEMUX_cFBInterfaceSpec :: "SFBInterfaceSpec" where
  "E_DEMUX_cFBInterfaceSpec =
     \<lparr>mEINames = [Some ''EI''],
      mEITypeNames = [Some ''Event''],
      mEONames = [Some ''EO0'', Some ''EO1'', Some ''EO2'', Some ''EO3''],
      mEOTypeNames = [Some ''Event'', Some ''Event'', Some ''Event'', Some ''Event''],
      mDINames = [Some ''K''],
      mDONames = [],
      mDIONames = [],
      mSocketNames = [],
      mPlugNames = []\<rparr>"

record E_DEMUX = CBasicFB +
  E_DEMUX_var_K :: cell
  E_DEMUX_conn_EO0 :: CEventConnection
  E_DEMUX_conn_EO1 :: CEventConnection
  E_DEMUX_conn_EO2 :: CEventConnection
  E_DEMUX_conn_EO3 :: CEventConnection
  E_DEMUX_conn_K :: "conn_id option"

definition FORTE_E_DEMUX :: "nat \<Rightarrow> E_DEMUX" where
  "FORTE_E_DEMUX this =
     \<lparr>mInterfaceSpec = E_DEMUX_cFBInterfaceSpec, mEventMonitorCount = [],
      mForces = replicate cgMaxSupportedForceIndex False, mFBState = Idle,
      mInputEventConnectionCount = None, mConnRefCount = 0, mDeletable = True, mECCState = 0,
      E_DEMUX_var_K = 0,
      E_DEMUX_conn_EO0 = \<lparr>mSourceId = \<lparr>mFB = this, mPortId = 0\<rparr>, mDestinationIds = []\<rparr>,
      E_DEMUX_conn_EO1 = \<lparr>mSourceId = \<lparr>mFB = this, mPortId = 1\<rparr>, mDestinationIds = []\<rparr>,
      E_DEMUX_conn_EO2 = \<lparr>mSourceId = \<lparr>mFB = this, mPortId = 2\<rparr>, mDestinationIds = []\<rparr>,
      E_DEMUX_conn_EO3 = \<lparr>mSourceId = \<lparr>mFB = this, mPortId = 3\<rparr>, mDestinationIds = []\<rparr>,
      E_DEMUX_conn_K = None\<rparr>"

definition E_DEMUX_setInitialValues :: "E_DEMUX \<Rightarrow> E_DEMUX" where
  "E_DEMUX_setInitialValues s =
     (CBasicFB_setInitialValues s)
       \<lparr>E_DEMUX_var_K := setTUINT16 0\<rparr>"

definition E_DEMUX_getDI :: "TPortId \<Rightarrow> (E_DEMUX, cell) ref option" where
  "E_DEMUX_getDI i =
     (if i = 0 then Some (Ref E_DEMUX_var_K (\<lambda>v. E_DEMUX_var_K_update (\<lambda>_. v)))
      else None)"

definition E_DEMUX_getDO :: "TPortId \<Rightarrow> (E_DEMUX, cell) ref option" where
  "E_DEMUX_getDO i =
     (None)"

definition E_DEMUX_getEOConUnchecked :: "TPortId \<Rightarrow> (E_DEMUX, CEventConnection) ref option" where
  "E_DEMUX_getEOConUnchecked i =
     (if i = 0 then Some (Ref E_DEMUX_conn_EO0 (\<lambda>v. E_DEMUX_conn_EO0_update (\<lambda>_. v)))
      else if i = 1 then Some (Ref E_DEMUX_conn_EO1 (\<lambda>v. E_DEMUX_conn_EO1_update (\<lambda>_. v)))
      else if i = 2 then Some (Ref E_DEMUX_conn_EO2 (\<lambda>v. E_DEMUX_conn_EO2_update (\<lambda>_. v)))
      else if i = 3 then Some (Ref E_DEMUX_conn_EO3 (\<lambda>v. E_DEMUX_conn_EO3_update (\<lambda>_. v)))
      else None)"

definition E_DEMUX_getDIConUnchecked :: "TPortId \<Rightarrow> (E_DEMUX, conn_id option) ref option" where
  "E_DEMUX_getDIConUnchecked i =
     (if i = 0 then Some (Ref E_DEMUX_conn_K (\<lambda>v. E_DEMUX_conn_K_update (\<lambda>_. v)))
      else None)"

definition E_DEMUX_getDOConUnchecked :: "TPortId \<Rightarrow> (E_DEMUX, COutDataConnection) ref option" where
  "E_DEMUX_getDOConUnchecked i =
     (None)"

definition E_DEMUX_readInputData :: "(conn_id \<Rightarrow> cell) \<Rightarrow> TEventID \<Rightarrow> E_DEMUX \<Rightarrow> E_DEMUX" where
  "E_DEMUX_readInputData env paEIID s =
     (if paEIID = E_DEMUX_scmEventEIID then
        (let s = readData env 0 (Ref E_DEMUX_var_K (\<lambda>v. E_DEMUX_var_K_update (\<lambda>_. v))) (E_DEMUX_conn_K s) s in s)
      else s)"

definition E_DEMUX_writeOutputData :: "TEventID \<Rightarrow> E_DEMUX \<Rightarrow> E_DEMUX" where
  "E_DEMUX_writeOutputData paEO s =
     (s)"

definition E_DEMUX_enterStateSTART :: "E_DEMUX \<times> ecet option \<Rightarrow> E_DEMUX \<times> ecet option" where
  "E_DEMUX_enterStateSTART st =
     (let st = apfst (mECCState_update (\<lambda>_. E_DEMUX_scmStateSTART)) st in
      st)"

definition E_DEMUX_enterStateState :: "E_DEMUX \<times> ecet option \<Rightarrow> E_DEMUX \<times> ecet option" where
  "E_DEMUX_enterStateState st =
     (let st = apfst (mECCState_update (\<lambda>_. E_DEMUX_scmStateState)) st in
      st)"

definition E_DEMUX_enterStateState_1 :: "E_DEMUX \<times> ecet option \<Rightarrow> E_DEMUX \<times> ecet option" where
  "E_DEMUX_enterStateState_1 st =
     (let st = apfst (mECCState_update (\<lambda>_. E_DEMUX_scmStateState_1)) st in
      let st = sendOutputEvent E_DEMUX_writeOutputData E_DEMUX_getEOConUnchecked E_DEMUX_scmEventEO0ID st in
      st)"

definition E_DEMUX_enterStateState_2 :: "E_DEMUX \<times> ecet option \<Rightarrow> E_DEMUX \<times> ecet option" where
  "E_DEMUX_enterStateState_2 st =
     (let st = apfst (mECCState_update (\<lambda>_. E_DEMUX_scmStateState_2)) st in
      let st = sendOutputEvent E_DEMUX_writeOutputData E_DEMUX_getEOConUnchecked E_DEMUX_scmEventEO1ID st in
      st)"

definition E_DEMUX_enterStateState_3 :: "E_DEMUX \<times> ecet option \<Rightarrow> E_DEMUX \<times> ecet option" where
  "E_DEMUX_enterStateState_3 st =
     (let st = apfst (mECCState_update (\<lambda>_. E_DEMUX_scmStateState_3)) st in
      let st = sendOutputEvent E_DEMUX_writeOutputData E_DEMUX_getEOConUnchecked E_DEMUX_scmEventEO2ID st in
      st)"

definition E_DEMUX_enterStateState_4 :: "E_DEMUX \<times> ecet option \<Rightarrow> E_DEMUX \<times> ecet option" where
  "E_DEMUX_enterStateState_4 st =
     (let st = apfst (mECCState_update (\<lambda>_. E_DEMUX_scmStateState_4)) st in
      let st = sendOutputEvent E_DEMUX_writeOutputData E_DEMUX_getEOConUnchecked E_DEMUX_scmEventEO3ID st in
      st)"

definition E_DEMUX_ecc :: "TEventID \<Rightarrow> E_DEMUX \<times> ecet option \<Rightarrow> (E_DEMUX \<times> ecet option) ecc" where
  "E_DEMUX_ecc paEIID st =
     (let s = fst st in
       if mECCState s = E_DEMUX_scmStateSTART then
         (if paEIID = E_DEMUX_scmEventEIID
          then Again (E_DEMUX_enterStateState st)
          else Return st)
       else if mECCState s = E_DEMUX_scmStateState then
         (if func_EQ_UINT (E_DEMUX_var_K s) (setTUINT16 0)
          then Again (E_DEMUX_enterStateState_1 st)
          else if func_EQ_UINT (E_DEMUX_var_K s) (setTUINT16 1)
          then Again (E_DEMUX_enterStateState_2 st)
          else if func_EQ_UINT (E_DEMUX_var_K s) (setTUINT16 2)
          then Again (E_DEMUX_enterStateState_3 st)
          else if func_EQ_UINT (E_DEMUX_var_K s) (setTUINT16 3)
          then Again (E_DEMUX_enterStateState_4 st)
          else if func_GT_UINT (E_DEMUX_var_K s) (setTUINT16 3)
          then Again (E_DEMUX_enterStateSTART st)
          else Return st)
       else if mECCState s = E_DEMUX_scmStateState_1 then
         (Again (E_DEMUX_enterStateSTART st))
       else if mECCState s = E_DEMUX_scmStateState_2 then
         (Again (E_DEMUX_enterStateSTART st))
       else if mECCState s = E_DEMUX_scmStateState_3 then
         (Again (E_DEMUX_enterStateSTART st))
       else if mECCState s = E_DEMUX_scmStateState_4 then
         (Again (E_DEMUX_enterStateSTART st))
       else Return (apfst (mECCState_update (\<lambda>_. 0)) st))"

definition E_DEMUX_executeEvent :: "TEventID \<Rightarrow> E_DEMUX \<times> ecet option \<Rightarrow> (E_DEMUX \<times> ecet option) option" where
  "E_DEMUX_executeEvent = ecc_loop E_DEMUX_ecc"

definition E_DEMUX_vtable :: "E_DEMUX vtable" where
  "E_DEMUX_vtable =
     \<lparr>vt_getDI = E_DEMUX_getDI, vt_getDO = E_DEMUX_getDO, vt_getDIO = (\<lambda>_. None),
      vt_DItype = (\<lambda>i. if i = 0 then e_UINT else e_ANY),
      vt_DOtype = (\<lambda>i. e_ANY),
      vt_getEOConUnchecked = E_DEMUX_getEOConUnchecked,
      vt_getDIConUnchecked = E_DEMUX_getDIConUnchecked, vt_getDOConUnchecked = E_DEMUX_getDOConUnchecked,
      vt_executeEvent = E_DEMUX_executeEvent, vt_readInputData = E_DEMUX_readInputData,
      vt_writeOutputData = E_DEMUX_writeOutputData, vt_setInitialValues = E_DEMUX_setInitialValues\<rparr>"

definition E_DEMUX_evt_EI :: "(conn_id \<Rightarrow> cell) \<Rightarrow> cell \<Rightarrow> E_DEMUX \<Rightarrow> (E_DEMUX) option" where
  "E_DEMUX_evt_EI env paK s =
     map_option (\<lambda>(s, _). (s))
       (receiveInputEvent E_DEMUX_vtable env E_DEMUX_scmEventEIID (s\<lparr>E_DEMUX_var_K := paK\<rparr>, None))"

lemmas E_DEMUX_pins = E_DEMUX_getDI_def E_DEMUX_getDO_def E_DEMUX_getEOConUnchecked_def E_DEMUX_getDIConUnchecked_def
  E_DEMUX_getDOConUnchecked_def

lemmas E_DEMUX_states = E_DEMUX_enterStateSTART_def
  E_DEMUX_enterStateState_def
  E_DEMUX_enterStateState_1_def
  E_DEMUX_enterStateState_2_def
  E_DEMUX_enterStateState_3_def
  E_DEMUX_enterStateState_4_def

lemma E_DEMUX_con_count:
  "con_value E_DEMUX_getDOConUnchecked n (count_event i s) = con_value E_DEMUX_getDOConUnchecked n s" if "n < getNumDOs E_DEMUX_cFBInterfaceSpec"
  using that by (auto simp: E_DEMUX_getDOConUnchecked_def E_DEMUX_cFBInterfaceSpec_def count_event_def)

lemma E_DEMUX_write_frame:
  "base (E_DEMUX_writeOutputData eo s) = base s"
  "mEventMonitorCount (E_DEMUX_writeOutputData eo s) = mEventMonitorCount s"
  "mECCState (E_DEMUX_writeOutputData eo s) = mECCState s"
  "E_DEMUX_var_K (E_DEMUX_writeOutputData eo s) = E_DEMUX_var_K s"
  "E_DEMUX_conn_EO0 (E_DEMUX_writeOutputData eo s) = E_DEMUX_conn_EO0 s"
  "E_DEMUX_conn_EO1 (E_DEMUX_writeOutputData eo s) = E_DEMUX_conn_EO1 s"
  "E_DEMUX_conn_EO2 (E_DEMUX_writeOutputData eo s) = E_DEMUX_conn_EO2 s"
  "E_DEMUX_conn_EO3 (E_DEMUX_writeOutputData eo s) = E_DEMUX_conn_EO3 s"
  "E_DEMUX_conn_K (E_DEMUX_writeOutputData eo s) = E_DEMUX_conn_K s"
  by (simp_all add: E_DEMUX_writeOutputData_def writeData_def base_def isForced_def Let_def)

lemma E_DEMUX_write_forced:
  "mInterfaceSpec s = E_DEMUX_cFBInterfaceSpec \<Longrightarrow>
   forced_kept E_DEMUX_getDOConUnchecked s (E_DEMUX_writeOutputData eo s)"
  unfolding E_DEMUX_writeOutputData_def Let_def
  by (intro forced_inD [of E_DEMUX_cFBInterfaceSpec] forced_in_if forced_in_refl)

lemma E_DEMUX_send_step [fb_steps]:
  "fb_step_in E_DEMUX_cFBInterfaceSpec E_DEMUX_getDOConUnchecked st st' \<Longrightarrow>
   fb_step_in E_DEMUX_cFBInterfaceSpec E_DEMUX_getDOConUnchecked st (sendOutputEvent E_DEMUX_writeOutputData geo eo st')"
  by (rule fb_step_in_send [OF E_DEMUX_write_frame(1,2) E_DEMUX_write_forced E_DEMUX_con_count]) assumption+

lemma E_DEMUX_send_fields [fb_fields]:
  "mECCState (fst (sendOutputEvent E_DEMUX_writeOutputData geo eo st)) = mECCState (fst st)"
  "E_DEMUX_var_K (fst (sendOutputEvent E_DEMUX_writeOutputData geo eo st)) = E_DEMUX_var_K (fst st)"
  "E_DEMUX_conn_EO0 (fst (sendOutputEvent E_DEMUX_writeOutputData geo eo st)) = E_DEMUX_conn_EO0 (fst st)"
  "E_DEMUX_conn_EO1 (fst (sendOutputEvent E_DEMUX_writeOutputData geo eo st)) = E_DEMUX_conn_EO1 (fst st)"
  "E_DEMUX_conn_EO2 (fst (sendOutputEvent E_DEMUX_writeOutputData geo eo st)) = E_DEMUX_conn_EO2 (fst st)"
  "E_DEMUX_conn_EO3 (fst (sendOutputEvent E_DEMUX_writeOutputData geo eo st)) = E_DEMUX_conn_EO3 (fst st)"
  "E_DEMUX_conn_K (fst (sendOutputEvent E_DEMUX_writeOutputData geo eo st)) = E_DEMUX_conn_K (fst st)"
  by (rule sendOutputEvent_field; simp add: E_DEMUX_write_frame count_event_def)+

lemma E_DEMUX_local_step [fb_steps]:
  "fb_step_in E_DEMUX_cFBInterfaceSpec E_DEMUX_getDOConUnchecked st st' \<Longrightarrow>
   fb_step_in E_DEMUX_cFBInterfaceSpec E_DEMUX_getDOConUnchecked st (apfst (mECCState_update (\<lambda>_. v)) st')"
  by (rule fb_step_in_local;
      simp add: base_def E_DEMUX_cFBInterfaceSpec_def E_DEMUX_getDOConUnchecked_def Let_def)+

lemma E_DEMUX_enter_ECC [fb_fields]:
  "mECCState (fst (E_DEMUX_enterStateSTART st)) = E_DEMUX_scmStateSTART"
  "mECCState (fst (E_DEMUX_enterStateState st)) = E_DEMUX_scmStateState"
  "mECCState (fst (E_DEMUX_enterStateState_1 st)) = E_DEMUX_scmStateState_1"
  "mECCState (fst (E_DEMUX_enterStateState_2 st)) = E_DEMUX_scmStateState_2"
  "mECCState (fst (E_DEMUX_enterStateState_3 st)) = E_DEMUX_scmStateState_3"
  "mECCState (fst (E_DEMUX_enterStateState_4 st)) = E_DEMUX_scmStateState_4"
  by (simp_all add: E_DEMUX_states fb_fields Let_def)

lemma E_DEMUX_sizes [simp]:
  "length (mEINames E_DEMUX_cFBInterfaceSpec) = 1" "length (mEONames E_DEMUX_cFBInterfaceSpec) = 4"
  "length (mDINames E_DEMUX_cFBInterfaceSpec) = 1" "length (mDONames E_DEMUX_cFBInterfaceSpec) = 0"
  by (simp_all add: E_DEMUX_cFBInterfaceSpec_def)

lemma E_DEMUX_ecc_step:
  "E_DEMUX_ecc e st = Return st' \<or> E_DEMUX_ecc e st = Again st' \<Longrightarrow>
   fb_step_in E_DEMUX_cFBInterfaceSpec E_DEMUX_getDOConUnchecked st st'"
  by (auto simp: E_DEMUX_ecc_def E_DEMUX_states Let_def fb_steps split: if_splits)

text \<open>Passes left before the loop of \<open>E-DEMUX\<close> returns.\<close>

definition E_DEMUX_rank :: "TEventID \<Rightarrow> E_DEMUX \<times> ecet option \<Rightarrow> nat" where
  "E_DEMUX_rank e st =
     (if e \<noteq> cgInvalidEventID then 3
      else if mECCState (fst st) = E_DEMUX_scmStateState_1 then 1
      else if mECCState (fst st) = E_DEMUX_scmStateState_2 then 1
      else if mECCState (fst st) = E_DEMUX_scmStateState_3 then 1
      else if mECCState (fst st) = E_DEMUX_scmStateState_4 then 1
      else if mECCState (fst st) = E_DEMUX_scmStateState then 2
      else 0)"

lemma E_DEMUX_ecc_rank:
  "E_DEMUX_ecc e st = Again st' \<Longrightarrow> E_DEMUX_rank cgInvalidEventID st' < E_DEMUX_rank e st"
  by (auto simp: E_DEMUX_ecc_def E_DEMUX_rank_def cgInvalidEventID_def cgInvalidPortId_def
      Let_def fb_fields split: if_splits)

interpretation E_DEMUX_loop: ecc_machine E_DEMUX_ecc
  "fb_step_in E_DEMUX_cFBInterfaceSpec E_DEMUX_getDOConUnchecked" E_DEMUX_rank
  by unfold_locales (simp | blast intro: fb_step_in_trans E_DEMUX_ecc_step E_DEMUX_ecc_rank)+

interpretation E_DEMUX_class: fb_class E_DEMUX_vtable E_DEMUX_cFBInterfaceSpec
proof (unfold_locales, goal_cases)
  case (5 s ei ex)
  then show ?case
    using E_DEMUX_loop.ecc_loop_total [of ei "(s, ex)"]
    by (auto simp: E_DEMUX_vtable_def E_DEMUX_executeEvent_def fb_step_in_def)
qed (auto simp: E_DEMUX_vtable_def E_DEMUX_readInputData_def readData_def E_DEMUX_getDO_def
    E_DEMUX_getDOConUnchecked_def E_DEMUX_cFBInterfaceSpec_def base_def isForced_def count_event_def Let_def
    split: option.splits)

section \<open>E SPLIT\<close>

text \<open>\<open>stdfblib/events/src/E_SPLIT_fbt.cpp\<close>\<close>

abbreviation (input) E_SPLIT_scmStateSTART :: "16 word" where "E_SPLIT_scmStateSTART \<equiv> 0"
abbreviation (input) E_SPLIT_scmStateState :: "16 word" where "E_SPLIT_scmStateState \<equiv> 1"
abbreviation (input) E_SPLIT_scmEventEIID :: TEventID where "E_SPLIT_scmEventEIID \<equiv> 0"
abbreviation (input) E_SPLIT_scmEventEO1ID :: TEventID where "E_SPLIT_scmEventEO1ID \<equiv> 0"
abbreviation (input) E_SPLIT_scmEventEO2ID :: TEventID where "E_SPLIT_scmEventEO2ID \<equiv> 1"

definition E_SPLIT_cFBInterfaceSpec :: "SFBInterfaceSpec" where
  "E_SPLIT_cFBInterfaceSpec =
     \<lparr>mEINames = [Some ''EI''],
      mEITypeNames = [],
      mEONames = [Some ''EO1'', Some ''EO2''],
      mEOTypeNames = [],
      mDINames = [],
      mDONames = [],
      mDIONames = [],
      mSocketNames = [],
      mPlugNames = []\<rparr>"

record E_SPLIT = CBasicFB +
  E_SPLIT_conn_EO1 :: CEventConnection
  E_SPLIT_conn_EO2 :: CEventConnection

definition FORTE_E_SPLIT :: "nat \<Rightarrow> E_SPLIT" where
  "FORTE_E_SPLIT this =
     \<lparr>mInterfaceSpec = E_SPLIT_cFBInterfaceSpec, mEventMonitorCount = [],
      mForces = replicate cgMaxSupportedForceIndex False, mFBState = Idle,
      mInputEventConnectionCount = None, mConnRefCount = 0, mDeletable = True, mECCState = 0,
      E_SPLIT_conn_EO1 = \<lparr>mSourceId = \<lparr>mFB = this, mPortId = 0\<rparr>, mDestinationIds = []\<rparr>,
      E_SPLIT_conn_EO2 = \<lparr>mSourceId = \<lparr>mFB = this, mPortId = 1\<rparr>, mDestinationIds = []\<rparr>\<rparr>"

definition E_SPLIT_setInitialValues :: "E_SPLIT \<Rightarrow> E_SPLIT" where
  "E_SPLIT_setInitialValues s = CBasicFB_setInitialValues s"

definition E_SPLIT_getDI :: "TPortId \<Rightarrow> (E_SPLIT, cell) ref option" where
  "E_SPLIT_getDI i =
     (None)"

definition E_SPLIT_getDO :: "TPortId \<Rightarrow> (E_SPLIT, cell) ref option" where
  "E_SPLIT_getDO i =
     (None)"

definition E_SPLIT_getEOConUnchecked :: "TPortId \<Rightarrow> (E_SPLIT, CEventConnection) ref option" where
  "E_SPLIT_getEOConUnchecked i =
     (if i = 0 then Some (Ref E_SPLIT_conn_EO1 (\<lambda>v. E_SPLIT_conn_EO1_update (\<lambda>_. v)))
      else if i = 1 then Some (Ref E_SPLIT_conn_EO2 (\<lambda>v. E_SPLIT_conn_EO2_update (\<lambda>_. v)))
      else None)"

definition E_SPLIT_getDIConUnchecked :: "TPortId \<Rightarrow> (E_SPLIT, conn_id option) ref option" where
  "E_SPLIT_getDIConUnchecked i =
     (None)"

definition E_SPLIT_getDOConUnchecked :: "TPortId \<Rightarrow> (E_SPLIT, COutDataConnection) ref option" where
  "E_SPLIT_getDOConUnchecked i =
     (None)"

definition E_SPLIT_readInputData :: "(conn_id \<Rightarrow> cell) \<Rightarrow> TEventID \<Rightarrow> E_SPLIT \<Rightarrow> E_SPLIT" where
  "E_SPLIT_readInputData env paEIID s =
     (s)"

definition E_SPLIT_writeOutputData :: "TEventID \<Rightarrow> E_SPLIT \<Rightarrow> E_SPLIT" where
  "E_SPLIT_writeOutputData paEO s =
     (s)"

definition E_SPLIT_enterStateSTART :: "E_SPLIT \<times> ecet option \<Rightarrow> E_SPLIT \<times> ecet option" where
  "E_SPLIT_enterStateSTART st =
     (let st = apfst (mECCState_update (\<lambda>_. E_SPLIT_scmStateSTART)) st in
      st)"

definition E_SPLIT_enterStateState :: "E_SPLIT \<times> ecet option \<Rightarrow> E_SPLIT \<times> ecet option" where
  "E_SPLIT_enterStateState st =
     (let st = apfst (mECCState_update (\<lambda>_. E_SPLIT_scmStateState)) st in
      let st = sendOutputEvent E_SPLIT_writeOutputData E_SPLIT_getEOConUnchecked E_SPLIT_scmEventEO1ID st in
      let st = sendOutputEvent E_SPLIT_writeOutputData E_SPLIT_getEOConUnchecked E_SPLIT_scmEventEO2ID st in
      st)"

definition E_SPLIT_ecc :: "TEventID \<Rightarrow> E_SPLIT \<times> ecet option \<Rightarrow> (E_SPLIT \<times> ecet option) ecc" where
  "E_SPLIT_ecc paEIID st =
     (let s = fst st in
       if mECCState s = E_SPLIT_scmStateSTART then
         (if paEIID = E_SPLIT_scmEventEIID
          then Again (E_SPLIT_enterStateState st)
          else Return st)
       else if mECCState s = E_SPLIT_scmStateState then
         (Again (E_SPLIT_enterStateSTART st))
       else Return (apfst (mECCState_update (\<lambda>_. 0)) st))"

definition E_SPLIT_executeEvent :: "TEventID \<Rightarrow> E_SPLIT \<times> ecet option \<Rightarrow> (E_SPLIT \<times> ecet option) option" where
  "E_SPLIT_executeEvent = ecc_loop E_SPLIT_ecc"

definition E_SPLIT_vtable :: "E_SPLIT vtable" where
  "E_SPLIT_vtable =
     \<lparr>vt_getDI = E_SPLIT_getDI, vt_getDO = E_SPLIT_getDO, vt_getDIO = (\<lambda>_. None),
      vt_DItype = (\<lambda>i. e_ANY),
      vt_DOtype = (\<lambda>i. e_ANY),
      vt_getEOConUnchecked = E_SPLIT_getEOConUnchecked,
      vt_getDIConUnchecked = E_SPLIT_getDIConUnchecked, vt_getDOConUnchecked = E_SPLIT_getDOConUnchecked,
      vt_executeEvent = E_SPLIT_executeEvent, vt_readInputData = E_SPLIT_readInputData,
      vt_writeOutputData = E_SPLIT_writeOutputData, vt_setInitialValues = E_SPLIT_setInitialValues\<rparr>"

definition E_SPLIT_evt_EI :: "(conn_id \<Rightarrow> cell) \<Rightarrow> E_SPLIT \<Rightarrow> (E_SPLIT) option" where
  "E_SPLIT_evt_EI env s =
     map_option (\<lambda>(s, _). (s))
       (receiveInputEvent E_SPLIT_vtable env E_SPLIT_scmEventEIID (s, None))"

lemmas E_SPLIT_pins = E_SPLIT_getDI_def E_SPLIT_getDO_def E_SPLIT_getEOConUnchecked_def E_SPLIT_getDIConUnchecked_def
  E_SPLIT_getDOConUnchecked_def

lemmas E_SPLIT_states = E_SPLIT_enterStateSTART_def
  E_SPLIT_enterStateState_def

lemma E_SPLIT_con_count:
  "con_value E_SPLIT_getDOConUnchecked n (count_event i s) = con_value E_SPLIT_getDOConUnchecked n s" if "n < getNumDOs E_SPLIT_cFBInterfaceSpec"
  using that by (auto simp: E_SPLIT_getDOConUnchecked_def E_SPLIT_cFBInterfaceSpec_def count_event_def)

lemma E_SPLIT_write_frame:
  "base (E_SPLIT_writeOutputData eo s) = base s"
  "mEventMonitorCount (E_SPLIT_writeOutputData eo s) = mEventMonitorCount s"
  "mECCState (E_SPLIT_writeOutputData eo s) = mECCState s"
  "E_SPLIT_conn_EO1 (E_SPLIT_writeOutputData eo s) = E_SPLIT_conn_EO1 s"
  "E_SPLIT_conn_EO2 (E_SPLIT_writeOutputData eo s) = E_SPLIT_conn_EO2 s"
  by (simp_all add: E_SPLIT_writeOutputData_def writeData_def base_def isForced_def Let_def)

lemma E_SPLIT_write_forced:
  "mInterfaceSpec s = E_SPLIT_cFBInterfaceSpec \<Longrightarrow>
   forced_kept E_SPLIT_getDOConUnchecked s (E_SPLIT_writeOutputData eo s)"
  unfolding E_SPLIT_writeOutputData_def Let_def
  by (intro forced_inD [of E_SPLIT_cFBInterfaceSpec] forced_in_if forced_in_refl)

lemma E_SPLIT_send_step [fb_steps]:
  "fb_step_in E_SPLIT_cFBInterfaceSpec E_SPLIT_getDOConUnchecked st st' \<Longrightarrow>
   fb_step_in E_SPLIT_cFBInterfaceSpec E_SPLIT_getDOConUnchecked st (sendOutputEvent E_SPLIT_writeOutputData geo eo st')"
  by (rule fb_step_in_send [OF E_SPLIT_write_frame(1,2) E_SPLIT_write_forced E_SPLIT_con_count]) assumption+

lemma E_SPLIT_send_fields [fb_fields]:
  "mECCState (fst (sendOutputEvent E_SPLIT_writeOutputData geo eo st)) = mECCState (fst st)"
  "E_SPLIT_conn_EO1 (fst (sendOutputEvent E_SPLIT_writeOutputData geo eo st)) = E_SPLIT_conn_EO1 (fst st)"
  "E_SPLIT_conn_EO2 (fst (sendOutputEvent E_SPLIT_writeOutputData geo eo st)) = E_SPLIT_conn_EO2 (fst st)"
  by (rule sendOutputEvent_field; simp add: E_SPLIT_write_frame count_event_def)+

lemma E_SPLIT_local_step [fb_steps]:
  "fb_step_in E_SPLIT_cFBInterfaceSpec E_SPLIT_getDOConUnchecked st st' \<Longrightarrow>
   fb_step_in E_SPLIT_cFBInterfaceSpec E_SPLIT_getDOConUnchecked st (apfst (mECCState_update (\<lambda>_. v)) st')"
  by (rule fb_step_in_local;
      simp add: base_def E_SPLIT_cFBInterfaceSpec_def E_SPLIT_getDOConUnchecked_def Let_def)+

lemma E_SPLIT_enter_ECC [fb_fields]:
  "mECCState (fst (E_SPLIT_enterStateSTART st)) = E_SPLIT_scmStateSTART"
  "mECCState (fst (E_SPLIT_enterStateState st)) = E_SPLIT_scmStateState"
  by (simp_all add: E_SPLIT_states fb_fields Let_def)

lemma E_SPLIT_sizes [simp]:
  "length (mEINames E_SPLIT_cFBInterfaceSpec) = 1" "length (mEONames E_SPLIT_cFBInterfaceSpec) = 2"
  "length (mDINames E_SPLIT_cFBInterfaceSpec) = 0" "length (mDONames E_SPLIT_cFBInterfaceSpec) = 0"
  by (simp_all add: E_SPLIT_cFBInterfaceSpec_def)

lemma E_SPLIT_ecc_step:
  "E_SPLIT_ecc e st = Return st' \<or> E_SPLIT_ecc e st = Again st' \<Longrightarrow>
   fb_step_in E_SPLIT_cFBInterfaceSpec E_SPLIT_getDOConUnchecked st st'"
  by (auto simp: E_SPLIT_ecc_def E_SPLIT_states Let_def fb_steps split: if_splits)

text \<open>Passes left before the loop of \<open>E-SPLIT\<close> returns.\<close>

definition E_SPLIT_rank :: "TEventID \<Rightarrow> E_SPLIT \<times> ecet option \<Rightarrow> nat" where
  "E_SPLIT_rank e st =
     (if e \<noteq> cgInvalidEventID then 2
      else if mECCState (fst st) = E_SPLIT_scmStateState then 1
      else 0)"

lemma E_SPLIT_ecc_rank:
  "E_SPLIT_ecc e st = Again st' \<Longrightarrow> E_SPLIT_rank cgInvalidEventID st' < E_SPLIT_rank e st"
  by (auto simp: E_SPLIT_ecc_def E_SPLIT_rank_def cgInvalidEventID_def cgInvalidPortId_def
      Let_def fb_fields split: if_splits)

interpretation E_SPLIT_loop: ecc_machine E_SPLIT_ecc
  "fb_step_in E_SPLIT_cFBInterfaceSpec E_SPLIT_getDOConUnchecked" E_SPLIT_rank
  by unfold_locales (simp | blast intro: fb_step_in_trans E_SPLIT_ecc_step E_SPLIT_ecc_rank)+

interpretation E_SPLIT_class: fb_class E_SPLIT_vtable E_SPLIT_cFBInterfaceSpec
proof (unfold_locales, goal_cases)
  case (5 s ei ex)
  then show ?case
    using E_SPLIT_loop.ecc_loop_total [of ei "(s, ex)"]
    by (auto simp: E_SPLIT_vtable_def E_SPLIT_executeEvent_def fb_step_in_def)
qed (auto simp: E_SPLIT_vtable_def E_SPLIT_readInputData_def readData_def E_SPLIT_getDO_def
    E_SPLIT_getDOConUnchecked_def E_SPLIT_cFBInterfaceSpec_def base_def isForced_def count_event_def Let_def
    split: option.splits)

section \<open>E MERGE\<close>

text \<open>\<open>stdfblib/events/src/E_MERGE_fbt.cpp\<close>\<close>

abbreviation (input) E_MERGE_scmStateSTART :: "16 word" where "E_MERGE_scmStateSTART \<equiv> 0"
abbreviation (input) E_MERGE_scmStateEO :: "16 word" where "E_MERGE_scmStateEO \<equiv> 1"
abbreviation (input) E_MERGE_scmEventEI1ID :: TEventID where "E_MERGE_scmEventEI1ID \<equiv> 0"
abbreviation (input) E_MERGE_scmEventEI2ID :: TEventID where "E_MERGE_scmEventEI2ID \<equiv> 1"
abbreviation (input) E_MERGE_scmEventEOID :: TEventID where "E_MERGE_scmEventEOID \<equiv> 0"

definition E_MERGE_cFBInterfaceSpec :: "SFBInterfaceSpec" where
  "E_MERGE_cFBInterfaceSpec =
     \<lparr>mEINames = [Some ''EI1'', Some ''EI2''],
      mEITypeNames = [Some ''Event'', Some ''Event''],
      mEONames = [Some ''EO''],
      mEOTypeNames = [Some ''Event''],
      mDINames = [],
      mDONames = [],
      mDIONames = [],
      mSocketNames = [],
      mPlugNames = []\<rparr>"

record E_MERGE = CBasicFB +
  E_MERGE_conn_EO :: CEventConnection

definition FORTE_E_MERGE :: "nat \<Rightarrow> E_MERGE" where
  "FORTE_E_MERGE this =
     \<lparr>mInterfaceSpec = E_MERGE_cFBInterfaceSpec, mEventMonitorCount = [],
      mForces = replicate cgMaxSupportedForceIndex False, mFBState = Idle,
      mInputEventConnectionCount = None, mConnRefCount = 0, mDeletable = True, mECCState = 0,
      E_MERGE_conn_EO = \<lparr>mSourceId = \<lparr>mFB = this, mPortId = 0\<rparr>, mDestinationIds = []\<rparr>\<rparr>"

definition E_MERGE_setInitialValues :: "E_MERGE \<Rightarrow> E_MERGE" where
  "E_MERGE_setInitialValues s = CBasicFB_setInitialValues s"

definition E_MERGE_getDI :: "TPortId \<Rightarrow> (E_MERGE, cell) ref option" where
  "E_MERGE_getDI i =
     (None)"

definition E_MERGE_getDO :: "TPortId \<Rightarrow> (E_MERGE, cell) ref option" where
  "E_MERGE_getDO i =
     (None)"

definition E_MERGE_getEOConUnchecked :: "TPortId \<Rightarrow> (E_MERGE, CEventConnection) ref option" where
  "E_MERGE_getEOConUnchecked i =
     (if i = 0 then Some (Ref E_MERGE_conn_EO (\<lambda>v. E_MERGE_conn_EO_update (\<lambda>_. v)))
      else None)"

definition E_MERGE_getDIConUnchecked :: "TPortId \<Rightarrow> (E_MERGE, conn_id option) ref option" where
  "E_MERGE_getDIConUnchecked i =
     (None)"

definition E_MERGE_getDOConUnchecked :: "TPortId \<Rightarrow> (E_MERGE, COutDataConnection) ref option" where
  "E_MERGE_getDOConUnchecked i =
     (None)"

definition E_MERGE_readInputData :: "(conn_id \<Rightarrow> cell) \<Rightarrow> TEventID \<Rightarrow> E_MERGE \<Rightarrow> E_MERGE" where
  "E_MERGE_readInputData env paEIID s =
     (s)"

definition E_MERGE_writeOutputData :: "TEventID \<Rightarrow> E_MERGE \<Rightarrow> E_MERGE" where
  "E_MERGE_writeOutputData paEO s =
     (s)"

definition E_MERGE_enterStateSTART :: "E_MERGE \<times> ecet option \<Rightarrow> E_MERGE \<times> ecet option" where
  "E_MERGE_enterStateSTART st =
     (let st = apfst (mECCState_update (\<lambda>_. E_MERGE_scmStateSTART)) st in
      st)"

definition E_MERGE_enterStateEO :: "E_MERGE \<times> ecet option \<Rightarrow> E_MERGE \<times> ecet option" where
  "E_MERGE_enterStateEO st =
     (let st = apfst (mECCState_update (\<lambda>_. E_MERGE_scmStateEO)) st in
      let st = sendOutputEvent E_MERGE_writeOutputData E_MERGE_getEOConUnchecked E_MERGE_scmEventEOID st in
      st)"

definition E_MERGE_ecc :: "TEventID \<Rightarrow> E_MERGE \<times> ecet option \<Rightarrow> (E_MERGE \<times> ecet option) ecc" where
  "E_MERGE_ecc paEIID st =
     (let s = fst st in
       if mECCState s = E_MERGE_scmStateSTART then
         (if paEIID = E_MERGE_scmEventEI1ID
          then Again (E_MERGE_enterStateEO st)
          else if paEIID = E_MERGE_scmEventEI2ID
          then Again (E_MERGE_enterStateEO st)
          else Return st)
       else if mECCState s = E_MERGE_scmStateEO then
         (Again (E_MERGE_enterStateSTART st))
       else Return (apfst (mECCState_update (\<lambda>_. 0)) st))"

definition E_MERGE_executeEvent :: "TEventID \<Rightarrow> E_MERGE \<times> ecet option \<Rightarrow> (E_MERGE \<times> ecet option) option" where
  "E_MERGE_executeEvent = ecc_loop E_MERGE_ecc"

definition E_MERGE_vtable :: "E_MERGE vtable" where
  "E_MERGE_vtable =
     \<lparr>vt_getDI = E_MERGE_getDI, vt_getDO = E_MERGE_getDO, vt_getDIO = (\<lambda>_. None),
      vt_DItype = (\<lambda>i. e_ANY),
      vt_DOtype = (\<lambda>i. e_ANY),
      vt_getEOConUnchecked = E_MERGE_getEOConUnchecked,
      vt_getDIConUnchecked = E_MERGE_getDIConUnchecked, vt_getDOConUnchecked = E_MERGE_getDOConUnchecked,
      vt_executeEvent = E_MERGE_executeEvent, vt_readInputData = E_MERGE_readInputData,
      vt_writeOutputData = E_MERGE_writeOutputData, vt_setInitialValues = E_MERGE_setInitialValues\<rparr>"

definition E_MERGE_evt_EI1 :: "(conn_id \<Rightarrow> cell) \<Rightarrow> E_MERGE \<Rightarrow> (E_MERGE) option" where
  "E_MERGE_evt_EI1 env s =
     map_option (\<lambda>(s, _). (s))
       (receiveInputEvent E_MERGE_vtable env E_MERGE_scmEventEI1ID (s, None))"

definition E_MERGE_evt_EI2 :: "(conn_id \<Rightarrow> cell) \<Rightarrow> E_MERGE \<Rightarrow> (E_MERGE) option" where
  "E_MERGE_evt_EI2 env s =
     map_option (\<lambda>(s, _). (s))
       (receiveInputEvent E_MERGE_vtable env E_MERGE_scmEventEI2ID (s, None))"

lemmas E_MERGE_pins = E_MERGE_getDI_def E_MERGE_getDO_def E_MERGE_getEOConUnchecked_def E_MERGE_getDIConUnchecked_def
  E_MERGE_getDOConUnchecked_def

lemmas E_MERGE_states = E_MERGE_enterStateSTART_def
  E_MERGE_enterStateEO_def

lemma E_MERGE_con_count:
  "con_value E_MERGE_getDOConUnchecked n (count_event i s) = con_value E_MERGE_getDOConUnchecked n s" if "n < getNumDOs E_MERGE_cFBInterfaceSpec"
  using that by (auto simp: E_MERGE_getDOConUnchecked_def E_MERGE_cFBInterfaceSpec_def count_event_def)

lemma E_MERGE_write_frame:
  "base (E_MERGE_writeOutputData eo s) = base s"
  "mEventMonitorCount (E_MERGE_writeOutputData eo s) = mEventMonitorCount s"
  "mECCState (E_MERGE_writeOutputData eo s) = mECCState s"
  "E_MERGE_conn_EO (E_MERGE_writeOutputData eo s) = E_MERGE_conn_EO s"
  by (simp_all add: E_MERGE_writeOutputData_def writeData_def base_def isForced_def Let_def)

lemma E_MERGE_write_forced:
  "mInterfaceSpec s = E_MERGE_cFBInterfaceSpec \<Longrightarrow>
   forced_kept E_MERGE_getDOConUnchecked s (E_MERGE_writeOutputData eo s)"
  unfolding E_MERGE_writeOutputData_def Let_def
  by (intro forced_inD [of E_MERGE_cFBInterfaceSpec] forced_in_if forced_in_refl)

lemma E_MERGE_send_step [fb_steps]:
  "fb_step_in E_MERGE_cFBInterfaceSpec E_MERGE_getDOConUnchecked st st' \<Longrightarrow>
   fb_step_in E_MERGE_cFBInterfaceSpec E_MERGE_getDOConUnchecked st (sendOutputEvent E_MERGE_writeOutputData geo eo st')"
  by (rule fb_step_in_send [OF E_MERGE_write_frame(1,2) E_MERGE_write_forced E_MERGE_con_count]) assumption+

lemma E_MERGE_send_fields [fb_fields]:
  "mECCState (fst (sendOutputEvent E_MERGE_writeOutputData geo eo st)) = mECCState (fst st)"
  "E_MERGE_conn_EO (fst (sendOutputEvent E_MERGE_writeOutputData geo eo st)) = E_MERGE_conn_EO (fst st)"
  by (rule sendOutputEvent_field; simp add: E_MERGE_write_frame count_event_def)+

lemma E_MERGE_local_step [fb_steps]:
  "fb_step_in E_MERGE_cFBInterfaceSpec E_MERGE_getDOConUnchecked st st' \<Longrightarrow>
   fb_step_in E_MERGE_cFBInterfaceSpec E_MERGE_getDOConUnchecked st (apfst (mECCState_update (\<lambda>_. v)) st')"
  by (rule fb_step_in_local;
      simp add: base_def E_MERGE_cFBInterfaceSpec_def E_MERGE_getDOConUnchecked_def Let_def)+

lemma E_MERGE_enter_ECC [fb_fields]:
  "mECCState (fst (E_MERGE_enterStateSTART st)) = E_MERGE_scmStateSTART"
  "mECCState (fst (E_MERGE_enterStateEO st)) = E_MERGE_scmStateEO"
  by (simp_all add: E_MERGE_states fb_fields Let_def)

lemma E_MERGE_sizes [simp]:
  "length (mEINames E_MERGE_cFBInterfaceSpec) = 2" "length (mEONames E_MERGE_cFBInterfaceSpec) = 1"
  "length (mDINames E_MERGE_cFBInterfaceSpec) = 0" "length (mDONames E_MERGE_cFBInterfaceSpec) = 0"
  by (simp_all add: E_MERGE_cFBInterfaceSpec_def)

lemma E_MERGE_ecc_step:
  "E_MERGE_ecc e st = Return st' \<or> E_MERGE_ecc e st = Again st' \<Longrightarrow>
   fb_step_in E_MERGE_cFBInterfaceSpec E_MERGE_getDOConUnchecked st st'"
  by (auto simp: E_MERGE_ecc_def E_MERGE_states Let_def fb_steps split: if_splits)

text \<open>Passes left before the loop of \<open>E-MERGE\<close> returns.\<close>

definition E_MERGE_rank :: "TEventID \<Rightarrow> E_MERGE \<times> ecet option \<Rightarrow> nat" where
  "E_MERGE_rank e st =
     (if e \<noteq> cgInvalidEventID then 2
      else if mECCState (fst st) = E_MERGE_scmStateEO then 1
      else 0)"

lemma E_MERGE_ecc_rank:
  "E_MERGE_ecc e st = Again st' \<Longrightarrow> E_MERGE_rank cgInvalidEventID st' < E_MERGE_rank e st"
  by (auto simp: E_MERGE_ecc_def E_MERGE_rank_def cgInvalidEventID_def cgInvalidPortId_def
      Let_def fb_fields split: if_splits)

interpretation E_MERGE_loop: ecc_machine E_MERGE_ecc
  "fb_step_in E_MERGE_cFBInterfaceSpec E_MERGE_getDOConUnchecked" E_MERGE_rank
  by unfold_locales (simp | blast intro: fb_step_in_trans E_MERGE_ecc_step E_MERGE_ecc_rank)+

interpretation E_MERGE_class: fb_class E_MERGE_vtable E_MERGE_cFBInterfaceSpec
proof (unfold_locales, goal_cases)
  case (5 s ei ex)
  then show ?case
    using E_MERGE_loop.ecc_loop_total [of ei "(s, ex)"]
    by (auto simp: E_MERGE_vtable_def E_MERGE_executeEvent_def fb_step_in_def)
qed (auto simp: E_MERGE_vtable_def E_MERGE_readInputData_def readData_def E_MERGE_getDO_def
    E_MERGE_getDOConUnchecked_def E_MERGE_cFBInterfaceSpec_def base_def isForced_def count_event_def Let_def
    split: option.splits)

section \<open>E REND\<close>

text \<open>\<open>stdfblib/events/src/E_REND_fbt.cpp\<close>\<close>

abbreviation (input) E_REND_scmStateSTART :: "16 word" where "E_REND_scmStateSTART \<equiv> 0"
abbreviation (input) E_REND_scmStateEI1 :: "16 word" where "E_REND_scmStateEI1 \<equiv> 1"
abbreviation (input) E_REND_scmStateEO :: "16 word" where "E_REND_scmStateEO \<equiv> 2"
abbreviation (input) E_REND_scmStateEI2 :: "16 word" where "E_REND_scmStateEI2 \<equiv> 3"
abbreviation (input) E_REND_scmEventEI1ID :: TEventID where "E_REND_scmEventEI1ID \<equiv> 0"
abbreviation (input) E_REND_scmEventEI2ID :: TEventID where "E_REND_scmEventEI2ID \<equiv> 1"
abbreviation (input) E_REND_scmEventRID :: TEventID where "E_REND_scmEventRID \<equiv> 2"
abbreviation (input) E_REND_scmEventEOID :: TEventID where "E_REND_scmEventEOID \<equiv> 0"

definition E_REND_cFBInterfaceSpec :: "SFBInterfaceSpec" where
  "E_REND_cFBInterfaceSpec =
     \<lparr>mEINames = [Some ''EI1'', Some ''EI2'', Some ''R''],
      mEITypeNames = [Some ''Event'', Some ''Event'', Some ''Event''],
      mEONames = [Some ''EO''],
      mEOTypeNames = [Some ''Event''],
      mDINames = [],
      mDONames = [],
      mDIONames = [],
      mSocketNames = [],
      mPlugNames = []\<rparr>"

record E_REND = CBasicFB +
  E_REND_conn_EO :: CEventConnection

definition FORTE_E_REND :: "nat \<Rightarrow> E_REND" where
  "FORTE_E_REND this =
     \<lparr>mInterfaceSpec = E_REND_cFBInterfaceSpec, mEventMonitorCount = [],
      mForces = replicate cgMaxSupportedForceIndex False, mFBState = Idle,
      mInputEventConnectionCount = None, mConnRefCount = 0, mDeletable = True, mECCState = 0,
      E_REND_conn_EO = \<lparr>mSourceId = \<lparr>mFB = this, mPortId = 0\<rparr>, mDestinationIds = []\<rparr>\<rparr>"

definition E_REND_setInitialValues :: "E_REND \<Rightarrow> E_REND" where
  "E_REND_setInitialValues s = CBasicFB_setInitialValues s"

definition E_REND_getDI :: "TPortId \<Rightarrow> (E_REND, cell) ref option" where
  "E_REND_getDI i =
     (None)"

definition E_REND_getDO :: "TPortId \<Rightarrow> (E_REND, cell) ref option" where
  "E_REND_getDO i =
     (None)"

definition E_REND_getEOConUnchecked :: "TPortId \<Rightarrow> (E_REND, CEventConnection) ref option" where
  "E_REND_getEOConUnchecked i =
     (if i = 0 then Some (Ref E_REND_conn_EO (\<lambda>v. E_REND_conn_EO_update (\<lambda>_. v)))
      else None)"

definition E_REND_getDIConUnchecked :: "TPortId \<Rightarrow> (E_REND, conn_id option) ref option" where
  "E_REND_getDIConUnchecked i =
     (None)"

definition E_REND_getDOConUnchecked :: "TPortId \<Rightarrow> (E_REND, COutDataConnection) ref option" where
  "E_REND_getDOConUnchecked i =
     (None)"

definition E_REND_readInputData :: "(conn_id \<Rightarrow> cell) \<Rightarrow> TEventID \<Rightarrow> E_REND \<Rightarrow> E_REND" where
  "E_REND_readInputData env paEIID s =
     (s)"

definition E_REND_writeOutputData :: "TEventID \<Rightarrow> E_REND \<Rightarrow> E_REND" where
  "E_REND_writeOutputData paEO s =
     (s)"

definition E_REND_enterStateSTART :: "E_REND \<times> ecet option \<Rightarrow> E_REND \<times> ecet option" where
  "E_REND_enterStateSTART st =
     (let st = apfst (mECCState_update (\<lambda>_. E_REND_scmStateSTART)) st in
      st)"

definition E_REND_enterStateEI1 :: "E_REND \<times> ecet option \<Rightarrow> E_REND \<times> ecet option" where
  "E_REND_enterStateEI1 st =
     (let st = apfst (mECCState_update (\<lambda>_. E_REND_scmStateEI1)) st in
      st)"

definition E_REND_enterStateEO :: "E_REND \<times> ecet option \<Rightarrow> E_REND \<times> ecet option" where
  "E_REND_enterStateEO st =
     (let st = apfst (mECCState_update (\<lambda>_. E_REND_scmStateEO)) st in
      let st = sendOutputEvent E_REND_writeOutputData E_REND_getEOConUnchecked E_REND_scmEventEOID st in
      st)"

definition E_REND_enterStateEI2 :: "E_REND \<times> ecet option \<Rightarrow> E_REND \<times> ecet option" where
  "E_REND_enterStateEI2 st =
     (let st = apfst (mECCState_update (\<lambda>_. E_REND_scmStateEI2)) st in
      st)"

definition E_REND_ecc :: "TEventID \<Rightarrow> E_REND \<times> ecet option \<Rightarrow> (E_REND \<times> ecet option) ecc" where
  "E_REND_ecc paEIID st =
     (let s = fst st in
       if mECCState s = E_REND_scmStateSTART then
         (if paEIID = E_REND_scmEventEI2ID
          then Again (E_REND_enterStateEI2 st)
          else if paEIID = E_REND_scmEventEI1ID
          then Again (E_REND_enterStateEI1 st)
          else Return st)
       else if mECCState s = E_REND_scmStateEI1 then
         (if paEIID = E_REND_scmEventRID
          then Again (E_REND_enterStateSTART st)
          else if paEIID = E_REND_scmEventEI2ID
          then Again (E_REND_enterStateEO st)
          else Return st)
       else if mECCState s = E_REND_scmStateEO then
         (Again (E_REND_enterStateSTART st))
       else if mECCState s = E_REND_scmStateEI2 then
         (if paEIID = E_REND_scmEventRID
          then Again (E_REND_enterStateSTART st)
          else if paEIID = E_REND_scmEventEI1ID
          then Again (E_REND_enterStateEO st)
          else Return st)
       else Return (apfst (mECCState_update (\<lambda>_. 0)) st))"

definition E_REND_executeEvent :: "TEventID \<Rightarrow> E_REND \<times> ecet option \<Rightarrow> (E_REND \<times> ecet option) option" where
  "E_REND_executeEvent = ecc_loop E_REND_ecc"

definition E_REND_vtable :: "E_REND vtable" where
  "E_REND_vtable =
     \<lparr>vt_getDI = E_REND_getDI, vt_getDO = E_REND_getDO, vt_getDIO = (\<lambda>_. None),
      vt_DItype = (\<lambda>i. e_ANY),
      vt_DOtype = (\<lambda>i. e_ANY),
      vt_getEOConUnchecked = E_REND_getEOConUnchecked,
      vt_getDIConUnchecked = E_REND_getDIConUnchecked, vt_getDOConUnchecked = E_REND_getDOConUnchecked,
      vt_executeEvent = E_REND_executeEvent, vt_readInputData = E_REND_readInputData,
      vt_writeOutputData = E_REND_writeOutputData, vt_setInitialValues = E_REND_setInitialValues\<rparr>"

definition E_REND_evt_EI1 :: "(conn_id \<Rightarrow> cell) \<Rightarrow> E_REND \<Rightarrow> (E_REND) option" where
  "E_REND_evt_EI1 env s =
     map_option (\<lambda>(s, _). (s))
       (receiveInputEvent E_REND_vtable env E_REND_scmEventEI1ID (s, None))"

definition E_REND_evt_EI2 :: "(conn_id \<Rightarrow> cell) \<Rightarrow> E_REND \<Rightarrow> (E_REND) option" where
  "E_REND_evt_EI2 env s =
     map_option (\<lambda>(s, _). (s))
       (receiveInputEvent E_REND_vtable env E_REND_scmEventEI2ID (s, None))"

definition E_REND_evt_R :: "(conn_id \<Rightarrow> cell) \<Rightarrow> E_REND \<Rightarrow> (E_REND) option" where
  "E_REND_evt_R env s =
     map_option (\<lambda>(s, _). (s))
       (receiveInputEvent E_REND_vtable env E_REND_scmEventRID (s, None))"

lemmas E_REND_pins = E_REND_getDI_def E_REND_getDO_def E_REND_getEOConUnchecked_def E_REND_getDIConUnchecked_def
  E_REND_getDOConUnchecked_def

lemmas E_REND_states = E_REND_enterStateSTART_def
  E_REND_enterStateEI1_def
  E_REND_enterStateEO_def
  E_REND_enterStateEI2_def

lemma E_REND_con_count:
  "con_value E_REND_getDOConUnchecked n (count_event i s) = con_value E_REND_getDOConUnchecked n s" if "n < getNumDOs E_REND_cFBInterfaceSpec"
  using that by (auto simp: E_REND_getDOConUnchecked_def E_REND_cFBInterfaceSpec_def count_event_def)

lemma E_REND_write_frame:
  "base (E_REND_writeOutputData eo s) = base s"
  "mEventMonitorCount (E_REND_writeOutputData eo s) = mEventMonitorCount s"
  "mECCState (E_REND_writeOutputData eo s) = mECCState s"
  "E_REND_conn_EO (E_REND_writeOutputData eo s) = E_REND_conn_EO s"
  by (simp_all add: E_REND_writeOutputData_def writeData_def base_def isForced_def Let_def)

lemma E_REND_write_forced:
  "mInterfaceSpec s = E_REND_cFBInterfaceSpec \<Longrightarrow>
   forced_kept E_REND_getDOConUnchecked s (E_REND_writeOutputData eo s)"
  unfolding E_REND_writeOutputData_def Let_def
  by (intro forced_inD [of E_REND_cFBInterfaceSpec] forced_in_if forced_in_refl)

lemma E_REND_send_step [fb_steps]:
  "fb_step_in E_REND_cFBInterfaceSpec E_REND_getDOConUnchecked st st' \<Longrightarrow>
   fb_step_in E_REND_cFBInterfaceSpec E_REND_getDOConUnchecked st (sendOutputEvent E_REND_writeOutputData geo eo st')"
  by (rule fb_step_in_send [OF E_REND_write_frame(1,2) E_REND_write_forced E_REND_con_count]) assumption+

lemma E_REND_send_fields [fb_fields]:
  "mECCState (fst (sendOutputEvent E_REND_writeOutputData geo eo st)) = mECCState (fst st)"
  "E_REND_conn_EO (fst (sendOutputEvent E_REND_writeOutputData geo eo st)) = E_REND_conn_EO (fst st)"
  by (rule sendOutputEvent_field; simp add: E_REND_write_frame count_event_def)+

lemma E_REND_local_step [fb_steps]:
  "fb_step_in E_REND_cFBInterfaceSpec E_REND_getDOConUnchecked st st' \<Longrightarrow>
   fb_step_in E_REND_cFBInterfaceSpec E_REND_getDOConUnchecked st (apfst (mECCState_update (\<lambda>_. v)) st')"
  by (rule fb_step_in_local;
      simp add: base_def E_REND_cFBInterfaceSpec_def E_REND_getDOConUnchecked_def Let_def)+

lemma E_REND_enter_ECC [fb_fields]:
  "mECCState (fst (E_REND_enterStateSTART st)) = E_REND_scmStateSTART"
  "mECCState (fst (E_REND_enterStateEI1 st)) = E_REND_scmStateEI1"
  "mECCState (fst (E_REND_enterStateEO st)) = E_REND_scmStateEO"
  "mECCState (fst (E_REND_enterStateEI2 st)) = E_REND_scmStateEI2"
  by (simp_all add: E_REND_states fb_fields Let_def)

lemma E_REND_sizes [simp]:
  "length (mEINames E_REND_cFBInterfaceSpec) = 3" "length (mEONames E_REND_cFBInterfaceSpec) = 1"
  "length (mDINames E_REND_cFBInterfaceSpec) = 0" "length (mDONames E_REND_cFBInterfaceSpec) = 0"
  by (simp_all add: E_REND_cFBInterfaceSpec_def)

lemma E_REND_ecc_step:
  "E_REND_ecc e st = Return st' \<or> E_REND_ecc e st = Again st' \<Longrightarrow>
   fb_step_in E_REND_cFBInterfaceSpec E_REND_getDOConUnchecked st st'"
  by (auto simp: E_REND_ecc_def E_REND_states Let_def fb_steps split: if_splits)

text \<open>Passes left before the loop of \<open>E-REND\<close> returns.\<close>

definition E_REND_rank :: "TEventID \<Rightarrow> E_REND \<times> ecet option \<Rightarrow> nat" where
  "E_REND_rank e st =
     (if e \<noteq> cgInvalidEventID then 2
      else if mECCState (fst st) = E_REND_scmStateEO then 1
      else 0)"

lemma E_REND_ecc_rank:
  "E_REND_ecc e st = Again st' \<Longrightarrow> E_REND_rank cgInvalidEventID st' < E_REND_rank e st"
  by (auto simp: E_REND_ecc_def E_REND_rank_def cgInvalidEventID_def cgInvalidPortId_def
      Let_def fb_fields split: if_splits)

interpretation E_REND_loop: ecc_machine E_REND_ecc
  "fb_step_in E_REND_cFBInterfaceSpec E_REND_getDOConUnchecked" E_REND_rank
  by unfold_locales (simp | blast intro: fb_step_in_trans E_REND_ecc_step E_REND_ecc_rank)+

interpretation E_REND_class: fb_class E_REND_vtable E_REND_cFBInterfaceSpec
proof (unfold_locales, goal_cases)
  case (5 s ei ex)
  then show ?case
    using E_REND_loop.ecc_loop_total [of ei "(s, ex)"]
    by (auto simp: E_REND_vtable_def E_REND_executeEvent_def fb_step_in_def)
qed (auto simp: E_REND_vtable_def E_REND_readInputData_def readData_def E_REND_getDO_def
    E_REND_getDOConUnchecked_def E_REND_cFBInterfaceSpec_def base_def isForced_def count_event_def Let_def
    split: option.splits)

section \<open>Behaviour\<close>

lemma E_PERMIT_exec:
  assumes "mECCState s = 0"
  shows "E_PERMIT_executeEvent e (s, ex) = Some
     (if e = 0 \<and> BOOL_value (E_PERMIT_var_PERMIT s)
      then E_PERMIT_enterStateSTART (E_PERMIT_enterStateEO (s, ex)) else (s, ex))"
  using assms
  by (simp add: E_PERMIT_executeEvent_def ecc_loop.simps [of E_PERMIT_ecc] E_PERMIT_ecc_def ecc_simps fb_fields)

lemma E_SWITCH_exec:
  assumes "mECCState s = 0"
  shows "E_SWITCH_executeEvent e (s, ex) = Some
     (if e = 0 then E_SWITCH_enterStateSTART
        (if BOOL_value (E_SWITCH_var_G s) then E_SWITCH_enterStateG1 (s, ex)
         else E_SWITCH_enterStateG0 (s, ex))
      else (s, ex))"
  using assms
  by (simp add: E_SWITCH_executeEvent_def ecc_loop.simps [of E_SWITCH_ecc] E_SWITCH_ecc_def ecc_simps fb_fields
      func_NOT_BOOL_def)

lemma E_SELECT_exec:
  assumes "mECCState s = 0"
  shows "E_SELECT_executeEvent e (s, ex) = Some
     (if e = (if BOOL_value (E_SELECT_var_G s) then 1 else 0)
      then E_SELECT_enterStateSTART (E_SELECT_enterStateEO (s, ex)) else (s, ex))"
  using assms
  by (simp add: E_SELECT_executeEvent_def ecc_loop.simps [of E_SELECT_ecc] E_SELECT_ecc_def ecc_simps fb_fields
      func_NOT_BOOL_def)

lemma E_SPLIT_exec:
  assumes "mECCState s = 0"
  shows "E_SPLIT_executeEvent e (s, ex) = Some
     (if e = 0 then E_SPLIT_enterStateSTART (E_SPLIT_enterStateState (s, ex)) else (s, ex))"
  using assms
  by (simp add: E_SPLIT_executeEvent_def ecc_loop.simps [of E_SPLIT_ecc] E_SPLIT_ecc_def ecc_simps fb_fields)

lemma E_MERGE_exec:
  assumes "mECCState s = 0"
  shows "E_MERGE_executeEvent e (s, ex) = Some
     (if e < 2 then E_MERGE_enterStateSTART (E_MERGE_enterStateEO (s, ex)) else (s, ex))"
  using assms
  by (auto simp: E_MERGE_executeEvent_def ecc_loop.simps [of E_MERGE_ecc] E_MERGE_ecc_def ecc_simps fb_fields
      less_2_cases_iff)

lemma E_DEMUX_State_K [simp]:
  "E_DEMUX_var_K (fst (E_DEMUX_enterStateState st)) = E_DEMUX_var_K (fst st)"
  by (simp add: E_DEMUX_enterStateState_def Let_def)

lemma E_DEMUX_exec:
  assumes "mECCState s = 0"
  shows "E_DEMUX_executeEvent e (s, ex) = Some
     (if e = 0 then E_DEMUX_enterStateSTART
        (let st = E_DEMUX_enterStateState (s, ex); k = getTUINT16 (E_DEMUX_var_K s) in
         if k = 0 then E_DEMUX_enterStateState_1 st else if k = 1 then E_DEMUX_enterStateState_2 st
         else if k = 2 then E_DEMUX_enterStateState_3 st
         else if k = 3 then E_DEMUX_enterStateState_4 st else st)
      else (s, ex))"
proof -
  have gt: "k > 3 \<longleftrightarrow> k \<noteq> 0 \<and> k \<noteq> 1 \<and> k \<noteq> 2 \<and> k \<noteq> 3" for k :: "16 word"
    by unat_arith
  show ?thesis
    using assms gt
    by (simp add: E_DEMUX_executeEvent_def ecc_loop.simps [of E_DEMUX_ecc] E_DEMUX_ecc_def ecc_simps fb_fields
        func_EQ_UINT_def func_GT_UINT_def)
qed

lemma E_REND_exec:
  "E_REND_executeEvent e (s, ex) = Some
     (if mECCState s = 0 then
        if e = 1 then E_REND_enterStateEI2 (s, ex) else if e = 0 then E_REND_enterStateEI1 (s, ex)
        else (s, ex)
      else if mECCState s = 1 then
        if e = 2 then E_REND_enterStateSTART (s, ex)
        else if e = 1 then E_REND_enterStateSTART (E_REND_enterStateEO (s, ex)) else (s, ex)
      else if mECCState s = 2 then E_REND_enterStateSTART (s, ex)
      else if mECCState s = 3 then
        if e = 2 then E_REND_enterStateSTART (s, ex)
        else if e = 0 then E_REND_enterStateSTART (E_REND_enterStateEO (s, ex)) else (s, ex)
      else (s\<lparr>mECCState := 0\<rparr>, ex))"
  by (simp add: E_REND_executeEvent_def ecc_loop.simps [of E_REND_ecc] E_REND_ecc_def ecc_simps fb_fields)

lemmas route_send_spec = send_spec [OF E_PERMIT_write_frame(1)] send_spec [OF E_SWITCH_write_frame(1)]
  send_spec [OF E_SELECT_write_frame(1)] send_spec [OF E_DEMUX_write_frame(1)]
  send_spec [OF E_SPLIT_write_frame(1)] send_spec [OF E_MERGE_write_frame(1)]
  send_spec [OF E_REND_write_frame(1)]

lemmas route_eval = route_send_spec snd_sendOutputEvent fb_fields Let_def

text \<open>A block at rest: its own interface, and its state machine in START.\<close>

abbreviation at_rest :: "SFBInterfaceSpec \<Rightarrow> 'a CBasicFB_scheme \<Rightarrow> bool" where
  "at_rest sp s \<equiv> mInterfaceSpec s = sp \<and> mECCState s = 0"

text \<open>The gates pass an event on by the value of their data input and are at rest again
  afterwards: E_PERMIT passes EI exactly when PERMIT holds, E_SWITCH sends EI to EO1 when G holds and
  to EO0 otherwise, and E_SELECT passes EI1 when G holds and EI0 otherwise, dropping the other.\<close>

theorem gates_route_by_data:
  "(at_rest E_PERMIT_cFBInterfaceSpec p \<longrightarrow>
      (\<exists>p'. E_PERMIT_executeEvent e (p, ex) = Some (p',
          if e = 0 \<and> BOOL_value (E_PERMIT_var_PERMIT p)
          then triggerEvent (E_PERMIT_conn_EO p) ex else ex) \<and>
        at_rest E_PERMIT_cFBInterfaceSpec p')) \<and>
   (at_rest E_SWITCH_cFBInterfaceSpec w \<longrightarrow>
      (\<exists>w'. E_SWITCH_executeEvent e (w, ex) = Some (w',
          if e = 0 then triggerEvent (if BOOL_value (E_SWITCH_var_G w) then E_SWITCH_conn_EO1 w
                                      else E_SWITCH_conn_EO0 w) ex else ex) \<and>
        at_rest E_SWITCH_cFBInterfaceSpec w')) \<and>
   (at_rest E_SELECT_cFBInterfaceSpec l \<longrightarrow>
      (\<exists>l'. E_SELECT_executeEvent e (l, ex) = Some (l',
          if e = (if BOOL_value (E_SELECT_var_G l) then 1 else 0)
          then triggerEvent (E_SELECT_conn_EO l) ex else ex) \<and>
        at_rest E_SELECT_cFBInterfaceSpec l'))"
  by (intro conjI; auto simp: E_PERMIT_exec E_PERMIT_states E_PERMIT_getEOConUnchecked_def
      E_PERMIT_write_frame E_SWITCH_exec E_SWITCH_states E_SWITCH_getEOConUnchecked_def
      E_SWITCH_write_frame E_SELECT_exec E_SELECT_states E_SELECT_getEOConUnchecked_def
      E_SELECT_write_frame route_eval prod_eq_iff [where 'a = E_PERMIT]
      prod_eq_iff [where 'a = E_SWITCH] prod_eq_iff [where 'a = E_SELECT])

lemma gates_route_by_data_witness:
  "\<exists>w'. E_SWITCH_executeEvent 0 ((FORTE_E_SWITCH 8)\<lparr>E_SWITCH_var_G := 1\<rparr>, Some new_ecet) = Some (w',
     triggerEvent (E_SWITCH_conn_EO1 (FORTE_E_SWITCH 8)) (Some new_ecet))"
  using gates_route_by_data [THEN conjunct2, THEN conjunct1, of "(FORTE_E_SWITCH 8)\<lparr>E_SWITCH_var_G := 1\<rparr>"
      0 "Some new_ecet"]
  by (auto simp: FORTE_E_SWITCH_def BOOL_value_def)

text \<open>The demultiplexer sends EI to the output event numbered by K, to none when K is above 3;
  the splitter sends EO1 and then EO2 for each EI, in this order; the merger sends EO for either
  input.  Each is at rest again afterwards, so the next event is routed as well.\<close>

theorem demux_split_merge_route:
  "(at_rest E_DEMUX_cFBInterfaceSpec d \<longrightarrow>
      (\<exists>d'. E_DEMUX_executeEvent e (d, ex) = Some (d',
          if e = 0 \<and> unat (getTUINT16 (E_DEMUX_var_K d)) < 4
          then triggerEvent ([E_DEMUX_conn_EO0 d, E_DEMUX_conn_EO1 d, E_DEMUX_conn_EO2 d,
                 E_DEMUX_conn_EO3 d] ! unat (getTUINT16 (E_DEMUX_var_K d))) ex
          else ex) \<and>
        at_rest E_DEMUX_cFBInterfaceSpec d')) \<and>
   (at_rest E_SPLIT_cFBInterfaceSpec s \<longrightarrow>
      (\<exists>s'. E_SPLIT_executeEvent e (s, ex) = Some (s',
          if e = 0 then triggerEvent (E_SPLIT_conn_EO2 s) (triggerEvent (E_SPLIT_conn_EO1 s) ex)
          else ex) \<and>
        at_rest E_SPLIT_cFBInterfaceSpec s')) \<and>
   (at_rest E_MERGE_cFBInterfaceSpec m \<longrightarrow>
      (\<exists>m'. E_MERGE_executeEvent e (m, ex) = Some (m',
          if e < 2 then triggerEvent (E_MERGE_conn_EO m) ex else ex) \<and>
        at_rest E_MERGE_cFBInterfaceSpec m'))"
proof (intro conjI impI, goal_cases)
  case 1
  have k: "unat k < 4 \<longleftrightarrow> k = 0 \<or> k = 1 \<or> k = 2 \<or> k = 3" for k :: "16 word"
    by unat_arith
  show ?case
    using 1
    by (auto simp: k E_DEMUX_exec E_DEMUX_states E_DEMUX_getEOConUnchecked_def E_DEMUX_write_frame
        route_eval prod_eq_iff [where 'a = E_DEMUX])
qed (auto simp: E_SPLIT_exec E_SPLIT_states E_SPLIT_getEOConUnchecked_def E_SPLIT_write_frame
    E_MERGE_exec E_MERGE_states E_MERGE_getEOConUnchecked_def E_MERGE_write_frame route_eval
    prod_eq_iff [where 'a = E_SPLIT] prod_eq_iff [where 'a = E_MERGE])

lemma demux_split_merge_route_witness:
  "\<exists>d'. E_DEMUX_executeEvent 0 ((FORTE_E_DEMUX 8)\<lparr>E_DEMUX_var_K := setTUINT16 2\<rparr>, Some new_ecet) =
     Some (d', triggerEvent (E_DEMUX_conn_EO2 (FORTE_E_DEMUX 8)) (Some new_ecet))"
  using demux_split_merge_route [THEN conjunct1,
      of "(FORTE_E_DEMUX 8)\<lparr>E_DEMUX_var_K := setTUINT16 2\<rparr>" 0 "Some new_ecet"]
  by (auto simp: FORTE_E_DEMUX_def)

text \<open>The rendezvous as two flags: an input that has arrived waits for the other one; R forgets it.\<close>

definition rend_step :: "TEventID \<Rightarrow> bool \<times> bool \<Rightarrow> (bool \<times> bool) \<times> nat" where
  "rend_step e w =
     (if e = 2 then ((False, False), 0)
      else let a = (fst w \<or> e = 0); b = (snd w \<or> e = 1) in
        if a \<and> b then ((False, False), 1) else ((a, b), 0))"

fun rend_run :: "TEventID list \<Rightarrow> bool \<times> bool \<Rightarrow> (bool \<times> bool) \<times> nat" where
  "rend_run [] w = (w, 0)"
| "rend_run (e # es) w =
     (let (w', n) = rend_step e w; (w'', m) = rend_run es w' in (w'', n + m))"

definition E_REND_abs :: "E_REND \<Rightarrow> bool \<times> bool" where
  "E_REND_abs s = (mECCState s = 1, mECCState s = 3)"

definition E_REND_ok :: "E_REND \<Rightarrow> bool" where
  "E_REND_ok s = (mInterfaceSpec s = E_REND_cFBInterfaceSpec \<and> mECCState s \<in> {0, 1, 3})"

lemma E_REND_step:
  assumes "E_REND_ok s"
  shows "\<exists>s'. E_REND_executeEvent e (s, ex) =
      Some (s', (triggerEvent (E_REND_conn_EO s) ^^ snd (rend_step e (E_REND_abs s))) ex) \<and>
    E_REND_ok s' \<and> E_REND_abs s' = fst (rend_step e (E_REND_abs s)) \<and>
    E_REND_conn_EO s' = E_REND_conn_EO s"
proof -
  consider "mECCState s = 0" | "mECCState s = 1" | "mECCState s = 3"
    using assms by (auto simp: E_REND_ok_def)
  then show ?thesis
    using assms
    by cases (auto simp: E_REND_ok_def E_REND_abs_def rend_step_def E_REND_exec E_REND_states
        E_REND_getEOConUnchecked_def E_REND_write_frame route_eval prod_eq_iff [where 'a = E_REND])
qed

text \<open>The rendezvous block, over any sequence of events, refines two flags that wait for each
  other: it sends EO once for each completed pair of EI1 and EI2, in either order, a repeated input
  counts once, and R cancels a waiting one.\<close>

theorem E_REND_refines:
  assumes "E_REND_ok s"
  shows "\<exists>s'. exec_all E_REND_executeEvent es (s, ex) =
      Some (s', (triggerEvent (E_REND_conn_EO s) ^^ snd (rend_run es (E_REND_abs s))) ex) \<and>
    E_REND_ok s' \<and> E_REND_abs s' = fst (rend_run es (E_REND_abs s))"
  using assms
proof (induction es arbitrary: s ex)
  case (Cons e es)
  obtain s' where "E_REND_executeEvent e (s, ex) =
      Some (s', (triggerEvent (E_REND_conn_EO s) ^^ snd (rend_step e (E_REND_abs s))) ex)"
    "E_REND_ok s'" "E_REND_abs s' = fst (rend_step e (E_REND_abs s))"
    "E_REND_conn_EO s' = E_REND_conn_EO s"
    using E_REND_step [OF Cons.prems] by blast
  with Cons.IH [OF this(2), of "(triggerEvent (E_REND_conn_EO s) ^^ snd (rend_step e (E_REND_abs s))) ex"]
  show ?case
    by (auto simp: Let_def split_beta add.commute funpow_add [symmetric, unfolded o_def fun_eq_iff])
qed simp

lemma E_REND_refines_witness:
  "\<exists>s'. exec_all E_REND_executeEvent [1, 1, 0, 0, 2, 1] (FORTE_E_REND 8, None) = Some (s', None) \<and>
     E_REND_abs s' = (False, True)"
  using E_REND_refines [of "FORTE_E_REND 8" "[1, 1, 0, 0, 2, 1]" None]
  by (auto simp: E_REND_ok_def E_REND_abs_def FORTE_E_REND_def rend_step_def triggerEvent_def)

end
