(* ===== verification/FB_Network.thy ===== *)
theory FB_Network
imports FB_Counters FB_Bistables FB_Routing
begin

text \<open>
  A network of the event blocks run by one event chain thread.  A block is one of the classes,
  \<open>receiveInputEvent\<close> dispatches on it as the virtual call of \<open>mainRun\<close> does, and a data
  input reads the value that the connection object of the source block holds at that moment.  The
  lemmas lift the contract \<open>fb_class\<close> from one block to the running network.
\<close>

section \<open>Blocks and networks\<close>

datatype block =
  Blk_E_CTU E_CTU
| Blk_E_CTD E_CTD
| Blk_E_CTUD E_CTUD
| Blk_E_CTUD_UDINT E_CTUD_UDINT
| Blk_E_SR E_SR
| Blk_E_RS E_RS
| Blk_E_D_FF E_D_FF
| Blk_E_T_FF E_T_FF
| Blk_E_T_FF_SR E_T_FF_SR
| Blk_E_PERMIT E_PERMIT
| Blk_E_SWITCH E_SWITCH
| Blk_E_SELECT E_SELECT
| Blk_E_DEMUX E_DEMUX
| Blk_E_SPLIT E_SPLIT
| Blk_E_MERGE E_MERGE
| Blk_E_REND E_REND

type_synonym network = "nat \<Rightarrow> block option"

text \<open>The virtual call \<open>receiveInputEvent\<close> on a block of any class.\<close>

fun block_receive ::
    "(conn_id \<Rightarrow> cell) \<Rightarrow> TEventID \<Rightarrow> block \<Rightarrow> ecet option \<Rightarrow> (block \<times> ecet option) option" where
  "block_receive env ei (Blk_E_CTU s) ex =
     map_option (apfst Blk_E_CTU) (receiveInputEvent E_CTU_vtable env ei (s, ex))"
| "block_receive env ei (Blk_E_CTD s) ex =
     map_option (apfst Blk_E_CTD) (receiveInputEvent E_CTD_vtable env ei (s, ex))"
| "block_receive env ei (Blk_E_CTUD s) ex =
     map_option (apfst Blk_E_CTUD) (receiveInputEvent E_CTUD_vtable env ei (s, ex))"
| "block_receive env ei (Blk_E_CTUD_UDINT s) ex =
     map_option (apfst Blk_E_CTUD_UDINT) (receiveInputEvent E_CTUD_UDINT_vtable env ei (s, ex))"
| "block_receive env ei (Blk_E_SR s) ex =
     map_option (apfst Blk_E_SR) (receiveInputEvent E_SR_vtable env ei (s, ex))"
| "block_receive env ei (Blk_E_RS s) ex =
     map_option (apfst Blk_E_RS) (receiveInputEvent E_RS_vtable env ei (s, ex))"
| "block_receive env ei (Blk_E_D_FF s) ex =
     map_option (apfst Blk_E_D_FF) (receiveInputEvent E_D_FF_vtable env ei (s, ex))"
| "block_receive env ei (Blk_E_T_FF s) ex =
     map_option (apfst Blk_E_T_FF) (receiveInputEvent E_T_FF_vtable env ei (s, ex))"
| "block_receive env ei (Blk_E_T_FF_SR s) ex =
     map_option (apfst Blk_E_T_FF_SR) (receiveInputEvent E_T_FF_SR_vtable env ei (s, ex))"
| "block_receive env ei (Blk_E_PERMIT s) ex =
     map_option (apfst Blk_E_PERMIT) (receiveInputEvent E_PERMIT_vtable env ei (s, ex))"
| "block_receive env ei (Blk_E_SWITCH s) ex =
     map_option (apfst Blk_E_SWITCH) (receiveInputEvent E_SWITCH_vtable env ei (s, ex))"
| "block_receive env ei (Blk_E_SELECT s) ex =
     map_option (apfst Blk_E_SELECT) (receiveInputEvent E_SELECT_vtable env ei (s, ex))"
| "block_receive env ei (Blk_E_DEMUX s) ex =
     map_option (apfst Blk_E_DEMUX) (receiveInputEvent E_DEMUX_vtable env ei (s, ex))"
| "block_receive env ei (Blk_E_SPLIT s) ex =
     map_option (apfst Blk_E_SPLIT) (receiveInputEvent E_SPLIT_vtable env ei (s, ex))"
| "block_receive env ei (Blk_E_MERGE s) ex =
     map_option (apfst Blk_E_MERGE) (receiveInputEvent E_MERGE_vtable env ei (s, ex))"
| "block_receive env ei (Blk_E_REND s) ex =
     map_option (apfst Blk_E_REND) (receiveInputEvent E_REND_vtable env ei (s, ex))"

text \<open>The value of an output data connection, and whether its output is forced.\<close>

definition con_of :: "('s \<Rightarrow> 's vtable) \<Rightarrow> TPortId \<Rightarrow> 's \<Rightarrow> cell" where
  "con_of vt n s =
     (case vt_getDOConUnchecked (vt s) n of None \<Rightarrow> 0 | Some r \<Rightarrow> mValue (rd r s))"

fun block_con :: "TPortId \<Rightarrow> block \<Rightarrow> cell" where
  "block_con n (Blk_E_CTU s) = con_of (\<lambda>_. E_CTU_vtable) n s"
| "block_con n (Blk_E_CTD s) = con_of (\<lambda>_. E_CTD_vtable) n s"
| "block_con n (Blk_E_CTUD s) = con_of (\<lambda>_. E_CTUD_vtable) n s"
| "block_con n (Blk_E_CTUD_UDINT s) = con_of (\<lambda>_. E_CTUD_UDINT_vtable) n s"
| "block_con n (Blk_E_SR s) = con_of (\<lambda>_. E_SR_vtable) n s"
| "block_con n (Blk_E_RS s) = con_of (\<lambda>_. E_RS_vtable) n s"
| "block_con n (Blk_E_D_FF s) = con_of (\<lambda>_. E_D_FF_vtable) n s"
| "block_con n (Blk_E_T_FF s) = con_of (\<lambda>_. E_T_FF_vtable) n s"
| "block_con n (Blk_E_T_FF_SR s) = con_of (\<lambda>_. E_T_FF_SR_vtable) n s"
| "block_con n (Blk_E_PERMIT s) = con_of (\<lambda>_. E_PERMIT_vtable) n s"
| "block_con n (Blk_E_SWITCH s) = con_of (\<lambda>_. E_SWITCH_vtable) n s"
| "block_con n (Blk_E_SELECT s) = con_of (\<lambda>_. E_SELECT_vtable) n s"
| "block_con n (Blk_E_DEMUX s) = con_of (\<lambda>_. E_DEMUX_vtable) n s"
| "block_con n (Blk_E_SPLIT s) = con_of (\<lambda>_. E_SPLIT_vtable) n s"
| "block_con n (Blk_E_MERGE s) = con_of (\<lambda>_. E_MERGE_vtable) n s"
| "block_con n (Blk_E_REND s) = con_of (\<lambda>_. E_REND_vtable) n s"

definition out_forced :: "TPortId \<Rightarrow> 'a CFunctionBlock_scheme \<Rightarrow> bool" where
  "out_forced n s =
     (n < getNumDOs (mInterfaceSpec s) \<and> isForced (getNumDIs (mInterfaceSpec s) + n) s)"

fun block_forced :: "TPortId \<Rightarrow> block \<Rightarrow> bool" where
  "block_forced n (Blk_E_CTU s) = out_forced n s"
| "block_forced n (Blk_E_CTD s) = out_forced n s"
| "block_forced n (Blk_E_CTUD s) = out_forced n s"
| "block_forced n (Blk_E_CTUD_UDINT s) = out_forced n s"
| "block_forced n (Blk_E_SR s) = out_forced n s"
| "block_forced n (Blk_E_RS s) = out_forced n s"
| "block_forced n (Blk_E_D_FF s) = out_forced n s"
| "block_forced n (Blk_E_T_FF s) = out_forced n s"
| "block_forced n (Blk_E_T_FF_SR s) = out_forced n s"
| "block_forced n (Blk_E_PERMIT s) = out_forced n s"
| "block_forced n (Blk_E_SWITCH s) = out_forced n s"
| "block_forced n (Blk_E_SELECT s) = out_forced n s"
| "block_forced n (Blk_E_DEMUX s) = out_forced n s"
| "block_forced n (Blk_E_SPLIT s) = out_forced n s"
| "block_forced n (Blk_E_MERGE s) = out_forced n s"
| "block_forced n (Blk_E_REND s) = out_forced n s"

fun block_ok :: "block \<Rightarrow> bool" where
  "block_ok (Blk_E_CTU s) = (mInterfaceSpec s = E_CTU_cFBInterfaceSpec \<and> counts_ok s)"
| "block_ok (Blk_E_CTD s) = (mInterfaceSpec s = E_CTD_cFBInterfaceSpec \<and> counts_ok s)"
| "block_ok (Blk_E_CTUD s) = (mInterfaceSpec s = E_CTUD_cFBInterfaceSpec \<and> counts_ok s)"
| "block_ok (Blk_E_CTUD_UDINT s) = (mInterfaceSpec s = E_CTUD_UDINT_cFBInterfaceSpec \<and> counts_ok s)"
| "block_ok (Blk_E_SR s) = (mInterfaceSpec s = E_SR_cFBInterfaceSpec \<and> counts_ok s)"
| "block_ok (Blk_E_RS s) = (mInterfaceSpec s = E_RS_cFBInterfaceSpec \<and> counts_ok s)"
| "block_ok (Blk_E_D_FF s) = (mInterfaceSpec s = E_D_FF_cFBInterfaceSpec \<and> counts_ok s)"
| "block_ok (Blk_E_T_FF s) = (mInterfaceSpec s = E_T_FF_cFBInterfaceSpec \<and> counts_ok s)"
| "block_ok (Blk_E_T_FF_SR s) = (mInterfaceSpec s = E_T_FF_SR_cFBInterfaceSpec \<and> counts_ok s)"
| "block_ok (Blk_E_PERMIT s) = (mInterfaceSpec s = E_PERMIT_cFBInterfaceSpec \<and> counts_ok s)"
| "block_ok (Blk_E_SWITCH s) = (mInterfaceSpec s = E_SWITCH_cFBInterfaceSpec \<and> counts_ok s)"
| "block_ok (Blk_E_SELECT s) = (mInterfaceSpec s = E_SELECT_cFBInterfaceSpec \<and> counts_ok s)"
| "block_ok (Blk_E_DEMUX s) = (mInterfaceSpec s = E_DEMUX_cFBInterfaceSpec \<and> counts_ok s)"
| "block_ok (Blk_E_SPLIT s) = (mInterfaceSpec s = E_SPLIT_cFBInterfaceSpec \<and> counts_ok s)"
| "block_ok (Blk_E_MERGE s) = (mInterfaceSpec s = E_MERGE_cFBInterfaceSpec \<and> counts_ok s)"
| "block_ok (Blk_E_REND s) = (mInterfaceSpec s = E_REND_cFBInterfaceSpec \<and> counts_ok s)"

text \<open>The values that the connections of a network hold.\<close>

definition net_env :: "network \<Rightarrow> conn_id \<Rightarrow> cell" where
  "net_env w c = (case w (mFB c) of None \<Rightarrow> 0 | Some b \<Rightarrow> block_con (mPortId c) b)"

text \<open>The delivery step of \<open>mainRun\<close>.  An entry that names no block of the network is left alone; the
  code holds a pointer there.\<close>

definition network_receive :: "TEventEntry \<Rightarrow> network \<times> ecet \<Rightarrow> network \<times> ecet" where
  "network_receive e wt =
     (case wt of (w, t) \<Rightarrow>
        (case w (mFB e) of None \<Rightarrow> (w, t)
         | Some b \<Rightarrow>
             (case block_receive (net_env w) (mPortId e) b (Some t) of
                Some (b', Some t') \<Rightarrow> (w(mFB e \<mapsto> b'), t')
              | _ \<Rightarrow> (w, t))))"

definition net_ok :: "network \<Rightarrow> bool" where
  "net_ok w = (\<forall>b \<in> ran w. block_ok b)"

section \<open>Lifting the contract\<close>

context fb_class
begin

lemma receive_block:
  assumes "mInterfaceSpec s = sp" "counts_ok s"
  shows "\<exists>s' es. receiveInputEvent vt env ei (s, ex) =
      Some (s', map_option (fold addEventEntry es) ex) \<and>
    mInterfaceSpec s' = sp \<and> counts_ok s' \<and> mForces s' = mForces s \<and>
    (\<forall>n. out_forced n s \<longrightarrow> out_forced n s' \<and>
       con_value (vt_getDOConUnchecked vt) n s' = con_value (vt_getDOConUnchecked vt) n s)"
proof -
  obtain s' es where r: "receiveInputEvent vt env ei (s, ex) =
      Some (s', map_option (fold addEventEntry es) ex)"
    and b: "base s' = base s" and c: "counts_ok s'"
    and f: "\<forall>n < getNumDOs sp. isForced (getNumDIs sp + n) s \<longrightarrow>
       con_value (vt_getDOConUnchecked vt) n s' = con_value (vt_getDOConUnchecked vt) n s"
    using receive_total [OF assms, of env ei ex] by blast
  have "out_forced n s \<Longrightarrow> out_forced n s' \<and>
       con_value (vt_getDOConUnchecked vt) n s' = con_value (vt_getDOConUnchecked vt) n s" for n
    using f base_eqD(1,7) [OF b] assms(1) by (simp add: out_forced_def)
  then show ?thesis
    using r b c base_eqD(1,2) [OF b] assms(1) by blast
qed

end

text \<open>What every class gives for its block, in the terms of \<open>block\<close>.\<close>

lemma block_receive_lift:
  assumes "block_receive env ei (B s) ex = map_option (apfst B) (receiveInputEvent vt env ei (s, ex))"
    and "\<And>n s. block_con n (B s) = con_of (\<lambda>_. vt) n s" "\<And>n s. block_forced n (B s) = out_forced n s"
    and "\<And>s. block_ok (B s) = (mInterfaceSpec s = sp \<and> counts_ok s)"
    and "\<And>n. n < getNumDOs sp \<Longrightarrow> vt_getDOConUnchecked vt n \<noteq> None"
    and "fb_class vt sp" "block_ok (B s)"
  shows "\<exists>b' es. block_receive env ei (B s) ex = Some (b', map_option (fold addEventEntry es) ex) \<and>
    block_ok b' \<and>
    (\<forall>n. block_forced n (B s) \<longrightarrow> block_forced n b' \<and> block_con n b' = block_con n (B s))"
proof -
  have s: "mInterfaceSpec s = sp" "counts_ok s"
    using assms(4,7) by simp_all
  then obtain s' es where "receiveInputEvent vt env ei (s, ex) =
      Some (s', map_option (fold addEventEntry es) ex)"
    "mInterfaceSpec s' = sp" "counts_ok s'"
    "\<forall>n. out_forced n s \<longrightarrow> out_forced n s' \<and>
       con_value (vt_getDOConUnchecked vt) n s' = con_value (vt_getDOConUnchecked vt) n s"
    using fb_class.receive_block [OF assms(6)] by blast
  moreover have "out_forced n s \<Longrightarrow> vt_getDOConUnchecked vt n \<noteq> None" for n
    using assms(5) s(1) by (simp add: out_forced_def)
  ultimately show ?thesis
    by (intro exI [of _ "B s'"] exI [of _ es])
      (fastforce simp: assms(1,2,3,4) con_of_def)
qed

lemma block_DOCons:
  "n < getNumDOs E_CTU_cFBInterfaceSpec \<Longrightarrow> vt_getDOConUnchecked E_CTU_vtable n \<noteq> None"
  "n < getNumDOs E_CTD_cFBInterfaceSpec \<Longrightarrow> vt_getDOConUnchecked E_CTD_vtable n \<noteq> None"
  "n < getNumDOs E_CTUD_cFBInterfaceSpec \<Longrightarrow> vt_getDOConUnchecked E_CTUD_vtable n \<noteq> None"
  "n < getNumDOs E_CTUD_UDINT_cFBInterfaceSpec \<Longrightarrow> vt_getDOConUnchecked E_CTUD_UDINT_vtable n \<noteq> None"
  "n < getNumDOs E_SR_cFBInterfaceSpec \<Longrightarrow> vt_getDOConUnchecked E_SR_vtable n \<noteq> None"
  "n < getNumDOs E_RS_cFBInterfaceSpec \<Longrightarrow> vt_getDOConUnchecked E_RS_vtable n \<noteq> None"
  "n < getNumDOs E_D_FF_cFBInterfaceSpec \<Longrightarrow> vt_getDOConUnchecked E_D_FF_vtable n \<noteq> None"
  "n < getNumDOs E_T_FF_cFBInterfaceSpec \<Longrightarrow> vt_getDOConUnchecked E_T_FF_vtable n \<noteq> None"
  "n < getNumDOs E_T_FF_SR_cFBInterfaceSpec \<Longrightarrow> vt_getDOConUnchecked E_T_FF_SR_vtable n \<noteq> None"
  "n < getNumDOs E_PERMIT_cFBInterfaceSpec \<Longrightarrow> vt_getDOConUnchecked E_PERMIT_vtable n \<noteq> None"
  "n < getNumDOs E_SWITCH_cFBInterfaceSpec \<Longrightarrow> vt_getDOConUnchecked E_SWITCH_vtable n \<noteq> None"
  "n < getNumDOs E_SELECT_cFBInterfaceSpec \<Longrightarrow> vt_getDOConUnchecked E_SELECT_vtable n \<noteq> None"
  "n < getNumDOs E_DEMUX_cFBInterfaceSpec \<Longrightarrow> vt_getDOConUnchecked E_DEMUX_vtable n \<noteq> None"
  "n < getNumDOs E_SPLIT_cFBInterfaceSpec \<Longrightarrow> vt_getDOConUnchecked E_SPLIT_vtable n \<noteq> None"
  "n < getNumDOs E_MERGE_cFBInterfaceSpec \<Longrightarrow> vt_getDOConUnchecked E_MERGE_vtable n \<noteq> None"
  "n < getNumDOs E_REND_cFBInterfaceSpec \<Longrightarrow> vt_getDOConUnchecked E_REND_vtable n \<noteq> None"
  by (auto simp: E_CTU_vtable_def E_CTU_getDOConUnchecked_def
      E_CTD_vtable_def E_CTD_getDOConUnchecked_def
      E_CTUD_vtable_def E_CTUD_getDOConUnchecked_def
      E_CTUD_UDINT_vtable_def E_CTUD_UDINT_getDOConUnchecked_def
      E_SR_vtable_def E_SR_getDOConUnchecked_def
      E_RS_vtable_def E_RS_getDOConUnchecked_def
      E_D_FF_vtable_def E_D_FF_getDOConUnchecked_def
      E_T_FF_vtable_def E_T_FF_getDOConUnchecked_def
      E_T_FF_SR_vtable_def E_T_FF_SR_getDOConUnchecked_def
      E_PERMIT_vtable_def E_PERMIT_getDOConUnchecked_def
      E_SWITCH_vtable_def E_SWITCH_getDOConUnchecked_def
      E_SELECT_vtable_def E_SELECT_getDOConUnchecked_def
      E_DEMUX_vtable_def E_DEMUX_getDOConUnchecked_def
      E_SPLIT_vtable_def E_SPLIT_getDOConUnchecked_def
      E_MERGE_vtable_def E_MERGE_getDOConUnchecked_def
      E_REND_vtable_def E_REND_getDOConUnchecked_def)

lemma block_receive_ok:
  assumes "block_ok b"
  shows "\<exists>b' es. block_receive env ei b ex = Some (b', map_option (fold addEventEntry es) ex) \<and>
    block_ok b' \<and>
    (\<forall>n. block_forced n b \<longrightarrow> block_forced n b' \<and> block_con n b' = block_con n b)"
proof (cases b)
  case (Blk_E_CTU s)
  show ?thesis
    unfolding Blk_E_CTU
    by (rule block_receive_lift [OF _ _ _ _ block_DOCons(1) E_CTU_class.fb_class_axioms])
      (use assms Blk_E_CTU in simp_all)
next
  case (Blk_E_CTD s)
  show ?thesis
    unfolding Blk_E_CTD
    by (rule block_receive_lift [OF _ _ _ _ block_DOCons(2) E_CTD_class.fb_class_axioms])
      (use assms Blk_E_CTD in simp_all)
next
  case (Blk_E_CTUD s)
  show ?thesis
    unfolding Blk_E_CTUD
    by (rule block_receive_lift [OF _ _ _ _ block_DOCons(3) E_CTUD_class.fb_class_axioms])
      (use assms Blk_E_CTUD in simp_all)
next
  case (Blk_E_CTUD_UDINT s)
  show ?thesis
    unfolding Blk_E_CTUD_UDINT
    by (rule block_receive_lift [OF _ _ _ _ block_DOCons(4) E_CTUD_UDINT_class.fb_class_axioms])
      (use assms Blk_E_CTUD_UDINT in simp_all)
next
  case (Blk_E_SR s)
  show ?thesis
    unfolding Blk_E_SR
    by (rule block_receive_lift [OF _ _ _ _ block_DOCons(5) E_SR_class.fb_class_axioms])
      (use assms Blk_E_SR in simp_all)
next
  case (Blk_E_RS s)
  show ?thesis
    unfolding Blk_E_RS
    by (rule block_receive_lift [OF _ _ _ _ block_DOCons(6) E_RS_class.fb_class_axioms])
      (use assms Blk_E_RS in simp_all)
next
  case (Blk_E_D_FF s)
  show ?thesis
    unfolding Blk_E_D_FF
    by (rule block_receive_lift [OF _ _ _ _ block_DOCons(7) E_D_FF_class.fb_class_axioms])
      (use assms Blk_E_D_FF in simp_all)
next
  case (Blk_E_T_FF s)
  show ?thesis
    unfolding Blk_E_T_FF
    by (rule block_receive_lift [OF _ _ _ _ block_DOCons(8) E_T_FF_class.fb_class_axioms])
      (use assms Blk_E_T_FF in simp_all)
next
  case (Blk_E_T_FF_SR s)
  show ?thesis
    unfolding Blk_E_T_FF_SR
    by (rule block_receive_lift [OF _ _ _ _ block_DOCons(9) E_T_FF_SR_class.fb_class_axioms])
      (use assms Blk_E_T_FF_SR in simp_all)
next
  case (Blk_E_PERMIT s)
  show ?thesis
    unfolding Blk_E_PERMIT
    by (rule block_receive_lift [OF _ _ _ _ block_DOCons(10) E_PERMIT_class.fb_class_axioms])
      (use assms Blk_E_PERMIT in simp_all)
next
  case (Blk_E_SWITCH s)
  show ?thesis
    unfolding Blk_E_SWITCH
    by (rule block_receive_lift [OF _ _ _ _ block_DOCons(11) E_SWITCH_class.fb_class_axioms])
      (use assms Blk_E_SWITCH in simp_all)
next
  case (Blk_E_SELECT s)
  show ?thesis
    unfolding Blk_E_SELECT
    by (rule block_receive_lift [OF _ _ _ _ block_DOCons(12) E_SELECT_class.fb_class_axioms])
      (use assms Blk_E_SELECT in simp_all)
next
  case (Blk_E_DEMUX s)
  show ?thesis
    unfolding Blk_E_DEMUX
    by (rule block_receive_lift [OF _ _ _ _ block_DOCons(13) E_DEMUX_class.fb_class_axioms])
      (use assms Blk_E_DEMUX in simp_all)
next
  case (Blk_E_SPLIT s)
  show ?thesis
    unfolding Blk_E_SPLIT
    by (rule block_receive_lift [OF _ _ _ _ block_DOCons(14) E_SPLIT_class.fb_class_axioms])
      (use assms Blk_E_SPLIT in simp_all)
next
  case (Blk_E_MERGE s)
  show ?thesis
    unfolding Blk_E_MERGE
    by (rule block_receive_lift [OF _ _ _ _ block_DOCons(15) E_MERGE_class.fb_class_axioms])
      (use assms Blk_E_MERGE in simp_all)
next
  case (Blk_E_REND s)
  show ?thesis
    unfolding Blk_E_REND
    by (rule block_receive_lift [OF _ _ _ _ block_DOCons(16) E_REND_class.fb_class_axioms])
      (use assms Blk_E_REND in simp_all)
qed

section \<open>The running network\<close>

lemma network_receive_block:
  assumes "net_ok w" "w (mFB e) = Some b"
  shows "\<exists>b' es. network_receive e (w, t) = (w(mFB e \<mapsto> b'), fold addEventEntry es t) \<and>
    block_receive (net_env w) (mPortId e) b (Some t) = Some (b', Some (fold addEventEntry es t)) \<and>
    block_ok b' \<and>
    (\<forall>n. block_forced n b \<longrightarrow> block_forced n b' \<and> block_con n b' = block_con n b)"
proof -
  have "block_ok b"
    using assms by (auto simp: net_ok_def ran_def)
  then obtain b' es where "block_receive (net_env w) (mPortId e) b (Some t) =
      Some (b', Some (fold addEventEntry es t))" "block_ok b'"
    "\<forall>n. block_forced n b \<longrightarrow> block_forced n b' \<and> block_con n b' = block_con n b"
    using block_receive_ok [of b "net_env w" "mPortId e" "Some t"] by auto
  then show ?thesis
    using assms(2) by (auto simp: network_receive_def)
qed

lemma network_receive_none: "w (mFB e) = None \<Longrightarrow> network_receive e (w, t) = (w, t)"
  by (simp add: network_receive_def)

lemma net_ok_update: "net_ok w \<Longrightarrow> block_ok b \<Longrightarrow> net_ok (w(a \<mapsto> b))"
  by (auto simp: net_ok_def ran_def split: if_splits)

text \<open>The forced output n of the block at address a keeps the value v on its connection.\<close>

definition net_frozen :: "nat \<Rightarrow> TPortId \<Rightarrow> cell \<Rightarrow> network \<Rightarrow> bool" where
  "net_frozen a n v w =
     (net_ok w \<and> (\<exists>b. w a = Some b \<and> block_forced n b \<and> block_con n b = v))"

lemma net_frozen_ok: "net_frozen a n v w \<Longrightarrow> net_ok w"
  by (simp add: net_frozen_def)

lemma network_receive_inv:
  assumes "net_ok w"
  shows "net_ok (fst (network_receive e (w, t)))"
    and "\<exists>es. snd (network_receive e (w, t)) = fold addEventEntry es t"
    and "net_frozen a n v w \<Longrightarrow> net_frozen a n v (fst (network_receive e (w, t)))"
proof -
  have *: "net_ok (fst (network_receive e (w, t))) \<and>
      (\<exists>es. snd (network_receive e (w, t)) = fold addEventEntry es t) \<and>
      (net_frozen a n v w \<longrightarrow> net_frozen a n v (fst (network_receive e (w, t))))"
  proof (cases "w (mFB e)")
    case None
    then show ?thesis
      using assms by (auto simp: network_receive_none intro: exI [of _ "[]"])
  next
    case (Some b)
    then obtain b' es where
      "network_receive e (w, t) = (w(mFB e \<mapsto> b'), fold addEventEntry es t)" "block_ok b'"
      "\<forall>n. block_forced n b \<longrightarrow> block_forced n b' \<and> block_con n b' = block_con n b"
      using network_receive_block [OF assms] by blast
    then show ?thesis
      using Some assms by (auto simp: net_frozen_def net_ok_update)
  qed
  from * show "net_ok (fst (network_receive e (w, t)))"
    and "\<exists>es. snd (network_receive e (w, t)) = fold addEventEntry es t"
    and "net_frozen a n v w \<Longrightarrow> net_frozen a n v (fst (network_receive e (w, t)))"
    by blast+
qed

interpretation net: event_receiver network_receive net_ok
  by unfold_locales (rule network_receive_inv, assumption)+

interpretation frozen: event_receiver network_receive "net_frozen a n v" for a n v
  by unfold_locales (blast intro: network_receive_inv net_frozen_ok)+

lemma initialize_counts: "counts_ok (CFunctionBlock_initialize s)"
  by (simp add: counts_ok_def CFunctionBlock_initialize_def setupEventMonitoringData_def
      setupInputConnectionTrackingData_def Let_def)

lemma initialize_spec [simp]:
  "mInterfaceSpec (CFunctionBlock_initialize s) = mInterfaceSpec s"
  by (simp add: CFunctionBlock_initialize_def setupEventMonitoringData_def
      setupInputConnectionTrackingData_def freeEventMonitoringData_def Let_def)

text \<open>A block of each class that has been constructed and initialised is well-formed: its
  interface is the class's and there is one counter for each input and output event.\<close>

theorem initialized_blocks_ok:
  "block_ok (Blk_E_CTU (CFunctionBlock_initialize (FORTE_E_CTU a))) \<and>
   block_ok (Blk_E_CTD (CFunctionBlock_initialize (FORTE_E_CTD a))) \<and>
   block_ok (Blk_E_CTUD (CFunctionBlock_initialize (FORTE_E_CTUD a))) \<and>
   block_ok (Blk_E_CTUD_UDINT (CFunctionBlock_initialize (FORTE_E_CTUD_UDINT a))) \<and>
   block_ok (Blk_E_SR (CFunctionBlock_initialize (FORTE_E_SR a))) \<and>
   block_ok (Blk_E_RS (CFunctionBlock_initialize (FORTE_E_RS a))) \<and>
   block_ok (Blk_E_D_FF (CFunctionBlock_initialize (FORTE_E_D_FF a))) \<and>
   block_ok (Blk_E_T_FF (CFunctionBlock_initialize (FORTE_E_T_FF a))) \<and>
   block_ok (Blk_E_T_FF_SR (CFunctionBlock_initialize (FORTE_E_T_FF_SR a))) \<and>
   block_ok (Blk_E_PERMIT (CFunctionBlock_initialize (FORTE_E_PERMIT a))) \<and>
   block_ok (Blk_E_SWITCH (CFunctionBlock_initialize (FORTE_E_SWITCH a))) \<and>
   block_ok (Blk_E_SELECT (CFunctionBlock_initialize (FORTE_E_SELECT a))) \<and>
   block_ok (Blk_E_DEMUX (CFunctionBlock_initialize (FORTE_E_DEMUX a))) \<and>
   block_ok (Blk_E_SPLIT (CFunctionBlock_initialize (FORTE_E_SPLIT a))) \<and>
   block_ok (Blk_E_MERGE (CFunctionBlock_initialize (FORTE_E_MERGE a))) \<and>
   block_ok (Blk_E_REND (CFunctionBlock_initialize (FORTE_E_REND a)))"
  by (intro conjI; simp add: initialize_counts FORTE_E_CTU_def FORTE_E_CTD_def FORTE_E_CTUD_def
      FORTE_E_CTUD_UDINT_def FORTE_E_SR_def FORTE_E_RS_def FORTE_E_D_FF_def FORTE_E_T_FF_def
      FORTE_E_T_FF_SR_def FORTE_E_PERMIT_def FORTE_E_SWITCH_def FORTE_E_SELECT_def
      FORTE_E_DEMUX_def FORTE_E_SPLIT_def FORTE_E_MERGE_def FORTE_E_REND_def)

text \<open>C2: In a network of well-formed blocks the delivery of any event to any block returns; it
  changes no other block, keeps the network well-formed, does nothing to the thread but append
  events to its list, and leaves every forced output of the block at its value.\<close>

theorem delivery_total:
  assumes "net_ok w" "w (mFB e) = Some b"
  shows "\<exists>b' es. block_receive (net_env w) (mPortId e) b (Some t) =
      Some (b', Some (fold addEventEntry es t)) \<and>
    network_receive e (w, t) = (w(mFB e \<mapsto> b'), fold addEventEntry es t) \<and>
    net_ok (w(mFB e \<mapsto> b')) \<and>
    (\<forall>n. block_forced n b \<longrightarrow> block_con n b' = block_con n b)"
  using network_receive_block [OF assms, of t] net_ok_update [OF assms(1)] by blast

abbreviation example_block :: block where
  "example_block \<equiv> Blk_E_CTU ((CFunctionBlock_initialize (FORTE_E_CTU 8))
     \<lparr>mFBState := Running, mForces := (replicate 64 False)[2 := True]\<rparr>)"

lemma example_net_ok: "net_ok [8 \<mapsto> example_block]"
  by (simp add: net_ok_def initialize_counts FORTE_E_CTU_def counts_ok_def
      initialize_counts [unfolded counts_ok_def])

lemma example_forced: "block_forced 1 example_block"
  by (simp add: out_forced_def isForced_def FORTE_E_CTU_def numeral_2_eq_2)

lemma delivery_total_witness:
  "\<exists>b' es. network_receive \<lparr>mFB = 8, mPortId = 0\<rparr> ([8 \<mapsto> example_block], new_ecet) =
     ([8 \<mapsto> b'], fold addEventEntry es new_ecet) \<and> block_con 1 b' = block_con 1 example_block"
  using delivery_total [OF example_net_ok, of "\<lparr>mFB = 8, mPortId = 0\<rparr>" example_block new_ecet]
    example_forced by (auto simp del: block_forced.simps block_con.simps)

text \<open>C3: A forced output stays at its value for as long as the network runs: in every state that
  the chain thread and the other threads can reach, the connection of an output that was forced
  at the start still holds the value it had there.\<close>

theorem forced_output_frozen:
  assumes "net_ok w0" "w0 a = Some b" "block_forced n b" "reachable network_receive w0 s"
  shows "\<exists>b'. ts_world s a = Some b' \<and> block_forced n b' \<and> block_con n b' = block_con n b"
  using frozen.reachable_inv [OF assms(4), of a n "block_con n b"] assms(1-3)
  by (auto simp: net_frozen_def)

text \<open>C1: No wake-up is lost in a network of well-formed blocks: whatever the other threads do, when
  the chain thread waits in its semaphore while an accepted event is queued, either the wait can
  return, with the event still pending, or a caller of startEventChain is between its push and
  its post of the semaphore.\<close>

theorem no_lost_wakeup:
  assumes "net_ok w0" "reachable network_receive w0 s"
    and "ts_pc s = PWait" "main_events (ts_ecet s) @ ext_events (ts_ecet s) \<noteq> []"
  shows "(\<exists>s'. thread_step network_receive s s' \<and> ts_pc s' = PPoll \<and>
            pending (ts_ecet s') = pending (ts_ecet s)) \<or> 0 < ts_pending s"
  using net.waiting_resumes [OF assms(2,1,3,4)] .

text \<open>A run in which the thread is started, finds nothing to do and waits, and another thread has
  pushed an event but not yet posted the semaphore.\<close>

lemma example_wait:
  fixes w0 :: network
  defines "e \<equiv> \<lparr>mFB = 8, mPortId = 0\<rparr>"
  shows "\<exists>s. reachable network_receive w0 s \<and> ts_pc s = PWait \<and> ts_pending s = 1 \<and>
    ext_events (ts_ecet s) = [e]"
proof -
  let ?r = network_receive
  let ?s0 = "\<lparr>ts_pc = PNone, ts_pending = 0, ts_ecet = new_ecet, ts_world = w0\<rparr>"
  let ?t1 = "new_ecet\<lparr>mThreadHandle := True\<rparr>"
  let ?t2 = "?t1\<lparr>mAlive := True\<rparr>"
  let ?t3 = "?t2\<lparr>mEventList := mEventList new_ecet, mProcessingEvents := False\<rparr>"
  let ?x = "mExternalEventList new_ecet"
  have n [simp]: "mAlive new_ecet = False" "mThreadHandle new_ecet = False"
      "mProcessingEvents new_ecet = False" "isEmpty ?x" "isEmpty (mEventList new_ecet)"
    by (simp_all add: new_ecet_def isEmpty_def CRingBuffer_def)
  have "reachable ?r w0 ?s0" by (rule reachable.init)
  then have "reachable ?r w0 \<lparr>ts_pc = PCreated, ts_pending = 0, ts_ecet = ?t1, ts_world = w0\<rparr>"
    using reachable.more [OF _ thread_step.cmd_start [of ?s0]]
    by (simp add: ecet_changeExecutionState_def thread_start_def)
  then have "reachable ?r w0 \<lparr>ts_pc = PPoll, ts_pending = 0, ts_ecet = ?t2, ts_world = w0\<rparr>"
    using reachable.more [OF _ thread_step.begin_run] by (fastforce simp: setAlive_def)
  then have "reachable ?r w0 \<lparr>ts_pc = PTake, ts_pending = 0, ts_ecet = ?t2, ts_world = w0\<rparr>"
    using reachable.more [OF _ thread_step.poll] by (fastforce simp: externalEventOccured_def)
  then have "reachable ?r w0 \<lparr>ts_pc = PWait, ts_pending = 0, ts_ecet = ?t3, ts_world = w0\<rparr>"
    using reachable.more [OF _ thread_step.suspend [of _ "mEventList new_ecet"]] by fastforce
  moreover have p: "push e ?x = (True, snd (push e ?x))"
    using ringq.enq_accepts [of ?x e] ecet_ok_new
    by (simp add: ecet_ok_def prod_eq_iff)
      (simp add: new_ecet_def cgEventChainExternalEventListSize_def)
  then have "startEventChain_push e ?t3 = (True, ?t3\<lparr>mExternalEventList := snd (push e ?x)\<rparr>)"
    by (cases "push e ?x") (simp add: startEventChain_push_def)
  ultimately have r: "reachable ?r w0 \<lparr>ts_pc = PWait, ts_pending = Suc 0,
      ts_ecet = ?t3\<lparr>mExternalEventList := snd (push e ?x)\<rparr>, ts_world = w0\<rparr>"
    using reachable.more [OF _ thread_step.ext_push [of e]] by fastforce
  have "ring_list (snd (push e ?x)) = [e]"
    using ringq.enq_content [of ?x e] ecet_ok_new
    by (simp add: ecet_ok_def) (simp add: new_ecet_def cgEventChainExternalEventListSize_def)
  then show ?thesis
    using r by (intro exI conjI) (assumption, simp_all)
qed

lemma forced_output_frozen_witness:
  "\<exists>s b'. reachable network_receive [8 \<mapsto> example_block] s \<and> ts_pc s = PWait \<and>
     ts_world s 8 = Some b' \<and> block_con 1 b' = block_con 1 example_block"
proof -
  obtain s where s: "reachable network_receive [8 \<mapsto> example_block] s" "ts_pc s = PWait"
    using example_wait by blast
  then show ?thesis
    using s forced_output_frozen [OF example_net_ok _ example_forced s(1), of 8]
    by (auto simp del: block_forced.simps block_con.simps)
qed

lemma no_lost_wakeup_witness:
  "\<exists>s. reachable network_receive [8 \<mapsto> example_block] s \<and> ts_pc s = PWait \<and>
     ((\<exists>s'. thread_step network_receive s s' \<and> ts_pc s' = PPoll \<and>
         pending (ts_ecet s') = pending (ts_ecet s)) \<or> 0 < ts_pending s)"
proof -
  obtain s where s: "reachable network_receive [8 \<mapsto> example_block] s" "ts_pc s = PWait"
    "ext_events (ts_ecet s) = [\<lparr>mFB = 8, mPortId = 0\<rparr>]"
    using example_wait by blast
  show ?thesis
    using no_lost_wakeup [OF example_net_ok s(1,2)] s by auto
qed

end
