(* ===== verification/Timer_Handler.thy ===== *)
theory Timer_Handler
imports Prelude "HOL-Library.Signed_Division" "HOL-Library.Multiset"
begin

text \<open>
  The timer handler, \<open>core/include/forte/timerha.h\<close> and \<open>core/src/timerha.cpp\<close>: function blocks
  register for one or for periodic events, and each tick of the clock starts an event chain for
  the blocks that are due.  Registrations and removals from other threads go to two lists of
  their own, which the tick works off; the locks on them are the atomicity of the operations.
  A block is named by its address, and the calls of \<open>startNewEventChain\<close> are recorded in order.
\<close>

section \<open>State and operations\<close>

record STimedFBListEntry =
  mTimedFB :: nat
  mTimeOut :: "64 word"
  mInterval :: "32 word"

abbreviation (input) scmOneShotIndicator :: "32 word" where "scmOneShotIndicator \<equiv> 0"

record CTimerHandler =
  mForteTime :: "64 word"
  mTimedFBList :: "STimedFBListEntry list"
  mAddFBList :: "STimedFBListEntry list"
  mRemoveFBList :: "nat list"
  mStarted :: "nat list"

definition new_CTimerHandler :: CTimerHandler where
  "new_CTimerHandler =
     \<lparr>mForteTime = 0, mTimedFBList = [], mAddFBList = [], mRemoveFBList = [], mStarted = []\<rparr>"

text \<open>\<open>scmTimeToTimerUnit\<close>, from the ticks per second of the build configuration.\<close>

definition csmForteTimeBaseUnitsPerSecond :: int where
  "csmForteTimeBaseUnitsPerSecond = 1000000000"

definition scmTimeToTimerUnit :: "int \<Rightarrow> int" where
  "scmTimeToTimerUnit ticksPerSecond = csmForteTimeBaseUnitsPerSecond sdiv ticksPerSecond"

definition convertIntervalToTimerHandlerUnits :: "int \<Rightarrow> cell \<Rightarrow> 32 word" where
  "convertIntervalToTimerHandlerUnits ticksPerSecond t =
     (let interval = sint t sdiv scmTimeToTimerUnit ticksPerSecond
      in if interval > 0 then word_of_int interval else 1)"

definition addToAddFBList :: "STimedFBListEntry \<Rightarrow> CTimerHandler \<Rightarrow> CTimerHandler" where
  "addToAddFBList e h = h\<lparr>mAddFBList := mAddFBList h @ [e]\<rparr>"

definition registerOneShotTimedFB :: "int \<Rightarrow> nat \<Rightarrow> cell \<Rightarrow> CTimerHandler \<Rightarrow> CTimerHandler" where
  "registerOneShotTimedFB ticksPerSecond fb t h =
     (let interval = convertIntervalToTimerHandlerUnits ticksPerSecond t
      in addToAddFBList \<lparr>mTimedFB = fb, mTimeOut = mForteTime h + ucast interval,
           mInterval = scmOneShotIndicator\<rparr> h)"

definition registerPeriodicTimedFB :: "int \<Rightarrow> nat \<Rightarrow> cell \<Rightarrow> CTimerHandler \<Rightarrow> CTimerHandler" where
  "registerPeriodicTimedFB ticksPerSecond fb t h =
     (let interval = convertIntervalToTimerHandlerUnits ticksPerSecond t
      in addToAddFBList \<lparr>mTimedFB = fb, mTimeOut = mForteTime h + ucast interval,
           mInterval = interval\<rparr> h)"

definition unregisterTimedFB :: "nat \<Rightarrow> CTimerHandler \<Rightarrow> CTimerHandler" where
  "unregisterTimedFB fb h = h\<lparr>mRemoveFBList := mRemoveFBList h @ [fb]\<rparr>"

text \<open>\<open>std::upper_bound\<close> on a list that is partitioned by \<open>p\<close>: the first position that satisfies it.\<close>

definition upper_bound :: "('a \<Rightarrow> bool) \<Rightarrow> 'a list \<Rightarrow> nat" where
  "upper_bound p xs = length (takeWhile (\<lambda>x. \<not> p x) xs)"

definition addTimedFBEntry :: "STimedFBListEntry \<Rightarrow> CTimerHandler \<Rightarrow> CTimerHandler" where
  "addTimedFBEntry e h =
     (let it = upper_bound (\<lambda>x. mTimeOut e < mTimeOut x) (mTimedFBList h)
      in h\<lparr>mTimedFBList := take it (mTimedFBList h) @ e # drop it (mTimedFBList h)\<rparr>)"

definition removeTimedFB :: "nat \<Rightarrow> CTimerHandler \<Rightarrow> CTimerHandler" where
  "removeTimedFB fb h = h\<lparr>mTimedFBList := filter (\<lambda>e. mTimedFB e \<noteq> fb) (mTimedFBList h)\<rparr>"

definition start_chain :: "nat \<Rightarrow> CTimerHandler \<Rightarrow> CTimerHandler" where
  "start_chain fb h = h\<lparr>mStarted := mStarted h @ [fb]\<rparr>"

definition triggerTimedFB :: "STimedFBListEntry \<Rightarrow> CTimerHandler \<Rightarrow> CTimerHandler" where
  "triggerTimedFB e h =
     (let h = start_chain (mTimedFB e) h
      in if mInterval e \<noteq> scmOneShotIndicator
         then addTimedFBEntry (e\<lparr>mTimeOut := mForteTime h + ucast (mInterval e)\<rparr>) h
         else h)"

definition processTimedFBList :: "CTimerHandler \<Rightarrow> CTimerHandler" where
  "processTimedFBList h =
     (let last = upper_bound (\<lambda>x. mForteTime h < mTimeOut x) (mTimedFBList h);
          triggered = take last (mTimedFBList h);
          h = h\<lparr>mTimedFBList := drop last (mTimedFBList h)\<rparr>
      in fold triggerTimedFB triggered h)"

definition processAddList :: "CTimerHandler \<Rightarrow> CTimerHandler" where
  "processAddList h =
     (fold (\<lambda>e h. if mTimeOut e \<le> mForteTime h then triggerTimedFB e h else addTimedFBEntry e h)
        (mAddFBList h) h)\<lparr>mAddFBList := []\<rparr>"

definition processRemoveList :: "CTimerHandler \<Rightarrow> CTimerHandler" where
  "processRemoveList h = (fold removeTimedFB (mRemoveFBList h) h)\<lparr>mRemoveFBList := []\<rparr>"

definition nextTick :: "CTimerHandler \<Rightarrow> CTimerHandler" where
  "nextTick h =
     (let h = h\<lparr>mForteTime := mForteTime h + 1\<rparr>;
          h = (if mRemoveFBList h \<noteq> [] then processRemoveList h else h);
          h = processTimedFBList h
      in if mAddFBList h \<noteq> [] then processAddList h else h)"

section \<open>The list of timed blocks stays sorted\<close>

definition timer_ok :: "CTimerHandler \<Rightarrow> bool" where
  "timer_ok h = sorted (map mTimeOut (mTimedFBList h))"

lemma take_upper_bound: "take (upper_bound p xs) xs = takeWhile (\<lambda>x. \<not> p x) xs"
  unfolding upper_bound_def by (rule takeWhile_eq_take [symmetric])

lemma drop_upper_bound: "drop (upper_bound p xs) xs = dropWhile (\<lambda>x. \<not> p x) xs"
  unfolding upper_bound_def by (rule dropWhile_eq_drop [symmetric])

lemma takeWhile_sorted:
  fixes f :: "'a \<Rightarrow> 'b::linorder"
  shows "sorted (map f xs) \<Longrightarrow> takeWhile (\<lambda>x. \<not> v < f x) xs = filter (\<lambda>x. f x \<le> v) xs"
proof (induction xs)
  case (Cons x xs)
  then show ?case
    by (cases "v < f x") (auto simp: not_less intro!: filter_False [symmetric])
qed simp

lemma dropWhile_sorted:
  fixes f :: "'a \<Rightarrow> 'b::linorder"
  shows "sorted (map f xs) \<Longrightarrow> dropWhile (\<lambda>x. \<not> v < f x) xs = filter (\<lambda>x. v < f x) xs"
proof (induction xs)
  case (Cons x xs)
  then show ?case
    by (cases "v < f x") (auto simp: not_less intro!: filter_True [symmetric])
qed simp

lemma addTimedFBEntry_fields [simp]:
  "mForteTime (addTimedFBEntry e h) = mForteTime h" "mAddFBList (addTimedFBEntry e h) = mAddFBList h"
  "mRemoveFBList (addTimedFBEntry e h) = mRemoveFBList h" "mStarted (addTimedFBEntry e h) = mStarted h"
  by (simp_all add: addTimedFBEntry_def Let_def)

lemma start_chain_fields [simp]:
  "mForteTime (start_chain f h) = mForteTime h" "mAddFBList (start_chain f h) = mAddFBList h"
  "mRemoveFBList (start_chain f h) = mRemoveFBList h"
  "mTimedFBList (start_chain f h) = mTimedFBList h" "mStarted (start_chain f h) = mStarted h @ [f]"
  by (simp_all add: start_chain_def)

lemma mset_addTimedFBEntry [simp]:
  "mset (mTimedFBList (addTimedFBEntry e h)) = add_mset e (mset (mTimedFBList h))"
proof -
  have "mset (take n xs) + mset (drop n xs) = mset xs" for n and xs :: "STimedFBListEntry list"
    by (metis append_take_drop_id mset_append)
  then show ?thesis
    by (simp add: addTimedFBEntry_def Let_def)
qed

lemma addTimedFBEntry_ok [simp]: "timer_ok h \<Longrightarrow> timer_ok (addTimedFBEntry e h)"
proof -
  assume s: "timer_ok h"
  have "mTimedFBList (addTimedFBEntry e h) =
      filter (\<lambda>x. mTimeOut x \<le> mTimeOut e) (mTimedFBList h) @ e #
      filter (\<lambda>x. mTimeOut e < mTimeOut x) (mTimedFBList h)"
    using s takeWhile_sorted [of mTimeOut "mTimedFBList h" "mTimeOut e"]
      dropWhile_sorted [of mTimeOut "mTimedFBList h" "mTimeOut e"]
    by (simp add: addTimedFBEntry_def Let_def take_upper_bound drop_upper_bound timer_ok_def)
  then show ?thesis
    using s by (auto simp: timer_ok_def sorted_append sorted_filter)
qed

lemma triggerTimedFB_fields [simp]:
  "mForteTime (triggerTimedFB e h) = mForteTime h" "mAddFBList (triggerTimedFB e h) = mAddFBList h"
  "mRemoveFBList (triggerTimedFB e h) = mRemoveFBList h"
  "mStarted (triggerTimedFB e h) = mStarted h @ [mTimedFB e]"
  by (simp_all add: triggerTimedFB_def Let_def)

lemma triggerTimedFB_ok [simp]: "timer_ok h \<Longrightarrow> timer_ok (triggerTimedFB e h)"
proof -
  assume "timer_ok h"
  then have "timer_ok (start_chain f h)" for f
    by (simp add: timer_ok_def)
  then show ?thesis
    by (simp add: triggerTimedFB_def Let_def)
qed

text \<open>The entries that are registered again when those of a list are triggered at a time.\<close>

definition rearmed :: "64 word \<Rightarrow> STimedFBListEntry list \<Rightarrow> STimedFBListEntry list" where
  "rearmed now es =
     map (\<lambda>e. e\<lparr>mTimeOut := now + ucast (mInterval e)\<rparr>) (filter (\<lambda>e. mInterval e \<noteq> 0) es)"

lemma mset_triggerTimedFB:
  "mset (mTimedFBList (triggerTimedFB e h)) =
     mset (rearmed (mForteTime h) [e]) + mset (mTimedFBList h)"
  by (simp add: triggerTimedFB_def rearmed_def Let_def)

lemma rearmed_Cons: "rearmed now (e # es) = rearmed now [e] @ rearmed now es"
  by (simp add: rearmed_def)

lemma fold_trigger:
  "mForteTime (fold triggerTimedFB es h) = mForteTime h"
  "mAddFBList (fold triggerTimedFB es h) = mAddFBList h"
  "mRemoveFBList (fold triggerTimedFB es h) = mRemoveFBList h"
  "mStarted (fold triggerTimedFB es h) = mStarted h @ map mTimedFB es"
  "timer_ok h \<Longrightarrow> timer_ok (fold triggerTimedFB es h)"
  "mset (mTimedFBList (fold triggerTimedFB es h)) =
     mset (rearmed (mForteTime h) es) + mset (mTimedFBList h)"
proof (induction es arbitrary: h)
  case (Cons e es)
  {
    case 6
    then show ?case
      using Cons.IH(6) [of "triggerTimedFB e h"]
      by (simp add: mset_triggerTimedFB rearmed_def)
  }
qed (simp_all add: rearmed_def)

section \<open>One tick\<close>

lemma processTimedFBList_spec:
  assumes "timer_ok h"
  shows "mForteTime (processTimedFBList h) = mForteTime h"
    "mAddFBList (processTimedFBList h) = mAddFBList h"
    "mRemoveFBList (processTimedFBList h) = mRemoveFBList h"
    "mStarted (processTimedFBList h) =
       mStarted h @ map mTimedFB (filter (\<lambda>e. mTimeOut e \<le> mForteTime h) (mTimedFBList h))"
    "timer_ok (processTimedFBList h)"
    "mset (mTimedFBList (processTimedFBList h)) =
       mset (rearmed (mForteTime h) (filter (\<lambda>e. mTimeOut e \<le> mForteTime h) (mTimedFBList h))) +
       mset (filter (\<lambda>e. mForteTime h < mTimeOut e) (mTimedFBList h))"
proof -
  have eq: "processTimedFBList h =
      fold triggerTimedFB (filter (\<lambda>e. mTimeOut e \<le> mForteTime h) (mTimedFBList h))
        (h\<lparr>mTimedFBList := filter (\<lambda>e. mForteTime h < mTimeOut e) (mTimedFBList h)\<rparr>)"
    using assms takeWhile_sorted [of mTimeOut "mTimedFBList h" "mForteTime h"]
      dropWhile_sorted [of mTimeOut "mTimedFBList h" "mForteTime h"]
    by (simp add: processTimedFBList_def Let_def take_upper_bound drop_upper_bound timer_ok_def)
  have "timer_ok (h\<lparr>mTimedFBList := filter (\<lambda>e. mForteTime h < mTimeOut e) (mTimedFBList h)\<rparr>)"
    using assms by (simp add: timer_ok_def sorted_filter)
  then show "mForteTime (processTimedFBList h) = mForteTime h"
    "mAddFBList (processTimedFBList h) = mAddFBList h"
    "mRemoveFBList (processTimedFBList h) = mRemoveFBList h"
    "mStarted (processTimedFBList h) =
       mStarted h @ map mTimedFB (filter (\<lambda>e. mTimeOut e \<le> mForteTime h) (mTimedFBList h))"
    "timer_ok (processTimedFBList h)"
    "mset (mTimedFBList (processTimedFBList h)) =
       mset (rearmed (mForteTime h) (filter (\<lambda>e. mTimeOut e \<le> mForteTime h) (mTimedFBList h))) +
       mset (filter (\<lambda>e. mForteTime h < mTimeOut e) (mTimedFBList h))"
    by (simp_all add: eq fold_trigger)
qed

lemma fold_add:
  fixes es :: "STimedFBListEntry list" and h :: CTimerHandler
  defines "h' \<equiv> fold (\<lambda>e h. if mTimeOut e \<le> mForteTime h then triggerTimedFB e h
                             else addTimedFBEntry e h) es h"
  shows "mForteTime h' = mForteTime h" "mRemoveFBList h' = mRemoveFBList h"
    "mStarted h' = mStarted h @ map mTimedFB (filter (\<lambda>e. mTimeOut e \<le> mForteTime h) es)"
    "timer_ok h \<Longrightarrow> timer_ok h'"
    "mset (mTimedFBList h') =
       mset (rearmed (mForteTime h) (filter (\<lambda>e. mTimeOut e \<le> mForteTime h) es)) +
       mset (filter (\<lambda>e. mForteTime h < mTimeOut e) es) + mset (mTimedFBList h)"
  unfolding h'_def
proof (induction es arbitrary: h)
  case (Cons e es)
  {
    case 5
    then show ?case
      using Cons.IH(5) [of "triggerTimedFB e h"] Cons.IH(5) [of "addTimedFBEntry e h"]
        rearmed_Cons [of "mForteTime h" e "filter (\<lambda>e. mTimeOut e \<le> mForteTime h) es"]
      by (cases "mTimeOut e \<le> mForteTime h")
        (simp_all add: mset_triggerTimedFB not_le [symmetric] del: mset_map mset_filter not_le)
  }
qed (simp_all add: rearmed_def)

lemma processRemoveList_list:
  "mTimedFBList (processRemoveList h) =
     filter (\<lambda>e. mTimedFB e \<notin> set (mRemoveFBList h)) (mTimedFBList h)"
  "mForteTime (processRemoveList h) = mForteTime h" "mAddFBList (processRemoveList h) = mAddFBList h"
  "mRemoveFBList (processRemoveList h) = []" "mStarted (processRemoveList h) = mStarted h"
proof -
  have "mTimedFBList (fold removeTimedFB fs h) =
      filter (\<lambda>e. mTimedFB e \<notin> set fs) (mTimedFBList h) \<and>
    mForteTime (fold removeTimedFB fs h) = mForteTime h \<and>
    mAddFBList (fold removeTimedFB fs h) = mAddFBList h \<and>
    mStarted (fold removeTimedFB fs h) = mStarted h" for fs
    by (induction fs arbitrary: h) (auto simp: removeTimedFB_def intro: filter_cong)
  then show "mTimedFBList (processRemoveList h) =
     filter (\<lambda>e. mTimedFB e \<notin> set (mRemoveFBList h)) (mTimedFBList h)"
    "mForteTime (processRemoveList h) = mForteTime h" "mAddFBList (processRemoveList h) = mAddFBList h"
    "mRemoveFBList (processRemoveList h) = []" "mStarted (processRemoveList h) = mStarted h"
    by (simp_all add: processRemoveList_def)
qed

text \<open>The entries of the timed list that the tick does not remove.\<close>

definition live :: "CTimerHandler \<Rightarrow> STimedFBListEntry list" where
  "live h = filter (\<lambda>e. mTimedFB e \<notin> set (mRemoveFBList h)) (mTimedFBList h)"

definition due :: "64 word \<Rightarrow> STimedFBListEntry list \<Rightarrow> STimedFBListEntry list" where
  "due now es = filter (\<lambda>e. mTimeOut e \<le> now) es"

definition later :: "64 word \<Rightarrow> STimedFBListEntry list \<Rightarrow> STimedFBListEntry list" where
  "later now es = filter (\<lambda>e. now < mTimeOut e) es"

lemma nextTick_correct_lemma:
  assumes "timer_ok h"
  defines "now \<equiv> mForteTime h + 1"
  shows "mForteTime (nextTick h) = now \<and> mRemoveFBList (nextTick h) = [] \<and> mAddFBList (nextTick h) = [] \<and>
    timer_ok (nextTick h) \<and>
    mStarted (nextTick h) =
      mStarted h @ map mTimedFB (due now (live h)) @ map mTimedFB (due now (mAddFBList h)) \<and>
    mset (mTimedFBList (nextTick h)) =
      mset (rearmed now (due now (live h) @ due now (mAddFBList h))) +
      mset (later now (live h @ mAddFBList h))"
proof -
  define h1 where "h1 = h\<lparr>mForteTime := now\<rparr>"
  define h2 where "h2 = (if mRemoveFBList h1 \<noteq> [] then processRemoveList h1 else h1)"
  define h3 where "h3 = processTimedFBList h2"
  have h2: "mTimedFBList h2 = live h" "mForteTime h2 = now" "mAddFBList h2 = mAddFBList h"
    "mRemoveFBList h2 = []" "mStarted h2 = mStarted h"
    by (simp_all add: h2_def h1_def processRemoveList_list live_def)
  then have "timer_ok h2"
    using assms(1) by (simp add: timer_ok_def live_def sorted_filter)
  note h3 = processTimedFBList_spec [OF this, folded h3_def, unfolded h2]
  have n: "nextTick h = (if mAddFBList h3 \<noteq> [] then processAddList h3 else h3)"
    by (simp add: nextTick_def h1_def h2_def h3_def now_def Let_def)
  have r: "rearmed t (xs @ ys) = rearmed t xs @ rearmed t ys" for t xs ys
    by (simp add: rearmed_def)
  have ok: "timer_ok h \<Longrightarrow> timer_ok (h\<lparr>mAddFBList := x\<rparr>)" for h x
    by (simp add: timer_ok_def)
  show ?thesis
  proof (cases "mAddFBList h = []")
    case True
    then show ?thesis
      using h3 by (simp add: n due_def later_def rearmed_def)
  next
    case False
    then show ?thesis
      using h3 fold_add [where es = "mAddFBList h3" and h = h3]
      by (simp add: n processAddList_def ok due_def later_def r)
  qed
qed

text \<open>C31: A tick works off the removals, starts a chain for every remaining block that is due, in the
  order of the time-outs, then for the new registrations that are already due, and nothing else.
  Afterwards exactly the blocks that were not due and the periodic ones that were, with their
  next time-out, are registered, both lists are empty and the timed list is sorted again.\<close>

theorem nextTick_correct:
  assumes "timer_ok h"
  defines "now \<equiv> mForteTime h + 1"
  shows "mForteTime (nextTick h) = now \<and> mRemoveFBList (nextTick h) = [] \<and> mAddFBList (nextTick h) = [] \<and>
    timer_ok (nextTick h) \<and>
    mStarted (nextTick h) =
      mStarted h @ map mTimedFB (due now (live h)) @ map mTimedFB (due now (mAddFBList h)) \<and>
    mset (mTimedFBList (nextTick h)) =
      mset (rearmed now (due now (live h) @ due now (mAddFBList h))) +
      mset (later now (live h @ mAddFBList h))"
  using nextTick_correct_lemma [OF assms(1)] unfolding now_def .

lemma nextTick_correct_witness:
  "mStarted (nextTick (addToAddFBList \<lparr>mTimedFB = 8, mTimeOut = 1, mInterval = 0\<rparr> new_CTimerHandler)) = [8]"
  using nextTick_correct [of "addToAddFBList \<lparr>mTimedFB = 8, mTimeOut = 1, mInterval = 0\<rparr> new_CTimerHandler"]
  by (simp add: timer_ok_def new_CTimerHandler_def addToAddFBList_def live_def due_def)

section \<open>When a block is started\<close>

text \<open>The entries of one block: those of the timed list, unless the block is about to be removed
  from it, and those about to be added.\<close>

definition scheduled :: "nat \<Rightarrow> CTimerHandler \<Rightarrow> STimedFBListEntry list" where
  "scheduled f h =
     (if f \<in> set (mRemoveFBList h) then [] else filter (\<lambda>e. mTimedFB e = f) (mTimedFBList h)) @
     filter (\<lambda>e. mTimedFB e = f) (mAddFBList h)"

text \<open>The number of event chains started for a block so far.\<close>

definition chains_of :: "nat \<Rightarrow> CTimerHandler \<Rightarrow> nat" where
  "chains_of f h = count_list (mStarted h) f"

lemma nextTick_ok:
  assumes "timer_ok h"
  shows "timer_ok (nextTick h)" "mForteTime (nextTick h) = mForteTime h + 1"
  using nextTick_correct_lemma [OF assms] by simp_all

lemma mset_single: "mset xs = {#x#} \<longleftrightarrow> xs = [x]"
  by (cases xs) auto

lemma filter_rearmed:
  "filter (\<lambda>e. mTimedFB e = f) (rearmed now es) = rearmed now (filter (\<lambda>e. mTimedFB e = f) es)"
  by (induction es) (simp_all add: rearmed_def)

lemma count_list_map:
  "count_list (map g xs) y = length (filter (\<lambda>x. g x = y) xs)"
  by (induction xs) simp_all

lemma filter_live:
  "filter (\<lambda>e. mTimedFB e = f) (live h) @ filter (\<lambda>e. mTimedFB e = f) (mAddFBList h) = scheduled f h"
  by (auto simp: live_def scheduled_def filter_empty_conv intro: filter_cong)

lemma nextTick_scheduled:
  assumes "timer_ok h"
  defines "now \<equiv> mForteTime h + 1"
  shows "mset (scheduled f (nextTick h)) =
      mset (rearmed now (due now (scheduled f h)) @ later now (scheduled f h))"
    and "chains_of f (nextTick h) = chains_of f h + length (due now (scheduled f h))"
proof -
  note n = nextTick_correct_lemma [OF assms(1), folded now_def]
  let ?P = "\<lambda>e. mTimedFB e = f"
  have c: "filter ?P (due t es) = due t (filter ?P es)" "filter ?P (later t es) = later t (filter ?P es)"
    for t es by (simp_all add: due_def later_def conj_commute)
  have "mset (scheduled f (nextTick h)) = filter_mset ?P (mset (mTimedFBList (nextTick h)))"
    using n by (simp add: scheduled_def)
  also have "\<dots> = mset (filter ?P (rearmed now (due now (live h @ mAddFBList h)))) +
      mset (filter ?P (later now (live h @ mAddFBList h)))"
    using n by (simp add: due_def)
  finally show "mset (scheduled f (nextTick h)) =
      mset (rearmed now (due now (scheduled f h)) @ later now (scheduled f h))"
    by (simp only: filter_rearmed c filter_append filter_live mset_append)
  have "chains_of f (nextTick h) = chains_of f h + length (filter ?P (due now (live h @ mAddFBList h)))"
    using n by (simp add: chains_of_def count_list_map due_def)
  then show "chains_of f (nextTick h) = chains_of f h + length (due now (scheduled f h))"
    by (simp only: c filter_append filter_live)
qed

lemma scheduled_add [simp]:
  "scheduled f (addToAddFBList e h) = scheduled f h @ (if mTimedFB e = f then [e] else [])"
  by (simp add: scheduled_def addToAddFBList_def)

lemma scheduled_unregister:
  "scheduled f (unregisterTimedFB g h) =
     (if f = g then filter (\<lambda>e. mTimedFB e = f) (mAddFBList h) else scheduled f h)"
  by (simp add: scheduled_def unregisterTimedFB_def)

lemma handler_op_frame [simp]:
  "timer_ok (addToAddFBList e h) = timer_ok h" "timer_ok (unregisterTimedFB g h) = timer_ok h"
  "mForteTime (addToAddFBList e h) = mForteTime h" "mForteTime (unregisterTimedFB g h) = mForteTime h"
  "chains_of f (addToAddFBList e h) = chains_of f h"
  "chains_of f (unregisterTimedFB g h) = chains_of f h"
  by (simp_all add: addToAddFBList_def unregisterTimedFB_def timer_ok_def chains_of_def)

lemma ticks_ok:
  assumes "timer_ok h"
  shows "timer_ok ((nextTick ^^ n) h)" "mForteTime ((nextTick ^^ n) h) = mForteTime h + of_nat n"
  using assms by (induction n) (simp_all add: nextTick_ok add.commute)

lemma unscheduled_inv:
  assumes "timer_ok h" "scheduled f h = []"
  shows "scheduled f ((nextTick ^^ n) h) = [] \<and> chains_of f ((nextTick ^^ n) h) = chains_of f h"
proof (induction n)
  case (Suc n)
  then show ?case
    using nextTick_scheduled [OF ticks_ok(1) [OF assms(1), of n], of f]
    by (simp add: due_def later_def rearmed_def)
qed (use assms(2) in simp)

text \<open>One tick, for a block with a single entry.\<close>

lemma nextTick_single:
  assumes "timer_ok h" "scheduled f h = [e]"
  defines "now \<equiv> mForteTime h + 1"
  shows "mTimeOut e \<le> now \<Longrightarrow> chains_of f (nextTick h) = chains_of f h + 1"
    and "mTimeOut e \<le> now \<Longrightarrow> mInterval e \<noteq> 0 \<Longrightarrow>
      scheduled f (nextTick h) = [e\<lparr>mTimeOut := now + ucast (mInterval e)\<rparr>]"
    and "mTimeOut e \<le> now \<Longrightarrow> mInterval e = 0 \<Longrightarrow> scheduled f (nextTick h) = []"
    and "\<not> mTimeOut e \<le> now \<Longrightarrow>
      chains_of f (nextTick h) = chains_of f h \<and> scheduled f (nextTick h) = [e]"
proof -
  have "due now [e] = (if mTimeOut e \<le> now then [e] else [])"
    "later now [e] = (if mTimeOut e \<le> now then [] else [e])"
    by (auto simp: due_def later_def)
  note n = nextTick_scheduled [OF assms(1), of f, folded now_def, unfolded assms(2) this]
  show "mTimeOut e \<le> now \<Longrightarrow> chains_of f (nextTick h) = chains_of f h + 1"
    "mTimeOut e \<le> now \<Longrightarrow> mInterval e \<noteq> 0 \<Longrightarrow>
      scheduled f (nextTick h) = [e\<lparr>mTimeOut := now + ucast (mInterval e)\<rparr>]"
    "mTimeOut e \<le> now \<Longrightarrow> mInterval e = 0 \<Longrightarrow> scheduled f (nextTick h) = []"
    "\<not> mTimeOut e \<le> now \<Longrightarrow>
      chains_of f (nextTick h) = chains_of f h \<and> scheduled f (nextTick h) = [e]"
    using n by (auto simp: rearmed_def mset_single)
qed

lemma unat_add_small:
  fixes w :: "64 word"
  assumes "unat w + n < 2 ^ 64"
  shows "unat (w + of_nat n) = unat w + n"
  using assms by (simp add: unat_word_ariths unsigned_of_nat take_bit_eq_mod)

text \<open>After n ticks a periodic block has been started c times, and its entry waits for the time-out
  that is c intervals after the first one.\<close>

lemma periodic_inv:
  assumes "timer_ok h" "scheduled f h = [e]" "mInterval e \<noteq> 0" "mForteTime h < mTimeOut e"
    and "unat (mForteTime h) + n + 2 ^ 32 < 2 ^ 64"
  shows "\<exists>c e'. scheduled f ((nextTick ^^ n) h) = [e'] \<and> mInterval e' = mInterval e \<and>
    chains_of f ((nextTick ^^ n) h) = chains_of f h + c \<and>
    unat (mTimeOut e') = unat (mTimeOut e) + c * unat (mInterval e) \<and>
    unat (mForteTime h) + n < unat (mTimeOut e') \<and>
    (0 < c \<longrightarrow> unat (mTimeOut e') \<le> unat (mForteTime h) + n + unat (mInterval e))"
  using assms(5)
proof (induction n)
  case 0
  then show ?case
    using assms(2-4) by (intro exI [of _ 0] exI [of _ e]) (simp add: word_less_nat_alt)
next
  case (Suc n)
  then obtain c e' where ce: "scheduled f ((nextTick ^^ n) h) = [e']" "mInterval e' = mInterval e"
    "chains_of f ((nextTick ^^ n) h) = chains_of f h + c"
    "unat (mTimeOut e') = unat (mTimeOut e) + c * unat (mInterval e)"
    "unat (mForteTime h) + n < unat (mTimeOut e')"
    "0 < c \<longrightarrow> unat (mTimeOut e') \<le> unat (mForteTime h) + n + unat (mInterval e)"
    by auto
  let ?h = "(nextTick ^^ n) h"
  have ok: "timer_ok ?h" and time: "mForteTime ?h + 1 = mForteTime h + of_nat (Suc n)"
    using ticks_ok [OF assms(1), of n] by simp_all
  have now: "unat (mForteTime ?h + 1) = unat (mForteTime h) + Suc n"
    unfolding time using Suc.prems by (intro unat_add_small) simp
  have k: "unat (mInterval e) < 2 ^ 32" "0 < unat (mInterval e)"
    using unsigned_less [of "mInterval e"] assms(3) by (simp_all add: unat_gt_0)
  note single = nextTick_single [OF ok ce(1)]
  show ?case
  proof (cases "mTimeOut e' \<le> mForteTime ?h + 1")
    case True
    then have t: "unat (mTimeOut e') = unat (mForteTime h) + Suc n"
      using now ce(5) by (simp add: word_le_nat_alt)
    have "unat (mForteTime ?h + 1 + ucast (mInterval e)) =
        unat (mForteTime h) + Suc n + unat (mInterval e)"
      using now k Suc.prems unat_add_small [of "mForteTime ?h + 1" "unat (mInterval e)"] by simp
    then show ?thesis
      using single(1,2) [OF True] ce t k assms(3)
      by (intro exI [of _ "Suc c"]) simp
  next
    case False
    then show ?thesis
      using single(4) [OF False] ce now
      by (intro exI [of _ c] exI [of _ e']) (auto simp: word_le_nat_alt)
  qed
qed

lemma div_from_bounds:
  fixes t T k c :: nat
  assumes "t < T + c * k" "0 < c \<Longrightarrow> T + c * k \<le> t + k" "0 < k"
  shows "c = (if t < T then 0 else (t - T) div k + 1)"
proof (cases c)
  case 0
  then show ?thesis using assms(1) by simp
next
  case (Suc m)
  then have "m * k \<le> t - T" "t - T < m * k + k" "T \<le> t"
    using assms by auto
  then have "(t - T) div k = m"
    using assms(3) by (intro div_nat_eqI) (simp_all add: algebra_simps)
  then show ?thesis
    using Suc \<open>T \<le> t\<close> by simp
qed

lemma periodic_inv_schedule:
  assumes "timer_ok h" "scheduled f h = [e]" "mInterval e \<noteq> 0" "mForteTime h < mTimeOut e"
    and "unat (mForteTime h) + n + 2 ^ 32 < 2 ^ 64"
  shows "chains_of f ((nextTick ^^ n) h) = chains_of f h +
    (let t = unat (mForteTime h) + n; T = unat (mTimeOut e)
     in if t < T then 0 else (t - T) div unat (mInterval e) + 1)"
proof -
  obtain c and e' :: STimedFBListEntry where "chains_of f ((nextTick ^^ n) h) = chains_of f h + c"
    "unat (mTimeOut e') = unat (mTimeOut e) + c * unat (mInterval e)"
    "unat (mForteTime h) + n < unat (mTimeOut e')"
    "0 < c \<longrightarrow> unat (mTimeOut e') \<le> unat (mForteTime h) + n + unat (mInterval e)"
    using periodic_inv [OF assms] by blast
  then show ?thesis
    using div_from_bounds [of "unat (mForteTime h) + n" "unat (mTimeOut e)" c "unat (mInterval e)"]
      assms(3) by (simp add: Let_def unat_gt_0)
qed

text \<open>C32: A periodic registration starts its block at its time-out and every interval after it, and
  at no other tick: after n ticks as often as this schedule says, whatever other blocks are
  registered, as long as the 64-bit clock does not wrap.\<close>

theorem periodic_schedule:
  assumes "timer_ok h" "scheduled f h = [e]" "mInterval e \<noteq> 0" "mForteTime h < mTimeOut e"
    and "unat (mForteTime h) + n + 2 ^ 32 < 2 ^ 64"
  shows "chains_of f ((nextTick ^^ n) h) = chains_of f h +
    (let t = unat (mForteTime h) + n; T = unat (mTimeOut e)
     in if t < T then 0 else (t - T) div unat (mInterval e) + 1)"
  using periodic_inv_schedule [OF assms] .

lemma periodic_schedule_witness:
  "chains_of 8 ((nextTick ^^ 11) (new_CTimerHandler
     \<lparr>mTimedFBList := [\<lparr>mTimedFB = 8, mTimeOut = 3, mInterval = 4\<rparr>]\<rparr>)) = 3"
  using periodic_schedule [of "new_CTimerHandler
     \<lparr>mTimedFBList := [\<lparr>mTimedFB = 8, mTimeOut = 3, mInterval = 4\<rparr>]\<rparr>" 8
     "\<lparr>mTimedFB = 8, mTimeOut = 3, mInterval = 4\<rparr>" 11]
  by (simp add: timer_ok_def new_CTimerHandler_def scheduled_def chains_of_def)

lemma oneshot_inv:
  assumes "timer_ok h" "scheduled f h = [e]" "mInterval e = 0" "mForteTime h < mTimeOut e"
    and "unat (mForteTime h) + n < 2 ^ 64"
  shows "if unat (mForteTime h) + n < unat (mTimeOut e)
    then scheduled f ((nextTick ^^ n) h) = [e] \<and> chains_of f ((nextTick ^^ n) h) = chains_of f h
    else scheduled f ((nextTick ^^ n) h) = [] \<and> chains_of f ((nextTick ^^ n) h) = chains_of f h + 1"
  using assms(5)
proof (induction n)
  case 0
  then show ?case
    using assms(2,4) by (simp add: word_less_nat_alt)
next
  case (Suc n)
  let ?h = "(nextTick ^^ n) h"
  have ok: "timer_ok ?h" and time: "mForteTime ?h + 1 = mForteTime h + of_nat (Suc n)"
    using ticks_ok [OF assms(1), of n] by simp_all
  have now: "unat (mForteTime ?h + 1) = unat (mForteTime h) + Suc n"
    unfolding time using Suc.prems by (intro unat_add_small) simp
  show ?case
  proof (cases "unat (mForteTime h) + n < unat (mTimeOut e)")
    case True
    then show ?thesis
      using Suc nextTick_single [OF ok, of f e] now assms(3)
      by (cases "mTimeOut e \<le> mForteTime ?h + 1") (auto simp: word_le_nat_alt)
  next
    case False
    then show ?thesis
      using Suc nextTick_scheduled [OF ok, of f] by (auto simp: due_def later_def rearmed_def)
  qed
qed

text \<open>A one-shot registration starts its block exactly once, at the tick of its time-out, and is
  gone then.\<close>

theorem oneshot_fires_once:
  assumes "timer_ok h" "scheduled f h = [e]" "mInterval e = 0" "mForteTime h < mTimeOut e"
    and "unat (mForteTime h) + n < 2 ^ 64"
  shows "chains_of f ((nextTick ^^ n) h) = chains_of f h +
      (if unat (mForteTime h) + n < unat (mTimeOut e) then 0 else 1) \<and>
    (unat (mTimeOut e) \<le> unat (mForteTime h) + n \<longrightarrow> scheduled f ((nextTick ^^ n) h) = [])"
  using oneshot_inv [OF assms] by (auto split: if_splits)

lemma oneshot_fires_once_witness:
  "chains_of 8 ((nextTick ^^ 5) (new_CTimerHandler
     \<lparr>mTimedFBList := [\<lparr>mTimedFB = 8, mTimeOut = 3, mInterval = 0\<rparr>]\<rparr>)) = 1"
  using oneshot_fires_once [of "new_CTimerHandler
     \<lparr>mTimedFBList := [\<lparr>mTimedFB = 8, mTimeOut = 3, mInterval = 0\<rparr>]\<rparr>" 8
     "\<lparr>mTimedFB = 8, mTimeOut = 3, mInterval = 0\<rparr>" 5]
  by (simp add: timer_ok_def new_CTimerHandler_def scheduled_def chains_of_def)

section \<open>Intervals\<close>

lemma sint_pos_lt: "sint (t :: 64 word) < 2 ^ 63"
  using sint_lt [of t] by simp

text \<open>An interval of d nanoseconds, at a thousand ticks per second, becomes max(1, d div 1000000)
  ticks below 2^32 ticks, about 49 days.  Beyond, the number of ticks is taken modulo 2^32: a
  periodic registration whose interval is a multiple of 2^32 ticks is stored as a one-shot one.\<close>

theorem interval_conversion:
  "(sint t sdiv 1000000 < 2 ^ 32 \<longrightarrow>
      unat (convertIntervalToTimerHandlerUnits 1000 t) = nat (max 1 (sint t sdiv 1000000))) \<and>
   (t = 2 ^ 32 * 1000000 \<longrightarrow>
      map mInterval (mAddFBList (registerPeriodicTimedFB 1000 f t h)) =
      map mInterval (mAddFBList h) @ [scmOneShotIndicator])"
proof (intro conjI impI)
  have u: "scmTimeToTimerUnit 1000 = 1000000"
    by (simp add: scmTimeToTimerUnit_def csmForteTimeBaseUnitsPerSecond_def signed_divide_int_def)
  show "unat (convertIntervalToTimerHandlerUnits 1000 t) = nat (max 1 (sint t sdiv 1000000))"
    if "sint t sdiv 1000000 < 2 ^ 32"
    using that by (auto simp: convertIntervalToTimerHandlerUnits_def u Let_def unsigned_of_int
        take_bit_int_eq_self)
  show "map mInterval (mAddFBList (registerPeriodicTimedFB 1000 f t h)) =
      map mInterval (mAddFBList h) @ [scmOneShotIndicator]" if "t = 2 ^ 32 * 1000000"
    by (simp add: that registerPeriodicTimedFB_def addToAddFBList_def Let_def u
        convertIntervalToTimerHandlerUnits_def signed_divide_int_def)
qed

lemma interval_conversion_witness:
  "unat (convertIntervalToTimerHandlerUnits 1000 2500000) = 2 \<and>
   map mInterval (mAddFBList (registerPeriodicTimedFB 1000 8 (2 ^ 32 * 1000000) new_CTimerHandler)) = [0]"
  using interval_conversion [of 2500000 8 new_CTimerHandler]
    interval_conversion [of "2 ^ 32 * 1000000" 8 new_CTimerHandler]
  by (simp add: signed_divide_int_def new_CTimerHandler_def)

end
