(* ===== verification/Timed_FB.thy ===== *)
theory Timed_FB
imports FB_Class Timer_Handler
begin

text \<open>
  The timed event blocks E_CYCLE, E_DELAY and E_RDELAY, \<open>stdfblib/events/src/timedfb.cpp\<close>,
  \<open>E_CYCLE_fbt.cpp\<close>, \<open>E_DELAY_fbt.cpp\<close> and \<open>E_RDELAY_fbt.cpp\<close>, on top of the timer handler.  A block
  calls the timer handler while it executes an event; the calls only append to lists of the handler
  and have no result, so the block records them and they are applied when the event is done.  There
  is one event chain thread, so \<open>setEventChainExecutor\<close> has no effect here.
\<close>

section \<open>The base class of timed blocks\<close>

datatype timer_call = RegisterOneShot cell | RegisterPeriodic cell | Unregister

abbreviation (input) csmEventSTARTID :: TEventID where "csmEventSTARTID \<equiv> 0"
abbreviation (input) csmEventSTOPID :: TEventID where "csmEventSTOPID \<equiv> 1"
abbreviation (input) csmEOID :: TEventID where "csmEOID \<equiv> 0"

definition CTimedFB_cFBInterfaceSpec :: SFBInterfaceSpec where
  "CTimedFB_cFBInterfaceSpec =
     \<lparr>mEINames = [Some ''START'', Some ''STOP''],
      mEITypeNames = [],
      mEONames = [Some ''EO''],
      mEOTypeNames = [],
      mDINames = [Some ''DT''],
      mDONames = [],
      mDIONames = [],
      mSocketNames = [],
      mPlugNames = []\<rparr>"

record CTimedFB = CFunctionBlock +
  mActive :: bool
  var_DT :: cell
  conn_DT :: "conn_id option"
  conn_EO :: CEventConnection
  mTimerCalls :: "timer_call list"

definition new_CTimedFB :: "nat \<Rightarrow> CTimedFB" where
  "new_CTimedFB this =
     \<lparr>mInterfaceSpec = CTimedFB_cFBInterfaceSpec, mEventMonitorCount = [],
      mForces = replicate cgMaxSupportedForceIndex False, mFBState = Idle,
      mInputEventConnectionCount = None, mConnRefCount = 0, mDeletable = True,
      mActive = False, var_DT = 0, conn_DT = None,
      conn_EO = \<lparr>mSourceId = \<lparr>mFB = this, mPortId = 0\<rparr>, mDestinationIds = []\<rparr>,
      mTimerCalls = []\<rparr>"

definition CTimedFB_readInputData :: "(conn_id \<Rightarrow> cell) \<Rightarrow> TEventID \<Rightarrow> CTimedFB \<Rightarrow> CTimedFB" where
  "CTimedFB_readInputData env ei s =
     readData env 0 (Ref var_DT (\<lambda>v. var_DT_update (\<lambda>_. v))) (conn_DT s) s"

definition CTimedFB_writeOutputData :: "TEventID \<Rightarrow> CTimedFB \<Rightarrow> CTimedFB" where
  "CTimedFB_writeOutputData eo s = s"

definition CTimedFB_getDI :: "TPortId \<Rightarrow> (CTimedFB, cell) ref option" where
  "CTimedFB_getDI i = (if i = 0 then Some (Ref var_DT (\<lambda>v. var_DT_update (\<lambda>_. v))) else None)"

definition CTimedFB_getDO :: "TPortId \<Rightarrow> (CTimedFB, cell) ref option" where
  "CTimedFB_getDO i = None"

definition CTimedFB_getEOConUnchecked :: "TPortId \<Rightarrow> (CTimedFB, CEventConnection) ref option" where
  "CTimedFB_getEOConUnchecked i =
     (if i = 0 then Some (Ref conn_EO (\<lambda>v. conn_EO_update (\<lambda>_. v))) else None)"

definition CTimedFB_getDIConUnchecked :: "TPortId \<Rightarrow> (CTimedFB, conn_id option) ref option" where
  "CTimedFB_getDIConUnchecked i =
     (if i = 0 then Some (Ref conn_DT (\<lambda>v. conn_DT_update (\<lambda>_. v))) else None)"

definition CTimedFB_getDOConUnchecked :: "TPortId \<Rightarrow> (CTimedFB, COutDataConnection) ref option" where
  "CTimedFB_getDOConUnchecked i = None"

definition CTimedFB_setInitialValues :: "CTimedFB \<Rightarrow> CTimedFB" where
  "CTimedFB_setInitialValues s = s\<lparr>var_DT := 0\<rparr>"

definition timer_call :: "timer_call \<Rightarrow> CTimedFB \<Rightarrow> CTimedFB" where
  "timer_call c s = s\<lparr>mTimerCalls := mTimerCalls s @ [c]\<rparr>"

definition CTimedFB_executeEvent ::
    "TEventID \<Rightarrow> CTimedFB \<times> ecet option \<Rightarrow> (CTimedFB \<times> ecet option) option" where
  "CTimedFB_executeEvent ei st =
     (if ei = cgExternalEventID
      then Some (sendOutputEvent CTimedFB_writeOutputData CTimedFB_getEOConUnchecked csmEOID st)
      else if ei = csmEventSTOPID
      then Some (apfst (\<lambda>s. if mActive s then (timer_call Unregister s)\<lparr>mActive := False\<rparr> else s) st)
      else Some st)"

definition CTimedFB_changeExecutionState ::
    "EMGMCommandType \<Rightarrow> CTimedFB \<Rightarrow> EMGMResponse \<times> CTimedFB" where
  "CTimedFB_changeExecutionState cmd s =
     (case CFunctionBlock_changeExecutionState CTimedFB_setInitialValues (\<lambda>_ x. (Ready, x)) cmd s of
        (eRetVal, s) \<Rightarrow>
          if eRetVal = Ready \<and> (cmd = Stop \<or> cmd = Kill) \<and> mActive s
          then (eRetVal, (timer_call Unregister s)\<lparr>mActive := False\<rparr>)
          else (eRetVal, s))"

section \<open>The three blocks\<close>

definition E_CYCLE_executeEvent ::
    "TEventID \<Rightarrow> CTimedFB \<times> ecet option \<Rightarrow> (CTimedFB \<times> ecet option) option" where
  "E_CYCLE_executeEvent ei st =
     (if ei = csmEventSTARTID
      then Some (apfst (\<lambda>s. if \<not> mActive s
                            then (timer_call (RegisterPeriodic (var_DT s)) s)\<lparr>mActive := True\<rparr>
                            else s) st)
      else CTimedFB_executeEvent ei st)"

definition E_DELAY_executeEvent ::
    "TEventID \<Rightarrow> CTimedFB \<times> ecet option \<Rightarrow> (CTimedFB \<times> ecet option) option" where
  "E_DELAY_executeEvent ei st =
     (if ei = cgExternalEventID
      then Some (apfst (mActive_update (\<lambda>_. False))
             (sendOutputEvent CTimedFB_writeOutputData CTimedFB_getEOConUnchecked csmEOID st))
      else if ei = csmEventSTARTID
      then Some (apfst (\<lambda>s. if \<not> mActive s
                            then (timer_call (RegisterOneShot (var_DT s)) s)\<lparr>mActive := True\<rparr>
                            else s) st)
      else CTimedFB_executeEvent ei st)"

definition E_RDELAY_executeEvent ::
    "TEventID \<Rightarrow> CTimedFB \<times> ecet option \<Rightarrow> (CTimedFB \<times> ecet option) option" where
  "E_RDELAY_executeEvent ei st =
     (if ei = cgExternalEventID
      then Some (apfst (mActive_update (\<lambda>_. False))
             (sendOutputEvent CTimedFB_writeOutputData CTimedFB_getEOConUnchecked csmEOID st))
      else if ei = csmEventSTARTID
      then Some (apfst (\<lambda>s.
             let s = (if mActive s then timer_call Unregister s else s)
             in (timer_call (RegisterOneShot (var_DT s)) s)\<lparr>mActive := True\<rparr>) st)
      else CTimedFB_executeEvent ei st)"

definition CTimedFB_vtable ::
    "(TEventID \<Rightarrow> CTimedFB \<times> ecet option \<Rightarrow> (CTimedFB \<times> ecet option) option) \<Rightarrow> CTimedFB vtable" where
  "CTimedFB_vtable exec =
     \<lparr>vt_getDI = CTimedFB_getDI, vt_getDO = CTimedFB_getDO, vt_getDIO = (\<lambda>_. None),
      vt_DItype = (\<lambda>i. if i = 0 then e_TIME else e_ANY),
      vt_DOtype = (\<lambda>i. e_ANY),
      vt_getEOConUnchecked = CTimedFB_getEOConUnchecked,
      vt_getDIConUnchecked = CTimedFB_getDIConUnchecked,
      vt_getDOConUnchecked = CTimedFB_getDOConUnchecked,
      vt_executeEvent = exec, vt_readInputData = CTimedFB_readInputData,
      vt_writeOutputData = CTimedFB_writeOutputData,
      vt_setInitialValues = CTimedFB_setInitialValues\<rparr>"

definition E_CYCLE_vtable :: "CTimedFB vtable" where
  "E_CYCLE_vtable = CTimedFB_vtable E_CYCLE_executeEvent"

definition E_DELAY_vtable :: "CTimedFB vtable" where
  "E_DELAY_vtable = CTimedFB_vtable E_DELAY_executeEvent"

definition E_RDELAY_vtable :: "CTimedFB vtable" where
  "E_RDELAY_vtable = CTimedFB_vtable E_RDELAY_executeEvent"

section \<open>The contract of a block\<close>

lemma CTimedFB_sizes [simp]:
  "length (mEINames CTimedFB_cFBInterfaceSpec) = 2" "length (mEONames CTimedFB_cFBInterfaceSpec) = 1"
  "length (mDINames CTimedFB_cFBInterfaceSpec) = 1" "length (mDONames CTimedFB_cFBInterfaceSpec) = 0"
  by (simp_all add: CTimedFB_cFBInterfaceSpec_def)

lemma CTimedFB_write [simp]: "CTimedFB_writeOutputData eo s = s"
  by (simp add: CTimedFB_writeOutputData_def)

lemma CTimedFB_send_step:
  "fb_step_in CTimedFB_cFBInterfaceSpec CTimedFB_getDOConUnchecked st st' \<Longrightarrow>
   fb_step_in CTimedFB_cFBInterfaceSpec CTimedFB_getDOConUnchecked st
     (sendOutputEvent CTimedFB_writeOutputData geo eo st')"
  by (rule fb_step_in_send) simp_all

lemma CTimedFB_local_step:
  assumes "\<And>s. base (f s) = base s" "\<And>s. mEventMonitorCount (f s) = mEventMonitorCount s"
    and "fb_step_in CTimedFB_cFBInterfaceSpec CTimedFB_getDOConUnchecked st st'"
  shows "fb_step_in CTimedFB_cFBInterfaceSpec CTimedFB_getDOConUnchecked st (apfst f st')"
  by (rule fb_step_in_local [OF assms(1,2) _ assms(3)]) simp_all

lemma timer_call_frame [simp]:
  "base (timer_call c s) = base s" "mEventMonitorCount (timer_call c s) = mEventMonitorCount s"
  "var_DT (timer_call c s) = var_DT s" "mActive (timer_call c s) = mActive s"
  "mFBState (timer_call c s) = mFBState s" "mForces (timer_call c s) = mForces s"
  "mInterfaceSpec (timer_call c s) = mInterfaceSpec s" "conn_EO (timer_call c s) = conn_EO s"
  "conn_DT (timer_call c s) = conn_DT s" "mTimerCalls (timer_call c s) = mTimerCalls s @ [c]"
  by (simp_all add: timer_call_def base_def)

lemma base_mActive [simp]: "base (s\<lparr>mActive := b\<rparr>) = base s"
  by (simp add: base_def)

lemma CTimedFB_step:
  "\<exists>st'. CTimedFB_executeEvent ei st = Some st' \<and>
    fb_step_in CTimedFB_cFBInterfaceSpec CTimedFB_getDOConUnchecked st st'"
  by (simp add: CTimedFB_executeEvent_def CTimedFB_local_step CTimedFB_send_step
      del: split_paired_Ex)

lemma timed_step:
  assumes "exec \<in> {E_CYCLE_executeEvent, E_DELAY_executeEvent, E_RDELAY_executeEvent}"
  shows "\<exists>st'. exec ei st = Some st' \<and>
    fb_step_in CTimedFB_cFBInterfaceSpec CTimedFB_getDOConUnchecked st st'"
  using assms CTimedFB_step [of ei st]
  by (elim insertE emptyE; hypsubst_thin?; simp add: E_CYCLE_executeEvent_def E_DELAY_executeEvent_def
      E_RDELAY_executeEvent_def Let_def CTimedFB_local_step CTimedFB_send_step del: split_paired_Ex)

lemma timed_class:
  assumes "exec \<in> {E_CYCLE_executeEvent, E_DELAY_executeEvent, E_RDELAY_executeEvent}"
  shows "fb_class (CTimedFB_vtable exec) CTimedFB_cFBInterfaceSpec"
proof (unfold_locales, goal_cases)
  case (5 s ei ex)
  then show ?case
    using timed_step [OF assms, of ei "(s, ex)"] by (auto simp: CTimedFB_vtable_def fb_step_in_def)
qed (auto simp: CTimedFB_vtable_def CTimedFB_readInputData_def readData_def base_def
    split: option.splits)

interpretation E_CYCLE_class: fb_class E_CYCLE_vtable CTimedFB_cFBInterfaceSpec
  unfolding E_CYCLE_vtable_def by (rule timed_class) simp

interpretation E_DELAY_class: fb_class E_DELAY_vtable CTimedFB_cFBInterfaceSpec
  unfolding E_DELAY_vtable_def by (rule timed_class) simp

interpretation E_RDELAY_class: fb_class E_RDELAY_vtable CTimedFB_cFBInterfaceSpec
  unfolding E_RDELAY_vtable_def by (rule timed_class) simp

section \<open>A timed block with the timer handler\<close>

definition apply_timer_call :: "int \<Rightarrow> nat \<Rightarrow> timer_call \<Rightarrow> CTimerHandler \<Rightarrow> CTimerHandler" where
  "apply_timer_call tps this c h =
     (case c of
        RegisterOneShot t \<Rightarrow> registerOneShotTimedFB tps this t h
      | RegisterPeriodic t \<Rightarrow> registerPeriodicTimedFB tps this t h
      | Unregister \<Rightarrow> unregisterTimedFB this h)"

text \<open>An event is received and the calls that the block has made are applied to the handler.\<close>

definition timed_receive ::
    "int \<Rightarrow> nat \<Rightarrow> CTimedFB vtable \<Rightarrow> (conn_id \<Rightarrow> cell) \<Rightarrow> TEventID \<Rightarrow>
     CTimedFB \<times> ecet option \<times> CTimerHandler \<Rightarrow> (CTimedFB \<times> ecet option \<times> CTimerHandler) option" where
  "timed_receive tps this vt env ei w =
     (case w of (s, ex, h) \<Rightarrow>
        (case receiveInputEvent vt env ei (s\<lparr>mTimerCalls := []\<rparr>, ex) of
           None \<Rightarrow> None
         | Some (s', ex') \<Rightarrow> Some (s', ex', fold (apply_timer_call tps this) (mTimerCalls s') h)))"

section \<open>Behaviour\<close>

text \<open>A running block without forced pins, and the delay it reads when an event arrives.\<close>

definition timed_ok :: "CTimedFB \<Rightarrow> bool" where
  "timed_ok s = (mInterfaceSpec s = CTimedFB_cFBInterfaceSpec \<and> mFBState s = Running \<and>
                 True \<notin> set (mForces s))"

definition DT_of :: "(conn_id \<Rightarrow> cell) \<Rightarrow> CTimedFB \<Rightarrow> cell" where
  "DT_of env s = var_DT (CTimedFB_readInputData env csmEventSTARTID s)"

abbreviation ticks_of :: "int \<Rightarrow> (conn_id \<Rightarrow> cell) \<Rightarrow> CTimedFB \<Rightarrow> nat" where
  "ticks_of tps env s \<equiv> unat (convertIntervalToTimerHandlerUnits tps (DT_of env s))"

lemma read_frame [simp]:
  "mActive (CTimedFB_readInputData env ei s) = mActive s"
  "mFBState (CTimedFB_readInputData env ei s) = mFBState s"
  "mForces (CTimedFB_readInputData env ei s) = mForces s"
  "mInterfaceSpec (CTimedFB_readInputData env ei s) = mInterfaceSpec s"
  "mTimerCalls (CTimedFB_readInputData env ei s) = mTimerCalls s"
  by (simp_all add: CTimedFB_readInputData_def readData_def split: option.splits)

lemma read_DT: "var_DT (CTimedFB_readInputData env ei (s\<lparr>mTimerCalls := x\<rparr>)) = DT_of env s"
  by (simp add: CTimedFB_readInputData_def readData_def DT_of_def isForced_def split: option.splits)

lemma count_event_frame [simp]:
  "mActive (count_event i s) = mActive s" "var_DT (count_event i s) = var_DT s"
  "mFBState (count_event i s) = mFBState s" "mForces (count_event i s) = mForces s"
  "mTimerCalls (count_event i s) = mTimerCalls s"
  for s :: CTimedFB
  by (simp_all add: count_event_def)

lemma vtable_frame [simp]:
  "vt_executeEvent (CTimedFB_vtable exec) = exec"
  "vt_readInputData (CTimedFB_vtable exec) = CTimedFB_readInputData"
  by (simp_all add: CTimedFB_vtable_def)

lemma not_external [simp]: "cgExternalEventID \<noteq> 0" "cgExternalEventID \<noteq> Suc 0" "0 \<noteq> cgExternalEventID"
  "Suc 0 \<noteq> cgExternalEventID"
  by (simp_all add: cgExternalEventID_def cgInvalidEventID_def cgInvalidPortId_def)

lemma receive_local:
  assumes "timed_ok s" "ei < 2" "\<And>x. exec ei (x, ex) = Some (f x, ex)"
    and "\<And>x. mForces (f x) = mForces x"
  shows "timed_receive tps this (CTimedFB_vtable exec) env ei (s, ex, h) =
    (let s' = f (count_event ei (CTimedFB_readInputData env ei (s\<lparr>mTimerCalls := []\<rparr>)))
     in Some (s', ex, fold (apply_timer_call tps this) (mTimerCalls s') h))"
  using assms by (simp add: timed_receive_def receiveInputEvent_def timed_ok_def Let_def)

lemma START_CYCLE:
  assumes "timed_ok s"
  shows "\<exists>s'. timed_receive tps this E_CYCLE_vtable env csmEventSTARTID (s, ex, h) =
      Some (s', ex, if mActive s then h else registerPeriodicTimedFB tps this (DT_of env s) h) \<and>
    timed_ok s' \<and> mActive s'"
  unfolding E_CYCLE_vtable_def
  by (subst receive_local [OF assms, where f = "\<lambda>s. if \<not> mActive s
        then (timer_call (RegisterPeriodic (var_DT s)) s)\<lparr>mActive := True\<rparr> else s"])
    (use assms in \<open>auto simp: E_CYCLE_executeEvent_def apply_timer_call_def timed_ok_def Let_def read_DT\<close>)

lemma START_DELAY:
  assumes "timed_ok s"
  shows "\<exists>s'. timed_receive tps this E_DELAY_vtable env csmEventSTARTID (s, ex, h) =
      Some (s', ex, if mActive s then h else registerOneShotTimedFB tps this (DT_of env s) h) \<and>
    timed_ok s' \<and> mActive s'"
  unfolding E_DELAY_vtable_def
  by (subst receive_local [OF assms, where f = "\<lambda>s. if \<not> mActive s
        then (timer_call (RegisterOneShot (var_DT s)) s)\<lparr>mActive := True\<rparr> else s"])
    (use assms in \<open>auto simp: E_DELAY_executeEvent_def apply_timer_call_def timed_ok_def Let_def read_DT\<close>)

lemma START_RDELAY:
  assumes "timed_ok s"
  shows "\<exists>s'. timed_receive tps this E_RDELAY_vtable env csmEventSTARTID (s, ex, h) =
      Some (s', ex, registerOneShotTimedFB tps this (DT_of env s)
                      (if mActive s then unregisterTimedFB this h else h)) \<and>
    timed_ok s' \<and> mActive s'"
  unfolding E_RDELAY_vtable_def
  by (subst receive_local [OF assms, where f = "\<lambda>s.
         let s = (if mActive s then timer_call Unregister s else s)
         in (timer_call (RegisterOneShot (var_DT s)) s)\<lparr>mActive := True\<rparr>"])
    (use assms in \<open>auto simp: E_RDELAY_executeEvent_def apply_timer_call_def timed_ok_def Let_def read_DT\<close>)

text \<open>All three blocks handle a stop alike.\<close>

lemma STOP_timed:
  assumes "timed_ok s" "vt \<in> {E_CYCLE_vtable, E_DELAY_vtable, E_RDELAY_vtable}"
  shows "\<exists>s'. timed_receive tps this vt env csmEventSTOPID (s, ex, h) =
      Some (s', ex, if mActive s then unregisterTimedFB this h else h) \<and> timed_ok s' \<and> \<not> mActive s'"
proof -
  let ?f = "\<lambda>s. if mActive s then (timer_call Unregister s)\<lparr>mActive := False\<rparr> else s"
  have "\<exists>s'. timed_receive tps this (CTimedFB_vtable exec) env csmEventSTOPID (s, ex, h) =
      Some (s', ex, if mActive s then unregisterTimedFB this h else h) \<and> timed_ok s' \<and> \<not> mActive s'"
    if "\<And>x. exec 1 (x, ex) = Some (?f x, ex)" for exec
    by (subst receive_local [OF assms(1), where f = ?f])
      (use assms(1) that in \<open>auto simp: apply_timer_call_def timed_ok_def Let_def\<close>)
  then show ?thesis
    using assms(2) by (auto simp: E_CYCLE_vtable_def E_DELAY_vtable_def E_RDELAY_vtable_def
        E_CYCLE_executeEvent_def E_DELAY_executeEvent_def E_RDELAY_executeEvent_def
        CTimedFB_executeEvent_def)
qed

section \<open>Timing\<close>

lemma register_scheduled:
  "scheduled f (registerPeriodicTimedFB tps f t h) =
     scheduled f h @ [\<lparr>mTimedFB = f,
       mTimeOut = mForteTime h + ucast (convertIntervalToTimerHandlerUnits tps t),
       mInterval = convertIntervalToTimerHandlerUnits tps t\<rparr>]"
  "scheduled f (registerOneShotTimedFB tps f t h) =
     scheduled f h @ [\<lparr>mTimedFB = f,
       mTimeOut = mForteTime h + ucast (convertIntervalToTimerHandlerUnits tps t), mInterval = 0\<rparr>]"
  "timer_ok (registerPeriodicTimedFB tps f t h) = timer_ok h"
  "timer_ok (registerOneShotTimedFB tps f t h) = timer_ok h"
  "mForteTime (registerPeriodicTimedFB tps f t h) = mForteTime h"
  "mForteTime (registerOneShotTimedFB tps f t h) = mForteTime h"
  "chains_of f (registerPeriodicTimedFB tps f t h) = chains_of f h"
  "chains_of f (registerOneShotTimedFB tps f t h) = chains_of f h"
  by (simp_all add: registerPeriodicTimedFB_def registerOneShotTimedFB_def Let_def)

lemma timeout_later:
  fixes k :: "32 word" and t :: "64 word"
  assumes "k \<noteq> 0" "unat t + 2 ^ 32 < 2 ^ 64"
  shows "unat (t + ucast k) = unat t + unat k" "t < t + ucast k"
proof -
  have "unat k < 2 ^ 32" "0 < unat k"
    using unsigned_less [of k] assms(1) by (simp_all add: unat_gt_0)
  then show "unat (t + ucast k) = unat t + unat k" "t < t + ucast k"
    using unat_add_small [of t "unat k"] assms(2) by (simp_all add: word_less_nat_alt)
qed

lemma fresh_periodic:
  fixes tps :: int and f :: nat and t :: cell and h :: CTimerHandler
  defines "k \<equiv> convertIntervalToTimerHandlerUnits tps t"
  assumes "timer_ok h" "scheduled f h = []" "k \<noteq> 0" "unat (mForteTime h) + n + 2 ^ 32 < 2 ^ 64"
  shows "chains_of f ((nextTick ^^ n) (registerPeriodicTimedFB tps f t h)) =
    chains_of f h + n div unat k"
proof -
  have "unat k \<le> n \<Longrightarrow> (n - unat k) div unat k + 1 = n div unat k"
    using assms(4) div_add_self2 [of "unat k" "n - unat k"] by (simp add: unat_gt_0)
  then show ?thesis
    using periodic_inv_schedule [of "registerPeriodicTimedFB tps f t h" f _ n] assms
      timeout_later [of k "mForteTime h"]
    by (auto simp: register_scheduled Let_def not_less)
qed

lemma fresh_oneshot:
  fixes tps :: int and f :: nat and t :: cell and h :: CTimerHandler
  defines "k \<equiv> convertIntervalToTimerHandlerUnits tps t"
  assumes "timer_ok h" "scheduled f h = []" "k \<noteq> 0" "unat (mForteTime h) + n + 2 ^ 32 < 2 ^ 64"
  shows "chains_of f ((nextTick ^^ n) (registerOneShotTimedFB tps f t h)) =
    chains_of f h + (if n < unat k then 0 else 1)"
  using oneshot_inv [of "registerOneShotTimedFB tps f t h" f _ n] assms
    timeout_later [of k "mForteTime h"]
  by (auto simp: register_scheduled split: if_splits)

text \<open>A running block of address 8 with a delay of 5 ms, as the examples use it.\<close>

definition example_timed :: CTimedFB where
  "example_timed = (new_CTimedFB 8)\<lparr>mFBState := Running, var_DT := 5000000\<rparr>"

lemma example_timed_ok:
  "timed_ok example_timed" "\<not> mActive example_timed" "ticks_of 1000 env example_timed = 5"
  "convertIntervalToTimerHandlerUnits 1000 (DT_of env example_timed) = 5"
  by (simp_all add: example_timed_def timed_ok_def new_CTimedFB_def DT_of_def
      CTimedFB_readInputData_def readData_def convertIntervalToTimerHandlerUnits_def
      scmTimeToTimerUnit_def csmForteTimeBaseUnitsPerSecond_def signed_divide_int_def Let_def)

lemma new_timer_ok:
  "timer_ok new_CTimerHandler" "scheduled f new_CTimerHandler = []"
  "mForteTime new_CTimerHandler = 0" "chains_of f new_CTimerHandler = 0"
  by (simp_all add: new_CTimerHandler_def timer_ok_def scheduled_def chains_of_def)

text \<open>A START of an inactive E_DELAY makes it active and starts its event chain exactly once, at
  the tick that lies its delay in the future; while it is active a further START changes
  nothing.\<close>

theorem E_DELAY_delays:
  assumes "timed_ok s" "\<not> mActive s" "timer_ok h" "scheduled this h = []"
    and "ticks_of tps env s \<noteq> 0" "unat (mForteTime h) + n + 2 ^ 32 < 2 ^ 64"
  shows "\<exists>s' h'. timed_receive tps this E_DELAY_vtable env csmEventSTARTID (s, ex, h) = Some (s', ex, h') \<and>
    timed_ok s' \<and> mActive s' \<and>
    chains_of this ((nextTick ^^ n) h') = chains_of this h + (if n < ticks_of tps env s then 0 else 1) \<and>
    (\<forall>h2. \<exists>s2. timed_receive tps this E_DELAY_vtable env csmEventSTARTID (s', ex, h2) = Some (s2, ex, h2))"
proof -
  obtain s' where s': "timed_receive tps this E_DELAY_vtable env csmEventSTARTID (s, ex, h) =
      Some (s', ex, registerOneShotTimedFB tps this (DT_of env s) h)" "timed_ok s'" "mActive s'"
    using START_DELAY [OF assms(1), of tps this env ex h] assms(2) by auto
  have "\<forall>h2. \<exists>s2. timed_receive tps this E_DELAY_vtable env csmEventSTARTID (s', ex, h2) =
      Some (s2, ex, h2)"
    using START_DELAY [OF s'(2), of tps this env ex] s'(3) by metis
  moreover have "chains_of this ((nextTick ^^ n) (registerOneShotTimedFB tps this (DT_of env s) h)) =
      chains_of this h + (if n < ticks_of tps env s then 0 else 1)"
    using assms(3-6) by (intro fresh_oneshot) (simp_all add: unat_eq_0)
  ultimately show ?thesis
    using s' by blast
qed

lemma E_DELAY_delays_witness:
  "\<exists>s' h'. timed_receive 1000 8 E_DELAY_vtable (\<lambda>_. 0) csmEventSTARTID
       (example_timed, None, new_CTimerHandler) = Some (s', None, h') \<and>
     chains_of 8 ((nextTick ^^ 6) h') = 1"
  using E_DELAY_delays [of example_timed new_CTimerHandler 8 1000 "\<lambda>_. 0" 6 None]
  by (auto simp: example_timed_ok new_timer_ok)

text \<open>A START of an inactive E_CYCLE starts its event chain every DT: after n ticks n div d
  times.\<close>

theorem E_CYCLE_cycles:
  assumes "timed_ok s" "\<not> mActive s" "timer_ok h" "scheduled this h = []"
    and "ticks_of tps env s \<noteq> 0" "unat (mForteTime h) + n + 2 ^ 32 < 2 ^ 64"
  shows "\<exists>s' h'. timed_receive tps this E_CYCLE_vtable env csmEventSTARTID (s, ex, h) = Some (s', ex, h') \<and>
    timed_ok s' \<and> mActive s' \<and>
    chains_of this ((nextTick ^^ n) h') = chains_of this h + n div ticks_of tps env s"
proof -
  have "chains_of this ((nextTick ^^ n) (registerPeriodicTimedFB tps this (DT_of env s) h)) =
      chains_of this h + n div ticks_of tps env s"
    using assms(3-6) by (intro fresh_periodic) (simp_all add: unat_eq_0)
  then show ?thesis
    using START_CYCLE [OF assms(1), of tps this env ex h] assms(2) by auto
qed

lemma E_CYCLE_cycles_witness:
  "\<exists>s' h'. timed_receive 1000 8 E_CYCLE_vtable (\<lambda>_. 0) csmEventSTARTID
       (example_timed, None, new_CTimerHandler) = Some (s', None, h') \<and>
     chains_of 8 ((nextTick ^^ 17) h') = 3"
  using E_CYCLE_cycles [of example_timed new_CTimerHandler 8 1000 "\<lambda>_. 0" 17 None]
  by (auto simp: example_timed_ok new_timer_ok)

text \<open>A STOP that arrives when the timer has taken up the registration ends it: from then on no
  tick starts the block, which is inactive.  This holds for all three timed blocks.\<close>

theorem STOP_stops:
  assumes "timed_ok s" "mActive s" "timer_ok h"
    and "\<forall>e \<in> set (mAddFBList h). mTimedFB e \<noteq> this"
    and "vt \<in> {E_CYCLE_vtable, E_DELAY_vtable, E_RDELAY_vtable}"
  shows "\<exists>s' h'. timed_receive tps this vt env csmEventSTOPID (s, ex, h) = Some (s', ex, h') \<and>
    \<not> mActive s' \<and> chains_of this ((nextTick ^^ n) h') = chains_of this h"
proof -
  obtain s' where "timed_receive tps this vt env csmEventSTOPID (s, ex, h) =
      Some (s', ex, unregisterTimedFB this h)" "\<not> mActive s'"
    using STOP_timed [OF assms(1,5), of tps this env ex h] assms(2) by auto
  moreover have "chains_of this ((nextTick ^^ n) (unregisterTimedFB this h)) = chains_of this h"
    using unscheduled_inv [of "unregisterTimedFB this h" this n] assms(3,4)
    by (simp add: scheduled_unregister filter_empty_conv)
  ultimately show ?thesis
    by blast
qed

lemma STOP_stops_witness:
  "\<exists>s' h'. timed_receive 1000 8 E_CYCLE_vtable (\<lambda>_. 0) csmEventSTOPID
       (example_timed\<lparr>mActive := True\<rparr>, None, new_CTimerHandler
         \<lparr>mTimedFBList := [\<lparr>mTimedFB = 8, mTimeOut = 3, mInterval = 4\<rparr>]\<rparr>) = Some (s', None, h') \<and>
     chains_of 8 ((nextTick ^^ 20) h') = 0"
  using STOP_stops [of "example_timed\<lparr>mActive := True\<rparr>" "new_CTimerHandler
         \<lparr>mTimedFBList := [\<lparr>mTimedFB = 8, mTimeOut = 3, mInterval = 4\<rparr>]\<rparr>" 8 E_CYCLE_vtable
      1000 "\<lambda>_. 0" None 20]
  by (auto simp: timed_ok_def example_timed_def new_CTimedFB_def timer_ok_def new_CTimerHandler_def
      chains_of_def)

text \<open>A STOP in the same tick as the START does not stop an E_CYCLE: the removal takes nothing
  from the list of new registrations, so the block goes on being started every DT although it is
  inactive, and a further STOP leaves the timer alone.\<close>

theorem E_CYCLE_early_stop_is_lost:
  assumes "timed_ok s" "\<not> mActive s" "timer_ok h" "scheduled this h = []"
    and "ticks_of tps env s \<noteq> 0" "unat (mForteTime h) + n + 2 ^ 32 < 2 ^ 64"
  shows "\<exists>s1 h1 s2 h2.
    timed_receive tps this E_CYCLE_vtable env csmEventSTARTID (s, ex, h) = Some (s1, ex, h1) \<and>
    timed_receive tps this E_CYCLE_vtable env csmEventSTOPID (s1, ex, h1) = Some (s2, ex, h2) \<and>
    \<not> mActive s2 \<and>
    chains_of this ((nextTick ^^ n) h2) = chains_of this h + n div ticks_of tps env s \<and>
    (\<forall>h3. \<exists>s3. timed_receive tps this E_CYCLE_vtable env csmEventSTOPID (s2, ex, h3) = Some (s3, ex, h3))"
proof -
  let ?h1 = "registerPeriodicTimedFB tps this (DT_of env s) h"
  obtain s1 where s1: "timed_receive tps this E_CYCLE_vtable env csmEventSTARTID (s, ex, h) =
      Some (s1, ex, ?h1)" "timed_ok s1" "mActive s1"
    using START_CYCLE [OF assms(1), of tps this env ex h] assms(2) by auto
  obtain s2 where s2: "timed_receive tps this E_CYCLE_vtable env csmEventSTOPID (s1, ex, ?h1) =
      Some (s2, ex, unregisterTimedFB this ?h1)" "timed_ok s2" "\<not> mActive s2"
    using STOP_timed [OF s1(2), of E_CYCLE_vtable tps this env ex ?h1] s1(3) by auto
  have s3: "\<forall>h3. \<exists>s3. timed_receive tps this E_CYCLE_vtable env csmEventSTOPID (s2, ex, h3) =
      Some (s3, ex, h3)"
    using STOP_timed [OF s2(2), of E_CYCLE_vtable tps this env ex] s2(3) by fastforce
  have "unregisterTimedFB this ?h1 =
      registerPeriodicTimedFB tps this (DT_of env s) (unregisterTimedFB this h)"
    by (simp add: registerPeriodicTimedFB_def addToAddFBList_def unregisterTimedFB_def Let_def)
  moreover have "scheduled this (unregisterTimedFB this h) = []"
    using assms(4) by (simp add: scheduled_unregister) (simp add: scheduled_def)
  ultimately have "chains_of this ((nextTick ^^ n) (unregisterTimedFB this ?h1)) =
      chains_of this h + n div ticks_of tps env s"
    using fresh_periodic [of "unregisterTimedFB this h" this tps "DT_of env s" n] assms(3,5,6)
    by (simp add: unat_eq_0)
  then show ?thesis
    using s1(1) s2(1,3) s3 by blast
qed

lemma E_CYCLE_early_stop_is_lost_witness:
  "\<exists>s1 h1 s2 h2.
     timed_receive 1000 8 E_CYCLE_vtable (\<lambda>_. 0) csmEventSTARTID
       (example_timed, None, new_CTimerHandler) = Some (s1, None, h1) \<and>
     timed_receive 1000 8 E_CYCLE_vtable (\<lambda>_. 0) csmEventSTOPID (s1, None, h1) = Some (s2, None, h2) \<and>
     \<not> mActive s2 \<and> chains_of 8 ((nextTick ^^ 17) h2) = 3"
  using E_CYCLE_early_stop_is_lost [of example_timed new_CTimerHandler 8 1000 "\<lambda>_. 0" 17 None]
  by (fastforce simp: example_timed_ok new_timer_ok)

text \<open>An active E_RDELAY whose delay the timer has taken up and not yet run out is retriggered by
  START: the old registration is dropped and its chain starts exactly once, a full delay after
  this START.\<close>

theorem E_RDELAY_retriggers:
  assumes "timed_ok s" "mActive s" "timer_ok h"
    and "\<forall>e \<in> set (mAddFBList h). mTimedFB e \<noteq> this"
    and "ticks_of tps env s \<noteq> 0" "unat (mForteTime h) + n + 2 ^ 32 < 2 ^ 64"
  shows "\<exists>s' h'. timed_receive tps this E_RDELAY_vtable env csmEventSTARTID (s, ex, h) = Some (s', ex, h') \<and>
    timed_ok s' \<and> mActive s' \<and>
    chains_of this ((nextTick ^^ n) h') = chains_of this h + (if n < ticks_of tps env s then 0 else 1)"
proof -
  let ?h = "unregisterTimedFB this h"
  have "scheduled this ?h = []"
    using assms(4) by (simp add: scheduled_unregister filter_empty_conv)
  then have "chains_of this ((nextTick ^^ n) (registerOneShotTimedFB tps this (DT_of env s) ?h)) =
      chains_of this ?h + (if n < ticks_of tps env s then 0 else 1)"
    using assms(3,5,6) by (intro fresh_oneshot) (simp_all add: unat_eq_0)
  then show ?thesis
    using START_RDELAY [OF assms(1), of tps this env ex h] assms(2) by auto
qed

lemma E_RDELAY_retriggers_witness:
  "\<exists>s' h'. timed_receive 1000 8 E_RDELAY_vtable (\<lambda>_. 0) csmEventSTARTID
       (example_timed\<lparr>mActive := True\<rparr>, None, new_CTimerHandler
         \<lparr>mTimedFBList := [\<lparr>mTimedFB = 8, mTimeOut = 3, mInterval = 0\<rparr>]\<rparr>) = Some (s', None, h') \<and>
     chains_of 8 ((nextTick ^^ 4) h') = 0"
proof -
  have "ticks_of 1000 (\<lambda>_. 0) (example_timed\<lparr>mActive := True\<rparr>) = 5"
    using example_timed_ok(3) by (simp add: DT_of_def example_timed_def new_CTimedFB_def
        CTimedFB_readInputData_def readData_def)
  then show ?thesis
    using E_RDELAY_retriggers [of "example_timed\<lparr>mActive := True\<rparr>" "new_CTimerHandler
         \<lparr>mTimedFBList := [\<lparr>mTimedFB = 8, mTimeOut = 3, mInterval = 0\<rparr>]\<rparr>" 8
        1000 "\<lambda>_. 0" 4 None]
    by (auto simp: timed_ok_def example_timed_def new_CTimedFB_def timer_ok_def new_CTimerHandler_def
        chains_of_def)
qed

end
