(* ===== verification/Asn1_Layer.thy ===== *)
theory Asn1_Layer
imports Iec_Any "HOL-Library.Signed_Division"
begin

text \<open>
  The encoding of IEC data for the network, \<open>core/src/cominfra/fbdkasn1layer.cpp\<close>: a tag byte and
  the value, most significant byte first.  Values are trees: elementary data in the 64-bit union,
  strings, arrays (with lower bound 0), structures and ANY variables.  Wide strings are not modelled.
  The machine is little-endian.

  A serialisation function appends to the bytes written so far, \<open>out\<close>, and answers \<open>None\<close> where the
  code returns -1; the code's return value is the number of bytes appended.  The value of a BOOL is
  written into its tag, the last byte of \<open>out\<close>.  A deserialisation function gets the bytes from the
  read position to the end of what was received and returns the code's return value and the new data.
  \<open>None\<close> there means that the code leaves its memory: it reads behind the bytes it was given or in an
  array without elements, or it copies between overlapping parts of its buffer.
\<close>

section \<open>Data\<close>

type_synonym byte = "8 word"

datatype iec_data =
    Elem EDataTypeID cell
  | Str "byte list"
  | Arr "iec_data list"
  | Struct byte "iec_data list"
  | AnyV iec_data

fun getDataTypeID :: "iec_data \<Rightarrow> EDataTypeID" where
  "getDataTypeID (Elem t c) = t"
| "getDataTypeID (Str s) = e_STRING"
| "getDataTypeID (Arr xs) = e_ARRAY"
| "getDataTypeID (Struct tg ms) = e_STRUCT"
| "getDataTypeID (AnyV d) = e_ANY"

text \<open>\<open>csmDataTags\<close>: the tag and the size with the tag (255: unknown), in the order of the type
  identifiers.  Application tags are 64 plus the number, constructed ones 96 plus the number.\<close>

definition csmDataTags :: "(byte \<times> byte) list" where
  "csmDataTags =
     [(64, 255), (65, 1), (66, 2), (67, 3), (68, 5), (69, 9), (70, 2), (71, 3), (72, 5), (73, 9),
      (81, 2), (82, 3), (83, 5), (84, 9), (77, 9), (78, 9), (79, 9), (76, 9), (87, 2), (88, 3),
      (89, 9), (90, 9), (91, 9), (92, 9), (74, 5), (75, 9), (80, 255), (85, 255), (122, 255),
      (123, 255), (124, 255), (125, 255), (118, 255), (127, 255)]"

definition data_tag :: "EDataTypeID \<Rightarrow> byte" where
  "data_tag t = fst (csmDataTags ! type_id t)"

definition value_size :: "EDataTypeID \<Rightarrow> nat" where
  "value_size t = unat (snd (csmDataTags ! type_id t)) - 1"

definition scmSimpleEncodableDataTypes :: "EDataTypeID list" where
  "scmSimpleEncodableDataTypes =
     [e_SINT, e_INT, e_DINT, e_LINT, e_USINT, e_UINT, e_UDINT, e_ULINT, e_BYTE, e_WORD,
      e_DWORD, e_LWORD, e_DATE, e_TIME_OF_DAY, e_DATE_AND_TIME, e_CHAR, e_WCHAR, e_LDATE,
      e_LTIME_OF_DAY, e_LDATE_AND_TIME, e_REAL, e_LREAL]"

text \<open>The bytes of the union in memory order, and the union with some of its first bytes replaced.\<close>

definition get_byte :: "nat \<Rightarrow> cell \<Rightarrow> byte" where
  "get_byte i c = ucast (drop_bit (8 * i) c)"

definition put_byte :: "nat \<Rightarrow> byte \<Rightarrow> cell \<Rightarrow> cell" where
  "put_byte i b c = (c AND NOT (push_bit (8 * i) 255)) OR push_bit (8 * i) (ucast b)"

text \<open>The n low bytes, most significant first.\<close>

definition be_bytes :: "nat \<Rightarrow> cell \<Rightarrow> byte list" where
  "be_bytes n c = map (\<lambda>i. get_byte (n - 1 - i) c) [0..<n]"

section \<open>Serialisation\<close>

fun serializeTag :: "iec_data \<Rightarrow> byte" where
  "serializeTag (AnyV d) = serializeTag d"
| "serializeTag (Struct tg ms) = tg"
| "serializeTag (Elem t c) = data_tag t"
| "serializeTag (Str s) = data_tag e_STRING"
| "serializeTag (Arr xs) = data_tag e_ARRAY"

definition serializeValueSimpleDataType ::
    "byte list \<Rightarrow> int \<Rightarrow> EDataTypeID \<Rightarrow> cell \<Rightarrow> byte list option" where
  "serializeValueSimpleDataType out paStreamSize t c =
     (let n = value_size t in if int n \<le> paStreamSize then Some (out @ be_bytes n c) else None)"

definition getInMicroSeconds :: "cell \<Rightarrow> cell" where
  "getInMicroSeconds c = word_of_int (sint c sdiv 1000)"

definition setFromMicroSeconds :: "cell \<Rightarrow> cell" where
  "setFromMicroSeconds v = v * 1000"

definition serializeValueTime :: "byte list \<Rightarrow> int \<Rightarrow> cell \<Rightarrow> byte list option" where
  "serializeValueTime out paStreamSize c =
     (if 8 \<le> paStreamSize then Some (out @ be_bytes 8 (getInMicroSeconds c)) else None)"

text \<open>The two length bytes of a 16-bit length.\<close>

definition length_bytes :: "nat \<Rightarrow> byte list" where
  "length_bytes n = [word_of_nat (n div 256), word_of_nat n]"

definition serializeValueString :: "byte list \<Rightarrow> int \<Rightarrow> byte list \<Rightarrow> byte list option" where
  "serializeValueString out paStreamSize s =
     (let unStringLen = length s mod 65536
      in if int unStringLen + 2 \<le> paStreamSize
         then Some (out @ length_bytes unStringLen @ take unStringLen s) else None)"

text \<open>\<open>ser_elems\<close> and \<open>ser_bools\<close> are the two loops of \<open>serializeArray\<close>, \<open>ser_members\<close> that of
  \<open>serializeValueStruct\<close>.  The calls of \<open>serializeDataPoint\<close> in the last two are written out.  The
  code reads the first element of an array before it looks at the length; for an empty array this
  is an access outside the array, which the model answers with \<open>None\<close>.  \<open>None\<close> says that the call does
  not succeed: \<open>serializeArray\<close> has then written the length and the tag of the elements even where the
  buffer has no room for them.\<close>

fun ser_value :: "byte list \<Rightarrow> int \<Rightarrow> iec_data \<Rightarrow> byte list option"
  and ser_elems :: "byte list \<Rightarrow> int \<Rightarrow> iec_data list \<Rightarrow> byte list option"
  and ser_bools :: "byte list \<Rightarrow> int \<Rightarrow> iec_data list \<Rightarrow> byte list option"
  and ser_members :: "byte list \<Rightarrow> int \<Rightarrow> iec_data list \<Rightarrow> byte list option" where
  "ser_value out n (Elem t c) =
     (if (type_id e_BOOL < type_id t \<and> type_id t \<le> type_id e_DATE_AND_TIME) \<or> t = e_REAL \<or> t = e_LREAL
      then serializeValueSimpleDataType out n t c
      else if t = e_BOOL
      then Some (if \<not> BOOL_value c then butlast out @ [last out - 1] else out)
      else if t = e_TIME then serializeValueTime out n c
      else None)"
| "ser_value out n (Str s) = serializeValueString out n s"
| "ser_value out n (Arr xs) =
     (case xs of [] \<Rightarrow> None
      | x # _ \<Rightarrow>
          let out = out @ length_bytes (length xs) in
          if getDataTypeID x = e_BOOL then ser_bools out (n - 2) xs
          else ser_elems (out @ [serializeTag x]) (n - 3) xs)"
| "ser_value out n (Struct tg ms) = ser_members out n ms"
| "ser_value out n (AnyV d) = ser_value out n d"
| "ser_elems out n [] = Some out"
| "ser_elems out n (x # xs) =
     (case ser_value out n x of None \<Rightarrow> None
      | Some out' \<Rightarrow> ser_elems out' (n - (int (length out') - int (length out))) xs)"
| "ser_bools out n [] = Some out"
| "ser_bools out n (x # xs) =
     (case (if 0 < n then ser_value (out @ [serializeTag x]) (n - 1) x else None) of None \<Rightarrow> None
      | Some out' \<Rightarrow> ser_bools out' (n - (int (length out') - int (length out))) xs)"
| "ser_members out n [] = Some out"
| "ser_members out n (x # xs) =
     (case (if getDataTypeID x = e_BOOL
            then (if 0 < n then ser_value (out @ [serializeTag x]) (n - 1) x else None)
            else ser_value out n x) of None \<Rightarrow> None
      | Some out' \<Rightarrow> ser_members out' (n - (int (length out') - int (length out))) xs)"

definition serializeDataPoint :: "byte list \<Rightarrow> int \<Rightarrow> iec_data \<Rightarrow> byte list option" where
  "serializeDataPoint out paStreamSize d =
     (if 0 < paStreamSize then ser_value (out @ [serializeTag d]) (paStreamSize - 1) d else None)"

fun ser_points :: "byte list \<Rightarrow> int \<Rightarrow> iec_data list \<Rightarrow> byte list option" where
  "ser_points out n [] = Some out"
| "ser_points out n (d # ds) =
     (case serializeDataPoint out n d of None \<Rightarrow> None
      | Some out' \<Rightarrow>
          if length out < length out'
          then ser_points out' (n - (int (length out') - int (length out))) ds else None)"

definition serializeDataPointArray :: "nat \<Rightarrow> iec_data list \<Rightarrow> byte list option" where
  "serializeDataPointArray paStreamSize ds =
     (if ds = [] then (if paStreamSize > 0 then Some [5] else None)
      else if paStreamSize > 2147483647 then None
      else ser_points [] (int paStreamSize) ds)"

fun getRequiredSerializationSize :: "iec_data \<Rightarrow> nat" where
  "getRequiredSerializationSize (AnyV d) = getRequiredSerializationSize d"
| "getRequiredSerializationSize (Str s) = length s mod 65536 + 3"
| "getRequiredSerializationSize (Arr xs) =
     (if xs \<noteq> [] \<and> getDataTypeID (hd xs) = e_BOOL then 3 + length xs
      else 3 + sum_list (map getRequiredSerializationSize xs) + 1 - length xs)"
| "getRequiredSerializationSize (Elem t c) = unat (snd (csmDataTags ! type_id t))"
| "getRequiredSerializationSize (Struct tg ms) = unat (snd (csmDataTags ! type_id e_STRUCT))"

section \<open>Deserialisation\<close>

fun deserializeTag :: "byte \<Rightarrow> iec_data \<Rightarrow> bool \<times> iec_data" where
  "deserializeTag b (AnyV d) = map_prod id AnyV (deserializeTag b d)"
| "deserializeTag b (Elem t c) =
     (if t = e_BOOL
      then (if b = 64 \<or> b = 65 then (True, Elem e_BOOL (setTBOOL8 (data_tag e_BOOL = b)))
            else (False, Elem t c))
      else (data_tag t = b, Elem t c))"
| "deserializeTag b (Struct tg ms) = (tg = b, Struct tg ms)"
| "deserializeTag b (Str s) = (data_tag e_STRING = b, Str s)"
| "deserializeTag b (Arr xs) = (data_tag e_ARRAY = b, Arr xs)"

definition deserializeValueSimpleDataType ::
    "byte list \<Rightarrow> EDataTypeID \<Rightarrow> cell \<Rightarrow> int \<times> cell" where
  "deserializeValueSimpleDataType bs t c =
     (let n = value_size t in
      if n \<le> length bs
      then let c0 = (if type_id t \<le> type_id e_DINT \<and> hd bs AND 0x80 \<noteq> 0 then - 1 else 0 :: cell)
           in (int n, fold (\<lambda>i c. put_byte i (bs ! (n - 1 - i)) c) [0..<n] c0)
      else (- 1, c))"

definition deserializeValueTime :: "byte list \<Rightarrow> cell \<Rightarrow> int \<times> cell" where
  "deserializeValueTime bs c =
     (if 8 \<le> length bs
      then (8, setFromMicroSeconds (sum_list (map (\<lambda>i.
              push_bit (56 - 8 * i) (ucast (bs ! i)) AND push_bit (56 - 8 * i) 255) [0..<8])))
      else (- 1, c))"

definition length_of_bytes :: "byte \<Rightarrow> byte \<Rightarrow> nat" where
  "length_of_bytes hi lo = 256 * unat hi + unat lo"

definition deserializeValueString :: "byte list \<Rightarrow> byte list \<Rightarrow> int \<times> byte list" where
  "deserializeValueString bs s =
     (case bs of hi # lo # rest \<Rightarrow>
        let unStringSize = length_of_bytes hi lo in
        if unStringSize \<le> length rest then (2 + int unStringSize, take unStringSize rest) else (- 1, s)
      | _ \<Rightarrow> (- 1, s))"

text \<open>\<open>deserializeDataPoint\<close> on a BOOL, whose value is in the tag.\<close>

definition deserializeBoolPoint :: "byte list \<Rightarrow> iec_data \<Rightarrow> int \<times> iec_data" where
  "deserializeBoolPoint bs d =
     (case bs of [] \<Rightarrow> (- 1, d)
      | b # _ \<Rightarrow>
          if b AND 64 = 64
          then (case deserializeTag b d of (ok, d') \<Rightarrow> (if ok then 1 else - 2, d'))
          else (- 1, d))"

fun deserializeValueBoolArray ::
    "byte list \<Rightarrow> int \<Rightarrow> nat \<Rightarrow> iec_data list \<Rightarrow> int \<times> iec_data list" where
  "deserializeValueBoolArray bs r 0 xs = (r, xs)"
| "deserializeValueBoolArray bs r (Suc m) [] =
     (case deserializeBoolPoint bs (Elem e_BOOL 0) of (n, _) \<Rightarrow>
        if n \<le> 0 then (n, []) else deserializeValueBoolArray (drop (nat n) bs) (r + n) m [])"
| "deserializeValueBoolArray bs r (Suc m) (x # xs) =
     (case deserializeBoolPoint bs x of (n, x') \<Rightarrow>
        if n \<le> 0 then (n, x' # xs)
        else map_prod id ((#) x') (deserializeValueBoolArray (drop (nat n) bs) (r + n) m xs))"

fun depth :: "iec_data \<Rightarrow> nat" and depths :: "iec_data list \<Rightarrow> nat" where
  "depth (Elem t c) = 0"
| "depth (Str s) = 0"
| "depth (Arr xs) = Suc (depths xs)"
| "depth (Struct tg ms) = Suc (depths ms)"
| "depth (AnyV d) = Suc (depth d)"
| "depths [] = 0"
| "depths (x # xs) = max (depth x) (depths xs)"

lemma depth_deserializeTag [simp]: "deserializeTag b d = (ok, d') \<Longrightarrow> depth d' = depth d"
  by (induction b d arbitrary: ok d' rule: deserializeTag.induct)
    (auto simp: map_prod_def split: if_splits prod.splits)

text \<open>\<open>deser_elems\<close> is the element loop of \<open>deserializeArray\<close>; elements the array has no room for are
  read into a copy of its first element, which only contributes its type.  The code reads the tag of
  the elements without looking at the size left, and the type of the first element without looking
  at the size of the array: at the end of the bytes, and for an array of size zero, the result is
  \<open>None\<close>.  \<open>deser_members\<close> is the loop of \<open>deserializeValueStruct\<close>.\<close>

function deser_value :: "byte list \<Rightarrow> iec_data \<Rightarrow> (int \<times> iec_data) option"
  and deser_elems ::
    "byte list \<Rightarrow> int \<Rightarrow> nat \<Rightarrow> iec_data \<Rightarrow> iec_data list \<Rightarrow> (int \<times> iec_data list) option"
  and deser_members :: "byte list \<Rightarrow> int \<Rightarrow> iec_data list \<Rightarrow> (int \<times> iec_data list) option" where
  "deser_value bs (Elem t c) = Some
     (if t \<in> set scmSimpleEncodableDataTypes
      then map_prod id (Elem t) (deserializeValueSimpleDataType bs t c)
      else if t = e_BOOL then (0, Elem t c)
      else if t = e_TIME \<or> t = e_LTIME then map_prod id (Elem t) (deserializeValueTime bs c)
      else (- 1, Elem t c))"
| "deser_value bs (Str s) = Some (map_prod id Str (deserializeValueString bs s))"
| "deser_value bs (Arr xs) =
     (case bs of hi # lo # rest \<Rightarrow>
        if length_of_bytes hi lo = 0 then Some (2, Arr xs)
        else (case xs of [] \<Rightarrow> None
          | x0 # ys \<Rightarrow>
              if getDataTypeID x0 = e_BOOL
              then (case deserializeValueBoolArray rest 0 (length_of_bytes hi lo) xs of (n, xs') \<Rightarrow>
                      Some (if 0 \<le> n then 2 + n else n, Arr xs'))
              else (case rest of [] \<Rightarrow> None
                | t # bs' \<Rightarrow>
                    (case deserializeTag t x0 of (ok, x0') \<Rightarrow>
                       if ok
                       then map_option (map_prod id Arr)
                              (deser_elems bs' 3 (length_of_bytes hi lo) x0' (x0' # ys))
                       else Some (- 1, Arr (x0' # ys)))))
      | _ \<Rightarrow> Some (- 1, Arr xs))"
| "deser_value bs (Struct tg ms) = map_option (map_prod id (Struct tg)) (deser_members bs 0 ms)"
| "deser_value bs (AnyV d) = map_option (map_prod id AnyV) (deser_value bs d)"
| "deser_elems bs r 0 x0 xs = Some (r, xs)"
| "deser_elems bs r (Suc m) x0 [] =
     (case deser_value bs x0 of None \<Rightarrow> None
      | Some (n, _) \<Rightarrow>
          if n \<le> 0 then Some (n, []) else deser_elems (drop (nat n) bs) (r + n) m x0 [])"
| "deser_elems bs r (Suc m) x0 (x # xs) =
     (case deser_value bs x of None \<Rightarrow> None
      | Some (n, x') \<Rightarrow>
          if n \<le> 0 then Some (n, x' # xs)
          else map_option (map_prod id ((#) x')) (deser_elems (drop (nat n) bs) (r + n) m x0 xs))"
| "deser_members bs r [] = Some (r, [])"
| "deser_members bs r (x # xs) =
     (case (if getDataTypeID x = e_BOOL then Some (deserializeBoolPoint bs x)
            else deser_value bs x) of None \<Rightarrow> None
      | Some (n, x') \<Rightarrow>
          if n \<le> 0 then Some (n, x' # xs)
          else map_option (map_prod id ((#) x')) (deser_members (drop (nat n) bs) (r + n) xs))"
  by pat_completeness auto

termination
  by (relation "measures
        [case_sum (\<lambda>(bs, d). depth d)
           (case_sum (\<lambda>(bs, r, m, x0, xs). max (depth x0) (depths xs)) (\<lambda>(bs, r, xs). depths xs)),
         case_sum (\<lambda>_. 0) (\<lambda>_. 1),
         case_sum (\<lambda>_. 0) (case_sum (\<lambda>(bs, r, m, x0, xs). m) (\<lambda>(bs, r, xs). length xs))]")
    (auto simp: less_Suc_eq_le dest!: depth_deserializeTag [OF sym])

definition deserializeDataPoint :: "byte list \<Rightarrow> iec_data \<Rightarrow> (int \<times> iec_data) option" where
  "deserializeDataPoint bs d =
     (case bs of [] \<Rightarrow> Some (- 1, d)
      | b # bs' \<Rightarrow>
          if b AND 64 = 64
          then (case deserializeTag b d of (ok, d') \<Rightarrow>
                  if ok then map_option (map_prod (\<lambda>n. n + 1) id) (deser_value bs' d')
                  else Some (- 2, d'))
          else Some (- 1, d))"

fun deserializeDataPoints :: "byte list \<Rightarrow> iec_data list \<Rightarrow> (bool \<times> iec_data list) option" where
  "deserializeDataPoints bs [] = Some (True, [])"
| "deserializeDataPoints bs (d # ds) =
     (case deserializeDataPoint bs d of None \<Rightarrow> None
      | Some (n, d') \<Rightarrow>
          if n \<le> 0 then Some (False, d' # ds)
          else map_option (map_prod id ((#) d')) (deserializeDataPoints (drop (nat n) bs) ds))"

definition deserializeDataPointArray ::
    "byte list \<Rightarrow> iec_data list \<Rightarrow> (bool \<times> iec_data list) option" where
  "deserializeDataPointArray bs ds =
     (if ds = [] then Some (bs = [5], []) else deserializeDataPoints bs ds)"


section \<open>What values are encoded, and how\<close>

text \<open>\<open>encodable\<close>: the values the serialiser handles.  Elements of arrays and members of structures
  are not ANY variables; arrays are not empty, of one type, and have at most 65535 elements;
  structures have members and a tag of the application class.\<close>

definition simple :: "EDataTypeID \<Rightarrow> bool" where
  "simple t \<longleftrightarrow>
     (type_id e_BOOL < type_id t \<and> type_id t \<le> type_id e_DATE_AND_TIME) \<or> t = e_REAL \<or> t = e_LREAL"

fun is_AnyV :: "iec_data \<Rightarrow> bool" where
  "is_AnyV (AnyV d) = True"
| "is_AnyV d = False"

fun shape :: "iec_data \<Rightarrow> iec_data" where
  "shape (Elem t c) = Elem t 0"
| "shape (Str s) = Str []"
| "shape (Arr xs) = Arr (map shape xs)"
| "shape (Struct tg ms) = Struct tg (map shape ms)"
| "shape (AnyV d) = AnyV (shape d)"

fun encodable :: "iec_data \<Rightarrow> bool" where
  "encodable (Elem t c) \<longleftrightarrow> simple t \<or> t = e_BOOL \<or> t = e_TIME"
| "encodable (Str s) \<longleftrightarrow> length s < 65536"
| "encodable (Arr xs) \<longleftrightarrow> xs \<noteq> [] \<and> length xs < 65536 \<and>
     (\<forall>x\<in>set xs. encodable x \<and> \<not> is_AnyV x \<and> shape x = shape (hd xs))"
| "encodable (Struct tg ms) \<longleftrightarrow> ms \<noteq> [] \<and> tg AND 64 = 64 \<and>
     (\<forall>x\<in>set ms. encodable x \<and> \<not> is_AnyV x)"
| "encodable (AnyV d) \<longleftrightarrow> encodable d"

text \<open>The encoding: the tag, the length where it varies, the bytes of the values.\<close>

fun enc_tag :: "iec_data \<Rightarrow> byte" where
  "enc_tag (Elem t c) = (if t = e_BOOL then (if BOOL_value c then 65 else 64) else data_tag t)"
| "enc_tag (AnyV d) = enc_tag d"
| "enc_tag d = serializeTag d"

fun enc_value :: "iec_data \<Rightarrow> byte list" where
  "enc_value (Elem t c) =
     (if t = e_BOOL then [] else if t = e_TIME then be_bytes 8 (getInMicroSeconds c)
      else be_bytes (value_size t) c)"
| "enc_value (Str s) = length_bytes (length s) @ s"
| "enc_value (Arr xs) = length_bytes (length xs) @
     (if getDataTypeID (hd xs) = e_BOOL then map enc_tag xs
      else serializeTag (hd xs) # concat (map enc_value xs))"
| "enc_value (Struct tg ms) =
     concat (map (\<lambda>m. if getDataTypeID m = e_BOOL then [enc_tag m] else enc_value m) ms)"
| "enc_value (AnyV d) = enc_value d"

definition enc_point :: "iec_data \<Rightarrow> byte list" where
  "enc_point d = enc_tag d # enc_value d"

text \<open>\<open>exact\<close>: the values a round trip keeps.  A variable of a short type holds the extension of its
  value, a BOOL holds 0 or 1, a TIME is a whole number of microseconds.\<close>

fun exact :: "iec_data \<Rightarrow> bool" where
  "exact (Elem t c) \<longleftrightarrow>
     (if t = e_BOOL then c = 0 \<or> c = 1
      else if t = e_TIME then 1000 dvd sint c
      else if type_id t \<le> type_id e_DINT then c = signed_take_bit (8 * value_size t - 1) c
      else c = take_bit (8 * value_size t) c)"
| "exact (Str s) \<longleftrightarrow> True"
| "exact (Arr xs) \<longleftrightarrow> (\<forall>x\<in>set xs. exact x)"
| "exact (Struct tg ms) \<longleftrightarrow> (\<forall>x\<in>set ms. exact x)"
| "exact (AnyV d) \<longleftrightarrow> exact d"

section \<open>The serialiser writes the encoding\<close>

lemma length_be_bytes [simp]: "length (be_bytes n c) = n"
  by (simp add: be_bytes_def)

lemma length_length_bytes [simp]: "length (length_bytes n) = 2"
  by (simp add: length_bytes_def)

lemma simple_value_size: "simple t \<Longrightarrow> 0 < value_size t \<and> value_size t \<le> 8"
  by (cases t) (simp_all add: simple_def value_size_def csmDataTags_def)

lemma simple_not [simp]: "\<not> simple e_BOOL" "\<not> simple e_TIME"
  by (simp_all add: simple_def)

lemma shape_getDataTypeID: "shape x = shape y \<Longrightarrow> getDataTypeID x = getDataTypeID y"
  by (cases x; cases y) auto

lemma bool_cases: "getDataTypeID x = e_BOOL \<Longrightarrow> \<exists>c. x = Elem e_BOOL c"
  by (cases x) auto

lemma ser_value_simple [simp]:
  "ser_value out n (Elem t c) =
     (if simple t then serializeValueSimpleDataType out n t c
      else if t = e_BOOL
      then Some (if \<not> BOOL_value c then butlast out @ [last out - 1] else out)
      else if t = e_TIME then serializeValueTime out n c
      else None)"
  by (simp add: simple_def)

lemma encodable_Arr:
  assumes "encodable (Arr xs)"
  shows Arr_size: "xs \<noteq> []" "length xs < 65536"
    and Arr_elem: "x \<in> set xs \<Longrightarrow> encodable x" "x \<in> set xs \<Longrightarrow> \<not> is_AnyV x"
      "x \<in> set xs \<Longrightarrow> shape x = shape (hd xs)"
      "x \<in> set xs \<Longrightarrow> getDataTypeID x = getDataTypeID (hd xs)"
  using assms unfolding encodable.simps by (blast intro: shape_getDataTypeID)+

declare ser_value.simps(1) [simp del] encodable.simps(3) [simp del]

lemma ser_bool_point:
  "getDataTypeID x = e_BOOL \<Longrightarrow> ser_value (out @ [serializeTag x]) n x = Some (out @ [enc_tag x])"
  by (auto dest!: bool_cases simp: data_tag_def csmDataTags_def)

lemma enc_value_nonempty:
  "encodable d \<Longrightarrow> \<not> is_AnyV d \<Longrightarrow> getDataTypeID d \<noteq> e_BOOL \<Longrightarrow> enc_value d \<noteq> []"
proof (induction d)
  case (Elem t c)
  then show ?case
    using simple_value_size [of t] by (auto simp: be_bytes_def)
next
  case (Struct tg ms)
  then obtain m ms' where ms: "ms = m # ms'"
    by (cases ms) auto
  show ?case
  proof (cases "getDataTypeID m = e_BOOL")
    case False
    then have "enc_value m \<noteq> []"
      using Struct ms by simp
    then show ?thesis
      using False ms by simp
  qed (simp add: ms)
qed (simp_all add: length_bytes_def)

lemma ser_bools_enc:
  "\<forall>x\<in>set xs. getDataTypeID x = e_BOOL \<Longrightarrow>
   ser_bools out n xs =
     (if xs = [] \<or> int (length xs) \<le> n then Some (out @ map enc_tag xs) else None)"
  by (induction xs arbitrary: out n) (auto simp: ser_bool_point)

lemma ser_elems_enc:
  assumes "\<And>x out n. x \<in> set xs \<Longrightarrow>
     ser_value out n x =
       (if int (length (enc_value x)) \<le> n then Some (out @ enc_value x) else None)"
  shows "ser_elems out n xs =
     (if xs = [] \<or> int (length (concat (map enc_value xs))) \<le> n
      then Some (out @ concat (map enc_value xs)) else None)"
  using assms by (induction xs arbitrary: out n) auto

lemma ser_members_enc:
  assumes "\<And>x out n. x \<in> set ms \<Longrightarrow> getDataTypeID x \<noteq> e_BOOL \<Longrightarrow>
     ser_value out n x =
       (if int (length (enc_value x)) \<le> n then Some (out @ enc_value x) else None)"
  shows "ser_members out n ms =
     (if ms = [] \<or> int (length (enc_value (Struct tg ms))) \<le> n
      then Some (out @ enc_value (Struct tg ms)) else None)"
  using assms by (induction ms arbitrary: out n) (auto simp: ser_bool_point)

lemma ser_value_enc:
  "encodable d \<Longrightarrow> \<not> is_AnyV d \<Longrightarrow> getDataTypeID d \<noteq> e_BOOL \<Longrightarrow>
   ser_value out n d = (if int (length (enc_value d)) \<le> n then Some (out @ enc_value d) else None)"
proof (induction d arbitrary: out n)
  case (Elem t c)
  then show ?case
    by (auto simp: serializeValueSimpleDataType_def serializeValueTime_def Let_def split: if_splits)
next
  case (Str s)
  then show ?case
    by (auto simp: serializeValueString_def Let_def)
next
  case (Arr xs)
  then obtain x ys where xs: "xs = x # ys"
    by (cases xs) (auto dest: Arr_size)
  note same = Arr_elem [OF Arr.prems(1), unfolded xs list.sel]
  show ?case
  proof (cases "getDataTypeID x = e_BOOL")
    case True
    then have "\<forall>y\<in>set xs. getDataTypeID y = e_BOOL"
      using same(4) xs by metis
    then show ?thesis
      using True ser_bools_enc [of xs "out @ length_bytes (length xs)" "n - 2"]
      by (simp add: xs Let_def del: ser_bools.simps)
  next
    case False
    then have *: "ser_elems out n xs =
       (if xs = [] \<or> int (length (concat (map enc_value xs))) \<le> n
        then Some (out @ concat (map enc_value xs)) else None)" for out n
      using Arr.IH same(1,2,4) False xs by (intro ser_elems_enc) metis
    show ?thesis
      using False *[of "out @ length_bytes (length xs) @ [serializeTag x]" "n - 3"]
      by (simp add: xs Let_def del: ser_elems.simps)
  qed
next
  case (Struct tg ms)
  then have "ser_members out n ms =
     (if ms = [] \<or> int (length (enc_value (Struct tg ms))) \<le> n
      then Some (out @ enc_value (Struct tg ms)) else None)"
    by (intro ser_members_enc) auto
  then show ?case
    using Struct.prems by simp
qed auto

lemma serializeDataPoint_enc:
  "encodable d \<Longrightarrow> serializeDataPoint out n d =
     (if int (length (enc_point d)) \<le> n then Some (out @ enc_point d) else None)"
proof -
  have unwrap: "encodable d \<Longrightarrow> 0 < n \<Longrightarrow> ser_value (out @ [serializeTag d]) (n - 1) d =
     (if int (length (enc_point d)) \<le> n then Some (out @ enc_point d) else None)"
  proof (induction d)
    case (AnyV d)
    then show ?case
      by (simp add: enc_point_def)
  next
    case (Elem t c)
    then show ?case
      using ser_bool_point [of "Elem t c"] ser_value_enc [of "Elem t c"]
      by (cases "t = e_BOOL") (simp_all add: enc_point_def)
  qed (simp_all add: enc_point_def ser_value_enc del: ser_value.simps enc_value.simps)
  then show "encodable d \<Longrightarrow> ?thesis"
    by (cases "0 < n") (simp_all add: serializeDataPoint_def enc_point_def)
qed

lemma ser_points_enc:
  "\<forall>d\<in>set ds. encodable d \<Longrightarrow> ser_points out n ds =
     (if ds = [] \<or> int (length (concat (map enc_point ds))) \<le> n
      then Some (out @ concat (map enc_point ds)) else None)"
  by (induction ds arbitrary: out n) (auto simp: serializeDataPoint_enc enc_point_def)

section \<open>Sending\<close>

datatype EComResponse =
    e_Nothing | e_InitOk | e_ProcessDataOk | e_InitInvalidId | e_InitTerminated
  | e_ProcessDataInvalidObject | e_ProcessDataDataTypeError | e_ProcessDataInhibited
  | e_ProcessDataNoSocket | e_ProcessDataSendFailed | e_ProcessDataRecvFaild

text \<open>The bottom layer is an argument: \<open>None\<close> when there is none, else its answer to the bytes it is
  sent.  The result holds the bytes that were sent.  Which of its two buffers the code uses does not
  matter: the size it passes on is the required one.\<close>

definition sendData ::
    "(byte list \<Rightarrow> EComResponse) option \<Rightarrow> iec_data list \<Rightarrow> EComResponse \<times> byte list option" where
  "sendData mBottomLayer sds =
     (case mBottomLayer of None \<Rightarrow> (e_ProcessDataNoSocket, None)
      | Some send \<Rightarrow>
          let unNeededBufferSize =
            (if sds = [] then 1 else 0) + sum_list (map getRequiredSerializationSize sds)
          in case serializeDataPointArray unNeededBufferSize sds of
               Some bs \<Rightarrow> if bs \<noteq> [] then (send bs, Some bs) else (e_ProcessDataDataTypeError, None)
             | None \<Rightarrow> (e_ProcessDataDataTypeError, None))"

text \<open>Every structure in the value, as far as arrays and ANY variables lead to it, takes at most the
  255 bytes \<open>csmDataTags\<close> holds for structures.\<close>

fun small_structs :: "iec_data \<Rightarrow> bool" where
  "small_structs (Arr xs) \<longleftrightarrow> (\<forall>x\<in>set xs. small_structs x)"
| "small_structs (AnyV d) \<longleftrightarrow> small_structs d"
| "small_structs (Struct tg ms) \<longleftrightarrow> length (enc_point (Struct tg ms)) \<le> 255"
| "small_structs d \<longleftrightarrow> True"

lemma required_pos: "encodable d \<Longrightarrow> 1 \<le> getRequiredSerializationSize d"
proof (induction d)
  case (Elem t c)
  then show ?case
    by (cases t) (simp_all add: simple_def csmDataTags_def)
next
  case (Arr xs)
  then have "x \<in> set xs \<Longrightarrow> 1 \<le> getRequiredSerializationSize x" for x
    by (blast intro: Arr_elem)
  then have "sum_list (map (\<lambda>_. 1) xs) \<le> sum_list (map getRequiredSerializationSize xs)"
    by (intro sum_list_mono) auto
  then show ?case
    by (simp add: sum_list_triv) linarith
qed (simp_all add: csmDataTags_def)

lemma data_size:
  "simple t \<or> t = e_TIME \<Longrightarrow>
   unat (snd (csmDataTags ! type_id t)) = Suc (if t = e_TIME then 8 else value_size t)"
  by (cases t) (simp_all add: simple_def csmDataTags_def value_size_def)

lemma bool_size: "unat (snd (csmDataTags ! Suc 0)) = 1"
  by (simp add: csmDataTags_def)

lemma required_suffices:
  "encodable d \<Longrightarrow> small_structs d \<Longrightarrow> length (enc_point d) \<le> getRequiredSerializationSize d"
proof (induction d)
  case (Elem t c)
  then show ?case
    using data_size [of t] by (auto simp: enc_point_def bool_size)
next
  case (Arr xs)
  note elem = Arr_elem [OF Arr.prems(1)]
  show ?case
  proof (cases "getDataTypeID (hd xs) = e_BOOL")
    case True
    then show ?thesis
      using Arr_size [OF Arr.prems(1)] by (simp add: enc_point_def)
  next
    case False
    have "length (concat (map enc_value xs)) + length xs = sum_list (map (length \<circ> enc_point) xs)"
      by (induction xs) (simp_all add: enc_point_def)
    also have "\<dots> \<le> sum_list (map getRequiredSerializationSize xs)"
      using Arr.IH elem(1) Arr.prems(2) by (intro sum_list_mono) auto
    finally show ?thesis
      using False Arr_size [OF Arr.prems(1)] by (simp add: enc_point_def)
  qed
next
  case (Struct tg ms)
  then show ?case
    by (simp add: csmDataTags_def)
qed (simp_all add: enc_point_def)

section \<open>Reading bytes back\<close>

lemma bit_put_byte:
  assumes "i < 8"
  shows "bit (put_byte i b c) k \<longleftrightarrow> (if k div 8 = i then bit b (k mod 8) else bit c k)"
proof -
  have "bit (255 :: 64 word) m \<longleftrightarrow> m < 8" for m
  proof -
    have eq: "(255 :: 64 word) = mask 8"
      by (simp add: mask_eq_exp_minus_1)
    show ?thesis
      unfolding eq by (auto simp: bit_mask_iff)
  qed
  moreover have "k div 8 = i \<longleftrightarrow> 8 * i \<le> k \<and> k - 8 * i < 8"
    by linarith
  moreover have "8 * i \<le> k \<Longrightarrow> k - 8 * i < 8 \<Longrightarrow> k mod 8 = k - 8 * i"
    by (metis add_diff_inverse_nat linorder_not_less mod_less mod_mult_self2 add.commute)
  moreover have "k < 64 \<or> \<not> bit c k" for c :: cell
    using bit_imp_le_length [of c k] by force
  ultimately show ?thesis
    using assms bit_imp_le_length [of b "k - 8 * i"]
    by (auto simp: put_byte_def bit_simps dest: bit_imp_le_length)
qed

lemma bit_fold_put_byte:
  assumes "n \<le> 8"
  shows "bit (fold (\<lambda>i. put_byte i (f i)) [0..<n] c) k \<longleftrightarrow>
    (if k div 8 < n then bit (f (k div 8)) (k mod 8) else bit c k)"
  using assms by (induction n) (auto simp: bit_put_byte less_Suc_eq)

lemma bit_get_byte: "bit (get_byte i c) k \<longleftrightarrow> k < 8 \<and> bit c (8 * i + k)"
  by (auto simp: get_byte_def bit_simps add.commute)

lemma nth_be_bytes: "i < n \<Longrightarrow> be_bytes n c ! i = get_byte (n - 1 - i) c"
  by (simp add: be_bytes_def)

lemma put_be_bytes:
  assumes "n \<le> 8"
  shows "bit (fold (\<lambda>i. put_byte i ((be_bytes n c @ rest) ! (n - 1 - i))) [0..<n] c0) k \<longleftrightarrow>
    (if k < 8 * n then bit c k else bit c0 k)"
proof -
  have "k div 8 < n \<longleftrightarrow> k < 8 * n"
    by (simp add: less_mult_imp_div_less div_less_iff_less_mult mult.commute)
  moreover have "k div 8 < n \<Longrightarrow>
      bit ((be_bytes n c @ rest) ! (n - 1 - k div 8)) (k mod 8) \<longleftrightarrow> bit c k"
    by (simp add: nth_append nth_be_bytes bit_get_byte)
  ultimately show ?thesis
    using assms by (simp add: bit_fold_put_byte)
qed

lemma and_128: "(b :: byte) AND 128 \<noteq> 0 \<longleftrightarrow> bit b 7"
proof -
  have eq: "(128 :: byte) = push_bit 7 1"
    by simp
  show ?thesis
    unfolding eq by (metis and_exp_eq_0_iff_not_bit push_bit_of_1)
qed

lemma hd_be_bytes: "0 < n \<Longrightarrow> hd (be_bytes n c @ rest) = get_byte (n - 1) c"
  by (cases n) (simp_all add: be_bytes_def upt_conv_Cons del: upt_Suc)

lemma scm_simple: "simple t \<Longrightarrow> t \<in> set scmSimpleEncodableDataTypes"
  by (cases t) (simp_all add: simple_def scmSimpleEncodableDataTypes_def)

lemma exact_simple:
  "simple t \<Longrightarrow> exact (Elem t c) \<longleftrightarrow>
     c = (if type_id t \<le> type_id e_DINT then signed_take_bit (8 * value_size t - 1) c
          else take_bit (8 * value_size t) c)"
  by (auto simp: simple_def)

lemma deserializeValueSimple_enc:
  assumes "simple t" "exact (Elem t c)"
  shows "deserializeValueSimpleDataType (be_bytes (value_size t) c @ rest) t c1 =
    (int (value_size t), c)"
proof -
  define n where "n = value_size t"
  have n: "0 < n" "n \<le> 8"
    using simple_value_size [OF assms(1)] by (auto simp: n_def)
  define neg where "neg \<longleftrightarrow> type_id t \<le> type_id e_DINT \<and> bit c (8 * n - 1)"
  have hd: "hd (be_bytes n c @ rest) AND 0x80 \<noteq> 0 \<longleftrightarrow> bit c (8 * n - 1)"
    using n by (simp add: hd_be_bytes and_128 bit_get_byte) (simp add: diff_mult_distrib2)
  note ex = assms(2)[unfolded exact_simple [OF assms(1)], folded n_def]
  have high: "bit c k \<longleftrightarrow> neg" if "k < 64" "\<not> k < 8 * n" for k
  proof (cases "type_id t \<le> type_id e_DINT")
    case signed: True
    have "bit c k \<longleftrightarrow> bit (signed_take_bit (8 * n - 1) c) k"
      using arg_cong [OF ex, of "\<lambda>c. bit c k"] signed by (simp only: if_True)
    also have "\<dots> \<longleftrightarrow> bit c (8 * n - 1)"
      using that by (simp add: bit_signed_take_bit_iff)
    finally show ?thesis
      using signed by (simp add: neg_def)
  next
    case False
    have "bit c k \<longleftrightarrow> bit (take_bit (8 * n) c) k"
      using arg_cong [OF ex, of "\<lambda>c. bit c k"] False by (simp only: if_False)
    then show ?thesis
      using False that by (simp add: neg_def bit_take_bit_iff)
  qed
  have "fold (\<lambda>i. put_byte i ((be_bytes n c @ rest) ! (n - 1 - i))) [0..<n]
      (if neg then - 1 else 0) = c"
    by (rule bit_word_eqI) (use n high in \<open>auto simp: put_be_bytes [simplified]\<close>)
  then show ?thesis
    using hd by (simp add: deserializeValueSimpleDataType_def Let_def neg_def flip: n_def)
qed

lemma setFromMicroSeconds_getInMicroSeconds:
  assumes "1000 dvd sint c"
  shows "setFromMicroSeconds (getInMicroSeconds c) = c"
proof -
  obtain k where k: "sint c = 1000 * k"
    using assms by (elim dvdE)
  have "1000 * k sdiv 1000 = k"
    by (simp add: signed_divide_int_def sgn_mult abs_mult sgn_mult_abs)
  then have "getInMicroSeconds c * 1000 = word_of_int (1000 * k)"
    by (simp add: getInMicroSeconds_def k)
  then show ?thesis
    by (simp add: setFromMicroSeconds_def flip: k)
qed

definition byte_at :: "cell \<Rightarrow> nat \<Rightarrow> cell" where
  "byte_at c j = push_bit (8 * j) (ucast (get_byte j c)) AND push_bit (8 * j) 255"

lemma bit_byte_at: "bit (byte_at c j) k \<longleftrightarrow> k < 64 \<and> 8 * j \<le> k \<and> k < 8 * j + 8 \<and> bit c k"
proof -
  have eq: "(255 :: 64 word) = mask 8"
    by (simp add: mask_eq_exp_minus_1)
  show ?thesis
    unfolding byte_at_def eq by (auto simp: bit_simps bit_get_byte)
qed

lemma sum_byte_at: "sum_list (map (byte_at c) (rev [0..<m])) = take_bit (8 * m) c"
proof (induction m)
  case (Suc m)
  have "byte_at c m + take_bit (8 * m) c = byte_at c m OR take_bit (8 * m) c"
    by (rule disjunctive_add) (auto simp: bit_byte_at bit_take_bit_iff)
  also have "\<dots> = take_bit (8 * Suc m) c"
    by (rule bit_word_eqI) (auto simp: bit_byte_at bit_take_bit_iff bit_or_iff)
  finally show ?case
    using Suc by simp
qed simp

lemma deserializeValueTime_enc:
  assumes "1000 dvd sint c"
  shows "deserializeValueTime (be_bytes 8 (getInMicroSeconds c) @ rest) c1 = (8, c)"
proof -
  define v where "v = getInMicroSeconds c"
  have "map (\<lambda>i. push_bit (56 - 8 * i) (ucast ((be_bytes 8 v @ rest) ! i)) AND
          push_bit (56 - 8 * i) 255) [0..<8] = map (byte_at v) (rev [0..<8])"
    by (simp add: be_bytes_def byte_at_def upt_rec) (simp add: numeral_eq_Suc)
  then have "sum_list (map (\<lambda>i. push_bit (56 - 8 * i) (ucast ((be_bytes 8 v @ rest) ! i)) AND
          push_bit (56 - 8 * i) 255) [0..<8]) = v"
    using sum_byte_at [of v 8] by (simp add: take_bit_word_eq_self)
  then show ?thesis
    using assms by (simp add: deserializeValueTime_def v_def setFromMicroSeconds_getInMicroSeconds)
qed

lemma length_of_length_bytes [simp]:
  "n < 65536 \<Longrightarrow> length_of_bytes (word_of_nat (n div 256)) (word_of_nat n) = n"
  by (simp add: length_of_bytes_def unsigned_of_nat take_bit_nat_def)

lemma deserializeValueString_enc:
  "length s < 65536 \<Longrightarrow>
   deserializeValueString (enc_value (Str s) @ rest) s' = (int (length (enc_value (Str s))), s)"
  by (simp add: deserializeValueString_def length_bytes_def Let_def)

section \<open>The deserialiser reads the encoding\<close>

lemma serializeTag_shape: "serializeTag (shape d) = serializeTag d"
  by (induction d) simp_all

lemma shape_serializeTag: "shape d = shape d' \<Longrightarrow> serializeTag d = serializeTag d'"
  by (metis serializeTag_shape)

lemma shape_inv:
  "shape d = Elem t 0 \<longleftrightarrow> (\<exists>c. d = Elem t c)"
  "shape d = Str [] \<longleftrightarrow> (\<exists>s. d = Str s)"
  "shape d = Arr ys \<longleftrightarrow> (\<exists>xs. d = Arr xs \<and> map shape xs = ys)"
  "shape d = Struct tg ys \<longleftrightarrow> (\<exists>xs. d = Struct tg xs \<and> map shape xs = ys)"
  "shape d = AnyV y \<longleftrightarrow> (\<exists>x. d = AnyV x \<and> shape x = y)"
  by (cases d; auto)+

lemma shape_deserializeTag: "shape (snd (deserializeTag b d)) = shape d"
  by (induction b d rule: deserializeTag.induct) auto

lemma deserializeTag_other:
  "getDataTypeID d \<noteq> e_BOOL \<Longrightarrow> \<not> is_AnyV d \<Longrightarrow> deserializeTag b d = (serializeTag d = b, d)"
  by (cases d) auto

lemma bool_point_enc:
  assumes "exact (Elem e_BOOL c)"
  shows "deserializeBoolPoint (enc_tag (Elem e_BOOL c) # rest) (Elem e_BOOL c') =
    (1, Elem e_BOOL c)"
  using assms
  by (auto simp: deserializeBoolPoint_def data_tag_def csmDataTags_def BOOL_value_def setTBOOL8_def)

lemma app_bit [simp]: "data_tag t AND 64 = 64"
  by (cases t) (simp_all add: data_tag_def csmDataTags_def)

lemma map_shape_Cons:
  "map shape xs0 = shape x # ys \<Longrightarrow> \<exists>x0 xs1. xs0 = x0 # xs1 \<and> shape x0 = shape x \<and> map shape xs1 = ys"
  by (cases xs0) auto

lemma bool_array_enc:
  assumes "\<forall>x\<in>set xs. getDataTypeID x = e_BOOL \<and> exact x" "map shape xs0 = map shape xs"
  shows "deserializeValueBoolArray (map enc_tag xs @ rest) r (length xs) xs0 =
    (r + int (length xs), xs)"
  using assms
proof (induction xs arbitrary: xs0 r)
  case (Cons x xs)
  obtain c where x: "x = Elem e_BOOL c" "exact (Elem e_BOOL c)"
    using Cons.prems(1) bool_cases [of x] by auto
  obtain c' xs1 where "xs0 = Elem e_BOOL c' # xs1" "map shape xs1 = map shape xs"
    using Cons.prems(2) map_shape_Cons [of xs0 x] x by (auto simp: shape_inv)
  then show ?case
    using Cons bool_point_enc [OF x(2)] x by simp
qed simp

lemma elems_enc:
  assumes "\<And>x x0 rest. x \<in> set xs \<Longrightarrow> shape x0 = shape x \<Longrightarrow> enc_value x \<noteq> [] \<and>
      deser_value (enc_value x @ rest) x0 = Some (int (length (enc_value x)), x)"
    and "map shape xs0 = map shape xs"
  shows "deser_elems (concat (map enc_value xs) @ rest) r (length xs) y xs0 =
    Some (r + int (length (concat (map enc_value xs))), xs)"
  using assms
proof (induction xs arbitrary: xs0 r)
  case (Cons x xs)
  obtain x0 xs1 where xs0: "xs0 = x0 # xs1" "shape x0 = shape x" "map shape xs1 = map shape xs"
    using Cons.prems(2) map_shape_Cons [of xs0 x] by auto
  have "enc_value x \<noteq> []"
      "deser_value (enc_value x @ rest') x0 = Some (int (length (enc_value x)), x)" for rest'
    using Cons.prems(1) xs0 by auto
  then show ?case
    using Cons.IH [of xs1 "r + int (length (enc_value x))"] Cons.prems(1) xs0 by simp
qed simp

lemma members_enc:
  assumes "\<And>x x0 rest. x \<in> set xs \<Longrightarrow> getDataTypeID x \<noteq> e_BOOL \<Longrightarrow> shape x0 = shape x \<Longrightarrow>
      enc_value x \<noteq> [] \<and>
      deser_value (enc_value x @ rest) x0 = Some (int (length (enc_value x)), x)"
    and "\<forall>x\<in>set xs. exact x" "map shape xs0 = map shape xs"
  shows "deser_members (enc_value (Struct tg xs) @ rest) r xs0 =
    Some (r + int (length (enc_value (Struct tg xs))), xs)"
  using assms
proof (induction xs arbitrary: xs0 r)
  case (Cons x xs)
  obtain x0 xs1 where xs0: "xs0 = x0 # xs1" "shape x0 = shape x" "map shape xs1 = map shape xs"
    using Cons.prems(3) map_shape_Cons [of xs0 x] by auto
  note type = shape_getDataTypeID [OF xs0(2)]
  have IH: "deser_members (enc_value (Struct tg xs) @ rest) r xs1 =
      Some (r + int (length (enc_value (Struct tg xs))), xs)" for r
    using Cons.prems xs0(3) by (intro Cons.IH) auto
  show ?case
  proof (cases "getDataTypeID x = e_BOOL")
    case True
    then obtain c c' where "x = Elem e_BOOL c" "x0 = Elem e_BOOL c'" "exact (Elem e_BOOL c)"
      using type bool_cases Cons.prems(2) by fastforce
    then show ?thesis
      using IH bool_point_enc xs0(1) by simp
  next
    case False
    have "enc_value x \<noteq> []"
        "deser_value (enc_value x @ rest') x0 = Some (int (length (enc_value x)), x)" for rest'
      using Cons.prems(1) False xs0(2) by auto
    then show ?thesis
      using IH False type xs0(1) by simp
  qed
qed simp

lemma deser_value_enc:
  "encodable d \<Longrightarrow> \<not> is_AnyV d \<Longrightarrow> getDataTypeID d \<noteq> e_BOOL \<Longrightarrow> exact d \<Longrightarrow> shape d0 = shape d \<Longrightarrow>
   deser_value (enc_value d @ rest) d0 = Some (int (length (enc_value d)), d)"
proof (induction d arbitrary: d0 rest)
  case (Elem t c)
  then obtain c' where d0: "d0 = Elem t c'"
    by (auto simp: shape_inv)
  show ?case
  proof (cases "t = e_TIME")
    case True
    then have "deserializeValueTime (enc_value (Elem t c) @ rest) c' = (8, c)"
      using Elem.prems deserializeValueTime_enc by simp
    then show ?thesis
      using True d0 by (simp add: scmSimpleEncodableDataTypes_def)
  next
    case False
    then have "simple t"
      using Elem.prems by simp
    then show ?thesis
      using False d0 Elem.prems(3,4) scm_simple deserializeValueSimple_enc by (simp del: exact.simps)
  qed
next
  case (Str s)
  then obtain s' where "d0 = Str s'"
    by (auto simp: shape_inv)
  then show ?case
    using Str.prems deserializeValueString_enc [of s rest s'] by (simp del: enc_value.simps)
next
  case (Arr xs)
  note elem = Arr_elem [OF Arr.prems(1)]
  have size: "xs \<noteq> []" "length xs < 65536" "0 < length xs"
    using Arr_size [OF Arr.prems(1)] by auto
  obtain xs0 where d0: "d0 = Arr xs0" "map shape xs0 = map shape xs"
    using Arr.prems(5) by (auto simp: shape_inv)
  obtain x0 ys where xs0: "xs0 = x0 # ys" "shape x0 = shape (hd xs)"
    using d0(2) map_shape_Cons [of xs0 "hd xs"] size(1) by (cases xs) auto
  note type = shape_getDataTypeID [OF xs0(2)]
  show ?case
  proof (cases "getDataTypeID (hd xs) = e_BOOL")
    case True
    then have "deserializeValueBoolArray (map enc_tag xs @ rest) 0 (length xs) xs0 =
        (0 + int (length xs), xs)"
      using elem(4) Arr.prems(4) d0(2) by (intro bool_array_enc) auto
    then show ?thesis
      using True type d0 xs0 size by (simp add: length_bytes_def)
  next
    case False
    have "\<not> is_AnyV x0"
      using elem(2) [OF hd_in_set [OF size(1)]] xs0(2) by (cases x0; cases "hd xs") auto
    then have tag: "deserializeTag (serializeTag (hd xs)) x0 = (True, x0)"
      using False type shape_serializeTag [OF xs0(2)] by (simp add: deserializeTag_other)
    have "deser_elems (concat (map enc_value xs) @ rest) 3 (length xs) x0 xs0 =
        Some (3 + int (length (concat (map enc_value xs))), xs)"
      using Arr.IH Arr.prems(4) elem False d0(2)
      by (intro elems_enc conjI) (simp_all add: enc_value_nonempty del: enc_value.simps)
    then show ?thesis
      using False type tag d0 xs0 size by (simp add: length_bytes_def)
  qed
next
  case (Struct tg ms)
  obtain ms0 where d0: "d0 = Struct tg ms0" "map shape ms0 = map shape ms"
    using Struct.prems(5) by (auto simp: shape_inv)
  have "deser_members (enc_value (Struct tg ms) @ rest) 0 ms0 =
      Some (0 + int (length (enc_value (Struct tg ms))), ms)"
    using Struct.IH Struct.prems d0(2)
    by (intro members_enc conjI) (simp_all add: enc_value_nonempty del: enc_value.simps)
  then show ?case
    using d0(1) by (simp del: enc_value.simps)
qed simp

lemma deserializeDataPoint_AnyV:
  "deserializeDataPoint bs (AnyV d) = map_option (map_prod id AnyV) (deserializeDataPoint bs d)"
  by (auto simp: deserializeDataPoint_def map_prod_def option.map_comp comp_def split_beta
      split: list.splits)

lemma deserializeDataPoint_bool:
  "deserializeDataPoint bs (Elem e_BOOL c) = Some (deserializeBoolPoint bs (Elem e_BOOL c))"
  by (auto simp: deserializeDataPoint_def deserializeBoolPoint_def scmSimpleEncodableDataTypes_def
      split: list.splits prod.splits)

lemma deserializeDataPoint_enc:
  "encodable d \<Longrightarrow> exact d \<Longrightarrow> shape d0 = shape d \<Longrightarrow>
   deserializeDataPoint (enc_point d @ rest) d0 = Some (int (length (enc_point d)), d)"
proof (induction d arbitrary: d0)
  case (AnyV d)
  then show ?case
    by (auto simp: deserializeDataPoint_AnyV enc_point_def shape_inv)
next
  case (Elem t c)
  then obtain c0 where d0: "d0 = Elem t c0"
    by (auto simp: shape_inv)
  show ?case
  proof (cases "t = e_BOOL")
    case True
    then show ?thesis
      using Elem.prems(2) d0 bool_point_enc
      by (simp add: enc_point_def deserializeDataPoint_bool del: exact.simps enc_tag.simps)
  next
    case False
    then show ?thesis
      using Elem.prems d0 deser_value_enc [of "Elem t c" d0 rest]
      by (simp add: enc_point_def deserializeDataPoint_def
          del: exact.simps enc_value.simps deser_value.simps)
  qed
qed (auto simp: shape_inv enc_point_def deserializeDataPoint_def deser_value_enc
      simp del: enc_value.simps deser_value.simps)

section \<open>Incomplete data\<close>

text \<open>The type of a variable never changes.\<close>

lemma shape_deserializeTag_eq: "deserializeTag b d = (ok, d') \<Longrightarrow> shape d' = shape d"
  using shape_deserializeTag [of b d] by simp

lemma shape_deserializeBoolPoint: "shape (snd (deserializeBoolPoint bs d)) = shape d"
  by (auto simp: deserializeBoolPoint_def dest: shape_deserializeTag_eq split: list.splits prod.splits)

lemma shape_deserializeValueBoolArray:
  "map shape (snd (deserializeValueBoolArray bs r m xs)) = map shape xs"
proof (induction bs r m xs rule: deserializeValueBoolArray.induct)
  case (3 bs r m x xs)
  then show ?case
    using shape_deserializeBoolPoint [of bs x] by (auto split: prod.splits)
qed (auto split: prod.splits)

text \<open>\<open>inside f x n o\<close>: the outcome \<open>o\<close> took at most \<open>n\<close> bytes and left the type \<open>f x\<close> as it was.\<close>

definition inside :: "('a \<Rightarrow> 'b) \<Rightarrow> 'a \<Rightarrow> int \<Rightarrow> (int \<times> 'a) option \<Rightarrow> bool" where
  "inside f x n o' \<longleftrightarrow> (\<forall>k y. o' = Some (k, y) \<longrightarrow> k \<le> n \<and> f y = f x)"

lemma inside_simps [simp]:
  "inside f x n None"
  "inside f x n (Some p) \<longleftrightarrow> fst p \<le> n \<and> f (snd p) = f x"
  by (simp add: inside_def) (cases p, auto simp: inside_def)

lemma inside_map [intro]:
  assumes "inside f x n o'" "\<And>k y. o' = Some (k, y) \<Longrightarrow> k \<le> n \<Longrightarrow> f y = f x \<Longrightarrow> k + a \<le> n' \<and> g (h y) = z"
    and "z = g u"
  shows "inside g u n' (map_option (map_prod (\<lambda>n. n + a) h) o')"
  using assms by (cases o') auto

lemma inside_map_id:
  assumes "inside f x n o'" "\<And>k y. o' = Some (k, y) \<Longrightarrow> k \<le> n \<Longrightarrow> f y = f x \<Longrightarrow> k \<le> n' \<and> g (h y) = g u"
  shows "inside g u n' (map_option (map_prod id h) o')"
  using assms by (cases o') auto

lemma deserializeBoolPoint_le: "fst (deserializeBoolPoint bs d) \<le> int (length bs)"
  by (auto simp: deserializeBoolPoint_def split: list.split prod.split)

lemma deserializeValueBoolArray_le:
  "0 \<le> r \<Longrightarrow> fst (deserializeValueBoolArray bs r m xs) \<le> r + int (length bs)"
proof (induction bs r m xs rule: deserializeValueBoolArray.induct)
  case (2 bs r m)
  obtain n x' where n: "deserializeBoolPoint bs (Elem e_BOOL 0) = (n, x')"
    by fastforce
  then show ?case
    using "2.IH" [OF n [symmetric]] "2.prems" deserializeBoolPoint_le [of bs "Elem e_BOOL 0"] by simp
next
  case (3 bs r m x xs)
  obtain n x' where n: "deserializeBoolPoint bs x = (n, x')"
    by fastforce
  then show ?case
    using "3.IH" [OF n [symmetric]] "3.prems" deserializeBoolPoint_le [of bs x] by simp
qed simp

lemma deser_inside:
  "inside shape d (int (length bs)) (deser_value bs d)"
  "0 \<le> r \<Longrightarrow> inside (map shape) xs (r + int (length bs)) (deser_elems bs r m x0 xs)"
  "0 \<le> r \<Longrightarrow> inside (map shape) xs (r + int (length bs)) (deser_members bs r xs)"
proof (induction bs d and bs r m x0 xs and bs r xs
    rule: deser_value_deser_elems_deser_members.induct)
  case (1 bs t c)
  then show ?case
    by (simp add: deserializeValueSimpleDataType_def deserializeValueTime_def Let_def)
next
  case (2 bs s)
  then show ?case
    by (auto simp: deserializeValueString_def Let_def split: list.split)
next
  case (3 bs xs)
  show ?case
  proof (cases "\<exists>hi lo t bs' x0 ys. bs = hi # lo # t # bs' \<and> xs = x0 # ys \<and>
      length_of_bytes hi lo \<noteq> 0 \<and> getDataTypeID x0 \<noteq> e_BOOL")
    case True
    then obtain hi lo t bs' x0 ys where bs: "bs = hi # lo # t # bs'" "xs = x0 # ys"
        "length_of_bytes hi lo \<noteq> 0" "getDataTypeID x0 \<noteq> e_BOOL"
      by blast
    obtain ok x0' where tag: "deserializeTag t x0 = (ok, x0')"
      by fastforce
    have "ok \<Longrightarrow> inside (map shape) (x0' # ys) (3 + int (length bs'))
        (deser_elems bs' 3 (length_of_bytes hi lo) x0' (x0' # ys))"
      using "3.IH" [OF bs(1) refl bs(3,2,4) refl tag [symmetric]] by simp
    then show ?thesis
      using bs tag shape_deserializeTag_eq [OF tag]
      by (cases ok) (auto intro!: inside_map_id)
  next
    case False
    have "fst (deserializeValueBoolArray rest 0 m ys) \<le> int (length rest)" for rest m ys
      using deserializeValueBoolArray_le [of 0 rest m ys] by simp
    then show ?thesis
      using False shape_deserializeValueBoolArray by (auto simp: split_beta split: list.splits)
  qed
next
  case (4 bs tg ms)
  then show ?case
    by (auto intro: inside_map_id)
next
  case (5 bs d)
  then show ?case
    by (auto intro: inside_map_id)
next
  case (7 bs r m x0)
  show ?case
  proof (cases "deser_value bs x0")
    case (Some p)
    obtain n x' where p: "p = (n, x')"
      by fastforce
    have "\<not> n \<le> 0 \<Longrightarrow> inside (map shape) [] (r + n + int (length (drop (nat n) bs)))
        (deser_elems (drop (nat n) bs) (r + n) m x0 [])"
      using "7.IH"(2) [OF Some p [symmetric]] "7.prems" by simp
    then show ?thesis
      using Some p "7.IH"(1) "7.prems" by (auto simp: algebra_simps)
  qed simp
next
  case (8 bs r m x0 x xs)
  show ?case
  proof (cases "deser_value bs x")
    case (Some p)
    obtain n x' where p: "p = (n, x')"
      by fastforce
    have "\<not> n \<le> 0 \<Longrightarrow> inside (map shape) xs (r + n + int (length (drop (nat n) bs)))
        (deser_elems (drop (nat n) bs) (r + n) m x0 xs)"
      using "8.IH"(2) [OF Some p [symmetric]] "8.prems" by simp
    then show ?thesis
      using Some p "8.IH"(1) "8.prems" by (auto intro!: inside_map_id)
  qed simp
next
  case (10 bs r x xs)
  let ?o = "if getDataTypeID x = e_BOOL then Some (deserializeBoolPoint bs x) else deser_value bs x"
  have first: "inside shape x (int (length bs)) ?o"
    using "10.IH"(1) shape_deserializeBoolPoint deserializeBoolPoint_le by simp
  show ?case
  proof (cases ?o)
    case (Some p)
    obtain n x' where p: "p = (n, x')"
      by fastforce
    have "\<not> n \<le> 0 \<Longrightarrow> inside (map shape) xs (r + n + int (length (drop (nat n) bs)))
        (deser_members (drop (nat n) bs) (r + n) xs)"
      using "10.IH"(2) [OF Some p [symmetric]] "10.prems" by simp
    then show ?thesis
      using Some p first "10.prems" by (auto intro!: inside_map_id)
  next
    case None
    then show ?thesis
      by simp
  qed
qed simp_all

lemma deserializeDataPoint_inside: "inside shape d (int (length bs)) (deserializeDataPoint bs d)"
proof (cases bs)
  case (Cons b bs')
  obtain ok d' where tag: "deserializeTag b d = (ok, d')"
    by fastforce
  have "inside shape d (int (length bs)) (map_option (map_prod (\<lambda>n. n + 1) id) (deser_value bs' d'))"
    using deser_inside(1) [of d' bs'] shape_deserializeTag_eq [OF tag] Cons
    by (intro inside_map [where f = shape]) auto
  then show ?thesis
    using tag Cons shape_deserializeTag_eq [OF tag] by (auto simp: deserializeDataPoint_def)
qed (simp add: deserializeDataPoint_def)

text \<open>A proper prefix of the encoding of a value is answered with -1.\<close>

lemma split_prefix:
  "p @ q = a @ b \<Longrightarrow> (\<exists>us. us \<noteq> [] \<and> a = p @ us) \<or> (\<exists>us. p = a @ us \<and> us @ q = b)"
  by (metis append_eq_append_conv2 append_Nil2)

lemma bool_array_prefix:
  assumes "\<forall>x\<in>set xs. getDataTypeID x = e_BOOL \<and> exact x" "map shape xs0 = map shape xs"
    "p @ q = map enc_tag xs" "q \<noteq> []"
  shows "fst (deserializeValueBoolArray p r (length xs) xs0) = - 1"
  using assms
proof (induction xs arbitrary: xs0 r p)
  case (Cons x xs)
  obtain c where x: "x = Elem e_BOOL c" "exact (Elem e_BOOL c)"
    using Cons.prems(1) bool_cases [of x] by auto
  obtain c' xs1 where xs0: "xs0 = Elem e_BOOL c' # xs1" "map shape xs1 = map shape xs"
    using Cons.prems(2) map_shape_Cons [of xs0 x] x by (auto simp: shape_inv)
  show ?case
  proof (cases p)
    case Nil
    then show ?thesis
      using xs0 by (simp add: deserializeBoolPoint_def)
  next
    case (Cons b p')
    then show ?thesis
      using Cons.prems Cons.IH [of xs1 p'] bool_point_enc [OF x(2)] x xs0 by simp
  qed
qed simp

text \<open>\<open>gap d n\<close>: the first \<open>n\<close> bytes of the encoding end where the tag of the elements of an array
  is read next, the one place where the reader does not look at the size left.\<close>

definition piece :: "iec_data \<Rightarrow> byte list" where
  "piece m = (if getDataTypeID m = e_BOOL then [enc_tag m] else enc_value m)"

fun gap :: "iec_data \<Rightarrow> nat \<Rightarrow> bool" and gaps :: "iec_data list \<Rightarrow> nat \<Rightarrow> bool" where
  "gap (Elem t c) n \<longleftrightarrow> False"
| "gap (Str s) n \<longleftrightarrow> False"
| "gap (Arr xs) n \<longleftrightarrow> getDataTypeID (hd xs) \<noteq> e_BOOL \<and> (n = 2 \<or> 3 \<le> n \<and> gaps xs (n - 3))"
| "gap (Struct tg ms) n \<longleftrightarrow> gaps ms n"
| "gap (AnyV d) n \<longleftrightarrow> gap d n"
| "gaps [] n \<longleftrightarrow> False"
| "gaps (x # xs) n \<longleftrightarrow>
     (if n < length (piece x) then gap x n else gaps xs (n - length (piece x)))"

text \<open>The outcome on a proper prefix: outside the bytes at a gap, -1 elsewhere.\<close>

definition short :: "bool \<Rightarrow> (int \<times> 'a) option \<Rightarrow> bool" where
  "short g o' \<longleftrightarrow> (if g then o' = None else \<exists>x. o' = Some (- 1, x))"

lemma short_simps [simp]:
  "short False (Some p) \<longleftrightarrow> fst p = - 1"
  "short True o' \<longleftrightarrow> o' = None"
  "short False None \<longleftrightarrow> False"
  "short g (map_option (map_prod id h) o') \<longleftrightarrow> short g o'"
  by (cases p) (auto simp: short_def map_prod_def split_beta)

definition reads :: "iec_data \<Rightarrow> bool" where
  "reads x \<longleftrightarrow> enc_value x \<noteq> [] \<and> (\<forall>x0 p q. shape x0 = shape x \<longrightarrow>
     deser_value (enc_value x @ q) x0 = Some (int (length (enc_value x)), x) \<and>
     (p @ q = enc_value x \<longrightarrow> q \<noteq> [] \<longrightarrow> short (gap x (length p)) (deser_value p x0)))"

lemma elems_prefix:
  assumes "\<And>x. x \<in> set xs \<Longrightarrow> reads x \<and> getDataTypeID x \<noteq> e_BOOL" "map shape xs0 = map shape xs"
    "p @ q = concat (map enc_value xs)" "q \<noteq> []"
  shows "short (gaps xs (length p)) (deser_elems p r (length xs) y xs0)"
  using assms
proof (induction xs arbitrary: xs0 r p)
  case (Cons x xs)
  obtain x0 xs1 where xs0: "xs0 = x0 # xs1" "shape x0 = shape x" "map shape xs1 = map shape xs"
    using Cons.prems(2) map_shape_Cons [of xs0 x] by auto
  have x: "reads x" "piece x = enc_value x"
    using Cons.prems(1) by (simp_all add: piece_def)
  consider us where "us \<noteq> []" "enc_value x = p @ us"
    | p' where "p = enc_value x @ p'" "p' @ q = concat (map enc_value xs)"
    using split_prefix [of p q "enc_value x" "concat (map enc_value xs)"] Cons.prems(3) by auto
  then show ?case
  proof cases
    case 1
    then have "short (gap x (length p)) (deser_value p x0)"
      using x(1) xs0(2) unfolding reads_def by metis
    then show ?thesis
      using 1 x(2) by (cases "gap x (length p)") (auto simp: xs0 short_def)
  next
    case 2
    have "deser_value p x0 = Some (int (length (enc_value x)), x)" "enc_value x \<noteq> []"
      using x(1) xs0(2) 2(1) unfolding reads_def by auto
    then show ?thesis
      using Cons.IH [of xs1 p'] Cons.prems 2 xs0 x(2) by simp
  qed
qed simp

lemma members_prefix:
  assumes "\<And>x. x \<in> set xs \<Longrightarrow> getDataTypeID x \<noteq> e_BOOL \<Longrightarrow> reads x" "\<forall>x\<in>set xs. exact x"
    "map shape xs0 = map shape xs" "p @ q = enc_value (Struct tg xs)" "q \<noteq> []"
  shows "short (gaps xs (length p)) (deser_members p r xs0)"
  using assms
proof (induction xs arbitrary: xs0 r p)
  case (Cons x xs)
  obtain x0 xs1 where xs0: "xs0 = x0 # xs1" "shape x0 = shape x" "map shape xs1 = map shape xs"
    using Cons.prems(3) map_shape_Cons [of xs0 x] by auto
  note type = shape_getDataTypeID [OF xs0(2)]
  have IH: "p @ q = enc_value (Struct tg xs) \<Longrightarrow> short (gaps xs (length p)) (deser_members p r xs1)"
    for p r
    using Cons.prems xs0(3) by (intro Cons.IH) auto
  show ?case
  proof (cases "getDataTypeID x = e_BOOL")
    case True
    then obtain c c' where x: "x = Elem e_BOOL c" "x0 = Elem e_BOOL c'" "exact (Elem e_BOOL c)"
      using type bool_cases Cons.prems(2) by fastforce
    show ?thesis
    proof (cases p)
      case Nil
      then show ?thesis
        using x xs0 by (simp add: deserializeBoolPoint_def piece_def)
    next
      case (Cons b p')
      then show ?thesis
        using IH [of p' "r + 1"] bool_point_enc [OF x(3)] x xs0(1) Cons.prems(4)
        by (simp add: piece_def)
    qed
  next
    case False
    then have x: "reads x" "piece x = enc_value x"
      using Cons.prems(1) by (simp_all add: piece_def)
    consider us where "us \<noteq> []" "enc_value x = p @ us"
      | p' where "p = enc_value x @ p'" "p' @ q = enc_value (Struct tg xs)"
      using split_prefix [of p q "enc_value x"] Cons.prems(4) False by auto
    then show ?thesis
    proof cases
      case 1
      then have "short (gap x (length p)) (deser_value p x0)"
        using x(1) xs0(2) unfolding reads_def by metis
      then show ?thesis
        using False type 1 x(2) by (cases "gap x (length p)") (auto simp: xs0 short_def)
    next
      case 2
      have "deser_value p x0 = Some (int (length (enc_value x)), x)" "enc_value x \<noteq> []"
        using x(1) xs0(2) 2(1) unfolding reads_def by auto
      then show ?thesis
        using IH [OF 2(2)] 2(1) False type xs0(1) x(2) by simp
    qed
  qed
qed simp

lemma prefix_short:
  "p @ q = e \<Longrightarrow> q \<noteq> [] \<Longrightarrow> length p < length e"
  by auto

lemma deser_value_prefix:
  "encodable d \<Longrightarrow> \<not> is_AnyV d \<Longrightarrow> getDataTypeID d \<noteq> e_BOOL \<Longrightarrow> exact d \<Longrightarrow> shape d0 = shape d \<Longrightarrow>
   p @ q = enc_value d \<Longrightarrow> q \<noteq> [] \<Longrightarrow> short (gap d (length p)) (deser_value p d0)"
proof (induction d arbitrary: d0 p q)
  case (Elem t c)
  then obtain c' where d0: "d0 = Elem t c'"
    by (auto simp: shape_inv)
  have short: "length p < length (enc_value (Elem t c))"
    using Elem.prems prefix_short by blast
  show ?case
  proof (cases "t = e_TIME")
    case True
    then show ?thesis
      using short d0 by (simp add: scmSimpleEncodableDataTypes_def deserializeValueTime_def)
  next
    case False
    then have "simple t"
      using Elem.prems by simp
    then show ?thesis
      using False d0 short scm_simple Elem.prems(3)
      by (simp add: deserializeValueSimpleDataType_def Let_def)
  qed
next
  case (Str s)
  obtain s' where d0: "d0 = Str s'"
    using Str.prems by (auto simp: shape_inv)
  show ?case
  proof (cases "\<exists>hi lo p'. p = hi # lo # p'")
    case True
    then obtain p' where p: "p = word_of_nat (length s div 256) # word_of_nat (length s) # p'" "p' @ q = s"
      using Str.prems by (auto simp: length_bytes_def)
    have "length p' < length s"
      using prefix_short [OF p(2)] Str.prems by simp
    then show ?thesis
      using p(1) d0 Str.prems(1) by (simp add: deserializeValueString_def)
  next
    case False
    then show ?thesis
      using d0 by (auto simp: deserializeValueString_def split: list.split)
  qed
next
  case (Arr xs)
  note elem = Arr_elem [OF Arr.prems(1)]
  have size: "xs \<noteq> []" "length xs < 65536" "0 < length xs"
    using Arr_size [OF Arr.prems(1)] by auto
  obtain xs0 where d0: "d0 = Arr xs0" "map shape xs0 = map shape xs"
    using Arr.prems(5) by (auto simp: shape_inv)
  obtain x0 ys where xs0: "xs0 = x0 # ys" "shape x0 = shape (hd xs)"
    using d0(2) map_shape_Cons [of xs0 "hd xs"] size(1) by (cases xs) auto
  note type = shape_getDataTypeID [OF xs0(2)]
  show ?case
  proof (cases "\<exists>hi lo p'. p = hi # lo # p'")
    case False
    then show ?thesis
      using d0 by (auto split: list.split)
  next
    case True
    then obtain p' where
      p: "p = word_of_nat (length xs div 256) # word_of_nat (length xs) # p'" and
      p': "p' @ q = (if getDataTypeID (hd xs) = e_BOOL then map enc_tag xs
            else serializeTag (hd xs) # concat (map enc_value xs))"
      using Arr.prems(6) by (auto simp: length_bytes_def)
    show ?thesis
    proof (cases "getDataTypeID (hd xs) = e_BOOL")
      case True
      then have "fst (deserializeValueBoolArray p' 0 (length xs) xs0) = - 1"
        using elem(4) Arr.prems(4,7) d0(2) p' by (intro bool_array_prefix) auto
      then show ?thesis
        using True type d0 p xs0 size by (simp add: split_beta)
    next
      case False
      show ?thesis
      proof (cases p')
        case Nil
        then show ?thesis
          using False type d0 p xs0 size by simp
      next
        case (Cons t p'')
        have "\<not> is_AnyV x0"
          using elem(2) [OF hd_in_set [OF size(1)]] xs0(2) by (cases x0; cases "hd xs") auto
        then have tag: "deserializeTag t x0 = (True, x0)" and p'': "p'' @ q = concat (map enc_value xs)"
          using False type shape_serializeTag [OF xs0(2)] p' Cons
          by (auto simp: deserializeTag_other)
        have "reads x \<and> getDataTypeID x \<noteq> e_BOOL" if "x \<in> set xs" for x
          using Arr.IH [OF that] Arr.prems(4) elem that False
          by (simp add: reads_def enc_value_nonempty deser_value_enc)
        then have "short (gaps xs (length p'')) (deser_elems p'' 3 (length xs) x0 xs0)"
          using elems_prefix [OF _ d0(2) p'' Arr.prems(7)] by blast
        then show ?thesis
          using False type tag d0 p xs0 size Cons by simp
      qed
    qed
  qed
next
  case (Struct tg ms)
  obtain ms0 where d0: "d0 = Struct tg ms0" "map shape ms0 = map shape ms"
    using Struct.prems(5) by (auto simp: shape_inv)
  have "reads x" if "x \<in> set ms" "getDataTypeID x \<noteq> e_BOOL" for x
    using Struct.IH [OF that(1)] Struct.prems(1,4) that
    by (simp add: reads_def enc_value_nonempty deser_value_enc)
  then have "short (gaps ms (length p)) (deser_members p 0 ms0)"
    using members_prefix [OF _ _ d0(2) Struct.prems(6,7)] Struct.prems(4) by simp
  then show ?case
    using d0(1) by simp
qed simp

lemma shape_is_AnyV: "shape x = shape y \<Longrightarrow> is_AnyV x = is_AnyV y"
  by (cases x; cases y) auto

lemma enc_tag_app: "encodable d \<Longrightarrow> enc_tag d AND 64 = 64"
  by (induction d) (auto simp: enc_tag.simps)

text \<open>The outcome on a proper prefix of a value with its tag.\<close>

definition delayed :: "bool \<Rightarrow> (int \<times> 'a) option \<Rightarrow> bool" where
  "delayed g o' \<longleftrightarrow> (if g then o' = None else \<exists>n x. o' = Some (n, x) \<and> (n = - 1 \<or> n = 0))"

lemma delayed_simps [simp]:
  "delayed False (Some p) \<longleftrightarrow> fst p = - 1 \<or> fst p = 0"
  "delayed g (map_option (map_prod id h) o') \<longleftrightarrow> delayed g o'"
  by (cases p) (auto simp: delayed_def)

lemma short_delayed:
  "short g o' \<Longrightarrow> delayed g (map_option (map_prod (\<lambda>n. n + 1) id) o')"
  by (auto simp: short_def delayed_def split: if_splits)

lemma gap_0 [simp]: "encodable d \<Longrightarrow> \<not> gap d 0"
proof (induction d)
  case (Struct tg ms)
  then obtain m ms' where ms: "ms = m # ms'"
    by (cases ms) auto
  then have "0 < length (piece m)"
    using Struct.prems enc_value_nonempty [of m] by (simp add: piece_def)
  then show ?case
    using Struct ms by simp
qed simp_all

lemma other_prefix:
  assumes "encodable d" "exact d" "\<not> is_AnyV d" "getDataTypeID d \<noteq> e_BOOL" "shape d0 = shape d"
    "p @ q = enc_point d" "q \<noteq> []"
  shows "delayed (gap d (length p - 1)) (deserializeDataPoint p d0)"
proof (cases p)
  case (Cons b p')
  have tag: "enc_tag d = serializeTag d"
    using assms(3,4) by (cases d) auto
  have b: "b = serializeTag d" and p': "p' @ q = enc_value d"
    using assms(6) Cons tag by (simp_all add: enc_point_def)
  have app: "b AND 64 = 64"
    using enc_tag_app [OF assms(1)] b tag by simp
  have "deserializeTag b d0 = (True, d0)"
    using b assms(3,4) shape_is_AnyV [OF assms(5)] shape_getDataTypeID [OF assms(5)]
      shape_serializeTag [OF assms(5)] by (simp add: deserializeTag_other)
  moreover have "short (gap d (length p')) (deser_value p' d0)"
    by (rule deser_value_prefix [OF assms(1,3,4,2,5) p' assms(7)])
  ultimately show ?thesis
    using Cons short_delayed app by (simp add: deserializeDataPoint_def)
qed (simp add: deserializeDataPoint_def assms(1))

lemma deserializeDataPoint_prefix:
  "encodable d \<Longrightarrow> exact d \<Longrightarrow> shape d0 = shape d \<Longrightarrow> p @ q = enc_point d \<Longrightarrow> q \<noteq> [] \<Longrightarrow>
   delayed (gap d (length p - 1)) (deserializeDataPoint p d0)"
proof (induction d arbitrary: d0)
  case (AnyV d)
  then obtain x where x: "d0 = AnyV x" "shape x = shape d"
    by (auto simp: shape_inv)
  have "p @ q = enc_point d" "encodable d" "exact d"
    using AnyV.prems by (simp_all add: enc_point_def)
  then show ?case
    using AnyV.IH [OF _ _ x(2) _ AnyV.prems(5)] x(1) by (simp add: deserializeDataPoint_AnyV)
next
  case (Elem t c)
  show ?case
  proof (cases "t = e_BOOL")
    case True
    then have "p = []"
      using Elem.prems(4,5) by (cases p) (auto simp: enc_point_def)
    then show ?thesis
      by (simp add: deserializeDataPoint_def)
  next
    case False
    then show ?thesis
      by (intro other_prefix [OF Elem.prems(1,2) _ _ Elem.prems(3-5)]) simp_all
  qed
qed (rule other_prefix, assumption+, simp, simp, assumption+)+

section \<open>The deserialiser stays inside the buffer\<close>

lemma simple_size_pos: "t \<in> set scmSimpleEncodableDataTypes \<Longrightarrow> 0 < value_size t"
  by (cases t) (simp_all add: scmSimpleEncodableDataTypes_def value_size_def csmDataTags_def)

lemma deserializeBoolPoint_append:
  "deserializeBoolPoint bs d = (n, d') \<Longrightarrow> 0 \<le> n \<Longrightarrow> 0 < n \<and> deserializeBoolPoint (bs @ cs) d = (n, d')"
  by (cases bs) (auto simp: deserializeBoolPoint_def split: if_splits prod.splits)

lemma deserializeValueBoolArray_append:
  "deserializeValueBoolArray bs r m xs = (n, ys) \<Longrightarrow> 0 \<le> n \<Longrightarrow>
   deserializeValueBoolArray (bs @ cs) r m xs = (n, ys)"
proof (induction bs r m xs arbitrary: n ys rule: deserializeValueBoolArray.induct)
  case (2 bs r m)
  obtain k x' where k: "deserializeBoolPoint bs (Elem e_BOOL 0) = (k, x')"
    by fastforce
  then show ?case
    using "2.IH" [OF k [symmetric]] "2.prems" deserializeBoolPoint_append [OF k, of cs]
      deserializeBoolPoint_le [of bs "Elem e_BOOL 0"] by (auto split: if_splits)
next
  case (3 bs r m x xs)
  obtain k x' where k: "deserializeBoolPoint bs x = (k, x')"
    by fastforce
  then show ?case
    using "3.IH" [OF k [symmetric]] "3.prems" deserializeBoolPoint_append [OF k, of cs]
      deserializeBoolPoint_le [of bs x] by (auto simp: map_prod_def split: if_splits prod.splits)
qed simp

lemma deserializeValueSimple_append:
  "deserializeValueSimpleDataType bs t c = (n, c') \<Longrightarrow> 0 < n \<Longrightarrow>
   deserializeValueSimpleDataType (bs @ cs) t c = (n, c')"
proof -
  assume a: "deserializeValueSimpleDataType bs t c = (n, c')" "0 < n"
  then have len: "0 < value_size t" "value_size t \<le> length bs"
    by (auto simp: deserializeValueSimpleDataType_def Let_def split: if_splits)
  then have "fold (\<lambda>i. put_byte i ((bs @ cs) ! (value_size t - 1 - i))) [0..<value_size t] c0 =
      fold (\<lambda>i. put_byte i (bs ! (value_size t - 1 - i))) [0..<value_size t] c0" for c0
    by (intro fold_cong) (auto simp: nth_append)
  moreover have "hd (bs @ cs) = hd bs"
    using len by (simp add: hd_append) force
  ultimately show ?thesis
    using a len by (simp add: deserializeValueSimpleDataType_def Let_def)
qed

lemma deserializeValueTime_append:
  "deserializeValueTime bs c = (n, c') \<Longrightarrow> 0 < n \<Longrightarrow> deserializeValueTime (bs @ cs) c = (n, c')"
proof -
  assume a: "deserializeValueTime bs c = (n, c')" "0 < n"
  then have len: "8 \<le> length bs"
    by (auto simp: deserializeValueTime_def split: if_splits)
  then have "map (\<lambda>i. f i ((bs @ cs) ! i)) [0..<8] = map (\<lambda>i. f i (bs ! i)) [0..<8]" for f :: "nat \<Rightarrow> byte \<Rightarrow> cell"
    by (auto simp: nth_append)
  note eq = this [of "\<lambda>i b. push_bit (56 - 8 * i) (ucast b) AND push_bit (56 - 8 * i) 255"]
  show ?thesis
    using a len unfolding deserializeValueTime_def eq by simp
qed

lemma deserializeValueString_append:
  "deserializeValueString bs s = (n, s') \<Longrightarrow> 0 < n \<Longrightarrow>
   deserializeValueString (bs @ cs) s = (n, s')"
  by (auto simp: deserializeValueString_def Let_def split: list.splits if_splits)

text \<open>What was read with success is read the same when more bytes follow.\<close>

lemma deser_append:
  "deser_value bs d = Some (n, d') \<Longrightarrow> 0 < n \<Longrightarrow> deser_value (bs @ cs) d = Some (n, d')"
  "deser_elems bs r m x0 xs = Some (n, ys) \<Longrightarrow> 0 < n \<Longrightarrow>
     deser_elems (bs @ cs) r m x0 xs = Some (n, ys)"
  "deser_members bs r xs = Some (n, ys) \<Longrightarrow> 0 < n \<Longrightarrow> deser_members (bs @ cs) r xs = Some (n, ys)"
proof (induction bs d and bs r m x0 xs and bs r xs
    arbitrary: n d' and n ys and n ys rule: deser_value_deser_elems_deser_members.induct)
  case (1 bs t c)
  then show ?case
    using deserializeValueSimple_append deserializeValueTime_append
    by (auto simp: map_prod_def split_beta prod_eq_iff split: if_splits)
next
  case (2 bs s)
  then show ?case
    using deserializeValueString_append by (auto simp: map_prod_def split_beta prod_eq_iff)
next
  case (3 bs xs)
  obtain hi lo rest where bs: "bs = hi # lo # rest"
    using "3.prems" by (auto split: list.splits)
  show ?case
  proof (cases "length_of_bytes hi lo = 0")
    case len: False
    obtain x0 ys where xs: "xs = x0 # ys"
      using "3.prems" bs len by (auto split: list.splits)
    show ?thesis
    proof (cases "getDataTypeID x0 = e_BOOL")
      case True
      obtain k zs where "deserializeValueBoolArray rest 0 (length_of_bytes hi lo) xs = (k, zs)"
        by fastforce
      then show ?thesis
        using "3.prems" True bs xs len deserializeValueBoolArray_append [of rest 0 _ xs k zs cs]
        by (auto split: if_splits)
    next
      case False
      obtain t bs' where rest: "rest = t # bs'"
        using "3.prems" False bs xs len by (auto split: list.splits)
      obtain ok x0' where tag: "deserializeTag t x0 = (ok, x0')"
        by fastforce
      show ?thesis
        using "3.IH" [OF bs refl len xs False rest tag [symmetric]] bs xs rest len False tag "3.prems"
        by (cases ok) auto
    qed
  qed (use "3.prems" bs in auto)
next
  case (4 bs tg ms)
  then show ?case
    by (auto simp: map_prod_def split_beta)
next
  case (5 bs d)
  then show ?case
    by (auto simp: map_prod_def split_beta)
next
  case (7 bs r m x0)
  then obtain k x' where k: "deser_value bs x0 = Some (k, x')"
    by (auto split: option.splits)
  show ?case
    using "7.IH"(1) [OF k] "7.IH"(2) [OF k refl] "7.prems" k deser_inside(1) [of x0 bs]
    by (cases "k \<le> 0") auto
next
  case (8 bs r m x0 x xs)
  then obtain k x' where k: "deser_value bs x = Some (k, x')"
    by (auto split: option.splits)
  show ?case
    using "8.IH"(1) [OF k] "8.IH"(2) [OF k refl] "8.prems" k deser_inside(1) [of x bs]
    by (cases "k \<le> 0") auto
next
  case (10 bs r x xs)
  then obtain k x' where k: "(if getDataTypeID x = e_BOOL then Some (deserializeBoolPoint bs x)
      else deser_value bs x) = Some (k, x')"
    by (auto split: option.splits)
  show ?case
  proof (cases "k \<le> 0")
    case False
    have "k \<le> int (length bs)"
      using k deser_inside(1) [of x bs] deserializeBoolPoint_le [of bs x] by (auto split: if_splits)
    moreover have "(if getDataTypeID x = e_BOOL then Some (deserializeBoolPoint (bs @ cs) x)
      else deser_value (bs @ cs) x) = Some (k, x')"
      using k "10.IH"(1) False deserializeBoolPoint_append [of bs x k x' cs] by (auto split: if_splits)
    ultimately show ?thesis
      using "10.IH"(2) [OF k refl] "10.prems" k False by auto
  next
    case True
    then show ?thesis
      using k "10.prems" by auto
  qed
qed simp_all

text \<open>The types with an array of size zero, and those with an array that is not of type BOOL.\<close>

fun has_empty_array :: "iec_data \<Rightarrow> bool" where
  "has_empty_array (Arr xs) \<longleftrightarrow> xs = [] \<or> (\<exists>x\<in>set xs. has_empty_array x)"
| "has_empty_array (Struct tg ms) \<longleftrightarrow> (\<exists>x\<in>set ms. has_empty_array x)"
| "has_empty_array (AnyV d) \<longleftrightarrow> has_empty_array d"
| "has_empty_array d \<longleftrightarrow> False"

fun has_tagged_array :: "iec_data \<Rightarrow> bool" where
  "has_tagged_array (Arr xs) \<longleftrightarrow>
     (xs \<noteq> [] \<and> getDataTypeID (hd xs) \<noteq> e_BOOL) \<or> (\<exists>x\<in>set xs. has_tagged_array x)"
| "has_tagged_array (Struct tg ms) \<longleftrightarrow> (\<exists>x\<in>set ms. has_tagged_array x)"
| "has_tagged_array (AnyV d) \<longleftrightarrow> has_tagged_array d"
| "has_tagged_array d \<longleftrightarrow> False"

lemma has_tagged_array_Tag [simp]:
  "has_tagged_array (snd (deserializeTag b d)) = has_tagged_array d"
  by (induction b d rule: deserializeTag.induct) auto

lemma has_empty_array_Tag [simp]:
  "has_empty_array (snd (deserializeTag b d)) = has_empty_array d"
  by (induction b d rule: deserializeTag.induct) auto

text \<open>The outcome of a call that stays inside the bytes and fails.\<close>

definition stops :: "(int \<times> 'a) option \<Rightarrow> bool" where
  "stops o' \<longleftrightarrow> (\<exists>n x. o' = Some (n, x) \<and> n \<le> 0)"

lemma stops_simps [simp]:
  "stops (Some p) \<longleftrightarrow> fst p \<le> 0"
  "\<not> stops None"
  "stops (map_option (map_prod id h) o') \<longleftrightarrow> stops o'"
  by (cases p, auto simp: stops_def)

lemma deser_value_Nil: "stops (deser_value [] d)"
proof (induction d)
  case (Struct tg ms)
  show ?case
  proof (cases ms)
    case (Cons m ms')
    then have "stops (if getDataTypeID m = e_BOOL then Some (deserializeBoolPoint [] m)
        else deser_value [] m)"
      using Struct by (simp add: deserializeBoolPoint_def)
    then show ?thesis
      using Cons by (auto simp: stops_def)
  qed simp
next
  case (Elem t c)
  then show ?case
    using simple_size_pos [of t]
    by (simp add: deserializeValueSimpleDataType_def deserializeValueTime_def Let_def)
qed (simp_all add: deserializeValueString_def)

lemma deser_elems_Nil: "stops (deser_elems [] r (Suc m) x0 xs)"
  using deser_value_Nil [of x0] deser_value_Nil [of "hd xs"] by (cases xs) (auto simp: stops_def)

text \<open>Where the reader leaves the bytes, one more byte is enough for it: it then misses the value.\<close>

lemma deser_one_more:
  "deser_value bs d = None \<Longrightarrow> \<not> has_empty_array d \<Longrightarrow>
     has_tagged_array d \<and> stops (deser_value (bs @ [b]) d)"
  "deser_elems bs r m x0 xs = None \<Longrightarrow> \<not> (\<exists>x\<in>set (x0 # xs). has_empty_array x) \<Longrightarrow>
     stops (deser_elems (bs @ [b]) r m x0 xs)"
  "deser_members bs r xs = None \<Longrightarrow> \<not> (\<exists>x\<in>set xs. has_empty_array x) \<Longrightarrow>
     (\<exists>x\<in>set xs. has_tagged_array x) \<and> stops (deser_members (bs @ [b]) r xs)"
proof (induction bs d and bs r m x0 xs and bs r xs
    rule: deser_value_deser_elems_deser_members.induct)
  case (3 bs xs)
  obtain hi lo rest where bs: "bs = hi # lo # rest" "length_of_bytes hi lo \<noteq> 0"
    using "3.prems" by (auto split: list.splits if_splits)
  obtain x0 ys where xs: "xs = x0 # ys"
    using "3.prems" by (cases xs) auto
  have type: "getDataTypeID x0 \<noteq> e_BOOL"
    using "3.prems" bs xs by (auto split: prod.splits if_splits)
  show ?case
  proof (cases rest)
    case Nil
    obtain ok x0' where tag: "deserializeTag b x0 = (ok, x0')"
      by fastforce
    obtain m where "length_of_bytes hi lo = Suc m"
      using bs(2) by (cases "length_of_bytes hi lo") auto
    then show ?thesis
      using deser_elems_Nil [of 3 m x0' "x0' # ys"] bs xs type Nil tag
      by (auto simp del: deser_elems.simps)
  next
    case (Cons t bs')
    obtain ok x0' where tag: "deserializeTag t x0 = (ok, x0')"
      by fastforce
    have "has_empty_array x0' = has_empty_array x0"
      using tag has_empty_array_Tag [of t x0] by simp
    then show ?thesis
      using "3.IH" [OF bs(1) refl bs(2) xs type Cons tag [symmetric]] "3.prems" bs xs type Cons tag
      by (cases ok) (auto simp del: deser_elems.simps)
  qed
next
  case (7 bs r m x0)
  show ?case
  proof (cases "deser_value bs x0")
    case (Some p)
    obtain k x' where p: "p = (k, x')"
      by fastforce
    show ?thesis
      using "7.IH"(2) [OF Some p [symmetric]] "7.prems" Some p
        deser_append(1) [of bs x0 k x' "[b]"] deser_inside(1) [of x0 bs]
      by (cases "k \<le> 0") auto
  next
    case None
    then show ?thesis
      using "7.IH"(1) "7.prems" by (auto simp: stops_def)
  qed
next
  case (8 bs r m x0 x xs)
  show ?case
  proof (cases "deser_value bs x")
    case (Some p)
    obtain k x' where p: "p = (k, x')"
      by fastforce
    show ?thesis
      using "8.IH"(2) [OF Some p [symmetric]] "8.prems" Some p
        deser_append(1) [of bs x k x' "[b]"] deser_inside(1) [of x bs]
      by (cases "k \<le> 0") auto
  next
    case None
    then show ?thesis
      using "8.IH"(1) "8.prems" by (auto simp: stops_def)
  qed
next
  case (10 bs r x xs)
  let ?o = "\<lambda>bs. if getDataTypeID x = e_BOOL then Some (deserializeBoolPoint bs x)
    else deser_value bs x"
  show ?case
  proof (cases "?o bs")
    case (Some p)
    obtain k x' where p: "p = (k, x')"
      by fastforce
    have "0 < k \<Longrightarrow> k \<le> int (length bs) \<and> ?o (bs @ [b]) = Some (k, x')"
      using Some p deser_append(1) [of bs x k x' "[b]"] deser_inside(1) [of x bs]
        deserializeBoolPoint_append [of bs x k x' "[b]"] deserializeBoolPoint_le [of bs x]
      by (auto split: if_splits)
    then show ?thesis
      using "10.IH"(2) [OF Some p [symmetric]] "10.prems" Some p by (cases "k \<le> 0") auto
  next
    case None
    then have "has_tagged_array x \<and> stops (?o (bs @ [b]))"
      using "10.IH"(1) "10.prems" by (auto split: if_splits)
    then show ?thesis
      by (auto simp: stops_def)
  qed
qed (auto split: if_splits)

lemma deserializeDataPoint_one_more:
  assumes "deserializeDataPoint bs d = None" "\<not> has_empty_array d"
  shows "has_tagged_array d \<and> deserializeDataPoint (bs @ [b]) d \<noteq> None"
proof (cases bs)
  case (Cons t bs')
  obtain ok d' where tag: "deserializeTag t d = (ok, d')"
    by fastforce
  then have "has_empty_array d' = has_empty_array d" "has_tagged_array d' = has_tagged_array d"
    using has_empty_array_Tag [of t d] has_tagged_array_Tag [of t d] by simp_all
  then show ?thesis
    using assms tag Cons deser_one_more(1) [of bs' d' b]
    by (auto simp: deserializeDataPoint_def stops_def split: if_splits)
qed (use assms in \<open>simp add: deserializeDataPoint_def\<close>)

section \<open>Receiving\<close>

text \<open>
  The members of the layer that matter here and the data outputs of its block.  \<open>mDeserBuf\<close> holds the
  first \<open>mDeserBufPos\<close> bytes of the code's buffer.  A data type error ends the loop; what the failed
  call wrote to the variable stays.  The argument \<open>used\<close> of the loop are the bytes at the code's
  \<open>usedBuffer\<close>, and \<open>inBuf\<close> says where this pointer points: into the received packet (\<open>None\<close>) or into
  the code's buffer, at an offset.  In the second case the \<open>memcpy\<close> that keeps the incomplete value for
  the next packet copies inside the buffer, and it must not when source and target overlap.
\<close>

record asn1_layer =
  mRDs :: "iec_data list"
  mDeserBuf :: "byte list"
  mDOPos :: nat

definition wrap_DOPos :: "EComResponse \<Rightarrow> asn1_layer \<Rightarrow> EComResponse \<times> asn1_layer" where
  "wrap_DOPos r st =
     (if length (mRDs st) \<le> mDOPos st then (e_ProcessDataOk, st\<lparr>mDOPos := 0\<rparr>) else (r, st))"

definition deserialize_next :: "byte list \<Rightarrow> asn1_layer \<Rightarrow> (int \<times> asn1_layer) option" where
  "deserialize_next used st =
     (if mRDs st = [] then Some (1, st)
      else case deserializeDataPoint used (mRDs st ! mDOPos st) of None \<Rightarrow> None
      | Some (n, d) \<Rightarrow> Some (n, st\<lparr>mRDs := (mRDs st)[mDOPos st := d]\<rparr>))"

definition keep_rest :: "nat option \<Rightarrow> byte list \<Rightarrow> asn1_layer \<Rightarrow> asn1_layer option" where
  "keep_rest inBuf used st =
     (if mDeserBuf st \<noteq> [] then Some st
      else case inBuf of None \<Rightarrow> Some (st\<lparr>mDeserBuf := used\<rparr>)
      | Some k \<Rightarrow> if k < length used then None else Some (st\<lparr>mDeserBuf := used\<rparr>))"

function recv_loop ::
    "nat option \<Rightarrow> byte list \<Rightarrow> EComResponse \<Rightarrow> asn1_layer \<Rightarrow> (EComResponse \<times> asn1_layer) option" where
  "recv_loop inBuf used r st =
     (if used = [] then Some (r, st)
      else case deserialize_next used st of None \<Rightarrow> None
      | Some (n, st) \<Rightarrow>
        if n = - 2 then Some (e_ProcessDataDataTypeError, st)
        else if n \<le> 0 then map_option (wrap_DOPos r) (keep_rest inBuf used st)
        else (case wrap_DOPos r (st\<lparr>mDOPos := mDOPos st + 1, mDeserBuf := []\<rparr>) of
                (r, st) \<Rightarrow>
                  recv_loop (map_option ((+) (nat n)) inBuf) (drop (nat n) used) r st))"
  by pat_completeness auto

termination
  by (relation "measure (\<lambda>(inBuf, used, r, st). length used)") auto

declare recv_loop.simps [simp del]

definition recvData :: "byte list \<Rightarrow> asn1_layer \<Rightarrow> (EComResponse \<times> asn1_layer) option" where
  "recvData bs st =
     (if mDeserBuf st = [] then recv_loop None bs e_Nothing st
      else recv_loop (Some 0) (mDeserBuf st @ bs) e_Nothing (st\<lparr>mDeserBuf := mDeserBuf st @ bs\<rparr>))"

text \<open>\<open>cut ds n\<close>: what \<open>n\<close> bytes of the encoding of \<open>ds\<close> hold: the length of the whole values, the
  values that are not whole, and how many bytes are there of the first of these.  \<open>well_cut ds m fs\<close>:
  with \<open>m\<close> bytes of the first value kept from before, fragments of the lengths \<open>fs\<close> never make the
  reader stop at a gap, and never leave more bytes to keep than lie before them in the buffer.\<close>

fun cut :: "iec_data list \<Rightarrow> nat \<Rightarrow> nat \<times> iec_data list \<times> nat" where
  "cut [] n = (0, [], n)"
| "cut (d # ds) n =
     (if n < length (enc_point d) then (0, d # ds, n)
      else case cut ds (n - length (enc_point d)) of
        (k, ds', r) \<Rightarrow> (length (enc_point d) + k, ds', r))"

fun well_cut :: "iec_data list \<Rightarrow> nat \<Rightarrow> nat list \<Rightarrow> bool" where
  "well_cut ds m [] \<longleftrightarrow> True"
| "well_cut ds m (f # fs) \<longleftrightarrow>
     (case cut ds (m + f) of (k, ds', r) \<Rightarrow>
        (r = 0 \<or> \<not> gap (hd ds') (r - 1) \<and> (m = 0 \<or> k = 0 \<or> r \<le> k)) \<and> well_cut ds' r fs)"

text \<open>\<open>awaits st ds buf\<close>: of the values \<open>ds\<close> the first ones have arrived, and the bytes \<open>buf\<close> of the
  next.\<close>

definition awaits :: "asn1_layer \<Rightarrow> iec_data list \<Rightarrow> byte list \<Rightarrow> bool" where
  "awaits st ds rest \<longleftrightarrow> mDOPos st < length ds \<and> map shape (mRDs st) = map shape ds \<and>
     take (mDOPos st) (mRDs st) = take (mDOPos st) ds \<and>
     mDeserBuf st @ rest = concat (map enc_point (drop (mDOPos st) ds))"

abbreviation delivered :: "iec_data list \<Rightarrow> asn1_layer" where
  "delivered ds \<equiv> \<lparr>mRDs = ds, mDeserBuf = [], mDOPos = 0\<rparr>"

lemma concat_drop_enc:
  "k < length ds \<Longrightarrow>
   concat (map enc_point (drop k ds)) = enc_point (ds ! k) @ concat (map enc_point (drop (Suc k) ds))"
  by (simp flip: Cons_nth_drop_Suc)

lemma enc_point_nonempty [simp]: "enc_point d \<noteq> []"
  by (simp add: enc_point_def)

text \<open>The copy inside the buffer is one with itself, after \<open>k\<close> bytes of it were used up.\<close>

definition overlaps :: "nat option \<Rightarrow> nat \<Rightarrow> nat \<Rightarrow> bool" where
  "overlaps inBuf k r \<longleftrightarrow> (case inBuf of None \<Rightarrow> False | Some j \<Rightarrow> 0 < j + k \<and> j + k < r)"

lemma overlaps_shift: "overlaps (map_option ((+) n) inBuf) k r = overlaps inBuf (n + k) r" if "0 < n"
  using that by (cases inBuf) (auto simp: overlaps_def ac_simps)

lemma recv_loop_awaits:
  assumes "\<forall>d\<in>set ds. encodable d \<and> exact d" "k < length ds" "map shape (mRDs st) = map shape ds"
    "take k (mRDs st) = take k ds" "mDOPos st = k"
    "used @ q = concat (map enc_point (drop k ds))"
    "case inBuf of Some 0 \<Rightarrow> mDeserBuf st = used | _ \<Rightarrow> mDeserBuf st = []" "used \<noteq> []"
    "cut (drop k ds) (length used) = (w, ds', rest)"
  shows "if rest \<noteq> 0 \<and> (gap (hd ds') (rest - 1) \<or> overlaps inBuf w rest)
    then recv_loop inBuf used r st = None
    else if q = [] then recv_loop inBuf used r st = Some (e_ProcessDataOk, delivered ds)
    else \<exists>st'. recv_loop inBuf used r st = Some (r, st') \<and> awaits st' ds q \<and>
      drop (mDOPos st') ds = ds' \<and> length (mDeserBuf st') = rest"
  using assms
proof (induction "length used" arbitrary: inBuf used st k w rule: less_induct)
  case less
  define d where "d = ds ! k"
  have d: "encodable d" "exact d" "d \<in> set ds"
    using less.prems(1,2) by (auto simp: d_def)
  have len: "length (mRDs st) = length ds"
    using map_eq_imp_length_eq [OF less.prems(3)] .
  have d0: "shape (mRDs st ! k) = shape d"
    using less.prems(2,3) len by (metis d_def nth_map)
  have drop: "drop k ds = d # drop (Suc k) ds"
    using less.prems(2) by (simp add: d_def Cons_nth_drop_Suc)
  have enc: "used @ q = enc_point d @ concat (map enc_point (drop (Suc k) ds))"
    using less.prems(6) drop by simp
  consider us where "us \<noteq> []" "enc_point d = used @ us"
    | used' where "used = enc_point d @ used'" "used' @ q = concat (map enc_point (drop (Suc k) ds))"
    using split_prefix [OF enc] by auto
  then show ?case
  proof cases
    case 1
    then have cut: "w = 0" "ds' = drop k ds" "rest = length used" "rest \<noteq> 0"
      using less.prems(8,9) drop by auto
    have hd: "hd ds' = d"
      by (simp add: cut(2) drop)
    have q: "q \<noteq> []"
      using 1 enc by auto
    have delayed: "delayed (gap d (length used - 1)) (deserializeDataPoint used (mRDs st ! k))"
      using deserializeDataPoint_prefix [OF d(1,2) d0 1(2) [symmetric] 1(1)] .
    show ?thesis
    proof (cases "gap d (length used - 1)")
      case True
      then show ?thesis
        using less.prems(2,5,8) len delayed cut hd
        by (subst recv_loop.simps) (auto simp: deserialize_next_def delayed_def)
    next
      case False
      then obtain n d1 where n: "deserializeDataPoint used (mRDs st ! k) = Some (n, d1)"
          "n = - 1 \<or> n = 0"
        using delayed by (auto simp: delayed_def)
      define st1 where "st1 = st\<lparr>mRDs := (mRDs st)[k := d1]\<rparr>"
      have "shape d1 = shape d"
        using deserializeDataPoint_inside [of "mRDs st ! k" used] n d0 by simp
      then have st1: "map shape (mRDs st1) = map shape ds" "take k (mRDs st1) = take k ds"
          "mDOPos st1 = k" "mDeserBuf st1 = mDeserBuf st"
        using less.prems(2-5) len
        by (simp_all add: st1_def map_update list_update_same_conv d_def)
      have step: "recv_loop inBuf used r st = map_option (wrap_DOPos r) (keep_rest inBuf used st1)"
        using less.prems(2,5,8) len n
        by (subst recv_loop.simps) (auto simp: deserialize_next_def st1_def)
      have wrap: "wrap_DOPos r st2 = (r, st2)" if "mRDs st2 = mRDs st1" "mDOPos st2 = k" for st2
        using that less.prems(2) len by (simp add: wrap_DOPos_def st1_def)
      have keep: "keep_rest inBuf used st1 =
          (if overlaps inBuf w rest then None else Some (st1\<lparr>mDeserBuf := used\<rparr>))"
        using less.prems(7) st1(4) cut less.prems(8)
        by (cases inBuf) (auto simp: keep_rest_def overlaps_def split: nat.splits)
      have "awaits (st1\<lparr>mDeserBuf := used\<rparr>) ds q"
        using st1 less.prems(2,6) by (simp add: awaits_def)
      then show ?thesis
        using step keep wrap cut hd False q st1 by simp
    qed
  next
    case 2
    define st1 where "st1 = st\<lparr>mRDs := (mRDs st)[k := d], mDOPos := Suc k, mDeserBuf := []\<rparr>"
    define n where "n = length (enc_point d)"
    have n0: "0 < n"
      by (simp add: n_def)
    obtain w' where w': "cut (drop (Suc k) ds) (length used') = (w', ds', rest)" "w = n + w'"
      using less.prems(9) 2(1) drop by (auto simp: n_def split: prod.splits)
    have n: "deserializeDataPoint used (mRDs st ! k) = Some (int n, d)"
      using deserializeDataPoint_enc [OF d(1,2) d0] 2(1) by (simp add: n_def)
    have step: "recv_loop inBuf used r st =
        (case wrap_DOPos r st1 of (r, st) \<Rightarrow> recv_loop (map_option ((+) n) inBuf) used' r st)"
      using less.prems(2,5,8) len n 2(1)
      by (subst recv_loop.simps) (auto simp: deserialize_next_def st1_def n_def)
    have st1: "map shape (mRDs st1) = map shape ds" "take (Suc k) (mRDs st1) = take (Suc k) ds"
      using less.prems(2-4) len by (auto simp: st1_def map_update d_def take_Suc_conv_app_nth
          list_update_same_conv)
    show ?thesis
    proof (cases "Suc k = length ds")
      case True
      then have "used' = []" "q = []" "mRDs st1 = ds" "rest = 0"
        using 2(2) st1 len w'(1) by (auto simp: st1_def)
      then show ?thesis
        using step True len by (simp add: wrap_DOPos_def st1_def recv_loop.simps)
    next
      case False
      then have k: "Suc k < length ds"
        using less.prems(2) by simp
      then have wrap: "recv_loop inBuf used r st =
          recv_loop (map_option ((+) n) inBuf) used' r st1"
        using step len by (simp add: wrap_DOPos_def st1_def)
      show ?thesis
      proof (cases "used' = []")
        case True
        then have q: "q \<noteq> []"
          using 2(2) concat_drop_enc [OF k] by auto
        have "drop (Suc k) ds = ds'" "rest = 0"
          using w'(1) True k by (auto simp flip: Cons_nth_drop_Suc)
        then show ?thesis
          using wrap True k st1 2(2) q by (simp add: recv_loop.simps awaits_def) (simp add: st1_def)
      next
        case False
        have "length used' < length used"
          using 2(1) by simp
        moreover have "mDOPos st1 = Suc k" "mDeserBuf st1 = []"
            "case map_option ((+) n) inBuf of Some 0 \<Rightarrow> mDeserBuf st1 = used' | _ \<Rightarrow> mDeserBuf st1 = []"
          using n0 by (auto simp: st1_def split: option.split nat.split)
        ultimately show ?thesis
          using less.hyps [OF _ less.prems(1) k st1 _ 2(2) _ False w'(1)]
          unfolding wrap w'(2) overlaps_shift [OF n0, symmetric] by blast
      qed
    qed
  qed
qed

lemma recvData_awaits:
  assumes ds: "\<forall>d\<in>set ds. encodable d \<and> exact d" and st: "awaits st ds (f @ q)" and "f @ q \<noteq> []"
    and cut: "cut (drop (mDOPos st) ds) (length (mDeserBuf st) + length f) = (w, ds', rest)"
  shows "if rest \<noteq> 0 \<and> (gap (hd ds') (rest - 1) \<or> mDeserBuf st \<noteq> [] \<and> w \<noteq> 0 \<and> w < rest)
    then recvData f st = None
    else if q = [] then recvData f st = Some (e_ProcessDataOk, delivered ds)
    else \<exists>st'. recvData f st = Some (e_Nothing, st') \<and> awaits st' ds q \<and>
      drop (mDOPos st') ds = ds' \<and> length (mDeserBuf st') = rest"
proof (cases "mDeserBuf st @ f = []")
  case True
  moreover have "drop (mDOPos st) ds \<noteq> []"
    using st by (simp add: awaits_def)
  ultimately have "ds' = drop (mDOPos st) ds" "rest = 0"
    using cut by (cases "drop (mDOPos st) ds"; simp)+
  then show ?thesis
    using assms True by (simp add: recvData_def recv_loop.simps)
next
  case False
  define st1 where "st1 = (if mDeserBuf st = [] then st else st\<lparr>mDeserBuf := mDeserBuf st @ f\<rparr>)"
  define inBuf where "inBuf = (if mDeserBuf st = [] then None else Some (0 :: nat))"
  have recv: "recvData f st = recv_loop inBuf (mDeserBuf st @ f) e_Nothing st1"
    by (simp add: recvData_def st1_def inBuf_def)
  have st1: "mRDs st1 = mRDs st" "mDOPos st1 = mDOPos st"
      "case inBuf of Some 0 \<Rightarrow> mDeserBuf st1 = mDeserBuf st @ f | _ \<Rightarrow> mDeserBuf st1 = []"
    by (simp_all add: st1_def inBuf_def)
  have over: "overlaps inBuf w rest \<longleftrightarrow> mDeserBuf st \<noteq> [] \<and> w \<noteq> 0 \<and> w < rest"
    by (simp add: overlaps_def inBuf_def)
  have pos: "mDOPos st < length ds"
    using st by (simp add: awaits_def)
  show ?thesis
    using recv_loop_awaits [OF ds pos _ _ st1(2) _ st1(3) False, of q w ds' rest e_Nothing] st cut st1(1)
    unfolding recv over by (simp add: awaits_def)
qed

definition recv_all :: "byte list list \<Rightarrow> asn1_layer \<Rightarrow> (EComResponse \<times> asn1_layer) option" where
  "recv_all frs st =
     fold (\<lambda>f o'. case o' of None \<Rightarrow> None | Some (r, st) \<Rightarrow> recvData f st) frs (Some (e_Nothing, st))"

lemma fold_recvData_None:
  "fold (\<lambda>f o'. case o' of None \<Rightarrow> None | Some (r, st) \<Rightarrow> recvData f st) frs None = None"
  by (induction frs) simp_all

lemma fold_recvData:
  "\<forall>d\<in>set ds. encodable d \<and> exact d \<Longrightarrow> awaits st ds (concat frs) \<Longrightarrow> frs \<noteq> [] \<Longrightarrow> last frs \<noteq> [] \<Longrightarrow>
   fold (\<lambda>f o'. case o' of None \<Rightarrow> None | Some (r, st) \<Rightarrow> recvData f st) frs (Some (r, st)) =
     (if well_cut (drop (mDOPos st) ds) (length (mDeserBuf st)) (map length frs)
      then Some (e_ProcessDataOk, delivered ds) else None)"
proof (induction frs arbitrary: r st)
  case (Cons f frs)
  have ne: "f @ concat frs \<noteq> []"
    using Cons.prems(4) by (cases frs rule: rev_cases) auto
  obtain w ds' rest where
    cut: "cut (drop (mDOPos st) ds) (length (mDeserBuf st) + length f) = (w, ds', rest)"
    using prod_cases3 by blast
  have step: "if rest \<noteq> 0 \<and> (gap (hd ds') (rest - 1) \<or> mDeserBuf st \<noteq> [] \<and> w \<noteq> 0 \<and> w < rest)
    then recvData f st = None
    else if concat frs = [] then recvData f st = Some (e_ProcessDataOk, delivered ds)
    else \<exists>st'. recvData f st = Some (e_Nothing, st') \<and> awaits st' ds (concat frs) \<and>
      drop (mDOPos st') ds = ds' \<and> length (mDeserBuf st') = rest"
    using recvData_awaits [OF Cons.prems(1) _ ne cut] Cons.prems(2) by simp
  show ?case
  proof (cases "rest \<noteq> 0 \<and> (gap (hd ds') (rest - 1) \<or> mDeserBuf st \<noteq> [] \<and> w \<noteq> 0 \<and> w < rest)")
    case True
    then show ?thesis
      using step cut fold_recvData_None by auto
  next
    case ok: False
    then have here: "rest = 0 \<or> \<not> gap (hd ds') (rest - 1) \<and>
        (length (mDeserBuf st) = 0 \<or> w = 0 \<or> rest \<le> w)"
      by auto
    show ?thesis
    proof (cases "frs = []")
      case True
      then show ?thesis
        using step here ok cut by simp
    next
      case False
      then have last: "last frs \<noteq> []"
        using Cons.prems(4) by simp
      then have more: "concat frs \<noteq> []"
        using False by (cases frs rule: rev_cases) auto
      obtain st' where st': "recvData f st = Some (e_Nothing, st')" "awaits st' ds (concat frs)"
          "drop (mDOPos st') ds = ds'" "length (mDeserBuf st') = rest"
        using step unfolding if_not_P [OF ok] if_not_P [OF more] by blast
      show ?thesis
        using Cons.IH [OF Cons.prems(1) st'(2) False last, of e_Nothing] st' here cut by simp
    qed
  qed
qed simp

section \<open>Properties\<close>

text \<open>C5: the serialiser writes exactly the encoding of the values, tag by tag, when the buffer has
  room for it, and fails otherwise; it never writes a part and reports success.  What a failing call
  has written is not part of the model: it may have put the length and the tag of an array behind the
  end of a buffer that is too small.\<close>

theorem serializeDataPointArray_encodes:
  assumes "ds \<noteq> []" "\<forall>d\<in>set ds. encodable d" "paStreamSize \<le> 2147483647"
  shows "serializeDataPointArray paStreamSize ds =
    (if length (concat (map enc_point ds)) \<le> paStreamSize
     then Some (concat (map enc_point ds)) else None)"
  using assms by (simp add: serializeDataPointArray_def ser_points_enc)

theorem serializeDataPointArray_encodes_witness:
  "serializeDataPointArray 4 [Elem e_BOOL 1, Elem e_INT 258] = Some [65, 67, 1, 2] \<and>
   serializeDataPointArray 3 [Elem e_BOOL 1, Elem e_INT 258] = None"
  using serializeDataPointArray_encodes [of "[Elem e_BOOL 1, Elem e_INT 258]" 4]
    serializeDataPointArray_encodes [of "[Elem e_BOOL 1, Elem e_INT 258]" 3]
  by (simp add: simple_def enc_point_def data_tag_def csmDataTags_def value_size_def be_bytes_def
      get_byte_def BOOL_value_def upt_rec drop_bit_eq_div)

text \<open>C4: what one layer sends another receives, and when.  For values the serialiser handles
  (\<open>encodable\<close>) that a round trip keeps (\<open>exact\<close>: a TIME is a whole number of microseconds, a BOOL is
  0 or 1, short types hold the extension of their value) and whose structures take at most 255 bytes
  each (\<open>small_structs\<close>), \<open>sendData\<close> hands their encoding to the layer below.  A layer whose block has
  outputs of the same types, fed with any fragments of these bytes, ends with the same values in the
  outputs, an empty buffer, and \<open>e_ProcessDataOk\<close>, exactly when the fragments are \<open>well_cut\<close>: no
  fragment ends between the length of an array and the tag of its elements, and one that completes a
  value begun in an earlier fragment does not go on with an incomplete value longer than the bytes
  before it.  In these two cases the code leaves its memory or copies overlapping memory.\<close>

theorem sent_is_received:
  assumes "ds \<noteq> []" "\<forall>d\<in>set ds. encodable d \<and> exact d \<and> small_structs d"
    "sum_list (map getRequiredSerializationSize ds) \<le> 2147483647"
    "map shape (mRDs st) = map shape ds" "mDOPos st = 0" "mDeserBuf st = []"
    "concat frs = concat (map enc_point ds)" "last frs \<noteq> []"
  shows "sendData (Some send) ds = (send (concat frs), Some (concat frs)) \<and>
    recv_all frs st =
      (if well_cut ds 0 (map length frs)
       then Some (e_ProcessDataOk, \<lparr>mRDs = ds, mDeserBuf = [], mDOPos = 0\<rparr>) else None)"
proof
  have "length (concat (map enc_point ds)) = sum_list (map (\<lambda>d. length (enc_point d)) ds)"
    by (simp add: length_concat comp_def)
  also have "\<dots> \<le> sum_list (map getRequiredSerializationSize ds)"
    using assms(2) by (intro sum_list_mono) (auto intro: required_suffices)
  finally have "serializeDataPointArray (sum_list (map getRequiredSerializationSize ds)) ds =
      Some (concat frs)"
    using assms(1-3,7) by (simp add: serializeDataPointArray_def ser_points_enc)
  moreover have ne: "concat frs \<noteq> []"
    using assms(1,7) by (cases ds) auto
  ultimately show "sendData (Some send) ds = (send (concat frs), Some (concat frs))"
    using assms(1) by (simp add: sendData_def del: concat_eq_Nil_conv)
  have "awaits st ds (concat frs)"
    using assms by (simp add: awaits_def)
  moreover have "frs \<noteq> []"
    using ne by auto
  ultimately show "recv_all frs st =
      (if well_cut ds 0 (map length frs)
       then Some (e_ProcessDataOk, \<lparr>mRDs = ds, mDeserBuf = [], mDOPos = 0\<rparr>) else None)"
    using assms(2,5,6,8) fold_recvData [of ds st frs] by (simp add: recv_all_def)
qed

lemma length_two: "length_bytes 2 = [0, 2]"
  by (simp add: length_bytes_def)

theorem sent_is_received_witness:
  "sendData (Some (\<lambda>_. e_ProcessDataOk)) [Elem e_INT 258, Str [65]] =
     (e_ProcessDataOk, Some [67, 1, 2, 80, 0, 1, 65]) \<and>
   recv_all [[67, 1], [2, 80, 0], [1, 65]] \<lparr>mRDs = [Elem e_INT 0, Str []], mDeserBuf = [], mDOPos = 0\<rparr> =
     Some (e_ProcessDataOk, \<lparr>mRDs = [Elem e_INT 258, Str [65]], mDeserBuf = [], mDOPos = 0\<rparr>) \<and>
   recv_all [[118, 0, 2], [66, 7, 8]]
     \<lparr>mRDs = [Arr [Elem e_SINT 0, Elem e_SINT 0]], mDeserBuf = [], mDOPos = 0\<rparr> = None \<and>
   recv_all [[118, 0], [2, 66, 7, 8]]
     \<lparr>mRDs = [Arr [Elem e_SINT 0, Elem e_SINT 0]], mDeserBuf = [], mDOPos = 0\<rparr> =
     Some (e_ProcessDataOk, \<lparr>mRDs = [Arr [Elem e_SINT 7, Elem e_SINT 8]], mDeserBuf = [], mDOPos = 0\<rparr>) \<and>
   recv_all [[66], [7, 67, 1, 2, 80, 0, 1], [65]]
     \<lparr>mRDs = [Elem e_SINT 0, Elem e_INT 0, Str []], mDeserBuf = [], mDOPos = 0\<rparr> =
     Some (e_ProcessDataOk, \<lparr>mRDs = [Elem e_SINT 7, Elem e_INT 258, Str [65]], mDeserBuf = [], mDOPos = 0\<rparr>) \<and>
   recv_all [[66], [7, 80, 0, 3], [65, 65, 65]]
     \<lparr>mRDs = [Elem e_SINT 0, Str []], mDeserBuf = [], mDOPos = 0\<rparr> = None"
  using sent_is_received [of "[Elem e_INT 258, Str [65]]"
      "\<lparr>mRDs = [Elem e_INT 0, Str []], mDeserBuf = [], mDOPos = 0\<rparr>"
      "[[67, 1], [2, 80, 0], [1, 65]]" "\<lambda>_. e_ProcessDataOk"]
    sent_is_received [of "[Arr [Elem e_SINT 7, Elem e_SINT 8]]"
      "\<lparr>mRDs = [Arr [Elem e_SINT 0, Elem e_SINT 0]], mDeserBuf = [], mDOPos = 0\<rparr>"
      "[[118, 0, 2], [66, 7, 8]]" "\<lambda>_. e_ProcessDataOk"]
    sent_is_received [of "[Arr [Elem e_SINT 7, Elem e_SINT 8]]"
      "\<lparr>mRDs = [Arr [Elem e_SINT 0, Elem e_SINT 0]], mDeserBuf = [], mDOPos = 0\<rparr>"
      "[[118, 0], [2, 66, 7, 8]]" "\<lambda>_. e_ProcessDataOk"]
    sent_is_received [of "[Elem e_SINT 7, Elem e_INT 258, Str [65]]"
      "\<lparr>mRDs = [Elem e_SINT 0, Elem e_INT 0, Str []], mDeserBuf = [], mDOPos = 0\<rparr>"
      "[[66], [7, 67, 1, 2, 80, 0, 1], [65]]" "\<lambda>_. e_ProcessDataOk"]
    sent_is_received [of "[Elem e_SINT 7, Str [65, 65, 65]]"
      "\<lparr>mRDs = [Elem e_SINT 0, Str []], mDeserBuf = [], mDOPos = 0\<rparr>"
      "[[66], [7, 80, 0, 3], [65, 65, 65]]" "\<lambda>_. e_ProcessDataOk"]
  by (simp add: simple_def enc_point_def data_tag_def csmDataTags_def value_size_def be_bytes_def
      get_byte_def upt_rec drop_bit_eq_div length_bytes_def piece_def encodable.simps)

text \<open>C6: what the reader takes from arbitrary bytes.  A call that stays inside them answers at most
  their number and leaves the type of the variable as it was.  A call that leaves them, on a type
  without arrays of size zero, does so by one byte only: the type has an array that is not of BOOLs,
  and with any byte more at the end the same call stays inside.\<close>

theorem deserializeDataPoint_bounded:
  "case deserializeDataPoint bs d of
     Some (n, d') \<Rightarrow> n \<le> int (length bs) \<and> shape d' = shape d
   | None \<Rightarrow> has_empty_array d \<or>
       (has_tagged_array d \<and> (\<forall>b. deserializeDataPoint (bs @ [b]) d \<noteq> None))"
proof (cases "deserializeDataPoint bs d")
  case None
  then show ?thesis
    using deserializeDataPoint_one_more by auto
next
  case (Some p)
  then show ?thesis
    using deserializeDataPoint_inside [of d bs] by (simp add: split_beta)
qed

lemma recvData_stuck:
  assumes "mDeserBuf st = b # bs" "b AND 64 = 0" "mRDs st \<noteq> []" "mDOPos st < length (mRDs st)"
  shows "recvData f st = Some (e_Nothing, st\<lparr>mDeserBuf := mDeserBuf st @ f\<rparr>)"
  using assms
  by (simp add: recvData_def recv_loop.simps deserialize_next_def deserializeDataPoint_def
      wrap_DOPos_def keep_rest_def)

text \<open>A layer that has kept a byte without the application bit at the start of its buffer stays
  there for ever: nothing it receives later is delivered, every fragment is appended.  The code takes
  the byte for the start of a value whose rest is still to come, where it drops a packet that
  starts with the tag of another type.\<close>

theorem desynchronised_for_ever:
  assumes "mDeserBuf st = b # bs" "b AND 64 = 0" "mRDs st \<noteq> []" "mDOPos st < length (mRDs st)"
  shows "recv_all frs st = Some (e_Nothing, st\<lparr>mDeserBuf := mDeserBuf st @ concat frs\<rparr>)"
proof -
  have "fold (\<lambda>f o'. case o' of None \<Rightarrow> None | Some (r, st) \<Rightarrow> recvData f st) frs (Some (e_Nothing, st)) =
      Some (e_Nothing, st\<lparr>mDeserBuf := mDeserBuf st @ concat frs\<rparr>)"
    using assms
  proof (induction frs arbitrary: st bs)
    case (Cons f frs)
    then show ?case
      using recvData_stuck [OF Cons.prems, of f] Cons.IH [of "st\<lparr>mDeserBuf := mDeserBuf st @ f\<rparr>"]
      by simp
  qed simp
  then show ?thesis
    by (simp add: recv_all_def)
qed

theorem desynchronised_for_ever_witness:
  "recv_all [[0, 67, 1, 2], [67, 1, 2]] \<lparr>mRDs = [Elem e_INT 7], mDeserBuf = [], mDOPos = 0\<rparr> =
     Some (e_Nothing, \<lparr>mRDs = [Elem e_INT 7], mDeserBuf = [0, 67, 1, 2, 67, 1, 2], mDOPos = 0\<rparr>) \<and>
   recv_all [[67, 1, 2]] \<lparr>mRDs = [Elem e_INT 7], mDeserBuf = [0, 67, 1, 2], mDOPos = 0\<rparr> =
     Some (e_Nothing, \<lparr>mRDs = [Elem e_INT 7], mDeserBuf = [0, 67, 1, 2, 67, 1, 2], mDOPos = 0\<rparr>)"
  using desynchronised_for_ever
    [of "\<lparr>mRDs = [Elem e_INT 7], mDeserBuf = [0, 67, 1, 2], mDOPos = 0\<rparr>" 0 "[67, 1, 2]" "[[67, 1, 2]]"]
  by (simp add: recv_all_def recvData_def recv_loop.simps deserialize_next_def
      deserializeDataPoint_def wrap_DOPos_def keep_rest_def)

text \<open>A CHAR, WCHAR, LDATE, LTIME_OF_DAY, LDATE_AND_TIME or LTIME can be received but not sent: a
  send that contains one fails, whatever the value and the other data are.\<close>

lemma ser_points_unsendable:
  "Elem t c \<in> set ds \<Longrightarrow> \<not> simple t \<Longrightarrow> t \<noteq> e_BOOL \<Longrightarrow> t \<noteq> e_TIME \<Longrightarrow> ser_points out n ds = None"
  by (induction ds arbitrary: out n) (auto simp: serializeDataPoint_def split: option.split)

theorem not_sendable:
  assumes "t \<in> {e_CHAR, e_WCHAR, e_LDATE, e_LTIME_OF_DAY, e_LDATE_AND_TIME, e_LTIME}"
    and "Elem t c \<in> set ds"
  shows "sendData (Some send) ds = (e_ProcessDataDataTypeError, None) \<and>
    (\<exists>bs d. deserializeDataPoint bs (Elem t c) = Some (int (length bs), d) \<and> bs \<noteq> [])"
proof
  have t: "\<not> simple t" "t \<noteq> e_BOOL" "t \<noteq> e_TIME"
    using assms(1) by (auto simp: simple_def)
  then show "sendData (Some send) ds = (e_ProcessDataDataTypeError, None)"
    using ser_points_unsendable [OF assms(2) t] assms(2)
    by (auto simp: sendData_def serializeDataPointArray_def Let_def)
  have "\<exists>d. deserializeDataPoint (data_tag t # replicate (value_size t) 0) (Elem t c) =
      Some (int (length (data_tag t # replicate (value_size t) 0)), d)"
    using assms(1)
    by (auto simp: deserializeDataPoint_def scmSimpleEncodableDataTypes_def
        deserializeValueSimpleDataType_def deserializeValueTime_def value_size_def csmDataTags_def
        data_tag_def)
  then show "\<exists>bs d. deserializeDataPoint bs (Elem t c) = Some (int (length bs), d) \<and> bs \<noteq> []"
    by blast
qed

theorem not_sendable_witness:
  "sendData (Some (\<lambda>_. e_ProcessDataOk)) [Elem e_CHAR 65] = (e_ProcessDataDataTypeError, None)"
  using not_sendable [of e_CHAR 65 "[Elem e_CHAR 65]" "\<lambda>_. e_ProcessDataOk"] by simp

end
