(* ===== verification/Sorted_Vector.thy ===== *)
theory Sorted_Vector
imports Prelude
begin

text \<open>
  The \<open>std::vector\<close> that several components keep sorted by the address of a name and search with
  \<open>std::lower_bound\<close>: the children of a container, the type library, the groups of the local
  communication layer.
\<close>

section \<open>Operations\<close>

text \<open>\<open>std::lower_bound\<close> on a list that is partitioned by \<open>p\<close>: the number of elements before the first
  that does not satisfy it.\<close>

definition lower_bound :: "('a \<Rightarrow> bool) \<Rightarrow> 'a list \<Rightarrow> nat" where
  "lower_bound p xs = length (takeWhile p xs)"

definition insert_at :: "nat \<Rightarrow> 'a \<Rightarrow> 'a list \<Rightarrow> 'a list" where
  "insert_at i x xs = take i xs @ x # drop i xs"

definition erase_at :: "nat \<Rightarrow> 'a list \<Rightarrow> 'a list" where
  "erase_at i xs = take i xs @ drop (Suc i) xs"

section \<open>Facts\<close>

lemma length_insert_at [simp]: "length (insert_at i x xs) = Suc (length xs)"
  by (simp add: insert_at_def)

lemma set_insert_at [simp]: "set (insert_at i x xs) = insert x (set xs)"
  by (simp add: insert_at_def) (metis Un_insert_right append_take_drop_id set_append)

lemma nth_insert_at [simp]: "i \<le> length xs \<Longrightarrow> insert_at i x xs ! i = x"
  by (simp add: insert_at_def nth_append)

lemma erase_insert_at [simp]: "i \<le> length xs \<Longrightarrow> erase_at i (insert_at i x xs) = xs"
  by (simp add: insert_at_def erase_at_def min_def)

lemma insert_at_update [simp]: "i \<le> length xs \<Longrightarrow> (insert_at i x xs)[i := y] = insert_at i y xs"
  by (simp add: insert_at_def list_update_append)

lemma set_erase_at: "set (erase_at i xs) \<subseteq> set xs"
  by (auto simp: erase_at_def dest: in_set_takeD in_set_dropD)

lemma lower_bound_le: "lower_bound p xs \<le> length xs"
  by (simp add: lower_bound_def length_takeWhile_le)

text \<open>The list is sorted by the key \<open>f\<close>, with distinct keys.\<close>

abbreviation keys_sorted :: "('a \<Rightarrow> 'k :: linorder) \<Rightarrow> 'a list \<Rightarrow> bool" where
  "keys_sorted f xs \<equiv> sorted_wrt (<) (map f xs)"

lemma lower_bound_found:
  assumes "keys_sorted f xs" "i < length xs" "f (xs ! i) = k"
  shows "lower_bound (\<lambda>x. f x < k) xs = i"
proof -
  have "takeWhile (\<lambda>x. f x < k) xs = take i xs"
    using assms by (intro takeWhile_eq_take_P_nth) (auto simp: sorted_wrt_iff_nth_less)
  then show ?thesis
    using assms(2) by (simp add: lower_bound_def)
qed

lemma lower_bound_iff:
  assumes "keys_sorted f xs"
  shows "(lower_bound (\<lambda>x. f x < k) xs \<noteq> length xs \<and> f (xs ! lower_bound (\<lambda>x. f x < k) xs) = k) \<longleftrightarrow>
    k \<in> f ` set xs"
proof
  assume "k \<in> f ` set xs"
  then obtain i where "i < length xs" "f (xs ! i) = k"
    by (auto simp: in_set_conv_nth)
  then show "lower_bound (\<lambda>x. f x < k) xs \<noteq> length xs \<and> f (xs ! lower_bound (\<lambda>x. f x < k) xs) = k"
    using lower_bound_found [OF assms] by simp
next
  assume "lower_bound (\<lambda>x. f x < k) xs \<noteq> length xs \<and> f (xs ! lower_bound (\<lambda>x. f x < k) xs) = k"
  then show "k \<in> f ` set xs"
    using lower_bound_le [of "\<lambda>x. f x < k" xs] by (metis image_eqI le_neq_implies_less nth_mem)
qed

lemma insert_keys_sorted:
  assumes "keys_sorted f xs" "f x \<notin> f ` set xs"
  shows "keys_sorted f (insert_at (lower_bound (\<lambda>y. f y < f x) xs) x xs)"
proof -
  define ys where "ys = takeWhile (\<lambda>y. f y < f x) xs"
  define zs where "zs = dropWhile (\<lambda>y. f y < f x) xs"
  have xs: "xs = ys @ zs"
    by (simp add: ys_def zs_def)
  have ins: "insert_at (lower_bound (\<lambda>y. f y < f x) xs) x xs = ys @ x # zs"
    by (simp add: insert_at_def lower_bound_def ys_def zs_def
        flip: takeWhile_eq_take dropWhile_eq_drop)
  have "f x < f z" if z: "z \<in> set zs" for z
  proof -
    obtain z0 zs' where zs: "zs = z0 # zs'"
      using z by (cases zs) auto
    have "\<not> f z0 < f x"
      using zs hd_dropWhile [of "\<lambda>y. f y < f x" xs] by (simp add: zs_def)
    moreover have "f x \<noteq> f z0"
      using assms(2) xs zs by auto
    ultimately have "f x < f z0"
      by simp
    moreover have "f z0 \<le> f z"
      using assms(1) z xs zs by (auto simp: sorted_wrt_append less_imp_le)
    ultimately show ?thesis
      by (rule less_le_trans)
  qed
  moreover have "f y < f x" if "y \<in> set ys" for y
    using that set_takeWhileD unfolding ys_def by fastforce
  moreover have "keys_sorted f (ys @ zs)"
    using assms(1) by (simp only: xs [symmetric])
  ultimately show ?thesis
    unfolding ins by (auto simp: sorted_wrt_append)
qed

lemma erase_keys_sorted: "keys_sorted f xs \<Longrightarrow> keys_sorted f (erase_at i xs)"
proof -
  assume "keys_sorted f xs"
  then have *: "keys_sorted f (take i xs @ drop i xs)"
    by simp
  have "drop (Suc i) xs = tl (drop i xs)"
    by (simp add: drop_Suc tl_drop)
  then show ?thesis
    using * unfolding erase_at_def by (cases "drop i xs") (auto simp: sorted_wrt_append)
qed

section \<open>The vector as a map\<close>

text \<open>What a vector whose names are \<open>n\<close> maps a name to.\<close>

definition vector_map :: "('a \<Rightarrow> 'n) \<Rightarrow> 'a list \<Rightarrow> 'n \<rightharpoonup> 'a" where
  "vector_map n xs k = find (\<lambda>x. n x = k) xs"

lemma vector_map_SomeD: "vector_map n xs k = Some x \<Longrightarrow> x \<in> set xs \<and> n x = k"
  by (auto simp: vector_map_def find_Some_iff)

lemma vector_map_None_iff: "vector_map n xs k = None \<longleftrightarrow> k \<notin> n ` set xs"
  by (auto simp: vector_map_def find_None_iff)

lemma vector_map_append:
  "vector_map n (xs @ ys) k = (case vector_map n xs k of None \<Rightarrow> vector_map n ys k | Some x \<Rightarrow> Some x)"
  unfolding vector_map_def by (induction xs) auto

lemma vector_map_unique:
  assumes "distinct (map n xs)" "x \<in> set xs"
  shows "vector_map n xs (n x) = Some x"
  using assms unfolding vector_map_def by (induction xs) (auto simp: image_iff)

lemma keys_sorted_distinct: "keys_sorted (\<lambda>x. addr (n x)) xs \<Longrightarrow> distinct (map n xs)"
  by (induction xs) auto

lemma vector_map_insert:
  assumes "n x \<notin> n ` set xs"
  shows "vector_map n (insert_at i x xs) = (vector_map n xs)(n x \<mapsto> x)"
proof
  fix k
  define ys zs where "ys = take i xs" and "zs = drop i xs"
  have xs: "xs = ys @ zs"
    by (simp add: ys_def zs_def)
  have none: "vector_map n ys (n x) = None"
    using assms xs by (auto simp: vector_map_None_iff)
  have "insert_at i x xs = ys @ x # zs" "vector_map n xs k = vector_map n (ys @ zs) k"
    using xs by (simp_all add: insert_at_def ys_def zs_def)
  then show "vector_map n (insert_at i x xs) k = ((vector_map n xs)(n x \<mapsto> x)) k"
    using none
    by (simp add: vector_map_append split: option.splits) (auto simp: vector_map_def)
qed

lemma vector_map_erase:
  assumes "distinct (map n xs)" "i < length xs"
  shows "vector_map n (erase_at i xs) = (vector_map n xs)(n (xs ! i) := None)"
proof
  fix k
  define ys zs where "ys = take i xs" and "zs = drop (Suc i) xs"
  have xs: "xs = ys @ xs ! i # zs"
    using assms(2) by (simp add: ys_def zs_def id_take_nth_drop)
  have "distinct (map n (ys @ xs ! i # zs))"
    using assms(1) xs by simp
  then have none: "vector_map n ys (n (xs ! i)) = None" "vector_map n zs (n (xs ! i)) = None"
    by (auto simp: vector_map_None_iff)
  have "vector_map n xs k = vector_map n (ys @ xs ! i # zs) k"
    using xs by simp
  then show "vector_map n (erase_at i xs) k = ((vector_map n xs)(n (xs ! i) := None)) k"
    using none
    by (simp add: erase_at_def vector_map_append flip: ys_def zs_def split: option.splits)
      (auto simp: vector_map_def)
qed

lemma vector_map_update:
  assumes "distinct (map n xs)" "i < length xs" "n y = n (xs ! i)"
  shows "vector_map n (xs[i := y]) = (vector_map n xs)(n y \<mapsto> y)"
proof
  fix k
  define ys zs where "ys = take i xs" and "zs = drop (Suc i) xs"
  have xs: "xs = ys @ xs ! i # zs" and upd: "xs[i := y] = ys @ y # zs"
    using assms(2) by (simp_all add: ys_def zs_def id_take_nth_drop upd_conv_take_nth_drop)
  have "distinct (map n (ys @ xs ! i # zs))"
    using assms(1) xs by simp
  then have none: "vector_map n ys (n y) = None"
    using assms(3) by (auto simp: vector_map_None_iff)
  have "vector_map n xs k = vector_map n (ys @ xs ! i # zs) k"
    using xs by simp
  then show "vector_map n (xs[i := y]) k = ((vector_map n xs)(n y \<mapsto> y)) k"
    using none assms(3) unfolding upd
    by (simp add: vector_map_append split: option.splits) (auto simp: vector_map_def)
qed

section \<open>Adding and removing by key\<close>

text \<open>Insertion unless the key is there, and removal of a key, as several components write them.\<close>

definition sorted_add :: "('a \<Rightarrow> 'k :: linorder) \<Rightarrow> 'a \<Rightarrow> 'a list \<Rightarrow> 'a list" where
  "sorted_add f x xs =
     (let it = lower_bound (\<lambda>y. f y < f x) xs
      in if it \<noteq> length xs \<and> f (xs ! it) = f x then xs else insert_at it x xs)"

definition sorted_remove :: "('a \<Rightarrow> 'k :: linorder) \<Rightarrow> 'k \<Rightarrow> 'a list \<Rightarrow> bool \<times> 'a list" where
  "sorted_remove f k xs =
     (let it = lower_bound (\<lambda>y. f y < k) xs
      in if it \<noteq> length xs \<and> f (xs ! it) = k then (True, erase_at it xs) else (False, xs))"

lemma keys_sorted_distinct_keys: "keys_sorted f xs \<Longrightarrow> distinct (map f xs)"
  by (induction xs) auto

lemma sorted_add_laws:
  assumes "keys_sorted f xs"
  shows "keys_sorted f (sorted_add f x xs)"
    and "set (sorted_add f x xs) = (if f x \<in> f ` set xs then set xs else insert x (set xs))"
proof -
  note found = lower_bound_iff [OF assms, of "f x"]
  show "keys_sorted f (sorted_add f x xs)"
    using assms found insert_keys_sorted [OF assms, of x] by (auto simp: sorted_add_def Let_def)
  show "set (sorted_add f x xs) = (if f x \<in> f ` set xs then set xs else insert x (set xs))"
    using found by (simp add: sorted_add_def Let_def)
qed

lemma set_erase_distinct:
  assumes "distinct (map f xs)" "i < length xs"
  shows "set (erase_at i xs) = {x \<in> set xs. f x \<noteq> f (xs ! i)}"
proof -
  have xs: "xs = take i xs @ xs ! i # drop (Suc i) xs"
    using assms(2) by (simp add: id_take_nth_drop)
  have "distinct (map f (take i xs @ xs ! i # drop (Suc i) xs))"
    using assms(1) xs by simp
  then have "{x \<in> set (take i xs @ xs ! i # drop (Suc i) xs). f x \<noteq> f (xs ! i)} = set (erase_at i xs)"
    by (auto simp: erase_at_def) (metis image_eqI)+
  then show ?thesis
    using xs by simp
qed

lemma sorted_remove_laws:
  assumes "keys_sorted f xs"
  shows "fst (sorted_remove f k xs) \<longleftrightarrow> k \<in> f ` set xs"
    and "keys_sorted f (snd (sorted_remove f k xs))"
    and "set (snd (sorted_remove f k xs)) = {x \<in> set xs. f x \<noteq> k}"
proof -
  define it where "it = lower_bound (\<lambda>y. f y < k) xs"
  have found: "it \<noteq> length xs \<and> f (xs ! it) = k \<longleftrightarrow> k \<in> f ` set xs"
    unfolding it_def by (rule lower_bound_iff [OF assms])
  have le: "it \<le> length xs"
    by (simp add: it_def lower_bound_le)
  show "fst (sorted_remove f k xs) \<longleftrightarrow> k \<in> f ` set xs"
    using found by (simp add: sorted_remove_def Let_def flip: it_def)
  show "keys_sorted f (snd (sorted_remove f k xs))"
    using assms erase_keys_sorted [OF assms, of it] by (simp add: sorted_remove_def Let_def flip: it_def)
  show "set (snd (sorted_remove f k xs)) = {x \<in> set xs. f x \<noteq> k}"
  proof (cases "k \<in> f ` set xs")
    case True
    then have "it < length xs" "f (xs ! it) = k"
      using found le by auto
    then show ?thesis
      using set_erase_distinct [OF keys_sorted_distinct_keys [OF assms], of it]
      by (simp add: sorted_remove_def Let_def flip: it_def)
  next
    case False
    then show ?thesis
      using found by (auto simp: sorted_remove_def Let_def simp flip: it_def)
  qed
qed

section \<open>Addresses of texts\<close>

text \<open>Addresses that differ for different texts, for examples.\<close>

primrec text_code :: "string \<Rightarrow> nat" where
  "text_code [] = 1"
| "text_code (ch # s) = of_char ch + 256 * text_code s"

lemma of_char_mod_256: "of_char (ch :: char) mod 256 = (of_char ch :: nat)"
  using of_char_of [of "of_char ch :: nat"] by simp

lemma text_code_pos: "0 < text_code s"
  by (induction s) simp_all

lemma text_code_inj: "text_code s = text_code t \<Longrightarrow> s = t"
proof (induction s arbitrary: t)
  case Nil
  then show ?case
    using text_code_pos [of "tl t"] by (cases t) auto
next
  case (Cons ch s)
  then obtain ch' t' where t: "t = ch' # t'"
    using text_code_pos [of s] by (cases t) auto
  have eq: "of_char ch + 256 * text_code s = of_char ch' + 256 * text_code t'"
    using Cons.prems t by simp
  then have "of_char ch = (of_char ch' :: nat)"
    using of_char_mod_256 [of ch] of_char_mod_256 [of ch'] by (metis mod_mult_self2)
  then show ?case
    using eq t Cons.IH [of t'] by simp
qed

end
