(* ===== verification/FB_Container.thy ===== *)
theory FB_Container
imports Function_Block Mgm_Cmd Sorted_Vector
begin

text \<open>
  The tree of containers and blocks: \<open>core/src/fbcontainer.cpp\<close> (children sorted by name, creation,
  deletion, look-up along a list of names, execution commands to a whole tree), the type library of
  \<open>core/src/typelib.cpp\<close> that creates blocks, and the commands of a resource on them
  (\<open>core/src/resource.cpp\<close>, \<open>core/src/device.cpp\<close>).

  Ids are ordered by the addresses of their texts; the addresses and the table of interned texts
  (theory \<open>String_Id\<close>) are part of the record \<open>runtime\<close>, with the registered types.  What a type's
  creation function, its \<open>configureFB\<close> and its \<open>initialize\<close> do is part of its entry.
\<close>

section \<open>Data\<close>

datatype container_kind =
    PlainContainer
  | Block CFunctionBlock
  | Resource CFunctionBlock "ecet option"

datatype CFBContainer =
  CFBContainer (mContInstanceName: StringId) (mKind: container_kind) (mChildren: "CFBContainer list")

record CFBTypeEntry =
  mTypeNameId :: StringId
  mTypeHash :: string
  createFBInstance :: "StringId \<Rightarrow> CFBContainer option"
  configureFB :: "string \<Rightarrow> CFBContainer \<Rightarrow> CFBContainer option"
  initializeFB :: "CFBContainer \<Rightarrow> CFBContainer option"

record runtime =
  text_addr :: "string \<Rightarrow> nat"
  lookup_id :: "string \<Rightarrow> StringId"
  fbTypeLib :: "CFBTypeEntry list"

definition isFB :: "CFBContainer \<Rightarrow> bool" where
  "isFB c = (mKind c \<noteq> PlainContainer)"

definition isDynamicContainer :: "CFBContainer \<Rightarrow> bool" where
  "isDynamicContainer c = (case mKind c of Block b \<Rightarrow> False | _ \<Rightarrow> True)"

definition id_addr :: "runtime \<Rightarrow> StringId \<Rightarrow> nat" where
  "id_addr rt n = (case n of None \<Rightarrow> 0 | Some t \<Rightarrow> text_addr rt t)"

definition id_less :: "runtime \<Rightarrow> StringId \<Rightarrow> StringId \<Rightarrow> bool" where
  "id_less rt a b = (id_addr rt a < id_addr rt b)"

definition id_eq :: "runtime \<Rightarrow> StringId \<Rightarrow> StringId \<Rightarrow> bool" where
  "id_eq rt a b = (id_addr rt a = id_addr rt b)"

section \<open>The type library\<close>

definition findTypeEntry :: "runtime \<Rightarrow> CFBTypeEntry list \<Rightarrow> StringId \<Rightarrow> CFBTypeEntry option" where
  "findTypeEntry rt lib n =
     (let it = lower_bound (\<lambda>e. id_less rt (mTypeNameId e) n) lib
      in if it \<noteq> length lib \<and> id_eq rt (mTypeNameId (lib ! it)) n then Some (lib ! it) else None)"

definition sortedTypeEntryInsert :: "runtime \<Rightarrow> CFBTypeEntry list \<Rightarrow> CFBTypeEntry \<Rightarrow> CFBTypeEntry list" where
  "sortedTypeEntryInsert rt lib e =
     (let pos = lower_bound (\<lambda>x. id_less rt (mTypeNameId x) (mTypeNameId e)) lib
      in if pos \<noteq> length lib \<and> id_eq rt (mTypeNameId (lib ! pos)) (mTypeNameId e) then lib
         else insert_at pos e lib)"

definition addFBType :: "CFBTypeEntry \<Rightarrow> runtime \<Rightarrow> runtime" where
  "addFBType e rt = rt\<lparr>fbTypeLib := sortedTypeEntryInsert rt (fbTypeLib rt) e\<rparr>"

text \<open>\<open>std::string_view::find\<close> of a character from a position on, and \<open>rfind\<close> of \<open>::\<close> up to a position.\<close>

definition find_from :: "char \<Rightarrow> nat \<Rightarrow> string \<Rightarrow> nat option" where
  "find_from ch k s = find (\<lambda>i. s ! i = ch) [k..<length s]"

definition rfind_separator :: "nat \<Rightarrow> string \<Rightarrow> nat option" where
  "rfind_separator p s = find (\<lambda>i. take 2 (drop i s) = ''::'') (rev [0..<Suc (min p (length s))])"

lemma find_from_Some: "find_from ch k s = Some i \<Longrightarrow> k \<le> i \<and> i < length s \<and> s ! i = ch"
  by (auto simp: find_from_def find_Some_iff)

text \<open>The loop of \<open>getFirstNonTypeNameUnderscorePos\<close>; \<open>None\<close> is \<open>npos\<close>.  The character after the last
  one is the terminating zero.\<close>

function underscore_loop :: "string \<Rightarrow> nat \<Rightarrow> nat option" where
  "underscore_loop s result =
     (case find_from CHR ''_'' (result + 1) s of
        None \<Rightarrow> None
      | Some i \<Rightarrow> if Suc i < length s \<and> isDigit (s ! Suc i) then Some i else underscore_loop s i)"
  by pat_completeness auto

termination
  by (relation "measure (\<lambda>(s, r). length s - r)") (auto dest!: find_from_Some)

declare underscore_loop.simps [simp del]

definition getFirstNonTypeNameUnderscorePos :: "string \<Rightarrow> nat option" where
  "getFirstNonTypeNameUnderscorePos s = underscore_loop s 0"

definition genericTypeName :: "string \<Rightarrow> string" where
  "genericTypeName s =
     (let underScore = (case getFirstNonTypeNameUnderscorePos s of None \<Rightarrow> length s | Some i \<Rightarrow> i)
      in case rfind_separator underScore s of
           Some l \<Rightarrow> take (l + 2) s @ ''GEN_'' @ take (underScore - l - 2) (drop (l + 2) s)
         | None \<Rightarrow> ''GEN_'' @ take underScore s)"

definition id_text :: "StringId \<Rightarrow> string" where
  "id_text n = (case n of None \<Rightarrow> [] | Some t \<Rightarrow> t)"

definition findGenericTypeEntry :: "runtime \<Rightarrow> CFBTypeEntry list \<Rightarrow> StringId \<Rightarrow> CFBTypeEntry option" where
  "findGenericTypeEntry rt lib n = findTypeEntry rt lib (lookup_id rt (genericTypeName (id_text n)))"

definition getFBTypeEntry :: "runtime \<Rightarrow> StringId \<Rightarrow> CFBTypeEntry option" where
  "getFBTypeEntry rt n =
     (case findTypeEntry rt (fbTypeLib rt) n of
        Some e \<Rightarrow> Some e
      | None \<Rightarrow> findGenericTypeEntry rt (fbTypeLib rt) n)"

text \<open>Creation of a block; \<open>Inl\<close> is the error.\<close>

definition createGenericFB :: "runtime \<Rightarrow> StringId \<Rightarrow> StringId \<Rightarrow>
    EMGMResponse + CFBTypeEntry \<times> CFBContainer" where
  "createGenericFB rt inst ty =
     (case findGenericTypeEntry rt (fbTypeLib rt) ty of
        None \<Rightarrow> Inl UnsupportedType
      | Some e \<Rightarrow>
          (case createFBInstance e inst of
             None \<Rightarrow> Inl Overflow
           | Some fb \<Rightarrow>
               (case configureFB e (id_text ty) fb of
                  None \<Rightarrow> Inl Overflow
                | Some fb \<Rightarrow> Inr (e, fb))))"

definition typelib_createFB :: "runtime \<Rightarrow> StringId \<Rightarrow> StringId \<Rightarrow> string \<Rightarrow>
    EMGMResponse + CFBContainer" where
  "typelib_createFB rt inst ty hash =
     (case (case findTypeEntry rt (fbTypeLib rt) ty of
              Some e \<Rightarrow>
                if hash \<noteq> [] \<and> hash \<noteq> mTypeHash e then Inl UnsupportedType
                else (case createFBInstance e inst of None \<Rightarrow> Inl Overflow | Some fb \<Rightarrow> Inr (e, fb))
            | None \<Rightarrow> createGenericFB rt inst ty) of
        Inl r \<Rightarrow> Inl r
      | Inr (e, fb) \<Rightarrow> (case initializeFB e fb of None \<Rightarrow> Inl Overflow | Some fb \<Rightarrow> Inr fb))"

section \<open>Children\<close>

definition getChildrenIterator :: "runtime \<Rightarrow> StringId \<Rightarrow> CFBContainer list \<Rightarrow> nat" where
  "getChildrenIterator rt n cs =
     (if n \<noteq> None \<and> cs \<noteq> [] then lower_bound (\<lambda>c. id_less rt (mContInstanceName c) n) cs
      else length cs)"

definition isChild :: "runtime \<Rightarrow> nat \<Rightarrow> StringId \<Rightarrow> CFBContainer list \<Rightarrow> bool" where
  "isChild rt it n cs = (it \<noteq> length cs \<and> id_eq rt (mContInstanceName (cs ! it)) n)"

text \<open>The position of a child; \<open>None\<close> is the null pointer.\<close>

definition getChild :: "runtime \<Rightarrow> StringId \<Rightarrow> CFBContainer list \<Rightarrow> nat option" where
  "getChild rt n cs =
     (let it = getChildrenIterator rt n cs in if isChild rt it n cs then Some it else None)"

definition addFB :: "runtime \<Rightarrow> CFBContainer \<Rightarrow> CFBContainer list \<Rightarrow> CFBContainer list" where
  "addFB rt fb cs = insert_at (getChildrenIterator rt (mContInstanceName fb) cs) fb cs"

text \<open>The position of the container that is found or created, and the children with it.\<close>

definition findOrCreateContainer :: "runtime \<Rightarrow> StringId \<Rightarrow> CFBContainer list \<Rightarrow> nat \<times> CFBContainer list" where
  "findOrCreateContainer rt n cs =
     (if cs = [] then (0, [CFBContainer n PlainContainer []])
      else let it = getChildrenIterator rt n cs
           in if isChild rt it n cs then (it, cs)
              else (it, insert_at it (CFBContainer n PlainContainer []) cs))"

definition set_children :: "CFBContainer list \<Rightarrow> CFBContainer \<Rightarrow> CFBContainer" where
  "set_children cs c = CFBContainer (mContInstanceName c) (mKind c) cs"

section \<open>Creation and deletion\<close>

definition createChild :: "runtime \<Rightarrow> StringId \<Rightarrow> StringId \<Rightarrow> string \<Rightarrow> CFBContainer \<Rightarrow>
    EMGMResponse \<times> CFBContainer" where
  "createChild rt inst ty hash c =
     (if \<not> isDynamicContainer c then (InvalidDst, c)
      else let it = getChildrenIterator rt inst (mChildren c)
           in if isChild rt it inst (mChildren c) then (InvalidState, c)
              else (case typelib_createFB rt inst ty hash of
                      Inl r \<Rightarrow> (r, c)
                    | Inr fb \<Rightarrow> (Ready, set_children (insert_at it fb (mChildren c)) c)))"

fun createFB :: "runtime \<Rightarrow> TNameIdentifier \<Rightarrow> StringId \<Rightarrow> string \<Rightarrow> CFBContainer \<Rightarrow>
    EMGMResponse \<times> CFBContainer" where
  "createFB rt [] ty hash c = (InvalidDst, c)"
| "createFB rt [n] ty hash c = createChild rt n ty hash c"
| "createFB rt (n # m # ns) ty hash c =
     (if isDynamicContainer c
      then (case findOrCreateContainer rt n (mChildren c) of (it, cs) \<Rightarrow>
              if isDynamicContainer (cs ! it)
              then (case createFB rt (m # ns) ty hash (cs ! it) of
                      (r, child) \<Rightarrow> (r, set_children (cs[it := child]) c))
              else (InvalidDst, set_children cs c))
      else (InvalidDst, c))"

definition child_deleteable :: "CFBContainer \<Rightarrow> bool" where
  "child_deleteable c =
     (case mKind c of
        PlainContainer \<Rightarrow> False
      | Block b \<Rightarrow> isCurrentlyDeleteable b
      | Resource b t \<Rightarrow> isCurrentlyDeleteable b)"

fun deleteFB :: "runtime \<Rightarrow> TNameIdentifier \<Rightarrow> CFBContainer \<Rightarrow> EMGMResponse \<times> CFBContainer" where
  "deleteFB rt [] c = (NoSuchObject, c)"
| "deleteFB rt (n # ns) c =
     (let it = getChildrenIterator rt n (mChildren c); child = mChildren c ! it
      in if \<not> isChild rt it n (mChildren c) then (NoSuchObject, c)
         else if ns \<noteq> []
         then (if isDynamicContainer child
               then (case deleteFB rt ns child of
                       (r, child) \<Rightarrow> (r, set_children ((mChildren c)[it := child]) c))
               else (NoSuchObject, c))
         else if isFB child
         then (if child_deleteable child
               then (Ready, set_children (erase_at it (mChildren c)) c)
               else (InvalidState, c))
         else (NoSuchObject, c))"

section \<open>Look-up\<close>

text \<open>The block a list of names leads to, as the positions on the way, and the names that are left.\<close>

fun getFB :: "runtime \<Rightarrow> TNameIdentifier \<Rightarrow> CFBContainer \<Rightarrow> (nat list \<times> TNameIdentifier) option" where
  "getFB rt [] c = (if isFB c then Some ([], []) else None)"
| "getFB rt (n # ns) c =
     (case getChild rt n (mChildren c) of
        Some it \<Rightarrow> map_option (map_prod ((#) it) id) (getFB rt ns (mChildren c ! it))
      | None \<Rightarrow> if isFB c then Some ([], n # ns) else None)"

fun node_at :: "nat list \<Rightarrow> CFBContainer \<Rightarrow> CFBContainer" where
  "node_at [] c = c"
| "node_at (i # p) c = node_at p (mChildren c ! i)"

fun set_node_at :: "nat list \<Rightarrow> CFBContainer \<Rightarrow> CFBContainer \<Rightarrow> CFBContainer" where
  "set_node_at [] x c = x"
| "set_node_at (i # p) x c =
     set_children ((mChildren c)[i := set_node_at p x (mChildren c ! i)]) c"

section \<open>Execution commands\<close>

definition checkForActionEquivalentState :: "E_FBStates \<Rightarrow> EMGMCommandType \<Rightarrow> EMGMResponse" where
  "checkForActionEquivalentState s cmd =
     (case cmd of
        Stop \<Rightarrow> if s = Killed then Ready else InvalidState
      | Kill \<Rightarrow> if s = Stopped \<or> s = Idle then Ready else InvalidState
      | _ \<Rightarrow> InvalidState)"

definition kind_state :: "container_kind \<Rightarrow> E_FBStates option" where
  "kind_state k =
     (case k of
        PlainContainer \<Rightarrow> None
      | Block b \<Rightarrow> Some (mFBState b)
      | Resource b t \<Rightarrow> Some (mFBState b))"

text \<open>The block's own part of \<open>CFunctionBlock::changeExecutionState\<close>; \<open>setInit\<close> is \<open>setInitialValues\<close>.\<close>

definition own_changeExecutionState ::
    "(CFunctionBlock \<Rightarrow> CFunctionBlock) \<Rightarrow> EMGMCommandType \<Rightarrow> container_kind \<Rightarrow>
     EMGMResponse \<times> container_kind" where
  "own_changeExecutionState setInit cmd k =
     (case k of
        PlainContainer \<Rightarrow> (Ready, k)
      | Block b \<Rightarrow> map_prod id Block
          (CFunctionBlock_changeExecutionState setInit (\<lambda>_ b. (Ready, b)) cmd b)
      | Resource b t \<Rightarrow> map_prod id (\<lambda>b. Resource b t)
          (CFunctionBlock_changeExecutionState setInit (\<lambda>_ b. (Ready, b)) cmd b))"

text \<open>What \<open>CResource::changeExecutionState\<close> adds: its inputs are sampled on a start, the initial values
  are set again on a reset, and the command goes on to the resource's event chain thread.\<close>

definition resource_after ::
    "(CFunctionBlock \<Rightarrow> CFunctionBlock) \<Rightarrow> (CFunctionBlock \<Rightarrow> CFunctionBlock) \<Rightarrow>
     EMGMCommandType \<Rightarrow> container_kind \<Rightarrow> container_kind" where
  "resource_after setInit sample cmd k =
     (case k of
        Resource b t \<Rightarrow>
          Resource (if cmd = Start then sample b else if cmd = Reset then setInit b else b)
            (map_option (ecet_changeExecutionState cmd) t)
      | _ \<Rightarrow> k)"

fun changeExecutionState ::
    "(CFunctionBlock \<Rightarrow> CFunctionBlock) \<Rightarrow> (CFunctionBlock \<Rightarrow> CFunctionBlock) \<Rightarrow>
     EMGMCommandType \<Rightarrow> CFBContainer \<Rightarrow> EMGMResponse \<times> CFBContainer"
  and change_children ::
    "(CFunctionBlock \<Rightarrow> CFunctionBlock) \<Rightarrow> (CFunctionBlock \<Rightarrow> CFunctionBlock) \<Rightarrow>
     EMGMCommandType \<Rightarrow> CFBContainer list \<Rightarrow> EMGMResponse \<times> CFBContainer list" where
  "changeExecutionState setInit sample cmd (CFBContainer n k cs) =
     (case own_changeExecutionState setInit cmd k of (r, k) \<Rightarrow>
        if r = Ready
        then (case change_children setInit sample cmd cs of (r, cs) \<Rightarrow>
                (r, CFBContainer n (if r = Ready then resource_after setInit sample cmd k else k) cs))
        else (r, CFBContainer n k cs))"
| "change_children setInit sample cmd [] = (Ready, [])"
| "change_children setInit sample cmd (c # cs) =
     (case changeExecutionState setInit sample cmd c of (r, c) \<Rightarrow>
        let r = (if r \<noteq> Ready
                 then (case kind_state (mKind c) of
                         Some s \<Rightarrow> checkForActionEquivalentState s cmd
                       | None \<Rightarrow> r)
                 else r)
        in if r = Ready then map_prod id ((#) c) (change_children setInit sample cmd cs)
           else (r, c # cs))"

section \<open>Commands of a resource and of a device\<close>

definition handleExecutionStateCmd ::
    "runtime \<Rightarrow> (CFunctionBlock \<Rightarrow> CFunctionBlock) \<Rightarrow> (CFunctionBlock \<Rightarrow> CFunctionBlock) \<Rightarrow>
     EMGMCommandType \<Rightarrow> TNameIdentifier \<Rightarrow> CFBContainer \<Rightarrow> EMGMResponse \<times> CFBContainer" where
  "handleExecutionStateCmd rt setInit sample cmd target c =
     (case (if target = [] then Some ([], []) else getFB rt target c) of
        None \<Rightarrow> (NoSuchObject, c)
      | Some (p, rest) \<Rightarrow>
          (case changeExecutionState setInit sample cmd (node_at p c) of
             (r, x) \<Rightarrow> (r, set_node_at p x c)))"

text \<open>\<open>executeMGMCommand\<close> of a resource.  The commands that are the argument \<open>other\<close>, on connections, values,
  types and watches, answer and change blocks where they are: the block at a list of names by the first
  part of the changes, the event chain thread of a resource there by the second.  (What the commands
  on values and watches do is modelled in theories \<open>Value_Commands\<close> to \<open>Resource_Commands\<close>.)  Where the
  code takes the first element of an empty list the result is \<open>None\<close>.  The default configuration has
  no dynamic type loading.\<close>

type_synonym block_changes =
  "(TNameIdentifier \<Rightarrow> CFunctionBlock \<Rightarrow> CFunctionBlock) \<times> (TNameIdentifier \<Rightarrow> ecet \<Rightarrow> ecet)"

definition change_kind :: "block_changes \<Rightarrow> TNameIdentifier \<Rightarrow> container_kind \<Rightarrow> container_kind" where
  "change_kind d ns k =
     (case k of
        PlainContainer \<Rightarrow> PlainContainer
      | Block b \<Rightarrow> Block (fst d ns b)
      | Resource b t \<Rightarrow> Resource (fst d ns b) (map_option (snd d ns) t))"

fun change_blocks :: "block_changes \<Rightarrow> TNameIdentifier \<Rightarrow> CFBContainer \<Rightarrow> CFBContainer" where
  "change_blocks d ns (CFBContainer n k cs) =
     CFBContainer n (change_kind d ns k) (map (\<lambda>c. change_blocks d (ns @ [mContInstanceName c]) c) cs)"

definition no_changes :: block_changes where
  "no_changes = (\<lambda>_ b. b, \<lambda>_ t. t)"

definition front_of_empty :: "SManagementCMD \<Rightarrow> bool" where
  "front_of_empty cmd \<longleftrightarrow>
     mCMD cmd = CreateFBInstance \<and> mSecondParam cmd = [] \<or>
     mCMD cmd \<in> {QueryFBType, QueryAdapterType, QueryDataType, QueryGlobalConstType} \<and> mFirstParam cmd = []"

definition keep_cmd :: "SManagementCMD \<Rightarrow> EMGMResponse \<times> 'c \<Rightarrow> EMGMResponse \<times> SManagementCMD \<times> 'c" where
  "keep_cmd cmd x = (fst x, cmd, snd x)"

type_synonym executed = "EMGMResponse \<times> SManagementCMD \<times> CFBContainer"

definition change_in_place :: "EMGMResponse \<times> SManagementCMD \<times> block_changes \<Rightarrow> CFBContainer \<Rightarrow> executed" where
  "change_in_place x c = (case x of (r, cmd, d) \<Rightarrow> (r, cmd, change_blocks d [] c))"

definition executeMGMCommand ::
    "runtime \<Rightarrow> (CFunctionBlock \<Rightarrow> CFunctionBlock) \<Rightarrow> (CFunctionBlock \<Rightarrow> CFunctionBlock) \<Rightarrow>
     (SManagementCMD \<Rightarrow> CFBContainer \<Rightarrow> EMGMResponse \<times> SManagementCMD \<times> block_changes) \<Rightarrow>
     SManagementCMD \<Rightarrow> CFBContainer \<Rightarrow> executed option" where
  "executeMGMCommand rt setInit sample other cmd c =
     (if mDestination cmd \<noteq> None then Some (InvalidDst, cmd, c)
      else if front_of_empty cmd then None
      else Some (case mCMD cmd of
              CreateFBInstance \<Rightarrow>
                keep_cmd cmd
                  (createFB rt (mFirstParam cmd) (hd (mSecondParam cmd)) (mAdditionalParams cmd) c)
            | CreateFBType \<Rightarrow> (UnsupportedCmd, cmd, c)
            | CreateAdapterType \<Rightarrow> (UnsupportedCmd, cmd, c)
            | DeleteFBInstance \<Rightarrow> keep_cmd cmd (deleteFB rt (mFirstParam cmd) c)
            | Start \<Rightarrow> keep_cmd cmd (handleExecutionStateCmd rt setInit sample Start (mFirstParam cmd) c)
            | Stop \<Rightarrow> keep_cmd cmd (handleExecutionStateCmd rt setInit sample Stop (mFirstParam cmd) c)
            | Kill \<Rightarrow> keep_cmd cmd (handleExecutionStateCmd rt setInit sample Kill (mFirstParam cmd) c)
            | Reset \<Rightarrow> keep_cmd cmd (handleExecutionStateCmd rt setInit sample Reset (mFirstParam cmd) c)
            | _ \<Rightarrow> change_in_place (other cmd c) c))"

text \<open>A device gives a command with a destination to its child of that name, which it takes for a
  resource without looking; for another child the code's behaviour is undefined (\<open>None\<close>).  That a
  device which is killed also disables its event handlers is outside the tree and not modelled.\<close>

definition device_executeMGMCommand ::
    "runtime \<Rightarrow> (CFunctionBlock \<Rightarrow> CFunctionBlock) \<Rightarrow> (CFunctionBlock \<Rightarrow> CFunctionBlock) \<Rightarrow>
     (SManagementCMD \<Rightarrow> CFBContainer \<Rightarrow> EMGMResponse \<times> SManagementCMD \<times> block_changes) \<Rightarrow>
     SManagementCMD \<Rightarrow> CFBContainer \<Rightarrow> executed option" where
  "device_executeMGMCommand rt setInit sample other cmd c =
     (if id_text (mDestination cmd) = []
      then executeMGMCommand rt setInit sample other cmd c
      else (case getChild rt (mDestination cmd) (mChildren c) of
              None \<Rightarrow> Some (InvalidDst, cmd, c)
            | Some it \<Rightarrow>
                (case mKind (mChildren c ! it) of
                   Resource b t \<Rightarrow>
                     (case executeMGMCommand rt setInit sample other (cmd\<lparr>mDestination := None\<rparr>)
                             (mChildren c ! it) of
                        None \<Rightarrow> None
                      | Some (r, cmd, res) \<Rightarrow> Some (r, cmd, set_children ((mChildren c)[it := res]) c))
                 | _ \<Rightarrow> None)))"

section \<open>The tree stays sorted\<close>

text \<open>The children of every container are sorted by the addresses of their names, which are not null
  and different.\<close>

abbreviation name_addr :: "runtime \<Rightarrow> CFBContainer \<Rightarrow> nat" where
  "name_addr rt c \<equiv> id_addr rt (mContInstanceName c)"

fun container_ok :: "runtime \<Rightarrow> CFBContainer \<Rightarrow> bool" where
  "container_ok rt (CFBContainer n k cs) \<longleftrightarrow>
     n \<noteq> None \<and> keys_sorted (name_addr rt) cs \<and> (\<forall>c\<in>set cs. container_ok rt c)"

text \<open>What the theory relies on outside the tree: different texts have different addresses, and a type
  creates a well-formed block of the given name.\<close>

definition runtime_ok :: "runtime \<Rightarrow> bool" where
  "runtime_ok rt \<longleftrightarrow> inj (text_addr rt) \<and> (\<forall>t. text_addr rt t \<noteq> 0) \<and>
     (\<forall>inst ty hash fb. inst \<noteq> None \<longrightarrow> typelib_createFB rt inst ty hash = Inr fb \<longrightarrow>
        mContInstanceName fb = inst \<and> isFB fb \<and> container_ok rt fb)"

lemma id_addr_eq: "runtime_ok rt \<Longrightarrow> id_addr rt a = id_addr rt b \<longleftrightarrow> a = b"
  by (auto simp: id_addr_def runtime_ok_def inj_eq split: option.splits)

lemma container_okI:
  "mContInstanceName c \<noteq> None \<Longrightarrow> keys_sorted (name_addr rt) (mChildren c) \<Longrightarrow>
   (\<And>x. x \<in> set (mChildren c) \<Longrightarrow> container_ok rt x) \<Longrightarrow> container_ok rt c"
  by (cases c) simp

lemma container_okD:
  assumes "container_ok rt c"
  shows "mContInstanceName c \<noteq> None" "keys_sorted (name_addr rt) (mChildren c)"
    "x \<in> set (mChildren c) \<Longrightarrow> container_ok rt x"
  using assms by (cases c; simp)+

lemma set_children_fields [simp]:
  "mContInstanceName (set_children cs c) = mContInstanceName c" "mKind (set_children cs c) = mKind c"
  "mChildren (set_children cs c) = cs" "set_children (mChildren c) c = c"
  "set_children cs (set_children cs' c) = set_children cs c"
  by (simp_all add: set_children_def)

lemma set_children_isFB [simp]:
  "isFB (set_children cs c) = isFB c" "isDynamicContainer (set_children cs c) = isDynamicContainer c"
  by (simp_all add: isFB_def isDynamicContainer_def)

text \<open>The search finds the child of the name.\<close>

lemma iterator_lower_bound:
  "n \<noteq> None \<Longrightarrow> getChildrenIterator rt n cs = lower_bound (\<lambda>c. name_addr rt c < id_addr rt n) cs"
  by (simp add: getChildrenIterator_def lower_bound_def id_less_def)

lemma iterator_le: "getChildrenIterator rt n cs \<le> length cs"
  by (simp add: getChildrenIterator_def lower_bound_le)

lemma isChild_iff:
  assumes "runtime_ok rt" "keys_sorted (name_addr rt) cs" "n \<noteq> None"
  shows "isChild rt (getChildrenIterator rt n cs) n cs \<longleftrightarrow> n \<in> mContInstanceName ` set cs"
  using lower_bound_iff [OF assms(2), of "id_addr rt n"]
  by (auto simp: isChild_def id_eq_def iterator_lower_bound [OF assms(3)] id_addr_eq [OF assms(1)])

lemma isChild_nth: "isChild rt it n cs \<Longrightarrow> it \<le> length cs \<Longrightarrow> it < length cs \<and> id_eq rt (mContInstanceName (cs ! it)) n"
  by (auto simp: isChild_def)

lemma iterator_nth:
  assumes "keys_sorted (name_addr rt) cs" "i < length cs" "mContInstanceName (cs ! i) \<noteq> None"
  shows "getChildrenIterator rt (mContInstanceName (cs ! i)) cs = i"
    and "isChild rt i (mContInstanceName (cs ! i)) cs"
  using lower_bound_found [OF assms(1,2) refl] assms(2,3)
  by (simp_all add: iterator_lower_bound isChild_def id_eq_def)

lemma keys_sorted_update:
  "keys_sorted (name_addr rt) cs \<Longrightarrow> mContInstanceName x = mContInstanceName (cs ! i) \<Longrightarrow>
   keys_sorted (name_addr rt) (cs[i := x])"
  by (metis (no_types, lifting) list_update_id map_update)

lemma insert_child_sorted:
  assumes "runtime_ok rt" "keys_sorted (name_addr rt) cs" "mContInstanceName x \<noteq> None"
    "\<not> isChild rt (getChildrenIterator rt (mContInstanceName x) cs) (mContInstanceName x) cs"
  shows "keys_sorted (name_addr rt) (insert_at (getChildrenIterator rt (mContInstanceName x) cs) x cs)"
  using insert_keys_sorted [OF assms(2), of x] isChild_iff [OF assms(1-3)] assms(4)
  by (auto simp: iterator_lower_bound [OF assms(3)] id_addr_eq [OF assms(1)] image_iff)

lemma findOrCreate_spec:
  assumes "runtime_ok rt" "keys_sorted (name_addr rt) cs" "n \<noteq> None"
    and "findOrCreateContainer rt n cs = (it, cs')"
  shows "keys_sorted (name_addr rt) cs'" "it < length cs'" "mContInstanceName (cs' ! it) = n"
    "n \<in> mContInstanceName ` set cs \<Longrightarrow> cs' = cs"
    "n \<notin> mContInstanceName ` set cs \<Longrightarrow>
       cs' = insert_at it (CFBContainer n PlainContainer []) cs \<and> it = getChildrenIterator rt n cs"
    "set cs' \<subseteq> insert (CFBContainer n PlainContainer []) (set cs)"
proof -
  define p where "p = getChildrenIterator rt n cs"
  have le: "p \<le> length cs"
    by (simp add: p_def iterator_le)
  note ch = isChild_iff [OF assms(1-3), folded p_def]
  have it: "it = p" and cs': "cs' = (if isChild rt p n cs then cs else insert_at p (CFBContainer n PlainContainer []) cs)"
    using assms(4) le
    by (auto simp: findOrCreateContainer_def p_def isChild_def insert_at_def Let_def split: if_splits)
  show "keys_sorted (name_addr rt) cs'"
    using insert_child_sorted [OF assms(1,2), of "CFBContainer n PlainContainer []"] assms(2,3)
    by (auto simp: cs' p_def)
  show "it < length cs'" "mContInstanceName (cs' ! it) = n"
    using isChild_nth [of rt p n cs] le by (auto simp: cs' it id_eq_def id_addr_eq [OF assms(1)])
  show "n \<in> mContInstanceName ` set cs \<Longrightarrow> cs' = cs"
    using ch by (simp add: cs')
  show "n \<notin> mContInstanceName ` set cs \<Longrightarrow>
       cs' = insert_at it (CFBContainer n PlainContainer []) cs \<and> it = getChildrenIterator rt n cs"
    using ch by (simp add: cs' it p_def)
  show "set cs' \<subseteq> insert (CFBContainer n PlainContainer []) (set cs)"
    by (auto simp: cs')
qed

lemma createChild_ok:
  assumes "runtime_ok rt" "container_ok rt c" "n \<noteq> None"
  shows "container_ok rt (snd (createChild rt n ty hash c))"
proof (cases "isDynamicContainer c \<and>
    \<not> isChild rt (getChildrenIterator rt n (mChildren c)) n (mChildren c)")
  case True
  show ?thesis
  proof (cases "typelib_createFB rt n ty hash")
    case (Inl r)
    then show ?thesis
      using assms(2) by (simp add: createChild_def Let_def)
  next
    case (Inr fb)
    then have fb: "mContInstanceName fb = n" "container_ok rt fb"
      using assms(1,3) unfolding runtime_ok_def by metis+
    let ?cs = "insert_at (getChildrenIterator rt n (mChildren c)) fb (mChildren c)"
    have "keys_sorted (name_addr rt) ?cs"
      using insert_child_sorted [OF assms(1) container_okD(2) [OF assms(2)], of fb] fb(1) assms(3) True
      by simp
    moreover have "container_ok rt x" if "x \<in> set ?cs" for x
      using that fb(2) container_okD(3) [OF assms(2), of x] by auto
    ultimately have "container_ok rt (set_children ?cs c)"
      using container_okD(1) [OF assms(2)] by - (rule container_okI, simp_all)
    then show ?thesis
      using True Inr by (simp add: createChild_def Let_def)
  qed
next
  case False
  then show ?thesis
    using assms(2) by (auto simp: createChild_def Let_def)
qed

lemma mContInstanceName_createChild [simp]:
  "mContInstanceName (snd (createChild rt n ty hash c)) = mContInstanceName c"
  by (simp add: createChild_def Let_def split: sum.split)

lemma createFB_cases:
  obtains "ns = []" | n where "ns = [n]" | n m ms where "ns = n # m # ms"
  by (metis list.exhaust)

lemma mContInstanceName_createFB [simp]:
  "mContInstanceName (snd (createFB rt ns ty hash c)) = mContInstanceName c"
proof (cases ns rule: createFB_cases)
  case (3 n m ms)
  show ?thesis
    unfolding 3 createFB.simps by (simp split: prod.split)
qed simp_all

lemma container_ok_set_nth:
  assumes "container_ok rt c" "keys_sorted (name_addr rt) cs" "\<forall>x\<in>set cs. container_ok rt x"
    "container_ok rt x" "mContInstanceName x = mContInstanceName (cs ! i)"
  shows "container_ok rt (set_children (cs[i := x]) c)"
  using assms keys_sorted_update [OF assms(2,5)] container_okD(1) [OF assms(1)]
  by - (rule container_okI; auto dest!: set_update_subset_insert [THEN subsetD])

lemma createFB_ok:
  "runtime_ok rt \<Longrightarrow> container_ok rt c \<Longrightarrow> None \<notin> set ns \<Longrightarrow>
   container_ok rt (snd (createFB rt ns ty hash c))"
proof (induction rt ns ty hash c rule: createFB.induct)
  case (2 rt n ty hash c)
  then show ?case
    by (simp add: createChild_ok)
next
  case (3 rt n m ns ty hash c)
  obtain it cs where fc: "findOrCreateContainer rt n (mChildren c) = (it, cs)"
    by fastforce
  note ok = container_okD [OF "3.prems"(2)]
  have n: "n \<noteq> None"
    using "3.prems"(3) by (metis list.set_intros(1))
  note spec = findOrCreate_spec [OF "3.prems"(1) ok(2) n fc]
  have cs: "\<forall>x\<in>set cs. container_ok rt x"
    using spec(6) ok(3) n by auto
  have base: "container_ok rt (set_children cs c)"
    using ok(1) spec(1) cs by - (rule container_okI, simp_all)
  show ?case
  proof (cases "isDynamicContainer c \<and> isDynamicContainer (cs ! it)")
    case True
    then have "container_ok rt (snd (createFB rt (m # ns) ty hash (cs ! it)))"
      using "3.IH" [OF _ fc [symmetric]] "3.prems" spec(2) cs by simp
    then show ?thesis
      using True fc
      by (simp add: split_beta container_ok_set_nth [OF "3.prems"(2) spec(1) cs])
  qed (use "3.prems"(2) base fc in auto)
qed simp

lemma mContInstanceName_deleteFB [simp]:
  "mContInstanceName (snd (deleteFB rt ns c)) = mContInstanceName c"
  by (cases ns) (auto simp: Let_def split: prod.split)

lemma deleteFB_ok:
  "container_ok rt c \<Longrightarrow> container_ok rt (snd (deleteFB rt ns c))"
proof (induction rt ns c rule: deleteFB.induct)
  case (2 rt n ns c)
  define it where "it = getChildrenIterator rt n (mChildren c)"
  note ok = container_okD [OF "2.prems"]
  show ?case
  proof (cases "isChild rt it n (mChildren c)")
    case child: True
    have it: "it < length (mChildren c)"
      using isChild_nth [OF child] iterator_le [of rt n "mChildren c"] by (simp add: it_def)
    show ?thesis
    proof (cases "ns = []")
      case True
      have "container_ok rt (set_children (erase_at it (mChildren c)) c)"
        using ok erase_keys_sorted [OF ok(2)] set_erase_at [of it "mChildren c"]
        by - (rule container_okI; auto)
      then show ?thesis
        using True child "2.prems" by (auto simp: Let_def it_def)
    next
      case False
      have "container_ok rt (set_children ((mChildren c)[it := snd (deleteFB rt ns (mChildren c ! it))]) c)"
        if "isDynamicContainer (mChildren c ! it)"
        using "2.IH" [OF it_def refl] child False that ok it
        by (intro container_ok_set_nth [OF "2.prems" ok(2)]) (simp_all add: it_def)
      then show ?thesis
        using False child "2.prems" by (auto simp: Let_def it_def split_beta)
    qed
  next
    case False
    then show ?thesis
      using "2.prems" by (simp add: Let_def it_def)
  qed
qed simp

lemma change_fields:
  "mContInstanceName (snd (changeExecutionState setInit sample cmd c)) = mContInstanceName c"
  "map mContInstanceName (snd (change_children setInit sample cmd cs)) = map mContInstanceName cs"
  by (induction setInit sample cmd c and setInit sample cmd cs
      rule: changeExecutionState_change_children.induct) (auto simp: Let_def split: prod.splits)

lemma change_ok:
  "container_ok rt c \<Longrightarrow> container_ok rt (snd (changeExecutionState setInit sample cmd c))"
  "\<forall>c\<in>set cs. container_ok rt c \<Longrightarrow>
   \<forall>c\<in>set (snd (change_children setInit sample cmd cs)). container_ok rt c"
proof (induction setInit sample cmd c and setInit sample cmd cs
    rule: changeExecutionState_change_children.induct)
  case (1 setInit sample cmd n k cs)
  obtain r k' where k: "own_changeExecutionState setInit cmd k = (r, k')"
    by fastforce
  obtain r' cs' where cs: "change_children setInit sample cmd cs = (r', cs')"
    by fastforce
  have "map (id_addr rt) (map mContInstanceName cs') = map (id_addr rt) (map mContInstanceName cs)"
    using change_fields(2) [of setInit sample cmd cs] cs by simp
  then have names: "map (name_addr rt) cs' = map (name_addr rt) cs"
    by (simp add: comp_def)
  show ?case
  proof (cases "r = Ready")
    case True
    have "\<forall>c\<in>set cs'. container_ok rt c"
      using "1.IH" [OF k [symmetric] True] "1.prems" cs by simp
    then show ?thesis
      using "1.prems" True k cs names by simp
  qed (use "1.prems" k in simp)
next
  case (3 setInit sample cmd c cs)
  obtain r c' where c: "changeExecutionState setInit sample cmd c = (r, c')"
    by fastforce
  have "container_ok rt c'"
    using "3.IH"(1) "3.prems" c by simp
  moreover have "\<forall>x\<in>set (snd (change_children setInit sample cmd cs)). container_ok rt x"
    if "(if r \<noteq> Ready then case kind_state (mKind c') of None \<Rightarrow> r
        | Some s \<Rightarrow> checkForActionEquivalentState s cmd else r) = Ready"
    using "3.IH"(2) [OF c [symmetric] refl that] "3.prems" by simp
  ultimately show ?case
    using "3.prems" c by (simp add: Let_def)
qed simp

lemma mContInstanceName_set_node_at:
  "mContInstanceName x = mContInstanceName (node_at p c) \<Longrightarrow>
   mContInstanceName (set_node_at p x c) = mContInstanceName c"
  by (cases p) simp_all

lemma getChild_Some:
  assumes "getChild rt n cs = Some it"
  shows "it < length cs" "id_eq rt (mContInstanceName (cs ! it)) n"
  using assms isChild_nth [of rt it n cs] iterator_le [of rt n cs]
  by (auto simp: getChild_def Let_def split: if_splits)

lemma node_ok:
  "container_ok rt c \<Longrightarrow> getFB rt ns c = Some (p, rest) \<Longrightarrow>
   container_ok rt (node_at p c) \<and>
   (container_ok rt x \<longrightarrow> mContInstanceName x = mContInstanceName (node_at p c) \<longrightarrow>
    container_ok rt (set_node_at p x c))"
proof (induction rt ns c arbitrary: p rest rule: getFB.induct)
  case (1 rt c)
  then show ?case
    by (simp split: if_splits)
next
  case (2 rt n ns c)
  show ?case
  proof (cases "getChild rt n (mChildren c)")
    case None
    then show ?thesis
      using "2.prems" by (simp split: if_splits)
  next
    case (Some it)
    then obtain q where q: "p = it # q" "getFB rt ns (mChildren c ! it) = Some (q, rest)"
      using "2.prems"(2) by auto
    note ok = container_okD [OF "2.prems"(1)]
    have it: "it < length (mChildren c)"
      using getChild_Some [OF Some] by simp
    then have IH: "container_ok rt (node_at q (mChildren c ! it))"
      "container_ok rt x \<Longrightarrow> mContInstanceName x = mContInstanceName (node_at q (mChildren c ! it)) \<Longrightarrow>
       container_ok rt (set_node_at q x (mChildren c ! it))"
      using "2.IH" [OF Some _ q(2)] ok(3) by simp_all
    show ?thesis
    proof (intro conjI impI)
      show "container_ok rt (node_at p c)"
        using IH(1) q(1) by simp
      assume x: "container_ok rt x" "mContInstanceName x = mContInstanceName (node_at p c)"
      then show "container_ok rt (set_node_at p x c)"
        using IH(2) ok(3) mContInstanceName_set_node_at [of x q "mChildren c ! it"] q(1)
        by (simp add: container_ok_set_nth [OF "2.prems"(1) ok(2)])
    qed
  qed
qed

lemma handleExecutionStateCmd_ok:
  assumes "container_ok rt c"
  shows "container_ok rt (snd (handleExecutionStateCmd rt setInit sample cmd target c))"
proof (cases "if target = [] then Some ([], []) else getFB rt target c")
  case (Some pr)
  obtain p rest where pr: "pr = (p, rest)"
    by fastforce
  define x where "x = snd (changeExecutionState setInit sample cmd (node_at p c))"
  have "container_ok rt (node_at p c) \<and>
      (container_ok rt x \<longrightarrow> mContInstanceName x = mContInstanceName (node_at p c) \<longrightarrow>
       container_ok rt (set_node_at p x c))"
    using Some assms pr node_ok [OF assms, of target p rest x] by (auto split: if_splits)
  moreover have "container_ok rt x" if "container_ok rt (node_at p c)"
    using change_ok(1) [OF that] by (simp add: x_def)
  ultimately have "container_ok rt (set_node_at p x c)"
    using change_fields(1) [of setInit sample cmd "node_at p c"] by (simp add: x_def)
  then show ?thesis
    using Some pr by (simp add: handleExecutionStateCmd_def x_def split_beta)
qed (use assms in \<open>simp add: handleExecutionStateCmd_def\<close>)

section \<open>A block that is created is found and can be deleted\<close>

lemma mKind_createFB [simp]: "mKind (snd (createFB rt ns ty hash c)) = mKind c"
proof (cases ns rule: createFB_cases)
  case (2 n)
  show ?thesis
    unfolding 2 createFB.simps by (simp add: createChild_def Let_def split: sum.split)
next
  case (3 n m ms)
  show ?thesis
    unfolding 3 createFB.simps by (simp split: prod.split)
qed simp

lemma mKind_deleteFB [simp]: "mKind (snd (deleteFB rt ns c)) = mKind c"
  by (cases ns) (auto simp: Let_def split: prod.split)

lemma isDynamic_kind: "mKind c = mKind c' \<Longrightarrow> isDynamicContainer c = isDynamicContainer c'"
  by (simp add: isDynamicContainer_def)

lemma getChild_nth:
  assumes "keys_sorted (name_addr rt) cs" "i < length cs" "mContInstanceName (cs ! i) = n" "n \<noteq> None"
  shows "getChildrenIterator rt n cs = i" "isChild rt i n cs" "getChild rt n cs = Some i"
  using iterator_nth [OF assms(1,2)] assms(3,4) by (simp_all add: getChild_def Let_def)

lemma createChild_Ready:
  assumes "runtime_ok rt" "container_ok rt c" "n \<noteq> None" "createChild rt n ty hash c = (Ready, c')"
    and no_ready: "\<And>r. typelib_createFB rt n ty hash = Inl r \<Longrightarrow> r \<noteq> Ready"
  obtains fb it where "typelib_createFB rt n ty hash = Inr fb" "mContInstanceName fb = n" "isFB fb"
    "it = getChildrenIterator rt n (mChildren c)" "n \<notin> mContInstanceName ` set (mChildren c)"
    "c' = set_children (insert_at it fb (mChildren c)) c" "keys_sorted (name_addr rt) (mChildren c')"
    "isDynamicContainer c"
proof -
  note ok = container_okD [OF assms(2)]
  obtain fb where fb: "typelib_createFB rt n ty hash = Inr fb"
      "c' = set_children (insert_at (getChildrenIterator rt n (mChildren c)) fb (mChildren c)) c"
      "isDynamicContainer c" "\<not> isChild rt (getChildrenIterator rt n (mChildren c)) n (mChildren c)"
    using assms(4) no_ready by (auto simp: createChild_def Let_def split: if_splits sum.splits)
  moreover have "mContInstanceName fb = n" "isFB fb"
    using assms(1,3) fb(1) unfolding runtime_ok_def by metis+
  ultimately show ?thesis
    using that insert_child_sorted [OF assms(1) ok(2), of fb] isChild_iff [OF assms(1) ok(2) assms(3)]
      assms(3) by simp
qed

lemma typelib_error: "typelib_createFB rt n ty hash = Inl r \<Longrightarrow> r \<noteq> Ready"
  by (auto simp: typelib_createFB_def createGenericFB_def split: option.splits sum.splits if_splits)

lemma deleteFB_step:
  "getChildrenIterator rt n (mChildren c) = it \<Longrightarrow> isChild rt it n (mChildren c) \<Longrightarrow> ns \<noteq> [] \<Longrightarrow>
   isDynamicContainer (mChildren c ! it) \<Longrightarrow> deleteFB rt ns (mChildren c ! it) = (r, y) \<Longrightarrow>
   deleteFB rt (n # ns) c = (r, set_children ((mChildren c)[it := y]) c)"
  by (simp add: Let_def)

lemma createFB_step:
  "isDynamicContainer c \<Longrightarrow> findOrCreateContainer rt n (mChildren c) = (it, cs) \<Longrightarrow>
   isDynamicContainer (cs ! it) \<Longrightarrow> createFB rt (m # ns) ty hash (cs ! it) = (r, x) \<Longrightarrow>
   createFB rt (n # m # ns) ty hash c = (r, set_children (cs[it := x]) c)"
  by (subst createFB.simps) (simp del: createFB.simps)

lemma getFB_step:
  "getChild rt n (mChildren c) = Some it \<Longrightarrow>
   getFB rt (n # ns) c = map_option (map_prod ((#) it) id) (getFB rt ns (mChildren c ! it))"
  by simp

lemma create_find_delete_child:
  assumes "runtime_ok rt" "container_ok rt c" "n \<noteq> None" "createChild rt n ty hash c = (Ready, c')"
  shows "\<exists>p fb. typelib_createFB rt n ty hash = Inr fb \<and> getFB rt [n] c' = Some (p, []) \<and>
     node_at p c' = fb \<and>
     (child_deleteable fb \<longrightarrow>
        (\<exists>c''. deleteFB rt [n] c' = (Ready, c'') \<and> (\<nexists>p. getFB rt [n] c'' = Some (p, [])) \<and>
           createFB rt [n] ty hash c'' = (Ready, c')))"
proof -
  obtain fb it where fb: "typelib_createFB rt n ty hash = Inr fb" "mContInstanceName fb = n"
      "isFB fb" and it: "it = getChildrenIterator rt n (mChildren c)"
      "n \<notin> mContInstanceName ` set (mChildren c)"
      "c' = set_children (insert_at it fb (mChildren c)) c" "keys_sorted (name_addr rt) (mChildren c')"
      "isDynamicContainer c"
    by (rule createChild_Ready [OF assms typelib_error])
  have le: "it \<le> length (mChildren c)"
    by (simp add: it(1) iterator_le)
  then have child: "getChildrenIterator rt n (mChildren c') = it" "isChild rt it n (mChildren c')"
      "getChild rt n (mChildren c') = Some it"
    using getChild_nth [OF it(4), of it n] assms(3) fb(2) by (simp_all add: it(3))
  have "getChild rt n (mChildren c) = None"
    using isChild_iff [OF assms(1) container_okD(2) [OF assms(2)] assms(3)] it(2)
    by (simp add: getChild_def Let_def)
  have g: "getFB rt [n] c' = Some ([it], [])"
    using child fb le by (simp add: it(3))
  have d: "child_deleteable fb \<Longrightarrow> deleteFB rt [n] c' = (Ready, c)"
    using child fb le by (simp add: it(3))
  have "node_at [it] c' = fb"
    using le by (simp add: it(3))
  moreover have "\<nexists>p. getFB rt [n] c = Some (p, [])"
    using \<open>getChild rt n (mChildren c) = None\<close> by simp
  moreover have "createFB rt [n] ty hash c = (Ready, c')"
    using assms(4) by simp
  ultimately show ?thesis
    using fb(1) g d by blast
qed

lemma create_find_delete:
  "runtime_ok rt \<Longrightarrow> container_ok rt c \<Longrightarrow> None \<notin> set ns \<Longrightarrow> createFB rt ns ty hash c = (Ready, c') \<Longrightarrow>
   \<exists>p fb. typelib_createFB rt (last ns) ty hash = Inr fb \<and> getFB rt ns c' = Some (p, []) \<and>
     node_at p c' = fb \<and>
     (child_deleteable fb \<longrightarrow>
        (\<exists>c''. deleteFB rt ns c' = (Ready, c'') \<and> (\<nexists>p. getFB rt ns c'' = Some (p, [])) \<and>
           createFB rt ns ty hash c'' = (Ready, c')))"
proof (induction rt ns ty hash c arbitrary: c' rule: createFB.induct)
  case (2 rt n ty hash c)
  then show ?case
    using create_find_delete_child [of rt c n ty hash c'] by simp
next
  case (3 rt n m ns ty hash c)
  have n: "n \<noteq> None"
    using "3.prems"(3) by (metis list.set_intros(1))
  note ok = container_okD [OF "3.prems"(2)]
  obtain it cs where fc: "findOrCreateContainer rt n (mChildren c) = (it, cs)"
    by fastforce
  note spec = findOrCreate_spec [OF "3.prems"(1) ok(2) n fc]
  obtain x where dyn: "isDynamicContainer c" "isDynamicContainer (cs ! it)"
      and x: "createFB rt (m # ns) ty hash (cs ! it) = (Ready, x)" "c' = set_children (cs[it := x]) c"
    using "3.prems"(4) fc by (auto split: if_splits prod.splits)
  have x_fields: "mContInstanceName x = n" "isDynamicContainer x"
    using mContInstanceName_createFB [of rt "m # ns" ty hash "cs ! it"]
      isDynamic_kind [OF mKind_createFB [of rt "m # ns" ty hash "cs ! it"]] spec(3) dyn x(1) by simp_all
  have "cs ! it = CFBContainer n PlainContainer [] \<or> cs ! it \<in> set (mChildren c)"
    using spec(6) nth_mem [OF spec(2)] by blast
  then have "container_ok rt (cs ! it)"
    using ok(3) n by auto
  then obtain p fb where IH: "typelib_createFB rt (last (m # ns)) ty hash = Inr fb"
      "getFB rt (m # ns) x = Some (p, [])" "node_at p x = fb"
      "child_deleteable fb \<Longrightarrow> \<exists>y. deleteFB rt (m # ns) x = (Ready, y) \<and>
         (\<nexists>p. getFB rt (m # ns) y = Some (p, [])) \<and> createFB rt (m # ns) ty hash y = (Ready, x)"
    using "3.IH" [OF dyn(1) fc [symmetric] dyn(2) "3.prems"(1) _ _ x(1)] "3.prems"(3) by auto
  have child: "getChildrenIterator rt n (cs[it := y]) = it" "isChild rt it n (cs[it := y])"
      "getChild rt n (cs[it := y]) = Some it" "findOrCreateContainer rt n (cs[it := y]) = (it, cs[it := y])"
    if "mContInstanceName y = n" for y
  proof -
    have "keys_sorted (name_addr rt) (cs[it := y])"
      using keys_sorted_update [OF spec(1)] spec(3) that by simp
    from getChild_nth [OF this, of it n] spec(2) that n
    show *: "getChildrenIterator rt n (cs[it := y]) = it" "isChild rt it n (cs[it := y])"
      "getChild rt n (cs[it := y]) = Some it"
      by simp_all
    show "findOrCreateContainer rt n (cs[it := y]) = (it, cs[it := y])"
      using * spec(2) by (auto simp: findOrCreateContainer_def)
  qed
  have "\<exists>c''. deleteFB rt (n # m # ns) c' = (Ready, c'') \<and>
      (\<nexists>p. getFB rt (n # m # ns) c'' = Some (p, [])) \<and>
      createFB rt (n # m # ns) ty hash c'' = (Ready, c')" if del: "child_deleteable fb"
  proof -
    obtain y where y: "deleteFB rt (m # ns) x = (Ready, y)" "\<nexists>p. getFB rt (m # ns) y = Some (p, [])"
        "createFB rt (m # ns) ty hash y = (Ready, x)"
      using IH(4) [OF del] by blast
    have y_fields: "mContInstanceName y = n" "isDynamicContainer y"
      using mContInstanceName_deleteFB [of rt "m # ns" x]
        isDynamic_kind [OF mKind_deleteFB [of rt "m # ns" x]] x_fields y(1) by simp_all
    have "deleteFB rt (n # m # ns) c' = (Ready, set_children (cs[it := y]) c)"
      using deleteFB_step [of rt n c' it "m # ns"] child [OF x_fields(1)] x_fields(2) y(1) spec(2)
      by (simp add: x(2) del: deleteFB.simps)
    moreover have "\<nexists>p. getFB rt (n # m # ns) (set_children (cs[it := y]) c) = Some (p, [])"
      using getFB_step [of rt n "set_children (cs[it := y]) c" it "m # ns"] child [OF y_fields(1)] y(2)
        spec(2) by (simp del: getFB.simps)
    moreover have "createFB rt (n # m # ns) ty hash (set_children (cs[it := y]) c) = (Ready, c')"
      using createFB_step [of "set_children (cs[it := y]) c" rt n it "cs[it := y]" m ns ty hash Ready x]
        child [OF y_fields(1)] y(3) y_fields(2) dyn(1) spec(2)
      by (simp add: x(2) del: createFB.simps)
    ultimately show ?thesis
      by blast
  qed
  moreover have "getFB rt (n # m # ns) c' = Some (it # p, [])" "node_at (it # p) c' = fb"
    using getFB_step [of rt n c' it "m # ns"] child [OF x_fields(1)] IH(2,3) spec(2)
    by (simp_all add: x(2) del: getFB.simps)
  moreover have "last (n # m # ns) = last (m # ns)"
    by simp
  ultimately show ?case
    using IH(1) by (metis (no_types))
qed simp

section \<open>What an execution command reaches\<close>

definition target_state :: "EMGMCommandType \<Rightarrow> E_FBStates" where
  "target_state cmd = (case cmd of Start \<Rightarrow> Running | Stop \<Rightarrow> Stopped | Kill \<Rightarrow> Killed | _ \<Rightarrow> Idle)"

text \<open>The states of contained blocks that count as having followed the command.\<close>

definition followed :: "EMGMCommandType \<Rightarrow> E_FBStates \<Rightarrow> bool" where
  "followed cmd s \<longleftrightarrow> s = target_state cmd \<or> checkForActionEquivalentState s cmd = Ready"

fun all_followed :: "EMGMCommandType \<Rightarrow> CFBContainer \<Rightarrow> bool" where
  "all_followed cmd (CFBContainer n k cs) \<longleftrightarrow>
     (case kind_state k of None \<Rightarrow> \<forall>c\<in>set cs. all_followed cmd c | Some s \<Rightarrow> followed cmd s)"

lemma own_change_state:
  assumes "\<And>b. mFBState (setInit b) = mFBState b"
    and "own_changeExecutionState setInit cmd k = (r, k')"
  shows "r = Ready \<Longrightarrow> kind_state k' = map_option (\<lambda>_. target_state cmd) (kind_state k)"
    "r \<noteq> Ready \<Longrightarrow> k' = k" "kind_state k = None \<Longrightarrow> r = Ready \<and> k' = k"
  using assms
  by (auto simp: own_changeExecutionState_def kind_state_def CFunctionBlock_changeExecutionState_def
      target_state_def Let_def split: container_kind.splits EMGMCommandType.splits if_splits)

lemma kind_state_resource_after [simp]:
  assumes "\<And>b. mFBState (setInit b) = mFBState b" "\<And>b. mFBState (sample b) = mFBState b"
  shows "kind_state (resource_after setInit sample cmd k) = kind_state k"
  using assms by (simp add: resource_after_def kind_state_def split: container_kind.split)

definition keeps_state :: "(CFunctionBlock \<Rightarrow> CFunctionBlock) \<Rightarrow> bool" where
  "keeps_state f \<longleftrightarrow> (\<forall>b. mFBState (f b) = mFBState b)"

lemma change_followed:
  "keeps_state setInit \<Longrightarrow> keeps_state sample \<Longrightarrow>
   changeExecutionState setInit sample cmd c = (Ready, c') \<Longrightarrow>
      kind_state (mKind c') = map_option (\<lambda>_. target_state cmd) (kind_state (mKind c)) \<and>
      (\<forall>x\<in>set (mChildren c'). all_followed cmd x)"
  "keeps_state setInit \<Longrightarrow> keeps_state sample \<Longrightarrow>
   change_children setInit sample cmd cs = (Ready, cs') \<Longrightarrow> \<forall>x\<in>set cs'. all_followed cmd x"
proof (induction setInit sample cmd c and setInit sample cmd cs arbitrary: c' and cs'
    rule: changeExecutionState_change_children.induct)
  case (1 setInit sample cmd n k cs)
  obtain r k' where k: "own_changeExecutionState setInit cmd k = (r, k')"
    by fastforce
  obtain r' cs' where cs: "change_children setInit sample cmd cs = (r', cs')"
    by fastforce
  have r: "r = Ready" "r' = Ready" and c': "c' = CFBContainer n (resource_after setInit sample cmd k') cs'"
    using "1.prems"(3) k cs by (auto split: if_splits)
  have "kind_state k' = map_option (\<lambda>_. target_state cmd) (kind_state k)"
    using own_change_state(1) [OF _ k r(1)] "1.prems"(1) by (simp add: keeps_state_def)
  moreover have "\<forall>x\<in>set cs'. all_followed cmd x"
    using "1.IH" [OF k [symmetric] r(1) "1.prems"(1,2)] cs r(2) by simp
  ultimately show ?case
    using "1.prems"(1,2) by (simp add: c' keeps_state_def)
next
  case (3 setInit sample cmd c cs)
  obtain r x where c: "changeExecutionState setInit sample cmd c = (r, x)"
    by fastforce
  define r1 where "r1 = (if r \<noteq> Ready then case kind_state (mKind x) of None \<Rightarrow> r
        | Some s \<Rightarrow> checkForActionEquivalentState s cmd else r)"
  have r1: "r1 = Ready"
    using "3.prems"(3) c by (auto simp: r1_def Let_def split: if_splits)
  obtain r2 xs where cs: "change_children setInit sample cmd cs = (r2, xs)"
    by fastforce
  have cs': "cs' = x # xs" "r2 = Ready"
    using "3.prems"(3) c cs r1 by (auto simp: Let_def r1_def)
  have "\<forall>y\<in>set xs. all_followed cmd y"
    using "3.IH"(2) [OF c [symmetric] r1_def r1 "3.prems"(1,2)] cs cs'(2) by simp
  moreover have "all_followed cmd x"
  proof (cases "r = Ready")
    case True
    have "kind_state (mKind x) = map_option (\<lambda>_. target_state cmd) (kind_state (mKind c)) \<and>
      (\<forall>x\<in>set (mChildren x). all_followed cmd x)"
      using "3.IH"(1) [OF "3.prems"(1,2)] c True by simp
    then show ?thesis
      by (cases x) (auto simp: followed_def split: option.split)
  next
    case False
    then show ?thesis
      using r1 by (cases x) (auto simp: r1_def followed_def split: option.splits)
  qed
  ultimately show ?case
    by (simp add: cs'(1))
qed simp

section \<open>The type library\<close>

lemma findTypeEntry_iff:
  assumes "runtime_ok rt" "keys_sorted (\<lambda>e. id_addr rt (mTypeNameId e)) lib"
  shows "findTypeEntry rt lib n = Some e \<longleftrightarrow> e \<in> set lib \<and> mTypeNameId e = n"
proof -
  let ?f = "\<lambda>e. id_addr rt (mTypeNameId e)"
  let ?it = "lower_bound (\<lambda>e. ?f e < id_addr rt n) lib"
  have find: "findTypeEntry rt lib n =
      (if ?it \<noteq> length lib \<and> ?f (lib ! ?it) = id_addr rt n then Some (lib ! ?it) else None)"
    by (simp add: findTypeEntry_def id_less_def id_eq_def Let_def)
  have less: "?it \<noteq> length lib \<Longrightarrow> ?it < length lib"
    using lower_bound_le [of "\<lambda>e. ?f e < id_addr rt n" lib] by simp
  show ?thesis
  proof
    assume "findTypeEntry rt lib n = Some e"
    then have it: "?it \<noteq> length lib" "lib ! ?it = e" "?f (lib ! ?it) = id_addr rt n"
      by (auto simp: find split: if_splits)
    then show "e \<in> set lib \<and> mTypeNameId e = n"
      using nth_mem [OF less [OF it(1)]] id_addr_eq [OF assms(1)] by simp
  next
    assume e: "e \<in> set lib \<and> mTypeNameId e = n"
    then obtain i where "i < length lib" "lib ! i = e"
      by (auto simp: in_set_conv_nth)
    then show "findTypeEntry rt lib n = Some e"
      using lower_bound_found [OF assms(2), of i "id_addr rt n"] e by (simp add: find)
  qed
qed

lemma addFBType_sorted:
  assumes "keys_sorted (\<lambda>e. id_addr rt (mTypeNameId e)) (fbTypeLib rt)"
  shows "keys_sorted (\<lambda>x. id_addr (addFBType e rt) (mTypeNameId x)) (fbTypeLib (addFBType e rt))"
proof -
  let ?f = "\<lambda>e. id_addr rt (mTypeNameId e)"
  have fields: "id_addr (addFBType e rt) n = id_addr rt n"
    "fbTypeLib (addFBType e rt) = sortedTypeEntryInsert rt (fbTypeLib rt) e" for n
    by (simp_all add: addFBType_def id_addr_def split: option.split)
  have "keys_sorted ?f (sortedTypeEntryInsert rt (fbTypeLib rt) e)"
    using assms insert_keys_sorted [OF assms, of e] lower_bound_iff [OF assms, of "?f e"]
    by (simp add: sortedTypeEntryInsert_def id_less_def id_eq_def Let_def)
  then show ?thesis
    by (simp only: fields)
qed

section \<open>An example\<close>

text \<open>A library with one type.\<close>

definition example_block :: CFunctionBlock where
  "example_block =
     \<lparr>mInterfaceSpec = example_spec, mEventMonitorCount = [], mForces = [], mFBState = Idle,
      mInputEventConnectionCount = None, mConnRefCount = 0, mDeletable = True\<rparr>"

definition example_type :: CFBTypeEntry where
  "example_type =
     \<lparr>mTypeNameId = Some ''E_CTU'', mTypeHash = [],
      createFBInstance = \<lambda>n. Some (CFBContainer n (Block example_block) []),
      configureFB = \<lambda>_. Some, initializeFB = Some\<rparr>"

definition example_runtime :: runtime where
  "example_runtime = \<lparr>text_addr = text_code, lookup_id = Some, fbTypeLib = [example_type]\<rparr>"

definition example_resource :: CFBContainer where
  "example_resource =
     CFBContainer (Some ''R'') (Resource (example_block\<lparr>mFBState := Running\<rparr>) None) []"

lemma find_example:
  "findTypeEntry example_runtime (fbTypeLib example_runtime) n = Some e \<Longrightarrow> e = example_type"
  by (auto simp: findTypeEntry_def example_runtime_def lower_bound_def Let_def split: if_splits)

lemma example_runtime_ok: "runtime_ok example_runtime"
proof -
  have "inj text_code"
    by (auto intro: injI text_code_inj)
  moreover have creates: "fb = CFBContainer inst (Block example_block) []"
    if "typelib_createFB example_runtime inst ty hash = Inr fb" for inst ty hash fb
    using that
    by (auto simp: typelib_createFB_def createGenericFB_def findGenericTypeEntry_def
        split: if_splits option.splits sum.splits dest!: find_example) (simp_all add: example_type_def)
  ultimately show ?thesis
    using text_code_pos unfolding runtime_ok_def
    by (auto simp: isFB_def dest!: creates) (simp_all add: example_runtime_def)
qed

lemma example_resource_ok: "container_ok rt example_resource"
  by (simp add: example_resource_def)

section \<open>Properties\<close>

text \<open>Changes of blocks keep the tree.\<close>

lemma mContInstanceName_change_blocks [simp]:
  "mContInstanceName (change_blocks d ns c) = mContInstanceName c"
  by (cases c) simp

lemma change_blocks_ok: "container_ok rt c \<Longrightarrow> container_ok rt (change_blocks d ns c)"
proof (induction d ns c rule: change_blocks.induct)
  case (1 d ns n k cs)
  have "map (name_addr rt) (map (\<lambda>c. change_blocks d (ns @ [mContInstanceName c]) c) cs) =
      map (name_addr rt) cs"
    by simp
  then show ?case
    using 1 by (auto simp del: map_map)
qed

text \<open>Whatever command a resource executes, the children of every container stay sorted by the addresses
  of their names, without duplicates.\<close>

lemma handleExecutionStateCmd_name:
  "mContInstanceName (snd (handleExecutionStateCmd rt setInit sample cmd target c)) = mContInstanceName c"
  by (auto simp: handleExecutionStateCmd_def split_beta change_fields mContInstanceName_set_node_at
      split: option.split)

lemma executeMGMCommand_ok:
  assumes "runtime_ok rt" "container_ok rt c" "None \<notin> set (mFirstParam cmd)"
    and "executeMGMCommand rt setInit sample other cmd c = Some (r, cmd', c')"
  shows "container_ok rt c'" "mContInstanceName c' = mContInstanceName c"
proof -
  have place: "container_ok rt c' \<and> mContInstanceName c' = mContInstanceName c"
    if "change_in_place x c = (r, cmd', c')" for x
    using that change_blocks_ok [OF assms(2), of "snd (snd x)" "[]"]
    by (auto simp: change_in_place_def split_beta)
  have kept: "container_ok rt c' \<and> mContInstanceName c' = mContInstanceName c"
    if "keep_cmd cmd x = (r, cmd', c')" "container_ok rt (snd x)" "mContInstanceName (snd x) = mContInstanceName c" for x
    using that by (auto simp: keep_cmd_def)
  have "container_ok rt c' \<and> mContInstanceName c' = mContInstanceName c"
    using assms place kept
    by (cases "mCMD cmd")
      (simp_all add: executeMGMCommand_def createFB_ok deleteFB_ok handleExecutionStateCmd_ok
        handleExecutionStateCmd_name split: if_splits)
  then show "container_ok rt c'" "mContInstanceName c' = mContInstanceName c"
    by blast+
qed

lemma executeMGMCommand_None:
  "executeMGMCommand rt setInit sample other cmd c = None \<longleftrightarrow> mDestination cmd = None \<and> front_of_empty cmd"
  by (simp add: executeMGMCommand_def)

text \<open>The child a command for a device goes to is no resource.\<close>

definition no_resource :: "runtime \<Rightarrow> StringId \<Rightarrow> CFBContainer \<Rightarrow> bool" where
  "no_resource rt dst c \<longleftrightarrow>
     (\<exists>it. getChild rt dst (mChildren c) = Some it \<and>
        (case mKind (mChildren c ! it) of Resource b t \<Rightarrow> False | _ \<Rightarrow> True))"

lemma device_executeMGMCommand_ok:
  assumes ok: "runtime_ok rt" "container_ok rt c" "None \<notin> set (mFirstParam cmd)"
  shows "case device_executeMGMCommand rt setInit sample other cmd c of
     Some (r, cmd', c') \<Rightarrow> container_ok rt c'
   | None \<Rightarrow> front_of_empty cmd \<or> no_resource rt (mDestination cmd) c"
proof (cases "id_text (mDestination cmd) = []")
  case True
  then show ?thesis
    using executeMGMCommand_ok(1) [OF ok] executeMGMCommand_None [of rt setInit sample other cmd c]
    by (auto simp: device_executeMGMCommand_def split: option.split)
next
  case dest: False
  show ?thesis
  proof (cases "getChild rt (mDestination cmd) (mChildren c)")
    case None
    then show ?thesis
      using ok dest by (simp add: device_executeMGMCommand_def)
  next
    case (Some it)
    let ?x = "executeMGMCommand rt setInit sample other (cmd\<lparr>mDestination := None\<rparr>) (mChildren c ! it)"
    have it: "it < length (mChildren c)"
      using getChild_Some [OF Some] by simp
    then have child: "container_ok rt (mChildren c ! it)"
      using container_okD(3) [OF ok(2)] it by simp
    have "container_ok rt (set_children ((mChildren c)[it := res]) c)" if "?x = Some (r, cmd', res)" for r cmd' res
      using executeMGMCommand_ok [OF ok(1) child _ that] ok(3) container_okD(3) [OF ok(2)]
      by (intro container_ok_set_nth [OF ok(2) container_okD(2) [OF ok(2)]]) simp_all
    moreover have "front_of_empty cmd" if "?x = None"
      using that by (simp add: executeMGMCommand_None front_of_empty_def)
    ultimately show ?thesis
      using dest Some
      by (cases ?x; cases "mKind (mChildren c ! it)")
        (auto simp: device_executeMGMCommand_def no_resource_def)
  qed
qed

text \<open>When a block is created: the containers on the way are dynamic, the last name is free, and the type
  library makes the type.\<close>

fun may_create :: "runtime \<Rightarrow> TNameIdentifier \<Rightarrow> StringId \<Rightarrow> string \<Rightarrow> CFBContainer \<Rightarrow> bool" where
  "may_create rt [] ty hash c \<longleftrightarrow> False"
| "may_create rt [n] ty hash c \<longleftrightarrow>
     isDynamicContainer c \<and> n \<notin> mContInstanceName ` set (mChildren c) \<and>
     (\<exists>fb. typelib_createFB rt n ty hash = Inr fb)"
| "may_create rt (n # m # ns) ty hash c \<longleftrightarrow>
     isDynamicContainer c \<and>
     (if n \<in> mContInstanceName ` set (mChildren c)
      then \<exists>x\<in>set (mChildren c). mContInstanceName x = n \<and> isDynamicContainer x \<and> may_create rt (m # ns) ty hash x
      else \<exists>fb. typelib_createFB rt (last (m # ns)) ty hash = Inr fb)"

lemma may_create_new:
  "may_create rt (m # ns) ty hash (CFBContainer n PlainContainer []) \<longleftrightarrow>
     (\<exists>fb. typelib_createFB rt (last (m # ns)) ty hash = Inr fb)"
  by (cases ns) (simp_all add: isDynamicContainer_def)

lemma name_unique:
  assumes "runtime_ok rt" "keys_sorted (name_addr rt) cs" "it < length cs" "mContInstanceName (cs ! it) = n"
    "x \<in> set cs" "mContInstanceName x = n" "n \<noteq> None"
  shows "x = cs ! it"
proof -
  obtain i where i: "i < length cs" "cs ! i = x"
    using assms(5) by (auto simp: in_set_conv_nth)
  show ?thesis
    using iterator_nth(1) [OF assms(2,3)] iterator_nth(1) [OF assms(2) i(1)] assms(4,6,7) i(2) by simp
qed

lemma createFB_Ready_iff:
  "runtime_ok rt \<Longrightarrow> container_ok rt c \<Longrightarrow> None \<notin> set ns \<Longrightarrow>
   fst (createFB rt ns ty hash c) = Ready \<longleftrightarrow> may_create rt ns ty hash c"
proof (induction rt ns ty hash c rule: createFB.induct)
  case (1 rt ty hash c)
  then show ?case
    by simp
next
  case (2 rt n ty hash c)
  have "n \<noteq> None"
    using "2.prems"(3) by (metis list.set_intros(1))
  then show ?case
    using isChild_iff [OF "2.prems"(1) container_okD(2) [OF "2.prems"(2)], of n] typelib_error [of rt n ty hash]
    by (auto simp: createChild_def Let_def split: sum.split)
next
  case (3 rt n m ns ty hash c)
  obtain it cs where fc: "findOrCreateContainer rt n (mChildren c) = (it, cs)"
    by fastforce
  note ok = container_okD [OF "3.prems"(2)]
  have n: "n \<noteq> None" and ns: "None \<notin> set (m # ns)"
    using "3.prems"(3) by (metis list.set_intros(1,2))+
  note spec = findOrCreate_spec [OF "3.prems"(1) ok(2) n fc]
  have "cs ! it = CFBContainer n PlainContainer [] \<or> cs ! it \<in> set (mChildren c)"
    using spec(6) nth_mem [OF spec(2)] by blast
  then have "container_ok rt (cs ! it)"
    using ok(3) n by auto
  then have IH: "isDynamicContainer c \<Longrightarrow> isDynamicContainer (cs ! it) \<Longrightarrow>
      fst (createFB rt (m # ns) ty hash (cs ! it)) = Ready \<longleftrightarrow> may_create rt (m # ns) ty hash (cs ! it)"
    using "3.IH" [OF _ fc [symmetric] _ "3.prems"(1)] ns by blast
  have "createFB rt (n # m # ns) ty hash c =
      (if isDynamicContainer c
       then if isDynamicContainer (cs ! it)
         then (fst (createFB rt (m # ns) ty hash (cs ! it)),
           set_children (cs[it := snd (createFB rt (m # ns) ty hash (cs ! it))]) c)
         else (InvalidDst, set_children cs c)
       else (InvalidDst, c))"
    using fc by (simp add: split_beta)
  then have "fst (createFB rt (n # m # ns) ty hash c) = Ready \<longleftrightarrow>
      isDynamicContainer c \<and> isDynamicContainer (cs ! it) \<and> may_create rt (m # ns) ty hash (cs ! it)"
    using IH by (auto simp del: createFB.simps may_create.simps)
  also have "\<dots> \<longleftrightarrow> may_create rt (n # m # ns) ty hash c"
  proof (cases "n \<in> mContInstanceName ` set (mChildren c)")
    case True
    then have cs: "cs = mChildren c"
      using spec(4) by simp
    have "x \<in> set (mChildren c) \<and> mContInstanceName x = n \<longleftrightarrow> x = mChildren c ! it" for x
      using name_unique [OF "3.prems"(1) ok(2) spec(2,3) [unfolded cs] _ _ n] nth_mem [OF spec(2)] spec(3)
      unfolding cs by blast
    then have "(\<exists>x\<in>set (mChildren c). mContInstanceName x = n \<and> P x) \<longleftrightarrow> P (mChildren c ! it)" for P
      by (simp add: Bex_def flip: conj_assoc)
    then show ?thesis
      using True by (simp add: cs)
  next
    case False
    then have "cs ! it = CFBContainer n PlainContainer []"
      using spec(2,5) iterator_le [of rt n "mChildren c"] by simp
    then show ?thesis
      using False may_create_new [of rt m ns ty hash n] by (simp add: isDynamicContainer_def del: last.simps)
  qed
  finally show ?case .
qed

text \<open>C12: a block that is created at the end of a list of names, whatever containers are on the way, is
  the block the type library made, and the list of names leads to it.  If it may be deleted,
  deleting it succeeds, the names no longer lead to a block, and creating it again gives the
  same tree.\<close>

theorem createFB_roundtrip:
  assumes "runtime_ok rt" "container_ok rt c" "None \<notin> set ns" "createFB rt ns ty hash c = (Ready, c')"
  shows "\<exists>p fb. typelib_createFB rt (last ns) ty hash = Inr fb \<and> getFB rt ns c' = Some (p, []) \<and>
     node_at p c' = fb \<and>
     (child_deleteable fb \<longrightarrow>
        (\<exists>c''. deleteFB rt ns c' = (Ready, c'') \<and> (\<nexists>p. getFB rt ns c'' = Some (p, [])) \<and>
           createFB rt ns ty hash c'' = (Ready, c')))"
  using assms by (rule create_find_delete)

lemma example_create:
  "typelib_createFB example_runtime n (Some ''E_CTU'') [] = Inr (CFBContainer n (Block example_block) [])"
  by (simp add: typelib_createFB_def findTypeEntry_def lower_bound_def id_less_def id_eq_def
      example_runtime_def example_type_def Let_def)

lemma example_createFB:
  "createFB example_runtime [Some ''A''] (Some ''E_CTU'') [] example_resource =
    (Ready, set_children [CFBContainer (Some ''A'') (Block example_block) []] example_resource)"
  by (simp add: createChild_def isDynamicContainer_def isChild_def getChildrenIterator_def
      example_resource_def example_create insert_at_def)

theorem createFB_roundtrip_witness:
  "\<exists>c'. createFB example_runtime [Some ''A''] (Some ''E_CTU'') [] example_resource = (Ready, c') \<and>
     (\<exists>p. getFB example_runtime [Some ''A''] c' = Some (p, []) \<and>
        node_at p c' = CFBContainer (Some ''A'') (Block example_block) [])"
proof -
  let ?c = "set_children [CFBContainer (Some ''A'') (Block example_block) []] example_resource"
  note example_createFB
  moreover obtain p fb where "typelib_createFB example_runtime (last [Some ''A'']) (Some ''E_CTU'') [] = Inr fb"
      "getFB example_runtime [Some ''A''] ?c = Some (p, [])" "node_at p ?c = fb"
    using createFB_roundtrip [OF example_runtime_ok example_resource_ok _ calculation]
    by (auto simp del: getFB.simps createFB.simps)
  ultimately show ?thesis
    using example_create by (auto simp del: getFB.simps createFB.simps)
qed

text \<open>When the type of a block cannot be created, the container that was made for the first of its
  names stays: the name is taken for every later block, and no command deletes it.\<close>

theorem failed_createFB_takes_name:
  assumes "runtime_ok rt" "container_ok rt c" "n \<noteq> None" "m \<noteq> None" "isDynamicContainer c"
    and "n \<notin> mContInstanceName ` set (mChildren c)" "typelib_createFB rt m ty hash = Inl r"
    and "createFB rt [n, m] ty hash c = (r', c')"
  shows "r' = r \<and> createFB rt [n] ty2 hash2 c' = (InvalidState, c') \<and>
    deleteFB rt [n] c' = (NoSuchObject, c')"
proof -
  note ok = container_okD [OF assms(2)]
  obtain it cs where fc: "findOrCreateContainer rt n (mChildren c) = (it, cs)"
    by fastforce
  note spec = findOrCreate_spec [OF assms(1) ok(2) assms(3) fc]
  have it: "cs ! it = CFBContainer n PlainContainer []"
    using spec(5) [OF assms(6)] iterator_le [of rt n "mChildren c"] by simp
  have "createFB rt [m] ty hash (cs ! it) = (r, cs ! it)"
    using assms(4,7)
    by (simp add: it createChild_def isDynamicContainer_def isChild_def getChildrenIterator_def)
  then have "createFB rt [n, m] ty hash c = (r, set_children (cs[it := cs ! it]) c)"
    using createFB_step [OF assms(5) fc] it by (simp add: isDynamicContainer_def del: createFB.simps)
  then have "r' = r" "c' = set_children cs c"
    using assms(8) by (simp_all del: createFB.simps)
  moreover have "getChildrenIterator rt n cs = it" "isChild rt it n cs"
    using getChild_nth [OF spec(1,2,3) assms(3)] by simp_all
  ultimately show ?thesis
    using assms(5) it by (simp add: createChild_def isFB_def)
qed

theorem failed_createFB_takes_name_witness:
  "\<exists>c'. createFB example_runtime [Some ''A'', Some ''B''] (Some ''X'') [] example_resource =
       (UnsupportedType, c') \<and>
     createFB example_runtime [Some ''A''] (Some ''E_CTU'') [] c' = (InvalidState, c')"
proof -
  have "typelib_createFB example_runtime (Some ''B'') (Some ''X'') [] = Inl UnsupportedType"
    by (simp add: typelib_createFB_def createGenericFB_def findGenericTypeEntry_def findTypeEntry_def
        lower_bound_def id_less_def id_eq_def id_addr_def genericTypeName_def
        getFirstNonTypeNameUnderscorePos_def underscore_loop.simps find_from_def rfind_separator_def
        id_text_def example_runtime_def example_type_def Let_def upt_rec)
  moreover obtain r' c' where
    "createFB example_runtime [Some ''A'', Some ''B''] (Some ''X'') [] example_resource = (r', c')"
    by fastforce
  moreover have "isDynamicContainer example_resource" "mChildren example_resource = []"
    by (simp_all add: isDynamicContainer_def example_resource_def)
  ultimately show ?thesis
    using failed_createFB_takes_name [OF example_runtime_ok example_resource_ok, of "Some ''A''" "Some ''B''"]
    by (auto simp del: createFB.simps deleteFB.simps)
qed

text \<open>C16: when a start, stop, kill or reset of a block, a resource or a container is answered with
  Ready, the block itself is in the state of the command, and every contained block, through
  all plain containers, is in that state or in one the code counts as equivalent: Killed for a
  stop, Stopped or Idle for a kill.\<close>

theorem changeExecutionState_reaches_all:
  assumes "keeps_state setInit" "keeps_state sample"
    and "changeExecutionState setInit sample cmd c = (Ready, c')"
  shows "kind_state (mKind c') = map_option (\<lambda>_. target_state cmd) (kind_state (mKind c)) \<and>
    (\<forall>x\<in>set (mChildren c'). all_followed cmd x)"
  using assms by (rule change_followed(1))

theorem changeExecutionState_reaches_all_witness:
  "\<exists>c'. changeExecutionState id id Stop
      (set_children [CFBContainer (Some ''A'') (Block (example_block\<lparr>mFBState := Killed\<rparr>)) []]
         example_resource) = (Ready, c') \<and>
     kind_state (mKind c') = Some Stopped \<and> (\<forall>x\<in>set (mChildren c'). all_followed Stop x)"
proof -
  let ?c = "set_children [CFBContainer (Some ''A'') (Block (example_block\<lparr>mFBState := Killed\<rparr>)) []]
         example_resource"
  obtain c' where c': "changeExecutionState id id Stop ?c = (Ready, c')"
    by (simp add: example_resource_def set_children_def own_changeExecutionState_def
        CFunctionBlock_changeExecutionState_def kind_state_def checkForActionEquivalentState_def)
  from changeExecutionState_reaches_all [OF _ _ this] show ?thesis
    using c' by (auto simp: keeps_state_def target_state_def kind_state_def example_resource_def)
qed

text \<open>A stop of a running resource whose first block is already stopped is refused, but the
  resource is marked as stopped: its other blocks and its thread are left running, and a later
  stop or kill is refused and changes nothing.\<close>

theorem stop_refused_half_done:
  assumes "mFBState b = Running" "mFBState b1 = Stopped"
    and "res = CFBContainer n (Resource b t) (CFBContainer n1 (Block b1) ks # cs)"
    and "res' = CFBContainer n (Resource (b\<lparr>mFBState := Stopped\<rparr>) t) (CFBContainer n1 (Block b1) ks # cs)"
  shows "changeExecutionState setInit sample Stop res = (InvalidState, res') \<and>
    (\<forall>cmd\<in>{Stop, Kill}. changeExecutionState setInit sample cmd res' = (InvalidState, res'))"
  using assms
  by (simp add: own_changeExecutionState_def CFunctionBlock_changeExecutionState_def kind_state_def
      checkForActionEquivalentState_def)

theorem stop_refused_half_done_witness:
  "fst (changeExecutionState id id Stop
     (set_children [CFBContainer (Some ''A'') (Block (example_block\<lparr>mFBState := Stopped\<rparr>)) [],
        CFBContainer (Some ''B'') (Block (example_block\<lparr>mFBState := Running\<rparr>)) []]
       example_resource)) = InvalidState"
proof -
  have "set_children [CFBContainer (Some ''A'') (Block (example_block\<lparr>mFBState := Stopped\<rparr>)) [],
        CFBContainer (Some ''B'') (Block (example_block\<lparr>mFBState := Running\<rparr>)) []] example_resource =
    CFBContainer (Some ''R'') (Resource (example_block\<lparr>mFBState := Running\<rparr>) None)
      [CFBContainer (Some ''A'') (Block (example_block\<lparr>mFBState := Stopped\<rparr>)) [],
        CFBContainer (Some ''B'') (Block (example_block\<lparr>mFBState := Running\<rparr>)) []]"
    by (simp add: example_resource_def set_children_def)
  from stop_refused_half_done [OF _ _ this refl] show ?thesis
    by simp
qed

end
