(* ===== verification/Command_Parser.thy ===== *)
theory Command_Parser
imports FB_Container
begin

text \<open>
  The text of management commands: the escapes of XML text (\<open>core/src/util/string_utils.cpp\<close>), the
  parser of requests and the generator of responses (\<open>stdfblib/system/src/CommandParser.cpp\<close>), and
  the device manager that parses a request, executes it and answers it
  (\<open>stdfblib/system/src/DEV_MGR.cpp\<close>).

  The scanner is the text that is left.  A parser function takes it and the command and returns the
  response with both; what an erroneous request has written to the command stays there, as in the
  code, where the response is made from it.  \<open>StringId::insert\<close> of a text is the id of the text.
\<close>

section \<open>XML escapes\<close>

definition scEscapeMap :: "(char \<times> string) list" where
  "scEscapeMap =
     [(CHR 0x22, ''&quot;''), (CHR ''&'', ''&amp;''), (CHR 0x27, ''&apos;''),
      (CHR ''<'', ''&lt;''), (CHR ''>'', ''&gt;'')]"

text \<open>The loop goes down from the last character to \<open>paStart\<close>; \<open>n\<close> is the number of characters left to
  look at from there on.\<close>

fun escape_loop :: "nat \<Rightarrow> nat \<Rightarrow> string \<Rightarrow> string" where
  "escape_loop paStart 0 s = s"
| "escape_loop paStart (Suc n) s =
     (let runner = paStart + n
      in escape_loop paStart n
           (case map_of scEscapeMap (s ! runner) of
              Some e \<Rightarrow> take runner s @ e @ drop (Suc runner) s
            | None \<Rightarrow> s))"

definition transformNonEscapedToEscapedXMLText :: "string \<Rightarrow> nat \<Rightarrow> string" where
  "transformNonEscapedToEscapedXMLText s paStart =
     (if s = [] then s else escape_loop paStart (length s - paStart) s)"

definition starts_with :: "string \<Rightarrow> string \<Rightarrow> bool" where
  "starts_with p s = (take (length p) s = p)"

function unescape_loop :: "string \<Rightarrow> string \<Rightarrow> string" where
  "unescape_loop src target =
     (case src of
        [] \<Rightarrow> target
      | ch # rest \<Rightarrow>
          (case (if ch = CHR ''&''
                 then find (\<lambda>(c, e). starts_with e src) scEscapeMap else None) of
             Some (c, e) \<Rightarrow> unescape_loop (drop (length e) src) (target @ [c])
           | None \<Rightarrow> unescape_loop rest (target @ [ch])))"
  by pat_completeness auto

termination
  by (relation "measure (\<lambda>(src, target). length src)") (auto simp: scEscapeMap_def split: if_splits)

declare unescape_loop.simps [simp del]

definition transformEscapedXMLToNonEscapedText :: "string \<Rightarrow> string \<Rightarrow> string" where
  "transformEscapedXMLToNonEscapedText src target = unescape_loop src target"

text \<open>The argument is the C string up to its terminating zero.\<close>

definition getExtraSizeForXMLEscapedChars :: "string \<Rightarrow> nat" where
  "getExtraSizeForXMLEscapedChars s =
     sum_list (map (\<lambda>ch. case map_of scEscapeMap ch of Some e \<Rightarrow> length e - 1 | None \<Rightarrow> 0) s)"

section \<open>The scanner\<close>

definition skipWhiteSpace :: "string \<Rightarrow> string" where
  "skipWhiteSpace s = dropWhile (\<lambda>ch. ch \<in> {CHR 0x20, CHR 0x09, CHR 0x0D, CHR 0x0A}) s"

definition consume :: "string \<Rightarrow> string \<Rightarrow> string option" where
  "consume p s = (if starts_with p s then Some (drop (length p) s) else None)"

definition takeUntil :: "char \<Rightarrow> string \<Rightarrow> string \<times> string" where
  "takeUntil d s =
     (if d \<in> set s then (takeWhile (\<lambda>ch. ch \<noteq> d) s, tl (dropWhile (\<lambda>ch. ch \<noteq> d) s)) else ([], s))"

abbreviation quote_char :: char where
  "quote_char \<equiv> CHR 0x22"

definition peek :: "string \<Rightarrow> char" where
  "peek s = (case s of [] \<Rightarrow> CHR 0x00 | ch # _ \<Rightarrow> ch)"

definition actionTable :: "(string \<times> EMGMCommandType) list" where
  "actionTable =
     [(''CREATE'', CreateGroup), (''DELETE'', DeleteGroup), (''START'', Start), (''STOP'', Stop),
      (''KILL'', Kill), (''RESET'', Reset), (''READ'', Read), (''WRITE'', Write),
      (''QUERY'', QueryGroup)]"

definition parseActionAttributeValue :: "string \<Rightarrow> EMGMCommandType \<times> string" where
  "parseActionAttributeValue s =
     (case takeUntil quote_char s of (action, s) \<Rightarrow>
        ((case map_of actionTable action of Some c \<Rightarrow> c | None \<Rightarrow> INVALID), s))"

definition proceedToOpenBracket :: "string \<Rightarrow> string option" where
  "proceedToOpenBracket s = consume ''<'' (skipWhiteSpace s)"

definition proceedToClosingBracket :: "string \<Rightarrow> string option" where
  "proceedToClosingBracket s = consume ''/>'' (skipWhiteSpace s)"

definition checkRequestClosingTag :: "string \<Rightarrow> bool" where
  "checkRequestClosingTag s =
     (if s = [] then True
      else (case consume ''/Request>'' (skipWhiteSpace s) of
              None \<Rightarrow> False
            | Some s \<Rightarrow> skipWhiteSpace s = []))"

definition isAsteriskValue :: "string \<Rightarrow> bool" where
  "isAsteriskValue v = (v = ''*'')"

definition isTriggerEvent :: "string \<Rightarrow> bool" where
  "isTriggerEvent v = (v = ''$e'' \<or> v = ''$E'')"

definition isResetEventCount :: "string \<Rightarrow> bool" where
  "isResetEventCount v =
     (length v = 3 \<and> v ! 0 = CHR ''$'' \<and> (v ! 1 = CHR ''e'' \<or> v ! 1 = CHR ''E'') \<and>
      (v ! 2 = CHR ''r'' \<or> v ! 2 = CHR ''R''))"

section \<open>Names\<close>

definition cgMaxSupportedNameHierarchy :: nat where
  "cgMaxSupportedNameHierarchy = 30"

definition try_push_back :: "StringId \<Rightarrow> TNameIdentifier \<Rightarrow> TNameIdentifier option" where
  "try_push_back n ns = (if cgMaxSupportedNameHierarchy \<le> length ns then None else Some (ns @ [n]))"

lemma length_after_dot: "length (tl (dropWhile p s)) < length s" if "s \<noteq> []"
proof (cases "dropWhile p s")
  case (Cons a xs)
  then show ?thesis
    using length_dropWhile_le [of p s] by simp
next
  case Nil
  then have "tl (dropWhile p s) = []"
    by (simp only: list.sel)
  then show ?thesis
    using that by (metis length_greater_0_conv list.size(3))
qed

function parseIdentifier :: "bool \<Rightarrow> string \<Rightarrow> TNameIdentifier \<Rightarrow> EMGMResponse \<times> TNameIdentifier" where
  "parseIdentifier allowEmpty s ns =
     (if s = [] then (BadParams, ns)
      else if CHR ''.'' \<notin> set s
      then (case try_push_back (Some s) ns of None \<Rightarrow> (Overflow, ns) | Some ns \<Rightarrow> (Ready, ns))
      else let name = takeWhile (\<lambda>ch. ch \<noteq> CHR ''.'') s; rest = tl (dropWhile (\<lambda>ch. ch \<noteq> CHR ''.'') s)
           in if name = [] then (BadParams, ns)
              else (case try_push_back (Some name) ns of
                      None \<Rightarrow> (Overflow, ns)
                    | Some ns \<Rightarrow>
                        if rest = []
                        then (if \<not> allowEmpty then (BadParams, ns)
                              else (case try_push_back (Some []) ns of
                                      None \<Rightarrow> (Overflow, ns) | Some ns \<Rightarrow> (Ready, ns)))
                        else parseIdentifier allowEmpty rest ns))"
  by pat_completeness auto

termination
  by (relation "measure (\<lambda>(a, s, ns). length s)") (simp_all add: length_after_dot del: length_tl)

declare parseIdentifier.simps [simp del]

text \<open>The name list and the hash; \<open>None\<close> when the list is full.  The hash is set in any case.\<close>

definition split_hash :: "string \<Rightarrow> string \<Rightarrow> string \<times> string" where
  "split_hash s hash =
     (if CHR ''#'' \<in> set s
      then (takeWhile (\<lambda>ch. ch \<noteq> CHR ''#'') s, tl (dropWhile (\<lambda>ch. ch \<noteq> CHR ''#'') s))
      else (s, hash))"

definition parseTypeName :: "string \<Rightarrow> TNameIdentifier \<Rightarrow> string \<Rightarrow> bool \<times> TNameIdentifier \<times> string" where
  "parseTypeName s ns hash =
     (case split_hash s hash of (name, hash) \<Rightarrow>
        (case try_push_back (Some name) ns of
           None \<Rightarrow> (False, ns, hash) | Some ns \<Rightarrow> (True, ns, hash)))"

section \<open>The parser\<close>

type_synonym parse_state = "string \<times> SManagementCMD"

definition parseRequest :: "parse_state \<Rightarrow> EMGMResponse \<times> parse_state" where
  "parseRequest = (\<lambda>(s, cmd).
     (case consume (''<Request ID='' @ [quote_char]) s of
        None \<Rightarrow> (InvalidObject, s, cmd)
      | Some s \<Rightarrow>
          (case takeUntil quote_char s of (i, s) \<Rightarrow>
             let cmd = cmd\<lparr>mID := i\<rparr>; s = skipWhiteSpace s
             in (case consume (''Action='' @ [quote_char]) s of
                   None \<Rightarrow> (InvalidObject, s, cmd)
                 | Some s \<Rightarrow>
                     (case parseActionAttributeValue s of (a, s) \<Rightarrow>
                        let cmd = cmd\<lparr>mCMD := a\<rparr>
                        in if a = INVALID then (UnsupportedCmd, s, cmd)
                           else let s = skipWhiteSpace s
                                in (case consume ''>'' s of
                                      Some s \<Rightarrow> (Ready, s, cmd)
                                    | None \<Rightarrow>
                                        (case consume ''/>'' s of
                                           Some s \<Rightarrow> (Ready, s, cmd)
                                         | None \<Rightarrow> (InvalidObject, s, cmd))))))))"

definition parseFBData :: "parse_state \<Rightarrow> EMGMResponse \<times> parse_state" where
  "parseFBData = (\<lambda>(s, cmd).
     (case consume (''FB Name='' @ [quote_char]) s of
        None \<Rightarrow> (InvalidObject, s, cmd)
      | Some s \<Rightarrow>
          (case takeUntil quote_char s of (name, s) \<Rightarrow>
             if name = [] then (BadParams, s, cmd)
             else
               (case (if isAsteriskValue name then (Ready, mFirstParam cmd)
                      else parseIdentifier False name (mFirstParam cmd)) of (r, ns) \<Rightarrow>
                  let cmd = cmd\<lparr>mFirstParam := ns\<rparr>
                  in if r \<noteq> Ready then (r, s, cmd)
                     else let s = skipWhiteSpace s
                          in (case consume (''Type='' @ [quote_char]) s of
                                None \<Rightarrow> (InvalidObject, s, cmd)
                              | Some s \<Rightarrow>
                                  (case takeUntil quote_char s of (ty, s) \<Rightarrow>
                                     (case (if isAsteriskValue ty
                                            then (True, mSecondParam cmd, mAdditionalParams cmd)
                                            else parseTypeName ty (mSecondParam cmd) (mAdditionalParams cmd))
                                      of (ok, ns, hash) \<Rightarrow>
                                        let cmd = cmd\<lparr>mSecondParam := ns, mAdditionalParams := hash\<rparr>
                                        in if \<not> ok then (Overflow, s, cmd)
                                           else (case proceedToClosingBracket s of
                                                   None \<Rightarrow> (InvalidObject, s, cmd)
                                                 | Some s \<Rightarrow> (Ready, s, cmd)))))))))"

definition parseConnectionContent :: "parse_state \<Rightarrow> EMGMResponse \<times> parse_state" where
  "parseConnectionContent = (\<lambda>(s, cmd).
     (case consume (''Source='' @ [quote_char]) s of
        None \<Rightarrow> (InvalidObject, s, cmd)
      | Some s \<Rightarrow>
          (case takeUntil quote_char s of (src, s) \<Rightarrow>
             if src = [] then (BadParams, s, cmd)
             else
               (case (if src = ''*'' then (Ready, mFirstParam cmd)
                      else parseIdentifier True src (mFirstParam cmd)) of (r, ns) \<Rightarrow>
                  let cmd = cmd\<lparr>mFirstParam := ns\<rparr>
                  in if r \<noteq> Ready then (r, s, cmd)
                     else let s = skipWhiteSpace s
                          in (case consume (''Destination='' @ [quote_char]) s of
                                None \<Rightarrow> (InvalidObject, s, cmd)
                              | Some s \<Rightarrow>
                                  (case takeUntil quote_char s of (dst, s) \<Rightarrow>
                                     if dst = [] then (BadParams, s, cmd)
                                     else
                                       (case (if dst = ''*'' then (Ready, mSecondParam cmd)
                                              else parseIdentifier False dst (mSecondParam cmd))
                                        of (r, ns) \<Rightarrow>
                                          let cmd = cmd\<lparr>mSecondParam := ns\<rparr>
                                          in if r \<noteq> Ready then (r, s, cmd)
                                             else (case proceedToClosingBracket s of
                                                     None \<Rightarrow> (InvalidObject, s, cmd)
                                                   | Some s \<Rightarrow> (Ready, s, cmd)))))))))"

definition parseConnectionData :: "parse_state \<Rightarrow> EMGMResponse \<times> parse_state" where
  "parseConnectionData = (\<lambda>(s, cmd).
     (case consume ''Connection '' s of
        None \<Rightarrow> (InvalidObject, s, cmd) | Some s \<Rightarrow> parseConnectionContent (s, cmd)))"

definition parseMonitoringData :: "parse_state \<Rightarrow> EMGMResponse \<times> parse_state" where
  "parseMonitoringData = (\<lambda>(s, cmd).
     (case consume ''Watch '' s of
        None \<Rightarrow> (InvalidObject, s, cmd) | Some s \<Rightarrow> parseConnectionContent (s, cmd)))"

text \<open>The two endings that the data parsers share: the command is set when the response is Ready, and
  the bracket of the closing tag has to follow.\<close>

definition set_cmd :: "EMGMCommandType \<Rightarrow> EMGMResponse \<times> parse_state \<Rightarrow> EMGMResponse \<times> parse_state" where
  "set_cmd c = (\<lambda>(r, s, cmd). (r, s, if r = Ready then cmd\<lparr>mCMD := c\<rparr> else cmd))"

definition then_openBracket :: "EMGMResponse \<times> parse_state \<Rightarrow> EMGMResponse \<times> parse_state" where
  "then_openBracket = (\<lambda>(r, s, cmd).
     if r = Ready
     then (case proceedToOpenBracket s of None \<Rightarrow> (InvalidObject, s, cmd) | Some s \<Rightarrow> (Ready, s, cmd))
     else (r, s, cmd))"

definition parseCreateData :: "parse_state \<Rightarrow> EMGMResponse \<times> parse_state" where
  "parseCreateData = (\<lambda>(s, cmd).
     let cmd = cmd\<lparr>mCMD := INVALID\<rparr>
     in then_openBracket
          (if peek s = CHR ''F'' then set_cmd CreateFBInstance (parseFBData (s, cmd))
           else if peek s = CHR ''C'' then set_cmd CreateConnection (parseConnectionData (s, cmd))
           else if peek s = CHR ''W'' then set_cmd MonitoringAddWatch (parseMonitoringData (s, cmd))
           else (InvalidObject, s, cmd)))"

definition parseDeleteData :: "parse_state \<Rightarrow> EMGMResponse \<times> parse_state" where
  "parseDeleteData = (\<lambda>(s, cmd).
     let cmd = cmd\<lparr>mCMD := INVALID\<rparr>
     in then_openBracket
          (if peek s = CHR ''F'' then set_cmd DeleteFBInstance (parseFBData (s, cmd))
           else if peek s = CHR ''C'' then set_cmd DeleteConnection (parseConnectionData (s, cmd))
           else if peek s = CHR ''W'' then set_cmd MonitoringRemoveWatch (parseMonitoringData (s, cmd))
           else (InvalidObject, s, cmd)))"

definition parseAdditionalStateCommandData :: "parse_state \<Rightarrow> EMGMResponse \<times> parse_state" where
  "parseAdditionalStateCommandData = (\<lambda>(s, cmd).
     if peek s = CHR ''F'' then then_openBracket (parseFBData (s, cmd)) else (Ready, s, cmd))"

definition parseReadData :: "parse_state \<Rightarrow> EMGMResponse \<times> parse_state" where
  "parseReadData = (\<lambda>(s, cmd).
     let cmd = cmd\<lparr>mCMD := INVALID\<rparr>
     in then_openBracket
          (if peek s = CHR ''C'' then set_cmd Read (parseConnectionData (s, cmd))
           else if peek s = CHR ''W''
           then (case consume ''Watches/>'' s of
                   None \<Rightarrow> (InvalidObject, s, cmd)
                 | Some s \<Rightarrow> (Ready, s, cmd\<lparr>mCMD := MonitoringReadWatches\<rparr>))
           else (InvalidObject, s, cmd)))"

text \<open>The end of \<open>parseWriteData\<close>: the command by the value and by the force attribute.\<close>

definition write_command :: "parse_state \<Rightarrow> EMGMResponse \<times> parse_state" where
  "write_command = (\<lambda>(s, cmd).
     (case consume (''force='' @ [quote_char]) s of
        Some s \<Rightarrow>
          (case takeUntil quote_char s of (f, s) \<Rightarrow>
             if f = ''true'' then (Ready, s, cmd\<lparr>mCMD := MonitoringForce\<rparr>)
             else if f = ''false'' then (Ready, s, cmd\<lparr>mCMD := MonitoringClearForce\<rparr>)
             else (BadParams, s, cmd))
      | None \<Rightarrow>
          (Ready, s, cmd\<lparr>mCMD :=
             if isTriggerEvent (mAdditionalParams cmd) then MonitoringTriggerEvent
             else if isResetEventCount (mAdditionalParams cmd) then MonitoringResetEventCount
             else Write\<rparr>)))"

definition parseWriteData :: "parse_state \<Rightarrow> EMGMResponse \<times> parse_state" where
  "parseWriteData = (\<lambda>(s, cmd).
     (case consume (''Connection Source='' @ [quote_char]) s of
        None \<Rightarrow> (InvalidObject, s, cmd)
      | Some s \<Rightarrow>
          (case takeUntil quote_char s of (src, s) \<Rightarrow>
             if src = [] then (BadParams, s, cmd)
             else
               let cmd = cmd\<lparr>mAdditionalParams :=
                     transformEscapedXMLToNonEscapedText src (mAdditionalParams cmd)\<rparr>;
                   s = skipWhiteSpace s
               in (case consume (''Destination='' @ [quote_char]) s of
                     None \<Rightarrow> (InvalidObject, s, cmd)
                   | Some s \<Rightarrow>
                       (case takeUntil quote_char s of (dst, s) \<Rightarrow>
                          if dst = [] then (BadParams, s, cmd)
                          else
                            (case parseIdentifier False dst (mFirstParam cmd) of (r, ns) \<Rightarrow>
                               let cmd = cmd\<lparr>mFirstParam := ns\<rparr>
                               in if r \<noteq> Ready then (r, s, cmd)
                                  else (case write_command (skipWhiteSpace s, cmd) of (r, s, cmd) \<Rightarrow>
                                          if r \<noteq> Ready then (r, s, cmd)
                                          else (case proceedToClosingBracket s of
                                                  None \<Rightarrow> (InvalidObject, s, cmd)
                                                | Some s \<Rightarrow> then_openBracket (Ready, s, cmd)))))))))"

definition parseQueryTypes ::
    "EMGMCommandType \<Rightarrow> EMGMCommandType \<Rightarrow> parse_state \<Rightarrow> EMGMResponse \<times> parse_state" where
  "parseQueryTypes single list = (\<lambda>(s, cmd).
     let s = skipWhiteSpace s
     in (case consume (''Name='' @ [quote_char]) s of
           None \<Rightarrow> (InvalidObject, s, cmd)
         | Some s \<Rightarrow>
             (case takeUntil quote_char s of (name, s) \<Rightarrow>
                if name = [] then (BadParams, s, cmd)
                else
                  (case (if name = ''*'' then (True, cmd\<lparr>mCMD := list\<rparr>)
                         else (case parseTypeName name (mFirstParam cmd) (mAdditionalParams cmd) of
                                 (ok, ns, hash) \<Rightarrow>
                                   let cmd = cmd\<lparr>mFirstParam := ns, mAdditionalParams := hash\<rparr>
                                   in (ok, if ok then cmd\<lparr>mCMD := single\<rparr> else cmd)))
                   of (ok, cmd) \<Rightarrow>
                     if \<not> ok then (Overflow, s, cmd)
                     else (case proceedToClosingBracket s of
                             None \<Rightarrow> (InvalidObject, s, cmd)
                           | Some s \<Rightarrow> (Ready, s, cmd))))))"

definition parseQueryData :: "parse_state \<Rightarrow> EMGMResponse \<times> parse_state" where
  "parseQueryData = (\<lambda>(s, cmd).
     let cmd = cmd\<lparr>mCMD := INVALID\<rparr>;
         query = (\<lambda>tag single list. case consume tag s of
                    Some s \<Rightarrow> parseQueryTypes single list (s, cmd)
                  | None \<Rightarrow> (InvalidObject, s, cmd))
     in then_openBracket
          (if peek s = CHR ''F''
           then (case consume ''FBType'' s of
                   Some s \<Rightarrow> parseQueryTypes QueryFBType QueryFBTypes (s, cmd)
                 | None \<Rightarrow> set_cmd QueryFB (parseFBData (s, cmd)))
           else if peek s = CHR ''C'' then set_cmd QueryConnection (parseConnectionData (s, cmd))
           else if peek s = CHR ''D'' then query ''DataType'' QueryDataType QueryDTTypes
           else if peek s = CHR ''A'' then query ''AdapterType'' QueryAdapterType QueryAdapterTypes
           else if peek s = CHR ''G''
           then query ''GlobalConstType'' QueryGlobalConstType QueryGlobalConstTypes
           else (InvalidObject, s, cmd)))"

definition parseData :: "parse_state \<Rightarrow> EMGMResponse \<times> parse_state" where
  "parseData = (\<lambda>(s, cmd).
     (case mCMD cmd of
        CreateGroup \<Rightarrow> parseCreateData (s, cmd)
      | DeleteGroup \<Rightarrow> parseDeleteData (s, cmd)
      | Start \<Rightarrow> parseAdditionalStateCommandData (s, cmd)
      | Stop \<Rightarrow> parseAdditionalStateCommandData (s, cmd)
      | Kill \<Rightarrow> parseAdditionalStateCommandData (s, cmd)
      | Reset \<Rightarrow> parseAdditionalStateCommandData (s, cmd)
      | Read \<Rightarrow> parseReadData (s, cmd)
      | Write \<Rightarrow> parseWriteData (s, cmd)
      | QueryGroup \<Rightarrow> parseQueryData (s, cmd)
      | _ \<Rightarrow> (Ready, s, cmd)))"

definition parseMGMCommand :: "string \<Rightarrow> string \<Rightarrow> SManagementCMD \<Rightarrow> EMGMResponse \<times> SManagementCMD" where
  "parseMGMCommand dest text cmd =
     (let cmd = (SManagementCMD_clear cmd)\<lparr>mDestination := if dest \<noteq> [] then Some dest else None\<rparr>
      in case parseRequest (text, cmd) of (r, s, cmd) \<Rightarrow>
           if r \<noteq> Ready then (r, cmd)
           else
             let s = skipWhiteSpace s
             in (case (if s = [] then Some s else proceedToOpenBracket s) of
                   None \<Rightarrow> (InvalidObject, cmd)
                 | Some s \<Rightarrow>
                     (case parseData (s, cmd) of (r, s, cmd) \<Rightarrow>
                        if r \<noteq> Ready then (r, cmd)
                        else (if checkRequestClosingTag s then Ready else InvalidObject, cmd))))"

section \<open>Responses\<close>

text \<open>A name is appended as a C string with a 16-bit length; the model holds for names of fewer than 65536
  characters without a zero among them.\<close>

abbreviation newline :: string where
  "newline \<equiv> [CHR 0x0A]"

fun appendIdentifierName :: "TNameIdentifier \<Rightarrow> string" where
  "appendIdentifierName [] = []"
| "appendIdentifierName [n] = id_text n"
| "appendIdentifierName (n # m # ns) = id_text n @ ''.'' @ appendIdentifierName (m # ns)"

definition response_head :: "SManagementCMD \<Rightarrow> string" where
  "response_head cmd = ''<Response ID='' @ [quote_char] @ mID cmd @ [quote_char]"

definition response_reason :: "EMGMResponse \<Rightarrow> string" where
  "response_reason r = '' Reason='' @ [quote_char] @ getResponseText r @ [quote_char]"

definition generateShortResponse :: "SManagementCMD \<Rightarrow> EMGMResponse \<Rightarrow> string" where
  "generateShortResponse cmd r =
     response_head cmd @ (if r \<noteq> Ready then response_reason r else []) @ '' />''"

definition generateQueryResponse :: "SManagementCMD \<Rightarrow> string" where
  "generateQueryResponse cmd =
     (case mCMD cmd of
        QueryConnection \<Rightarrow>
          (if mFirstParam cmd = [] \<and> mSecondParam cmd = [] then mAdditionalParams cmd
           else ''<EndpointList>'' @ newline @ ''    '' @ mAdditionalParams cmd @ newline @
             ''  </EndpointList>'')
      | QueryFB \<Rightarrow>
          (if mFirstParam cmd \<noteq> []
           then (if mSecondParam cmd \<noteq> []
                 then ''<FBStatus Status='' @ [quote_char] @ mAdditionalParams cmd @ [quote_char] @ '' />''
                 else ''<FB Name='' @ [quote_char] @ appendIdentifierName (mFirstParam cmd) @
                   [quote_char] @ '' Type='' @ [quote_char] @ mAdditionalParams cmd @ [quote_char] @ '' />'')
           else ''<FBList>'' @ newline @ ''    '' @ mAdditionalParams cmd @ newline @ ''  </FBList>'')
      | QueryFBTypes \<Rightarrow>
          ''<NameList>'' @ newline @ ''    '' @ mAdditionalParams cmd @ newline @ ''  </NameList>''
      | QueryAdapterTypes \<Rightarrow>
          ''<NameList>'' @ newline @ ''    '' @ mAdditionalParams cmd @ newline @ ''  </NameList>''
      | QueryGlobalConstTypes \<Rightarrow>
          ''<NameList>'' @ newline @ ''    '' @ mAdditionalParams cmd @ newline @ ''  </NameList>''
      | QueryDTTypes \<Rightarrow>
          ''<DTList>'' @ newline @ ''    '' @ mAdditionalParams cmd @ newline @ ''  </DTList>''
      | QueryFBType \<Rightarrow> mAdditionalParams cmd
      | QueryDataType \<Rightarrow> mAdditionalParams cmd
      | QueryAdapterType \<Rightarrow> mAdditionalParams cmd
      | QueryGlobalConstType \<Rightarrow> mAdditionalParams cmd
      | _ \<Rightarrow> [])"

definition generateLongResponse :: "SManagementCMD \<Rightarrow> EMGMResponse \<Rightarrow> string" where
  "generateLongResponse cmd r =
     response_head cmd @ (if r \<noteq> Ready then response_reason r else []) @ ''>'' @ newline @ ''  '' @
     (if mCMD cmd = Read
      then ''<Connection Source='' @ [quote_char] @ appendIdentifierName (mFirstParam cmd) @
        [quote_char] @ '' Destination='' @ [quote_char] @ mAdditionalParams cmd @ [quote_char] @ '' />''
      else generateQueryResponse cmd) @
     newline @ ''</Response>''"

definition generateMonitorResponse :: "SManagementCMD \<Rightarrow> EMGMResponse \<Rightarrow> string" where
  "generateMonitorResponse cmd r =
     (if r \<noteq> Ready then generateShortResponse cmd r
      else response_head cmd @ ''>'' @ newline @ ''  '' @
        (if mCMD cmd = MonitoringReadWatches
         then ''<Watches>'' @ newline @ ''    '' @ mMonitorResponse cmd @ newline @ ''  </Watches>''
         else []) @
        newline @ ''</Response>'')"

definition generateResponse :: "SManagementCMD \<Rightarrow> EMGMResponse \<Rightarrow> string" where
  "generateResponse cmd r =
     (if mMonitorResponse cmd \<noteq> [] then generateMonitorResponse cmd r
      else if mAdditionalParams cmd \<noteq> [] then generateLongResponse cmd r
      else generateShortResponse cmd r)"

section \<open>The device manager\<close>

text \<open>\<open>execute\<close> is \<open>executeMGMCommand\<close> of the device, which also writes results to the command;
  \<open>None\<close> is undefined behaviour there.  The result is the response text, the command and the device.\<close>

definition executeRQST ::
    "(SManagementCMD \<Rightarrow> 'd \<Rightarrow> (EMGMResponse \<times> SManagementCMD \<times> 'd) option) \<Rightarrow>
     string \<Rightarrow> string \<Rightarrow> SManagementCMD \<Rightarrow> 'd \<Rightarrow> (string \<times> SManagementCMD \<times> 'd) option" where
  "executeRQST execute dst rqst cmd d =
     (case parseMGMCommand dst rqst cmd of (r, cmd) \<Rightarrow>
        (case (if r = Ready then execute cmd d else Some (r, cmd, d)) of
           None \<Rightarrow> None
         | Some (r, cmd, d) \<Rightarrow> Some (generateResponse cmd r, cmd, d)))"

definition executeCommand ::
    "(SManagementCMD \<Rightarrow> 'd \<Rightarrow> (EMGMResponse \<times> SManagementCMD \<times> 'd) option) \<Rightarrow>
     string \<Rightarrow> string \<Rightarrow> SManagementCMD \<Rightarrow> 'd \<Rightarrow> (bool \<times> SManagementCMD \<times> 'd) option" where
  "executeCommand execute dst rqst cmd d =
     (case parseMGMCommand dst rqst cmd of (r, cmd) \<Rightarrow>
        (case (if r = Ready then execute cmd d else Some (r, cmd, d)) of
           None \<Rightarrow> None | Some (r, cmd, d) \<Rightarrow> Some (r = Ready, cmd, d)))"

section \<open>Escaping and unescaping\<close>

definition xml_escape :: "char \<Rightarrow> string" where
  "xml_escape ch = (case map_of scEscapeMap ch of Some e \<Rightarrow> e | None \<Rightarrow> [ch])"

lemma escape_loop_spec:
  "p + n \<le> length s \<Longrightarrow>
   escape_loop p n s = take p s @ concat (map xml_escape (take n (drop p s))) @ drop (p + n) s"
proof (induction n arbitrary: s)
  case (Suc n)
  define r where "r = p + n"
  define s' where "s' = take r s @ xml_escape (s ! r) @ drop (Suc r) s"
  have r: "r < length s"
    using Suc.prems by (simp add: r_def)
  have "escape_loop p (Suc n) s = escape_loop p n s'"
    using id_take_nth_drop [OF r]
    by (simp add: s'_def xml_escape_def Let_def r_def [symmetric] split: option.split)
  moreover have r': "take (p + n) s' = take (p + n) s" "p + n \<le> length s'"
      "drop (p + n) s' = xml_escape (s ! r) @ drop (Suc r) s"
    using r by (simp_all add: s'_def r_def)
  moreover have "take p s' = take p s"
    using arg_cong [OF r'(1), of "take p"] by (simp add: min_def)
  moreover have "take n (drop p s') = take n (drop p s)"
    using r'(1) by (simp add: take_drop add.commute)
  moreover have "take (Suc n) (drop p s) = take n (drop p s) @ [s ! r]"
    using r by (simp add: take_Suc_conv_app_nth r_def)
  ultimately show ?case
    using Suc.IH [of s'] by (simp add: r_def)
qed simp

lemma escape_spec:
  "transformNonEscapedToEscapedXMLText s p = take p s @ concat (map xml_escape (drop p s))"
  by (cases "p \<le> length s")
    (auto simp: transformNonEscapedToEscapedXMLText_def escape_loop_spec)

lemma starts_with_append: "starts_with p (p @ s)"
  by (simp add: starts_with_def)

lemma unescape_entity:
  "(c, e) \<in> set scEscapeMap \<Longrightarrow> unescape_loop (e @ rest) t = unescape_loop rest (t @ [c])"
  by (subst unescape_loop.simps) (auto simp: scEscapeMap_def starts_with_def)

lemma unescape_plain: "ch \<noteq> CHR ''&'' \<Longrightarrow> unescape_loop (ch # rest) t = unescape_loop rest (t @ [ch])"
  by (subst unescape_loop.simps) simp

lemma unescape_xml_escape: "unescape_loop (xml_escape ch @ rest) t = unescape_loop rest (t @ [ch])"
proof (cases "map_of scEscapeMap ch")
  case None
  then have "ch \<noteq> CHR ''&''"
    by (auto simp: scEscapeMap_def)
  then show ?thesis
    using None by (simp add: xml_escape_def unescape_plain)
next
  case (Some e)
  then show ?thesis
    using unescape_entity [OF map_of_SomeD [OF Some]] by (simp add: xml_escape_def)
qed

lemma unescape_escape: "unescape_loop (concat (map xml_escape s)) t = t @ s"
proof (induction s arbitrary: t)
  case Nil
  show ?case
    by (simp add: unescape_loop.simps)
next
  case (Cons ch s)
  then show ?case
    by (simp add: unescape_xml_escape)
qed

lemma escaped_chars: "set (xml_escape ch) \<inter> {CHR 0x22, CHR 0x27, CHR ''<'', CHR ''>''} = {}"
  by (auto simp: xml_escape_def scEscapeMap_def split: if_splits option.splits)

lemma length_escape:
  "length (transformNonEscapedToEscapedXMLText s 0) = length s + getExtraSizeForXMLEscapedChars s"
proof -
  have "length (xml_escape ch) = 1 + (case map_of scEscapeMap ch of Some e \<Rightarrow> length e - 1 | None \<Rightarrow> 0)" for ch
    by (auto simp: xml_escape_def scEscapeMap_def)
  then show ?thesis
    by (simp add: escape_spec getExtraSizeForXMLEscapedChars_def) (induction s; simp)
qed

section \<open>Names in a parsed command are never null\<close>

lemma parseIdentifier_names:
  "None \<notin> set ns \<Longrightarrow> None \<notin> set (snd (parseIdentifier a s ns))"
proof (induction a s ns rule: parseIdentifier.induct)
  case (1 a s ns)
  show ?case
    using 1 by (subst parseIdentifier.simps) (auto simp: Let_def try_push_back_def)
qed

lemma parseTypeName_names:
  "None \<notin> set ns \<Longrightarrow> None \<notin> set (fst (snd (parseTypeName s ns hash)))"
  by (auto simp: parseTypeName_def try_push_back_def split: prod.split)

definition names_ok :: "SManagementCMD \<Rightarrow> bool" where
  "names_ok cmd \<longleftrightarrow> None \<notin> set (mFirstParam cmd)"

abbreviation result_cmd :: "EMGMResponse \<times> parse_state \<Rightarrow> SManagementCMD" where
  "result_cmd x \<equiv> snd (snd x)"

named_theorems parsed_names

lemma names_ok_fields [simp]:
  "names_ok (cmd\<lparr>mID := i\<rparr>) = names_ok cmd" "names_ok (cmd\<lparr>mCMD := c\<rparr>) = names_ok cmd"
  "names_ok (cmd\<lparr>mSecondParam := ns\<rparr>) = names_ok cmd" "names_ok (cmd\<lparr>mAdditionalParams := t\<rparr>) = names_ok cmd"
  by (simp_all add: names_ok_def)

lemma names_ok_parseRequest [parsed_names]:
  "names_ok cmd \<Longrightarrow> names_ok (result_cmd (parseRequest (s, cmd)))"
  by (auto simp: parseRequest_def Let_def split_beta split: option.split)

lemma names_ok_parseFBData [parsed_names]:
  "names_ok cmd \<Longrightarrow> names_ok (result_cmd (parseFBData (s, cmd)))"
  using parseIdentifier_names [of "mFirstParam cmd"]
  by (auto simp: parseFBData_def names_ok_def Let_def split_beta split: option.split)

lemma names_ok_parseConnectionContent:
  "names_ok cmd \<Longrightarrow> names_ok (result_cmd (parseConnectionContent (s, cmd)))"
  using parseIdentifier_names [of "mFirstParam cmd"]
  by (auto simp: parseConnectionContent_def names_ok_def Let_def split_beta split: option.split)

lemma names_ok_connection_data [parsed_names]:
  assumes "names_ok cmd"
  shows "names_ok (result_cmd (parseConnectionData (s, cmd)))"
    "names_ok (result_cmd (parseMonitoringData (s, cmd)))"
  using names_ok_parseConnectionContent [OF assms] assms
  by (auto simp: parseConnectionData_def parseMonitoringData_def split: option.split)

lemma names_ok_write_command: "names_ok (result_cmd (write_command (s, cmd))) = names_ok cmd"
  by (auto simp: write_command_def split_beta split: option.split)

lemma names_ok_parseWriteData [parsed_names]:
  assumes "names_ok cmd"
  shows "names_ok (result_cmd (parseWriteData (s, cmd)))"
  using assms parseIdentifier_names [of "mFirstParam cmd"] names_ok_write_command
  by (auto simp: parseWriteData_def names_ok_def Let_def split_beta then_openBracket_def split: option.split)

lemma names_ok_parseQueryTypes [parsed_names]:
  assumes "names_ok cmd"
  shows "names_ok (result_cmd (parseQueryTypes single list (s, cmd)))"
  using assms parseTypeName_names [of "mFirstParam cmd"]
  by (auto simp: parseQueryTypes_def names_ok_def Let_def split_beta split: option.split)

lemma names_ok_wrappers [parsed_names]:
  assumes "names_ok (result_cmd x)"
  shows "names_ok (result_cmd (set_cmd c x))" "names_ok (result_cmd (then_openBracket x))"
  using assms by (auto simp: set_cmd_def then_openBracket_def split_beta split: option.split)

lemma names_ok_parseData: "names_ok cmd \<Longrightarrow> names_ok (result_cmd (parseData (s, cmd)))"
  by (cases "mCMD cmd")
    (auto simp: parseData_def parseCreateData_def parseDeleteData_def parseReadData_def parseQueryData_def
      parseAdditionalStateCommandData_def Let_def parsed_names split: option.split)

lemma names_ok_parseMGMCommand: "names_ok (snd (parseMGMCommand dest text cmd))"
proof -
  have "names_ok ((SManagementCMD_clear cmd)\<lparr>mDestination := d\<rparr>)" for d
    by (simp add: names_ok_def SManagementCMD_clear_def)
  then show ?thesis
    using names_ok_parseRequest names_ok_parseData
    by (fastforce simp: parseMGMCommand_def Let_def split_beta split: option.split)
qed

section \<open>What is printed is parsed\<close>

lemma consume_simps [simp]:
  "consume [] s = Some s" "consume (a # p) [] = None"
  "consume (a # p) (b # s) = (if a = b then consume p s else None)"
  by (simp_all add: consume_def starts_with_def)

lemma skipWhiteSpace_simps [simp]:
  "skipWhiteSpace [] = []"
  "skipWhiteSpace (ch # s) =
     (if ch \<in> {CHR 0x20, CHR 0x09, CHR 0x0D, CHR 0x0A} then skipWhiteSpace s else ch # s)"
  by (simp_all add: skipWhiteSpace_def)

lemma while_before:
  "d \<notin> set a \<Longrightarrow> takeWhile (\<lambda>ch. ch \<noteq> d) (a @ d # s) = a"
  "d \<notin> set a \<Longrightarrow> dropWhile (\<lambda>ch. ch \<noteq> d) (a @ d # s) = d # s"
  by (induction a) auto

lemma takeUntil_append: "d \<notin> set a \<Longrightarrow> takeUntil d (a @ d # s) = (a, s)"
  by (simp add: takeUntil_def while_before)

definition plain_name :: "string \<Rightarrow> bool" where
  "plain_name t \<longleftrightarrow> t \<noteq> [] \<and> CHR ''.'' \<notin> set t \<and> quote_char \<notin> set t"

definition plain_names :: "TNameIdentifier \<Rightarrow> bool" where
  "plain_names ns \<longleftrightarrow> ns \<noteq> [] \<and> (\<forall>n\<in>set ns. \<exists>t. n = Some t \<and> plain_name t)"

lemma parseIdentifier_print:
  "plain_names ns \<Longrightarrow> length acc + length ns \<le> cgMaxSupportedNameHierarchy \<Longrightarrow>
   parseIdentifier e (appendIdentifierName ns) acc = (Ready, acc @ ns)"
proof (induction ns arbitrary: acc rule: appendIdentifierName.induct)
  case (2 n)
  then show ?case
    by (subst parseIdentifier.simps)
      (auto simp: plain_names_def plain_name_def try_push_back_def id_text_def)
next
  case (3 n m ns)
  then obtain t where t: "n = Some t" "plain_name t"
    by (auto simp: plain_names_def)
  have rest: "appendIdentifierName (m # ns) \<noteq> []"
    using 3 by (cases ns) (auto simp: plain_names_def plain_name_def id_text_def)
  have IH: "parseIdentifier e (appendIdentifierName (m # ns)) (acc @ [n]) = (Ready, (acc @ [n]) @ (m # ns))"
    using 3 by (auto simp: plain_names_def)
  show ?case
    using t rest 3(3) IH
    by (subst parseIdentifier.simps)
      (simp add: plain_name_def try_push_back_def id_text_def Let_def while_before)
qed (simp add: plain_names_def)

lemma appendIdentifierName_chars:
  "plain_names ns \<Longrightarrow> quote_char \<notin> set (appendIdentifierName ns)"
proof (induction ns rule: appendIdentifierName.induct)
  case (3 n m ns)
  then show ?case
    by (auto simp: plain_names_def plain_name_def id_text_def)
qed (auto simp: plain_names_def plain_name_def id_text_def)

lemma appendIdentifierName_nonempty: "plain_names ns \<Longrightarrow> appendIdentifierName ns \<noteq> []"
  by (cases ns rule: appendIdentifierName.cases) (auto simp: plain_names_def plain_name_def id_text_def)

lemma appendIdentifierName_star:
  "plain_names ns \<Longrightarrow> appendIdentifierName ns = ''*'' \<longleftrightarrow> ns = [Some ''*'']"
proof (cases ns rule: appendIdentifierName.cases)
  case (3 n m ms)
  assume "plain_names ns"
  then have "appendIdentifierName ns \<noteq> ''*''"
    using 3 by (auto simp: plain_names_def plain_name_def id_text_def append_eq_Cons_conv)
  then show ?thesis
    using 3 by auto
qed (auto simp: plain_names_def plain_name_def id_text_def)

definition xml_request :: "string \<Rightarrow> string \<Rightarrow> string \<Rightarrow> string" where
  "xml_request i a body =
     ''<Request ID='' @ [quote_char] @ i @ [quote_char] @ '' Action='' @ [quote_char] @ a @ [quote_char] @
     ''><'' @ body @ ''</Request>''"

definition xml_write :: "string \<Rightarrow> TNameIdentifier \<Rightarrow> string" where
  "xml_write v ns =
     ''Connection Source='' @ [quote_char] @ transformNonEscapedToEscapedXMLText v 0 @ [quote_char] @
     '' Destination='' @ [quote_char] @ appendIdentifierName ns @ [quote_char] @ '' />''"

definition xml_FB :: "string \<Rightarrow> string \<Rightarrow> string" where
  "xml_FB name ty =
     ''FB Name='' @ [quote_char] @ name @ [quote_char] @ '' Type='' @ [quote_char] @ ty @ [quote_char] @ '' />''"

lemma parseRequest_print:
  assumes "quote_char \<notin> set i" "map_of actionTable a = Some c" "quote_char \<notin> set a" "c \<noteq> INVALID"
  shows "parseRequest (xml_request i a body, cmd) =
    (Ready, ''<'' @ body @ ''</Request>'', cmd\<lparr>mID := i, mCMD := c\<rparr>)"
  using assms
  by (simp add: parseRequest_def xml_request_def takeUntil_append parseActionAttributeValue_def)

lemma parseFBData_print:
  assumes "plain_names ns" "ns \<noteq> [Some ''*'']" "length ns \<le> cgMaxSupportedNameHierarchy"
    and "quote_char \<notin> set ty" "mFirstParam cmd = []" "mSecondParam cmd = []"
  shows "parseFBData (xml_FB (appendIdentifierName ns) ty @ rest, cmd) =
    (Ready, rest,
     if ty = ''*'' then cmd\<lparr>mFirstParam := ns, mSecondParam := []\<rparr>
     else cmd\<lparr>mFirstParam := ns, mSecondParam := [Some (fst (split_hash ty []))],
            mAdditionalParams := snd (split_hash ty (mAdditionalParams cmd))\<rparr>)"
  using assms
  by (simp add: parseFBData_def xml_FB_def takeUntil_append appendIdentifierName_chars
      appendIdentifierName_nonempty isAsteriskValue_def appendIdentifierName_star parseIdentifier_print
      Let_def proceedToClosingBracket_def parseTypeName_def split_hash_def try_push_back_def
      cgMaxSupportedNameHierarchy_def)

lemma parseWriteData_print:
  assumes "plain_names ns" "length ns \<le> cgMaxSupportedNameHierarchy" "v \<noteq> []"
    and "mFirstParam cmd = []" "mAdditionalParams cmd = []"
  shows "parseWriteData (xml_write v ns @ ''<'' @ rest, cmd) =
    (Ready, rest,
     cmd\<lparr>mAdditionalParams := v, mFirstParam := ns,
         mCMD := if isTriggerEvent v then MonitoringTriggerEvent
                 else if isResetEventCount v then MonitoringResetEventCount else Write\<rparr>)"
proof -
  have "quote_char \<notin> set (transformNonEscapedToEscapedXMLText v 0)"
    using escaped_chars by (auto simp: escape_spec)
  moreover have "transformNonEscapedToEscapedXMLText v 0 \<noteq> []"
    using assms(3) by (cases v) (auto simp: escape_spec xml_escape_def scEscapeMap_def)
  moreover have "transformEscapedXMLToNonEscapedText (transformNonEscapedToEscapedXMLText v 0) [] = v"
    using unescape_escape [of v "[]"] by (simp add: transformEscapedXMLToNonEscapedText_def escape_spec)
  ultimately show ?thesis
    using assms
    by (simp add: parseWriteData_def xml_write_def takeUntil_append appendIdentifierName_chars
        appendIdentifierName_nonempty parseIdentifier_print Let_def write_command_def
        proceedToClosingBracket_def proceedToOpenBracket_def then_openBracket_def)
qed

lemma checkRequestClosingTag_print: "checkRequestClosingTag ''/Request>''"
  by (simp add: checkRequestClosingTag_def)

lemma parse_write_print:
  assumes "quote_char \<notin> set i" "plain_names ns" "length ns \<le> cgMaxSupportedNameHierarchy" "v \<noteq> []"
  shows "parseMGMCommand dest (xml_request i ''WRITE'' (xml_write v ns)) cmd =
    (Ready, (SManagementCMD_clear cmd)\<lparr>mDestination := if dest = [] then None else Some dest, mID := i,
       mAdditionalParams := v, mFirstParam := ns,
       mCMD := if isTriggerEvent v then MonitoringTriggerEvent
               else if isResetEventCount v then MonitoringResetEventCount else Write\<rparr>)"
  using parseWriteData_print [OF assms(2-4), where rest = "''/Request>''"] assms(1)
  by (simp add: parseMGMCommand_def parseRequest_print actionTable_def Let_def proceedToOpenBracket_def
      parseData_def SManagementCMD_clear_def checkRequestClosingTag_print)

lemma peek_FB: "peek (xml_FB n ty @ rest) = CHR ''F''"
  by (simp add: peek_def xml_FB_def)

lemma parse_create_print:
  assumes "quote_char \<notin> set i" "plain_names ns" "ns \<noteq> [Some ''*'']"
    and "length ns \<le> cgMaxSupportedNameHierarchy" "quote_char \<notin> set ty"
  shows "parseMGMCommand dest (xml_request i ''CREATE'' (xml_FB (appendIdentifierName ns) ty)) cmd =
    (Ready, (SManagementCMD_clear cmd)\<lparr>mDestination := if dest = [] then None else Some dest, mID := i,
       mFirstParam := ns, mSecondParam := if ty = ''*'' then [] else [Some (fst (split_hash ty []))],
       mAdditionalParams := if ty = ''*'' then [] else snd (split_hash ty []), mCMD := CreateFBInstance\<rparr>)"
  using parseFBData_print [OF assms(2-5), where rest = "''</Request>''"] assms(1)
  by (simp add: parseMGMCommand_def parseRequest_print actionTable_def Let_def proceedToOpenBracket_def
      parseData_def SManagementCMD_clear_def checkRequestClosingTag_print parseCreateData_def set_cmd_def
      then_openBracket_def peek_FB)

definition response_text :: "string \<Rightarrow> EMGMResponse \<Rightarrow> string" where
  "response_text i r =
     ''<Response ID='' @ [quote_char] @ i @ [quote_char] @
     (if r = Ready then [] else '' Reason='' @ [quote_char] @ getResponseText r @ [quote_char]) @ '' />''"

lemma response_text_Ready: "response_text i r = response_text i Ready \<longleftrightarrow> r = Ready"
  by (simp add: response_text_def)

lemma executeRQST_create:
  assumes request: "quote_char \<notin> set i" "plain_names ns" "ns \<noteq> [Some ''*'']"
      "length ns \<le> cgMaxSupportedNameHierarchy" "quote_char \<notin> set ty" "CHR ''#'' \<notin> set ty" "ty \<noteq> ''*''"
    and resource: "dst \<noteq> []" "getChild rt (Some dst) (mChildren c) = Some it"
      "mKind (mChildren c ! it) = Resource b t"
    and create: "createFB rt ns (Some ty) [] (mChildren c ! it) = (r, res)"
  shows "\<exists>cmd'. executeRQST (device_executeMGMCommand rt setInit sample other) dst
      (xml_request i ''CREATE'' (xml_FB (appendIdentifierName ns) ty)) cmd c =
    Some (response_text i r, cmd', set_children ((mChildren c)[it := res]) c)"
  using resource request(6,7) create
  by (simp add: front_of_empty_def executeRQST_def parse_create_print [OF request(1-5)] device_executeMGMCommand_def
      executeMGMCommand_def keep_cmd_def split_hash_def SManagementCMD_clear_def generateResponse_def
      generateShortResponse_def response_head_def response_reason_def response_text_def id_text_def)

section \<open>Properties\<close>

text \<open>C13: whatever text the device manager gets as a request: when the code's behaviour is defined, the
  children of every container stay sorted by the addresses of their names, without duplicates, so
  that the binary search of the look-ups is right after it; and it is defined but for two cases:
  the parser made a command without types for the creation of a block, or without a name for the
  query of a type, and the code takes the first element of the empty list, or the command is for a
  child of the device that is no resource.  The commands on connections, values and watches enter with
  their answer and the changes they make to blocks where they are.\<close>

theorem any_request_keeps_sorted:
  assumes "runtime_ok rt" "container_ok rt c"
  shows "case executeRQST (device_executeMGMCommand rt setInit sample other) dst rqst cmd c of
     Some (resp, cmd', c') \<Rightarrow> container_ok rt c'
   | None \<Rightarrow> (\<exists>cmd1. parseMGMCommand dst rqst cmd = (Ready, cmd1) \<and>
       (front_of_empty cmd1 \<or> no_resource rt (mDestination cmd1) c))"
proof -
  obtain r cmd1 where parsed: "parseMGMCommand dst rqst cmd = (r, cmd1)"
    by fastforce
  have "None \<notin> set (mFirstParam cmd1)"
    using names_ok_parseMGMCommand [of dst rqst cmd] parsed by (simp add: names_ok_def)
  then show ?thesis
    using assms parsed device_executeMGMCommand_ok [of rt c cmd1 setInit sample other]
    by (auto simp: executeRQST_def split: option.splits)
qed

definition example_device :: CFBContainer where
  "example_device =
     CFBContainer (Some ''DEV'') (Resource (example_block\<lparr>mFBState := Running\<rparr>) None) [example_resource]"

lemma example_device_ok: "container_ok rt example_device"
  by (simp add: example_device_def example_resource_def)

definition example_cmd :: SManagementCMD where
  "example_cmd =
     \<lparr>mCMD = INVALID, mDestination = None, mFirstParam = [], mSecondParam = [], mAdditionalParams = [],
      mID = [], mMonitorResponse = []\<rparr>"

lemma example_destination:
  "getChild example_runtime (Some ''R'') (mChildren example_device) = Some 0"
  "mKind (mChildren example_device ! 0) = Resource (example_block\<lparr>mFBState := Running\<rparr>) None"
  by (simp_all add: getChild_def isChild_def getChildrenIterator_def lower_bound_def example_device_def
      example_resource_def id_less_def id_eq_def)

definition example_request :: string where
  "example_request = xml_request ''1'' ''CREATE'' (xml_FB (appendIdentifierName [Some ''A'']) ''E_CTU'')"

text \<open>In the example the other commands force the first pin of every block.\<close>

definition example_other :: "SManagementCMD \<Rightarrow> CFBContainer \<Rightarrow> EMGMResponse \<times> SManagementCMD \<times> block_changes" where
  "example_other cmd c = (Ready, cmd, \<lambda>_ b. b\<lparr>mForces := [True]\<rparr>, \<lambda>_ t. t)"

abbreviation example_execute ::
    "SManagementCMD \<Rightarrow> CFBContainer \<Rightarrow> (EMGMResponse \<times> SManagementCMD \<times> CFBContainer) option" where
  "example_execute \<equiv> device_executeMGMCommand example_runtime id id example_other"

lemma example_request_result:
  assumes "createFB example_runtime [Some ''A''] (Some ''E_CTU'') [] (mChildren example_device ! 0) = (r, res)"
  shows "\<exists>cmd'. executeRQST example_execute ''R'' example_request example_cmd example_device =
    Some (response_text ''1'' r, cmd', set_children ((mChildren example_device)[0 := res]) example_device)"
  unfolding example_request_def
  by (rule executeRQST_create [OF _ _ _ _ _ _ _ _ example_destination assms])
    (simp_all add: plain_names_def plain_name_def cgMaxSupportedNameHierarchy_def)

lemma example_request_created:
  "\<exists>cmd'. executeRQST example_execute ''R'' example_request example_cmd example_device =
    Some (response_text ''1'' Ready, cmd', set_children
      [set_children [CFBContainer (Some ''A'') (Block example_block) []] example_resource] example_device)"
  using example_request_result [of Ready] example_createFB
  by (simp add: example_device_def del: createFB.simps)

theorem any_request_keeps_sorted_witness:
  "\<exists>resp cmd' c'. executeRQST example_execute ''R'' example_request example_cmd example_device =
     Some (resp, cmd', c') \<and> container_ok example_runtime c' \<and> c' \<noteq> example_device"
proof -
  obtain cmd' where run: "executeRQST example_execute ''R'' example_request example_cmd example_device =
    Some (response_text ''1'' Ready, cmd', set_children
      [set_children [CFBContainer (Some ''A'') (Block example_block) []] example_resource] example_device)"
    (is "_ = Some (_, _, ?c)")
    using example_request_created by blast
  have "container_ok example_runtime ?c"
    using any_request_keeps_sorted [OF example_runtime_ok example_device_ok, where setInit = id and sample = id
        and other = example_other and dst = "''R''" and rqst = example_request and cmd = example_cmd] run
    by simp
  moreover have "?c \<noteq> example_device"
    by (simp add: example_device_def example_resource_def set_children_def)
  ultimately show ?thesis
    using run by blast
qed

text \<open>C14: the printed request to create a block in a resource is answered with the response of
  \<open>createFB\<close> on that resource and the request's id, and the resource and no other child of the device
  becomes what \<open>createFB\<close> makes of it.  That response is Ready exactly when the containers on the way
  are dynamic or new, the last name is free and the type library makes the type, and then the block
  the library made is where the list of names of the request leads to.\<close>

theorem create_request_creates:
  assumes request: "quote_char \<notin> set i" "plain_names ns" "ns \<noteq> [Some ''*'']"
      "length ns \<le> cgMaxSupportedNameHierarchy" "quote_char \<notin> set ty" "CHR ''#'' \<notin> set ty" "ty \<noteq> ''*''"
    and resource: "dst \<noteq> []" "getChild rt (Some dst) (mChildren c) = Some it"
      "mKind (mChildren c ! it) = Resource b t"
    and ok: "runtime_ok rt" "container_ok rt c"
  shows "case createFB rt ns (Some ty) [] (mChildren c ! it) of (r, res) \<Rightarrow>
    (\<exists>cmd'. executeRQST (device_executeMGMCommand rt setInit sample other) dst
      (xml_request i ''CREATE'' (xml_FB (appendIdentifierName ns) ty)) cmd c =
        Some (response_text i r, cmd', set_children ((mChildren c)[it := res]) c)) \<and>
    (r = Ready \<longleftrightarrow> may_create rt ns (Some ty) [] (mChildren c ! it)) \<and>
    (r = Ready \<longrightarrow> (\<exists>p fb. typelib_createFB rt (last ns) (Some ty) [] = Inr fb \<and>
       getFB rt ns res = Some (p, []) \<and> node_at p res = fb))"
proof -
  obtain r res where create: "createFB rt ns (Some ty) [] (mChildren c ! it) = (r, res)"
    by fastforce
  have child: "container_ok rt (mChildren c ! it)"
    using container_okD(3) [OF ok(2)] getChild_Some(1) [OF resource(2)] by simp
  have names: "None \<notin> set ns"
    using request(2) by (auto simp: plain_names_def)
  have "r = Ready \<longrightarrow> (\<exists>p fb. typelib_createFB rt (last ns) (Some ty) [] = Inr fb \<and>
       getFB rt ns res = Some (p, []) \<and> node_at p res = fb)"
    using create_find_delete [OF ok(1) child names] create by meson
  moreover have "r = Ready \<longleftrightarrow> may_create rt ns (Some ty) [] (mChildren c ! it)"
    using createFB_Ready_iff [OF ok(1) child names, of "Some ty" "[]"] create by simp
  ultimately show ?thesis
    using executeRQST_create [OF request resource create] create by simp
qed

theorem create_request_creates_witness:
  "\<exists>cmd' res p. executeRQST example_execute ''R'' example_request example_cmd example_device =
    Some (''<Response ID='' @ [quote_char] @ ''1'' @ [quote_char] @ '' />'', cmd', set_children [res] example_device) \<and>
    getFB example_runtime [Some ''A''] res = Some (p, []) \<and>
    node_at p res = CFBContainer (Some ''A'') (Block example_block) []"
proof -
  let ?res = "set_children [CFBContainer (Some ''A'') (Block example_block) []] example_resource"
  have dev: "mChildren example_device = [example_resource]"
    by (simp add: example_device_def)
  have plain: "plain_names [Some ''A'']"
    by (simp add: plain_names_def plain_name_def)
  have "(\<exists>cmd'. executeRQST example_execute ''R'' example_request example_cmd example_device =
       Some (response_text ''1'' Ready, cmd', set_children [?res] example_device)) \<and>
    (\<exists>p fb. typelib_createFB example_runtime (Some ''A'') (Some ''E_CTU'') [] = Inr fb \<and>
       getFB example_runtime [Some ''A''] ?res = Some (p, []) \<and> node_at p ?res = fb)"
    using create_request_creates [OF _ plain _ _ _ _ _ _ example_destination example_runtime_ok example_device_ok,
        where i = "''1''" and ty = "''E_CTU''" and setInit = id and sample = id and other = example_other
          and cmd = example_cmd] example_createFB
    unfolding example_request_def dev
    by (simp add: cgMaxSupportedNameHierarchy_def del: appendIdentifierName.simps getFB.simps createFB.simps)
  moreover have "response_text ''1'' Ready = ''<Response ID='' @ [quote_char] @ ''1'' @ [quote_char] @ '' />''"
    by (simp add: response_text_def)
  ultimately show ?thesis
    using example_create [of "Some ''A''"] by (metis sum.inject(2))
qed

text \<open>C15: a value that is escaped and put into a write request arrives unchanged, with the names of the
  pin, whatever characters it has, quotes and brackets included; the values that name an event
  trigger are recognised.\<close>

theorem write_request_transmits:
  assumes "quote_char \<notin> set i" "plain_names ns" "length ns \<le> cgMaxSupportedNameHierarchy" "v \<noteq> []"
  shows "parseMGMCommand dest (xml_request i ''WRITE'' (xml_write v ns)) cmd =
    (Ready, (SManagementCMD_clear cmd)\<lparr>mDestination := if dest = [] then None else Some dest, mID := i,
       mAdditionalParams := v, mFirstParam := ns,
       mCMD := if isTriggerEvent v then MonitoringTriggerEvent
               else if isResetEventCount v then MonitoringResetEventCount else Write\<rparr>)"
  using assms by (rule parse_write_print)

theorem write_request_transmits_witness:
  "parseMGMCommand ''R''
     (''<Request ID='' @ [quote_char] @ ''1'' @ [quote_char] @ '' Action='' @ [quote_char] @ ''WRITE'' @
      [quote_char] @ ''><Connection Source='' @ [quote_char] @ ''a&lt;&amp;'' @ [quote_char] @
      '' Destination='' @ [quote_char] @ ''C.PV'' @ [quote_char] @ '' /></Request>'') example_cmd =
   (Ready, \<lparr>mCMD = Write, mDestination = Some ''R'', mFirstParam = [Some ''C'', Some ''PV''],
      mSecondParam = [], mAdditionalParams = ''a<&'', mID = ''1'', mMonitorResponse = []\<rparr>)"
  using write_request_transmits [of "''1''" "[Some ''C'', Some ''PV'']" "''a<&''" "''R''" example_cmd]
  by (simp add: plain_names_def plain_name_def cgMaxSupportedNameHierarchy_def xml_request_def xml_write_def
      escape_spec xml_escape_def scEscapeMap_def id_text_def SManagementCMD_clear_def example_cmd_def
      isTriggerEvent_def isResetEventCount_def)

text \<open>A request to create a block whose type is an asterisk is accepted by the parser with an empty
  list of types, of which the resource takes the first element without looking.\<close>

theorem create_asterisk_has_no_type:
  assumes "quote_char \<notin> set i" "plain_names ns" "ns \<noteq> [Some ''*'']"
    and "length ns \<le> cgMaxSupportedNameHierarchy"
    and "parseMGMCommand dest (xml_request i ''CREATE'' (xml_FB (appendIdentifierName ns) ''*'')) cmd = (r, cmd')"
  shows "r = Ready \<and> mCMD cmd' = CreateFBInstance \<and> mFirstParam cmd' = ns \<and> mSecondParam cmd' = []"
  using assms(5) by (auto simp: parse_create_print [OF assms(1-4)])

theorem create_asterisk_has_no_type_witness:
  "mSecondParam (snd (parseMGMCommand ''R''
     (xml_request ''1'' ''CREATE'' (xml_FB (appendIdentifierName [Some ''A'']) ''*'')) example_cmd)) = []"
  using create_asterisk_has_no_type [of "''1''" "[Some ''A'']" "''R''" example_cmd]
  by (simp add: plain_names_def plain_name_def cgMaxSupportedNameHierarchy_def del: appendIdentifierName.simps)
    (metis prod.collapse)

end
