(* ===== verification/Unicode.thy ===== *)
theory Unicode
imports Prelude
begin

text \<open>
  UTF-8 and UTF-16: \<open>core/src/datatypes/unicode_utils.cpp\<close>, and the conversions of wide strings
  between them, \<open>core/src/datatypes/forte_wstring.cpp\<close>.  A wide string is kept as the list of its UTF-8
  bytes.  A pointer into a buffer is the list of the bytes from there to the end of the buffer;
  \<open>Outside\<close> is the answer where the code reads behind it.
\<close>

unbundle bit_operations_syntax

type_synonym ubyte = "8 word"
type_synonym codepoint = "32 word"

datatype 'a scan = Outside | Failed | Scanned 'a

section \<open>Code points\<close>

definition scmBOMMarker :: codepoint where "scmBOMMarker = 0xfeff"
definition scmBOMMarkerSwapped :: codepoint where "scmBOMMarkerSwapped = 0xfffe"

definition is_continuation :: "ubyte \<Rightarrow> bool" where
  "is_continuation b = (b AND 0xc0 = 0x80)"

text \<open>The number of bytes and the value.  The bytes behind the first are tested from left to right, and
  the rest is not read after the first that is none.\<close>

definition parseUTF8Codepoint :: "ubyte list \<Rightarrow> (nat \<times> codepoint) scan" where
  "parseUTF8Codepoint s =
     (case s of
        [] \<Rightarrow> Outside
      | b0 # s1 \<Rightarrow>
          if b0 AND 0x80 = 0 then Scanned (1, ucast (b0 AND 0x7f))
          else if b0 AND 0xe0 = 0xc0
          then (case s1 of
                  [] \<Rightarrow> Outside
                | b1 # s2 \<Rightarrow>
                    if \<not> is_continuation b1 then Failed
                    else Scanned (2, push_bit 6 (ucast (b0 AND 0x1f)) OR ucast (b1 AND 0x3f)))
          else if b0 AND 0xf0 = 0xe0
          then (case s1 of
                  [] \<Rightarrow> Outside
                | b1 # s2 \<Rightarrow>
                    if \<not> is_continuation b1 then Failed
                    else (case s2 of
                            [] \<Rightarrow> Outside
                          | b2 # s3 \<Rightarrow>
                              if \<not> is_continuation b2 then Failed
                              else Scanned (3, push_bit 12 (ucast (b0 AND 0x0f)) OR
                                     push_bit 6 (ucast (b1 AND 0x3f)) OR ucast (b2 AND 0x3f))))
          else if b0 AND 0xf8 = 0xf0
          then (case s1 of
                  [] \<Rightarrow> Outside
                | b1 # s2 \<Rightarrow>
                    if \<not> is_continuation b1 then Failed
                    else (case s2 of
                            [] \<Rightarrow> Outside
                          | b2 # s3 \<Rightarrow>
                              if \<not> is_continuation b2 then Failed
                              else (case s3 of
                                      [] \<Rightarrow> Outside
                                    | b3 # s4 \<Rightarrow>
                                        if \<not> is_continuation b3 then Failed
                                        else Scanned (4, push_bit 18 (ucast (b0 AND 0x07)) OR
                                               push_bit 12 (ucast (b1 AND 0x3f)) OR
                                               push_bit 6 (ucast (b2 AND 0x3f)) OR ucast (b3 AND 0x3f)))))
          else Failed)"

text \<open>With a buffer of the given size, or with none (\<open>None\<close>), when only the number of bytes is asked
  for; the result is the bytes.\<close>

definition fits :: "nat option \<Rightarrow> nat \<Rightarrow> bool" where
  "fits sz n = (case sz of None \<Rightarrow> True | Some k \<Rightarrow> n \<le> k)"

definition encodeUTF8Codepoint :: "nat option \<Rightarrow> codepoint \<Rightarrow> ubyte list option" where
  "encodeUTF8Codepoint sz v =
     (if v < 0x80 then if fits sz 1 then Some [ucast v] else None
      else if v < 0x800
      then if fits sz 2
           then Some [ucast (0xc0 OR (drop_bit 6 v AND 0x1f)), ucast (0x80 OR (v AND 0x3f))] else None
      else if v < 0x10000
      then if fits sz 3
           then Some [ucast (0xe0 OR (drop_bit 12 v AND 0x1f)), ucast (0x80 OR (drop_bit 6 v AND 0x3f)),
                      ucast (0x80 OR (v AND 0x3f))] else None
      else if v < 0x110000
      then if fits sz 4
           then Some [ucast (0xf0 OR (drop_bit 18 v AND 0x1f)), ucast (0x80 OR (drop_bit 12 v AND 0x3f)),
                      ucast (0x80 OR (drop_bit 6 v AND 0x3f)), ucast (0x80 OR (v AND 0x3f))] else None
      else None)"

definition word16 :: "bool \<Rightarrow> ubyte \<Rightarrow> ubyte \<Rightarrow> 16 word" where
  "word16 paLittleEndian a b =
     (if paLittleEndian then ucast a OR push_bit 8 (ucast b) else push_bit 8 (ucast a) OR ucast b)"

definition parseUTF16Codepoint :: "bool \<Rightarrow> ubyte list \<Rightarrow> (nat \<times> codepoint) scan" where
  "parseUTF16Codepoint le s =
     (case s of
        a # b # s2 \<Rightarrow>
          let first = word16 le a b
          in if first AND 0xfc00 = 0xd800
             then (case s2 of
                     c # d # s4 \<Rightarrow>
                       let second = word16 le c d
                       in if second AND 0xfc00 \<noteq> 0xdc00 then Failed
                          else Scanned (4, 0x10000 + (push_bit 10 (ucast (first AND 0x3ff)) OR ucast (second AND 0x3ff)))
                   | _ \<Rightarrow> Outside)
             else Scanned (2, ucast first)
      | _ \<Rightarrow> Outside)"

definition bytes16 :: "bool \<Rightarrow> 16 word \<Rightarrow> ubyte list" where
  "bytes16 paLittleEndian w =
     (if paLittleEndian then [ucast (w AND 0xff), ucast (drop_bit 8 w AND 0xff)]
      else [ucast (drop_bit 8 w AND 0xff), ucast (w AND 0xff)])"

definition encodeUTF16Codepoint :: "nat option \<Rightarrow> bool \<Rightarrow> codepoint \<Rightarrow> ubyte list option" where
  "encodeUTF16Codepoint sz le v =
     (if (0xd800 \<le> v \<and> v < 0xe000) \<or> 0x110000 \<le> v then None
      else if v < 0x10000 then if fits sz 2 then Some (bytes16 le (ucast v)) else None
      else if fits sz 4
      then let nVal = v - 0x10000;
               high = 0xd800 OR (ucast (drop_bit 10 nVal AND 0x3ff) :: 16 word);
               low = 0xdc00 OR (ucast (nVal AND 0x3ff) :: 16 word)
           in Some (bytes16 le high @ bytes16 le low)
      else None)"

lemma parseUTF8_size: "parseUTF8Codepoint s = Scanned nv \<Longrightarrow> 0 < fst nv \<and> fst nv \<le> length s"
  by (auto simp: parseUTF8Codepoint_def split: list.splits if_splits)

lemma parseUTF16_size: "parseUTF16Codepoint le s = Scanned nv \<Longrightarrow> 0 < fst nv \<and> fst nv \<le> length s"
  by (auto simp: parseUTF16Codepoint_def Let_def split: list.splits if_splits)

section \<open>checkUTF8\<close>

text \<open>The buffer, the bytes left to check, the code points counted and the width so far.\<close>

definition wider :: "codepoint \<Rightarrow> nat \<Rightarrow> nat" where
  "wider v w =
     (if v \<noteq> scmBOMMarker
      then if 0x10000 \<le> v then 21 else if 0x100 \<le> v \<and> w < 16 then 16
           else if 0x80 \<le> v \<and> w < 8 then 8 else w
      else w)"

function checkUTF8_loop :: "ubyte list \<Rightarrow> nat \<Rightarrow> nat \<Rightarrow> nat \<Rightarrow> (nat \<times> nat) scan" where
  "checkUTF8_loop buf nRemLen count width =
     (if nRemLen = 0 then Scanned (count, width)
      else (case parseUTF8Codepoint buf of
              Outside \<Rightarrow> Outside
            | Failed \<Rightarrow> Failed
            | Scanned nv \<Rightarrow>
                if nRemLen < fst nv then Failed
                else checkUTF8_loop (drop (fst nv) buf) (nRemLen - fst nv) (count + 1) (wider (snd nv) width)))"
  by pat_completeness auto

termination
  by (relation "measure (\<lambda>(buf, n, c, w). n)") (auto dest!: parseUTF8_size)

declare checkUTF8_loop.simps [simp del]

section \<open>Wide strings\<close>

text \<open>\<open>scmMaxStringLen\<close>.\<close>

definition scmMaxStringLen :: nat where
  "scmMaxStringLen = 65534"

text \<open>The two passes of \<open>fromUTF16\<close>: the bytes needed, then the encoding into a buffer of that size.\<close>

function utf16_needed :: "bool \<Rightarrow> ubyte list \<Rightarrow> nat \<Rightarrow> nat scan" where
  "utf16_needed le s n =
     (if s = [] then Scanned n
      else (case parseUTF16Codepoint le s of
              Outside \<Rightarrow> Outside
            | Failed \<Rightarrow> Failed
            | Scanned nv \<Rightarrow>
                (case encodeUTF8Codepoint None (snd nv) of
                   None \<Rightarrow> Failed
                 | Some bs \<Rightarrow> utf16_needed le (drop (fst nv) s) (n + length bs))))"
  by pat_completeness auto

termination
  by (relation "measure (\<lambda>(le, s, n). length s)") (auto dest!: parseUTF16_size)

function utf16_encode :: "bool \<Rightarrow> nat \<Rightarrow> ubyte list \<Rightarrow> ubyte list \<Rightarrow> ubyte list scan" where
  "utf16_encode le needed s out =
     (if s = [] then Scanned out
      else (case parseUTF16Codepoint le s of
              Outside \<Rightarrow> Outside
            | Failed \<Rightarrow> Failed
            | Scanned nv \<Rightarrow>
                (case encodeUTF8Codepoint (Some (needed - length out)) (snd nv) of
                   None \<Rightarrow> Failed
                 | Some bs \<Rightarrow> utf16_encode le needed (drop (fst nv) s) (out @ bs))))"
  by pat_completeness auto

termination
  by (relation "measure (\<lambda>(le, n, s, out). length s)") (auto dest!: parseUTF16_size)

declare utf16_needed.simps [simp del] utf16_encode.simps [simp del]

text \<open>A byte order mark at the start decides the order and is left out; big-endian otherwise.\<close>

definition strip_bom :: "ubyte list \<Rightarrow> (bool \<times> ubyte list) scan" where
  "strip_bom buf =
     (case parseUTF16Codepoint False buf of
        Outside \<Rightarrow> Outside
      | Failed \<Rightarrow> Failed
      | Scanned nv \<Rightarrow>
          Scanned (if fst nv = 2 \<and> snd nv = scmBOMMarkerSwapped then (True, drop 2 buf)
                   else if fst nv = 2 \<and> snd nv = scmBOMMarker then (False, drop 2 buf)
                   else (False, buf)))"

definition fromUTF16 :: "ubyte list \<Rightarrow> ubyte list scan" where
  "fromUTF16 buf =
     (if buf = [] then Scanned []
      else if odd (length buf) then Failed
      else (case strip_bom buf of
              Outside \<Rightarrow> Outside
            | Failed \<Rightarrow> Failed
            | Scanned (le, s) \<Rightarrow>
                (case utf16_needed le s 0 of
                   Outside \<Rightarrow> Outside
                 | Failed \<Rightarrow> Failed
                 | Scanned needed \<Rightarrow>
                     if scmMaxStringLen < needed then Failed else utf16_encode le needed s [])))"

text \<open>\<open>toUTF16\<close> reads the string with the zero that \<open>assign\<close> puts behind it; byte order marks are left
  out.\<close>

function utf8_needed :: "ubyte list \<Rightarrow> nat \<Rightarrow> nat scan" where
  "utf8_needed s n =
     (if s = [] then Scanned n
      else (case parseUTF8Codepoint (s @ [0]) of
              Outside \<Rightarrow> Outside
            | Failed \<Rightarrow> Failed
            | Scanned nv \<Rightarrow>
                if length s < fst nv then Failed
                else if snd nv = scmBOMMarker then utf8_needed (drop (fst nv) s) n
                else (case encodeUTF16Codepoint None False (snd nv) of
                        None \<Rightarrow> Failed
                      | Some bs \<Rightarrow> utf8_needed (drop (fst nv) s) (n + length bs))))"
  by pat_completeness auto

termination
  by (relation "measure (\<lambda>(s, n). length s)") (auto dest!: parseUTF8_size)

function utf8_encode :: "nat \<Rightarrow> ubyte list \<Rightarrow> ubyte list \<Rightarrow> ubyte list scan" where
  "utf8_encode needed s out =
     (if s = [] then Scanned out
      else (case parseUTF8Codepoint (s @ [0]) of
              Outside \<Rightarrow> Outside
            | Failed \<Rightarrow> Failed
            | Scanned nv \<Rightarrow>
                if length s < fst nv then Failed
                else if snd nv = scmBOMMarker then utf8_encode needed (drop (fst nv) s) out
                else (case encodeUTF16Codepoint (Some (needed - length out)) False (snd nv) of
                        None \<Rightarrow> Failed
                      | Some bs \<Rightarrow> utf8_encode needed (drop (fst nv) s) (out @ bs))))"
  by pat_completeness auto

termination
  by (relation "measure (\<lambda>(n, s, out). length s)") (auto dest!: parseUTF8_size)

declare utf8_needed.simps [simp del] utf8_encode.simps [simp del]

definition toUTF16 :: "nat \<Rightarrow> ubyte list \<Rightarrow> ubyte list scan" where
  "toUTF16 paBufferSize s =
     (case utf8_needed s 0 of
        Outside \<Rightarrow> Outside
      | Failed \<Rightarrow> Failed
      | Scanned needed \<Rightarrow> if paBufferSize < needed then Failed else utf8_encode needed s [])"

section \<open>Masks\<close>

lemma masks:
  fixes x :: "'a::len word"
  shows "x AND 0x7f = take_bit 7 x" "x AND 0x1f = take_bit 5 x" "x AND 0x3f = take_bit 6 x"
    "x AND 0x0f = take_bit 4 x" "x AND 0x07 = take_bit 3 x" "x AND 0x3ff = take_bit 10 x"
    "x AND 0xff = take_bit 8 x"
  by (simp_all add: take_bit_eq_mask mask_eq_exp_minus_1)

lemma take_bit_and_right: "take_bit n x AND m = x AND take_bit n m" for x m :: "'a::len word"
  by (rule bit_word_eqI) (auto simp: bit_and_iff bit_take_bit_iff)

lemma less_take_bit: "x < 2 ^ k \<Longrightarrow> take_bit k x = x" for x :: codepoint
  by (cases "k < 32") (simp_all add: take_bit_word_eq_self less_mask_eq take_bit_eq_mask)

lemma ucast_or: "ucast (a OR b) = (ucast a OR ucast b :: 'b::len word)" for a b :: "'a::len word"
  by (rule bit_word_eqI) (auto simp: bit_ucast_iff bit_or_iff)

lemma ucast_take_bit: "k \<le> LENGTH('b) \<Longrightarrow> ucast (take_bit k x) = (take_bit k (ucast x) :: 'b::len word)"
  for x :: "'a::len word"
  by (rule bit_word_eqI) (auto simp: bit_ucast_iff bit_take_bit_iff)

lemma and_or_distrib: "(a OR b) AND m = (a AND m) OR (b AND m)" for a :: "'a::len word"
  by (rule bit_word_eqI) (auto simp: bit_and_iff bit_or_iff)

lemma take_bit_ucast_ucast: "k \<le> 8 \<Longrightarrow> take_bit k (ucast (ucast x :: ubyte)) = take_bit k x" for x :: codepoint
  by (rule bit_word_eqI) (auto simp: bit_ucast_iff bit_take_bit_iff)

lemmas byte_simps = masks ucast_or ucast_take_bit and_or_distrib take_bit_and_right take_bit_or is_continuation_def
  take_bit_ucast_ucast

text \<open>The bytes of an encoding, as the decoder tests and reads them.\<close>

lemma encoded_bytes [simp]:
  fixes v :: codepoint
  shows "is_continuation (ucast (0x80 OR (v AND 0x3f)))"
    "ucast (ucast (0x80 OR (v AND 0x3f)) AND 0x3f :: ubyte) = v AND 0x3f"
    "ucast (0xc0 OR (v AND 0x1f)) AND (0x80 :: ubyte) \<noteq> 0"
    "ucast (0xc0 OR (v AND 0x1f)) AND (0xe0 :: ubyte) = 0xc0"
    "ucast (ucast (0xc0 OR (v AND 0x1f)) AND 0x1f :: ubyte) = v AND 0x1f"
    "ucast (0xe0 OR (v AND 0x0f)) AND (0x80 :: ubyte) \<noteq> 0"
    "ucast (0xe0 OR (v AND 0x0f)) AND (0xe0 :: ubyte) \<noteq> 0xc0"
    "ucast (0xe0 OR (v AND 0x0f)) AND (0xf0 :: ubyte) = 0xe0"
    "ucast (ucast (0xe0 OR (v AND 0x0f)) AND 0x0f :: ubyte) = v AND 0x0f"
    "ucast (0xf0 OR (v AND 0x07)) AND (0x80 :: ubyte) \<noteq> 0"
    "ucast (0xf0 OR (v AND 0x07)) AND (0xe0 :: ubyte) \<noteq> 0xc0"
    "ucast (0xf0 OR (v AND 0x07)) AND (0xf0 :: ubyte) \<noteq> 0xe0"
    "ucast (0xf0 OR (v AND 0x07)) AND (0xf8 :: ubyte) = 0xf0"
    "ucast (ucast (0xf0 OR (v AND 0x07)) AND 0x07 :: ubyte) = v AND 0x07"
  by (simp_all add: byte_simps)

lemma bit_of_take: "take_bit k v = v \<Longrightarrow> bit v n \<Longrightarrow> n < k" for v :: codepoint
  using bit_take_bit_iff [of k v n] by simp

text \<open>The fields of a value below a power of two, put together again.\<close>

lemma joined_fields:
  fixes v :: codepoint
  shows "take_bit 11 v = v \<Longrightarrow> push_bit 6 (drop_bit 6 v AND 0x1f) OR (v AND 0x3f) = v"
    "take_bit 16 v = v \<Longrightarrow> push_bit 12 (drop_bit 12 v AND 0x0f) OR push_bit 6 (drop_bit 6 v AND 0x3f) OR (v AND 0x3f) = v"
    "take_bit 21 v = v \<Longrightarrow> push_bit 18 (drop_bit 18 v AND 0x07) OR push_bit 12 (drop_bit 12 v AND 0x3f) OR
       push_bit 6 (drop_bit 6 v AND 0x3f) OR (v AND 0x3f) = v"
  unfolding masks
  by (rule bit_word_eqI;
      auto simp: bit_or_iff bit_push_bit_iff bit_take_bit_iff bit_drop_bit_eq dest: bit_of_take; fail)+

text \<open>The code shifts the bits of the first byte of three and four with a mask of five bits.\<close>

lemma five_bits:
  fixes v :: codepoint
  shows "take_bit 16 v = v \<Longrightarrow> drop_bit 12 v AND 0x1f = drop_bit 12 v AND 0x0f"
    "take_bit 21 v = v \<Longrightarrow> drop_bit 18 v AND 0x1f = drop_bit 18 v AND 0x07"
  unfolding masks
  by (rule bit_word_eqI;
      auto simp: bit_take_bit_iff bit_drop_bit_eq dest: bit_of_take; fail)+

lemma parse_encode_UTF8:
  assumes "encodeUTF8Codepoint sz v = Some bs"
  shows "parseUTF8Codepoint (bs @ rest) = Scanned (length bs, v)"
proof -
  consider (1) "v < 0x80" | (2) "\<not> v < 0x80" "v < 0x800" | (3) "\<not> v < 0x80" "\<not> v < 0x800" "v < 0x10000"
    | (4) "\<not> v < 0x80" "\<not> v < 0x800" "\<not> v < 0x10000" "v < 0x110000"
    using assms by (auto simp: encodeUTF8Codepoint_def split: if_splits)
  then show ?thesis
  proof cases
    case 1
    then have v: "take_bit 7 v = v"
      using less_take_bit [of v 7] by simp
    have "ucast v AND (0x80 :: ubyte) = 0"
      by (subst v [symmetric]) (simp add: byte_simps)
    moreover have "ucast (ucast v AND 0x7f :: ubyte) = v"
      using v by (simp add: byte_simps)
    ultimately show ?thesis
      using assms 1 by (auto simp: encodeUTF8Codepoint_def parseUTF8Codepoint_def split: if_splits)
  next
    case 2
    then have v: "take_bit 11 v = v"
      using less_take_bit [of v 11] by simp
    show ?thesis
      using assms 2 joined_fields(1) [OF v]
      by (auto simp: encodeUTF8Codepoint_def parseUTF8Codepoint_def split: if_splits)
  next
    case 3
    then have v: "take_bit 16 v = v"
      using less_take_bit [of v 16] by simp
    show ?thesis
      using assms 3 joined_fields(2) [OF v]
      by (auto simp: encodeUTF8Codepoint_def parseUTF8Codepoint_def five_bits(1) [OF v] split: if_splits)
  next
    case 4
    then have "v < 2 ^ 21"
      by (auto intro: less_trans)
    then have v: "take_bit 21 v = v"
      using less_take_bit [of v 21] by simp
    show ?thesis
      using assms 4 joined_fields(3) [OF v]
      by (auto simp: encodeUTF8Codepoint_def parseUTF8Codepoint_def five_bits(2) [OF v] split: if_splits)
  qed
qed

lemma encode_UTF8_total: "v < 0x110000 \<Longrightarrow> 4 \<le> sz \<Longrightarrow> \<exists>bs. encodeUTF8Codepoint (Some sz) v = Some bs"
  by (auto simp: encodeUTF8Codepoint_def fits_def)

section \<open>What the decoder accepts\<close>

definition utf8_size :: "codepoint \<Rightarrow> nat" where
  "utf8_size v = (if v < 0x80 then 1 else if v < 0x800 then 2 else if v < 0x10000 then 3 else 4)"

lemma encode_length:
  assumes "encodeUTF8Codepoint sz v = Some bs"
  shows "length bs = utf8_size v" "v < 0x110000"
proof -
  show "length bs = utf8_size v"
    using assms by (auto simp: encodeUTF8Codepoint_def utf8_size_def split: if_splits)
  have "(0x80 :: codepoint) \<le> 0x110000" "(0x800 :: codepoint) \<le> 0x110000" "(0x10000 :: codepoint) \<le> 0x110000"
    by simp_all
  then show "v < 0x110000"
    using assms by (auto simp: encodeUTF8Codepoint_def split: if_splits intro: less_le_trans)
qed

lemma split_mask: "(b AND m) OR (b AND NOT m) = b" for b :: ubyte
  by (rule bit_word_eqI) (auto simp: bit_or_iff bit_and_iff bit_not_iff)

lemma not_masks:
  "(NOT 0xe0 :: ubyte) = 0x1f" "(NOT 0xf0 :: ubyte) = 0x0f" "(NOT 0xf8 :: ubyte) = 0x07"
  "(NOT 0xc0 :: ubyte) = 0x3f" "(NOT 0x80 :: ubyte) = 0x7f"
  by simp_all

lemma split_byte:
  fixes b :: ubyte
  shows "b AND 0xe0 = 0xc0 \<Longrightarrow> 0xc0 OR take_bit 5 b = b" "b AND 0xf0 = 0xe0 \<Longrightarrow> 0xe0 OR take_bit 4 b = b"
    "b AND 0xf8 = 0xf0 \<Longrightarrow> 0xf0 OR take_bit 3 b = b" "b AND 0xc0 = 0x80 \<Longrightarrow> 0x80 OR take_bit 6 b = b"
    "b AND 0x80 = 0 \<Longrightarrow> take_bit 7 b = b"
  using split_mask [of b "0xe0"] split_mask [of b "0xf0"] split_mask [of b "0xf8"] split_mask [of b "0xc0"]
    split_mask [of b "0x80"]
  unfolding not_masks masks by simp_all

lemma ucast_ucast_byte [simp]: "ucast (ucast b :: codepoint) = (b :: ubyte)"
  by (rule bit_word_eqI) (simp add: bit_ucast_iff)

text \<open>The bytes of two, three and four whose value is encoded in as many.\<close>

lemmas field_bits = bit_or_iff bit_push_bit_iff bit_take_bit_iff bit_drop_bit_eq bit_ucast_iff

lemma fields_2:
  fixes b0 b1 :: ubyte and v :: codepoint
  assumes "v = push_bit 6 (ucast (take_bit 5 b0)) OR ucast (take_bit 6 b1)"
  shows "ucast (take_bit 5 (drop_bit 6 v)) = take_bit 5 b0" "ucast (take_bit 6 v) = take_bit 6 b1"
  unfolding assms by (rule bit_word_eqI; auto simp: field_bits; fail)+

lemma fields_3:
  fixes b0 b1 b2 :: ubyte and v :: codepoint
  assumes "v = push_bit 12 (ucast (take_bit 4 b0)) OR push_bit 6 (ucast (take_bit 6 b1)) OR ucast (take_bit 6 b2)"
  shows "ucast (take_bit 5 (drop_bit 12 v)) = take_bit 4 b0" "ucast (take_bit 6 (drop_bit 6 v)) = take_bit 6 b1"
    "ucast (take_bit 6 v) = take_bit 6 b2"
  unfolding assms by (rule bit_word_eqI; auto simp: field_bits; fail)+

lemma fields_4:
  fixes b0 b1 b2 b3 :: ubyte and v :: codepoint
  assumes "v = push_bit 18 (ucast (take_bit 3 b0)) OR push_bit 12 (ucast (take_bit 6 b1)) OR
      push_bit 6 (ucast (take_bit 6 b2)) OR ucast (take_bit 6 b3)"
  shows "ucast (take_bit 5 (drop_bit 18 v)) = take_bit 3 b0" "ucast (take_bit 6 (drop_bit 12 v)) = take_bit 6 b1"
    "ucast (take_bit 6 (drop_bit 6 v)) = take_bit 6 b2" "ucast (take_bit 6 v) = take_bit 6 b3"
  unfolding assms by (rule bit_word_eqI; auto simp: field_bits; fail)+

lemma ucast_or_byte:
  "ucast (0xc0 OR x :: codepoint) = (0xc0 OR ucast x :: ubyte)" "ucast (0xe0 OR x :: codepoint) = (0xe0 OR ucast x :: ubyte)"
  "ucast (0xf0 OR x :: codepoint) = (0xf0 OR ucast x :: ubyte)" "ucast (0x80 OR x :: codepoint) = (0x80 OR ucast x :: ubyte)"
  by (simp_all add: ucast_or)

lemma parseUTF8_cases:
  assumes "parseUTF8Codepoint (b0 # s1) = Scanned (n, v)"
  obtains (1) "b0 AND 0x80 = 0" "n = 1" "v = ucast (take_bit 7 b0)"
    | (2) b1 s2 where "b0 AND 0xe0 = 0xc0" "s1 = b1 # s2" "is_continuation b1" "n = 2"
        "v = push_bit 6 (ucast (take_bit 5 b0)) OR ucast (take_bit 6 b1)"
    | (3) b1 b2 s2 where "b0 AND 0xf0 = 0xe0" "s1 = b1 # b2 # s2" "is_continuation b1" "is_continuation b2" "n = 3"
        "v = push_bit 12 (ucast (take_bit 4 b0)) OR push_bit 6 (ucast (take_bit 6 b1)) OR ucast (take_bit 6 b2)"
    | (4) b1 b2 b3 s2 where "b0 AND 0xf8 = 0xf0" "s1 = b1 # b2 # b3 # s2" "is_continuation b1" "is_continuation b2"
        "is_continuation b3" "n = 4"
        "v = push_bit 18 (ucast (take_bit 3 b0)) OR push_bit 12 (ucast (take_bit 6 b1)) OR
          push_bit 6 (ucast (take_bit 6 b2)) OR ucast (take_bit 6 b3)"
proof -
  note parse = assms [unfolded parseUTF8Codepoint_def list.case masks]
  show thesis
  proof (cases "b0 AND 0x80 = 0")
    case True
    then show thesis
      using parse by (intro that(1)) simp_all
  next
    case multi: False
    then obtain b1 s2 where s1: "s1 = b1 # s2" "is_continuation b1"
      using parse by (cases s1) (simp_all split: if_splits)
    show thesis
    proof (cases "b0 AND 0xe0 = 0xc0")
      case True
      then show thesis
        using parse s1 multi by (intro that(2) [OF True s1]) simp_all
    next
      case three: False
      then obtain b2 s3 where s2: "s2 = b2 # s3" "is_continuation b2"
        using parse multi s1 by (cases s2) (simp_all split: if_splits)
      show thesis
      proof (cases "b0 AND 0xf0 = 0xe0")
        case True
        then show thesis
          using parse s1 s2 multi three by (intro that(3) [OF True _ s1(2) s2(2)]) simp_all
      next
        case False
        then have four: "b0 AND 0xf8 = 0xf0"
          using parse multi three s1 by (simp split: if_splits)
        then obtain b3 s4 where s3: "s3 = b3 # s4" "is_continuation b3"
          using parse multi three False s1 s2 by (cases s3) (simp_all split: if_splits)
        show thesis
          using parse s1 s2 s3 multi three False four
          by (intro that(4) [OF four _ s1(2) s2(2) s3(2)]) simp_all
      qed
    qed
  qed
qed

lemma utf8_size_iff:
  "utf8_size v = 1 \<longleftrightarrow> v < 0x80" "utf8_size v = 2 \<longleftrightarrow> \<not> v < 0x80 \<and> v < 0x800"
  "utf8_size v = 3 \<longleftrightarrow> \<not> v < 0x80 \<and> \<not> v < 0x800 \<and> v < 0x10000"
  "utf8_size v = 4 \<longleftrightarrow> \<not> v < 0x80 \<and> \<not> v < 0x800 \<and> \<not> v < 0x10000"
  by (simp_all add: utf8_size_def)

lemma encode_parse_UTF8:
  assumes "parseUTF8Codepoint s = Scanned (n, v)" "v < 0x110000" "n = utf8_size v"
  shows "encodeUTF8Codepoint None v = Some (take n s)"
proof -
  obtain b0 s1 where s: "s = b0 # s1"
    using assms(1) by (cases s) (auto simp: parseUTF8Codepoint_def)
  note size = assms(3) [symmetric]
  show ?thesis
  proof (cases rule: parseUTF8_cases [OF assms(1) [unfolded s]])
    case 1
    have "v < 0x80"
      using size unfolding 1(2) utf8_size_iff .
    moreover have "ucast v = b0"
      unfolding 1(3) split_byte(5) [OF 1(1)] by (rule ucast_ucast_byte)
    ultimately show ?thesis
      using 1(2) s by (simp add: encodeUTF8Codepoint_def fits_def)
  next
    case (2 b1 s2)
    have "\<not> v < 0x80" "v < 0x800"
      using size unfolding 2(4) utf8_size_iff by blast+
    moreover have "ucast (0xc0 OR take_bit 5 (drop_bit 6 v)) = b0" "ucast (0x80 OR take_bit 6 v) = b1"
      unfolding ucast_or_byte fields_2 [OF 2(5)]
      using split_byte(1) [OF 2(1)] split_byte(4) [of b1] 2(3) by (simp_all only: is_continuation_def)
    ultimately show ?thesis
      using 2(2,4) s by (simp add: encodeUTF8Codepoint_def fits_def masks)
  next
    case (3 b1 b2 s2)
    have "\<not> v < 0x80" "\<not> v < 0x800" "v < 0x10000"
      using size unfolding 3(5) utf8_size_iff by blast+
    moreover have "ucast (0xe0 OR take_bit 5 (drop_bit 12 v)) = b0" "ucast (0x80 OR take_bit 6 (drop_bit 6 v)) = b1"
        "ucast (0x80 OR take_bit 6 v) = b2"
      unfolding ucast_or_byte fields_3 [OF 3(6)]
      using split_byte(2) [OF 3(1)] split_byte(4) [of b1] split_byte(4) [of b2] 3(3,4)
      by (simp_all only: is_continuation_def)
    ultimately show ?thesis
      using 3(2,5) s by (simp add: encodeUTF8Codepoint_def fits_def masks)
  next
    case (4 b1 b2 b3 s2)
    have "\<not> v < 0x80" "\<not> v < 0x800" "\<not> v < 0x10000"
      using size unfolding 4(6) utf8_size_iff by blast+
    moreover have "ucast (0xf0 OR take_bit 5 (drop_bit 18 v)) = b0" "ucast (0x80 OR take_bit 6 (drop_bit 12 v)) = b1"
        "ucast (0x80 OR take_bit 6 (drop_bit 6 v)) = b2" "ucast (0x80 OR take_bit 6 v) = b3"
      unfolding ucast_or_byte fields_4 [OF 4(7)]
      using split_byte(3) [OF 4(1)] split_byte(4) [of b1] split_byte(4) [of b2] split_byte(4) [of b3] 4(3-5)
      by (simp_all only: is_continuation_def)
    ultimately show ?thesis
      using 4(2,6) s assms(2) by (simp add: encodeUTF8Codepoint_def fits_def masks)
  qed
qed

section \<open>UTF-16\<close>

lemma bytes16_word16:
  obtains a b where "bytes16 le w = [a, b]" "word16 le a b = w"
proof
  have "ucast (ucast (w AND 0xff) :: ubyte) OR push_bit 8 (ucast (ucast (drop_bit 8 w AND 0xff) :: ubyte)) = w"
    unfolding masks by (rule bit_word_eqI) (auto simp: field_bits)
  then show "word16 le (hd (bytes16 le w)) (hd (tl (bytes16 le w))) = w"
    by (simp add: word16_def bytes16_def or.commute)
qed (simp add: bytes16_def)

lemma surrogates:
  fixes x :: codepoint
  shows "(0xd800 OR (ucast (x AND 0x3ff) :: 16 word)) AND 0xfc00 = 0xd800"
    "(0xdc00 OR (ucast (x AND 0x3ff) :: 16 word)) AND 0xfc00 = 0xdc00"
    "ucast ((0xd800 OR (ucast (x AND 0x3ff) :: 16 word)) AND 0x3ff) = x AND 0x3ff"
    "ucast ((0xdc00 OR (ucast (x AND 0x3ff) :: 16 word)) AND 0x3ff) = x AND 0x3ff"
proof -
  have twice: "take_bit 10 (ucast (ucast x :: 16 word)) = take_bit 10 x"
    by (rule bit_word_eqI) (auto simp: field_bits)
  show "(0xd800 OR (ucast (x AND 0x3ff) :: 16 word)) AND 0xfc00 = 0xd800"
    "(0xdc00 OR (ucast (x AND 0x3ff) :: 16 word)) AND 0xfc00 = 0xdc00"
    "ucast ((0xd800 OR (ucast (x AND 0x3ff) :: 16 word)) AND 0x3ff) = x AND 0x3ff"
    "ucast ((0xdc00 OR (ucast (x AND 0x3ff) :: 16 word)) AND 0x3ff) = x AND 0x3ff"
    by (simp_all add: masks ucast_or ucast_take_bit and_or_distrib take_bit_and_right take_bit_or twice)
qed

lemma ucast_16: "ucast (ucast v :: 16 word) = take_bit 16 (v :: codepoint)"
  by (rule bit_word_eqI) (auto simp: field_bits)

lemma high_surrogate:
  fixes v :: codepoint
  assumes "v < 0x10000" "(ucast v :: 16 word) AND 0xfc00 = 0xd800"
  shows "0xd800 \<le> v \<and> v < 0xe000"
proof -
  define w where "w = (ucast v :: 16 word)"
  have v: "v = ucast w"
    using assms(1) less_take_bit [of v 16] ucast_16 [of v] by (simp add: w_def)
  have "drop_bit 10 w = take_bit 6 (drop_bit 10 w)"
    by (rule bit_word_eqI) (auto simp: field_bits dest: bit_imp_le_length)
  also have "\<dots> = drop_bit 10 (w AND 0xfc00)"
    unfolding drop_bit_and masks [symmetric] by simp
  also have "\<dots> = 54"
    unfolding w_def assms(2) by simp
  finally have "unat (drop_bit 10 w) = 54"
    by simp
  moreover have "unat v = unat w"
    using unsigned_less [of w, where 'a = nat] by (simp add: v unsigned_ucast_eq take_bit_nat_eq_self)
  ultimately have "unat v div 1024 = 54"
    by (simp add: drop_bit_eq_div unat_div)
  then have "55296 \<le> unat v" "unat v < 56320"
    by linarith+
  then show ?thesis
    by (simp add: word_le_nat_alt word_less_nat_alt)
qed

lemma parse_encode_UTF16:
  assumes "encodeUTF16Codepoint sz le v = Some bs"
  shows "parseUTF16Codepoint le (bs @ rest) = Scanned (length bs, v)"
proof (cases "v < 0x10000")
  case True
  obtain a b where ab: "bytes16 le (ucast v) = [a, b]" "word16 le a b = ucast v"
    using bytes16_word16 .
  have "ucast (ucast v :: 16 word) = v"
    using True less_take_bit [of v 16] by (simp add: ucast_16)
  moreover have "bs = [a, b]" "(ucast v :: 16 word) AND 0xfc00 \<noteq> 0xd800"
    using assms True ab(1) high_surrogate [OF True]
    by (auto simp: encodeUTF16Codepoint_def split: if_splits)
  ultimately show ?thesis
    using ab(2) by (simp add: parseUTF16Codepoint_def Let_def)
next
  case False
  define n where "n = v - 0x10000"
  define high where "high = 0xd800 OR (ucast (drop_bit 10 n AND 0x3ff) :: 16 word)"
  define low where "low = 0xdc00 OR (ucast (n AND 0x3ff) :: 16 word)"
  have "v < 0x110000"
    using assms by (auto simp: encodeUTF16Codepoint_def split: if_splits)
  then have "n < 2 ^ 20"
    using False unfolding n_def by simp unat_arith
  then have n: "take_bit 20 n = n"
    using less_take_bit by blast
  have joined: "push_bit 10 (drop_bit 10 n AND 0x3ff) OR (n AND 0x3ff) = n"
    unfolding masks by (rule bit_word_eqI; auto simp: field_bits dest: bit_of_take [OF n])
  obtain a b where ab: "bytes16 le high = [a, b]" "word16 le a b = high"
    using bytes16_word16 .
  obtain c d where cd: "bytes16 le low = [c, d]" "word16 le c d = low"
    using bytes16_word16 .
  have "bs = [a, b, c, d]"
    using assms False ab(1) cd(1)
    by (simp add: encodeUTF16Codepoint_def high_def low_def n_def Let_def split: if_splits)
  moreover have "high AND 0xfc00 = 0xd800" "low AND 0xfc00 = 0xdc00" "ucast (high AND 0x3ff) = drop_bit 10 n AND 0x3ff"
      "ucast (low AND 0x3ff) = n AND 0x3ff"
    unfolding high_def low_def by (rule surrogates)+
  ultimately show ?thesis
    using ab(2) cd(2) joined by (simp add: parseUTF16Codepoint_def Let_def n_def)
qed

section \<open>Texts of code points\<close>

definition utf8 :: "codepoint list \<Rightarrow> ubyte list" where
  "utf8 vs = concat (map (\<lambda>v. the (encodeUTF8Codepoint None v)) vs)"

definition utf16be :: "codepoint list \<Rightarrow> ubyte list" where
  "utf16be vs = concat (map (\<lambda>v. the (encodeUTF16Codepoint None False v)) vs)"

text \<open>A code point that both forms can have and that is no byte order mark.\<close>

definition plain_codepoint :: "codepoint \<Rightarrow> bool" where
  "plain_codepoint v \<longleftrightarrow> v < 0x110000 \<and> \<not> (0xd800 \<le> v \<and> v < 0xe000) \<and> v \<noteq> scmBOMMarker"

lemma encode_fits:
  "encodeUTF8Codepoint None v = Some bs \<Longrightarrow> length bs \<le> k \<Longrightarrow> encodeUTF8Codepoint (Some k) v = Some bs"
  "encodeUTF16Codepoint None le v = Some cs \<Longrightarrow> length cs \<le> k \<Longrightarrow> encodeUTF16Codepoint (Some k) le v = Some cs"
  by (auto simp: encodeUTF8Codepoint_def encodeUTF16Codepoint_def fits_def bytes16_def Let_def split: if_splits)

lemma encode_UTF8_plain: "v < 0x110000 \<Longrightarrow> \<exists>bs. encodeUTF8Codepoint None v = Some bs \<and> bs \<noteq> []"
  by (simp add: encodeUTF8Codepoint_def fits_def)

lemma encode_UTF16_plain:
  "v < 0x110000 \<Longrightarrow> \<not> (0xd800 \<le> v \<and> v < 0xe000) \<Longrightarrow>
   \<exists>cs. encodeUTF16Codepoint None le v = Some cs \<and> cs \<noteq> [] \<and> even (length cs)"
  by (simp add: encodeUTF16Codepoint_def fits_def bytes16_def Let_def not_le)

lemma plain_encoded:
  "plain_codepoint v \<Longrightarrow> \<exists>bs cs. encodeUTF8Codepoint None v = Some bs \<and>
     encodeUTF16Codepoint None le v = Some cs \<and> bs \<noteq> [] \<and> cs \<noteq> [] \<and> even (length cs)"
  using encode_UTF8_plain encode_UTF16_plain unfolding plain_codepoint_def by blast

lemma utf16_needed_utf16be:
  "\<forall>v\<in>set vs. plain_codepoint v \<Longrightarrow> utf16_needed False (utf16be vs) n = Scanned (n + length (utf8 vs))"
proof (induction vs arbitrary: n)
  case (Cons v vs)
  obtain bs cs where e: "encodeUTF8Codepoint None v = Some bs" "encodeUTF16Codepoint None False v = Some cs" "cs \<noteq> []"
    using plain_encoded [of v False] Cons.prems(1) by auto
  then show ?case
    using Cons.IH [of "n + length bs"] Cons.prems parse_encode_UTF16 [OF e(2), of "utf16be vs"]
    by (subst utf16_needed.simps) (simp add: utf16be_def utf8_def)
qed (simp add: utf16be_def utf8_def utf16_needed.simps)

lemma utf16_encode_utf16be:
  "\<forall>v\<in>set vs. plain_codepoint v \<Longrightarrow> length out + length (utf8 vs) \<le> k \<Longrightarrow>
   utf16_encode False k (utf16be vs) out = Scanned (out @ utf8 vs)"
proof (induction vs arbitrary: out)
  case (Cons v vs)
  obtain bs cs where e: "encodeUTF8Codepoint None v = Some bs" "encodeUTF16Codepoint None False v = Some cs" "cs \<noteq> []"
    using plain_encoded [of v False] Cons.prems(1) by auto
  have "length bs \<le> k - length out"
    using Cons.prems(2) e(1) by (simp add: utf8_def)
  then show ?case
    using Cons.IH [of "out @ bs"] Cons.prems e parse_encode_UTF16 [OF e(2), of "utf16be vs"] encode_fits(1) [OF e(1)]
    by (subst utf16_encode.simps) (simp add: utf16be_def utf8_def)
qed (simp add: utf16be_def utf8_def utf16_encode.simps)

lemma utf8_needed_utf8:
  "\<forall>v\<in>set vs. plain_codepoint v \<Longrightarrow> utf8_needed (utf8 vs) n = Scanned (n + length (utf16be vs))"
proof (induction vs arbitrary: n)
  case (Cons v vs)
  obtain bs cs where e: "encodeUTF8Codepoint None v = Some bs" "encodeUTF16Codepoint None False v = Some cs" "bs \<noteq> []"
    using plain_encoded [of v False] Cons.prems(1) by auto
  then show ?case
    using Cons.IH [of "n + length cs"] Cons.prems parse_encode_UTF8 [OF e(1), of "utf8 vs @ [0]"]
    by (subst utf8_needed.simps) (simp add: utf16be_def utf8_def plain_codepoint_def)
qed (simp add: utf16be_def utf8_def utf8_needed.simps)

lemma utf8_encode_utf8:
  "\<forall>v\<in>set vs. plain_codepoint v \<Longrightarrow> length out + length (utf16be vs) \<le> k \<Longrightarrow>
   utf8_encode k (utf8 vs) out = Scanned (out @ utf16be vs)"
proof (induction vs arbitrary: out)
  case (Cons v vs)
  obtain bs cs where e: "encodeUTF8Codepoint None v = Some bs" "encodeUTF16Codepoint None False v = Some cs" "bs \<noteq> []"
    using plain_encoded [of v False] Cons.prems(1) by auto
  have "length cs \<le> k - length out"
    using Cons.prems(2) e(2) by (simp add: utf16be_def)
  then show ?case
    using Cons.IH [of "out @ cs"] Cons.prems e parse_encode_UTF8 [OF e(1), of "utf8 vs @ [0]"] encode_fits(2) [OF e(2)]
    by (subst utf8_encode.simps) (simp add: utf16be_def utf8_def plain_codepoint_def)
qed (simp add: utf16be_def utf8_def utf8_encode.simps)

lemma utf16be_even: "\<forall>v\<in>set vs. plain_codepoint v \<Longrightarrow> even (length (utf16be vs))"
proof (induction vs)
  case (Cons v vs)
  then show ?case
    using encode_UTF16_plain [of v False] by (auto simp: utf16be_def plain_codepoint_def)
qed (simp add: utf16be_def)

lemma wstring_roundtrip:
  assumes "\<forall>v\<in>set vs. plain_codepoint v" "vs = [] \<or> hd vs \<noteq> scmBOMMarkerSwapped"
    and "length (utf8 vs) \<le> scmMaxStringLen" "length (utf16be vs) \<le> k"
  shows "toUTF16 k (utf8 vs) = Scanned (utf16be vs) \<and> fromUTF16 (utf16be vs) = Scanned (utf8 vs)"
proof
  show "toUTF16 k (utf8 vs) = Scanned (utf16be vs)"
    using assms(4) utf8_needed_utf8 [OF assms(1), of 0] utf8_encode_utf8 [OF assms(1), of "[]" "length (utf16be vs)"]
    by (simp add: toUTF16_def)
  show "fromUTF16 (utf16be vs) = Scanned (utf8 vs)"
  proof (cases vs)
    case Nil
    then show ?thesis
      by (simp add: fromUTF16_def utf8_def utf16be_def)
  next
    case (Cons v ws)
    obtain cs where e: "encodeUTF16Codepoint None False v = Some cs" "cs \<noteq> []"
      using plain_encoded [of v False] assms(1) Cons by auto
    have "strip_bom (utf16be vs) = Scanned (False, utf16be vs)"
      using parse_encode_UTF16 [OF e(1), of "utf16be ws"] assms(1,2) Cons e
      by (simp add: strip_bom_def utf16be_def plain_codepoint_def)
    moreover have "utf16be vs \<noteq> []"
      using Cons e by (simp add: utf16be_def)
    ultimately show ?thesis
      using utf16_needed_utf16be [OF assms(1), of 0] utf16_encode_utf16be [OF assms(1), of "[]" "length (utf8 vs)"]
        utf16be_even [OF assms(1)] assms(3)
      by (simp add: fromUTF16_def)
  qed
qed

section \<open>Checking a text\<close>

lemma parse_terminated:
  "parseUTF8Codepoint (s @ 0 # rest) \<noteq> Outside"
  "s \<noteq> [] \<Longrightarrow> parseUTF8Codepoint (s @ 0 # rest) = Scanned nv \<Longrightarrow> fst nv \<le> length s"
  by (cases s; cases "tl s"; cases "tl (tl s)"; cases "tl (tl (tl s))";
      auto simp: parseUTF8Codepoint_def is_continuation_def split: if_splits)+

lemma checkUTF8_terminated: "checkUTF8_loop (s @ [0]) (length s) c w \<noteq> Outside"
proof (induction s arbitrary: c w rule: length_induct)
  case (1 s)
  show ?case
  proof (cases "s = []")
    case True
    then show ?thesis
      by (simp add: checkUTF8_loop.simps)
  next
    case False
    show ?thesis
    proof (cases "parseUTF8Codepoint (s @ [0])")
      case (Scanned nv)
      have n: "0 < fst nv" "fst nv \<le> length s"
        using parseUTF8_size [OF Scanned] parse_terminated(2) [OF False Scanned] by simp_all
      then have "length (drop (fst nv) s) < length s"
        by simp
      then have "checkUTF8_loop (drop (fst nv) s @ [0]) (length (drop (fst nv) s)) (c + 1) (wider (snd nv) w) \<noteq> Outside"
        using 1 by blast
      then show ?thesis
        using Scanned n False by (subst checkUTF8_loop.simps) simp
    qed (use parse_terminated(1) False in \<open>subst checkUTF8_loop.simps; simp\<close>)+
  qed
qed

lemma checkUTF8_utf8:
  "\<forall>v\<in>set vs. v < 0x110000 \<Longrightarrow>
   checkUTF8_loop (utf8 vs @ rest) (length (utf8 vs)) c w = Scanned (c + length vs, fold wider vs w)"
proof (induction vs arbitrary: c w)
  case (Cons v vs)
  obtain bs where e: "encodeUTF8Codepoint None v = Some bs" "bs \<noteq> []"
    using encode_UTF8_plain [of v] Cons.prems by auto
  then show ?case
    using Cons parse_encode_UTF8 [OF e(1), of "utf8 vs @ rest"]
    by (subst checkUTF8_loop.simps) (simp add: utf8_def)
qed (simp add: utf8_def checkUTF8_loop.simps)

section \<open>Properties\<close>

text \<open>The decoders give back every code point that the encoders wrote, with the number of its bytes,
  whatever follows and in either byte order.\<close>

theorem codepoint_roundtrip:
  "(encodeUTF8Codepoint sz v = Some bs \<longrightarrow> parseUTF8Codepoint (bs @ rest) = Scanned (length bs, v)) \<and>
   (encodeUTF16Codepoint sz le v = Some cs \<longrightarrow> parseUTF16Codepoint le (cs @ rest) = Scanned (length cs, v))"
  using parse_encode_UTF8 parse_encode_UTF16 by blast

theorem codepoint_roundtrip_witness:
  "parseUTF8Codepoint [0xE2, 0x82, 0xAC, 7] = Scanned (3, 0x20AC) \<and>
   parseUTF16Codepoint True [0x3D, 0xD8, 0x00, 0xDE] = Scanned (4, 0x1F600)"
proof
  have "encodeUTF8Codepoint (Some 3) 0x20AC = Some [0xE2, 0x82, 0xAC]"
    by (simp add: encodeUTF8Codepoint_def fits_def)
  from mp [OF conjunct1 [OF codepoint_roundtrip] this]
  show "parseUTF8Codepoint [0xE2, 0x82, 0xAC, 7] = Scanned (3, 0x20AC)"
    by (metis append_Cons append_Nil length_Cons list.size(3) numeral_3_eq_3)
  have "encodeUTF16Codepoint None True 0x1F600 = Some [0x3D, 0xD8, 0x00, 0xDE]"
    by (simp add: encodeUTF16Codepoint_def fits_def bytes16_def Let_def)
  from mp [OF conjunct2 [OF codepoint_roundtrip] this]
  show "parseUTF16Codepoint True [0x3D, 0xD8, 0x00, 0xDE] = Scanned (4, 0x1F600)"
    by (metis append_Nil2 length_Cons list.size(3) numeral_2_eq_2 numeral_Bit0 add_2_eq_Suc' add_Suc_right)
qed

text \<open>A decoded sequence is the one that the encoder writes exactly when it is the shortest of its
  value and the value is a code point; longer sequences and larger values are decoded as well.\<close>

theorem decoder_accepts_more:
  assumes "parseUTF8Codepoint s = Scanned (n, v)"
  shows "encodeUTF8Codepoint None v = Some (take n s) \<longleftrightarrow> v < 0x110000 \<and> n = utf8_size v"
proof
  assume e: "encodeUTF8Codepoint None v = Some (take n s)"
  have "n \<le> length s"
    using parseUTF8_size [OF assms] by simp
  then show "v < 0x110000 \<and> n = utf8_size v"
    using encode_length [OF e] by simp
qed (use encode_parse_UTF8 [OF assms] in blast)

theorem decoder_accepts_more_witness:
  "parseUTF8Codepoint [0xC0, 0x80] = Scanned (2, 0) \<and> encodeUTF8Codepoint None 0 \<noteq> Some [0xC0, 0x80]"
proof -
  have "parseUTF8Codepoint [0xC0, 0x80] = Scanned (2, 0)"
    by (simp add: parseUTF8Codepoint_def is_continuation_def)
  then show ?thesis
    using decoder_accepts_more [of "[0xC0, 0x80]" 2 0] by (simp add: utf8_size_def)
qed

text \<open>C39: a wide string without surrogates and byte order marks that does not start with the swapped
  mark is written as UTF-16 into any buffer it fits in and read back unchanged.\<close>

theorem wide_string_roundtrip:
  assumes "\<forall>v\<in>set vs. plain_codepoint v" "vs = [] \<or> hd vs \<noteq> scmBOMMarkerSwapped"
    and "length (utf8 vs) \<le> scmMaxStringLen" "length (utf16be vs) \<le> k"
  shows "toUTF16 k (utf8 vs) = Scanned (utf16be vs) \<and> fromUTF16 (utf16be vs) = Scanned (utf8 vs)"
  using assms by (rule wstring_roundtrip)

theorem wide_string_roundtrip_witness:
  "toUTF16 6 (utf8 [0x41, 0x1F600]) = Scanned (utf16be [0x41, 0x1F600]) \<and>
   fromUTF16 (utf16be [0x41, 0x1F600]) = Scanned (utf8 [0x41, 0x1F600])"
  by (rule wide_string_roundtrip)
    (simp_all add: plain_codepoint_def scmBOMMarker_def scmBOMMarkerSwapped_def utf8_def utf16be_def scmMaxStringLen_def
      encodeUTF8Codepoint_def encodeUTF16Codepoint_def fits_def bytes16_def Let_def)

text \<open>The check of a text that ends with a zero never reads behind it and accepts every encoding of
  code points with their number; with a length instead of the zero it reads behind the buffer when
  the text is cut inside a sequence, and so does the conversion from UTF-16.\<close>

theorem text_check_bounds:
  "checkUTF8_loop (s @ [0]) (length s) 0 7 \<noteq> Outside \<and>
   ((\<forall>v\<in>set vs. v < 0x110000) \<longrightarrow>
     checkUTF8_loop (utf8 vs @ rest) (length (utf8 vs)) 0 7 = Scanned (length vs, fold wider vs 7)) \<and>
   checkUTF8_loop [0xE2, 0x82] 2 0 7 = Outside \<and> fromUTF16 [0xD8, 0x3D] = Outside"
  using checkUTF8_terminated checkUTF8_utf8 [of vs rest 0 7]
  by (simp add: checkUTF8_loop.simps [of "[0xE2, 0x82]"] parseUTF8Codepoint_def is_continuation_def
      fromUTF16_def strip_bom_def parseUTF16Codepoint_def word16_def Let_def)

theorem text_check_bounds_witness:
  "checkUTF8_loop (utf8 [0x41, 0x20AC] @ [0]) (length (utf8 [0x41, 0x20AC])) 0 7 = Scanned (2, 16)"
  using text_check_bounds [of "[]" "[0x41, 0x20AC]" "[0]"] by (simp add: wider_def scmBOMMarker_def)

end
