(* ===== verification/Value_Text.thy ===== *)
theory Value_Text
imports Iec_Any "HOL-Library.Signed_Division"
begin

text \<open>
  The text of integer, bit-string and BOOL values: \<open>toString\<close> and \<open>fromString\<close> of
  \<open>core/src/datatypes/forte_any_elementary.cpp\<close> and \<open>forte_bool.cpp\<close>, on the number parsers of
  \<open>core/src/util/string_utils.cpp\<close>.

  A C string is the list of its characters before the terminating zero; a pointer into it is the rest
  of the list from there.  The parsers return the value, the rest and whether \<open>errno\<close> is \<open>ERANGE\<close>.
  Their accumulators are unbounded integers: the limits keep them in range, except that the signed
  64-bit accumulator reaches \<open>2 ^ 63\<close> on the text of the least number, where the code relies on
  wrap-around.  \<open>fromString\<close> answers \<open>None\<close> when the code reads behind the terminating zero,
  otherwise the code's return value and the new union.
\<close>

section \<open>Characters\<close>

definition char_code :: "char \<Rightarrow> nat" where
  "char_code ch = of_char ch"

definition to_upper :: "char \<Rightarrow> char" where
  "to_upper ch = (if 97 \<le> char_code ch \<and> char_code ch \<le> 122 then char_of (char_code ch - 32) else ch)"

definition isAtoFChar :: "char \<Rightarrow> bool" where
  "isAtoFChar ch = (65 \<le> char_code (to_upper ch) \<and> char_code (to_upper ch) \<le> 70)"

definition isHexDigit :: "char \<Rightarrow> bool" where
  "isHexDigit ch = (isDigit ch \<or> isAtoFChar ch)"

definition charDigitToInt :: "char \<Rightarrow> int" where
  "charDigitToInt ch = int (char_code ch) - 48"

definition charAtoFToInt :: "char \<Rightarrow> int" where
  "charAtoFToInt ch = int (char_code (to_upper ch)) - 65 + 10"

definition charHexDigitToInt :: "char \<Rightarrow> int" where
  "charHexDigitToInt ch = (if isDigit ch then charDigitToInt ch else charAtoFToInt ch)"

text \<open>The character at a position, the terminating zero behind the text.\<close>

definition char_at :: "string \<Rightarrow> nat \<Rightarrow> char" where
  "char_at s i = (if i < length s then s ! i else CHR 0x00)"

section \<open>Number parsers\<close>

text \<open>The loop that all four parsers share.\<close>

fun strto_loop :: "int \<Rightarrow> int \<Rightarrow> int \<Rightarrow> int \<Rightarrow> string \<Rightarrow> int \<times> string \<times> bool" where
  "strto_loop base limit1 limit2 acc [] = (acc, [], False)"
| "strto_loop base limit1 limit2 acc (ch # s) =
     (if \<not> isDigit ch \<and> \<not> (base = 16 \<and> isAtoFChar ch) then (acc, ch # s, False)
      else let v = charHexDigitToInt ch
           in if limit1 < acc \<or> (acc = limit1 \<and> limit2 < v) then (acc, ch # s, True)
              else strto_loop base limit1 limit2 (base * acc + v) s)"

definition skip_0x :: "int \<Rightarrow> string \<Rightarrow> string" where
  "skip_0x base s = (if base = 16 \<and> char_at s 0 = CHR ''0'' \<and> char_at s 1 = CHR ''x'' then drop 2 s else s)"

text \<open>\<open>strtol\<close> with the limits of DINT and \<open>strtoll\<close> with those of LINT; the second pair of limits is the
  branch for a negative remainder.\<close>

definition signed_limits :: "int \<Rightarrow> int \<Rightarrow> int \<Rightarrow> bool \<Rightarrow> int \<times> int" where
  "signed_limits lo hi base negative =
     (let limit1 = if negative then - (lo sdiv base) else hi sdiv base;
          limit2 = if negative then - (lo smod base) else hi smod base
      in if limit2 < 0 then (limit1 - 1, base - limit2) else (limit1, limit2))"

definition strto_signed :: "int \<Rightarrow> int \<Rightarrow> int \<Rightarrow> string \<Rightarrow> int \<times> string \<times> bool" where
  "strto_signed lo hi base s =
     (let negative = (char_at s 0 = CHR ''-'');
          s = skip_0x base (if negative then tl s else s)
      in case signed_limits lo hi base negative of (limit1, limit2) \<Rightarrow>
         (case strto_loop base limit1 limit2 0 s of (v, rest, erange) \<Rightarrow>
            (if erange then (if negative then lo else hi) else if negative then - v else v, rest, erange)))"

definition strtol :: "int \<Rightarrow> string \<Rightarrow> int \<times> string \<times> bool" where
  "strtol = strto_signed (- (2 ^ 31)) (2 ^ 31 - 1)"

definition strtoll :: "int \<Rightarrow> string \<Rightarrow> int \<times> string \<times> bool" where
  "strtoll = strto_signed (- (2 ^ 63)) (2 ^ 63 - 1)"

definition strto_unsigned :: "int \<Rightarrow> int \<Rightarrow> string \<Rightarrow> int \<times> string \<times> bool" where
  "strto_unsigned hi base s =
     (case strto_loop base (hi div base) (hi mod base) 0 (skip_0x base s) of (v, rest, erange) \<Rightarrow>
        (if erange then hi else v, rest, erange))"

definition strtoul :: "int \<Rightarrow> string \<Rightarrow> int \<times> string \<times> bool" where
  "strtoul = strto_unsigned (2 ^ 32 - 1)"

definition strtoull :: "int \<Rightarrow> string \<Rightarrow> int \<times> string \<times> bool" where
  "strtoull = strto_unsigned (2 ^ 64 - 1)"

section \<open>toString\<close>

text \<open>The value that \<open>toString\<close> prints, and the divisor it starts with.\<close>

fun text_value :: "EDataTypeID \<Rightarrow> cell \<Rightarrow> int" where
  "text_value e_SINT c = sint (getTINT8 c)"
| "text_value e_INT c = sint (getTINT16 c)"
| "text_value e_DINT c = sint (getTINT32 c)"
| "text_value e_LINT c = sint c"
| "text_value e_USINT c = uint (getTUINT8 c)"
| "text_value e_BYTE c = uint (getTUINT8 c)"
| "text_value e_UINT c = uint (getTUINT16 c)"
| "text_value e_WORD c = uint (getTUINT16 c)"
| "text_value e_UDINT c = uint (getTUINT32 c)"
| "text_value e_DWORD c = uint (getTUINT32 c)"
| "text_value e_ULINT c = uint c"
| "text_value e_LWORD c = uint c"
| "text_value _ c = 0"

fun text_divisor :: "EDataTypeID \<Rightarrow> nat option" where
  "text_divisor e_SINT = Some 100"
| "text_divisor e_USINT = Some 100"
| "text_divisor e_BYTE = Some 100"
| "text_divisor e_INT = Some 10000"
| "text_divisor e_UINT = Some 10000"
| "text_divisor e_WORD = Some 10000"
| "text_divisor e_DINT = Some 1000000000"
| "text_divisor e_UDINT = Some 1000000000"
| "text_divisor e_DWORD = Some 1000000000"
| "text_divisor e_LINT = Some 1000000000000000000"
| "text_divisor e_ULINT = Some 10000000000000000000"
| "text_divisor e_LWORD = Some 10000000000000000000"
| "text_divisor _ = None"

definition digit_char :: "nat \<Rightarrow> char" where
  "digit_char d = char_of (d + 48)"

text \<open>The do-while loop and the digit behind it.  The value is below \<open>10 * divisor\<close>, so each digit fits
  a \<open>char\<close>.\<close>

function digits_loop :: "bool \<Rightarrow> nat \<Rightarrow> nat \<Rightarrow> string" where
  "digits_loop leadingZeros val divisor =
     (let skip = (val div divisor = 0 \<and> leadingZeros);
          out = (if skip then [] else [digit_char (val div divisor)]);
          val' = (if skip then val else val - val div divisor * divisor);
          divisor' = divisor div 10
      in out @ (if 1 < divisor' then digits_loop (leadingZeros \<and> skip) val' divisor'
                else [digit_char (val' div divisor')]))"
  by pat_completeness auto

termination
  by (relation "measure (\<lambda>(l, v, d). d)") auto

declare digits_loop.simps [simp del]

text \<open>\<open>signedValBuf *= -1\<close> overflows for the least LINT; the text is then what a wrapping negation gives.\<close>

definition toString_elem :: "EDataTypeID \<Rightarrow> cell \<Rightarrow> string" where
  "toString_elem t c =
     (case text_divisor t of
        None \<Rightarrow> []
      | Some d \<Rightarrow>
          (if text_value t c < 0 then ''-'' @ digits_loop True (nat (- text_value t c)) d
           else digits_loop True (nat (text_value t c)) d))"

section \<open>fromString\<close>

definition scm_StringToTypeId :: "(string \<times> EDataTypeID) list" where
  "scm_StringToTypeId =
     [(''ANY'', e_ANY), (''BOOL'', e_BOOL), (''SINT'', e_SINT), (''INT'', e_INT), (''DINT'', e_DINT),
      (''LINT'', e_LINT), (''USINT'', e_USINT), (''UINT'', e_UINT), (''UDINT'', e_UDINT),
      (''ULINT'', e_ULINT), (''BYTE'', e_BYTE), (''WORD'', e_WORD), (''DWORD'', e_DWORD),
      (''LWORD'', e_LWORD), (''T'', e_TIME), (''TIME'', e_TIME), (''D'', e_DATE), (''DATE'', e_DATE),
      (''TOD'', e_TIME_OF_DAY), (''TIME_OF_DAY'', e_TIME_OF_DAY), (''DT'', e_DATE_AND_TIME),
      (''DATE_AND_TIME'', e_DATE_AND_TIME), (''LT'', e_LTIME), (''LTIME'', e_LTIME), (''LD'', e_LDATE),
      (''LDATE'', e_LDATE), (''LTOD'', e_LTIME_OF_DAY), (''LTIME_OF_DAY'', e_LTIME_OF_DAY),
      (''LDT'', e_LDATE_AND_TIME), (''LDATE_AND_TIME'', e_LDATE_AND_TIME), (''CHAR'', e_CHAR),
      (''WCHAR'', e_WCHAR), (''REAL'', e_REAL), (''LREAL'', e_LREAL), (''STRING'', e_STRING),
      (''WSTRING'', e_WSTRING)]"

definition getElementaryDataTypeId :: "string \<Rightarrow> EDataTypeID" where
  "getElementaryDataTypeId n = (case map_of scm_StringToTypeId n of Some t \<Rightarrow> t | None \<Rightarrow> e_ANY)"

definition isCastable_name :: "EDataTypeID \<Rightarrow> string \<Rightarrow> bool" where
  "isCastable_name t n =
     (case isCastable (getElementaryDataTypeId n) t of (ok, upCast, downCast) \<Rightarrow> ok \<and> upCast)"

text \<open>\<open>parseTypeName\<close> looks the text before the hash up among the interned strings and answers the null
  id when it is not there; such a text is not in the table, so that the answer is the same.\<close>

definition isTypeSpecifier :: "EDataTypeID \<Rightarrow> string \<Rightarrow> bool" where
  "isTypeSpecifier t n = (map_of scm_StringToTypeId n \<noteq> None \<or> isCastable_name t n)"

definition type_prefix :: "EDataTypeID \<Rightarrow> string \<Rightarrow> string option" where
  "type_prefix t s =
     (if CHR ''#'' \<in> set s \<and> \<not> isDigit (char_at s 0)
      then if isTypeSpecifier t (takeWhile (\<lambda>ch. ch \<noteq> CHR ''#'') s)
           then Some (tl (dropWhile (\<lambda>ch. ch \<noteq> CHR ''#'') s)) else None
      else Some s)"

definition base_prefix :: "string \<Rightarrow> (int \<times> string) option" where
  "base_prefix s =
     (if char_at s 1 = CHR ''#''
      then if char_at s 0 = CHR ''2'' then Some (2, drop 2 s)
           else if char_at s 0 = CHR ''8'' then Some (8, drop 2 s)
           else None
      else if char_at s 1 \<noteq> CHR 0x00 \<and> char_at s 2 = CHR ''#''
      then if char_at s 0 = CHR ''1''
           then if char_at s 1 = CHR ''6'' then Some (16, drop 3 s)
                else if char_at s 1 = CHR ''0'' then Some (10, drop 3 s)
                else None
           else None
      else Some (10, s))"

text \<open>Lower and upper bound of a signed type, upper bound of an unsigned one.\<close>

datatype text_bounds = Signed_Bounds int int | Unsigned_Bound int

fun type_bounds :: "EDataTypeID \<Rightarrow> text_bounds option" where
  "type_bounds e_SINT = Some (Signed_Bounds (- (2 ^ 7)) (2 ^ 7 - 1))"
| "type_bounds e_INT = Some (Signed_Bounds (- (2 ^ 15)) (2 ^ 15 - 1))"
| "type_bounds e_DINT = Some (Signed_Bounds (- (2 ^ 31)) (2 ^ 31 - 1))"
| "type_bounds e_LINT = Some (Signed_Bounds (- (2 ^ 63)) (2 ^ 63 - 1))"
| "type_bounds e_USINT = Some (Unsigned_Bound (2 ^ 8 - 1))"
| "type_bounds e_BYTE = Some (Unsigned_Bound (2 ^ 8 - 1))"
| "type_bounds e_UINT = Some (Unsigned_Bound (2 ^ 16 - 1))"
| "type_bounds e_WORD = Some (Unsigned_Bound (2 ^ 16 - 1))"
| "type_bounds e_UDINT = Some (Unsigned_Bound (2 ^ 32 - 1))"
| "type_bounds e_DWORD = Some (Unsigned_Bound (2 ^ 32 - 1))"
| "type_bounds e_ULINT = Some (Unsigned_Bound (2 ^ 64 - 1))"
| "type_bounds e_LWORD = Some (Unsigned_Bound (2 ^ 64 - 1))"
| "type_bounds _ = None"

text \<open>Only decimal numbers have a sign.  For LINT the code computes the bound \<open>2 * hi + 1\<close> with a signed
  overflow, which gives this bound where it wraps.\<close>

definition literal_bounds :: "int \<Rightarrow> text_bounds \<Rightarrow> text_bounds" where
  "literal_bounds base b =
     (case b of
        Signed_Bounds lo hi \<Rightarrow> if base \<noteq> 10 then Unsigned_Bound (2 * hi + 1) else b
      | Unsigned_Bound hi \<Rightarrow> b)"

definition parse_number :: "int \<Rightarrow> text_bounds \<Rightarrow> string \<Rightarrow> (int \<times> string) option" where
  "parse_number base b s =
     (case b of
        Signed_Bounds lo hi \<Rightarrow>
          (case strtoll base s of (v, rest, erange) \<Rightarrow>
             if \<not> erange \<and> v \<le> hi \<and> lo \<le> v then Some (v, rest) else None)
      | Unsigned_Bound hi \<Rightarrow>
          (if char_at s 0 \<noteq> CHR ''-''
           then (case strtoull base s of (v, rest, erange) \<Rightarrow>
                   if \<not> erange \<and> v \<le> hi then Some (v, rest) else None)
           else None))"

definition fromString_elem :: "EDataTypeID \<Rightarrow> string \<Rightarrow> cell \<Rightarrow> (int \<times> cell) option" where
  "fromString_elem t paValue c =
     (if paValue = [] \<or> t = e_ANY then Some (-1, c)
      else (case type_prefix t paValue of
              None \<Rightarrow> Some (-1, c)
            | Some pacRunner \<Rightarrow>
                (if pacRunner = [] then None
                 else (case base_prefix pacRunner of
                         None \<Rightarrow> Some (-1, c)
                       | Some (base, pacRunner) \<Rightarrow>
                           (case type_bounds t of
                              None \<Rightarrow> Some (0, c)
                            | Some b \<Rightarrow>
                                (case parse_number base (literal_bounds base b) pacRunner of
                                   None \<Rightarrow> Some (-1, c)
                                 | Some (v, rest) \<Rightarrow>
                                     let n = int (length paValue) - int (length rest)
                                     in Some (if n = 0 then -1 else n, word_of_int v)))))))"

section \<open>BOOL\<close>

definition either_case :: "char \<Rightarrow> char \<Rightarrow> char \<Rightarrow> bool" where
  "either_case ch upper lower = (ch = upper \<or> ch = lower)"

definition fromString_BOOL :: "string \<Rightarrow> cell \<Rightarrow> int \<times> cell" where
  "fromString_BOOL paValue c =
     (let n = (if take 5 paValue = ''BOOL#'' then 5 else 0); s = drop n paValue
      in if char_at s 0 = CHR ''1'' then (int n + 1, setTBOOL8 True)
         else if char_at s 0 = CHR ''0'' then (int n + 1, setTBOOL8 False)
         else if either_case (char_at s 0) CHR ''T'' CHR ''t'' \<and> either_case (char_at s 1) CHR ''R'' CHR ''r'' \<and>
           either_case (char_at s 2) CHR ''U'' CHR ''u'' \<and> either_case (char_at s 3) CHR ''E'' CHR ''e''
         then (int n + 4, setTBOOL8 True)
         else if either_case (char_at s 0) CHR ''F'' CHR ''f'' \<and> either_case (char_at s 1) CHR ''A'' CHR ''a'' \<and>
           either_case (char_at s 2) CHR ''L'' CHR ''l'' \<and> either_case (char_at s 3) CHR ''S'' CHR ''s'' \<and>
           either_case (char_at s 4) CHR ''E'' CHR ''e''
         then (int n + 5, setTBOOL8 False)
         else (-1, c))"

definition toString_BOOL :: "cell \<Rightarrow> string" where
  "toString_BOOL c = (if getTUINT8 c \<noteq> 0 then ''TRUE'' else ''FALSE'')"

section \<open>Printed numbers\<close>

definition digits_value :: "int \<Rightarrow> string \<Rightarrow> int" where
  "digits_value acc s = fold (\<lambda>ch acc. 10 * acc + charDigitToInt ch) s acc"

lemma digits_value_simps [simp]:
  "digits_value acc [] = acc"
  "digits_value acc (ch # s) = digits_value (10 * acc + charDigitToInt ch) s"
  "digits_value acc (s @ s') = digits_value (digits_value acc s) s'"
  by (simp_all add: digits_value_def)

lemma char_code_char_of [simp]: "n < 256 \<Longrightarrow> char_code (char_of n) = n"
  by (simp add: char_code_def of_char_of)

lemma isDigit_char_code: "isDigit ch \<longleftrightarrow> 48 \<le> char_code ch \<and> char_code ch \<le> 57"
  by (simp add: isDigit_def char_code_def)

lemma digit_char [simp]:
  assumes "d < 10"
  shows "isDigit (digit_char d)" "charDigitToInt (digit_char d) = int d"
  using assms by (simp_all add: isDigit_char_code charDigitToInt_def digit_char_def)

lemma charDigitToInt_bounds: "isDigit ch \<Longrightarrow> 0 \<le> charDigitToInt ch \<and> charDigitToInt ch \<le> 9"
  by (simp add: isDigit_char_code charDigitToInt_def)

lemma digits_value_mono: "\<forall>ch\<in>set s. isDigit ch \<Longrightarrow> 0 \<le> acc \<Longrightarrow> acc \<le> digits_value acc s"
proof (induction s arbitrary: acc)
  case (Cons ch s)
  have "0 \<le> charDigitToInt ch"
    using Cons.prems(1) charDigitToInt_bounds by simp
  then show ?case
    using Cons.prems Cons.IH [of "10 * acc + charDigitToInt ch"] by simp
qed simp

lemma digits_loop_spec:
  "val < 10 ^ (k + 2) \<Longrightarrow> (lead \<longrightarrow> acc = 0) \<Longrightarrow>
   (\<forall>ch\<in>set (digits_loop lead val (10 ^ (k + 1))). isDigit ch) \<and>
   digits_loop lead val (10 ^ (k + 1)) \<noteq> [] \<and>
   digits_value acc (digits_loop lead val (10 ^ (k + 1))) = acc * 10 ^ (k + 2) + int val"
proof (induction k arbitrary: val lead acc)
  case 0
  have v: "val div 10 < 10" "val - val div 10 * 10 = val mod 10"
    using 0 by (simp_all add: minus_div_mult_eq_mod)
  have "int val = 10 * int (val div 10) + int (val mod 10)"
    by (metis div_mult_mod_eq mult.commute of_nat_add of_nat_mult of_nat_numeral)
  then show ?case
    using v 0(2) by (subst (1 2 3) digits_loop.simps) (auto simp: Let_def algebra_simps)
next
  case (Suc k)
  define d where "d = val div 10 ^ (k + 2)"
  have d: "d < 10"
    using Suc.prems(1) by (simp add: d_def div_less_iff_less_mult algebra_simps)
  have "val - d * 10 ^ (k + 2) = val mod 10 ^ (k + 2)"
    by (simp only: d_def minus_div_mult_eq_mod)
  then have rest: "val - d * 10 ^ (k + 2) < 10 ^ (k + 2)"
    by simp
  have le: "d * 10 ^ (k + 2) \<le> val"
    by (simp add: d_def)
  have div: "(10::nat) ^ (Suc k + 1) div 10 = 10 ^ (k + 1)"
    by simp
  have big: "(1::nat) < 10 ^ (k + 1)"
    by (rule one_less_power) simp_all
  show ?case
  proof (cases "d = 0 \<and> lead")
    case True
    then have "digits_loop lead val (10 ^ (Suc k + 1)) = digits_loop lead val (10 ^ (k + 1))"
      using div big d_def by (subst digits_loop.simps) (simp add: Let_def)
    then show ?thesis
      using Suc.IH [of val lead 0] rest True Suc.prems(2) by simp
  next
    case False
    then have step: "digits_loop lead val (10 ^ (Suc k + 1)) =
        digit_char d # digits_loop False (val - d * 10 ^ (k + 2)) (10 ^ (k + 1))"
      using div big d_def by (subst digits_loop.simps) (auto simp: Let_def)
    have "int (val - d * 10 ^ (k + 2)) = int val - int d * 10 ^ (k + 2)"
      using le by (simp add: of_nat_diff)
    then show ?thesis
      using Suc.IH [of "val - d * 10 ^ (k + 2)" False "10 * acc + int d"] d rest
      unfolding step by (simp add: algebra_simps)
  qed
qed

lemma strto_loop_digits:
  assumes "\<forall>ch\<in>set s. isDigit ch" "0 \<le> acc" "digits_value acc s \<le> 10 * limit1 + limit2" "limit2 \<le> 9"
    and "rest \<noteq> [] \<Longrightarrow> \<not> isDigit (hd rest)"
  shows "strto_loop 10 limit1 limit2 acc (s @ rest) = (digits_value acc s, rest, False)"
  using assms
proof (induction s arbitrary: acc)
  case Nil
  then show ?case
    by (cases rest) simp_all
next
  case (Cons ch s)
  have ch: "isDigit ch" "0 \<le> charDigitToInt ch"
    using Cons.prems(1) charDigitToInt_bounds by simp_all
  have "10 * acc + charDigitToInt ch \<le> digits_value acc (ch # s)"
    using digits_value_mono [of s "10 * acc + charDigitToInt ch"] Cons.prems(1,2) ch by simp
  then have "\<not> limit1 < acc" "\<not> (acc = limit1 \<and> limit2 < charDigitToInt ch)"
    using Cons.prems(3,4) ch(2) by linarith+
  then show ?case
    using Cons.IH [of "10 * acc + charDigitToInt ch"] Cons.prems ch
    by (auto simp: charHexDigitToInt_def Let_def)
qed

section \<open>Bounds of the printed values\<close>

fun in_bounds :: "text_bounds \<Rightarrow> int \<Rightarrow> bool" where
  "in_bounds (Signed_Bounds lo hi) v \<longleftrightarrow> lo \<le> v \<and> v \<le> hi"
| "in_bounds (Unsigned_Bound hi) v \<longleftrightarrow> 0 \<le> v \<and> v \<le> hi"

lemma sint_bounds: "- (2 ^ (LENGTH('a) - 1)) \<le> sint (w :: 'a::len word)" "sint w \<le> 2 ^ (LENGTH('a) - 1) - 1"
  using sint_ge [of w] sint_lt [of w] by simp_all

lemma uint_bounds: "uint (w :: 'a::len word) \<le> 2 ^ LENGTH('a) - 1"
  using uint_lt2p [of w] by simp

lemma text_value_in_bounds: "type_bounds t = Some b \<Longrightarrow> in_bounds b (text_value t c)"
  using sint_bounds [of "getTINT8 c"] sint_bounds [of "getTINT16 c"] sint_bounds [of "getTINT32 c"]
    sint_bounds [of c] uint_bounds [of "getTUINT8 c"] uint_bounds [of "getTUINT16 c"]
    uint_bounds [of "getTUINT32 c"] uint_bounds [of c]
  by (cases t) auto

lemma text_divisor_power:
  assumes "type_bounds t = Some b"
  shows "\<exists>k. text_divisor t = Some (10 ^ (k + 1)) \<and> \<bar>text_value t c\<bar> < 10 ^ (k + 2)"
proof -
  have eqs: "(100::nat) = 10 ^ (1 + 1)" "(10000::nat) = 10 ^ (3 + 1)" "(1000000000::nat) = 10 ^ (8 + 1)"
      "(1000000000000000000::nat) = 10 ^ (17 + 1)" "(10000000000000000000::nat) = 10 ^ (18 + 1)"
    by simp_all
  have "text_divisor t = Some (10 ^ (k + 1)) \<Longrightarrow> \<bar>text_value t c\<bar> < 10 ^ (k + 2) \<Longrightarrow> ?thesis" for k
    by blast
  note this [of 1] this [of 3] this [of 8] this [of 17] this [of 18]
  then show ?thesis
    using assms text_value_in_bounds [OF assms, of c] by (cases t) auto
qed

lemma toString_shape:
  assumes "type_bounds t = Some b"
  obtains ds where "toString_elem t c = (if text_value t c < 0 then ''-'' @ ds else ds)"
    "\<forall>ch\<in>set ds. isDigit ch" "ds \<noteq> []" "digits_value 0 ds = \<bar>text_value t c\<bar>"
proof -
  obtain k where k: "text_divisor t = Some (10 ^ (k + 1))" "\<bar>text_value t c\<bar> < 10 ^ (k + 2)"
    using text_divisor_power [OF assms] by blast
  define ds where "ds = digits_loop True (nat \<bar>text_value t c\<bar>) (10 ^ (k + 1))"
  have "nat \<bar>text_value t c\<bar> < 10 ^ (k + 2)"
    using k(2) by (simp add: nat_less_iff)
  from digits_loop_spec [OF this, of True 0]
  have "\<forall>ch\<in>set ds. isDigit ch" "ds \<noteq> []" "digits_value 0 ds = \<bar>text_value t c\<bar>"
    by (simp_all add: ds_def)
  moreover have "toString_elem t c = (if text_value t c < 0 then ''-'' @ ds else ds)"
    using k(1) by (simp add: toString_elem_def ds_def)
  ultimately show ?thesis
    using that by blast
qed

section \<open>Printed values are parsed back\<close>

definition ends_number :: "int \<Rightarrow> string \<Rightarrow> bool" where
  "ends_number v rest \<longleftrightarrow> (rest \<noteq> [] \<longrightarrow> \<not> isDigit (hd rest)) \<and> CHR ''#'' \<notin> set (take 2 rest) \<and>
     (v < 0 \<longrightarrow> CHR ''#'' \<notin> set rest)"

lemma isDigit_not [simp]: "\<not> isDigit CHR ''#''" "\<not> isDigit CHR ''-''" "\<not> isDigit CHR 0x00" "\<not> isDigit CHR ''x''"
  by (simp_all add: isDigit_def)

lemma char_at_notin: "ch \<notin> set s \<Longrightarrow> ch \<noteq> CHR 0x00 \<Longrightarrow> char_at s i \<noteq> ch"
  by (auto simp: char_at_def)

lemma signed_limits_10:
  "signed_limits (- 9223372036854775808) 9223372036854775807 10 neg = (922337203685477580, if neg then 8 else 7)"
  by (simp add: signed_limits_def signed_divide_int_def signed_modulo_int_def)

lemma strtoll_print:
  assumes "\<forall>ch\<in>set ds. isDigit ch" "ds \<noteq> []" "rest \<noteq> [] \<Longrightarrow> \<not> isDigit (hd rest)"
    and "digits_value 0 ds \<le> (if neg then 2 ^ 63 else 2 ^ 63 - 1)"
  shows "strtoll 10 ((if neg then ''-'' else []) @ ds @ rest) =
    (if neg then - digits_value 0 ds else digits_value 0 ds, rest, False)"
proof -
  obtain d ds' where ds: "ds = d # ds'" "isDigit d"
    using assms(1,2) by (cases ds) auto
  then have "d \<noteq> CHR ''-''"
    by auto
  then show ?thesis
    using assms strto_loop_digits [of ds 0 922337203685477580 "if neg then 8 else 7" rest] ds
    by (auto simp: strtoll_def strto_signed_def signed_limits_10 char_at_def skip_0x_def Let_def simp del: strto_loop.simps)
qed

lemma strtoull_print:
  assumes "\<forall>ch\<in>set ds. isDigit ch" "rest \<noteq> [] \<Longrightarrow> \<not> isDigit (hd rest)"
    and "digits_value 0 ds \<le> 2 ^ 64 - 1"
  shows "strtoull 10 (ds @ rest) = (digits_value 0 ds, rest, False)"
  using assms strto_loop_digits [of ds 0 1844674407370955161 5 rest]
  by (simp add: strtoull_def strto_unsigned_def skip_0x_def)

lemma text_value_word_of_int:
  "type_bounds t = Some b \<Longrightarrow> in_bounds b v \<Longrightarrow> text_value t (word_of_int v) = v"
  by (cases t)
    (auto simp: getTINT8_def getTINT16_def getTINT32_def getTUINT8_def getTUINT16_def getTUINT32_def
      sint_uint unsigned_ucast_eq uint_word_of_int_eq signed_take_bit_take_bit
      signed_take_bit_int_eq_self take_bit_int_eq_self)

lemma base_prefix_digits:
  assumes "\<forall>ch\<in>set ds. isDigit ch" "ds \<noteq> []" "CHR ''#'' \<notin> set (take 2 rest)"
  shows "base_prefix (ds @ rest) = Some (10, ds @ rest)"
proof -
  have "char_at (ds @ rest) i \<noteq> CHR ''#''" if "i = 1 \<or> i = 2" for i
  proof (cases "i < length ds")
    case True
    then have "isDigit (ds ! i)"
      using assms(1) by simp
    then show ?thesis
      using True by (auto simp: char_at_def nth_append)
  next
    case False
    then have "i - length ds < 2"
      using assms(2) that by (cases ds) auto
    then show ?thesis
      using False assms(3) by (auto simp: char_at_def nth_append in_set_conv_nth)
  qed
  then show ?thesis
    by (simp add: base_prefix_def)
qed

lemma fromString_toString:
  assumes "type_bounds t = Some b" "ends_number (text_value t c) rest"
  shows "\<exists>c'. fromString_elem t (toString_elem t c @ rest) old = Some (int (length (toString_elem t c)), c') \<and>
    text_value t c' = text_value t c"
proof -
  let ?v = "text_value t c"
  obtain ds where ds: "toString_elem t c = (if ?v < 0 then ''-'' @ ds else ds)"
      "\<forall>ch\<in>set ds. isDigit ch" "ds \<noteq> []" "digits_value 0 ds = \<bar>?v\<bar>"
    using toString_shape [OF assms(1)] .
  have rest: "rest \<noteq> [] \<Longrightarrow> \<not> isDigit (hd rest)" "CHR ''#'' \<notin> set (take 2 rest)"
    using assms(2) by (simp_all add: ends_number_def)
  have bounds: "in_bounds b ?v"
    using text_value_in_bounds [OF assms(1)] .
  have digit: "char_at (ds @ rest) 0 \<noteq> CHR ''-''" "isDigit (char_at (ds @ rest) 0)"
    using ds(2,3) by (cases ds; auto simp: char_at_def)+
  have "parse_number 10 b (toString_elem t c @ rest) = Some (?v, rest)"
  proof (cases b)
    case (Signed_Bounds lo hi)
    then have "lo = - (2 ^ 7) \<or> lo = - (2 ^ 15) \<or> lo = - (2 ^ 31) \<or> lo = - (2 ^ 63)"
        "hi = 2 ^ 7 - 1 \<or> hi = 2 ^ 15 - 1 \<or> hi = 2 ^ 31 - 1 \<or> hi = 2 ^ 63 - 1"
      using assms(1) by (cases t; simp)+
    then have "\<bar>?v\<bar> \<le> (if ?v < 0 then 2 ^ 63 else 2 ^ 63 - 1)"
      using bounds Signed_Bounds by auto
    then show ?thesis
      using strtoll_print [OF ds(2,3) rest(1), of "?v < 0"] ds(1,4) bounds Signed_Bounds
      by (auto simp: parse_number_def)
  next
    case (Unsigned_Bound hi)
    then have "hi \<le> 2 ^ 64 - 1"
      using assms(1) by (cases t) simp_all
    then show ?thesis
      using strtoull_print [OF ds(2) rest(1)] ds(1,4) bounds Unsigned_Bound digit(1)
      by (auto simp: parse_number_def)
  qed
  moreover have "type_prefix t (toString_elem t c @ rest) = Some (toString_elem t c @ rest)"
  proof (cases "?v < 0")
    case True
    then have "CHR ''#'' \<notin> set rest"
      using assms(2) by (simp add: ends_number_def)
    moreover have "CHR ''#'' \<notin> set ds"
      using ds(2) by auto
    ultimately show ?thesis
      using True ds(1) by (simp add: type_prefix_def)
  qed (use ds(1) digit(2) in \<open>simp add: type_prefix_def\<close>)
  moreover have "base_prefix (toString_elem t c @ rest) = Some (10, toString_elem t c @ rest)"
  proof (cases "?v < 0")
    case True
    then have "CHR ''#'' \<notin> set (ds @ rest)"
      using assms(2) ds(2) by (auto simp: ends_number_def)
    then have "char_at (CHR ''-'' # ds @ rest) i \<noteq> CHR ''#''" for i
      by (intro char_at_notin) simp_all
    then show ?thesis
      using True ds(1) by (simp add: base_prefix_def)
  qed (use ds(1) base_prefix_digits [OF ds(2,3) rest(2)] in simp)
  moreover have "literal_bounds 10 b = b" "t \<noteq> e_ANY" "toString_elem t c \<noteq> []"
    using assms(1) ds(1,3) by (auto simp: literal_bounds_def split: text_bounds.split)
  ultimately have "fromString_elem t (toString_elem t c @ rest) old =
      Some (int (length (toString_elem t c)), word_of_int ?v)"
    using assms(1) by (simp add: fromString_elem_def)
  then show ?thesis
    using text_value_word_of_int [OF assms(1) bounds] by blast
qed

section \<open>Where the parsers stop\<close>

lemma strto_loop_suffix:
  "strto_loop base l1 l2 acc s = (v, rest, e) \<Longrightarrow> \<exists>p. s = p @ rest"
  by (induction base l1 l2 acc s rule: strto_loop.induct)
    (auto simp: Let_def Cons_eq_append_conv split: if_splits)

lemma skip_0x_suffix: "\<exists>p. s = p @ skip_0x base s"
  by (auto simp: skip_0x_def intro: exI [of _ "take 2 s"] exI [of _ "[]"])

lemma strto_loop_length:
  assumes "strto_loop base l1 l2 acc (skip_0x base s) = (v, rest, e)"
  shows "length rest \<le> length s"
proof -
  obtain p q where "skip_0x base s = p @ rest" "s = q @ skip_0x base s"
    using strto_loop_suffix [OF assms] skip_0x_suffix by blast
  then show ?thesis
    by (metis length_append le_add2 add.assoc)
qed

lemma parse_number_length: "parse_number base b s = Some (v, rest) \<Longrightarrow> length rest \<le> length s"
  by (auto simp: parse_number_def strtoll_def strto_signed_def strtoull_def strto_unsigned_def Let_def
      split: text_bounds.splits if_splits prod.splits dest!: strto_loop_length)

lemma strto_loop_nonneg:
  assumes "strto_loop base l1 l2 acc s = (v, rest, e)" "0 \<le> acc" "0 \<le> base"
  shows "0 \<le> v"
  using assms
proof (induction base l1 l2 acc s rule: strto_loop.induct)
  case (2 base l1 l2 acc ch s)
  have "isDigit ch \<or> isAtoFChar ch \<Longrightarrow> 0 \<le> charHexDigitToInt ch"
    using charDigitToInt_bounds [of ch]
    by (auto simp: charHexDigitToInt_def charAtoFToInt_def isAtoFChar_def)
  then show ?case
    using 2 by (auto simp: Let_def split: if_splits)
qed simp

lemma parse_number_in_bounds:
  assumes "parse_number base b s = Some (v, rest)" "0 \<le> base"
  shows "in_bounds b v"
proof (cases b)
  case (Signed_Bounds lo hi)
  then show ?thesis
    using assms by (auto simp: parse_number_def split: if_splits prod.splits)
next
  case (Unsigned_Bound hi)
  obtain w e where w: "strto_loop base ((2 ^ 64 - 1) div base) ((2 ^ 64 - 1) mod base) 0 (skip_0x base s) = (w, rest, e)"
      "v = (if e then 2 ^ 64 - 1 else w)"
    using assms(1) Unsigned_Bound
    by (auto simp: parse_number_def strtoull_def strto_unsigned_def split: if_splits prod.splits)
  then have "0 \<le> v"
    using strto_loop_nonneg [OF w(1)] assms(2) by auto
  then show ?thesis
    using assms(1) Unsigned_Bound by (auto simp: parse_number_def split: if_splits prod.splits)
qed

lemma type_prefix_suffix: "type_prefix t s = Some r \<Longrightarrow> \<exists>p. s = p @ r"
proof -
  assume r: "type_prefix t s = Some r"
  have "s = takeWhile (\<lambda>ch. ch \<noteq> CHR ''#'') s @ dropWhile (\<lambda>ch. ch \<noteq> CHR ''#'') s"
    by simp
  moreover have "dropWhile (\<lambda>ch. ch \<noteq> CHR ''#'') s = [] \<or>
      dropWhile (\<lambda>ch. ch \<noteq> CHR ''#'') s = hd (dropWhile (\<lambda>ch. ch \<noteq> CHR ''#'') s) # tl (dropWhile (\<lambda>ch. ch \<noteq> CHR ''#'') s)"
    by (cases "dropWhile (\<lambda>ch. ch \<noteq> CHR ''#'') s") simp_all
  ultimately have "\<exists>p. s = p @ tl (dropWhile (\<lambda>ch. ch \<noteq> CHR ''#'') s)"
    by (metis append.assoc append_Cons append_Nil append_Nil2 list.sel(2))
  then show ?thesis
    using r by (auto simp: type_prefix_def split: if_splits)
qed

lemma base_prefix_suffix: "base_prefix s = Some (base, r) \<Longrightarrow> length r \<le> length s \<and> base \<in> {2, 8, 10, 16}"
  by (auto simp: base_prefix_def split: if_splits)

lemma fromString_bounded:
  assumes "fromString_elem t s c = Some (n, c')"
  shows "- 1 \<le> n \<and> n \<le> int (length s) \<and>
    (c' \<noteq> c \<longrightarrow> (\<exists>b base v. type_bounds t = Some b \<and> base \<in> {2, 8, 10, 16} \<and>
       in_bounds (literal_bounds base b) v \<and> c' = word_of_int v))"
proof (cases "s = [] \<or> t = e_ANY \<or> type_prefix t s = None")
  case True
  then show ?thesis
    using assms by (auto simp: fromString_elem_def split: if_splits)
next
  case False
  then obtain r p where r: "type_prefix t s = Some r" "s = p @ r"
    using type_prefix_suffix by blast
  show ?thesis
  proof (cases "r = [] \<or> base_prefix r = None \<or> type_bounds t = None")
    case True
    then show ?thesis
      using assms r False by (auto simp: fromString_elem_def split: if_splits option.splits)
  next
    case nt: False
    then obtain base q b where q: "base_prefix r = Some (base, q)" "type_bounds t = Some b"
      by auto
    note base = base_prefix_suffix [OF q(1)]
    show ?thesis
    proof (cases "parse_number base (literal_bounds base b) q")
      case None
      then show ?thesis
        using assms r q False nt by (auto simp: fromString_elem_def)
    next
      case (Some vr)
      obtain v rest where vr: "vr = (v, rest)"
        by fastforce
      have "length rest \<le> length s" "in_bounds (literal_bounds base b) v"
        using parse_number_length [of base "literal_bounds base b" q v rest] base r(2) Some vr
          parse_number_in_bounds [of base "literal_bounds base b" q v rest] by auto
      then show ?thesis
        using assms r q False nt Some vr base by (auto simp: fromString_elem_def Let_def)
    qed
  qed
qed

lemma isTypeSpecifier_iff: "isTypeSpecifier t n \<longleftrightarrow> n \<in> fst ` set scm_StringToTypeId"
proof -
  have "\<not> isCastable_name t n" if "map_of scm_StringToTypeId n = None"
    using that by (simp add: isCastable_name_def getElementaryDataTypeId_def isCastable_def)
  then show ?thesis
    by (auto simp: isTypeSpecifier_def map_of_eq_None_iff)
qed

lemma type_prefix_hash:
  assumes "CHR ''#'' \<notin> set n" "\<not> isDigit (char_at n 0)"
  shows "type_prefix t (n @ CHR ''#'' # s) = (if n \<in> fst ` set scm_StringToTypeId then Some s else None)"
proof -
  have "char_at (n @ CHR ''#'' # s) 0 = (if n = [] then CHR ''#'' else char_at n 0)"
    by (cases n) (simp_all add: char_at_def)
  moreover have "takeWhile (\<lambda>ch. ch \<noteq> CHR ''#'') (n @ CHR ''#'' # s) = n"
      "dropWhile (\<lambda>ch. ch \<noteq> CHR ''#'') (n @ CHR ''#'' # s) = CHR ''#'' # s"
    using assms(1) by (induction n) auto
  ultimately show ?thesis
    using assms(2) by (simp add: type_prefix_def isTypeSpecifier_iff)
qed

lemma fromString_None_iff:
  "fromString_elem t s c = None \<longleftrightarrow>
   t \<noteq> e_ANY \<and> (\<exists>n. s = n @ ''#'' \<and> n \<in> fst ` set scm_StringToTypeId)"
proof
  assume None: "fromString_elem t s c = None"
  then have pre: "t \<noteq> e_ANY" "s \<noteq> []" "type_prefix t s = Some []"
    by (auto simp: fromString_elem_def Let_def split: if_splits option.splits)
  then have h: "CHR ''#'' \<in> set s" "\<not> isDigit (char_at s 0)"
    by (auto simp: type_prefix_def split: if_splits)
  then obtain n r where s: "s = n @ CHR ''#'' # r" "CHR ''#'' \<notin> set n"
    by (meson split_list_first)
  have "\<not> isDigit (char_at n 0)"
    using h(2) s(1) by (cases n) (auto simp: char_at_def)
  then show "t \<noteq> e_ANY \<and> (\<exists>n. s = n @ ''#'' \<and> n \<in> fst ` set scm_StringToTypeId)"
    using pre type_prefix_hash [OF s(2)] s(1) by (auto split: if_splits)
next
  assume "t \<noteq> e_ANY \<and> (\<exists>n. s = n @ ''#'' \<and> n \<in> fst ` set scm_StringToTypeId)"
  then obtain n where n: "t \<noteq> e_ANY" "s = n @ ''#''" "n \<in> fst ` set scm_StringToTypeId"
    by blast
  then have "CHR ''#'' \<notin> set n" "\<not> isDigit (char_at n 0)"
    by (auto simp: scm_StringToTypeId_def char_at_def isDigit_def)
  from type_prefix_hash [OF this, of t "[]"] show "fromString_elem t s c = None"
    using n by (simp add: fromString_elem_def)
qed

lemma fromString_garbage:
  assumes "type_bounds t = Some b" "s \<noteq> []" "CHR ''#'' \<notin> set s"
    and "\<not> isDigit (char_at s 0)" "char_at s 0 \<noteq> CHR ''-''"
  shows "fromString_elem t s c = Some (-1, 0)"
proof -
  obtain ch s' where s: "s = ch # s'"
    using assms(2) by (cases s) auto
  have loop: "strto_loop 10 l1 l2 0 s = (0, s, False)" for l1 l2
    using assms(4) s by (simp add: char_at_def)
  have "base_prefix s = Some (10, s)"
    using char_at_notin [OF assms(3)] by (simp add: base_prefix_def)
  moreover have "parse_number 10 b s = Some (0, s)"
    using assms(1,5) loop
    by (cases t) (auto simp: parse_number_def strtoll_def strto_signed_def strtoull_def strto_unsigned_def
        skip_0x_def Let_def split: prod.split)
  moreover have "type_prefix t s = Some s"
    using assms(3) by (simp add: type_prefix_def)
  moreover have "literal_bounds 10 b = b" "t \<noteq> e_ANY"
    using assms(1) by (auto simp: literal_bounds_def split: text_bounds.split)
  ultimately show ?thesis
    using assms(1,2) by (simp add: fromString_elem_def)
qed

lemma fromString_toString_BOOL:
  "\<exists>c'. fromString_BOOL (toString_BOOL c @ rest) old = (int (length (toString_BOOL c)), c') \<and>
     (getTUINT8 c' \<noteq> 0) = (getTUINT8 c \<noteq> 0)"
  by (simp add: fromString_BOOL_def toString_BOOL_def char_at_def either_case_def Let_def setTBOOL8_def
      getTUINT8_def)

section \<open>Properties\<close>

text \<open>C38: The text of an integer or bit string of any width is parsed back to the same number and consumed to its
  end, when no digit follows it, no hash is among the two characters behind it, and, for a negative number, no hash is
  anywhere behind it: the reader takes what is before a hash for the name of a type, unless the text starts with a
  digit.  The least LINT is left out, as its negation overflows in the code.\<close>

theorem number_text_roundtrip:
  assumes "type_bounds t = Some b" "ends_number (text_value t c) rest" "text_value t c \<noteq> - (2 ^ 63)"
  shows "\<exists>c'. fromString_elem t (toString_elem t c @ rest) old = Some (int (length (toString_elem t c)), c') \<and>
    text_value t c' = text_value t c"
  using assms(1,2) by (rule fromString_toString)

theorem number_text_roundtrip_witness:
  "\<exists>c'. fromString_elem e_INT (toString_elem e_INT (word_of_int (-32768)) @ '',1]'') 0 =
     Some (int (length (toString_elem e_INT (word_of_int (-32768)))), c') \<and> text_value e_INT c' = -32768"
  using number_text_roundtrip [of e_INT _ "word_of_int (-32768)" "'',1]''" 0]
  by (simp add: ends_number_def isDigit_def getTINT16_def)

text \<open>Whatever the text, the return value is -1 or a length within the text, and a new value comes
  from a number within the bounds of the type; the code reads behind the terminating zero exactly
  for a type name with a hash and nothing after it.\<close>

theorem fromString_stays_inside:
  "(\<forall>n c'. fromString_elem t s c = Some (n, c') \<longrightarrow> - 1 \<le> n \<and> n \<le> int (length s) \<and>
     (c' \<noteq> c \<longrightarrow> (\<exists>b base v. type_bounds t = Some b \<and> base \<in> {2, 8, 10, 16} \<and>
        in_bounds (literal_bounds base b) v \<and> c' = word_of_int v))) \<and>
   (fromString_elem t s c = None \<longleftrightarrow>
      t \<noteq> e_ANY \<and> (\<exists>n. s = n @ ''#'' \<and> n \<in> fst ` set scm_StringToTypeId))"
  by (rule conjI, intro allI impI, erule fromString_bounded, rule fromString_None_iff)

theorem fromString_stays_inside_witness:
  "fromString_elem e_INT ''INT#'' 5 = None \<and>
   (\<exists>b base v. type_bounds e_INT = Some b \<and> base \<in> {2, 8, 10, 16} \<and> in_bounds (literal_bounds base b) v \<and>
      (7 :: cell) = word_of_int v)"
proof -
  have "(''INT#'' = ''INT'' @ ''#'') \<and> ''INT'' \<in> fst ` set scm_StringToTypeId"
    by (simp add: scm_StringToTypeId_def)
  moreover have ne: "e_INT \<noteq> e_ANY"
    by simp
  ultimately have None: "fromString_elem e_INT ''INT#'' 5 = None"
    using conjunct2 [OF fromString_stays_inside [of e_INT "''INT#''" 5]] ne by blast
  have seven: "fromString_elem e_INT ''7'' 5 = Some (1, 7)"
    by (simp add: fromString_elem_def type_prefix_def char_at_def isDigit_def base_prefix_def literal_bounds_def
        parse_number_def strtoll_def strto_signed_def signed_limits_10 skip_0x_def charHexDigitToInt_def
        charDigitToInt_def char_code_def)
  note inside = conjunct1 [OF fromString_stays_inside [of e_INT "''7''" 5], rule_format, OF seven]
  have "(7 :: cell) \<noteq> 5"
    by simp
  with inside have "\<exists>b base v. type_bounds e_INT = Some b \<and> base \<in> {2, 8, 10, 16} \<and>
      in_bounds (literal_bounds base b) v \<and> (7 :: cell) = word_of_int v"
    by (elim conjE) (rule mp)
  with None show ?thesis ..
qed

text \<open>A text that starts neither with a digit nor with a minus sign is refused with -1, but the
  variable has been set to zero.\<close>

theorem refused_text_clears_value:
  assumes "type_bounds t = Some b" "s \<noteq> []" "CHR ''#'' \<notin> set s"
    and "\<not> isDigit (char_at s 0)" "char_at s 0 \<noteq> CHR ''-''"
  shows "fromString_elem t s c = Some (-1, 0)"
  using assms by (rule fromString_garbage)

theorem refused_text_clears_value_witness: "fromString_elem e_UDINT ''abc'' 17 = Some (-1, 0)"
  by (rule refused_text_clears_value) (simp_all add: char_at_def isDigit_def)

text \<open>The type name before the hash is not compared with the type of the variable: any two names of
  the table of elementary types give the same result, up to the length of the name.\<close>

theorem type_name_not_compared:
  assumes "n \<in> fst ` set scm_StringToTypeId" "m \<in> fst ` set scm_StringToTypeId" "s \<noteq> []"
    and "fromString_elem t (n @ ''#'' @ s) c = Some (k, c')" "0 < k"
  shows "fromString_elem t (m @ ''#'' @ s) c = Some (k + int (length m) - int (length n), c')"
proof -
  have name: "CHR ''#'' \<notin> set x \<and> \<not> isDigit (char_at x 0)" if "x \<in> fst ` set scm_StringToTypeId" for x
    using that by (auto simp: scm_StringToTypeId_def char_at_def isDigit_def)
  have pre: "type_prefix t (n @ ''#'' @ s) = Some s" "type_prefix t (m @ ''#'' @ s) = Some s"
    using type_prefix_hash [of n t s] type_prefix_hash [of m t s] name assms(1,2) by simp_all
  then obtain base q b v rest where q: "t \<noteq> e_ANY" "base_prefix s = Some (base, q)" "type_bounds t = Some b"
      "parse_number base (literal_bounds base b) q = Some (v, rest)" "c' = word_of_int v"
      "k = int (length (n @ ''#'' @ s)) - int (length rest)"
    using assms(3-5) by (auto simp: fromString_elem_def Let_def split: if_splits option.splits)
  have "length rest \<le> length s"
    using parse_number_length [OF q(4)] base_prefix_suffix [OF q(2)] by simp
  then show ?thesis
    using pre q assms(3) by (simp add: fromString_elem_def Let_def)
qed

theorem type_name_not_compared_witness: "fromString_elem e_INT ''STRING#5'' 0 = Some (8, 5)"
proof -
  have "fromString_elem e_INT (''INT'' @ ''#'' @ ''5'') 0 = Some (5, 5)"
    by (simp add: fromString_elem_def type_prefix_def isTypeSpecifier_def scm_StringToTypeId_def char_at_def
        isDigit_def base_prefix_def literal_bounds_def parse_number_def strtoll_def strto_signed_def
        signed_limits_10 skip_0x_def charHexDigitToInt_def charDigitToInt_def char_code_def)
  from type_name_not_compared [OF _ _ _ this, of "''STRING''"] show ?thesis
    by (simp add: scm_StringToTypeId_def)
qed

section \<open>Characters at a position\<close>

lemma char_at_Cons [simp]:
  "char_at (c # s) 0 = c" "char_at (c # s) (Suc i) = char_at s i" "char_at (c # s) 1 = char_at s 0"
  "char_at (c # s) (numeral n) = char_at s (pred_numeral n)"
  by (simp_all add: char_at_def numeral_eq_Suc)

lemma char_at_Nil [simp]: "char_at [] i = CHR 0x00"
  by (simp add: char_at_def)

end
