(* ===== verification/Char_Text.thy ===== *)
theory Char_Text
imports Value_Text
begin

text \<open>
  The literals of characters and strings with their dollar escapes:
  \<open>core/src/datatypes/forte_any_chars.cpp\<close>, \<open>forte_string.cpp\<close>, \<open>forte_char.cpp\<close> and
  \<open>forte_wchar.cpp\<close>.  The characters that \<open>isprint\<close> accepts are those of the C locale.  A \<open>fromString\<close>
  of a character answers \<open>None\<close> when the code reads behind the terminating zero.
\<close>

section \<open>Escapes\<close>

abbreviation apostrophe :: char where "apostrophe \<equiv> CHR 0x27"
abbreviation double_quote :: char where "double_quote \<equiv> CHR 0x22"

definition isprint :: "char \<Rightarrow> bool" where
  "isprint ch = (32 \<le> char_code ch \<and> char_code ch \<le> 126)"

definition hexChar :: "nat \<Rightarrow> char" where
  "hexChar charCode = (let d = charCode mod 16 in char_of (if d < 10 then 48 + d else 65 - 10 + d))"

definition dollarEscapeChar :: "EDataTypeID \<Rightarrow> char \<Rightarrow> string" where
  "dollarEscapeChar t ch =
     (if ch = CHR ''$'' then ''$$''
      else if ch = apostrophe then if t = e_STRING then [CHR ''$'', apostrophe] else [apostrophe]
      else if ch = CHR 0x0A then ''$l''
      else if ch = CHR 0x0C then ''$p''
      else if ch = CHR 0x0D then ''$r''
      else if ch = CHR 0x09 then ''$t''
      else if ch = double_quote then if t = e_WSTRING then [CHR ''$'', double_quote] else [double_quote]
      else if \<not> isprint ch \<and> t = e_STRING
      then [CHR ''$'', hexChar (char_code ch div 16), hexChar (char_code ch)]
      else [ch])"

text \<open>The switches on the character behind the dollar; \<open>q\<close> is the quote that may be escaped.\<close>

definition special_symbol :: "char \<Rightarrow> char \<Rightarrow> char option" where
  "special_symbol q ch =
     (if ch = q then Some q
      else if ch \<in> set ''NnLl'' then Some CHR 0x0A
      else if ch \<in> set ''Pp'' then Some CHR 0x0C
      else if ch \<in> set ''Rr'' then Some CHR 0x0D
      else if ch \<in> set ''Tt'' then Some CHR 0x09
      else if ch = CHR ''$'' then Some CHR ''$''
      else None)"

definition hex_value :: "string \<Rightarrow> int" where
  "hex_value s = fold (\<lambda>ch v. 16 * v + charHexDigitToInt ch) s 0"

section \<open>STRING\<close>

text \<open>The loop from position \<open>i\<close>: the unescaped text and the position of the closing quote.  An unknown
  escape gives the character zero.\<close>

function string_loop :: "string \<Rightarrow> string \<Rightarrow> nat \<Rightarrow> (string \<times> nat) option" where
  "string_loop s out i =
     (case s of
        [] \<Rightarrow> None
      | ch # s \<Rightarrow>
          if ch = CHR ''$''
          then if isHexDigit (char_at s 0) \<and> isHexDigit (char_at s 1)
               then string_loop (drop 2 s) (out @ [char_of (nat (hex_value (take 2 s)))]) (i + 3)
               else string_loop (drop 1 s)
                 (out @ [case special_symbol apostrophe (char_at s 0) of Some c \<Rightarrow> c | None \<Rightarrow> CHR 0x00]) (i + 2)
          else if ch = apostrophe then Some (out, i)
          else string_loop s (out @ [ch]) (i + 1))"
  by pat_completeness auto

termination
  by (relation "measure (\<lambda>(s, out, i). length s)") auto

declare string_loop.simps [simp del]

text \<open>What stands before the opening quote is not looked at; without one the loop starts at the
  beginning.\<close>

definition STRING_start :: "string \<Rightarrow> nat" where
  "STRING_start s =
     (let start = (if 7 < length s \<and> take 7 s = ''STRING#'' then 7 else 0)
      in if apostrophe \<in> set (drop start s)
         then start + length (takeWhile (\<lambda>ch. ch \<noteq> apostrophe) (drop start s)) + 1 else 0)"

definition CIEC_STRING_fromString :: "string \<Rightarrow> int \<times> string" where
  "CIEC_STRING_fromString s =
     (case string_loop (drop (STRING_start s) s) [] (STRING_start s) of
        Some (out, closing) \<Rightarrow> (int closing + 1, out)
      | None \<Rightarrow> (-1, []))"

definition CIEC_STRING_toString :: "string \<Rightarrow> string" where
  "CIEC_STRING_toString v = [apostrophe] @ concat (map (dollarEscapeChar e_STRING) v) @ [apostrophe]"

section \<open>CHAR and WCHAR\<close>

definition CHAR_start :: "string \<Rightarrow> char \<Rightarrow> string \<Rightarrow> nat option" where
  "CHAR_start type_name q s =
     (if take (length type_name + 2) s = type_name @ [CHR ''#'', q] then Some (length type_name + 2)
      else if char_at s 0 = q then Some 1 else None)"

definition CIEC_CHAR_toString :: "char \<Rightarrow> string" where
  "CIEC_CHAR_toString c = ''CHAR#'' @ [apostrophe] @ dollarEscapeChar e_STRING c @ [apostrophe]"

definition CIEC_CHAR_fromString :: "string \<Rightarrow> char \<Rightarrow> (int \<times> char) option" where
  "CIEC_CHAR_fromString s old =
     (case CHAR_start ''CHAR'' apostrophe s of
        None \<Rightarrow> Some (-1, old)
      | Some b \<Rightarrow>
          let r = drop b s
          in if char_at r 0 = apostrophe then Some (int b + 1, CHR 0x00)
             else if r = [] then None
             else if char_at r 0 \<noteq> CHR ''$''
             then if char_at r 1 = apostrophe then Some (int b + 2, hd r) else Some (-1, old)
             else if length r = 1 then None
             else if char_at r 2 = apostrophe
             then (case special_symbol apostrophe (char_at r 1) of
                     Some c \<Rightarrow> Some (int b + 3, c) | None \<Rightarrow> Some (-1, old))
             else if isHexDigit (char_at r 1) \<and> isHexDigit (char_at r 2) \<and> char_at r 3 = apostrophe
             then Some (int b + 4, char_of (nat (hex_value (take 2 (tl r)))))
             else Some (-1, old))"

type_synonym wchar = "16 word"

definition of_char16 :: "char \<Rightarrow> wchar" where
  "of_char16 ch = scast (of_nat (char_code ch) :: 8 word)"

definition CIEC_WCHAR_toString :: "wchar \<Rightarrow> string" where
  "CIEC_WCHAR_toString w = ''WCHAR#'' @ [double_quote] @
     (if w = 0 then ''$0000''
      else if w = of_char16 CHR ''$'' then ''$$''
      else if w = of_char16 double_quote then [CHR ''$'', double_quote]
      else if w = 0x0A then ''$l''
      else if w = 0x0C then ''$p''
      else if w = 0x0D then ''$r''
      else if w = 0x09 then ''$t''
      else if w < 256 \<and> isprint (char_of (unat w)) then [char_of (unat w)]
      else [CHR ''$'', hexChar (unat w div 4096), hexChar (unat w div 256), hexChar (unat w div 16),
            hexChar (unat w)]) @ [double_quote]"

definition CIEC_WCHAR_fromString :: "string \<Rightarrow> wchar \<Rightarrow> (int \<times> wchar) option" where
  "CIEC_WCHAR_fromString s old =
     (case CHAR_start ''WCHAR'' double_quote s of
        None \<Rightarrow> Some (-1, old)
      | Some b \<Rightarrow>
          let r = drop b s
          in if char_at r 0 = double_quote then Some (int b + 1, 0)
             else if r = [] then None
             else if char_at r 0 \<noteq> CHR ''$''
             then if char_at r 1 = double_quote then Some (int b + 2, of_char16 (hd r)) else Some (-1, old)
             else if length r = 1 then None
             else if char_at r 2 = double_quote
             then (case special_symbol double_quote (char_at r 1) of
                     Some c \<Rightarrow> Some (int b + 3, of_char16 c) | None \<Rightarrow> Some (-1, old))
             else if isHexDigit (char_at r 1) \<and> isHexDigit (char_at r 2) \<and> isHexDigit (char_at r 3) \<and>
               isHexDigit (char_at r 4) \<and> char_at r 5 = double_quote
             then Some (int b + 6, word_of_int (hex_value (take 4 (tl r))))
             else Some (-1, old))"

section \<open>Round trips\<close>

lemma hexChar_digit: "isHexDigit (hexChar n) \<and> charHexDigitToInt (hexChar n) = int (n mod 16)"
proof -
  define d where "d = n mod 16"
  have "d \<in> set [0..<16]"
    by (simp add: d_def)
  moreover have "\<forall>d\<in>set [0..<16]. isHexDigit (hexChar d) \<and> charHexDigitToInt (hexChar d) = int d"
    by (simp add: hexChar_def isHexDigit_def charHexDigitToInt_def charDigitToInt_def charAtoFToInt_def
        isDigit_char_code isAtoFChar_def to_upper_def upt_rec)
  moreover have "hexChar n = hexChar d"
    by (simp add: hexChar_def d_def)
  ultimately show ?thesis
    by (simp add: d_def)
qed

lemma hex_value_snoc: "hex_value (s @ [hexChar n]) = 16 * hex_value s + int (n mod 16)"
  by (simp add: hex_value_def hexChar_digit)

lemma hex_value_extend: "hex_value s = int (n div 16) \<Longrightarrow> hex_value (s @ [hexChar n]) = int n"
proof -
  assume "hex_value s = int (n div 16)"
  then have "hex_value (s @ [hexChar n]) = int (16 * (n div 16) + n mod 16)"
    by (simp only: hex_value_snoc of_nat_add of_nat_mult of_nat_numeral)
  then show ?thesis
    by (simp only: mult_div_mod_eq)
qed

lemma hex_value_digit: "n < 16 \<Longrightarrow> hex_value [hexChar n] = int n"
  by (simp add: hex_value_def hexChar_digit)

lemma hex_value_byte: "n < 256 \<Longrightarrow> hex_value [hexChar (n div 16), hexChar n] = int n"
  using hex_value_extend [of "[hexChar (n div 16)]" n] hex_value_digit [of "n div 16"] by simp

lemma hex_value_word:
  assumes "n < 65536"
  shows "hex_value [hexChar (n div 4096), hexChar (n div 256), hexChar (n div 16), hexChar n] = int n"
proof -
  have "hex_value [hexChar (n div 4096), hexChar (n div 256)] = int (n div 256)"
    using hex_value_byte [of "n div 256"] assms by (simp add: div_mult2_eq [symmetric])
  then have "hex_value [hexChar (n div 4096), hexChar (n div 256), hexChar (n div 16)] = int (n div 16)"
    using hex_value_extend [of "[hexChar (n div 4096), hexChar (n div 256)]" "n div 16"]
    by (simp add: div_mult2_eq [symmetric])
  then show ?thesis
    using hex_value_extend [of "[hexChar (n div 4096), hexChar (n div 256), hexChar (n div 16)]" n] by simp
qed

lemma char_code_less: "char_code ch < 256"
  by (simp add: char_code_def)

lemma char_of_char_code [simp]: "char_of (char_code ch) = ch"
  by (simp add: char_code_def)

lemma string_loop_plain:
  "ch \<noteq> CHR ''$'' \<Longrightarrow> ch \<noteq> apostrophe \<Longrightarrow> string_loop (ch # s) out i = string_loop s (out @ [ch]) (i + 1)"
  by (simp add: string_loop.simps [of "ch # s"])

lemma string_loop_close: "string_loop (apostrophe # s) out i = Some (out, i)"
  by (simp add: string_loop.simps)

lemma string_loop_special:
  "special_symbol apostrophe c = Some d \<Longrightarrow> \<not> isHexDigit c \<Longrightarrow>
   string_loop (CHR ''$'' # c # s) out i = string_loop s (out @ [d]) (i + 2)"
  by (simp add: string_loop.simps [of "CHR ''$'' # c # s"] char_at_def)

lemma string_loop_hex:
  "isHexDigit a \<Longrightarrow> isHexDigit b \<Longrightarrow>
   string_loop (CHR ''$'' # a # b # s) out i = string_loop s (out @ [char_of (nat (hex_value [a, b]))]) (i + 3)"
  by (simp add: string_loop.simps [of "CHR ''$'' # a # b # s"] char_at_def)

lemma no_hex_letters [simp]:
  "\<not> isHexDigit CHR ''$''" "\<not> isHexDigit apostrophe" "\<not> isHexDigit CHR ''l''" "\<not> isHexDigit CHR ''p''"
  "\<not> isHexDigit CHR ''r''" "\<not> isHexDigit CHR ''t''" "\<not> isHexDigit double_quote"
  by (simp_all add: isHexDigit_def isDigit_char_code isAtoFChar_def to_upper_def char_code_def)

text \<open>The three forms of an escaped character.\<close>

lemma dollarEscapeChar_cases:
  obtains (special) c where "dollarEscapeChar e_STRING ch = [CHR ''$'', c]"
      "special_symbol apostrophe c = Some ch" "\<not> isHexDigit c"
    | (hex) "dollarEscapeChar e_STRING ch = [CHR ''$'', hexChar (char_code ch div 16), hexChar (char_code ch)]"
    | (plain) "dollarEscapeChar e_STRING ch = [ch]" "ch \<noteq> CHR ''$''" "ch \<noteq> apostrophe"
proof -
  consider "ch = CHR ''$''" | "ch = apostrophe" | "ch = CHR 0x0A" | "ch = CHR 0x0C" | "ch = CHR 0x0D"
    | "ch = CHR 0x09"
    | "ch \<noteq> CHR ''$''" "ch \<noteq> apostrophe" "ch \<noteq> CHR 0x0A" "ch \<noteq> CHR 0x0C" "ch \<noteq> CHR 0x0D" "ch \<noteq> CHR 0x09"
    by blast
  then show ?thesis
  proof cases
    case 1
    then show ?thesis by (intro special [of "CHR ''$''"]) (simp_all add: dollarEscapeChar_def special_symbol_def)
  next
    case 2
    then show ?thesis by (intro special [of apostrophe]) (simp_all add: dollarEscapeChar_def special_symbol_def)
  next
    case 3
    then show ?thesis by (intro special [of "CHR ''l''"]) (simp_all add: dollarEscapeChar_def special_symbol_def)
  next
    case 4
    then show ?thesis by (intro special [of "CHR ''p''"]) (simp_all add: dollarEscapeChar_def special_symbol_def)
  next
    case 5
    then show ?thesis by (intro special [of "CHR ''r''"]) (simp_all add: dollarEscapeChar_def special_symbol_def)
  next
    case 6
    then show ?thesis by (intro special [of "CHR ''t''"]) (simp_all add: dollarEscapeChar_def special_symbol_def)
  next
    case 7
    show ?thesis
    proof (cases "isprint ch \<or> ch = double_quote")
      case True
      then show ?thesis by (intro plain) (use 7 in \<open>auto simp: dollarEscapeChar_def\<close>)
    next
      case False
      then show ?thesis by (intro hex) (use 7 in \<open>simp add: dollarEscapeChar_def\<close>)
    qed
  qed
qed

lemma hex_escape_byte: "char_of (nat (hex_value [hexChar (char_code ch div 16), hexChar (char_code ch)])) = ch"
  by (simp add: hex_value_byte char_code_less)

lemma string_loop_escaped:
  "string_loop (dollarEscapeChar e_STRING ch @ s) out i =
   string_loop s (out @ [ch]) (i + length (dollarEscapeChar e_STRING ch))"
proof (cases ch rule: dollarEscapeChar_cases)
  case (special c)
  then show ?thesis
    by (simp add: string_loop_special)
next
  case hex
  then show ?thesis
    by (simp only: append_Cons append_Nil string_loop_hex hexChar_digit simp_thms hex_escape_byte) (simp add: numeral_3_eq_3)
next
  case plain
  then show ?thesis
    by (simp add: string_loop_plain)
qed

lemma string_loop_text:
  "string_loop (concat (map (dollarEscapeChar e_STRING) v) @ apostrophe # s) out i =
   Some (out @ v, i + length (concat (map (dollarEscapeChar e_STRING) v)))"
  by (induction v arbitrary: out i) (simp_all add: string_loop_escaped string_loop_close)

lemma takeWhile_quote:
  "apostrophe \<notin> set junk \<Longrightarrow> takeWhile (\<lambda>ch. ch \<noteq> apostrophe) (drop k junk @ apostrophe # s) = drop k junk"
  by (subst takeWhile_append2) (auto dest: in_set_dropD)

lemma prefix_without_quote:
  assumes "apostrophe \<notin> set (take k (junk @ apostrophe # s))"
  shows "k \<le> length junk"
proof (rule ccontr)
  assume "\<not> k \<le> length junk"
  then obtain d where "k - length junk = Suc d"
    by (metis Suc_diff_Suc not_le)
  with assms show False
    by simp
qed

lemma STRING_start_quote:
  assumes "apostrophe \<notin> set junk"
  shows "STRING_start (junk @ apostrophe # s) = length junk + 1"
proof (cases "7 < length (junk @ apostrophe # s) \<and> take 7 (junk @ apostrophe # s) = ''STRING#''")
  case True
  then have *: "7 \<le> length junk"
    by (intro prefix_without_quote [of 7 junk s]) simp
  then have "drop 7 (junk @ apostrophe # s) = drop 7 junk @ apostrophe # s"
    by simp
  then show ?thesis
    using True * takeWhile_quote [OF assms, of 7 s] by (simp only: STRING_start_def Let_def if_True) simp
next
  case False
  then show ?thesis
    using takeWhile_quote [OF assms, of 0 s] by (simp only: STRING_start_def Let_def if_False) simp
qed

text \<open>C40: A STRING that is written as a literal and read back is the same string, whatever characters it
  has, and the number of consumed characters ends at its closing quote, whatever follows.  The reader also takes
  any text without a quote before the literal, not only the type prefix, and drops it.\<close>
theorem string_text_roundtrip:
  assumes "apostrophe \<notin> set junk"
  shows "CIEC_STRING_fromString (junk @ CIEC_STRING_toString v @ rest) =
    (int (length junk + length (CIEC_STRING_toString v)), v)"
  using STRING_start_quote [OF assms] string_loop_text [of v rest "[]"]
  by (simp add: CIEC_STRING_fromString_def CIEC_STRING_toString_def)

lemma string_text_roundtrip_witness:
  "CIEC_STRING_fromString (''INT#7 '' @ CIEC_STRING_toString [apostrophe, CHR 0x01] @ '' end'') =
    (int (length ''INT#7 '' + length (CIEC_STRING_toString [apostrophe, CHR 0x01])), [apostrophe, CHR 0x01])"
  by (rule string_text_roundtrip) simp

lemma hexChar_no_quote [simp]: "hexChar n \<noteq> apostrophe" "hexChar n \<noteq> double_quote"
  using hexChar_digit [of n] by (metis no_hex_letters(2), metis no_hex_letters(7))

lemma CHAR_start_prefix: "CHAR_start ''CHAR'' apostrophe (''CHAR#'' @ [apostrophe] @ r) = Some 6"
  by (simp add: CHAR_start_def)

lemma CIEC_CHAR_roundtrip:
  "CIEC_CHAR_fromString (CIEC_CHAR_toString c @ rest) old = Some (int (length (CIEC_CHAR_toString c)), c)"
proof (cases c rule: dollarEscapeChar_cases)
  case (special d)
  then show ?thesis
    using CHAR_start_prefix [of "CHR ''$'' # d # apostrophe # rest"]
    by (simp add: CIEC_CHAR_fromString_def CIEC_CHAR_toString_def)
next
  case hex
  then show ?thesis
    using CHAR_start_prefix [of "dollarEscapeChar e_STRING c @ apostrophe # rest"] hex_escape_byte [of c]
    by (simp add: CIEC_CHAR_fromString_def CIEC_CHAR_toString_def hexChar_digit)
next
  case plain
  then show ?thesis
    using CHAR_start_prefix [of "c # apostrophe # rest"]
    by (simp add: CIEC_CHAR_fromString_def CIEC_CHAR_toString_def)
qed

lemma of_char16_ascii: "char_code c < 128 \<Longrightarrow> of_char16 c = of_nat (char_code c)"
  by (simp add: of_char16_def scast_eq sint_uint uint_nat unat_of_nat signed_take_bit_int_eq_self)

lemma WCHAR_start_prefix: "CHAR_start ''WCHAR'' double_quote (''WCHAR#'' @ [double_quote] @ r) = Some 7"
  by (simp add: CHAR_start_def)

lemma WCHAR_special:
  assumes "special_symbol double_quote d = Some c"
  shows "CIEC_WCHAR_fromString (''WCHAR#'' @ [double_quote] @ [CHR ''$'', d] @ [double_quote] @ rest) old =
    Some (10, of_char16 c)"
  using WCHAR_start_prefix [of "[CHR ''$'', d] @ [double_quote] @ rest"] assms
  by (simp add: CIEC_WCHAR_fromString_def)

lemma WCHAR_hex:
  "CIEC_WCHAR_fromString (''WCHAR#'' @ [double_quote] @
     [CHR ''$'', hexChar (unat w div 4096), hexChar (unat w div 256), hexChar (unat w div 16), hexChar (unat w)] @
     [double_quote] @ rest) old = Some (13, w)"
proof -
  have "unat w < 65536"
    using unsigned_less [of w, where 'a = nat] by simp
  from hex_value_word [OF this] show ?thesis
    using WCHAR_start_prefix [of "[CHR ''$'', hexChar (unat w div 4096), hexChar (unat w div 256),
      hexChar (unat w div 16), hexChar (unat w)] @ [double_quote] @ rest"]
    by (simp add: CIEC_WCHAR_fromString_def hexChar_digit)
qed

lemma WCHAR_plain:
  assumes "c \<noteq> CHR ''$''" "c \<noteq> double_quote"
  shows "CIEC_WCHAR_fromString (''WCHAR#'' @ [double_quote] @ [c] @ [double_quote] @ rest) old =
    Some (9, of_char16 c)"
  using WCHAR_start_prefix [of "[c] @ [double_quote] @ rest"] assms
  by (simp add: CIEC_WCHAR_fromString_def)

lemma hex_zero: "[CHR ''$'', hexChar 0, hexChar 0, hexChar 0, hexChar 0] = ''$0000''"
  using char_of_char_code [of "CHR ''0''"] by (simp add: hexChar_def char_code_def)

lemma of_char16_special:
  "of_char16 CHR ''$'' = 0x24" "of_char16 double_quote = 0x22" "of_char16 CHR 0x0A = 0x0A"
  "of_char16 CHR 0x0C = 0x0C" "of_char16 CHR 0x0D = 0x0D" "of_char16 CHR 0x09 = 0x09"
  by (simp_all add: of_char16_ascii char_code_def)

lemma CIEC_WCHAR_roundtrip:
  "CIEC_WCHAR_fromString (CIEC_WCHAR_toString w @ rest) old = Some (int (length (CIEC_WCHAR_toString w)), w)"
proof -
  let ?plain = "w < 256 \<and> isprint (char_of (unat w))"
  consider "w = 0" | "w = 0x24" | "w = 0x22" | "w = 0x0A" | "w = 0x0C" | "w = 0x0D" | "w = 0x09"
    | "w \<notin> {0, 0x24, 0x22, 0x0A, 0x0C, 0x0D, 0x09}" ?plain | "w \<notin> {0, 0x24, 0x22, 0x0A, 0x0C, 0x0D, 0x09}" "\<not> ?plain"
    by blast
  then show ?thesis
  proof cases
    case 1
    then show ?thesis
      using WCHAR_hex [of 0 rest old] hex_zero by (simp add: CIEC_WCHAR_toString_def)
  next
    case 2
    then show ?thesis
      using WCHAR_special [of "CHR ''$''" "CHR ''$''" rest old]
      by (simp add: CIEC_WCHAR_toString_def of_char16_special special_symbol_def)
  next
    case 3
    then show ?thesis
      using WCHAR_special [of double_quote double_quote rest old]
      by (simp add: CIEC_WCHAR_toString_def of_char16_special special_symbol_def)
  next
    case 4
    then show ?thesis
      using WCHAR_special [of "CHR ''l''" "CHR 0x0A" rest old]
      by (simp add: CIEC_WCHAR_toString_def of_char16_special special_symbol_def)
  next
    case 5
    then show ?thesis
      using WCHAR_special [of "CHR ''p''" "CHR 0x0C" rest old]
      by (simp add: CIEC_WCHAR_toString_def of_char16_special special_symbol_def)
  next
    case 6
    then show ?thesis
      using WCHAR_special [of "CHR ''r''" "CHR 0x0D" rest old]
      by (simp add: CIEC_WCHAR_toString_def of_char16_special special_symbol_def)
  next
    case 7
    then show ?thesis
      using WCHAR_special [of "CHR ''t''" "CHR 0x09" rest old]
      by (simp add: CIEC_WCHAR_toString_def of_char16_special special_symbol_def)
  next
    case 8
    then have *: "unat w < 256"
      by (simp add: word_less_nat_alt)
    with 8 have w: "of_char16 (char_of (unat w)) = w"
      by (simp add: of_char16_ascii isprint_def)
    with 8 have "char_of (unat w) \<noteq> CHR ''$''" "char_of (unat w) \<noteq> double_quote"
      using of_char16_special by auto
    from WCHAR_plain [OF this, of rest old] 8 w show ?thesis
      by (simp add: CIEC_WCHAR_toString_def of_char16_special)
  next
    case 9
    then show ?thesis
      using WCHAR_hex [of w rest old]
      by (cases "w < 256") (simp_all add: CIEC_WCHAR_toString_def of_char16_special)
  qed
qed

text \<open>Every CHAR and every WCHAR, whether it is printed as itself, by one of the named escapes or by its
  hexadecimal code, is read back from its literal, and the reader consumes the literal and nothing of what
  follows.\<close>
theorem character_text_roundtrip:
  "CIEC_CHAR_fromString (CIEC_CHAR_toString c @ rest) old = Some (int (length (CIEC_CHAR_toString c)), c) \<and>
   CIEC_WCHAR_fromString (CIEC_WCHAR_toString w @ rest) wold = Some (int (length (CIEC_WCHAR_toString w)), w)"
  by (rule conjI [OF CIEC_CHAR_roundtrip CIEC_WCHAR_roundtrip])

section \<open>Unfinished literals\<close>

lemma CHAR_start_cases:
  assumes "CHAR_start t q s = Some b" "q \<noteq> CHR 0x00"
  shows "s = t @ [CHR ''#'', q] @ drop b s \<or> s = q # drop b s"
proof (cases "take (length t + 2) s = t @ [CHR ''#'', q]")
  case True
  with assms have "b = length t + 2"
    by (simp add: CHAR_start_def)
  then show ?thesis
    using True append_take_drop_id [of "length t + 2" s] by simp
next
  case False
  with assms have "char_at s 0 = q" "b = 1"
    by (simp_all add: CHAR_start_def split: if_splits)
  then show ?thesis
    using assms(2) by (cases s) simp_all
qed

lemma CHAR_read_past_end:
  "CIEC_CHAR_fromString s old = None \<longleftrightarrow>
   s \<in> {[apostrophe], ''CHAR#'' @ [apostrophe], [apostrophe, CHR ''$''], ''CHAR#'' @ [apostrophe, CHR ''$'']}"
proof
  assume none: "CIEC_CHAR_fromString s old = None"
  then obtain b where b: "CHAR_start ''CHAR'' apostrophe s = Some b"
    by (cases "CHAR_start ''CHAR'' apostrophe s") (simp_all add: CIEC_CHAR_fromString_def)
  with none have "drop b s = [] \<or> char_at (drop b s) 0 = CHR ''$'' \<and> length (drop b s) = 1"
    by (simp add: CIEC_CHAR_fromString_def Let_def split: if_splits option.splits)
  then have "drop b s = [] \<or> drop b s = ''$''"
    by (cases "drop b s") simp_all
  then show "s \<in> {[apostrophe], ''CHAR#'' @ [apostrophe], [apostrophe, CHR ''$''], ''CHAR#'' @ [apostrophe, CHR ''$'']}"
    using CHAR_start_cases [OF b] by auto
next
  assume "s \<in> {[apostrophe], ''CHAR#'' @ [apostrophe], [apostrophe, CHR ''$''], ''CHAR#'' @ [apostrophe, CHR ''$'']}"
  then show "CIEC_CHAR_fromString s old = None"
    by (auto simp: CIEC_CHAR_fromString_def CHAR_start_def)
qed

lemma WCHAR_read_past_end:
  "CIEC_WCHAR_fromString s old = None \<longleftrightarrow>
   s \<in> {[double_quote], ''WCHAR#'' @ [double_quote], [double_quote, CHR ''$''], ''WCHAR#'' @ [double_quote, CHR ''$'']}"
proof
  assume none: "CIEC_WCHAR_fromString s old = None"
  then obtain b where b: "CHAR_start ''WCHAR'' double_quote s = Some b"
    by (cases "CHAR_start ''WCHAR'' double_quote s") (simp_all add: CIEC_WCHAR_fromString_def)
  with none have "drop b s = [] \<or> char_at (drop b s) 0 = CHR ''$'' \<and> length (drop b s) = 1"
    by (simp add: CIEC_WCHAR_fromString_def Let_def split: if_splits option.splits)
  then have "drop b s = [] \<or> drop b s = ''$''"
    by (cases "drop b s") simp_all
  then show "s \<in> {[double_quote], ''WCHAR#'' @ [double_quote], [double_quote, CHR ''$''],
      ''WCHAR#'' @ [double_quote, CHR ''$'']}"
    using CHAR_start_cases [OF b] by auto
next
  assume "s \<in> {[double_quote], ''WCHAR#'' @ [double_quote], [double_quote, CHR ''$''],
      ''WCHAR#'' @ [double_quote, CHR ''$'']}"
  then show "CIEC_WCHAR_fromString s old = None"
    by (auto simp: CIEC_WCHAR_fromString_def CHAR_start_def)
qed

text \<open>The readers of CHAR and WCHAR look at the character behind the terminating zero of their text
  for exactly four texts each: an opening quote with nothing behind it, and one with only a dollar behind it, with
  and without the type name.  For every other text they stay inside.\<close>
theorem unfinished_character_read_past_end:
  "(CIEC_CHAR_fromString s old = None \<longleftrightarrow>
    s \<in> {[apostrophe], ''CHAR#'' @ [apostrophe], [apostrophe, CHR ''$''], ''CHAR#'' @ [apostrophe, CHR ''$'']}) \<and>
   (CIEC_WCHAR_fromString s wold = None \<longleftrightarrow>
    s \<in> {[double_quote], ''WCHAR#'' @ [double_quote], [double_quote, CHR ''$''],
      ''WCHAR#'' @ [double_quote, CHR ''$'']})"
  by (rule conjI [OF CHAR_read_past_end WCHAR_read_past_end])

end
