(* ===== verification/Time_Text.thy ===== *)
theory Time_Text
imports Value_Text
begin

text \<open>
  The text of durations: \<open>core/src/datatypes/forte_time.cpp\<close> and \<open>forte_ltime.cpp\<close>, whose loops differ
  only in the characters that end a literal, and \<open>forte_any_duration.cpp\<close>.  A duration is a signed
  64-bit number of nanoseconds; sums and products wrap, where the code relies on it.
  \<open>std::to_string\<close> is the decimal text.
\<close>

section \<open>Printing\<close>

fun decimal :: "nat \<Rightarrow> string" where
  "decimal n = (if n < 10 then [digit_char n] else decimal (n div 10) @ [digit_char (n mod 10)])"

declare decimal.simps [simp del]

definition timeElementsToString :: "nat \<Rightarrow> string \<Rightarrow> string" where
  "timeElementsToString n u = (if n \<noteq> 0 then decimal n @ u else [])"

text \<open>The parts of the absolute value, each with its unit.\<close>

definition time_parts :: "nat \<Rightarrow> (nat \<times> string) list" where
  "time_parts v =
     [(v div 86400000000000, ''d''), (v div 3600000000000 mod 24, ''h''),
      (v div 60000000000 mod 60, ''m''), (v div 1000000000 mod 60, ''s''),
      (v div 1000000 mod 1000, ''ms''), (v div 1000 mod 1000, ''us''), (v mod 1000, ''ns'')]"

definition duration_toString :: "string \<Rightarrow> cell \<Rightarrow> string" where
  "duration_toString prefix c =
     (if sint c = - (2 ^ 63) then prefix @ ''#-106751d23h47m16s854ms775us808ns''
      else if c = 0 then prefix @ ''#0ns''
      else prefix @ ''#'' @ (if sint c < 0 then ''-'' else []) @
        concat (map (\<lambda>(n, u). timeElementsToString n u) (time_parts (nat \<bar>sint c\<bar>))))"

definition CIEC_TIME_toString :: "cell \<Rightarrow> string" where
  "CIEC_TIME_toString = duration_toString ''T''"

definition CIEC_LTIME_toString :: "cell \<Rightarrow> string" where
  "CIEC_LTIME_toString = duration_toString ''LT''"

section \<open>Parsing\<close>

definition to_lower :: "char \<Rightarrow> char" where
  "to_lower ch = (if 65 \<le> char_code ch \<and> char_code ch \<le> 90 then char_of (char_code ch + 32) else ch)"

text \<open>The switch on the character behind the number: the factor and the last character of the unit,
  an error, or no unit.\<close>

datatype unit_result = Time_Unit cell string | Unit_Error | No_Unit

definition time_unit :: "cell \<Rightarrow> string \<Rightarrow> unit_result" where
  "time_unit factor pcEnd =
     (let ch = to_lower (char_at pcEnd 0); s = (to_lower (char_at pcEnd 1) = CHR ''s'')
      in if ch = CHR ''d'' then Time_Unit (24 * 60 * 60 * 1000000000) pcEnd
         else if ch = CHR ''h'' then Time_Unit (60 * 60 * 1000000000) pcEnd
         else if ch = CHR ''m''
         then if s then Time_Unit 1000000 (tl pcEnd) else Time_Unit (60 * 1000000000) pcEnd
         else if ch = CHR ''n'' then if s then Time_Unit 1 (tl pcEnd) else Unit_Error
         else if ch = CHR ''s'' then Time_Unit 1000000000 pcEnd
         else if ch = CHR ''u'' then if s then Time_Unit 1000 (tl pcEnd) else Unit_Error
         else if ch = CHR ''_'' then Time_Unit factor pcEnd
         else No_Unit)"

lemma strtol_length: "strtol base s = (v, rest, e) \<Longrightarrow> length rest \<le> length s"
  by (auto simp: strtol_def strto_signed_def Let_def split: prod.splits if_splits dest!: strto_loop_length)

lemma time_unit_length: "time_unit f s = Time_Unit g e \<Longrightarrow> length (tl e) < length s"
  by (cases s; cases "tl s") (auto simp: time_unit_def char_at_def to_lower_def char_code_def Let_def split: if_splits)

text \<open>The loop; \<open>stops\<close> are the characters that end a literal besides the terminating zero.  \<open>None\<close> is
  the return value -1, otherwise the length and the value.\<close>

function time_loop :: "(char \<Rightarrow> bool) \<Rightarrow> cell \<Rightarrow> string \<Rightarrow> int \<Rightarrow> cell \<Rightarrow> cell \<Rightarrow> (int \<times> cell) option" where
  "time_loop stops sign paValue nRetVal factor nIntVal =
     (case strtol 10 paValue of (nBuf, pcEnd, erange) \<Rightarrow>
        (case time_unit factor pcEnd of
           Unit_Error \<Rightarrow> None
         | No_Unit \<Rightarrow>
             (if length pcEnd \<noteq> length paValue \<or> nIntVal = 0 then None
              else Some (nRetVal, nIntVal + word_of_int nBuf * factor * sign))
         | Time_Unit f e \<Rightarrow>
             let n = nRetVal + (int (length paValue) - int (length e)) + 1;
                 v = nIntVal + word_of_int nBuf * f * sign
             in if tl e \<noteq> [] \<and> \<not> stops (hd (tl e)) then time_loop stops sign (tl e) n f v
                else Some (n, v)))"
  by pat_completeness auto

termination
  by (relation "measure (\<lambda>(stops, sign, s, n, f, v). length s)")
    (auto dest!: strtol_length [OF sym] time_unit_length)

declare time_loop.simps [simp del]

text \<open>The text behind the letters of the type, of which \<open>n\<close> have been read.\<close>

definition duration_literal :: "(char \<Rightarrow> bool) \<Rightarrow> int \<Rightarrow> string \<Rightarrow> (int \<times> cell) option" where
  "duration_literal stops n s =
     (let ime = (map to_lower (take 3 s) = ''ime''); s = (if ime then drop 3 s else s);
          n = (if ime then n + 3 else n)
      in if char_at s 0 = CHR ''#''
         then let s = tl s; signed = (char_at s 0 = CHR ''+'' \<or> char_at s 0 = CHR ''-'')
              in time_loop stops (if char_at s 0 = CHR ''-'' then -1 else 1)
                   (if signed then tl s else s) (n + 1 + (if signed then 1 else 0)) 1 0
         else None)"

definition plain_duration :: "string \<Rightarrow> (int \<times> cell) option" where
  "plain_duration s = (case strtol 10 s of (v, rest, erange) \<Rightarrow> Some (int (length s) - int (length rest), word_of_int v))"

definition parsed_duration :: "cell \<Rightarrow> (int \<times> cell) option \<Rightarrow> int \<times> cell" where
  "parsed_duration old r = (case r of None \<Rightarrow> (-1, old) | Some x \<Rightarrow> x)"

definition CIEC_TIME_fromString :: "string \<Rightarrow> cell \<Rightarrow> int \<times> cell" where
  "CIEC_TIME_fromString s c = parsed_duration c
     (if to_lower (char_at s 0) = CHR ''t''
      then duration_literal (\<lambda>ch. ch = CHR '','' \<or> ch = CHR '')'') 1 (tl s) else plain_duration s)"

definition CIEC_LTIME_fromString :: "string \<Rightarrow> cell \<Rightarrow> int \<times> cell" where
  "CIEC_LTIME_fromString s c = parsed_duration c
     (if to_lower (char_at s 0) = CHR ''l'' \<and> to_lower (char_at s 1) = CHR ''t''
      then duration_literal (\<lambda>ch. False) 2 (drop 2 s) else plain_duration s)"

section \<open>Printed durations are parsed back\<close>

lemma decimal_spec:
  "(\<forall>ch\<in>set (decimal n). isDigit ch) \<and> decimal n \<noteq> [] \<and> digits_value 0 (decimal n) = int n"
proof (induction n rule: decimal.induct)
  case (1 n)
  have "10 * int (n div 10) + int (n mod 10) = int n"
    by (metis div_mult_mod_eq mult.commute of_nat_add of_nat_mult of_nat_numeral)
  then show ?case
    using 1 by (subst (1 2 3) decimal.simps) simp
qed

lemma signed_limits_31: "signed_limits (- 2147483648) 2147483647 10 False = (214748364, 7)"
  by (simp add: signed_limits_def signed_divide_int_def signed_modulo_int_def)

lemma strtol_decimal:
  assumes "n < 2 ^ 31" "rest \<noteq> [] \<Longrightarrow> \<not> isDigit (hd rest)"
  shows "strtol 10 (decimal n @ rest) = (int n, rest, False)"
proof -
  obtain d ds where d: "decimal n = d # ds" "isDigit d"
    using decimal_spec [of n] by (cases "decimal n") auto
  then have "d \<noteq> CHR ''-''"
    by auto
  then show ?thesis
    using d decimal_spec [of n] assms strto_loop_digits [of "decimal n" 0 214748364 7 rest]
    by (simp add: strtol_def strto_signed_def char_at_def skip_0x_def signed_limits_31 Let_def del: strto_loop.simps)
qed

lemma strtol_none:
  assumes "s \<noteq> [] \<Longrightarrow> \<not> isDigit (hd s) \<and> hd s \<noteq> CHR ''-''"
  shows "strtol 10 s = (0, s, False)"
  using assms
  by (cases s) (simp_all add: strtol_def strto_signed_def char_at_def skip_0x_def signed_limits_31 Let_def)

text \<open>The factor of a printed unit.\<close>

definition unit_factors :: "(string \<times> nat) list" where
  "unit_factors =
     [(''d'', 86400000000000), (''h'', 3600000000000), (''m'', 60000000000), (''s'', 1000000000),
      (''ms'', 1000000), (''us'', 1000), (''ns'', 1)]"

lemma to_lower_units [simp]:
  "to_lower CHR ''d'' = CHR ''d''" "to_lower CHR ''h'' = CHR ''h''" "to_lower CHR ''m'' = CHR ''m''"
  "to_lower CHR ''s'' = CHR ''s''" "to_lower CHR ''u'' = CHR ''u''" "to_lower CHR ''n'' = CHR ''n''"
  by (simp_all add: to_lower_def char_code_def)

lemma time_unit_printed:
  assumes "(u, f) \<in> set unit_factors" "to_lower (char_at rest 0) \<noteq> CHR ''s''"
  shows "time_unit g (u @ rest) = Time_Unit (of_nat f) (last u # rest)"
  using assms by (auto simp: unit_factors_def time_unit_def Let_def)

lemma time_loop_part:
  assumes "(u, f) \<in> set unit_factors" "n < 2 ^ 31" "to_lower (char_at rest 0) \<noteq> CHR ''s''"
  shows "time_loop stops sign (decimal n @ u @ rest) k g acc =
    (let k = k + int (length (decimal n @ u)); v = acc + of_nat (n * f) * sign
     in if rest \<noteq> [] \<and> \<not> stops (hd rest) then time_loop stops sign rest k (of_nat f) v else Some (k, v))"
proof -
  have "u \<noteq> []" "\<not> isDigit (hd u)"
    using assms(1) by (auto simp: unit_factors_def isDigit_def)
  then have "strtol 10 (decimal n @ u @ rest) = (int n, u @ rest, False)"
    using strtol_decimal [OF assms(2), of "u @ rest"] by simp
  moreover note time_unit_printed [OF assms(1,3), of g]
  ultimately show ?thesis
    by (subst time_loop.simps) (simp add: Let_def algebra_simps)
qed

abbreviation printed_parts :: "(nat \<times> string) list \<Rightarrow> string" where
  "printed_parts es \<equiv> concat (map (\<lambda>(n, u). timeElementsToString n u) es)"

definition parts_total :: "(nat \<times> string) list \<Rightarrow> nat" where
  "parts_total es = sum_list (map (\<lambda>(n, u). n * the (map_of unit_factors u)) es)"

definition good_parts :: "(nat \<times> string) list \<Rightarrow> bool" where
  "good_parts es \<longleftrightarrow> (\<forall>(n, u)\<in>set es. n < 2 ^ 31 \<and> (\<exists>f. map_of unit_factors u = Some f))"

lemma printed_parts_digit: "printed_parts es \<noteq> [] \<Longrightarrow> isDigit (hd (printed_parts es @ rest))"
proof (induction es)
  case (Cons e es)
  obtain n u where e: "e = (n, u)"
    by fastforce
  obtain d ds where "decimal n = d # ds" "isDigit d"
    using decimal_spec [of n] by (cases "decimal n") auto
  then show ?case
    using Cons e by (auto simp: timeElementsToString_def)
qed simp

lemma parts_total_empty: "good_parts es \<Longrightarrow> printed_parts es = [] \<Longrightarrow> parts_total es = 0"
  using decimal_spec
  by (induction es) (auto simp: good_parts_def parts_total_def timeElementsToString_def split: if_splits)

lemma to_lower_digit: "isDigit ch \<Longrightarrow> to_lower ch \<noteq> CHR ''s''"
  by (auto simp: isDigit_char_code to_lower_def) (simp add: char_code_def)

lemma time_loop_parts:
  assumes "good_parts es" "printed_parts es \<noteq> []" "to_lower (char_at rest 0) \<noteq> CHR ''s''"
    and "\<And>ch. stops ch \<Longrightarrow> \<not> isDigit ch"
  shows "\<exists>f. time_loop stops sign (printed_parts es @ rest) k g acc =
    (let k = k + int (length (printed_parts es)); v = acc + of_nat (parts_total es) * sign
     in if rest \<noteq> [] \<and> \<not> stops (hd rest) then time_loop stops sign rest k f v else Some (k, v))"
  using assms(1,2)
proof (induction es arbitrary: k g acc)
  case (Cons e es)
  obtain n u where e: "e = (n, u)"
    by fastforce
  then obtain f where f: "n < 2 ^ 31" "map_of unit_factors u = Some f" "good_parts es"
    using Cons.prems(1) by (auto simp: good_parts_def)
  have total: "parts_total (e # es) = n * f + parts_total es"
    using e f(2) by (simp add: parts_total_def)
  show ?case
  proof (cases "n = 0")
    case True
    then show ?thesis
      using Cons.IH [of k g acc] Cons.prems(2) e f(3) total by (simp add: timeElementsToString_def)
  next
    case False
    let ?rest = "printed_parts es @ rest"
    have part: "time_loop stops sign (decimal n @ u @ ?rest) k g acc =
        (let k = k + int (length (decimal n @ u)); v = acc + of_nat (n * f) * sign
         in if ?rest \<noteq> [] \<and> \<not> stops (hd ?rest) then time_loop stops sign ?rest k (of_nat f) v else Some (k, v))"
    proof (rule time_loop_part [OF map_of_SomeD [OF f(2)] f(1)])
      show "to_lower (char_at ?rest 0) \<noteq> CHR ''s''"
      proof (cases "printed_parts es = []")
        case True
        show ?thesis
          unfolding True append_Nil by (rule assms(3))
      next
        case False
        then show ?thesis
          using to_lower_digit [OF printed_parts_digit [OF False, of rest]]
          by (simp add: char_at_def hd_conv_nth del: hd_append)
      qed
    qed
    have print: "printed_parts (e # es) = decimal n @ u @ printed_parts es"
      using e False by (simp add: timeElementsToString_def)
    show ?thesis
    proof (cases "printed_parts es = []")
      case True
      have "parts_total (e # es) = n * f"
        using total parts_total_empty [OF f(3) True] by simp
      then show ?thesis
        using part unfolding print True append_Nil append_Nil2 append.assoc by (auto simp: Let_def)
    next
      case False
      then have "\<not> stops (hd ?rest)"
        using assms(4) printed_parts_digit [OF False, of rest] by blast
      then show ?thesis
        using part print total False Cons.IH [OF f(3) False, of "k + int (length (decimal n @ u))" "of_nat f" "acc + of_nat (n * f) * sign"]
        by (simp add: Let_def algebra_simps)
    qed
  qed
qed simp

lemma time_parts_total: "parts_total (time_parts v) = v"
proof -
  define b where "b = v div 1000"
  define c where "c = b div 1000"
  define d where "d = c div 1000"
  define e where "e = d div 60"
  define f where "f = e div 60"
  define g where "g = f div 24"
  have "v div 1000000 = c" "v div 1000000000 = d" "v div 60000000000 = e" "v div 3600000000000 = f"
      "v div 86400000000000 = g"
    by (simp_all add: b_def c_def d_def e_def f_def g_def flip: div_mult2_eq)
  moreover have "v = b * 1000 + v mod 1000" "b = c * 1000 + b mod 1000" "c = d * 1000 + c mod 1000"
      "d = e * 60 + d mod 60" "e = f * 60 + e mod 60" "f = g * 24 + f mod 24"
    by (simp_all add: b_def c_def d_def e_def f_def g_def)
  ultimately show ?thesis
    unfolding parts_total_def time_parts_def unit_factors_def b_def [symmetric] by simp
qed

lemma time_parts_good: "v \<le> 2 ^ 63 \<Longrightarrow> good_parts (time_parts v)"
proof -
  assume "v \<le> 2 ^ 63"
  then have "v div 86400000000000 \<le> 2 ^ 63 div 86400000000000"
    by (rule div_le_mono)
  moreover have "x mod 24 < 2 ^ 31" "x mod 60 < 2 ^ 31" "x mod 1000 < 2 ^ 31" for x :: nat
    by (rule less_trans [OF mod_less_divisor]; simp)+
  ultimately show ?thesis
    by (simp add: good_parts_def time_parts_def unit_factors_def)
qed

lemma time_parts_print: "0 < v \<Longrightarrow> v \<le> 2 ^ 63 \<Longrightarrow> printed_parts (time_parts v) \<noteq> []"
  using parts_total_empty [OF time_parts_good] time_parts_total [of v] by fastforce

text \<open>What may follow a duration: the end of the text, a character that ends it, or, unless it is zero,
  any character that starts neither a number nor a unit.\<close>

definition ends_duration :: "(char \<Rightarrow> bool) \<Rightarrow> cell \<Rightarrow> string \<Rightarrow> bool" where
  "ends_duration stops c rest \<longleftrightarrow> to_lower (char_at rest 0) \<noteq> CHR ''s'' \<and>
     (rest = [] \<or> stops (hd rest) \<or>
      c \<noteq> 0 \<and> \<not> isDigit (hd rest) \<and> hd rest \<noteq> CHR ''-'' \<and> to_lower (hd rest) \<notin> set ''dhmnsu_'')"

lemma time_loop_end:
  assumes "ends_duration stops c rest" "rest \<noteq> []" "\<not> stops (hd rest)"
  shows "time_loop stops sign rest k f c = Some (k, c)"
proof -
  have "strtol 10 rest = (0, rest, False)"
    using assms by (intro strtol_none) (simp add: ends_duration_def)
  moreover have "char_at rest 0 = hd rest"
    using assms(2) by (cases rest) simp_all
  then have "time_unit f rest = No_Unit"
    using assms by (simp add: ends_duration_def time_unit_def Let_def)
  ultimately show ?thesis
    using assms by (subst time_loop.simps) (simp add: ends_duration_def)
qed

lemma duration_roundtrip:
  assumes "good_parts es" "printed_parts es \<noteq> []" "\<And>ch. stops ch \<Longrightarrow> \<not> isDigit ch"
    and "of_nat (parts_total es) * (if neg then -1 else 1) = c" "ends_duration stops c rest"
  shows "duration_literal stops k (''#'' @ (if neg then ''-'' else []) @ printed_parts es @ rest) =
    Some (k + int (length (''#'' @ (if neg then ''-'' else []) @ printed_parts es)), c)"
proof -
  let ?s = "printed_parts es @ rest"
  have digit: "isDigit (char_at ?s 0)"
    using printed_parts_digit [OF assms(2), of rest] assms(2) by (cases ?s) simp_all
  then have plus: "char_at ?s 0 \<noteq> CHR ''+''" "char_at ?s 0 \<noteq> CHR ''-''"
    by (auto simp: isDigit_def)
  have "\<exists>f. time_loop stops (if neg then -1 else 1) ?s n 1 0 =
      (if rest \<noteq> [] \<and> \<not> stops (hd rest)
       then time_loop stops (if neg then -1 else 1) rest (n + int (length (printed_parts es))) f c
       else Some (n + int (length (printed_parts es)), c))" for n
    using time_loop_parts [OF assms(1,2) _ assms(3), of rest stops "if neg then -1 else 1" n 1 0] assms(4,5)
    by (simp add: ends_duration_def Let_def)
  then have loop: "time_loop stops (if neg then -1 else 1) ?s n 1 0 = Some (n + int (length (printed_parts es)), c)" for n
    using time_loop_end [OF assms(5)] by (metis (lifting))
  have "to_lower CHR ''#'' = CHR ''#''"
    by (simp add: to_lower_def char_code_def)
  then show ?thesis
    using plus loop [of "k + 1"] loop [of "2 + k"]
    by (cases neg) (simp_all add: duration_literal_def Let_def del: map_concat)
qed

lemma min_duration_parts: "printed_parts (time_parts (2 ^ 63)) = ''106751d23h47m16s854ms775us808ns''"
  by (simp add: time_parts_def timeElementsToString_def decimal.simps digit_char_def char_of_eq_iff)

lemma zero_duration:
  assumes "ends_duration stops 0 rest"
  shows "duration_literal stops k (''#0ns'' @ rest) = Some (k + 4, 0)"
proof -
  have zero: "decimal 0 = ''0''"
    by (simp add: decimal.simps digit_char_def char_of_eq_iff)
  have low: "to_lower CHR ''#'' = CHR ''#''"
    by (simp add: to_lower_def char_code_def)
  have "rest \<noteq> [] \<Longrightarrow> stops (hd rest)" "to_lower (char_at rest 0) \<noteq> CHR ''s''"
    using assms by (auto simp: ends_duration_def)
  moreover have "(''ns'', 1) \<in> set unit_factors"
    by (simp add: unit_factors_def)
  ultimately have "time_loop stops 1 (''0ns'' @ rest) n 1 0 = Some (n + 3, 0)" for n
    using time_loop_part [of "''ns''" 1 0 rest stops 1 n 1 0] unfolding zero by (auto simp: Let_def)
  then show ?thesis
    using low by (simp add: duration_literal_def Let_def)
qed

lemma printed_duration_shape:
  assumes "c \<noteq> 0"
  shows "duration_toString prefix c =
    prefix @ ''#'' @ (if sint c < 0 then ''-'' else []) @ printed_parts (time_parts (nat \<bar>sint c\<bar>))"
proof (cases "sint c = - (2 ^ 63)")
  case True
  then have "nat \<bar>sint c\<bar> = 2 ^ 63"
    by simp
  then show ?thesis
    using True min_duration_parts by (simp add: duration_toString_def)
next
  case False
  then show ?thesis
    using assms by (simp add: duration_toString_def)
qed

lemma abs_sint_times_sign: "(of_nat (nat \<bar>sint (c::cell)\<bar>) :: cell) * (if sint c < 0 then -1 else 1) = c"
proof -
  have "(of_nat (nat \<bar>sint c\<bar>) :: cell) = of_int (int (nat \<bar>sint c\<bar>))"
    by (rule of_int_of_nat_eq [symmetric])
  then have "(of_nat (nat \<bar>sint c\<bar>) :: cell) = of_int \<bar>sint c\<bar>"
    by simp
  then show ?thesis
    by (cases "sint c < 0") simp_all
qed

lemma abs_sint_bounds:
  assumes "(c::cell) \<noteq> 0"
  shows "0 < nat \<bar>sint c\<bar>" "nat \<bar>sint c\<bar> \<le> 2 ^ 63"
proof -
  have "sint c \<noteq> 0"
    using assms by (intro notI) (drule arg_cong [where f = "word_of_int :: int \<Rightarrow> cell"], simp)
  then show "0 < nat \<bar>sint c\<bar>"
    by simp
  show "nat \<bar>sint c\<bar> \<le> 2 ^ 63"
    using sint_bounds [of c] by (simp add: nat_le_iff abs_le_iff)
qed

lemma duration_literal_print:
  assumes "\<And>ch. stops ch \<Longrightarrow> \<not> isDigit ch" "ends_duration stops c rest"
  obtains s where "duration_toString prefix c = prefix @ s" "hd s = CHR ''#''" "s \<noteq> []"
    "duration_literal stops k (s @ rest) = Some (k + int (length s), c)"
proof (cases "c = 0")
  case True
  then show ?thesis
    using zero_duration [of stops rest k] assms(2) that [of "''#0ns''"] by (simp add: duration_toString_def)
next
  case False
  let ?v = "nat \<bar>sint c\<bar>" let ?neg = "sint c < 0"
  note v = abs_sint_bounds [OF False]
  have "of_nat (parts_total (time_parts ?v)) * (if ?neg then -1 else 1) = c"
    by (simp only: time_parts_total abs_sint_times_sign)
  note this assms(2)
  from duration_roundtrip [OF time_parts_good [OF v(2)] time_parts_print [OF v] assms(1) this, where k = k]
  have "duration_literal stops k ((''#'' @ (if ?neg then ''-'' else []) @ printed_parts (time_parts ?v)) @ rest) =
      Some (k + int (length (''#'' @ (if ?neg then ''-'' else []) @ printed_parts (time_parts ?v))), c)"
    by (simp only: append.assoc)
  then show ?thesis
    by (intro that [OF printed_duration_shape [OF False]]) simp_all
qed

lemma TIME_roundtrip:
  assumes "ends_duration (\<lambda>ch. ch = CHR '','' \<or> ch = CHR '')'') c rest"
  shows "CIEC_TIME_fromString (CIEC_TIME_toString c @ rest) old = (int (length (CIEC_TIME_toString c)), c)"
proof -
  obtain s where s: "duration_toString ''T'' c = ''T'' @ s"
      "duration_literal (\<lambda>ch. ch = CHR '','' \<or> ch = CHR '')'') 1 (s @ rest) = Some (1 + int (length s), c)"
    by (rule duration_literal_print [OF _ assms, of "''T''" 1]) (auto simp: isDigit_def)
  have "to_lower CHR ''T'' = CHR ''t''"
    by (simp add: to_lower_def char_code_def char_of_eq_iff)
  then show ?thesis
    using s by (simp add: CIEC_TIME_toString_def CIEC_TIME_fromString_def parsed_duration_def)
qed

lemma LTIME_roundtrip:
  assumes "ends_duration (\<lambda>ch. False) c rest"
  shows "CIEC_LTIME_fromString (CIEC_LTIME_toString c @ rest) old = (int (length (CIEC_LTIME_toString c)), c)"
proof -
  obtain s where s: "duration_toString ''LT'' c = ''LT'' @ s"
      "duration_literal (\<lambda>ch. False) 2 (s @ rest) = Some (2 + int (length s), c)"
    by (rule duration_literal_print [OF _ assms, of "''LT''" 2]) auto
  have "to_lower CHR ''T'' = CHR ''t''" "to_lower CHR ''L'' = CHR ''l''"
    by (simp_all add: to_lower_def char_code_def char_of_eq_iff)
  then show ?thesis
    using s by (simp add: CIEC_LTIME_toString_def CIEC_LTIME_fromString_def parsed_duration_def)
qed

section \<open>Properties\<close>

text \<open>The text of any duration is parsed back to the same duration, the least one included; what
  follows it must end it, and a zero duration is only ended by the end of the text or, for TIME, a
  comma or a closing parenthesis.\<close>

theorem duration_text_roundtrip:
  "(ends_duration (\<lambda>ch. ch = CHR '','' \<or> ch = CHR '')'') c rest \<longrightarrow>
      CIEC_TIME_fromString (CIEC_TIME_toString c @ rest) old = (int (length (CIEC_TIME_toString c)), c)) \<and>
   (ends_duration (\<lambda>ch. False) c rest \<longrightarrow>
      CIEC_LTIME_fromString (CIEC_LTIME_toString c @ rest) old = (int (length (CIEC_LTIME_toString c)), c))"
  using TIME_roundtrip LTIME_roundtrip by blast

theorem duration_text_roundtrip_witness:
  "CIEC_TIME_fromString (CIEC_TIME_toString (word_of_int (- (2 ^ 63))) @ '',T#1s]'') 0 =
     (int (length (CIEC_TIME_toString (word_of_int (- (2 ^ 63))))), word_of_int (- (2 ^ 63))) \<and>
   CIEC_LTIME_fromString (CIEC_LTIME_toString 90000000001 @ '')'') 0 =
     (int (length (CIEC_LTIME_toString 90000000001)), 90000000001)"
proof
  have "ends_duration (\<lambda>ch. ch = CHR '','' \<or> ch = CHR '')'') (word_of_int (- (2 ^ 63))) '',T#1s]''"
    by (simp add: ends_duration_def to_lower_def char_code_def)
  then show "CIEC_TIME_fromString (CIEC_TIME_toString (word_of_int (- (2 ^ 63))) @ '',T#1s]'') 0 =
     (int (length (CIEC_TIME_toString (word_of_int (- (2 ^ 63))))), word_of_int (- (2 ^ 63)))"
    by (rule mp [OF conjunct1 [OF duration_text_roundtrip]])
  have "ends_duration (\<lambda>ch. False) 90000000001 '')''"
    by (simp add: ends_duration_def to_lower_def char_code_def isDigit_def)
  then show "CIEC_LTIME_fromString (CIEC_LTIME_toString 90000000001 @ '')'') 0 =
     (int (length (CIEC_LTIME_toString 90000000001)), 90000000001)"
    by (rule mp [OF conjunct2 [OF duration_text_roundtrip]])
qed

text \<open>The text of a zero duration is refused where an array has printed it: before the closing
  bracket, and for LTIME also before a comma or a closing parenthesis.\<close>

theorem zero_duration_refused:
  "CIEC_TIME_fromString (CIEC_TIME_toString 0 @ '']'' @ rest) old = (-1, old) \<and>
   (\<forall>ch\<in>set '',)]''. CIEC_LTIME_fromString (CIEC_LTIME_toString 0 @ ch # rest) old = (-1, old))"
proof -
  have zero: "decimal 0 = ''0''"
    by (simp add: decimal.simps digit_char_def char_of_eq_iff)
  have low: "to_lower CHR ''#'' = CHR ''#''" "to_lower CHR ''T'' = CHR ''t''" "to_lower CHR ''L'' = CHR ''l''"
      "to_lower CHR '']'' = CHR '']''" "to_lower CHR '','' = CHR '',''" "to_lower CHR '')'' = CHR '')''"
    by (simp_all add: to_lower_def char_code_def char_of_eq_iff)
  have stop: "time_loop stops 1 (ch # rest) n f 0 = None" if "ch \<in> set '',)]''" for stops ch n f
  proof -
    have "strtol 10 (ch # rest) = (0, ch # rest, False)" "time_unit f (ch # rest) = No_Unit"
      using that low by (auto simp: time_unit_def Let_def isDigit_def intro!: strtol_none)
    then show ?thesis
      by (subst time_loop.simps) simp
  qed
  have "(''ns'', 1) \<in> set unit_factors"
    by (simp add: unit_factors_def)
  then have "time_loop stops 1 (''0ns'' @ ch # rest) n 1 0 = None" if "ch \<in> set '',)]''" "\<not> stops ch" for stops ch n
    using time_loop_part [of "''ns''" 1 0 "ch # rest" stops 1 n 1 0] stop [OF that(1)] that low
    unfolding zero by (auto simp: Let_def)
  then show ?thesis
    using low by (simp add: CIEC_TIME_fromString_def CIEC_TIME_toString_def CIEC_LTIME_fromString_def
        CIEC_LTIME_toString_def duration_toString_def duration_literal_def parsed_duration_def Let_def)
qed

theorem zero_duration_refused_witness:
  "CIEC_LTIME_fromString ''LT#0ns)'' 5 = (-1, 5)"
  using zero_duration_refused [of "[]" 5] by (simp add: CIEC_LTIME_toString_def duration_toString_def)

text \<open>An underscore inside a number ends it and counts its first part with the last unit, or as
  nanoseconds: T#1_000s is one nanosecond and no second.\<close>

theorem underscore_splits_number:
  "CIEC_TIME_fromString ''T#1_000s'' old = (8, 1)"
proof -
  have low: "to_lower CHR ''#'' = CHR ''#''" "to_lower CHR ''T'' = CHR ''t''" "to_lower CHR ''_'' = CHR ''_''"
    by (simp_all add: to_lower_def char_code_def char_of_eq_iff)
  have "strtol 10 ''1_000s'' = (1, ''_000s'', False)" "strtol 10 ''000s'' = (0, ''s'', False)"
    by (simp_all add: strtol_def strto_signed_def signed_limits_31 skip_0x_def charHexDigitToInt_def
        charDigitToInt_def char_code_def isDigit_def Let_def)
  then show ?thesis
    using low by (simp add: CIEC_TIME_fromString_def duration_literal_def parsed_duration_def
        time_loop.simps time_unit_def Let_def)
qed

end
