(* ===== verification/Compound_Text.thy ===== *)
theory Compound_Text
imports Char_Text Time_Text
begin

text \<open>
  The text of arrays and structures: \<open>core/src/datatypes/forte_array.cpp\<close>,
  \<open>core/include/forte/datatypes/forte_array_fixed.h\<close> and \<open>core/src/datatypes/forte_struct.cpp\<close>.
  The operations of the elements are virtual functions in the code and arguments here; locale
  \<open>text_form\<close> states what the operations of a type promise, and every type of \<open>any_shape\<close>, nested as
  deep as it likes, is an interpretation of it.  A text has no zero character.  The answer \<open>None\<close> is
  a read behind the end of the text.
\<close>

section \<open>Sequences of values\<close>

text \<open>\<open>findNextNonBlankSpace\<close>.\<close>

fun skip_blanks :: "string \<Rightarrow> string" where
  "skip_blanks [] = []"
| "skip_blanks (ch # s) = (if ch = CHR '' '' then skip_blanks s else ch # s)"

lemma skip_blanks_length: "length (skip_blanks s) \<le> length s"
  by (induction s) simp_all

lemma sequence_loop_decreases:
  "skip_blanks (drop n (skip_blanks s)) = ch # r \<Longrightarrow> length r < length s"
  using skip_blanks_length [of "drop n (skip_blanks s)"] skip_blanks_length [of s] by simp

text \<open>The loop over values with commas between them, which arrays, repetitions and structures share;
  \<open>item\<close> reads a value and updates the state.  The result is the text where the loop ends.\<close>

function sequence_loop ::
    "char \<Rightarrow> (string \<Rightarrow> 's \<Rightarrow> (int \<times> 's) option) \<Rightarrow> string \<Rightarrow> 's \<Rightarrow> (string \<times> 's) option" where
  "sequence_loop closing item s st =
     (if s = [] \<or> hd s = closing then Some (s, st)
      else (case item (skip_blanks s) st of
              None \<Rightarrow> None
            | Some (n, st) \<Rightarrow>
                if n < 0 then Some (skip_blanks s, st)
                else (case skip_blanks (drop (nat n) (skip_blanks s)) of
                        ch # r \<Rightarrow> if ch = CHR '','' then sequence_loop closing item r st else Some (ch # r, st)
                      | [] \<Rightarrow> Some ([], st))))"
  by pat_completeness auto

termination
  by (relation "measure (\<lambda>(closing, item, s, st). length s)") (auto dest: sequence_loop_decreases)

declare sequence_loop.simps [simp del]

section \<open>Arrays\<close>

text \<open>The state of the parser: the elements before the iterator, those from it on, and the buffer that
  takes the values that are too many.\<close>

type_synonym 'v fill = "'v list \<times> 'v list \<times> 'v"

fun initializeSimpleFromString ::
    "(string \<Rightarrow> 'v \<Rightarrow> (int \<times> 'v) option) \<Rightarrow> string \<Rightarrow> 'v fill \<Rightarrow> (int \<times> 'v fill) option" where
  "initializeSimpleFromString parse s (before, v # vs, buf) =
     map_option (map_prod id (\<lambda>v. (before @ [v], vs, buf))) (parse s v)"
| "initializeSimpleFromString parse s (before, [], buf) =
     map_option (map_prod id (\<lambda>buf. (before, [], buf))) (parse s buf)"

text \<open>One more copy of the repeated elements, as far as there is room, and the loop over the rounds, which
  runs through its rounds also when there is nothing to copy.\<close>

fun copy_round :: "'v list \<Rightarrow> 'v list \<Rightarrow> 'v list \<Rightarrow> 'v list \<times> 'v list" where
  "copy_round (x # xs) before (v # vs) = copy_round xs (before @ [x]) vs"
| "copy_round xs before vs = (before, vs)"

fun repeat_loop :: "nat \<Rightarrow> 'v list \<Rightarrow> 'v list \<Rightarrow> 'v list \<Rightarrow> 'v list \<times> 'v list" where
  "repeat_loop 0 xs before vs = (before, vs)"
| "repeat_loop (Suc n) xs before vs =
     (if vs = [] then (before, vs)
      else (case copy_round xs before vs of (before, vs) \<Rightarrow> repeat_loop n xs before vs))"

definition initializeFromString ::
    "(string \<Rightarrow> 'v \<Rightarrow> (int \<times> 'v) option) \<Rightarrow> string \<Rightarrow> 'v fill \<Rightarrow> (int \<times> 'v fill) option" where
  "initializeFromString parse s st =
     (case fromString_elem e_ULINT s 0 of
        None \<Rightarrow> None
      | Some (repeatLength, repeat) \<Rightarrow>
          let r = skip_blanks (drop (nat repeatLength) s)
          in if 0 < repeatLength \<and> char_at r 0 = CHR ''(''
             then (case sequence_loop CHR '')'' (initializeSimpleFromString parse) (tl r) st of
                     None \<Rightarrow> None
                   | Some (e, before, vs, buf) \<Rightarrow>
                       if char_at e 0 = CHR '')''
                       then (case repeat_loop (unat repeat - 1) (drop (length (fst st)) before) before vs of
                               (before, vs) \<Rightarrow> Some (int (length s) - int (length e) + 1, before, vs, buf))
                       else Some (-1, before, vs, buf))
             else initializeSimpleFromString parse s st)"

text \<open>\<open>dflt\<close> is a default constructed element.\<close>

definition array_fromString ::
    "(string \<Rightarrow> 'v \<Rightarrow> (int \<times> 'v) option) \<Rightarrow> 'v \<Rightarrow> string \<Rightarrow> 'v list \<Rightarrow> (int \<times> 'v list) option" where
  "array_fromString parse dflt s es =
     (if char_at s 0 = CHR ''[''
      then (case sequence_loop CHR '']'' (initializeFromString parse) (tl s) ([], es, dflt) of
              None \<Rightarrow> None
            | Some (e, before, vs, buf) \<Rightarrow>
                if char_at e 0 = CHR '']''
                then Some (int (length s) - int (length e) + 1, before @ replicate (length vs) dflt)
                else Some (-1, before @ vs))
      else Some (-1, es))"

definition cmCollapseMaxSize :: nat where
  "cmCollapseMaxSize = 100"

definition toCollapsedElementString :: "('v \<Rightarrow> string) \<Rightarrow> 'v \<Rightarrow> nat \<Rightarrow> string" where
  "toCollapsedElementString print v count =
     (if 1 < count then toString_elem e_ULINT (of_nat count) @ ''('' else []) @ print v @
     (if 1 < count then '')'' else [])"

text \<open>The loop from an element on: the previous element, if any, and its count.  The comma is left out when
  the next element is the last one of the array.\<close>

fun collapsed_loop :: "('v \<Rightarrow> string) \<Rightarrow> 'v option \<Rightarrow> nat \<Rightarrow> 'v list \<Rightarrow> string" where
  "collapsed_loop print None count [] = []"
| "collapsed_loop print (Some prev) count [] = toCollapsedElementString print prev count"
| "collapsed_loop print None count (v # vs) = collapsed_loop print (Some v) (count + 1) vs"
| "collapsed_loop print (Some prev) count (v # vs) =
     (if prev \<noteq> v
      then toCollapsedElementString print prev count @ (if vs \<noteq> [] then '','' else []) @
        collapsed_loop print (Some v) 1 vs
      else collapsed_loop print (Some v) (count + 1) vs)"

fun plain_loop :: "('v \<Rightarrow> string) \<Rightarrow> 'v list \<Rightarrow> string" where
  "plain_loop print [] = []"
| "plain_loop print (v # vs) = print v @ (if vs \<noteq> [] then '','' else []) @ plain_loop print vs"

definition array_toString :: "('v \<Rightarrow> string) \<Rightarrow> 'v list \<Rightarrow> string" where
  "array_toString print es =
     ''['' @ (if cmCollapseMaxSize < length es then collapsed_loop print None 0 es else plain_loop print es) @ '']''"

section \<open>Structures\<close>

definition parseNextElementId :: "string \<Rightarrow> string \<times> string" where
  "parseNextElementId s =
     (let n = takeWhile (\<lambda>ch. ch \<notin> set '' :)'') s
      in if length n < length s then (n, drop (length n) s) else ([], s))"

fun getMemberIndex :: "string \<Rightarrow> string list \<Rightarrow> nat option" where
  "getMemberIndex n [] = None"
| "getMemberIndex n (m # ms) = (if n = m then Some 0 else map_option Suc (getMemberIndex n ms))"

text \<open>Members with their parsers; a name that is not interned is no member's name either.\<close>

definition initializeMember ::
    "(string \<times> (string \<Rightarrow> 'v \<Rightarrow> (int \<times> 'v) option)) list \<Rightarrow> string \<Rightarrow> 'v list \<Rightarrow> (int \<times> 'v list) option" where
  "initializeMember ms s vs =
     (let (n, r) = parseNextElementId s; r = skip_blanks r
      in if take 2 r = '':=''
         then (let r = skip_blanks (drop 2 r)
               in case getMemberIndex n (map fst ms) of
                    None \<Rightarrow> Some (-1, vs)
                  | Some i \<Rightarrow>
                      (case snd (ms ! i) r (vs ! i) of
                         None \<Rightarrow> None
                       | Some (len, v) \<Rightarrow>
                           Some (if 0 \<le> len then int (length s) - int (length r) + len else -1, vs[i := v])))
         else Some (-1, vs))"

definition struct_fromString ::
    "(string \<times> (string \<Rightarrow> 'v \<Rightarrow> (int \<times> 'v) option)) list \<Rightarrow> string \<Rightarrow> 'v list \<Rightarrow> (int \<times> 'v list) option" where
  "struct_fromString ms s vs =
     (if char_at s 0 = CHR ''(''
      then (case sequence_loop CHR '')'' (initializeMember ms) (tl s) vs of
              None \<Rightarrow> None
            | Some (e, vs) \<Rightarrow>
                Some (if char_at e 0 = CHR '')'' then int (length s) - int (length e) + 1 else -1, vs))
      else Some (-1, vs))"

definition writeToStringNameValuePair :: "string \<Rightarrow> string \<Rightarrow> string" where
  "writeToStringNameValuePair n v = n @ '':='' @ v"

fun struct_loop :: "(string \<times> string) list \<Rightarrow> string" where
  "struct_loop [] = []"
| "struct_loop ((n, v) # ms) = writeToStringNameValuePair n v @ (if ms \<noteq> [] then '','' else []) @ struct_loop ms"

definition struct_toString :: "(string \<times> string) list \<Rightarrow> string" where
  "struct_toString ms = ''('' @ struct_loop ms @ '')''"

section \<open>Values of any type\<close>

datatype any_state = Cell cell | Char char | WChar wchar | Chars string | Parts "any_state list"

datatype any_shape = Simple EDataTypeID | ArrayOf nat any_state any_shape | StructOf "(string \<times> any_shape) list"

text \<open>The classes of the simple types override \<open>fromString\<close> and \<open>toString\<close> of \<open>CIEC_ANY_ELEMENTARY\<close> where
  they are not integers or bit strings.\<close>

fun simple_fromString :: "EDataTypeID \<Rightarrow> string \<Rightarrow> any_state \<Rightarrow> (int \<times> any_state) option" where
  "simple_fromString t s (Cell c) =
     (if t = e_BOOL then Some (map_prod id Cell (fromString_BOOL s c))
      else if t = e_TIME then Some (map_prod id Cell (CIEC_TIME_fromString s c))
      else if t = e_LTIME then Some (map_prod id Cell (CIEC_LTIME_fromString s c))
      else map_option (map_prod id Cell) (fromString_elem t s c))"
| "simple_fromString t s (Char c) = map_option (map_prod id Char) (CIEC_CHAR_fromString s c)"
| "simple_fromString t s (WChar c) = map_option (map_prod id WChar) (CIEC_WCHAR_fromString s c)"
| "simple_fromString t s (Chars v) = Some (map_prod id Chars (CIEC_STRING_fromString s))"
| "simple_fromString t s (Parts vs) = Some (-1, Parts vs)"

fun simple_toString :: "EDataTypeID \<Rightarrow> any_state \<Rightarrow> string" where
  "simple_toString t (Cell c) =
     (if t = e_BOOL then toString_BOOL c
      else if t = e_TIME then CIEC_TIME_toString c
      else if t = e_LTIME then CIEC_LTIME_toString c
      else toString_elem t c)"
| "simple_toString t (Char c) = CIEC_CHAR_toString c"
| "simple_toString t (WChar c) = CIEC_WCHAR_toString c"
| "simple_toString t (Chars v) = CIEC_STRING_toString v"
| "simple_toString t (Parts vs) = []"

fun parts :: "any_state \<Rightarrow> any_state list" where
  "parts (Parts vs) = vs"
| "parts v = []"

primrec any_fromString :: "any_shape \<Rightarrow> string \<Rightarrow> any_state \<Rightarrow> (int \<times> any_state) option" where
  "any_fromString (Simple t) = simple_fromString t"
| "any_fromString (ArrayOf n d ty) =
     (\<lambda>s v. map_option (map_prod id Parts) (array_fromString (any_fromString ty) d s (parts v)))"
| "any_fromString (StructOf ms) =
     (\<lambda>s v. map_option (map_prod id Parts)
        (struct_fromString (map (\<lambda>m. map_prod id any_fromString m) ms) s (parts v)))"

primrec any_toString :: "any_shape \<Rightarrow> any_state \<Rightarrow> string" where
  "any_toString (Simple t) = simple_toString t"
| "any_toString (ArrayOf n d ty) = (\<lambda>v. array_toString (any_toString ty) (parts v))"
| "any_toString (StructOf ms) =
     (\<lambda>v. struct_toString (map2 (\<lambda>m v. (fst m, snd m v)) (map (\<lambda>m. map_prod id any_toString m) ms) (parts v)))"

section \<open>What the operations of a type promise\<close>

definition no_repeat :: "string \<Rightarrow> bool" where
  "no_repeat s \<longleftrightarrow> (\<exists>n c. fromString_elem e_ULINT s 0 = Some (n, c) \<and>
     \<not> (0 < n \<and> char_at (skip_blanks (drop (nat n) s)) 0 = CHR ''(''))"

definition in_sequence :: "string \<Rightarrow> bool" where
  "in_sequence rest \<longleftrightarrow> rest \<noteq> [] \<and> hd rest \<in> set '',])''"

definition starts_value :: "string \<Rightarrow> bool" where
  "starts_value s \<longleftrightarrow> s \<noteq> [] \<and> hd s \<notin> set '' ,])#''"

text \<open>A value is printed, possibly followed by \<open>rest\<close> if that \<open>ends\<close> it, and the parser gives back the
  same value; within an array the text is not taken for a repetition, and it starts with no character
  that the loops look for.\<close>

locale text_form =
  fixes print :: "'v \<Rightarrow> string" and parse :: "string \<Rightarrow> 'v \<Rightarrow> (int \<times> 'v) option"
    and ok :: "'v \<Rightarrow> bool" and same :: "'v \<Rightarrow> 'v \<Rightarrow> bool" and ends :: "'v \<Rightarrow> string \<Rightarrow> bool"
  assumes roundtrip: "ok v \<Longrightarrow> ok old \<Longrightarrow> ends v rest \<Longrightarrow>
      \<exists>w. parse (print v @ rest) old = Some (int (length (print v)), w) \<and> ok w \<and> same v w"
    and alone: "ok v \<Longrightarrow> ends v rest \<Longrightarrow> in_sequence rest \<Longrightarrow> no_repeat (print v @ rest)"
    and starts: "ok v \<Longrightarrow> starts_value (print v)"

lemma skip_blanks_id: "hd s \<noteq> CHR '' '' \<Longrightarrow> skip_blanks s = s"
  by (cases s) simp_all

lemma sequence_loop_step:
  assumes "s = t @ tail" "s \<noteq> []" "hd s \<noteq> closing" "hd s \<noteq> CHR '' ''" "item s st = Some (int (length t), st')"
  shows "sequence_loop closing item s st =
    (case skip_blanks tail of
       ch # r \<Rightarrow> if ch = CHR '','' then sequence_loop closing item r st' else Some (ch # r, st')
     | [] \<Rightarrow> Some ([], st'))"
  using assms(2-5) skip_blanks_id [OF assms(4)] by (subst sequence_loop.simps) (auto simp: assms(1))

lemma starts_value_append: "starts_value s \<Longrightarrow> skip_blanks (s @ rest) = s @ rest \<and> hd (s @ rest) = hd s"
  by (cases s) (simp_all add: starts_value_def)

section \<open>Arrays of values\<close>

text \<open>The text of an array as items, each a value with the number of its repetitions.\<close>

fun items_text :: "('v \<Rightarrow> string) \<Rightarrow> (nat \<times> 'v) list \<Rightarrow> string" where
  "items_text print [] = []"
| "items_text print ((n, v) # is) =
     toCollapsedElementString print v n @ (if is \<noteq> [] then '','' else []) @ items_text print is"

abbreviation items_tail :: "('v \<Rightarrow> string) \<Rightarrow> (nat \<times> 'v) list \<Rightarrow> string \<Rightarrow> string" where
  "items_tail print is rest \<equiv> (if is \<noteq> [] then '','' else []) @ items_text print is @ '']'' @ rest"

fun items_end :: "('v \<Rightarrow> string \<Rightarrow> bool) \<Rightarrow> ('v \<Rightarrow> string) \<Rightarrow> (nat \<times> 'v) list \<Rightarrow> string \<Rightarrow> bool" where
  "items_end ends print [] rest = True"
| "items_end ends print ((n, v) # is) rest =
     (ends v ((if 1 < n then '')'' else []) @ items_tail print is rest) \<and> items_end ends print is rest)"

fun expand :: "(nat \<times> 'v) list \<Rightarrow> 'v list" where
  "expand [] = []"
| "expand ((n, v) # is) = replicate n v @ expand is"

fun runs :: "nat \<Rightarrow> 'v \<Rightarrow> 'v list \<Rightarrow> (nat \<times> 'v) list" where
  "runs n v [] = [(n, v)]"
| "runs n v (w # ws) = (if v \<noteq> w then (n, v) # runs 1 w ws else runs (n + 1) w ws)"

fun array_items :: "'v list \<Rightarrow> (nat \<times> 'v) list" where
  "array_items [] = []"
| "array_items (v # vs) = (if cmCollapseMaxSize < length (v # vs) then runs 1 v vs else map (Pair 1) (v # vs))"

definition array_ends :: "('v \<Rightarrow> string \<Rightarrow> bool) \<Rightarrow> ('v \<Rightarrow> string) \<Rightarrow> 'v list \<Rightarrow> string \<Rightarrow> bool" where
  "array_ends ends print es rest \<longleftrightarrow>
     (cmCollapseMaxSize < length es \<longrightarrow> last (butlast es) = last es) \<and> items_end ends print (array_items es) rest"

lemma in_sequence_tail: "in_sequence (items_tail print is rest)"
  by (simp add: in_sequence_def)

lemma repeat_loop_one:
  "length vs = k \<Longrightarrow> repeat_loop k [x] before (vs @ more) = (before @ replicate k x, more)"
proof (induction k arbitrary: before vs)
  case (Suc k)
  then obtain w ws where "vs = w # ws" "length ws = k"
    by (cases vs) auto
  then show ?case
    using Suc.IH [of ws "before @ [x]"] by (simp add: replicate_append_same [symmetric] del: replicate_append_same)
qed simp

lemma runs_expand: "expand (runs n v vs) = replicate n v @ vs"
proof (induction vs arbitrary: n v)
  case (Cons w ws)
  then show ?case
    using replicate_append_same [of n w] by simp
qed simp

lemma runs_positive: "0 < n \<Longrightarrow> \<forall>i\<in>set (runs n v vs). 0 < fst i"
proof (induction vs arbitrary: n v)
  case (Cons w ws)
  then show ?case
    using Cons.IH [of "Suc 0" w] Cons.IH [of "Suc n" w] by simp
qed simp

lemma runs_nonempty [simp]: "runs n v vs \<noteq> []"
  by (induction vs arbitrary: n v) simp_all

lemma array_items_spec: "expand (array_items es) = es \<and> (\<forall>i\<in>set (array_items es). 0 < fst i)"
proof (cases es)
  case (Cons v vs)
  have "expand (map (Pair 1) xs) = xs" for xs :: "'a list"
    by (induction xs) simp_all
  from this [of es] show ?thesis
    using Cons by (auto simp: runs_expand dest: runs_positive [of 1, simplified, rule_format])
qed simp

lemma plain_loop_items: "plain_loop print es = items_text print (map (Pair 1) es)"
  by (induction es) (simp_all add: toCollapsedElementString_def)

lemma collapsed_loop_items:
  "(vs \<noteq> [] \<longrightarrow> last (v # butlast vs) = last vs) \<Longrightarrow> collapsed_loop print (Some v) n vs = items_text print (runs n v vs)"
proof (induction vs arbitrary: n v)
  case (Cons w ws)
  then show ?case
    by (cases "ws = []") auto
qed simp

lemma array_toString_items:
  assumes "cmCollapseMaxSize < length es \<longrightarrow> last (butlast es) = last es"
  shows "array_toString print es = ''['' @ items_text print (array_items es) @ '']''"
proof (cases es)
  case (Cons v vs)
  show ?thesis
  proof (cases "cmCollapseMaxSize < length es")
    case True
    with assms Cons have "last (butlast (v # vs)) = last (v # vs)"
      by simp
    then have "vs \<noteq> [] \<longrightarrow> last (v # butlast vs) = last vs"
      by (cases "vs = []") (simp_all only: butlast.simps last.simps if_False simp_thms)
    then show ?thesis
      using True Cons collapsed_loop_items [of vs v print 1] by (simp add: array_toString_def)
  qed (use Cons in \<open>simp add: array_toString_def plain_loop_items toCollapsedElementString_def\<close>)
qed (simp add: array_toString_def)

lemma ULINT_text_starts: "\<exists>d ds. toString_elem e_ULINT c = d # ds \<and> isDigit d"
proof -
  obtain ds where ds: "toString_elem e_ULINT c = (if text_value e_ULINT c < 0 then ''-'' @ ds else ds)"
      "\<forall>ch\<in>set ds. isDigit ch" "ds \<noteq> []"
    by (rule toString_shape [of e_ULINT _ c, OF type_bounds.simps(11)])
  then show ?thesis
    by (cases ds) simp_all
qed

lemma ULINT_count:
  assumes "n < 2 ^ 64" "ends_number (int n) r"
  shows "\<exists>c. fromString_elem e_ULINT (toString_elem e_ULINT (of_nat n) @ r) 0 =
    Some (int (length (toString_elem e_ULINT (of_nat n))), c) \<and> unat c = n"
proof -
  have value_n: "text_value e_ULINT (of_nat n) = int n"
    unfolding text_value.simps using assms(1) by (simp add: unsigned_of_nat take_bit_nat_eq_self)
  with assms(2) have "ends_number (text_value e_ULINT (of_nat n)) r"
    by simp
  from fromString_toString [OF type_bounds.simps(11) this, of 0] obtain c where
      c: "fromString_elem e_ULINT (toString_elem e_ULINT (of_nat n) @ r) 0 =
        Some (int (length (toString_elem e_ULINT (of_nat n))), c)" "text_value e_ULINT c = int n"
    unfolding value_n by blast
  have "int (unat c) = int n"
    using c(2) unfolding text_value.simps by (metis of_nat_unat)
  then have "unat c = n"
    by (rule of_nat_eq_iff [THEN iffD1])
  with c(1) show ?thesis
    by blast
qed

context text_form
begin

lemma simple_item:
  assumes "ok v" "ok old" "ends v rest"
  obtains w where "ok w" "same v w"
    "initializeSimpleFromString parse (print v @ rest) (before, old # more, buf) =
      Some (int (length (print v)), before @ [w], more, buf)"
  using roundtrip [OF assms] by auto

lemma single_item:
  assumes "ok v" "ok old" "ends v rest" "in_sequence rest"
  obtains w where "ok w" "same v w"
    "initializeFromString parse (print v @ rest) (before, old # more, buf) =
      Some (int (length (print v)), before @ [w], more, buf)"
proof -
  obtain n c where "fromString_elem e_ULINT (print v @ rest) 0 = Some (n, c)"
      "\<not> (0 < n \<and> char_at (skip_blanks (drop (nat n) (print v @ rest))) 0 = CHR ''('')"
    using alone [OF assms(1,3,4)] by (auto simp: no_repeat_def)
  then have "initializeFromString parse (print v @ rest) st = initializeSimpleFromString parse (print v @ rest) st" for st
    unfolding initializeFromString_def Let_def by (simp only: option.case prod.case if_False)
  with simple_item [OF assms(1,2,3)] that show ?thesis
    by metis
qed

lemma sequence_loop_one:
  assumes "ok v" "ok old" "ends v ('')'' @ rest)"
  obtains w where "ok w" "same v w"
    "sequence_loop CHR '')'' (initializeSimpleFromString parse) (print v @ '')'' @ rest) (before, old # more, buf) =
      Some ('')'' @ rest, before @ [w], more, buf)"
proof -
  obtain w where w: "ok w" "same v w"
      "initializeSimpleFromString parse (print v @ '')'' @ rest) (before, old # more, buf) =
        Some (int (length (print v)), before @ [w], more, buf)"
    using simple_item [OF assms] by blast
  have "print v @ '')'' @ rest \<noteq> []" "hd (print v @ '')'' @ rest) \<noteq> CHR '')''"
      "skip_blanks (print v @ '')'' @ rest) = print v @ '')'' @ rest"
    using starts [OF assms(1)] starts_value_append [of "print v" "'')'' @ rest"] by (simp_all add: starts_value_def)
  then have "sequence_loop CHR '')'' (initializeSimpleFromString parse) (print v @ '')'' @ rest) (before, old # more, buf) =
      Some ('')'' @ rest, before @ [w], more, buf)"
    using w(3) by (subst sequence_loop.simps) simp
  with w that show ?thesis
    by blast
qed

lemma repeated_item:
  assumes "ok v" "\<forall>x\<in>set olds. ok x" "length olds = n" "1 < n" "n < 2 ^ 64" "ends v ('')'' @ rest)"
  obtains w where "ok w" "same v w"
    "initializeFromString parse (toCollapsedElementString print v n @ rest) (before, olds @ more, buf) =
      Some (int (length (toCollapsedElementString print v n)), before @ replicate n w, more, buf)"
proof -
  obtain o1 os where os: "olds = o1 # os" "length os = n - 1"
    using assms(3,4) by (cases olds) auto
  obtain w where w: "ok w" "same v w"
    "sequence_loop CHR '')'' (initializeSimpleFromString parse) (print v @ '')'' @ rest) (before, o1 # os @ more, buf) =
      Some ('')'' @ rest, before @ [w], os @ more, buf)"
    using sequence_loop_one [OF assms(1) _ assms(6)] assms(2) os(1) by (metis list.set_intros(1))
  let ?num = "toString_elem e_ULINT (of_nat n)" and ?r = "''('' @ print v @ '')'' @ rest"
  have "ends_number (int n) ?r"
    using starts [OF assms(1)] by (cases "print v") (auto simp: ends_number_def starts_value_def isDigit_def)
  then obtain c where c: "fromString_elem e_ULINT (?num @ ?r) 0 = Some (int (length ?num), c)" "unat c = n"
    using ULINT_count [OF assms(5)] by blast
  have loop: "repeat_loop (n - 1) [w] (before @ [w]) (os @ more) = (before @ replicate n w, more)"
    using repeat_loop_one [OF os(2), of w "before @ [w]" more] assms(4)
    by (cases n) simp_all
  have num: "0 < int (length ?num)"
    using ULINT_text_starts [of "of_nat n"] by auto
  have dropped: "drop (nat (int (length ?num))) (?num @ ?r) = ?r"
    by simp
  have r: "skip_blanks ?r = ?r" "tl ?r = print v @ '')'' @ rest"
      "char_at ?r 0 = CHR ''(''" "char_at ('')'' @ rest) 0 = CHR '')''"
    by (simp_all add: char_at_def)
  have one: "drop (length before) (before @ [w]) = [w]"
    by simp
  have "initializeFromString parse (?num @ ?r) (before, olds @ more, buf) =
      Some (int (length (?num @ ?r)) - int (length ('')'' @ rest)) + 1, before @ replicate n w, more, buf)"
    using num by (simp only: initializeFromString_def c option.case prod.case Let_def os(1) append_Cons [of o1] w(3) fst_conv
        simp_thms if_True dropped r one loop)
  then have "initializeFromString parse (?num @ ?r) (before, olds @ more, buf) =
      Some (int (length (?num @ ''('' @ print v @ '')'')), before @ replicate n w, more, buf)"
    by simp
  moreover have "toCollapsedElementString print v n = ?num @ ''('' @ print v @ '')''"
    using assms(4) by (simp add: toCollapsedElementString_def)
  ultimately show ?thesis
    using w(1,2) that by simp
qed

lemma item_parsed:
  assumes "ok v" "\<forall>x\<in>set olds. ok x" "length olds = n" "0 < n" "n < 2 ^ 64"
    and "ends v ((if 1 < n then '')'' else []) @ rest)" "in_sequence rest"
  obtains w where "ok w" "same v w"
    "initializeFromString parse (toCollapsedElementString print v n @ rest) (before, olds @ more, buf) =
      Some (int (length (toCollapsedElementString print v n)), before @ replicate n w, more, buf)"
proof (cases "1 < n")
  case True
  with assms(6) have "ends v ('')'' @ rest)"
    by simp
  from repeated_item [OF assms(1-3) True assms(5) this, of before more buf] that show ?thesis
    by blast
next
  case False
  with assms(4) have "n = 1"
    by simp
  then obtain x where x: "olds = [x]" "ok x"
    using assms(2,3) by (cases olds) auto
  from single_item [OF assms(1) x(2) _ assms(7), of before more buf] show ?thesis
    using assms(6) \<open>n = 1\<close> x(1) that by (auto simp: toCollapsedElementString_def)
qed

lemma item_starts: "ok v \<Longrightarrow> starts_value (toCollapsedElementString print v n @ rest)"
proof (cases "1 < n")
  case True
  then show ?thesis
    using ULINT_text_starts [of "of_nat n"] by (auto simp: toCollapsedElementString_def starts_value_def isDigit_def)
next
  case False
  assume "ok v"
  then show ?thesis
    using False starts [of v] by (simp add: toCollapsedElementString_def starts_value_def)
qed

lemma items_parsed:
  assumes "\<forall>i\<in>set is. 0 < fst i \<and> ok (snd i)" "length vs = length (expand is)" "length vs < 2 ^ 64"
    and "\<forall>x\<in>set vs. ok x" "items_end ends print is rest"
  shows "\<exists>ws. sequence_loop CHR '']'' (initializeFromString parse) (items_text print is @ '']'' @ rest)
        (before, vs @ extra, buf) = Some ('']'' @ rest, before @ ws, extra, buf) \<and> list_all2 same (expand is) ws \<and> (\<forall>w\<in>set ws. ok w)"
  using assms
proof (induction "is" arbitrary: before vs)
  case Nil
  then show ?case
    by (simp add: sequence_loop.simps)
next
  case (Cons i "is")
  obtain n v where i: "i = (n, v)"
    by (cases i)
  let ?tail = "items_tail print is rest" and ?item = "toCollapsedElementString print v n"
  define olds more where "olds = take n vs" and "more = drop n vs"
  have vs: "vs = olds @ more" "length olds = n" "length more = length (expand is)"
    using Cons.prems(2) i by (simp_all add: olds_def more_def)
  have ok: "ok v" "0 < n" "\<forall>x\<in>set olds. ok x" "\<forall>x\<in>set more. ok x" "n < 2 ^ 64" "length more < 2 ^ 64"
    using Cons.prems(1,3,4) i vs by auto
  have "ends v ((if 1 < n then '')'' else []) @ ?tail)"
    using Cons.prems(5) i by simp
  then obtain w where w: "ok w" "same v w"
      "initializeFromString parse (?item @ ?tail) (before, olds @ more @ extra, buf) =
        Some (int (length ?item), before @ replicate n w, more @ extra, buf)"
    using item_parsed [OF ok(1) ok(3) vs(2) ok(2) ok(5) _ in_sequence_tail] by metis
  have start: "starts_value (?item @ ?tail)"
    by (rule item_starts [OF ok(1)])
  then have s: "?item @ ?tail \<noteq> []" "hd (?item @ ?tail) \<noteq> CHR '']''" "skip_blanks (?item @ ?tail) = ?item @ ?tail"
    using starts_value_append [OF start, of "[]"] by (simp_all add: starts_value_def)
  have step: "sequence_loop CHR '']'' (initializeFromString parse) (?item @ ?tail) (before, vs @ extra, buf) =
      (case skip_blanks ?tail of
         ch # r \<Rightarrow> if ch = CHR '','' then sequence_loop CHR '']'' (initializeFromString parse) r
             (before @ replicate n w, more @ extra, buf) else Some (ch # r, before @ replicate n w, more @ extra, buf)
       | [] \<Rightarrow> Some ([], before @ replicate n w, more @ extra, buf))"
    using s w(3) vs(1) by (subst sequence_loop.simps) simp
  obtain ws where ws: "list_all2 same (expand is) ws" "\<forall>w\<in>set ws. ok w"
      "sequence_loop CHR '']'' (initializeFromString parse) (items_text print is @ '']'' @ rest)
         (before @ replicate n w, more @ extra, buf) = Some ('']'' @ rest, (before @ replicate n w) @ ws, extra, buf)"
    using Cons.IH [of more "before @ replicate n w"] Cons.prems(1,5) i vs(3) ok(4,6) by auto
  have "sequence_loop CHR '']'' (initializeFromString parse) (?item @ ?tail) (before, vs @ extra, buf) =
      Some ('']'' @ rest, before @ (replicate n w @ ws), extra, buf)"
  proof (cases "is = []")
    case True
    then show ?thesis
      unfolding step using ws vs(3) by (simp add: sequence_loop.simps)
  next
    case False
    then show ?thesis
      unfolding step using ws(3) by simp
  qed
  moreover have "list_all2 same (expand (i # is)) (replicate n w @ ws)"
    using list_all2_appendI [OF list_all2_all_nthI ws(1), of "replicate n v" "replicate n w"] w(2) i by simp
  ultimately show ?case
    using ws(2) w(1) i by (intro exI [of _ "replicate n w @ ws"]) (auto simp: set_replicate_conv_if)
qed

end

section \<open>Values that are not taken for repetitions\<close>

lemma no_repeat_no_type: "s \<noteq> [] \<Longrightarrow> type_prefix e_ULINT s = None \<Longrightarrow> no_repeat s"
  by (simp add: no_repeat_def fromString_elem_def)

lemma no_repeat_stop:
  assumes "type_prefix e_ULINT s = Some q" "s = pre @ q" "q \<noteq> []" "\<not> isDigit (hd q)" "pre = [] \<or> hd q \<notin> set '' (''"
  shows "no_repeat s"
proof -
  obtain ch r where q: "q = ch # r"
    using assms(3) by (cases q) auto
  have ch: "\<not> isDigit ch" "pre = [] \<or> ch \<notin> set '' (''"
    using assms(4,5) q by simp_all
  then have "ch \<noteq> CHR ''1''" "ch \<noteq> CHR ''2''" "ch \<noteq> CHR ''8''"
    by (auto simp: isDigit_def)
  then have "base_prefix q = None \<or> base_prefix q = Some (10, q)"
    by (auto simp: base_prefix_def q)
  then show ?thesis
  proof
    assume "base_prefix q = None"
    then show ?thesis
      using assms(1-3) by (simp add: no_repeat_def fromString_elem_def)
  next
    assume base: "base_prefix q = Some (10, q)"
    have "strtoull 10 q = (0, q, False)"
      using ch(1) q by (simp add: strtoull_def strto_unsigned_def skip_0x_def)
    then have "\<exists>c n. fromString_elem e_ULINT s 0 = Some (n, c) \<and> (n = -1 \<or> n = int (length pre))"
      using assms(1-3) base by (simp add: fromString_elem_def literal_bounds_def parse_number_def Let_def)
    then obtain c n where c: "fromString_elem e_ULINT s 0 = Some (n, c)" "n = -1 \<or> n = int (length pre)"
      by blast
    have "skip_blanks q = q" if "pre \<noteq> []"
      using ch(2) that q by (intro skip_blanks_id) auto
    then show ?thesis
      using c ch(2) assms(2) q by (auto simp: no_repeat_def)
  qed
qed

lemma strto_loop_stops:
  assumes "\<forall>ch\<in>set ds. isDigit ch" "rest \<noteq> []" "\<not> isDigit (hd rest)"
  shows "\<exists>v r e. strto_loop 10 limit1 limit2 acc (ds @ rest) = (v, r, e) \<and> (e \<or> r = rest)"
  using assms
proof (induction ds arbitrary: acc)
  case Nil
  then show ?case
    by (cases rest) (auto intro: exI [of _ False])
qed (auto simp: Let_def)

lemma no_repeat_digits:
  assumes "type_prefix e_ULINT s = Some (ds @ rest)" "s = pre @ ds @ rest" "\<forall>ch\<in>set ds. isDigit ch" "ds \<noteq> []"
    and "rest \<noteq> []" "\<not> isDigit (hd rest)" "hd rest \<notin> set '' (''" "CHR ''#'' \<notin> set (take 2 rest)"
  shows "no_repeat s"
proof -
  obtain v r e where loop: "strto_loop 10 1844674407370955161 5 0 (ds @ rest) = (v, r, e)" "e \<or> r = rest"
    using strto_loop_stops [OF assms(3,5,6)] by blast
  have "strtoull 10 (ds @ rest) = (if e then 2 ^ 64 - 1 else v, r, e)"
    using loop(1) by (simp add: strtoull_def strto_unsigned_def skip_0x_def)
  then have parsed: "parse_number 10 (Unsigned_Bound (2 ^ 64 - 1)) (ds @ rest) \<in> {None, Some (v, rest)}"
    using loop(2) by (auto simp: parse_number_def)
  have "base_prefix (ds @ rest) = Some (10, ds @ rest)"
    by (rule base_prefix_digits [OF assms(3,4,8)])
  then have "\<exists>c n. fromString_elem e_ULINT s 0 = Some (n, c) \<and> (n = -1 \<or> n = int (length (pre @ ds)))"
    using assms(1,2,4) parsed by (auto simp: fromString_elem_def literal_bounds_def Let_def)
  then obtain c n where c: "fromString_elem e_ULINT s 0 = Some (n, c)" "n = -1 \<or> n = int (length (pre @ ds))"
    by blast
  have "drop (length (pre @ ds)) s = rest"
    using assms(2) by simp
  moreover have "skip_blanks rest = rest" "char_at rest 0 \<noteq> CHR ''(''"
    using assms(5,7) by (auto simp: char_at_def hd_conv_nth intro!: skip_blanks_id)
  ultimately show ?thesis
    using c by (auto simp: no_repeat_def simp del: length_append)
qed

text \<open>A text that starts like no type name.\<close>

lemma no_repeat_no_name:
  assumes "s = p @ r" "p \<noteq> []" "CHR ''#'' \<notin> set p" "\<not> isDigit (hd p)"
    and "\<forall>n\<in>fst ` set scm_StringToTypeId. take (length p) n \<noteq> p"
  shows "no_repeat s"
proof (cases "CHR ''#'' \<in> set s")
  case True
  with assms(1,3) obtain x y where r: "r = x @ CHR ''#'' # y" "CHR ''#'' \<notin> set x"
    by (metis Un_iff set_append split_list_first)
  have "take (length p) (p @ x) = p"
    by simp
  then have "p @ x \<notin> fst ` set scm_StringToTypeId"
    using assms(5) by blast
  moreover have "\<not> isDigit (char_at (p @ x) 0)"
    using assms(2,4) by (cases p) simp_all
  ultimately have "type_prefix e_ULINT s = None"
    using type_prefix_hash [of "p @ x" e_ULINT y] assms(1,3) r by simp
  then show ?thesis
    using assms(1,2) by (intro no_repeat_no_type) simp_all
next
  case False
  then have "type_prefix e_ULINT s = Some s"
    by (simp add: type_prefix_def)
  then show ?thesis
    using assms(1,2,4) by (intro no_repeat_stop [of s s "[]"]) simp_all
qed

lemma no_repeat_bracket: "ch \<in> set ''[('' \<or> ch = apostrophe \<Longrightarrow> no_repeat (ch # r)"
  by (rule no_repeat_no_name [of _ "[ch]" r]) (auto simp: scm_StringToTypeId_def isDigit_def)

context text_form
begin

text \<open>The operations of arrays of \<open>k\<close> such elements keep the same promises.\<close>

lemma items_read:
  assumes "\<forall>i\<in>set is. 0 < fst i \<and> ok (snd i)" "length vs = length (expand is)" "length vs < 2 ^ 64"
    and "\<forall>x\<in>set vs. ok x" "items_end ends print is rest"
  shows "\<exists>ws. array_fromString parse dflt (''['' @ items_text print is @ '']'' @ rest) (vs @ extra) =
      Some (int (length (''['' @ items_text print is @ '']'')), ws @ replicate (length extra) dflt) \<and>
      list_all2 same (expand is) ws \<and> (\<forall>w\<in>set ws. ok w)"
  using items_parsed [OF assms, of "[]" extra dflt] by (auto simp: array_fromString_def char_at_def)

lemma array_roundtrip:
  assumes "\<forall>x\<in>set es. ok x" "\<forall>x\<in>set old. ok x" "length old = length es" "length es < 2 ^ 64"
    and "array_ends ends print es rest"
  shows "\<exists>ws. array_fromString parse dflt (array_toString print es @ rest) old =
      Some (int (length (array_toString print es)), ws) \<and> list_all2 same es ws \<and> (\<forall>w\<in>set ws. ok w)"
proof -
  let ?items = "array_items es"
  have printed: "array_toString print es = ''['' @ items_text print ?items @ '']''"
    using assms(5) by (intro array_toString_items) (simp add: array_ends_def)
  have items: "expand ?items = es" "\<forall>i\<in>set ?items. 0 < fst i"
    using array_items_spec [of es] by simp_all
  have "set (map snd is) \<subseteq> set (expand is)" if "\<forall>i\<in>set is. 0 < fst i" for "is" :: "(nat \<times> 'v) list"
    using that by (induction "is") (auto simp: set_replicate_conv_if)
  from this [OF items(2)] have "\<forall>i\<in>set ?items. 0 < fst i \<and> ok (snd i)"
    using items assms(1) by auto
  from items_read [OF this, of old rest dflt "[]"] show ?thesis
    unfolding printed using assms(2-5) items(1) by (simp add: array_ends_def)
qed

lemma array_form:
  assumes "k < 2 ^ 64"
  shows "text_form (array_toString print) (array_fromString parse dflt)
    (\<lambda>es. length es = k \<and> (\<forall>x\<in>set es. ok x)) (list_all2 same) (array_ends ends print)"
proof
  fix es old :: "'v list" and rest
  assume "length es = k \<and> (\<forall>x\<in>set es. ok x)" "length old = k \<and> (\<forall>x\<in>set old. ok x)"
    "array_ends ends print es rest"
  then show "\<exists>w. array_fromString parse dflt (array_toString print es @ rest) old =
      Some (int (length (array_toString print es)), w) \<and> (length w = k \<and> (\<forall>x\<in>set w. ok x)) \<and> list_all2 same es w"
    using array_roundtrip [of es old rest dflt] assms by (metis list_all2_lengthD)
next
  fix es :: "'v list" and rest
  show "no_repeat (array_toString print es @ rest)"
    by (simp add: array_toString_def no_repeat_bracket)
  show "starts_value (array_toString print es)"
    by (simp add: array_toString_def starts_value_def)
qed

end

section \<open>Simple values\<close>

fun simple_ok :: "EDataTypeID \<Rightarrow> any_state \<Rightarrow> bool" where
  "simple_ok t (Cell c) = (t \<in> {e_BOOL, e_TIME, e_LTIME} \<or> type_bounds t \<noteq> None)"
| "simple_ok t (Char c) = (t = e_CHAR)"
| "simple_ok t (WChar c) = (t = e_WCHAR)"
| "simple_ok t (Chars v) = (t = e_STRING)"
| "simple_ok t (Parts vs) = False"

fun simple_same :: "EDataTypeID \<Rightarrow> any_state \<Rightarrow> any_state \<Rightarrow> bool" where
  "simple_same t (Cell c) (Cell d) =
     (if t = e_BOOL then (getTUINT8 c \<noteq> 0) = (getTUINT8 d \<noteq> 0)
      else if t \<in> {e_TIME, e_LTIME} then c = d else text_value t c = text_value t d)"
| "simple_same t v w = (v = w)"

fun simple_ends :: "EDataTypeID \<Rightarrow> any_state \<Rightarrow> string \<Rightarrow> bool" where
  "simple_ends t (Cell c) rest =
     (if t = e_BOOL then True
      else if t = e_TIME then ends_duration (\<lambda>ch. ch = CHR '','' \<or> ch = CHR '')'') c rest
      else if t = e_LTIME then ends_duration (\<lambda>ch. False) c rest
      else ends_number (text_value t c) rest)"
| "simple_ends t v rest = True"

definition unit_text :: "string \<Rightarrow> bool" where
  "unit_text u \<longleftrightarrow> u \<noteq> [] \<and> hd u \<in> set ''dhmsun'' \<and> CHR ''#'' \<notin> set u"

lemma printed_parts_chars:
  assumes "\<forall>e\<in>set es. unit_text (snd e)"
  shows "CHR ''#'' \<notin> set (printed_parts es)"
proof -
  have "CHR ''#'' \<notin> set (decimal n)" for n
    using decimal_spec [of n] by (auto simp: isDigit_def)
  with assms show ?thesis
    by (auto simp: timeElementsToString_def unit_text_def split: if_splits)
qed

lemma printed_parts_shape:
  assumes "\<forall>e\<in>set es. unit_text (snd e)" "printed_parts es \<noteq> []"
  shows "\<exists>ds u. printed_parts es = ds @ u \<and> (\<forall>ch\<in>set ds. isDigit ch) \<and> ds \<noteq> [] \<and> unit_text u"
  using assms
proof (induction es)
  case (Cons e es)
  obtain n u where e: "e = (n, u)" "unit_text u"
    using Cons.prems(1) by (cases e) auto
  show ?case
  proof (cases "n = 0")
    case True
    then show ?thesis
      using Cons.IH Cons.prems e(1) by (simp add: timeElementsToString_def)
  next
    case False
    then have "printed_parts (e # es) = decimal n @ (u @ printed_parts es)"
      using e(1) by (simp add: timeElementsToString_def)
    moreover have "unit_text (u @ printed_parts es)"
      using e(2) printed_parts_chars [of es] Cons.prems(1) by (simp add: unit_text_def)
    ultimately show ?thesis
      using decimal_spec [of n] by blast
  qed
qed simp

lemma duration_body:
  "\<exists>sign ds u. duration_toString prefix c = prefix @ ''#'' @ sign @ ds @ u \<and> (sign = [] \<or> sign = ''-'') \<and>
     (\<forall>ch\<in>set ds. isDigit ch) \<and> ds \<noteq> [] \<and> unit_text u"
proof (cases "c = 0")
  case True
  then show ?thesis
    by (intro exI [of _ "[]"] exI [of _ "''0''"] exI [of _ "''ns''"])
      (simp add: duration_toString_def unit_text_def isDigit_def)
next
  case False
  have "\<forall>e\<in>set (time_parts (nat \<bar>sint c\<bar>)). unit_text (snd e)"
    by (simp add: time_parts_def unit_text_def)
  moreover have "printed_parts (time_parts (nat \<bar>sint c\<bar>)) \<noteq> []"
    using abs_sint_bounds [OF False] time_parts_print by blast
  ultimately obtain ds u where "printed_parts (time_parts (nat \<bar>sint c\<bar>)) = ds @ u" "\<forall>ch\<in>set ds. isDigit ch"
      "ds \<noteq> []" "unit_text u"
    using printed_parts_shape by blast
  then show ?thesis
    by (intro exI [of _ "if sint c < 0 then ''-'' else []"] exI [of _ ds] exI [of _ u])
      (simp add: printed_duration_shape [OF False, of prefix] del: map_concat)
qed

lemma in_sequence_hd:
  assumes "in_sequence rest"
  shows "rest \<noteq> []" "\<not> isDigit (hd rest)" "hd rest \<notin> set '' (#''"
  using assms by (auto simp: in_sequence_def isDigit_def)

lemma number_alone:
  assumes "type_bounds t = Some b" "ends_number (text_value t c) rest" "in_sequence rest"
  shows "no_repeat (toString_elem t c @ rest)"
proof -
  obtain ds where ds: "toString_elem t c = (if text_value t c < 0 then ''-'' @ ds else ds)"
      "\<forall>ch\<in>set ds. isDigit ch" "ds \<noteq> []"
    by (rule toString_shape [OF assms(1)])
  have no_hash: "CHR ''#'' \<notin> set ds"
    using ds(2) by (auto simp: isDigit_def)
  show ?thesis
  proof (cases "text_value t c < 0")
    case True
    then have "type_prefix e_ULINT (''-'' @ ds @ rest) = Some (''-'' @ ds @ rest)"
      using assms(2) no_hash by (simp add: type_prefix_def ends_number_def)
    then show ?thesis
      using ds(1) True no_repeat_stop [of "''-'' @ ds @ rest" "''-'' @ ds @ rest" "[]"] by simp
  next
    case False
    have "isDigit (char_at (ds @ rest) 0)"
      using ds(2,3) by (cases ds) simp_all
    then have "type_prefix e_ULINT (ds @ rest) = Some (ds @ rest)"
      by (simp add: type_prefix_def)
    then show ?thesis
      using ds False in_sequence_hd [OF assms(3)] assms(2)
        no_repeat_digits [of "ds @ rest" ds rest "[]"] by (simp add: ends_number_def)
  qed
qed

lemma duration_alone:
  assumes "prefix \<in> {''T'', ''LT''}" "in_sequence rest"
  shows "no_repeat (duration_toString prefix c @ rest)"
proof -
  obtain sign ds u where d: "duration_toString prefix c = prefix @ ''#'' @ sign @ ds @ u" "sign = [] \<or> sign = ''-''"
      "\<forall>ch\<in>set ds. isDigit ch" "ds \<noteq> []" "unit_text u"
    using duration_body by blast
  let ?q = "sign @ ds @ u @ rest"
  have "CHR ''#'' \<notin> set prefix" "\<not> isDigit (char_at prefix 0)" "prefix \<in> fst ` set scm_StringToTypeId"
    using assms(1) by (auto simp: scm_StringToTypeId_def isDigit_def)
  then have type: "type_prefix e_ULINT (prefix @ ''#'' @ ?q) = Some ?q"
    using type_prefix_hash [of prefix e_ULINT ?q] by simp
  have text_eq: "duration_toString prefix c @ rest = (prefix @ ''#'') @ ?q" "prefix @ ''#'' @ ?q = (prefix @ ''#'') @ ?q"
    using d(1) by simp_all
  show ?thesis
  proof (cases "sign = []")
    case True
    have "CHR ''#'' \<notin> set (take 2 (u @ rest))"
      using d(5) in_sequence_hd [OF assms(2)] by (cases u; cases "tl u"; cases rest) (auto simp: unit_text_def)
    moreover have "hd (u @ rest) = hd u" "hd u \<notin> set '' (''" "\<not> isDigit (hd u)" "u @ rest \<noteq> []"
      using d(5) by (auto simp: unit_text_def isDigit_def)
    ultimately show ?thesis
      using no_repeat_digits [of "prefix @ ''#'' @ ?q" ds "u @ rest" "prefix @ ''#''"] type d(3,4) True text_eq
      by simp
  next
    case False
    then show ?thesis
      using no_repeat_stop [of "prefix @ ''#'' @ ?q" ?q "prefix @ ''#''"] type d(2) text_eq
      by simp
  qed
qed

lemma quoted_alone:
  assumes "n \<in> {''CHAR'', ''WCHAR''}" "q = apostrophe \<or> q = double_quote"
  shows "no_repeat (n @ ''#'' @ q # r)"
proof -
  have "CHR ''#'' \<notin> set n" "\<not> isDigit (char_at n 0)" "n \<in> fst ` set scm_StringToTypeId"
    using assms(1) by (auto simp: scm_StringToTypeId_def isDigit_def)
  then have "type_prefix e_ULINT (n @ ''#'' @ q # r) = Some (q # r)"
    using type_prefix_hash [of n e_ULINT "q # r"] by simp
  then show ?thesis
    using assms(2) by (intro no_repeat_stop [of _ "q # r" "n @ ''#''"]) (auto simp: isDigit_def)
qed

lemma BOOL_alone: "no_repeat (toString_BOOL c @ rest)"
proof (cases "getTUINT8 c \<noteq> 0")
  case True
  then show ?thesis
    by (intro no_repeat_no_name [of _ "''TR''" "''UE'' @ rest"])
      (auto simp: toString_BOOL_def scm_StringToTypeId_def isDigit_def)
next
  case False
  then show ?thesis
    by (intro no_repeat_no_name [of _ "''FA''" "''LSE'' @ rest"])
      (auto simp: toString_BOOL_def scm_StringToTypeId_def isDigit_def)
qed

lemma number_starts: "type_bounds t = Some b \<Longrightarrow> starts_value (toString_elem t c)"
proof -
  assume "type_bounds t = Some b"
  then obtain ds where ds: "toString_elem t c = (if text_value t c < 0 then ''-'' @ ds else ds)"
      "\<forall>ch\<in>set ds. isDigit ch" "ds \<noteq> []"
    by (rule toString_shape)
  then show ?thesis
    by (cases ds) (auto simp: starts_value_def isDigit_def)
qed

lemma simple_form: "text_form (simple_toString t) (simple_fromString t) (simple_ok t) (simple_same t) (simple_ends t)"
proof
  fix v old rest
  assume ok: "simple_ok t v" "simple_ok t old" and ends: "simple_ends t v rest"
  show "\<exists>w. simple_fromString t (simple_toString t v @ rest) old = Some (int (length (simple_toString t v)), w) \<and>
      simple_ok t w \<and> simple_same t v w"
  proof (cases v)
    case (Cell c)
    then obtain d where old: "old = Cell d"
      using ok by (cases old) auto
    consider "t = e_BOOL" | "t = e_TIME" | "t = e_LTIME" | b where "type_bounds t = Some b" "t \<notin> {e_BOOL, e_TIME, e_LTIME}"
      using ok(1) Cell by auto
    then show ?thesis
    proof cases
      case 1
      then show ?thesis
        using Cell old fromString_toString_BOOL [of c rest d] by auto
    next
      case 2
      then show ?thesis
        using Cell old ends TIME_roundtrip [of c rest d] by simp
    next
      case 3
      then show ?thesis
        using Cell old ends LTIME_roundtrip [of c rest d] by simp
    next
      case 4
      then have "ends_number (text_value t c) rest"
        using Cell ends by simp
      from fromString_toString [OF 4(1) this, of d] show ?thesis
        using Cell old 4 by auto
    qed
  next
    case (Chars s)
    then have "old = Chars (case old of Chars x \<Rightarrow> x)"
      using ok by (cases old) auto
    then show ?thesis
      using Chars ok STRING_start_quote [of "[]"] string_loop_text [of s rest "[]" 1]
      by (cases old) (simp_all add: CIEC_STRING_fromString_def CIEC_STRING_toString_def)
  next
    case (Char c)
    then show ?thesis
      using ok CIEC_CHAR_roundtrip [of c rest] by (cases old) simp_all
  next
    case (WChar c)
    then show ?thesis
      using ok CIEC_WCHAR_roundtrip [of c rest] by (cases old) simp_all
  qed (use ok in simp)
next
  fix v rest
  assume "simple_ok t v" "simple_ends t v rest" "in_sequence rest"
  then show "no_repeat (simple_toString t v @ rest)"
    using number_alone [of t _ _ rest] duration_alone [of "''T''" rest] duration_alone [of "''LT''" rest] BOOL_alone
      quoted_alone [of "''CHAR''" apostrophe] quoted_alone [of "''WCHAR''" double_quote] no_repeat_bracket [of apostrophe]
    by (cases v) (auto simp: CIEC_TIME_toString_def CIEC_LTIME_toString_def CIEC_CHAR_toString_def
        CIEC_WCHAR_toString_def CIEC_STRING_toString_def)
next
  fix v
  assume "simple_ok t v"
  moreover have "starts_value (duration_toString prefix c)" if "prefix \<in> {''T'', ''LT''}" for prefix c
    using that duration_body [of prefix c] by (auto simp: starts_value_def)
  ultimately show "starts_value (simple_toString t v)"
    using number_starts [of t]
    by (cases v) (auto simp: CIEC_TIME_toString_def CIEC_LTIME_toString_def CIEC_CHAR_toString_def
        CIEC_WCHAR_toString_def CIEC_STRING_toString_def toString_BOOL_def starts_value_def)
qed

section \<open>Values of any shape\<close>

definition member_name :: "string \<Rightarrow> bool" where
  "member_name n \<longleftrightarrow> n \<noteq> [] \<and> set n \<inter> set '' :)'' = {}"

text \<open>The values that belong to a shape.\<close>

primrec has_shape :: "any_shape \<Rightarrow> any_state \<Rightarrow> bool" where
  "has_shape (Simple t) = simple_ok t"
| "has_shape (ArrayOf n d ty) =
     (\<lambda>v. v = Parts (parts v) \<and> n < 2 ^ 64 \<and> length (parts v) = n \<and> (\<forall>x\<in>set (parts v). has_shape ty x))"
| "has_shape (StructOf ms) =
     (\<lambda>v. v = Parts (parts v) \<and> distinct (map fst ms) \<and> (\<forall>m\<in>set ms. member_name (fst m)) \<and>
        list_all2 (\<lambda>p x. snd p x) (map (\<lambda>m. map_prod id has_shape m) ms) (parts v))"

text \<open>The same value in possibly different representations.\<close>

fun same_members :: "(string \<times> ('v \<Rightarrow> 'v \<Rightarrow> bool)) list \<Rightarrow> 'v list \<Rightarrow> 'v list \<Rightarrow> bool" where
  "same_members [] [] [] = True"
| "same_members (m # ms) (v # vs) (w # ws) = (snd m v w \<and> same_members ms vs ws)"
| "same_members ms vs ws = False"

primrec same_value :: "any_shape \<Rightarrow> any_state \<Rightarrow> any_state \<Rightarrow> bool" where
  "same_value (Simple t) = simple_same t"
| "same_value (ArrayOf n d ty) = (\<lambda>v w. list_all2 (same_value ty) (parts v) (parts w))"
| "same_value (StructOf ms) =
     (\<lambda>v w. same_members (map (\<lambda>m. map_prod id same_value m) ms) (parts v) (parts w))"

text \<open>The text that follows each number or duration in a value must end it.\<close>

abbreviation member_texts :: "(string \<times> any_shape) list \<Rightarrow> any_state list \<Rightarrow> (string \<times> string) list" where
  "member_texts ms vs \<equiv> map2 (\<lambda>m v. (fst m, any_toString (snd m) v)) ms vs"

fun members_end ::
    "(string \<times> ('v \<Rightarrow> string \<Rightarrow> bool)) list \<Rightarrow> (string \<times> string) list \<Rightarrow> 'v list \<Rightarrow> string \<Rightarrow> bool" where
  "members_end (m # ms) (t # ts) (v # vs) rest =
     (snd m v ((if ts \<noteq> [] then '','' else []) @ struct_loop ts @ '')'' @ rest) \<and> members_end ms ts vs rest)"
| "members_end ms ts vs rest = True"

primrec any_ends :: "any_shape \<Rightarrow> any_state \<Rightarrow> string \<Rightarrow> bool" where
  "any_ends (Simple t) = simple_ends t"
| "any_ends (ArrayOf n d ty) = (\<lambda>v. array_ends (any_ends ty) (any_toString ty) (parts v))"
| "any_ends (StructOf ms) =
     (\<lambda>v. members_end (map (\<lambda>m. map_prod id any_ends m) ms) (member_texts ms (parts v)) (parts v))"

abbreviation any_form :: "any_shape \<Rightarrow> bool" where
  "any_form ty \<equiv> text_form (any_toString ty) (any_fromString ty) (has_shape ty) (same_value ty) (any_ends ty)"

lemma any_toString_struct: "any_toString (StructOf ms) v = struct_toString (member_texts ms (parts v))"
proof -
  have "map2 (\<lambda>m v. (fst m, snd m v)) (map (\<lambda>m. map_prod id any_toString m) ms) vs = member_texts ms vs" for vs
    by (induction ms arbitrary: vs) (simp, case_tac vs, auto)
  then show ?thesis
    by simp
qed

lemma getMemberIndex_append: "n \<notin> set ms \<Longrightarrow> getMemberIndex n (ms @ n # ms') = Some (length ms)"
  by (induction ms) auto

lemma parseNextElementId_name:
  assumes "member_name n"
  shows "parseNextElementId (n @ '':='' @ r) = (n, '':='' @ r)"
proof -
  have "takeWhile (\<lambda>ch. ch \<notin> set '' :)'') (n @ '':='' @ r) = n"
    using assms by (subst takeWhile_append2) (auto simp: member_name_def)
  then show ?thesis
    by (simp add: parseNextElementId_def Let_def)
qed

lemma initializeMember_parsed:
  assumes "member_name n" "n \<notin> set (map fst ms)" "length ws = length ms" "starts_value t"
    and "parse (t @ rest) old = Some (int (length t), w)"
  shows "initializeMember (ms @ (n, parse) # ms') (n @ '':='' @ t @ rest) (ws @ old # olds) =
    Some (int (length (n @ '':='' @ t)), ws @ w # olds)"
proof -
  have "getMemberIndex n (map fst (ms @ (n, parse) # ms')) = Some (length ws)"
    using getMemberIndex_append [OF assms(2), of "map fst ms'"] assms(3) by simp
  moreover have "snd ((ms @ (n, parse) # ms') ! length ws) = parse"
    using assms(3) by (simp add: nth_append)
  moreover have "skip_blanks (t @ rest) = t @ rest"
    using starts_value_append [OF assms(4)] by blast
  ultimately show ?thesis
    using assms(5) by (simp add: initializeMember_def parseNextElementId_name [OF assms(1), of "t @ rest", simplified])
qed

lemma member_name_hd: "member_name n \<Longrightarrow> n @ s \<noteq> [] \<and> hd (n @ s) \<noteq> CHR '' '' \<and> hd (n @ s) \<noteq> CHR '')''"
  by (cases n) (auto simp: member_name_def)

abbreviation parsers :: "(string \<times> any_shape) list \<Rightarrow> (string \<times> (string \<Rightarrow> any_state \<Rightarrow> (int \<times> any_state) option)) list" where
  "parsers ms \<equiv> map (\<lambda>m. map_prod id any_fromString m) ms"

lemma members_parsed:
  assumes "\<forall>m\<in>set ms. any_form (snd m)" "distinct (map fst (before @ ms))" "\<forall>m\<in>set ms. member_name (fst m)"
    and "list_all2 (\<lambda>p x. snd p x) (map (\<lambda>m. map_prod id has_shape m) ms) vs"
    and "list_all2 (\<lambda>p x. snd p x) (map (\<lambda>m. map_prod id has_shape m) ms) olds"
    and "members_end (map (\<lambda>m. map_prod id any_ends m) ms) (member_texts ms vs) vs rest" "length xs = length before"
  shows "\<exists>ws. sequence_loop CHR '')'' (initializeMember (parsers (before @ ms)))
        (struct_loop (member_texts ms vs) @ '')'' @ rest) (xs @ olds) = Some ('')'' @ rest, xs @ ws) \<and>
      same_members (map (\<lambda>m. map_prod id same_value m) ms) vs ws \<and>
      list_all2 (\<lambda>p x. snd p x) (map (\<lambda>m. map_prod id has_shape m) ms) ws"
  using assms
proof (induction ms arbitrary: before xs vs olds)
  case Nil
  then show ?case
    by (simp add: sequence_loop.simps)
next
  case (Cons m ms)
  obtain n ty where m: "m = (n, ty)"
    by (cases m)
  obtain v vs' where vs: "vs = v # vs'"
    using Cons.prems(4) by (cases vs) auto
  obtain old olds' where olds: "olds = old # olds'"
    using Cons.prems(5) by (cases olds) auto
  let ?texts = "member_texts ms vs'" and ?t = "any_toString ty v"
  let ?tail = "(if ?texts \<noteq> [] then '','' else []) @ struct_loop ?texts @ '')'' @ rest"
  have form: "any_form ty"
    using Cons.prems(1) m by simp
  have v: "has_shape ty v" "has_shape ty old" "any_ends ty v ?tail"
    using Cons.prems(4,5,6) m vs olds by simp_all
  obtain w where w: "any_fromString ty (?t @ ?tail) old = Some (int (length ?t), w)" "has_shape ty w" "same_value ty v w"
    using text_form.roundtrip [OF form v] by blast
  have n: "member_name n" "n \<notin> set (map fst (parsers before))"
    using Cons.prems(2,3) m by (auto simp: comp_def)
  have step: "initializeMember (parsers (before @ m # ms)) (n @ '':='' @ ?t @ ?tail) (xs @ olds) =
      Some (int (length (n @ '':='' @ ?t)), xs @ w # olds')"
    using initializeMember_parsed [of n "parsers before" xs ?t "any_fromString ty" ?tail old w "parsers ms" olds']
      n text_form.starts [OF form v(1)] w(1) Cons.prems(7) m olds by simp
  let ?s = "n @ '':='' @ ?t @ ?tail"
  have loop: "sequence_loop CHR '')'' (initializeMember (parsers (before @ m # ms))) ?s (xs @ olds) =
      (case skip_blanks ?tail of
         ch # r \<Rightarrow> if ch = CHR '','' then sequence_loop CHR '')'' (initializeMember (parsers (before @ m # ms))) r
             (xs @ w # olds') else Some (ch # r, xs @ w # olds')
       | [] \<Rightarrow> Some ([], xs @ w # olds'))"
    using member_name_hd [OF n(1), of "'':='' @ ?t @ ?tail"] step
    by (intro sequence_loop_step [of _ "n @ '':='' @ ?t"]) simp_all
  have prems: "\<forall>m\<in>set ms. any_form (snd m)" "distinct (map fst ((before @ [m]) @ ms))"
      "\<forall>m\<in>set ms. member_name (fst m)" "list_all2 (\<lambda>p x. snd p x) (map (\<lambda>m. map_prod id has_shape m) ms) vs'"
      "list_all2 (\<lambda>p x. snd p x) (map (\<lambda>m. map_prod id has_shape m) ms) olds'"
      "members_end (map (\<lambda>m. map_prod id any_ends m) ms) (member_texts ms vs') vs' rest"
      "length (xs @ [w]) = length (before @ [m])"
    using Cons.prems vs olds by (simp_all add: id_def)
  obtain ws where ws: "same_members (map (\<lambda>m. map_prod id same_value m) ms) vs' ws"
      "list_all2 (\<lambda>p x. snd p x) (map (\<lambda>m. map_prod id has_shape m) ms) ws"
      "sequence_loop CHR '')'' (initializeMember (parsers (before @ m # ms)))
        (struct_loop ?texts @ '')'' @ rest) (xs @ w # olds') = Some ('')'' @ rest, xs @ w # ws)"
    using Cons.IH [OF prems] by (auto simp: id_def)
  have "sequence_loop CHR '')'' (initializeMember (parsers (before @ m # ms))) ?s (xs @ olds) =
      Some ('')'' @ rest, xs @ w # ws)"
  proof (cases "?texts = []")
    case True
    then have "ms = []"
      using Cons.prems(4) vs by (cases ms; cases vs') auto
    then show ?thesis
      unfolding loop using ws(3) True by (simp add: sequence_loop.simps)
  next
    case False
    then show ?thesis
      unfolding loop using ws(3) by simp
  qed
  moreover have "struct_loop (member_texts (m # ms) vs) @ '')'' @ rest = ?s"
    using m vs by (simp add: writeToStringNameValuePair_def)
  ultimately have "sequence_loop CHR '')'' (initializeMember (parsers (before @ m # ms)))
      (struct_loop (member_texts (m # ms) vs) @ '')'' @ rest) (xs @ olds) = Some ('')'' @ rest, xs @ w # ws)"
    by (simp only:)
  moreover have "same_members (map (\<lambda>m. map_prod id same_value m) (m # ms)) vs (w # ws)"
      "list_all2 (\<lambda>p x. snd p x) (map (\<lambda>m. map_prod id has_shape m) (m # ms)) (w # ws)"
    using ws(1,2) w(2,3) m vs by (simp_all add: id_def)
  ultimately show ?case
    by blast
qed

lemma struct_form:
  assumes "\<forall>m\<in>set ms. any_form (snd m)"
  shows "any_form (StructOf ms)"
proof
  fix v old rest
  assume v: "has_shape (StructOf ms) v" "has_shape (StructOf ms) old" "any_ends (StructOf ms) v rest"
  have shape: "distinct (map fst ([] @ ms))" "\<forall>m\<in>set ms. member_name (fst m)"
      "list_all2 (\<lambda>p x. snd p x) (map (\<lambda>m. map_prod id has_shape m) ms) (parts v)"
      "list_all2 (\<lambda>p x. snd p x) (map (\<lambda>m. map_prod id has_shape m) ms) (parts old)"
      "members_end (map (\<lambda>m. map_prod id any_ends m) ms) (member_texts ms (parts v)) (parts v) rest"
    using v unfolding has_shape.simps any_ends.simps append_Nil by blast+
  from members_parsed [OF assms shape(1,2,3,4,5), of "[]"] obtain ws where ws:
      "sequence_loop CHR '')'' (initializeMember (parsers ms))
        (struct_loop (member_texts ms (parts v)) @ '')'' @ rest) (parts old) = Some ('')'' @ rest, ws)"
      "same_members (map (\<lambda>m. map_prod id same_value m) ms) (parts v) ws"
      "list_all2 (\<lambda>p x. snd p x) (map (\<lambda>m. map_prod id has_shape m) ms) ws"
    by auto
  then have "any_fromString (StructOf ms) (any_toString (StructOf ms) v @ rest) old =
      Some (int (length (any_toString (StructOf ms) v)), Parts ws)"
    unfolding any_toString_struct by (simp add: struct_fromString_def struct_toString_def char_at_def)
  moreover have "has_shape (StructOf ms) (Parts ws)" "same_value (StructOf ms) v (Parts ws)"
    using ws(2,3) shape(1,2) by (simp_all only: has_shape.simps same_value.simps parts.simps append_Nil simp_thms)
  ultimately show "\<exists>w. any_fromString (StructOf ms) (any_toString (StructOf ms) v @ rest) old =
      Some (int (length (any_toString (StructOf ms) v)), w) \<and> has_shape (StructOf ms) w \<and> same_value (StructOf ms) v w"
    by blast
next
  fix v rest
  show "no_repeat (any_toString (StructOf ms) v @ rest)"
    unfolding any_toString_struct by (simp add: struct_toString_def no_repeat_bracket)
  show "starts_value (any_toString (StructOf ms) v)"
    unfolding any_toString_struct by (simp add: struct_toString_def starts_value_def)
qed

lemma any_text_form: "any_form ty"
proof (induction ty)
  case (Simple t)
  then show ?case
    using simple_form [of t] by simp
next
  case (ArrayOf n d ty)
  show ?case
  proof
    fix v old rest
    assume v: "has_shape (ArrayOf n d ty) v" "has_shape (ArrayOf n d ty) old" "any_ends (ArrayOf n d ty) v rest"
    then have n: "n < 2 ^ 64"
      by simp
    show "\<exists>w. any_fromString (ArrayOf n d ty) (any_toString (ArrayOf n d ty) v @ rest) old =
        Some (int (length (any_toString (ArrayOf n d ty) v)), w) \<and> has_shape (ArrayOf n d ty) w \<and>
        same_value (ArrayOf n d ty) v w"
      using text_form.roundtrip [OF text_form.array_form [OF ArrayOf.IH n], of "parts v" "parts old" rest d] v
      by auto
  next
    fix v rest
    show "no_repeat (any_toString (ArrayOf n d ty) v @ rest)"
      by (simp add: array_toString_def no_repeat_bracket)
    show "starts_value (any_toString (ArrayOf n d ty) v)"
      by (simp add: array_toString_def starts_value_def)
  qed
next
  case (StructOf ms)
  show ?case
    by (rule struct_form) (use StructOf in \<open>auto simp: snds.simps\<close>)
qed

interpretation any_value: text_form "any_toString ty" "any_fromString ty" "has_shape ty" "same_value ty" "any_ends ty"
  for ty
  by (rule any_text_form)

section \<open>Parsers stay inside the text and keep the shape\<close>

text \<open>Whatever the text, the number of characters is -1 or within it, and the object stays one of its
  class: an array keeps its number of elements.\<close>

locale text_parser =
  fixes parse :: "string \<Rightarrow> 'v \<Rightarrow> (int \<times> 'v) option" and ok :: "'v \<Rightarrow> bool"
  assumes keeps: "ok v \<Longrightarrow> parse s v = Some (n, w) \<Longrightarrow> ok w \<and> - 1 \<le> n \<and> n \<le> int (length s)"

lemma time_unit_inside: "time_unit f s = Time_Unit g e \<Longrightarrow> e \<noteq> [] \<and> length e \<le> length s"
  by (cases s; cases "tl s") (auto simp: time_unit_def char_at_def to_lower_def char_code_def Let_def split: if_splits)

lemma time_loop_inside:
  "time_loop stops sign s n f v = Some (k, c) \<Longrightarrow> n \<le> k \<and> k \<le> n + int (length s)"
proof (induction stops sign s n f v rule: time_loop.induct)
  case (1 stops sign s n f v)
  obtain nBuf pcEnd erange where n: "strtol 10 s = (nBuf, pcEnd, erange)"
    by (cases "strtol 10 s") auto
  note shorter = strtol_length [OF n]
  show ?case
  proof (cases "time_unit f pcEnd")
    case (Time_Unit g e)
    note e = time_unit_inside [OF Time_Unit]
    then have tl: "int (length (tl e)) = int (length e) - 1"
      by (cases e) simp_all
    let ?n = "n + (int (length s) - int (length e)) + 1" and ?v = "v + word_of_int nBuf * g * sign"
    have "?n \<le> k \<and> k \<le> ?n + int (length (tl e))"
    proof (cases "tl e \<noteq> [] \<and> \<not> stops (hd (tl e))")
      case True
      then have "time_loop stops sign (tl e) ?n g ?v = Some (k, c)"
        using "1.prems" n Time_Unit unfolding time_loop.simps [of stops sign s] by (simp add: Let_def)
      then show ?thesis
        by (intro "1.IH" [where x = nBuf and y = "(pcEnd, erange)" and xa = pcEnd and ya = erange])
          (use n Time_Unit True in simp_all)
    next
      case False
      then show ?thesis
        using "1.prems" n Time_Unit by (subst (asm) time_loop.simps) (auto simp: Let_def)
    qed
    then show ?thesis
      using tl e shorter by linarith
  qed (use "1.prems" n in \<open>auto simp: time_loop.simps [of stops sign s] split: if_splits\<close>)
qed

lemma char_at_inside: "char_at s i = ch \<Longrightarrow> ch \<noteq> CHR 0x00 \<Longrightarrow> i < length s"
  by (auto simp: char_at_def split: if_splits)

lemma duration_literal_inside:
  assumes "duration_literal stops n s = Some (k, c)"
  shows "n \<le> k \<and> k \<le> n + int (length s)"
proof -
  define ime where "ime \<longleftrightarrow> map to_lower (take 3 s) = ''ime''"
  define r where "r = (if ime then drop 3 s else s)"
  have "length (map to_lower (take 3 s)) = 3" if ime
    using that unfolding ime_def by simp
  then have r: "int (length r) + (if ime then 3 else 0) = int (length s)"
    by (auto simp: r_def)
  have loop: "char_at r 0 = CHR ''#''"
    "time_loop stops (if char_at (tl r) 0 = CHR ''-'' then -1 else 1)
       (if char_at (tl r) 0 = CHR ''+'' \<or> char_at (tl r) 0 = CHR ''-'' then tl (tl r) else tl r)
       ((if ime then n + 3 else n) + 1 + (if char_at (tl r) 0 = CHR ''+'' \<or> char_at (tl r) 0 = CHR ''-'' then 1 else 0))
       1 0 = Some (k, c)"
    using assms unfolding duration_literal_def Let_def ime_def [symmetric] r_def [symmetric]
    by (simp_all split: if_splits)
  have "0 < length r"
    by (rule char_at_inside [OF loop(1)]) simp
  then have l: "int (length (tl r)) = int (length r) - 1"
    by (cases r) simp_all
  show ?thesis
  proof (cases "char_at (tl r) 0 = CHR ''+'' \<or> char_at (tl r) 0 = CHR ''-''")
    case True
    then have "0 < length (tl r)"
      using char_at_inside [of "tl r" 0] by force
    then have "int (length (tl (tl r))) = int (length (tl r)) - 1"
      by (cases "tl r") simp_all
    then show ?thesis
      using time_loop_inside [OF loop(2)] True r l by (auto split: if_splits)
  next
    case False
    then show ?thesis
      using time_loop_inside [OF loop(2)] r l by (auto split: if_splits)
  qed
qed

lemma plain_duration_inside: "plain_duration s = Some (k, c) \<Longrightarrow> 0 \<le> k \<and> k \<le> int (length s)"
  by (auto simp: plain_duration_def dest: strtol_length split: prod.splits)

lemma to_lower_zero [simp]: "to_lower CHR 0x00 = CHR 0x00"
  by (simp add: to_lower_def char_code_def)

lemma TIME_inside: "CIEC_TIME_fromString s c = (n, d) \<Longrightarrow> - 1 \<le> n \<and> n \<le> int (length s)"
  by (cases s) (auto simp: CIEC_TIME_fromString_def parsed_duration_def split: if_splits option.splits
      dest!: duration_literal_inside plain_duration_inside)

lemma LTIME_inside: "CIEC_LTIME_fromString s c = (n, d) \<Longrightarrow> - 1 \<le> n \<and> n \<le> int (length s)"
  by (cases s; cases "tl s") (auto simp: CIEC_LTIME_fromString_def parsed_duration_def char_at_def split: if_splits option.splits
      dest!: duration_literal_inside plain_duration_inside)

lemma string_loop_inside: "string_loop s out i = Some (v, j) \<Longrightarrow> i \<le> j \<and> j < i + length s"
proof (induction "length s" arbitrary: s out i rule: less_induct)
  case less
  obtain ch t where s: "s = ch # t"
    using less.prems by (cases s) (simp_all add: string_loop.simps)
  consider (hex) out' where "string_loop (drop 2 t) out' (i + 3) = Some (v, j)" "isHexDigit (char_at t 1)"
    | (escape) out' where "string_loop (drop 1 t) out' (i + 2) = Some (v, j)"
    | (close) "i = j"
    | (plain) out' where "string_loop t out' (i + 1) = Some (v, j)"
    using less.prems unfolding s by (subst (asm) string_loop.simps) (simp split: if_splits)
  then show ?case
  proof cases
    case hex
    have "char_at t 1 \<noteq> CHR 0x00"
      using hex(2) by (auto simp: isHexDigit_def isDigit_def isAtoFChar_def to_upper_def char_code_def)
    then have "1 < length t"
      by (rule char_at_inside [OF refl])
    moreover have "length (drop 2 t) < length s"
      using s by simp
    ultimately show ?thesis
      using less.hyps [OF _ hex(1)] s by auto
  next
    case escape
    then show ?thesis
      using less.hyps [OF _ escape] s by (cases t) (auto simp: string_loop.simps)
  next
    case plain
    then show ?thesis
      using less.hyps [OF _ plain] s by simp
  qed (simp add: s)
qed

lemma STRING_start_inside: "STRING_start s \<le> length s"
proof -
  have "length (takeWhile (\<lambda>ch. ch \<noteq> apostrophe) r) < length r" if "apostrophe \<in> set r" for r
    using that by (induction r) auto
  from this [of s] this [of "drop 7 s"] show ?thesis
    by (auto simp: STRING_start_def Let_def)
qed

lemma STRING_inside: "CIEC_STRING_fromString s = (n, v) \<Longrightarrow> - 1 \<le> n \<and> n \<le> int (length s)"
  using STRING_start_inside [of s]
  by (auto simp: CIEC_STRING_fromString_def split: option.splits dest!: string_loop_inside)

lemma BOOL_inside: "fromString_BOOL s c = (n, d) \<Longrightarrow> - 1 \<le> n \<and> n \<le> int (length s)"
proof -
  assume r: "fromString_BOOL s c = (n, d)"
  define k where "k = (if take 5 s = ''BOOL#'' then 5 else 0 :: nat)"
  define q where "q = drop k s"
  have "5 \<le> length s" if "take 5 s = ''BOOL#''"
    using arg_cong [OF that, of length] by simp
  then have k: "k + length q = length s"
    by (auto simp: k_def q_def)
  have "n = -1 \<or> n = int k + 1 \<and> 0 < length q \<or> n = int k + 4 \<and> 3 < length q \<or> n = int k + 5 \<and> 4 < length q"
    using r char_at_inside [of q 0] char_at_inside [of q 3] char_at_inside [of q 4]
    unfolding fromString_BOOL_def Let_def k_def [symmetric] q_def [symmetric]
    by (auto simp: either_case_def split: if_splits)
  then show ?thesis
    using k by (elim disjE) linarith+
qed

lemma CHAR_start_inside: "CHAR_start t q s = Some b \<Longrightarrow> q \<noteq> CHR 0x00 \<Longrightarrow> b \<le> length s"
proof -
  assume "CHAR_start t q s = Some b" "q \<noteq> CHR 0x00"
  moreover have "length t + 2 \<le> length s" if "take (length t + 2) s = t @ [CHR ''#'', q]"
    using arg_cong [OF that, of length] by simp
  moreover have "1 \<le> length s" if "char_at s 0 = q"
    using char_at_inside [OF that \<open>q \<noteq> CHR 0x00\<close>] by linarith
  ultimately show ?thesis
    by (auto simp: CHAR_start_def split: if_splits)
qed

definition consumes :: "nat \<Rightarrow> string \<Rightarrow> int \<Rightarrow> bool" where
  "consumes b r n \<longleftrightarrow> n = -1 \<or> (\<exists>k. n = int b + int k \<and> k \<le> length r)"

lemma consumes_at: "char_at r i \<noteq> CHR 0x00 \<Longrightarrow> n = int b + int (Suc i) \<Longrightarrow> consumes b r n"
  using char_at_inside [OF refl, of r i] by (metis Suc_leI consumes_def)

lemma consumes_intro:
  "consumes b r (- 1)" "char_at r 0 \<noteq> CHR 0x00 \<Longrightarrow> consumes b r (int b + 1)"
  "char_at r (Suc 0) \<noteq> CHR 0x00 \<Longrightarrow> consumes b r (int b + 2)" "char_at r 2 \<noteq> CHR 0x00 \<Longrightarrow> consumes b r (int b + 3)"
  "char_at r 3 \<noteq> CHR 0x00 \<Longrightarrow> consumes b r (int b + 4)" "char_at r 5 \<noteq> CHR 0x00 \<Longrightarrow> consumes b r (int b + 6)"
  by (simp_all add: consumes_at consumes_def [of b r "-1"])

lemma consumes_inside: "consumes b r n \<Longrightarrow> b + length r = length s \<Longrightarrow> - 1 \<le> n \<and> n \<le> int (length s)"
  by (auto simp: consumes_def)

lemma CHAR_inside:
  assumes "CIEC_CHAR_fromString s c = Some (n, d)"
  shows "- 1 \<le> n \<and> n \<le> int (length s)"
proof (cases "CHAR_start ''CHAR'' apostrophe s")
  case (Some b)
  define r where "r = drop b s"
  have "b \<le> length s"
    using CHAR_start_inside [OF Some] by simp
  then have b: "b + length r = length s"
    by (simp add: r_def)
  have "consumes b r n"
    using assms Some unfolding CIEC_CHAR_fromString_def
    by (auto simp: Let_def r_def [symmetric] split: if_splits option.splits intro: consumes_intro)
  then show ?thesis
    by (rule consumes_inside [OF _ b])
qed (use assms in \<open>simp add: CIEC_CHAR_fromString_def\<close>)

lemma WCHAR_inside:
  assumes "CIEC_WCHAR_fromString s c = Some (n, d)"
  shows "- 1 \<le> n \<and> n \<le> int (length s)"
proof (cases "CHAR_start ''WCHAR'' double_quote s")
  case (Some b)
  define r where "r = drop b s"
  have "b \<le> length s"
    using CHAR_start_inside [OF Some] by simp
  then have b: "b + length r = length s"
    by (simp add: r_def)
  have "consumes b r n"
    using assms Some unfolding CIEC_WCHAR_fromString_def
    by (auto simp: Let_def r_def [symmetric] split: if_splits option.splits intro: consumes_intro)
  then show ?thesis
    by (rule consumes_inside [OF _ b])
qed (use assms in \<open>simp add: CIEC_WCHAR_fromString_def\<close>)

lemma simple_parser: "text_parser (simple_fromString t) (simple_ok t)"
proof
  fix v s n w
  assume ok: "simple_ok t v" and r: "simple_fromString t s v = Some (n, w)"
  show "simple_ok t w \<and> - 1 \<le> n \<and> n \<le> int (length s)"
  proof (cases v)
    case (Cell c)
    then have "\<exists>d. w = Cell d"
      using r by (auto simp: map_prod_def split: if_splits prod.splits)
    moreover have "- 1 \<le> n \<and> n \<le> int (length s)"
      using r Cell BOOL_inside [of s c] TIME_inside [of s c] LTIME_inside [of s c] fromString_bounded [of t s c]
      by (auto simp: map_prod_def split: if_splits prod.splits)
    ultimately show ?thesis
      using ok Cell by auto
  next
    case (Char c)
    then show ?thesis
      using r ok CHAR_inside [of s c] by auto
  next
    case (WChar c)
    then show ?thesis
      using r ok WCHAR_inside [of s c] by auto
  next
    case (Chars x)
    then show ?thesis
      using r ok STRING_inside [of s] by (auto simp: map_prod_def split: prod.splits)
  qed (use ok in simp)
qed

lemma sequence_loop_keeps:
  assumes "\<And>s st n st'. I st \<Longrightarrow> item s st = Some (n, st') \<Longrightarrow> I st'"
    and "I st" "sequence_loop closing item s st = Some (e, st')"
  shows "I st' \<and> length e \<le> length s"
  using assms(2,3)
proof (induction "length s" arbitrary: s st rule: less_induct)
  case less
  note blank = skip_blanks_length [of s]
  show ?case
  proof (cases "s = [] \<or> hd s = closing")
    case True
    then show ?thesis
      using less.prems by (simp add: sequence_loop.simps)
  next
    case False
    then obtain n st1 where item: "item (skip_blanks s) st = Some (n, st1)"
      using less.prems(2) by (subst (asm) sequence_loop.simps) (auto split: option.splits)
    have I: "I st1"
      by (rule assms(1) [OF less.prems(1) item])
    show ?thesis
    proof (cases "n < 0")
      case True
      then show ?thesis
        using less.prems(2) False item I blank by (subst (asm) sequence_loop.simps) auto
    next
      case pos: False
      let ?r = "skip_blanks (drop (nat n) (skip_blanks s))"
      have short: "length ?r \<le> length s"
        using skip_blanks_length [of "drop (nat n) (skip_blanks s)"] blank by simp
      show ?thesis
      proof (cases ?r)
        case Nil
        then show ?thesis
          using less.prems(2) False item I pos by (subst (asm) sequence_loop.simps) auto
      next
        case (Cons ch r)
        then have shorter: "length (ch # r) \<le> length s"
          using short by simp
        have "sequence_loop closing item s st =
            (if ch = CHR '','' then sequence_loop closing item r st1 else Some (ch # r, st1))"
          using False item pos Cons by (subst sequence_loop.simps) simp
        then have loop: "(if ch = CHR '','' then sequence_loop closing item r st1 else Some (ch # r, st1)) = Some (e, st')"
          using less.prems(2) by simp
        show ?thesis
        proof (cases "ch = CHR '',''")
          case True
          then show ?thesis
            using less.hyps [of r st1] I loop shorter by simp
        next
          case False
          then show ?thesis
            using I loop shorter by auto
        qed
      qed
    qed
  qed
qed

lemma copy_round_keeps:
  "copy_round xs before vs = (before', vs') \<Longrightarrow> length before' + length vs' = length before + length vs \<and>
   set before' \<subseteq> set before \<union> set xs \<and> set vs' \<subseteq> set vs"
  by (induction xs before vs rule: copy_round.induct) auto

lemma repeat_loop_keeps:
  "repeat_loop k xs before vs = (before', vs') \<Longrightarrow> length before' + length vs' = length before + length vs \<and>
   set before' \<subseteq> set before \<union> set xs \<and> set vs' \<subseteq> set vs"
proof (induction k xs before vs rule: repeat_loop.induct)
  case (2 k xs before vs)
  show ?case
  proof (cases "vs = []")
    case False
    obtain b v where r: "copy_round xs before vs = (b, v)"
      by fastforce
    then show ?thesis
      using "2.IH" [OF False r [symmetric]] "2.prems" False copy_round_keeps [OF r] by auto
  qed (use 2 in simp)
qed simp

context text_parser
begin

definition fill_ok :: "nat \<Rightarrow> 'v fill \<Rightarrow> bool" where
  "fill_ok k st \<longleftrightarrow> (case st of (before, vs, buf) \<Rightarrow>
     length before + length vs = k \<and> (\<forall>x\<in>set before \<union> set vs. ok x) \<and> ok buf)"

lemma simple_keeps:
  assumes "fill_ok k st" "initializeSimpleFromString parse s st = Some (n, st')"
  shows "fill_ok k st' \<and> - 1 \<le> n \<and> n \<le> int (length s)"
proof -
  obtain before vs buf where st: "st = (before, vs, buf)"
    by (cases st)
  show ?thesis
  proof (cases vs)
    case Nil
    then show ?thesis
      using assms st by (auto simp: fill_ok_def dest: keeps)
  next
    case (Cons x xs)
    then show ?thesis
      using assms st by (auto simp: fill_ok_def dest: keeps)
  qed
qed

lemma item_keeps:
  assumes "fill_ok k st" "initializeFromString parse s st = Some (n, st')"
  shows "fill_ok k st' \<and> - 1 \<le> n \<and> n \<le> int (length s)"
proof -
  obtain m c where m: "fromString_elem e_ULINT s 0 = Some (m, c)"
    using assms(2) by (cases "fromString_elem e_ULINT s 0") (auto simp: initializeFromString_def)
  let ?r = "skip_blanks (drop (nat m) s)"
  show ?thesis
  proof (cases "0 < m \<and> char_at ?r 0 = CHR ''(''")
    case False
    then show ?thesis
      using assms simple_keeps [of k st s n st'] m unfolding initializeFromString_def Let_def by auto
  next
    case True
    have "0 < length ?r"
      by (rule char_at_inside [of ?r 0 "CHR ''(''"]) (use True in simp_all)
    moreover have "length ?r \<le> length s"
      using skip_blanks_length [of "drop (nat m) s"] by simp
    ultimately have r: "length (tl ?r) < length s"
      unfolding length_tl by linarith
    obtain e before vs buf where e:
        "sequence_loop CHR '')'' (initializeSimpleFromString parse) (tl ?r) st = Some (e, before, vs, buf)"
      using assms(2) m True unfolding initializeFromString_def Let_def by (auto split: option.splits)
    have I: "fill_ok k (before, vs, buf)" "length e \<le> length (tl ?r)"
      using sequence_loop_keeps [of "fill_ok k", OF conjunct1 [OF simple_keeps] assms(1) e] by simp_all
    show ?thesis
    proof (cases "char_at e 0 = CHR '')''")
      case False
      then show ?thesis
        using assms(2) m True e I(1) unfolding initializeFromString_def Let_def by auto
    next
      case closed: True
      obtain b v where b: "repeat_loop (unat c - 1) (drop (length (fst st)) before) before vs = (b, v)"
        by fastforce
      have "set b \<union> set v \<subseteq> set before \<union> set vs" "length b + length v = length before + length vs"
        using repeat_loop_keeps [OF b] set_drop_subset [of "length (fst st)" before] by auto
      then have "fill_ok k (b, v, buf)"
        using I(1) by (auto simp: fill_ok_def)
      moreover have "st' = (b, v, buf)" "n = int (length s) - int (length e) + 1"
        using assms(2) m True e closed b unfolding initializeFromString_def Let_def by auto
      moreover have "1 \<le> int (length e)"
        using char_at_inside [OF closed] by (cases e) simp_all
      moreover have "int (length e) \<le> int (length s)"
        using I(2) r by linarith
      ultimately show ?thesis
        by simp
    qed
  qed
qed

lemma array_keeps:
  assumes "\<forall>x\<in>set es. ok x" "ok dflt" "array_fromString parse dflt s es = Some (n, ws)"
  shows "length ws = length es \<and> (\<forall>x\<in>set ws. ok x) \<and> - 1 \<le> n \<and> n \<le> int (length s)"
proof (cases "char_at s 0 = CHR ''[''")
  case True
  have s: "0 < length s"
    by (rule char_at_inside [OF True]) simp
  obtain e before vs buf where e:
      "sequence_loop CHR '']'' (initializeFromString parse) (tl s) ([], es, dflt) = Some (e, before, vs, buf)"
    using assms(3) True unfolding array_fromString_def by (auto split: option.splits)
  have "fill_ok (length es) ([], es, dflt)"
    using assms(1,2) by (simp add: fill_ok_def)
  from sequence_loop_keeps [of "fill_ok (length es)", OF conjunct1 [OF item_keeps] this e]
  have I: "fill_ok (length es) (before, vs, buf)" "length e \<le> length (tl s)"
    by simp_all
  have "1 \<le> int (length e)" if "char_at e 0 = CHR '']''"
    using char_at_inside [OF that] by (cases e) simp_all
  moreover have "int (length e) \<le> int (length s) - 1"
    using I(2) s unfolding length_tl by linarith
  ultimately show ?thesis
    using assms(2,3) True e I(1) s unfolding array_fromString_def
    by (auto simp: fill_ok_def set_replicate_conv_if split: if_splits)
qed (use assms in \<open>auto simp: array_fromString_def\<close>)

end

text \<open>Structures: the member parsers keep the shapes of the members.\<close>

primrec default_ok :: "any_shape \<Rightarrow> bool" where
  "default_ok (Simple t) = True"
| "default_ok (ArrayOf n d ty) = (has_shape ty d \<and> default_ok ty)"
| "default_ok (StructOf ms) = (\<forall>m\<in>set (map (\<lambda>m. map_prod id default_ok m) ms). snd m)"

lemma getMemberIndex_Some: "getMemberIndex n ms = Some i \<Longrightarrow> i < length ms"
  by (induction ms arbitrary: i) (auto split: if_splits)

lemma parseNextElementId_inside: "parseNextElementId s = (n, r) \<Longrightarrow> length r \<le> length s"
  by (auto simp: parseNextElementId_def Let_def split: if_splits)

lemma initializeMember_keeps:
  assumes "\<forall>m\<in>set ms. text_parser (any_fromString (snd m)) (has_shape (snd m))"
    and "list_all2 (\<lambda>p x. snd p x) (map (\<lambda>m. map_prod id has_shape m) ms) vs"
    and "initializeMember (parsers ms) s vs = Some (n, ws)"
  shows "list_all2 (\<lambda>p x. snd p x) (map (\<lambda>m. map_prod id has_shape m) ms) ws \<and> - 1 \<le> n \<and> n \<le> int (length s)"
proof -
  obtain name r where name: "parseNextElementId s = (name, r)"
    by fastforce
  let ?q = "skip_blanks (drop 2 (skip_blanks r))"
  have q: "length ?q \<le> length s"
    using parseNextElementId_inside [OF name] skip_blanks_length [of r] skip_blanks_length [of "drop 2 (skip_blanks r)"]
    by simp
  show ?thesis
  proof (cases "take 2 (skip_blanks r) = '':='' \<and> getMemberIndex name (map fst (parsers ms)) \<noteq> None")
    case False
    then show ?thesis
      using assms(2,3) name by (auto simp: initializeMember_def Let_def split: option.splits if_splits)
  next
    case True
    then obtain i where i: "getMemberIndex name (map fst (parsers ms)) = Some i"
      by blast
    then have "i < length ms"
      using getMemberIndex_Some by fastforce
    then have p: "snd (parsers ms ! i) = any_fromString (snd (ms ! i))"
        "text_parser (any_fromString (snd (ms ! i))) (has_shape (snd (ms ! i)))" "has_shape (snd (ms ! i)) (vs ! i)"
      using assms(1,2) by (auto simp: list_all2_conv_all_nth)
    obtain len v where v: "any_fromString (snd (ms ! i)) ?q (vs ! i) = Some (len, v)"
        "n = (if 0 \<le> len then int (length s) - int (length ?q) + len else -1)" "ws = vs[i := v]"
      using assms(3) True i name p(1) by (auto simp: initializeMember_def Let_def split: option.splits)
    note k = text_parser.keeps [OF p(2,3) v(1)]
    then have "list_all2 (\<lambda>p x. snd p x) (map (\<lambda>m. map_prod id has_shape m) ms) ws"
      using assms(2) v(3) \<open>i < length ms\<close> by (auto simp: list_all2_conv_all_nth nth_list_update)
    then show ?thesis
      using k v(2) q by auto
  qed
qed

lemma any_text_parser: "default_ok ty \<Longrightarrow> text_parser (any_fromString ty) (has_shape ty)"
proof (induction ty)
  case (Simple t)
  then show ?case
    using simple_parser [of t] by simp
next
  case (ArrayOf k d ty)
  then have parser: "text_parser (any_fromString ty) (has_shape ty)" and d: "has_shape ty d"
    by simp_all
  show ?case
  proof
    fix v s n w
    assume v: "has_shape (ArrayOf k d ty) v" "any_fromString (ArrayOf k d ty) s v = Some (n, w)"
    then obtain ws where "array_fromString (any_fromString ty) d s (parts v) = Some (n, ws)" "w = Parts ws"
      by auto
    then show "has_shape (ArrayOf k d ty) w \<and> - 1 \<le> n \<and> n \<le> int (length s)"
      using text_parser.array_keeps [OF parser, of "parts v" d s n ws] d v(1) by simp
  qed
next
  case (StructOf ms)
  then have parser: "\<forall>m\<in>set ms. text_parser (any_fromString (snd m)) (has_shape (snd m))"
    by (auto simp: snds.simps)
  show ?case
  proof
    fix v s n w
    assume v: "has_shape (StructOf ms) v" "any_fromString (StructOf ms) s v = Some (n, w)"
    let ?I = "\<lambda>vs. list_all2 (\<lambda>p x. snd p x) (map (\<lambda>m. map_prod id has_shape m) ms) vs"
    obtain ws where ws: "struct_fromString (parsers ms) s (parts v) = Some (n, ws)" "w = Parts ws"
      using v(2) by auto
    have names: "distinct (map fst ms) \<and> (\<forall>m\<in>set ms. member_name (fst m))" and I: "?I (parts v)"
      using v(1) unfolding has_shape.simps by blast+
    have "?I ws \<and> - 1 \<le> n \<and> n \<le> int (length s)"
    proof (cases "char_at s 0 = CHR ''(''")
      case True
      then obtain e where e: "sequence_loop CHR '')'' (initializeMember (parsers ms)) (tl s) (parts v) = Some (e, ws)"
          "n = (if char_at e 0 = CHR '')'' then int (length s) - int (length e) + 1 else -1)"
        using ws(1) by (auto simp: struct_fromString_def split: option.splits)
      have k: "?I ws \<and> length e \<le> length (tl s)"
        by (rule sequence_loop_keeps [of ?I, OF conjunct1 [OF initializeMember_keeps [OF parser]] I e(1)])
      have "1 \<le> int (length e)" if "char_at e 0 = CHR '')''"
        using char_at_inside [OF that] by (cases e) simp_all
      moreover have "int (length e) \<le> int (length s)"
        using k unfolding length_tl by linarith
      ultimately show ?thesis
        using k e(2) by simp
    qed (use ws I in \<open>auto simp: struct_fromString_def\<close>)
    then show "has_shape (StructOf ms) w \<and> - 1 \<le> n \<and> n \<le> int (length s)"
      using names ws(2) unfolding has_shape.simps by simp
  qed
qed

interpretation any_parser: text_parser "any_fromString ty" "\<lambda>v. default_ok ty \<and> has_shape ty v" for ty
proof
  fix v s n w
  assume "default_ok ty \<and> has_shape ty v" "any_fromString ty s v = Some (n, w)"
  then show "(default_ok ty \<and> has_shape ty w) \<and> - 1 \<le> n \<and> n \<le> int (length s)"
    using text_parser.keeps [OF any_text_parser [of ty], of v s n w] by blast
qed

section \<open>Texts the readers leave\<close>

text \<open>The ends of a text at which a reader looks behind the terminating zero: the name of a type with a hash, and an
  unfinished literal of a character.  No other text is left, however values are nested.\<close>

definition left_text :: "string \<Rightarrow> bool" where
  "left_text t \<longleftrightarrow> (\<exists>n. t = n @ ''#'' \<and> n \<in> fst ` set scm_StringToTypeId) \<or>
     t \<in> {[apostrophe], ''CHAR#'' @ [apostrophe], [apostrophe, CHR ''$''], ''CHAR#'' @ [apostrophe, CHR ''$'']} \<or>
     t \<in> {[double_quote], ''WCHAR#'' @ [double_quote], [double_quote, CHR ''$''], ''WCHAR#'' @ [double_quote, CHR ''$'']}"

definition has_left_end :: "string \<Rightarrow> bool" where
  "has_left_end s \<longleftrightarrow> (\<exists>p t. s = p @ t \<and> left_text t)"

lemma left_end_append: "has_left_end s \<Longrightarrow> has_left_end (p @ s)"
  unfolding has_left_end_def by (metis append.assoc)

lemma left_end_drop: "has_left_end (drop n s) \<Longrightarrow> has_left_end s"
  using left_end_append [of "drop n s" "take n s"] by simp

lemma left_end_tl: "has_left_end (tl s) \<Longrightarrow> has_left_end s"
  using left_end_drop [of 1 s] by (simp add: drop_Suc)

lemma left_end_Cons: "has_left_end s \<Longrightarrow> has_left_end (ch # s)"
  using left_end_append [of s "[ch]"] by simp

lemma left_end_blanks: "has_left_end (skip_blanks s) \<Longrightarrow> has_left_end s"
  by (induction s) (auto split: if_splits intro: left_end_Cons)

lemma left_textI: "left_text s \<Longrightarrow> has_left_end s"
  unfolding has_left_end_def by (metis append_Nil)

lemma elem_left: "fromString_elem t s c = None \<Longrightarrow> has_left_end s"
  by (rule left_textI) (auto simp: fromString_None_iff left_text_def)

lemma simple_left: "simple_fromString t s v = None \<Longrightarrow> has_left_end s"
proof (cases v)
  case (Char c)
  then show "simple_fromString t s v = None \<Longrightarrow> has_left_end s"
    by (intro left_textI) (simp add: left_text_def CHAR_read_past_end)
next
  case (WChar c)
  then show "simple_fromString t s v = None \<Longrightarrow> has_left_end s"
    by (intro left_textI) (simp add: left_text_def WCHAR_read_past_end)
qed (auto split: if_splits dest: elem_left)

lemma sequence_loop_left:
  assumes item: "\<And>s st. item s st = None \<Longrightarrow> has_left_end s" and "sequence_loop closing item s st = None"
  shows "has_left_end s"
  using assms(2)
proof (induction "length s" arbitrary: s st rule: less_induct)
  case less
  let ?b = "skip_blanks s"
  have s: "\<not> (s = [] \<or> hd s = closing)"
    using less.prems by (auto simp: sequence_loop.simps)
  show ?case
  proof (cases "item ?b st")
    case None
    then show ?thesis
      using item left_end_blanks by blast
  next
    case (Some x)
    obtain n st1 where x: "x = (n, st1)"
      by (cases x)
    obtain r where r: "skip_blanks (drop (nat n) ?b) = CHR '','' # r" "sequence_loop closing item r st1 = None"
      using less.prems s Some x by (subst (asm) sequence_loop.simps) (auto split: if_splits list.splits)
    have "has_left_end (CHR '','' # r)"
      using less.hyps [OF sequence_loop_decreases [OF r(1)] r(2)] by (rule left_end_Cons)
    then show ?thesis
      by (metis r(1) left_end_blanks left_end_drop)
  qed
qed

lemma array_item_left:
  assumes parse: "\<And>s v. parse s v = None \<Longrightarrow> has_left_end s" and "initializeSimpleFromString parse s st = None"
  shows "has_left_end s"
  using assms(2) parse by (cases "(parse, s, st)" rule: initializeSimpleFromString.cases) auto

lemma repeated_item_left:
  assumes parse: "\<And>s v. parse s v = None \<Longrightarrow> has_left_end s" and none: "initializeFromString parse s st = None"
  shows "has_left_end s"
proof (cases "fromString_elem e_ULINT s 0")
  case None
  then show ?thesis
    by (rule elem_left)
next
  case (Some x)
  obtain m c where x: "x = (m, c)"
    by (cases x)
  let ?r = "skip_blanks (drop (nat m) s)"
  let ?loop = "sequence_loop CHR '')'' (initializeSimpleFromString parse) (tl ?r) st"
  have simple: "has_left_end t" if "initializeSimpleFromString parse t st' = None" for t st'
    using parse that by (rule array_item_left)
  show ?thesis
  proof (cases "0 < m \<and> char_at ?r 0 = CHR ''(''")
    case False
    then have "initializeSimpleFromString parse s st = None"
      using none Some x unfolding initializeFromString_def Let_def by auto
    then show ?thesis
      by (rule simple)
  next
    case True
    have "?loop = None"
    proof (rule ccontr)
      assume "?loop \<noteq> None"
      then obtain e before vs buf where "?loop = Some (e, before, vs, buf)"
        by (metis not_None_eq prod_cases4)
      then show False
        using none Some x True unfolding initializeFromString_def Let_def by (simp split: if_splits prod.splits)
    qed
    then have "has_left_end (tl ?r)"
      by (rule sequence_loop_left [rotated]) (rule simple)
    then show ?thesis
      by (metis left_end_tl left_end_blanks left_end_drop)
  qed
qed

lemma array_left:
  assumes parse: "\<And>s v. parse s v = None \<Longrightarrow> has_left_end s" and "array_fromString parse dflt s es = None"
  shows "has_left_end s"
proof -
  have "sequence_loop CHR '']'' (initializeFromString parse) (tl s) ([], es, dflt) = None"
    using assms(2) by (auto simp: array_fromString_def split: if_splits option.splits)
  moreover have "has_left_end t" if "initializeFromString parse t st = None" for t st
    using parse that by (rule repeated_item_left)
  ultimately have "has_left_end (tl s)"
    using sequence_loop_left [of "initializeFromString parse"] by blast
  then show ?thesis
    by (rule left_end_tl)
qed

lemma parseNextElementId_drop: "\<exists>k. snd (parseNextElementId s) = drop k s"
  by (auto simp: parseNextElementId_def Let_def intro: exI [of _ 0])

lemma member_left:
  assumes parse: "\<And>m s v. m \<in> set ms \<Longrightarrow> snd m s v = None \<Longrightarrow> has_left_end s" and none: "initializeMember ms s vs = None"
  shows "has_left_end s"
proof -
  let ?r = "skip_blanks (drop 2 (skip_blanks (snd (parseNextElementId s))))"
  obtain i where i: "getMemberIndex (fst (parseNextElementId s)) (map fst ms) = Some i" "snd (ms ! i) ?r (vs ! i) = None"
    using none by (auto simp: initializeMember_def Let_def split_beta split: if_splits option.splits)
  have "ms ! i \<in> set ms"
    using getMemberIndex_Some [OF i(1)] by simp
  from parse [OF this i(2)] have "has_left_end (snd (parseNextElementId s))"
    by (metis left_end_blanks left_end_drop)
  then show ?thesis
    using parseNextElementId_drop [of s] by (metis left_end_drop)
qed

lemma any_left: "any_fromString ty s v = None \<Longrightarrow> has_left_end s"
proof (induction ty arbitrary: s v)
  case (Simple t)
  then show ?case
    using simple_left by simp
next
  case (ArrayOf n d ty)
  then show ?case
    using array_left [of "any_fromString ty"] by simp
next
  case (StructOf ms)
  have parse: "\<And>m s v. m \<in> set (parsers ms) \<Longrightarrow> snd m s v = None \<Longrightarrow> has_left_end s"
    using StructOf.IH by (auto simp: snds.simps)
  have "sequence_loop CHR '')'' (initializeMember (parsers ms)) (tl s) (parts v) = None"
    using StructOf.prems by (auto simp: struct_fromString_def split: if_splits option.splits)
  moreover have "has_left_end t" if "initializeMember (parsers ms) t vs = None" for t vs
    using parse that by (rule member_left)
  ultimately have "has_left_end (tl s)"
    using sequence_loop_left [of "initializeMember (parsers ms)"] by blast
  then show ?case
    by (rule left_end_tl)
qed

section \<open>The lost comma\<close>

lemma collapsed_loop_run:
  assumes "x \<noteq> y"
  shows "collapsed_loop print (Some x) c (replicate k x @ [y]) = toCollapsedElementString print x (c + k) @ print y"
    and "y \<noteq> z \<Longrightarrow> collapsed_loop print (Some x) c (replicate k x @ [y, z]) =
      toCollapsedElementString print x (c + k) @ '','' @ print y @ print z"
  using assms by (induction k arbitrary: c) (simp_all add: toCollapsedElementString_def)

lemma collapsed_array_text:
  assumes "x \<noteq> y" "cmCollapseMaxSize \<le> n"
  shows "array_toString print (replicate n x @ [y]) = ''['' @ toCollapsedElementString print x n @ print y @ '']''"
    and "y \<noteq> z \<Longrightarrow> array_toString print (replicate n x @ [y, z]) =
      ''['' @ toCollapsedElementString print x n @ '','' @ print y @ print z @ '']''"
proof -
  obtain k where k: "n = Suc k"
    using assms(2) by (cases n) (simp_all add: cmCollapseMaxSize_def)
  then show "array_toString print (replicate n x @ [y]) = ''['' @ toCollapsedElementString print x n @ print y @ '']''"
    and "y \<noteq> z \<Longrightarrow> array_toString print (replicate n x @ [y, z]) =
      ''['' @ toCollapsedElementString print x n @ '','' @ print y @ print z @ '']''"
    using collapsed_loop_run [OF assms(1), where print = print and c = 1 and k = k] assms(2) by (simp_all add: array_toString_def)
qed

context text_form
begin

lemma lost_comma:
  assumes "ok x" "ok y" "\<forall>v\<in>set olds. ok v" "length olds = n" "1 < n" "n < 2 ^ 64"
    and "ends x ('')'' @ print y @ '']'' @ rest)"
  shows "\<exists>ws. array_fromString parse dflt
      (''['' @ toCollapsedElementString print x n @ print y @ '']'' @ rest) (olds @ more) = Some (-1, ws)"
proof -
  let ?s = "toCollapsedElementString print x n @ print y @ '']'' @ rest" and ?tail = "print y @ '']'' @ rest"
  obtain w where w: "initializeFromString parse ?s ([], olds @ more, dflt) =
      Some (int (length (toCollapsedElementString print x n)), replicate n w, more, dflt)"
    using repeated_item [OF assms(1,3,4,5,6,7), of "[]" more dflt] by (metis append_Nil)
  have s: "starts_value ?s" "starts_value ?tail"
    using item_starts [OF assms(1)] starts [OF assms(2)] starts_value_append [of "print y" "'']'' @ rest"]
    by (auto simp: starts_value_def)
  then have "?s \<noteq> []" "hd ?s \<noteq> CHR '']''" "hd ?s \<noteq> CHR '' ''"
    by (simp_all add: starts_value_def)
  from sequence_loop_step [where s = ?s and t = "toCollapsedElementString print x n" and tail = ?tail
      and item = "initializeFromString parse", OF refl this w]
  have "sequence_loop CHR '']'' (initializeFromString parse) ?s ([], olds @ more, dflt) =
      (case skip_blanks ?tail of
         ch # r \<Rightarrow> if ch = CHR '','' then sequence_loop CHR '']'' (initializeFromString parse) r
             (replicate n w, more, dflt) else Some (ch # r, replicate n w, more, dflt)
       | [] \<Rightarrow> Some ([], replicate n w, more, dflt))"
    .
  also have "\<dots> = Some (?tail, replicate n w, more, dflt)"
    using s(2) skip_blanks_id [of ?tail] by (cases ?tail) (auto simp: starts_value_def)
  finally show ?thesis
    using s(2) by (cases ?tail) (auto simp: array_fromString_def starts_value_def)
qed

end

lemma UINT_digits:
  "text_value e_UINT 1 = 1" "text_value e_UINT 2 = 2" "text_value e_UINT 7 = 7" "text_value e_UINT 12 = 12"
  "toString_elem e_UINT 1 = ''1''" "toString_elem e_UINT 2 = ''2''" "toString_elem e_UINT 7 = ''7''"
  "toString_elem e_UINT 12 = ''12''"
proof -
  show "text_value e_UINT 1 = 1" "text_value e_UINT 2 = 2" "text_value e_UINT 7 = 7" "text_value e_UINT 12 = 12"
    by (simp_all add: getTUINT16_def)
  then show "toString_elem e_UINT 1 = ''1''" "toString_elem e_UINT 2 = ''2''" "toString_elem e_UINT 7 = ''7''"
      "toString_elem e_UINT 12 = ''12''"
    by (simp_all add: toString_elem_def digits_loop.simps digit_char_def char_of_eq_iff)
qed

text \<open>Two single elements at the end run together.\<close>

lemma merged_elements:
  assumes "100 \<le> n" "n + 2 < 2 ^ 64" "has_shape (ArrayOf (n + 2) (Cell 0) (Simple e_UINT)) old"
  shows "\<exists>ws. any_fromString (ArrayOf (n + 2) (Cell 0) (Simple e_UINT))
      (any_toString (ArrayOf (n + 2) (Cell 0) (Simple e_UINT)) (Parts (replicate n (Cell 7) @ [Cell 1, Cell 2]))) old =
      Some (int (length (any_toString (ArrayOf (n + 2) (Cell 0) (Simple e_UINT))
        (Parts (replicate n (Cell 7) @ [Cell 1, Cell 2])))), Parts ws) \<and>
    list_all2 (simple_same e_UINT) (replicate n (Cell 7) @ [Cell 12, Cell 0]) ws"
proof -
  let ?ty = "Simple e_UINT" and ?items = "[(n, Cell 7), (1, Cell 12)] :: (nat \<times> any_state) list"
  have printed: "any_toString (ArrayOf (n + 2) (Cell 0) ?ty) (Parts (replicate n (Cell 7) @ [Cell 1, Cell 2])) =
      ''['' @ items_text (any_toString ?ty) ?items @ '']''"
    using collapsed_array_text(2) [of "Cell 7" "Cell 1" n "Cell 2" "any_toString ?ty"] assms(1)
    by (simp add: UINT_digits cmCollapseMaxSize_def toCollapsedElementString_def)
  define vs where "vs = parts old"
  have vs: "parts old = vs" "length vs = n + 2" "\<forall>x\<in>set vs. has_shape ?ty x"
    using assms(3) unfolding has_shape.simps vs_def by blast+
  let ?vs = "take (n + 1) vs"
  have "length (drop (n + 1) vs) = 1"
    using vs(2) by simp
  then obtain o2 where o2: "drop (n + 1) vs = [o2]"
    unfolding One_nat_def [symmetric] by (metis One_nat_def length_0_conv length_Suc_conv)
  have "items_end (any_ends ?ty) (any_toString ?ty) ?items []"
    using assms(1) by (simp add: UINT_digits ends_number_def isDigit_def toCollapsedElementString_def)
  moreover have "length ?vs = length (expand ?items)" "length ?vs < 2 ^ 64" "\<forall>x\<in>set ?vs. has_shape ?ty x"
    using vs(2,3) assms(2) by (auto dest: in_set_takeD)
  moreover have "\<forall>i\<in>set ?items. 0 < fst i \<and> has_shape ?ty (snd i)"
    using assms(1) by simp
  ultimately obtain ws where ws: "array_fromString (any_fromString ?ty) (Cell 0)
        (''['' @ items_text (any_toString ?ty) ?items @ '']'' @ []) (?vs @ [o2]) =
        Some (int (length (''['' @ items_text (any_toString ?ty) ?items @ '']'')), ws @ replicate (length [o2]) (Cell 0))"
      "list_all2 (same_value ?ty) (expand ?items) ws"
    using any_value.items_read [of ?items ?ty ?vs "[]" "Cell 0" "[o2]"] by blast
  have "?vs @ [o2] = vs"
    unfolding o2 [symmetric] by (rule append_take_drop_id)
  then have "any_fromString (ArrayOf (n + 2) (Cell 0) ?ty)
      (any_toString (ArrayOf (n + 2) (Cell 0) ?ty) (Parts (replicate n (Cell 7) @ [Cell 1, Cell 2]))) old =
      Some (int (length (any_toString (ArrayOf (n + 2) (Cell 0) ?ty)
        (Parts (replicate n (Cell 7) @ [Cell 1, Cell 2])))), Parts (ws @ [Cell 0]))"
    unfolding printed using ws(1) vs(1) by (simp del: items_text.simps)
  moreover have "list_all2 (simple_same e_UINT) ((replicate n (Cell 7) @ [Cell 12]) @ [Cell 0]) (ws @ [Cell 0])"
    using ws(2) by (intro list_all2_appendI) simp_all
  ultimately show ?thesis
    by auto
qed

section \<open>Properties\<close>

text \<open>C36: The text of a value, of a simple type or of arrays and structures nested in any way, is read back
  into any variable of its type as the same value, and the reader consumes exactly the text, provided that what
  follows each number and duration in it ends it, and that the last two elements of an array of more than 100
  elements are equal.\<close>
theorem compound_text_roundtrip:
  assumes "has_shape ty v" "has_shape ty old" "any_ends ty v rest"
  shows "\<exists>w. any_fromString ty (any_toString ty v @ rest) old = Some (int (length (any_toString ty v)), w) \<and>
    same_value ty v w"
  using any_value.roundtrip [OF assms] by blast

lemma compound_text_roundtrip_witness:
  "\<exists>w. any_fromString (StructOf [(''a'', ArrayOf 2 (Cell 0) (Simple e_INT)), (''t'', Simple e_TIME), (''s'', Simple e_STRING)])
      (any_toString (StructOf [(''a'', ArrayOf 2 (Cell 0) (Simple e_INT)), (''t'', Simple e_TIME), (''s'', Simple e_STRING)])
        (Parts [Parts [Cell 5, Cell 17], Cell 5000000000, Chars ''a#b)'']) @ '';'')
      (Parts [Parts [Cell 0, Cell 0], Cell 0, Chars []]) =
    Some (int (length (any_toString (StructOf [(''a'', ArrayOf 2 (Cell 0) (Simple e_INT)), (''t'', Simple e_TIME),
        (''s'', Simple e_STRING)]) (Parts [Parts [Cell 5, Cell 17], Cell 5000000000, Chars ''a#b)'']))), w) \<and>
    same_value (StructOf [(''a'', ArrayOf 2 (Cell 0) (Simple e_INT)), (''t'', Simple e_TIME), (''s'', Simple e_STRING)])
      (Parts [Parts [Cell 5, Cell 17], Cell 5000000000, Chars ''a#b)'']) w"
proof (rule compound_text_roundtrip)
  have "text_value e_INT 17 = 17" "text_value e_INT 5 = 5"
    by (simp_all add: getTINT16_def)
  moreover from this have "toString_elem e_INT 17 = ''17''" "toString_elem e_INT 5 = ''5''"
    by (simp_all add: toString_elem_def digits_loop.simps digit_char_def char_of_eq_iff)
  ultimately show "any_ends (StructOf [(''a'', ArrayOf 2 (Cell 0) (Simple e_INT)), (''t'', Simple e_TIME), (''s'', Simple e_STRING)])
      (Parts [Parts [Cell 5, Cell 17], Cell 5000000000, Chars ''a#b)'']) '';''"
    by (simp add: array_ends_def cmCollapseMaxSize_def toCollapsedElementString_def ends_number_def isDigit_def
        ends_duration_def to_lower_def char_code_def writeToStringNameValuePair_def)
qed (simp_all add: member_name_def)

text \<open>C37: Whatever the text is, the number of characters read from it is -1 or at most its length, and the
  variable stays a value of its type: an array keeps its number of elements and takes no more, members keep their
  types.  The reader leaves the text at most when it ends with the name of a type and a hash, or with a literal of a
  character that is not finished.  The model says what is read, not how long it takes: a huge number of
  repetitions of nothing, as in 18446744073709551615(), is counted down to the end by the code.\<close>

theorem any_text_keeps_shape:
  assumes "has_shape ty v" "default_ok ty"
  shows "case any_fromString ty s v of
     None \<Rightarrow> has_left_end s
   | Some (n, w) \<Rightarrow> has_shape ty w \<and> - 1 \<le> n \<and> n \<le> int (length s)"
  using any_parser.keeps [of ty v s] any_left [of ty s v] assms by (auto split: option.split)

lemma any_text_keeps_shape_witness:
  "\<exists>n w. any_fromString (ArrayOf 1 (Cell 0) (Simple e_INT)) (any_toString (ArrayOf 1 (Cell 0) (Simple e_INT)) (Parts [Cell 5]))
      (Parts [Cell 0]) = Some (n, w) \<and> has_shape (ArrayOf 1 (Cell 0) (Simple e_INT)) w"
proof -
  let ?ty = "ArrayOf 1 (Cell 0) (Simple e_INT)"
  have shape: "has_shape ?ty (Parts [Cell 5])" "has_shape ?ty (Parts [Cell 0])" "default_ok ?ty"
    by simp_all
  have "text_value e_INT 5 = 5"
    by (simp add: getTINT16_def)
  then have "any_ends ?ty (Parts [Cell 5]) []"
    by (simp add: array_ends_def cmCollapseMaxSize_def toCollapsedElementString_def ends_number_def isDigit_def)
  then obtain n w where "any_fromString ?ty (any_toString ?ty (Parts [Cell 5])) (Parts [Cell 0]) = Some (n, w)"
    using any_value.roundtrip [OF shape(1,2), of "[]"] by auto
  moreover have "case any_fromString ?ty (any_toString ?ty (Parts [Cell 5])) (Parts [Cell 0]) of
      None \<Rightarrow> has_left_end (any_toString ?ty (Parts [Cell 5]))
    | Some (n, w) \<Rightarrow> has_shape ?ty w \<and> - 1 \<le> n \<and> n \<le> int (length (any_toString ?ty (Parts [Cell 5])))"
    by (rule any_text_keeps_shape [OF shape(2,3)])
  ultimately have "has_shape ?ty w"
    by (simp only: option.case prod.case)
  with \<open>any_fromString ?ty (any_toString ?ty (Parts [Cell 5])) (Parts [Cell 0]) = Some (n, w)\<close> show ?thesis
    by blast
qed

text \<open>When an array of more than 100 elements ends with a run of equal elements and one other element,
  the comma before the last element is missing in its text, and the reader of the same type refuses the text.
  When the last two elements differ from what precedes them and from each other they run together: the text of
  100 or more times 7, then 1 and 2, is accepted and gives as many times 7, then 12 and 0.\<close>
theorem collapsed_array_text_wrong:
  assumes "has_shape ty x" "has_shape ty y" "x \<noteq> y" "100 \<le> n" "n + 2 < 2 ^ 64"
    and "has_shape (ArrayOf (n + 1) d ty) old" "any_ends ty x ('')'' @ any_toString ty y @ '']'')"
    and "has_shape (ArrayOf (n + 2) (Cell 0) (Simple e_UINT)) old2"
  shows "(\<exists>w. any_fromString (ArrayOf (n + 1) d ty) (any_toString (ArrayOf (n + 1) d ty) (Parts (replicate n x @ [y]))) old =
      Some (-1, w)) \<and>
    (\<exists>ws. any_fromString (ArrayOf (n + 2) (Cell 0) (Simple e_UINT))
        (any_toString (ArrayOf (n + 2) (Cell 0) (Simple e_UINT)) (Parts (replicate n (Cell 7) @ [Cell 1, Cell 2]))) old2 =
        Some (int (length (any_toString (ArrayOf (n + 2) (Cell 0) (Simple e_UINT))
          (Parts (replicate n (Cell 7) @ [Cell 1, Cell 2])))), Parts ws) \<and>
      list_all2 (simple_same e_UINT) (replicate n (Cell 7) @ [Cell 12, Cell 0]) ws)"
proof
  have text_eq: "any_toString (ArrayOf (n + 1) d ty) (Parts (replicate n x @ [y])) =
      ''['' @ toCollapsedElementString (any_toString ty) x n @ any_toString ty y @ '']'' @ []"
    using collapsed_array_text(1) [OF assms(3)] assms(4) by (simp add: cmCollapseMaxSize_def)
  have old: "\<forall>v\<in>set (take n (parts old)). has_shape ty v" "length (take n (parts old)) = n" "1 < n" "n < 2 ^ 64"
    using assms(4,5,6) by (auto dest: in_set_takeD)
  have "any_ends ty x ('')'' @ any_toString ty y @ '']'' @ [])"
    using assms(7) by simp
  from any_value.lost_comma [OF assms(1,2) old this, of d "drop n (parts old)"]
  show "\<exists>w. any_fromString (ArrayOf (n + 1) d ty) (any_toString (ArrayOf (n + 1) d ty) (Parts (replicate n x @ [y]))) old =
      Some (-1, w)"
    unfolding text_eq by auto
qed (rule merged_elements [OF assms(4,5,8)])

lemma collapsed_array_text_wrong_witness:
  "(\<exists>w. any_fromString (ArrayOf (100 + 1) (Cell 0) (Simple e_UINT))
      (any_toString (ArrayOf (100 + 1) (Cell 0) (Simple e_UINT)) (Parts (replicate 100 (Cell 7) @ [Cell 12])))
      (Parts (replicate 101 (Cell 0))) = Some (-1, w)) \<and>
   (\<exists>ws. any_fromString (ArrayOf (100 + 2) (Cell 0) (Simple e_UINT))
      (any_toString (ArrayOf (100 + 2) (Cell 0) (Simple e_UINT)) (Parts (replicate 100 (Cell 7) @ [Cell 1, Cell 2])))
      (Parts (replicate 102 (Cell 0))) =
      Some (int (length (any_toString (ArrayOf (100 + 2) (Cell 0) (Simple e_UINT))
        (Parts (replicate 100 (Cell 7) @ [Cell 1, Cell 2])))), Parts ws) \<and>
    list_all2 (simple_same e_UINT) (replicate 100 (Cell 7) @ [Cell 12, Cell 0]) ws)"
proof (rule collapsed_array_text_wrong)
  have shape: "has_shape (ArrayOf k (Cell 0) (Simple e_UINT)) (Parts (replicate k (Cell 0)))" if "k < 2 ^ 64" for k
    using that by (auto simp: set_replicate_conv_if)
  have "(100 + 1 :: nat) = 101" "(100 + 2 :: nat) = 102"
    by simp_all
  then show "has_shape (ArrayOf (100 + 1) (Cell 0) (Simple e_UINT)) (Parts (replicate 101 (Cell 0)))"
      "has_shape (ArrayOf (100 + 2) (Cell 0) (Simple e_UINT)) (Parts (replicate 102 (Cell 0)))"
    using shape [of 101] shape [of 102] by (simp_all only:) simp_all
  show "any_ends (Simple e_UINT) (Cell 7) ('')'' @ any_toString (Simple e_UINT) (Cell 12) @ '']'')"
    by (simp add: UINT_digits ends_number_def isDigit_def)
qed simp_all

text \<open>A structure with a negative number before a duration is printed to a text that its own reader
  refuses: the hash of the duration makes everything before it, from the minus sign on, the type name of the
  number.\<close>
theorem negative_member_refused:
  assumes "type_bounds t = Some b" "text_value t c < 0" "member_name n"
  shows "\<exists>w. any_fromString (StructOf [(n, Simple t), (m, Simple e_TIME)])
      (any_toString (StructOf [(n, Simple t), (m, Simple e_TIME)]) (Parts [Cell c, Cell d])) (Parts [Cell x, Cell y]) =
    Some (-1, w)"
proof -
  let ?ms = "[(n, Simple t), (m, Simple e_TIME)]" and ?v = "toString_elem t c"
  let ?tail = "'','' @ m @ '':='' @ CIEC_TIME_toString d @ '')''"
  have t: "t \<noteq> e_BOOL" "t \<noteq> e_TIME" "t \<noteq> e_LTIME"
    using assms(1) by auto
  have printed: "any_toString (StructOf ?ms) (Parts [Cell c, Cell d]) = ''('' @ n @ '':='' @ ?v @ ?tail"
    unfolding any_toString_struct using t by (simp add: struct_toString_def writeToStringNameValuePair_def)
  obtain ds where ds: "?v = ''-'' @ ds"
    using toString_shape [OF assms(1), of c] assms(2) by metis
  obtain sign es u where "CIEC_TIME_toString d = ''T'' @ ''#'' @ sign @ es @ u"
    unfolding CIEC_TIME_toString_def using duration_body [of "''T''" d] by blast
  then obtain p q where pq: "?v @ ?tail = p @ CHR ''#'' # q" "CHR ''#'' \<notin> set p"
    using split_list_first [of "CHR ''#''" "?v @ ?tail"] by auto
  then have minus: "char_at p 0 = CHR ''-''"
    using ds by (cases p) auto
  then have "p \<notin> fst ` set scm_StringToTypeId"
    by (auto simp: scm_StringToTypeId_def)
  then have "type_prefix t (?v @ ?tail) = None"
    using type_prefix_hash [OF pq(2), of t q] minus pq(1) by simp
  then have value_refused: "fromString_elem t (?v @ ?tail) x = Some (-1, x)"
    using ds by (simp add: fromString_elem_def)
  then have item: "initializeMember (parsers ?ms) (n @ '':='' @ ?v @ ?tail) [Cell x, Cell y] = Some (-1, [Cell x, Cell y])"
    using t ds by (simp add: initializeMember_def parseNextElementId_name [OF assms(3), of "''-'' @ ds @ ?tail", simplified])
  have "n @ '':='' @ ?v @ ?tail \<noteq> []" "hd (n @ '':='' @ ?v @ ?tail) \<noteq> CHR '')''"
      "skip_blanks (n @ '':='' @ ?v @ ?tail) = n @ '':='' @ ?v @ ?tail"
    using member_name_hd [OF assms(3), of "'':='' @ ?v @ ?tail"] skip_blanks_id [of "n @ '':='' @ ?v @ ?tail"] by simp_all
  then have "sequence_loop CHR '')'' (initializeMember (parsers ?ms)) (n @ '':='' @ ?v @ ?tail) [Cell x, Cell y] =
      Some (n @ '':='' @ ?v @ ?tail, [Cell x, Cell y])"
    using item by (subst sequence_loop.simps) simp
  then show ?thesis
    unfolding printed using member_name_hd [OF assms(3), of "'':='' @ ?v @ ?tail"]
    by (auto simp: struct_fromString_def char_at_def hd_conv_nth)
qed

lemma negative_member_refused_witness:
  "\<exists>w. any_fromString (StructOf [(''a'', Simple e_INT), (''t'', Simple e_TIME)])
      (any_toString (StructOf [(''a'', Simple e_INT), (''t'', Simple e_TIME)]) (Parts [Cell (- 5), Cell 5000000000]))
      (Parts [Cell 0, Cell 0]) = Some (-1, w)"
  by (rule negative_member_refused [of e_INT]) (simp_all add: getTINT16_def member_name_def)

end
