(* ===== verification/Com_Id.thy ===== *)
theory Com_Id
imports Asn1_Layer
begin

text \<open>
  The codes of \<open>core/include/forte/cominfra/comtypes.h\<close> and the text of a communication block's ID
  input: a sequence of layers \<open>name[parameters]\<close>, one character apart, from the top layer down
  (\<open>core/src/cominfra/basecommfb.cpp\<close>).  A C string is the list of its characters before the
  terminating null.
\<close>

section \<open>Codes\<close>

definition scg_unINIT :: nat where "scg_unINIT = 0x10"
definition scg_unProcessData :: nat where "scg_unProcessData = 0x20"
definition scg_unComNegative :: nat where "scg_unComNegative = 0x40"

datatype EComResponseMsgIds =
    e_Ok | e_InvalidId | e_Terminated | e_InvalidObject | e_DataTypeError | e_Inhibited
  | e_NoSocket | e_SendFailed | e_RecvFailed

fun msg_code :: "EComResponseMsgIds \<Rightarrow> nat" where
  "msg_code e_Ok = 0"
| "msg_code e_InvalidId = 1"
| "msg_code e_Terminated = 2"
| "msg_code e_InvalidObject = 3"
| "msg_code e_DataTypeError = 4"
| "msg_code e_Inhibited = 5"
| "msg_code e_NoSocket = 6"
| "msg_code e_SendFailed = 7"
| "msg_code e_RecvFailed = 8"

definition InitNegative :: nat where "InitNegative = scg_unINIT OR scg_unComNegative"
definition ProcessDataNegative :: nat where "ProcessDataNegative = scg_unProcessData OR scg_unComNegative"

fun response_code :: "EComResponse \<Rightarrow> nat" where
  "response_code e_Nothing = 0"
| "response_code e_InitOk = scg_unINIT OR msg_code e_Ok"
| "response_code e_ProcessDataOk = scg_unProcessData OR msg_code e_Ok"
| "response_code e_InitInvalidId = InitNegative OR msg_code e_InvalidId"
| "response_code e_InitTerminated = InitNegative OR msg_code e_Terminated"
| "response_code e_ProcessDataInvalidObject = ProcessDataNegative OR msg_code e_InvalidObject"
| "response_code e_ProcessDataDataTypeError = ProcessDataNegative OR msg_code e_DataTypeError"
| "response_code e_ProcessDataInhibited = ProcessDataNegative OR msg_code e_Inhibited"
| "response_code e_ProcessDataNoSocket = ProcessDataNegative OR msg_code e_NoSocket"
| "response_code e_ProcessDataSendFailed = ProcessDataNegative OR msg_code e_SendFailed"
| "response_code e_ProcessDataRecvFaild = ProcessDataNegative OR msg_code e_RecvFailed"

datatype EComServiceType = e_Publisher | e_Subscriber | e_Server | e_Client

text \<open>\<open>EComParameterTypes\<close>: bit 0 data inputs, bit 1 data outputs, bit 2 requester.\<close>

definition e_DataInputs :: nat where "e_DataInputs = 1"
definition e_DataOutputs :: nat where "e_DataOutputs = 2"
definition e_Requester :: nat where "e_Requester = 4"

fun service_code :: "EComServiceType \<Rightarrow> nat" where
  "service_code e_Publisher = e_Requester OR e_DataInputs"
| "service_code e_Subscriber = e_DataOutputs"
| "service_code e_Server = e_DataInputs OR e_DataOutputs"
| "service_code e_Client = e_Requester OR e_DataInputs OR e_DataOutputs"

definition scmResponseTexts :: "string list" where
  "scmResponseTexts =
     [''OK'', ''INVALID_ID'', ''TERMINATED'', ''INVALID_OBJECT'', ''DATA_TYPE_ERROR'',
      ''INHIBITED'', ''NO_SOCKET'', ''SEND_FAILED'', ''RECV_FAILED'']"

lemmas code_defs =
  scg_unINIT_def scg_unProcessData_def scg_unComNegative_def InitNegative_def
  ProcessDataNegative_def e_DataInputs_def e_DataOutputs_def e_Requester_def

section \<open>The text of a stack of layers\<close>

text \<open>The loop over the characters from the opening bracket on: what stands before the bracket that
  closes it and what follows that bracket.\<close>

fun scan_params :: "int \<Rightarrow> string \<Rightarrow> (string \<times> string) option" where
  "scan_params bracketCount [] = None"
| "scan_params bracketCount (c # cs) =
     (let n = if c = CHR ''['' then bracketCount + 1 else bracketCount
      in if c = CHR '']'' then
           (if n - 1 = 0 then Some ([], cs)
            else map_option (\<lambda>(p, r). (c # p, r)) (scan_params (n - 1) cs))
         else map_option (\<lambda>(p, r). (c # p, r)) (scan_params n cs))"

text \<open>The layer's name and parameters, or \<open>None\<close> for the null pointer, and where \<open>paRemainingID\<close>
  points afterwards (\<open>None\<close>: it is null).\<close>

definition extractLayerIdAndParams :: "string \<Rightarrow> (string \<times> string) option \<times> string option" where
  "extractLayerIdAndParams paRemainingID =
     (if paRemainingID \<noteq> [] then
        let layerID = takeWhile (\<lambda>c. c \<noteq> CHR ''['') paRemainingID;
            paramsStart = dropWhile (\<lambda>c. c \<noteq> CHR ''['') paRemainingID
        in if paramsStart = [] then (None, None)
           else case scan_params 0 paramsStart of
                  None \<Rightarrow> (None, Some paramsStart)
                | Some (p, rest) \<Rightarrow> (Some (layerID, tl p), Some (if rest \<noteq> [] then tl rest else rest))
      else (None, Some paRemainingID))"

definition buildIDString :: "string \<Rightarrow> string \<Rightarrow> string \<Rightarrow> string" where
  "buildIDString paPrefix paIDRoot paSuffix = paPrefix @ paIDRoot @ paSuffix"

definition CCommFB_getDefaultIDString :: "string \<Rightarrow> string" where
  "CCommFB_getDefaultIDString paID = buildIDString ''fbdk[].ip['' paID '']''"

definition GEN_PUBL_getDefaultIDString :: "string \<Rightarrow> string" where
  "GEN_PUBL_getDefaultIDString paID = buildIDString ''loc['' paID '']''"

definition GEN_SUBL_getDefaultIDString :: "string \<Rightarrow> string" where
  "GEN_SUBL_getDefaultIDString paID = buildIDString ''loc['' paID '']''"

section \<open>The layers a text names\<close>

lemma scan_params_length:
  "scan_params n s = Some (p, r) \<Longrightarrow> length s = Suc (length p + length r)"
  by (induction n s arbitrary: p rule: scan_params.induct)
    (auto simp: Let_def split: if_splits)

lemma extract_shorter:
  assumes "extractLayerIdAndParams s = (Some l, Some rest)"
  shows "length rest < length s"
proof -
  define t where "t = dropWhile (\<lambda>c. c \<noteq> CHR ''['') s"
  have le: "length t \<le> length s"
    by (simp add: t_def length_dropWhile_le)
  have ne: "s \<noteq> []" "t \<noteq> []"
    using assms by (auto simp: extractLayerIdAndParams_def t_def Let_def split: if_splits)
  obtain p r where "scan_params 0 t = Some (p, r)" "rest = (if r \<noteq> [] then tl r else r)"
    using assms ne
    by (cases "scan_params 0 t") (auto simp: extractLayerIdAndParams_def t_def [symmetric] Let_def)
  then show ?thesis
    using le scan_params_length by fastforce
qed

text \<open>What \<open>createComstack\<close> reads from a text when every layer opens: the layers in order, and
  whether it came to the end of the text.\<close>

function layers_of :: "string \<Rightarrow> (string \<times> string) list \<times> bool" where
  "layers_of commID =
     (if commID = [] then ([], True)
      else case extractLayerIdAndParams commID of
             (Some (layerID, layerParams), Some rest) \<Rightarrow>
               if layerID \<noteq> [] then
                 let (ls, complete) = layers_of rest in ((layerID, layerParams) # ls, complete)
               else ([], False)
           | _ \<Rightarrow> ([], False))"
  by auto
termination
  by (relation "measure length") (auto dest: extract_shorter [OF sym])

declare layers_of.simps [simp del]

text \<open>Parameters may hold brackets in pairs.\<close>

fun balanced :: "int \<Rightarrow> string \<Rightarrow> bool" where
  "balanced n [] \<longleftrightarrow> n = 0"
| "balanced n (c # cs) \<longleftrightarrow>
     (if c = CHR ''['' then balanced (n + 1) cs
      else if c = CHR '']'' then 0 < n \<and> balanced (n - 1) cs
      else balanced n cs)"

fun layer_text :: "string \<times> string \<Rightarrow> string" where
  "layer_text (name, params) = name @ ''['' @ params @ '']''"

fun stack_text :: "(string \<times> string) list \<Rightarrow> string" where
  "stack_text [] = []"
| "stack_text [l] = layer_text l"
| "stack_text (l # ls) = layer_text l @ ''.'' @ stack_text ls"

definition layer_names_ok :: "(string \<times> string) list \<Rightarrow> bool" where
  "layer_names_ok ls = (\<forall>(name, params)\<in>set ls. name \<noteq> [] \<and> CHR ''['' \<notin> set name \<and> balanced 0 params)"

lemma scan_params_balanced:
  "balanced n p \<Longrightarrow> 0 \<le> n \<Longrightarrow> scan_params (n + 1) (p @ CHR '']'' # r) = Some (p, r)"
proof (induction n p rule: balanced.induct)
  case (2 n c cs)
  then show ?case
    by (auto simp: Let_def algebra_simps split: if_splits)
qed simp

lemma takeWhile_no_bracket:
  assumes "CHR ''['' \<notin> set name"
  shows "takeWhile (\<lambda>c. c \<noteq> CHR ''['') (name @ CHR ''['' # t) = name"
    and "dropWhile (\<lambda>c. c \<noteq> CHR ''['') (name @ CHR ''['' # t) = CHR ''['' # t"
  using assms by (induction name) auto

lemma extract_layer_text:
  assumes "CHR ''['' \<notin> set name" "balanced 0 params"
  shows "extractLayerIdAndParams (layer_text (name, params) @ rest) =
    (Some (name, params), Some (if rest \<noteq> [] then tl rest else rest))"
  using assms scan_params_balanced [of 0 params rest] takeWhile_no_bracket [OF assms(1)]
  by (simp add: extractLayerIdAndParams_def Let_def)

lemma stack_text_empty_iff: "stack_text ls = [] \<longleftrightarrow> ls = []"
  by (induction ls rule: stack_text.induct) auto

text \<open>The dollar sign is an ordinary character for the code, so the text is read back with and without
  it.\<close>

lemma layers_roundtrip_any:
  assumes "layer_names_ok ls"
  shows "layers_of (stack_text ls) = (ls, True)"
  using assms
proof (induction ls rule: stack_text.induct)
  case 1
  then show ?case
    by (simp add: layers_of.simps)
next
  case (2 l)
  then show ?case
    using extract_layer_text [of "fst l" "snd l" "[]"]
    by (cases l) (simp add: layers_of.simps [of "_ @ _"] layers_of.simps [of "[]"] layer_names_ok_def)
next
  case (3 l l' ls)
  then show ?case
    using extract_layer_text [of "fst l" "snd l" "CHR ''.'' # stack_text (l' # ls)"]
    by (cases l) (simp add: layers_of.simps [of "_ @ _"] layer_names_ok_def)
qed

text \<open>C25: The ID text of any stack of layers without dollar signs is read back as that stack: names,
  and parameters, which may hold brackets in pairs and any other character, come back layer by
  layer, and the whole text is consumed.  (The header file says that a dollar sign escapes brackets; the
  code does not know this, see lemma \<open>dollar_does_not_escape\<close>, so texts with dollar signs are
  left out here.)\<close>

theorem layers_roundtrip:
  assumes "layer_names_ok ls" "\<forall>(name, params)\<in>set ls. CHR ''$'' \<notin> set name \<union> set params"
  shows "layers_of (stack_text ls) = (ls, True)"
  using layers_roundtrip_any [OF assms(1)] .

lemma layers_roundtrip_witness:
  "layers_of ''fbdk[].ip[a[1]]'' = ([(''fbdk'', []), (''ip'', ''a[1]'')], True)"
  using layers_roundtrip [of "[(''fbdk'', []), (''ip'', ''a[1]'')]"]
  by (simp add: layer_names_ok_def)

text \<open>The default IDs: without brackets in the ID they name the layers they are meant to.\<close>

lemma balanced_no_brackets: "CHR ''['' \<notin> set s \<Longrightarrow> CHR '']'' \<notin> set s \<Longrightarrow> balanced 0 s"
  by (induction s) auto

lemma default_ids:
  assumes "CHR ''['' \<notin> set paID" "CHR '']'' \<notin> set paID"
  shows "stack_text [(''fbdk'', []), (''ip'', paID)] = CCommFB_getDefaultIDString paID"
    and "stack_text [(''loc'', paID)] = GEN_PUBL_getDefaultIDString paID"
    and "layer_names_ok [(''fbdk'', []), (''ip'', paID)]"
    and "layer_names_ok [(''loc'', paID)]"
  using balanced_no_brackets [OF assms]
  by (simp_all add: CCommFB_getDefaultIDString_def GEN_PUBL_getDefaultIDString_def
      buildIDString_def layer_names_ok_def)

text \<open>The comment of \<open>extractLayerIdAndParams\<close> says that brackets may be escaped with a dollar sign.
  They are not: the escaped bracket still closes the parameters.\<close>

lemma dollar_does_not_escape:
  "extractLayerIdAndParams ''a[x$]y]'' = (Some (''a'', ''x$''), Some '']'')"
  by (simp add: extractLayerIdAndParams_def Let_def)

text \<open>Any character may stand between two layers, and none after the last.\<close>

lemma separator_is_skipped:
  "layers_of ''a[1]/b[2]?'' = ([(''a'', ''1''), (''b'', ''2'')], True)"
  by (simp add: layers_of.simps extractLayerIdAndParams_def Let_def)

end
