(* ===== verification/Local_Groups.thy ===== *)
theory Local_Groups
imports Com_Id Sorted_Vector
begin

text \<open>
  The groups of the local communication layer (\<open>CLocalCommGroupsManager\<close> in
  \<open>core/src/cominfra/localcomlayer.cpp\<close>): publishers and subscribers register under a group name
  with the types of their data pins, and a group lives as long as it has a member.  The vector of
  groups is sorted by the addresses of the interned names; the addresses are part of the state.  A
  layer is the number that stands for its address.
\<close>

section \<open>State\<close>

text \<open>What a data pin of a communication block holds: the content of its variant with the id of its
  type.\<close>

record com_pin =
  getTypeNameID :: StringId
  pin_data :: iec_data

record CLocalCommGroup =
  mGroupName :: string
  mPublList :: "nat list"
  mSublList :: "nat list"
  mDataTypes :: "StringId list"

record CLocalCommGroupsManager =
  id_address :: "string \<Rightarrow> nat"
  mLocalCommGroups :: "CLocalCommGroup list"

definition new_CLocalCommGroup :: "string \<Rightarrow> StringId list \<Rightarrow> CLocalCommGroup" where
  "new_CLocalCommGroup paGroupName paDataTypes =
     \<lparr>mGroupName = paGroupName, mPublList = [], mSublList = [], mDataTypes = paDataTypes\<rparr>"

section \<open>Operations\<close>

definition getLocalCommGroupIterator :: "string \<Rightarrow> CLocalCommGroupsManager \<Rightarrow> nat" where
  "getLocalCommGroupIterator paID m =
     lower_bound (\<lambda>locGroup. id_address m (mGroupName locGroup) < id_address m paID) (mLocalCommGroups m)"

definition isGroupIteratorForGroup :: "nat \<Rightarrow> string \<Rightarrow> CLocalCommGroupsManager \<Rightarrow> bool" where
  "isGroupIteratorForGroup it paID m =
     (it \<noteq> length (mLocalCommGroups m) \<and>
      id_address m (mGroupName (mLocalCommGroups m ! it)) = id_address m paID)"

definition getComGroup :: "string \<Rightarrow> CLocalCommGroupsManager \<Rightarrow> CLocalCommGroup option" where
  "getComGroup paGroupID m =
     (let it = getLocalCommGroupIterator paGroupID m
      in if isGroupIteratorForGroup it paGroupID m then Some (mLocalCommGroups m ! it) else None)"

definition buildDataTypeList :: "com_pin list \<Rightarrow> StringId list" where
  "buildDataTypeList paDataPins = map getTypeNameID paDataPins"

fun same_types :: "StringId list \<Rightarrow> com_pin list \<Rightarrow> bool" where
  "same_types [] ps = True"
| "same_types (t # ts) [] = False"
| "same_types (t # ts) (p # ps) = (if t \<noteq> getTypeNameID p then False else same_types ts ps)"

definition checkDataTypes :: "CLocalCommGroup \<Rightarrow> com_pin list \<Rightarrow> bool" where
  "checkDataTypes grp paDataPins =
     (if length paDataPins \<noteq> length (mDataTypes grp) then False
      else same_types (mDataTypes grp) paDataPins)"

text \<open>The position of the group, or \<open>None\<close> for the null pointer.\<close>

definition findOrCreateLocalCommGroup ::
    "string \<Rightarrow> com_pin list \<Rightarrow> CLocalCommGroupsManager \<Rightarrow> nat option \<times> CLocalCommGroupsManager" where
  "findOrCreateLocalCommGroup paID paDataPins m =
     (let it = getLocalCommGroupIterator paID m
      in if isGroupIteratorForGroup it paID m then
           if checkDataTypes (mLocalCommGroups m ! it) paDataPins then (Some it, m) else (None, m)
         else (Some it, m\<lparr>mLocalCommGroups :=
                 insert_at it (new_CLocalCommGroup paID (buildDataTypeList paDataPins))
                   (mLocalCommGroups m)\<rparr>))"

definition modify_group ::
    "nat \<Rightarrow> (CLocalCommGroup \<Rightarrow> CLocalCommGroup) \<Rightarrow> CLocalCommGroupsManager \<Rightarrow> CLocalCommGroupsManager" where
  "modify_group it f m = m\<lparr>mLocalCommGroups := (mLocalCommGroups m)[it := f (mLocalCommGroups m ! it)]\<rparr>"

definition registerPubl ::
    "string \<Rightarrow> nat \<Rightarrow> com_pin list \<Rightarrow> CLocalCommGroupsManager \<Rightarrow> bool \<times> CLocalCommGroupsManager" where
  "registerPubl paGroupID paLayer paDataPins m =
     (case findOrCreateLocalCommGroup paGroupID paDataPins m of
        (None, m') \<Rightarrow> (False, m')
      | (Some it, m') \<Rightarrow> (True, modify_group it (\<lambda>g. g\<lparr>mPublList := mPublList g @ [paLayer]\<rparr>) m'))"

definition registerSubl ::
    "string \<Rightarrow> nat \<Rightarrow> com_pin list \<Rightarrow> CLocalCommGroupsManager \<Rightarrow> bool \<times> CLocalCommGroupsManager" where
  "registerSubl paGroupID paLayer paDataPins m =
     (case findOrCreateLocalCommGroup paGroupID paDataPins m of
        (None, m') \<Rightarrow> (False, m')
      | (Some it, m') \<Rightarrow> (True, modify_group it (\<lambda>g. g\<lparr>mSublList := mSublList g @ [paLayer]\<rparr>) m'))"

text \<open>\<open>std::find\<close> and \<open>erase\<close>: the first entry goes.\<close>

definition removeListEntry :: "nat \<Rightarrow> nat list \<Rightarrow> nat list" where
  "removeListEntry paLayer paComLayerList = remove1 paLayer paComLayerList"

definition checkForGroupRemoval :: "nat \<Rightarrow> CLocalCommGroupsManager \<Rightarrow> CLocalCommGroupsManager" where
  "checkForGroupRemoval it m =
     (let g = mLocalCommGroups m ! it
      in if mPublList g = [] \<and> mSublList g = [] then
           m\<lparr>mLocalCommGroups := erase_at it (mLocalCommGroups m)\<rparr>
         else m)"

definition unregisterPubl :: "string \<Rightarrow> nat \<Rightarrow> CLocalCommGroupsManager \<Rightarrow> CLocalCommGroupsManager" where
  "unregisterPubl paGroupID paLayer m =
     (let it = getLocalCommGroupIterator paGroupID m
      in if isGroupIteratorForGroup it paGroupID m then
           checkForGroupRemoval it
             (modify_group it (\<lambda>g. g\<lparr>mPublList := removeListEntry paLayer (mPublList g)\<rparr>) m)
         else m)"

definition unregisterSubl :: "string \<Rightarrow> nat \<Rightarrow> CLocalCommGroupsManager \<Rightarrow> CLocalCommGroupsManager" where
  "unregisterSubl paGroupID paLayer m =
     (let it = getLocalCommGroupIterator paGroupID m
      in if isGroupIteratorForGroup it paGroupID m then
           checkForGroupRemoval it
             (modify_group it (\<lambda>g. g\<lparr>mSublList := removeListEntry paLayer (mSublList g)\<rparr>) m)
         else m)"

section \<open>The groups as a map\<close>

abbreviation group_map :: "CLocalCommGroupsManager \<Rightarrow> string \<rightharpoonup> CLocalCommGroup" where
  "group_map m \<equiv> vector_map mGroupName (mLocalCommGroups m)"

definition no_member :: "CLocalCommGroup \<Rightarrow> bool" where
  "no_member g \<longleftrightarrow> mPublList g = [] \<and> mSublList g = []"

definition groups_ok :: "CLocalCommGroupsManager \<Rightarrow> bool" where
  "groups_ok m \<longleftrightarrow> inj (id_address m) \<and>
     keys_sorted (\<lambda>g. id_address m (mGroupName g)) (mLocalCommGroups m) \<and>
     (\<forall>g\<in>set (mLocalCommGroups m). \<not> no_member g)"

text \<open>What registering and unregistering a member do to the map; \<open>f\<close> adds or removes the member.\<close>

definition spec_register ::
    "(CLocalCommGroup \<Rightarrow> CLocalCommGroup) \<Rightarrow> string \<Rightarrow> StringId list \<Rightarrow>
     (string \<rightharpoonup> CLocalCommGroup) \<Rightarrow> bool \<times> (string \<rightharpoonup> CLocalCommGroup)" where
  "spec_register f n types M =
     (case M n of
        None \<Rightarrow> (True, M(n \<mapsto> f (new_CLocalCommGroup n types)))
      | Some g \<Rightarrow> if mDataTypes g = types then (True, M(n \<mapsto> f g)) else (False, M))"

definition spec_unregister ::
    "(CLocalCommGroup \<Rightarrow> CLocalCommGroup) \<Rightarrow> string \<Rightarrow>
     (string \<rightharpoonup> CLocalCommGroup) \<Rightarrow> (string \<rightharpoonup> CLocalCommGroup)" where
  "spec_unregister f n M =
     (case M n of None \<Rightarrow> M | Some g \<Rightarrow> M(n := if no_member (f g) then None else Some (f g)))"

lemma same_types_iff: "length ts = length ps \<Longrightarrow> same_types ts ps \<longleftrightarrow> ts = map getTypeNameID ps"
  by (induction ts ps rule: same_types.induct) auto

lemma checkDataTypes_iff: "checkDataTypes g ps \<longleftrightarrow> mDataTypes g = buildDataTypeList ps"
  using same_types_iff [of "mDataTypes g" ps]
  by (auto simp: checkDataTypes_def buildDataTypeList_def)

lemma groups_okD:
  assumes "groups_ok m"
  shows "inj (id_address m)"
    and "keys_sorted (\<lambda>g. id_address m (mGroupName g)) (mLocalCommGroups m)"
    and "distinct (map mGroupName (mLocalCommGroups m))"
    and "g \<in> set (mLocalCommGroups m) \<Longrightarrow> \<not> no_member g"
  using assms keys_sorted_distinct [of "id_address m" mGroupName] by (auto simp: groups_ok_def)

lemma iterator_found:
  assumes "groups_ok m"
  shows "isGroupIteratorForGroup (getLocalCommGroupIterator n m) n m \<longleftrightarrow> group_map m n \<noteq> None"
  using lower_bound_iff [OF groups_okD(2) [OF assms], of "id_address m n"] groups_okD(1) [OF assms]
  by (auto simp: isGroupIteratorForGroup_def getLocalCommGroupIterator_def vector_map_None_iff
      image_iff inj_eq)

lemma iterator_group:
  assumes "groups_ok m" "group_map m n = Some g"
  shows "getLocalCommGroupIterator n m < length (mLocalCommGroups m)"
    and "mLocalCommGroups m ! getLocalCommGroupIterator n m = g" and "mGroupName g = n"
proof -
  have "g \<in> set (mLocalCommGroups m)" and n: "mGroupName g = n"
    using vector_map_SomeD [OF assms(2)] by auto
  then obtain i where i: "i < length (mLocalCommGroups m)" "mLocalCommGroups m ! i = g"
    by (auto simp: in_set_conv_nth)
  then have "getLocalCommGroupIterator n m = i"
    using lower_bound_found [OF groups_okD(2) [OF assms(1)], of i] n
    by (simp add: getLocalCommGroupIterator_def)
  then show "getLocalCommGroupIterator n m < length (mLocalCommGroups m)"
    and "mLocalCommGroups m ! getLocalCommGroupIterator n m = g" and "mGroupName g = n"
    using i n by simp_all
qed

lemma getComGroup_map: "groups_ok m \<Longrightarrow> getComGroup n m = group_map m n"
  by (cases "group_map m n") (auto simp: getComGroup_def Let_def iterator_found iterator_group)

text \<open>Registering with a member-adding function, in general.\<close>

definition register_with ::
    "(CLocalCommGroup \<Rightarrow> CLocalCommGroup) \<Rightarrow> string \<Rightarrow> com_pin list \<Rightarrow> CLocalCommGroupsManager \<Rightarrow>
     bool \<times> CLocalCommGroupsManager" where
  "register_with f n pins m =
     (case findOrCreateLocalCommGroup n pins m of
        (None, m') \<Rightarrow> (False, m') | (Some it, m') \<Rightarrow> (True, modify_group it f m'))"

definition unregister_with ::
    "(CLocalCommGroup \<Rightarrow> CLocalCommGroup) \<Rightarrow> string \<Rightarrow> CLocalCommGroupsManager \<Rightarrow> CLocalCommGroupsManager" where
  "unregister_with f n m =
     (let it = getLocalCommGroupIterator n m
      in if isGroupIteratorForGroup it n m then checkForGroupRemoval it (modify_group it f m) else m)"

lemma id_address_kept [simp]:
  "id_address (modify_group it f m) = id_address m"
  "id_address (checkForGroupRemoval it m) = id_address m"
  "id_address (snd (register_with f n pins m)) = id_address m"
  "id_address (unregister_with f n m) = id_address m"
  by (simp_all add: modify_group_def checkForGroupRemoval_def register_with_def unregister_with_def
      findOrCreateLocalCommGroup_def Let_def)

lemma modify_keys:
  assumes "keys_sorted (\<lambda>g. k (mGroupName g)) gs" "mGroupName y = mGroupName (gs ! it)"
  shows "keys_sorted (\<lambda>g. k (mGroupName g)) (gs[it := y])"
proof -
  have "map (\<lambda>g. k (mGroupName g)) (gs[it := y]) = map (\<lambda>g. k (mGroupName g)) gs"
    using assms(2) by (cases "it < length gs") (auto simp: map_update list_update_beyond intro: list_update_same_conv [THEN iffD2])
  then show ?thesis
    using assms(1) by (simp only:)
qed

lemma register_with_refines:
  assumes ok: "groups_ok m" and f: "\<And>g. mGroupName (f g) = mGroupName g" "\<And>g. \<not> no_member (f g)"
  shows "groups_ok (snd (register_with f n pins m))"
    and "apsnd group_map (register_with f n pins m) =
      spec_register f n (buildDataTypeList pins) (group_map m)"
proof -
  let ?gs = "mLocalCommGroups m" and ?it = "getLocalCommGroupIterator n m"
  let ?new = "new_CLocalCommGroup n (buildDataTypeList pins)"
  note okD = groups_okD [OF ok]
  have "groups_ok (snd (register_with f n pins m)) \<and> apsnd group_map (register_with f n pins m) =
      spec_register f n (buildDataTypeList pins) (group_map m)"
  proof (cases "group_map m n")
    case None
    have it: "?it \<le> length ?gs"
      by (simp add: getLocalCommGroupIterator_def lower_bound_le)
    have no: "\<not> isGroupIteratorForGroup ?it n m"
      using None iterator_found [OF ok] by simp
    have fresh: "n \<notin> mGroupName ` set ?gs"
      using None by (simp add: vector_map_None_iff)
    have reg: "register_with f n pins m = (True, m\<lparr>mLocalCommGroups := insert_at ?it (f ?new) ?gs\<rparr>)"
      using no it by (simp add: register_with_def findOrCreateLocalCommGroup_def modify_group_def Let_def)
    have name: "mGroupName (f ?new) = n"
      by (simp add: f new_CLocalCommGroup_def)
    have "keys_sorted (\<lambda>g. id_address m (mGroupName g)) (insert_at ?it (f ?new) ?gs)"
      using insert_keys_sorted [OF okD(2), of "f ?new"] fresh okD(1) name
      by (auto simp: getLocalCommGroupIterator_def inj_eq image_iff)
    then have "groups_ok (snd (register_with f n pins m))"
      using okD f(2) by (auto simp: reg groups_ok_def)
    then show ?thesis
      using vector_map_insert [of mGroupName "f ?new" ?gs ?it] fresh name None
      by (simp add: reg spec_register_def)
  next
    case (Some g)
    note it = iterator_group [OF ok Some]
    have yes: "isGroupIteratorForGroup ?it n m"
      using Some iterator_found [OF ok] by simp
    show ?thesis
    proof (cases "mDataTypes g = buildDataTypeList pins")
      case True
      have reg: "register_with f n pins m = (True, m\<lparr>mLocalCommGroups := ?gs[?it := f g]\<rparr>)"
        using yes True it
        by (simp add: register_with_def findOrCreateLocalCommGroup_def modify_group_def Let_def
            checkDataTypes_iff)
      have "groups_ok (snd (register_with f n pins m))"
        using okD f modify_keys [OF okD(2), of "f g" ?it] it
        by (auto simp: reg groups_ok_def dest!: set_update_subset_insert [THEN subsetD])
      then show ?thesis
        using vector_map_update [OF okD(3) it(1), of "f g"] it f(1) Some True
        by (simp add: reg spec_register_def)
    next
      case False
      then have "register_with f n pins m = (False, m)"
        using yes it
        by (simp add: register_with_def findOrCreateLocalCommGroup_def Let_def checkDataTypes_iff)
      then show ?thesis
        using ok Some False by (simp add: spec_register_def)
    qed
  qed
  then show "groups_ok (snd (register_with f n pins m))"
    and "apsnd group_map (register_with f n pins m) =
      spec_register f n (buildDataTypeList pins) (group_map m)"
    by auto
qed

lemma unregister_with_refines:
  assumes ok: "groups_ok m" and f: "\<And>g. mGroupName (f g) = mGroupName g"
  shows "groups_ok (unregister_with f n m)"
    and "group_map (unregister_with f n m) = spec_unregister f n (group_map m)"
proof -
  let ?gs = "mLocalCommGroups m" and ?it = "getLocalCommGroupIterator n m"
  note okD = groups_okD [OF ok]
  have "groups_ok (unregister_with f n m) \<and>
    group_map (unregister_with f n m) = spec_unregister f n (group_map m)"
  proof (cases "group_map m n")
    case None
    then show ?thesis
      using ok iterator_found [OF ok, of n] by (simp add: unregister_with_def spec_unregister_def Let_def)
  next
    case (Some g)
    note it = iterator_group [OF ok Some]
    have yes: "isGroupIteratorForGroup ?it n m"
      using Some iterator_found [OF ok] by simp
    have len: "?it < length (?gs[?it := f g])"
      using it by simp
    have srt: "keys_sorted (\<lambda>g. id_address m (mGroupName g)) (?gs[?it := f g])"
      using modify_keys [OF okD(2), of "f g" ?it] it f by simp
    have upd: "vector_map mGroupName (?gs[?it := f g]) = (group_map m)(n \<mapsto> f g)"
      using vector_map_update [OF okD(3) it(1), of "f g"] it f by simp
    have sub: "set (?gs[?it := f g]) \<subseteq> insert (f g) (set ?gs)"
      by (rule set_update_subset_insert)
    show ?thesis
    proof (cases "no_member (f g)")
      case True
      have un: "unregister_with f n m = m\<lparr>mLocalCommGroups := erase_at ?it (?gs[?it := f g])\<rparr>"
        using yes it True
        by (simp add: unregister_with_def checkForGroupRemoval_def modify_group_def no_member_def Let_def)
      have "erase_at ?it (?gs[?it := f g]) = erase_at ?it ?gs"
        by (simp add: erase_at_def)
      then have "groups_ok (unregister_with f n m)"
        using okD erase_keys_sorted [OF okD(2), of ?it] set_erase_at [of ?it ?gs]
        by (auto simp: un groups_ok_def)
      moreover have "distinct (map mGroupName (?gs[?it := f g]))"
        using keys_sorted_distinct [of "id_address m" mGroupName, OF srt] .
      ultimately show ?thesis
        using vector_map_erase [of mGroupName, OF _ len] upd it f Some True
        by (simp add: un spec_unregister_def)
    next
      case False
      have un: "unregister_with f n m = m\<lparr>mLocalCommGroups := ?gs[?it := f g]\<rparr>"
        using yes it False
        by (auto simp: unregister_with_def checkForGroupRemoval_def modify_group_def no_member_def Let_def)
      have "groups_ok (unregister_with f n m)"
        using okD srt sub False by (auto simp: un groups_ok_def)
      then show ?thesis
        using upd Some False by (simp add: un spec_unregister_def)
    qed
  qed
  then show "groups_ok (unregister_with f n m)"
    and "group_map (unregister_with f n m) = spec_unregister f n (group_map m)"
    by auto
qed

text \<open>The order of the vector is no information: managers with the same groups are equal.\<close>

lemma keys_sorted_unique:
  assumes "keys_sorted k xs" "keys_sorted k ys" "set xs = set ys"
  shows "xs = ys"
proof -
  have inj: "inj_on k (set xs \<union> set ys)"
    using assms keys_sorted_distinct [of id k xs] unfolding assms(3)
    by (auto simp: sorted_wrt_map strict_sorted_iff distinct_map simp flip: sorted_wrt_map)
  have "map k xs = map k ys"
    using assms by (intro sorted_distinct_set_unique) (auto simp: strict_sorted_iff)
  then show ?thesis
    using inj by (rule map_inj_on)
qed

lemma manager_eqI:
  assumes "groups_ok m" "groups_ok m'" "id_address m = id_address m'" "group_map m = group_map m'"
  shows "m = m'"
proof -
  have in_map: "g \<in> set (mLocalCommGroups m) \<longleftrightarrow> group_map m (mGroupName g) = Some g"
    if "groups_ok m" for m :: CLocalCommGroupsManager and g
    using vector_map_unique [OF groups_okD(3) [OF that]] by (auto dest: vector_map_SomeD)
  have "set (mLocalCommGroups m) = set (mLocalCommGroups m')"
    using in_map [OF assms(1)] in_map [OF assms(2)] assms(4) by auto
  then have "mLocalCommGroups m = mLocalCommGroups m'"
    using keys_sorted_unique [OF groups_okD(2) [OF assms(1)], of "mLocalCommGroups m'"]
      groups_okD(2) [OF assms(2)] assms(3) by simp
  then show ?thesis
    using assms(3) by (cases m, cases m') simp
qed

section \<open>What the layers rely on\<close>

text \<open>The contract of registering in one role: \<open>mem\<close> are the members of a group in that role,
  \<open>with_mem\<close> replaces them.\<close>

locale group_registry =
  fixes ok :: "'m \<Rightarrow> bool" and addresses :: "'m \<Rightarrow> string \<Rightarrow> nat" and group_of :: "'m \<Rightarrow> string \<rightharpoonup> CLocalCommGroup"
    and register :: "string \<Rightarrow> nat \<Rightarrow> com_pin list \<Rightarrow> 'm \<Rightarrow> bool \<times> 'm"
    and unregister :: "string \<Rightarrow> nat \<Rightarrow> 'm \<Rightarrow> 'm"
    and mem :: "CLocalCommGroup \<Rightarrow> nat list"
    and with_mem :: "(nat list \<Rightarrow> nat list) \<Rightarrow> CLocalCommGroup \<Rightarrow> CLocalCommGroup"
  assumes register_ok: "ok m \<Longrightarrow> ok (snd (register n a pins m))"
    and register_spec: "ok m \<Longrightarrow> apsnd group_of (register n a pins m) =
      spec_register (with_mem (\<lambda>l. l @ [a])) n (buildDataTypeList pins) (group_of m)"
    and unregister_ok: "ok m \<Longrightarrow> ok (unregister n a m)"
    and unregister_spec: "ok m \<Longrightarrow> group_of (unregister n a m) =
      spec_unregister (with_mem (remove1 a)) n (group_of m)"
    and same_groups: "ok m \<Longrightarrow> ok m' \<Longrightarrow> addresses m = addresses m' \<Longrightarrow> group_of m = group_of m' \<Longrightarrow> m = m'"
    and addresses_kept: "addresses (snd (register n a pins m)) = addresses m"
      "addresses (unregister n a m) = addresses m"
    and never_empty: "ok m \<Longrightarrow> group_of m n = Some g \<Longrightarrow> \<not> no_member g"
    and mem_with [simp]: "mem (with_mem f g) = f (mem g)"
    and with_with [simp]: "with_mem f (with_mem f' g) = with_mem (\<lambda>l. f (f' l)) g"
    and with_id: "f (mem g) = mem g \<Longrightarrow> with_mem f g = g"
    and types_with [simp]: "mDataTypes (with_mem f g) = mDataTypes g"
    and new_empty: "mem (new_CLocalCommGroup n tys) = []"
    and new_with: "f [] = [] \<Longrightarrow> no_member (with_mem f (new_CLocalCommGroup n tys))"
begin

lemma register_cases:
  assumes "ok m" "register n a pins m = (b, m')"
  obtains (fresh) "group_of m n = None" "b"
      "group_of m' = (group_of m)(n \<mapsto> with_mem (\<lambda>l. l @ [a]) (new_CLocalCommGroup n (buildDataTypeList pins)))"
    | (joined) g where "group_of m n = Some g" "mDataTypes g = buildDataTypeList pins" "b"
      "group_of m' = (group_of m)(n \<mapsto> with_mem (\<lambda>l. l @ [a]) g)"
    | (refused) g where "group_of m n = Some g" "mDataTypes g \<noteq> buildDataTypeList pins" "\<not> b"
      "group_of m' = group_of m"
  using register_spec [OF assms(1), of n a pins] assms(2)
  by (auto simp: spec_register_def split: option.splits if_splits)

lemma register_member:
  assumes "ok m" "register n a pins m = (True, m')"
  shows "\<exists>g. group_of m' n = Some g \<and> a \<in> set (mem g) \<and> mDataTypes g = buildDataTypeList pins"
  using assms by (cases rule: register_cases) (auto simp: new_CLocalCommGroup_def)

lemma register_other:
  assumes "ok m" "n' \<noteq> n"
  shows "group_of (snd (register n a pins m)) n' = group_of m n'"
proof -
  obtain b m' where "register n a pins m = (b, m')"
    by fastforce
  with assms show ?thesis
    by (cases rule: register_cases [OF assms(1), of n a pins b m']) auto
qed

lemma remove_added: "a \<notin> set l \<Longrightarrow> remove1 a (l @ [a]) = l"
  by (simp add: remove1_append)

lemma register_unregister:
  assumes "ok m" "register n a pins m = (True, m')"
    and "\<And>g. group_of m n = Some g \<Longrightarrow> a \<notin> set (mem g)"
  shows "unregister n a m' = m"
proof -
  have ok': "ok m'"
    using register_ok [OF assms(1), of n a pins] assms(2) by simp
  have un: "group_of (unregister n a m') = spec_unregister (with_mem (remove1 a)) n (group_of m')"
    by (rule unregister_spec [OF ok'])
  have "group_of m = group_of (unregister n a m')"
    using assms(1,2)
  proof (cases rule: register_cases)
    case fresh
    then show ?thesis
      unfolding un by (simp add: spec_unregister_def new_with fun_upd_idem)
  next
    case (joined g)
    have "with_mem (\<lambda>l. remove1 a (l @ [a])) g = g"
      using joined(1) assms(3) by (intro with_id remove_added) simp
    then show ?thesis
      using never_empty [OF assms(1) joined(1)] joined
      unfolding un by (simp add: spec_unregister_def fun_upd_idem)
  next
    case refused
    then show ?thesis
      by simp
  qed
  moreover have "addresses m = addresses (unregister n a m')"
    using addresses_kept(1) [of n a pins m] addresses_kept(2) [of n a m'] assms(2) by simp
  ultimately show ?thesis
    by (intro same_groups [OF assms(1) unregister_ok [OF ok'], symmetric])
qed

lemma unregister_stranger:
  assumes "ok m" "\<And>g. group_of m n = Some g \<Longrightarrow> a \<notin> set (mem g)"
  shows "unregister n a m = m"
proof -
  have "group_of (unregister n a m) = group_of m"
  proof (cases "group_of m n")
    case None
    then show ?thesis
      by (simp add: unregister_spec [OF assms(1)] spec_unregister_def)
  next
    case (Some g)
    have "with_mem (remove1 a) g = g"
      using assms(2) [OF Some] by (intro with_id remove1_idem)
    then show ?thesis
      using Some never_empty [OF assms(1) Some]
      by (simp add: unregister_spec [OF assms(1)] spec_unregister_def fun_upd_idem)
  qed
  then show ?thesis
    by (intro same_groups [OF assms(1) unregister_ok [OF assms(1)], symmetric])
      (simp_all add: addresses_kept)
qed

lemma unregister_removes:
  assumes "ok m" "\<And>g. group_of m n = Some g \<Longrightarrow> distinct (mem g)"
    and "group_of (unregister n a m) n = Some g"
  shows "a \<notin> set (mem g)"
  using assms
  by (auto simp: unregister_spec spec_unregister_def split: option.splits if_splits)

end

text \<open>The manager keeps the contract in both roles.\<close>

definition with_publ :: "(nat list \<Rightarrow> nat list) \<Rightarrow> CLocalCommGroup \<Rightarrow> CLocalCommGroup" where
  "with_publ f g = g\<lparr>mPublList := f (mPublList g)\<rparr>"

definition with_subl :: "(nat list \<Rightarrow> nat list) \<Rightarrow> CLocalCommGroup \<Rightarrow> CLocalCommGroup" where
  "with_subl f g = g\<lparr>mSublList := f (mSublList g)\<rparr>"

lemma as_register_with:
  "registerPubl n a pins m = register_with (with_publ (\<lambda>l. l @ [a])) n pins m"
  "registerSubl n a pins m = register_with (with_subl (\<lambda>l. l @ [a])) n pins m"
  "unregisterPubl n a m = unregister_with (with_publ (remove1 a)) n m"
  "unregisterSubl n a m = unregister_with (with_subl (remove1 a)) n m"
  unfolding registerPubl_def registerSubl_def unregisterPubl_def unregisterSubl_def
    register_with_def unregister_with_def removeListEntry_def with_publ_def with_subl_def
  by (rule refl)+

lemma role_simps:
  "mGroupName (with_publ f g) = mGroupName g" "mGroupName (with_subl f g) = mGroupName g"
  "\<not> no_member (with_publ (\<lambda>l. l @ [a]) g)" "\<not> no_member (with_subl (\<lambda>l. l @ [a]) g)"
  by (simp_all add: with_publ_def with_subl_def no_member_def)

lemma manager_never_empty: "groups_ok m \<Longrightarrow> group_map m n = Some g \<Longrightarrow> \<not> no_member g"
  by (auto dest: vector_map_SomeD groups_okD(4))

interpretation publ: group_registry groups_ok id_address group_map registerPubl unregisterPubl mPublList with_publ
proof (unfold_locales, goal_cases)
  case 5
  then show ?case by (rule manager_eqI)
next
  case 8
  then show ?case by (rule manager_never_empty)
qed (simp_all add: as_register_with register_with_refines unregister_with_refines role_simps
    with_publ_def new_CLocalCommGroup_def no_member_def)

interpretation subl: group_registry groups_ok id_address group_map registerSubl unregisterSubl mSublList with_subl
proof (unfold_locales, goal_cases)
  case 5
  then show ?case by (rule manager_eqI)
next
  case 8
  then show ?case by (rule manager_never_empty)
qed (simp_all add: as_register_with register_with_refines unregister_with_refines role_simps
    with_subl_def new_CLocalCommGroup_def no_member_def)

section \<open>Properties\<close>

text \<open>C24: The sorted vector of groups implements a map from group names to groups: the binary search
  finds exactly the group of a name; registering as publisher or subscriber creates the group, joins
  it at the end when the pin types are the group's, and is refused otherwise; unregistering removes
  the member and the group with its last member; and all of them keep the vector sorted, free of
  duplicates and of empty groups.\<close>

theorem groups_manager_refines:
  assumes "groups_ok m"
  shows "getComGroup n m = group_map m n \<and>
    apsnd group_map (registerPubl n a pins m) =
      spec_register (with_publ (\<lambda>l. l @ [a])) n (buildDataTypeList pins) (group_map m) \<and>
    apsnd group_map (registerSubl n a pins m) =
      spec_register (with_subl (\<lambda>l. l @ [a])) n (buildDataTypeList pins) (group_map m) \<and>
    group_map (unregisterPubl n a m) = spec_unregister (with_publ (remove1 a)) n (group_map m) \<and>
    group_map (unregisterSubl n a m) = spec_unregister (with_subl (remove1 a)) n (group_map m) \<and>
    groups_ok (snd (registerPubl n a pins m)) \<and> groups_ok (snd (registerSubl n a pins m)) \<and>
    groups_ok (unregisterPubl n a m) \<and> groups_ok (unregisterSubl n a m)"
  by (intro conjI getComGroup_map publ.register_spec subl.register_spec publ.unregister_spec
      subl.unregister_spec publ.register_ok subl.register_ok publ.unregister_ok subl.unregister_ok assms)

definition example_pin :: com_pin where
  "example_pin = \<lparr>getTypeNameID = Some ''INT'', pin_data = Elem e_INT 7\<rparr>"

definition example_groups :: CLocalCommGroupsManager where
  "example_groups =
     \<lparr>id_address = text_code,
      mLocalCommGroups = [\<lparr>mGroupName = ''A'', mPublList = [4], mSublList = [], mDataTypes = [Some ''INT'']\<rparr>]\<rparr>"

lemma example_groups_ok: "groups_ok example_groups"
  using text_code_inj by (auto simp: groups_ok_def example_groups_def no_member_def intro: injI)

lemma groups_manager_refines_witness:
  "apsnd group_map (registerSubl ''A'' 9 [example_pin] example_groups) =
    (True, [''A'' \<mapsto> \<lparr>mGroupName = ''A'', mPublList = [4], mSublList = [9], mDataTypes = [Some ''INT'']\<rparr>])"
proof -
  have "group_map example_groups =
      [''A'' \<mapsto> \<lparr>mGroupName = ''A'', mPublList = [4], mSublList = [], mDataTypes = [Some ''INT'']\<rparr>]"
    by (rule ext) (simp add: vector_map_def example_groups_def)
  then show ?thesis
    using groups_manager_refines [OF example_groups_ok, of "''A''" 9 "[example_pin]"]
    by (simp add: spec_register_def buildDataTypeList_def example_pin_def with_subl_def)
qed

end
