(* ===== verification/Com_FB.thy ===== *)
theory Com_FB
imports Local_Groups Mgm_Cmd "HOL-Library.Monad_Syntax"
begin

text \<open>
  Communication blocks and their stacks of layers: \<open>core/src/cominfra/basecommfb.cpp\<close>, \<open>commfb.cpp\<close>,
  \<open>comlayer.cpp\<close>, and the two layers that need no operating system, \<open>localcomlayer.cpp\<close> and
  \<open>rawdatacomlayer.cpp\<close>.

  Blocks and layer objects live at addresses, which are natural numbers that are not used again.  The
  layers of a block are linked by \<open>mTopLayer\<close> and \<open>mBottomLayer\<close> and hang on \<open>mTopOfComStack\<close>; here
  they are the list of their addresses from the top layer down, empty for the null pointer.  The
  virtual functions of a layer are a record \<open>layer_class\<close>, the factory maps the name of a layer to
  its class.  An operation that uses a deleted or null layer or a pin that does not exist has no
  result.
\<close>

section \<open>State\<close>

definition cgCommunicationInterruptQueueSize :: nat where
  "cgCommunicationInterruptQueueSize = 10"

record CComLayer =
  mLayerName :: string
  mFb :: nat
  mGroupID :: string

text \<open>\<open>mLocalDefault\<close>: the block is a \<open>GEN_PUBL\<close> or \<open>GEN_SUBL\<close>.  The generic pins are variants.\<close>

record CCommFB =
  mCommServiceType :: EComServiceType
  mLocalDefault :: bool
  var_QI :: bool
  var_ID :: string
  var_QO :: bool
  var_STATUS :: string
  mGenDIs :: "com_pin list"
  mGenDOs :: "com_pin list"
  mComStack :: "nat list"
  mComInterruptQueueCount :: nat
  mInterruptQueue :: "nat option list"

text \<open>\<open>mStartedChains\<close> are the blocks whose external event was started, \<open>mSentEvents\<close> the output
  events sent, each in order.\<close>

record com_world =
  mFBs :: "nat \<rightharpoonup> CCommFB"
  mLayers :: "nat \<rightharpoonup> CComLayer"
  mNextLayer :: nat
  smLocalCommGroupsManager :: CLocalCommGroupsManager
  mStartedChains :: "nat list"
  mSentEvents :: "(nat \<times> TEventID) list"

text \<open>What a layer is given to send: the pins of the block or, further down, bytes.\<close>

datatype com_data = SDs "com_pin list" | Bytes "byte list"

record 'w layer_class =
  lOpen :: "nat \<Rightarrow> string \<Rightarrow> 'w \<Rightarrow> (EComResponse \<times> 'w) option"
  lClose :: "nat \<Rightarrow> 'w \<Rightarrow> 'w option"
  lDestroy :: "nat \<Rightarrow> 'w \<Rightarrow> 'w option"
  lSend :: "(com_data \<Rightarrow> 'w \<Rightarrow> (EComResponse \<times> 'w) option) option \<Rightarrow> nat \<Rightarrow> com_data \<Rightarrow> 'w \<Rightarrow>
     (EComResponse \<times> 'w) option"
  lProcess :: "nat \<Rightarrow> 'w \<Rightarrow> (EComResponse \<times> 'w) option"

type_synonym 'x layer_lib = "string \<Rightarrow> 'x com_world_scheme layer_class option"

definition set_fb :: "nat \<Rightarrow> CCommFB \<Rightarrow> 'x com_world_scheme \<Rightarrow> 'x com_world_scheme" where
  "set_fb i fb w = w\<lparr>mFBs := (mFBs w)(i \<mapsto> fb)\<rparr>"

section \<open>The local layer\<close>

definition Local_openConnection ::
    "nat \<Rightarrow> string \<Rightarrow> 'x com_world_scheme \<Rightarrow> (EComResponse \<times> 'x com_world_scheme) option" where
  "Local_openConnection a paLayerParameter w =
     do {
       l \<leftarrow> mLayers w a;
       fb \<leftarrow> mFBs w (mFb l);
       let w1 = w\<lparr>mLayers := (mLayers w)(a \<mapsto> l\<lparr>mGroupID := paLayerParameter\<rparr>)\<rparr>;
       let M = smLocalCommGroupsManager w;
       Some (case mCommServiceType fb of
         e_Server \<Rightarrow> (e_InitOk, w1)
       | e_Client \<Rightarrow> (e_InitOk, w1)
       | e_Publisher \<Rightarrow>
           (let (b, M') = registerPubl paLayerParameter a (mGenDIs fb) M
            in (if \<not> b then e_InitInvalidId else e_InitOk, w1\<lparr>smLocalCommGroupsManager := M'\<rparr>))
       | e_Subscriber \<Rightarrow>
           (let (b, M') = registerSubl paLayerParameter a (mGenDOs fb) M
            in (if \<not> b then e_InitInvalidId else e_InitOk, w1\<lparr>smLocalCommGroupsManager := M'\<rparr>)))
     }"

definition Local_closeConnection :: "nat \<Rightarrow> 'x com_world_scheme \<Rightarrow> 'x com_world_scheme option" where
  "Local_closeConnection a w =
     do {
       l \<leftarrow> mLayers w a;
       fb \<leftarrow> mFBs w (mFb l);
       let M = smLocalCommGroupsManager w;
       Some (w\<lparr>smLocalCommGroupsManager :=
         (if mCommServiceType fb = e_Publisher then unregisterPubl (mGroupID l) a M
          else unregisterSubl (mGroupID l) a M)\<rparr>)
     }"

text \<open>\<open>setRDs\<close>: assigning a variant to a variant copies its content and type.  Writing to a pin that
  the subscriber does not have has no result.\<close>

fun setRDs :: "com_pin list \<Rightarrow> com_pin list \<Rightarrow> com_pin list option" where
  "setRDs rds [] = Some rds"
| "setRDs [] (sd # sds) = None"
| "setRDs (old # rds) (sd # sds) = map_option (\<lambda>r. sd # r) (setRDs rds sds)"

definition interruptCommFB :: "nat \<Rightarrow> CCommFB \<Rightarrow> CCommFB" where
  "interruptCommFB paComLayer fb =
     (if mComInterruptQueueCount fb < cgCommunicationInterruptQueueSize then
        fb\<lparr>mInterruptQueue := (mInterruptQueue fb)[mComInterruptQueueCount fb := Some paComLayer],
           mComInterruptQueueCount := mComInterruptQueueCount fb + 1\<rparr>
      else fb)"

fun deliver_all :: "com_pin list \<Rightarrow> nat list \<Rightarrow> 'x com_world_scheme \<Rightarrow> 'x com_world_scheme option" where
  "deliver_all sds [] w = Some w"
| "deliver_all sds (runner # runners) w =
     do {
       l \<leftarrow> mLayers w runner;
       subFb \<leftarrow> mFBs w (mFb l);
       rds \<leftarrow> setRDs (mGenDOs subFb) sds;
       deliver_all sds runners
         (set_fb (mFb l) (interruptCommFB runner (subFb\<lparr>mGenDOs := rds\<rparr>))
           (w\<lparr>mStartedChains := mStartedChains w @ [mFb l]\<rparr>))
     }"

definition Local_sendData ::
    "(com_data \<Rightarrow> 'x com_world_scheme \<Rightarrow> (EComResponse \<times> 'x com_world_scheme) option) option \<Rightarrow>
     nat \<Rightarrow> com_data \<Rightarrow> 'x com_world_scheme \<Rightarrow> (EComResponse \<times> 'x com_world_scheme) option" where
  "Local_sendData below a paData w =
     do {
       l \<leftarrow> mLayers w a;
       fb \<leftarrow> mFBs w (mFb l);
       (case getComGroup (mGroupID l) (smLocalCommGroupsManager w) of
          None \<Rightarrow> Some (e_ProcessDataSendFailed, w)
        | Some comGroup \<Rightarrow>
            map_option (\<lambda>w'. (e_ProcessDataOk, w')) (deliver_all (mGenDIs fb) (mSublList comGroup) w))
     }"

text \<open>The destructor closes the connection.\<close>

definition Local_class :: "'x com_world_scheme layer_class" where
  "Local_class =
     \<lparr>lOpen = Local_openConnection, lClose = Local_closeConnection, lDestroy = Local_closeConnection,
      lSend = Local_sendData, lProcess = (\<lambda>a w. Some (e_ProcessDataOk, w))\<rparr>"

section \<open>The raw data layer\<close>

definition one_string :: "com_pin list \<Rightarrow> bool" where
  "one_string pins = (length pins = 1 \<and> getDataTypeID (pin_data (pins ! 0)) = e_STRING)"

definition Raw_openConnection ::
    "nat \<Rightarrow> string \<Rightarrow> 'x com_world_scheme \<Rightarrow> (EComResponse \<times> 'x com_world_scheme) option" where
  "Raw_openConnection a paLayerParameter w =
     do {
       l \<leftarrow> mLayers w a;
       fb \<leftarrow> mFBs w (mFb l);
       Some (if mCommServiceType fb = e_Client \<or> mCommServiceType fb = e_Publisher
             then if \<not> one_string (mGenDIs fb) then e_InitTerminated else e_InitOk
             else if \<not> one_string (mGenDOs fb) then e_InitTerminated else e_InitOk, w)
     }"

text \<open>The answer of the layer below is not looked at.  The first pin is taken for a STRING and the
  layer below for granted.\<close>

definition Raw_sendData ::
    "(com_data \<Rightarrow> 'x com_world_scheme \<Rightarrow> (EComResponse \<times> 'x com_world_scheme) option) option \<Rightarrow>
     nat \<Rightarrow> com_data \<Rightarrow> 'x com_world_scheme \<Rightarrow> (EComResponse \<times> 'x com_world_scheme) option" where
  "Raw_sendData below a paData w =
     (case paData of
        SDs (sd # _) \<Rightarrow>
          (case pin_data sd of
             Str s \<Rightarrow> do { send \<leftarrow> below; (resp, w') \<leftarrow> send (Bytes s) w; Some (e_ProcessDataOk, w') }
           | _ \<Rightarrow> None)
      | _ \<Rightarrow> None)"

definition Raw_class :: "'x com_world_scheme layer_class" where
  "Raw_class =
     \<lparr>lOpen = Raw_openConnection, lClose = (\<lambda>a w. Some w), lDestroy = (\<lambda>a w. Some w),
      lSend = Raw_sendData, lProcess = (\<lambda>a w. Some (e_Nothing, w))\<rparr>"

text \<open>The factory with these two layers.\<close>

definition core_layers :: "'x layer_lib" where
  "core_layers name =
     (if name = ''loc'' then Some Local_class else if name = ''raw'' then Some Raw_class else None)"

section \<open>Stacks of layers\<close>

definition layer_class_of :: "'x layer_lib \<Rightarrow> nat \<Rightarrow> 'x com_world_scheme \<Rightarrow>
    'x com_world_scheme layer_class option" where
  "layer_class_of lib a w = do { l \<leftarrow> mLayers w a; lib (mLayerName l) }"

definition new_layer :: "string \<Rightarrow> nat \<Rightarrow> 'x com_world_scheme \<Rightarrow> 'x com_world_scheme" where
  "new_layer layerID i w =
     w\<lparr>mLayers := (mLayers w)(mNextLayer w \<mapsto> \<lparr>mLayerName = layerID, mFb = i, mGroupID = []\<rparr>),
       mNextLayer := mNextLayer w + 1,
       mFBs := (mFBs w)(i := map_option (\<lambda>fb. fb\<lparr>mComStack := mComStack fb @ [mNextLayer w]\<rparr>) (mFBs w i))\<rparr>"

definition free_layer :: "nat \<Rightarrow> 'x com_world_scheme \<Rightarrow> 'x com_world_scheme" where
  "free_layer a w = w\<lparr>mLayers := (mLayers w)(a := None)\<rparr>"

fun stack_sendData ::
    "'x layer_lib \<Rightarrow> nat list \<Rightarrow> com_data \<Rightarrow> 'x com_world_scheme \<Rightarrow>
     (EComResponse \<times> 'x com_world_scheme) option" where
  "stack_sendData lib [] d w = None"
| "stack_sendData lib (a # below) d w =
     do {
       c \<leftarrow> layer_class_of lib a w;
       lSend c (if below = [] then None else Some (stack_sendData lib below)) a d w
     }"

text \<open>\<open>delete\<close> of the top layer: its own destructor, then that of \<open>CComLayer\<close>, which closes and deletes
  the layer below.\<close>

fun delete_stack :: "'x layer_lib \<Rightarrow> nat list \<Rightarrow> 'x com_world_scheme \<Rightarrow> 'x com_world_scheme option" where
  "delete_stack lib [] w = Some w"
| "delete_stack lib (a # below) w =
     do {
       c \<leftarrow> layer_class_of lib a w;
       w1 \<leftarrow> lDestroy c a w;
       w2 \<leftarrow> (case below of
               [] \<Rightarrow> Some w1
             | b # _ \<Rightarrow>
                 do {
                   cb \<leftarrow> layer_class_of lib b w1;
                   w' \<leftarrow> lClose cb b w1;
                   delete_stack lib below w'
                 });
       Some (free_layer a w2)
     }"

section \<open>Opening and closing\<close>

definition closeConnection :: "'x layer_lib \<Rightarrow> nat \<Rightarrow> 'x com_world_scheme \<Rightarrow> 'x com_world_scheme option" where
  "closeConnection lib i w =
     do {
       fb \<leftarrow> mFBs w i;
       (case mComStack fb of
          [] \<Rightarrow> Some w
        | a # _ \<Rightarrow>
            do {
              c \<leftarrow> layer_class_of lib a w;
              w1 \<leftarrow> lClose c a w;
              w2 \<leftarrow> delete_stack lib (mComStack fb) w1;
              fb2 \<leftarrow> mFBs w2 i;
              Some (set_fb i (fb2\<lparr>mComStack := []\<rparr>) w2)
            })
     }"

function createComstack ::
    "'x layer_lib \<Rightarrow> nat \<Rightarrow> string \<Rightarrow> EComResponse \<Rightarrow> 'x com_world_scheme \<Rightarrow>
     (EComResponse \<times> 'x com_world_scheme) option" where
  "createComstack lib i commID retVal w =
     (if commID = [] then Some (retVal, w)
      else case extractLayerIdAndParams commID of
             (Some (layerID, layerParams), Some rest) \<Rightarrow>
               if layerID \<noteq> [] then
                 (case lib layerID of
                    None \<Rightarrow> Some (e_InitInvalidId, w)
                  | Some c \<Rightarrow>
                      (case lOpen c (mNextLayer w) layerParams (new_layer layerID i w) of
                         None \<Rightarrow> None
                       | Some (resp, w') \<Rightarrow>
                           if resp \<noteq> e_InitOk then Some (resp, w')
                           else createComstack lib i rest resp w'))
               else Some (e_InitInvalidId, w)
           | _ \<Rightarrow> Some (e_InitInvalidId, w))"
  by auto
termination
  by (relation "measure (\<lambda>(lib, i, commID, retVal, w). length commID)")
    (auto dest: extract_shorter [OF sym])

declare createComstack.simps [simp del]

definition getDefaultIDString :: "CCommFB \<Rightarrow> string" where
  "getDefaultIDString fb =
     (if mLocalDefault fb then GEN_PUBL_getDefaultIDString (var_ID fb)
      else CCommFB_getDefaultIDString (var_ID fb))"

definition commID_of :: "CCommFB \<Rightarrow> string" where
  "commID_of fb = (if CHR '']'' \<notin> set (var_ID fb) then getDefaultIDString fb else var_ID fb)"

definition openConnection ::
    "'x layer_lib \<Rightarrow> nat \<Rightarrow> 'x com_world_scheme \<Rightarrow> (EComResponse \<times> 'x com_world_scheme) option" where
  "openConnection lib i w =
     do {
       fb \<leftarrow> mFBs w i;
       if mComStack fb = [] then
         let commID = commID_of fb
         in if commID = [] then Some (e_InitInvalidId, w)
            else do {
              (retVal, w1) \<leftarrow> createComstack lib i commID e_InitInvalidId w;
              if retVal \<noteq> e_InitOk then do { w2 \<leftarrow> closeConnection lib i w1; Some (retVal, w2) }
              else Some (retVal, w1)
            }
       else Some (e_InitOk, w)
     }"

section \<open>Sending and receiving\<close>

definition CCommFB_sendData ::
    "'x layer_lib \<Rightarrow> nat \<Rightarrow> 'x com_world_scheme \<Rightarrow> (EComResponse \<times> 'x com_world_scheme) option" where
  "CCommFB_sendData lib i w =
     do {
       fb \<leftarrow> mFBs w i;
       if var_QI fb then
         if mCommServiceType fb \<noteq> e_Subscriber then
           if mComStack fb \<noteq> [] then
             do {
               (resp, w') \<leftarrow> stack_sendData lib (mComStack fb) (SDs (mGenDIs fb)) w;
               Some (if resp = e_ProcessDataOk \<and> mCommServiceType fb \<noteq> e_Publisher then e_Nothing else resp, w')
             }
           else Some (e_ProcessDataNoSocket, w)
         else Some (e_Nothing, w)
       else Some (e_ProcessDataInhibited, w)
     }"

text \<open>The loop over the entries that were in the queue when it started; \<open>n\<close> are left from \<open>k\<close> on.\<close>

fun receive_loop ::
    "'x layer_lib \<Rightarrow> nat \<Rightarrow> nat \<Rightarrow> nat \<Rightarrow> EComResponse \<Rightarrow> 'x com_world_scheme \<Rightarrow>
     (EComResponse \<times> 'x com_world_scheme) option" where
  "receive_loop lib i k 0 eRetVal w = Some (eRetVal, w)"
| "receive_loop lib i k (Suc n) eRetVal w =
     do {
       fb \<leftarrow> mFBs w i;
       (eResp, w') \<leftarrow> (case mInterruptQueue fb ! k of
                        None \<Rightarrow> Some (e_Nothing, w)
                      | Some a \<Rightarrow> do { c \<leftarrow> layer_class_of lib a w; lProcess c a w });
       receive_loop lib i (Suc k) n
         (if response_code eRetVal < response_code eResp then eResp else eRetVal) w'
     }"

definition shift_queue :: "nat \<Rightarrow> CCommFB \<Rightarrow> CCommFB" where
  "shift_queue copy fb =
     (let count = mComInterruptQueueCount fb - copy; q = mInterruptQueue fb
      in fb\<lparr>mComInterruptQueueCount := count,
            mInterruptQueue := map (\<lambda>k. if k < count then q ! (k + copy) else q ! k) [0..<length q]\<rparr>)"

definition CCommFB_receiveData ::
    "'x layer_lib \<Rightarrow> nat \<Rightarrow> 'x com_world_scheme \<Rightarrow> (EComResponse \<times> 'x com_world_scheme) option" where
  "CCommFB_receiveData lib i w =
     do {
       fb \<leftarrow> mFBs w i;
       let copy = mComInterruptQueueCount fb;
       (eRetVal, w1) \<leftarrow> receive_loop lib i 0 copy e_Nothing w;
       fb1 \<leftarrow> mFBs w1 i;
       Some (eRetVal, set_fb i (shift_queue copy fb1) w1)
     }"

section \<open>Events\<close>

definition scmEventINITID :: TEventID where "scmEventINITID = 0"
definition scmEventINITOID :: TEventID where "scmEventINITOID = 0"
definition scmSendNotificationEventID :: TEventID where "scmSendNotificationEventID = 1"
definition scmReceiveNotificationEventID :: TEventID where "scmReceiveNotificationEventID = 1"

definition has_bits :: "nat \<Rightarrow> EComResponse \<Rightarrow> bool" where
  "has_bits b resp = (response_code resp AND b \<noteq> 0)"

text \<open>The outputs that show a response, and the event that tells of it.\<close>

definition show_response :: "EComResponse \<Rightarrow> CCommFB \<Rightarrow> CCommFB" where
  "show_response resp fb =
     fb\<lparr>var_STATUS := scmResponseTexts ! (response_code resp AND 0xF),
        var_QO := \<not> has_bits scg_unComNegative resp\<rparr>"

definition response_event :: "EComResponse \<Rightarrow> TEventID" where
  "response_event resp =
     (if has_bits scg_unINIT resp then scmEventINITOID else scmReceiveNotificationEventID)"

definition handle_event ::
    "'x layer_lib \<Rightarrow> nat \<Rightarrow> TEventID \<Rightarrow> 'x com_world_scheme \<Rightarrow> (EComResponse \<times> 'x com_world_scheme) option" where
  "handle_event lib i paEIID w =
     (if paEIID = scmEventINITID then
        do {
          fb \<leftarrow> mFBs w i;
          if var_QI fb then openConnection lib i w
          else do { w' \<leftarrow> closeConnection lib i w; Some (e_InitTerminated, w') }
        }
      else if paEIID = scmSendNotificationEventID then CCommFB_sendData lib i w
      else if paEIID = cgExternalEventID then CCommFB_receiveData lib i w
      else Some (e_Nothing, w))"

definition executeEvent ::
    "'x layer_lib \<Rightarrow> nat \<Rightarrow> TEventID \<Rightarrow> 'x com_world_scheme \<Rightarrow> 'x com_world_scheme option" where
  "executeEvent lib i paEIID w =
     do {
       fb0 \<leftarrow> mFBs w i;
       (resp, w1) \<leftarrow> handle_event lib i paEIID w;
       (resp, w2) \<leftarrow>
         (if has_bits (msg_code e_Terminated) resp then
            if mCommServiceType fb0 = e_Server \<and> paEIID \<noteq> scmEventINITID then Some (e_Nothing, w1)
            else do { w' \<leftarrow> closeConnection lib i w1; Some (resp, w') }
          else Some (resp, w1));
       if resp \<noteq> e_Nothing then
         do {
           fb \<leftarrow> mFBs w2 i;
           Some ((set_fb i (show_response resp fb) w2)
             \<lparr>mSentEvents := mSentEvents w2 @ [(i, response_event resp)]\<rparr>)
         }
       else Some w2
     }"

text \<open>\<open>baseRet\<close> is the answer of \<open>CEventSourceFB::changeExecutionState\<close>.\<close>

definition CCommFB_changeExecutionState ::
    "'x layer_lib \<Rightarrow> EMGMCommandType \<Rightarrow> EMGMResponse \<Rightarrow> nat \<Rightarrow> 'x com_world_scheme \<Rightarrow>
     (EMGMResponse \<times> 'x com_world_scheme) option" where
  "CCommFB_changeExecutionState lib paCommand baseRet i w =
     (if baseRet = Ready \<and> paCommand = Kill then
        do { w' \<leftarrow> closeConnection lib i w; Some (baseRet, w') }
      else Some (baseRet, w))"

end
