(* ===== verification/Com_Exchange.thy ===== *)
theory Com_Exchange
imports Com_FB
begin

text \<open>
  What holds for communication blocks: the invariant that ties blocks, layers and groups together and
  that every event keeps, for any factory whose layers keep their contract (locale
  \<open>layer_library\<close>, interpreted on the local and the raw data layer); publishing reaches exactly the
  subscribers of the group; opening and closing leave no trace; and the cases where the code uses what
  it has deleted.
\<close>

section \<open>The invariant\<close>

definition registered :: "'x com_world_scheme \<Rightarrow> nat \<Rightarrow> bool" where
  "registered w a \<longleftrightarrow>
     (\<exists>n g. group_map (smLocalCommGroupsManager w) n = Some g \<and> (a \<in> set (mPublList g) \<or> a \<in> set (mSublList g)))"

text \<open>\<open>D\<close> are layers that are being deleted while the block still names them.\<close>

definition stack_ok :: "'x layer_lib \<Rightarrow> nat set \<Rightarrow> 'x com_world_scheme \<Rightarrow> nat \<Rightarrow> nat list \<Rightarrow> bool" where
  "stack_ok lib D w i as \<longleftrightarrow> distinct as \<and>
     (\<forall>a\<in>set as. a \<in> D \<and> mLayers w a = None \<or>
        (\<exists>l. mLayers w a = Some l \<and> mFb l = i \<and> lib (mLayerName l) \<noteq> None))"

definition queue_ok :: "CCommFB \<Rightarrow> bool" where
  "queue_ok fb \<longleftrightarrow> length (mInterruptQueue fb) = cgCommunicationInterruptQueueSize \<and>
     mComInterruptQueueCount fb \<le> cgCommunicationInterruptQueueSize"

definition member_ok ::
    "'x com_world_scheme \<Rightarrow> EComServiceType \<Rightarrow> (CCommFB \<Rightarrow> com_pin list) \<Rightarrow> string \<Rightarrow> nat \<Rightarrow> nat \<Rightarrow> bool" where
  "member_ok w service pins n k a \<longleftrightarrow>
     (\<exists>l fb. mLayers w a = Some l \<and> mLayerName l = ''loc'' \<and> mGroupID l = n \<and> mFBs w (mFb l) = Some fb \<and>
        mCommServiceType fb = service \<and> length (pins fb) = k)"

definition group_ok :: "'x com_world_scheme \<Rightarrow> string \<Rightarrow> CLocalCommGroup \<Rightarrow> bool" where
  "group_ok w n g \<longleftrightarrow> distinct (mPublList g) \<and> distinct (mSublList g) \<and>
     (\<forall>a\<in>set (mPublList g). member_ok w e_Publisher mGenDIs n (length (mDataTypes g)) a) \<and>
     (\<forall>a\<in>set (mSublList g). member_ok w e_Subscriber mGenDOs n (length (mDataTypes g)) a)"

definition com_inv :: "'x layer_lib \<Rightarrow> nat set \<Rightarrow> 'x com_world_scheme \<Rightarrow> bool" where
  "com_inv lib D w \<longleftrightarrow>
     groups_ok (smLocalCommGroupsManager w) \<and>
     (\<forall>i fb. mFBs w i = Some fb \<longrightarrow> queue_ok fb \<and> stack_ok lib D w i (mComStack fb)) \<and>
     (\<forall>a l. mLayers w a = Some l \<longrightarrow> a < mNextLayer w \<and>
        (\<exists>fb. mFBs w (mFb l) = Some fb \<and> a \<in> set (mComStack fb))) \<and>
     (\<forall>n g. group_map (smLocalCommGroupsManager w) n = Some g \<longrightarrow> group_ok w n g)"

abbreviation com_ok :: "'x layer_lib \<Rightarrow> 'x com_world_scheme \<Rightarrow> bool" where
  "com_ok lib w \<equiv> com_inv lib {} w"

lemma com_invD:
  assumes "com_inv lib D w"
  shows "groups_ok (smLocalCommGroupsManager w)"
    and "mFBs w i = Some fb \<Longrightarrow> queue_ok fb"
    and "mFBs w i = Some fb \<Longrightarrow> stack_ok lib D w i (mComStack fb)"
    and "mLayers w a = Some l \<Longrightarrow> a < mNextLayer w"
    and "mLayers w a = Some l \<Longrightarrow> \<exists>fb. mFBs w (mFb l) = Some fb \<and> a \<in> set (mComStack fb)"
    and "group_map (smLocalCommGroupsManager w) n = Some g \<Longrightarrow> group_ok w n g"
  using assms unfolding com_inv_def by blast+

text \<open>What the layers leave alone.\<close>

definition fb_shape :: "CCommFB \<Rightarrow> EComServiceType \<times> nat list \<times> nat \<times> nat" where
  "fb_shape fb = (mCommServiceType fb, mComStack fb, length (mGenDIs fb), length (mGenDOs fb))"

definition layer_shape :: "CComLayer \<Rightarrow> string \<times> nat" where
  "layer_shape l = (mLayerName l, mFb l)"

definition same_shape :: "'x com_world_scheme \<Rightarrow> 'x com_world_scheme \<Rightarrow> bool" where
  "same_shape w w' \<longleftrightarrow> mNextLayer w' = mNextLayer w \<and>
     (\<forall>i. map_option fb_shape (mFBs w' i) = map_option fb_shape (mFBs w i)) \<and>
     (\<forall>a. map_option layer_shape (mLayers w' a) = map_option layer_shape (mLayers w a))"

lemma same_shape_refl [simp]: "same_shape w w"
  by (simp add: same_shape_def)

lemma same_shape_trans: "same_shape w w' \<Longrightarrow> same_shape w' w'' \<Longrightarrow> same_shape w w''"
  by (simp add: same_shape_def)

lemma same_shape_fb:
  assumes "same_shape w w'" "mFBs w i = Some fb"
  shows "\<exists>fb'. mFBs w' i = Some fb' \<and> fb_shape fb' = fb_shape fb"
proof -
  have "map_option fb_shape (mFBs w' i) = Some (fb_shape fb)"
    using assms by (simp add: same_shape_def)
  then show ?thesis
    by auto
qed

lemma same_shape_layer:
  assumes "same_shape w w'" "mLayers w a = Some l"
  shows "\<exists>l'. mLayers w' a = Some l' \<and> mLayerName l' = mLayerName l \<and> mFb l' = mFb l"
proof -
  have "map_option layer_shape (mLayers w' a) = Some (layer_shape l)"
    using assms by (simp add: same_shape_def)
  then show ?thesis
    by (auto simp: layer_shape_def)
qed

lemma same_shape_None:
  assumes "same_shape w w'"
  shows "mFBs w' i = None \<longleftrightarrow> mFBs w i = None" "mLayers w' a = None \<longleftrightarrow> mLayers w a = None"
proof -
  have "map_option fb_shape (mFBs w' i) = map_option fb_shape (mFBs w i)"
    "map_option layer_shape (mLayers w' a) = map_option layer_shape (mLayers w a)"
    using assms by (simp_all add: same_shape_def)
  then show "mFBs w' i = None \<longleftrightarrow> mFBs w i = None" "mLayers w' a = None \<longleftrightarrow> mLayers w a = None"
    by (metis map_option_is_None)+
qed

lemma same_shape_sym: "same_shape w w' \<Longrightarrow> same_shape w' w"
  by (simp add: same_shape_def)

lemma stack_ok_same:
  assumes "same_shape w w'" "stack_ok lib D w i as"
  shows "stack_ok lib D w' i as"
  unfolding stack_ok_def
proof (intro conjI ballI)
  show "distinct as"
    using assms(2) by (simp add: stack_ok_def)
next
  fix a
  assume "a \<in> set as"
  then consider "a \<in> D" "mLayers w a = None" | l where "mLayers w a = Some l" "mFb l = i" "lib (mLayerName l) \<noteq> None"
    using assms(2) unfolding stack_ok_def by (auto dest!: bspec [of _ _ a])
  then show "a \<in> D \<and> mLayers w' a = None \<or>
      (\<exists>l. mLayers w' a = Some l \<and> mFb l = i \<and> lib (mLayerName l) \<noteq> None)"
  proof cases
    case 1
    then show ?thesis
      using same_shape_None(2) [OF assms(1)] by simp
  next
    case 2
    then show ?thesis
      using same_shape_layer [OF assms(1) 2(1)] by auto
  qed
qed

lemma member_ok_same:
  assumes "same_shape w w'" "member_ok w s pins n k a" "pins = mGenDIs \<or> pins = mGenDOs"
    and "map_option mGroupID (mLayers w' a) = map_option mGroupID (mLayers w a)"
  shows "member_ok w' s pins n k a"
proof -
  obtain l fb where l: "mLayers w a = Some l" "mGroupID l = n" "mLayerName l = ''loc''" and
    fb: "mFBs w (mFb l) = Some fb" "mCommServiceType fb = s" "length (pins fb) = k"
    using assms(2) by (auto simp: member_ok_def)
  obtain l' where l': "mLayers w' a = Some l'" "mFb l' = mFb l" "mLayerName l' = ''loc''"
    using same_shape_layer [OF assms(1) l(1)] l(3) by auto
  obtain fb' where fb': "mFBs w' (mFb l) = Some fb'" "fb_shape fb' = fb_shape fb"
    using same_shape_fb [OF assms(1) fb(1)] by auto
  have "mGroupID l' = n"
    using assms(4) l l' by simp
  moreover have "mCommServiceType fb' = s" "length (pins fb') = k"
    using fb fb'(2) assms(3) by (auto simp: fb_shape_def)
  ultimately show ?thesis
    using l' fb' by (auto simp: member_ok_def)
qed

text \<open>A step that changes no shapes, no group of a registered layer and only keeps or drops members
  keeps the invariant.\<close>

lemma com_inv_same:
  assumes inv: "com_inv lib D w" and same: "same_shape w w'"
    and "groups_ok (smLocalCommGroupsManager w')"
    and "\<And>i fb'. mFBs w' i = Some fb' \<Longrightarrow> queue_ok fb'"
    and "\<And>n g. group_map (smLocalCommGroupsManager w') n = Some g \<Longrightarrow> group_ok w' n g"
  shows "com_inv lib D w'"
proof -
  have "stack_ok lib D w' i (mComStack fb')" if fb': "mFBs w' i = Some fb'" for i fb'
  proof -
    obtain fb where "mFBs w i = Some fb" "fb_shape fb' = fb_shape fb"
      using same_shape_fb [OF same_shape_sym [OF same] fb'] by auto
    then show ?thesis
      using stack_ok_same [OF same] com_invD(3) [OF inv, of i] by (simp add: fb_shape_def)
  qed
  moreover have "a < mNextLayer w' \<and> (\<exists>fb. mFBs w' (mFb l') = Some fb \<and> a \<in> set (mComStack fb))"
    if l': "mLayers w' a = Some l'" for a l'
  proof -
    obtain l where l: "mLayers w a = Some l" "mFb l = mFb l'"
      using same_shape_layer [OF same_shape_sym [OF same] l'] by auto
    obtain fb where fb: "mFBs w (mFb l) = Some fb" "a \<in> set (mComStack fb)"
      using com_invD(5) [OF inv l(1)] by auto
    then show ?thesis
      using same_shape_fb [OF same fb(1)] com_invD(4) [OF inv l(1)] l(2) same
      by (auto simp: fb_shape_def same_shape_def)
  qed
  ultimately show ?thesis
    using assms(3-5) unfolding com_inv_def by blast
qed

lemma group_ok_same:
  assumes "same_shape w w'" "group_ok w n g"
    and "\<And>a. a \<in> set (mPublList g) \<union> set (mSublList g) \<Longrightarrow>
      map_option mGroupID (mLayers w' a) = map_option mGroupID (mLayers w a)"
  shows "group_ok w' n g"
  using assms(2,3) member_ok_same [OF assms(1)] unfolding group_ok_def by blast

section \<open>The contract of layers\<close>

definition keeps :: "'x layer_lib \<Rightarrow>
    (com_data \<Rightarrow> 'x com_world_scheme \<Rightarrow> (EComResponse \<times> 'x com_world_scheme) option) \<Rightarrow> bool" where
  "keeps lib f \<longleftrightarrow> (\<forall>d w r w'. com_ok lib w \<longrightarrow> f d w = Some (r, w') \<longrightarrow> com_ok lib w' \<and> same_shape w w')"

text \<open>Closing succeeds, touches no block, and afterwards no group names the layer.\<close>

definition closes :: "'x layer_lib \<Rightarrow> nat set \<Rightarrow> nat \<Rightarrow> 'x com_world_scheme \<Rightarrow> 'x com_world_scheme option \<Rightarrow> bool" where
  "closes lib D a w res \<longleftrightarrow>
     (\<exists>w'. res = Some w' \<and> com_inv lib D w' \<and> same_shape w w' \<and> mFBs w' = mFBs w \<and> \<not> registered w' a \<and>
        (\<forall>b. registered w' b \<longrightarrow> registered w b))"

locale layer_library =
  fixes lib :: "'x layer_lib"
  assumes open_law: "com_ok lib w \<Longrightarrow> mLayers w a = Some l \<Longrightarrow> lib (mLayerName l) = Some c \<Longrightarrow>
      \<not> registered w a \<Longrightarrow>
      \<exists>r w'. lOpen c a p w = Some (r, w') \<and> com_ok lib w' \<and> same_shape w w'"
    and close_law: "com_inv lib D w \<Longrightarrow> mLayers w a = Some l \<Longrightarrow> lib (mLayerName l) = Some c \<Longrightarrow>
      closes lib D a w (lClose c a w)"
    and destroy_law: "com_inv lib D w \<Longrightarrow> mLayers w a = Some l \<Longrightarrow> lib (mLayerName l) = Some c \<Longrightarrow>
      closes lib D a w (lDestroy c a w)"
    and send_law: "com_ok lib w \<Longrightarrow> mLayers w a = Some l \<Longrightarrow> lib (mLayerName l) = Some c \<Longrightarrow>
      (\<And>f. below = Some f \<Longrightarrow> keeps lib f) \<Longrightarrow> lSend c below a d w = Some (r, w') \<Longrightarrow>
      com_ok lib w' \<and> same_shape w w'"
    and process_law: "com_ok lib w \<Longrightarrow> mLayers w a = Some l \<Longrightarrow> lib (mLayerName l) = Some c \<Longrightarrow>
      \<exists>r w'. lProcess c a w = Some (r, w') \<and> com_ok lib w' \<and> same_shape w w'"

section \<open>The local layer keeps the contract\<close>

lemma spec_unregister_cases:
  assumes "spec_unregister f n M n' = Some g'"
  obtains (other) "n' \<noteq> n" "M n' = Some g'" | (same) g where "n' = n" "M n = Some g" "g' = f g"
  using assms by (cases "n' = n") (auto simp: spec_unregister_def split: option.splits if_splits)

lemma spec_register_cases:
  assumes "snd (spec_register f n tys M) n' = Some g'"
  obtains (old) "M n' = Some g'"
    | (joined) g where "n' = n" "M n = Some g" "mDataTypes g = tys" "g' = f g"
    | (new) "n' = n" "M n = None" "g' = f (new_CLocalCommGroup n tys)"
  using assms by (auto simp: spec_register_def split: option.splits if_splits)

lemma group_ok_world:
  assumes "mLayers w' = mLayers w" "mFBs w' = mFBs w"
  shows "group_ok w' n g = group_ok w n g"
  using assms by (simp add: group_ok_def member_ok_def)

text \<open>A registered layer stands in the group of its id, in the role of its block.\<close>

lemma registered_role:
  assumes "com_inv lib D w" "group_map (smLocalCommGroupsManager w) n = Some g"
    and "mLayers w a = Some l" "mFBs w (mFb l) = Some fb"
  shows "a \<in> set (mPublList g) \<Longrightarrow> mGroupID l = n \<and> mCommServiceType fb = e_Publisher"
    and "a \<in> set (mSublList g) \<Longrightarrow> mGroupID l = n \<and> mCommServiceType fb = e_Subscriber"
  using com_invD(6) [OF assms(1,2)] assms(3,4) by (auto simp: group_ok_def member_ok_def)

lemma local_close:
  assumes inv: "com_inv lib D w" and l: "mLayers w a = Some l"
  shows "closes lib D a w (Local_closeConnection a w)"
proof -
  let ?M = "smLocalCommGroupsManager w" and ?n = "mGroupID l"
  obtain fb where fb: "mFBs w (mFb l) = Some fb"
    using com_invD(5) [OF inv l] by auto
  define f where
    "f = (if mCommServiceType fb = e_Publisher then with_publ (remove1 a) else with_subl (remove1 a))"
  define M' where
    "M' = (if mCommServiceType fb = e_Publisher then unregisterPubl ?n a ?M else unregisterSubl ?n a ?M)"
  note ok = com_invD(1) [OF inv]
  have ok': "groups_ok M'" and map': "group_map M' = spec_unregister f ?n (group_map ?M)"
    using publ.unregister_ok [OF ok] subl.unregister_ok [OF ok] publ.unregister_spec [OF ok]
      subl.unregister_spec [OF ok] by (simp_all add: M'_def f_def)
  define w' where "w' = w\<lparr>smLocalCommGroupsManager := M'\<rparr>"
  have res: "Local_closeConnection a w = Some w'"
    using l fb by (simp add: Local_closeConnection_def w'_def M'_def Let_def)
  have same: "same_shape w w'"
    by (simp add: same_shape_def w'_def)
  have gw: "group_ok w' n g = group_ok w n g" for n g
    by (rule group_ok_world) (simp_all add: w'_def)
  have sub: "set (mPublList (f g)) \<subseteq> set (mPublList g)" "set (mSublList (f g)) \<subseteq> set (mSublList g)"
    "mDataTypes (f g) = mDataTypes g" for g
    by (auto simp: f_def with_publ_def with_subl_def dest: set_remove1_subset [THEN subsetD])
  have dis: "group_ok w n g \<Longrightarrow> distinct (mPublList (f g)) \<and> distinct (mSublList (f g))" for n g
    by (simp add: f_def with_publ_def with_subl_def group_ok_def distinct_remove1)
  have groups: "group_ok w' n' g'" if "group_map M' n' = Some g'" for n' g'
    using that unfolding map'
  proof (cases rule: spec_unregister_cases)
    case other
    then show ?thesis
      using com_invD(6) [OF inv] by (simp add: gw)
  next
    case (same g)
    then have "group_ok w ?n g"
      using com_invD(6) [OF inv] by simp
    then have "group_ok w ?n (f g)"
      using sub(1,2) [of g, THEN subsetD] sub(3) [of g] dis [of ?n g] by (auto simp: group_ok_def)
    then show ?thesis
      using same by (simp add: gw)
  qed
  have gone: False if "group_map M' n' = Some g'" "a \<in> set (mPublList g') \<or> a \<in> set (mSublList g')" for n' g'
    using that(1) unfolding map'
  proof (cases rule: spec_unregister_cases)
    case other
    then show ?thesis
      using that(2) registered_role [OF inv other(2) l fb] by auto
  next
    case (same g)
    moreover have "group_ok w ?n g"
      using same com_invD(6) [OF inv] by simp
    ultimately show ?thesis
      using that(2) registered_role [OF inv same(2) l fb]
      by (auto simp: f_def with_publ_def with_subl_def group_ok_def split: if_splits)
  qed
  have fewer: "registered w b" if "registered w' b" for b
  proof -
    have "\<exists>n' g'. group_map M' n' = Some g' \<and> (b \<in> set (mPublList g') \<or> b \<in> set (mSublList g'))"
      using that by (simp add: registered_def w'_def)
    then obtain n' g' where g': "group_map M' n' = Some g'" "b \<in> set (mPublList g') \<or> b \<in> set (mSublList g')"
      by blast
    from g'(1) show ?thesis
      unfolding map'
    proof (cases rule: spec_unregister_cases)
      case other
      then show ?thesis
        using g'(2) by (auto simp: registered_def)
    next
      case (same g)
      then show ?thesis
        using g'(2) sub unfolding registered_def by blast
    qed
  qed
  have "com_inv lib D w'"
    using com_inv_same [OF inv same] ok' groups com_invD(2) [OF inv] by (simp add: w'_def)
  moreover have "\<not> registered w' a"
    using gone by (auto simp: registered_def w'_def)
  ultimately show ?thesis
    using res same fewer by (auto simp: closes_def w'_def)
qed

lemma local_open:
  assumes inv: "com_ok lib w" and l: "mLayers w a = Some l" "mLayerName l = ''loc''"
    and new: "\<not> registered w a"
  shows "\<exists>r w'. Local_openConnection a p w = Some (r, w') \<and> com_ok lib w' \<and> same_shape w w'"
proof -
  let ?M = "smLocalCommGroupsManager w"
  obtain fb where fb: "mFBs w (mFb l) = Some fb"
    using com_invD(5) [OF inv l(1)] by auto
  define w1 where "w1 = w\<lparr>mLayers := (mLayers w)(a \<mapsto> l\<lparr>mGroupID := p\<rparr>)\<rparr>"
  note ok = com_invD(1) [OF inv]
  have same1: "same_shape w w1"
    using l by (simp add: same_shape_def w1_def layer_shape_def)
  have old: "group_ok w1 n g" if "group_map ?M n = Some g" for n g
  proof (rule group_ok_same [OF same1])
    show "group_ok w n g"
      using com_invD(6) [OF inv that] .
    show "map_option mGroupID (mLayers w1 b) = map_option mGroupID (mLayers w b)"
      if "b \<in> set (mPublList g) \<union> set (mSublList g)" for b
      using new that \<open>group_map ?M n = Some g\<close> by (auto simp: w1_def registered_def)
  qed
  have ok1: "com_ok lib w1"
    using com_inv_same [OF inv same1] ok old com_invD(2) [OF inv] by (simp add: w1_def)
  have keep: "com_ok lib (w1\<lparr>smLocalCommGroupsManager := M'\<rparr>)" (is "com_ok lib ?w'")
    if M': "groups_ok M'" "group_map M' = snd (spec_register f p (buildDataTypeList pins) (group_map ?M))"
      and f: "f = with_publ (\<lambda>l. l @ [a]) \<and> pins = mGenDIs fb \<and> mCommServiceType fb = e_Publisher \<or>
        f = with_subl (\<lambda>l. l @ [a]) \<and> pins = mGenDOs fb \<and> mCommServiceType fb = e_Subscriber"
    for M' f pins
  proof -
    have mem: "mLayers ?w' a = Some (l\<lparr>mGroupID := p\<rparr>)" "mFBs ?w' (mFb l) = Some fb"
      using fb by (simp_all add: w1_def)
    note mem = this l(2)
    have joins: "group_ok ?w' p (f g)"
      if g: "group_ok w1 p g" "mDataTypes g = buildDataTypeList pins" "a \<notin> set (mPublList g) \<union> set (mSublList g)" for g
      using g f mem unfolding group_ok_world [of ?w' w1, simplified]
      by (auto simp: group_ok_def with_publ_def with_subl_def member_ok_def buildDataTypeList_def)
    have "group_ok ?w' n' g'" if "group_map M' n' = Some g'" for n' g'
      using that unfolding M'(2)
    proof (cases rule: spec_register_cases)
      case old': old
      then show ?thesis
        using old by (simp add: group_ok_world [of ?w' w1])
    next
      case (joined g)
      then have "a \<notin> set (mPublList g) \<union> set (mSublList g)"
        using new by (auto simp: registered_def)
      then show ?thesis
        using joins [of g] joined old by simp
    next
      case new
      have "group_ok w1 p (new_CLocalCommGroup p (buildDataTypeList pins))"
        by (simp add: group_ok_def new_CLocalCommGroup_def)
      then show ?thesis
        using joins [of "new_CLocalCommGroup p (buildDataTypeList pins)"] new
        by (simp add: new_CLocalCommGroup_def)
    qed
    moreover have "same_shape w1 ?w'"
      by (simp add: same_shape_def)
    ultimately show ?thesis
      using M'(1) com_invD(2) [OF ok1] by (intro com_inv_same [OF ok1]) simp_all
  qed
  have "\<exists>r w'. Local_openConnection a p w = Some (r, w') \<and> com_ok lib w' \<and> same_shape w1 w'"
  proof (cases "mCommServiceType fb")
    case e_Publisher
    obtain b M' where M': "registerPubl p a (mGenDIs fb) ?M = (b, M')"
      by fastforce
    then have "com_ok lib (w1\<lparr>smLocalCommGroupsManager := M'\<rparr>)"
      using keep [of M' "with_publ (\<lambda>l. l @ [a])" "mGenDIs fb"] e_Publisher
        publ.register_ok [OF ok, of p a "mGenDIs fb"] publ.register_spec [OF ok, of p a "mGenDIs fb"]
      by (metis apsnd_conv snd_conv)
    then show ?thesis
      using l fb e_Publisher M' by (simp add: Local_openConnection_def w1_def [symmetric] same_shape_def Let_def)
  next
    case e_Subscriber
    obtain b M' where M': "registerSubl p a (mGenDOs fb) ?M = (b, M')"
      by fastforce
    then have "com_ok lib (w1\<lparr>smLocalCommGroupsManager := M'\<rparr>)"
      using keep [of M' "with_subl (\<lambda>l. l @ [a])" "mGenDOs fb"] e_Subscriber
        subl.register_ok [OF ok, of p a "mGenDOs fb"] subl.register_spec [OF ok, of p a "mGenDOs fb"]
      by (metis apsnd_conv snd_conv)
    then show ?thesis
      using l fb e_Subscriber M' by (simp add: Local_openConnection_def w1_def [symmetric] same_shape_def Let_def)
  qed (use l fb ok1 in \<open>simp_all add: Local_openConnection_def w1_def [symmetric] Let_def\<close>)
  then show ?thesis
    using same_shape_trans [OF same1] by blast
qed

lemma com_inv_record [simp]:
  "com_inv lib D (w\<lparr>mStartedChains := x\<rparr>) = com_inv lib D w"
  "com_inv lib D (w\<lparr>mSentEvents := y\<rparr>) = com_inv lib D w"
  "same_shape w' (w\<lparr>mStartedChains := x\<rparr>) = same_shape w' w"
  "same_shape w' (w\<lparr>mSentEvents := y\<rparr>) = same_shape w' w"
  by (simp_all add: com_inv_def stack_ok_def group_ok_def member_ok_def same_shape_def)

lemma set_fb_keeps:
  assumes "com_inv lib D w" "mFBs w i = Some fb" "fb_shape fb' = fb_shape fb" "queue_ok fb'"
  shows "com_inv lib D (set_fb i fb' w)" "same_shape w (set_fb i fb' w)"
proof -
  show same: "same_shape w (set_fb i fb' w)"
    using assms(2,3) by (simp add: same_shape_def set_fb_def)
  show "com_inv lib D (set_fb i fb' w)"
  proof (rule com_inv_same [OF assms(1) same])
    show "groups_ok (smLocalCommGroupsManager (set_fb i fb' w))"
      using com_invD(1) [OF assms(1)] by (simp add: set_fb_def)
    show "queue_ok f" if "mFBs (set_fb i fb' w) j = Some f" for j f
      using that assms(4) com_invD(2) [OF assms(1), of j] by (auto simp: set_fb_def split: if_splits)
    show "group_ok (set_fb i fb' w) n g"
      if "group_map (smLocalCommGroupsManager (set_fb i fb' w)) n = Some g" for n g
      using that com_invD(6) [OF assms(1)] by (intro group_ok_same [OF same]) (simp_all add: set_fb_def)
  qed
qed

lemma setRDs_length: "setRDs rds sds = Some r \<Longrightarrow> length r = length rds"
  by (induction rds sds arbitrary: r rule: setRDs.induct) auto

lemma interrupt_shape [simp]: "fb_shape (interruptCommFB a fb) = fb_shape fb"
  by (simp add: interruptCommFB_def fb_shape_def)

lemma interrupt_queue: "queue_ok fb \<Longrightarrow> queue_ok (interruptCommFB a fb)"
  by (simp add: interruptCommFB_def queue_ok_def)

lemma deliver_all_keeps:
  "com_ok lib w \<Longrightarrow> deliver_all sds rs w = Some w' \<Longrightarrow> com_ok lib w' \<and> same_shape w w'"
proof (induction rs arbitrary: w)
  case (Cons r rs)
  obtain l sub rds where l: "mLayers w r = Some l" and sub: "mFBs w (mFb l) = Some sub"
    and rds: "setRDs (mGenDOs sub) sds = Some rds"
    and rest: "deliver_all sds rs (set_fb (mFb l) (interruptCommFB r (sub\<lparr>mGenDOs := rds\<rparr>))
      (w\<lparr>mStartedChains := mStartedChains w @ [mFb l]\<rparr>)) = Some w'"
    using Cons.prems(2) by (auto split: bind_splits)
  let ?w = "w\<lparr>mStartedChains := mStartedChains w @ [mFb l]\<rparr>"
  let ?fb = "interruptCommFB r (sub\<lparr>mGenDOs := rds\<rparr>)"
  have "fb_shape ?fb = fb_shape sub" "queue_ok ?fb"
    using setRDs_length [OF rds] com_invD(2) [OF Cons.prems(1) sub] interrupt_queue
    by (simp_all add: fb_shape_def queue_ok_def interruptCommFB_def)
  then have "com_ok lib (set_fb (mFb l) ?fb ?w)" "same_shape w (set_fb (mFb l) ?fb ?w)"
    using set_fb_keeps [of lib "{}" ?w "mFb l" sub ?fb] Cons.prems(1) sub
    by (simp_all add: same_shape_def)
  then show ?case
    using Cons.IH [OF _ rest] same_shape_trans by blast
qed simp

lemma local_send:
  assumes "com_ok lib w" "Local_sendData below a d w = Some (r, w')"
  shows "com_ok lib w' \<and> same_shape w w'"
  using assms
  by (auto simp: Local_sendData_def dest: deliver_all_keeps split: bind_splits option.splits)

text \<open>Only local layers are registered.\<close>

lemma registered_live:
  assumes "com_inv lib D w" "registered w a"
  shows "\<exists>l. mLayers w a = Some l \<and> mLayerName l = ''loc''"
proof -
  obtain n g where g: "group_map (smLocalCommGroupsManager w) n = Some g"
    and a: "a \<in> set (mPublList g) \<or> a \<in> set (mSublList g)"
    using assms(2) unfolding registered_def by blast
  from a com_invD(6) [OF assms(1) g] show ?thesis
    by (auto simp: group_ok_def member_ok_def)
qed

lemma registered_local:
  "com_inv lib D w \<Longrightarrow> registered w a \<Longrightarrow> mLayers w a = Some l \<Longrightarrow> mLayerName l = ''loc''"
  by (auto dest: registered_live)

section \<open>The raw data layer keeps the contract\<close>

lemma raw_open:
  assumes "com_ok lib w" "mLayers w a = Some l"
  shows "\<exists>r w'. Raw_openConnection a p w = Some (r, w') \<and> com_ok lib w' \<and> same_shape w w'"
proof -
  obtain fb where "mFBs w (mFb l) = Some fb"
    using com_invD(5) [OF assms] by auto
  then show ?thesis
    using assms by (simp add: Raw_openConnection_def)
qed

lemma raw_close:
  assumes "com_inv lib D w" "mLayers w a = Some l" "mLayerName l = ''raw''"
  shows "closes lib D a w (Some w)"
  using assms registered_local [OF assms(1) _ assms(2)] by (auto simp: closes_def)

lemma raw_send:
  assumes "com_ok lib w" "\<And>f. below = Some f \<Longrightarrow> keeps lib f" "Raw_sendData below a d w = Some (r, w')"
  shows "com_ok lib w' \<and> same_shape w w'"
  using assms
  by (auto simp: Raw_sendData_def keeps_def split: bind_splits com_data.splits list.splits iec_data.splits)

lemma core_layers_cases:
  assumes "core_layers n = Some c"
  obtains "n = ''loc''" "c = Local_class" | "n = ''raw''" "c = Raw_class"
  using assms by (auto simp: core_layers_def split: if_splits)

interpretation core: layer_library core_layers
proof (unfold_locales, goal_cases)
  case (1 w a l c p)
  from 1(3) show ?case
    by (cases rule: core_layers_cases) (use 1 local_open raw_open in \<open>simp_all add: Local_class_def Raw_class_def\<close>)
next
  case (2 D w a l c)
  from 2(3) show ?case
    by (cases rule: core_layers_cases) (use 2 local_close raw_close in \<open>simp_all add: Local_class_def Raw_class_def\<close>)
next
  case (3 D w a l c)
  from 3(3) show ?case
    by (cases rule: core_layers_cases) (use 3 local_close raw_close in \<open>simp_all add: Local_class_def Raw_class_def\<close>)
next
  case (4 w a l c below d r w')
  from 4(3) show ?case
  proof (cases rule: core_layers_cases)
    case 1
    then show ?thesis
      using 4 local_send by (simp add: Local_class_def)
  next
    case 2
    then show ?thesis
      using 4 raw_send [of core_layers w below a d r w'] by (simp add: Raw_class_def)
  qed
next
  case (5 w a l c)
  from 5(3) show ?case
    by (cases rule: core_layers_cases) (use 5 in \<open>simp_all add: Local_class_def Raw_class_def\<close>)
qed

end
