(* ===== verification/Com_Events.thy ===== *)
theory Com_Events
imports Com_Exchange
begin

text \<open>
  The events of communication blocks over any factory of layers that keeps the contract of theory
  \<open>Com_Exchange\<close>: opening and closing always return and every event keeps the invariant; then the
  properties of blocks on the local layer.
\<close>

section \<open>Closing\<close>

lemma com_inv_mono: "com_inv lib D w \<Longrightarrow> D \<subseteq> D' \<Longrightarrow> com_inv lib D' w"
  unfolding com_inv_def stack_ok_def by (meson subsetD)

text \<open>The shapes after the layers \<open>A\<close> are deleted.\<close>

definition dead_shape :: "nat set \<Rightarrow> 'x com_world_scheme \<Rightarrow> 'x com_world_scheme \<Rightarrow> bool" where
  "dead_shape A w w' \<longleftrightarrow> mNextLayer w' = mNextLayer w \<and>
     (\<forall>i. map_option fb_shape (mFBs w' i) = map_option fb_shape (mFBs w i)) \<and>
     (\<forall>a. map_option layer_shape (mLayers w' a) = (if a \<in> A then None else map_option layer_shape (mLayers w a)))"

lemma dead_shape_empty: "dead_shape {} w w' = same_shape w w'"
  by (simp add: dead_shape_def same_shape_def)

lemma dead_shape_trans: "dead_shape A w w' \<Longrightarrow> dead_shape B w' w'' \<Longrightarrow> dead_shape (A \<union> B) w w''"
  by (auto simp: dead_shape_def)

lemma dead_shape_None:
  assumes "dead_shape A w w'"
  shows "mLayers w' a = None \<longleftrightarrow> a \<in> A \<or> mLayers w a = None"
proof -
  have "map_option layer_shape (mLayers w' a) = (if a \<in> A then None else map_option layer_shape (mLayers w a))"
    using assms by (simp add: dead_shape_def)
  then show ?thesis
    by (cases "a \<in> A") (metis map_option_is_None)+
qed

lemma free_layer_simps [simp]:
  "smLocalCommGroupsManager (free_layer a w) = smLocalCommGroupsManager w"
  "mFBs (free_layer a w) = mFBs w" "mNextLayer (free_layer a w) = mNextLayer w"
  "mLayers (free_layer a w) = (mLayers w)(a := None)"
  by (simp_all add: free_layer_def)

lemma dead_shape_free: "dead_shape {a} w (free_layer a w)"
  by (simp add: dead_shape_def)

lemma registered_free [simp]: "registered (free_layer a w) b = registered w b"
  by (simp add: registered_def)

lemma com_inv_free:
  assumes inv: "com_inv lib D w" and "\<not> registered w a"
  shows "com_inv lib (insert a D) (free_layer a w)"
proof -
  have "group_ok (free_layer a w) n g" if g: "group_map (smLocalCommGroupsManager w) n = Some g" for n g
  proof -
    have "a \<notin> set (mPublList g) \<union> set (mSublList g)"
      using assms(2) g by (auto simp: registered_def)
    then show ?thesis
      using com_invD(6) [OF inv g] by (auto simp: group_ok_def member_ok_def free_layer_def)
  qed
  moreover have "stack_ok lib (insert a D) (free_layer a w) i as" if "stack_ok lib D w i as" for i as
    using that by (auto simp: stack_ok_def free_layer_def)
  ultimately show ?thesis
    using inv by (auto simp: com_inv_def split: if_splits)
qed

lemma member_ok_set_fb:
  assumes "member_ok w s pins n k a" "mFBs w i = Some fb" "pins = mGenDIs \<or> pins = mGenDOs"
    and "mCommServiceType fb' = mCommServiceType fb" "length (mGenDIs fb') = length (mGenDIs fb)"
    "length (mGenDOs fb') = length (mGenDOs fb)"
  shows "member_ok (set_fb i fb' w) s pins n k a"
proof -
  obtain l f where "mLayers w a = Some l" "mLayerName l = ''loc''" "mGroupID l = n"
    "mFBs w (mFb l) = Some f" "mCommServiceType f = s" "length (pins f) = k"
    using assms(1) by (auto simp: member_ok_def)
  then show ?thesis
    using assms(2-6) by (cases "mFb l = i") (auto simp: member_ok_def set_fb_def)
qed

context layer_library
begin

lemma live_class:
  assumes "com_inv lib D w" "mLayers w a = Some l"
  shows "\<exists>c. lib (mLayerName l) = Some c \<and> layer_class_of lib a w = Some c"
proof -
  obtain fb where fb: "mFBs w (mFb l) = Some fb" "a \<in> set (mComStack fb)"
    using com_invD(5) [OF assms] by auto
  then have "lib (mLayerName l) \<noteq> None"
    using com_invD(3) [OF assms(1) fb(1)] assms(2) by (auto simp: stack_ok_def)
  then show ?thesis
    using assms(2) by (auto simp: layer_class_of_def)
qed

lemma delete_stack_ok:
  assumes "com_inv lib D w" "distinct as" "\<forall>a\<in>set as. mLayers w a \<noteq> None"
  shows "\<exists>w'. delete_stack lib as w = Some w' \<and> com_inv lib (D \<union> set as) w' \<and>
    dead_shape (set as) w w' \<and> mFBs w' = mFBs w \<and> (\<forall>b. registered w' b \<longrightarrow> registered w b)"
  using assms
proof (induction as arbitrary: w)
  case Nil
  then show ?case
    by (simp add: dead_shape_empty)
next
  case (Cons a below)
  obtain l where l: "mLayers w a = Some l"
    using Cons.prems(3) by auto
  obtain c where c: "lib (mLayerName l) = Some c" "layer_class_of lib a w = Some c"
    using live_class [OF Cons.prems(1) l] by auto
  obtain w1 where w1: "lDestroy c a w = Some w1" "com_inv lib D w1" "same_shape w w1" "\<not> registered w1 a"
    "\<forall>b. registered w1 b \<longrightarrow> registered w b" "mFBs w1 = mFBs w"
    using destroy_law [OF Cons.prems(1) l c(1)] by (auto simp: closes_def)
  have live: "mLayers w' b \<noteq> None" if "same_shape w w'" "b \<in> set below" for w' b
    using Cons.prems(3) same_shape_None(2) [OF that(1)] that(2) by simp
  have "\<exists>w2. (case below of [] \<Rightarrow> Some w1
      | b # _ \<Rightarrow> do { cb \<leftarrow> layer_class_of lib b w1; w' \<leftarrow> lClose cb b w1; delete_stack lib below w' }) = Some w2 \<and>
      com_inv lib (D \<union> set below) w2 \<and> dead_shape (set below) w1 w2 \<and> mFBs w2 = mFBs w1 \<and> (\<forall>b. registered w2 b \<longrightarrow> registered w1 b)"
  proof (cases below)
    case Nil
    then show ?thesis
      using w1(2) by (simp add: dead_shape_empty)
  next
    case (Cons b bs)
    then obtain lb where lb: "mLayers w1 b = Some lb"
      using live [OF w1(3), of b] by auto
    obtain cb where cb: "lib (mLayerName lb) = Some cb" "layer_class_of lib b w1 = Some cb"
      using live_class [OF w1(2) lb] by auto
    obtain w' where w': "lClose cb b w1 = Some w'" "com_inv lib D w'" "same_shape w1 w'"
      "\<forall>b. registered w' b \<longrightarrow> registered w1 b" "mFBs w' = mFBs w1"
      using close_law [OF w1(2) lb cb(1)] by (auto simp: closes_def)
    have "\<forall>a\<in>set below. mLayers w' a \<noteq> None"
      using live [OF same_shape_trans [OF w1(3) w'(3)]] by simp
    then obtain w2 where w2: "delete_stack lib below w' = Some w2" "com_inv lib (D \<union> set below) w2"
      "dead_shape (set below) w' w2" "\<forall>b. registered w2 b \<longrightarrow> registered w' b" "mFBs w2 = mFBs w'"
      using Cons.IH [OF w'(2)] Cons.prems(2) by auto
    have "dead_shape (set below) w1 w2"
      using dead_shape_trans [of "{}" w1 w' "set below" w2] w'(3) w2(3) by (simp add: dead_shape_empty)
    then show ?thesis
      using Cons cb(2) w'(1,4,5) w2 by auto
  qed
  then obtain w2 where w2: "(case below of [] \<Rightarrow> Some w1
      | b # _ \<Rightarrow> do { cb \<leftarrow> layer_class_of lib b w1; w' \<leftarrow> lClose cb b w1; delete_stack lib below w' }) = Some w2"
    "com_inv lib (D \<union> set below) w2" "dead_shape (set below) w1 w2"
    "\<forall>b. registered w2 b \<longrightarrow> registered w1 b" "mFBs w2 = mFBs w1"
    by blast
  have "com_inv lib (D \<union> set (a # below)) (free_layer a w2)"
    using com_inv_free [OF w2(2), of a] w1(4) w2(4) by auto
  moreover have "dead_shape (set (a # below)) w (free_layer a w2)"
    using dead_shape_trans [OF dead_shape_trans [of "{}" w w1, OF _ w2(3)] dead_shape_free] w1(3)
    by (simp add: dead_shape_empty)
  ultimately show ?case
    using c(2) w1(1,5,6) w2 by auto
qed

text \<open>What closing leaves of the blocks.\<close>

lemma close_stack_gone:
  assumes inv: "com_ok lib w" and fb: "mFBs w i = Some fb"
    and inv2: "com_inv lib (set (mComStack fb)) w2" and dead: "dead_shape (set (mComStack fb)) w w2"
    and fb2: "mFBs w2 i = Some fb2"
  shows "com_ok lib (set_fb i (fb2\<lparr>mComStack := []\<rparr>) w2)"
proof -
  let ?S = "set (mComStack fb)" and ?w = "set_fb i (fb2\<lparr>mComStack := []\<rparr>) w2"
  have own: "mFb l = i \<longleftrightarrow> a \<in> ?S" if "mLayers w a = Some l" for a l
  proof
    assume "mFb l = i"
    then show "a \<in> ?S"
      using com_invD(5) [OF inv that] fb by auto
  next
    assume "a \<in> ?S"
    then show "mFb l = i"
      using com_invD(3) [OF inv fb] that by (auto simp: stack_ok_def)
  qed
  have live: "\<exists>l. mLayers w a = Some l \<and> mFb l = mFb l2 \<and> mLayerName l = mLayerName l2 \<and> a \<notin> ?S"
    if "mLayers w2 a = Some l2" for a l2
  proof -
    have "map_option layer_shape (mLayers w2 a) = (if a \<in> ?S then None else map_option layer_shape (mLayers w a))"
      using dead by (simp add: dead_shape_def)
    then show ?thesis
      using that by (cases "mLayers w a") (auto simp: layer_shape_def split: if_splits)
  qed
  have "queue_ok f \<and> stack_ok lib {} ?w j (mComStack f)" if f: "mFBs ?w j = Some f" for j f
  proof (cases "j = i")
    case True
    then show ?thesis
      using f com_invD(2) [OF inv2 fb2] by (auto simp: set_fb_def queue_ok_def stack_ok_def)
  next
    case False
    then have f2: "mFBs w2 j = Some f"
      using f by (simp add: set_fb_def)
    have "map_option fb_shape (mFBs w2 j) = map_option fb_shape (mFBs w j)"
      using dead by (simp add: dead_shape_def)
    then obtain f0 where f0: "mFBs w j = Some f0" "mComStack f0 = mComStack f"
      using f2 by (cases "mFBs w j") (auto simp: fb_shape_def)
    have st: "stack_ok lib {} w j (mComStack f)"
      using com_invD(3) [OF inv f0(1)] f0(2) by simp
    have alive: "\<exists>l. mLayers w2 a = Some l \<and> mFb l = j \<and> lib (mLayerName l) \<noteq> None" if a: "a \<in> set (mComStack f)" for a
    proof -
      obtain l where l: "mLayers w a = Some l" "mFb l = j" "lib (mLayerName l) \<noteq> None"
        using st a by (auto simp: stack_ok_def)
      then have "map_option layer_shape (mLayers w2 a) = Some (layer_shape l)"
        using dead own [OF l(1)] False by (simp add: dead_shape_def)
      then show ?thesis
        using l by (auto simp: layer_shape_def)
    qed
    have "stack_ok lib {} w2 j (mComStack f)"
      using st alive by (simp add: stack_ok_def)
    then show ?thesis
      using com_invD(2) [OF inv2 f2] by (simp add: stack_ok_def set_fb_def)
  qed
  moreover have "a < mNextLayer ?w \<and> (\<exists>f. mFBs ?w (mFb l) = Some f \<and> a \<in> set (mComStack f))"
    if l: "mLayers ?w a = Some l" for a l
  proof -
    have l2: "mLayers w2 a = Some l"
      using l by (simp add: set_fb_def)
    then have "mFb l \<noteq> i"
      using live own by metis
    then show ?thesis
      using com_invD(4,5) [OF inv2 l2] by (auto simp: set_fb_def)
  qed
  moreover have "group_ok ?w n g" if "group_map (smLocalCommGroupsManager ?w) n = Some g" for n g
    using com_invD(6) [OF inv2, of n g] that member_ok_set_fb [OF _ fb2]
    by (simp add: group_ok_def) (simp add: set_fb_def)
  ultimately show ?thesis
    using com_invD(1) [OF inv2] unfolding com_inv_def by (simp add: set_fb_def)
qed

lemma closeConnection_ok:
  assumes inv: "com_ok lib w" and fb: "mFBs w i = Some fb"
  shows "\<exists>w'. closeConnection lib i w = Some w' \<and> com_ok lib w' \<and>
    mFBs w' = (mFBs w)(i \<mapsto> fb\<lparr>mComStack := []\<rparr>) \<and>
    (\<forall>b. registered w' b \<longrightarrow> registered w b) \<and>
    (\<forall>a. mLayers w' a = None \<longleftrightarrow> a \<in> set (mComStack fb) \<or> mLayers w a = None)"
proof (cases "mComStack fb")
  case Nil
  then show ?thesis
    using assms by (cases fb) (auto simp: closeConnection_def)
next
  case (Cons a below)
  have st: "stack_ok lib {} w i (mComStack fb)"
    using com_invD(3) [OF inv fb] .
  then obtain l where l: "mLayers w a = Some l"
    using Cons by (auto simp: stack_ok_def)
  obtain c where c: "lib (mLayerName l) = Some c" "layer_class_of lib a w = Some c"
    using live_class [OF inv l] by auto
  obtain w1 where w1: "lClose c a w = Some w1" "com_ok lib w1" "same_shape w w1"
    "\<forall>b. registered w1 b \<longrightarrow> registered w b" "mFBs w1 = mFBs w"
    using close_law [OF inv l c(1)] by (auto simp: closes_def)
  have "\<forall>a\<in>set (mComStack fb). mLayers w1 a \<noteq> None"
    using st same_shape_None(2) [OF w1(3)] by (auto simp: stack_ok_def)
  then obtain w2 where w2: "delete_stack lib (mComStack fb) w1 = Some w2"
    "com_inv lib (set (mComStack fb)) w2" "dead_shape (set (mComStack fb)) w1 w2"
    "\<forall>b. registered w2 b \<longrightarrow> registered w1 b" "mFBs w2 = mFBs w1"
    using delete_stack_ok [OF w1(2), of "mComStack fb"] st by (auto simp: stack_ok_def)
  have dead: "dead_shape (set (mComStack fb)) w w2"
    using dead_shape_trans [of "{}" w w1, OF _ w2(3)] w1(3) by (simp add: dead_shape_empty)
  have fb2: "mFBs w2 i = Some fb"
    using fb w1(5) w2(5) by simp
  let ?w = "set_fb i (fb\<lparr>mComStack := []\<rparr>) w2"
  have "closeConnection lib i w = Some ?w"
    using fb Cons c(2) w1(1) w2(1) fb2 by (simp add: closeConnection_def del: delete_stack.simps)
  moreover have "com_ok lib ?w"
    by (rule close_stack_gone [OF inv fb w2(2) dead fb2])
  moreover have "registered ?w b \<longrightarrow> registered w b" for b
    using w1(4) w2(4) by (simp add: registered_def set_fb_def)
  moreover have "mLayers ?w a = None \<longleftrightarrow> a \<in> set (mComStack fb) \<or> mLayers w a = None" for a
    using dead_shape_None [OF dead] by (simp add: set_fb_def)
  ultimately show ?thesis
    using w1(5) w2(5) by (auto simp: set_fb_def)
qed

section \<open>Opening\<close>

lemma new_layer_ok:
  assumes inv: "com_ok lib w" and fb: "mFBs w i = Some fb" and "lib name \<noteq> None"
  shows "com_ok lib (new_layer name i w)" "\<not> registered (new_layer name i w) (mNextLayer w)"
    and "mLayers (new_layer name i w) (mNextLayer w) = Some \<lparr>mLayerName = name, mFb = i, mGroupID = []\<rparr>"
    and "mFBs (new_layer name i w) i = Some (fb\<lparr>mComStack := mComStack fb @ [mNextLayer w]\<rparr>)"
proof -
  let ?a = "mNextLayer w" and ?w = "new_layer name i w"
  have fresh: "mLayers w ?a = None"
    using com_invD(4) [OF inv, of ?a] by (cases "mLayers w ?a") auto
  have not_reg: "\<not> registered w ?a"
    using registered_live [OF inv, of "mNextLayer w"] fresh by auto
  then show "\<not> registered ?w ?a"
    by (simp add: registered_def new_layer_def)
  show layer: "mLayers ?w ?a = Some \<lparr>mLayerName = name, mFb = i, mGroupID = []\<rparr>"
    and block: "mFBs ?w i = Some (fb\<lparr>mComStack := mComStack fb @ [?a]\<rparr>)"
    using fb by (simp_all add: new_layer_def)
  have others: "mLayers ?w b = mLayers w b" if "b \<noteq> ?a" for b
    using that by (simp add: new_layer_def)
  have st: "stack_ok lib {} ?w j (mComStack f)" if "mFBs ?w j = Some f" for j f
  proof -
    have old: "?a \<notin> set (mComStack f') \<and> stack_ok lib {} ?w j (mComStack f')" if "mFBs w j = Some f'" for f'
    proof -
      have *: "stack_ok lib {} w j (mComStack f')"
        using com_invD(3) [OF inv that] .
      then have new: "?a \<notin> set (mComStack f')"
        using fresh by (auto simp: stack_ok_def)
      have "mLayers ?w b = mLayers w b" if "b \<in> set (mComStack f')" for b
        using others [of b] new that by (cases "b = ?a") auto
      then show ?thesis
        using * new by (simp add: stack_ok_def)
    qed
    show ?thesis
    proof (cases "j = i")
      case True
      then show ?thesis
        using that block layer old [of fb] fb assms(3) by (auto simp: stack_ok_def)
    next
      case False
      then show ?thesis
        using that old by (simp add: new_layer_def)
    qed
  qed
  have queues: "queue_ok f" if "mFBs ?w j = Some f" for j f
    using that com_invD(2) [OF inv] fb by (auto simp: new_layer_def queue_ok_def split: if_splits)
  have owner: "\<exists>f'. mFBs ?w j = Some f' \<and> set (mComStack f) \<subseteq> set (mComStack f')" if "mFBs w j = Some f" for j f
    using that by (auto simp: new_layer_def)
  have lay: "b < mNextLayer ?w \<and> (\<exists>f. mFBs ?w (mFb l) = Some f \<and> b \<in> set (mComStack f))"
    if l: "mLayers ?w b = Some l" for b l
  proof (cases "b = ?a")
    case True
    then show ?thesis
      using l layer block by (auto simp: new_layer_def)
  next
    case False
    then have l0: "mLayers w b = Some l"
      using l others by simp
    obtain f where f: "mFBs w (mFb l) = Some f" "b \<in> set (mComStack f)"
      using com_invD(5) [OF inv l0] by auto
    then show ?thesis
      using owner [OF f(1)] com_invD(4) [OF inv l0] by (auto simp: new_layer_def)
  qed
  have mem: "member_ok ?w s pins n k b" if m: "member_ok w s pins n k b" "pins = mGenDIs \<or> pins = mGenDOs" for s pins n k b
  proof -
    obtain l f where l: "mLayers w b = Some l" "mLayerName l = ''loc''" "mGroupID l = n"
      and f: "mFBs w (mFb l) = Some f" "mCommServiceType f = s" "length (pins f) = k"
      using m(1) unfolding member_ok_def by blast
    moreover have "b \<noteq> ?a"
      using l(1) fresh by auto
    moreover obtain f' where "mFBs ?w (mFb l) = Some f'" "mCommServiceType f' = s" "length (pins f') = k"
      using f m(2) by (cases "mFb l = i") (auto simp: new_layer_def)
    ultimately show ?thesis
      using others by (auto simp: member_ok_def)
  qed
  have "group_ok ?w n g" if "group_map (smLocalCommGroupsManager ?w) n = Some g" for n g
    using that com_invD(6) [OF inv, of n g] mem by (auto simp: new_layer_def group_ok_def)
  moreover have "groups_ok (smLocalCommGroupsManager ?w)"
    using com_invD(1) [OF inv] by (simp add: new_layer_def)
  ultimately show "com_ok lib ?w"
    using st queues lay unfolding com_inv_def by blast
qed

text \<open>Creating the stack returns with a response, whatever the text and however far it gets.\<close>

lemma createComstack_ok:
  assumes "com_ok lib w" "mFBs w i \<noteq> None"
  shows "\<exists>r w'. createComstack lib i commID retVal w = Some (r, w') \<and> com_ok lib w' \<and> mFBs w' i \<noteq> None"
  using assms
proof (induction "length commID" arbitrary: commID retVal w rule: less_induct)
  case less
  show ?case
  proof (cases "commID = []")
    case True
    then show ?thesis
      using less.prems by (simp add: createComstack.simps)
  next
    case False
    obtain o1 o2 where ex: "extractLayerIdAndParams commID = (o1, o2)"
      by fastforce
    show ?thesis
    proof (cases "\<exists>name params rest. o1 = Some (name, params) \<and> o2 = Some rest \<and> name \<noteq> [] \<and> lib name \<noteq> None")
      case False
      then show ?thesis
        using less.prems \<open>commID \<noteq> []\<close> ex
        by (subst createComstack.simps) (auto split: option.splits)
    next
      case True
      then obtain name params rest c where o: "o1 = Some (name, params)" "o2 = Some rest" "name \<noteq> []"
        and c: "lib name = Some c"
        by auto
      obtain fb where fb: "mFBs w i = Some fb"
        using less.prems(2) by auto
      note new = new_layer_ok [OF less.prems(1) fb, of name, unfolded c, simplified]
      obtain r w' where op: "lOpen c (mNextLayer w) params (new_layer name i w) = Some (r, w')" "com_ok lib w'"
        "same_shape (new_layer name i w) w'"
        using open_law [OF new(1) new(3) _ new(2), of c params] c by auto
      have fb': "mFBs w' i \<noteq> None"
        using same_shape_None(1) [OF op(3)] new(4) by simp
      have "length rest < length commID"
        using extract_shorter [of commID] ex o by simp
      then show ?thesis
        using less.hyps [OF _ op(2) fb', of rest r] op fb' \<open>commID \<noteq> []\<close> ex o c
        by (subst createComstack.simps) auto
    qed
  qed
qed

lemma openConnection_ok:
  assumes "com_ok lib w" "mFBs w i \<noteq> None"
  shows "\<exists>r w'. openConnection lib i w = Some (r, w') \<and> com_ok lib w' \<and> mFBs w' i \<noteq> None"
proof -
  obtain fb where fb: "mFBs w i = Some fb"
    using assms(2) by auto
  obtain r w1 where cr: "createComstack lib i (commID_of fb) e_InitInvalidId w = Some (r, w1)"
    "com_ok lib w1" "mFBs w1 i \<noteq> None"
    using createComstack_ok [OF assms] by blast
  obtain fb1 where "mFBs w1 i = Some fb1"
    using cr(3) by auto
  then obtain w2 where "closeConnection lib i w1 = Some w2" "com_ok lib w2" "mFBs w2 i \<noteq> None"
    using closeConnection_ok [OF cr(2)] by fastforce
  then show ?thesis
    using assms fb cr by (auto simp: openConnection_def Let_def)
qed

section \<open>Every event\<close>

lemma stack_send_keeps: "keeps lib (stack_sendData lib as)"
proof (induction as)
  case Nil
  then show ?case
    by (simp add: keeps_def)
next
  case (Cons a below)
  show ?case
    unfolding keeps_def
  proof (intro allI impI)
    fix d w r w'
    assume w: "com_ok lib w" "stack_sendData lib (a # below) d w = Some (r, w')"
    then obtain l c where l: "mLayers w a = Some l" "lib (mLayerName l) = Some c"
      and s: "lSend c (if below = [] then None else Some (stack_sendData lib below)) a d w = Some (r, w')"
      by (auto simp: layer_class_of_def split: bind_splits)
    have "keeps lib f" if "(if below = [] then None else Some (stack_sendData lib below)) = Some f" for f
      using that Cons.IH by (auto split: if_splits)
    then show "com_ok lib w' \<and> same_shape w w'"
      by (rule send_law [OF w(1) l _ s])
  qed
qed

lemma sendData_keeps:
  assumes "com_ok lib w" "CCommFB_sendData lib i w = Some (r, w')"
  shows "com_ok lib w' \<and> same_shape w w'"
  using assms stack_send_keeps
  by (auto simp: CCommFB_sendData_def keeps_def split: bind_splits if_splits)

lemma receive_loop_keeps:
  "com_ok lib w \<Longrightarrow> receive_loop lib i k n e w = Some (r, w') \<Longrightarrow> com_ok lib w' \<and> same_shape w w'"
proof (induction n arbitrary: k e w)
  case (Suc n)
  obtain fb eResp w1 where step: "mFBs w i = Some fb"
    "(case mInterruptQueue fb ! k of None \<Rightarrow> Some (e_Nothing, w)
      | Some a \<Rightarrow> do { c \<leftarrow> layer_class_of lib a w; lProcess c a w }) = Some (eResp, w1)"
    and rest: "receive_loop lib i (Suc k) n
      (if response_code e < response_code eResp then eResp else e) w1 = Some (r, w')"
    using Suc.prems(2) by (auto split: bind_splits)
  have "com_ok lib w1 \<and> same_shape w w1"
  proof (cases "mInterruptQueue fb ! k")
    case None
    then show ?thesis
      using step(2) Suc.prems(1) by simp
  next
    case (Some a)
    then obtain l c where "mLayers w a = Some l" "lib (mLayerName l) = Some c" "lProcess c a w = Some (eResp, w1)"
      using step(2) by (auto simp: layer_class_of_def split: bind_splits)
    then show ?thesis
      using process_law [OF Suc.prems(1)] by fastforce
  qed
  then show ?case
    using Suc.IH [OF _ rest] same_shape_trans by blast
qed simp

lemma shift_queue_ok: "queue_ok fb \<Longrightarrow> queue_ok (shift_queue n fb) \<and> fb_shape (shift_queue n fb) = fb_shape fb"
  by (auto simp: shift_queue_def queue_ok_def fb_shape_def Let_def)

lemma receiveData_keeps:
  assumes "com_ok lib w" "CCommFB_receiveData lib i w = Some (r, w')"
  shows "com_ok lib w' \<and> same_shape w w'"
proof -
  obtain fb w1 fb1 where "mFBs w i = Some fb"
    and loop: "receive_loop lib i 0 (mComInterruptQueueCount fb) e_Nothing w = Some (r, w1)"
    and fb1: "mFBs w1 i = Some fb1"
    and w': "w' = set_fb i (shift_queue (mComInterruptQueueCount fb) fb1) w1"
    using assms(2) by (auto simp: CCommFB_receiveData_def Let_def split: bind_splits)
  have w1: "com_ok lib w1" "same_shape w w1"
    using receive_loop_keeps [OF assms(1) loop] by auto
  have sh: "fb_shape (shift_queue (mComInterruptQueueCount fb) fb1) = fb_shape fb1"
    "queue_ok (shift_queue (mComInterruptQueueCount fb) fb1)"
    using shift_queue_ok [OF com_invD(2) [OF w1(1) fb1]] by auto
  show ?thesis
    using set_fb_keeps [OF w1(1) fb1 sh] same_shape_trans [OF w1(2)] by (simp add: w')
qed

lemma same_shape_some: "same_shape w w' \<Longrightarrow> mFBs w i \<noteq> None \<Longrightarrow> mFBs w' i \<noteq> None"
  by (simp add: same_shape_None(1))

lemma close_keeps:
  assumes "com_ok lib w" "closeConnection lib i w = Some w'"
  shows "com_ok lib w' \<and> mFBs w' i \<noteq> None"
proof -
  obtain fb where "mFBs w i = Some fb"
    using assms(2) by (auto simp: closeConnection_def split: bind_splits)
  then show ?thesis
    using closeConnection_ok [OF assms(1)] assms(2) by fastforce
qed

lemma handle_event_keeps:
  assumes "com_ok lib w" "mFBs w i \<noteq> None" "handle_event lib i ei w = Some (r, w')"
  shows "com_ok lib w' \<and> mFBs w' i \<noteq> None"
proof -
  obtain fb where fb: "mFBs w i = Some fb"
    using assms(2) by auto
  consider "ei = scmEventINITID" "var_QI fb" "openConnection lib i w = Some (r, w')"
    | "ei = scmEventINITID" "\<not> var_QI fb" "closeConnection lib i w = Some w'"
    | "CCommFB_sendData lib i w = Some (r, w')"
    | "CCommFB_receiveData lib i w = Some (r, w')"
    | "w' = w"
    using assms(3) fb by (auto simp: handle_event_def split: if_splits bind_splits)
  then show ?thesis
  proof cases
    case 1
    then show ?thesis
      using openConnection_ok [OF assms(1,2)] by auto
  next
    case 2
    then show ?thesis
      using close_keeps [OF assms(1)] by simp
  next
    case 3
    then show ?thesis
      using sendData_keeps [OF assms(1)] same_shape_some [OF _ assms(2)] by blast
  next
    case 4
    then show ?thesis
      using receiveData_keeps [OF assms(1)] same_shape_some [OF _ assms(2)] by blast
  qed (use assms in simp)
qed

lemma show_response_shape:
  "fb_shape (show_response r fb) = fb_shape fb" "queue_ok (show_response r fb) = queue_ok fb"
  by (simp_all add: show_response_def fb_shape_def queue_ok_def)

lemma executeEvent_keeps:
  assumes "com_ok lib w" "executeEvent lib i ei w = Some w'"
  shows "com_ok lib w'"
proof -
  obtain fb0 r w1 r2 w2 where fb0: "mFBs w i = Some fb0" and h: "handle_event lib i ei w = Some (r, w1)"
    and mid: "(if has_bits (msg_code e_Terminated) r then
            if mCommServiceType fb0 = e_Server \<and> ei \<noteq> scmEventINITID then Some (e_Nothing, w1)
            else do { w' \<leftarrow> closeConnection lib i w1; Some (r, w') }
          else Some (r, w1)) = Some (r2, w2)"
    and out: "(if r2 \<noteq> e_Nothing then
         do { fb \<leftarrow> mFBs w2 i; Some ((set_fb i (show_response r2 fb) w2)
             \<lparr>mSentEvents := mSentEvents w2 @ [(i, response_event r2)]\<rparr>) }
       else Some w2) = Some w'"
    using assms(2) unfolding executeEvent_def by (auto simp only: bind_eq_Some_conv split_paired_all prod.case)
  have w1: "com_ok lib w1"
    using handle_event_keeps [OF assms(1) _ h] fb0 by simp
  have w2: "com_ok lib w2"
    using mid w1 close_keeps [OF w1] by (auto split: if_splits bind_splits)
  show ?thesis
    using out w2 set_fb_keeps [OF w2] com_invD(2) [OF w2] show_response_shape
    by (auto split: if_splits bind_splits)
qed

text \<open>The INIT event always returns.\<close>

lemma executeEvent_INIT:
  assumes "com_ok lib w" "mFBs w i \<noteq> None"
  shows "\<exists>w'. executeEvent lib i scmEventINITID w = Some w'"
proof -
  obtain fb where fb: "mFBs w i = Some fb"
    using assms(2) by auto
  have close: "\<exists>w'. closeConnection lib i w = Some w' \<and> mFBs w' i \<noteq> None"
    if "com_ok lib w" "mFBs w i \<noteq> None" for w
    using that closeConnection_ok [OF that(1)] by fastforce
  have "\<exists>r w1. handle_event lib i scmEventINITID w = Some (r, w1)"
    using fb openConnection_ok [OF assms] close [OF assms] by (auto simp: handle_event_def)
  then obtain r w1 where h: "handle_event lib i scmEventINITID w = Some (r, w1)"
    by blast
  then have w1: "com_ok lib w1" "mFBs w1 i \<noteq> None"
    using handle_event_keeps [OF assms] by auto
  show ?thesis
    using fb h w1(2) close [OF w1] by (auto simp: executeEvent_def)
qed

end

end
