(* ===== verification/Com_Sessions.thy ===== *)
theory Com_Sessions
imports Com_Events
begin

text \<open>
  What communication blocks on the local layer do for an application: the states they can reach and
  what holds in them, publishing to the subscribers of a group, opening and closing, the queue of
  interrupts, and the cases where the code goes wrong.
\<close>

section \<open>The queue of interrupts\<close>

definition interrupts :: "CCommFB \<Rightarrow> nat option list" where
  "interrupts fb = take (mComInterruptQueueCount fb) (mInterruptQueue fb)"

lemma interrupts_interrupt:
  assumes "queue_ok fb"
  shows "interrupts (interruptCommFB a fb) =
    (if length (interrupts fb) < cgCommunicationInterruptQueueSize then interrupts fb @ [Some a] else interrupts fb)"
  using assms by (auto simp: interrupts_def interruptCommFB_def queue_ok_def take_Suc_conv_app_nth)

lemma interrupts_shift:
  assumes "queue_ok fb" "n \<le> mComInterruptQueueCount fb"
  shows "interrupts (shift_queue n fb) = drop n (interrupts fb)"
proof (rule nth_equalityI)
  show "length (interrupts (shift_queue n fb)) = length (drop n (interrupts fb))"
    using assms by (auto simp: interrupts_def shift_queue_def queue_ok_def Let_def)
  fix k
  assume "k < length (interrupts (shift_queue n fb))"
  then show "interrupts (shift_queue n fb) ! k = drop n (interrupts fb) ! k"
    using assms by (auto simp: interrupts_def shift_queue_def queue_ok_def Let_def add.commute)
qed

text \<open>The interrupt queue of a communication block is a bounded first-in first-out list: an
  interrupt is appended, or dropped when ten are waiting; receiving processes the interrupts that were
  waiting, in order, and keeps in order those that layers add while it does so; and the queue never
  leaves its array.\<close>

theorem interrupt_queue_refines:
  assumes "queue_ok fb"
  shows "interrupts (interruptCommFB a fb) =
      (if length (interrupts fb) < cgCommunicationInterruptQueueSize
       then interrupts fb @ [Some a] else interrupts fb) \<and>
    queue_ok (interruptCommFB a fb) \<and>
    (\<forall>n \<le> mComInterruptQueueCount fb. interrupts (shift_queue n fb) = drop n (interrupts fb) \<and>
       queue_ok (shift_queue n fb))"
  using assms interrupts_interrupt [OF assms] interrupts_shift [OF assms] interrupt_queue [OF assms]
    core.shift_queue_ok [OF assms] by blast

definition example_fb :: "EComServiceType \<Rightarrow> CCommFB" where
  "example_fb service =
     \<lparr>mCommServiceType = service, mLocalDefault = True, var_QI = True, var_ID = ''A'', var_QO = False,
      var_STATUS = [], mGenDIs = (if service = e_Subscriber then [] else [example_pin]),
      mGenDOs = (if service = e_Publisher then [] else [example_pin\<lparr>pin_data := Elem e_INT 0\<rparr>]),
      mComStack = [], mComInterruptQueueCount = 0, mInterruptQueue = replicate 10 None\<rparr>"

lemma example_fb_queue: "queue_ok (example_fb service)"
  by (simp add: queue_ok_def example_fb_def cgCommunicationInterruptQueueSize_def)

lemma interrupt_queue_refines_witness:
  "interrupts (interruptCommFB 3 (example_fb e_Subscriber)) = [Some 3]"
  using interrupt_queue_refines [OF example_fb_queue [of e_Subscriber], of 3]
  by (simp add: interrupts_def example_fb_def cgCommunicationInterruptQueueSize_def)

section \<open>Publishing\<close>

definition owner :: "'x com_world_scheme \<Rightarrow> nat \<Rightarrow> nat" where
  "owner w a = mFb (the (mLayers w a))"

text \<open>What one delivery does to the subscriber: its outputs are the published pins, and its interrupt
  is queued.\<close>

definition receive_pins :: "com_pin list \<Rightarrow> nat \<Rightarrow> CCommFB \<Rightarrow> CCommFB" where
  "receive_pins sds a fb = interruptCommFB a (fb\<lparr>mGenDOs := sds\<rparr>)"

definition after_delivery :: "com_pin list \<Rightarrow> nat list \<Rightarrow> 'x com_world_scheme \<Rightarrow> 'x com_world_scheme" where
  "after_delivery sds rs w =
     w\<lparr>mFBs := \<lambda>j. map_option (fold (receive_pins sds) (filter (\<lambda>r. owner w r = j) rs)) (mFBs w j),
       mStartedChains := mStartedChains w @ map (owner w) rs\<rparr>"

lemma setRDs_all: "length rds = length sds \<Longrightarrow> setRDs rds sds = Some sds"
  by (induction rds sds rule: setRDs.induct) auto

lemma receive_pins_service [simp]:
  "mCommServiceType (receive_pins sds a fb) = mCommServiceType fb"
  "mGenDOs (receive_pins sds a fb) = sds"
  by (simp_all add: receive_pins_def interruptCommFB_def)

lemma deliver_all_exact:
  assumes "\<forall>r\<in>set rs. member_ok w e_Subscriber mGenDOs n (length sds) r"
  shows "deliver_all sds rs w = Some (after_delivery sds rs w)"
  using assms
proof (induction rs arbitrary: w)
  case Nil
  then show ?case
    by (simp add: after_delivery_def option.map_id0)
next
  case (Cons r rs)
  obtain l sub where l: "mLayers w r = Some l" and sub: "mFBs w (mFb l) = Some sub"
    "mCommServiceType sub = e_Subscriber" "length (mGenDOs sub) = length sds"
    using Cons.prems by (auto simp: member_ok_def)
  define w1 where
    "w1 = set_fb (mFb l) (receive_pins sds r sub) (w\<lparr>mStartedChains := mStartedChains w @ [mFb l]\<rparr>)"
  have own: "owner w r = mFb l" "owner w1 = owner w"
    using l by (auto simp: owner_def w1_def set_fb_def)
  have "member_ok w1 e_Subscriber mGenDOs n (length sds) b" if b: "b \<in> set rs" for b
  proof -
    obtain lb f where "mLayers w b = Some lb" "mLayerName lb = ''loc''" "mGroupID lb = n"
      "mFBs w (mFb lb) = Some f" "mCommServiceType f = e_Subscriber" "length (mGenDOs f) = length sds"
      using Cons.prems b by (auto simp: member_ok_def)
    then show ?thesis
      using sub by (cases "mFb lb = mFb l") (auto simp: member_ok_def w1_def set_fb_def)
  qed
  then have rest: "deliver_all sds rs w1 = Some (after_delivery sds rs w1)"
    using Cons.IH [of w1] by simp
  have "deliver_all sds (r # rs) w = deliver_all sds rs w1"
    using l sub setRDs_all [of "mGenDOs sub" sds] by (simp add: w1_def receive_pins_def)
  moreover have "after_delivery sds rs w1 = after_delivery sds (r # rs) w"
  proof -
    have upd: "w1\<lparr>mFBs := f, mStartedChains := c\<rparr> = w\<lparr>mFBs := f, mStartedChains := c\<rparr>" for f c
      by (simp add: w1_def set_fb_def)
    have fields: "mFBs w1 j = (if j = mFb l then Some (receive_pins sds r sub) else mFBs w j)"
      "mStartedChains w1 = mStartedChains w @ [mFb l]" for j
      by (simp_all add: w1_def set_fb_def)
    have "map_option (fold (receive_pins sds) (filter (\<lambda>b. owner w b = j) rs)) (mFBs w1 j) =
      map_option (fold (receive_pins sds) (filter (\<lambda>b. owner w b = j) (r # rs))) (mFBs w j)" for j
      using sub(1) own(1) by (auto simp: fields)
    then show ?thesis
      unfolding after_delivery_def upd own(2) by (simp add: fields(2) own(1))
  qed
  ultimately show ?case
    using rest by simp
qed

lemma response_facts [simp]:
  "has_bits 2 e_ProcessDataOk = False" "response_event e_ProcessDataOk = 1"
  "has_bits 2 e_InitOk = False" "response_event e_InitOk = 0"
  "has_bits 2 e_InitInvalidId = False" "response_event e_InitInvalidId = 0"
  "has_bits 2 e_InitTerminated = True" "response_event e_InitTerminated = 0"
  "show_response e_ProcessDataOk fb = fb\<lparr>var_STATUS := ''OK'', var_QO := True\<rparr>"
  "show_response e_InitOk fb = fb\<lparr>var_STATUS := ''OK'', var_QO := True\<rparr>"
  "show_response e_InitInvalidId fb = fb\<lparr>var_STATUS := ''INVALID_ID'', var_QO := False\<rparr>"
  "show_response e_InitTerminated fb = fb\<lparr>var_STATUS := ''TERMINATED'', var_QO := False\<rparr>"
  by (simp_all add: has_bits_def response_event_def show_response_def code_defs scmResponseTexts_def
      scmEventINITOID_def scmReceiveNotificationEventID_def)

lemma event_ids:
  "scmSendNotificationEventID \<noteq> scmEventINITID" "cgExternalEventID \<noteq> scmEventINITID"
  "cgExternalEventID \<noteq> scmSendNotificationEventID"
  by (simp_all add: scmSendNotificationEventID_def scmEventINITID_def cgExternalEventID_def
      cgInvalidEventID_def cgInvalidPortId_def)

lemma publish_exact:
  assumes ok: "com_ok core_layers w" and fb: "mFBs w i = Some fb"
    and pub: "mCommServiceType fb = e_Publisher" "var_QI fb" "mComStack fb = [a]"
    and l: "mLayers w a = Some l" "mLayerName l = ''loc''"
    and g: "group_map (smLocalCommGroupsManager w) (mGroupID l) = Some g" "a \<in> set (mPublList g)"
  shows "executeEvent core_layers i scmSendNotificationEventID w =
      Some ((set_fb i (fb\<lparr>var_STATUS := ''OK'', var_QO := True\<rparr>) (after_delivery (mGenDIs fb) (mSublList g) w))
        \<lparr>mSentEvents := mSentEvents w @ [(i, 1)]\<rparr>)"
proof -
  let ?w1 = "after_delivery (mGenDIs fb) (mSublList g) w"
  note gok = com_invD(6) [OF ok g(1)]
  have i: "mFb l = i"
    using com_invD(3) [OF ok fb] pub(3) l(1) by (auto simp: stack_ok_def)
  have "length (mDataTypes g) = length (mGenDIs fb)"
    using gok g(2) l(1) fb i by (auto simp: group_ok_def member_ok_def)
  then have subs: "\<forall>r\<in>set (mSublList g). member_ok w e_Subscriber mGenDOs (mGroupID l) (length (mGenDIs fb)) r"
    using gok by (simp add: group_ok_def)
  have "owner w s \<noteq> i" if "s \<in> set (mSublList g)" for s
    using subs that fb pub(1) by (fastforce simp: member_ok_def owner_def)
  then have "filter (\<lambda>s. owner w s = i) (mSublList g) = []"
    by (simp add: filter_empty_conv)
  then have fb1: "mFBs ?w1 i = Some fb"
    using fb by (simp add: after_delivery_def)
  have "Local_sendData None a (SDs (mGenDIs fb)) w = Some (e_ProcessDataOk, ?w1)"
    using l fb i g(1) deliver_all_exact [OF subs] getComGroup_map [OF com_invD(1) [OF ok]]
    by (simp add: Local_sendData_def)
  then have "stack_sendData core_layers (mComStack fb) (SDs (mGenDIs fb)) w = Some (e_ProcessDataOk, ?w1)"
    using pub(3) l by (simp add: layer_class_of_def core_layers_def Local_class_def)
  then have "handle_event core_layers i scmSendNotificationEventID w = Some (e_ProcessDataOk, ?w1)"
    using fb pub event_ids by (simp add: handle_event_def CCommFB_sendData_def)
  then show ?thesis
    using fb fb1 by (simp add: executeEvent_def) (simp add: after_delivery_def)
qed

lemma interrupts_receive:
  assumes "queue_ok fb"
  shows "interrupts (receive_pins sds a fb) =
      take cgCommunicationInterruptQueueSize (interrupts fb @ [Some a])"
    and "queue_ok (receive_pins sds a fb)"
proof -
  have "queue_ok (fb\<lparr>mGenDOs := sds\<rparr>)" "interrupts (fb\<lparr>mGenDOs := sds\<rparr>) = interrupts fb"
    using assms by (simp_all add: queue_ok_def interrupts_def)
  moreover have "length (interrupts fb) \<le> cgCommunicationInterruptQueueSize"
    using assms by (simp add: interrupts_def queue_ok_def)
  ultimately show "interrupts (receive_pins sds a fb) =
      take cgCommunicationInterruptQueueSize (interrupts fb @ [Some a])"
    "queue_ok (receive_pins sds a fb)"
    using interrupts_interrupt interrupt_queue by (auto simp: receive_pins_def)
qed

lemma take_take_append: "take n (take n ys @ zs) = take n (ys @ zs)"
  by (simp add: min_def)

lemma fold_receive_pins:
  assumes "queue_ok sub"
  shows "interrupts (fold (receive_pins sds) rs sub) =
      take cgCommunicationInterruptQueueSize (interrupts sub @ map Some rs)"
    and "mGenDOs (fold (receive_pins sds) rs sub) = (if rs = [] then mGenDOs sub else sds)"
    and "(fold (receive_pins sds) rs sub)\<lparr>mGenDOs := pins, mInterruptQueue := q, mComInterruptQueueCount := n\<rparr> =
      sub\<lparr>mGenDOs := pins, mInterruptQueue := q, mComInterruptQueueCount := n\<rparr>"
proof -
  have "interrupts (fold (receive_pins sds) rs sub) =
      take cgCommunicationInterruptQueueSize (interrupts sub @ map Some rs) \<and>
    mGenDOs (fold (receive_pins sds) rs sub) = (if rs = [] then mGenDOs sub else sds) \<and>
    (fold (receive_pins sds) rs sub)\<lparr>mGenDOs := pins, mInterruptQueue := q, mComInterruptQueueCount := n\<rparr> =
      sub\<lparr>mGenDOs := pins, mInterruptQueue := q, mComInterruptQueueCount := n\<rparr>"
    using assms
  proof (induction rs arbitrary: sub)
    case Nil
    then show ?case
      by (simp add: interrupts_def queue_ok_def)
  next
    case (Cons r rs)
    have "(receive_pins sds r sub)\<lparr>mGenDOs := pins, mInterruptQueue := q, mComInterruptQueueCount := n\<rparr> =
      sub\<lparr>mGenDOs := pins, mInterruptQueue := q, mComInterruptQueueCount := n\<rparr>"
      by (simp add: receive_pins_def interruptCommFB_def)
    then show ?case
      using Cons.IH [OF interrupts_receive(2) [OF Cons.prems, of sds r]]
      by (simp add: interrupts_receive(1) [OF Cons.prems] take_take_append del: take_append)
  qed
  then show "interrupts (fold (receive_pins sds) rs sub) =
      take cgCommunicationInterruptQueueSize (interrupts sub @ map Some rs)"
    "mGenDOs (fold (receive_pins sds) rs sub) = (if rs = [] then mGenDOs sub else sds)"
    "(fold (receive_pins sds) rs sub)\<lparr>mGenDOs := pins, mInterruptQueue := q, mComInterruptQueueCount := n\<rparr> =
      sub\<lparr>mGenDOs := pins, mInterruptQueue := q, mComInterruptQueueCount := n\<rparr>"
    by blast+
qed

text \<open>What publishing leaves in a block with the subscriber layers \<open>mine\<close> of the group: the published
  pins, and the layers behind its waiting interrupts as far as the queue of ten has room.\<close>

definition received :: "com_pin list \<Rightarrow> nat list \<Rightarrow> CCommFB \<Rightarrow> CCommFB \<Rightarrow> bool" where
  "received sds mine sub sub' \<longleftrightarrow>
     mGenDOs sub' = (if mine = [] then mGenDOs sub else sds) \<and>
     interrupts sub' = take cgCommunicationInterruptQueueSize (interrupts sub @ map Some mine) \<and>
     sub'\<lparr>mGenDOs := mGenDOs sub, mInterruptQueue := mInterruptQueue sub,
          mComInterruptQueueCount := mComInterruptQueueCount sub\<rparr> = sub"

text \<open>C7: Publishing on the local layer reaches exactly the subscribers of the group: the REQ event of a
  publisher returns; the blocks of the layers registered as subscribers of its group get the published
  values, types included, and for every such layer an event chain is started, in the order of
  registration, and an interrupt is queued behind those that wait, or dropped when ten are
  waiting, although the chain is started; nothing else of these blocks, no other block, no layer and
  no group changes; and the publisher answers with CNF, status OK and QO true.\<close>

theorem publish_delivers:
  assumes ok: "com_ok core_layers w" and fb: "mFBs w i = Some fb"
    and pub: "mCommServiceType fb = e_Publisher" "var_QI fb" "mComStack fb = [a]"
    and l: "mLayers w a = Some l" "mLayerName l = ''loc''"
    and g: "group_map (smLocalCommGroupsManager w) (mGroupID l) = Some g" "a \<in> set (mPublList g)"
  shows "\<exists>w'. executeEvent core_layers i scmSendNotificationEventID w = Some w' \<and>
    mFBs w' i = Some (fb\<lparr>var_STATUS := ''OK'', var_QO := True\<rparr>) \<and>
    (\<forall>j. j \<noteq> i \<longrightarrow> (case mFBs w j of None \<Rightarrow> mFBs w' j = None
       | Some sub \<Rightarrow> \<exists>sub'. mFBs w' j = Some sub' \<and>
           received (mGenDIs fb) (filter (\<lambda>s. owner w s = j) (mSublList g)) sub sub')) \<and>
    mStartedChains w' = mStartedChains w @ map (owner w) (mSublList g) \<and>
    mSentEvents w' = mSentEvents w @ [(i, 1)] \<and>
    mLayers w' = mLayers w \<and> smLocalCommGroupsManager w' = smLocalCommGroupsManager w"
proof -
  have "received sds rs sub (fold (receive_pins sds) rs sub)" if "mFBs w j = Some sub" for sds rs j sub
    using fold_receive_pins [OF com_invD(2) [OF ok that]] by (simp add: received_def)
  then show ?thesis
    using publish_exact [OF assms] by (auto simp: set_fb_def after_delivery_def split: option.split)
qed

section \<open>Reachable states\<close>

text \<open>All blocks exist with nothing open; then events, changes of the execution state and new values of
  the data inputs come in any order.\<close>

inductive com_reachable :: "com_world \<Rightarrow> bool" where
  start: "com_reachable \<lparr>mFBs = bs, mLayers = Map.empty, mNextLayer = 0, smLocalCommGroupsManager = M,
      mStartedChains = [], mSentEvents = []\<rparr>"
    if "inj (id_address M)" "mLocalCommGroups M = []"
      "\<And>i fb. bs i = Some fb \<Longrightarrow> queue_ok fb \<and> mComStack fb = []"
| event: "com_reachable w'" if "com_reachable w" "executeEvent core_layers i ei w = Some w'"
| command: "com_reachable w'"
    if "com_reachable w" "CCommFB_changeExecutionState core_layers cmd baseRet i w = Some (r, w')"
| inputs: "com_reachable (set_fb i (fb\<lparr>var_QI := q, var_ID := t, mGenDIs := sds\<rparr>) w)"
    if "com_reachable w" "mFBs w i = Some fb" "length sds = length (mGenDIs fb)"

lemma new_inputs_ok:
  assumes "com_ok lib w" "mFBs w i = Some fb" "length sds = length (mGenDIs fb)"
  shows "com_ok lib (set_fb i (fb\<lparr>var_QI := q, var_ID := t, mGenDIs := sds\<rparr>) w)"
  using assms com_invD(2) [OF assms(1,2)]
  by (intro set_fb_keeps [OF assms(1,2)]) (simp_all add: fb_shape_def queue_ok_def)

lemma command_keeps:
  assumes "com_ok core_layers w" "CCommFB_changeExecutionState core_layers cmd baseRet i w = Some (r, w')"
  shows "com_ok core_layers w'"
  using assms core.close_keeps [OF assms(1)]
  by (auto simp: CCommFB_changeExecutionState_def split: if_splits bind_splits)

lemma reachable_com_ok: "com_reachable w \<Longrightarrow> com_ok core_layers w"
proof (induction rule: com_reachable.induct)
  case (start M bs)
  then show ?case
    by (auto simp: com_inv_def groups_ok_def stack_ok_def vector_map_def)
next
  case event
  then show ?case
    using core.executeEvent_keeps by blast
next
  case command
  then show ?case
    using command_keeps by blast
next
  case inputs
  then show ?case
    using new_inputs_ok by blast
qed

lemma member_stack:
  assumes "com_ok core_layers w" "member_ok w s pins n k a"
  shows "\<exists>l fb. mLayers w a = Some l \<and> mLayerName l = ''loc'' \<and> mGroupID l = n \<and>
    mFBs w (mFb l) = Some fb \<and> a \<in> set (mComStack fb) \<and> mCommServiceType fb = s \<and> length (pins fb) = k"
proof -
  obtain l fb where l: "mLayers w a = Some l" "mLayerName l = ''loc''" "mGroupID l = n"
    "mFBs w (mFb l) = Some fb" "mCommServiceType fb = s" "length (pins fb) = k"
    using assms(2) unfolding member_ok_def by blast
  then show ?thesis
    using com_invD(5) [OF assms(1) l(1)] by auto
qed

text \<open>C8: In every state that events, commands and inputs lead to, a group never names a deleted layer:
  every registered publisher and subscriber is a live local layer with that group id, in the stack of
  an existing block of that role whose pins are as many as the group's types; groups are never empty
  and no name has two.  The INIT event of every block returns, whether there are groups or not.\<close>

theorem reachable_groups:
  assumes w: "com_reachable w"
  shows "(\<forall>n g. group_map (smLocalCommGroupsManager w) n = Some g \<longrightarrow>
      \<not> no_member g \<and>
      (\<forall>a \<in> set (mPublList g). \<exists>l fb. mLayers w a = Some l \<and> mLayerName l = ''loc'' \<and> mGroupID l = n \<and>
         mFBs w (mFb l) = Some fb \<and> a \<in> set (mComStack fb) \<and>
         mCommServiceType fb = e_Publisher \<and> length (mGenDIs fb) = length (mDataTypes g)) \<and>
      (\<forall>a \<in> set (mSublList g). \<exists>l fb. mLayers w a = Some l \<and> mLayerName l = ''loc'' \<and> mGroupID l = n \<and>
         mFBs w (mFb l) = Some fb \<and> a \<in> set (mComStack fb) \<and>
         mCommServiceType fb = e_Subscriber \<and> length (mGenDOs fb) = length (mDataTypes g))) \<and>
    distinct (map mGroupName (mLocalCommGroups (smLocalCommGroupsManager w))) \<and>
    (\<forall>i. mFBs w i \<noteq> None \<longrightarrow> executeEvent core_layers i scmEventINITID w \<noteq> None)"
proof -
  note ok = reachable_com_ok [OF w]
  have groups: "\<not> no_member g \<and>
      (\<forall>a \<in> set (mPublList g). member_ok w e_Publisher mGenDIs n (length (mDataTypes g)) a) \<and>
      (\<forall>a \<in> set (mSublList g). member_ok w e_Subscriber mGenDOs n (length (mDataTypes g)) a)"
    if "group_map (smLocalCommGroupsManager w) n = Some g" for n g
    using com_invD(6) [OF ok that] manager_never_empty [OF com_invD(1) [OF ok] that]
    by (simp add: group_ok_def)
  show ?thesis
    using groups member_stack [OF ok, of e_Publisher mGenDIs] member_stack [OF ok, of e_Subscriber mGenDOs]
      core.executeEvent_INIT [OF ok] groups_okD(3) [OF com_invD(1) [OF ok]]
    by blast
qed

section \<open>Opening and closing\<close>

definition local_register ::
    "CCommFB \<Rightarrow> string \<Rightarrow> nat \<Rightarrow> CLocalCommGroupsManager \<Rightarrow> bool \<times> CLocalCommGroupsManager" where
  "local_register fb n a M =
     (case mCommServiceType fb of
        e_Publisher \<Rightarrow> registerPubl n a (mGenDIs fb) M
      | e_Subscriber \<Rightarrow> registerSubl n a (mGenDOs fb) M
      | _ \<Rightarrow> (True, M))"

definition local_unregister ::
    "CCommFB \<Rightarrow> string \<Rightarrow> nat \<Rightarrow> CLocalCommGroupsManager \<Rightarrow> CLocalCommGroupsManager" where
  "local_unregister fb n a M =
     (if mCommServiceType fb = e_Publisher then unregisterPubl n a M else unregisterSubl n a M)"

definition local_opened :: "nat \<Rightarrow> CCommFB \<Rightarrow> string \<Rightarrow> 'x com_world_scheme \<Rightarrow> 'x com_world_scheme" where
  "local_opened i fb n w =
     w\<lparr>mFBs := (mFBs w)(i \<mapsto> fb\<lparr>mComStack := [mNextLayer w]\<rparr>),
       mLayers := (mLayers w)(mNextLayer w \<mapsto> \<lparr>mLayerName = ''loc'', mFb = i, mGroupID = n\<rparr>),
       mNextLayer := mNextLayer w + 1,
       smLocalCommGroupsManager := snd (local_register fb n (mNextLayer w) (smLocalCommGroupsManager w))\<rparr>"

lemma createComstack_local:
  assumes "mFBs w i = Some fb" "mComStack fb = []" "balanced 0 n"
  shows "createComstack core_layers i (layer_text (''loc'', n)) r w =
    Some (if fst (local_register fb n (mNextLayer w) (smLocalCommGroupsManager w)) then e_InitOk else e_InitInvalidId,
      local_opened i fb n w)"
proof -
  let ?a = "mNextLayer w" and ?M = "smLocalCommGroupsManager w"
  have ex: "extractLayerIdAndParams (layer_text (''loc'', n)) = (Some (''loc'', n), Some [])"
    using extract_layer_text [of "''loc''" n "[]"] assms(3) by simp
  have op: "lOpen Local_class ?a n (new_layer ''loc'' i w) =
      Some (if fst (local_register fb n ?a ?M) then e_InitOk else e_InitInvalidId, local_opened i fb n w)"
    using assms(1,2)
    by (cases "mCommServiceType fb")
      (simp_all add: Local_class_def Local_openConnection_def new_layer_def local_opened_def
        local_register_def Let_def split: prod.splits)
  have "layer_text (''loc'', n) \<noteq> []"
    by simp
  then show ?thesis
    by (subst createComstack.simps)
      (simp add: ex op core_layers_def createComstack.simps [of _ _ "[]"] del: layer_text.simps)
qed

lemma closeConnection_local:
  assumes "mFBs w i = Some fb" "mComStack fb = [a]"
    and "mLayers w a = Some \<lparr>mLayerName = ''loc'', mFb = i, mGroupID = n\<rparr>"
  shows "closeConnection core_layers i w =
    Some (w\<lparr>mFBs := (mFBs w)(i \<mapsto> fb\<lparr>mComStack := []\<rparr>), mLayers := (mLayers w)(a := None),
      smLocalCommGroupsManager :=
        local_unregister fb n a (local_unregister fb n a (smLocalCommGroupsManager w))\<rparr>)"
  using assms
  by (simp add: closeConnection_def layer_class_of_def core_layers_def Local_class_def
      Local_closeConnection_def local_unregister_def set_fb_def free_layer_def Let_def)

text \<open>Registering and unregistering the new layer leaves the groups as they were, also when it is
  refused.\<close>

lemma local_register_back:
  assumes ok: "groups_ok M"
    and new: "\<And>g. group_map M n = Some g \<Longrightarrow> a \<notin> set (mPublList g) \<and> a \<notin> set (mSublList g)"
  shows "fst (local_register fb n a M) \<Longrightarrow> local_unregister fb n a (snd (local_register fb n a M)) = M"
    and "\<not> fst (local_register fb n a M) \<Longrightarrow> snd (local_register fb n a M) = M"
    and "local_unregister fb n a M = M"
proof -
  have un: "unregisterPubl n a M = M" "unregisterSubl n a M = M"
    using publ.unregister_stranger [OF ok] subl.unregister_stranger [OF ok] new by blast+
  then show "local_unregister fb n a M = M"
    by (simp add: local_unregister_def)
  have undo: "unregisterPubl n a (snd (registerPubl n a pins M)) = M" if "fst (registerPubl n a pins M)" for pins
    using that publ.register_unregister [OF ok, of n a pins] new by (cases "registerPubl n a pins M") auto
  have undo': "unregisterSubl n a (snd (registerSubl n a pins M)) = M" if "fst (registerSubl n a pins M)" for pins
    using that subl.register_unregister [OF ok, of n a pins] new by (cases "registerSubl n a pins M") auto
  show "local_unregister fb n a (snd (local_register fb n a M)) = M" if "fst (local_register fb n a M)"
    using that undo undo' un
    by (cases "mCommServiceType fb") (auto simp: local_register_def local_unregister_def split: prod.splits)
  have no: "snd (register_with f n pins M) = M" if "\<not> fst (register_with f n pins M)" for f pins
    using that by (auto simp: register_with_def findOrCreateLocalCommGroup_def Let_def split: prod.splits option.splits if_splits)
  show "snd (local_register fb n a M) = M" if "\<not> fst (local_register fb n a M)"
    using that no
    by (cases "mCommServiceType fb") (auto simp: local_register_def as_register_with split: prod.splits)
qed

lemma next_layer_new:
  assumes "com_ok lib w"
  shows "mLayers w (mNextLayer w) = None" "\<not> registered w (mNextLayer w)"
proof -
  show none: "mLayers w (mNextLayer w) = None"
    using com_invD(4) [OF assms, of "mNextLayer w"] by (cases "mLayers w (mNextLayer w)") auto
  then show "\<not> registered w (mNextLayer w)"
    using registered_live [OF assms, of "mNextLayer w"] by auto
qed

lemma init_local:
  assumes fb: "mFBs w i = Some fb" "mComStack fb = []" "var_QI fb"
    and id: "commID_of fb = layer_text (''loc'', n)" "balanced 0 n"
    and reg: "fst (local_register fb n (mNextLayer w) (smLocalCommGroupsManager w))"
  shows "executeEvent core_layers i scmEventINITID w =
    Some ((set_fb i (fb\<lparr>mComStack := [mNextLayer w], var_STATUS := ''OK'', var_QO := True\<rparr>)
      (local_opened i fb n w))\<lparr>mSentEvents := mSentEvents w @ [(i, 0)]\<rparr>)"
proof -
  have ne: "commID_of fb \<noteq> []"
    by (simp add: id(1))
  have "createComstack core_layers i (commID_of fb) e_InitInvalidId w = Some (e_InitOk, local_opened i fb n w)"
    unfolding id(1) using createComstack_local [OF fb(1,2) id(2)] reg by simp
  then have "openConnection core_layers i w = Some (e_InitOk, local_opened i fb n w)"
    using fb ne by (simp add: openConnection_def Let_def)
  then show ?thesis
    using fb by (simp add: executeEvent_def handle_event_def local_opened_def)
qed

definition set_QI :: "nat \<Rightarrow> bool \<Rightarrow> 'x com_world_scheme \<Rightarrow> 'x com_world_scheme" where
  "set_QI i q w = w\<lparr>mFBs := (mFBs w)(i := map_option (\<lambda>fb. fb\<lparr>var_QI := q\<rparr>) (mFBs w i))\<rparr>"

text \<open>C9: Opening and closing a block on the local layer leaves no trace, whatever its role and whether
  its group accepted it or not: after INIT with QI true and INIT with QI false the groups, the layers
  and all other blocks are exactly as before, and the block differs only in QI and in its outputs,
  which say TERMINATED.\<close>

theorem init_terminate_restores:
  assumes ok: "com_ok core_layers w" and fb: "mFBs w i = Some fb" "mComStack fb = []" "var_QI fb"
    and id: "commID_of fb = layer_text (''loc'', n)" "balanced 0 n"
  shows "\<exists>w1 w2. executeEvent core_layers i scmEventINITID w = Some w1 \<and>
    executeEvent core_layers i scmEventINITID (set_QI i False w1) = Some w2 \<and>
    smLocalCommGroupsManager w2 = smLocalCommGroupsManager w \<and> mLayers w2 = mLayers w \<and>
    (\<forall>j. j \<noteq> i \<longrightarrow> mFBs w2 j = mFBs w j) \<and>
    mFBs w2 i = Some (fb\<lparr>var_QI := False, var_STATUS := ''TERMINATED'', var_QO := False\<rparr>)"
proof -
  let ?a = "mNextLayer w" and ?M = "smLocalCommGroupsManager w"
  define R where "R = local_register fb n ?a ?M"
  note new = next_layer_new [OF ok]
  have "a \<notin> set (mPublList g) \<and> a \<notin> set (mSublList g)" if "group_map ?M n = Some g" "a = ?a" for g a
    using new(2) that by (auto simp: registered_def)
  note undo = local_register_back [OF com_invD(1) [OF ok], of n ?a fb, OF this [OF _ refl]]
  have restored: "(mLayers w)(?a := None) = mLayers w"
    using new(1) by (simp add: fun_upd_idem)
  have ne: "commID_of fb \<noteq> []"
    by (simp add: id(1))
  have stack: "fb\<lparr>var_STATUS := x, var_QO := y, var_QI := z, mComStack := []\<rparr> =
      fb\<lparr>var_STATUS := x, var_QO := y, var_QI := z\<rparr>" "fb\<lparr>mComStack := []\<rparr> = fb" for x y z
    using fb(2) by (cases fb; simp)+
  have cr: "createComstack core_layers i (commID_of fb) e_InitInvalidId w =
      Some (if fst R then e_InitOk else e_InitInvalidId, local_opened i fb n w)"
    unfolding id(1) R_def by (rule createComstack_local [OF fb(1,2) id(2)])
  show ?thesis
  proof (cases "fst R")
    case True
    let ?w1 = "(set_fb i (fb\<lparr>mComStack := [?a], var_STATUS := ''OK'', var_QO := True\<rparr>) (local_opened i fb n w))
      \<lparr>mSentEvents := mSentEvents w @ [(i, 0)]\<rparr>"
    have w1: "executeEvent core_layers i scmEventINITID w = Some ?w1"
      using init_local [OF fb id] True by (simp add: R_def)
    let ?fb = "fb\<lparr>mComStack := [?a], var_STATUS := ''OK'', var_QO := True, var_QI := False\<rparr>"
    let ?v = "set_QI i False ?w1"
    have v: "mFBs ?v i = Some ?fb" "mLayers ?v ?a = Some \<lparr>mLayerName = ''loc'', mFb = i, mGroupID = n\<rparr>"
      by (simp_all add: set_QI_def set_fb_def local_opened_def)
    have un: "local_unregister ?fb n ?a (local_unregister ?fb n ?a (snd R)) = ?M"
      using undo True by (simp add: R_def local_unregister_def)
    let ?w2 = "w\<lparr>mFBs := (mFBs w)(i \<mapsto> fb\<lparr>var_STATUS := ''OK'', var_QO := True, var_QI := False\<rparr>),
      mNextLayer := ?a + 1, mSentEvents := mSentEvents w @ [(i, 0)]\<rparr>"
    have "closeConnection core_layers i ?v = Some ?w2"
      using closeConnection_local [OF v(1) _ v(2)] un restored stack
      by (simp add: set_QI_def set_fb_def local_opened_def flip: R_def)
    then have "executeEvent core_layers i scmEventINITID ?v =
        Some ((set_fb i (fb\<lparr>var_QI := False, var_STATUS := ''TERMINATED'', var_QO := False\<rparr>) ?w2)
          \<lparr>mSentEvents := mSentEvents w @ [(i, 0), (i, 0)]\<rparr>)"
      using v(1) fb(2) by (simp add: executeEvent_def handle_event_def closeConnection_def)
    then show ?thesis
      using w1 fb by (simp add: set_fb_def)
  next
    case False
    let ?w2 = "w\<lparr>mNextLayer := ?a + 1\<rparr>"
    have un: "local_unregister fb n ?a (local_unregister fb n ?a (snd R)) = ?M"
      using undo False by (simp add: R_def)
    have same: "(mFBs w)(i \<mapsto> fb) = mFBs w"
      using fb(1) by (simp add: fun_upd_idem)
    have "closeConnection core_layers i (local_opened i fb n w) = Some ?w2"
      using closeConnection_local [of "local_opened i fb n w" i "fb\<lparr>mComStack := [?a]\<rparr>" ?a n] un restored same stack
      by (simp add: local_opened_def local_unregister_def flip: R_def)
    then have "openConnection core_layers i w = Some (e_InitInvalidId, ?w2)"
      using fb False ne cr by (simp add: openConnection_def Let_def)
    then have w1: "executeEvent core_layers i scmEventINITID w =
        Some ((set_fb i (fb\<lparr>var_STATUS := ''INVALID_ID'', var_QO := False\<rparr>) ?w2)
          \<lparr>mSentEvents := mSentEvents w @ [(i, 0)]\<rparr>)" (is "_ = Some ?w1")
      using fb by (simp add: executeEvent_def handle_event_def)
    have "mFBs (set_QI i False ?w1) i = Some (fb\<lparr>var_STATUS := ''INVALID_ID'', var_QO := False, var_QI := False\<rparr>)"
      by (simp add: set_QI_def set_fb_def)
    then have "executeEvent core_layers i scmEventINITID (set_QI i False ?w1) =
        Some ((set_fb i (fb\<lparr>var_QI := False, var_STATUS := ''TERMINATED'', var_QO := False\<rparr>) ?w2)
          \<lparr>mSentEvents := mSentEvents w @ [(i, 0), (i, 0)]\<rparr>)"
      using fb(2) by (simp add: executeEvent_def handle_event_def closeConnection_def set_QI_def set_fb_def)
    then show ?thesis
      using w1 fb by (simp add: set_fb_def)
  qed
qed

section \<open>Receiving, and layers that are gone\<close>

lemma core_process:
  assumes "com_ok core_layers w" "mLayers w a \<noteq> None"
  shows "\<exists>c r. layer_class_of core_layers a w = Some c \<and> lProcess c a w = Some (r, w) \<and>
    (r = e_Nothing \<or> r = e_ProcessDataOk)"
proof -
  obtain l where "mLayers w a = Some l"
    using assms(2) by auto
  then obtain c where c: "core_layers (mLayerName l) = Some c" "layer_class_of core_layers a w = Some c"
    using core.live_class [OF assms(1)] by blast
  from c(1) show ?thesis
    by (cases rule: core_layers_cases) (use c(2) in \<open>auto simp: Local_class_def Raw_class_def\<close>)
qed

text \<open>The loop over the queued interrupts returns exactly when no queued layer has been deleted.\<close>

lemma receive_loop_core:
  assumes "com_ok core_layers w" "mFBs w i = Some fb" "e = e_Nothing \<or> e = e_ProcessDataOk"
  shows "if \<forall>j\<in>{k..<k + n}. \<forall>a. mInterruptQueue fb ! j = Some a \<longrightarrow> mLayers w a \<noteq> None
    then \<exists>r. receive_loop core_layers i k n e w = Some (r, w) \<and> (r = e_Nothing \<or> r = e_ProcessDataOk)
    else receive_loop core_layers i k n e w = None"
  using assms(3)
proof (induction n arbitrary: k e)
  case 0
  then show ?case
    by simp
next
  case (Suc n)
  have range: "{k..<k + Suc n} = insert k {Suc k..<Suc k + n}"
    by auto
  show ?case
  proof (cases "\<exists>a. mInterruptQueue fb ! k = Some a \<and> mLayers w a = None")
    case True
    then have "receive_loop core_layers i k (Suc n) e w = None"
      using assms(2) by (auto simp: layer_class_of_def)
    then show ?thesis
      using True unfolding range by auto
  next
    case False
    have "\<exists>r. (case mInterruptQueue fb ! k of None \<Rightarrow> Some (e_Nothing, w)
        | Some a \<Rightarrow> do { c \<leftarrow> layer_class_of core_layers a w; lProcess c a w }) = Some (r, w) \<and>
        (r = e_Nothing \<or> r = e_ProcessDataOk)"
      using False core_process [OF assms(1)] by (cases "mInterruptQueue fb ! k") fastforce+
    then obtain r where r: "(case mInterruptQueue fb ! k of None \<Rightarrow> Some (e_Nothing, w)
        | Some a \<Rightarrow> do { c \<leftarrow> layer_class_of core_layers a w; lProcess c a w }) = Some (r, w)"
      "r = e_Nothing \<or> r = e_ProcessDataOk"
      by blast
    let ?e = "if response_code e < response_code r then r else e"
    have "receive_loop core_layers i k (Suc n) e w = receive_loop core_layers i (Suc k) n ?e w"
      using assms(2) r(1) by simp
    moreover have "?e = e_Nothing \<or> ?e = e_ProcessDataOk"
      using r(2) Suc.prems by auto
    moreover have "\<forall>a. mInterruptQueue fb ! k = Some a \<longrightarrow> mLayers w a \<noteq> None"
      using False by auto
    ultimately show ?thesis
      using Suc.IH [of ?e "Suc k"] unfolding range by simp
  qed
qed

lemma Some_in_interrupts:
  assumes "queue_ok fb"
  shows "Some a \<in> set (interrupts fb) \<longleftrightarrow> (\<exists>j < mComInterruptQueueCount fb. mInterruptQueue fb ! j = Some a)"
  using assms by (auto simp: interrupts_def queue_ok_def in_set_conv_nth)

text \<open>C23: The external event of a block, which the publishers of its group start, is handled exactly
  when every layer in its interrupt queue still exists; otherwise the code calls a function of a
  deleted layer.\<close>

theorem external_event_iff_layers_live:
  assumes ok: "com_ok core_layers w" and fb: "mFBs w i = Some fb"
  shows "executeEvent core_layers i cgExternalEventID w \<noteq> None \<longleftrightarrow>
    (\<forall>a. Some a \<in> set (interrupts fb) \<longrightarrow> mLayers w a \<noteq> None)"
proof -
  let ?n = "mComInterruptQueueCount fb"
  have live: "(\<forall>a. Some a \<in> set (interrupts fb) \<longrightarrow> mLayers w a \<noteq> None) \<longleftrightarrow>
      (\<forall>j\<in>{0..<0 + ?n}. \<forall>a. mInterruptQueue fb ! j = Some a \<longrightarrow> mLayers w a \<noteq> None)"
    unfolding Some_in_interrupts [OF com_invD(2) [OF ok fb]] by fastforce
  have ext: "handle_event core_layers i cgExternalEventID w = CCommFB_receiveData core_layers i w"
    using event_ids by (simp add: handle_event_def)
  note loop = receive_loop_core [OF ok fb disjI1 [OF refl], of 0 ?n]
  show ?thesis
  proof (cases "\<forall>a. Some a \<in> set (interrupts fb) \<longrightarrow> mLayers w a \<noteq> None")
    case True
    then obtain r where r: "receive_loop core_layers i 0 ?n e_Nothing w = Some (r, w)"
      "r = e_Nothing \<or> r = e_ProcessDataOk"
      using loop live by auto
    then have "handle_event core_layers i cgExternalEventID w = Some (r, set_fb i (shift_queue ?n fb) w)"
      using fb ext by (simp add: CCommFB_receiveData_def)
    moreover have "has_bits 2 r = False"
      using r(2) by (auto simp: has_bits_def code_defs)
    ultimately have "executeEvent core_layers i cgExternalEventID w \<noteq> None"
      using fb by (simp add: executeEvent_def set_fb_def)
    then show ?thesis
      using True by simp
  next
    case False
    then have "receive_loop core_layers i 0 ?n e_Nothing w = None"
      using loop unfolding live [symmetric] by (simp only: if_False)
    then show ?thesis
      using False fb ext by (simp add: executeEvent_def CCommFB_receiveData_def)
  qed
qed

text \<open>C10: Closing a block does not empty its interrupt queue: when a published value is still waiting
  and the block is closed by INIT with QI false, the external event that was started for the value
  uses the deleted layer.\<close>

theorem closing_leaves_dangling_interrupt:
  assumes ok: "com_ok core_layers w" and fb: "mFBs w i = Some fb" "\<not> var_QI fb"
    and waiting: "Some a \<in> set (interrupts fb)" "a \<in> set (mComStack fb)"
  shows "\<exists>w1. executeEvent core_layers i scmEventINITID w = Some w1 \<and>
    executeEvent core_layers i cgExternalEventID w1 = None"
proof -
  let ?fb = "fb\<lparr>mComStack := []\<rparr>"
  obtain w1 where w1: "closeConnection core_layers i w = Some w1" "com_ok core_layers w1"
    "mFBs w1 = (mFBs w)(i \<mapsto> ?fb)" "mLayers w1 a = None"
    using core.closeConnection_ok [OF ok fb(1)] waiting(2) by blast
  let ?out = "show_response e_InitTerminated ?fb"
  let ?w2 = "(set_fb i ?out w1)\<lparr>mSentEvents := mSentEvents w1 @ [(i, 0)]\<rparr>"
  have "closeConnection core_layers i w1 = Some w1"
    by (simp add: closeConnection_def w1(3))
  then have init: "executeEvent core_layers i scmEventINITID w = Some ?w2"
    using fb w1(1,3) by (simp add: executeEvent_def handle_event_def)
  have "com_ok core_layers ?w2"
    using core.executeEvent_keeps [OF ok init] .
  moreover have "mFBs ?w2 i = Some ?out" "Some a \<in> set (interrupts ?out)" "mLayers ?w2 a = None"
    using waiting(1) w1(4) by (simp_all add: set_fb_def interrupts_def)
  ultimately have "executeEvent core_layers i cgExternalEventID ?w2 = None"
    using external_event_iff_layers_live by blast
  then show ?thesis
    using init by blast
qed

text \<open>The check for an empty ID never applies: without a bracket in it the ID gets a default one, and an
  empty ID opens the group with the empty name.\<close>

lemma id_never_empty: "commID_of fb \<noteq> []"
  by (auto simp: commID_of_def getDefaultIDString_def GEN_PUBL_getDefaultIDString_def
      CCommFB_getDefaultIDString_def buildIDString_def)

section \<open>Errors of sending\<close>

text \<open>The test for the bits of \<open>e_Terminated\<close> also holds for three other messages.\<close>

lemma terminated_bit:
  "has_bits 2 r \<longleftrightarrow>
     r = e_InitTerminated \<or> r = e_ProcessDataInvalidObject \<or> r = e_ProcessDataNoSocket \<or>
     r = e_ProcessDataSendFailed"
  by (cases r) (simp_all add: has_bits_def code_defs)

lemma local_send_no_group:
  assumes "com_ok core_layers w" "mFBs w i = Some fb" "mComStack fb = [a]" "var_QI fb"
    and "mCommServiceType fb \<noteq> e_Subscriber" "mLayers w a = Some l" "mLayerName l = ''loc''"
    and "group_map (smLocalCommGroupsManager w) (mGroupID l) = None"
  shows "handle_event core_layers i scmSendNotificationEventID w = Some (e_ProcessDataSendFailed, w)"
proof -
  have "mFb l = i"
    using com_invD(3) [OF assms(1,2)] assms(3,6) by (auto simp: stack_ok_def)
  then show ?thesis
    using assms event_ids getComGroup_map [OF com_invD(1) [OF assms(1)]]
    by (simp add: handle_event_def CCommFB_sendData_def layer_class_of_def core_layers_def
        Local_class_def Local_sendData_def)
qed

text \<open>Sending fails on the local layer when nobody has opened the group.  A client then closes
  its connection and reports SEND_FAILED; a server does nothing at all: no status, no event, and
  its connection stays open.  Both come from the test for a terminated connection, which takes a
  failed sending for one.\<close>

theorem failed_send_on_local_layer:
  assumes ok: "com_ok core_layers w" and fb: "mFBs w i = Some fb" "mComStack fb = [a]" "var_QI fb"
    and l: "mLayers w a = Some l" "mLayerName l = ''loc''"
    and g: "group_map (smLocalCommGroupsManager w) (mGroupID l) = None"
  shows "(mCommServiceType fb = e_Server \<longrightarrow>
      executeEvent core_layers i scmSendNotificationEventID w = Some w) \<and>
    (mCommServiceType fb = e_Client \<longrightarrow>
      (\<exists>w'. executeEvent core_layers i scmSendNotificationEventID w = Some w' \<and>
        mFBs w' i = Some (fb\<lparr>mComStack := [], var_STATUS := ''SEND_FAILED'', var_QO := False\<rparr>) \<and>
        mSentEvents w' \<noteq> [] \<and> List.last (mSentEvents w') = (i, 1)))"
proof (intro conjI impI)
  assume s: "mCommServiceType fb = e_Server"
  have "handle_event core_layers i scmSendNotificationEventID w = Some (e_ProcessDataSendFailed, w)"
    using local_send_no_group [OF ok fb] s l g by simp
  then show "executeEvent core_layers i scmSendNotificationEventID w = Some w"
    using fb(1) s event_ids by (simp add: executeEvent_def terminated_bit)
next
  assume c: "mCommServiceType fb = e_Client"
  have h: "handle_event core_layers i scmSendNotificationEventID w = Some (e_ProcessDataSendFailed, w)"
    using local_send_no_group [OF ok fb] c l g by simp
  obtain w1 where w1: "closeConnection core_layers i w = Some w1"
    "mFBs w1 = (mFBs w)(i \<mapsto> fb\<lparr>mComStack := []\<rparr>)"
    using core.closeConnection_ok [OF ok fb(1)] by blast
  have "show_response e_ProcessDataSendFailed f = f\<lparr>var_STATUS := ''SEND_FAILED'', var_QO := False\<rparr>"
    "response_event e_ProcessDataSendFailed = 1" for f
    by (simp_all add: show_response_def has_bits_def code_defs scmResponseTexts_def response_event_def
        scmReceiveNotificationEventID_def)
  then have "executeEvent core_layers i scmSendNotificationEventID w =
      Some ((set_fb i (fb\<lparr>mComStack := [], var_STATUS := ''SEND_FAILED'', var_QO := False\<rparr>) w1)
        \<lparr>mSentEvents := mSentEvents w1 @ [(i, 1)]\<rparr>)"
    using fb(1) h w1 c by (simp add: executeEvent_def terminated_bit)
  then show "\<exists>w'. executeEvent core_layers i scmSendNotificationEventID w = Some w' \<and>
        mFBs w' i = Some (fb\<lparr>mComStack := [], var_STATUS := ''SEND_FAILED'', var_QO := False\<rparr>) \<and>
        mSentEvents w' \<noteq> [] \<and> List.last (mSentEvents w') = (i, 1)"
    by (simp add: set_fb_def)
qed

text \<open>A client is not checked against the types of the group: with more inputs than the subscriber has
  outputs it writes behind them.\<close>

lemma setRDs_too_many: "length rds < length sds \<Longrightarrow> setRDs rds sds = None"
  by (induction rds sds rule: setRDs.induct) auto

lemma client_writes_behind_pins:
  assumes ok: "com_ok core_layers w" and fb: "mFBs w i = Some fb" "mComStack fb = [a]" "var_QI fb"
    and "mCommServiceType fb = e_Client" and l: "mLayers w a = Some l" "mLayerName l = ''loc''"
    and g: "group_map (smLocalCommGroupsManager w) (mGroupID l) = Some g" "mSublList g = s # ss"
    and sub: "mLayers w s = Some ls" "mFBs w (mFb ls) = Some sub" "length (mGenDOs sub) < length (mGenDIs fb)"
  shows "executeEvent core_layers i scmSendNotificationEventID w = None"
proof -
  have "mFb l = i"
    using com_invD(3) [OF ok fb(1)] fb(2) l(1) by (auto simp: stack_ok_def)
  then have "handle_event core_layers i scmSendNotificationEventID w = None"
    using assms event_ids getComGroup_map [OF com_invD(1) [OF ok]] setRDs_too_many [OF sub(3)]
    by (simp add: handle_event_def CCommFB_sendData_def layer_class_of_def core_layers_def
        Local_class_def Local_sendData_def)
  then show ?thesis
    using fb(1) by (simp add: executeEvent_def)
qed

text \<open>A raw data layer with nothing below it follows a null pointer when it sends.\<close>

lemma raw_layer_needs_bottom:
  assumes "mFBs w i = Some fb" "mComStack fb = [a]" "var_QI fb" "mCommServiceType fb \<noteq> e_Subscriber"
    and "mLayers w a = Some l" "mLayerName l = ''raw''"
  shows "executeEvent core_layers i scmSendNotificationEventID w = None"
  using assms event_ids
  by (simp add: executeEvent_def handle_event_def CCommFB_sendData_def layer_class_of_def core_layers_def
      Raw_class_def Raw_sendData_def split: list.splits iec_data.splits)

section \<open>An example\<close>

definition example_world :: com_world where
  "example_world =
     \<lparr>mFBs = [0 \<mapsto> example_fb e_Publisher, 1 \<mapsto> example_fb e_Subscriber], mLayers = Map.empty, mNextLayer = 0,
      smLocalCommGroupsManager = \<lparr>id_address = text_code, mLocalCommGroups = []\<rparr>,
      mStartedChains = [], mSentEvents = []\<rparr>"

definition example_group :: CLocalCommGroup where
  "example_group = \<lparr>mGroupName = ''A'', mPublList = [1], mSublList = [0], mDataTypes = [Some ''INT'']\<rparr>"

text \<open>After INIT of the subscriber and of the publisher.\<close>

definition example_open :: com_world where
  "example_open =
     \<lparr>mFBs = [0 \<mapsto> (example_fb e_Publisher)\<lparr>mComStack := [1], var_STATUS := ''OK'', var_QO := True\<rparr>,
              1 \<mapsto> (example_fb e_Subscriber)\<lparr>mComStack := [0], var_STATUS := ''OK'', var_QO := True\<rparr>],
      mLayers = [0 \<mapsto> \<lparr>mLayerName = ''loc'', mFb = 1, mGroupID = ''A''\<rparr>,
                 1 \<mapsto> \<lparr>mLayerName = ''loc'', mFb = 0, mGroupID = ''A''\<rparr>], mNextLayer = 2,
      smLocalCommGroupsManager = \<lparr>id_address = text_code, mLocalCommGroups = [example_group]\<rparr>,
      mStartedChains = [], mSentEvents = [(1, 0), (0, 0)]\<rparr>"

lemma example_id: "commID_of (example_fb service) = layer_text (''loc'', ''A'')"
  by (simp add: commID_of_def example_fb_def getDefaultIDString_def GEN_PUBL_getDefaultIDString_def buildIDString_def)

lemma example_world_reachable: "com_reachable example_world"
  unfolding example_world_def
  by (rule com_reachable.start)
    (auto simp: text_code_inj example_fb_queue intro: injI split: if_splits, simp_all add: example_fb_def)

lemmas group_eval =
  local_register_def registerPubl_def registerSubl_def findOrCreateLocalCommGroup_def
  getLocalCommGroupIterator_def isGroupIteratorForGroup_def modify_group_def lower_bound_def insert_at_def
  new_CLocalCommGroup_def buildDataTypeList_def checkDataTypes_def Let_def

lemma example_open_reachable: "com_reachable example_open"
proof -
  let ?s = "example_fb e_Subscriber" and ?p = "example_fb e_Publisher"
  obtain w1 where w1: "executeEvent core_layers 1 scmEventINITID example_world = Some w1"
    "w1 = (set_fb 1 (?s\<lparr>mComStack := [0], var_STATUS := ''OK'', var_QO := True\<rparr>)
      (local_opened 1 ?s ''A'' example_world))\<lparr>mSentEvents := [(1, 0)]\<rparr>"
    using init_local [of example_world 1 ?s "''A''", OF _ _ _ example_id]
    by (simp add: example_world_def group_eval example_fb_def)
  obtain w2 where w2: "executeEvent core_layers 0 scmEventINITID w1 = Some w2"
    "w2 = (set_fb 0 (?p\<lparr>mComStack := [1], var_STATUS := ''OK'', var_QO := True\<rparr>)
      (local_opened 0 ?p ''A'' w1))\<lparr>mSentEvents := [(1, 0), (0, 0)]\<rparr>"
    using init_local [of w1 0 ?p "''A''", OF _ _ _ example_id]
    by (simp add: w1(2) set_fb_def local_opened_def example_world_def group_eval example_fb_def example_pin_def)
  have "w2 = example_open"
    by (simp add: w2(2) w1(2) set_fb_def local_opened_def example_world_def example_open_def group_eval
        example_group_def example_fb_def example_pin_def fun_upd_twist)
  then show ?thesis
    using com_reachable.event [OF com_reachable.event [OF example_world_reachable w1(1)] w2(1)] by simp
qed

lemma example_open_group: "group_map (smLocalCommGroupsManager example_open) ''A'' = Some example_group"
  by (simp add: vector_map_def example_open_def example_group_def)

lemma example_open_fields:
  "mFBs example_open 0 = Some ((example_fb e_Publisher)\<lparr>mComStack := [1], var_STATUS := ''OK'', var_QO := True\<rparr>)"
  "mFBs example_open 1 = Some ((example_fb e_Subscriber)\<lparr>mComStack := [0], var_STATUS := ''OK'', var_QO := True\<rparr>)"
  "mLayers example_open 1 = Some \<lparr>mLayerName = ''loc'', mFb = 0, mGroupID = ''A''\<rparr>"
  "owner example_open 0 = 1" "mStartedChains example_open = []"
  by (simp_all add: example_open_def owner_def)

lemma example_received:
  "mGenDOs (receive_pins sds 0 ((example_fb e_Subscriber)\<lparr>mComStack := [0], var_STATUS := ''OK'', var_QO := True\<rparr>)) = sds"
  "interrupts (receive_pins sds 0 ((example_fb e_Subscriber)\<lparr>mComStack := [0], var_STATUS := ''OK'', var_QO := True\<rparr>)) = [Some 0]"
  "mComStack (receive_pins sds 0 ((example_fb e_Subscriber)\<lparr>mComStack := [0], var_STATUS := ''OK'', var_QO := True\<rparr>)) = [0]"
  by (simp_all add: receive_pins_def interruptCommFB_def cgCommunicationInterruptQueueSize_def interrupts_def
      example_fb_def numeral_eq_Suc)

lemma example_published:
  "\<exists>w' fb. executeEvent core_layers 0 scmSendNotificationEventID example_open = Some w' \<and>
    mFBs w' 1 = Some fb \<and> interrupts fb = [Some 0] \<and> mComStack fb = [0]"
  using publish_exact [OF reachable_com_ok [OF example_open_reachable] example_open_fields(1) _ _ _
      example_open_fields(3), of example_group] example_open_group example_open_fields example_received
  by (simp add: example_group_def set_fb_def after_delivery_def example_fb_def)

lemma publish_delivers_witness:
  "\<exists>w' fb. executeEvent core_layers 0 scmSendNotificationEventID example_open = Some w' \<and>
    mFBs w' 1 = Some fb \<and> mGenDOs fb = [example_pin] \<and> interrupts fb = [Some 0] \<and> mStartedChains w' = [1]"
proof -
  let ?p = "(example_fb e_Publisher)\<lparr>mComStack := [1], var_STATUS := ''OK'', var_QO := True\<rparr>"
  let ?s = "(example_fb e_Subscriber)\<lparr>mComStack := [0], var_STATUS := ''OK'', var_QO := True\<rparr>"
  obtain w' where w': "executeEvent core_layers 0 scmSendNotificationEventID example_open = Some w'"
    "\<forall>j. j \<noteq> 0 \<longrightarrow> (case mFBs example_open j of None \<Rightarrow> mFBs w' j = None
      | Some sub \<Rightarrow> \<exists>sub'. mFBs w' j = Some sub' \<and>
          received (mGenDIs ?p) (filter (\<lambda>s. owner example_open s = j) (mSublList example_group)) sub sub')"
    "mStartedChains w' = mStartedChains example_open @ map (owner example_open) (mSublList example_group)"
    using publish_delivers [OF reachable_com_ok [OF example_open_reachable] example_open_fields(1) _ _ _
        example_open_fields(3), of example_group] example_open_group
    by (auto simp: example_fb_def example_group_def)
  have "mGenDIs ?p = [example_pin]" "interrupts ?s = []"
    by (simp_all add: example_fb_def interrupts_def)
  then show ?thesis
    using w'(1,3) spec [OF w'(2), of 1] example_open_fields
    by (auto simp: example_group_def received_def cgCommunicationInterruptQueueSize_def)
qed

lemma reachable_groups_witness:
  "\<exists>l fb. mLayers example_open 1 = Some l \<and> mFBs example_open (mFb l) = Some fb \<and>
    mCommServiceType fb = e_Publisher"
  using reachable_groups [OF example_open_reachable] example_open_group
  by (fastforce simp: example_group_def)

lemma init_terminate_restores_witness:
  "\<exists>w1 w2. executeEvent core_layers 1 scmEventINITID example_world = Some w1 \<and>
    executeEvent core_layers 1 scmEventINITID (set_QI 1 False w1) = Some w2 \<and>
    smLocalCommGroupsManager w2 = smLocalCommGroupsManager example_world"
proof -
  have "mFBs example_world 1 = Some (example_fb e_Subscriber)"
    by (simp add: example_world_def)
  from init_terminate_restores [OF reachable_com_ok [OF example_world_reachable] this _ _ example_id]
  show ?thesis
    by (auto simp: example_fb_def)
qed

lemma external_event_iff_layers_live_witness:
  "executeEvent core_layers 1 cgExternalEventID example_open \<noteq> None"
  using external_event_iff_layers_live [OF reachable_com_ok [OF example_open_reachable], of 1]
  by (simp add: example_open_def example_fb_def interrupts_def)

text \<open>The example goes on: a value is published, and the subscriber is closed before it takes it.\<close>

lemma closing_leaves_dangling_interrupt_witness:
  "\<exists>w w1. com_reachable w \<and> executeEvent core_layers 1 scmEventINITID w = Some w1 \<and>
    executeEvent core_layers 1 cgExternalEventID w1 = None"
proof -
  obtain w' fb where w': "executeEvent core_layers 0 scmSendNotificationEventID example_open = Some w'"
    "mFBs w' 1 = Some fb" "interrupts fb = [Some 0]" "mComStack fb = [0]"
    using example_published by blast
  let ?fb = "fb\<lparr>var_QI := False, var_ID := ''A'', mGenDIs := mGenDIs fb\<rparr>"
  let ?w = "set_fb 1 ?fb w'"
  have w: "com_reachable ?w"
    by (rule com_reachable.inputs [OF com_reachable.event [OF example_open_reachable w'(1)] w'(2) refl])
  have "mFBs ?w 1 = Some ?fb" "Some 0 \<in> set (interrupts ?fb)"
    using w'(3) by (simp_all add: set_fb_def interrupts_def)
  then have "\<exists>w1. executeEvent core_layers 1 scmEventINITID ?w = Some w1 \<and>
      executeEvent core_layers 1 cgExternalEventID w1 = None"
    using closing_leaves_dangling_interrupt [OF reachable_com_ok [OF w], of 1 ?fb 0] w'(4) by simp
  then show ?thesis
    using w by blast
qed

lemma failed_send_on_local_layer_witness:
  "\<exists>w. com_reachable w \<and> mSentEvents w = [(0, 0)] \<and>
    executeEvent core_layers 0 scmSendNotificationEventID w = Some w"
proof -
  let ?s = "example_fb e_Server"
  let ?start = "\<lparr>mFBs = [0 \<mapsto> ?s], mLayers = Map.empty, mNextLayer = 0,
      smLocalCommGroupsManager = \<lparr>id_address = text_code, mLocalCommGroups = []\<rparr>,
      mStartedChains = [], mSentEvents = []\<rparr> :: com_world"
  let ?f = "?s\<lparr>mComStack := [0], var_STATUS := ''OK'', var_QO := True\<rparr>"
  let ?w = "(set_fb 0 ?f (local_opened 0 ?s ''A'' ?start))\<lparr>mSentEvents := [(0, 0)]\<rparr>"
  have w0: "com_reachable ?start"
    by (rule com_reachable.start)
      (auto simp: text_code_inj example_fb_queue intro: injI split: if_splits, simp_all add: example_fb_def)
  have e: "executeEvent core_layers 0 scmEventINITID ?start = Some ?w"
    using init_local [of ?start 0 ?s "''A''", OF _ _ _ example_id] by (simp add: group_eval example_fb_def)
  have w: "com_reachable ?w"
    by (rule com_reachable.event [OF w0 e])
  have "executeEvent core_layers 0 scmSendNotificationEventID ?w = Some ?w"
    using failed_send_on_local_layer [OF reachable_com_ok [OF w], of 0 ?f 0
        "\<lparr>mLayerName = ''loc'', mFb = 0, mGroupID = ''A''\<rparr>"]
    by (simp add: local_opened_def set_fb_def local_register_def example_fb_def vector_map_def)
  then show ?thesis
    using w by (intro exI [of _ ?w]) simp
qed

end
