(* ===== verification/Live_Values.thy ===== *)
theory Live_Values
imports Command_Parser Compound_Text Unicode
begin

text \<open>
  The values of the blocks of a resource: the look-up of a value along a list of names
  (\<open>core/src/fbcontainer.cpp\<close>, \<open>funcbloc.cpp\<close>, \<open>basefb.cpp\<close>, \<open>datatypes/forte_struct.cpp\<close>), forcing, and the
  commands that read and write values (\<open>core/src/resource.cpp\<close>).

  The tree of containers is the one of \<open>FB_Container\<close>; what the objects in it hold besides is a
  function from the names that lead to a block to a \<open>live_block\<close>: the address of the object, the name of its type, its pins and
  variables with their types and values (theory \<open>Compound_Text\<close>), and the values of its connections.  The
  ECC state of a basic block is the first of its internal variables, with the name \<open>!ECC\<close>.  An in-out has a value
  of its own (\<open>lb_DIOOut\<close>) and a pointer to the value it works on, its own or that of another block, which is
  given by the address of that block, its names and the in-out (\<open>lb_DIORef\<close>).
  Pins of type ANY, WSTRING values, in-outs connected to ones of another type and texts of more than
  2147483647 bytes are not modelled.
  A result \<open>None\<close> is undefined behaviour of the code.
\<close>

section \<open>State\<close>

record data_pin =
  pin_type :: any_shape
  pin_value :: any_state

record live_block =
  lb_addr :: nat
  lb_typeName :: string
  mVarInternals :: "(StringId \<times> data_pin) list"
  lb_DI :: "data_pin list"
  lb_DO :: "data_pin list"
  lb_DIO :: "data_pin list"
  lb_DOCon :: "any_state list"
  lb_DIOOut :: "any_state list"
  lb_DIORef :: "(nat \<times> TNameIdentifier \<times> nat) list"
  lb_DICon :: "bool list"
  lb_DIOIn :: "bool list"
  lb_SocketCon :: "bool list"

type_synonym objects = "TNameIdentifier \<Rightarrow> live_block"

datatype slot = Var_Slot nat | DI_Slot nat | DO_Slot nat | DIO_Slot nat

text \<open>A pointer to a value: the names of the block, the pin, and the members on the way into a structure.\<close>

type_synonym place = "TNameIdentifier \<times> slot \<times> nat list"

record live_values =
  lv_tree :: CFBContainer
  lv_objects :: objects
  mInitialValues :: "(TNameIdentifier \<times> string) list"

text \<open>The objects below a child, and the objects with those below a child replaced.\<close>

definition below :: "StringId \<Rightarrow> objects \<Rightarrow> objects" where
  "below n objs = (\<lambda>ns. objs (n # ns))"

definition put_below :: "StringId \<Rightarrow> objects \<Rightarrow> objects \<Rightarrow> objects" where
  "put_below n objs' objs = (\<lambda>ns. case ns of [] \<Rightarrow> objs [] | m # ms \<Rightarrow> if m = n then objs' ms else objs ns)"

definition block_of :: "container_kind \<Rightarrow> CFunctionBlock option" where
  "block_of k = (case k of PlainContainer \<Rightarrow> None | Block b \<Rightarrow> Some b | Resource b t \<Rightarrow> Some b)"

definition put_block :: "CFunctionBlock \<Rightarrow> CFBContainer \<Rightarrow> CFBContainer" where
  "put_block b c =
     CFBContainer (mContInstanceName c)
       (case mKind c of PlainContainer \<Rightarrow> PlainContainer | Block _ \<Rightarrow> Block b | Resource _ t \<Rightarrow> Resource b t)
       (mChildren c)"

section \<open>Look-up\<close>

text \<open>\<open>CIEC_ANY::getVar\<close> and \<open>CIEC_STRUCT::getVar\<close>.\<close>

fun any_getVar :: "any_shape \<Rightarrow> TNameIdentifier \<Rightarrow> nat list option" where
  "any_getVar ty [] = Some []"
| "any_getVar (StructOf ms) (n # ns) =
     (case getMemberIndex (id_text n) (map fst ms) of
        None \<Rightarrow> None
      | Some i \<Rightarrow> map_option ((#) i) (any_getVar (snd (ms ! i)) ns))"
| "any_getVar ty (n # ns) = None"

fun member_type :: "nat list \<Rightarrow> any_shape \<Rightarrow> any_shape" where
  "member_type (i # p) (StructOf ms) = member_type p (snd (ms ! i))"
| "member_type p ty = ty"

fun member_value :: "nat list \<Rightarrow> any_state \<Rightarrow> any_state" where
  "member_value (i # p) (Parts vs) = member_value p (vs ! i)"
| "member_value p v = v"

fun put_member :: "nat list \<Rightarrow> any_state \<Rightarrow> any_state \<Rightarrow> any_state" where
  "put_member (i # p) w (Parts vs) = Parts (vs[i := put_member p w (vs ! i)])"
| "put_member p w v = w"

text \<open>The pin or variable of a block: internal variables first, as in \<open>CBaseFB::getVar\<close>, then inputs,
  outputs and in-outs; a block without an object for a pin, as a resource for its outputs, gives the null pointer
  and the search goes on.\<close>

definition port_slot :: "(nat \<Rightarrow> slot) \<Rightarrow> TPortId \<Rightarrow> 'p list \<Rightarrow> slot option" where
  "port_slot sl portId pins = (if portId \<noteq> cgInvalidPortId \<and> portId < length pins then Some (sl portId) else None)"

definition data_slot :: "CFunctionBlock \<Rightarrow> live_block \<Rightarrow> StringId \<Rightarrow> slot option" where
  "data_slot b lb n =
     (let sp = mInterfaceSpec b in
      case port_slot Var_Slot (getPortId n (map fst (mVarInternals lb))) (mVarInternals lb) of
        Some s \<Rightarrow> Some s
      | None \<Rightarrow>
     (case port_slot DI_Slot (getDIID sp n) (lb_DI lb) of
        Some s \<Rightarrow> Some s
      | None \<Rightarrow>
     (case port_slot DO_Slot (getDOID sp n) (lb_DO lb) of
        Some s \<Rightarrow> Some s
      | None \<Rightarrow> port_slot DIO_Slot (getDIOID sp n) (lb_DIO lb))))"

fun slot_pin :: "slot \<Rightarrow> live_block \<Rightarrow> data_pin" where
  "slot_pin (Var_Slot i) lb = snd (mVarInternals lb ! i)"
| "slot_pin (DI_Slot i) lb = lb_DI lb ! i"
| "slot_pin (DO_Slot i) lb = lb_DO lb ! i"
| "slot_pin (DIO_Slot i) lb = lb_DIO lb ! i"

fun put_slot :: "slot \<Rightarrow> data_pin \<Rightarrow> live_block \<Rightarrow> live_block" where
  "put_slot (Var_Slot i) p lb = lb\<lparr>mVarInternals := (mVarInternals lb)[i := (fst (mVarInternals lb ! i), p)]\<rparr>"
| "put_slot (DI_Slot i) p lb = lb\<lparr>lb_DI := (lb_DI lb)[i := p]\<rparr>"
| "put_slot (DO_Slot i) p lb = lb\<lparr>lb_DO := (lb_DO lb)[i := p]\<rparr>"
| "put_slot (DIO_Slot i) p lb = lb\<lparr>lb_DIO := (lb_DIO lb)[i := p]\<rparr>"

text \<open>\<open>getVar\<close> of a container and of a block in one: a block that has the pin does not ask its children.\<close>

fun getVar :: "runtime \<Rightarrow> objects \<Rightarrow> TNameIdentifier \<Rightarrow> CFBContainer \<Rightarrow> place option" where
  "getVar rt objs [] c = None"
| "getVar rt objs (n # ns) c =
     (case (case block_of (mKind c) of None \<Rightarrow> None | Some b \<Rightarrow> data_slot b (objs []) n) of
        Some s \<Rightarrow> map_option (\<lambda>p. ([], s, p)) (any_getVar (pin_type (slot_pin s (objs []))) ns)
      | None \<Rightarrow>
          (case getChild rt n (mChildren c) of
             None \<Rightarrow> None
           | Some it \<Rightarrow>
               let child = mChildren c ! it; m = mContInstanceName child
               in map_option (\<lambda>(bs, s, p). (m # bs, s, p)) (getVar rt (below m objs) ns child)))"

definition place_type :: "objects \<Rightarrow> place \<Rightarrow> any_shape" where
  "place_type objs pl = (case pl of (bs, s, p) \<Rightarrow> member_type p (pin_type (slot_pin s (objs bs))))"

definition place_value :: "objects \<Rightarrow> place \<Rightarrow> any_state" where
  "place_value objs pl = (case pl of (bs, s, p) \<Rightarrow> member_value p (pin_value (slot_pin s (objs bs))))"

definition put_value :: "place \<Rightarrow> any_state \<Rightarrow> objects \<Rightarrow> objects" where
  "put_value pl w objs =
     (case pl of (bs, s, p) \<Rightarrow>
        let pin = slot_pin s (objs bs)
        in objs(bs := put_slot s (pin\<lparr>pin_value := put_member p w (pin_value pin)\<rparr>) (objs bs)))"

section \<open>Forcing\<close>

text \<open>\<open>setForced\<close> with the number of a pin: forcing an output copies its value to the connection.\<close>

definition setForced_num ::
    "nat \<Rightarrow> bool \<Rightarrow> CFunctionBlock \<Rightarrow> live_block \<Rightarrow> bool \<times> CFunctionBlock \<times> live_block" where
  "setForced_num num force b lb =
     (if num \<ge> length (mForces b) then (False, b, lb)
      else let numDIs = getNumDIs (mInterfaceSpec b); doPortId = num - numDIs
           in (True, b\<lparr>mForces := (mForces b)[num := force]\<rparr>,
               if force \<and> numDIs \<le> num \<and> num < numDIs + getNumDOs (mInterfaceSpec b)
               then lb\<lparr>lb_DOCon := (lb_DOCon lb)[doPortId := pin_value (lb_DO lb ! doPortId)]\<rparr>
               else lb))"

text \<open>The pin that is forced at this level of the tree: the last name, and a data port of the block.\<close>

definition forced_pin :: "container_kind \<Rightarrow> StringId \<Rightarrow> TNameIdentifier \<Rightarrow> (nat \<times> CFunctionBlock) option" where
  "forced_pin k n ns =
     (case block_of k of
        None \<Rightarrow> None
      | Some b \<Rightarrow>
          let num = getAbsDataPortNum n b
          in if num \<noteq> INVALID_ABS_DATA_PORT_ID \<and> ns = [] then Some (num, b) else None)"

text \<open>\<open>setForced\<close> with a list of names.  The result of the one with the number is not looked at.\<close>

fun setForced_names ::
    "runtime \<Rightarrow> TNameIdentifier \<Rightarrow> bool \<Rightarrow> CFBContainer \<Rightarrow> objects \<Rightarrow> bool \<times> CFBContainer \<times> objects" where
  "setForced_names rt [] force c objs = (False, c, objs)"
| "setForced_names rt (n # ns) force c objs =
     (case forced_pin (mKind c) n ns of
        Some (num, b) \<Rightarrow>
          (case setForced_num num force b (objs []) of
             (_, b', lb') \<Rightarrow> (True, put_block b' c, objs([] := lb')))
      | None \<Rightarrow>
          (case getChild rt n (mChildren c) of
             None \<Rightarrow> (False, c, objs)
           | Some it \<Rightarrow>
               let child = mChildren c ! it; m = mContInstanceName child
               in (case setForced_names rt ns force child (below m objs) of
                     (r, child', objs') \<Rightarrow>
                       (r, set_children ((mChildren c)[it := child']) c, put_below m objs' objs))))"

section \<open>Connections of in-outs\<close>

text \<open>What \<open>getOutputConnection\<close> finds, when it is the connection of an in-out: the block and the in-out.  All
  other connections it finds, those of events, outputs, plugs, members and of the inputs of a resource, are no
  in-out connections.\<close>

fun inout_output :: "runtime \<Rightarrow> TNameIdentifier \<Rightarrow> CFBContainer \<Rightarrow> (TNameIdentifier \<times> nat) option" where
  "inout_output rt [] c = None"
| "inout_output rt (n # ns) c =
     (let found = (case mKind c of
                     PlainContainer \<Rightarrow> None
                   | Resource b t \<Rightarrow>
                       if getDIID (mInterfaceSpec b) n \<noteq> cgInvalidPortId then Some None else None
                   | Block b \<Rightarrow>
                       let sp = mInterfaceSpec b
                       in if getEOID sp n \<noteq> cgInvalidPortId \<or> getDOID sp n \<noteq> cgInvalidPortId then Some None
                          else if getDIOID sp n \<noteq> cgInvalidPortId
                          then Some (if ns = [] then Some ([], getDIOID sp n) else None)
                          else if getPlugID sp n \<noteq> cgInvalidPortId then Some None
                          else None)
      in case found of
           Some r \<Rightarrow> r
         | None \<Rightarrow>
             (case getChild rt n (mChildren c) of
                None \<Rightarrow> None
              | Some it \<Rightarrow>
                  let child = mChildren c ! it; m = mContInstanceName child
                  in map_option (\<lambda>(bs, i). (m # bs, i)) (inout_output rt ns child)))"

text \<open>Whether \<open>getInputConnection\<close> finds a connection.\<close>

definition connected_port :: "TPortId \<Rightarrow> bool list \<Rightarrow> bool" where
  "connected_port portId cons = (portId \<noteq> cgInvalidPortId \<and> portId < length cons \<and> cons ! portId)"

fun has_input_connection :: "runtime \<Rightarrow> objects \<Rightarrow> TNameIdentifier \<Rightarrow> CFBContainer \<Rightarrow> bool" where
  "has_input_connection rt objs [] c = False"
| "has_input_connection rt objs (n # ns) c =
     (let lb = objs [];
          found = (case block_of (mKind c) of
                     None \<Rightarrow> None
                   | Some b \<Rightarrow>
                       let sp = mInterfaceSpec b
                       in if connected_port (getDIID sp n) (lb_DICon lb) then Some (ns = [])
                          else if connected_port (getDIOID sp n) (lb_DIOIn lb) \<and> ns = [] then Some True
                          else if getSocketID sp n \<noteq> cgInvalidPortId \<and> ns = []
                          then Some (connected_port (getSocketID sp n) (lb_SocketCon lb))
                          else None)
      in case found of
           Some r \<Rightarrow> r
         | None \<Rightarrow>
             (case getChild rt n (mChildren c) of
                None \<Rightarrow> False
              | Some it \<Rightarrow>
                  let child = mChildren c ! it
                  in has_input_connection rt (below (mContInstanceName child) objs) ns child))"

section \<open>The commands\<close>

text \<open>The text up to the first zero byte, as \<open>c_str\<close> gives it to the parsers.\<close>

definition c_str :: "string \<Rightarrow> string" where
  "c_str s = takeWhile (\<lambda>ch. ch \<noteq> CHR 0x00) s"

text \<open>\<open>emplace\<close> on the map of initial values keeps an entry that is there.\<close>

definition emplace_initial ::
    "TNameIdentifier \<Rightarrow> string \<Rightarrow> 'z live_values_scheme \<Rightarrow> 'z live_values_scheme" where
  "emplace_initial ns v st =
     (if kind_state (mKind (lv_tree st)) = Some Idle \<and> map_of (mInitialValues st) ns = None
      then st\<lparr>mInitialValues := mInitialValues st @ [(ns, v)]\<rparr> else st)"

definition write_inout ::
    "runtime \<Rightarrow> TNameIdentifier \<Rightarrow> any_state \<Rightarrow> 'z live_values_scheme \<Rightarrow> 'z live_values_scheme option" where
  "write_inout rt ns w st =
     (let objs = lv_objects st in
      case inout_output rt ns (lv_tree st) of
        Some (bs, i) \<Rightarrow>
          if \<not> has_input_connection rt objs ns (lv_tree st)
          then (case lb_DIORef (objs bs) ! i of
                  (a, owner, j) \<Rightarrow>
                    if lb_addr (objs owner) \<noteq> a then None
                    else Some (st\<lparr>lv_objects := objs
                           (owner := (objs owner)\<lparr>lb_DIOOut := (lb_DIOOut (objs owner))[j := w]\<rparr>)\<rparr>))
          else Some st
      | None \<Rightarrow> Some st)"

text \<open>\<open>finish_write\<close> is what follows when the variable has been given the text and \<open>n\<close> characters were read.\<close>

definition finish_write ::
    "runtime \<Rightarrow> TNameIdentifier \<Rightarrow> string \<Rightarrow> bool \<Rightarrow> place \<Rightarrow> int \<Rightarrow> 'z live_values_scheme \<Rightarrow>
     (EMGMResponse \<times> 'z live_values_scheme) option" where
  "finish_write rt ns v force pl n st =
     (if n \<noteq> int (length v) then Some (BadParams, st)
      else if force
      then (case setForced_names rt ns True (lv_tree st) (lv_objects st) of
              (ok, c, objs) \<Rightarrow>
                let st = st\<lparr>lv_tree := c, lv_objects := objs\<rparr>
                in if \<not> ok then Some (NoSuchObject, st) else Some (Ready, emplace_initial ns v st))
      else (case write_inout rt ns (place_value (lv_objects st) pl) st of
              None \<Rightarrow> None
            | Some st \<Rightarrow> Some (Ready, emplace_initial ns v st)))"

definition writeValue ::
    "runtime \<Rightarrow> TNameIdentifier \<Rightarrow> string \<Rightarrow> bool \<Rightarrow> 'z live_values_scheme \<Rightarrow>
     (EMGMResponse \<times> 'z live_values_scheme) option" where
  "writeValue rt ns v force st =
     (case getVar rt (lv_objects st) ns (lv_tree st) of
        None \<Rightarrow> Some (NoSuchObject, st)
      | Some pl \<Rightarrow>
          if v = [] then Some (BadParams, st)
          else (case any_fromString (place_type (lv_objects st) pl) (c_str v) (place_value (lv_objects st) pl) of
                  None \<Rightarrow> None
                | Some (n, w) \<Rightarrow>
                    finish_write rt ns v force pl n (st\<lparr>lv_objects := put_value pl w (lv_objects st)\<rparr>)))"

text \<open>One round of \<open>setInitialValues\<close>, and all; the hash table is gone through in any order, which the
  argument gives.\<close>

definition set_initial_value ::
    "runtime \<Rightarrow> TNameIdentifier \<times> string \<Rightarrow> 'z live_values_scheme \<Rightarrow> 'z live_values_scheme option" where
  "set_initial_value rt nv st =
     (case getVar rt (lv_objects st) (fst nv) (lv_tree st) of
        None \<Rightarrow> Some st
      | Some pl \<Rightarrow>
          (case any_fromString (place_type (lv_objects st) pl) (c_str (snd nv)) (place_value (lv_objects st) pl) of
             None \<Rightarrow> None
           | Some (n, w) \<Rightarrow> Some (st\<lparr>lv_objects := put_value pl w (lv_objects st)\<rparr>)))"

fun set_initial_values ::
    "runtime \<Rightarrow> (TNameIdentifier \<times> string) list \<Rightarrow> 'z live_values_scheme \<Rightarrow> 'z live_values_scheme option" where
  "set_initial_values rt [] st = Some st"
| "set_initial_values rt (nv # nvs) st =
     (case set_initial_value rt nv st of None \<Rightarrow> None | Some st \<Rightarrow> set_initial_values rt nvs st)"

text \<open>\<open>CIEC_STRING::toUTF8\<close> without quotes: each byte of the string is a code point.\<close>

definition code_point_text :: "char \<Rightarrow> string option" where
  "code_point_text ch =
     map_option (map (\<lambda>b. char_of (unat b))) (encodeUTF8Codepoint (Some 4) (of_nat (of_char ch)))"

fun STRING_toUTF8 :: "string \<Rightarrow> string" where
  "STRING_toUTF8 [] = []"
| "STRING_toUTF8 (ch # s) = (case code_point_text ch of None \<Rightarrow> [] | Some u \<Rightarrow> u @ STRING_toUTF8 s)"

fun plain_toUTF8 :: "any_state \<Rightarrow> string" where
  "plain_toUTF8 (Chars s) = STRING_toUTF8 s"
| "plain_toUTF8 v = []"

text \<open>The types whose texts are escaped.\<close>

fun escaped_type :: "any_shape \<Rightarrow> bool" where
  "escaped_type (Simple t) = (t \<in> {e_STRING, e_WSTRING, e_CHAR, e_WCHAR})"
| "escaped_type ty = True"

definition read_text :: "any_shape \<Rightarrow> any_state \<Rightarrow> string" where
  "read_text ty v = (if ty \<in> {Simple e_STRING, Simple e_WSTRING} then plain_toUTF8 v else any_toString ty v)"

definition readValue ::
    "runtime \<Rightarrow> TNameIdentifier \<Rightarrow> string \<Rightarrow> 'z live_values_scheme \<Rightarrow> EMGMResponse \<times> string" where
  "readValue rt ns text st =
     (case getVar rt (lv_objects st) ns (lv_tree st) of
        None \<Rightarrow> (NoSuchObject, text)
      | Some pl \<Rightarrow>
          let ty = place_type (lv_objects st) pl; t = text @ read_text ty (place_value (lv_objects st) pl)
          in (Ready, if escaped_type ty \<and> length t \<noteq> length text
                     then transformNonEscapedToEscapedXMLText t (length text) else t))"

section \<open>Members\<close>

lemma any_getVar_member:
  assumes "any_getVar ty ns = Some p" "has_shape ty v"
  shows "has_shape (member_type p ty) (member_value p v)"
    and "member_value p (put_member p w v) = w"
    and "has_shape (member_type p ty) w \<Longrightarrow> has_shape ty (put_member p w v)"
proof -
  have "has_shape (member_type p ty) (member_value p v) \<and> member_value p (put_member p w v) = w \<and>
    (has_shape (member_type p ty) w \<longrightarrow> has_shape ty (put_member p w v))"
    using assms
  proof (induction ty ns arbitrary: p v rule: any_getVar.induct)
    case (2 ms n ns)
    then obtain i q where i: "getMemberIndex (id_text n) (map fst ms) = Some i" and p: "p = i # q"
        and q: "any_getVar (snd (ms ! i)) ns = Some q"
      by (auto split: option.splits)
    obtain vs where v: "v = Parts vs"
      using 2(3) by auto
    have len: "i < length ms" "length vs = length ms"
      using getMemberIndex_Some [OF i] 2(3) by (auto simp: v dest: list_all2_lengthD)
    have shapes: "list_all2 (\<lambda>m x. has_shape (snd m) x) ms vs"
      using 2(3) by (simp add: v list_all2_conv_all_nth)
    then have "has_shape (snd (ms ! i)) (vs ! i)"
      using len by (simp add: list_all2_conv_all_nth)
    note IH = 2(1) [OF i q this]
    have "list_all2 (\<lambda>m x. has_shape (snd m) x) ms (vs[i := x])" if "has_shape (snd (ms ! i)) x" for x
      using shapes that len by (auto simp: list_all2_conv_all_nth nth_list_update)
    then show ?case
      using IH len 2(3) by (auto simp: p v list_all2_conv_all_nth)
  qed auto
  then show "has_shape (member_type p ty) (member_value p v)" "member_value p (put_member p w v) = w"
    "has_shape (member_type p ty) w \<Longrightarrow> has_shape ty (put_member p w v)"
    by auto
qed

lemma any_getVar_default: "any_getVar ty ns = Some p \<Longrightarrow> default_ok ty \<Longrightarrow> default_ok (member_type p ty)"
proof (induction ty ns arbitrary: p rule: any_getVar.induct)
  case (2 ms n ns)
  then obtain i q where i: "getMemberIndex (id_text n) (map fst ms) = Some i" and p: "p = i # q"
      and q: "any_getVar (snd (ms ! i)) ns = Some q"
    by (auto split: option.splits)
  then show ?case
    using 2(1) [OF i q] 2(3) getMemberIndex_Some [OF i] by (simp add: p)
qed auto

section \<open>Places\<close>

definition slot_in :: "slot \<Rightarrow> live_block \<Rightarrow> bool" where
  "slot_in s lb =
     (case s of
        Var_Slot i \<Rightarrow> i < length (mVarInternals lb)
      | DI_Slot i \<Rightarrow> i < length (lb_DI lb)
      | DO_Slot i \<Rightarrow> i < length (lb_DO lb)
      | DIO_Slot i \<Rightarrow> i < length (lb_DIO lb))"

text \<open>Every pin has a value of its type, with types that the parsers keep.\<close>

definition pin_ok :: "data_pin \<Rightarrow> bool" where
  "pin_ok p = (has_shape (pin_type p) (pin_value p) \<and> default_ok (pin_type p))"

definition block_ok :: "live_block \<Rightarrow> bool" where
  "block_ok lb =
     (list_all pin_ok (map snd (mVarInternals lb)) \<and> list_all pin_ok (lb_DI lb) \<and>
      list_all pin_ok (lb_DO lb) \<and> list_all pin_ok (lb_DIO lb))"

definition objects_ok :: "objects \<Rightarrow> bool" where
  "objects_ok objs \<longleftrightarrow> (\<forall>ns. block_ok (objs ns))"

text \<open>What the look-ups depend on.\<close>

definition layout :: "live_block \<Rightarrow> nat \<times> (StringId \<times> any_shape) list \<times> any_shape list \<times> any_shape list \<times> any_shape list" where
  "layout lb = (lb_addr lb, map (map_prod id pin_type) (mVarInternals lb),
     map pin_type (lb_DI lb), map pin_type (lb_DO lb), map pin_type (lb_DIO lb))"

definition same_layout :: "objects \<Rightarrow> objects \<Rightarrow> bool" where
  "same_layout objs objs' \<longleftrightarrow> (\<forall>ns. layout (objs ns) = layout (objs' ns))"

lemma same_layout_refl [simp]: "same_layout objs objs"
  by (simp add: same_layout_def)

lemma same_layout_trans: "same_layout a b \<Longrightarrow> same_layout b c \<Longrightarrow> same_layout a c"
  by (simp add: same_layout_def)

lemma same_layout_below: "same_layout objs objs' \<Longrightarrow> same_layout (below n objs) (below n objs')"
  by (simp add: same_layout_def below_def)

lemma layout_lengths:
  assumes "layout lb = layout lb'"
  shows "length (mVarInternals lb) = length (mVarInternals lb')" "length (lb_DI lb) = length (lb_DI lb')"
    "length (lb_DO lb) = length (lb_DO lb')" "length (lb_DIO lb) = length (lb_DIO lb')"
    "map fst (mVarInternals lb) = map fst (mVarInternals lb')"
proof -
  have "map fst (map (map_prod id pin_type) (mVarInternals lb)) = map fst (map (map_prod id pin_type) (mVarInternals lb'))"
    using assms by (simp add: layout_def)
  then show "map fst (mVarInternals lb) = map fst (mVarInternals lb')"
    by (simp add: comp_def)
qed (use assms in \<open>auto simp: layout_def dest: map_eq_imp_length_eq\<close>)

lemma layout_slot_type:
  assumes "layout lb = layout lb'" "slot_in s lb"
  shows "pin_type (slot_pin s lb) = pin_type (slot_pin s lb')"
proof (cases s)
  case (Var_Slot i)
  then have "map (map_prod id pin_type) (mVarInternals lb) ! i = map (map_prod id pin_type) (mVarInternals lb') ! i"
    using assms by (simp add: layout_def)
  then show ?thesis
    using assms(2) layout_lengths [OF assms(1)] Var_Slot by (auto simp: slot_in_def prod_eq_iff)
next
  case (DI_Slot i)
  then have "map pin_type (lb_DI lb) ! i = map pin_type (lb_DI lb') ! i"
    using assms by (simp add: layout_def)
  then show ?thesis
    using assms(2) layout_lengths [OF assms(1)] DI_Slot by (simp add: slot_in_def)
next
  case (DO_Slot i)
  then have "map pin_type (lb_DO lb) ! i = map pin_type (lb_DO lb') ! i"
    using assms by (simp add: layout_def)
  then show ?thesis
    using assms(2) layout_lengths [OF assms(1)] DO_Slot by (simp add: slot_in_def)
next
  case (DIO_Slot i)
  then have "map pin_type (lb_DIO lb) ! i = map pin_type (lb_DIO lb') ! i"
    using assms by (simp add: layout_def)
  then show ?thesis
    using assms(2) layout_lengths [OF assms(1)] DIO_Slot by (simp add: slot_in_def)
qed

lemma data_slot_in: "data_slot b lb n = Some s \<Longrightarrow> slot_in s lb"
  by (auto simp: data_slot_def port_slot_def slot_in_def Let_def split: option.splits if_splits)

lemma port_slot_length: "length ps = length qs \<Longrightarrow> port_slot sl i ps = port_slot sl i qs"
  by (simp add: port_slot_def)

lemma data_slot_layout:
  assumes "layout lb = layout lb'"
  shows "data_slot b lb n = data_slot b lb' n"
  unfolding data_slot_def layout_lengths(5) [OF assms] port_slot_length [OF layout_lengths(1) [OF assms]]
    port_slot_length [OF layout_lengths(2) [OF assms]] port_slot_length [OF layout_lengths(3) [OF assms]]
    port_slot_length [OF layout_lengths(4) [OF assms]] ..

lemma getVar_layout: "same_layout objs objs' \<Longrightarrow> getVar rt objs ns c = getVar rt objs' ns c"
proof (induction rt objs ns c arbitrary: objs' rule: getVar.induct)
  case (2 rt objs n ns c)
  have lay: "layout (objs []) = layout (objs' [])"
    using 2(2) by (simp add: same_layout_def)
  show ?case
  proof (cases "case block_of (mKind c) of None \<Rightarrow> None | Some b \<Rightarrow> data_slot b (objs []) n")
    case None
    moreover from this have "(case block_of (mKind c) of None \<Rightarrow> None | Some b \<Rightarrow> data_slot b (objs' []) n) = None"
      by (simp add: data_slot_layout [OF lay] split: option.splits)
    ultimately show ?thesis
      using 2(1) [OF None _ refl refl same_layout_below [OF 2(2)]] by (simp add: Let_def split: option.split)
  next
    case (Some s)
    moreover from this have "(case block_of (mKind c) of None \<Rightarrow> None | Some b \<Rightarrow> data_slot b (objs' []) n) = Some s"
      by (simp add: data_slot_layout [OF lay] split: option.splits)
    moreover have "slot_in s (objs [])"
      using Some by (auto dest: data_slot_in split: option.splits)
    ultimately show ?thesis
      using layout_slot_type [OF lay] by simp
  qed
qed simp

text \<open>A place that was found is a pin of the block with a path into its type.\<close>

definition place_in :: "objects \<Rightarrow> place \<Rightarrow> bool" where
  "place_in objs pl = (case pl of (bs, s, p) \<Rightarrow>
     slot_in s (objs bs) \<and> (\<exists>ns. any_getVar (pin_type (slot_pin s (objs bs))) ns = Some p))"

lemma getVar_place_in: "getVar rt objs ns c = Some pl \<Longrightarrow> place_in objs pl"
proof (induction rt objs ns c arbitrary: pl rule: getVar.induct)
  case (2 rt objs n ns c)
  show ?case
  proof (cases "case block_of (mKind c) of None \<Rightarrow> None | Some b \<Rightarrow> data_slot b (objs []) n")
    case None
    then obtain it bs s p where it: "getChild rt n (mChildren c) = Some it"
        and rec: "getVar rt (below (mContInstanceName (mChildren c ! it)) objs) ns (mChildren c ! it) = Some (bs, s, p)"
        and pl: "pl = (mContInstanceName (mChildren c ! it) # bs, s, p)"
      using 2(2) by (auto simp: Let_def split: option.splits)
    show ?thesis
      using 2(1) [OF None it refl refl rec] by (simp add: pl place_in_def below_def)
  next
    case (Some s)
    then have "slot_in s (objs [])"
      by (auto dest: data_slot_in split: option.splits)
    then show ?thesis
      using Some 2(2) by (auto simp: place_in_def)
  qed
qed simp

lemma slot_pin_ok: "block_ok lb \<Longrightarrow> slot_in s lb \<Longrightarrow> pin_ok (slot_pin s lb)"
  by (cases s) (auto simp: block_ok_def slot_in_def list_all_iff)

lemma slot_pin_put_slot: "slot_in s lb \<Longrightarrow> slot_pin s (put_slot s q lb) = q"
  by (cases s) (simp_all add: slot_in_def)

lemma put_slot_ok: "block_ok lb \<Longrightarrow> pin_ok q \<Longrightarrow> block_ok (put_slot s q lb)"
proof (cases s)
  case (Var_Slot i)
  assume "block_ok lb" "pin_ok q"
  then show ?thesis
    using set_update_subset_insert [of "mVarInternals lb" i] Var_Slot
    by (fastforce simp: block_ok_def list_all_iff)
qed (auto simp: block_ok_def list_all_iff dest!: subsetD [OF set_update_subset_insert])

lemma put_slot_layout:
  assumes "slot_in s lb" "pin_type q = pin_type (slot_pin s lb)"
  shows "layout (put_slot s q lb) = layout lb"
proof (cases s)
  case (Var_Slot i)
  have "map_prod id pin_type (fst (mVarInternals lb ! i), q) = map (map_prod id pin_type) (mVarInternals lb) ! i"
    using assms Var_Slot by (simp add: slot_in_def prod_eq_iff)
  then show ?thesis
    using assms Var_Slot by (simp add: layout_def map_update list_update_same_conv slot_in_def)
qed (use assms in \<open>auto simp: layout_def map_update slot_in_def list_update_same_conv\<close>)


definition value_ok :: "objects \<Rightarrow> place \<Rightarrow> any_state \<Rightarrow> bool" where
  "value_ok objs pl w = (has_shape (place_type objs pl) w \<and> default_ok (place_type objs pl))"

lemma place_pin_ok: "objects_ok objs \<Longrightarrow> place_in objs (bs, s, p) \<Longrightarrow> pin_ok (slot_pin s (objs bs))"
  by (simp add: objects_ok_def place_in_def slot_pin_ok)

lemma place_value_ok: "objects_ok objs \<Longrightarrow> place_in objs pl \<Longrightarrow> value_ok objs pl (place_value objs pl)"
  using place_pin_ok any_getVar_member(1) any_getVar_default
  by (cases pl) (fastforce simp: place_value_def value_ok_def place_type_def pin_ok_def place_in_def)

lemma place_value_put:
  "objects_ok objs \<Longrightarrow> place_in objs pl \<Longrightarrow> place_value (put_value pl w objs) pl = w"
  using place_pin_ok any_getVar_member(2)
  by (cases pl) (fastforce simp: place_value_def put_value_def Let_def slot_pin_put_slot pin_ok_def place_in_def)

lemma put_value_layout: "place_in objs pl \<Longrightarrow> same_layout (put_value pl w objs) objs"
  by (cases pl) (simp add: same_layout_def put_value_def Let_def place_in_def put_slot_layout)

lemma put_value_ok:
  assumes "objects_ok objs" "place_in objs pl" "value_ok objs pl w"
  shows "objects_ok (put_value pl w objs)"
proof -
  obtain bs s p where pl: "pl = (bs, s, p)"
    by (cases pl)
  let ?pin = "slot_pin s (objs bs)"
  have pin: "pin_ok ?pin" and path: "\<exists>ns. any_getVar (pin_type ?pin) ns = Some p"
    using place_pin_ok [OF assms(1)] assms(2) by (auto simp: pl place_in_def)
  then have "pin_ok (?pin\<lparr>pin_value := put_member p w (pin_value ?pin)\<rparr>)"
    using any_getVar_member(3) assms(3) by (auto simp: pin_ok_def value_ok_def place_type_def pl)
  then show ?thesis
    using assms(1) put_slot_ok by (simp add: objects_ok_def put_value_def Let_def pl)
qed

lemma place_type_layout:
  assumes "same_layout objs objs'" "place_in objs pl"
  shows "place_type objs' pl = place_type objs pl"
  using assms layout_slot_type
  by (cases pl) (fastforce simp: place_type_def same_layout_def place_in_def)

section \<open>Values that are found by name\<close>

text \<open>What the commands rely on: a value that is written where a name leads is read back there, and no write
  changes where the names lead or which values fit there.\<close>

locale value_store =
  fixes find :: "'n \<Rightarrow> 's \<Rightarrow> 'p option" and get :: "'s \<Rightarrow> 'p \<Rightarrow> 'v" and put :: "'p \<Rightarrow> 'v \<Rightarrow> 's \<Rightarrow> 's"
    and ok :: "'s \<Rightarrow> bool" and fit :: "'s \<Rightarrow> 'p \<Rightarrow> 'v \<Rightarrow> bool"
  assumes get_fits: "ok s \<Longrightarrow> find n s = Some p \<Longrightarrow> fit s p (get s p)"
    and get_put: "ok s \<Longrightarrow> find n s = Some p \<Longrightarrow> get (put p v s) p = v"
    and find_put: "find n s = Some p \<Longrightarrow> find m (put p v s) = find m s"
    and ok_put: "ok s \<Longrightarrow> find n s = Some p \<Longrightarrow> fit s p v \<Longrightarrow> ok (put p v s)"
    and fit_put: "find n s = Some p \<Longrightarrow> find m s = Some q \<Longrightarrow> fit (put p v s) q w = fit s q w"
begin

definition store :: "('s \<Rightarrow> 'p \<Rightarrow> 'v \<Rightarrow> 'v) \<Rightarrow> 'n \<Rightarrow> 's \<Rightarrow> 's" where
  "store f n s = (case find n s of None \<Rightarrow> s | Some p \<Rightarrow> put p (f s p (get s p)) s)"

lemma store_keeps:
  assumes "ok s" "\<And>p. find n s = Some p \<Longrightarrow> fit s p (f s p (get s p))"
  shows "ok (store f n s)" and "find m (store f n s) = find m s"
  using assms ok_put find_put by (auto simp: store_def split: option.split)

lemma last_store_counts:
  assumes "ok s" "find n s = Some p" "\<And>v. fit s p v \<Longrightarrow> fit s p (f s p v)"
  shows "get (store g n (store f n s)) p = g (store f n s) p (f s p (get s p))"
proof -
  have "ok (put p (f s p (get s p)) s)"
    using ok_put [OF assms(1,2)] assms(3) get_fits [OF assms(1,2)] by simp
  then show ?thesis
    using get_put assms(1,2) find_put [OF assms(2)] by (simp add: store_def)
qed

end

interpretation live: value_store "\<lambda>ns objs. getVar rt objs ns c" place_value put_value objects_ok value_ok
  for rt c
proof unfold_locales
  fix ns ms objs pl q and v w :: any_state
  assume find: "getVar rt objs ns c = Some pl"
  note inside = getVar_place_in [OF find]
  show "value_ok objs pl (place_value objs pl)" if "objects_ok objs"
    using that inside by (rule place_value_ok)
  show "place_value (put_value pl v objs) pl = v" if "objects_ok objs"
    using that inside by (rule place_value_put)
  show "getVar rt (put_value pl v objs) ms c = getVar rt objs ms c"
    using inside by (intro getVar_layout put_value_layout)
  show "objects_ok (put_value pl v objs)" if "objects_ok objs" "value_ok objs pl v"
    using that(1) inside that(2) by (rule put_value_ok)
  assume "getVar rt objs ms c = Some q"
  then have "place_in objs q"
    by (rule getVar_place_in)
  moreover have "same_layout objs (put_value pl v objs)"
    using put_value_layout [OF inside] by (simp add: same_layout_def)
  ultimately show "value_ok (put_value pl v objs) q w = value_ok objs q w"
    using place_type_layout by (simp add: value_ok_def)
qed

end
