(* ===== verification/Monitoring.thy ===== *)
theory Monitoring
imports Live_Values "HOL-Library.List_Lexorder"
begin

text \<open>
  The monitoring of a resource, \<open>core/src/monitoring.h\<close> and \<open>monitoring.cpp\<close>: the list of watched blocks, sorted by
  the address of the block, each with its watched data points and events, sorted by their names; forcing, and
  events that are triggered from outside.

  A watch holds a reference to the value, and the entry of a block a pointer to it, which outlive the block.  In
  the model they are the address of the object together with the names it was found by: the reference is
  good as long as these names lead to an object of that address.  A result \<open>None\<close> is undefined behaviour.
\<close>

section \<open>State\<close>

record CDataWatchEntry =
  dw_port :: TNameIdentifier
  mDataBuffer :: data_pin
  mForced :: bool
  mForceIndex :: nat
  mDataValueRef :: place

record CEventWatchEntry =
  ew_port :: TNameIdentifier
  mEventDataBuf :: "32 word"
  mEventDataRef :: nat

record SFBMonitoringEntry =
  mFullFBName :: string
  me_FB :: nat
  me_names :: TNameIdentifier
  mWatchedDataPoints :: "CDataWatchEntry list"
  mWatchedEventPoints :: "CEventWatchEntry list"

record live_resource = live_values +
  mFBMonitoringList :: "SFBMonitoringEntry list"
  lr_EOCons :: "TNameIdentifier \<Rightarrow> TEventID \<Rightarrow> CEventConnection"

section \<open>The sorted lists\<close>

definition port_key :: "runtime \<Rightarrow> TNameIdentifier \<Rightarrow> nat list" where
  "port_key rt ns = map (id_addr rt) ns"

definition addDataWatch ::
    "runtime \<Rightarrow> CDataWatchEntry \<Rightarrow> CDataWatchEntry list \<Rightarrow> CDataWatchEntry list" where
  "addDataWatch rt w ws =
     (let it = lower_bound (\<lambda>x. port_key rt (dw_port x) < port_key rt (dw_port w)) ws
      in if it \<noteq> length ws \<and> port_key rt (dw_port (ws ! it)) = port_key rt (dw_port w) then ws
         else insert_at it w ws)"

definition removeDataWatch ::
    "runtime \<Rightarrow> TNameIdentifier \<Rightarrow> CDataWatchEntry list \<Rightarrow> bool \<times> CDataWatchEntry list" where
  "removeDataWatch rt port ws =
     (let it = lower_bound (\<lambda>x. port_key rt (dw_port x) < port_key rt port) ws
      in if it \<noteq> length ws \<and> port_key rt (dw_port (ws ! it)) = port_key rt port then (True, erase_at it ws)
         else (False, ws))"

definition addEventWatch ::
    "runtime \<Rightarrow> CEventWatchEntry \<Rightarrow> CEventWatchEntry list \<Rightarrow> CEventWatchEntry list" where
  "addEventWatch rt w ws =
     (let it = lower_bound (\<lambda>x. port_key rt (ew_port x) < port_key rt (ew_port w)) ws
      in if it \<noteq> length ws \<and> port_key rt (ew_port (ws ! it)) = port_key rt (ew_port w) then ws
         else insert_at it w ws)"

definition removeEventWatch ::
    "runtime \<Rightarrow> TNameIdentifier \<Rightarrow> CEventWatchEntry list \<Rightarrow> bool \<times> CEventWatchEntry list" where
  "removeEventWatch rt port ws =
     (let it = lower_bound (\<lambda>x. port_key rt (ew_port x) < port_key rt port) ws
      in if it \<noteq> length ws \<and> port_key rt (ew_port (ws ! it)) = port_key rt port then (True, erase_at it ws)
         else (False, ws))"

definition find_entry :: "nat \<Rightarrow> SFBMonitoringEntry list \<Rightarrow> nat" where
  "find_entry fb es = lower_bound (\<lambda>e. me_FB e < fb) es"

text \<open>The position of the entry that is found or made, and the list with it.\<close>

definition findOrCreateFBMonitoringEntry ::
    "nat \<Rightarrow> TNameIdentifier \<Rightarrow> SFBMonitoringEntry list \<Rightarrow> nat \<times> SFBMonitoringEntry list" where
  "findOrCreateFBMonitoringEntry fb names es =
     (let it = find_entry fb es
      in if it \<noteq> length es \<and> me_FB (es ! it) = fb then (it, es)
         else (it, insert_at it
            \<lparr>mFullFBName = appendIdentifierName names, me_FB = fb, me_names = names,
             mWatchedDataPoints = [], mWatchedEventPoints = []\<rparr> es))"

section \<open>Watches\<close>

definition objects_at :: "TNameIdentifier \<Rightarrow> objects \<Rightarrow> objects" where
  "objects_at bs objs = (\<lambda>ns. objs (bs @ ns))"

text \<open>The block a list of names leads to: its position in the tree, its names, and the names left for the pin.\<close>

definition monitor_getFB ::
    "runtime \<Rightarrow> TNameIdentifier \<Rightarrow> CFBContainer \<Rightarrow> (nat list \<times> TNameIdentifier \<times> TNameIdentifier) option" where
  "monitor_getFB rt ns c =
     map_option (\<lambda>(p, rest). (p, take (length p) ns, drop (length p) ns)) (getFB rt ns c)"

definition node_block :: "CFBContainer \<Rightarrow> CFunctionBlock option" where
  "node_block c = block_of (mKind c)"

definition new_data_watch :: "CFunctionBlock \<Rightarrow> TNameIdentifier \<Rightarrow> place \<Rightarrow> objects \<Rightarrow> CDataWatchEntry" where
  "new_data_watch b port pl objs =
     \<lparr>dw_port = port, mDataBuffer = \<lparr>pin_type = place_type objs pl, pin_value = place_value objs pl\<rparr>,
      mForced = False, mForceIndex = getAbsDataPortNum (hd port) b, mDataValueRef = pl\<rparr>"

definition new_event_watch :: "TNameIdentifier \<Rightarrow> nat \<Rightarrow> CEventWatchEntry" where
  "new_event_watch port i = \<lparr>ew_port = port, mEventDataBuf = 0, mEventDataRef = i\<rparr>"

definition addWatch ::
    "runtime \<Rightarrow> TNameIdentifier \<Rightarrow> 'z live_resource_scheme \<Rightarrow> (EMGMResponse \<times> 'z live_resource_scheme) option" where
  "addWatch rt ns st =
     (let objs = lv_objects st; c = lv_tree st in
      case monitor_getFB rt ns c of
        None \<Rightarrow> Some (NoSuchObject, st)
      | Some (p, fbNames, port) \<Rightarrow>
          (case node_block (node_at p c) of
             None \<Rightarrow> None
           | Some b \<Rightarrow>
               (case findOrCreateFBMonitoringEntry (lb_addr (objs fbNames)) fbNames (mFBMonitoringList st) of
                  (it, es) \<Rightarrow>
                    let e = es ! it; sp = mInterfaceSpec b;
                        add = (\<lambda>i. e\<lparr>mWatchedEventPoints :=
                                 addEventWatch rt (new_event_watch port i) (mWatchedEventPoints e)\<rparr>)
                    in case getVar rt (objects_at fbNames objs) port (node_at p c) of
                         Some (bs, s, q) \<Rightarrow>
                           Some (Ready, st\<lparr>mFBMonitoringList := es[it := e\<lparr>mWatchedDataPoints :=
                             addDataWatch rt (new_data_watch b port (fbNames @ bs, s, q) objs)
                               (mWatchedDataPoints e)\<rparr>]\<rparr>)
                       | None \<Rightarrow>
                           if port = [] then None
                           else if getEIID sp (hd port) \<noteq> cgInvalidEventID
                           then Some (Ready, st\<lparr>mFBMonitoringList := es[it := add (getEIID sp (hd port))]\<rparr>)
                           else if getEOID sp (hd port) \<noteq> cgInvalidEventID
                           then Some (Ready, st\<lparr>mFBMonitoringList :=
                                  es[it := add (getNumEIs sp + getEOID sp (hd port))]\<rparr>)
                           else Some (NoSuchObject, st\<lparr>mFBMonitoringList := es\<rparr>))))"

definition removeWatch ::
    "runtime \<Rightarrow> TNameIdentifier \<Rightarrow> 'z live_resource_scheme \<Rightarrow> EMGMResponse \<times> 'z live_resource_scheme" where
  "removeWatch rt ns st =
     (case monitor_getFB rt ns (lv_tree st) of
        None \<Rightarrow> (NoSuchObject, st)
      | Some (p, fbNames, port) \<Rightarrow>
          let es = mFBMonitoringList st; fb = lb_addr (lv_objects st fbNames); it = find_entry fb es
          in if it \<noteq> length es \<and> me_FB (es ! it) = fb
             then (let e = es ! it;
                       (d, ds) = removeDataWatch rt port (mWatchedDataPoints e);
                       (r, vs) = (if d then (True, mWatchedEventPoints e)
                                  else removeEventWatch rt port (mWatchedEventPoints e))
                   in if r
                      then (Ready, st\<lparr>mFBMonitoringList :=
                              if ds = [] \<and> vs = [] then erase_at it es
                              else es[it := e\<lparr>mWatchedDataPoints := ds, mWatchedEventPoints := vs\<rparr>]\<rparr>)
                      else (NoSuchObject, st))
             else (NoSuchObject, st))"

section \<open>Reading\<close>

text \<open>The object a reference points to; \<open>None\<close> when it has been deleted.\<close>

fun follow_names :: "runtime \<Rightarrow> TNameIdentifier \<Rightarrow> CFBContainer \<Rightarrow> CFBContainer option" where
  "follow_names rt [] c = Some c"
| "follow_names rt (n # ns) c =
     (case getChild rt n (mChildren c) of None \<Rightarrow> None | Some it \<Rightarrow> follow_names rt ns (mChildren c ! it))"

definition deref_FB :: "runtime \<Rightarrow> SFBMonitoringEntry \<Rightarrow> 'z live_values_scheme \<Rightarrow> CFunctionBlock option" where
  "deref_FB rt e st =
     (case follow_names rt (me_names e) (lv_tree st) of
        None \<Rightarrow> None
      | Some x \<Rightarrow> if lb_addr (lv_objects st (me_names e)) = me_FB e then node_block x else None)"

definition data_update ::
    "'z live_values_scheme \<Rightarrow> CFunctionBlock \<Rightarrow> CDataWatchEntry \<Rightarrow> CDataWatchEntry" where
  "data_update st b w =
     w\<lparr>mDataBuffer := (mDataBuffer w)\<lparr>pin_value := place_value (lv_objects st) (mDataValueRef w)\<rparr>,
       mForced := isForced (mForceIndex w) b\<rparr>"

definition event_update :: "CFunctionBlock \<Rightarrow> CEventWatchEntry \<Rightarrow> CEventWatchEntry" where
  "event_update b w = w\<lparr>mEventDataBuf := mEventMonitorCount b ! mEventDataRef w\<rparr>"

definition update_entry :: "runtime \<Rightarrow> 'z live_values_scheme \<Rightarrow> SFBMonitoringEntry \<Rightarrow> SFBMonitoringEntry option" where
  "update_entry rt st e =
     (if mWatchedDataPoints e = [] \<and> mWatchedEventPoints e = [] then Some e
      else map_option (\<lambda>b. e\<lparr>mWatchedDataPoints := map (data_update st b) (mWatchedDataPoints e),
              mWatchedEventPoints := map (event_update b) (mWatchedEventPoints e)\<rparr>)
             (deref_FB rt e st))"

fun update_all :: "('e \<Rightarrow> 'e option) \<Rightarrow> 'e list \<Rightarrow> 'e list option" where
  "update_all f [] = Some []"
| "update_all f (e # es) =
     (case f e of None \<Rightarrow> None | Some e \<Rightarrow> map_option ((#) e) (update_all f es))"

definition updateMonitoringData ::
    "runtime \<Rightarrow> 'z live_resource_scheme \<Rightarrow> 'z live_resource_scheme option" where
  "updateMonitoringData rt st =
     map_option (\<lambda>es. st\<lparr>mFBMonitoringList := es\<rparr>) (update_all (update_entry rt st) (mFBMonitoringList st))"

abbreviation quoted :: "string \<Rightarrow> string" where
  "quoted s \<equiv> [quote_char] @ s @ [quote_char]"

definition port_tag :: "TNameIdentifier \<Rightarrow> string" where
  "port_tag port = ''<Port name='' @ quoted (appendIdentifierName port) @ ''>''"

definition bool_text :: "bool \<Rightarrow> string" where
  "bool_text b = (if b then ''true'' else ''false'')"

text \<open>The texts that are appended to the response; the escaping starts at the value.  \<open>std::to_string\<close> of a
  count gives the same digits as \<open>toString\<close> of a UDINT.\<close>

fun watch_escaped_type :: "any_shape \<Rightarrow> bool" where
  "watch_escaped_type (Simple t) = (t \<in> {e_ANY, e_WSTRING, e_STRING, e_CHAR, e_WCHAR})"
| "watch_escaped_type ty = True"

definition appendDataWatch :: "string \<Rightarrow> CDataWatchEntry \<Rightarrow> string" where
  "appendDataWatch r w =
     (let r = r @ port_tag (dw_port w) @ ''<Data value='' @ [quote_char];
          start = length r;
          ty = pin_type (mDataBuffer w);
          r = r @ any_toString ty (pin_value (mDataBuffer w));
          r = (if start \<noteq> length r \<and> watch_escaped_type ty
               then transformNonEscapedToEscapedXMLText r start else r)
      in r @ [quote_char] @ '' forced='' @ quoted (bool_text (mForced w)) @ ''/></Port>'')"

definition appendEventWatch :: "string \<Rightarrow> CEventWatchEntry \<Rightarrow> string" where
  "appendEventWatch r w =
     r @ port_tag (ew_port w) @ ''<Data value='' @ quoted (toString_elem e_UDINT (ucast (mEventDataBuf w))) @
     ''/>'' @ [CHR 0x0A] @ ''</Port>''"

definition appendEntry :: "string \<Rightarrow> SFBMonitoringEntry \<Rightarrow> string" where
  "appendEntry r e =
     (let r = r @ ''<FB name='' @ quoted (mFullFBName e) @ ''>'';
          r = foldl appendDataWatch r (mWatchedDataPoints e);
          r = foldl appendEventWatch r (mWatchedEventPoints e)
      in r @ ''</FB>'')"

definition readResourceWatches ::
    "runtime \<Rightarrow> string \<Rightarrow> 'z live_resource_scheme \<Rightarrow> (string \<times> 'z live_resource_scheme) option" where
  "readResourceWatches rt r st =
     (if mFBMonitoringList st = [] then Some (r, st)
      else (case updateMonitoringData rt st of
              None \<Rightarrow> None
            | Some st \<Rightarrow>
                Some (foldl appendEntry
                        (r @ ''<Resource name='' @ quoted (id_text (mContInstanceName (lv_tree st))) @ ''>'')
                        (mFBMonitoringList st) @ ''</Resource>'', st)))"

text \<open>\<open>readWatches\<close> of a device, which goes through its resources, and of a resource.\<close>

fun device_readWatches ::
    "runtime \<Rightarrow> string \<Rightarrow> 'z live_resource_scheme list \<Rightarrow> (string \<times> 'z live_resource_scheme list) option" where
  "device_readWatches rt r [] = Some (r, [])"
| "device_readWatches rt r (st # sts) =
     (case readResourceWatches rt r st of
        None \<Rightarrow> None
      | Some (r, st) \<Rightarrow> map_option (map_prod id ((#) st)) (device_readWatches rt r sts))"

definition readWatches ::
    "runtime \<Rightarrow> 'z live_resource_scheme \<Rightarrow> (EMGMResponse \<times> string \<times> 'z live_resource_scheme) option" where
  "readWatches rt st = map_option (\<lambda>(r, st). (Ready, r, st)) (readResourceWatches rt [] st)"

section \<open>Events\<close>

definition clearForce ::
    "runtime \<Rightarrow> TNameIdentifier \<Rightarrow> 'z live_values_scheme \<Rightarrow> EMGMResponse \<times> 'z live_values_scheme" where
  "clearForce rt ns st =
     (case setForced_names rt ns False (lv_tree st) (lv_objects st) of
        (ok, c, objs) \<Rightarrow> (if ok then Ready else NoSuchObject, st\<lparr>lv_tree := c, lv_objects := objs\<rparr>))"

text \<open>The thread of the resource; a device has none.\<close>

definition resource_ecet :: "CFBContainer \<Rightarrow> ecet option" where
  "resource_ecet c = (case mKind c of Resource b t \<Rightarrow> t | _ \<Rightarrow> None)"

definition put_ecet :: "ecet \<Rightarrow> CFBContainer \<Rightarrow> CFBContainer" where
  "put_ecet t c =
     (case mKind c of
        Resource b _ \<Rightarrow> CFBContainer (mContInstanceName c) (Resource b (Some t)) (mChildren c)
      | _ \<Rightarrow> c)"

definition is_resource :: "CFBContainer \<Rightarrow> bool" where
  "is_resource c = (case mKind c of Resource b t \<Rightarrow> True | _ \<Rightarrow> False)"

text \<open>\<open>sendOutputEvent\<close> of a block of the tree; \<open>writeOutput\<close> is \<open>writeOutputData\<close> of the block's class.  A
  resource has no connections for its output events: the code follows a null pointer.\<close>

definition block_sendOutputEvent ::
    "(TNameIdentifier \<Rightarrow> TEventID \<Rightarrow> live_block \<Rightarrow> live_block) \<Rightarrow> nat list \<Rightarrow> TNameIdentifier \<Rightarrow> TEventID \<Rightarrow>
     'z live_resource_scheme \<Rightarrow> 'z live_resource_scheme option" where
  "block_sendOutputEvent writeOutput p fbNames eo st =
     (let x = node_at p (lv_tree st) in
      case node_block x of
        None \<Rightarrow> None
      | Some b \<Rightarrow>
          let numEOs = getNumEOs (mInterfaceSpec b) in
          if eo < numEOs
          then (if is_resource x then None else
                let objs = (lv_objects st)(fbNames := writeOutput fbNames eo (lv_objects st fbNames));
                    t = triggerEvent (lr_EOCons st fbNames eo) (resource_ecet (lv_tree st));
                    c = set_node_at p
                          (put_block (count_event (length (mEventMonitorCount b) - numEOs + eo) b) x) (lv_tree st)
                in Some (st\<lparr>lv_objects := objs, lv_tree := (case t of None \<Rightarrow> c | Some t \<Rightarrow> put_ecet t c)\<rparr>))
          else Some st)"

text \<open>The names that are left over when the block has been found are not looked at.\<close>

definition triggerEvent_command ::
    "(TNameIdentifier \<Rightarrow> TEventID \<Rightarrow> live_block \<Rightarrow> live_block) \<Rightarrow> runtime \<Rightarrow> TNameIdentifier \<Rightarrow>
     'z live_resource_scheme \<Rightarrow> (EMGMResponse \<times> 'z live_resource_scheme) option" where
  "triggerEvent_command writeOutput rt ns st =
     (if ns = [] then None
      else case monitor_getFB rt (butlast ns) (lv_tree st) of
             None \<Rightarrow> Some (NoSuchObject, st)
           | Some (p, fbNames, rest) \<Rightarrow>
               (case node_block (node_at p (lv_tree st)) of
                  None \<Rightarrow> None
                | Some b \<Rightarrow>
                    let sp = mInterfaceSpec b; n = last ns in
                    if getEIID sp n \<noteq> cgInvalidEventID
                    then (case resource_ecet (lv_tree st) of
                            None \<Rightarrow> None
                          | Some t \<Rightarrow>
                              Some (Ready, st\<lparr>lv_tree := put_ecet
                                (startEventChain
                                   \<lparr>mFB = lb_addr (lv_objects st fbNames), mPortId = getEIID sp n\<rparr> t)
                                (lv_tree st)\<rparr>))
                    else if getEOID sp n \<noteq> cgInvalidEventID
                    then (case block_sendOutputEvent writeOutput p fbNames (getEOID sp n) st of
                            None \<Rightarrow> None
                          | Some st \<Rightarrow>
                              (case resource_ecet (lv_tree st) of
                                 None \<Rightarrow> None
                               | Some t \<Rightarrow>
                                   Some (Ready, st\<lparr>lv_tree := put_ecet (resumeSelfSuspend t) (lv_tree st)\<rparr>)))
                    else Some (NoSuchObject, st)))"

definition reset_count :: "nat \<Rightarrow> CFunctionBlock \<Rightarrow> CFunctionBlock" where
  "reset_count i b = b\<lparr>mEventMonitorCount := (mEventMonitorCount b)[i := 0]\<rparr>"

definition resetEventCount ::
    "runtime \<Rightarrow> TNameIdentifier \<Rightarrow> 'z live_values_scheme \<Rightarrow> (EMGMResponse \<times> 'z live_values_scheme) option" where
  "resetEventCount rt ns st =
     (if ns = [] then None
      else case monitor_getFB rt (butlast ns) (lv_tree st) of
             None \<Rightarrow> Some (NoSuchObject, st)
           | Some (p, fbNames, rest) \<Rightarrow>
               (let x = node_at p (lv_tree st) in
                case node_block x of
                  None \<Rightarrow> None
                | Some b \<Rightarrow>
                    let sp = mInterfaceSpec b; n = last ns;
                        reset = (\<lambda>i. st\<lparr>lv_tree := set_node_at p (put_block (reset_count i b) x) (lv_tree st)\<rparr>)
                    in if getEIID sp n \<noteq> cgInvalidEventID then Some (Ready, reset (getEIID sp n))
                       else if getEOID sp n \<noteq> cgInvalidEventID
                       then Some (Ready, reset (getNumEIs sp + getEOID sp n))
                       else Some (NoSuchObject, st)))"

section \<open>The command\<close>

definition with_cmd :: "SManagementCMD \<Rightarrow> EMGMResponse \<times> 's \<Rightarrow> EMGMResponse \<times> SManagementCMD \<times> 's" where
  "with_cmd cmd x = (fst x, cmd, snd x)"

definition executeMonitoringCommand ::
    "(TNameIdentifier \<Rightarrow> TEventID \<Rightarrow> live_block \<Rightarrow> live_block) \<Rightarrow> runtime \<Rightarrow> SManagementCMD \<Rightarrow>
     'z live_resource_scheme \<Rightarrow> (EMGMResponse \<times> SManagementCMD \<times> 'z live_resource_scheme) option" where
  "executeMonitoringCommand writeOutput rt cmd st =
     (let ns = mFirstParam cmd; popped = cmd\<lparr>mFirstParam := butlast ns\<rparr> in
      case mCMD cmd of
        MonitoringAddWatch \<Rightarrow> map_option (with_cmd cmd) (addWatch rt ns st)
      | MonitoringRemoveWatch \<Rightarrow> Some (with_cmd cmd (removeWatch rt ns st))
      | MonitoringReadWatches \<Rightarrow>
          map_option (\<lambda>(r, text, st). (r, cmd\<lparr>mMonitorResponse := text\<rparr>, st)) (readWatches rt st)
      | MonitoringForce \<Rightarrow> map_option (with_cmd cmd) (writeValue rt ns (mAdditionalParams cmd) True st)
      | MonitoringClearForce \<Rightarrow> Some (with_cmd cmd (clearForce rt ns st))
      | MonitoringTriggerEvent \<Rightarrow> map_option (with_cmd popped) (triggerEvent_command writeOutput rt ns st)
      | MonitoringResetEventCount \<Rightarrow> map_option (with_cmd popped) (resetEventCount rt ns st)
      | _ \<Rightarrow> Some (UnsupportedCmd, cmd, st))"

section \<open>Watches of one kind\<close>

text \<open>The watches of one kind of a block are a vector sorted by the names of the port: adding keeps a watch that is
  there, removing takes the watch of the port out and says whether there was one.\<close>

locale watch_vector =
  fixes port :: "'w \<Rightarrow> TNameIdentifier" and key :: "TNameIdentifier \<Rightarrow> 'k :: linorder"
    and add :: "'w \<Rightarrow> 'w list \<Rightarrow> 'w list" and remove :: "TNameIdentifier \<Rightarrow> 'w list \<Rightarrow> bool \<times> 'w list"
  assumes add_keeps: "keys_sorted (\<lambda>w. key (port w)) ws \<Longrightarrow> keys_sorted (\<lambda>w. key (port w)) (add w ws)"
    and add_set: "keys_sorted (\<lambda>w. key (port w)) ws \<Longrightarrow>
      set (add w ws) = (if key (port w) \<in> (\<lambda>w. key (port w)) ` set ws then set ws else insert w (set ws))"
    and remove_keeps: "keys_sorted (\<lambda>w. key (port w)) ws \<Longrightarrow> keys_sorted (\<lambda>w. key (port w)) (snd (remove n ws))"
    and remove_found: "keys_sorted (\<lambda>w. key (port w)) ws \<Longrightarrow> fst (remove n ws) \<longleftrightarrow> key n \<in> (\<lambda>w. key (port w)) ` set ws"
    and remove_set: "keys_sorted (\<lambda>w. key (port w)) ws \<Longrightarrow> set (snd (remove n ws)) = {w \<in> set ws. key (port w) \<noteq> key n}"
begin

lemma add_ports:
  assumes "inj key" "keys_sorted (\<lambda>w. key (port w)) ws"
  shows "port ` set (add w ws) = insert (port w) (port ` set ws)"
proof -
  have "key (port w) \<in> (\<lambda>w. key (port w)) ` set ws \<longleftrightarrow> port w \<in> port ` set ws"
    using assms(1) by (auto simp: inj_eq)
  then show ?thesis
    unfolding add_set [OF assms(2)] by auto
qed

lemma remove_ports:
  assumes "inj key" "keys_sorted (\<lambda>w. key (port w)) ws"
  shows "port ` set (snd (remove n ws)) = port ` set ws - {n}"
    and "fst (remove n ws) \<longleftrightarrow> n \<in> port ` set ws"
  using assms(1) by (auto simp: remove_set [OF assms(2)] remove_found [OF assms(2)] inj_eq)

lemma remove_absent:
  assumes "inj key" "keys_sorted (\<lambda>w. key (port w)) ws" "\<not> fst (remove n ws)"
  shows "set (snd (remove n ws)) = set ws"
  using assms by (auto simp: remove_set remove_found image_iff)

end

lemma addDataWatch_sorted: "addDataWatch rt w ws = sorted_add (\<lambda>w. port_key rt (dw_port w)) w ws"
  by (simp add: addDataWatch_def sorted_add_def)

lemma removeDataWatch_sorted:
  "removeDataWatch rt n ws = sorted_remove (\<lambda>w. port_key rt (dw_port w)) (port_key rt n) ws"
  by (simp add: removeDataWatch_def sorted_remove_def)

lemma addEventWatch_sorted: "addEventWatch rt w ws = sorted_add (\<lambda>w. port_key rt (ew_port w)) w ws"
  by (simp add: addEventWatch_def sorted_add_def)

lemma removeEventWatch_sorted:
  "removeEventWatch rt n ws = sorted_remove (\<lambda>w. port_key rt (ew_port w)) (port_key rt n) ws"
  by (simp add: removeEventWatch_def sorted_remove_def)

interpretation data: watch_vector dw_port "port_key rt" "addDataWatch rt" "removeDataWatch rt" for rt
  by unfold_locales
    (auto simp: addDataWatch_sorted removeDataWatch_sorted sorted_add_laws sorted_remove_laws)

interpretation events: watch_vector ew_port "port_key rt" "addEventWatch rt" "removeEventWatch rt" for rt
  by unfold_locales
    (auto simp: addEventWatch_sorted removeEventWatch_sorted sorted_add_laws sorted_remove_laws)

lemma port_key_inj: "runtime_ok rt \<Longrightarrow> inj (port_key rt)"
  by (auto intro!: injI simp: port_key_def inj_map_eq_map id_addr_eq inj_def)

end
