(* ===== verification/Watch_Lists.thy ===== *)
theory Watch_Lists
imports Monitoring
begin

text \<open>
  What the lists of watches of \<open>Monitoring\<close> implement: a set of watched blocks, a set of watched data points and a
  set of watched events, all named by the address of a block and the names of the port.
\<close>

section \<open>The abstract watches\<close>

definition entry_ok :: "runtime \<Rightarrow> SFBMonitoringEntry \<Rightarrow> bool" where
  "entry_ok rt e =
     (keys_sorted (\<lambda>w. port_key rt (dw_port w)) (mWatchedDataPoints e) \<and>
      keys_sorted (\<lambda>w. port_key rt (ew_port w)) (mWatchedEventPoints e))"

definition monitor_ok :: "runtime \<Rightarrow> SFBMonitoringEntry list \<Rightarrow> bool" where
  "monitor_ok rt es \<longleftrightarrow> keys_sorted me_FB es \<and> (\<forall>e\<in>set es. entry_ok rt e)"

definition data_ports :: "SFBMonitoringEntry \<Rightarrow> TNameIdentifier set" where
  "data_ports e = dw_port ` set (mWatchedDataPoints e)"

definition event_ports :: "SFBMonitoringEntry \<Rightarrow> TNameIdentifier set" where
  "event_ports e = ew_port ` set (mWatchedEventPoints e)"

definition ports_in :: "('e \<Rightarrow> nat) \<Rightarrow> ('e \<Rightarrow> 'p set) \<Rightarrow> 'e list \<Rightarrow> (nat \<times> 'p) set" where
  "ports_in fb pts es = {(fb e, p) | e p. e \<in> set es \<and> p \<in> pts e}"

type_synonym watches = "nat set \<times> (nat \<times> TNameIdentifier) set \<times> (nat \<times> TNameIdentifier) set"

definition watches :: "SFBMonitoringEntry list \<Rightarrow> watches" where
  "watches es = (me_FB ` set es, ports_in me_FB data_ports es, ports_in me_FB event_ports es)"

datatype watch_kind = Data_Point | Event_Point

text \<open>What a list of names means: a block, the names of a port, and what the port is.\<close>

definition watch_point ::
    "runtime \<Rightarrow> TNameIdentifier \<Rightarrow> 'z live_values_scheme \<Rightarrow> (nat \<times> TNameIdentifier \<times> watch_kind option) option" where
  "watch_point rt ns st =
     (case monitor_getFB rt ns (lv_tree st) of
        None \<Rightarrow> None
      | Some (p, fbNames, port) \<Rightarrow>
          let x = node_at p (lv_tree st)
          in Some (lb_addr (lv_objects st fbNames), port,
               if getVar rt (objects_at fbNames (lv_objects st)) port x \<noteq> None then Some Data_Point
               else case node_block x of
                      None \<Rightarrow> None
                    | Some b \<Rightarrow>
                        if port \<noteq> [] \<and> (getEIID (mInterfaceSpec b) (hd port) \<noteq> cgInvalidEventID \<or>
                             getEOID (mInterfaceSpec b) (hd port) \<noteq> cgInvalidEventID)
                        then Some Event_Point else None))"

text \<open>A block is watched from the first attempt on, even one that fails, until the last of its watches goes.\<close>

fun spec_add :: "(nat \<times> TNameIdentifier \<times> watch_kind option) option \<Rightarrow> watches \<Rightarrow> EMGMResponse \<times> watches" where
  "spec_add None W = (NoSuchObject, W)"
| "spec_add (Some (a, q, None)) (B, D, E) = (NoSuchObject, insert a B, D, E)"
| "spec_add (Some (a, q, Some Data_Point)) (B, D, E) = (Ready, insert a B, insert (a, q) D, E)"
| "spec_add (Some (a, q, Some Event_Point)) (B, D, E) = (Ready, insert a B, D, insert (a, q) E)"

fun spec_remove :: "(nat \<times> TNameIdentifier \<times> watch_kind option) option \<Rightarrow> watches \<Rightarrow> EMGMResponse \<times> watches" where
  "spec_remove None W = (NoSuchObject, W)"
| "spec_remove (Some (a, q, k)) (B, D, E) =
     (if (a, q) \<in> D \<union> E
      then let D' = D - {(a, q)}; E' = (if (a, q) \<in> D then E else E - {(a, q)})
           in (Ready, if a \<in> fst ` D' \<union> fst ` E' then B else B - {a}, D', E')
      else (NoSuchObject, B, D, E))"

section \<open>Lists of entries\<close>

lemma ports_in_insert: "pts e = {} \<Longrightarrow> ports_in fb pts (insert_at i e es) = ports_in fb pts es"
  by (auto simp: ports_in_def)

lemma ports_in_update:
  assumes "keys_sorted fb es" "it < length es" "fb e = fb (es ! it)"
  shows "ports_in fb pts (es[it := e]) = {x \<in> ports_in fb pts es. fst x \<noteq> fb e} \<union> {fb e} \<times> pts e"
proof -
  have d: "distinct (map fb es)"
    using assms(1) by (rule keys_sorted_distinct_keys)
  then have "distinct es"
    by (simp add: distinct_map)
  then have "set (es[it := e]) = insert e (set es - {es ! it})"
    using assms(2) by (rule set_update_distinct)
  moreover have "e' = es ! it" if "e' \<in> set es" "fb e' = fb (es ! it)" for e'
    using d that assms(2) by (metis distinct_map inj_onD nth_mem)
  ultimately show ?thesis
    using assms(3) by (auto simp: ports_in_def) metis
qed

lemma ports_in_erase:
  assumes "keys_sorted fb es" "it < length es"
  shows "ports_in fb pts (erase_at it es) = {x \<in> ports_in fb pts es. fst x \<noteq> fb (es ! it)}"
  unfolding ports_in_def set_erase_distinct [OF keys_sorted_distinct_keys [OF assms(1)] assms(2)] by auto

lemma ports_in_nth:
  assumes "keys_sorted fb es" "it < length es"
  shows "(fb (es ! it), p) \<in> ports_in fb pts es \<longleftrightarrow> p \<in> pts (es ! it)"
proof -
  have "e' = es ! it" if "e' \<in> set es" "fb e' = fb (es ! it)" for e'
    using keys_sorted_distinct_keys [OF assms(1)] that assms(2) by (metis distinct_map inj_onD nth_mem)
  then show ?thesis
    using assms(2) unfolding ports_in_def by auto
qed

lemma keys_sorted_same: "keys_sorted f es \<Longrightarrow> f e = f (es ! it) \<Longrightarrow> keys_sorted f (es[it := e])"
  by (metis list_update_id map_update)

lemma monitor_ok_update:
  assumes "monitor_ok rt es" "it < length es" "me_FB e = me_FB (es ! it)" "entry_ok rt e"
  shows "monitor_ok rt (es[it := e])"
  using assms keys_sorted_same [of me_FB es e it]
  by (auto simp: monitor_ok_def dest!: subsetD [OF set_update_subset_insert])

lemma monitor_ok_erase: "monitor_ok rt es \<Longrightarrow> monitor_ok rt (erase_at it es)"
  using set_erase_at by (fastforce simp: monitor_ok_def erase_keys_sorted)

lemma entry_ok_nth: "monitor_ok rt es \<Longrightarrow> it < length es \<Longrightarrow> entry_ok rt (es ! it)"
  by (simp add: monitor_ok_def)

lemma find_entry_found:
  assumes "monitor_ok rt es"
  shows "find_entry fb es \<noteq> length es \<and> me_FB (es ! find_entry fb es) = fb \<longleftrightarrow> fb \<in> me_FB ` set es"
  using assms unfolding find_entry_def by (intro lower_bound_iff) (simp add: monitor_ok_def)

lemma find_entry_less: "find_entry fb es \<noteq> length es \<Longrightarrow> find_entry fb es < length es"
  using lower_bound_le [of "\<lambda>e. me_FB e < fb" es] by (simp add: find_entry_def)

lemma findOrCreate_laws:
  assumes "monitor_ok rt es" "findOrCreateFBMonitoringEntry fb names es = (it, es')"
  shows "monitor_ok rt es'" "it < length es'" "me_FB (es' ! it) = fb"
    "watches es' = (insert fb (me_FB ` set es), snd (watches es))"
proof -
  define e where "e = \<lparr>mFullFBName = appendIdentifierName names, me_FB = fb, me_names = names,
             mWatchedDataPoints = [], mWatchedEventPoints = []\<rparr>"
  have e: "me_FB e = fb" "data_ports e = {}" "event_ports e = {}" "entry_ok rt e"
    by (simp_all add: e_def data_ports_def event_ports_def entry_ok_def)
  have le: "find_entry fb es \<le> length es"
    by (simp add: find_entry_def lower_bound_le)
  have it: "it = find_entry fb es"
    using assms(2) by (auto simp: findOrCreateFBMonitoringEntry_def Let_def split: if_splits)
  have "monitor_ok rt es' \<and> it < length es' \<and> me_FB (es' ! it) = fb \<and>
    watches es' = (insert fb (me_FB ` set es), snd (watches es))"
  proof (cases "fb \<in> me_FB ` set es")
    case True
    then have "es' = es" "it \<noteq> length es" "me_FB (es ! it) = fb"
      using assms(2) find_entry_found [OF assms(1), of fb]
      by (auto simp: findOrCreateFBMonitoringEntry_def Let_def it)
    then show ?thesis
      using assms(1) True find_entry_less [of fb es] by (simp add: watches_def insert_absorb it)
  next
    case False
    then have es': "es' = insert_at it e es"
      using assms(2) find_entry_found [OF assms(1), of fb]
      by (auto simp: findOrCreateFBMonitoringEntry_def Let_def e_def split: if_splits)
    have "keys_sorted me_FB es'"
      using insert_keys_sorted [of me_FB es e] assms(1) False
      by (simp add: es' it find_entry_def e(1) monitor_ok_def)
    then show ?thesis
      using assms(1) le e by (auto simp: es' it monitor_ok_def watches_def ports_in_insert)
  qed
  then show "monitor_ok rt es'" "it < length es'" "me_FB (es' ! it) = fb"
    "watches es' = (insert fb (me_FB ` set es), snd (watches es))"
    by auto
qed

section \<open>Adding\<close>

lemma watches_update:
  assumes "monitor_ok rt es" "it < length es" "me_FB e = me_FB (es ! it)"
  shows "watches (es[it := e]) =
    (me_FB ` set es,
     {x \<in> ports_in me_FB data_ports es. fst x \<noteq> me_FB e} \<union> {me_FB e} \<times> data_ports e,
     {x \<in> ports_in me_FB event_ports es. fst x \<noteq> me_FB e} \<union> {me_FB e} \<times> event_ports e)"
proof -
  have "me_FB ` set (es[it := e]) = me_FB ` set es"
    using assms(2,3) by (metis list.set_map list_update_id map_update)
  then show ?thesis
    using assms ports_in_update [of me_FB es it e data_ports] ports_in_update [of me_FB es it e event_ports]
    by (simp add: watches_def monitor_ok_def)
qed

lemma same_ports:
  assumes "monitor_ok rt es" "it < length es"
  shows "{x \<in> ports_in me_FB pts es. fst x \<noteq> me_FB (es ! it)} \<union> {me_FB (es ! it)} \<times> pts (es ! it) =
    ports_in me_FB pts es"
  using ports_in_nth [of me_FB es it _ pts] assms by (auto simp: monitor_ok_def)

lemma add_data_watch:
  fixes w :: CDataWatchEntry
  assumes "runtime_ok rt" "monitor_ok rt es" "it < length es"
  defines "e \<equiv> (es ! it)\<lparr>mWatchedDataPoints := addDataWatch rt w (mWatchedDataPoints (es ! it))\<rparr>"
  shows "monitor_ok rt (es[it := e])"
    and "watches (es[it := e]) =
      (me_FB ` set es, insert (me_FB (es ! it), dw_port w) (ports_in me_FB data_ports es), ports_in me_FB event_ports es)"
proof -
  note ok = entry_ok_nth [OF assms(2,3)]
  have "entry_ok rt e"
    using ok data.add_keeps by (simp add: e_def entry_ok_def)
  then show "monitor_ok rt (es[it := e])"
    using assms(2,3) by (intro monitor_ok_update) (simp_all add: e_def)
  have "data_ports e = insert (dw_port w) (data_ports (es ! it))" "event_ports e = event_ports (es ! it)"
    using data.add_ports [OF port_key_inj [OF assms(1)]] ok
    by (simp_all add: e_def entry_ok_def data_ports_def event_ports_def)
  moreover have "me_FB e = me_FB (es ! it)"
    by (simp add: e_def)
  ultimately show "watches (es[it := e]) =
      (me_FB ` set es, insert (me_FB (es ! it), dw_port w) (ports_in me_FB data_ports es), ports_in me_FB event_ports es)"
    using watches_update [OF assms(2,3), of e] same_ports [OF assms(2,3), of data_ports]
      same_ports [OF assms(2,3), of event_ports] by simp
qed

lemma add_event_watch:
  fixes w :: CEventWatchEntry
  assumes "runtime_ok rt" "monitor_ok rt es" "it < length es"
  defines "e \<equiv> (es ! it)\<lparr>mWatchedEventPoints := addEventWatch rt w (mWatchedEventPoints (es ! it))\<rparr>"
  shows "monitor_ok rt (es[it := e])"
    and "watches (es[it := e]) =
      (me_FB ` set es, ports_in me_FB data_ports es, insert (me_FB (es ! it), ew_port w) (ports_in me_FB event_ports es))"
proof -
  note ok = entry_ok_nth [OF assms(2,3)]
  have "entry_ok rt e"
    using ok events.add_keeps by (simp add: e_def entry_ok_def)
  then show "monitor_ok rt (es[it := e])"
    using assms(2,3) by (intro monitor_ok_update) (simp_all add: e_def)
  have "event_ports e = insert (ew_port w) (event_ports (es ! it))" "data_ports e = data_ports (es ! it)"
    using events.add_ports [OF port_key_inj [OF assms(1)]] ok
    by (simp_all add: e_def entry_ok_def data_ports_def event_ports_def)
  moreover have "me_FB e = me_FB (es ! it)"
    by (simp add: e_def)
  ultimately show "watches (es[it := e]) =
      (me_FB ` set es, ports_in me_FB data_ports es, insert (me_FB (es ! it), ew_port w) (ports_in me_FB event_ports es))"
    using watches_update [OF assms(2,3), of e] same_ports [OF assms(2,3), of data_ports]
      same_ports [OF assms(2,3), of event_ports] by simp
qed


lemma addWatch_refines:
  assumes "runtime_ok rt" "monitor_ok rt (mFBMonitoringList st)" "addWatch rt ns st = Some (r, st')"
  shows "monitor_ok rt (mFBMonitoringList st') \<and> st' = st\<lparr>mFBMonitoringList := mFBMonitoringList st'\<rparr> \<and>
    (r, watches (mFBMonitoringList st')) = spec_add (watch_point rt ns st) (watches (mFBMonitoringList st))"
proof (cases "monitor_getFB rt ns (lv_tree st)")
  case None
  then show ?thesis
    using assms by (simp add: addWatch_def watch_point_def)
next
  case (Some x)
  obtain p fbNames port where x: "x = (p, fbNames, port)"
    by (cases x)
  obtain b where b: "node_block (node_at p (lv_tree st)) = Some b"
    using assms(3) Some by (auto simp: addWatch_def x Let_def split: option.splits)
  obtain it es where found: "findOrCreateFBMonitoringEntry (lb_addr (lv_objects st fbNames)) fbNames
      (mFBMonitoringList st) = (it, es)"
    by fastforce
  note laws = findOrCreate_laws [OF assms(2) found]
  note data = add_data_watch [OF assms(1) laws(1,2)] and events = add_event_watch [OF assms(1) laws(1,2)]
  define sp where "sp = mInterfaceSpec b"
  define fb where "fb = lb_addr (lv_objects st fbNames)"
  define pl where "pl = getVar rt (objects_at fbNames (lv_objects st)) port (node_at p (lv_tree st))"
  have point: "watch_point rt ns st = Some (fb, port,
      if pl \<noteq> None then Some Data_Point
      else if port \<noteq> [] \<and> (getEIID sp (hd port) \<noteq> cgInvalidEventID \<or> getEOID sp (hd port) \<noteq> cgInvalidEventID)
      then Some Event_Point else None)"
    by (simp add: watch_point_def Some x b pl_def sp_def fb_def)
  have es: "me_FB ` set es = insert (lb_addr (lv_objects st fbNames)) (me_FB ` set (mFBMonitoringList st))"
      "ports_in me_FB data_ports es = ports_in me_FB data_ports (mFBMonitoringList st)"
      "ports_in me_FB event_ports es = ports_in me_FB event_ports (mFBMonitoringList st)"
    using laws(4) by (simp_all add: watches_def)
  show ?thesis
  proof (cases pl)
    case (Some y)
    then obtain bs sl q where y: "pl = Some (bs, sl, q)"
      by (cases y) auto
    have "r = Ready \<and> st' = st\<lparr>mFBMonitoringList := es[it := (es ! it)\<lparr>mWatchedDataPoints := addDataWatch rt
        (new_data_watch b port (fbNames @ bs, sl, q) (lv_objects st)) (mWatchedDataPoints (es ! it))\<rparr>]\<rparr>"
      using assms(3) y unfolding pl_def by (simp add: addWatch_def \<open>monitor_getFB rt ns (lv_tree st) = Some x\<close> x b found Let_def)
    then show ?thesis
      using point data [of "new_data_watch b port (fbNames @ bs, sl, q) (lv_objects st)"] es laws(3) y
      by (simp add: watches_def new_data_watch_def fb_def)
  next
    case None
    define add where "add i = st\<lparr>mFBMonitoringList := es[it := (es ! it)\<lparr>mWatchedEventPoints :=
        addEventWatch rt (new_event_watch port i) (mWatchedEventPoints (es ! it))\<rparr>]\<rparr>" for i
    have run: "(if port = [] then None
      else if getEIID sp (hd port) \<noteq> cgInvalidEventID then Some (Ready, add (getEIID sp (hd port)))
      else if getEOID sp (hd port) \<noteq> cgInvalidEventID
      then Some (Ready, add (getNumEIs sp + getEOID sp (hd port)))
      else Some (NoSuchObject, st\<lparr>mFBMonitoringList := es\<rparr>)) = Some (r, st')"
      using assms(3) None unfolding pl_def
      by (auto simp: addWatch_def \<open>monitor_getFB rt ns (lv_tree st) = Some x\<close> x b found Let_def add_def sp_def
          split: if_splits)
    have added: "monitor_ok rt (mFBMonitoringList (add i)) \<and> add i = st\<lparr>mFBMonitoringList := mFBMonitoringList (add i)\<rparr> \<and>
        watches (mFBMonitoringList (add i)) =
          (insert fb (me_FB ` set (mFBMonitoringList st)), ports_in me_FB data_ports (mFBMonitoringList st),
           insert (fb, port) (ports_in me_FB event_ports (mFBMonitoringList st)))" for i
      using events [of "new_event_watch port i"] es laws(3) by (simp add: add_def new_event_watch_def fb_def)
    show ?thesis
    proof (cases "port \<noteq> [] \<and> (getEIID sp (hd port) \<noteq> cgInvalidEventID \<or> getEOID sp (hd port) \<noteq> cgInvalidEventID)")
      case True
      then obtain i where "r = Ready" "st' = add i"
        using run by (auto split: if_splits)
      then show ?thesis
        using point None True added by (simp add: watches_def)
    next
      case False
      then have "r = NoSuchObject" "st' = st\<lparr>mFBMonitoringList := es\<rparr>"
        using run by (auto split: if_splits)
      then show ?thesis
        using point None False laws es by (auto simp: watches_def fb_def)
    qed
  qed
qed


text \<open>It is undefined exactly when the names lead to a block and none is left for the port.\<close>

lemma getFB_isFB: "getFB rt ns c = Some (p, rest) \<Longrightarrow> isFB (node_at p c)"
proof (induction rt ns c arbitrary: p rest rule: getFB.induct)
  case (2 rt n ns c)
  then show ?case
    by (cases "getChild rt n (mChildren c)") (auto split: if_splits)
qed (simp split: if_splits)

lemma isFB_block: "isFB c \<longleftrightarrow> node_block c \<noteq> None"
  by (auto simp: isFB_def node_block_def block_of_def split: container_kind.splits)

lemma monitor_getFB_block:
  "monitor_getFB rt ns c = Some (p, fbNames, port) \<Longrightarrow> \<exists>b. node_block (node_at p c) = Some b"
  using getFB_isFB isFB_block by (fastforce simp: monitor_getFB_def)

lemma addWatch_undefined_iff:
  "addWatch rt ns st = None \<longleftrightarrow> (\<exists>p fbNames. monitor_getFB rt ns (lv_tree st) = Some (p, fbNames, []))"
proof (cases "monitor_getFB rt ns (lv_tree st)")
  case (Some x)
  obtain p fbNames port where x: "x = (p, fbNames, port)"
    by (cases x)
  then obtain b where "node_block (node_at p (lv_tree st)) = Some b"
    using monitor_getFB_block Some by blast
  then show ?thesis
    using Some by (cases port) (auto simp: addWatch_def x Let_def split: option.split prod.split)
qed (simp add: addWatch_def)

section \<open>Removing\<close>

lemma watches_erase:
  assumes "monitor_ok rt es" "it < length es"
  defines "a \<equiv> me_FB (es ! it)"
  shows "watches (erase_at it es) =
    (me_FB ` set es - {a}, {x \<in> ports_in me_FB data_ports es. fst x \<noteq> a}, {x \<in> ports_in me_FB event_ports es. fst x \<noteq> a})"
proof -
  have k: "keys_sorted me_FB es"
    using assms(1) by (simp add: monitor_ok_def)
  have "me_FB ` set (erase_at it es) = me_FB ` set es - {a}"
    unfolding set_erase_distinct [OF keys_sorted_distinct_keys [OF k] assms(2)] a_def by auto
  then show ?thesis
    using ports_in_erase [OF k assms(2), of data_ports] ports_in_erase [OF k assms(2), of event_ports]
    by (simp add: watches_def a_def)
qed

lemma remove_from_entry:
  assumes "runtime_ok rt" "entry_ok rt e"
    and "removeDataWatch rt port (mWatchedDataPoints e) = (d, ds)"
    and "(if d then (True, mWatchedEventPoints e) else removeEventWatch rt port (mWatchedEventPoints e)) = (r, vs)"
  defines "e' \<equiv> e\<lparr>mWatchedDataPoints := ds, mWatchedEventPoints := vs\<rparr>"
  shows "entry_ok rt e'" "r \<longleftrightarrow> port \<in> data_ports e \<union> event_ports e"
    "data_ports e' = data_ports e - {port}"
    "event_ports e' = (if port \<in> data_ports e then event_ports e else event_ports e - {port})"
    "ds = [] \<and> vs = [] \<longleftrightarrow> data_ports e' = {} \<and> event_ports e' = {}"
proof -
  note inj = port_key_inj [OF assms(1)]
  have ok: "keys_sorted (\<lambda>w. port_key rt (dw_port w)) (mWatchedDataPoints e)"
      "keys_sorted (\<lambda>w. port_key rt (ew_port w)) (mWatchedEventPoints e)"
    using assms(2) by (simp_all add: entry_ok_def)
  have d: "d \<longleftrightarrow> port \<in> data_ports e" "dw_port ` set ds = data_ports e - {port}"
      "keys_sorted (\<lambda>w. port_key rt (dw_port w)) ds"
    using data.remove_ports [OF inj ok(1), of port] data.remove_keeps [OF ok(1), of port] assms(3)
    by (simp_all add: data_ports_def)
  have v: "r \<longleftrightarrow> d \<or> port \<in> event_ports e"
      "ew_port ` set vs = (if d then event_ports e else event_ports e - {port})"
      "keys_sorted (\<lambda>w. port_key rt (ew_port w)) vs"
    using events.remove_ports [OF inj ok(2), of port] events.remove_keeps [OF ok(2), of port] assms(4) ok(2)
    by (auto simp: event_ports_def split: if_splits)
  show "entry_ok rt e'" "r \<longleftrightarrow> port \<in> data_ports e \<union> event_ports e"
    "data_ports e' = data_ports e - {port}"
    "event_ports e' = (if port \<in> data_ports e then event_ports e else event_ports e - {port})"
    using d v by (simp_all add: e'_def entry_ok_def data_ports_def event_ports_def)
  show "ds = [] \<and> vs = [] \<longleftrightarrow> data_ports e' = {} \<and> event_ports e' = {}"
    by (simp add: e'_def data_ports_def event_ports_def)
qed

lemma still_used: "a \<in> fst ` ({x \<in> W. fst x \<noteq> a} \<union> {a} \<times> P) \<longleftrightarrow> P \<noteq> {}"
  by force

lemma removeWatch_refines:
  assumes "runtime_ok rt" "monitor_ok rt (mFBMonitoringList st)" "removeWatch rt ns st = (r, st')"
  shows "monitor_ok rt (mFBMonitoringList st') \<and> st' = st\<lparr>mFBMonitoringList := mFBMonitoringList st'\<rparr> \<and>
    (r, watches (mFBMonitoringList st')) = spec_remove (watch_point rt ns st) (watches (mFBMonitoringList st))"
proof (cases "monitor_getFB rt ns (lv_tree st)")
  case None
  then show ?thesis
    using assms by (simp add: removeWatch_def watch_point_def)
next
  case (Some x)
  obtain p fbNames port where x: "x = (p, fbNames, port)"
    by (cases x)
  define fb es where "fb = lb_addr (lv_objects st fbNames)" and "es = mFBMonitoringList st"
  define it where "it = find_entry fb es"
  have es: "monitor_ok rt es" "keys_sorted me_FB es"
    using assms(2) by (simp_all add: es_def monitor_ok_def)
  obtain k where point: "watch_point rt ns st = Some (fb, port, k)"
    by (simp add: watch_point_def Some x fb_def Let_def)
  note found = find_entry_found [OF es(1), of fb, folded it_def]
  define D E where "D = ports_in me_FB data_ports es" and "E = ports_in me_FB event_ports es"
  have W: "watches es = (me_FB ` set es, D, E)"
    by (simp add: watches_def D_def E_def)
  show ?thesis
  proof (cases "fb \<in> me_FB ` set es")
    case False
    then have "(fb, port) \<notin> D \<union> E" "r = NoSuchObject" "st' = st"
      using assms(3) found
      by (auto simp: removeWatch_def Some x Let_def D_def E_def ports_in_def simp flip: fb_def es_def it_def)
    then show ?thesis
      using assms(2) W by (simp add: point flip: es_def)
  next
    case True
    then have it: "it < length es" "me_FB (es ! it) = fb"
      using found find_entry_less [of fb es] by (auto simp: it_def)
    obtain d ds where d: "removeDataWatch rt port (mWatchedDataPoints (es ! it)) = (d, ds)"
      by fastforce
    obtain f vs where f: "(if d then (True, mWatchedEventPoints (es ! it))
        else removeEventWatch rt port (mWatchedEventPoints (es ! it))) = (f, vs)"
      by fastforce
    define e where "e = (es ! it)\<lparr>mWatchedDataPoints := ds, mWatchedEventPoints := vs\<rparr>"
    note entry = remove_from_entry [OF assms(1) entry_ok_nth [OF es(1) it(1)] d f, folded e_def]
    have run: "(r, st') = (if f then (Ready, st\<lparr>mFBMonitoringList := if ds = [] \<and> vs = [] then erase_at it es else es[it := e]\<rparr>)
        else (NoSuchObject, st))"
      using assms(3) it d f
      by (auto simp: removeWatch_def Some x Let_def e_def it_def fb_def es_def split: prod.splits if_splits)
    have parts: "(fb, q) \<in> D \<longleftrightarrow> q \<in> data_ports (es ! it)" "(fb, q) \<in> E \<longleftrightarrow> q \<in> event_ports (es ! it)" for q
      using ports_in_nth [OF es(2) it(1), of q data_ports] ports_in_nth [OF es(2) it(1), of q event_ports] it(2)
      by (simp_all add: D_def E_def)
    show ?thesis
    proof (cases f)
      case False
      then show ?thesis
        using run assms(2) W entry(2) by (simp add: point parts flip: es_def)
    next
      case f: True
      define D' E' where "D' = D - {(fb, port)}" and "E' = (if (fb, port) \<in> D then E else E - {(fb, port)})"
      have keep: "{x \<in> D. fst x \<noteq> fb} \<union> {fb} \<times> data_ports e = D'"
          "{x \<in> E. fst x \<noteq> fb} \<union> {fb} \<times> event_ports e = E'"
        using entry(3,4) parts by (auto simp: D'_def E'_def split: if_splits)
      have spec: "spec_remove (watch_point rt ns st) (watches es) =
          (Ready, if fb \<in> fst ` D' \<union> fst ` E' then me_FB ` set es else me_FB ` set es - {fb}, D', E')"
        using f entry(2) by (simp add: point W parts D'_def E'_def Let_def)
      have used: "fb \<in> fst ` D' \<union> fst ` E' \<longleftrightarrow> \<not> (ds = [] \<and> vs = [])"
        unfolding entry(5) keep [symmetric] using still_used [of fb D] still_used [of fb E] by blast
      show ?thesis
      proof (cases "ds = [] \<and> vs = []")
        case True
        then show ?thesis
          using run f used spec keep watches_erase [OF es(1) it(1)] monitor_ok_erase [OF es(1)] it(2) entry(5)
          by (simp add: D_def E_def flip: es_def)
      next
        case False
        then show ?thesis
          using run f used spec keep watches_update [OF es(1) it(1), of e] it(2)
            monitor_ok_update [OF es(1) it(1) _ entry(1)]
          by (auto simp: D_def E_def e_def simp flip: es_def)
      qed
    qed
  qed
qed

end
