(* ===== verification/Resource_Commands.thy ===== *)
theory Resource_Commands
imports Watch_Lists
begin

text \<open>
  The commands of a resource on its tree, its values and its watches together: \<open>CResource::executeMGMCommand\<close> with
  the queries of \<open>core/src/resource.cpp\<close>.  Queries for connections and for other types than those of function
  blocks are an argument that gives the answer and its text, commands on connections one that gives the answer and
  the new connections, and what the blocks' own code does is an argument that gives the new values.
\<close>

section \<open>Queries\<close>

fun appendTypeNames :: "string \<Rightarrow> string list \<Rightarrow> string" where
  "appendTypeNames v [] = v"
| "appendTypeNames v (n # ns) = appendTypeNames (v @ n @ '', '') ns"

definition appendTypeNameList :: "string \<Rightarrow> string list \<Rightarrow> string" where
  "appendTypeNameList v ns =
     (if ns \<noteq> [] then let t = appendTypeNames v ns in take (length t - 2) t else v)"

definition queryAllFBTypes :: "runtime \<Rightarrow> string \<Rightarrow> EMGMResponse \<times> string" where
  "queryAllFBTypes rt v = (Ready, appendTypeNameList v (map (\<lambda>e. id_text (mTypeNameId e)) (fbTypeLib rt)))"

definition getFStatus :: "E_FBStates \<Rightarrow> string" where
  "getFStatus s = (case s of Running \<Rightarrow> ''RUNNING'' | Idle \<Rightarrow> ''IDLE'' | Stopped \<Rightarrow> ''STOPPED'' | Killed \<Rightarrow> ''KILLED'')"

definition createFBResponseMessage :: "CFunctionBlock \<Rightarrow> live_block \<Rightarrow> string \<Rightarrow> string \<Rightarrow> string" where
  "createFBResponseMessage b lb fullName v =
     v @ ''<FB Name='' @ quoted fullName @ '' Type='' @ quoted (lb_typeName lb) @
     '' Status='' @ quoted (getFStatus (mFBState b)) @ ''/>'' @ [CHR 0x0A]"

text \<open>The loop over the children; a container that is no block is entered, a block is not.\<close>

fun queryFBs :: "string \<Rightarrow> objects \<Rightarrow> string \<Rightarrow> CFBContainer \<Rightarrow> string"
  and query_children :: "string \<Rightarrow> objects \<Rightarrow> string \<Rightarrow> CFBContainer list \<Rightarrow> string" where
  "queryFBs v objs prefix (CFBContainer n k cs) = query_children v objs prefix cs"
| "query_children v objs prefix [] = v"
| "query_children v objs prefix (c # cs) =
     (let n = mContInstanceName c
      in query_children
           (case node_block c of
              Some b \<Rightarrow> createFBResponseMessage b (objs [n]) (prefix @ id_text n) v
            | None \<Rightarrow> queryFBs v (below n objs) (prefix @ id_text n @ ''.'') c)
           objs prefix cs)"

definition buildQueryTypeResponse :: "CFBTypeEntry \<Rightarrow> string \<Rightarrow> string" where
  "buildQueryTypeResponse e prefix =
     ''<'' @ prefix @ '' Name='' @ quoted (id_text (mTypeNameId e) @ ''#'' @ mTypeHash e) @ ''/>''"

text \<open>The hash asked for and the result are the same string; it is compared before it is overwritten.\<close>

definition createQueryTypeResponseMessage :: "CFBTypeEntry option \<Rightarrow> string \<Rightarrow> string \<Rightarrow> EMGMResponse \<times> string" where
  "createQueryTypeResponseMessage entry hash prefix =
     (case entry of
        None \<Rightarrow> (UnsupportedType, [])
      | Some e \<Rightarrow>
          if hash = [] then (Ready, buildQueryTypeResponse e prefix)
          else if hash \<noteq> mTypeHash e then (UnsupportedType, buildQueryTypeResponse e prefix)
          else (Ready, []))"

definition createFBTypeResponseMessage :: "runtime \<Rightarrow> StringId \<Rightarrow> string \<Rightarrow> EMGMResponse \<times> string" where
  "createFBTypeResponseMessage rt n hash = createQueryTypeResponseMessage (getFBTypeEntry rt n) hash ''FBType''"

section \<open>Commands on connections\<close>

text \<open>What creating or deleting a connection may change: for the block at a list of names its counts of connected
  events and of connections, the pointers of its inputs, in-outs and sockets to their connections, and the values its
  in-outs work on; and the destinations of event connections.  Values are only changed for pins of type ANY and
  arrays with variable bounds, which are not modelled.\<close>

record connections =
  cn_counts :: "TNameIdentifier \<Rightarrow> 64 word list option \<times> 64 word"
  cn_DICon :: "TNameIdentifier \<Rightarrow> bool list"
  cn_DIOIn :: "TNameIdentifier \<Rightarrow> bool list"
  cn_SocketCon :: "TNameIdentifier \<Rightarrow> bool list"
  cn_DIORef :: "TNameIdentifier \<Rightarrow> (nat \<times> TNameIdentifier \<times> nat) list"
  cn_EOCons :: "TNameIdentifier \<Rightarrow> TEventID \<Rightarrow> CEventConnection"

definition count_connections :: "connections \<Rightarrow> block_changes" where
  "count_connections cn =
     (\<lambda>ns b. b\<lparr>mInputEventConnectionCount := fst (cn_counts cn ns), mConnRefCount := snd (cn_counts cn ns)\<rparr>,
      \<lambda>_ t. t)"

definition set_connections :: "connections \<Rightarrow> 'z live_resource_scheme \<Rightarrow> 'z live_resource_scheme" where
  "set_connections cn st =
     st\<lparr>lv_tree := change_blocks (count_connections cn) [] (lv_tree st),
        lv_objects := (\<lambda>ns. (lv_objects st ns)
          \<lparr>lb_DICon := cn_DICon cn ns, lb_DIOIn := cn_DIOIn cn ns, lb_SocketCon := cn_SocketCon cn ns,
            lb_DIORef := cn_DIORef cn ns\<rparr>),
        lr_EOCons := cn_EOCons cn\<rparr>"

section \<open>All commands\<close>

record 'z resource_env =
  e_rt :: runtime
  e_writeOutput :: "TNameIdentifier \<Rightarrow> TEventID \<Rightarrow> live_block \<Rightarrow> live_block"
  e_setInit :: "CFunctionBlock \<Rightarrow> CFunctionBlock"
  e_sample :: "CFunctionBlock \<Rightarrow> CFunctionBlock"
  e_readInputs :: "live_block \<Rightarrow> live_block"
  e_fresh :: "TNameIdentifier \<Rightarrow> objects"
  e_reset :: "TNameIdentifier \<Rightarrow> CFBContainer \<Rightarrow> objects \<Rightarrow> objects"
  e_order :: "(TNameIdentifier \<times> string) list \<Rightarrow> (TNameIdentifier \<times> string) list"
  e_connect :: "SManagementCMD \<Rightarrow> 'z live_resource_scheme \<Rightarrow> EMGMResponse \<times> connections"
  e_query :: "SManagementCMD \<Rightarrow> 'z live_resource_scheme \<Rightarrow> EMGMResponse \<times> string"

text \<open>The objects of a block and of what it contains are made and deleted with it.\<close>

definition no_object :: live_block where
  "no_object =
     \<lparr>lb_addr = 0, lb_typeName = [], mVarInternals = [], lb_DI = [], lb_DO = [], lb_DIO = [], lb_DOCon = [],
      lb_DIOOut = [], lb_DIORef = [], lb_DICon = [], lb_DIOIn = [], lb_SocketCon = []\<rparr>"

definition put_objects :: "TNameIdentifier \<Rightarrow> objects \<Rightarrow> objects \<Rightarrow> objects" where
  "put_objects names new objs =
     (\<lambda>ns. if take (length names) ns = names then new (drop (length names) ns) else objs ns)"

text \<open>Values on a reset: \<open>setInitialValues\<close> of the resource runs when its own state has changed, and again after
  its blocks have been reset, which is what \<open>e_reset\<close> does for the target of the command in the tree as it was.
  The resource itself is addressed by the empty path.\<close>

definition resource_target :: "runtime \<Rightarrow> TNameIdentifier \<Rightarrow> CFBContainer \<Rightarrow> bool" where
  "resource_target rt target c = (target = [] \<or> (\<exists>rest. getFB rt target c = Some ([], rest)))"

definition reset_values ::
    "'z resource_env \<Rightarrow> TNameIdentifier \<Rightarrow> EMGMResponse \<Rightarrow> 'z live_resource_scheme \<Rightarrow> 'z live_resource_scheme option" where
  "reset_values env target r st =
     (let rt = e_rt env; own = resource_target rt target (lv_tree st);
          setInit = set_initial_values rt (e_order env (mInitialValues st)) in
      case (if own \<and> kind_state (mKind (lv_tree st)) \<in> {Some Stopped, Some Killed} then setInit st else Some st) of
        None \<Rightarrow> None
      | Some st \<Rightarrow>
          let st = st\<lparr>lv_objects := e_reset env target (lv_tree st) (lv_objects st)\<rparr>
          in if own \<and> r = Ready then setInit st else Some st)"

text \<open>What the commands of \<open>FB_Container\<close> do to the objects, given their answer: a resource that starts reads its
  inputs from its connections, which is \<open>e_readInputs\<close>.\<close>

definition command_values ::
    "'z resource_env \<Rightarrow> SManagementCMD \<Rightarrow> EMGMResponse \<Rightarrow> 'z live_resource_scheme \<Rightarrow>
     'z live_resource_scheme option" where
  "command_values env cmd r st =
     (let names = mFirstParam cmd; objs = lv_objects st in
      case mCMD cmd of
        CreateFBInstance \<Rightarrow>
          Some (if r = Ready then st\<lparr>lv_objects := put_objects names (e_fresh env names) objs\<rparr> else st)
      | DeleteFBInstance \<Rightarrow>
          Some (if r = Ready then st\<lparr>lv_objects := put_objects names (\<lambda>_. no_object) objs\<rparr> else st)
      | Start \<Rightarrow>
          Some (if r = Ready \<and> resource_target (e_rt env) names (lv_tree st)
                then st\<lparr>lv_objects := objs([] := e_readInputs env (objs []))\<rparr> else st)
      | Reset \<Rightarrow> reset_values env names r st
      | _ \<Rightarrow> Some st)"

definition tree_command ::
    "'z resource_env \<Rightarrow> SManagementCMD \<Rightarrow> 'z live_resource_scheme \<Rightarrow>
     (EMGMResponse \<times> SManagementCMD \<times> 'z live_resource_scheme) option" where
  "tree_command env cmd st =
     (case executeMGMCommand (e_rt env) (e_setInit env) (e_sample env) (\<lambda>cmd c. (UnsupportedCmd, cmd, no_changes))
             cmd (lv_tree st) of
        None \<Rightarrow> None
      | Some (r, cmd, c) \<Rightarrow> map_option (\<lambda>st. (r, cmd, st\<lparr>lv_tree := c\<rparr>)) (command_values env cmd r st))"

definition live_execute ::
    "'z resource_env \<Rightarrow> SManagementCMD \<Rightarrow> 'z live_resource_scheme \<Rightarrow>
     (EMGMResponse \<times> SManagementCMD \<times> 'z live_resource_scheme) option" where
  "live_execute env cmd st =
     (let rt = e_rt env; ns = mFirstParam cmd; text = mAdditionalParams cmd;
          answer = (\<lambda>x. Some (fst x, cmd\<lparr>mAdditionalParams := snd x\<rparr>, st)) in
      if mDestination cmd \<noteq> None then Some (InvalidDst, cmd, st)
      else if front_of_empty cmd then None
      else if mCMD cmd \<in> {CreateFBInstance, CreateFBType, CreateAdapterType, DeleteFBInstance, Start, Stop, Kill, Reset}
      then tree_command env cmd st
      else if mCMD cmd \<in> {CreateConnection, DeleteConnection}
      then (case e_connect env cmd st of (r, cn) \<Rightarrow> Some (r, cmd, set_connections cn st))
      else if mCMD cmd \<in> {QueryAdapterTypes, QueryGlobalConstTypes, QueryAdapterType, QueryDataType,
                 QueryGlobalConstType, QueryConnection}
      then answer (e_query env cmd st)
      else (case mCMD cmd of
              Read \<Rightarrow> answer (readValue rt ns text st)
            | Write \<Rightarrow> map_option (with_cmd cmd) (writeValue rt ns text False st)
            | QueryFBTypes \<Rightarrow> answer (queryAllFBTypes rt text)
            | QueryFB \<Rightarrow> answer (Ready, queryFBs text (lv_objects st) [] (lv_tree st))
            | QueryFBType \<Rightarrow> answer (createFBTypeResponseMessage rt (hd ns) text)
            | _ \<Rightarrow> executeMonitoringCommand (e_writeOutput env) rt cmd st))"

end
