(* ===== verification/Live_Paths.thy ===== *)
theory Live_Paths
imports Monitoring
begin

text \<open>
  Where lists of names lead in the tree of a resource: what stays when a child is changed, what is gone when a block
  is deleted, names that are left over, and the pin a force command ends at.
\<close>

section \<open>Children\<close>

lemma getChild_names:
  assumes "map mContInstanceName cs = map mContInstanceName cs'"
  shows "getChild rt n cs = getChild rt n cs'"
proof -
  have len: "length cs = length cs'"
    using assms by (rule map_eq_imp_length_eq)
  have "length (takeWhile (\<lambda>c. P (mContInstanceName c)) cs) = length (takeWhile (\<lambda>c. P (mContInstanceName c)) cs')" for P
    using arg_cong [OF assms, of "\<lambda>xs. length (takeWhile P xs)"] by (simp add: takeWhile_map comp_def)
  then have "getChildrenIterator rt n cs = getChildrenIterator rt n cs'"
    using len by (auto simp: getChildrenIterator_def lower_bound_def)
  moreover have "mContInstanceName (cs ! i) = mContInstanceName (cs' ! i)" if "i < length cs" for i
    using arg_cong [OF assms, of "\<lambda>xs. xs ! i"] that len by simp
  ultimately show ?thesis
    using len iterator_le [of rt n cs] by (auto simp: getChild_def isChild_def Let_def le_neq_implies_less)
qed

lemma getChild_update:
  "mContInstanceName x = mContInstanceName (cs ! it) \<Longrightarrow> getChild rt n (cs[it := x]) = getChild rt n cs"
  by (rule getChild_names) (metis list_update_id map_update)

lemma getChild_name:
  assumes "runtime_ok rt" "getChild rt n cs = Some it"
  shows "it < length cs" "mContInstanceName (cs ! it) = n"
  using getChild_Some [OF assms(2)] id_addr_eq [OF assms(1)] by (auto simp: id_eq_def)

lemma getChild_isChild:
  "isChild rt (getChildrenIterator rt n cs) n cs \<Longrightarrow> getChild rt n cs = Some (getChildrenIterator rt n cs)"
  by (simp add: getChild_def)

lemma getChild_erased:
  assumes "runtime_ok rt" "keys_sorted (name_addr rt) cs" "n \<noteq> None" "getChild rt n cs = Some it"
  shows "getChild rt n (erase_at it cs) = None"
proof -
  have it: "it < length cs" "mContInstanceName (cs ! it) = n"
    using getChild_name [OF assms(1,4)] by auto
  have "n \<notin> mContInstanceName ` set (erase_at it cs)"
    unfolding set_erase_distinct [OF keys_sorted_distinct_keys [OF assms(2)] it(1)] it(2) by blast
  then have "\<not> isChild rt (getChildrenIterator rt n (erase_at it cs)) n (erase_at it cs)"
    using isChild_iff [OF assms(1) erase_keys_sorted [OF assms(2), of it] assms(3)] by simp
  then show ?thesis
    by (simp add: getChild_def Let_def)
qed

lemma put_block_fields [simp]:
  "mContInstanceName (put_block b c) = mContInstanceName c" "mChildren (put_block b c) = mChildren c"
  by (simp_all add: put_block_def)

section \<open>Deleted blocks\<close>

lemma deleteFB_name: "mContInstanceName (snd (deleteFB rt ns c)) = mContInstanceName c"
  by (cases ns) (auto simp: Let_def split: prod.split)

lemma follow_deleted:
  "runtime_ok rt \<Longrightarrow> container_ok rt c \<Longrightarrow> deleteFB rt ns c = (Ready, c') \<Longrightarrow> follow_names rt ns c' = None"
proof (induction rt ns c arbitrary: c' rule: deleteFB.induct)
  case (2 rt n ns c)
  define it where "it = getChildrenIterator rt n (mChildren c)"
  note ok = container_okD [OF "2.prems"(2)]
  have ch: "isChild rt it n (mChildren c)"
    using "2.prems"(3) by (auto simp: Let_def it_def split: if_splits)
  then have child: "getChild rt n (mChildren c) = Some it"
    using getChild_isChild by (simp add: it_def)
  note name = getChild_name [OF "2.prems"(1) child]
  have sub: "container_ok rt (mChildren c ! it)"
    using ok(3) name(1) by simp
  show ?case
  proof (cases "ns = []")
    case True
    then have "c' = set_children (erase_at it (mChildren c)) c"
      using "2.prems"(3) ch by (auto simp: Let_def simp flip: it_def split: if_splits)
    moreover have "n \<noteq> None"
      using container_okD(1) [OF sub] name(2) by simp
    ultimately show ?thesis
      using getChild_erased [OF "2.prems"(1) ok(2) _ child] by simp
  next
    case False
    then obtain x where x: "deleteFB rt ns (mChildren c ! it) = (Ready, x)"
        and c': "c' = set_children ((mChildren c)[it := x]) c" and dyn: "isDynamicContainer (mChildren c ! it)"
      using "2.prems"(3) ch by (auto simp: Let_def simp flip: it_def split: if_splits prod.splits)
    have "mContInstanceName x = mContInstanceName (mChildren c ! it)"
      using deleteFB_name [of rt ns "mChildren c ! it"] x by simp
    moreover have "follow_names rt ns x = None"
      using "2.IH" [of it "mChildren c ! it"] ch False dyn "2.prems"(1) sub x by (simp add: it_def)
    ultimately show ?thesis
      using child name(1) by (simp add: c' getChild_update)
  qed
qed simp

section \<open>Names that are left over\<close>

lemma getFB_surplus:
  "getFB rt ns c = Some (p, []) \<Longrightarrow> getChild rt n (mChildren (node_at p c)) = None \<Longrightarrow>
   getFB rt (ns @ n # rest) c = Some (p, n # rest)"
proof (induction rt ns c arbitrary: p rule: getFB.induct)
  case (2 rt m ns c)
  then show ?case
    by (cases "getChild rt m (mChildren c)") (auto split: if_splits)
qed (auto split: if_splits)

lemma getFB_length: "getFB rt ns c = Some (p, rest) \<Longrightarrow> length p + length rest = length ns"
proof (induction rt ns c arbitrary: p rest rule: getFB.induct)
  case (2 rt m ns c)
  then show ?case
    by (cases "getChild rt m (mChildren c)") (auto split: if_splits)
qed (auto split: if_splits)

lemma monitor_getFB_surplus:
  assumes "getFB rt ns c = Some (p, [])" "getChild rt n (mChildren (node_at p c)) = None"
  shows "monitor_getFB rt ns c = Some (p, ns, [])" "monitor_getFB rt (ns @ n # rest) c = Some (p, ns, n # rest)"
  using getFB_length [OF assms(1)] getFB_surplus [OF assms] assms(1) by (simp_all add: monitor_getFB_def)

section \<open>The pin a list of names leads to\<close>

text \<open>The block with the pin is reached by the names of the place, and forcing works on that block.\<close>

lemma setForced_names_at:
  assumes "runtime_ok rt" "getVar rt objs ns c = Some (bs, s, p)"
  shows "\<exists>x b n ms. follow_names rt bs c = Some x \<and> node_block x = Some b \<and> data_slot b (objs bs) n = Some s \<and>
    any_getVar (pin_type (slot_pin s (objs bs))) ms = Some p \<and>
    (\<forall>f r x' o'. setForced_names rt (n # ms) f x (objects_at bs objs) = (r, x', o') \<longrightarrow>
       mContInstanceName x' = mContInstanceName x \<longrightarrow>
       (\<exists>c' objs'. setForced_names rt ns f c objs = (r, c', objs') \<and> follow_names rt bs c' = Some x' \<and>
          mContInstanceName c' = mContInstanceName c \<and>
          (x' = x \<and> o' = objects_at bs objs \<longrightarrow> c' = c \<and> objs' = objs)))"
  using assms
proof (induction rt objs ns c arbitrary: bs rule: getVar.induct)
  case (2 rt objs n ns c)
  show ?case
  proof (cases "case block_of (mKind c) of None \<Rightarrow> None | Some b \<Rightarrow> data_slot b (objs []) n")
    case (Some sl)
    then obtain b where b: "block_of (mKind c) = Some b" "data_slot b (objs []) n = Some sl"
      by (auto split: option.splits)
    have q: "any_getVar (pin_type (slot_pin sl (objs []))) ns = Some p" "bs = []" "sl = s"
      using 2(3) Some by (auto simp del: any_getVar.simps)
    have "objects_at [] objs = objs"
      by (simp add: objects_at_def)
    then show ?thesis
      using b q by (intro exI [of _ c] exI [of _ b] exI [of _ n] exI [of _ ns])
        (auto simp: node_block_def simp del: setForced_names.simps)
  next
    case None
    then obtain it bs' where it: "getChild rt n (mChildren c) = Some it"
        and rec: "getVar rt (below (mContInstanceName (mChildren c ! it)) objs) ns (mChildren c ! it) = Some (bs', s, p)"
        and bs: "bs = mContInstanceName (mChildren c ! it) # bs'"
      using 2(3) by (auto simp: Let_def split: option.splits)
    define m where "m = mContInstanceName (mChildren c ! it)"
    note name = getChild_name [OF 2(2) it, folded m_def]
    note IH = 2(1) [OF None it refl refl 2(2) rec]
    have ns: "ns \<noteq> []"
      using rec by auto
    then have pin: "forced_pin (mKind c) n ns = None"
      by (auto simp: forced_pin_def Let_def split: option.splits)
    have at: "objects_at bs' (below m objs) = objects_at bs objs" "below m objs bs' = objs bs"
      by (simp_all add: objects_at_def below_def bs m_def)
    obtain x b k ms where x: "follow_names rt bs' (mChildren c ! it) = Some x" "node_block x = Some b"
        "data_slot b (objs bs) k = Some s" "any_getVar (pin_type (slot_pin s (objs bs))) ms = Some p"
      and f: "\<And>f r x' o'. setForced_names rt (k # ms) f x (objects_at bs objs) = (r, x', o') \<Longrightarrow>
       mContInstanceName x' = mContInstanceName x \<Longrightarrow>
       \<exists>c' objs'. setForced_names rt ns f (mChildren c ! it) (below m objs) = (r, c', objs') \<and>
          follow_names rt bs' c' = Some x' \<and> mContInstanceName c' = mContInstanceName (mChildren c ! it) \<and>
          (x' = x \<and> o' = objects_at bs objs \<longrightarrow> c' = mChildren c ! it \<and> objs' = below m objs)"
      using IH unfolding at m_def [symmetric] by blast
    have "\<exists>c' objs'. setForced_names rt (n # ns) f c objs = (r, c', objs') \<and> follow_names rt bs c' = Some x' \<and>
          mContInstanceName c' = mContInstanceName c \<and>
          (x' = x \<and> o' = objects_at bs objs \<longrightarrow> c' = c \<and> objs' = objs)"
      if run: "setForced_names rt (k # ms) f x (objects_at bs objs) = (r, x', o')"
        "mContInstanceName x' = mContInstanceName x" for f r x' o'
    proof -
      obtain y objs' where y: "setForced_names rt ns f (mChildren c ! it) (below m objs) = (r, y, objs')"
          "follow_names rt bs' y = Some x'" "mContInstanceName y = m"
          "x' = x \<and> o' = objects_at bs objs \<longrightarrow> y = mChildren c ! it \<and> objs' = below m objs"
        using f [OF run] by (auto simp: m_def)
      have "setForced_names rt (n # ns) f c objs =
          (r, set_children ((mChildren c)[it := y]) c, put_below m objs' objs)"
        using pin it y(1) by (simp add: m_def)
      moreover have "follow_names rt bs (set_children ((mChildren c)[it := y]) c) = Some x'"
        using y(2,3) it name by (simp add: bs m_def [symmetric] getChild_update)
      moreover have "put_below m (below m objs) objs = objs"
        by (auto simp: put_below_def below_def split: list.split)
      ultimately show ?thesis
        using y(4) by auto
    qed
    moreover have "follow_names rt bs c = Some x"
      using x(1) it name by (simp add: bs m_def [symmetric])
    ultimately show ?thesis
      using x(2-4) by blast
  qed
qed simp

end
