(* ===== verification/Value_Commands.thy ===== *)
theory Value_Commands
imports Live_Paths
begin

text \<open>
  What reading, writing and forcing a value do, in terms of the texts of values (theory \<open>Compound_Text\<close>).
\<close>

section \<open>Texts that are written\<close>

lemma c_str_append: "CHR 0x00 \<notin> set t \<Longrightarrow> c_str (t @ r) = t @ c_str r"
  by (induction t) (auto simp: c_str_def)

lemma c_str_id: "CHR 0x00 \<notin> set t \<Longrightarrow> c_str t = t"
  using c_str_append [of t "[]"] by (simp add: c_str_def)

text \<open>The text of a value \<open>x\<close> that a pin can take, followed by \<open>r\<close>, where every number and duration is followed by
  something that ends it and a collapsed array ends with two equal elements.\<close>

definition fitting_text :: "objects \<Rightarrow> place \<Rightarrow> any_state \<Rightarrow> string \<Rightarrow> bool" where
  "fitting_text objs pl x r \<longleftrightarrow>
     has_shape (place_type objs pl) x \<and> any_ends (place_type objs pl) x (c_str r) \<and>
     CHR 0x00 \<notin> set (any_toString (place_type objs pl) x)"

lemma fitting_text_parsed:
  assumes "objects_ok objs" "getVar rt objs ns c = Some pl" "fitting_text objs pl x r"
  defines "ty \<equiv> place_type objs pl"
  shows "\<exists>w. any_fromString ty (c_str (any_toString ty x @ r)) (place_value objs pl) =
      Some (int (length (any_toString ty x)), w) \<and> same_value ty x w \<and> any_toString ty x \<noteq> []"
proof -
  have "has_shape ty (place_value objs pl)"
    using live.get_fits [OF assms(1,2)] by (simp add: value_ok_def ty_def)
  moreover have x: "has_shape ty x" "any_ends ty x (c_str r)"
    and c: "c_str (any_toString ty x @ r) = any_toString ty x @ c_str r"
    using assms(3) c_str_append by (auto simp: fitting_text_def ty_def)
  ultimately show ?thesis
    using any_value.roundtrip [of ty x "place_value objs pl" "c_str r"] any_value.starts [OF x(1)]
    unfolding c by (auto simp: starts_value_def)
qed

section \<open>Values that are written\<close>

lemma put_value_tree [simp]: "lv_tree (st\<lparr>lv_objects := objs\<rparr>) = lv_tree st"
  by simp

lemma write_inout_keeps:
  assumes "write_inout rt ns w st = Some st'"
  shows "\<exists>objs. st' = st\<lparr>lv_objects := objs\<rparr> \<and> same_layout (lv_objects st) objs \<and>
    place_value objs pl = place_value (lv_objects st) pl"
proof (cases "inout_output rt ns (lv_tree st)")
  case (Some x)
  obtain bs i where x: "x = (bs, i)"
    by (cases x)
  obtain a owner j where ref: "lb_DIORef (lv_objects st bs) ! i = (a, owner, j)"
    by (metis prod_cases3)
  define objs where "objs = (lv_objects st)
    (owner := (lv_objects st owner)\<lparr>lb_DIOOut := (lb_DIOOut (lv_objects st owner))[j := w]\<rparr>)"
  have pin: "slot_pin s (objs ns) = slot_pin s (lv_objects st ns)" for s ns
    by (cases s) (simp_all add: objs_def)
  have "same_layout (lv_objects st) objs" "place_value objs pl = place_value (lv_objects st) pl"
    using pin by (simp_all add: same_layout_def layout_def objs_def place_value_def split: prod.split)
  moreover have "st' = st \<or> st' = st\<lparr>lv_objects := objs\<rparr>"
    using assms Some ref by (auto simp: write_inout_def x Let_def objs_def split: if_splits)
  ultimately show ?thesis
    by (elim disjE) (auto intro: exI [of _ "lv_objects st"])
next
  case None
  then show ?thesis
    using assms by (intro exI [of _ "lv_objects st"]) (simp add: write_inout_def)
qed

text \<open>A write that is answered with Ready.\<close>

lemma writeValue_Ready:
  assumes "writeValue rt ns v False st = Some (Ready, st')" "objects_ok (lv_objects st)"
    and "getVar rt (lv_objects st) ns (lv_tree st) = Some pl"
  shows "\<exists>w. any_fromString (place_type (lv_objects st) pl) (c_str v) (place_value (lv_objects st) pl) =
      Some (int (length v), w) \<and> place_value (lv_objects st') pl = w \<and>
    same_layout (lv_objects st) (lv_objects st') \<and> lv_tree st' = lv_tree st \<and>
    mInitialValues st' = mInitialValues (emplace_initial ns v st)"
proof -
  obtain n w where parsed: "any_fromString (place_type (lv_objects st) pl) (c_str v) (place_value (lv_objects st) pl) = Some (n, w)"
    using assms(1,3) by (auto simp: writeValue_def split: option.splits if_splits)
  define st1 where "st1 = st\<lparr>lv_objects := put_value pl w (lv_objects st)\<rparr>"
  have n: "n = int (length v)"
    and w: "write_inout rt ns (place_value (lv_objects st1) pl) st1 \<noteq> None"
    and st': "Some st' = map_option (emplace_initial ns v) (write_inout rt ns (place_value (lv_objects st1) pl) st1)"
    using assms(1,3) parsed
    by (auto simp: writeValue_def finish_write_def st1_def split: option.splits if_splits)
  obtain st2 where st2: "write_inout rt ns (place_value (lv_objects st1) pl) st1 = Some st2" "st' = emplace_initial ns v st2"
    using w st' by auto
  obtain objs where objs: "st2 = st1\<lparr>lv_objects := objs\<rparr>" "same_layout (lv_objects st1) objs"
      "place_value objs pl = place_value (lv_objects st1) pl"
    using write_inout_keeps [OF st2(1), of pl] by auto
  have "same_layout (lv_objects st) (lv_objects st1)"
    using put_value_layout [OF getVar_place_in [OF assms(3)]] by (simp add: st1_def same_layout_def)
  then have "same_layout (lv_objects st) objs"
    using objs(2) by (rule same_layout_trans)
  moreover have "place_value objs pl = w"
    using live.get_put [OF assms(2,3)] objs(3) by (simp add: st1_def)
  ultimately show ?thesis
    using parsed n by (simp add: st2(2) objs(1) st1_def emplace_initial_def)
qed

text \<open>A text that is longer than the value it starts with.\<close>

lemma writeValue_too_long:
  assumes "objects_ok (lv_objects st)" "getVar rt (lv_objects st) ns (lv_tree st) = Some pl"
    and "fitting_text (lv_objects st) pl x r" "r \<noteq> []"
  shows "\<exists>w. writeValue rt ns (any_toString (place_type (lv_objects st) pl) x @ r) force st =
      Some (BadParams, st\<lparr>lv_objects := put_value pl w (lv_objects st)\<rparr>) \<and>
    place_value (put_value pl w (lv_objects st)) pl = w \<and> same_value (place_type (lv_objects st) pl) x w"
proof -
  obtain w where w: "any_fromString (place_type (lv_objects st) pl)
      (c_str (any_toString (place_type (lv_objects st) pl) x @ r)) (place_value (lv_objects st) pl) =
      Some (int (length (any_toString (place_type (lv_objects st) pl) x)), w)"
      "same_value (place_type (lv_objects st) pl) x w"
    using fitting_text_parsed [OF assms(1-3)] by blast
  then show ?thesis
    using assms(2,4) live.get_put [OF assms(1,2)]
    by (intro exI [of _ w]) (simp add: writeValue_def finish_write_def)
qed

section \<open>Forcing\<close>

fun slot_num :: "SFBInterfaceSpec \<Rightarrow> slot \<Rightarrow> nat option" where
  "slot_num sp (Var_Slot i) = None"
| "slot_num sp (DI_Slot i) = Some i"
| "slot_num sp (DO_Slot i) = Some (getNumDIs sp + i)"
| "slot_num sp (DIO_Slot i) = Some (getNumDIs sp + getNumDOs sp + i)"

text \<open>A block has an object for each of its pins, and fewer than 65535 of them.\<close>

definition pins_fit :: "CFunctionBlock \<Rightarrow> live_block \<Rightarrow> bool" where
  "pins_fit b lb =
     (let sp = mInterfaceSpec b in
      length (lb_DI lb) = getNumDIs sp \<and> length (lb_DO lb) = getNumDOs sp \<and> length (lb_DIO lb) = getNumDIOs sp \<and>
      getNumDIs sp + getNumDOs sp + getNumDIOs sp < cgInvalidPortId)"

lemma getPortId_bound: "getPortId n ns = cgInvalidPortId \<or> getPortId n ns < length ns"
  using find_pos_le [of n ns] by (auto simp: getPortId_def Let_def)

lemma port_slot_cases:
  assumes "length pins = length ns" "port_slot sl (getPortId n ns) pins = r"
  shows "r = None \<and> getPortId n ns = cgInvalidPortId \<or>
    r = Some (sl (getPortId n ns)) \<and> getPortId n ns \<noteq> cgInvalidPortId \<and> getPortId n ns < length ns"
  using getPortId_bound [of n ns] assms by (auto simp: port_slot_def split: if_splits)

lemma data_slot_num:
  assumes "data_slot b lb n = Some s" "pins_fit b lb" "slot_num (mInterfaceSpec b) s = Some num"
    and "block_of k = Some b"
  shows "forced_pin k n [] = Some (num, b)"
proof -
  define sp where "sp = mInterfaceSpec b"
  note fit = assms(2) [unfolded pins_fit_def Let_def, folded sp_def, simplified]
  have "cgInvalidPortId < INVALID_ABS_DATA_PORT_ID"
    by (simp add: cgInvalidPortId_def INVALID_ABS_DATA_PORT_ID_def)
  then have small: "num < INVALID_ABS_DATA_PORT_ID" if "num < cgInvalidPortId" for num
    using that by simp
  note di = port_slot_cases [of "lb_DI lb" "mDINames sp" DI_Slot n, OF _ refl, folded getDIID_def]
  note do = port_slot_cases [of "lb_DO lb" "mDONames sp" DO_Slot n, OF _ refl, folded getDOID_def]
  note dio = port_slot_cases [of "lb_DIO lb" "mDIONames sp" DIO_Slot n, OF _ refl, folded getDIOID_def]
  have "port_slot Var_Slot (getPortId n (map fst (mVarInternals lb))) (mVarInternals lb) = None"
    using assms(1,3) by (auto simp: data_slot_def port_slot_def split: if_splits)
  then have "getAbsDataPortNum n b = num \<and> num < cgInvalidPortId"
    using assms(1,3) fit di do dio
    by (auto simp: data_slot_def getAbsDataPortNum_def Let_def simp flip: sp_def split: option.splits)
  then show ?thesis
    using small [of num] assms(4) by (auto simp: forced_pin_def Let_def)
qed


lemma put_block_id: "node_block x = Some b \<Longrightarrow> put_block b x = x"
  by (cases x) (auto simp: node_block_def block_of_def put_block_def split: container_kind.splits)

lemma node_block_put: "node_block x = Some b \<Longrightarrow> node_block (put_block b' x) = Some b'"
  by (auto simp: node_block_def block_of_def put_block_def split: container_kind.splits)

text \<open>Forcing a pin changes nothing when the number of the pin is too large, and forcing a member of a structure
  fails; otherwise the flag of the pin is set.\<close>

lemma setForced_names_pin:
  assumes "runtime_ok rt" "getVar rt objs ns c = Some (bs, s, p)"
    and "follow_names rt bs c = Some x" "node_block x = Some b" "mChildren x = []"
    and "pins_fit b (objs bs)" "slot_num (mInterfaceSpec b) s = Some num"
  shows "p \<noteq> [] \<Longrightarrow> setForced_names rt ns f c objs = (False, c, objs)"
    and "p = [] \<Longrightarrow> num \<ge> length (mForces b) \<Longrightarrow> setForced_names rt ns f c objs = (True, c, objs)"
    and "p = [] \<Longrightarrow> num < length (mForces b) \<Longrightarrow> \<exists>c' objs' x' b'. setForced_names rt ns f c objs = (True, c', objs') \<and>
        follow_names rt bs c' = Some x' \<and> node_block x' = Some b' \<and> mForces b' = (mForces b)[num := f]"
proof -
  obtain n ms where n: "data_slot b (objs bs) n = Some s" "any_getVar (pin_type (slot_pin s (objs bs))) ms = Some p"
    and force: "\<And>r x' o'. setForced_names rt (n # ms) f x (objects_at bs objs) = (r, x', o') \<Longrightarrow>
       mContInstanceName x' = mContInstanceName x \<Longrightarrow>
       \<exists>c' objs'. setForced_names rt ns f c objs = (r, c', objs') \<and> follow_names rt bs c' = Some x' \<and>
          mContInstanceName c' = mContInstanceName c \<and>
          (x' = x \<and> o' = objects_at bs objs \<longrightarrow> c' = c \<and> objs' = objs)"
    using setForced_names_at [OF assms(1,2)] assms(3,4) by auto
  have at: "objects_at bs objs [] = objs bs"
    by (simp add: objects_at_def)
  have pin: "forced_pin (mKind x) n [] = Some (num, b)"
    using assms(4) by (intro data_slot_num [OF n(1) assms(6,7)]) (simp add: node_block_def)
  show "setForced_names rt ns f c objs = (False, c, objs)" if member: "p \<noteq> []"
  proof -
    obtain m ms' where ms: "ms = m # ms'"
      using n(2) member by (cases ms) auto
    have "setForced_names rt (n # ms) f x (objects_at bs objs) = (False, x, objects_at bs objs)"
      using assms(5) by (simp add: ms forced_pin_def getChild_def getChildrenIterator_def isChild_def split: option.split)
    from force [OF this] show ?thesis
      by auto
  qed
  assume "p = []"
  then have ms: "ms = []"
    using n(2) by (cases "pin_type (slot_pin s (objs bs))"; cases ms) (auto split: option.splits)
  have run: "setForced_names rt (n # ms) f x (objects_at bs objs) =
      (case setForced_num num f b (objs bs) of (_, b', lb') \<Rightarrow> (True, put_block b' x, (objects_at bs objs)([] := lb')))"
    using pin at by (simp add: ms)
  show "setForced_names rt ns f c objs = (True, c, objs)" if "num \<ge> length (mForces b)"
  proof -
    have "setForced_names rt (n # ms) f x (objects_at bs objs) = (True, x, objects_at bs objs)"
      using run that put_block_id [OF assms(4)] at by (simp add: setForced_num_def fun_upd_idem)
    from force [OF this] show ?thesis
      by auto
  qed
  assume "num < length (mForces b)"
  then obtain b' lb' where b': "setForced_num num f b (objs bs) = (True, b', lb')" "mForces b' = (mForces b)[num := f]"
    by (simp add: setForced_num_def Let_def)
  then have "setForced_names rt (n # ms) f x (objects_at bs objs) = (True, put_block b' x, (objects_at bs objs)([] := lb'))"
    using run by simp
  from force [OF this] show "\<exists>c' objs' x' b'. setForced_names rt ns f c objs = (True, c', objs') \<and>
        follow_names rt bs c' = Some x' \<and> node_block x' = Some b' \<and> mForces b' = (mForces b)[num := f]"
    using node_block_put [OF assms(4), of b'] b'(2) by (metis put_block_fields(1))
qed

end
