(* ===== verification/Resource_Sessions.thy ===== *)
theory Resource_Sessions
imports Resource_Commands Value_Commands
begin

text \<open>
  What holds of a resource over any sequence of commands and whatever its blocks do in between, and what the
  commands on values and watches do to it.
\<close>

section \<open>The invariant\<close>

definition live_ok :: "runtime \<Rightarrow> 'z live_resource_scheme \<Rightarrow> bool" where
  "live_ok rt st \<longleftrightarrow> container_ok rt (lv_tree st) \<and> objects_ok (lv_objects st) \<and>
     monitor_ok rt (mFBMonitoringList st)"

lemma live_okI:
  "container_ok rt (lv_tree st) \<Longrightarrow> objects_ok (lv_objects st) \<Longrightarrow> monitor_ok rt (mFBMonitoringList st) \<Longrightarrow> live_ok rt st"
  by (simp add: live_ok_def)

lemma live_okD:
  assumes "live_ok rt st"
  shows "container_ok rt (lv_tree st)" "objects_ok (lv_objects st)" "monitor_ok rt (mFBMonitoringList st)"
  using assms by (simp_all add: live_ok_def)

text \<open>What the compiler makes sure of in the blocks' own code: an assignment to a variable does not change its class, nor
  the number of elements of an array and of members of a structure.\<close>

fun same_form :: "any_state \<Rightarrow> any_state \<Rightarrow> bool" where
  "same_form (Cell c) w \<longleftrightarrow> (\<exists>d. w = Cell d)"
| "same_form (Char c) w \<longleftrightarrow> (\<exists>d. w = Char d)"
| "same_form (WChar c) w \<longleftrightarrow> (\<exists>d. w = WChar d)"
| "same_form (Chars s) w \<longleftrightarrow> (\<exists>t. w = Chars t)"
| "same_form (Parts vs) w \<longleftrightarrow> (\<exists>ws. w = Parts ws \<and> list_all2 same_form vs ws)"

definition assigned :: "data_pin \<Rightarrow> data_pin \<Rightarrow> bool" where
  "assigned p q \<longleftrightarrow> pin_type q = pin_type p \<and> same_form (pin_value p) (pin_value q)"

definition computes :: "live_block \<Rightarrow> live_block \<Rightarrow> bool" where
  "computes lb lb' \<longleftrightarrow> lb_addr lb' = lb_addr lb \<and>
     list_all2 (\<lambda>(n, p) (n', q). n' = n \<and> assigned p q) (mVarInternals lb) (mVarInternals lb') \<and>
     list_all2 assigned (lb_DI lb) (lb_DI lb') \<and> list_all2 assigned (lb_DO lb) (lb_DO lb') \<and>
     list_all2 assigned (lb_DIO lb) (lb_DIO lb')"

text \<open>What is relied on of the arguments: different texts have different addresses, the type library makes blocks of
  the names it is asked for, constructors give the pins values of their types, and the blocks' own code on a reset, on
  a start and before an output event assigns to their variables.\<close>

definition env_ok :: "'z resource_env \<Rightarrow> bool" where
  "env_ok env \<longleftrightarrow> runtime_ok (e_rt env) \<and> (\<forall>ns. objects_ok (e_fresh env ns)) \<and>
     (\<forall>ns c objs m. computes (objs m) (e_reset env ns c objs m)) \<and>
     (\<forall>lb. computes lb (e_readInputs env lb)) \<and>
     (\<forall>ns eo lb. computes lb (e_writeOutput env ns eo lb))"

lemma same_form_shape: "has_shape ty v \<Longrightarrow> same_form v w \<Longrightarrow> has_shape ty w"
proof (induction ty arbitrary: v w)
  case (Simple t)
  then show ?case
    by (cases v) auto
next
  case (ArrayOf n d ty)
  then obtain vs where vs: "v = Parts vs" "n < 2 ^ 64" "length vs = n" "\<forall>x\<in>set vs. has_shape ty x"
    unfolding has_shape.simps by metis
  then obtain ws where ws: "w = Parts ws" "list_all2 same_form vs ws"
    using ArrayOf.prems(2) by auto
  have "has_shape ty (ws ! i)" if i: "i < length ws" for i
    using ArrayOf.IH [of "vs ! i" "ws ! i"] vs(4) list_all2_nthD2 [OF ws(2) i] list_all2_lengthD [OF ws(2)] i by simp
  then have "\<forall>y\<in>set ws. has_shape ty y"
    by (metis in_set_conv_nth)
  then show ?case
    using vs ws list_all2_lengthD [OF ws(2)] by simp
next
  case (StructOf ms)
  then obtain vs where vs: "v = Parts vs" "distinct (map fst ms)" "\<forall>m\<in>set ms. member_name (fst m)"
      "list_all2 (\<lambda>p x. snd p x) (map (\<lambda>m. map_prod id has_shape m) ms) vs"
    unfolding has_shape.simps by metis
  then obtain ws where ws: "w = Parts ws" "list_all2 same_form vs ws"
    using StructOf.prems(2) by auto
  have "list_all2 (\<lambda>p x. snd p x) (map (\<lambda>m. map_prod id has_shape m) ms) ws"
  proof (rule list_all2_all_nthI)
    show "length (map (\<lambda>m. map_prod id has_shape m) ms) = length ws"
      using list_all2_lengthD [OF vs(4)] list_all2_lengthD [OF ws(2)] by simp
    fix i
    assume i: "i < length (map (\<lambda>m. map_prod id has_shape m) ms)"
    then have "has_shape (snd (ms ! i)) (vs ! i)" "same_form (vs ! i) (ws ! i)"
      using list_all2_nthD [OF vs(4), of i] list_all2_nthD [OF ws(2), of i] list_all2_lengthD [OF vs(4)] by simp_all
    then show "snd (map (\<lambda>m. map_prod id has_shape m) ms ! i) (ws ! i)"
      using StructOf.IH [of "ms ! i" "snd (ms ! i)"] i by (simp add: snds.intros)
  qed
  then show ?case
    using vs(2,3) ws(1) by simp
qed

lemma assigned_ok: "assigned p q \<Longrightarrow> pin_ok p \<Longrightarrow> pin_ok q"
  using same_form_shape by (auto simp: assigned_def pin_ok_def)

lemma assigned_all: "list_all2 assigned ps qs \<Longrightarrow> list_all pin_ok ps \<Longrightarrow> list_all pin_ok qs"
  by (induction rule: list_all2_induct) (auto dest: assigned_ok)

lemma computes_ok:
  assumes "computes lb lb'" "block_ok lb"
  shows "block_ok lb'"
proof -
  have "list_all2 assigned (map snd (mVarInternals lb)) (map snd (mVarInternals lb'))"
    using assms(1) by (auto simp: computes_def list_all2_conv_all_nth split_beta)
  then show ?thesis
    using assms assigned_all unfolding computes_def block_ok_def by blast
qed

lemma env_keeps:
  assumes "env_ok env"
  shows "block_ok lb \<Longrightarrow> block_ok (e_readInputs env lb)"
    and "block_ok lb \<Longrightarrow> block_ok (e_writeOutput env ns eo lb)"
    and "objects_ok objs \<Longrightarrow> objects_ok (e_reset env ns c objs)"
proof -
  note env = assms[unfolded env_ok_def]
  have "computes lb (e_readInputs env lb)" "computes lb (e_writeOutput env ns eo lb)"
    using env by blast+
  then show "block_ok lb \<Longrightarrow> block_ok (e_readInputs env lb)"
    and "block_ok lb \<Longrightarrow> block_ok (e_writeOutput env ns eo lb)"
    using computes_ok by blast+
  have "computes (objs m) (e_reset env ns c objs m)" for m
    using env by simp
  then show "objects_ok objs \<Longrightarrow> objects_ok (e_reset env ns c objs)"
    using computes_ok unfolding objects_ok_def by blast
qed

lemma put_ecet_fields [simp]:
  "mContInstanceName (put_ecet t c) = mContInstanceName c" "mChildren (put_ecet t c) = mChildren c"
  by (simp_all add: put_ecet_def split: container_kind.split)

lemma container_ok_fields:
  assumes "container_ok rt c" "mContInstanceName c' = mContInstanceName c" "mChildren c' = mChildren c"
  shows "container_ok rt c'"
  using assms by (cases c; cases c') simp

lemma container_ok_put_child:
  assumes "container_ok rt c" "getChild rt n (mChildren c) = Some it"
    and "container_ok rt x" "mContInstanceName x = mContInstanceName (mChildren c ! it)"
  shows "container_ok rt (set_children ((mChildren c)[it := x]) c)"
  using container_okD [OF assms(1)] assms(3,4)
  by (intro container_ok_set_nth [OF assms(1) container_okD(2) [OF assms(1)]]) simp_all

lemma objects_ok_below: "objects_ok objs \<Longrightarrow> objects_ok (below n objs)"
  by (simp add: objects_ok_def below_def)

lemma objects_ok_put_below: "objects_ok objs \<Longrightarrow> objects_ok objs' \<Longrightarrow> objects_ok (put_below n objs' objs)"
  by (simp add: objects_ok_def put_below_def split: list.split)

lemma objects_ok_put_objects: "objects_ok objs \<Longrightarrow> objects_ok new \<Longrightarrow> objects_ok (put_objects ns new objs)"
  by (simp add: objects_ok_def put_objects_def)

lemma objects_ok_upd: "objects_ok objs \<Longrightarrow> block_ok lb \<Longrightarrow> objects_ok (objs(ns := lb))"
  by (simp add: objects_ok_def)

lemma no_object_ok: "block_ok no_object"
  by (simp add: no_object_def block_ok_def)

lemma setForced_num_ok: "setForced_num num force b lb = (r, b', lb') \<Longrightarrow> block_ok lb \<Longrightarrow> block_ok lb'"
  by (auto simp: setForced_num_def Let_def block_ok_def split: if_splits)

lemma setForced_names_ok:
  assumes "setForced_names rt ns force c objs = (r, c', objs')" "container_ok rt c" "objects_ok objs"
  shows "container_ok rt c' \<and> objects_ok objs' \<and> mContInstanceName c' = mContInstanceName c"
  using assms
proof (induction rt ns force c objs arbitrary: r c' objs' rule: setForced_names.induct)
  case (2 rt n ns force c objs)
  show ?case
  proof (cases "forced_pin (mKind c) n ns")
    case (Some nb)
    obtain num b b' lb' r' where nb: "nb = (num, b)" and f: "setForced_num num force b (objs []) = (r', b', lb')"
      by (metis prod_cases3 surj_pair)
    have "c' = put_block b' c" "objs' = objs([] := lb')"
      using 2(2) Some f by (auto simp: nb)
    then show ?thesis
      using 2(3,4) setForced_num_ok [OF f] container_ok_fields [OF 2(3), of "put_block b' c"]
      by (simp add: objects_ok_def)
  next
    case pin: None
    show ?thesis
    proof (cases "getChild rt n (mChildren c)")
      case None
      then show ?thesis
        using 2 pin by auto
    next
      case (Some it)
      define child where "child = mChildren c ! it"
      obtain r' x objs'' where rec: "setForced_names rt ns force child (below (mContInstanceName child) objs) = (r', x, objs'')"
        by (metis prod_cases3)
      have child: "container_ok rt child"
        using container_okD(3) [OF 2(3)] getChild_Some(1) [OF Some] by (simp add: child_def)
      have IH: "container_ok rt x \<and> objects_ok objs'' \<and> mContInstanceName x = mContInstanceName child"
        using 2(1) [OF pin Some child_def refl rec child objects_ok_below [OF 2(4)]] .
      have "c' = set_children ((mChildren c)[it := x]) c" "objs' = put_below (mContInstanceName child) objs'' objs"
        using 2(2) pin Some rec by (auto simp: child_def)
      then show ?thesis
        using container_ok_put_child [OF 2(3) Some] IH objects_ok_put_below 2(4) by (simp add: child_def)
    qed
  qed
qed simp

lemma write_inout_objects:
  assumes "write_inout rt ns w st = Some st'"
  shows "\<exists>objs. st' = st\<lparr>lv_objects := objs\<rparr> \<and> (objects_ok (lv_objects st) \<longrightarrow> objects_ok objs)"
proof (cases "inout_output rt ns (lv_tree st)")
  case (Some x)
  obtain bs i where x: "x = (bs, i)"
    by (cases x)
  obtain a owner j where ref: "lb_DIORef (lv_objects st bs) ! i = (a, owner, j)"
    by (metis prod_cases3)
  let ?lb = "(lv_objects st owner)\<lparr>lb_DIOOut := (lb_DIOOut (lv_objects st owner))[j := w]\<rparr>"
  have "st' = st \<or> st' = st\<lparr>lv_objects := (lv_objects st)(owner := ?lb)\<rparr>"
    using assms Some ref by (auto simp: write_inout_def x Let_def split: if_splits)
  moreover have "objects_ok (lv_objects st) \<Longrightarrow> block_ok ?lb"
    by (simp add: objects_ok_def block_ok_def)
  ultimately show ?thesis
    using objects_ok_upd [of "lv_objects st" ?lb owner]
    by (elim disjE) (auto intro: exI [of _ "lv_objects st"])
next
  case None
  then show ?thesis
    using assms by (intro exI [of _ "lv_objects st"]) (simp add: write_inout_def)
qed

lemma emplace_initial_fields [simp]:
  "lv_tree (emplace_initial ns v st) = lv_tree st" "lv_objects (emplace_initial ns v st) = lv_objects st"
  "mFBMonitoringList (emplace_initial ns v st') = mFBMonitoringList st'"
  by (simp_all add: emplace_initial_def)

lemma parsed_value_ok:
  assumes "objects_ok objs" "getVar rt objs ns c = Some pl"
    and "any_fromString (place_type objs pl) v (place_value objs pl) = Some (n, w)"
  shows "objects_ok (put_value pl w objs)"
proof -
  have "value_ok objs pl (place_value objs pl)"
    using live.get_fits [OF assms(1,2)] .
  then have "value_ok objs pl w"
    using any_parser.keeps [of "place_type objs pl" "place_value objs pl" v n w] assms(3)
    by (simp add: value_ok_def)
  then show ?thesis
    using live.ok_put [OF assms(1,2)] by simp
qed

lemma writeValue_ok:
  assumes "writeValue rt ns v force st = Some (r, st')" "live_ok rt st"
  shows "live_ok rt st'"
proof (cases "getVar rt (lv_objects st) ns (lv_tree st)")
  case (Some pl)
  note ok = live_okD [OF assms(2)]
  show ?thesis
  proof (cases "v = []")
    case False
    obtain n w where parsed: "any_fromString (place_type (lv_objects st) pl) (c_str v) (place_value (lv_objects st) pl) = Some (n, w)"
      using assms(1) Some False by (auto simp: writeValue_def split: option.splits)
    define st1 where "st1 = st\<lparr>lv_objects := put_value pl w (lv_objects st)\<rparr>"
    have ok1: "live_ok rt st1"
      using ok parsed_value_ok [OF ok(2) Some parsed] by (simp add: live_ok_def st1_def)
    have run: "finish_write rt ns v force pl n st1 = Some (r, st')"
      using assms(1) Some False parsed by (simp add: writeValue_def st1_def)
    consider "st' = st1"
      | ok c objs where "setForced_names rt ns True (lv_tree st1) (lv_objects st1) = (ok, c, objs)"
          "lv_tree st' = c" "lv_objects st' = objs" "mFBMonitoringList st' = mFBMonitoringList st1"
      | st2 where "write_inout rt ns (place_value (lv_objects st1) pl) st1 = Some st2"
          "lv_tree st' = lv_tree st2" "lv_objects st' = lv_objects st2" "mFBMonitoringList st' = mFBMonitoringList st2"
      using run by (auto simp: finish_write_def Let_def split: if_splits option.splits prod.splits)
    then show ?thesis
    proof cases
      case 1
      then show ?thesis
        using ok1 by simp
    next
      case 2
      then show ?thesis
        using setForced_names_ok live_okD [OF ok1] by (metis live_okI)
    next
      case 3
      then show ?thesis
        using write_inout_objects live_okD [OF ok1] by (fastforce intro: live_okI)
    qed
  qed (use assms Some in \<open>auto simp: writeValue_def\<close>)
qed (use assms in \<open>auto simp: writeValue_def\<close>)

lemma set_initial_value_ok:
  "set_initial_value rt nv st = Some st' \<Longrightarrow> live_ok rt st \<Longrightarrow> live_ok rt st'"
  using parsed_value_ok [of "lv_objects st" rt "fst nv" "lv_tree st"]
  by (fastforce simp: set_initial_value_def live_ok_def split: option.splits prod.splits)

lemma set_initial_values_ok: "set_initial_values rt nvs st = Some st' \<Longrightarrow> live_ok rt st \<Longrightarrow> live_ok rt st'"
  by (induction nvs arbitrary: st) (auto split: option.splits dest: set_initial_value_ok)

lemma addWatch_ok:
  assumes "runtime_ok rt" "live_ok rt st" "addWatch rt ns st = Some (r, st')"
  shows "live_ok rt st'"
proof -
  note ok = live_okD [OF assms(2)]
  have "monitor_ok rt (mFBMonitoringList st')" "st' = st\<lparr>mFBMonitoringList := mFBMonitoringList st'\<rparr>"
    using addWatch_refines [OF assms(1) ok(3) assms(3)] by auto
  then show ?thesis
    using ok by (metis live_okI live_resource.select_convs(1) live_values.surjective live_values.update_convs(1)
        live_resource.surjective live_resource.update_convs(1) live_values.select_convs(1,2))
qed

lemma removeWatch_ok:
  assumes "runtime_ok rt" "live_ok rt st" "removeWatch rt ns st = (r, st')"
  shows "live_ok rt st'"
proof -
  note ok = live_okD [OF assms(2)]
  have *: "monitor_ok rt (mFBMonitoringList st')" "st' = st\<lparr>mFBMonitoringList := mFBMonitoringList st'\<rparr>"
    using removeWatch_refines [OF assms(1) ok(3) assms(3)] by auto
  have "lv_tree st' = lv_tree st" "lv_objects st' = lv_objects st"
    by (subst *(2), simp)+
  then show ?thesis
    using ok *(1) by (simp add: live_ok_def)
qed

lemma update_all_keys:
  assumes "update_all f es = Some es'" "\<And>e e'. e \<in> set es \<Longrightarrow> f e = Some e' \<Longrightarrow> k e' = k e"
  shows "map k es' = map k es"
  using assms by (induction es arbitrary: es') (auto split: option.splits)

lemma update_all_set:
  "update_all f es = Some es' \<Longrightarrow> e' \<in> set es' \<Longrightarrow> \<exists>e\<in>set es. f e = Some e'"
  by (induction es arbitrary: es') (auto split: option.splits)

lemma update_entry_fields:
  assumes "update_entry rt st e = Some e'"
  shows "me_FB e' = me_FB e" "entry_ok rt e \<Longrightarrow> entry_ok rt e'"
  using assms
  by (auto simp: update_entry_def entry_ok_def data_update_def event_update_def comp_def split: if_splits)

lemma readWatches_ok:
  assumes "readWatches rt st = Some (r, text, st')" "live_ok rt st"
  shows "live_ok rt st'"
proof (cases "mFBMonitoringList st = []")
  case False
  then obtain es where up: "update_all (update_entry rt st) (mFBMonitoringList st) = Some es"
      and st': "st' = st\<lparr>mFBMonitoringList := es\<rparr>"
    using assms(1)
    by (auto simp: readWatches_def readResourceWatches_def updateMonitoringData_def split: option.splits)
  note ok = live_okD [OF assms(2)]
  have "map me_FB es = map me_FB (mFBMonitoringList st)"
    using update_all_keys [OF up] update_entry_fields(1) by blast
  moreover have "entry_ok rt e" if "e \<in> set es" for e
    using update_all_set [OF up that] update_entry_fields(2) ok(3) unfolding monitor_ok_def by blast
  ultimately show ?thesis
    using ok by (simp add: live_ok_def monitor_ok_def st')
qed (use assms in \<open>auto simp: readWatches_def readResourceWatches_def\<close>)

lemma monitor_getFB_node:
  assumes "monitor_getFB rt ns c = Some (p, fbNames, port)" "container_ok rt c"
    and "mContInstanceName x = mContInstanceName (node_at p c)" "mChildren x = mChildren (node_at p c)"
  shows "container_ok rt (set_node_at p x c)"
proof -
  obtain rest where "getFB rt ns c = Some (p, rest)"
    using assms(1) by (auto simp: monitor_getFB_def)
  from node_ok [OF assms(2) this, of x] show ?thesis
    using assms(3,4) container_ok_fields [of rt "node_at p c" x] by auto
qed

lemma block_sendOutputEvent_ok:
  assumes "block_sendOutputEvent writeOutput p fbNames eo st = Some st'" "live_ok rt st"
    and "monitor_getFB rt ns (lv_tree st) = Some (p, fbNames, port)"
    and "\<And>ns eo lb. block_ok lb \<Longrightarrow> block_ok (writeOutput ns eo lb)"
  shows "live_ok rt st'"
proof -
  note ok = live_okD [OF assms(2)]
  define x where "x = node_at p (lv_tree st)"
  have tree: "container_ok rt (set_node_at p (put_block b x) (lv_tree st))" for b
    using assms(3) ok(1) by (rule monitor_getFB_node) (simp_all add: x_def)
  have objs: "objects_ok ((lv_objects st)(fbNames := writeOutput fbNames eo (lv_objects st fbNames)))"
    using ok(2) assms(4) by (simp add: objects_ok_def)
  obtain b where b: "node_block x = Some b"
    using assms(1) by (auto simp: block_sendOutputEvent_def Let_def x_def split: option.splits)
  show ?thesis
  proof (cases "eo < getNumEOs (mInterfaceSpec b)")
    case True
    define c where "c = set_node_at p (put_block (count_event
        (length (mEventMonitorCount b) - getNumEOs (mInterfaceSpec b) + eo) b) x) (lv_tree st)"
    have "\<exists>c'. (c' = c \<or> (\<exists>t. c' = put_ecet t c)) \<and>
        st' = st\<lparr>lv_objects := (lv_objects st)(fbNames := writeOutput fbNames eo (lv_objects st fbNames)), lv_tree := c'\<rparr>"
      using assms(1) b True
      by (auto simp: block_sendOutputEvent_def Let_def c_def simp flip: x_def split: if_splits option.splits)
    moreover have "container_ok rt c"
      using tree by (simp add: c_def)
    ultimately show ?thesis
      using container_ok_fields [of rt c] objs ok(3) by (auto simp: live_ok_def)
  qed (use assms(1,2) b in \<open>auto simp: block_sendOutputEvent_def Let_def simp flip: x_def\<close>)
qed

lemma live_ok_put_ecet: "live_ok rt st \<Longrightarrow> live_ok rt (st\<lparr>lv_tree := put_ecet t (lv_tree st)\<rparr>)"
  using container_ok_fields [of rt "lv_tree st" "put_ecet t (lv_tree st)"] by (simp add: live_ok_def)

lemma triggerEvent_ok:
  assumes "triggerEvent_command writeOutput rt ns st = Some (r, st')" "live_ok rt st"
    and "\<And>ns eo lb. block_ok lb \<Longrightarrow> block_ok (writeOutput ns eo lb)"
  shows "live_ok rt st'"
proof -
  consider "st' = st" | t where "st' = st\<lparr>lv_tree := put_ecet t (lv_tree st)\<rparr>"
    | p fbNames port eo st1 t where "monitor_getFB rt (butlast ns) (lv_tree st) = Some (p, fbNames, port)"
        "block_sendOutputEvent writeOutput p fbNames eo st = Some st1"
        "st' = st1\<lparr>lv_tree := put_ecet t (lv_tree st1)\<rparr>"
    using assms(1) by (auto simp: triggerEvent_command_def Let_def split: if_splits option.splits)
  then show ?thesis
  proof cases
    case 3
    then show ?thesis
      using block_sendOutputEvent_ok [OF 3(2) assms(2) 3(1) assms(3)] live_ok_put_ecet by blast
  qed (use assms(2) live_ok_put_ecet in auto)
qed

lemma resetEventCount_ok:
  assumes "resetEventCount rt ns st = Some (r, st')" "live_ok rt st"
  shows "live_ok rt st'"
proof -
  consider "st' = st"
    | p fbNames port b where "monitor_getFB rt (butlast ns) (lv_tree st) = Some (p, fbNames, port)"
        "st' = st\<lparr>lv_tree := set_node_at p (put_block b (node_at p (lv_tree st))) (lv_tree st)\<rparr>"
    using assms(1) by (auto simp: resetEventCount_def Let_def split: if_splits option.splits)
  then show ?thesis
    using assms(2) monitor_getFB_node by cases (auto simp: live_ok_def)
qed

lemma clearForce_ok: "clearForce rt ns st = (r, st') \<Longrightarrow> live_ok rt st \<Longrightarrow> live_ok rt st'"
  using setForced_names_ok by (fastforce simp: clearForce_def live_ok_def split: prod.splits)


lemma executeMonitoringCommand_ok:
  assumes "executeMonitoringCommand writeOutput rt cmd st = Some (r, cmd', st')" "live_ok rt st" "runtime_ok rt"
    and "\<And>ns eo lb. block_ok lb \<Longrightarrow> block_ok (writeOutput ns eo lb)"
  shows "live_ok rt st'"
  using assms(1,2)
  by (cases "mCMD cmd")
    (auto simp: executeMonitoringCommand_def Let_def with_cmd_def
      intro: addWatch_ok [OF assms(3,2)] removeWatch_ok [OF assms(3,2) prod.collapse [symmetric]]
        readWatches_ok [OF _ assms(2)] writeValue_ok [OF _ assms(2)] clearForce_ok [OF prod.collapse [symmetric] assms(2)]
        triggerEvent_ok [OF _ assms(2,4)] resetEventCount_ok [OF _ assms(2)])

lemma reset_values_ok:
  assumes "reset_values env target r st = Some st'" "live_ok (e_rt env) st" "env_ok env"
  shows "live_ok (e_rt env) st'"
proof -
  define setInit :: "'a live_resource_scheme \<Rightarrow> 'a live_resource_scheme option"
    where "setInit = set_initial_values (e_rt env) (e_order env (mInitialValues st))"
  note keep = set_initial_values_ok [of "e_rt env" "e_order env (mInitialValues st)", folded setInit_def]
  have reset: "live_ok (e_rt env) (st1\<lparr>lv_objects := e_reset env target (lv_tree st1) (lv_objects st1)\<rparr>)"
    if "live_ok (e_rt env) st1" for st1
    using that env_keeps(3) [OF assms(3)] by (simp add: live_ok_def)
  obtain st1 where st1: "st1 = st \<or> setInit st = Some st1"
      "st' = st1\<lparr>lv_objects := e_reset env target (lv_tree st1) (lv_objects st1)\<rparr> \<or>
       setInit (st1\<lparr>lv_objects := e_reset env target (lv_tree st1) (lv_objects st1)\<rparr>) = Some st'"
    using assms(1) by (auto simp: reset_values_def Let_def setInit_def split: if_splits option.splits)
  from st1(1) have "live_ok (e_rt env) st1"
    using keep assms(2) by (auto simp: setInit_def)
  from reset [OF this] st1(2) show ?thesis
    using keep by (auto simp: setInit_def)
qed

lemma command_values_ok:
  assumes "command_values env cmd r st = Some st'" "live_ok (e_rt env) st" "env_ok env"
  shows "live_ok (e_rt env) st'"
proof -
  have objs: "live_ok (e_rt env) (st\<lparr>lv_objects := objs\<rparr>)" if "objects_ok objs" for objs
    using assms(2) that by (simp add: live_ok_def)
  have "objects_ok (\<lambda>_. no_object)" "objects_ok (e_fresh env ns)" for ns
    using assms(3) no_object_ok by (simp_all add: env_ok_def objects_ok_def)
  moreover have "objects_ok ((lv_objects st)([] := e_readInputs env (lv_objects st [])))"
    using live_okD(2) [OF assms(2)] env_keeps(1) [OF assms(3)]
    by (intro objects_ok_upd) (simp_all add: objects_ok_def)
  ultimately show ?thesis
    using assms objs reset_values_ok [OF _ assms(2,3)] objects_ok_put_objects [OF live_okD(2) [OF assms(2)]]
    by (auto simp: command_values_def Let_def split: EMGMCommandType.splits if_splits)
qed

lemma tree_command_ok:
  assumes "tree_command env cmd st = Some (r, cmd', st')" "live_ok (e_rt env) st" "env_ok env"
    and "None \<notin> set (mFirstParam cmd)"
  shows "live_ok (e_rt env) st'"
proof -
  obtain r0 cmd0 c st1 where x: "executeMGMCommand (e_rt env) (e_setInit env) (e_sample env)
      (\<lambda>cmd c. (UnsupportedCmd, cmd, no_changes)) cmd (lv_tree st) = Some (r0, cmd0, c)"
    and st1: "command_values env cmd0 r0 st = Some st1" "st' = st1\<lparr>lv_tree := c\<rparr>"
    using assms(1) by (auto simp: tree_command_def split: option.splits)
  have "runtime_ok (e_rt env)"
    using assms(3) by (simp add: env_ok_def)
  from executeMGMCommand_ok(1) [OF this live_okD(1) [OF assms(2)] assms(4) x]
  show ?thesis
    using command_values_ok [OF st1(1) assms(2,3)] by (simp add: live_ok_def st1(2))
qed

lemma set_connections_ok: "live_ok rt st \<Longrightarrow> live_ok rt (set_connections cn st)"
  using change_blocks_ok by (simp add: live_ok_def set_connections_def objects_ok_def block_ok_def)

lemma live_execute_ok:
  assumes "live_execute env cmd st = Some (r, cmd', st')" "live_ok (e_rt env) st" "env_ok env"
    and "None \<notin> set (mFirstParam cmd)"
  shows "live_ok (e_rt env) st'"
proof -
  have env: "runtime_ok (e_rt env)" "\<And>ns eo lb. block_ok lb \<Longrightarrow> block_ok (e_writeOutput env ns eo lb)"
    using assms(3) env_keeps(2) [OF assms(3)] by (simp_all add: env_ok_def)
  consider "st' = st" | "tree_command env cmd st = Some (r, cmd', st')" | cn where "st' = set_connections cn st"
    | "writeValue (e_rt env) (mFirstParam cmd) (mAdditionalParams cmd) False st = Some (r, st')"
    | "executeMonitoringCommand (e_writeOutput env) (e_rt env) cmd st = Some (r, cmd', st')"
    using assms(1)
    by (auto simp: live_execute_def Let_def with_cmd_def split: if_splits EMGMCommandType.splits prod.splits)
  then show ?thesis
  proof cases
    case 1
    then show ?thesis using assms(2) by simp
  next
    case 2
    then show ?thesis using tree_command_ok assms(2-4) by blast
  next
    case 3
    then show ?thesis using set_connections_ok assms(2) by blast
  next
    case 4
    then show ?thesis using writeValue_ok assms(2) by blast
  next
    case 5
    then show ?thesis using executeMonitoringCommand_ok [OF 5 assms(2) env(1,2)] by blast
  qed
qed

section \<open>Sessions\<close>

text \<open>Between two commands the blocks run: they change their states, counts and forces, the resource its event chain,
  and their own code assigns to their variables.\<close>

inductive live_reachable :: "'z resource_env \<Rightarrow> 'z live_resource_scheme \<Rightarrow> 'z live_resource_scheme \<Rightarrow> bool"
  for env st0 where
  start: "live_reachable env st0 st0"
| command: "live_reachable env st0 st \<Longrightarrow> None \<notin> set (mFirstParam cmd) \<Longrightarrow>
    live_execute env cmd st = Some (r, cmd', st') \<Longrightarrow> live_reachable env st0 st'"
| run: "live_reachable env st0 st \<Longrightarrow> (\<And>ns. computes (lv_objects st ns) (objs ns)) \<Longrightarrow>
    live_reachable env st0 (st\<lparr>lv_tree := change_blocks d [] (lv_tree st), lv_objects := objs\<rparr>)"

lemma run_ok:
  assumes "live_ok rt st" "\<And>ns. computes (lv_objects st ns) (objs ns)"
  shows "live_ok rt (st\<lparr>lv_tree := change_blocks d [] (lv_tree st), lv_objects := objs\<rparr>)"
proof -
  have "block_ok (objs ns)" for ns
    using computes_ok [OF assms(2)] live_okD(2) [OF assms(1)] by (simp add: objects_ok_def)
  then show ?thesis
    using assms(1) change_blocks_ok by (simp add: live_ok_def objects_ok_def)
qed

end
