(* ===== verification/Resource_Properties.thy ===== *)
theory Resource_Properties
imports Resource_Sessions
begin

text \<open>
  The properties of the values, watches and queries of a resource, with a resource of one block as the example.
\<close>

section \<open>Forced values\<close>

lemma setForced_num_pins: "setForced_num num f b lb = (r, b', lb') \<Longrightarrow> slot_pin s lb' = slot_pin s lb"
  by (cases s) (auto simp: setForced_num_def Let_def split: if_splits)

lemma setForced_names_pins:
  "setForced_names rt ns f c objs = (r, c', objs') \<Longrightarrow> slot_pin s (objs' bs) = slot_pin s (objs bs)"
proof (induction rt ns f c objs arbitrary: r c' objs' bs rule: setForced_names.induct)
  case (2 rt n ns f c objs)
  show ?case
  proof (cases "forced_pin (mKind c) n ns")
    case (Some x)
    then show ?thesis
      using 2(2) setForced_num_pins by (auto split: prod.splits)
  next
    case pin: None
    show ?thesis
    proof (cases "getChild rt n (mChildren c)")
      case None
      then show ?thesis
        using 2(2) pin by simp
    next
      case (Some it)
      define m where "m = mContInstanceName (mChildren c ! it)"
      obtain r0 x o0 where run: "setForced_names rt ns f (mChildren c ! it) (below m objs) = (r0, x, o0)"
        by (metis prod_cases3)
      have "slot_pin s (o0 bs) = slot_pin s (below m objs bs)" for bs
        using 2(1) [OF pin Some refl refl, folded m_def, OF run] .
      moreover have "objs' = put_below m o0 objs"
        using 2(2) pin Some run by (simp add: m_def)
      ultimately show ?thesis
        by (auto simp: put_below_def below_def split: list.split)
    qed
  qed
qed simp

lemma setForced_names_value:
  "setForced_names rt ns f c objs = (r, c', objs') \<Longrightarrow> place_value objs' pl = place_value objs pl"
  using setForced_names_pins by (fastforce simp: place_value_def split: prod.split)

section \<open>Texts of strings\<close>

lemma string_loop_unclosed: "apostrophe \<notin> set s \<Longrightarrow> string_loop s out i = None"
proof (induction s out i rule: string_loop.induct)
  case (1 s out i)
  show ?case
  proof (cases s)
    case (Cons ch r)
    have "apostrophe \<notin> set (drop k r)" for k
      using 1(4) Cons by (auto dest: in_set_dropD)
    then show ?thesis
      using 1 Cons by (subst string_loop.simps) auto
  qed (simp add: string_loop.simps)
qed

lemma unquoted_STRING: "apostrophe \<notin> set s \<Longrightarrow> CIEC_STRING_fromString s = (-1, [])"
  using in_set_dropD [of apostrophe _ s]
  by (auto simp: CIEC_STRING_fromString_def STRING_start_def string_loop_unclosed Let_def)

lemma high_byte:
  fixes w :: ubyte
  assumes "bit w 7" "char_code ch < 128"
  shows "char_of (unat w) \<noteq> ch"
proof
  assume "char_of (unat w) = ch"
  moreover have "unat w < 2 ^ LENGTH(8)"
    by (rule unsigned_less)
  ultimately have "char_code ch = unat w"
    by (auto simp: char_code_def of_char_of)
  moreover have "odd (unat w div 2 ^ 7)"
    using assms(1) bit_iff_odd [of "unat w" 7] by (simp add: bit_unsigned_iff)
  ultimately show False
    using assms(2) by simp
qed

lemma char_codepoint: "unat (of_nat (of_char ch) :: codepoint) = char_code ch"
proof -
  have "of_char ch < (4294967296 :: nat)"
    by (rule less_trans [OF char_code_less [of ch, unfolded char_code_def]]) simp
  then show ?thesis
    by (simp add: char_code_def unat_of_nat)
qed

lemma code_point_small:
  assumes "char_code ch < 128"
  shows "code_point_text ch = Some [ch]"
proof -
  have "(of_nat (of_char ch) :: codepoint) < 0x80"
    using assms by (simp add: char_code_def word_less_nat_alt unat_of_nat)
  moreover have "char_of (unat (ucast (of_nat (of_char ch) :: codepoint) :: ubyte)) = ch"
    using assms by (simp add: char_code_def unat_of_nat unsigned_ucast_eq take_bit_eq_mod)
  ultimately show ?thesis
    by (simp add: code_point_text_def encodeUTF8Codepoint_def fits_def)
qed

lemma code_point_other:
  assumes "code_point_text ch = Some u" "c \<noteq> ch" "char_code c < 128"
  shows "c \<notin> set u"
proof (cases "char_code ch < 128")
  case True
  then show ?thesis
    using assms code_point_small by auto
next
  case False
  then have "\<not> (of_nat (of_char ch) :: codepoint) < 0x80" "(of_nat (of_char ch) :: codepoint) < 0x800"
    using char_code_less [of ch] by (simp_all add: word_less_nat_alt char_codepoint)
  then have u: "u = [char_of (unat (ucast (0xc0 OR (drop_bit 6 (of_nat (of_char ch) :: codepoint) AND 0x1f)) :: ubyte)),
      char_of (unat (ucast (0x80 OR ((of_nat (of_char ch) :: codepoint) AND 0x3f)) :: ubyte))]"
    using assms(1) by (simp add: code_point_text_def encodeUTF8Codepoint_def fits_def)
  have "bit (ucast (0xc0 OR x) :: ubyte) 7" "bit (ucast (0x80 OR x) :: ubyte) 7" for x :: codepoint
    by (simp_all add: bit_ucast_iff bit_or_iff)
  then show ?thesis
    using high_byte [OF _ assms(3)] unfolding u by (metis empty_iff empty_set set_ConsD)
qed

lemma code_point_Some: "\<exists>u. code_point_text ch = Some u \<and> u \<noteq> []"
proof -
  have "(of_nat (of_char ch) :: codepoint) < 0x110000"
    using char_code_less [of ch] by (simp add: word_less_nat_alt char_codepoint)
  then show ?thesis
    by (auto simp: code_point_text_def encodeUTF8Codepoint_def fits_def)
qed

lemma STRING_toUTF8_chars:
  "c \<notin> set s \<Longrightarrow> char_code c < 128 \<Longrightarrow> c \<notin> set (STRING_toUTF8 s)"
proof (induction s)
  case (Cons ch s)
  obtain u where "code_point_text ch = Some u"
    using code_point_Some by blast
  then show ?case
    using Cons code_point_other [of ch u c] by auto
qed simp

lemma STRING_toUTF8_nonempty: "s \<noteq> [] \<Longrightarrow> STRING_toUTF8 s \<noteq> []"
  using code_point_Some [of "hd s"] by (cases s) auto

lemma STRING_toUTF8_ascii: "\<forall>ch\<in>set s. char_code ch < 128 \<Longrightarrow> STRING_toUTF8 s = s"
  by (induction s) (simp_all add: code_point_small)

section \<open>Initial values\<close>

lemma single_initial_value:
  assumes "objects_ok (lv_objects st)" "getVar rt (lv_objects st) ns (lv_tree st) = Some pl"
    and "any_fromString (place_type (lv_objects st) pl) (c_str v) (place_value (lv_objects st) pl) = Some (n, w)"
  shows "\<exists>st'. set_initial_values rt [(ns, v)] st = Some st' \<and> place_value (lv_objects st') pl = w"
  using assms live.get_put [OF assms(1,2)] by (simp add: set_initial_value_def)

section \<open>Writing a fitting text\<close>

lemma writeValue_fits:
  assumes "objects_ok (lv_objects st)" "getVar rt (lv_objects st) ns (lv_tree st) = Some pl"
    and "place_type (lv_objects st) pl = ty" "fitting_text (lv_objects st) pl x []"
    and "inout_output rt ns (lv_tree st) = None"
  defines "v \<equiv> any_toString ty x"
  shows "v \<noteq> [] \<and> (\<exists>w. writeValue rt ns v False st =
      Some (Ready, emplace_initial ns v (st\<lparr>lv_objects := put_value pl w (lv_objects st)\<rparr>)) \<and> same_value ty x w)"
proof -
  obtain w where w: "any_fromString ty (c_str v) (place_value (lv_objects st) pl) = Some (int (length v), w)"
      "same_value ty x w" "v \<noteq> []"
    using fitting_text_parsed [OF assms(1,2,4)] by (auto simp: assms(3) v_def)
  then show ?thesis
    using assms(2,3,5) by (intro conjI exI [of _ w]) (simp_all add: writeValue_def finish_write_def write_inout_def)
qed

section \<open>Listed blocks\<close>

text \<open>The blocks a query lists, with the names that lead to them.\<close>

fun listed :: "CFBContainer \<Rightarrow> (TNameIdentifier \<times> CFBContainer) list" where
  "listed (CFBContainer n k cs) =
     concat (map (\<lambda>c. if isFB c then [([mContInstanceName c], c)]
                     else map (\<lambda>(ns, x). (mContInstanceName c # ns, x)) (listed c)) cs)"

definition listed_line :: "objects \<Rightarrow> string \<Rightarrow> TNameIdentifier \<times> CFBContainer \<Rightarrow> string" where
  "listed_line objs prefix e =
     (case e of (ns, x) \<Rightarrow>
        case node_block x of
          None \<Rightarrow> []
        | Some b \<Rightarrow> createFBResponseMessage b (objs ns) (prefix @ appendIdentifierName ns) [])"

lemma listed_nonempty: "(ns, x) \<in> set (listed c) \<Longrightarrow> ns \<noteq> []"
  by (cases c) (auto split: if_splits)

lemma listed_line_below:
  assumes "ns \<noteq> []"
  shows "listed_line (below m objs) (prefix @ id_text m @ ''.'') (ns, x) = listed_line objs prefix (m # ns, x)"
  using assms by (cases ns) (simp_all add: listed_line_def below_def split: option.split)

lemma response_appends: "createFBResponseMessage b lb name v = v @ createFBResponseMessage b lb name []"
  by (simp add: createFBResponseMessage_def)

lemma queryFBs_listed:
  "queryFBs v objs prefix c = v @ concat (map (listed_line objs prefix) (listed c))"
  "query_children v objs prefix cs =
     v @ concat (map (listed_line objs prefix) (listed (CFBContainer n k cs)))"
proof (induction v objs prefix c and v objs prefix cs arbitrary: and n k rule: queryFBs_query_children.induct)
  case (3 v objs prefix c cs)
  define m where "m = mContInstanceName c"
  define X where "X = concat (map (listed_line (below m objs) (prefix @ id_text m @ ''.'')) (listed c))"
  have lines: "concat (map (listed_line objs prefix) (map (\<lambda>(ns, x). (m # ns, x)) (listed c))) = X"
    unfolding X_def using listed_nonempty
    by (intro arg_cong [where f = concat]) (auto simp: listed_line_below)
  show ?case
  proof (cases "node_block c")
    case None
    have q: "queryFBs v (below m objs) (prefix @ id_text m @ ''.'') c = v @ X"
      using 3(1) None by (simp add: m_def X_def)
    then have run: "query_children v objs prefix (c # cs) = query_children (v @ X) objs prefix cs"
      using None by (simp add: Let_def m_def)
    have rest: "query_children (v @ X) objs prefix cs =
        (v @ X) @ concat (map (listed_line objs prefix) (listed (CFBContainer n k cs)))"
      using 3(2) None q by (simp add: m_def)
    have parts: "listed (CFBContainer n k (c # cs)) =
        map (\<lambda>(ns, x). (m # ns, x)) (listed c) @ listed (CFBContainer n k cs)"
      using None isFB_block [of c] by (simp add: m_def)
    have "concat (map (listed_line objs prefix) (listed (CFBContainer n k (c # cs)))) =
        X @ concat (map (listed_line objs prefix) (listed (CFBContainer n k cs)))"
      by (subst parts) (simp only: map_append concat_append lines)
    then show ?thesis
      using trans [OF run rest] by (metis append_assoc)
  next
    case (Some b)
    have "createFBResponseMessage b (objs [m]) (prefix @ id_text m) v = v @ listed_line objs prefix ([m], c)"
      by (subst response_appends) (simp add: listed_line_def Some)
    then show ?thesis
      using 3 Some isFB_block [of c] by (simp add: Let_def m_def)
  qed
qed simp_all

lemma follow_child:
  assumes "runtime_ok rt" "container_ok rt c"
  shows "follow_names rt (n # ns) c = Some x \<longleftrightarrow>
    (\<exists>y\<in>set (mChildren c). mContInstanceName y = n \<and> follow_names rt ns y = Some x)"
  (is "?l = ?r")
proof
  assume ?l
  then obtain it where "getChild rt n (mChildren c) = Some it" "follow_names rt ns (mChildren c ! it) = Some x"
    by (auto split: option.splits)
  then show ?r
    using getChild_name [OF assms(1)] by (metis nth_mem)
next
  assume ?r
  then obtain i where i: "i < length (mChildren c)" "mContInstanceName (mChildren c ! i) = n"
      "follow_names rt ns (mChildren c ! i) = Some x"
    by (auto simp: in_set_conv_nth)
  note ok = container_okD [OF assms(2)]
  have "n \<noteq> None"
    using container_okD(1) [OF ok(3) [OF nth_mem [OF i(1)]]] i(2) by simp
  then have "getChild rt n (mChildren c) = Some i"
    using iterator_nth [OF ok(2) i(1)] i(2) by (simp add: getChild_def)
  then show ?l
    using i(3) by simp
qed

text \<open>A block is listed when the names lead to it through containers that are no blocks.\<close>

fun leads_to_block :: "runtime \<Rightarrow> TNameIdentifier \<Rightarrow> CFBContainer \<Rightarrow> CFBContainer \<Rightarrow> bool" where
  "leads_to_block rt [] c x = False"
| "leads_to_block rt [n] c x = (follow_names rt [n] c = Some x \<and> isFB x)"
| "leads_to_block rt (n # ns) c x = (\<exists>y. follow_names rt [n] c = Some y \<and> \<not> isFB y \<and> leads_to_block rt ns y x)"

lemma listed_iff:
  assumes "runtime_ok rt"
  shows "container_ok rt c \<Longrightarrow> (ns, x) \<in> set (listed c) \<longleftrightarrow> leads_to_block rt ns c x"
proof (induction c arbitrary: ns)
  case (CFBContainer n k cs)
  have ok: "\<And>y. y \<in> set cs \<Longrightarrow> container_ok rt y"
    using CFBContainer.prems by simp
  have step: "follow_names rt [m] (CFBContainer n k cs) = Some y \<longleftrightarrow> y \<in> set cs \<and> mContInstanceName y = m" for m y
    using follow_child [OF assms CFBContainer.prems, of m "[]" y] by (auto simp del: follow_names.simps(2))
  have IH: "(ms, x) \<in> set (listed y) \<longleftrightarrow> leads_to_block rt ms y x" if "y \<in> set cs" for y ms
    using CFBContainer.IH [OF that ok [OF that]] .
  show ?case
  proof (cases ns)
    case Nil
    then show ?thesis
      by auto
  next
    case (Cons m ms)
    have "(m # ms, x) \<in> set (listed (CFBContainer n k cs)) \<longleftrightarrow>
        (\<exists>y\<in>set cs. mContInstanceName y = m \<and> (if isFB y then ms = [] \<and> x = y else (ms, x) \<in> set (listed y)))"
      by (force split: if_splits)
    also have "\<dots> \<longleftrightarrow> leads_to_block rt (m # ms) (CFBContainer n k cs) x"
      using listed_nonempty IH by (cases ms) (auto simp: step simp del: follow_names.simps)
    finally show ?thesis
      by (simp add: Cons)
  qed
qed

section \<open>An example\<close>

text \<open>A resource \<open>R\<close> with one block \<open>F\<close>, which has an integer, a structure and a string as inputs.\<close>

definition demo_spec :: SFBInterfaceSpec where
  "demo_spec =
     \<lparr>mEINames = [Some ''REQ''], mEITypeNames = [Some ''Event''], mEONames = [Some ''CNF''], mEOTypeNames = [Some ''Event''],
      mDINames = [Some ''IN'', Some ''POS'', Some ''NAME''], mDONames = [Some ''OUT''], mDIONames = [],
      mSocketNames = [], mPlugNames = []\<rparr>"

definition no_forces :: "bool list" where
  "no_forces = map (\<lambda>_. False) [0..<64]"

definition demo_block :: CFunctionBlock where
  "demo_block =
     \<lparr>mInterfaceSpec = demo_spec, mEventMonitorCount = [0, 0], mForces = no_forces, mFBState = Idle,
      mInputEventConnectionCount = None, mConnRefCount = 0, mDeletable = True\<rparr>"

definition demo_live :: live_block where
  "demo_live =
     \<lparr>lb_addr = 100, lb_typeName = ''DEMO'', mVarInternals = [],
      lb_DI = [\<lparr>pin_type = Simple e_INT, pin_value = Cell 7\<rparr>,
               \<lparr>pin_type = StructOf [(''x'', Simple e_INT)], pin_value = Parts [Cell 0]\<rparr>,
               \<lparr>pin_type = Simple e_STRING, pin_value = Chars ''on''\<rparr>],
      lb_DO = [\<lparr>pin_type = Simple e_INT, pin_value = Cell 7\<rparr>], lb_DIO = [], lb_DOCon = [Cell 7],
      lb_DIOOut = [], lb_DIORef = [], lb_DICon = [False, False, False], lb_DIOIn = [], lb_SocketCon = []\<rparr>"

definition demo_child :: CFBContainer where
  "demo_child = CFBContainer (Some ''F'') (Block demo_block) []"

definition demo_tree :: CFBContainer where
  "demo_tree = CFBContainer (Some ''R'') (Resource example_block None) [demo_child]"

definition demo_objects :: objects where
  "demo_objects = (\<lambda>ns. if ns = [Some ''F''] then demo_live else no_object)"

definition demo_watch :: SFBMonitoringEntry where
  "demo_watch = \<lparr>mFullFBName = ''F'', me_FB = 100, me_names = [Some ''F''], mWatchedDataPoints = [],
     mWatchedEventPoints = [new_event_watch [Some ''REQ''] 0]\<rparr>"

definition demo_state :: "SFBMonitoringEntry list \<Rightarrow> live_resource" where
  "demo_state es =
     \<lparr>lv_tree = demo_tree, lv_objects = demo_objects, mInitialValues = [], mFBMonitoringList = es,
      lr_EOCons = \<lambda>_ eo. \<lparr>mSourceId = \<lparr>mFB = 100, mPortId = eo\<rparr>, mDestinationIds = []\<rparr>\<rparr>"

text \<open>The blocks of the example compute the double of their first input before an event, and a command on connections
  connects the first input.\<close>

definition demo_connect :: "SManagementCMD \<Rightarrow> live_resource \<Rightarrow> EMGMResponse \<times> connections" where
  "demo_connect cmd st =
     (Ready, \<lparr>cn_counts = \<lambda>_. (None, 1), cn_DICon = \<lambda>_. [True], cn_DIOIn = \<lambda>_. [], cn_SocketCon = \<lambda>_. [],
        cn_DIORef = \<lambda>_. [], cn_EOCons = lr_EOCons st\<rparr>)"

fun doubled :: "data_pin list \<Rightarrow> data_pin list" where
  "doubled (p # ps) = (case pin_value p of Cell c \<Rightarrow> p\<lparr>pin_value := Cell (2 * c)\<rparr> | _ \<Rightarrow> p) # ps"
| "doubled [] = []"

definition demo_env :: "unit resource_env" where
  "demo_env =
     \<lparr>e_rt = example_runtime, e_writeOutput = \<lambda>_ _ lb. lb\<lparr>lb_DI := doubled (lb_DI lb)\<rparr>,
      e_setInit = id, e_sample = id, e_readInputs = id, e_fresh = \<lambda>_ _. no_object, e_reset = \<lambda>_ _. id, e_order = id, e_connect = demo_connect, e_query = \<lambda>cmd st. (Ready, [])\<rparr>"

definition demo_command :: "EMGMCommandType \<Rightarrow> TNameIdentifier \<Rightarrow> SManagementCMD" where
  "demo_command c ns =
     \<lparr>mCMD = c, mDestination = None, mFirstParam = ns, mSecondParam = [], mAdditionalParams = ''5'', mID = [],
      mMonitorResponse = []\<rparr>"

abbreviation demo_pin :: "string \<Rightarrow> TNameIdentifier" where
  "demo_pin n \<equiv> [Some ''F'', Some n]"

lemma demo_state_fields [simp]:
  "lv_tree (demo_state es) = demo_tree" "lv_objects (demo_state es) = demo_objects"
  "mInitialValues (demo_state es) = []" "mFBMonitoringList (demo_state es) = es"
  by (simp_all add: demo_state_def)

lemma demo_env_rt [simp]: "e_rt demo_env = example_runtime"
  by (simp add: demo_env_def)

lemma same_form_refl [simp]: "same_form v v"
  by (induction v) (auto simp: list_all2_same)

lemma assigned_refl [simp]: "assigned p p" "list_all2 assigned ps ps"
  by (simp_all add: assigned_def list_all2_same)

lemma assigned_doubled: "list_all2 assigned ps (doubled ps)"
  by (cases ps) (auto simp: assigned_def split: any_state.split)

lemma internals_refl: "list_all2 (\<lambda>(n, p) (n', q). n' = n \<and> assigned p q) xs xs"
  by (induction xs) auto

lemma computes_refl [simp]: "computes lb lb"
  by (simp add: computes_def internals_refl)

lemma demo_env_ok: "env_ok demo_env"
proof -
  have "computes lb (lb\<lparr>lb_DI := doubled (lb_DI lb)\<rparr>)" for lb
    by (simp add: computes_def internals_refl assigned_doubled)
  then show ?thesis
    using example_runtime_ok no_object_ok by (simp add: env_ok_def demo_env_def objects_ok_def)
qed

lemma demo_tree_ok: "container_ok rt demo_tree"
  by (simp add: demo_tree_def demo_child_def)

lemma demo_objects_ok: "objects_ok demo_objects"
  by (simp add: objects_ok_def demo_objects_def no_object_def block_ok_def pin_ok_def demo_live_def member_name_def)

lemma demo_state_ok: "monitor_ok rt es \<Longrightarrow> live_ok rt (demo_state es)"
  using demo_tree_ok demo_objects_ok by (simp add: live_ok_def)

lemma demo_watch_ok: "monitor_ok rt [demo_watch]" "monitor_ok rt []"
  by (simp_all add: monitor_ok_def entry_ok_def demo_watch_def)

lemma demo_getChild:
  "getChild example_runtime (Some ''F'') (mChildren demo_tree) = Some 0"
  "getChild rt n (mChildren demo_child) = None"
  by (simp_all add: getChild_def getChildrenIterator_def isChild_def lower_bound_def id_less_def id_eq_def demo_tree_def
      demo_child_def)

lemma demo_containers:
  "mKind demo_tree = Resource example_block None" "mKind demo_child = Block demo_block"
  "mChildren demo_tree = [demo_child]" "mChildren demo_child = []" "mContInstanceName demo_child = Some ''F''"
  by (simp_all add: demo_tree_def demo_child_def)

lemma demo_slots:
  "data_slot example_block (demo_objects []) n = None"
  "data_slot demo_block demo_live (Some ''IN'') = Some (DI_Slot 0)"
  "data_slot demo_block demo_live (Some ''POS'') = Some (DI_Slot 1)"
  "data_slot demo_block demo_live (Some ''NAME'') = Some (DI_Slot 2)"
  by (simp_all add: data_slot_def port_slot_def example_block_def example_spec_def demo_block_def demo_spec_def demo_objects_def
      no_object_def demo_live_def getPortId_def getDIID_def getDOID_def getDIOID_def cgInvalidPortId_def Let_def)

lemma demo_getVar:
  assumes "data_slot demo_block demo_live n = Some s" "any_getVar (pin_type (slot_pin s demo_live)) ns = Some p"
  shows "getVar example_runtime demo_objects (Some ''F'' # n # ns) demo_tree = Some ([Some ''F''], s, p)"
proof -
  have "getVar example_runtime demo_objects (Some ''F'' # n # ns) demo_tree =
      map_option (\<lambda>(bs, s, p). (Some ''F'' # bs, s, p))
        (getVar example_runtime (below (Some ''F'') demo_objects) (n # ns) demo_child)"
    by (subst getVar.simps(2)) (simp add: demo_containers demo_slots(1) block_of_def Let_def
        demo_getChild(1) [unfolded demo_containers] del: getVar.simps)
  moreover have "below (Some ''F'') demo_objects [] = demo_live"
    by (simp add: below_def demo_objects_def)
  ultimately show ?thesis
    using assms by (simp add: demo_containers block_of_def)
qed


lemma demo_places:
  "getVar example_runtime demo_objects (demo_pin ''IN'') demo_tree = Some ([Some ''F''], DI_Slot 0, [])"
  "getVar example_runtime demo_objects (demo_pin ''POS'' @ [Some ''x'']) demo_tree = Some ([Some ''F''], DI_Slot 1, [0])"
  "getVar example_runtime demo_objects (demo_pin ''NAME'') demo_tree = Some ([Some ''F''], DI_Slot 2, [])"
  using demo_getVar [OF demo_slots(2), of "[]" "[]"] demo_getVar [OF demo_slots(3), of "[Some ''x'']" "[0]"]
    demo_getVar [OF demo_slots(4), of "[]" "[]"]
  by (simp_all add: demo_live_def id_text_def)

lemma demo_types:
  "place_type demo_objects ([Some ''F''], DI_Slot 0, []) = Simple e_INT"
  "place_type demo_objects ([Some ''F''], DI_Slot 1, [0]) = Simple e_INT"
  "place_type demo_objects ([Some ''F''], DI_Slot 2, []) = Simple e_STRING"
  "place_value demo_objects ([Some ''F''], DI_Slot 0, []) = Cell 7"
  "place_value demo_objects ([Some ''F''], DI_Slot 2, []) = Chars ''on''"
  by (simp_all add: place_type_def place_value_def demo_objects_def demo_live_def)

lemma demo_follow:
  "follow_names example_runtime [Some ''F''] demo_tree = Some demo_child"
  "getFB example_runtime [Some ''F''] demo_tree = Some ([0], [])"
  "node_block demo_child = Some demo_block" "isFB demo_child" "node_at [0] demo_tree = demo_child"
  using demo_getChild by (simp_all add: demo_containers node_block_def block_of_def isFB_block)

lemma demo_inout: "inout_output example_runtime (demo_pin ''IN'') demo_tree = None"
  using demo_getChild
  by (simp add: demo_containers example_block_def example_spec_def demo_block_def demo_spec_def getDIID_def getPortId_def
      getEOID_def getDOID_def getDIOID_def getPlugID_def cgInvalidPortId_def Let_def)

lemma demo_texts: "toString_elem e_INT 5 = ''5''" "toString_elem e_INT 7 = ''7''"
proof -
  have "text_value e_INT 5 = 5" "text_value e_INT 7 = 7"
    by (simp_all add: getTINT16_def)
  then show "toString_elem e_INT 5 = ''5''" "toString_elem e_INT 7 = ''7''"
    by (simp_all add: toString_elem_def digits_loop.simps digit_char_def char_of_eq_iff)
qed

lemma demo_fits:
  "place_type objs pl = Simple e_INT \<Longrightarrow> fitting_text objs pl (Cell 5) []"
  "place_type objs pl = Simple e_INT \<Longrightarrow> fitting_text objs pl (Cell 7) []"
  "place_type objs pl = Simple e_INT \<Longrightarrow> fitting_text objs pl (Cell 5) '';''"
  by (simp_all add: fitting_text_def demo_texts getTINT16_def ends_number_def c_str_def isDigit_def)

lemma demo_pins: "pins_fit demo_block (demo_objects [Some ''F''])"
  by (simp add: pins_fit_def demo_block_def demo_spec_def demo_objects_def demo_live_def cgInvalidPortId_def)

lemma demo_slot_nums:
  "slot_num (mInterfaceSpec demo_block) (DI_Slot 0) = Some 0" "slot_num (mInterfaceSpec demo_block) (DI_Slot 1) = Some 1"
  "length (mForces demo_block) = 64" "\<not> isForced 0 demo_block" "\<not> isForced 1 demo_block"
  by (simp_all add: demo_block_def isForced_def no_forces_def)

lemma demo_write:
  assumes "live_ok example_runtime st" "lv_tree st = demo_tree" "same_layout (lv_objects st) demo_objects"
    and "\<And>objs pl. place_type objs pl = Simple e_INT \<Longrightarrow> fitting_text objs pl x []"
  shows "\<exists>st'. writeValue example_runtime (demo_pin ''IN'') (any_toString (Simple e_INT) x) False st = Some (Ready, st') \<and>
    live_ok example_runtime st' \<and> lv_tree st' = demo_tree \<and> same_layout (lv_objects st') demo_objects"
proof -
  let ?pl = "([Some ''F''], DI_Slot 0, [])"
  have get: "getVar example_runtime (lv_objects st) (demo_pin ''IN'') (lv_tree st) = Some ?pl"
    using getVar_layout [OF assms(3)] demo_places(1) assms(2) by (simp del: getVar.simps)
  have type: "place_type (lv_objects st) ?pl = Simple e_INT"
    using place_type_layout [OF assms(3) getVar_place_in [OF get]] demo_types(1) by simp
  obtain w where w: "writeValue example_runtime (demo_pin ''IN'') (any_toString (Simple e_INT) x) False st =
      Some (Ready, emplace_initial (demo_pin ''IN'') (any_toString (Simple e_INT) x)
        (st\<lparr>lv_objects := put_value ?pl w (lv_objects st)\<rparr>))"
    using writeValue_fits [OF live_okD(2) [OF assms(1)] get type assms(4) [OF type]] demo_inout assms(2)
    by (auto simp del: getVar.simps inout_output.simps any_toString.simps)
  then show ?thesis
    using writeValue_ok [OF w assms(1)] put_value_layout [OF getVar_place_in [OF get], of w] assms(2,3)
    by (simp add: same_layout_def)
qed

section \<open>Properties\<close>

text \<open>C20: A query for the blocks gives one line for each block that names lead to through containers that are no blocks, with
  the names joined by dots, its type and its state, and no other line.\<close>

theorem query_lists_blocks:
  assumes "runtime_ok rt" "container_ok rt c"
  shows "queryFBs v objs [] c = v @ concat (map (listed_line objs []) (listed c)) \<and>
    (\<forall>ns x. (ns, x) \<in> set (listed c) \<longleftrightarrow> leads_to_block rt ns c x)"
  using queryFBs_listed(1) listed_iff [OF assms] by blast

lemma query_lists_blocks_witness:
  "queryFBs [] demo_objects [] demo_tree = listed_line demo_objects [] ([Some ''F''], demo_child) \<and>
    leads_to_block example_runtime [Some ''F''] demo_tree demo_child"
proof -
  have "listed demo_tree = [([Some ''F''], demo_child)]"
    using demo_follow(4) by (simp add: demo_tree_def demo_containers)
  then show ?thesis
    using query_lists_blocks [OF example_runtime_ok demo_tree_ok, of "[]" demo_objects]
    by (auto simp del: leads_to_block.simps)
qed

text \<open>C19: The lists of watches implement sets.  A watch that is added is in the set of the data points or of the
  events of its block, a removed one is in neither, and a removal that finds nothing says so; a block
  stays in the list from the first attempt to watch something of it, even a failed one, until the last of
  its watches is removed.  Adding is undefined exactly when the names lead to a block and none is left
  for a port.\<close>

theorem watch_lists_refine_sets:
  assumes "runtime_ok rt" "monitor_ok rt (mFBMonitoringList st)"
  shows "(case addWatch rt ns st of
        None \<Rightarrow> \<exists>p fbNames. monitor_getFB rt ns (lv_tree st) = Some (p, fbNames, [])
      | Some (r, st') \<Rightarrow> monitor_ok rt (mFBMonitoringList st') \<and> st' = st\<lparr>mFBMonitoringList := mFBMonitoringList st'\<rparr> \<and>
          (r, watches (mFBMonitoringList st')) = spec_add (watch_point rt ns st) (watches (mFBMonitoringList st))) \<and>
    (case removeWatch rt ns st of
       (r, st') \<Rightarrow> monitor_ok rt (mFBMonitoringList st') \<and> st' = st\<lparr>mFBMonitoringList := mFBMonitoringList st'\<rparr> \<and>
          (r, watches (mFBMonitoringList st')) = spec_remove (watch_point rt ns st) (watches (mFBMonitoringList st)))"
proof
  show "case addWatch rt ns st of
        None \<Rightarrow> \<exists>p fbNames. monitor_getFB rt ns (lv_tree st) = Some (p, fbNames, [])
      | Some (r, st') \<Rightarrow> monitor_ok rt (mFBMonitoringList st') \<and> st' = st\<lparr>mFBMonitoringList := mFBMonitoringList st'\<rparr> \<and>
          (r, watches (mFBMonitoringList st')) = spec_add (watch_point rt ns st) (watches (mFBMonitoringList st))"
    using addWatch_refines [OF assms] addWatch_undefined_iff [of rt ns st] by (auto split: option.splits)
  show "case removeWatch rt ns st of
       (r, st') \<Rightarrow> monitor_ok rt (mFBMonitoringList st') \<and> st' = st\<lparr>mFBMonitoringList := mFBMonitoringList st'\<rparr> \<and>
          (r, watches (mFBMonitoringList st')) = spec_remove (watch_point rt ns st) (watches (mFBMonitoringList st))"
    using removeWatch_refines [OF assms] by (simp split: prod.splits)
qed

lemma watch_lists_refine_sets_witness:
  "\<exists>r st'. addWatch example_runtime (demo_pin ''IN'') (demo_state []) = Some (r, st') \<and>
    (r, watches (mFBMonitoringList st')) =
      spec_add (watch_point example_runtime (demo_pin ''IN'') (demo_state [])) (watches [])"
proof -
  have "monitor_getFB example_runtime (demo_pin ''IN'') demo_tree = Some ([0], [Some ''F''], [Some ''IN''])"
    using demo_getChild demo_follow(4) by (simp add: monitor_getFB_def demo_containers)
  then show ?thesis
    using watch_lists_refine_sets [OF example_runtime_ok, of "demo_state []" "demo_pin ''IN''"] demo_watch_ok
      demo_follow(3,5) by (simp split: option.splits prod.splits)
qed

text \<open>C17: Whatever creations, deletions, executions, reads, writes, forces, triggers, watches and queries a resource is
  asked for, whatever connections its connection commands make, and whatever values its blocks assign to their pins and
  variables in between, the tree stays sorted, every pin and variable has a value of its type, and the watches stay
  sorted.  What a block assigns has the form of the value it replaces, as the assignment of a C++ variable does.\<close>

theorem sessions_keep_values:
  assumes "env_ok env" "live_ok (e_rt env) st0" "live_reachable env st0 st"
  shows "live_ok (e_rt env) st"
  using assms(3)
proof induction
  case (command st cmd r cmd' st')
  then show ?case
    using live_execute_ok assms(1) by blast
next
  case (run st objs d)
  then show ?case
    using run_ok by blast
qed (rule assms(2))

lemma sessions_keep_values_witness:
  "\<exists>cmd' st'. live_execute demo_env (demo_command Write (demo_pin ''IN'')) (demo_state []) = Some (Ready, cmd', st') \<and>
    live_ok example_runtime st'"
proof -
  note ok = demo_state_ok [OF demo_watch_ok(2)]
  obtain st' where "writeValue example_runtime (demo_pin ''IN'') ''5'' False (demo_state []) = Some (Ready, st')"
    using demo_write [OF ok _ _ demo_fits(1)] by (auto simp: same_layout_def demo_texts)
  then have run: "live_execute demo_env (demo_command Write (demo_pin ''IN'')) (demo_state []) =
      Some (Ready, demo_command Write (demo_pin ''IN''), st')"
    by (simp add: live_execute_def front_of_empty_def demo_command_def with_cmd_def)
  then have "live_reachable demo_env (demo_state []) st'"
    by (intro live_reachable.command [OF live_reachable.start]) (auto simp: demo_command_def)
  then show ?thesis
    using sessions_keep_values [OF demo_env_ok] ok run by auto
qed



text \<open>A text that starts with a value of the pin's type but goes on behind it is refused with BAD_PARAMS, for a write
  as for a force, and yet the pin has the value it starts with.\<close>

theorem refused_write_changes_value:
  assumes "objects_ok (lv_objects st)" "getVar rt (lv_objects st) ns (lv_tree st) = Some pl"
    and "fitting_text (lv_objects st) pl x r" "r \<noteq> []"
  shows "\<exists>st'. writeValue rt ns (any_toString (place_type (lv_objects st) pl) x @ r) force st = Some (BadParams, st') \<and>
    same_value (place_type (lv_objects st) pl) x (place_value (lv_objects st') pl) \<and>
    st' = st\<lparr>lv_objects := put_value pl (place_value (lv_objects st') pl) (lv_objects st)\<rparr>"
proof -
  obtain w where "writeValue rt ns (any_toString (place_type (lv_objects st) pl) x @ r) force st =
      Some (BadParams, st\<lparr>lv_objects := put_value pl w (lv_objects st)\<rparr>)"
      "place_value (put_value pl w (lv_objects st)) pl = w" "same_value (place_type (lv_objects st) pl) x w"
    using writeValue_too_long [OF assms] by blast
  then show ?thesis
    by (intro exI [of _ "st\<lparr>lv_objects := put_value pl w (lv_objects st)\<rparr>"]) simp
qed

lemma refused_write_changes_value_witness:
  "\<exists>st'. writeValue example_runtime (demo_pin ''IN'') ''5;'' False (demo_state []) = Some (BadParams, st') \<and>
    place_value (lv_objects st') ([Some ''F''], DI_Slot 0, []) \<noteq> Cell 7"
proof -
  obtain st' where "writeValue example_runtime (demo_pin ''IN'') (any_toString (Simple e_INT) (Cell 5) @ '';'') False (demo_state []) =
      Some (BadParams, st')" "same_value (Simple e_INT) (Cell 5) (place_value (lv_objects st') ([Some ''F''], DI_Slot 0, []))"
    using refused_write_changes_value [of "demo_state []" example_runtime "demo_pin ''IN''" "([Some ''F''], DI_Slot 0, [])"
        "Cell 5" "'';''" False] demo_objects_ok demo_places(1) demo_types demo_fits(3)
    by (auto simp del: getVar.simps any_toString.simps)
  then show ?thesis
    by (auto simp: demo_texts getTINT16_def)
qed

text \<open>C29: A string is read without quotes and can only be written with them: writing back the text that was read, as long
  as it has no apostrophe, is refused with BAD_PARAMS and empties the string.  A text of ASCII
  characters is read as it is.\<close>

theorem written_back_string_is_emptied:
  assumes "objects_ok (lv_objects st)" "getVar rt (lv_objects st) ns (lv_tree st) = Some pl"
    and "place_type (lv_objects st) pl = Simple e_STRING" "place_value (lv_objects st) pl = Chars s"
    and "s \<noteq> []" "apostrophe \<notin> set s" "CHR 0x00 \<notin> set s"
  shows "\<exists>t. readValue rt ns [] st = (Ready, transformNonEscapedToEscapedXMLText t 0) \<and>
    (list_all (\<lambda>ch. char_code ch < 128) s \<longrightarrow> t = s) \<and>
    (\<exists>st'. writeValue rt ns t force st = Some (BadParams, st') \<and> place_value (lv_objects st') pl = Chars [])"
proof -
  define t where "t = STRING_toUTF8 s"
  have t: "t \<noteq> []" "apostrophe \<notin> set t" "CHR 0x00 \<notin> set t"
    using assms(5-7) STRING_toUTF8_nonempty STRING_toUTF8_chars by (auto simp: t_def char_code_def)
  have "readValue rt ns [] st = (Ready, transformNonEscapedToEscapedXMLText t 0)"
    using assms(2-4) t(1) by (auto simp: readValue_def read_text_def t_def Let_def)
  moreover have "writeValue rt ns t force st =
      Some (BadParams, st\<lparr>lv_objects := put_value pl (Chars []) (lv_objects st)\<rparr>)"
    using assms(2-4) t by (simp add: writeValue_def finish_write_def c_str_id unquoted_STRING)
  moreover have "place_value (put_value pl (Chars []) (lv_objects st)) pl = Chars []"
    by (rule live.get_put [OF assms(1,2)])
  ultimately show ?thesis
    using STRING_toUTF8_ascii by (auto simp: t_def list_all_iff)
qed

lemma written_back_string_is_emptied_witness:
  "\<exists>t. readValue example_runtime (demo_pin ''NAME'') [] (demo_state []) = (Ready, transformNonEscapedToEscapedXMLText t 0) \<and>
    t = ''on'' \<and>
    (\<exists>st'. writeValue example_runtime (demo_pin ''NAME'') t False (demo_state []) = Some (BadParams, st') \<and>
       place_value (lv_objects st') ([Some ''F''], DI_Slot 2, []) = Chars [])"
  using written_back_string_is_emptied [of "demo_state []" example_runtime "demo_pin ''NAME''" "([Some ''F''], DI_Slot 2, [])"
      "''on''" False] demo_objects_ok demo_places(3) demo_types
  by (simp add: char_code_def del: getVar.simps)

text \<open>C21: What a force command for a pin of a block answers and does.  The pin gets the value in any case.  For a member
  of a structure the answer is NO_SUCH_OBJECT; for the pin itself it is Ready, but the pin is forced only if its
  number is one of the 64 the block has a flag for.\<close>

theorem force_answers:
  assumes "runtime_ok rt" "objects_ok (lv_objects st)"
    and "getVar rt (lv_objects st) ns (lv_tree st) = Some (bs, s, p)"
    and "follow_names rt bs (lv_tree st) = Some x" "node_block x = Some b" "mChildren x = []"
    and "pins_fit b (lv_objects st bs)" "slot_num (mInterfaceSpec b) s = Some num"
    and "fitting_text (lv_objects st) (bs, s, p) v []"
  defines "ty \<equiv> place_type (lv_objects st) (bs, s, p)"
  shows "\<exists>st' x' b'. writeValue rt ns (any_toString ty v) True st = Some (if p = [] then Ready else NoSuchObject, st') \<and>
    same_value ty v (place_value (lv_objects st') (bs, s, p)) \<and>
    follow_names rt bs (lv_tree st') = Some x' \<and> node_block x' = Some b' \<and>
    (isForced num b' \<longleftrightarrow> isForced num b \<or> p = [] \<and> num < length (mForces b))"
proof -
  obtain w where w: "any_fromString ty (c_str (any_toString ty v)) (place_value (lv_objects st) (bs, s, p)) =
      Some (int (length (any_toString ty v)), w)" "same_value ty v w" "any_toString ty v \<noteq> []"
    using fitting_text_parsed [OF assms(2,3,9)] by (auto simp: ty_def)
  define objs where "objs = put_value (bs, s, p) w (lv_objects st)"
  define st1 where "st1 = st\<lparr>lv_objects := objs\<rparr>"
  note place = getVar_place_in [OF assms(3)]
  have lay: "same_layout objs (lv_objects st)"
    unfolding objs_def by (rule put_value_layout [OF place])
  have get: "getVar rt objs ns (lv_tree st) = Some (bs, s, p)"
    using live.find_put [OF assms(3)] assms(3) by (simp add: objs_def)
  have value_w: "place_value objs (bs, s, p) = w"
    unfolding objs_def by (rule live.get_put [OF assms(2,3)])
  have "layout (objs bs) = layout (lv_objects st bs)"
    using lay by (simp add: same_layout_def)
  then have fit: "pins_fit b (objs bs)"
    using assms(7) layout_lengths [of "objs bs" "lv_objects st bs"] by (simp add: pins_fit_def)
  note pin = setForced_names_pin [OF assms(1) get assms(4-6) fit assms(8), of True]
  have run: "writeValue rt ns (any_toString ty v) True st =
      finish_write rt ns (any_toString ty v) True (bs, s, p) (int (length (any_toString ty v))) st1"
    using w(1,3) assms(3) by (simp add: writeValue_def ty_def st1_def objs_def)
  show ?thesis
  proof (cases "p = []")
    case False
    then have "writeValue rt ns (any_toString ty v) True st = Some (NoSuchObject, st1)"
      using run pin(1) by (simp add: finish_write_def st1_def)
    then show ?thesis
      using False w(2) value_w assms(4,5) by (simp add: st1_def)
  next
    case True
    obtain c' objs' x' b' where c': "setForced_names rt ns True (lv_tree st) objs = (True, c', objs')"
        "follow_names rt bs c' = Some x'" "node_block x' = Some b'" "mForces b' = (mForces b)[num := True]"
      using pin(2,3) True assms(4,5) by (cases "num < length (mForces b)") (auto simp: list_update_beyond)
    define st2 where "st2 = emplace_initial ns (any_toString ty v) (st1\<lparr>lv_tree := c', lv_objects := objs'\<rparr>)"
    have "writeValue rt ns (any_toString ty v) True st = Some (Ready, st2)"
      using run c'(1) by (simp add: finish_write_def st1_def st2_def)
    moreover have "place_value objs' (bs, s, p) = w"
      using setForced_names_value [OF c'(1)] value_w by simp
    moreover have "isForced num b' \<longleftrightarrow> isForced num b \<or> num < length (mForces b)"
      using c'(4) by (auto simp: isForced_def nth_list_update)
    ultimately show ?thesis
      using True w(2) c'(2,3) by (intro exI [of _ st2] exI [of _ x'] exI [of _ b']) (simp add: st2_def)
  qed
qed

lemma force_answers_witness:
  "(\<exists>st'. writeValue example_runtime (demo_pin ''IN'') ''5'' True (demo_state []) = Some (Ready, st')) \<and>
   (\<exists>st'. writeValue example_runtime (demo_pin ''POS'' @ [Some ''x'']) ''5'' True (demo_state []) = Some (NoSuchObject, st'))"
  using force_answers [of example_runtime "demo_state []" "demo_pin ''IN''" "[Some ''F'']" "DI_Slot 0" "[]"
      demo_child demo_block 0 "Cell 5"]
    force_answers [of example_runtime "demo_state []" "demo_pin ''POS'' @ [Some ''x'']" "[Some ''F'']" "DI_Slot 1" "[0]"
      demo_child demo_block 1 "Cell 5"]
    example_runtime_ok demo_objects_ok demo_places(1,2) demo_follow(1,3) demo_containers(4) demo_pins demo_slot_nums(1,2)
    demo_fits(1) demo_types(1,2) demo_texts(1)
  by (auto simp del: getVar.simps follow_names.simps slot_num.simps)

text \<open>C28: Of the values that are written to a pin while the resource is idle, a reset restores the first, not the last.\<close>

theorem reset_restores_first_value:
  assumes "live_ok rt st" "getVar rt (lv_objects st) ns (lv_tree st) = Some pl"
    and "kind_state (mKind (lv_tree st)) = Some Idle" "mInitialValues st = []"
    and "place_type (lv_objects st) pl = ty"
    and "fitting_text (lv_objects st) pl x []" "fitting_text (lv_objects st) pl y []"
    and "writeValue rt ns (any_toString ty x) False st = Some (Ready, st1)"
    and "writeValue rt ns (any_toString ty y) False st1 = Some (Ready, st2)"
  shows "same_value ty y (place_value (lv_objects st2) pl) \<and>
    (\<exists>st3. set_initial_values rt (mInitialValues st2) st2 = Some st3 \<and> same_value ty x (place_value (lv_objects st3) pl))"
proof -
  have "live_ok rt st1"
    by (rule writeValue_ok [OF assms(8,1)])
  moreover from this have "live_ok rt st2"
    by (rule writeValue_ok [OF assms(9)])
  ultimately have ok: "objects_ok (lv_objects st)" "objects_ok (lv_objects st1)" "objects_ok (lv_objects st2)"
    using assms(1) by (simp_all add: live_ok_def)
  obtain w1 where w1: "same_layout (lv_objects st) (lv_objects st1)" "lv_tree st1 = lv_tree st"
      "mInitialValues st1 = [(ns, any_toString ty x)]"
    using writeValue_Ready [OF assms(8) ok(1) assms(2)] assms(3,4) by (auto simp: emplace_initial_def)
  have get1: "getVar rt (lv_objects st1) ns (lv_tree st1) = Some pl"
    using getVar_layout [OF w1(1)] w1(2) assms(2) by simp
  note ty1 = place_type_layout [OF w1(1) getVar_place_in [OF assms(2)]]
  obtain w2 where w2: "any_fromString ty (c_str (any_toString ty y)) (place_value (lv_objects st1) pl) =
        Some (int (length (any_toString ty y)), w2)" "place_value (lv_objects st2) pl = w2"
      "same_layout (lv_objects st1) (lv_objects st2)" "lv_tree st2 = lv_tree st1"
      "mInitialValues st2 = [(ns, any_toString ty x)]"
    using writeValue_Ready [OF assms(9) ok(2) get1] w1(3) ty1 assms(5) by (auto simp: emplace_initial_def)
  have "fitting_text (lv_objects st1) pl y []"
    using assms(7) ty1 by (simp add: fitting_text_def)
  then have y: "same_value ty y w2"
    using fitting_text_parsed [OF ok(2) get1, of y "[]"] w2(1) ty1 assms(5) by simp
  have get2: "getVar rt (lv_objects st2) ns (lv_tree st2) = Some pl"
    using getVar_layout [OF w2(3)] w2(4) get1 by simp
  have ty2: "place_type (lv_objects st2) pl = ty"
    using place_type_layout [OF w2(3) getVar_place_in [OF get1]] ty1 assms(5) by simp
  have "fitting_text (lv_objects st2) pl x []"
    using assms(5,6) ty2 by (simp add: fitting_text_def)
  then obtain w3 where w3: "any_fromString ty (c_str (any_toString ty x)) (place_value (lv_objects st2) pl) =
        Some (int (length (any_toString ty x)), w3)" "same_value ty x w3"
    using fitting_text_parsed [OF ok(3) get2, of x "[]"] ty2 by auto
  obtain st3 where "set_initial_values rt [(ns, any_toString ty x)] st2 = Some st3" "place_value (lv_objects st3) pl = w3"
    using single_initial_value [OF ok(3) get2, of "any_toString ty x"] w3(1) ty2 by auto
  then show ?thesis
    using y w2(2,5) w3(2) by auto
qed

lemma reset_restores_first_value_witness:
  "\<exists>st1 st2 st3. writeValue example_runtime (demo_pin ''IN'') ''5'' False (demo_state []) = Some (Ready, st1) \<and>
    writeValue example_runtime (demo_pin ''IN'') ''7'' False st1 = Some (Ready, st2) \<and>
    set_initial_values example_runtime (mInitialValues st2) st2 = Some st3"
proof -
  note ok = demo_state_ok [OF demo_watch_ok(2)]
  obtain st1 where st1: "writeValue example_runtime (demo_pin ''IN'') (any_toString (Simple e_INT) (Cell 5)) False (demo_state []) =
      Some (Ready, st1)" "live_ok example_runtime st1" "lv_tree st1 = demo_tree" "same_layout (lv_objects st1) demo_objects"
    using demo_write [OF ok _ _ demo_fits(1)] by (auto simp: same_layout_def)
  obtain st2 where st2: "writeValue example_runtime (demo_pin ''IN'') (any_toString (Simple e_INT) (Cell 7)) False st1 =
      Some (Ready, st2)"
    using demo_write [OF st1(2-4) demo_fits(2)] by auto
  have "\<exists>st3. set_initial_values example_runtime (mInitialValues st2) st2 = Some st3"
    using reset_restores_first_value [OF ok _ _ _ _ _ _ st1(1) st2, of "([Some ''F''], DI_Slot 0, [])"] demo_places(1)
      demo_types(1) demo_fits(1,2) by (auto simp: demo_containers kind_state_def example_block_def simp del: getVar.simps any_toString.simps)
  then show ?thesis
    using st1(1) st2 by (simp add: demo_texts)
qed

text \<open>C22: Deleting a block does not look at its watches.  When a watched block has been deleted, its watches are still in the
  list, and reading the watches of the resource follows a pointer to the deleted block.\<close>

theorem deleting_leaves_dangling_watch:
  assumes "env_ok env" "live_ok (e_rt env) st" "e \<in> set (mFBMonitoringList st)" "me_names e = mFirstParam cmd"
    and "mWatchedDataPoints e \<noteq> [] \<or> mWatchedEventPoints e \<noteq> []"
    and "mCMD cmd = DeleteFBInstance" "live_execute env cmd st = Some (Ready, cmd', st')"
  shows "mFBMonitoringList st' = mFBMonitoringList st \<and> readWatches (e_rt env) st' = None"
proof -
  let ?rt = "e_rt env"
  have rt: "runtime_ok ?rt"
    using assms(1) by (simp add: env_ok_def)
  have run: "tree_command env cmd st = Some (Ready, cmd', st')" and dest: "mDestination cmd = None"
    using assms(6,7) by (auto simp: live_execute_def Let_def split: if_splits)
  define c where "c = snd (deleteFB ?rt (mFirstParam cmd) (lv_tree st))"
  have "fst (deleteFB ?rt (mFirstParam cmd) (lv_tree st)) = Ready"
      and st': "lv_tree st' = c" "mFBMonitoringList st' = mFBMonitoringList st"
    using run assms(6) dest
    by (auto simp: tree_command_def command_values_def executeMGMCommand_def front_of_empty_def keep_cmd_def Let_def c_def)
  then have c: "deleteFB ?rt (mFirstParam cmd) (lv_tree st) = (Ready, c)"
    by (simp add: c_def prod_eq_iff)
  have "follow_names ?rt (me_names e) (lv_tree st') = None"
    using follow_deleted [OF rt live_okD(1) [OF assms(2)] c] by (simp add: st'(1) assms(4))
  then have "update_entry ?rt st' e = None"
    using assms(5) by (auto simp: update_entry_def deref_FB_def)
  then have "update_all (update_entry ?rt st') es = None" if "e \<in> set es" for es
    using that by (induction es) (auto split: option.split)
  then have "update_all (update_entry ?rt st') (mFBMonitoringList st') = None"
    using assms(3) st'(2) by simp
  moreover have "mFBMonitoringList st' \<noteq> []"
    using assms(3) st'(2) by auto
  ultimately show ?thesis
    using st'(2) by (simp add: readWatches_def readResourceWatches_def updateMonitoringData_def)
qed

lemma deleting_leaves_dangling_watch_witness:
  "\<exists>cmd' st'. live_execute demo_env (demo_command DeleteFBInstance [Some ''F'']) (demo_state [demo_watch]) =
      Some (Ready, cmd', st') \<and> readWatches example_runtime st' = None"
proof -
  let ?cmd = "demo_command DeleteFBInstance [Some ''F'']"
  have it: "getChildrenIterator example_runtime (Some ''F'') [demo_child] = 0"
    "isChild example_runtime 0 (Some ''F'') [demo_child]"
    by (simp_all add: getChildrenIterator_def isChild_def lower_bound_def id_less_def id_eq_def demo_containers)
  obtain st' where "live_execute demo_env ?cmd (demo_state [demo_watch]) = Some (Ready, ?cmd, st')"
    by (simp add: live_execute_def tree_command_def command_values_def executeMGMCommand_def front_of_empty_def keep_cmd_def
        demo_command_def demo_containers it demo_follow(4) child_deleteable_def isCurrentlyDeleteable_def demo_block_def)
  then show ?thesis
    using deleting_leaves_dangling_watch [OF demo_env_ok, of "demo_state [demo_watch]" demo_watch ?cmd ?cmd st']
      demo_state_ok [OF demo_watch_ok(1)] by (simp add: demo_watch_def demo_command_def)
qed

text \<open>C27: Names behind the last block that exists are not looked at: an execution command for an unknown block works on the
  block or resource that should contain it, so that stopping an unknown block of a resource stops the whole resource;
  and triggering or resetting the event of an unknown block does it to the event of that name of the containing one.\<close>

theorem unknown_names_reach_container:
  assumes "getFB rt ns (lv_tree st) = Some (p, [])" "getChild rt n (mChildren (node_at p (lv_tree st))) = None"
  shows "handleExecutionStateCmd rt setInit sample cmd (ns @ n # rest) (lv_tree st) =
      handleExecutionStateCmd rt setInit sample cmd ns (lv_tree st) \<and>
    triggerEvent_command writeOutput rt (ns @ n # rest @ [ev]) st = triggerEvent_command writeOutput rt (ns @ [ev]) st \<and>
    resetEventCount rt (ns @ n # rest @ [ev]) st = resetEventCount rt (ns @ [ev]) st"
proof -
  note names = monitor_getFB_surplus [OF assms]
  have cut: "butlast (ns @ n # rest @ [ev]) = ns @ n # rest" "last (ns @ n # rest @ [ev]) = ev"
    by (simp_all add: butlast_append)
  have root: "ns = [] \<Longrightarrow> p = []"
    using assms(1) by (auto split: if_splits)
  have "handleExecutionStateCmd rt setInit sample cmd (ns @ n # rest) (lv_tree st) =
      handleExecutionStateCmd rt setInit sample cmd ns (lv_tree st)"
    using getFB_surplus [OF assms, of rest] assms(1) root by (auto simp: handleExecutionStateCmd_def)
  moreover have "triggerEvent_command writeOutput rt (ns @ n # rest @ [ev]) st = triggerEvent_command writeOutput rt (ns @ [ev]) st"
    using names by (cases "node_block (node_at p (lv_tree st))") (simp_all add: triggerEvent_command_def cut Let_def)
  moreover have "resetEventCount rt (ns @ n # rest @ [ev]) st = resetEventCount rt (ns @ [ev]) st"
    using names by (cases "node_block (node_at p (lv_tree st))") (simp_all add: resetEventCount_def cut Let_def)
  ultimately show ?thesis
    by simp
qed

lemma unknown_names_reach_container_witness:
  "triggerEvent_command (\<lambda>_ _ lb. lb) example_runtime [Some ''F'', Some ''no'', Some ''REQ''] (demo_state []) =
      triggerEvent_command (\<lambda>_ _ lb. lb) example_runtime [Some ''F'', Some ''REQ''] (demo_state [])"
  using unknown_names_reach_container [of example_runtime "[Some ''F'']" "demo_state []" "[0]" "Some ''no''" id id Stop "[]"
      "\<lambda>_ _ lb. lb" "Some ''REQ''"] demo_follow(2,5) demo_getChild(2)
  by (simp del: getFB.simps)

end
