(* ===== verification/Spec2Isabelle.thy ===== *)
theory Spec2Isabelle
imports Mgm_Cmd String_Id FB_Network Timed_FB Asn1_Layer Command_Parser Unicode Compound_Text Com_Sessions Resource_Properties
begin

text \<open>
  Verification of the execution core of 4diac FORTE, a runtime for IEC 61499 function blocks.

  The program.  A FORTE device holds resources, a resource holds function blocks.  A block has event
  and data pins described by an interface specification.  Event connections go from an event output
  to any number of event inputs, data connections from one data output to data inputs.  An event
  chain execution thread takes events from a ring buffer and delivers each to its block, whose
  state machine (ECC) runs algorithms, writes output data to the connections and sends output
  events, which the thread appends to the same buffer.  Other threads (timers, network) start event
  chains through a second buffer guarded by a mutex and wake the thread with a semaphore.

  The theories, in the order they build on each other:

  \<^item> \<open>Prelude\<close>: basic types, marker constants, pins as references, word lemmas.
  \<^item> \<open>Ring_Buffer\<close> (\<open>core/include/forte/util/ringbuf.h\<close>): the buffer with its free-running
    64-bit indices; locale \<open>queue\<close> states the bounded queue contract, \<open>ringq\<close> is its
    interpretation.
  \<^item> \<open>Mgm_Cmd\<close> (\<open>mgmcmd.*\<close>, \<open>mgmcmdstruct.*\<close>): management commands and responses.
  \<^item> \<open>String_Id\<close> (\<open>stringid.*\<close>): interned strings.
  \<^item> \<open>Interface_Spec\<close> (\<open>interfacespec.*\<close>): the name and number look-ups.
  \<^item> \<open>Event_Chain\<close> (\<open>ecet.*\<close>, \<open>threadbase.h\<close>): the thread.  \<open>mainRun\<close> is one round of its loop;
    \<open>thread_step\<close> and \<open>reachable\<close> are the interleavings with the callers of
    \<open>startEventChain\<close> and of the management commands; locale \<open>event_receiver\<close> is what the thread
    relies on when it delivers an event.
  \<^item> \<open>Iec_Any\<close> (\<open>forte_any*\<close>, \<open>iec61131_functions\<close>): values of integer and BOOL pins in
    the 64-bit union, the functions on them, the cast tables and the test that decides whether two
    pins may be connected.
  \<^item> \<open>Function_Block\<close> (\<open>funcbloc.*\<close>, \<open>basicfb.*\<close>, \<open>eventconn.*\<close>, \<open>dataconn.*\<close>): the base class.
    A concrete block is a record that extends \<open>CFunctionBlock\<close>, its virtual functions are a record
    \<open>vtable\<close>.
  \<^item> \<open>FB_Class\<close>: locale \<open>fb_class\<close>, the contract between the base class and a concrete block, with
    the base class operations verified against it, and locale \<open>ecc_machine\<close> for the generated loop of
    \<open>executeEvent\<close>.
  \<^item> \<open>FB_Counters\<close>, \<open>FB_Bistables\<close>, \<open>FB_Routing\<close> (\<open>stdfblib/events\<close>): sixteen event blocks.  Each
    has its interface, pins, data transfer, algorithms, state machine and event entry functions as in
    its \<open>_fbt.cpp\<close> and \<open>_fbt.h\<close>, an interpretation of both locales, and a refinement of what the
    block is meant to do.
  \<^item> \<open>FB_Network\<close>: blocks of all classes in one network, run by the thread.  \<open>event_receiver\<close> is
    interpreted on the delivery to such a network.
  \<^item> \<open>Timer_Handler\<close> (\<open>timerha.*\<close>): the tick counter, the sorted list of timed blocks, the lists of
    blocks to add and remove that other threads fill, and one tick of the handler.
  \<^item> \<open>Timed_FB\<close> (\<open>timedfb.*\<close>, \<open>E_CYCLE\<close>, \<open>E_DELAY\<close>, \<open>E_RDELAY\<close>): the blocks that register with the
    timer handler and are called back by it.
  \<^item> \<open>Asn1_Layer\<close> (\<open>cominfra/fbdkasn1layer.*\<close>): the encoding of values as tagged bytes, and the layer
    of a communication block that sends them and puts received fragments together again.
  \<^item> \<open>FB_Container\<close> (\<open>fbcontainer.*\<close>, \<open>typelib.cpp\<close>, \<open>resource.cpp\<close>, \<open>device.cpp\<close>): the tree of
    containers and blocks, each level sorted by name, and the commands that create, find, delete and
    start or stop its elements.  What a type's creation function does is part of its entry in the
    type library.
  \<^item> \<open>Command_Parser\<close> (\<open>stdfblib/system/src/CommandParser.cpp\<close>, \<open>DEV_MGR.cpp\<close>, the XML escapes of
    \<open>core/src/util/string_utils.cpp\<close>): the text of requests and responses, and the device manager
    that parses a request, executes it on the container tree and answers it.
  \<^item> \<open>Value_Text\<close> (\<open>core/src/util/string_utils.cpp\<close>, \<open>forte_any_elementary.cpp\<close>, \<open>forte_bool.cpp\<close>):
    the number parsers and the text of integers, bit strings and BOOL.
  \<^item> \<open>Time_Text\<close> (\<open>forte_time.cpp\<close>, \<open>forte_ltime.cpp\<close>): the text of durations.
  \<^item> \<open>Char_Text\<close> (\<open>forte_any_chars.cpp\<close>, \<open>forte_string.cpp\<close>, \<open>forte_char.cpp\<close>, \<open>forte_wchar.cpp\<close>): the
    literals of characters and strings with their escapes.
  \<^item> \<open>Compound_Text\<close> (\<open>forte_array.cpp\<close>, \<open>forte_array_fixed.h\<close>, \<open>forte_struct.cpp\<close>): the text of arrays
    and structures over the simple types, nested in any way.  Locale \<open>text_form\<close> states that what a
    type prints it reads back, locale \<open>text_parser\<close> that a parser stays inside its text and keeps the
    shape of its variable; both are interpreted for every type.
  \<^item> \<open>Unicode\<close> (\<open>unicode_utils.cpp\<close>, \<open>forte_wstring.cpp\<close>): the encoders and decoders of UTF-8 and UTF-16
    and wide strings as UTF-16.
  \<^item> \<open>Sorted_Vector\<close>: vectors sorted by the address of a name and searched with \<open>lower_bound\<close>, as maps.
  \<^item> \<open>Com_Id\<close> (\<open>cominfra/comtypes.h\<close>, \<open>basecommfb.cpp\<close>): the codes of communication and the text that names
    a block's stack of layers.
  \<^item> \<open>Local_Groups\<close> (\<open>cominfra/localcomlayer.*\<close>): the groups in which local publishers and subscribers
    meet; locale \<open>group_registry\<close> is what a layer relies on, interpreted for both roles.
  \<^item> \<open>Com_FB\<close> (\<open>basecommfb.*\<close>, \<open>commfb.*\<close>, \<open>comlayer.*\<close>, \<open>localcomlayer.cpp\<close>, \<open>rawdatacomlayer.cpp\<close>):
    communication blocks over stacks of layers, and the local and the raw data layer.
  \<^item> \<open>Com_Exchange\<close>, \<open>Com_Events\<close>, \<open>Com_Sessions\<close>: the invariant of blocks, layers and groups; locale
    \<open>layer_library\<close>, the contract of a layer with the block operations verified against it, interpreted
    on the two layers; the reachable states, publishing, opening and closing, receiving, errors.

  \<^item> \<open>Live_Values\<close> (\<open>resource.cpp\<close>, \<open>getVar\<close> and \<open>setForced\<close> of \<open>fbcontainer.cpp\<close>, \<open>funcbloc.cpp\<close>, \<open>basefb.cpp\<close>,
    \<open>forte_struct.cpp\<close>): the values of the blocks of a resource, looked up by names, written, read, forced and
    reset; locale \<open>value_store\<close>, interpreted on the objects of a resource, says what look-up and update promise.
  \<^item> \<open>Monitoring\<close> (\<open>monitoring.h\<close>, \<open>monitoring.cpp\<close>): the watches; locale \<open>watch_vector\<close>, interpreted for
    data points and for events, is what the monitoring relies on of its sorted vectors.  \<open>Watch_Lists\<close>: the lists
    of watches as sets.
  \<^item> \<open>Resource_Commands\<close> (\<open>resource.cpp\<close>): queries for blocks and types, and all commands of a resource on its
    tree, its values and its watches together.
  \<^item> \<open>Live_Paths\<close>, \<open>Value_Commands\<close>, \<open>Resource_Sessions\<close>, \<open>Resource_Properties\<close>: look-ups in a changing tree,
    what a write and a force do, the invariant over any sequence of commands, and the properties with an example.

  What the lemmas show.  The buffers are bounded queues, nothing is delivered twice or out of order,
  and an event is lost only when a buffer is full.  No wake-up of the thread is lost.  The
  generated loops end: each \<open>X_rank\<close> bounds the passes left, so \<open>partial_function\<close> loops always return
  and no fuel is needed.  Delivery touches only the addressed block.  A forced output is frozen.
  Counters stop at the bounds of their types; the bistables are bits; the routing blocks and the
  rendezvous do what their names say.  Integer casts called implicit keep the number.  The timer
  handler calls a periodic block at exactly the multiples of its interval and a one-shot block once;
  the delay and cycle blocks send their events at those ticks, and stop when told to.  What
  an ASN.1 layer sends another receives; the cuts of the bytes at which a buffer is copied onto itself or the
  tag of an array is read behind the bytes are stated exactly, as are the variables at which the deserialiser
  leaves its buffer.  Every management command keeps the levels of the container tree sorted and free of
  duplicates, and so does every request text, so the binary searches are exact: what was created is
  found and can be deleted.  Printed requests are parsed back, values with escapes included.  The text
  of a value of any modelled type is read back as the same value where the code allows it; where it
  does not (collapsed arrays, negative numbers before a hash) the theorems say what happens.  No text
  makes a parser leave the type of its variable; those that read behind their text are listed.
  A value that a local publisher sends reaches exactly the subscribers of its group, no group names a
  deleted layer, and closing undoes opening; the uses of a deleted layer through a queued interrupt are
  characterised.  A session of commands, with any values that blocks assign in between, keeps every value in its type and the watches sorted; what is read
  can be written back, except strings; watches behave as sets; a query lists exactly the blocks; and the
  surprising answers of write, force, reset, trigger and delete are stated as they are.

  Choices.  A port number is a natural number.  An object address is a natural number and a network
  maps addresses to blocks.  A pointer to a pin is a reader and a writer.  Reads of a data
  connection are an argument \<open>env\<close>, which \<open>FB_Network\<close> instantiates.  Locks are the atomicity of
  the steps of \<open>thread_step\<close>.  Where the code reads behind a buffer or takes the front of an empty list, the result
  is \<open>None\<close>, and theorems say when.  What a resource does for its connections is an argument that gives
  any answer and any connections, reference counts and in-out references of the blocks.  \<open>Kill\<close> clears the main list from another thread without a lock and is
  not among the steps.

  Not modelled: operating system ports, communication protocols, drivers, bindings, tests (glue
  around libraries that are not part of the repository), and, because they rest on code that is not
  modelled, the commands of a resource for connections, the handlers a device disables on \<open>Kill\<close>, the queries for connections and for types other than
  those of blocks (adapters, member and in-out connections), values of type ANY, the text form of reals,
  dates and wide strings (floating point and the calendar of the platform), the IP and structure member layers (sockets),
  and the inner connections of composite blocks.
\<close>

end
